(* ===== verification/Prelude.thy ===== *)
theory Prelude
  imports Main "HOL-Library.AList" "HOL-Library.Multiset" "HOL-Library.Word"
begin

text \<open>
  Shared material of the development: the theorem collections, the model of the builtin map,
  string and integer types of the V language that the sources use, and the generic list and
  option lemmas the component theories rely on.

  \<^item> \<open>vmap\<close>: V's \<^verbatim>\<open>map[K]V\<close> iterates in insertion order, so it is an association list with
    distinct keys; \<open>m[k]\<close> is \<open>map_of\<close>, assignment is \<open>AList.update\<close>, \<open>delete\<close> is
    \<open>AList.delete\<close> and \<open>len\<close> is \<open>length\<close>.
  \<^item> strings are \<open>string\<close> (a V string is a sequence of bytes).
  \<^item> \<open>wrap_i32\<close> is the two's complement reading of V's and C's 32-bit \<^verbatim>\<open>int\<close> where a value may
    leave its range.
\<close>

section \<open>Theorem collections\<close>

named_theorems cache_simps "equations of the cache operations on represented states"
named_theorems route_simps "equations of the routing definitions"
named_theorems str_simps "equations of the modelled string functions"
named_theorems trace_simps "equations of the system call traces"
named_theorems heap_simps "equations of the pointer models"

section \<open>Integers of a fixed width\<close>

definition wrap_i32 :: "int \<Rightarrow> int" where
  "wrap_i32 x = (x + 2 ^ 31) mod 2 ^ 32 - 2 ^ 31"

lemma wrap_i32_id: "- (2 ^ 31) \<le> x \<Longrightarrow> x < 2 ^ 31 \<Longrightarrow> wrap_i32 x = x"
  by (simp add: wrap_i32_def)

lemma wrap_i32_range: "- (2 ^ 31) \<le> wrap_i32 x \<and> wrap_i32 x < 2 ^ 31"
proof -
  have "0 \<le> (x + 2 ^ 31) mod 2 ^ 32" and "(x + 2 ^ 31) mod 2 ^ 32 < (2::int) ^ 32"
    by simp_all
  then show ?thesis by (simp add: wrap_i32_def)
qed

definition wrap_i64 :: "int \<Rightarrow> int" where
  "wrap_i64 x = (x + 2 ^ 63) mod 2 ^ 64 - 2 ^ 63"

lemma wrap_i64_id: "- (2 ^ 63) \<le> x \<Longrightarrow> x < 2 ^ 63 \<Longrightarrow> wrap_i64 x = x"
  by (simp add: wrap_i64_def)

text \<open>V divides towards zero.\<close>

definition v_quot :: "int \<Rightarrow> int \<Rightarrow> int" where
  "v_quot a b = sgn a * sgn b * (\<bar>a\<bar> div \<bar>b\<bar>)"

section \<open>Maps in insertion order\<close>

type_synonym ('k, 'v) vmap = "('k \<times> 'v) list"

abbreviation vget :: "('k, 'v) vmap \<Rightarrow> 'k \<Rightarrow> 'v option" where
  "vget \<equiv> map_of"

abbreviation vset :: "'k \<Rightarrow> 'v \<Rightarrow> ('k, 'v) vmap \<Rightarrow> ('k, 'v) vmap" where
  "vset \<equiv> AList.update"

abbreviation vdel :: "'k \<Rightarrow> ('k, 'v) vmap \<Rightarrow> ('k, 'v) vmap" where
  "vdel \<equiv> AList.delete"

abbreviation vkeys :: "('k, 'v) vmap \<Rightarrow> 'k list" where
  "vkeys m \<equiv> map fst m"

abbreviation vmap_ok :: "('k, 'v) vmap \<Rightarrow> bool" where
  "vmap_ok m \<equiv> distinct (vkeys m)"

lemma vget_vset [simp]: "vget (vset k v m) = (vget m)(k \<mapsto> v)"
  by (simp add: update_conv')

lemma vget_vdel [simp]: "vget (vdel k m) = (vget m)(k := None)"
  by (simp add: delete_conv')

lemma vmap_ok_vset [simp]: "vmap_ok m \<Longrightarrow> vmap_ok (vset k v m)"
  by (rule distinct_update)

lemma vmap_ok_vdel [simp]: "vmap_ok m \<Longrightarrow> vmap_ok (vdel k m)"
  by (rule distinct_delete)

lemma vget_None_iff: "vget m k = None \<longleftrightarrow> k \<notin> set (vkeys m)"
  by (simp add: map_of_eq_None_iff)

lemma vset_new: "vget m k = None \<Longrightarrow> vset k v m = m @ [(k, v)]"
  by (induction m) (auto split: if_splits)

lemma length_vset_new: "vget m k = None \<Longrightarrow> length (vset k v m) = Suc (length m)"
  by (simp add: vset_new)

lemma length_vset_le: "length (vset k v m) \<le> Suc (length m)"
  by (induction m) auto

lemma length_vset_old: "k \<in> set (vkeys m) \<Longrightarrow> length (vset k v m) = length m"
  by (induction m) auto

lemma vget_Some_in: "vget m k = Some v \<Longrightarrow> (k, v) \<in> set m"
  by (rule map_of_SomeD)

lemma vmap_ok_get: "vmap_ok m \<Longrightarrow> (k, v) \<in> set m \<Longrightarrow> vget m k = Some v"
  by simp

lemma vdel_filter: "vdel k m = filter (\<lambda>e. fst e \<noteq> k) m"
  by (induction m) auto

lemma length_vdel:
  "vmap_ok m \<Longrightarrow> vget m k = Some v \<Longrightarrow> Suc (length (vdel k m)) = length m"
proof (induction m)
  case (Cons e m)
  show ?case
  proof (cases "fst e = k")
    case True
    with Cons.prems have "k \<notin> set (vkeys m)" by auto
    then have "vdel k m = m" by (auto simp: vdel_filter filter_id_conv image_iff)
    with True show ?thesis by simp
  next
    case False
    with Cons show ?thesis by (cases e) auto
  qed
qed simp

section \<open>Strings\<close>

abbreviation slash :: char where
  "slash \<equiv> CHR ''/''"

text \<open>\<^verbatim>\<open>s.split(d)\<close> for a one-byte delimiter: the pieces between the delimiters, the last one
  (possibly empty) included; \<^verbatim>\<open>''.split(d)\<close> is \<^verbatim>\<open>['']\<close>.\<close>

fun v_split :: "char \<Rightarrow> string \<Rightarrow> string list" where
  "v_split d [] = [[]]"
| "v_split d (c # cs) =
     (if c = d then [] # v_split d cs
      else (case v_split d cs of [] \<Rightarrow> [[c]] | p # ps \<Rightarrow> (c # p) # ps))"

definition v_contains :: "string \<Rightarrow> char \<Rightarrow> bool" where
  "v_contains s c = (c \<in> set s)"

definition v_count :: "string \<Rightarrow> char \<Rightarrow> nat" where
  "v_count s c = count_list s c"

fun v_starts_with :: "string \<Rightarrow> string \<Rightarrow> bool" where
  "v_starts_with s [] = True"
| "v_starts_with [] (p # ps) = False"
| "v_starts_with (c # cs) (p # ps) = (c = p \<and> v_starts_with cs ps)"

text \<open>\<^verbatim>\<open>s.replace(c, t)\<close> for a one-byte pattern.\<close>

definition v_replace :: "char \<Rightarrow> string \<Rightarrow> string \<Rightarrow> string" where
  "v_replace c t s = concat (map (\<lambda>x. if x = c then t else [x]) s)"

lemma v_split_nonempty [simp]: "v_split d s \<noteq> []"
  by (induction s) (auto split: list.splits)

lemma v_starts_with_iff [str_simps]: "v_starts_with s p \<longleftrightarrow> (\<exists>t. s = p @ t)"
  by (induction s p rule: v_starts_with.induct) auto

lemma length_v_split: "length (v_split d s) = Suc (count_list s d)"
  by (induction s) (auto split: list.splits simp: Suc_length_conv)

text \<open>Joining with a delimiter: splitting undoes joining when no piece holds the delimiter.\<close>

fun join_with :: "char \<Rightarrow> string list \<Rightarrow> string" where
  "join_with d [] = []"
| "join_with d [p] = p"
| "join_with d (p # q # ps) = p @ d # join_with d (q # ps)"

lemma v_split_append_delim:
  "d \<notin> set p \<Longrightarrow> v_split d (p @ d # s) = p # v_split d s"
  by (induction p) auto

lemma v_split_no_delim: "d \<notin> set p \<Longrightarrow> v_split d p = [p]"
  by (induction p) auto

lemma v_split_join:
  "ps \<noteq> [] \<Longrightarrow> \<forall>p \<in> set ps. d \<notin> set p \<Longrightarrow> v_split d (join_with d ps) = ps"
  by (induction d ps rule: join_with.induct) (auto simp: v_split_append_delim v_split_no_delim)

lemma join_v_split: "join_with d (v_split d s) = s"
proof (induction s)
  case (Cons c s)
  obtain p ps where ps: "v_split d s = p # ps"
    by (cases "v_split d s") auto
  with Cons show ?case by (cases ps) auto
qed simp

lemma v_split_no_delim_in: "p \<in> set (v_split d s) \<Longrightarrow> d \<notin> set p"
proof (induction s arbitrary: p)
  case (Cons c s)
  then show ?case by (cases "v_split d s") (auto split: if_splits)
qed simp

text \<open>\<^verbatim>\<open>s.contains(p)\<close> and \<^verbatim>\<open>s.replace(p, t)\<close> for a pattern of several bytes: replacement goes from left to right
  and continues behind the replaced text.\<close>

fun v_contains_str :: "string \<Rightarrow> string \<Rightarrow> bool" where
  "v_contains_str [] p = (p = [])"
| "v_contains_str (c # cs) p = (v_starts_with (c # cs) p \<or> v_contains_str cs p)"

lemma contains_two: "v_contains_str s [c, d] \<Longrightarrow> v_contains s c"
proof (induction s)
  case (Cons x xs)
  then show ?case by (cases xs) (auto simp: v_contains_def)
qed simp

function v_replace_str :: "string \<Rightarrow> string \<Rightarrow> string \<Rightarrow> string" where
  "v_replace_str p t [] = []"
| "v_replace_str p t (c # cs) =
     (if p \<noteq> [] \<and> v_starts_with (c # cs) p then t @ v_replace_str p t (drop (length p) (c # cs))
      else c # v_replace_str p t cs)"
  by pat_completeness auto
termination
  by (relation "measure (\<lambda>(p, t, s). length s)") (auto simp: neq_Nil_conv)

text \<open>Line ends of HTTP.\<close>

definition crlf :: string where
  "crlf = [CHR 0x0D, CHR 0x0A]"

definition crlf2 :: string where
  "crlf2 = [CHR 0x0D, CHR 0x0A, CHR 0x0D, CHR 0x0A]"

text \<open>Decimal digits, as string interpolation prints an integer.\<close>

fun dec_digits :: "nat \<Rightarrow> string" where
  "dec_digits n = (if n < 10 then [char_of (48 + n)] else dec_digits (n div 10) @ [char_of (48 + n mod 10)])"

declare dec_digits.simps [simp del]

definition v_str :: "int \<Rightarrow> string" where
  "v_str i = (if i < 0 then CHR ''-'' # dec_digits (nat (- i)) else dec_digits (nat i))"

section \<open>Lists and options\<close>

definition hd_opt :: "'a list \<Rightarrow> 'a option \<Rightarrow> 'a option" where
  "hd_opt xs q = (case xs of [] \<Rightarrow> q | x # _ \<Rightarrow> Some x)"

definition last_opt :: "'a list \<Rightarrow> 'a option \<Rightarrow> 'a option" where
  "last_opt xs p = (if xs = [] then p else Some (last xs))"

lemma hd_opt_simps [simp]: "hd_opt [] q = q" "hd_opt (x # xs) q = Some x"
  by (simp_all add: hd_opt_def)

lemma last_opt_simps [simp]: "last_opt [] p = p" "last_opt (xs @ [x]) p = Some x"
  by (simp_all add: last_opt_def)

lemma last_opt_Cons [simp]: "last_opt (x # xs) p = last_opt xs (Some x)"
  by (simp add: last_opt_def)

lemma hd_opt_append [simp]: "hd_opt (xs @ ys) q = hd_opt xs (hd_opt ys q)"
  by (cases xs) auto

lemma last_opt_append [simp]: "last_opt (xs @ ys) p = last_opt ys (last_opt xs p)"
  by (auto simp: last_opt_def)

lemma hd_opt_None_iff [simp]: "hd_opt xs p = None \<longleftrightarrow> xs = [] \<and> p = None"
  by (cases xs) auto

lemma last_opt_None_iff [simp]: "last_opt xs p = None \<longleftrightarrow> xs = [] \<and> p = None"
  by (simp add: last_opt_def)

section \<open>Memory as a list of bytes\<close>

type_synonym bytes = "8 word list"

text \<open>Reading or writing outside the block is undefined behaviour of the C source: the value \<open>None\<close>.\<close>

definition mem_read :: "nat \<Rightarrow> nat \<Rightarrow> bytes \<Rightarrow> bytes option" where
  "mem_read off n m = (if off + n \<le> length m then Some (take n (drop off m)) else None)"

definition mem_write :: "nat \<Rightarrow> bytes \<Rightarrow> bytes \<Rightarrow> bytes option" where
  "mem_write off bs m =
     (if off + length bs \<le> length m then Some (take off m @ bs @ drop (off + length bs) m) else None)"

text \<open>\<^verbatim>\<open>memcpy(dst, src, n)\<close> at the start of the block \<open>dst\<close>.\<close>

definition memcpy :: "bytes \<Rightarrow> bytes \<Rightarrow> nat \<Rightarrow> bytes option" where
  "memcpy dst src n = (if n \<le> length src then mem_write 0 (take n src) dst else None)"

lemma mem_write_length: "mem_write off bs m = Some m' \<Longrightarrow> length m' = length m"
  by (auto simp: mem_write_def split: if_splits)

lemma mem_read_write_same: "mem_write off bs m = Some m' \<Longrightarrow> mem_read off (length bs) m' = Some bs"
  by (auto simp: mem_write_def mem_read_def split: if_splits)

lemma mem_read_write_other:
  assumes "mem_write off bs m = Some m'" and "p + n \<le> off \<or> off + length bs \<le> p"
  shows "mem_read p n m' = mem_read p n m"
proof -
  from assms(1) have fits: "off + length bs \<le> length m"
    and m': "m' = take off m @ bs @ drop (off + length bs) m"
    by (auto simp: mem_write_def split: if_splits)
  have "take n (drop p m') = take n (drop p m)" if "p + n \<le> length m"
    by (rule nth_equalityI) (use assms(2) fits that in \<open>auto simp: m' nth_append\<close>)
  moreover have "length m' = length m" using fits m' by simp
  ultimately show ?thesis by (simp add: mem_read_def)
qed

lemma mem_read_length: "mem_read off n m = Some bs \<Longrightarrow> length bs = n"
  by (auto simp: mem_read_def split: if_splits)

lemma mem_read_prefix: "mem_read off n m = Some bs \<Longrightarrow> k \<le> n \<Longrightarrow> mem_read off k m = Some (take k bs)"
  by (auto simp: mem_read_def min_def split: if_splits)

lemma memcpy_Some:
  "n \<le> length src \<Longrightarrow> n \<le> length dst \<Longrightarrow> memcpy dst src n = Some (take n src @ drop n dst)"
  by (simp add: memcpy_def mem_write_def)

lemma memcpy_all: "length src = length dst \<Longrightarrow> memcpy dst src (length dst) = Some src"
  by (simp add: memcpy_Some)

section \<open>Searching a list\<close>

lemma find_append: "List.find P (xs @ ys) = (case List.find P xs of None \<Rightarrow> List.find P ys | Some x \<Rightarrow> Some x)"
  by (induction xs) auto

lemma find_none: "(\<And>x. x \<in> set xs \<Longrightarrow> \<not> P x) \<Longrightarrow> List.find P xs = None"
  by (auto simp: find_None_iff)

end
