(* ===== verification/Cache_Interface.thy ===== *)
theory Cache_Interface
  imports Prelude
begin

text \<open>
  What the routers rely on when they put a cache in front of route matching: the contract of
  \<^verbatim>\<open>get\<close> and \<^verbatim>\<open>put\<close>, stated over the set of key/value pairs a cache may still return.  The laws say
  that a cache invents nothing; it may forget anything.  Both caches of \<^verbatim>\<open>cache.v\<close> are
  interpretations (\<open>Lru_Cache\<close>, \<open>Fast_Route_Cache\<close>), and the lemmas on memoised lookups are proved
  here once.
\<close>

locale route_cache =
  fixes get :: "'e \<Rightarrow> string \<Rightarrow> 'c \<Rightarrow> 'v option \<times> 'c"
    and put :: "'e \<Rightarrow> string \<Rightarrow> 'v \<Rightarrow> 'c \<Rightarrow> 'c"
    and inv :: "'c \<Rightarrow> bool"
    and holds :: "'c \<Rightarrow> string \<Rightarrow> 'v \<Rightarrow> bool"
  assumes get_hit: "inv c \<Longrightarrow> fst (get e k c) = Some v \<Longrightarrow> holds c k v"
    and get_inv: "inv c \<Longrightarrow> inv (snd (get e k c))"
    and get_holds: "inv c \<Longrightarrow> holds (snd (get e k c)) k' w \<Longrightarrow> holds c k' w"
    and put_inv: "inv c \<Longrightarrow> k \<noteq> '''' \<Longrightarrow> inv (put e k v c)"
    and put_holds: "inv c \<Longrightarrow> k \<noteq> '''' \<Longrightarrow> holds (put e k v c) k' w \<Longrightarrow>
      holds c k' w \<or> k' = k \<and> w = v"
begin

text \<open>A cache agrees with a lookup function when everything it holds is what the function gives.\<close>

definition agrees :: "(string \<Rightarrow> 'v option) \<Rightarrow> 'c \<Rightarrow> bool" where
  "agrees spec c \<longleftrightarrow> inv c \<and> (\<forall>k v. holds c k v \<longrightarrow> spec k = Some v)"

lemma agrees_hit: "agrees spec c \<Longrightarrow> fst (get e k c) = Some v \<Longrightarrow> spec k = Some v"
  using get_hit by (auto simp: agrees_def)

lemma agrees_get: "agrees spec c \<Longrightarrow> agrees spec (snd (get e k c))"
  using get_inv get_holds by (auto simp: agrees_def)

lemma agrees_put: "agrees spec c \<Longrightarrow> k \<noteq> '''' \<Longrightarrow> spec k = Some v \<Longrightarrow> agrees spec (put e k v c)"
  unfolding agrees_def using put_inv put_holds by metis

text \<open>The memoised lookup: try the cache, compute on a miss, store a success.\<close>

lemma agrees_memo:
  assumes "agrees spec c" and "k \<noteq> ''''"
    and "r = (case get e k c of
                (Some v, c1) \<Rightarrow> (Some v, c1)
              | (None, c1) \<Rightarrow> (case spec k of None \<Rightarrow> (None, c1) | Some v \<Rightarrow> (Some v, put e' k v c1)))"
  shows "fst r = spec k" and "agrees spec (snd r)"
proof -
  obtain o' c1 where g: "get e k c = (o', c1)" by fastforce
  have a1: "agrees spec c1" using agrees_get [OF assms(1), of e k] g by simp
  have "fst r = spec k \<and> agrees spec (snd r)"
  proof (cases o')
    case None
    with g a1 assms show ?thesis by (cases "spec k") (auto intro: agrees_put)
  next
    case (Some v)
    with agrees_hit [OF assms(1), of e k v] g have "spec k = Some v" by simp
    with Some g a1 assms(3) show ?thesis by simp
  qed
  then show "fst r = spec k" and "agrees spec (snd r)" by auto
qed

end

end
