(* ===== verification/Lru_Cache.thy ===== *)
theory Lru_Cache
  imports Cache_Interface
begin

text \<open>
  The LRU route cache of \<^verbatim>\<open>cache.v\<close> (struct \<^verbatim>\<open>ContextLRUCache\<close>): a hash map from keys to heap nodes
  that are linked in a doubly linked list, most recently used first, with a time to live and a
  periodic sweep.  The nodes live in an explicit heap, so that the pointer surgery of
  \<^verbatim>\<open>move_to_front\<close>, \<^verbatim>\<open>add_to_front\<close> and \<^verbatim>\<open>remove_node\<close> is modelled statement by statement; the
  value type is a parameter (\<^verbatim>\<open>ContextRouteMatch\<close> in the source).  The second half shows that the
  pointer structure refines a list of entries in order of recency (\<open>lru_spec_get\<close>,
  \<open>lru_spec_put\<close>).

  The wall clock is read several times in one operation; every call site has its own reading in
  the record \<open>clock\<close>, so nothing is assumed about how the readings relate.
\<close>

section \<open>State\<close>

type_synonym addr = nat

record 'v cache_node =
  n_key :: string
  n_value :: 'v
  n_prev :: "addr option"
  n_next :: "addr option"
  n_created :: int
  n_access :: int

type_synonym 'v node_heap = "addr \<Rightarrow> 'v cache_node option"

record 'v lru_cache =
  lc_capacity :: int
  lc_size :: int
  lc_map :: "(string, addr) vmap"
  lc_head :: "addr option"
  lc_tail :: "addr option"
  lc_ttl :: int
  lc_last_cleanup :: int
  lc_interval :: int
  lc_heap :: "'v node_heap"
  lc_fresh :: addr

text \<open>One clock reading per call of \<^verbatim>\<open>time.now().unix()\<close> inside an operation: the one of
  \<^verbatim>\<open>cleanup_expired_if_needed\<close>, those of \<^verbatim>\<open>is_expired\<close> during the sweep (per key), the one of
  \<^verbatim>\<open>is_expired\<close> in \<^verbatim>\<open>get\<close>, and the one that becomes an access or creation time.\<close>

record clock =
  ck_cleanup :: int
  ck_scan :: "string \<Rightarrow> int"
  ck_check :: int
  ck_access :: int

definition upd_opt :: "addr option \<Rightarrow> ('v cache_node \<Rightarrow> 'v cache_node) \<Rightarrow> 'v node_heap \<Rightarrow> 'v node_heap" where
  "upd_opt p f h = (case p of None \<Rightarrow> h | Some a \<Rightarrow> h(a := map_option f (h a)))"

section \<open>Operations\<close>

definition lru_new_with_ttl :: "int \<Rightarrow> int \<Rightarrow> int \<Rightarrow> 'v lru_cache" where
  "lru_new_with_ttl now capacity ttl =
     \<lparr>lc_capacity = capacity, lc_size = 0, lc_map = [], lc_head = None, lc_tail = None,
      lc_ttl = ttl, lc_last_cleanup = now, lc_interval = 300, lc_heap = (\<lambda>_. None), lc_fresh = 0\<rparr>"

definition lru_new :: "int \<Rightarrow> int \<Rightarrow> 'v lru_cache" where
  "lru_new now capacity = lru_new_with_ttl now capacity 3600"

definition lru_add_to_front :: "addr \<Rightarrow> 'v lru_cache \<Rightarrow> 'v lru_cache" where
  "lru_add_to_front a c =
     (let c1 = c\<lparr>lc_heap := upd_opt (Some a) (\<lambda>n. n\<lparr>n_next := lc_head c, n_prev := None\<rparr>) (lc_heap c)\<rparr>;
          c2 = c1\<lparr>lc_heap := upd_opt (lc_head c1) (\<lambda>n. n\<lparr>n_prev := Some a\<rparr>) (lc_heap c1)\<rparr>;
          c3 = c2\<lparr>lc_head := Some a\<rparr>
      in if lc_tail c3 = None then c3\<lparr>lc_tail := Some a\<rparr> else c3)"

definition lru_move_to_front :: "addr \<Rightarrow> 'v lru_cache \<Rightarrow> 'v lru_cache" where
  "lru_move_to_front a c =
     (if lc_head c = Some a then c
      else case lc_heap c a of
        None \<Rightarrow> c
      | Some n \<Rightarrow>
          let c1 = c\<lparr>lc_heap := upd_opt (n_prev n) (\<lambda>m. m\<lparr>n_next := n_next n\<rparr>) (lc_heap c)\<rparr>;
              c2 = c1\<lparr>lc_heap := upd_opt (n_next n) (\<lambda>m. m\<lparr>n_prev := n_prev n\<rparr>) (lc_heap c1)\<rparr>;
              c3 = (if lc_tail c2 = Some a then c2\<lparr>lc_tail := n_prev n\<rparr> else c2)
          in lru_add_to_front a c3)"

definition lru_remove_node :: "addr \<Rightarrow> 'v lru_cache \<Rightarrow> 'v lru_cache" where
  "lru_remove_node a c =
     (case lc_heap c a of
        None \<Rightarrow> c
      | Some n \<Rightarrow>
          if n_key n = '''' then c
          else
            let c0 = c\<lparr>lc_map := vdel (n_key n) (lc_map c)\<rparr>;
                c1 = c0\<lparr>lc_heap := upd_opt (n_prev n) (\<lambda>m. m\<lparr>n_next := n_next n\<rparr>) (lc_heap c0),
                        lc_head := (if n_prev n = None then n_next n else lc_head c0)\<rparr>;
                c2 = c1\<lparr>lc_heap := upd_opt (n_next n) (\<lambda>m. m\<lparr>n_prev := n_prev n\<rparr>) (lc_heap c1),
                        lc_tail := (if n_next n = None then n_prev n else lc_tail c1)\<rparr>;
                c3 = c2\<lparr>lc_heap := upd_opt (Some a)
                          (\<lambda>m. m\<lparr>n_prev := None, n_next := None, n_key := ''''\<rparr>) (lc_heap c2)\<rparr>
            in if 0 < lc_size c3 then c3\<lparr>lc_size := lc_size c3 - 1\<rparr> else c3)"

definition lru_remove_tail :: "'v lru_cache \<Rightarrow> 'v lru_cache" where
  "lru_remove_tail c = (case lc_tail c of None \<Rightarrow> c | Some a \<Rightarrow> lru_remove_node a c)"

definition lru_is_expired :: "int \<Rightarrow> int \<Rightarrow> int \<Rightarrow> bool" where
  "lru_is_expired ttl now last_access = (if ttl \<le> 0 then False else now - last_access > ttl)"

definition lru_expired_keys :: "clock \<Rightarrow> 'v lru_cache \<Rightarrow> string list" where
  "lru_expired_keys ck c =
     map fst (filter (\<lambda>(k, a). case lc_heap c a of None \<Rightarrow> False
                        | Some n \<Rightarrow> lru_is_expired (lc_ttl c) (ck_scan ck k) (n_access n)) (lc_map c))"

fun lru_remove_keys :: "string list \<Rightarrow> 'v lru_cache \<Rightarrow> 'v lru_cache" where
  "lru_remove_keys [] c = c"
| "lru_remove_keys (k # ks) c =
     lru_remove_keys ks (case vget (lc_map c) k of None \<Rightarrow> c | Some a \<Rightarrow> lru_remove_node a c)"

definition lru_cleanup_expired_entries :: "clock \<Rightarrow> 'v lru_cache \<Rightarrow> 'v lru_cache" where
  "lru_cleanup_expired_entries ck c =
     (if lc_ttl c \<le> 0 then c else lru_remove_keys (lru_expired_keys ck c) c)"

definition lru_cleanup_expired_if_needed :: "clock \<Rightarrow> 'v lru_cache \<Rightarrow> 'v lru_cache" where
  "lru_cleanup_expired_if_needed ck c =
     (if ck_cleanup ck - lc_last_cleanup c > lc_interval c
      then (lru_cleanup_expired_entries ck c)\<lparr>lc_last_cleanup := ck_cleanup ck\<rparr>
      else c)"

definition lru_get :: "clock \<Rightarrow> string \<Rightarrow> 'v lru_cache \<Rightarrow> 'v option \<times> 'v lru_cache" where
  "lru_get ck key c =
     (let c1 = lru_cleanup_expired_if_needed ck c in
      case vget (lc_map c1) key of
        None \<Rightarrow> (None, c1)
      | Some a \<Rightarrow>
          (case lc_heap c1 a of
             None \<Rightarrow> (None, c1)
           | Some n \<Rightarrow>
               if lru_is_expired (lc_ttl c1) (ck_check ck) (n_access n)
               then (None, lru_remove_node a c1)
               else
                 let c2 = c1\<lparr>lc_heap := upd_opt (Some a) (\<lambda>m. m\<lparr>n_access := ck_access ck\<rparr>) (lc_heap c1)\<rparr>
                 in (Some (n_value n), lru_move_to_front a c2)))"

definition lru_put :: "clock \<Rightarrow> string \<Rightarrow> 'v \<Rightarrow> 'v lru_cache \<Rightarrow> 'v lru_cache" where
  "lru_put ck key v c =
     (let c1 = lru_cleanup_expired_if_needed ck c in
      case vget (lc_map c1) key of
        Some a \<Rightarrow>
          lru_move_to_front a
            (c1\<lparr>lc_heap := upd_opt (Some a) (\<lambda>m. m\<lparr>n_value := v, n_access := ck_access ck\<rparr>) (lc_heap c1)\<rparr>)
      | None \<Rightarrow>
          let c2 = (if lc_size c1 \<ge> lc_capacity c1 then lru_remove_tail c1 else c1);
              a = lc_fresh c2;
              n = \<lparr>n_key = key, n_value = v, n_prev = None, n_next = None,
                   n_created = ck_access ck, n_access = ck_access ck\<rparr>;
              c3 = c2\<lparr>lc_heap := (lc_heap c2)(a \<mapsto> n), lc_fresh := Suc a,
                      lc_map := vset key a (lc_map c2)\<rparr>;
              c4 = lru_add_to_front a c3
          in c4\<lparr>lc_size := lc_size c4 + 1\<rparr>)"

definition lru_get_stats :: "'v lru_cache \<Rightarrow> int \<times> int" where
  "lru_get_stats c = (lc_size c, lc_capacity c)"

definition lru_count_expired :: "clock \<Rightarrow> 'v lru_cache \<Rightarrow> int" where
  "lru_count_expired ck c = (if lc_ttl c > 0 then int (length (lru_expired_keys ck c)) else 0)"

definition lru_get_detailed_stats :: "clock \<Rightarrow> clock \<Rightarrow> 'v lru_cache \<Rightarrow> (string, int) vmap \<times> 'v lru_cache" where
  "lru_get_detailed_stats ck ck' c =
     (let c1 = lru_cleanup_expired_if_needed ck c in
      ([(''size'', lc_size c1), (''capacity'', lc_capacity c1),
        (''expired_count'', lru_count_expired ck' c1), (''ttl_seconds'', lc_ttl c1),
        (''last_cleanup'', lc_last_cleanup c1), (''cleanup_interval'', lc_interval c1),
        (''memory_usage_estimate'', wrap_i32 (lc_size c1 * 200))], c1))"

definition lru_set_ttl :: "int \<Rightarrow> 'v lru_cache \<Rightarrow> 'v lru_cache" where
  "lru_set_ttl ttl c = c\<lparr>lc_ttl := ttl\<rparr>"

definition lru_set_cleanup_interval :: "int \<Rightarrow> 'v lru_cache \<Rightarrow> 'v lru_cache" where
  "lru_set_cleanup_interval i c = c\<lparr>lc_interval := i\<rparr>"

definition lru_force_cleanup_expired :: "clock \<Rightarrow> 'v lru_cache \<Rightarrow> 'v lru_cache" where
  "lru_force_cleanup_expired ck c = lru_cleanup_expired_entries ck c"

text \<open>The counting loop of \<^verbatim>\<open>is_healthy\<close>; the last argument is \<^verbatim>\<open>cache.size - count\<close>, and the loop
  gives up as soon as the count passes the size.\<close>

fun lru_walk :: "'v node_heap \<Rightarrow> addr option \<Rightarrow> nat \<Rightarrow> bool" where
  "lru_walk h None r = (r = 0)"
| "lru_walk h (Some a) 0 = False"
| "lru_walk h (Some a) (Suc r) = (case h a of None \<Rightarrow> False | Some n \<Rightarrow> lru_walk h (n_next n) r)"

definition lru_is_healthy :: "'v lru_cache \<Rightarrow> bool" where
  "lru_is_healthy c =
     (if lc_size c = 0 then lc_head c = None \<and> lc_tail c = None \<and> length (lc_map c) = 0
      else if lc_head c = None \<or> lc_tail c = None then False
      else if int (length (lc_map c)) \<noteq> lc_size c then False
      else lru_walk (lc_heap c) (lc_head c) (nat (lc_size c)))"

text \<open>The loop of \<^verbatim>\<open>clear\<close> reads \<^verbatim>\<open>next\<close>, then wipes the node. A wiped node has no successor, so the
  loop visits each allocated node at most once; the number of allocated nodes is its fuel.\<close>

fun lru_clear_walk :: "nat \<Rightarrow> addr option \<Rightarrow> 'v node_heap \<Rightarrow> 'v node_heap" where
  "lru_clear_walk fuel None h = h"
| "lru_clear_walk 0 (Some a) h = h"
| "lru_clear_walk (Suc fuel) (Some a) h =
     (case h a of
        None \<Rightarrow> h
      | Some n \<Rightarrow> lru_clear_walk fuel (n_next n)
                    (upd_opt (Some a) (\<lambda>m. m\<lparr>n_prev := None, n_next := None, n_key := ''''\<rparr>) h))"

definition lru_clear :: "int \<Rightarrow> 'v lru_cache \<Rightarrow> 'v lru_cache" where
  "lru_clear now c =
     c\<lparr>lc_heap := lru_clear_walk (lc_fresh c) (lc_head c) (lc_heap c), lc_map := [],
       lc_head := None, lc_tail := None, lc_size := 0, lc_last_cleanup := now\<rparr>"

section \<open>The entries of a cache in order of recency\<close>

type_synonym 'v entry = "'v \<times> int \<times> int"

definition entry_of :: "'v node_heap \<Rightarrow> addr \<Rightarrow> string \<times> 'v entry" where
  "entry_of h a = (case h a of None \<Rightarrow> undefined
     | Some n \<Rightarrow> (n_key n, n_value n, n_created n, n_access n))"

fun dseg :: "'v node_heap \<Rightarrow> addr option \<Rightarrow> addr list \<Rightarrow> addr option \<Rightarrow> bool" where
  "dseg h p [] q = True"
| "dseg h p (a # as) q =
     (case h a of None \<Rightarrow> False
      | Some n \<Rightarrow> n_prev n = p \<and> n_next n = hd_opt as q \<and> dseg h (Some a) as q)"

definition lru_linked :: "'v lru_cache \<Rightarrow> addr list \<Rightarrow> bool" where
  "lru_linked c as \<longleftrightarrow> distinct as \<and> dseg (lc_heap c) None as None \<and>
     lc_head c = hd_opt as None \<and> lc_tail c = last_opt as None \<and> (\<forall>a \<in> set as. a < lc_fresh c)"

definition lru_mapped :: "'v lru_cache \<Rightarrow> addr list \<Rightarrow> bool" where
  "lru_mapped c as \<longleftrightarrow> vmap_ok (lc_map c) \<and> length (lc_map c) = length as \<and>
     lc_size c = int (length as) \<and>
     (\<forall>a \<in> set as. fst (entry_of (lc_heap c) a) \<noteq> '''') \<and>
     (\<forall>k a. vget (lc_map c) k = Some a \<longleftrightarrow> a \<in> set as \<and> fst (entry_of (lc_heap c) a) = k)"

definition lru_repr :: "'v lru_cache \<Rightarrow> addr list \<Rightarrow> bool" where
  "lru_repr c as \<longleftrightarrow> lru_linked c as \<and> lru_mapped c as"

definition lru_abs :: "'v lru_cache \<Rightarrow> (string \<times> 'v entry) list \<Rightarrow> bool" where
  "lru_abs c es \<longleftrightarrow> (\<exists>as. lru_repr c as \<and> es = map (entry_of (lc_heap c)) as)"

text \<open>The specification: the cache is a list of entries, most recently used first.\<close>

definition lru_spec_sweep :: "clock \<Rightarrow> int \<Rightarrow> (string \<times> 'v entry) list \<Rightarrow> (string \<times> 'v entry) list" where
  "lru_spec_sweep ck ttl es = filter (\<lambda>(k, v, cr, acc). \<not> lru_is_expired ttl (ck_scan ck k) acc) es"

definition lru_spec_if_needed :: "clock \<Rightarrow> 'v lru_cache \<Rightarrow> (string \<times> 'v entry) list \<Rightarrow> (string \<times> 'v entry) list" where
  "lru_spec_if_needed ck c es =
     (if ck_cleanup ck - lc_last_cleanup c > lc_interval c then lru_spec_sweep ck (lc_ttl c) es else es)"

definition lru_spec_get ::
  "clock \<Rightarrow> int \<Rightarrow> string \<Rightarrow> (string \<times> 'v entry) list \<Rightarrow> 'v option \<times> (string \<times> 'v entry) list" where
  "lru_spec_get ck ttl key es =
     (case map_of es key of
        None \<Rightarrow> (None, es)
      | Some (v, cr, acc) \<Rightarrow>
          if lru_is_expired ttl (ck_check ck) acc then (None, vdel key es)
          else (Some v, (key, v, cr, ck_access ck) # vdel key es))"

definition lru_spec_put ::
  "clock \<Rightarrow> int \<Rightarrow> string \<Rightarrow> 'v \<Rightarrow> (string \<times> 'v entry) list \<Rightarrow> (string \<times> 'v entry) list" where
  "lru_spec_put ck capacity key v es =
     (case map_of es key of
        Some (w, cr, acc) \<Rightarrow> (key, v, cr, ck_access ck) # vdel key es
      | None \<Rightarrow> (key, v, ck_access ck, ck_access ck) #
                 (if int (length es) \<ge> capacity then butlast es else es))"

section \<open>Doubly linked segments\<close>

lemma upd_opt_simps [heap_simps]:
  "upd_opt None f h = h"
  "upd_opt (Some a) f h = h(a := map_option f (h a))"
  by (simp_all add: upd_opt_def)

lemma dseg_append [heap_simps]:
  "dseg h p (xs @ ys) q \<longleftrightarrow> dseg h p xs (hd_opt ys q) \<and> dseg h (last_opt xs p) ys q"
  by (induction xs arbitrary: p) (auto split: option.splits)

lemma dseg_frame: "a \<notin> set as \<Longrightarrow> dseg (h(a := v)) p as q = dseg h p as q"
  by (induction as arbitrary: p) (auto split: option.splits)

lemma dseg_frame_opt: "\<forall>b. p = Some b \<longrightarrow> b \<notin> set as \<Longrightarrow> dseg (upd_opt p f h) r as q = dseg h r as q"
  by (cases p) (auto simp: heap_simps dseg_frame)

lemma dseg_alloc: "dseg h p as q \<Longrightarrow> a \<in> set as \<Longrightarrow> \<exists>n. h a = Some n"
  by (induction as arbitrary: p) (auto split: option.splits)

lemma dseg_set_next:
  assumes "dseg h None xs q" and "distinct xs"
  shows "dseg (upd_opt (last_opt xs None) (\<lambda>m. m\<lparr>n_next := r\<rparr>) h) None xs r"
proof (cases xs rule: rev_cases)
  case (snoc xs' x)
  then show ?thesis using assms
    by (auto simp: heap_simps dseg_frame split: option.splits)
qed (simp add: heap_simps)

lemma dseg_set_prev:
  assumes "dseg h p ys q" and "distinct ys"
  shows "dseg (upd_opt (hd_opt ys None) (\<lambda>m. m\<lparr>n_prev := r\<rparr>) h) r ys q"
  using assms by (cases ys) (auto simp: heap_simps dseg_frame split: option.splits)

text \<open>The two pointer writes that take a node out of its neighbourhood.\<close>

definition unlink :: "'v cache_node \<Rightarrow> 'v node_heap \<Rightarrow> 'v node_heap" where
  "unlink n h = upd_opt (n_next n) (\<lambda>m. m\<lparr>n_prev := n_prev n\<rparr>)
                  (upd_opt (n_prev n) (\<lambda>m. m\<lparr>n_next := n_next n\<rparr>) h)"

lemma dseg_mid:
  assumes "dseg h None (xs @ a # ys) None"
  obtains n where "h a = Some n" and "n_prev n = last_opt xs None" and "n_next n = hd_opt ys None"
    and "dseg h None xs (Some a)" and "dseg h (Some a) ys None"
  using assms by (auto simp: heap_simps split: option.splits)

lemma dseg_unlink:
  assumes seg: "dseg h None (xs @ a # ys) None" and dist: "distinct (xs @ a # ys)"
    and a: "h a = Some n"
  shows "dseg (unlink n h) None (xs @ ys) None" and "unlink n h a = h a"
proof -
  from seg obtain n' where n': "h a = Some n'" "n_prev n' = last_opt xs None"
      "n_next n' = hd_opt ys None" "dseg h None xs (Some a)" "dseg h (Some a) ys None"
    by (rule dseg_mid)
  with a have pn: "n_prev n = last_opt xs None" "n_next n = hd_opt ys None" by auto
  let ?h1 = "upd_opt (last_opt xs None) (\<lambda>m. m\<lparr>n_next := hd_opt ys None\<rparr>) h"
  let ?h2 = "upd_opt (hd_opt ys None) (\<lambda>m. m\<lparr>n_prev := last_opt xs None\<rparr>) ?h1"
  have lst: "\<forall>b. last_opt xs None = Some b \<longrightarrow> b \<in> set xs" by (auto simp: last_opt_def split: if_splits)
  have fst': "\<forall>b. hd_opt ys None = Some b \<longrightarrow> b \<in> set ys" by (cases ys) auto
  have 1: "dseg ?h1 None xs (hd_opt ys None)"
    using n' dist by (intro dseg_set_next) auto
  have "dseg ?h1 (Some a) ys None"
    using n' lst dist by (subst dseg_frame_opt) auto
  then have 2: "dseg ?h2 (last_opt xs None) ys None"
    using dist by (intro dseg_set_prev) auto
  have 3: "dseg ?h2 None xs (hd_opt ys None)"
    using 1 fst' dist by (subst dseg_frame_opt) auto
  show "dseg (unlink n h) None (xs @ ys) None"
    using 2 3 by (simp add: unlink_def pn heap_simps)
  have "upd_opt p f h' a = h' a" if "\<forall>b. p = Some b \<longrightarrow> b \<in> set (xs @ ys)" for p f and h' :: "'a node_heap"
    using that dist by (cases p) (auto simp: heap_simps)
  then show "unlink n h a = h a"
    using lst fst' by (simp add: unlink_def pn)
qed

text \<open>Pointer writes keep the entries.\<close>

lemma entry_of_upd_links [simp]:
  "entry_of (upd_opt p (\<lambda>m. m\<lparr>n_next := x\<rparr>) h) = entry_of h"
  "entry_of (upd_opt p (\<lambda>m. m\<lparr>n_prev := x\<rparr>) h) = entry_of h"
  "entry_of (upd_opt p (\<lambda>m. m\<lparr>n_next := x, n_prev := y\<rparr>) h) = entry_of h"
  by (auto simp: upd_opt_def entry_of_def fun_eq_iff split: option.splits)

lemma entry_of_unlink [simp]: "entry_of (unlink n h) = entry_of h"
  by (simp add: unlink_def)

lemma entry_of_upd_other:
  "b \<noteq> a \<Longrightarrow> entry_of (upd_opt (Some a) f h) b = entry_of h b"
  by (simp add: upd_opt_def entry_of_def)

section \<open>Linking operations on represented states\<close>

lemma lru_linked_remove:
  assumes "lru_linked c (xs @ a # ys)" and "lc_heap c a = Some n" and "n_key n \<noteq> ''''"
  shows "lru_linked (lru_remove_node a c) (xs @ ys)"
proof -
  let ?h = "lc_heap c"
  from assms have seg: "dseg ?h None (xs @ a # ys) None" and dist: "distinct (xs @ a # ys)"
    by (auto simp: lru_linked_def)
  note ul = dseg_unlink [OF seg dist assms(2)]
  from seg assms(2) have pn: "n_prev n = last_opt xs None" "n_next n = hd_opt ys None"
    by (auto elim: dseg_mid)
  have heap: "lc_heap (lru_remove_node a c) =
      (unlink n ?h)(a := Some (n\<lparr>n_prev := None, n_next := None, n_key := ''''\<rparr>))"
    using assms ul(2) by (simp add: lru_remove_node_def Let_def unlink_def upd_opt_simps(2))
  have hd: "lc_head (lru_remove_node a c) = hd_opt (xs @ ys) None"
    using assms pn by (cases xs) (auto simp: lru_remove_node_def Let_def lru_linked_def)
  have tl: "lc_tail (lru_remove_node a c) = last_opt (xs @ ys) None"
    using assms pn by (cases ys) (auto simp: lru_remove_node_def Let_def lru_linked_def)
  have fr: "lc_fresh (lru_remove_node a c) = lc_fresh c"
    by (auto simp: lru_remove_node_def Let_def split: option.splits)
  have "dseg (lc_heap (lru_remove_node a c)) None (xs @ ys) None"
    using ul(1) dist by (simp add: heap dseg_frame)
  then show ?thesis
    using assms dist hd tl fr by (auto simp: lru_linked_def)
qed

lemma lru_remove_fields:
  assumes "lc_heap c a = Some n" and "n_key n \<noteq> ''''"
  shows "lc_map (lru_remove_node a c) = vdel (n_key n) (lc_map c)"
    and "lc_size (lru_remove_node a c) = (if 0 < lc_size c then lc_size c - 1 else lc_size c)"
    and "b \<noteq> a \<Longrightarrow> entry_of (lc_heap (lru_remove_node a c)) b = entry_of (lc_heap c) b"
  using assms by (auto simp: lru_remove_node_def Let_def entry_of_upd_other)

lemma lru_remove_config [cache_simps]:
  "lc_capacity (lru_remove_node a c) = lc_capacity c"
  "lc_ttl (lru_remove_node a c) = lc_ttl c"
  "lc_last_cleanup (lru_remove_node a c) = lc_last_cleanup c"
  "lc_interval (lru_remove_node a c) = lc_interval c"
  by (auto simp: lru_remove_node_def Let_def split: option.splits)

lemma lru_repr_node:
  assumes "lru_repr c as" and "a \<in> set as"
  obtains n where "lc_heap c a = Some n" and "n_key n \<noteq> ''''"
    and "entry_of (lc_heap c) a = (n_key n, n_value n, n_created n, n_access n)"
proof -
  from assms obtain n where n: "lc_heap c a = Some n"
    using dseg_alloc by (fastforce simp: lru_repr_def lru_linked_def)
  moreover from assms have "fst (entry_of (lc_heap c) a) \<noteq> ''''"
    by (auto simp: lru_repr_def lru_mapped_def)
  ultimately show thesis by (intro that [of n]) (auto simp: entry_of_def)
qed

lemma lru_repr_key_inj:
  assumes "lru_repr c as" and "a \<in> set as" and "b \<in> set as"
    and "fst (entry_of (lc_heap c) a) = fst (entry_of (lc_heap c) b)"
  shows "a = b"
  using assms unfolding lru_repr_def lru_mapped_def by (metis option.inject)

lemma lru_repr_remove:
  assumes r: "lru_repr c (xs @ a # ys)"
  shows "lru_repr (lru_remove_node a c) (xs @ ys)"
    and "map (entry_of (lc_heap (lru_remove_node a c))) (xs @ ys) = map (entry_of (lc_heap c)) (xs @ ys)"
proof -
  from r obtain n where n: "lc_heap c a = Some n" "n_key n \<noteq> ''''"
      and e: "entry_of (lc_heap c) a = (n_key n, n_value n, n_created n, n_access n)"
    by (rule lru_repr_node) auto
  note f = lru_remove_fields [OF n]
  from r have m: "lru_mapped c (xs @ a # ys)" and l: "lru_linked c (xs @ a # ys)"
    by (auto simp: lru_repr_def)
  then have dist: "distinct (xs @ a # ys)" by (simp add: lru_linked_def)
  have eq: "\<forall>b \<in> set (xs @ ys). entry_of (lc_heap (lru_remove_node a c)) b = entry_of (lc_heap c) b"
  proof
    fix b assume "b \<in> set (xs @ ys)"
    with dist have "b \<noteq> a" by auto
    then show "entry_of (lc_heap (lru_remove_node a c)) b = entry_of (lc_heap c) b" by (rule f(3))
  qed
  then show "map (entry_of (lc_heap (lru_remove_node a c))) (xs @ ys) = map (entry_of (lc_heap c)) (xs @ ys)"
    by simp
  have ga: "vget (lc_map c) (n_key n) = Some a"
    using m e by (simp add: lru_mapped_def)
  have ne: "\<forall>b \<in> set (xs @ ys). fst (entry_of (lc_heap c) b) \<noteq> n_key n"
  proof
    fix b assume "b \<in> set (xs @ ys)"
    then show "fst (entry_of (lc_heap c) b) \<noteq> n_key n"
      using lru_repr_key_inj [OF r, of b a] e dist by auto
  qed
  have len: "Suc (length (vdel (n_key n) (lc_map c))) = length (lc_map c)"
    using m ga by (intro length_vdel) (auto simp: lru_mapped_def)
  have "lru_mapped (lru_remove_node a c) (xs @ ys)"
    using m len eq ne e dist unfolding lru_mapped_def f(1,2) by auto
  with lru_linked_remove [OF l n] show "lru_repr (lru_remove_node a c) (xs @ ys)"
    by (simp add: lru_repr_def)
qed

lemma lru_add_fields [cache_simps]:
  "lc_map (lru_add_to_front a c) = lc_map c"
  "lc_size (lru_add_to_front a c) = lc_size c"
  "lc_fresh (lru_add_to_front a c) = lc_fresh c"
  "lc_capacity (lru_add_to_front a c) = lc_capacity c"
  "lc_ttl (lru_add_to_front a c) = lc_ttl c"
  "lc_last_cleanup (lru_add_to_front a c) = lc_last_cleanup c"
  "lc_interval (lru_add_to_front a c) = lc_interval c"
  "entry_of (lc_heap (lru_add_to_front a c)) = entry_of (lc_heap c)"
  by (auto simp: lru_add_to_front_def Let_def)

lemma lru_linked_add:
  assumes l: "lru_linked c as" and a: "a \<notin> set as" "lc_heap c a = Some n" "a < lc_fresh c"
  shows "lru_linked (lru_add_to_front a c) (a # as)"
proof -
  let ?h1 = "upd_opt (Some a) (\<lambda>n. n\<lparr>n_next := lc_head c, n_prev := None\<rparr>) (lc_heap c)"
  let ?h2 = "upd_opt (lc_head c) (\<lambda>n. n\<lparr>n_prev := Some a\<rparr>) ?h1"
  have heap: "lc_heap (lru_add_to_front a c) = ?h2"
    by (simp add: lru_add_to_front_def Let_def)
  have hd: "lc_head c = hd_opt as None" and dist: "distinct as"
    and seg: "dseg (lc_heap c) None as None" and tl: "lc_tail c = last_opt as None"
    using l by (auto simp: lru_linked_def)
  have "dseg ?h1 None as None" using seg a(1) by (simp add: dseg_frame heap_simps)
  then have tail: "dseg ?h2 (Some a) as None"
    unfolding hd using dist by (rule dseg_set_prev)
  have "\<forall>b. lc_head c = Some b \<longrightarrow> b \<noteq> a" using hd a(1) by (cases as) auto
  then have "?h2 a = Some (n\<lparr>n_next := lc_head c, n_prev := None\<rparr>)"
    using a(2) by (cases "lc_head c") (auto simp: heap_simps)
  with tail have "dseg ?h2 None (a # as) None" by (simp add: hd)
  moreover have "lc_head (lru_add_to_front a c) = Some a"
    by (simp add: lru_add_to_front_def Let_def)
  moreover have "lc_tail (lru_add_to_front a c) = last_opt (a # as) None"
    using tl by (auto simp: lru_add_to_front_def Let_def last_opt_def)
  ultimately show ?thesis
    using l a unfolding lru_linked_def heap by (simp add: lru_add_fields del: dseg.simps)
qed

lemma lru_move_fields [cache_simps]:
  "lc_map (lru_move_to_front a c) = lc_map c"
  "lc_size (lru_move_to_front a c) = lc_size c"
  "lc_fresh (lru_move_to_front a c) = lc_fresh c"
  "lc_capacity (lru_move_to_front a c) = lc_capacity c"
  "lc_ttl (lru_move_to_front a c) = lc_ttl c"
  "lc_last_cleanup (lru_move_to_front a c) = lc_last_cleanup c"
  "lc_interval (lru_move_to_front a c) = lc_interval c"
  "entry_of (lc_heap (lru_move_to_front a c)) = entry_of (lc_heap c)"
  by (auto simp: lru_move_to_front_def Let_def cache_simps split: option.splits)

lemma lru_linked_move:
  assumes l: "lru_linked c (xs @ a # ys)"
  shows "lru_linked (lru_move_to_front a c) (a # xs @ ys)"
proof (cases "xs = []")
  case True
  with l show ?thesis by (simp add: lru_move_to_front_def lru_linked_def)
next
  case False
  from l have seg: "dseg (lc_heap c) None (xs @ a # ys) None" and dist: "distinct (xs @ a # ys)"
    and hd: "lc_head c = hd_opt (xs @ a # ys) None" and tl: "lc_tail c = last_opt (xs @ a # ys) None"
    by (auto simp: lru_linked_def)
  from seg obtain n where n: "lc_heap c a = Some n" "n_prev n = last_opt xs None"
      "n_next n = hd_opt ys None"
    by (rule dseg_mid)
  note ul = dseg_unlink [OF seg dist n(1)]
  let ?c3 = "c\<lparr>lc_heap := unlink n (lc_heap c),
               lc_tail := (if lc_tail c = Some a then n_prev n else lc_tail c)\<rparr>"
  have "lc_head c \<noteq> Some a" using False hd dist by (cases xs) auto
  then have eq: "lru_move_to_front a c = lru_add_to_front a ?c3"
    using n by (auto simp: lru_move_to_front_def Let_def unlink_def)
  have "lc_tail c = Some a \<longleftrightarrow> ys = []"
    using tl dist by (cases ys rule: rev_cases) auto
  then have "lc_tail ?c3 = last_opt (xs @ ys) None"
    using tl n by (auto simp: last_opt_def)
  then have "lru_linked ?c3 (xs @ ys)"
    using l ul False by (auto simp: lru_linked_def neq_Nil_conv)
  moreover have "lc_heap ?c3 a = Some n" using ul n by simp
  ultimately show ?thesis
    using l dist unfolding eq by (intro lru_linked_add) (auto simp: lru_linked_def)
qed

lemma lru_mapped_cong:
  assumes "lru_mapped c as" and "lc_map c' = lc_map c" and "lc_size c' = lc_size c"
    and "set as' = set as" and "length as' = length as"
    and "\<forall>a \<in> set as. fst (entry_of (lc_heap c') a) = fst (entry_of (lc_heap c) a)"
  shows "lru_mapped c' as'"
  using assms unfolding lru_mapped_def by (metis (no_types, lifting))

lemma lru_repr_move:
  assumes "lru_repr c (xs @ a # ys)"
  shows "lru_repr (lru_move_to_front a c) (a # xs @ ys)"
  using assms lru_linked_move [of c xs a ys]
    lru_mapped_cong [of c "xs @ a # ys" "lru_move_to_front a c" "a # xs @ ys"]
  by (simp add: lru_repr_def cache_simps)

text \<open>Writing a value or an access time keeps the links.\<close>

lemma dseg_data:
  assumes "\<And>n. n_prev (f n) = n_prev n \<and> n_next (f n) = n_next n"
  shows "dseg (upd_opt p f h) q as r = dseg h q as r"
proof (induction as arbitrary: q)
  case (Cons a as)
  then show ?case using assms by (cases p) (auto simp: heap_simps split: option.splits)
qed simp

lemma lru_repr_data:
  assumes r: "lru_repr c as"
    and f: "\<And>n. n_prev (f n) = n_prev n \<and> n_next (f n) = n_next n \<and> n_key (f n) = n_key n"
  shows "lru_repr (c\<lparr>lc_heap := upd_opt p f (lc_heap c)\<rparr>) as" (is "lru_repr ?c as")
proof -
  have "lru_linked ?c as"
    using r f by (simp add: lru_repr_def lru_linked_def dseg_data)
  moreover have "fst (entry_of (lc_heap ?c) a) = fst (entry_of (lc_heap c) a)" if "a \<in> set as" for a
    using that r f
    by (rule_tac lru_repr_node [OF r that]) (cases p; auto simp: entry_of_def heap_simps split: option.splits)
  ultimately show ?thesis
    using r lru_mapped_cong [of c as ?c as] by (simp add: lru_repr_def)
qed

lemma lru_repr_lookup:
  assumes r: "lru_repr c as" and g: "vget (lc_map c) k = Some a"
  obtains xs ys v cr acc n where "as = xs @ a # ys" and "lc_heap c a = Some n"
    and "n_value n = v" "n_created n = cr" "n_access n = acc" "n_key n = k"
    and "entry_of (lc_heap c) a = (k, v, cr, acc)"
    and "map_of (map (entry_of (lc_heap c)) as) k = Some (v, cr, acc)"
    and "vdel k (map (entry_of (lc_heap c)) as) = map (entry_of (lc_heap c)) (xs @ ys)"
proof -
  let ?e = "entry_of (lc_heap c)"
  from r g have a: "a \<in> set as" and ka: "fst (?e a) = k"
    by (auto simp: lru_repr_def lru_mapped_def)
  from a obtain xs ys where as: "as = xs @ a # ys" by (auto simp: in_set_conv_decomp)
  from r a obtain n where n: "lc_heap c a = Some n" "n_key n \<noteq> ''''"
      "?e a = (n_key n, n_value n, n_created n, n_access n)"
    by (rule lru_repr_node)
  from r have dist: "distinct as" by (simp add: lru_repr_def lru_linked_def)
  have ne: "\<forall>b \<in> set xs \<union> set ys. fst (?e b) \<noteq> k"
    using lru_repr_key_inj [OF r] as ka dist by auto
  then have "\<forall>b \<in> set xs. fst (?e b) \<noteq> k" "\<forall>b \<in> set ys. fst (?e b) \<noteq> k" by auto
  then have del: "vdel k (map ?e as) = map ?e (xs @ ys)"
    using ka by (simp add: as vdel_filter filter_id_conv)
  have "map_of (map ?e xs) k = None"
    using ne by (auto simp: map_of_eq_None_iff)
  then have "map_of (map ?e as) k = Some (n_value n, n_created n, n_access n)"
    using n(3) ka by (simp add: as map_add_def)
  with del as n ka show thesis by (intro that) auto
qed

lemma lru_repr_lookup_None:
  assumes "lru_repr c as" and "vget (lc_map c) k = None"
  shows "map_of (map (entry_of (lc_heap c)) as) k = None"
proof -
  have "fst (entry_of (lc_heap c) a) \<noteq> k" if "a \<in> set as" for a
    using assms that by (metis lru_mapped_def lru_repr_def option.distinct(1))
  then show ?thesis unfolding map_of_eq_None_iff set_map by blast
qed

lemma lru_abs_length: "lru_abs c es \<Longrightarrow> lc_size c = int (length es)"
  by (auto simp: lru_abs_def lru_repr_def lru_mapped_def)

section \<open>The operations refine the specification\<close>

lemma lru_abs_keys_distinct: "lru_abs c es \<Longrightarrow> vmap_ok es"
proof -
  assume "lru_abs c es"
  then obtain as where r: "lru_repr c as" and es: "es = map (entry_of (lc_heap c)) as"
    by (auto simp: lru_abs_def)
  have "inj_on (fst \<circ> entry_of (lc_heap c)) (set as)"
    using lru_repr_key_inj [OF r] by (auto intro!: inj_onI)
  then show ?thesis
    using r by (simp add: es distinct_map lru_repr_def lru_linked_def comp_def)
qed

lemma lru_abs_remove_key:
  assumes "lru_abs c es" and "vget (lc_map c) k = Some a"
  shows "lru_abs (lru_remove_node a c) (vdel k es)"
proof -
  from assms obtain as where r: "lru_repr c as" and es: "es = map (entry_of (lc_heap c)) as"
    by (auto simp: lru_abs_def)
  from r assms(2) obtain xs ys where as: "as = xs @ a # ys"
      and del: "vdel k (map (entry_of (lc_heap c)) as) = map (entry_of (lc_heap c)) (xs @ ys)"
    by (rule lru_repr_lookup)
  show ?thesis
    using lru_repr_remove [of c xs a ys] r del by (auto simp: lru_abs_def as es)
qed

lemma lru_abs_lookup_None: "lru_abs c es \<Longrightarrow> vget (lc_map c) k = None \<Longrightarrow> map_of es k = None"
  by (auto simp: lru_abs_def dest: lru_repr_lookup_None)

lemma vdel_absent: "map_of es k = None \<Longrightarrow> vdel k es = es"
  by (auto simp: vdel_filter filter_id_conv map_of_eq_None_iff)

lemma lru_abs_remove_keys:
  "lru_abs c es \<Longrightarrow> lru_abs (lru_remove_keys ks c) (filter (\<lambda>e. fst e \<notin> set ks) es)"
proof (induction ks arbitrary: c es)
  case (Cons k ks)
  let ?c = "case vget (lc_map c) k of None \<Rightarrow> c | Some a \<Rightarrow> lru_remove_node a c"
  have "lru_abs ?c (vdel k es)"
  proof (cases "vget (lc_map c) k")
    case None
    with lru_abs_lookup_None [OF Cons.prems None] Cons.prems show ?thesis by (simp add: vdel_absent)
  next
    case (Some a)
    with lru_abs_remove_key [OF Cons.prems Some] show ?thesis by simp
  qed
  from Cons.IH [OF this] show ?case
    by (simp add: vdel_filter conj_commute)
qed simp

lemma lru_remove_keys_config [cache_simps]:
  "lc_capacity (lru_remove_keys ks c) = lc_capacity c"
  "lc_ttl (lru_remove_keys ks c) = lc_ttl c"
  "lc_last_cleanup (lru_remove_keys ks c) = lc_last_cleanup c"
  "lc_interval (lru_remove_keys ks c) = lc_interval c"
  by (induction ks arbitrary: c) (auto simp: lru_remove_config split: option.splits)

lemma lru_expired_keys_iff:
  assumes "lru_abs c es" and "(k, v, cr, acc) \<in> set es"
  shows "k \<in> set (lru_expired_keys ck c) \<longleftrightarrow> lru_is_expired (lc_ttl c) (ck_scan ck k) acc"
proof -
  from assms obtain as where r: "lru_repr c as" and es: "es = map (entry_of (lc_heap c)) as"
    by (auto simp: lru_abs_def)
  with assms obtain a where a: "a \<in> set as" "entry_of (lc_heap c) a = (k, v, cr, acc)" by auto
  then have g: "vget (lc_map c) k = Some a"
    using r by (simp add: lru_repr_def lru_mapped_def)
  from r a obtain n where n: "lc_heap c a = Some n" "n_access n = acc"
    by (elim lru_repr_node) auto
  have "vmap_ok (lc_map c)" using r by (simp add: lru_repr_def lru_mapped_def)
  then have "(k, b) \<in> set (lc_map c) \<longleftrightarrow> b = a" for b
    using g by (metis map_of_is_SomeI map_of_SomeD option.inject)
  then show ?thesis
    using n by (force simp: lru_expired_keys_def)
qed

lemma lru_abs_cleanup_entries:
  assumes a: "lru_abs c es"
  shows "lru_abs (lru_cleanup_expired_entries ck c) (lru_spec_sweep ck (lc_ttl c) es)"
proof (cases "lc_ttl c \<le> 0")
  case True
  then show ?thesis using a
    by (simp add: lru_cleanup_expired_entries_def lru_spec_sweep_def lru_is_expired_def case_prod_beta)
next
  case False
  have "filter (\<lambda>e. fst e \<notin> set (lru_expired_keys ck c)) es = lru_spec_sweep ck (lc_ttl c) es"
    unfolding lru_spec_sweep_def using lru_expired_keys_iff [OF a] by (intro filter_cong) auto
  with lru_abs_remove_keys [OF a, of "lru_expired_keys ck c"] False show ?thesis
    by (simp add: lru_cleanup_expired_entries_def)
qed

lemma lru_abs_update_cleanup: "lru_abs (c\<lparr>lc_last_cleanup := t\<rparr>) es = lru_abs c es"
  by (simp add: lru_abs_def lru_repr_def lru_linked_def lru_mapped_def)

lemma lru_abs_if_needed:
  "lru_abs c es \<Longrightarrow> lru_abs (lru_cleanup_expired_if_needed ck c) (lru_spec_if_needed ck c es)"
  by (simp add: lru_cleanup_expired_if_needed_def lru_spec_if_needed_def lru_abs_update_cleanup
      lru_abs_cleanup_entries)

lemma lru_if_needed_config [cache_simps]:
  "lc_capacity (lru_cleanup_expired_if_needed ck c) = lc_capacity c"
  "lc_ttl (lru_cleanup_expired_if_needed ck c) = lc_ttl c"
  "lc_interval (lru_cleanup_expired_if_needed ck c) = lc_interval c"
  by (simp_all add: lru_cleanup_expired_if_needed_def lru_cleanup_expired_entries_def
      lru_remove_keys_config)

text \<open>Moving a node to the front after rewriting its data.\<close>

lemma lru_abs_touch:
  assumes a: "lru_abs c es" and g: "vget (lc_map c) k = Some a" and n: "lc_heap c a = Some n"
    and f: "\<And>n. n_prev (f n) = n_prev n \<and> n_next (f n) = n_next n \<and> n_key (f n) = n_key n"
  shows "lru_abs (lru_move_to_front a (c\<lparr>lc_heap := upd_opt (Some a) f (lc_heap c)\<rparr>))
           ((k, n_value (f n), n_created (f n), n_access (f n)) # vdel k es)"
proof -
  let ?c = "c\<lparr>lc_heap := upd_opt (Some a) f (lc_heap c)\<rparr>"
  from a obtain as where r: "lru_repr c as" and es: "es = map (entry_of (lc_heap c)) as"
    by (auto simp: lru_abs_def)
  from r g obtain xs ys n' where as: "as = xs @ a # ys" and n': "lc_heap c a = Some n'" "n_key n' = k"
      and del: "vdel k (map (entry_of (lc_heap c)) as) = map (entry_of (lc_heap c)) (xs @ ys)"
    by (rule lru_repr_lookup)
  have dist: "distinct as" using r by (simp add: lru_repr_def lru_linked_def)
  have "lru_repr ?c (xs @ a # ys)"
    using r f unfolding as by (rule lru_repr_data)
  then have rep: "lru_repr (lru_move_to_front a ?c) (a # xs @ ys)"
    by (rule lru_repr_move)
  have ea: "entry_of (lc_heap ?c) a = (k, n_value (f n), n_created (f n), n_access (f n))"
    using n n' f by (simp add: entry_of_def heap_simps)
  have eo: "map (entry_of (lc_heap ?c)) (xs @ ys) = map (entry_of (lc_heap c)) (xs @ ys)"
    using dist as by (auto intro!: entry_of_upd_other)
  have "map (entry_of (lc_heap (lru_move_to_front a ?c))) (a # xs @ ys) =
        (k, n_value (f n), n_created (f n), n_access (f n)) # vdel k es"
    using ea eo del by (simp add: cache_simps es)
  with rep show ?thesis unfolding lru_abs_def by (metis (no_types, lifting))
qed

lemma lru_abs_remove_tail:
  assumes a: "lru_abs c es"
  shows "lru_abs (lru_remove_tail c) (butlast es)"
proof -
  from a obtain as where r: "lru_repr c as" and es: "es = map (entry_of (lc_heap c)) as"
    by (auto simp: lru_abs_def)
  show ?thesis
  proof (cases as rule: rev_cases)
    case Nil
    with r a es show ?thesis by (simp add: lru_remove_tail_def lru_repr_def lru_linked_def)
  next
    case (snoc xs x)
    then have "lc_tail c = Some x" using r by (simp add: lru_repr_def lru_linked_def)
    then show ?thesis
      using lru_repr_remove [of c xs x "[]"] r snoc
      by (auto simp: lru_remove_tail_def lru_abs_def es map_butlast)
  qed
qed

lemma lru_remove_tail_config [cache_simps]:
  "lc_capacity (lru_remove_tail c) = lc_capacity c"
  "lc_ttl (lru_remove_tail c) = lc_ttl c"
  "lc_interval (lru_remove_tail c) = lc_interval c"
  by (simp_all add: lru_remove_tail_def lru_remove_config split: option.splits)

text \<open>Linking a freshly allocated node, as \<^verbatim>\<open>put\<close> does for a new key.\<close>

definition lru_insert_new :: "int \<Rightarrow> string \<Rightarrow> 'v \<Rightarrow> 'v lru_cache \<Rightarrow> 'v lru_cache" where
  "lru_insert_new t key v c =
     (let a = lc_fresh c;
          n = \<lparr>n_key = key, n_value = v, n_prev = None, n_next = None, n_created = t, n_access = t\<rparr>;
          c3 = c\<lparr>lc_heap := (lc_heap c)(a \<mapsto> n), lc_fresh := Suc a, lc_map := vset key a (lc_map c)\<rparr>;
          c4 = lru_add_to_front a c3
      in c4\<lparr>lc_size := lc_size c4 + 1\<rparr>)"

lemma lru_abs_insert_new:
  assumes a: "lru_abs c es" and k: "key \<noteq> ''''" and none: "vget (lc_map c) key = None"
  shows "lru_abs (lru_insert_new t key v c) ((key, v, t, t) # es)"
proof -
  let ?a = "lc_fresh c"
  let ?n = "\<lparr>n_key = key, n_value = v, n_prev = None, n_next = None, n_created = t, n_access = t\<rparr>"
  let ?c3 = "c\<lparr>lc_heap := (lc_heap c)(?a \<mapsto> ?n), lc_fresh := Suc ?a, lc_map := vset key ?a (lc_map c)\<rparr>"
  let ?c4 = "lru_add_to_front ?a ?c3"
  let ?c5 = "?c4\<lparr>lc_size := lc_size ?c4 + 1\<rparr>"
  have eq: "lru_insert_new t key v c = ?c5" by (simp add: lru_insert_new_def Let_def)
  from a obtain as where r: "lru_repr c as" and es: "es = map (entry_of (lc_heap c)) as"
    by (auto simp: lru_abs_def)
  have fr: "\<forall>b \<in> set as. b < ?a" using r by (simp add: lru_repr_def lru_linked_def)
  have na: "?a \<notin> set as" using fr by auto
  have ea: "entry_of (lc_heap ?c5) ?a = (key, v, t, t)"
    by (simp add: cache_simps) (simp add: entry_of_def)
  have eo: "entry_of (lc_heap ?c5) b = entry_of (lc_heap c) b" if "b \<in> set as" for b
    using that na by (auto simp: cache_simps entry_of_def)
  have "lru_linked ?c3 as"
    using r na by (auto simp: lru_repr_def lru_linked_def dseg_frame less_SucI)
  then have "lru_linked ?c4 (?a # as)"
    using na by (intro lru_linked_add) auto
  then have l: "lru_linked ?c5 (?a # as)" by (simp add: lru_linked_def)
  have m0: "vmap_ok (lc_map c)" "length (lc_map c) = length as" "lc_size c = int (length as)"
      "\<forall>b \<in> set as. fst (entry_of (lc_heap c) b) \<noteq> ''''"
      "\<forall>k b. vget (lc_map c) k = Some b \<longleftrightarrow> b \<in> set as \<and> fst (entry_of (lc_heap c) b) = k"
    using r unfolding lru_repr_def lru_mapped_def by blast+
  have nk: "\<forall>b \<in> set as. fst (entry_of (lc_heap c) b) \<noteq> key"
    using m0(5) none by (metis option.distinct(1))
  have mp: "lc_map ?c5 = vset key ?a (lc_map c)" "lc_size ?c5 = lc_size c + 1"
    by (simp_all add: cache_simps)
  have "vget (lc_map ?c5) k = Some b \<longleftrightarrow> b \<in> set (?a # as) \<and> fst (entry_of (lc_heap ?c5) b) = k" for k b
  proof (cases "b = ?a")
    case True
    with ea na m0(5) show ?thesis unfolding mp by auto
  next
    case False
    with eo [of b] nk m0(5) show ?thesis unfolding mp by auto
  qed
  moreover have "\<forall>b \<in> set (?a # as). fst (entry_of (lc_heap ?c5) b) \<noteq> ''''"
    using ea k m0(4) eo by auto
  ultimately have "lru_mapped ?c5 (?a # as)"
    using m0 none unfolding lru_mapped_def mp by (simp add: length_vset_new)
  with l have "lru_repr ?c5 (?a # as)" by (simp add: lru_repr_def)
  moreover have "map (entry_of (lc_heap ?c5)) (?a # as) = (key, v, t, t) # es"
    using ea eo es by simp
  ultimately show ?thesis unfolding eq lru_abs_def by (metis (no_types, lifting))
qed

lemma lru_put_new:
  "vget (lc_map (lru_cleanup_expired_if_needed ck c)) key = None \<Longrightarrow>
   lru_put ck key v c =
     (let c1 = lru_cleanup_expired_if_needed ck c;
          c2 = (if lc_size c1 \<ge> lc_capacity c1 then lru_remove_tail c1 else c1)
      in lru_insert_new (ck_access ck) key v c2)"
  by (simp add: lru_put_def lru_insert_new_def Let_def)

lemma lru_abs_new: "lru_abs (lru_new_with_ttl now cap ttl) []"
  by (simp add: lru_abs_def lru_repr_def lru_linked_def lru_mapped_def lru_new_with_ttl_def)

lemma lru_put_config [cache_simps]:
  "lc_capacity (lru_put ck key v c) = lc_capacity c"
  by (auto simp: lru_put_def Let_def cache_simps split: option.splits)

lemma lru_get_config [cache_simps]:
  "lc_capacity (snd (lru_get ck key c)) = lc_capacity c"
  by (auto simp: lru_get_def Let_def cache_simps split: option.splits)

lemma lru_abs_get:
  assumes a: "lru_abs c es"
  shows "fst (lru_get ck key c) = fst (lru_spec_get ck (lc_ttl c) key (lru_spec_if_needed ck c es)) \<and>
    lru_abs (snd (lru_get ck key c)) (snd (lru_spec_get ck (lc_ttl c) key (lru_spec_if_needed ck c es)))"
proof -
  let ?c = "lru_cleanup_expired_if_needed ck c" and ?es = "lru_spec_if_needed ck c es"
  have a1: "lru_abs ?c ?es" using a by (rule lru_abs_if_needed)
  have ttl: "lc_ttl ?c = lc_ttl c" by (simp add: cache_simps)
  show ?thesis
  proof (cases "vget (lc_map ?c) key")
    case None
    with lru_abs_lookup_None [OF a1 None] a1 show ?thesis
      by (simp add: lru_get_def lru_spec_get_def Let_def)
  next
    case (Some b)
    from a1 obtain as where "lru_repr ?c as" and "?es = map (entry_of (lc_heap ?c)) as"
      by (auto simp: lru_abs_def)
    with Some obtain v cr acc n where n: "lc_heap ?c b = Some n" "n_value n = v" "n_created n = cr"
        "n_access n = acc" and look: "map_of ?es key = Some (v, cr, acc)"
      by (elim lru_repr_lookup) auto
    show ?thesis
      using n look Some lru_abs_remove_key [OF a1 Some]
        lru_abs_touch [OF a1 Some n(1), of "\<lambda>m. m\<lparr>n_access := ck_access ck\<rparr>"]
      by (simp add: lru_get_def lru_spec_get_def Let_def ttl)
  qed
qed

lemma lru_abs_put:
  assumes a: "lru_abs c es" and k: "key \<noteq> ''''"
  shows "lru_abs (lru_put ck key v c) (lru_spec_put ck (lc_capacity c) key v (lru_spec_if_needed ck c es))"
proof -
  let ?c = "lru_cleanup_expired_if_needed ck c" and ?es = "lru_spec_if_needed ck c es"
  have a1: "lru_abs ?c ?es" using a by (rule lru_abs_if_needed)
  show ?thesis
  proof (cases "vget (lc_map ?c) key")
    case None
    let ?c2 = "if lc_size ?c \<ge> lc_capacity ?c then lru_remove_tail ?c else ?c"
    have look: "map_of ?es key = None" using a1 None by (rule lru_abs_lookup_None)
    have a2: "lru_abs ?c2 (if int (length ?es) \<ge> lc_capacity c then butlast ?es else ?es)"
      using a1 lru_abs_remove_tail [OF a1] lru_abs_length [OF a1] by (simp add: cache_simps)
    have "vget (lc_map ?c2) key = None"
      using None by (auto simp: lru_remove_tail_def lru_remove_node_def Let_def split: option.splits)
    from lru_abs_insert_new [OF a2 k this] look show ?thesis
      by (simp add: lru_put_new [OF None] lru_spec_put_def Let_def)
  next
    case (Some b)
    from a1 obtain as where "lru_repr ?c as" and "?es = map (entry_of (lc_heap ?c)) as"
      by (auto simp: lru_abs_def)
    with Some obtain w cr acc n where n: "lc_heap ?c b = Some n" "n_value n = w" "n_created n = cr"
        "n_access n = acc" and look: "map_of ?es key = Some (w, cr, acc)"
      by (elim lru_repr_lookup) auto
    show ?thesis
      using n look Some
        lru_abs_touch [OF a1 Some n(1), of "\<lambda>m. m\<lparr>n_value := v, n_access := ck_access ck\<rparr>"]
      by (simp add: lru_put_def lru_spec_put_def Let_def)
  qed
qed

lemma lru_abs_clear: "lru_abs (lru_clear now c) []"
  by (simp add: lru_abs_def lru_repr_def lru_linked_def lru_mapped_def lru_clear_def)

lemma lru_clear_walk_frame:
  "b \<notin> set as \<Longrightarrow> dseg h p as None \<Longrightarrow> distinct as \<Longrightarrow>
   lru_clear_walk fuel (hd_opt as None) h b = h b"
proof (induction as arbitrary: h p fuel)
  case (Cons a as)
  then show ?case
  proof (cases fuel)
    case (Suc f)
    let ?h = "upd_opt (Some a) (\<lambda>m. m\<lparr>n_prev := None, n_next := None, n_key := ''''\<rparr>) h"
    have "dseg ?h (Some a) as None"
      using Cons.prems by (auto simp: heap_simps dseg_frame split: option.splits)
    then have "lru_clear_walk f (hd_opt as None) ?h b = ?h b"
      using Cons.prems by (intro Cons.IH) auto
    moreover have "lru_clear_walk fuel (hd_opt (a # as) None) h = lru_clear_walk f (hd_opt as None) ?h"
      using Cons.prems by (auto simp: Suc split: option.splits)
    ultimately show ?thesis using Cons.prems by (simp add: heap_simps)
  qed simp
qed simp

lemma lru_clear_walk_wipes:
  "dseg h p as None \<Longrightarrow> distinct as \<Longrightarrow> length as \<le> fuel \<Longrightarrow> a \<in> set as \<Longrightarrow>
   \<exists>n. lru_clear_walk fuel (hd_opt as None) h a = Some n \<and> n_key n = '''' \<and> n_prev n = None \<and> n_next n = None"
proof (induction as arbitrary: h p fuel)
  case (Cons b as)
  then obtain f n where f: "fuel = Suc f" and n: "h b = Some n" "n_next n = hd_opt as None"
    by (cases fuel) (auto split: option.splits)
  let ?h = "upd_opt (Some b) (\<lambda>m. m\<lparr>n_prev := None, n_next := None, n_key := ''''\<rparr>) h"
  have seg: "dseg ?h (Some b) as None"
    using Cons.prems by (auto simp: heap_simps dseg_frame split: option.splits)
  have eq: "lru_clear_walk fuel (hd_opt (b # as) None) h = lru_clear_walk f (hd_opt as None) ?h"
    using n by (simp add: f)
  show ?case
  proof (cases "a = b")
    case True
    then show ?thesis
      using lru_clear_walk_frame [of b as ?h "Some b" f] seg Cons.prems n
      unfolding eq by (simp add: heap_simps)
  next
    case False
    with Cons.IH [of ?h "Some b" f] seg Cons.prems f show ?thesis unfolding eq by simp
  qed
qed simp

lemma lru_repr_length_fresh: "lru_repr c as \<Longrightarrow> length as \<le> lc_fresh c"
proof -
  assume "lru_repr c as"
  then have "distinct as" and "set as \<subseteq> {..<lc_fresh c}"
    by (auto simp: lru_repr_def lru_linked_def)
  then show ?thesis
    by (metis card_lessThan card_mono distinct_card finite_lessThan)
qed

lemma lru_walk_dseg: "dseg h p as None \<Longrightarrow> lru_walk h (hd_opt as None) (length as)"
  by (induction as arbitrary: p) (auto split: option.splits)

lemma lru_abs_healthy:
  assumes "lru_abs c es"
  shows "lru_is_healthy c"
proof -
  from assms obtain as where "lru_linked c as" and "lru_mapped c as"
    by (auto simp: lru_abs_def lru_repr_def)
  moreover from this have "lru_walk (lc_heap c) (lc_head c) (nat (lc_size c))"
    using lru_walk_dseg [of "lc_heap c" None as] by (simp add: lru_linked_def lru_mapped_def)
  ultimately show ?thesis
    by (cases "as = []") (auto simp: lru_is_healthy_def lru_linked_def lru_mapped_def)
qed

lemma lru_spec_sweep_subset: "set (lru_spec_if_needed ck c es) \<subseteq> set es"
  by (auto simp: lru_spec_if_needed_def lru_spec_sweep_def)

lemma lru_spec_if_needed_length: "length (lru_spec_if_needed ck c es) \<le> length es"
  by (simp add: lru_spec_if_needed_def lru_spec_sweep_def)

lemma lru_spec_if_needed_ok: "vmap_ok es \<Longrightarrow> vmap_ok (lru_spec_if_needed ck c es)"
  by (simp add: lru_spec_if_needed_def lru_spec_sweep_def distinct_map_filter)

lemma lru_spec_put_length:
  assumes "vmap_ok es" and "int (length es) \<le> cap" and "1 \<le> cap"
  shows "int (length (lru_spec_put ck cap key v es)) \<le> cap"
proof (cases "map_of es key")
  case (Some e)
  with length_vdel [OF assms(1) Some] assms show ?thesis
    by (cases e) (simp add: lru_spec_put_def)
qed (use assms in \<open>auto simp: lru_spec_put_def\<close>)

lemma lru_spec_get_length:
  assumes "vmap_ok es"
  shows "length (snd (lru_spec_get ck ttl key es)) \<le> length es"
proof (cases "map_of es key")
  case (Some e)
  with length_vdel [OF assms Some] show ?thesis
    by (cases e) (simp add: lru_spec_get_def)
qed (simp add: lru_spec_get_def)

section \<open>Sequences of operations\<close>

datatype 'v lru_op =
    Op_get clock string
  | Op_put clock string 'v
  | Op_set_ttl int
  | Op_set_interval int
  | Op_force_cleanup clock
  | Op_clear int

fun lru_step :: "'v lru_op \<Rightarrow> 'v lru_cache \<Rightarrow> 'v lru_cache" where
  "lru_step (Op_get ck k) c = snd (lru_get ck k c)"
| "lru_step (Op_put ck k v) c = lru_put ck k v c"
| "lru_step (Op_set_ttl t) c = lru_set_ttl t c"
| "lru_step (Op_set_interval i) c = lru_set_cleanup_interval i c"
| "lru_step (Op_force_cleanup ck) c = lru_force_cleanup_expired ck c"
| "lru_step (Op_clear now) c = lru_clear now c"

fun lru_op_ok :: "'v lru_op \<Rightarrow> bool" where
  "lru_op_ok (Op_put ck k v) = (k \<noteq> '''')"
| "lru_op_ok _ = True"

definition lru_bounded :: "'v lru_cache \<Rightarrow> bool" where
  "lru_bounded c \<longleftrightarrow> (\<exists>es. lru_abs c es \<and> int (length es) \<le> lc_capacity c) \<and> 1 \<le> lc_capacity c"

lemma lru_abs_set_ttl: "lru_abs (c\<lparr>lc_ttl := t\<rparr>) es = lru_abs c es"
  by (simp add: lru_abs_def lru_repr_def lru_linked_def lru_mapped_def)

lemma lru_abs_set_interval: "lru_abs (c\<lparr>lc_interval := t\<rparr>) es = lru_abs c es"
  by (simp add: lru_abs_def lru_repr_def lru_linked_def lru_mapped_def)

lemma lru_bounded_step:
  assumes b: "lru_bounded c" and ok: "lru_op_ok op"
  shows "lru_bounded (lru_step op c)"
proof -
  from b obtain es where a: "lru_abs c es" and len: "int (length es) \<le> lc_capacity c"
    and cap: "1 \<le> lc_capacity c" by (auto simp: lru_bounded_def)
  note dk = lru_abs_keys_distinct [OF a]
  show ?thesis
  proof (cases op)
    case (Op_get ck k)
    let ?es = "lru_spec_if_needed ck c es"
    have "length (snd (lru_spec_get ck (lc_ttl c) k ?es)) \<le> length es"
      using lru_spec_get_length [OF lru_spec_if_needed_ok [OF dk], of ck "lc_ttl c" k ck c]
        lru_spec_if_needed_length [of ck c es] by linarith
    with lru_abs_get [OF a, of ck k] len cap Op_get show ?thesis
      by (auto simp: lru_bounded_def cache_simps)
  next
    case (Op_put ck k v)
    let ?es = "lru_spec_if_needed ck c es"
    have "int (length ?es) \<le> lc_capacity c"
      using lru_spec_if_needed_length [of ck c es] len by linarith
    from lru_spec_put_length [OF lru_spec_if_needed_ok [OF dk] this cap]
    show ?thesis using lru_abs_put [OF a, of k ck v] cap Op_put ok
      by (auto simp: lru_bounded_def cache_simps)
  next
    case (Op_force_cleanup ck)
    have "length (lru_spec_sweep ck (lc_ttl c) es) \<le> length es" by (simp add: lru_spec_sweep_def)
    moreover have "lc_capacity (lru_cleanup_expired_entries ck c) = lc_capacity c"
      by (simp add: lru_cleanup_expired_entries_def cache_simps)
    ultimately show ?thesis
      using lru_abs_cleanup_entries [OF a, of ck] len cap Op_force_cleanup
      by (force simp: lru_bounded_def lru_force_cleanup_expired_def)
  next
    case (Op_clear now)
    then show ?thesis using cap lru_abs_clear [of now c]
      by (force simp: lru_bounded_def lru_clear_def)
  qed (use a len cap in \<open>auto simp: lru_bounded_def lru_set_ttl_def lru_set_cleanup_interval_def
        lru_abs_set_ttl lru_abs_set_interval\<close>)
qed

lemma lru_bounded_run: "lru_bounded c \<Longrightarrow> list_all lru_op_ok ops \<Longrightarrow> lru_bounded (fold lru_step ops c)"
  by (induction ops arbitrary: c) (auto intro: lru_bounded_step)

lemma lru_bounded_new: "1 \<le> cap \<Longrightarrow> lru_bounded (lru_new_with_ttl now cap ttl)"
  using lru_abs_new [of now cap ttl] by (force simp: lru_bounded_def lru_new_with_ttl_def)

section \<open>The cache contract\<close>

definition lru_holds :: "'v lru_cache \<Rightarrow> string \<Rightarrow> 'v \<Rightarrow> bool" where
  "lru_holds c k v \<longleftrightarrow> (case vget (lc_map c) k of None \<Rightarrow> False
     | Some a \<Rightarrow> (case lc_heap c a of None \<Rightarrow> False | Some n \<Rightarrow> n_value n = v))"

lemma lru_holds_iff:
  assumes a: "lru_abs c es"
  shows "lru_holds c k v \<longleftrightarrow> (\<exists>cr acc. map_of es k = Some (v, cr, acc))"
proof (cases "vget (lc_map c) k")
  case None
  with lru_abs_lookup_None [OF a None] show ?thesis by (simp add: lru_holds_def)
next
  case (Some b)
  from a obtain as where "lru_repr c as" and "es = map (entry_of (lc_heap c)) as"
    by (auto simp: lru_abs_def)
  with Some obtain n where "lc_heap c b = Some n"
      and "map_of es k = Some (n_value n, n_created n, n_access n)"
    by (elim lru_repr_lookup) auto
  with Some show ?thesis by (auto simp: lru_holds_def)
qed

lemma lru_spec_if_needed_map_of:
  assumes "vmap_ok es" and "map_of (lru_spec_if_needed ck c es) k = Some x"
  shows "map_of es k = Some x"
  using assms lru_spec_sweep_subset [of ck c es] map_of_SomeD [OF assms(2)]
  by (auto intro!: map_of_is_SomeI)

lemma lru_contract_get:
  assumes "\<exists>es. lru_abs c es"
  shows "fst (lru_get e k c) = Some v \<Longrightarrow> lru_holds c k v"
    and "\<exists>es. lru_abs (snd (lru_get e k c)) es"
    and "lru_holds (snd (lru_get e k c)) k' w \<Longrightarrow> lru_holds c k' w"
proof -
  from assms obtain es where a: "lru_abs c es" by blast
  let ?es = "lru_spec_if_needed e c es"
  note g = lru_abs_get [OF a, of e k]
  note sub = lru_spec_if_needed_map_of [OF lru_abs_keys_distinct [OF a], of e c]
  show "\<exists>es. lru_abs (snd (lru_get e k c)) es" using g by blast
  show "lru_holds c k v" if "fst (lru_get e k c) = Some v"
    using that g sub [of k] unfolding lru_holds_iff [OF a]
    by (auto simp: lru_spec_get_def split: option.splits if_splits)
  show "lru_holds c k' w" if "lru_holds (snd (lru_get e k c)) k' w"
    using that g sub [of k'] unfolding lru_holds_iff [OF a] lru_holds_iff [OF conjunct2 [OF g]]
    by (auto simp: lru_spec_get_def split: option.splits if_splits)
qed

lemma lru_contract_put:
  assumes "\<exists>es. lru_abs c es" and k: "k \<noteq> ''''"
  shows "\<exists>es. lru_abs (lru_put e k v c) es"
    and "lru_holds (lru_put e k v c) k' w \<Longrightarrow> lru_holds c k' w \<or> k' = k \<and> w = v"
proof -
  from assms obtain es where a: "lru_abs c es" by blast
  let ?es = "lru_spec_if_needed e c es"
  note p = lru_abs_put [OF a k, of e v]
  note ok = lru_abs_keys_distinct [OF a]
  note sub = lru_spec_if_needed_map_of [OF ok, of e c]
  show "\<exists>es. lru_abs (lru_put e k v c) es" using p by blast
  have bl: "map_of (butlast ?es) k' = Some x \<Longrightarrow> map_of ?es k' = Some x" for x
    using lru_spec_if_needed_ok [OF ok, of e c] map_of_SomeD in_set_butlastD map_of_is_SomeI by metis
  show "lru_holds c k' w \<or> k' = k \<and> w = v" if "lru_holds (lru_put e k v c) k' w"
    using that sub [of k'] bl unfolding lru_holds_iff [OF a] lru_holds_iff [OF p]
    by (auto simp: lru_spec_put_def split: option.splits if_splits)
qed

interpretation lru: route_cache lru_get lru_put "\<lambda>c. \<exists>es. lru_abs c es" lru_holds
  by unfold_locales (fact lru_contract_get lru_contract_put)+

lemma lru_agrees_new: "lru.agrees spec (lru_new now cap)"
  by (auto simp: lru.agrees_def lru_new_def lru_holds_iff [OF lru_abs_new] intro: lru_abs_new)

lemma lru_agrees_clear: "lru.agrees spec (lru_clear now c)"
  by (auto simp: lru.agrees_def lru_holds_iff [OF lru_abs_clear] intro: lru_abs_clear)

lemma lru_holds_settings [simp]:
  "lru_holds (c\<lparr>lc_ttl := t\<rparr>) = lru_holds c" "lru_holds (c\<lparr>lc_interval := t\<rparr>) = lru_holds c"
  by (simp_all add: lru_holds_def fun_eq_iff cong: option.case_cong)

lemma lru_agrees_settings:
  "lru.agrees spec (lru_set_ttl t c) = lru.agrees spec c"
  "lru.agrees spec (lru_set_cleanup_interval t c) = lru.agrees spec c"
  by (simp_all add: lru.agrees_def lru_set_ttl_def lru_set_cleanup_interval_def lru_abs_set_ttl lru_abs_set_interval)

lemma lru_agrees_cleanup:
  assumes "lru.agrees spec c"
  shows "lru.agrees spec (lru_cleanup_expired_entries ck c)"
proof -
  from assms obtain es where a: "lru_abs c es" by (auto simp: lru.agrees_def)
  note s = lru_abs_cleanup_entries [OF a, of ck]
  have "map_of es k = Some x" if "map_of (lru_spec_sweep ck (lc_ttl c) es) k = Some x" for k x
    using that lru_abs_keys_distinct [OF a] map_of_SomeD [of "lru_spec_sweep ck (lc_ttl c) es" k x]
    by (intro map_of_is_SomeI) (auto simp: lru_spec_sweep_def)
  with assms show ?thesis
    unfolding lru.agrees_def lru_holds_iff [OF a] lru_holds_iff [OF s]
    using s by blast
qed

lemma lru_agrees_force_cleanup: "lru.agrees spec c \<Longrightarrow> lru.agrees spec (lru_force_cleanup_expired ck c)"
  by (simp add: lru_force_cleanup_expired_def lru_agrees_cleanup)

lemma lru_holds_last_cleanup [simp]: "lru_holds (c\<lparr>lc_last_cleanup := t\<rparr>) = lru_holds c"
  by (simp add: lru_holds_def fun_eq_iff cong: option.case_cong)

lemma lru_agrees_cleanup_if_needed: "lru.agrees spec c \<Longrightarrow> lru.agrees spec (lru_cleanup_expired_if_needed ck c)"
  using lru_agrees_cleanup [of spec c ck] by (simp add: lru_cleanup_expired_if_needed_def lru.agrees_def lru_abs_update_cleanup)

section \<open>Properties\<close>

text \<open>C1: \<^verbatim>\<open>ContextLRUCache.get\<close> on the doubly linked pointer structure implements the lookup of the
  recency list: after the periodic sweep, an absent or expired key misses (and the expired entry
  goes), a live key hits, becomes the most recent entry and gets a fresh access time; the links,
  the hash map and the size stay consistent.\<close>

theorem lru_get_refines:
  assumes "lru_abs c es"
  shows "fst (lru_get ck key c) = fst (lru_spec_get ck (lc_ttl c) key (lru_spec_if_needed ck c es)) \<and>
    lru_abs (snd (lru_get ck key c)) (snd (lru_spec_get ck (lc_ttl c) key (lru_spec_if_needed ck c es)))"
  using assms by (rule lru_abs_get)

definition ck0 :: clock where
  "ck0 = \<lparr>ck_cleanup = 0, ck_scan = (\<lambda>_. 0), ck_check = 0, ck_access = 0\<rparr>"

lemma lru_abs_two:
  "lru_abs (lru_put ck0 ''b'' (8::int) (lru_put ck0 ''a'' 7 (lru_new 0 2)))
     [(''b'', 8, 0, 0), (''a'', 7, 0, 0)]"
proof -
  have 1: "lru_abs (lru_put ck0 ''a'' (7::int) (lru_new 0 2)) [(''a'', 7, 0, 0)]"
    using lru_abs_put [OF lru_abs_new, of "''a''" ck0 "7::int" 0 2 3600]
    by (simp add: lru_new_def lru_spec_put_def lru_spec_if_needed_def lru_spec_sweep_def ck0_def)
      (simp add: lru_new_with_ttl_def)
  let ?c = "lru_put ck0 ''a'' (7::int) (lru_new 0 2)"
  have "lc_interval ?c = 300" "lc_last_cleanup ?c = 0" "lc_capacity ?c = 2"
    by code_simp+
  then show ?thesis
    using lru_abs_put [OF 1, of "''b''" ck0 "8::int"]
    by (simp add: lru_spec_put_def lru_spec_if_needed_def) (simp add: ck0_def)
qed

lemma lru_two_config:
  "lc_interval (lru_put ck0 ''b'' (8::int) (lru_put ck0 ''a'' 7 (lru_new 0 2))) = 300"
  "lc_last_cleanup (lru_put ck0 ''b'' (8::int) (lru_put ck0 ''a'' 7 (lru_new 0 2))) = 0"
  "lc_capacity (lru_put ck0 ''b'' (8::int) (lru_put ck0 ''a'' 7 (lru_new 0 2))) = 2"
  "lc_ttl (lru_put ck0 ''b'' (8::int) (lru_put ck0 ''a'' 7 (lru_new 0 2))) = 3600"
  "lc_capacity (lru_new 0 2) = 2"
  by code_simp+

theorem lru_get_refines_witness:
  "fst (lru_get ck0 ''a'' (lru_put ck0 ''b'' (8::int) (lru_put ck0 ''a'' 7 (lru_new 0 2)))) = Some 7"
  using lru_get_refines [OF lru_abs_two, of ck0 "''a''"]
  by (simp add: lru_spec_get_def lru_spec_if_needed_def lru_two_config lru_is_expired_def)
    (simp add: ck0_def)

text \<open>C2: \<^verbatim>\<open>ContextLRUCache.put\<close> implements insertion into the recency list: an existing key keeps its
  creation time and moves to the front with the new value; a new key is put in front, and when the
  cache is full exactly the least recently used entry is dropped.\<close>

theorem lru_put_refines:
  assumes "lru_abs c es" and "key \<noteq> ''''"
  shows "lru_abs (lru_put ck key v c) (lru_spec_put ck (lc_capacity c) key v (lru_spec_if_needed ck c es))"
  using assms by (rule lru_abs_put)

theorem lru_put_refines_witness:
  "lru_abs (lru_put ck0 ''c'' (9::int) (lru_put ck0 ''b'' 8 (lru_put ck0 ''a'' 7 (lru_new 0 2))))
     [(''c'', 9, 0, 0), (''b'', 8, 0, 0)]"
  using lru_put_refines [OF lru_abs_two, of "''c''" ck0 "9::int"]
  by (simp add: lru_spec_put_def lru_spec_if_needed_def lru_two_config)
    (simp add: ck0_def)

text \<open>C19: from a new cache with room for at least one entry, every sequence of operations with
  non-empty keys leaves a cache whose own health check \<^verbatim>\<open>is_healthy\<close> succeeds and whose size never
  passes its capacity.\<close>

theorem lru_run_healthy_bounded:
  assumes "1 \<le> cap" and "list_all lru_op_ok ops"
  shows "lru_is_healthy (fold lru_step ops (lru_new_with_ttl now cap ttl)) \<and>
    lc_size (fold lru_step ops (lru_new_with_ttl now cap ttl))
      \<le> lc_capacity (fold lru_step ops (lru_new_with_ttl now cap ttl))"
proof -
  have "lru_bounded (fold lru_step ops (lru_new_with_ttl now cap ttl))"
    using assms by (intro lru_bounded_run lru_bounded_new)
  then show ?thesis
    by (auto simp: lru_bounded_def lru_abs_healthy dest: lru_abs_length)
qed

theorem lru_run_healthy_bounded_witness:
  "lc_size (fold lru_step [Op_put ck0 ''a'' (1::int), Op_put ck0 ''b'' 2, Op_get ck0 ''a'']
     (lru_new_with_ttl 0 1 60)) \<le>
   lc_capacity (fold lru_step [Op_put ck0 ''a'' (1::int), Op_put ck0 ''b'' 2, Op_get ck0 ''a'']
     (lru_new_with_ttl 0 1 60))"
  using lru_run_healthy_bounded [of 1 "[Op_put ck0 ''a'' (1::int), Op_put ck0 ''b'' 2, Op_get ck0 ''a'']" 0 60]
  by simp

text \<open>The guard \<^verbatim>\<open>if node.key == ''\<close> of \<^verbatim>\<open>remove_node\<close> makes an entry stored under the empty key
  impossible to evict: a cache of capacity one then grows without bound, and the key stays
  readable.\<close>

theorem lru_empty_key_never_evicted:
  "lc_size (lru_put ck0 ''b'' (2::int) (lru_put ck0 ''a'' 1 (lru_put ck0 '''' 0 (lru_new 0 1)))) = 3 \<and>
   fst (lru_get ck0 '''' (lru_put ck0 ''b'' (2::int) (lru_put ck0 ''a'' 1 (lru_put ck0 '''' 0 (lru_new 0 1)))))
     = Some 0"
  by code_simp

text \<open>\<^verbatim>\<open>clear\<close> leaves an empty consistent cache and wipes the key and both links of every node that
  was linked, so no stale node keeps a reference to another.\<close>

theorem lru_clear_empties:
  assumes "lru_repr c as" and "a \<in> set as"
  shows "lru_abs (lru_clear now c) [] \<and>
    (\<exists>n. lc_heap (lru_clear now c) a = Some n \<and> n_key n = '''' \<and> n_prev n = None \<and> n_next n = None)"
proof -
  from assms have "dseg (lc_heap c) None as None" "distinct as" "lc_head c = hd_opt as None"
    by (auto simp: lru_repr_def lru_linked_def)
  then show ?thesis
    using lru_clear_walk_wipes [of "lc_heap c" None as "lc_fresh c" a] lru_repr_length_fresh [OF assms(1)]
      assms(2) lru_abs_clear [of now c] by (simp add: lru_clear_def)
qed

theorem lru_clear_empties_witness:
  "\<exists>n. lc_heap (lru_clear 5 (lru_put ck0 ''b'' (8::int) (lru_put ck0 ''a'' 7 (lru_new 0 2)))) 0 = Some n
     \<and> n_key n = ''''"
proof -
  obtain as where as: "lru_repr (lru_put ck0 ''b'' (8::int) (lru_put ck0 ''a'' 7 (lru_new 0 2))) as"
    using lru_abs_two by (auto simp: lru_abs_def)
  have "vget (lc_map (lru_put ck0 ''b'' (8::int) (lru_put ck0 ''a'' 7 (lru_new 0 2)))) ''a'' = Some 0"
    by code_simp
  with as have "0 \<in> set as" unfolding lru_repr_def lru_mapped_def by blast
  from lru_clear_empties [OF as this, of 5] show ?thesis by blast
qed

end
