(* ===== verification/Bsd_Socket.thy ===== *)
theory Bsd_Socket
  imports Prelude "HOL-Library.State_Monad"
begin

text \<open>
  The socket layer \<^verbatim>\<open>usockets/src/bsd.c\<close>: creation of listening, connecting, UDP and Unix domain
  sockets, addresses, sending and shutting down.  The C library and the kernel are not part of the
  sources; they are the parameter \<open>os\<close>, which answers every call from the whole history of calls
  and answers before it, so that a theorem over all \<open>os\<close> covers every behaviour of the system.
  A function of \<^verbatim>\<open>bsd.c\<close> is a computation in the state monad whose state is that history.  The
  preprocessor symbols of the file are the fields of the record \<open>build\<close>, and constants that
  come from headers outside the sources (\<^verbatim>\<open>LIBUS_SOCKET_ERROR\<close>, the size of \<^verbatim>\<open>sun_path\<close>) are fields too.
  The lemmas use a weakest precondition (\<open>wp\<close>) for such computations.
\<close>

section \<open>Platform, system calls and their history\<close>

record build =
  b_win32 :: bool
  b_apple :: bool
  b_sock_flags :: bool      \<comment> \<open>\<^verbatim>\<open>defined(SOCK_CLOEXEC) && defined(SOCK_NONBLOCK)\<close>\<close>
  b_msg_more :: bool
  b_tcp_cork :: bool
  b_reuseport :: bool
  b_v6only :: bool
  b_ip_pktinfo :: bool
  b_ip_recvdstaddr :: bool
  b_SOCKET_ERROR :: int
  b_sun_path_size :: nat

datatype family = AF_UNSPEC | AF_INET | AF_INET6 | AF_UNIX | AF_OTHER int

datatype sock_type = SOCK_STREAM | SOCK_DGRAM | SOCK_OTHER int

datatype sock_flag = SOCK_CLOEXEC | SOCK_NONBLOCK

datatype msg_flag = MSG_MORE | MSG_NOSIGNAL

datatype level = SOL_SOCKET | IPPROTO_TCP | IPPROTO_IP | IPPROTO_IPV6

datatype sockopt =
    SO_NOSIGPIPE | SO_REUSEADDR | SO_REUSEPORT | SO_EXCLUSIVEADDRUSE | TCP_NODELAY | TCP_CORK
  | IPV6_V6ONLY | IPV6_RECVPKTINFO | IP_PKTINFO | IP_RECVDSTADDR | IPV6_RECVTCLASS | IP_RECVTOS

datatype shut_how = SHUT_RD | SHUT_WR

record sockaddr =
  sa_family :: family
  sa_ip :: "8 word list"
  sa_port_be :: "8 word \<times> 8 word"   \<comment> \<open>the two port bytes in network order\<close>
  sa_path :: string

record addrinfo =
  ai_family :: family
  ai_socktype :: sock_type
  ai_protocol :: int
  ai_addr :: sockaddr

record hints =
  hi_passive :: bool
  hi_family :: family
  hi_socktype :: "sock_type option"

datatype call =
    C_socket family sock_type "sock_flag list" int
  | C_close int
  | C_shutdown int shut_how
  | C_getfl int
  | C_setfl_nonblock int int
  | C_setsockopt int level sockopt int
  | C_bind int sockaddr
  | C_listen int int
  | C_connect int sockaddr
  | C_getaddrinfo "string option" "string option" "hints option"
  | C_freeaddrinfo
  | C_getsockname int
  | C_getpeername int
  | C_accept int "sock_flag list"
  | C_recv int int int
  | C_send int "8 word list" "msg_flag list"
  | C_writev int "8 word list list"
  | C_chmod int string
  | C_unlink string
  | C_printf string
  | C_sendmsg int "8 word list" "8 word list" int
  | C_sendto int "8 word list" "8 word list" int
  | C_recvfrom int nat int
  | C_sendmmsg int "(8 word list \<times> 8 word list) list" int "msg_flag list"
  | C_recvmmsg int nat int

type_synonym trace = "(call \<times> int) list"

record os =
  os_ret :: "trace \<Rightarrow> call \<Rightarrow> int"
  os_addrs :: "trace \<Rightarrow> addrinfo \<times> addrinfo list"
    \<comment> \<open>the list a successful \<^verbatim>\<open>getaddrinfo\<close> returns, never empty\<close>
  os_sockaddr :: "trace \<Rightarrow> sockaddr"
  os_errno :: "trace \<Rightarrow> int"

type_synonym 'a sys = "(trace, 'a) state"

definition sys_call :: "os \<Rightarrow> call \<Rightarrow> int sys" where
  "sys_call os c = State (\<lambda>tr. let r = os_ret os tr c in (r, tr @ [(c, r)]))"

definition sys_addrs :: "os \<Rightarrow> (addrinfo \<times> addrinfo list) sys" where
  "sys_addrs os = State (\<lambda>tr. (os_addrs os tr, tr))"

definition sys_sockaddr :: "os \<Rightarrow> sockaddr sys" where
  "sys_sockaddr os = State (\<lambda>tr. (os_sockaddr os tr, tr))"

definition sys_errno :: "os \<Rightarrow> int sys" where
  "sys_errno os = State (\<lambda>tr. (os_errno os tr, tr))"

abbreviation ret :: "'a \<Rightarrow> 'a sys" where
  "ret \<equiv> State_Monad.return"

section \<open>Descriptors\<close>

definition apple_no_sigpipe :: "build \<Rightarrow> os \<Rightarrow> int \<Rightarrow> int sys" where
  "apple_no_sigpipe b os fd =
     (if b_apple b \<and> fd \<noteq> b_SOCKET_ERROR b
      then do { _ \<leftarrow> sys_call os (C_setsockopt fd SOL_SOCKET SO_NOSIGPIPE 1); ret fd }
      else ret fd)"

definition bsd_set_nonblocking :: "build \<Rightarrow> os \<Rightarrow> int \<Rightarrow> int sys" where
  "bsd_set_nonblocking b os fd =
     (if b_win32 b then ret fd
      else do {
        fl \<leftarrow> sys_call os (C_getfl fd);
        _ \<leftarrow> sys_call os (C_setfl_nonblock fd fl);
        ret fd })"

definition bsd_socket_nodelay :: "os \<Rightarrow> int \<Rightarrow> int \<Rightarrow> unit sys" where
  "bsd_socket_nodelay os fd enabled =
     do { _ \<leftarrow> sys_call os (C_setsockopt fd IPPROTO_TCP TCP_NODELAY enabled); ret () }"

definition bsd_socket_flush :: "build \<Rightarrow> os \<Rightarrow> int \<Rightarrow> unit sys" where
  "bsd_socket_flush b os fd =
     (if b_tcp_cork b
      then do { _ \<leftarrow> sys_call os (C_setsockopt fd IPPROTO_TCP TCP_CORK 0); ret () }
      else ret ())"

definition bsd_create_socket :: "build \<Rightarrow> os \<Rightarrow> family \<Rightarrow> sock_type \<Rightarrow> int \<Rightarrow> int sys" where
  "bsd_create_socket b os domain type protocol =
     do {
       let flags = (if b_sock_flags b then [SOCK_CLOEXEC, SOCK_NONBLOCK] else []);
       created_fd \<leftarrow> sys_call os (C_socket domain type flags protocol);
       fd \<leftarrow> apple_no_sigpipe b os created_fd;
       bsd_set_nonblocking b os fd
     }"

definition bsd_close_socket :: "os \<Rightarrow> int \<Rightarrow> unit sys" where
  "bsd_close_socket os fd = do { _ \<leftarrow> sys_call os (C_close fd); ret () }"

definition bsd_shutdown_socket :: "os \<Rightarrow> int \<Rightarrow> unit sys" where
  "bsd_shutdown_socket os fd = do { _ \<leftarrow> sys_call os (C_shutdown fd SHUT_WR); ret () }"

definition bsd_shutdown_socket_read :: "os \<Rightarrow> int \<Rightarrow> unit sys" where
  "bsd_shutdown_socket_read os fd = do { _ \<leftarrow> sys_call os (C_shutdown fd SHUT_RD); ret () }"

section \<open>Addresses\<close>

record bsd_addr =
  ba_mem :: sockaddr
  ba_ip :: "8 word list"
  ba_ip_length :: int
  ba_port :: int

definition ntohs :: "8 word \<times> 8 word \<Rightarrow> int" where
  "ntohs p = uint (fst p) * 256 + uint (snd p)"

definition internal_finalize_bsd_addr :: "bsd_addr \<Rightarrow> bsd_addr" where
  "internal_finalize_bsd_addr addr =
     (if sa_family (ba_mem addr) = AF_INET6 then
        addr\<lparr>ba_ip := sa_ip (ba_mem addr), ba_ip_length := 16, ba_port := ntohs (sa_port_be (ba_mem addr))\<rparr>
      else if sa_family (ba_mem addr) = AF_INET then
        addr\<lparr>ba_ip := sa_ip (ba_mem addr), ba_ip_length := 4, ba_port := ntohs (sa_port_be (ba_mem addr))\<rparr>
      else addr\<lparr>ba_ip_length := 0, ba_port := -1\<rparr>)"

definition bsd_local_addr :: "os \<Rightarrow> int \<Rightarrow> bsd_addr \<Rightarrow> (int \<times> bsd_addr) sys" where
  "bsd_local_addr os fd addr =
     do {
       r \<leftarrow> sys_call os (C_getsockname fd);
       if r \<noteq> 0 then ret (-1, addr)
       else do {
         sa \<leftarrow> sys_sockaddr os;
         ret (0, internal_finalize_bsd_addr (addr\<lparr>ba_mem := sa\<rparr>)) }
     }"

definition bsd_remote_addr :: "os \<Rightarrow> int \<Rightarrow> bsd_addr \<Rightarrow> (int \<times> bsd_addr) sys" where
  "bsd_remote_addr os fd addr =
     do {
       r \<leftarrow> sys_call os (C_getpeername fd);
       if r \<noteq> 0 then ret (-1, addr)
       else do {
         sa \<leftarrow> sys_sockaddr os;
         ret (0, internal_finalize_bsd_addr (addr\<lparr>ba_mem := sa\<rparr>)) }
     }"

definition bsd_addr_get_ip :: "bsd_addr \<Rightarrow> 8 word list" where
  "bsd_addr_get_ip addr = ba_ip addr"

definition bsd_addr_get_ip_length :: "bsd_addr \<Rightarrow> int" where
  "bsd_addr_get_ip_length addr = ba_ip_length addr"

definition bsd_addr_get_port :: "bsd_addr \<Rightarrow> int" where
  "bsd_addr_get_port addr = ba_port addr"

definition bsd_accept_socket :: "build \<Rightarrow> os \<Rightarrow> int \<Rightarrow> bsd_addr \<Rightarrow> (int \<times> bsd_addr) sys" where
  "bsd_accept_socket b os fd addr =
     do {
       accepted_fd \<leftarrow> sys_call os (C_accept fd (if b_sock_flags b then [SOCK_CLOEXEC, SOCK_NONBLOCK] else []));
       if accepted_fd = b_SOCKET_ERROR b then ret (b_SOCKET_ERROR b, addr)
       else do {
         sa \<leftarrow> sys_sockaddr os;
         let addr' = internal_finalize_bsd_addr (addr\<lparr>ba_mem := sa\<rparr>);
         fd1 \<leftarrow> apple_no_sigpipe b os accepted_fd;
         fd2 \<leftarrow> bsd_set_nonblocking b os fd1;
         ret (fd2, addr') }
     }"

section \<open>Sending and receiving\<close>

definition bsd_recv :: "os \<Rightarrow> int \<Rightarrow> int \<Rightarrow> int \<Rightarrow> int sys" where
  "bsd_recv os fd len flags = sys_call os (C_recv fd len flags)"

definition bsd_send :: "build \<Rightarrow> os \<Rightarrow> int \<Rightarrow> 8 word list \<Rightarrow> int \<Rightarrow> int sys" where
  "bsd_send b os fd buf msg_more =
     (if b_msg_more b
      then sys_call os (C_send fd buf ((if msg_more \<noteq> 0 then [MSG_MORE] else []) @ [MSG_NOSIGNAL]))
      else sys_call os (C_send fd buf [MSG_NOSIGNAL]))"

definition bsd_write2 :: "build \<Rightarrow> os \<Rightarrow> int \<Rightarrow> 8 word list \<Rightarrow> 8 word list \<Rightarrow> int sys" where
  "bsd_write2 b os fd header payload =
     (if \<not> b_win32 b then sys_call os (C_writev fd [header, payload])
      else do {
        written \<leftarrow> bsd_send b os fd header 0;
        if written = int (length header) then do {
          second_write \<leftarrow> bsd_send b os fd payload 0;
          ret (if second_write > 0 then written + second_write else written) }
        else ret written })"

definition bsd_would_block :: "os \<Rightarrow> int \<Rightarrow> bool sys" where
  "bsd_would_block os ewouldblock = do { e \<leftarrow> sys_errno os; ret (e = ewouldblock) }"

section \<open>Creating sockets\<close>

text \<open>One pass of \<^verbatim>\<open>for (a = result; a && listenFd == LIBUS_SOCKET_ERROR; a = a->ai_next)\<close> that creates a
  socket for the entries of one address family.\<close>

fun try_family ::
  "build \<Rightarrow> os \<Rightarrow> family \<Rightarrow> addrinfo list \<Rightarrow> int \<times> addrinfo option \<Rightarrow> (int \<times> addrinfo option) sys" where
  "try_family b os fam [] acc = ret acc"
| "try_family b os fam (a # as) (listenFd, listenAddr) =
     (if listenFd \<noteq> b_SOCKET_ERROR b then ret (listenFd, listenAddr)
      else if ai_family a = fam then do {
        fd \<leftarrow> bsd_create_socket b os (ai_family a) (ai_socktype a) (ai_protocol a);
        try_family b os fam as (fd, Some a) }
      else try_family b os fam as (listenFd, listenAddr))"

text \<open>\<^verbatim>\<open>snprintf(port_string, 16, "%d", port)\<close>\<close>


definition port_string :: "int \<Rightarrow> string" where
  "port_string port = take 15 (v_str port)"

definition LIBUS_LISTEN_EXCLUSIVE_PORT :: int where
  "LIBUS_LISTEN_EXCLUSIVE_PORT = 1"

definition set_reuse_options :: "build \<Rightarrow> os \<Rightarrow> int \<Rightarrow> bool \<Rightarrow> unit sys" where
  "set_reuse_options b os listenFd exclusive =
     (if b_win32 b then
        (if exclusive
         then do { _ \<leftarrow> sys_call os (C_setsockopt listenFd SOL_SOCKET SO_EXCLUSIVEADDRUSE 1); ret () }
         else do { _ \<leftarrow> sys_call os (C_setsockopt listenFd SOL_SOCKET SO_REUSEADDR 1); ret () })
      else do {
        _ \<leftarrow> (if b_reuseport b \<and> \<not> exclusive
               then sys_call os (C_setsockopt listenFd SOL_SOCKET SO_REUSEPORT 1) else ret 0);
        _ \<leftarrow> sys_call os (C_setsockopt listenFd SOL_SOCKET SO_REUSEADDR 1);
        ret () })"

definition clear_v6only :: "build \<Rightarrow> os \<Rightarrow> int \<Rightarrow> unit sys" where
  "clear_v6only b os fd =
     (if b_v6only b
      then do { _ \<leftarrow> sys_call os (C_setsockopt fd IPPROTO_IPV6 IPV6_V6ONLY 0); ret () }
      else ret ())"

text \<open>The rest of \<^verbatim>\<open>bsd_create_listen_socket\<close>, once the loops have left a descriptor and its address.\<close>

definition listen_on :: "build \<Rightarrow> os \<Rightarrow> int \<Rightarrow> int \<Rightarrow> int \<times> addrinfo option \<Rightarrow> int sys" where
  "listen_on b os port options acc =
     (case acc of (listenFd, listenAddr) \<Rightarrow>
      if listenFd = b_SOCKET_ERROR b then do {
        _ \<leftarrow> sys_call os C_freeaddrinfo;
        ret (b_SOCKET_ERROR b) }
      else do {
        _ \<leftarrow> (if port \<noteq> 0 then set_reuse_options b os listenFd (and options LIBUS_LISTEN_EXCLUSIVE_PORT \<noteq> 0)
               else ret ());
        _ \<leftarrow> clear_v6only b os listenFd;
        r1 \<leftarrow> sys_call os (C_bind listenFd (ai_addr (the listenAddr)));
        r2 \<leftarrow> (if r1 \<noteq> 0 then ret 1 else sys_call os (C_listen listenFd 16384));
        if r1 \<noteq> 0 \<or> r2 \<noteq> 0 then do {
          _ \<leftarrow> bsd_close_socket os listenFd;
          _ \<leftarrow> sys_call os C_freeaddrinfo;
          ret (b_SOCKET_ERROR b) }
        else do {
          _ \<leftarrow> sys_call os C_freeaddrinfo;
          ret listenFd }
      })"

definition bsd_create_listen_socket :: "build \<Rightarrow> os \<Rightarrow> string option \<Rightarrow> int \<Rightarrow> int \<Rightarrow> int sys" where
  "bsd_create_listen_socket b os host port options =
     do {
       r \<leftarrow> sys_call os (C_getaddrinfo host (Some (port_string port))
              (Some \<lparr>hi_passive = True, hi_family = AF_UNSPEC, hi_socktype = Some SOCK_STREAM\<rparr>));
       if r \<noteq> 0 then ret (b_SOCKET_ERROR b)
       else do {
         as \<leftarrow> sys_addrs os;
         acc6 \<leftarrow> try_family b os AF_INET6 (fst as # snd as) (b_SOCKET_ERROR b, None);
         acc \<leftarrow> try_family b os AF_INET (fst as # snd as) acc6;
         listen_on b os port options acc
       }
     }"

text \<open>\<^verbatim>\<open>strcpy(server_address.sun_path, path)\<close> has no length check. A path that does not fit writes past
  the structure: the computation is then undefined, the value \<open>None\<close>.\<close>

definition unix_address :: "build \<Rightarrow> string \<Rightarrow> sockaddr option" where
  "unix_address b path =
     (if length path < b_sun_path_size b
      then Some \<lparr>sa_family = AF_UNIX, sa_ip = [], sa_port_be = (0, 0), sa_path = path\<rparr> else None)"

definition bsd_create_listen_socket_unix :: "build \<Rightarrow> os \<Rightarrow> string \<Rightarrow> int option sys" where
  "bsd_create_listen_socket_unix b os path =
     do {
       listenFd \<leftarrow> bsd_create_socket b os AF_UNIX SOCK_STREAM 0;
       if listenFd = b_SOCKET_ERROR b then ret (Some (b_SOCKET_ERROR b))
       else do {
         _ \<leftarrow> sys_call os (C_chmod listenFd path);
         case unix_address b path of
           None \<Rightarrow> ret None
         | Some server_address \<Rightarrow> do {
             _ \<leftarrow> sys_call os (C_unlink path);
             r1 \<leftarrow> sys_call os (C_bind listenFd server_address);
             r2 \<leftarrow> (if r1 \<noteq> 0 then ret 1 else sys_call os (C_listen listenFd 16384));
             if r1 \<noteq> 0 \<or> r2 \<noteq> 0 then do {
               _ \<leftarrow> bsd_close_socket os listenFd;
               ret (Some (b_SOCKET_ERROR b)) }
             else ret (Some listenFd) }
       }
     }"

definition set_pktinfo :: "build \<Rightarrow> os \<Rightarrow> int \<Rightarrow> unit sys" where
  "set_pktinfo b os fd =
     do {
       r \<leftarrow> sys_call os (C_setsockopt fd IPPROTO_IPV6 IPV6_RECVPKTINFO 1);
       if r = -1 then do {
         e \<leftarrow> sys_errno os;
         if e = 92 then
           (if b_ip_pktinfo b then do {
              r4 \<leftarrow> sys_call os (C_setsockopt fd IPPROTO_IP IP_PKTINFO 1);
              _ \<leftarrow> (if r4 \<noteq> 0 then sys_call os (C_printf ''Error setting IPv4 pktinfo!\<newline>'') else ret 0);
              ret () }
            else if b_ip_recvdstaddr b then do {
              r4 \<leftarrow> sys_call os (C_setsockopt fd IPPROTO_IP IP_RECVDSTADDR 1);
              _ \<leftarrow> (if r4 \<noteq> 0 then sys_call os (C_printf ''Error setting IPv4 pktinfo!\<newline>'') else ret 0);
              ret () }
            else ret ())
         else do { _ \<leftarrow> sys_call os (C_printf ''Error setting IPv6 pktinfo!\<newline>''); ret () } }
       else ret ()
     }"

definition set_ecn :: "os \<Rightarrow> int \<Rightarrow> unit sys" where
  "set_ecn os fd =
     do {
       r \<leftarrow> sys_call os (C_setsockopt fd IPPROTO_IPV6 IPV6_RECVTCLASS 1);
       if r = -1 then do {
         e \<leftarrow> sys_errno os;
         if e = 92 then do {
           r4 \<leftarrow> sys_call os (C_setsockopt fd IPPROTO_IP IP_RECVTOS 1);
           _ \<leftarrow> (if r4 \<noteq> 0 then sys_call os (C_printf ''Error setting IPv4 ECN!\<newline>'') else ret 0);
           ret () }
         else do { _ \<leftarrow> sys_call os (C_printf ''Error setting IPv6 ECN!\<newline>''); ret () } }
       else ret ()
     }"

text \<open>The rest of \<^verbatim>\<open>bsd_create_udp_socket\<close> after its two loops.\<close>

definition udp_on :: "build \<Rightarrow> os \<Rightarrow> int \<Rightarrow> int \<times> addrinfo option \<Rightarrow> int sys" where
  "udp_on b os port acc =
     (case acc of (listenFd, listenAddr) \<Rightarrow>
      if listenFd = b_SOCKET_ERROR b then do {
        _ \<leftarrow> sys_call os C_freeaddrinfo;
        ret (b_SOCKET_ERROR b) }
      else do {
        _ \<leftarrow> (if port \<noteq> 0 then sys_call os (C_setsockopt listenFd SOL_SOCKET SO_REUSEADDR 1) else ret 0);
        _ \<leftarrow> clear_v6only b os listenFd;
        _ \<leftarrow> set_pktinfo b os listenFd;
        _ \<leftarrow> set_ecn os listenFd;
        r1 \<leftarrow> sys_call os (C_bind listenFd (ai_addr (the listenAddr)));
        if r1 \<noteq> 0 then do {
          _ \<leftarrow> bsd_close_socket os listenFd;
          _ \<leftarrow> sys_call os C_freeaddrinfo;
          ret (b_SOCKET_ERROR b) }
        else do {
          _ \<leftarrow> sys_call os C_freeaddrinfo;
          ret listenFd }
      })"

definition bsd_create_udp_socket :: "build \<Rightarrow> os \<Rightarrow> string option \<Rightarrow> int \<Rightarrow> int sys" where
  "bsd_create_udp_socket b os host port =
     do {
       r \<leftarrow> sys_call os (C_getaddrinfo host (Some (port_string port))
              (Some \<lparr>hi_passive = True, hi_family = AF_UNSPEC, hi_socktype = Some SOCK_DGRAM\<rparr>));
       if r \<noteq> 0 then ret (b_SOCKET_ERROR b)
       else do {
         as \<leftarrow> sys_addrs os;
         acc6 \<leftarrow> try_family b os AF_INET6 (fst as # snd as) (b_SOCKET_ERROR b, None);
         acc \<leftarrow> try_family b os AF_INET (fst as # snd as) acc6;
         udp_on b os port acc
       }
     }"

text \<open>\<^verbatim>\<open>bsd_create_connect_socket\<close> after the descriptor has been created: the optional bind to the source
  interface, and the connect.\<close>

definition bind_source :: "build \<Rightarrow> os \<Rightarrow> int \<Rightarrow> string option \<Rightarrow> bool sys" where
  "bind_source b os fd source_host =
     (case source_host of
        None \<Rightarrow> ret True
      | Some sh \<Rightarrow> do {
          rs \<leftarrow> sys_call os (C_getaddrinfo (Some sh) None None);
          if rs \<noteq> 0 then ret True
          else do {
            is \<leftarrow> sys_addrs os;
            rb \<leftarrow> sys_call os (C_bind fd (ai_addr (fst is)));
            _ \<leftarrow> sys_call os C_freeaddrinfo;
            ret (rb \<noteq> b_SOCKET_ERROR b) } })"

definition connect_on :: "build \<Rightarrow> os \<Rightarrow> addrinfo \<Rightarrow> string option \<Rightarrow> int \<Rightarrow> int sys" where
  "connect_on b os a source_host fd =
     (if fd = b_SOCKET_ERROR b then do {
        _ \<leftarrow> sys_call os C_freeaddrinfo;
        ret (b_SOCKET_ERROR b) }
      else do {
        bound \<leftarrow> bind_source b os fd source_host;
        if \<not> bound then do {
          _ \<leftarrow> bsd_close_socket os fd;
          _ \<leftarrow> sys_call os C_freeaddrinfo;
          ret (b_SOCKET_ERROR b) }
        else do {
          _ \<leftarrow> sys_call os (C_connect fd (ai_addr a));
          _ \<leftarrow> sys_call os C_freeaddrinfo;
          ret fd }
      })"

definition bsd_create_connect_socket ::
  "build \<Rightarrow> os \<Rightarrow> string option \<Rightarrow> int \<Rightarrow> string option \<Rightarrow> int sys" where
  "bsd_create_connect_socket b os host port source_host =
     do {
       r \<leftarrow> sys_call os (C_getaddrinfo host (Some (port_string port))
              (Some \<lparr>hi_passive = False, hi_family = AF_UNSPEC, hi_socktype = Some SOCK_STREAM\<rparr>));
       if r \<noteq> 0 then ret (b_SOCKET_ERROR b)
       else do {
         as \<leftarrow> sys_addrs os;
         fd \<leftarrow> bsd_create_socket b os (ai_family (fst as)) (ai_socktype (fst as)) (ai_protocol (fst as));
         connect_on b os (fst as) source_host fd
       }
     }"

definition bsd_create_connect_socket_unix :: "build \<Rightarrow> os \<Rightarrow> string \<Rightarrow> int option sys" where
  "bsd_create_connect_socket_unix b os server_path =
     (case unix_address b server_path of
        None \<Rightarrow> ret None
      | Some server_address \<Rightarrow> do {
          fd \<leftarrow> bsd_create_socket b os AF_UNIX SOCK_STREAM 0;
          if fd = b_SOCKET_ERROR b then ret (Some (b_SOCKET_ERROR b))
          else do {
            _ \<leftarrow> sys_call os (C_connect fd server_address);
            ret (Some fd) } })"

section \<open>Weakest preconditions\<close>

definition wp :: "'a sys \<Rightarrow> ('a \<Rightarrow> trace \<Rightarrow> bool) \<Rightarrow> trace \<Rightarrow> bool" where
  "wp m Q tr = (case run_state m tr of (x, tr') \<Rightarrow> Q x tr')"

lemma wp_return [trace_simps]: "wp (ret x) Q = Q x"
  by (simp add: wp_def fun_eq_iff)

lemma wp_bind [trace_simps]: "wp (State_Monad.bind m f) Q = wp m (\<lambda>x. wp (f x) Q)"
  by (simp add: wp_def State_Monad.bind_def fun_eq_iff split: prod.splits)

lemma wp_sys_call [trace_simps]: "wp (sys_call os c) Q tr = Q (os_ret os tr c) (tr @ [(c, os_ret os tr c)])"
  by (simp add: wp_def sys_call_def Let_def)

lemma wp_sys_env [trace_simps]:
  "wp (sys_addrs os) Q' tr = Q' (os_addrs os tr) tr"
  "wp (sys_sockaddr os) Q'' tr = Q'' (os_sockaddr os tr) tr"
  "wp (sys_errno os) Q''' tr = Q''' (os_errno os tr) tr"
  by (simp_all add: wp_def sys_addrs_def sys_sockaddr_def sys_errno_def)

lemma wp_if [trace_simps]: "wp (if c then m else n) Q = (if c then wp m Q else wp n Q)"
  by simp

lemma wp_mono: "wp m Q tr \<Longrightarrow> (\<And>x tr'. Q x tr' \<Longrightarrow> R x tr') \<Longrightarrow> wp m R tr"
  by (auto simp: wp_def split: prod.splits)

section \<open>The calls that own resources\<close>

text \<open>The core of a history: the calls that create, bind, connect or release something.\<close>

fun is_core :: "call \<Rightarrow> bool" where
  "is_core (C_setsockopt _ _ _ _) = False"
| "is_core (C_getfl _) = False"
| "is_core (C_setfl_nonblock _ _) = False"
| "is_core (C_printf _) = False"
| "is_core (C_chmod _ _) = False"
| "is_core (C_unlink _) = False"
| "is_core _ = True"

definition core :: "trace \<Rightarrow> trace" where
  "core tr = filter (\<lambda>e. is_core (fst e)) tr"

lemma core_append [trace_simps]: "core (xs @ ys) = core xs @ core ys"
  by (simp add: core_def)

lemma core_Cons [trace_simps]:
  "core [] = []" "core ((c, r) # es) = (if is_core c then (c, r) # core es else core es)"
  by (simp_all add: core_def)

definition sockets_opened :: "build \<Rightarrow> trace \<Rightarrow> int list" where
  "sockets_opened b tr = map snd (filter (\<lambda>(c, r). (case c of C_socket _ _ _ _ \<Rightarrow> True | _ \<Rightarrow> False)
     \<and> r \<noteq> b_SOCKET_ERROR b) tr)"

definition sockets_closed :: "trace \<Rightarrow> int list" where
  "sockets_closed tr = List.maps (\<lambda>(c, r). case c of C_close fd \<Rightarrow> [fd] | _ \<Rightarrow> []) tr"

definition addrs_got :: "trace \<Rightarrow> nat" where
  "addrs_got tr = length (filter (\<lambda>(c, r). (case c of C_getaddrinfo _ _ _ \<Rightarrow> True | _ \<Rightarrow> False) \<and> r = 0) tr)"

definition addrs_freed :: "trace \<Rightarrow> nat" where
  "addrs_freed tr = length (filter (\<lambda>(c, r). c = C_freeaddrinfo) tr)"

lemma ledger_append [trace_simps]:
  "sockets_opened b (xs @ ys) = sockets_opened b xs @ sockets_opened b ys"
  "sockets_closed (xs @ ys) = sockets_closed xs @ sockets_closed ys"
  "addrs_got (xs @ ys) = addrs_got xs + addrs_got ys"
  "addrs_freed (xs @ ys) = addrs_freed xs + addrs_freed ys"
  by (simp_all add: sockets_opened_def sockets_closed_def addrs_got_def addrs_freed_def)

lemma ledger_Nil [trace_simps]:
  "sockets_opened b [] = []" "sockets_closed [] = []" "addrs_got [] = 0" "addrs_freed [] = 0"
  by (simp_all add: sockets_opened_def sockets_closed_def addrs_got_def addrs_freed_def)

lemma ledger_Cons [trace_simps]:
  "sockets_opened b ((c, r) # ys) =
     (if (case c of C_socket _ _ _ _ \<Rightarrow> True | _ \<Rightarrow> False) \<and> r \<noteq> b_SOCKET_ERROR b then [r] else []) @ sockets_opened b ys"
  "sockets_closed ((c, r) # ys) = (case c of C_close fd \<Rightarrow> [fd] | _ \<Rightarrow> []) @ sockets_closed ys"
  "addrs_got ((c, r) # ys) =
     (if (case c of C_getaddrinfo _ _ _ \<Rightarrow> True | _ \<Rightarrow> False) \<and> r = 0 then 1 else 0) + addrs_got ys"
  "addrs_freed ((c, r) # ys) = (if c = C_freeaddrinfo then 1 else 0) + addrs_freed ys"
  by (simp_all add: sockets_opened_def sockets_closed_def addrs_got_def addrs_freed_def)

lemma ledger_core:
  "sockets_opened b (core tr) = sockets_opened b tr"
  "sockets_closed (core tr) = sockets_closed tr"
  "addrs_got (core tr) = addrs_got tr"
  "addrs_freed (core tr) = addrs_freed tr"
  by (induction tr) (auto simp: trace_simps core_def split: call.splits)

lemma in_core: "is_core c \<Longrightarrow> (c, r) \<in> set (core tr) \<longleftrightarrow> (c, r) \<in> set tr"
  by (auto simp: core_def)

section \<open>What each helper adds to the core\<close>

definition socket_call :: "build \<Rightarrow> addrinfo \<Rightarrow> call" where
  "socket_call b a = C_socket (ai_family a) (ai_socktype a)
     (if b_sock_flags b then [SOCK_CLOEXEC, SOCK_NONBLOCK] else []) (ai_protocol a)"

lemma wp_create_socket:
  assumes "\<And>fd tr'. core tr' = core tr @ [(C_socket d t
      (if b_sock_flags b then [SOCK_CLOEXEC, SOCK_NONBLOCK] else []) p, fd)] \<Longrightarrow> Q fd tr'"
  shows "wp (bsd_create_socket b os d t p) Q tr"
  unfolding bsd_create_socket_def apple_no_sigpipe_def bsd_set_nonblocking_def Let_def
  by (auto simp: trace_simps intro!: assms)

lemma wp_silent:
  assumes "\<And>tr'. core tr' = core tr \<Longrightarrow> Q () tr'"
  shows "wp (set_reuse_options b os fd ex) Q tr" and "wp (clear_v6only b os fd) Q tr"
    and "wp (set_pktinfo b os fd) Q tr" and "wp (set_ecn os fd) Q tr"
  unfolding set_reuse_options_def clear_v6only_def set_pktinfo_def set_ecn_def
  by (auto simp: trace_simps intro!: assms)

lemma try_family_done: "fd \<noteq> b_SOCKET_ERROR b \<Longrightarrow> try_family b os fam as (fd, l) = ret (fd, l)"
  by (cases as) auto

text \<open>The core events of one pass over the address list: failed creations for the entries of the family
  that were tried, and then possibly one success.\<close>

definition failed_sockets :: "build \<Rightarrow> family \<Rightarrow> addrinfo list \<Rightarrow> trace" where
  "failed_sockets b fam as =
     map (\<lambda>a. (socket_call b a, b_SOCKET_ERROR b)) (filter (\<lambda>a. ai_family a = fam) as)"

definition tried :: "build \<Rightarrow> family \<Rightarrow> addrinfo list \<Rightarrow> int \<times> addrinfo option \<Rightarrow> trace \<Rightarrow> bool" where
  "tried b fam as r es \<longleftrightarrow>
     fst r = b_SOCKET_ERROR b \<and> es = failed_sockets b fam as \<or>
     fst r \<noteq> b_SOCKET_ERROR b \<and> (\<exists>pre a post. as = pre @ a # post \<and> ai_family a = fam \<and> snd r = Some a \<and>
       es = failed_sockets b fam pre @ [(socket_call b a, fst r)])"

lemma tried_Nil: "fst r = b_SOCKET_ERROR b \<Longrightarrow> tried b fam [] r []"
  by (simp add: tried_def failed_sockets_def)

lemma tried_skip:
  assumes "ai_family a \<noteq> fam" and "tried b fam as r es"
  shows "tried b fam (a # as) r es"
proof -
  have f: "failed_sockets b fam (a # xs) = failed_sockets b fam xs" for xs
    using assms(1) by (simp add: failed_sockets_def)
  show ?thesis
    using assms(2) unfolding tried_def f by (metis append_Cons f)
qed

lemma tried_fail:
  assumes "ai_family a = fam" and "tried b fam as r es"
  shows "tried b fam (a # as) r ((socket_call b a, b_SOCKET_ERROR b) # es)"
proof -
  have f: "failed_sockets b fam (a # xs) = (socket_call b a, b_SOCKET_ERROR b) # failed_sockets b fam xs" for xs
    using assms(1) by (simp add: failed_sockets_def)
  show ?thesis
    using assms(2) unfolding tried_def f by (metis append_Cons f)
qed

lemma tried_ok:
  "ai_family a = fam \<Longrightarrow> fd \<noteq> b_SOCKET_ERROR b \<Longrightarrow> tried b fam (a # as) (fd, Some a) [(socket_call b a, fd)]"
  unfolding tried_def by (rule disjI2) (force simp: failed_sockets_def intro: exI [of _ "[]"])

lemma wp_try_family:
  "wp (try_family b os fam as (b_SOCKET_ERROR b, l))
     (\<lambda>r tr'. \<exists>es. core tr' = core tr @ es \<and> tried b fam as r es) tr"
proof (induction as arbitrary: l tr)
  case Nil
  then show ?case by (auto simp: trace_simps intro: tried_Nil)
next
  case (Cons a as)
  show ?case
  proof (cases "ai_family a = fam")
    case False
    then have "try_family b os fam (a # as) (b_SOCKET_ERROR b, l) = try_family b os fam as (b_SOCKET_ERROR b, l)"
      by simp
    then show ?thesis
      by (simp only:) (rule wp_mono [OF Cons.IH], blast intro: tried_skip [OF False])
  next
    case True
    have unf: "wp (try_family b os fam (a # as) (b_SOCKET_ERROR b, l)) Q tr =
      wp (bsd_create_socket b os (ai_family a) (ai_socktype a) (ai_protocol a))
         (\<lambda>fd. wp (try_family b os fam as (fd, Some a)) Q) tr" for Q
      using True by (simp add: trace_simps)
    show ?thesis
      unfolding unf
    proof (rule wp_create_socket, goal_cases)
      case (1 fd tr1)
      then have c1: "core tr1 = core tr @ [(socket_call b a, fd)]" by (simp add: socket_call_def)
      show ?case
      proof (cases "fd = b_SOCKET_ERROR b")
        case False
        with c1 tried_ok [OF True False, of as] show ?thesis
          by (simp add: try_family_done trace_simps)
      next
        case err: True
        show ?thesis
          unfolding err
        proof (rule wp_mono [OF Cons.IH], elim exE conjE)
          fix r tr' es
          assume "core tr' = core tr1 @ es" and t: "tried b fam as r es"
          then have "core tr' = core tr @ (socket_call b a, b_SOCKET_ERROR b) # es"
            using c1 err by simp
          with tried_fail [OF True t]
          show "\<exists>es. core tr' = core tr @ es \<and> tried b fam (a # as) r es" by blast
        qed
      qed
    qed
  qed
qed

definition picked :: "build \<Rightarrow> addrinfo list \<Rightarrow> int \<times> addrinfo option \<Rightarrow> trace \<Rightarrow> bool" where
  "picked b as r es \<longleftrightarrow> (\<exists>es6 es4. es = es6 @ es4 \<and>
     (tried b AF_INET6 as r es6 \<and> fst r \<noteq> b_SOCKET_ERROR b \<and> es4 = [] \<or>
      es6 = failed_sockets b AF_INET6 as \<and> tried b AF_INET as r es4))"

lemma wp_both_families:
  assumes "\<And>r tr' es. core tr' = core tr @ es \<Longrightarrow> picked b as r es \<Longrightarrow> Q r tr'"
  shows "wp (try_family b os AF_INET6 as (b_SOCKET_ERROR b, l)) (\<lambda>acc. wp (try_family b os AF_INET as acc) Q) tr"
proof (rule wp_mono [OF wp_try_family], elim exE conjE)
  fix r6 tr6 es6
  assume c6: "core tr6 = core tr @ es6" and t6: "tried b AF_INET6 as r6 es6"
  obtain fd6 l6 where r6: "r6 = (fd6, l6)" by fastforce
  show "wp (try_family b os AF_INET as r6) Q tr6"
  proof (cases "fd6 = b_SOCKET_ERROR b")
    case False
    with t6 r6 have "picked b as r6 es6" by (auto simp: picked_def)
    with assms c6 False show ?thesis by (simp add: r6 try_family_done trace_simps)
  next
    case True
    with t6 r6 have e6: "es6 = failed_sockets b AF_INET6 as" by (auto simp: tried_def)
    show ?thesis
      unfolding r6 True
    proof (rule wp_mono [OF wp_try_family], elim exE conjE)
      fix r tr' es4
      assume "core tr' = core tr6 @ es4" and "tried b AF_INET as r es4"
      with c6 e6 show "Q r tr'"
        by (intro assms [of tr' "es6 @ es4"]) (auto simp: picked_def)
    qed
  qed
qed

lemma ledger_failed [trace_simps]:
  "sockets_opened b (failed_sockets b fam as) = []"
  "sockets_closed (failed_sockets b fam as) = []"
  "addrs_got (failed_sockets b fam as) = 0"
  "addrs_freed (failed_sockets b fam as) = 0"
  by (induction as) (auto simp: failed_sockets_def socket_call_def trace_simps)

lemma ledger_socket_call [trace_simps]:
  "sockets_opened b [(socket_call b a, fd)] = (if fd = b_SOCKET_ERROR b then [] else [fd])"
  "sockets_closed [(socket_call b a, fd)] = []"
  "addrs_got [(socket_call b a, fd)] = 0"
  "addrs_freed [(socket_call b a, fd)] = 0"
  by (simp_all add: socket_call_def trace_simps)

lemma ledger_tried:
  assumes "tried b fam as r es"
  shows "sockets_opened b es = (if fst r = b_SOCKET_ERROR b then [] else [fst r])"
    and "sockets_closed es = []" and "addrs_got es = 0" and "addrs_freed es = 0"
  using assms by (auto simp: tried_def ledger_append ledger_failed ledger_socket_call)

lemma ledger_picked:
  assumes "picked b as r es"
  shows "sockets_opened b es = (if fst r = b_SOCKET_ERROR b then [] else [fst r])"
    and "sockets_closed es = []" and "addrs_got es = 0" and "addrs_freed es = 0"
proof -
  from assms obtain es6 es4 where es: "es = es6 @ es4"
    and "tried b AF_INET6 as r es6 \<and> es4 = [] \<or> es6 = failed_sockets b AF_INET6 as \<and> tried b AF_INET as r es4"
    by (auto simp: picked_def)
  then show "sockets_opened b es = (if fst r = b_SOCKET_ERROR b then [] else [fst r])"
    and "sockets_closed es = []" and "addrs_got es = 0" and "addrs_freed es = 0"
    by (auto simp: ledger_append ledger_failed ledger_tried ledger_Nil)
qed

lemma picked_addr:
  assumes "picked b as r es" and "fst r \<noteq> b_SOCKET_ERROR b"
  obtains a where "snd r = Some a" and "a \<in> set as" and "ai_family a \<in> {AF_INET6, AF_INET}"
  using assms by (auto simp: picked_def tried_def)

text \<open>The balance of a history: every descriptor and address list that the function owns is
  released, except the descriptor that it returns.\<close>

definition balanced :: "build \<Rightarrow> int \<Rightarrow> trace \<Rightarrow> bool" where
  "balanced b fd tr \<longleftrightarrow> addrs_got tr = addrs_freed tr \<and>
     mset (sockets_opened b tr) = mset (sockets_closed tr) + (if fd = b_SOCKET_ERROR b then {#} else {#fd#})"

lemma balanced_core: "balanced b fd (core tr) = balanced b fd tr"
  by (simp add: balanced_def ledger_core)

lemma balanced_coreI: "core tr = es \<Longrightarrow> balanced b fd es \<Longrightarrow> balanced b fd tr"
  using balanced_core by metis

text \<open>The ledger of a history in which one address list is held, and at most one descriptor.\<close>

definition holding :: "build \<Rightarrow> int \<Rightarrow> trace \<Rightarrow> bool" where
  "holding b fd tr \<longleftrightarrow> addrs_got tr = Suc (addrs_freed tr) \<and>
     mset (sockets_opened b tr) = mset (sockets_closed tr) + (if fd = b_SOCKET_ERROR b then {#} else {#fd#})"

lemma holding_core: "core tr' = core tr \<Longrightarrow> holding b fd tr \<Longrightarrow> holding b fd tr'"
  unfolding holding_def by (metis ledger_core)

lemma holding_picked:
  assumes "picked b as acc es" and "core tr = (C_getaddrinfo h s hi, 0) # es"
  shows "holding b (fst acc) tr"
proof -
  have "addrs_got (core tr) = Suc (addrs_freed (core tr))"
    and "sockets_opened b (core tr) = (if fst acc = b_SOCKET_ERROR b then [] else [fst acc])"
    and "sockets_closed (core tr) = []"
    using ledger_picked [OF assms(1)] by (simp_all add: assms(2) trace_simps)
  then show ?thesis by (simp add: holding_def ledger_core)
qed

lemma balanced_release:
  "holding b fd tr \<Longrightarrow> balanced b fd (tr @ [(C_freeaddrinfo, r)])"
  "holding b fd tr \<Longrightarrow> fd \<noteq> b_SOCKET_ERROR b \<Longrightarrow>
     balanced b (b_SOCKET_ERROR b) (tr @ [(C_close fd, r), (C_freeaddrinfo, r')])"
  by (simp_all add: holding_def balanced_def trace_simps)

lemma holding_append:
  "is_core c \<Longrightarrow> (case c of C_bind _ _ \<Rightarrow> True | C_listen _ _ \<Rightarrow> True | C_connect _ _ \<Rightarrow> True | _ \<Rightarrow> False) \<Longrightarrow>
   holding b fd (tr @ [(c, r)]) = holding b fd tr"
  by (auto simp: holding_def trace_simps split: call.splits)

lemma wp_listen_on:
  assumes h: "holding b (fst acc) tr" and a: "fst acc \<noteq> b_SOCKET_ERROR b \<Longrightarrow> snd acc = Some a"
  shows "wp (listen_on b os port options acc)
     (\<lambda>fd tr. balanced b fd tr \<and>
        (fd = b_SOCKET_ERROR b \<or>
         fd = fst acc \<and> (C_listen fd 16384, 0) \<in> set tr \<and> (C_bind fd (ai_addr a), 0) \<in> set tr)) tr"
    (is "wp _ ?Q _")
proof -
  obtain fd l where acc: "acc = (fd, l)" by fastforce
  show ?thesis
  proof (cases "fd = b_SOCKET_ERROR b")
    case True
    then show ?thesis
      using balanced_release(1) h by (simp add: acc listen_on_def trace_simps)
  next
    case False
    with a acc have l: "l = Some a" by simp
    let ?rest = "do { r1 \<leftarrow> sys_call os (C_bind fd (ai_addr a));
        r2 \<leftarrow> (if r1 \<noteq> 0 then ret 1 else sys_call os (C_listen fd 16384));
        if r1 \<noteq> 0 \<or> r2 \<noteq> 0 then do {
          _ \<leftarrow> bsd_close_socket os fd;
          _ \<leftarrow> sys_call os C_freeaddrinfo;
          ret (b_SOCKET_ERROR b) }
        else do {
          _ \<leftarrow> sys_call os C_freeaddrinfo;
          ret fd } }"
    have tail: "wp ?rest ?Q t" if ht: "holding b fd t" for t
      using False ht by (simp add: acc bsd_close_socket_def trace_simps balanced_def holding_def)
    have v6: "wp (clear_v6only b os fd) (\<lambda>_. wp ?rest ?Q) t" if "holding b fd t" for t
      by (rule wp_silent, rule tail, erule holding_core) (rule that)
    have ht: "holding b fd tr" using h acc by simp
    have re: "wp (set_reuse_options b os fd ex) (\<lambda>_. wp (clear_v6only b os fd) (\<lambda>_. wp ?rest ?Q)) tr" for ex
      by (rule wp_silent, rule v6, erule holding_core) (rule ht)
    show ?thesis
      using False v6 [OF ht] re
      by (cases "port = 0") (simp_all only: acc l listen_on_def trace_simps prod.case option.sel if_False if_True
          simp_thms fst_conv)
  qed
qed

section \<open>Properties\<close>

text \<open>C9: \<^verbatim>\<open>bsd_create_listen_socket\<close> leaks nothing, whatever the system answers: every address list that
  \<^verbatim>\<open>getaddrinfo\<close> returned is freed once, and every descriptor it created is closed once, except the one
  it returns; and a returned descriptor has been bound to one of the resolved IPv6 or IPv4 addresses
  and is listening with the backlog 16384, both without error.\<close>

theorem listen_socket_no_leak:
  "wp (bsd_create_listen_socket b os host port options)
     (\<lambda>fd tr. balanced b fd tr \<and>
        (fd = b_SOCKET_ERROR b \<or>
         (C_listen fd 16384, 0) \<in> set tr \<and>
         (\<exists>a :: addrinfo. ai_family a \<in> {AF_INET6, AF_INET} \<and> (C_bind fd (ai_addr a), 0) \<in> set tr))) []"
    (is "wp _ ?Q _")
proof -
  let ?ga = "C_getaddrinfo host (Some (port_string port))
      (Some \<lparr>hi_passive = True, hi_family = AF_UNSPEC, hi_socktype = Some SOCK_STREAM\<rparr>)"
  let ?tr = "[(?ga, 0)]"
  let ?as = "fst (os_addrs os ?tr) # snd (os_addrs os ?tr)"
  show ?thesis
  proof (cases "os_ret os [] ?ga = 0")
    case False
    then show ?thesis
      by (simp add: bsd_create_listen_socket_def trace_simps balanced_def)
  next
    case True
    have "wp (try_family b os AF_INET6 ?as (b_SOCKET_ERROR b, None))
        (\<lambda>acc6. wp (try_family b os AF_INET ?as acc6) (\<lambda>acc. wp (listen_on b os port options acc) ?Q)) ?tr"
    proof (rule wp_both_families)
      fix acc tr' es
      assume c: "core tr' = core ?tr @ es" and p: "picked b ?as acc es"
      have h: "holding b (fst acc) tr'" using p c by (intro holding_picked) (auto simp: trace_simps)
      obtain a where a: "fst acc \<noteq> b_SOCKET_ERROR b \<longrightarrow> snd acc = Some a \<and> ai_family a \<in> {AF_INET6, AF_INET}"
        using picked_addr [OF p] by metis
      show "wp (listen_on b os port options acc) ?Q tr'"
        by (intro wp_mono [OF wp_listen_on [OF h, of a]]) (use a in blast)+
    qed
    with True show ?thesis by (simp add: bsd_create_listen_socket_def trace_simps)
  qed
qed

lemma wp_udp_on:
  assumes h: "holding b (fst acc) tr" and a: "fst acc \<noteq> b_SOCKET_ERROR b \<Longrightarrow> snd acc = Some a"
  shows "wp (udp_on b os port acc)
     (\<lambda>fd tr. balanced b fd tr \<and>
        (fd = b_SOCKET_ERROR b \<or> fd = fst acc \<and> (C_bind fd (ai_addr a), 0) \<in> set tr)) tr"
    (is "wp _ ?Q _")
proof -
  obtain fd l where acc: "acc = (fd, l)" by fastforce
  show ?thesis
  proof (cases "fd = b_SOCKET_ERROR b")
    case True
    then show ?thesis
      using balanced_release(1) h by (simp add: acc udp_on_def trace_simps)
  next
    case False
    with a acc have l: "l = Some a" by simp
    let ?rest = "do { r1 \<leftarrow> sys_call os (C_bind fd (ai_addr a));
        if r1 \<noteq> 0 then do {
          _ \<leftarrow> bsd_close_socket os fd;
          _ \<leftarrow> sys_call os C_freeaddrinfo;
          ret (b_SOCKET_ERROR b) }
        else do {
          _ \<leftarrow> sys_call os C_freeaddrinfo;
          ret fd } }"
    have tail: "wp ?rest ?Q t" if ht: "holding b fd t" for t
      using False ht by (simp add: acc bsd_close_socket_def trace_simps balanced_def holding_def)
    have opts: "wp (clear_v6only b os fd) (\<lambda>_. wp (set_pktinfo b os fd) (\<lambda>_. wp (set_ecn os fd) (\<lambda>_. wp ?rest ?Q))) t"
      if ht: "holding b fd t" for t
    proof (rule wp_silent, rule wp_silent, rule wp_silent)
      fix t1 t2 t3
      assume "core t1 = core t" "core t2 = core t1" "core t3 = core t2"
      then have "core t3 = core t" by simp
      from tail [OF holding_core [OF this ht]] show "wp ?rest ?Q t3" .
    qed
    have ht: "holding b fd tr" "holding b fd (tr @ [(C_setsockopt fd SOL_SOCKET SO_REUSEADDR 1, r)])" for r
      using h acc by (simp_all add: holding_def trace_simps)
    show ?thesis
      using False opts [OF ht(1)] opts [OF ht(2)]
      by (cases "port = 0") (simp_all only: acc l udp_on_def trace_simps prod.case option.sel if_False if_True
          simp_thms fst_conv)
  qed
qed

text \<open>\<^verbatim>\<open>bsd_create_udp_socket\<close> leaks nothing either: the address list is freed once on every path, and
  a descriptor it does not return is closed; a returned descriptor was bound without error to one
  of the resolved addresses.\<close>

theorem udp_socket_no_leak:
  "wp (bsd_create_udp_socket b os host port)
     (\<lambda>fd tr. balanced b fd tr \<and>
        (fd = b_SOCKET_ERROR b \<or>
         (\<exists>a :: addrinfo. ai_family a \<in> {AF_INET6, AF_INET} \<and> (C_bind fd (ai_addr a), 0) \<in> set tr))) []"
    (is "wp _ ?Q _")
proof -
  let ?ga = "C_getaddrinfo host (Some (port_string port))
      (Some \<lparr>hi_passive = True, hi_family = AF_UNSPEC, hi_socktype = Some SOCK_DGRAM\<rparr>)"
  let ?tr = "[(?ga, 0)]"
  let ?as = "fst (os_addrs os ?tr) # snd (os_addrs os ?tr)"
  show ?thesis
  proof (cases "os_ret os [] ?ga = 0")
    case False
    then show ?thesis
      by (simp add: bsd_create_udp_socket_def trace_simps balanced_def)
  next
    case True
    have "wp (try_family b os AF_INET6 ?as (b_SOCKET_ERROR b, None))
        (\<lambda>acc6. wp (try_family b os AF_INET ?as acc6) (\<lambda>acc. wp (udp_on b os port acc) ?Q)) ?tr"
    proof (rule wp_both_families)
      fix acc tr' es
      assume c: "core tr' = core ?tr @ es" and p: "picked b ?as acc es"
      have h: "holding b (fst acc) tr'" using p c by (intro holding_picked) (auto simp: trace_simps)
      obtain a where a: "fst acc \<noteq> b_SOCKET_ERROR b \<longrightarrow> snd acc = Some a \<and> ai_family a \<in> {AF_INET6, AF_INET}"
        using picked_addr [OF p] by metis
      show "wp (udp_on b os port acc) ?Q tr'"
        by (intro wp_mono [OF wp_udp_on [OF h, of a]]) (use a in blast)+
    qed
    with True show ?thesis by (simp add: bsd_create_udp_socket_def trace_simps)
  qed
qed

lemma holding_create:
  assumes "core tr = [(C_getaddrinfo h s hi, 0), (C_socket d t fl p, fd)]"
  shows "holding b fd tr"
proof -
  have "addrs_got (core tr) = Suc (addrs_freed (core tr))"
    and "sockets_opened b (core tr) = (if fd = b_SOCKET_ERROR b then [] else [fd])"
    and "sockets_closed (core tr) = []"
    by (simp_all add: assms trace_simps)
  then show ?thesis by (simp add: holding_def ledger_core)
qed

text \<open>\<^verbatim>\<open>bsd_create_connect_socket\<close> frees both address lists (the peer's and, when a source host is given,
  the interface's) on every path, closes its descriptor when binding to the interface fails, and
  otherwise returns the one descriptor it created after starting to connect it.\<close>

theorem connect_socket_no_leak:
  "wp (bsd_create_connect_socket b os host port source_host)
     (\<lambda>fd tr. balanced b fd tr \<and> (fd = b_SOCKET_ERROR b \<or> (\<exists>a r. (C_connect fd a, r) \<in> set tr))) []"
    (is "wp _ ?Q _")
proof -
  let ?ga = "C_getaddrinfo host (Some (port_string port))
      (Some \<lparr>hi_passive = False, hi_family = AF_UNSPEC, hi_socktype = Some SOCK_STREAM\<rparr>)"
  let ?a = "fst (os_addrs os [(?ga, 0)])"
  have tail: "wp (connect_on b os a source_host fd) ?Q tr" if "holding b fd tr" for a fd tr
    using that by (cases source_host)
      (auto simp: connect_on_def bind_source_def trace_simps balanced_def holding_def bsd_close_socket_def)
  show ?thesis
  proof (cases "os_ret os [] ?ga = 0")
    case False
    then show ?thesis
      by (simp add: bsd_create_connect_socket_def trace_simps balanced_def)
  next
    case True
    have "wp (bsd_create_socket b os (ai_family ?a) (ai_socktype ?a) (ai_protocol ?a))
        (\<lambda>fd. wp (connect_on b os ?a source_host fd) ?Q) [(?ga, 0)]"
      by (rule wp_create_socket, rule tail, rule holding_create) (simp add: trace_simps)
    with True show ?thesis by (simp add: bsd_create_connect_socket_def trace_simps)
  qed
qed

lemma balanced_unix:
  assumes "core tr = [(C_socket d t fl p, fd)]"
  shows "addrs_got tr = 0" "addrs_freed tr = 0" "sockets_closed tr = []"
    "sockets_opened b tr = (if fd = b_SOCKET_ERROR b then [] else [fd])"
proof -
  have "addrs_got (core tr) = 0" "addrs_freed (core tr) = 0" "sockets_closed (core tr) = []"
    "sockets_opened b (core tr) = (if fd = b_SOCKET_ERROR b then [] else [fd])"
    by (simp_all add: assms trace_simps)
  then show "addrs_got tr = 0" "addrs_freed tr = 0" "sockets_closed tr = []"
    "sockets_opened b tr = (if fd = b_SOCKET_ERROR b then [] else [fd])"
    by (simp_all add: ledger_core)
qed

text \<open>On a path that fits \<^verbatim>\<open>sun_path\<close>, \<^verbatim>\<open>bsd_create_listen_socket_unix\<close> closes its descriptor on every error
  path, and a returned descriptor is bound to that path and listening. On a longer path it either
  stops before the copy because no socket could be created, or runs into the unchecked \<^verbatim>\<open>strcpy\<close>.\<close>

theorem listen_unix_no_leak:
  "wp (bsd_create_listen_socket_unix b os path)
     (\<lambda>r tr. case r of
        None \<Rightarrow> b_sun_path_size b \<le> length path
      | Some fd \<Rightarrow> balanced b fd tr \<and>
          (fd = b_SOCKET_ERROR b \<or>
           length path < b_sun_path_size b \<and> (C_listen fd 16384, 0) \<in> set tr \<and>
           (C_bind fd \<lparr>sa_family = AF_UNIX, sa_ip = [], sa_port_be = (0, 0), sa_path = path\<rparr>, 0) \<in> set tr)) []"
  unfolding bsd_create_listen_socket_unix_def wp_bind
proof (rule wp_create_socket)
  fix fd tr
  assume "core tr = core [] @ [(C_socket AF_UNIX SOCK_STREAM
      (if b_sock_flags b then [SOCK_CLOEXEC, SOCK_NONBLOCK] else []) 0, fd)]"
  then have led: "addrs_got tr = 0" "addrs_freed tr = 0" "sockets_closed tr = []"
    "sockets_opened b tr = (if fd = b_SOCKET_ERROR b then [] else [fd])"
    using balanced_unix by (simp_all add: trace_simps)
  show "wp (if fd = b_SOCKET_ERROR b then ret (Some (b_SOCKET_ERROR b))
       else do {
         _ \<leftarrow> sys_call os (C_chmod fd path);
         case unix_address b path of
           None \<Rightarrow> ret None
         | Some server_address \<Rightarrow> do {
             _ \<leftarrow> sys_call os (C_unlink path);
             r1 \<leftarrow> sys_call os (C_bind fd server_address);
             r2 \<leftarrow> (if r1 \<noteq> 0 then ret 1 else sys_call os (C_listen fd 16384));
             if r1 \<noteq> 0 \<or> r2 \<noteq> 0 then do {
               _ \<leftarrow> bsd_close_socket os fd;
               ret (Some (b_SOCKET_ERROR b)) }
             else ret (Some fd) } })
     (\<lambda>r tr. case r of
        None \<Rightarrow> b_sun_path_size b \<le> length path
      | Some fd \<Rightarrow> balanced b fd tr \<and>
          (fd = b_SOCKET_ERROR b \<or>
           length path < b_sun_path_size b \<and> (C_listen fd 16384, 0) \<in> set tr \<and>
           (C_bind fd \<lparr>sa_family = AF_UNIX, sa_ip = [], sa_port_be = (0, 0), sa_path = path\<rparr>, 0) \<in> set tr)) tr"
    using led by (cases "length path < b_sun_path_size b")
      (auto simp: trace_simps unix_address_def balanced_def bsd_close_socket_def)
qed

text \<open>The copy of the path into \<^verbatim>\<open>sun_path\<close> is unchecked: \<^verbatim>\<open>bsd_create_connect_socket_unix\<close> is undefined
  for exactly the paths that do not fit, whatever the system does.\<close>

theorem connect_unix_overflow:
  "wp (bsd_create_connect_socket_unix b os path)
     (\<lambda>r tr. (r = None) = (b_sun_path_size b \<le> length path)) []"
  by (auto simp: bsd_create_connect_socket_unix_def unix_address_def trace_simps
      bsd_create_socket_def apple_no_sigpipe_def bsd_set_nonblocking_def Let_def)

text \<open>The socket options and the bind, in order.\<close>

definition options_and_bind :: "trace \<Rightarrow> call list" where
  "options_and_bind tr = map fst (filter (\<lambda>(c, r). case c of C_setsockopt _ l _ _ \<Rightarrow> l = SOL_SOCKET
     | C_bind _ _ \<Rightarrow> True | _ \<Rightarrow> False) tr)"

definition reuse_options :: "build \<Rightarrow> int \<Rightarrow> bool \<Rightarrow> call list" where
  "reuse_options b fd exclusive =
     (if b_win32 b then [C_setsockopt fd SOL_SOCKET (if exclusive then SO_EXCLUSIVEADDRUSE else SO_REUSEADDR) 1]
      else (if b_reuseport b \<and> \<not> exclusive then [C_setsockopt fd SOL_SOCKET SO_REUSEPORT 1] else [])
           @ [C_setsockopt fd SOL_SOCKET SO_REUSEADDR 1])"

lemma options_append [trace_simps]:
  "options_and_bind (xs @ ys) = options_and_bind xs @ options_and_bind ys"
  "options_and_bind [] = []"
  "options_and_bind ((c, r) # es) = (case c of C_setsockopt _ l _ _ \<Rightarrow> if l = SOL_SOCKET then [c] else []
     | C_bind _ _ \<Rightarrow> [c] | _ \<Rightarrow> []) @ options_and_bind es"
  by (simp_all add: options_and_bind_def split: call.splits)

lemma wp_reuse_options:
  assumes "\<And>tr'. options_and_bind tr' = options_and_bind tr @ reuse_options b fd ex \<Longrightarrow> Q () tr'"
  shows "wp (set_reuse_options b os fd ex) Q tr"
  unfolding set_reuse_options_def
  by (auto simp: trace_simps reuse_options_def intro!: assms)

lemma wp_v6only_options:
  assumes "\<And>tr'. options_and_bind tr' = options_and_bind tr \<Longrightarrow> Q () tr'"
  shows "wp (clear_v6only b os fd) Q tr"
  unfolding clear_v6only_def by (auto simp: trace_simps intro!: assms)

lemma wp_call_any: "(\<And>r. Q r (tr @ [(c, r)])) \<Longrightarrow> wp (sys_call os c) Q tr"
  by (simp add: wp_sys_call)

text \<open>On a fixed port, \<^verbatim>\<open>bsd_create_listen_socket\<close> sets the reuse options before it binds and in this
  order: on Windows the exclusive option exactly when the caller asked for an exclusive port and
  address reuse otherwise; elsewhere port reuse unless the port is exclusive, and address reuse
  always; on port 0 it sets none.\<close>

theorem listen_reuse_options:
  assumes "fd \<noteq> b_SOCKET_ERROR b"
  shows "wp (listen_on b os port options (fd, Some a))
     (\<lambda>_ tr. options_and_bind tr =
        (if port = 0 then [] else reuse_options b fd (odd options)) @ [C_bind fd (ai_addr a)]) []"
    (is "wp _ ?Q _")
proof -
  have ex: "(and options LIBUS_LISTEN_EXCLUSIVE_PORT \<noteq> 0) = odd options"
    by (simp add: LIBUS_LISTEN_EXCLUSIVE_PORT_def and_one_eq odd_iff_mod_2_eq_one)
  let ?rest = "do { r1 \<leftarrow> sys_call os (C_bind fd (ai_addr a));
        r2 \<leftarrow> (if r1 \<noteq> 0 then ret 1 else sys_call os (C_listen fd 16384));
        if r1 \<noteq> 0 \<or> r2 \<noteq> 0 then do {
          _ \<leftarrow> bsd_close_socket os fd;
          _ \<leftarrow> sys_call os C_freeaddrinfo;
          ret (b_SOCKET_ERROR b) }
        else do {
          _ \<leftarrow> sys_call os C_freeaddrinfo;
          ret fd } }"
  have tail: "wp ?rest ?Q t" if "options_and_bind t = (if port = 0 then [] else reuse_options b fd (odd options))" for t
    unfolding wp_bind
    by (rule wp_call_any) (use that in \<open>auto simp: wp_if wp_return wp_bind bsd_close_socket_def
        intro!: wp_call_any simp: trace_simps\<close>)
  have "wp (clear_v6only b os fd) (\<lambda>_. wp ?rest ?Q) t"
    if "options_and_bind t = (if port = 0 then [] else reuse_options b fd (odd options))" for t
    by (rule wp_v6only_options, rule tail) (simp add: that)
  moreover have "wp (set_reuse_options b os fd (odd options)) (\<lambda>_. wp (clear_v6only b os fd) (\<lambda>_. wp ?rest ?Q)) []"
    if "port \<noteq> 0"
    by (rule wp_reuse_options, rule wp_v6only_options, rule tail) (simp add: that options_append(2))
  ultimately show ?thesis
    using assms options_append(2)
    by (cases "port = 0") (simp_all only: listen_on_def ex trace_simps prod.case option.sel if_False if_True simp_thms)
qed

theorem listen_reuse_options_witness:
  "wp (listen_on \<lparr>b_win32 = False, b_apple = False, b_sock_flags = True, b_msg_more = True, b_tcp_cork = True,
        b_reuseport = True, b_v6only = True, b_ip_pktinfo = True, b_ip_recvdstaddr = False,
        b_SOCKET_ERROR = -1, b_sun_path_size = 108\<rparr>
      \<lparr>os_ret = (\<lambda>_ _. 0), os_addrs = undefined, os_sockaddr = undefined, os_errno = (\<lambda>_. 0)\<rparr> 3000 0
      (5, Some \<lparr>ai_family = AF_INET, ai_socktype = SOCK_STREAM, ai_protocol = 6,
        ai_addr = \<lparr>sa_family = AF_INET, sa_ip = [], sa_port_be = (11, 184), sa_path = []\<rparr>\<rparr>))
     (\<lambda>_ tr. options_and_bind tr = [C_setsockopt 5 SOL_SOCKET SO_REUSEPORT 1, C_setsockopt 5 SOL_SOCKET SO_REUSEADDR 1,
        C_bind 5 \<lparr>sa_family = AF_INET, sa_ip = [], sa_port_be = (11, 184), sa_path = []\<rparr>]) []"
  using listen_reuse_options [of 5 "\<lparr>b_win32 = False, b_apple = False, b_sock_flags = True, b_msg_more = True,
        b_tcp_cork = True, b_reuseport = True, b_v6only = True, b_ip_pktinfo = True, b_ip_recvdstaddr = False,
        b_SOCKET_ERROR = -1, b_sun_path_size = 108\<rparr>"
      "\<lparr>os_ret = (\<lambda>_ _. 0), os_addrs = undefined, os_sockaddr = undefined, os_errno = (\<lambda>_. 0)\<rparr>" 3000 0
      "\<lparr>ai_family = AF_INET, ai_socktype = SOCK_STREAM, ai_protocol = 6,
        ai_addr = \<lparr>sa_family = AF_INET, sa_ip = [], sa_port_be = (11, 184), sa_path = []\<rparr>\<rparr>"]
  by (simp add: reuse_options_def)

text \<open>The bytes a history has handed to the kernel: \<^verbatim>\<open>send\<close> and \<^verbatim>\<open>writev\<close> return how many they took.\<close>

definition wire :: "trace \<Rightarrow> 8 word list" where
  "wire tr = concat (map (\<lambda>(c, r). case c of C_send _ buf _ \<Rightarrow> take (nat r) buf
     | C_writev _ bufs \<Rightarrow> take (nat r) (concat bufs) | _ \<Rightarrow> []) tr)"

text \<open>POSIX: \<^verbatim>\<open>send\<close> returns at most the length it was given.\<close>

definition send_bounded :: "os \<Rightarrow> bool" where
  "send_bounded os \<longleftrightarrow> (\<forall>tr fd buf fl. os_ret os tr (C_send fd buf fl) \<le> int (length buf))"

text \<open>\<^verbatim>\<open>bsd_write2\<close> returns how much of header and payload together is on the wire, on the \<^verbatim>\<open>writev\<close>
  path and on the two-\<^verbatim>\<open>send\<close> path of Windows alike: what was sent is the prefix of that length, so the
  caller can resume from there; an error after a complete header is reported as a partial write.\<close>

theorem write2_prefix:
  assumes "send_bounded os"
  shows "wp (bsd_write2 b os fd header payload)
    (\<lambda>written tr. wire tr = take (nat written) (header @ payload)) []"
proof -
  have bound: "nat (os_ret os tr (C_send fd buf fl)) \<le> length buf" for tr buf fl
    using assms unfolding send_bounded_def by (meson nat_le_iff)
  have add: "take (nat (int (length header) + r)) (header @ payload) = header @ take (nat r) payload"
    if "0 < r" for r using that by (simp add: nat_add_distrib)
  show ?thesis
    using bound add by (auto simp: bsd_write2_def bsd_send_def trace_simps wire_def)
qed

definition os_half :: os where
  "os_half = \<lparr>os_ret = (\<lambda>_ c. case c of C_send _ buf _ \<Rightarrow> int (length buf) div 2 | _ \<Rightarrow> 0),
     os_addrs = undefined, os_sockaddr = undefined, os_errno = (\<lambda>_. 0)\<rparr>"

theorem write2_prefix_witness:
  "send_bounded os_half \<and>
   wp (bsd_write2 \<lparr>b_win32 = True, b_apple = False, b_sock_flags = False, b_msg_more = False, b_tcp_cork = False,
        b_reuseport = False, b_v6only = True, b_ip_pktinfo = True, b_ip_recvdstaddr = False,
        b_SOCKET_ERROR = -1, b_sun_path_size = 108\<rparr> os_half 5 [1, 2] [3])
    (\<lambda>written tr. wire tr = take (nat written) [1, 2, 3]) []"
proof -
  have "int n div 2 \<le> int n" for n by simp
  then have h: "send_bounded os_half" by (simp add: send_bounded_def os_half_def)
  show ?thesis using h write2_prefix [OF h, of _ 5 "[1, 2]" "[3]"] by simp
qed

end
