(* ===== verification/Bsd_Udp.thy ===== *)
theory Bsd_Udp
  imports Bsd_Socket
begin

text \<open>
  The UDP packet buffer of \<^verbatim>\<open>usockets/src/bsd.c\<close>: its layout in one allocation, filling a slot for
  sending, reading a received slot, the control messages, and the emulation of \<^verbatim>\<open>sendmmsg\<close> and
  \<^verbatim>\<open>recvmmsg\<close> on the platforms that lack them.  The payload area of the allocation is a list of
  bytes and \<^verbatim>\<open>buf[i]\<close> or \<^verbatim>\<open>iov_base\<close> an offset into it; an access outside the area is undefined
  behaviour, the value \<open>None\<close>.  Index, offset and \<^verbatim>\<open>vlen\<close> are the non-negative values of the C
  arguments.  The sizes that come from headers outside the sources are the record
  \<open>udp_config\<close>; what the network delivers is the parameter \<open>net\<close>, a function of the history.
\<close>

section \<open>The buffer\<close>

record udp_config =
  LIBUS_UDP_MAX_NUM :: nat
  LIBUS_UDP_MAX_SIZE :: nat
  sizeof_sockaddr_storage :: nat
  sizeof_sockaddr_in :: nat
  offsetof_ipi_addr :: nat

datatype cmsg_type = CM_IP_TOS | CM_IP_PKTINFO | CM_IP_RECVDSTADDR | CM_IPV6_TCLASS | CM_IPV6_PKTINFO | CM_OTHER int

record cmsghdr =
  cmsg_level :: level
  cmsg_type :: cmsg_type
  cmsg_data :: bytes

text \<open>One packet slot.  \<open>ps_base\<close> and \<open>ps_len\<close> are \<^verbatim>\<open>buf[i]\<close> and \<^verbatim>\<open>len[i]\<close> on Windows and macOS and
  \<^verbatim>\<open>iov[i].iov_base\<close> and \<^verbatim>\<open>iov[i].iov_len\<close> elsewhere; \<open>ps_addr\<close> is \<^verbatim>\<open>addr[i]\<close>, to which \<^verbatim>\<open>msg_name\<close> points.
  The fields after it are those of \<^verbatim>\<open>struct mmsghdr\<close> and are not used on Windows and macOS.\<close>

record packet_slot =
  ps_base :: nat
  ps_len :: nat
  ps_addr :: bytes
  msg_len :: int
  msg_namelen :: nat
  msg_controllen :: nat
  msg_control :: "cmsghdr list"

record us_internal_udp_packet_buffer =
  pb_slots :: "packet_slot list"
  pb_mem :: bytes

definition emulated :: "build \<Rightarrow> bool" where
  "emulated b = (b_win32 b \<or> b_apple b)"

text \<open>The contents of the fresh allocation before the loop of \<^verbatim>\<open>bsd_create_udp_packet_buffer\<close>:
  arbitrary bytes and arbitrary values in the fields the loop does not set.  There is none when \<^verbatim>\<open>malloc\<close>
  fails; the source then writes through the null pointer, which is undefined.\<close>

record raw_memory =
  raw_area :: bytes
  raw_slot :: "nat \<Rightarrow> packet_slot"

definition bsd_create_udp_packet_buffer ::
  "build \<Rightarrow> udp_config \<Rightarrow> raw_memory option \<Rightarrow> us_internal_udp_packet_buffer option" where
  "bsd_create_udp_packet_buffer b cfg mem =
     map_option (\<lambda>raw. \<lparr>pb_slots = map (\<lambda>n.
        if emulated b then (raw_slot raw n)\<lparr>ps_base := LIBUS_UDP_MAX_SIZE cfg * n\<rparr>
        else (raw_slot raw n)\<lparr>
          ps_base := n * LIBUS_UDP_MAX_SIZE cfg,
          ps_len := LIBUS_UDP_MAX_SIZE cfg,
          msg_namelen := sizeof_sockaddr_storage cfg,
          msg_controllen := 256\<rparr>) [0..<LIBUS_UDP_MAX_NUM cfg],
      pb_mem = raw_area raw\<rparr>) mem"

definition bsd_udp_buffer_set_packet_payload ::
  "build \<Rightarrow> udp_config \<Rightarrow> us_internal_udp_packet_buffer \<Rightarrow> nat \<Rightarrow> nat \<Rightarrow> bytes \<Rightarrow> bytes
     \<Rightarrow> us_internal_udp_packet_buffer option" where
  "bsd_udp_buffer_set_packet_payload b cfg pb index offset payload peer_addr =
     (if length (pb_slots pb) \<le> index then None
      else let s = pb_slots pb ! index in
        if emulated b then do {
          mem \<leftarrow> mem_write (ps_base s) payload (pb_mem pb);
          addr \<leftarrow> memcpy (ps_addr s) peer_addr (sizeof_sockaddr_storage cfg);
          Some (pb\<lparr>pb_mem := mem,
            pb_slots := (pb_slots pb)[index := s\<lparr>ps_addr := addr, ps_len := length payload\<rparr>]\<rparr>) }
        else do {
          addr \<leftarrow> memcpy (ps_addr s) peer_addr (sizeof_sockaddr_in cfg);
          mem \<leftarrow> mem_write (ps_base s + offset) payload (pb_mem pb);
          Some (pb\<lparr>pb_mem := mem,
            pb_slots := (pb_slots pb)[index := s\<lparr>ps_addr := addr, msg_controllen := 0,
              ps_len := length payload + offset\<rparr>]\<rparr>) })"

definition bsd_udp_packet_buffer_payload :: "us_internal_udp_packet_buffer \<Rightarrow> nat \<Rightarrow> nat option" where
  "bsd_udp_packet_buffer_payload pb index =
     (if index < length (pb_slots pb) then Some (ps_base (pb_slots pb ! index)) else None)"

definition bsd_udp_packet_buffer_peer :: "us_internal_udp_packet_buffer \<Rightarrow> nat \<Rightarrow> bytes option" where
  "bsd_udp_packet_buffer_peer pb index =
     (if index < length (pb_slots pb) then Some (ps_addr (pb_slots pb ! index)) else None)"

definition bsd_udp_packet_buffer_payload_length ::
  "build \<Rightarrow> us_internal_udp_packet_buffer \<Rightarrow> nat \<Rightarrow> int option" where
  "bsd_udp_packet_buffer_payload_length b pb index =
     (if index < length (pb_slots pb)
      then Some (if emulated b then wrap_i32 (int (ps_len (pb_slots pb ! index))) else msg_len (pb_slots pb ! index))
      else None)"

section \<open>Control messages\<close>

text \<open>\<^verbatim>\<open>CMSG_FIRSTHDR\<close> and \<^verbatim>\<open>CMSG_NXTHDR\<close>: there is no message when \<^verbatim>\<open>msg_controllen\<close> is 0.\<close>

definition cmsgs :: "packet_slot \<Rightarrow> cmsghdr list" where
  "cmsgs s = (if msg_controllen s = 0 then [] else msg_control s)"

fun scan_local_ip :: "build \<Rightarrow> udp_config \<Rightarrow> cmsghdr list \<Rightarrow> bytes option \<times> int" where
  "scan_local_ip b cfg [] = (Some [], 0)"
| "scan_local_ip b cfg (c # cs) =
     (if b_ip_pktinfo b \<and> cmsg_level c = IPPROTO_IP \<and> cmsg_type c = CM_IP_PKTINFO
        then (mem_read (offsetof_ipi_addr cfg) 4 (cmsg_data c), 4)
      else if \<not> b_ip_pktinfo b \<and> b_ip_recvdstaddr b \<and> cmsg_level c = IPPROTO_IP \<and> cmsg_type c = CM_IP_RECVDSTADDR
        then (mem_read 0 4 (cmsg_data c), 4)
      else if cmsg_level c = IPPROTO_IPV6 \<and> cmsg_type c = CM_IPV6_PKTINFO
        then (mem_read 0 16 (cmsg_data c), 16)
      else scan_local_ip b cfg cs)"

text \<open>The bytes copied to \<^verbatim>\<open>ip\<close> (\<open>None\<close> when the message is too short) and the returned length.\<close>

definition bsd_udp_packet_buffer_local_ip ::
  "build \<Rightarrow> udp_config \<Rightarrow> us_internal_udp_packet_buffer \<Rightarrow> nat \<Rightarrow> bytes option \<times> int" where
  "bsd_udp_packet_buffer_local_ip b cfg pb index =
     (if emulated b then (Some [], 0)
      else if index < length (pb_slots pb) then scan_local_ip b cfg (cmsgs (pb_slots pb ! index))
      else (None, 0))"

fun scan_tos :: "cmsghdr list \<Rightarrow> cmsghdr option" where
  "scan_tos [] = None"
| "scan_tos (c # cs) =
     (if cmsg_level c = IPPROTO_IP \<and> cmsg_type c = CM_IP_TOS then Some c
      else if cmsg_level c = IPPROTO_IPV6 \<and> cmsg_type c = CM_IPV6_TCLASS then Some c
      else scan_tos cs)"

definition bsd_udp_packet_buffer_ecn ::
  "build \<Rightarrow> os \<Rightarrow> us_internal_udp_packet_buffer \<Rightarrow> nat \<Rightarrow> int option sys" where
  "bsd_udp_packet_buffer_ecn b os pb index =
     (if emulated b then do {
        _ \<leftarrow> sys_call os (C_printf ''ECN not supported!\<newline>'');
        _ \<leftarrow> sys_call os (C_printf ''We got no ECN!\<newline>'');
        ret (Some 0) }
      else if length (pb_slots pb) \<le> index then ret None
      else (case scan_tos (cmsgs (pb_slots pb ! index)) of
          Some c \<Rightarrow> ret (map_option (\<lambda>tos. and (uint (hd tos)) 3) (mem_read 0 1 (cmsg_data c)))
        | None \<Rightarrow> do { _ \<leftarrow> sys_call os (C_printf ''We got no ECN!\<newline>''); ret (Some 0) }))"

section \<open>Sending\<close>

record mmsghdr =
  mh_iov :: bytes
  mh_name :: bytes
  mh_len :: int

text \<open>What the \<^verbatim>\<open>void *msgvec\<close> argument points to.  On Linux the packet buffer starts with its array of
  \<^verbatim>\<open>struct mmsghdr\<close>, so both readings are valid there; on macOS it starts with the array \<^verbatim>\<open>buf\<close>.\<close>

datatype msgvec = Packets us_internal_udp_packet_buffer | Headers "mmsghdr list"

text \<open>The datagram a slot describes: \<open>ps_len\<close> bytes from \<open>ps_base\<close>, and the first \<open>n\<close> bytes of the address.\<close>

definition slot_datagram :: "nat \<Rightarrow> bytes \<Rightarrow> packet_slot \<Rightarrow> (bytes \<times> bytes) option" where
  "slot_datagram n mem s = do {
     payload \<leftarrow> mem_read (ps_base s) (ps_len s) mem;
     name \<leftarrow> mem_read 0 n (ps_addr s);
     Some (payload, name) }"

fun slot_datagrams :: "bytes \<Rightarrow> packet_slot list \<Rightarrow> (bytes \<times> bytes) list option" where
  "slot_datagrams mem [] = Some []"
| "slot_datagrams mem (s # ss) = do {
     d \<leftarrow> slot_datagram (msg_namelen s) mem s;
     ds \<leftarrow> slot_datagrams mem ss;
     Some (d # ds) }"

fun sendmsg_loop :: "os \<Rightarrow> int \<Rightarrow> int \<Rightarrow> nat \<Rightarrow> mmsghdr list \<Rightarrow> (int \<times> mmsghdr list) sys" where
  "sendmsg_loop os fd flags i [] = ret (int i, [])"
| "sendmsg_loop os fd flags i (h # hs) =
     do {
       r \<leftarrow> sys_call os (C_sendmsg fd (mh_iov h) (mh_name h) flags);
       if r = -1 then ret (if i \<noteq> 0 then int i else -1, h # hs)
       else do {
         rest \<leftarrow> sendmsg_loop os fd flags (Suc i) hs;
         ret (fst rest, h\<lparr>mh_len := r\<rparr> # snd rest) }
     }"

fun sendto_loop ::
  "os \<Rightarrow> udp_config \<Rightarrow> int \<Rightarrow> int \<Rightarrow> bytes \<Rightarrow> nat \<Rightarrow> packet_slot list \<Rightarrow> int option sys" where
  "sendto_loop os cfg fd flags mem i [] = ret (Some (int i))"
| "sendto_loop os cfg fd flags mem i (s # ss) =
     (case slot_datagram (sizeof_sockaddr_in cfg) mem s of
        None \<Rightarrow> ret None
      | Some (payload, name) \<Rightarrow> do {
          r \<leftarrow> sys_call os (C_sendto fd payload name flags);
          if r = -1 then ret (Some (int i))
          else sendto_loop os cfg fd flags mem (Suc i) ss })"

text \<open>\<open>None\<close> when the function reads memory it does not own: a buffer in the layout of the platform cast
  to \<^verbatim>\<open>struct mmsghdr\<close>, or more messages than there are.\<close>

definition bsd_sendmmsg ::
  "build \<Rightarrow> os \<Rightarrow> udp_config \<Rightarrow> int \<Rightarrow> msgvec \<Rightarrow> nat \<Rightarrow> int \<Rightarrow> int option sys" where
  "bsd_sendmmsg b os cfg fd mv vlen flags =
     (if b_apple b then
        (case mv of
           Packets pb \<Rightarrow> ret None
         | Headers hs \<Rightarrow>
             if length hs < vlen then ret None
             else do { r \<leftarrow> sendmsg_loop os fd flags 0 (take vlen hs); ret (Some (fst r)) })
      else if b_win32 b then
        (case mv of
           Packets pb \<Rightarrow>
             if length (pb_slots pb) < LIBUS_UDP_MAX_NUM cfg then ret None
             else sendto_loop os cfg fd flags (pb_mem pb) 0 (take (LIBUS_UDP_MAX_NUM cfg) (pb_slots pb))
         | Headers hs \<Rightarrow> ret None)
      else
        (case (case mv of
                 Packets pb \<Rightarrow> (if length (pb_slots pb) < vlen then None
                                 else slot_datagrams (pb_mem pb) (take vlen (pb_slots pb)))
               | Headers hs \<Rightarrow> (if length hs < vlen then None
                                 else Some (map (\<lambda>h. (mh_iov h, mh_name h)) (take vlen hs)))) of
           None \<Rightarrow> ret None
         | Some ds \<Rightarrow> do { r \<leftarrow> sys_call os (C_sendmmsg fd ds flags [MSG_NOSIGNAL]); ret (Some r) }))"

section \<open>Receiving\<close>

record datagram =
  dg_payload :: bytes
  dg_from :: bytes
  dg_control :: "cmsghdr list"

type_synonym net = "trace \<Rightarrow> datagram list"

definition sys_net :: "net \<Rightarrow> datagram list sys" where
  "sys_net net = State (\<lambda>tr. (net tr, tr))"

lemma wp_sys_net [trace_simps]: "wp (sys_net net) Q tr = Q (net tr) tr"
  by (simp add: wp_def sys_net_def)

text \<open>What \<^verbatim>\<open>recvfrom\<close> leaves in slot \<open>i\<close>: \<open>r\<close> bytes at \<^verbatim>\<open>buf[i]\<close> and the sender's address.\<close>

definition store_packet ::
  "nat \<Rightarrow> int \<Rightarrow> datagram \<Rightarrow> us_internal_udp_packet_buffer \<Rightarrow> us_internal_udp_packet_buffer option" where
  "store_packet i r d pb =
     (let s = pb_slots pb ! i in do {
        mem \<leftarrow> mem_write (ps_base s) (take (nat r) (dg_payload d)) (pb_mem pb);
        addr \<leftarrow> memcpy (ps_addr s) (dg_from d) (length (dg_from d));
        Some (pb\<lparr>pb_mem := mem, pb_slots := (pb_slots pb)[i := s\<lparr>ps_addr := addr\<rparr>]\<rparr>) })"

definition set_len :: "nat \<Rightarrow> int \<Rightarrow> us_internal_udp_packet_buffer \<Rightarrow> us_internal_udp_packet_buffer" where
  "set_len i r pb = pb\<lparr>pb_slots := (pb_slots pb)[i := (pb_slots pb ! i)\<lparr>ps_len := nat r\<rparr>]\<rparr>"

text \<open>\<^verbatim>\<open>for (int i = 0; i < LIBUS_UDP_MAX_NUM; i++)\<close>, with the number of rounds left as the second argument.\<close>

fun recvfrom_loop ::
  "os \<Rightarrow> net \<Rightarrow> udp_config \<Rightarrow> int \<Rightarrow> int \<Rightarrow> nat \<Rightarrow> nat \<Rightarrow> us_internal_udp_packet_buffer
     \<Rightarrow> (int \<times> us_internal_udp_packet_buffer) option sys" where
  "recvfrom_loop os net cfg fd flags i 0 pb = ret (Some (int i, pb))"
| "recvfrom_loop os net cfg fd flags i (Suc k) pb =
     do {
       r \<leftarrow> sys_call os (C_recvfrom fd (LIBUS_UDP_MAX_SIZE cfg) flags);
       if r = -1 then ret (Some (int i, pb))
       else do {
         ds \<leftarrow> sys_net net;
         case store_packet i r (hd ds) pb of
           None \<Rightarrow> ret None
         | Some pb' \<Rightarrow> recvfrom_loop os net cfg fd flags (Suc i) k (set_len i r pb')
       } }"

text \<open>What the kernel's \<^verbatim>\<open>recvmmsg\<close> leaves in the slots: payload, address, length and control messages of
  every datagram it delivers.\<close>

fun kernel_fill ::
  "nat \<Rightarrow> datagram list \<Rightarrow> us_internal_udp_packet_buffer \<Rightarrow> us_internal_udp_packet_buffer option" where
  "kernel_fill i [] pb = Some pb"
| "kernel_fill i (d # ds) pb = do {
     pb' \<leftarrow> store_packet i (int (ps_len (pb_slots pb ! i))) d pb;
     kernel_fill (Suc i) ds (pb'\<lparr>pb_slots := (pb_slots pb')[i := (pb_slots pb' ! i)\<lparr>
       msg_len := int (min (ps_len (pb_slots pb ! i)) (length (dg_payload d))),
       msg_control := dg_control d\<rparr>]\<rparr>) }"

fun set_controllen :: "nat \<Rightarrow> packet_slot list \<Rightarrow> packet_slot list" where
  "set_controllen 0 ss = ss"
| "set_controllen (Suc n) [] = []"
| "set_controllen (Suc n) (s # ss) = s\<lparr>msg_controllen := 256\<rparr> # set_controllen n ss"

definition bsd_recvmmsg ::
  "build \<Rightarrow> os \<Rightarrow> net \<Rightarrow> udp_config \<Rightarrow> int \<Rightarrow> us_internal_udp_packet_buffer \<Rightarrow> nat \<Rightarrow> int
     \<Rightarrow> (int \<times> us_internal_udp_packet_buffer) option sys" where
  "bsd_recvmmsg b os net cfg fd pb vlen flags =
     (if emulated b then
        (if length (pb_slots pb) < LIBUS_UDP_MAX_NUM cfg then ret None
         else recvfrom_loop os net cfg fd flags 0 (LIBUS_UDP_MAX_NUM cfg) pb)
      else if length (pb_slots pb) < vlen then ret None
      else do {
        let pb1 = pb\<lparr>pb_slots := set_controllen vlen (pb_slots pb)\<rparr>;
        r \<leftarrow> sys_call os (C_recvmmsg fd vlen flags);
        ds \<leftarrow> sys_net net;
        ret (map_option (Pair r) (kernel_fill 0 (take (nat r) ds) pb1)) })"

section \<open>Layout\<close>

text \<open>The invariant of the buffer: slot \<open>n\<close> owns the \<open>n\<close>-th block of \<^verbatim>\<open>LIBUS_UDP_MAX_SIZE\<close> bytes of the payload area.\<close>

definition udp_layout :: "udp_config \<Rightarrow> us_internal_udp_packet_buffer \<Rightarrow> bool" where
  "udp_layout cfg pb \<longleftrightarrow>
     length (pb_slots pb) = LIBUS_UDP_MAX_NUM cfg
     \<and> length (pb_mem pb) = LIBUS_UDP_MAX_NUM cfg * LIBUS_UDP_MAX_SIZE cfg
     \<and> (\<forall>n < LIBUS_UDP_MAX_NUM cfg. ps_base (pb_slots pb ! n) = n * LIBUS_UDP_MAX_SIZE cfg
          \<and> length (ps_addr (pb_slots pb ! n)) = sizeof_sockaddr_storage cfg)"

definition raw_ok :: "udp_config \<Rightarrow> raw_memory \<Rightarrow> bool" where
  "raw_ok cfg raw \<longleftrightarrow> length (raw_area raw) = LIBUS_UDP_MAX_SIZE cfg * LIBUS_UDP_MAX_NUM cfg
     \<and> (\<forall>n < LIBUS_UDP_MAX_NUM cfg. length (ps_addr (raw_slot raw n)) = sizeof_sockaddr_storage cfg)"

text \<open>The block of a slot.\<close>

definition slot_block :: "udp_config \<Rightarrow> us_internal_udp_packet_buffer \<Rightarrow> nat \<Rightarrow> bytes option" where
  "slot_block cfg pb n = mem_read (n * LIBUS_UDP_MAX_SIZE cfg) (LIBUS_UDP_MAX_SIZE cfg) (pb_mem pb)"

lemma created_layout:
  "raw_ok cfg raw \<Longrightarrow> bsd_create_udp_packet_buffer b cfg (Some raw) = Some pb \<Longrightarrow> udp_layout cfg pb"
  by (auto simp: bsd_create_udp_packet_buffer_def raw_ok_def udp_layout_def mult.commute)

lemma block_bound: "i < (n::nat) \<Longrightarrow> i * k + k \<le> n * k"
  by (metis Suc_leI add.commute mult_Suc mult_le_mono1)

lemma blocks_apart:
  assumes "i \<noteq> (j::nat)" and "off + len \<le> k"
  shows "j * k + k \<le> i * k + off \<or> i * k + off + len \<le> j * k"
proof (cases "i < j")
  case True
  with block_bound [of i j k] assms show ?thesis by linarith
next
  case False
  with block_bound [of j i k] assms show ?thesis by linarith
qed

lemma block_write:
  assumes lay: "udp_layout cfg pb" and i: "i < LIBUS_UDP_MAX_NUM cfg"
    and fit: "off + length bs \<le> LIBUS_UDP_MAX_SIZE cfg"
  shows "\<exists>m. mem_write (i * LIBUS_UDP_MAX_SIZE cfg + off) bs (pb_mem pb) = Some m
     \<and> length m = length (pb_mem pb)
     \<and> mem_read (i * LIBUS_UDP_MAX_SIZE cfg + off) (length bs) m = Some bs
     \<and> (\<forall>j. j \<noteq> i \<longrightarrow> mem_read (j * LIBUS_UDP_MAX_SIZE cfg) (LIBUS_UDP_MAX_SIZE cfg) m
          = mem_read (j * LIBUS_UDP_MAX_SIZE cfg) (LIBUS_UDP_MAX_SIZE cfg) (pb_mem pb))"
proof -
  have "i * LIBUS_UDP_MAX_SIZE cfg + off + length bs \<le> length (pb_mem pb)"
    using lay block_bound [OF i, of "LIBUS_UDP_MAX_SIZE cfg"] fit by (simp add: udp_layout_def)
  then obtain m where m: "mem_write (i * LIBUS_UDP_MAX_SIZE cfg + off) bs (pb_mem pb) = Some m"
    by (simp add: mem_write_def)
  then show ?thesis
    using mem_write_length [OF m] mem_read_write_same [OF m]
      mem_read_write_other [OF m blocks_apart [OF _ fit]] by auto
qed

lemma layout_update:
  "udp_layout cfg pb \<Longrightarrow> i < LIBUS_UDP_MAX_NUM cfg \<Longrightarrow> length m = length (pb_mem pb) \<Longrightarrow>
   ps_base s = ps_base (pb_slots pb ! i) \<Longrightarrow> length (ps_addr s) = sizeof_sockaddr_storage cfg \<Longrightarrow>
   udp_layout cfg (pb\<lparr>pb_mem := m, pb_slots := (pb_slots pb)[i := s]\<rparr>)"
  by (simp add: udp_layout_def nth_list_update)

section \<open>Filling a slot\<close>

lemma udp_set_payload:
  assumes lay: "udp_layout cfg pb" and i: "i < LIBUS_UDP_MAX_NUM cfg"
    and fit: "offset + length payload \<le> LIBUS_UDP_MAX_SIZE cfg"
    and sizes: "sizeof_sockaddr_in cfg \<le> sizeof_sockaddr_storage cfg" "length peer = sizeof_sockaddr_storage cfg"
  obtains pb' where "bsd_udp_buffer_set_packet_payload b cfg pb i offset payload peer = Some pb'"
    and "udp_layout cfg pb'"
    and "mem_read (i * LIBUS_UDP_MAX_SIZE cfg + (if emulated b then 0 else offset)) (length payload) (pb_mem pb') = Some payload"
    and "\<And>j. j \<noteq> i \<Longrightarrow> pb_slots pb' ! j = pb_slots pb ! j \<and> slot_block cfg pb' j = slot_block cfg pb j"
    and "ps_len (pb_slots pb' ! i) = length payload + (if emulated b then 0 else offset)"
    and "ps_addr (pb_slots pb' ! i) = (if emulated b then peer
           else take (sizeof_sockaddr_in cfg) peer @ drop (sizeof_sockaddr_in cfg) (ps_addr (pb_slots pb ! i)))"
    and "\<not> emulated b \<Longrightarrow> msg_controllen (pb_slots pb' ! i) = 0"
    and "msg_namelen (pb_slots pb' ! i) = msg_namelen (pb_slots pb ! i)"
proof -
  define off where "off = (if emulated b then 0 else offset)"
  define addr where "addr = (if emulated b then peer
           else take (sizeof_sockaddr_in cfg) peer @ drop (sizeof_sockaddr_in cfg) (ps_addr (pb_slots pb ! i)))"
  define s where "s = (pb_slots pb ! i)\<lparr>ps_addr := addr,
     msg_controllen := (if emulated b then msg_controllen (pb_slots pb ! i) else 0),
     ps_len := length payload + off\<rparr>"
  have slots: "i < length (pb_slots pb)" "ps_base (pb_slots pb ! i) = i * LIBUS_UDP_MAX_SIZE cfg"
    "length (ps_addr (pb_slots pb ! i)) = sizeof_sockaddr_storage cfg"
    using lay i by (auto simp: udp_layout_def)
  have "off + length payload \<le> LIBUS_UDP_MAX_SIZE cfg" using fit by (simp add: off_def)
  from block_write [OF lay i this] obtain m where
    m: "mem_write (i * LIBUS_UDP_MAX_SIZE cfg + off) payload (pb_mem pb) = Some m"
      "length m = length (pb_mem pb)" "mem_read (i * LIBUS_UDP_MAX_SIZE cfg + off) (length payload) m = Some payload"
      "\<And>j. j \<noteq> i \<Longrightarrow> mem_read (j * LIBUS_UDP_MAX_SIZE cfg) (LIBUS_UDP_MAX_SIZE cfg) m
          = mem_read (j * LIBUS_UDP_MAX_SIZE cfg) (LIBUS_UDP_MAX_SIZE cfg) (pb_mem pb)" by blast
  let ?pb = "pb\<lparr>pb_mem := m, pb_slots := (pb_slots pb)[i := s]\<rparr>"
  have "bsd_udp_buffer_set_packet_payload b cfg pb i offset payload peer = Some ?pb"
    using slots m(1) sizes
    by (auto simp: bsd_udp_buffer_set_packet_payload_def memcpy_Some s_def addr_def off_def Let_def)
  moreover have "udp_layout cfg ?pb"
    by (rule layout_update) (use lay i m(2) sizes slots in \<open>auto simp: s_def addr_def\<close>)
  ultimately show thesis
    by (rule that) (use m slots in \<open>auto simp: off_def s_def addr_def slot_block_def\<close>)
qed

text \<open>C27: filling slot \<open>i\<close> of a packet buffer with a payload that fits its block is defined and keeps the
  layout; the payload can be read back from the block, behind the reserved offset on the platforms
  that honour it; every other slot and its block are unchanged; and the slot then describes exactly
  the datagram that \<^verbatim>\<open>bsd_sendmmsg\<close> hands to the kernel: the block's prefix up to the end of the payload.\<close>

theorem udp_set_payload_roundtrip:
  assumes "udp_layout cfg pb" and "i < LIBUS_UDP_MAX_NUM cfg"
    and "offset + length payload \<le> LIBUS_UDP_MAX_SIZE cfg"
    and "sizeof_sockaddr_in cfg \<le> sizeof_sockaddr_storage cfg" and "length peer = sizeof_sockaddr_storage cfg"
  shows "\<exists>pb'. bsd_udp_buffer_set_packet_payload b cfg pb i offset payload peer = Some pb' \<and> udp_layout cfg pb'
    \<and> mem_read (the (bsd_udp_packet_buffer_payload pb' i) + (if emulated b then 0 else offset)) (length payload) (pb_mem pb')
        = Some payload
    \<and> (\<forall>j. j \<noteq> i \<longrightarrow> pb_slots pb' ! j = pb_slots pb ! j \<and> slot_block cfg pb' j = slot_block cfg pb j)
    \<and> (\<exists>pre name. length pre = (if emulated b then 0 else offset) \<and> length name = sizeof_sockaddr_in cfg
        \<and> slot_datagram (sizeof_sockaddr_in cfg) (pb_mem pb') (pb_slots pb' ! i) = Some (pre @ payload, name)
        \<and> name = take (sizeof_sockaddr_in cfg) peer)"
proof -
  let ?off = "if emulated b then 0 else offset"
  from assms obtain pb' where
    pb': "bsd_udp_buffer_set_packet_payload b cfg pb i offset payload peer = Some pb'"
      "udp_layout cfg pb'"
      "mem_read (i * LIBUS_UDP_MAX_SIZE cfg + ?off) (length payload) (pb_mem pb') = Some payload"
      "\<And>j. j \<noteq> i \<Longrightarrow> pb_slots pb' ! j = pb_slots pb ! j \<and> slot_block cfg pb' j = slot_block cfg pb j"
      "ps_len (pb_slots pb' ! i) = length payload + ?off"
      "ps_addr (pb_slots pb' ! i) = (if emulated b then peer
           else take (sizeof_sockaddr_in cfg) peer @ drop (sizeof_sockaddr_in cfg) (ps_addr (pb_slots pb ! i)))"
    by (rule udp_set_payload [of cfg pb i offset payload peer b]) blast
  have base: "i < length (pb_slots pb')" "ps_base (pb_slots pb' ! i) = i * LIBUS_UDP_MAX_SIZE cfg"
    using pb'(2) assms(2) by (auto simp: udp_layout_def)
  let ?pre = "take ?off (drop (i * LIBUS_UDP_MAX_SIZE cfg) (pb_mem pb'))"
  have fits: "i * LIBUS_UDP_MAX_SIZE cfg + ?off + length payload \<le> length (pb_mem pb')"
    and tail: "take (length payload) (drop (i * LIBUS_UDP_MAX_SIZE cfg + ?off) (pb_mem pb')) = payload"
    using pb'(3) by (simp_all add: mem_read_def split: if_splits)
  have "take (length payload + ?off) (drop (i * LIBUS_UDP_MAX_SIZE cfg) (pb_mem pb')) = ?pre @ payload"
    using take_add [of ?off "length payload" "drop (i * LIBUS_UDP_MAX_SIZE cfg) (pb_mem pb')"] tail
    by (simp add: add.commute split: if_splits)
  then have "mem_read (ps_base (pb_slots pb' ! i)) (ps_len (pb_slots pb' ! i)) (pb_mem pb') = Some (?pre @ payload)"
    using fits base pb'(5) by (simp add: mem_read_def split: if_splits)
  moreover have "mem_read 0 (sizeof_sockaddr_in cfg) (ps_addr (pb_slots pb' ! i)) = Some (take (sizeof_sockaddr_in cfg) peer)"
    using assms(4,5) pb'(6) by (auto simp: mem_read_def)
  ultimately have "slot_datagram (sizeof_sockaddr_in cfg) (pb_mem pb') (pb_slots pb' ! i)
      = Some (?pre @ payload, take (sizeof_sockaddr_in cfg) peer)"
    by (simp add: slot_datagram_def)
  moreover have "length ?pre = ?off" using fits by simp
  ultimately show ?thesis
    using pb'(1-4) base assms(4,5) by (auto simp: bsd_udp_packet_buffer_payload_def)
qed

definition cfg2 :: udp_config where
  "cfg2 = \<lparr>LIBUS_UDP_MAX_NUM = 2, LIBUS_UDP_MAX_SIZE = 4, sizeof_sockaddr_storage = 3,
     sizeof_sockaddr_in = 2, offsetof_ipi_addr = 8\<rparr>"

definition slot0 :: "nat \<Rightarrow> packet_slot" where
  "slot0 n = \<lparr>ps_base = 4 * n, ps_len = 4, ps_addr = [0, 0, 9], msg_len = 0, msg_namelen = 3,
     msg_controllen = 256, msg_control = []\<rparr>"

definition pb2 :: us_internal_udp_packet_buffer where
  "pb2 = \<lparr>pb_slots = [slot0 0, slot0 1], pb_mem = replicate 8 0\<rparr>"

definition linux_build :: build where
  "linux_build = \<lparr>b_win32 = False, b_apple = False, b_sock_flags = True, b_msg_more = True, b_tcp_cork = True,
     b_reuseport = True, b_v6only = True, b_ip_pktinfo = True, b_ip_recvdstaddr = False,
     b_SOCKET_ERROR = -1, b_sun_path_size = 108\<rparr>"

definition windows_build :: build where
  "windows_build = \<lparr>b_win32 = True, b_apple = False, b_sock_flags = False, b_msg_more = False, b_tcp_cork = False,
     b_reuseport = False, b_v6only = True, b_ip_pktinfo = True, b_ip_recvdstaddr = False,
     b_SOCKET_ERROR = -1, b_sun_path_size = 108\<rparr>"

lemma pb2_layout: "udp_layout cfg2 pb2"
  by (simp add: udp_layout_def cfg2_def pb2_def slot0_def less_Suc_eq numeral_2_eq_2)

theorem udp_set_payload_roundtrip_witness:
  "\<exists>pb'. bsd_udp_buffer_set_packet_payload linux_build cfg2 pb2 1 1 [7, 8] [4, 5, 6] = Some pb'
     \<and> udp_layout cfg2 pb' \<and> slot_block cfg2 pb' 0 = slot_block cfg2 pb2 0"
  using udp_set_payload_roundtrip [OF pb2_layout, of 1 1 "[7, 8]" "[4, 5, 6]" linux_build]
  by (auto simp: cfg2_def)

text \<open>On Linux only \<^verbatim>\<open>sizeof(struct sockaddr_in)\<close> bytes of the peer address are copied into the slot, so
  two peers that agree in those bytes (two IPv6 addresses that differ in their last half) are the same
  destination to \<^verbatim>\<open>bsd_udp_buffer_set_packet_payload\<close>, and the rest of the slot's address is what it was.\<close>

theorem udp_peer_truncated:
  assumes "\<not> emulated b" and "take (sizeof_sockaddr_in cfg) p1 = take (sizeof_sockaddr_in cfg) p2"
    and "length p1 = length p2"
  shows "bsd_udp_buffer_set_packet_payload b cfg pb i offset payload p1
       = bsd_udp_buffer_set_packet_payload b cfg pb i offset payload p2
    \<and> (\<forall>pb'. bsd_udp_buffer_set_packet_payload b cfg pb i offset payload p1 = Some pb' \<longrightarrow>
       drop (sizeof_sockaddr_in cfg) (ps_addr (pb_slots pb' ! i)) = drop (sizeof_sockaddr_in cfg) (ps_addr (pb_slots pb ! i)))"
  using assms
  by (auto simp: bsd_udp_buffer_set_packet_payload_def memcpy_def mem_write_def Let_def bind_eq_Some_conv split: if_splits)

theorem udp_peer_truncated_witness:
  "bsd_udp_buffer_set_packet_payload linux_build cfg2 pb2 1 1 [7, 8] [4, 5, 6]
   = bsd_udp_buffer_set_packet_payload linux_build cfg2 pb2 1 1 [7, 8] [4, 5, 200]"
  by (rule udp_peer_truncated [THEN conjunct1]) (simp_all add: emulated_def linux_build_def cfg2_def)

section \<open>Receiving into the slots\<close>

text \<open>POSIX: \<^verbatim>\<open>recvfrom\<close> returns -1 or the number of bytes it stored, at most the size it was given, and the
  address it stores fits \<^verbatim>\<open>struct sockaddr_storage\<close>.\<close>

definition recvfrom_posix :: "os \<Rightarrow> net \<Rightarrow> udp_config \<Rightarrow> bool" where
  "recvfrom_posix os net cfg \<longleftrightarrow> (\<forall>tr fd n fl r. os_ret os tr (C_recvfrom fd n fl) = r \<longrightarrow> r \<noteq> -1 \<longrightarrow>
     (let d = hd (net (tr @ [(C_recvfrom fd n fl, r)])) in
        r = int (length (dg_payload d)) \<and> r \<le> int n \<and> length (dg_from d) \<le> sizeof_sockaddr_storage cfg))"

text \<open>The packet a client of the buffer reads: \<^verbatim>\<open>payload_length\<close> bytes at \<^verbatim>\<open>payload\<close>, and the start of \<^verbatim>\<open>peer\<close>.\<close>

definition holds_packet :: "us_internal_udp_packet_buffer \<Rightarrow> nat \<Rightarrow> datagram \<Rightarrow> bool" where
  "holds_packet pb j d \<longleftrightarrow>
     mem_read (ps_base (pb_slots pb ! j)) (ps_len (pb_slots pb ! j)) (pb_mem pb) = Some (dg_payload d)
     \<and> take (length (dg_from d)) (ps_addr (pb_slots pb ! j)) = dg_from d"

definition same_slot :: "udp_config \<Rightarrow> us_internal_udp_packet_buffer \<Rightarrow> us_internal_udp_packet_buffer \<Rightarrow> nat \<Rightarrow> bool" where
  "same_slot cfg pb pb' j \<longleftrightarrow> pb_slots pb' ! j = pb_slots pb ! j \<and> slot_block cfg pb' j = slot_block cfg pb j"

lemma same_slot_refl [simp]: "same_slot cfg pb pb j"
  by (simp add: same_slot_def)

lemma same_slot_trans: "same_slot cfg p q j \<Longrightarrow> same_slot cfg q r j \<Longrightarrow> same_slot cfg p r j"
  by (simp add: same_slot_def)

lemma holds_packet_same:
  assumes "holds_packet p j d" and same: "same_slot cfg p q j" and lay: "udp_layout cfg p" "udp_layout cfg q"
    and j: "j < LIBUS_UDP_MAX_NUM cfg" and "length (dg_payload d) \<le> LIBUS_UDP_MAX_SIZE cfg"
  shows "holds_packet q j d"
proof -
  let ?n = "ps_len (pb_slots p ! j)"
  have base: "ps_base (pb_slots p ! j) = j * LIBUS_UDP_MAX_SIZE cfg" using lay(1) j by (simp add: udp_layout_def)
  have rd: "mem_read (j * LIBUS_UDP_MAX_SIZE cfg) ?n (pb_mem p) = Some (dg_payload d)"
    using assms(1) base by (simp add: holds_packet_def)
  then have n: "?n \<le> LIBUS_UDP_MAX_SIZE cfg" using assms(6) mem_read_length by metis
  have "j * LIBUS_UDP_MAX_SIZE cfg + LIBUS_UDP_MAX_SIZE cfg \<le> length (pb_mem p)"
    using lay(1) block_bound [OF j] by (simp add: udp_layout_def)
  then obtain blk where blk: "slot_block cfg p j = Some blk" by (simp add: slot_block_def mem_read_def)
  then have "slot_block cfg q j = Some blk" using same by (simp add: same_slot_def)
  then have "mem_read (j * LIBUS_UDP_MAX_SIZE cfg) ?n (pb_mem q) = mem_read (j * LIBUS_UDP_MAX_SIZE cfg) ?n (pb_mem p)"
    using blk n unfolding slot_block_def by (simp add: mem_read_prefix)
  then show ?thesis
    using assms(1) same rd base by (simp add: holds_packet_def same_slot_def)
qed

lemma store_packet_ok:
  assumes lay: "udp_layout cfg pb" and i: "i < LIBUS_UDP_MAX_NUM cfg"
    and d: "r = int (length (dg_payload d))" "length (dg_payload d) \<le> LIBUS_UDP_MAX_SIZE cfg"
      "length (dg_from d) \<le> sizeof_sockaddr_storage cfg"
  obtains pb1 where "store_packet i r d pb = Some pb1" and "udp_layout cfg (set_len i r pb1)"
    and "holds_packet (set_len i r pb1) i d" and "\<And>j. j \<noteq> i \<Longrightarrow> same_slot cfg pb (set_len i r pb1) j"
proof -
  have slots: "i < length (pb_slots pb)" "ps_base (pb_slots pb ! i) = i * LIBUS_UDP_MAX_SIZE cfg"
    "length (ps_addr (pb_slots pb ! i)) = sizeof_sockaddr_storage cfg"
    using lay i by (auto simp: udp_layout_def)
  from block_write [OF lay i, of 0 "dg_payload d"] d(2) obtain m where
    m: "mem_write (i * LIBUS_UDP_MAX_SIZE cfg) (dg_payload d) (pb_mem pb) = Some m"
      "length m = length (pb_mem pb)" "mem_read (i * LIBUS_UDP_MAX_SIZE cfg) (length (dg_payload d)) m = Some (dg_payload d)"
      "\<And>j. j \<noteq> i \<Longrightarrow> mem_read (j * LIBUS_UDP_MAX_SIZE cfg) (LIBUS_UDP_MAX_SIZE cfg) m
          = mem_read (j * LIBUS_UDP_MAX_SIZE cfg) (LIBUS_UDP_MAX_SIZE cfg) (pb_mem pb)" by auto
  define a where "a = dg_from d @ drop (length (dg_from d)) (ps_addr (pb_slots pb ! i))"
  have a: "memcpy (ps_addr (pb_slots pb ! i)) (dg_from d) (length (dg_from d)) = Some a"
    "length a = sizeof_sockaddr_storage cfg" "take (length (dg_from d)) a = dg_from d"
    using d(3) slots(3) by (simp_all add: memcpy_Some a_def)
  have "udp_layout cfg (pb\<lparr>pb_mem := m, pb_slots := (pb_slots pb)[i := (pb_slots pb ! i)\<lparr>ps_addr := a, ps_len := nat r\<rparr>]\<rparr>)"
    by (rule layout_update) (use lay i m(2) a slots in auto)
  then show thesis
    by (intro that [of "pb\<lparr>pb_mem := m, pb_slots := (pb_slots pb)[i := (pb_slots pb ! i)\<lparr>ps_addr := a\<rparr>]\<rparr>"])
      (use slots m a d in \<open>auto simp: store_packet_def set_len_def holds_packet_def same_slot_def slot_block_def Let_def\<close>)
qed

text \<open>What a receiving loop that starts at slot \<open>i\<close> with \<open>k\<close> rounds promises: the slots it filled hold the
  datagrams in the order of the calls, and it touched no other slot.\<close>

definition delivered ::
  "net \<Rightarrow> udp_config \<Rightarrow> us_internal_udp_packet_buffer \<Rightarrow> trace \<Rightarrow> nat \<Rightarrow> nat
     \<Rightarrow> (int \<times> us_internal_udp_packet_buffer) option \<Rightarrow> trace \<Rightarrow> bool" where
  "delivered net cfg pb tr i k res tr' \<longleftrightarrow> (\<exists>n pb' evs.
      res = Some (int n, pb') \<and> i \<le> n \<and> n \<le> i + k \<and> udp_layout cfg pb' \<and> tr' = tr @ evs \<and>
      (\<forall>j. i \<le> j \<and> j < n \<longrightarrow> holds_packet pb' j (hd (net (tr @ take (Suc (j - i)) evs)))) \<and>
      (\<forall>j. j < i \<or> n \<le> j \<longrightarrow> same_slot cfg pb pb' j))"

lemma delivered_step:
  assumes del: "delivered net cfg qb (tr @ [e]) (Suc i) k res tr'" and lay: "udp_layout cfg qb"
    and i: "i < LIBUS_UDP_MAX_NUM cfg" and hp: "holds_packet qb i (hd (net (tr @ [e])))"
    and len: "length (dg_payload (hd (net (tr @ [e])))) \<le> LIBUS_UDP_MAX_SIZE cfg"
    and same: "\<And>j. j \<noteq> i \<Longrightarrow> same_slot cfg pb qb j"
  shows "delivered net cfg pb tr i (Suc k) res tr'"
proof -
  from del obtain n pb' evs where
    res: "res = Some (int n, pb')" "Suc i \<le> n" "n \<le> Suc i + k" "udp_layout cfg pb'" "tr' = (tr @ [e]) @ evs"
    and got: "\<And>j. Suc i \<le> j \<Longrightarrow> j < n \<Longrightarrow> holds_packet pb' j (hd (net ((tr @ [e]) @ take (Suc (j - Suc i)) evs)))"
    and rest: "\<And>j. j < Suc i \<or> n \<le> j \<Longrightarrow> same_slot cfg qb pb' j"
    unfolding delivered_def by blast
  have "holds_packet pb' i (hd (net (tr @ [e])))"
    by (rule holds_packet_same [OF hp rest lay res(4) i len]) simp
  then have "holds_packet pb' j (hd (net (tr @ take (Suc (j - i)) (e # evs))))" if "i \<le> j" "j < n" for j
    using got [of j] that by (cases "j = i") (auto simp: Suc_diff_Suc)
  moreover have "same_slot cfg pb pb' j" if "j < i \<or> n \<le> j" for j
    using same_slot_trans [OF same rest] that res(2) by auto
  ultimately show ?thesis
    unfolding delivered_def using res by (intro exI [of _ n] exI [of _ pb'] exI [of _ "e # evs"]) auto
qed

lemma recvfrom_loop_delivers:
  assumes posix: "recvfrom_posix os net cfg"
  shows "udp_layout cfg pb \<Longrightarrow> i + k \<le> LIBUS_UDP_MAX_NUM cfg \<Longrightarrow>
    wp (recvfrom_loop os net cfg fd flags i k pb) (delivered net cfg pb tr i k) tr"
proof (induction k arbitrary: i pb tr)
  case 0
  then show ?case by (auto simp: trace_simps delivered_def)
next
  case (Suc k)
  define c where "c = C_recvfrom fd (LIBUS_UDP_MAX_SIZE cfg) flags"
  define r where "r = os_ret os tr c"
  define d where "d = hd (net (tr @ [(c, r)]))"
  show ?case
  proof (cases "r = -1")
    case True
    with Suc.prems show ?thesis by (auto simp: trace_simps r_def c_def delivered_def)
  next
    case False
    with posix have d: "r = int (length (dg_payload d))" "length (dg_payload d) \<le> LIBUS_UDP_MAX_SIZE cfg"
      "length (dg_from d) \<le> sizeof_sockaddr_storage cfg"
      unfolding recvfrom_posix_def d_def r_def c_def Let_def by force+
    have i: "i < LIBUS_UDP_MAX_NUM cfg" using Suc.prems by simp
    from store_packet_ok [OF Suc.prems(1) i d] obtain pb1 where
      pb1: "store_packet i r d pb = Some pb1" and ok: "udp_layout cfg (set_len i r pb1)"
        "holds_packet (set_len i r pb1) i d" "\<And>j. j \<noteq> i \<Longrightarrow> same_slot cfg pb (set_len i r pb1) j"
      by blast
    have "wp (recvfrom_loop os net cfg fd flags (Suc i) k (set_len i r pb1)) (delivered net cfg pb tr i (Suc k)) (tr @ [(c, r)])"
    proof (rule wp_mono)
      show "wp (recvfrom_loop os net cfg fd flags (Suc i) k (set_len i r pb1))
          (delivered net cfg (set_len i r pb1) (tr @ [(c, r)]) (Suc i) k) (tr @ [(c, r)])"
        using Suc.IH [OF ok(1)] Suc.prems by simp
    next
      fix res tr'
      assume "delivered net cfg (set_len i r pb1) (tr @ [(c, r)]) (Suc i) k res tr'"
      then show "delivered net cfg pb tr i (Suc k) res tr'"
        by (rule delivered_step [OF _ ok(1) i _ _ ok(3)])
          (rule ok(2) [unfolded d_def], rule d(2) [unfolded d_def])
    qed
    then show ?thesis
      using False pb1 by (simp add: trace_simps r_def c_def d_def)
  qed
qed

text \<open>C31: on Windows and macOS \<^verbatim>\<open>bsd_recvmmsg\<close> stays inside the buffer and returns how many datagrams it
  received, never -1 and at most \<^verbatim>\<open>LIBUS_UDP_MAX_NUM\<close>; slot \<open>j\<close> then holds payload and sender of the \<open>j\<close>-th datagram
  the system delivered, and the slots behind are untouched.\<close>

theorem recvmmsg_delivers:
  assumes "emulated b" and "recvfrom_posix os net cfg" and "udp_layout cfg pb"
  shows "wp (bsd_recvmmsg b os net cfg fd pb vlen flags) (\<lambda>res tr. \<exists>n pb'.
      res = Some (int n, pb') \<and> n \<le> LIBUS_UDP_MAX_NUM cfg \<and> udp_layout cfg pb' \<and>
      (\<forall>j < n. holds_packet pb' j (hd (net (take (Suc j) tr)))) \<and>
      (\<forall>j \<ge> n. same_slot cfg pb pb' j)) []"
proof -
  have "wp (recvfrom_loop os net cfg fd flags 0 (LIBUS_UDP_MAX_NUM cfg) pb)
      (delivered net cfg pb [] 0 (LIBUS_UDP_MAX_NUM cfg)) []"
    using assms by (intro recvfrom_loop_delivers) auto
  with assms have "wp (bsd_recvmmsg b os net cfg fd pb vlen flags) (delivered net cfg pb [] 0 (LIBUS_UDP_MAX_NUM cfg)) []"
    by (simp add: bsd_recvmmsg_def udp_layout_def)
  then show ?thesis by (rule wp_mono) (auto simp: delivered_def)
qed

text \<open>A system on which the first call delivers one datagram and the second would block.\<close>

definition os_one :: os where
  "os_one = \<lparr>os_ret = (\<lambda>tr c. if tr = [] then 2 else -1), os_addrs = undefined, os_sockaddr = undefined,
     os_errno = (\<lambda>_. 11)\<rparr>"

definition net_one :: net where
  "net_one tr = [\<lparr>dg_payload = [7, 8], dg_from = [1, 2], dg_control = []\<rparr>]"

definition os_one4 :: os where
  "os_one4 = os_one\<lparr>os_ret := (\<lambda>tr c. case c of C_recvfrom _ n _ \<Rightarrow> if tr = [] \<and> 2 \<le> n then 2 else -1 | _ \<Rightarrow> 0)\<rparr>"

theorem recvmmsg_delivers_witness:
  "wp (bsd_recvmmsg windows_build os_one4 net_one cfg2 5 pb2 2 0) (\<lambda>res tr. \<exists>n pb'.
      res = Some (int n, pb') \<and> n \<le> 2 \<and> udp_layout cfg2 pb' \<and>
      (\<forall>j < n. holds_packet pb' j (hd (net_one (take (Suc j) tr))))) []"
proof -
  have "recvfrom_posix os_one4 net_one cfg2"
    by (auto simp: recvfrom_posix_def os_one4_def os_one_def net_one_def cfg2_def Let_def split: if_splits)
  then show ?thesis
    using recvmmsg_delivers [of windows_build os_one4 net_one cfg2 pb2 5 2 0] pb2_layout
    by (auto simp: emulated_def windows_build_def cfg2_def elim!: wp_mono)
qed

section \<open>What the emulated \<^verbatim>\<open>sendmmsg\<close> sends\<close>

text \<open>The number of calls of a history before the first one that failed.\<close>

definition accepted :: "trace \<Rightarrow> nat" where
  "accepted tr = length (takeWhile (\<lambda>e. snd e \<noteq> -1) tr)"

lemma accepted_simps [simp]:
  "accepted [] = 0" "accepted ((c, r) # es) = (if r = -1 then 0 else Suc (accepted es))"
  by (simp_all add: accepted_def)

lemma sendmsg_loop_sends:
  "wp (sendmsg_loop os fd flags i hs) (\<lambda>res tr'. \<exists>evs. tr' = tr @ evs
     \<and> fst res = (if i + accepted evs = 0 \<and> hs \<noteq> [] then -1 else int (i + accepted evs))
     \<and> map fst evs = map (\<lambda>h. C_sendmsg fd (mh_iov h) (mh_name h) flags) (take (Suc (accepted evs)) hs)) tr"
proof (induction hs arbitrary: i tr)
  case (Cons h hs)
  let ?c = "C_sendmsg fd (mh_iov h) (mh_name h) flags"
  show ?case
  proof (cases "os_ret os tr ?c = -1")
    case False
    let ?e = "(?c, os_ret os tr ?c)"
    have "wp (sendmsg_loop os fd flags (Suc i) hs) (\<lambda>res tr'. \<exists>evs. tr' = tr @ evs
      \<and> fst res = int (i + accepted evs) \<and> accepted evs \<noteq> 0
      \<and> map fst evs = map (\<lambda>h. C_sendmsg fd (mh_iov h) (mh_name h) flags) (take (Suc (accepted evs)) (h # hs))) (tr @ [?e])"
      by (rule wp_mono [OF Cons.IH])
        (elim exE, rule_tac x = "?e # evs" in exI, use False in auto)
    with False show ?thesis
      by (auto simp: trace_simps elim!: wp_mono)
  qed (simp add: trace_simps)
qed (simp add: trace_simps)

lemma sendto_loop_sends:
  assumes "\<forall>s \<in> set ss. slot_datagram (sizeof_sockaddr_in cfg) mem s \<noteq> None"
  shows "wp (sendto_loop os cfg fd flags mem i ss) (\<lambda>res tr'. \<exists>evs. tr' = tr @ evs
     \<and> res = Some (int (i + accepted evs))
     \<and> map fst evs = map (\<lambda>s. case the (slot_datagram (sizeof_sockaddr_in cfg) mem s) of
          (payload, name) \<Rightarrow> C_sendto fd payload name flags) (take (Suc (accepted evs)) ss)) tr"
  using assms
proof (induction ss arbitrary: i tr)
  case (Cons s ss)
  then obtain p a where pa: "slot_datagram (sizeof_sockaddr_in cfg) mem s = Some (p, a)" by auto
  let ?e = "(C_sendto fd p a flags, os_ret os tr (C_sendto fd p a flags))"
  show ?case
  proof (cases "snd ?e = -1")
    case True
    with pa show ?thesis by (simp add: trace_simps)
  next
    case False
    have "wp (sendto_loop os cfg fd flags mem (Suc i) ss) (\<lambda>res tr'. \<exists>evs. tr' = tr @ evs
     \<and> res = Some (int (i + accepted evs))
     \<and> map fst evs = map (\<lambda>s. case the (slot_datagram (sizeof_sockaddr_in cfg) mem s) of
          (payload, name) \<Rightarrow> C_sendto fd payload name flags) (take (Suc (accepted evs)) (s # ss))) (tr @ [?e])"
      by (rule wp_mono [OF Cons.IH], use Cons.prems in simp)
        (elim exE, rule_tac x = "?e # evs" in exI, use False pa in auto)
    with False pa show ?thesis by (simp add: trace_simps)
  qed
qed (simp add: trace_simps)

text \<open>On macOS \<^verbatim>\<open>bsd_sendmmsg\<close> sends the first \<^verbatim>\<open>vlen\<close> messages in order and stops at the first failure;
  it returns the number of messages sent, and -1 exactly when the very first message failed.\<close>

theorem sendmmsg_apple_counts:
  assumes "b_apple b" and "vlen \<le> length hs"
  shows "wp (bsd_sendmmsg b os cfg fd (Headers hs) vlen flags) (\<lambda>res tr.
      res = Some (if accepted tr = 0 \<and> vlen \<noteq> 0 then -1 else int (accepted tr))
      \<and> map fst tr = map (\<lambda>h. C_sendmsg fd (mh_iov h) (mh_name h) flags) (take (Suc (accepted tr)) (take vlen hs))) []"
proof -
  have ne: "take vlen hs \<noteq> [] \<longleftrightarrow> vlen \<noteq> 0" using assms(2) by auto
  have "wp (sendmsg_loop os fd flags 0 (take vlen hs)) (\<lambda>res tr.
      fst res = (if accepted tr = 0 \<and> vlen \<noteq> 0 then -1 else int (accepted tr))
      \<and> map fst tr = map (\<lambda>h. C_sendmsg fd (mh_iov h) (mh_name h) flags) (take (Suc (accepted tr)) (take vlen hs))) []"
    by (rule wp_mono [OF sendmsg_loop_sends]) (use ne in auto)
  with assms show ?thesis
    by (auto simp: bsd_sendmmsg_def trace_simps elim!: wp_mono)
qed

definition mac_build :: build where
  "mac_build = windows_build\<lparr>b_win32 := False, b_apple := True\<rparr>"

theorem sendmmsg_apple_counts_witness:
  "wp (bsd_sendmmsg mac_build os_one cfg2 5 (Headers [\<lparr>mh_iov = [7, 8], mh_name = [1], mh_len = 0\<rparr>,
        \<lparr>mh_iov = [9], mh_name = [1], mh_len = 0\<rparr>]) 2 0) (\<lambda>res tr.
      res = Some (if accepted tr = 0 then -1 else int (accepted tr))) []"
  by (rule wp_mono [OF sendmmsg_apple_counts]) (simp_all add: mac_build_def)

text \<open>On Windows \<^verbatim>\<open>bsd_sendmmsg\<close> ignores \<^verbatim>\<open>vlen\<close>: it sends every slot of the buffer, filled or not, until one
  fails, and returns the number sent, which is 0 and not -1 when the first one failed.\<close>

theorem sendmmsg_windows_sends_all:
  assumes "b_win32 b" and "\<not> b_apple b" and "udp_layout cfg pb"
    and "\<forall>s \<in> set (pb_slots pb). slot_datagram (sizeof_sockaddr_in cfg) (pb_mem pb) s \<noteq> None"
  shows "wp (bsd_sendmmsg b os cfg fd (Packets pb) vlen flags) (\<lambda>res tr.
      res = Some (int (accepted tr))
      \<and> map fst tr = map (\<lambda>s. case the (slot_datagram (sizeof_sockaddr_in cfg) (pb_mem pb) s) of
          (payload, name) \<Rightarrow> C_sendto fd payload name flags) (take (Suc (accepted tr)) (pb_slots pb))) []"
proof -
  have "take (LIBUS_UDP_MAX_NUM cfg) (pb_slots pb) = pb_slots pb" "\<not> length (pb_slots pb) < LIBUS_UDP_MAX_NUM cfg"
    using assms(3) by (simp_all add: udp_layout_def)
  then have eq: "bsd_sendmmsg b os cfg fd (Packets pb) vlen flags
      = sendto_loop os cfg fd flags (pb_mem pb) 0 (pb_slots pb)"
    using assms(1,2) by (simp add: bsd_sendmmsg_def)
  show ?thesis unfolding eq
    by (rule wp_mono [OF sendto_loop_sends [OF assms(4)]]) auto
qed

theorem sendmmsg_windows_sends_all_witness:
  "wp (bsd_sendmmsg windows_build \<lparr>os_ret = (\<lambda>_ _. 4), os_addrs = undefined, os_sockaddr = undefined, os_errno = undefined\<rparr>
       cfg2 5 (Packets pb2) 1 0) (\<lambda>res tr. res = Some (int (accepted tr))) []"
  by (rule wp_mono [OF sendmmsg_windows_sends_all])
    (use pb2_layout in \<open>auto simp: windows_build_def pb2_def slot0_def slot_datagram_def mem_read_def cfg2_def\<close>)

section \<open>Control messages\<close>

text \<open>\<^verbatim>\<open>bsd_udp_packet_buffer_ecn\<close> returns a two-bit value whenever it reads inside the control data, and 0 for a
  slot that was filled for sending, whose control length is 0.\<close>

theorem ecn_two_bits:
  "wp (bsd_udp_packet_buffer_ecn b os pb i) (\<lambda>res tr.
     (\<forall>e. res = Some e \<longrightarrow> 0 \<le> e \<and> e < 4)
     \<and> (i < length (pb_slots pb) \<and> msg_controllen (pb_slots pb ! i) = 0 \<longrightarrow> res = Some 0)) tr"
proof -
  have "0 \<le> and (uint (w :: 8 word)) 3 \<and> and (uint w) 3 < 4" for w
    using and_less_eq [of 3 "uint w"] by (simp add: and.commute)
  then show ?thesis
    by (auto simp: bsd_udp_packet_buffer_ecn_def trace_simps cmsgs_def split: option.splits)
qed

theorem ecn_two_bits_witness:
  "wp (bsd_udp_packet_buffer_ecn linux_build os_one \<lparr>pb_slots = [(slot0 0)\<lparr>msg_controllen := 0\<rparr>], pb_mem = []\<rparr> 0)
     (\<lambda>res tr. res = Some 0) []"
  by (rule wp_mono [OF ecn_two_bits]) (simp add: slot0_def)

end
