(* ===== verification/Uv_Errno.thy ===== *)
theory Uv_Errno
  imports Prelude
begin

text \<open>
  The error codes of libuv as its headers define them: \<^verbatim>\<open>usockets/include/uv/errno.h\<close> gives every
  name \<^verbatim>\<open>UV__X\<close> the negated system value when the platform defines \<^verbatim>\<open>X\<close> (never on Windows) and a
  fixed fallback otherwise, with special cases for \<^verbatim>\<open>EHOSTDOWN\<close> and \<^verbatim>\<open>ENODATA\<close>; \<^verbatim>\<open>UV_ERRNO_MAP\<close> of
  \<^verbatim>\<open>usockets/include/uv.h\<close> lists the names with their messages and the enum \<^verbatim>\<open>uv_errno_t\<close> is
  built from it.  What \<^verbatim>\<open><errno.h>\<close> defines is the field \<open>ep_errno\<close> of the platform record.
  The lemmas show that every listed name has a code, that the codes are negative and that no two
  names share one.
\<close>

section \<open>The platform\<close>

record errno_platform =
  ep_win32 :: bool
  ep_bsd :: bool            \<comment> \<open>one of \<^verbatim>\<open>__APPLE__\<close>, \<^verbatim>\<open>__DragonFly__\<close>, \<^verbatim>\<open>__FreeBSD__\<close>, \<^verbatim>\<open>__NetBSD__\<close>, \<^verbatim>\<open>__OpenBSD__\<close>\<close>
  ep_freebsd :: bool
  ep_EDOM :: int
  ep_errno :: "string \<Rightarrow> int option"

definition UV__ERR :: "errno_platform \<Rightarrow> int \<Rightarrow> int" where
  "UV__ERR p x = (if ep_EDOM p > 0 then - x else x)"

text \<open>\<^verbatim>\<open>#if defined(X) && !defined(_WIN32)\<close>: the system value, if it counts.\<close>

definition sys_errno_value :: "errno_platform \<Rightarrow> string \<Rightarrow> int option" where
  "sys_errno_value p name = (if ep_win32 p then None else map_option (UV__ERR p) (ep_errno p name))"

section \<open>The tables\<close>

definition UV__fixed :: "(string \<times> int) list" where
  "UV__fixed = [
    (''EOF'', -4095), (''UNKNOWN'', -4094), (''EAI_ADDRFAMILY'', -3000), (''EAI_AGAIN'', -3001),
    (''EAI_BADFLAGS'', -3002), (''EAI_CANCELED'', -3003), (''EAI_FAIL'', -3004), (''EAI_FAMILY'', -3005),
    (''EAI_MEMORY'', -3006), (''EAI_NODATA'', -3007), (''EAI_NONAME'', -3008), (''EAI_OVERFLOW'', -3009),
    (''EAI_SERVICE'', -3010), (''EAI_SOCKTYPE'', -3011), (''EAI_BADHINTS'', -3013),
    (''EAI_PROTOCOL'', -3014)]"

definition errno_fallback1 :: "(string \<times> int) list" where
  "errno_fallback1 = [
    (''E2BIG'', -4093), (''EACCES'', -4092), (''EADDRINUSE'', -4091), (''EADDRNOTAVAIL'', -4090),
    (''EAFNOSUPPORT'', -4089), (''EAGAIN'', -4088), (''EALREADY'', -4084), (''EBADF'', -4083),
    (''EBUSY'', -4082), (''ECANCELED'', -4081), (''ECHARSET'', -4080), (''ECONNABORTED'', -4079),
    (''ECONNREFUSED'', -4078), (''ECONNRESET'', -4077), (''EDESTADDRREQ'', -4076), (''EEXIST'', -4075),
    (''EFAULT'', -4074)]"

definition errno_fallback2 :: "(string \<times> int) list" where
  "errno_fallback2 = [
    (''EHOSTUNREACH'', -4073), (''EINTR'', -4072), (''EINVAL'', -4071), (''EIO'', -4070),
    (''EISCONN'', -4069), (''EISDIR'', -4068), (''ELOOP'', -4067), (''EMFILE'', -4066),
    (''EMSGSIZE'', -4065), (''ENAMETOOLONG'', -4064), (''ENETDOWN'', -4063), (''ENETUNREACH'', -4062),
    (''ENFILE'', -4061), (''ENOBUFS'', -4060), (''ENODEV'', -4059), (''ENOENT'', -4058), (''ENOMEM'', -4057)]"

definition errno_fallback3 :: "(string \<times> int) list" where
  "errno_fallback3 = [
    (''ENONET'', -4056), (''ENOSPC'', -4055), (''ENOSYS'', -4054), (''ENOTCONN'', -4053),
    (''ENOTDIR'', -4052), (''ENOTEMPTY'', -4051), (''ENOTSOCK'', -4050), (''ENOTSUP'', -4049),
    (''EPERM'', -4048), (''EPIPE'', -4047), (''EPROTO'', -4046), (''EPROTONOSUPPORT'', -4045),
    (''EPROTOTYPE'', -4044), (''EROFS'', -4043), (''ESHUTDOWN'', -4042), (''ESPIPE'', -4041),
    (''ESRCH'', -4040)]"

definition errno_fallback4 :: "(string \<times> int) list" where
  "errno_fallback4 = [
    (''ETIMEDOUT'', -4039), (''ETXTBSY'', -4038), (''EXDEV'', -4037), (''EFBIG'', -4036),
    (''ENOPROTOOPT'', -4035), (''ERANGE'', -4034), (''ENXIO'', -4033), (''EMLINK'', -4032),
    (''EREMOTEIO'', -4030), (''ENOTTY'', -4029), (''EFTYPE'', -4028), (''EILSEQ'', -4027),
    (''EOVERFLOW'', -4026), (''ESOCKTNOSUPPORT'', -4025), (''EUNATCH'', -4023), (''ENOEXEC'', -4022)]"

definition errno_fallback :: "(string \<times> int) list" where
  "errno_fallback = errno_fallback1 @ errno_fallback2 @ errno_fallback3 @ errno_fallback4"

definition UV__EHOSTDOWN :: "errno_platform \<Rightarrow> int" where
  "UV__EHOSTDOWN p = (case sys_errno_value p ''EHOSTDOWN'' of
     Some e \<Rightarrow> e | None \<Rightarrow> if ep_bsd p then -64 else -4031)"

definition UV__ENODATA :: "errno_platform \<Rightarrow> int" where
  "UV__ENODATA p = (case sys_errno_value p ''ENODATA'' of
     Some e \<Rightarrow> e | None \<Rightarrow> if ep_freebsd p then -9919 else -4024)"

text \<open>The macro \<^verbatim>\<open>UV__X\<close> for the name \<^verbatim>\<open>X\<close>.\<close>

definition UV__code :: "errno_platform \<Rightarrow> string \<Rightarrow> int option" where
  "UV__code p name =
     (if name = ''EHOSTDOWN'' then Some (UV__EHOSTDOWN p)
      else if name = ''ENODATA'' then Some (UV__ENODATA p)
      else case map_of UV__fixed name of
        Some c \<Rightarrow> Some c
      | None \<Rightarrow> map_option (\<lambda>d. case sys_errno_value p name of Some e \<Rightarrow> e | None \<Rightarrow> d) (map_of errno_fallback name))"

definition UV_ERRNO_MAP :: "(string \<times> string) list" where
  "UV_ERRNO_MAP = [
    (''E2BIG'', ''argument list too long''), (''EACCES'', ''permission denied''),
    (''EADDRINUSE'', ''address already in use''), (''EADDRNOTAVAIL'', ''address not available''),
    (''EAFNOSUPPORT'', ''address family not supported''),
    (''EAGAIN'', ''resource temporarily unavailable''),
    (''EAI_ADDRFAMILY'', ''address family not supported''), (''EAI_AGAIN'', ''temporary failure''),
    (''EAI_BADFLAGS'', ''bad ai_flags value''), (''EAI_BADHINTS'', ''invalid value for hints''),
    (''EAI_CANCELED'', ''request canceled''), (''EAI_FAIL'', ''permanent failure''),
    (''EAI_FAMILY'', ''ai_family not supported''), (''EAI_MEMORY'', ''out of memory''),
    (''EAI_NODATA'', ''no address''), (''EAI_NONAME'', ''unknown node or service''),
    (''EAI_OVERFLOW'', ''argument buffer overflow''), (''EAI_PROTOCOL'', ''resolved protocol is unknown''),
    (''EAI_SERVICE'', ''service not available for socket type''),
    (''EAI_SOCKTYPE'', ''socket type not supported''), (''EALREADY'', ''connection already in progress''),
    (''EBADF'', ''bad file descriptor''), (''EBUSY'', ''resource busy or locked''),
    (''ECANCELED'', ''operation canceled''), (''ECHARSET'', ''invalid Unicode character''),
    (''ECONNABORTED'', ''software caused connection abort''), (''ECONNREFUSED'', ''connection refused''),
    (''ECONNRESET'', ''connection reset by peer''), (''EDESTADDRREQ'', ''destination address required''),
    (''EEXIST'', ''file already exists''), (''EFAULT'', ''bad address in system call argument''),
    (''EFBIG'', ''file too large''), (''EHOSTUNREACH'', ''host is unreachable''),
    (''EINTR'', ''interrupted system call''), (''EINVAL'', ''invalid argument''), (''EIO'', ''i/o error''),
    (''EISCONN'', ''socket is already connected''), (''EISDIR'', ''illegal operation on a directory''),
    (''ELOOP'', ''too many symbolic links encountered''), (''EMFILE'', ''too many open files''),
    (''EMSGSIZE'', ''message too long''), (''ENAMETOOLONG'', ''name too long''),
    (''ENETDOWN'', ''network is down''), (''ENETUNREACH'', ''network is unreachable''),
    (''ENFILE'', ''file table overflow''), (''ENOBUFS'', ''no buffer space available''),
    (''ENODEV'', ''no such device''), (''ENOENT'', ''no such file or directory''),
    (''ENOMEM'', ''not enough memory''), (''ENONET'', ''machine is not on the network''),
    (''ENOPROTOOPT'', ''protocol not available''), (''ENOSPC'', ''no space left on device''),
    (''ENOSYS'', ''function not implemented''), (''ENOTCONN'', ''socket is not connected''),
    (''ENOTDIR'', ''not a directory''), (''ENOTEMPTY'', ''directory not empty''),
    (''ENOTSOCK'', ''socket operation on non-socket''),
    (''ENOTSUP'', ''operation not supported on socket''),
    (''EOVERFLOW'', ''value too large for defined data type''), (''EPERM'', ''operation not permitted''),
    (''EPIPE'', ''broken pipe''), (''EPROTO'', ''protocol error''),
    (''EPROTONOSUPPORT'', ''protocol not supported''),
    (''EPROTOTYPE'', ''protocol wrong type for socket''), (''ERANGE'', ''result too large''),
    (''EROFS'', ''read-only file system''),
    (''ESHUTDOWN'', ''cannot send after transport endpoint shutdown''), (''ESPIPE'', ''invalid seek''),
    (''ESRCH'', ''no such process''), (''ETIMEDOUT'', ''connection timed out''),
    (''ETXTBSY'', ''text file is busy''), (''EXDEV'', ''cross-device link not permitted''),
    (''UNKNOWN'', ''unknown error''), (''EOF'', ''end of file''),
    (''ENXIO'', ''no such device or address''), (''EMLINK'', ''too many links''),
    (''EHOSTDOWN'', ''host is down''), (''EREMOTEIO'', ''remote I/O error''),
    (''ENOTTY'', ''inappropriate ioctl for device''), (''EFTYPE'', ''inappropriate file type or format''),
    (''EILSEQ'', ''illegal byte sequence''), (''ESOCKTNOSUPPORT'', ''socket type not supported''),
    (''ENODATA'', ''no data available''), (''EUNATCH'', ''protocol driver not attached''),
    (''ENOEXEC'', ''exec format error'')]"

definition UV_ERRNO_MAX :: int where
  "UV_ERRNO_MAX = -4095 - 1"

text \<open>\<^verbatim>\<open>uv_errno_t\<close>: the enumerators in the order of the map.\<close>

definition uv_errno_t :: "errno_platform \<Rightarrow> (string \<times> int option) list" where
  "uv_errno_t p = map (\<lambda>(code, _). (''UV_'' @ code, UV__code p code)) UV_ERRNO_MAP"

section \<open>Facts of the tables\<close>

abbreviation err_names :: "string list" where
  "err_names \<equiv> map fst UV_ERRNO_MAP"

text \<open>Every name with the code it has when the platform defines nothing.\<close>

definition errno_defaults :: "(string \<times> int) list" where
  "errno_defaults = UV__fixed @ errno_fallback @ [(''EHOSTDOWN'', -4031), (''ENODATA'', -4024)]"

lemma defaults_distinct: "distinct (map fst errno_defaults)" and codes_distinct: "distinct (map snd errno_defaults)"
  by code_simp+

lemma defaults_range: "list_all (\<lambda>c. -4095 \<le> c \<and> c \<le> -3000) (map snd errno_defaults)"
  by code_simp

lemma names_distinct: "distinct err_names"
  by code_simp

lemma names_defaults: "list_all (\<lambda>n. n \<in> set (map fst errno_defaults)) err_names"
  by code_simp

lemma defaults_inj: "(n, c) \<in> set errno_defaults \<Longrightarrow> (m, c) \<in> set errno_defaults \<Longrightarrow> n = m"
  using codes_distinct by (metis distinct_map inj_on_eq_iff prod.inject snd_conv)

text \<open>Where a code comes from.\<close>

definition hard_coded :: "errno_platform \<Rightarrow> string \<Rightarrow> int \<Rightarrow> bool" where
  "hard_coded p n c \<longleftrightarrow> (n = ''EHOSTDOWN'' \<and> c = -64 \<and> ep_bsd p) \<or> (n = ''ENODATA'' \<and> c = -9919 \<and> ep_freebsd p)"

lemma UV__code_cases:
  assumes "UV__code p n = Some c"
  obtains (sys) "sys_errno_value p n = Some c" | (default) "(n, c) \<in> set errno_defaults" | (hard) "hard_coded p n c"
proof -
  have sub: "set UV__fixed \<subseteq> set errno_defaults" "set errno_fallback \<subseteq> set errno_defaults"
    "(''EHOSTDOWN'', -4031) \<in> set errno_defaults" "(''ENODATA'', -4024) \<in> set errno_defaults"
    unfolding errno_defaults_def by (simp_all only: set_append list.set) blast+
  consider (h) "n = ''EHOSTDOWN''" | (d) "n = ''ENODATA''" | (o) "n \<noteq> ''EHOSTDOWN''" "n \<noteq> ''ENODATA''" by blast
  then show thesis
  proof cases
    case h
    then have c: "c = UV__EHOSTDOWN p" using assms by (simp add: UV__code_def)
    show thesis
      using c sub(3) sys default hard h unfolding UV__EHOSTDOWN_def hard_coded_def
      by (cases "sys_errno_value p ''EHOSTDOWN''"; cases "ep_bsd p") (simp_all only: option.case if_True if_False simp_thms)
  next
    case d
    then have c: "c = UV__ENODATA p" using assms by (simp add: UV__code_def)
    show thesis
      using c sub(4) sys default hard d unfolding UV__ENODATA_def hard_coded_def
      by (cases "sys_errno_value p ''ENODATA''"; cases "ep_freebsd p") (simp_all only: option.case if_True if_False simp_thms)
  next
    case o
    then have u: "UV__code p n = (case map_of UV__fixed n of Some c \<Rightarrow> Some c
      | None \<Rightarrow> map_option (\<lambda>d. case sys_errno_value p n of Some e \<Rightarrow> e | None \<Rightarrow> d) (map_of errno_fallback n))"
      unfolding UV__code_def by (simp only: if_False)
    show thesis
    proof (cases "map_of UV__fixed n")
      case (Some x)
      then show thesis using u assms sub(1) default map_of_SomeD [of UV__fixed n x] by auto
    next
      case None
      with u assms obtain d where d: "map_of errno_fallback n = Some d"
        and c: "c = (case sys_errno_value p n of Some e \<Rightarrow> e | None \<Rightarrow> d)"
        by (cases "map_of errno_fallback n") auto
      have "(n, d) \<in> set errno_defaults" using map_of_SomeD [OF d] sub(2) by blast
      with c show thesis using default sys by (cases "sys_errno_value p n") auto
    qed
  qed
qed

lemma UV__code_defined: "n \<in> set (map fst errno_defaults) \<Longrightarrow> UV__code p n \<noteq> None"
  by (auto simp: UV__code_def errno_defaults_def image_iff split: option.splits dest: weak_map_of_SomeI)

text \<open>What \<^verbatim>\<open><errno.h>\<close> promises: the values of the listed names have the sign of \<^verbatim>\<open>EDOM\<close>, differ, and stay clear of
  libuv's own band; on the systems for which the header hard-codes a value, no other name has it.\<close>

definition errno_ok :: "errno_platform \<Rightarrow> bool" where
  "errno_ok p \<longleftrightarrow>
     (\<forall>n e. ep_errno p n = Some e \<longrightarrow> UV__ERR p e < 0 \<and> (-3000 < UV__ERR p e \<or> UV__ERR p e < -4095))
     \<and> (\<forall>n m e. n \<in> set err_names \<longrightarrow> m \<in> set err_names \<longrightarrow> ep_errno p n = Some e \<longrightarrow> ep_errno p m = Some e \<longrightarrow> n = m)
     \<and> (\<forall>n m e. ep_errno p n = Some e \<longrightarrow> n \<in> set err_names \<longrightarrow> hard_coded p m (UV__ERR p e) \<longrightarrow> n = m)"

lemma UV__ERR_inj: "UV__ERR p x = UV__ERR p y \<Longrightarrow> x = y"
  by (simp add: UV__ERR_def split: if_splits)

lemma sys_value_D:
  "sys_errno_value p n = Some c \<Longrightarrow> \<exists>e. ep_errno p n = Some e \<and> c = UV__ERR p e"
  by (auto simp: sys_errno_value_def split: if_splits)

lemma default_range: "(n, c) \<in> set errno_defaults \<Longrightarrow> -4095 \<le> c \<and> c \<le> -3000"
  using defaults_range by (auto simp: list_all_iff)

lemma hard_coded_range: "hard_coded p n c \<Longrightarrow> c < 0 \<and> (-3000 < c \<or> c < -4095)"
  by (auto simp: hard_coded_def)

lemma UV__code_neg: "errno_ok p \<Longrightarrow> UV__code p n = Some c \<Longrightarrow> c < 0"
  by (erule UV__code_cases)
    (auto simp: errno_ok_def dest: sys_value_D default_range hard_coded_range)

lemma UV__code_inj:
  assumes ok: "errno_ok p" and n: "n \<in> set err_names" and m: "m \<in> set err_names"
    and cn: "UV__code p n = Some c" and cm: "UV__code p m = Some c"
  shows "n = m"
proof -
  have band: "-3000 < c \<or> c < -4095" if "sys_errno_value p k = Some c" for k
    using ok sys_value_D [OF that] by (auto simp: errno_ok_def)
  have sys: "n' = m'" if "sys_errno_value p n' = Some c" "sys_errno_value p m' = Some c \<or> hard_coded p m' c"
    "n' \<in> set err_names" "m' \<in> set err_names" for n' m'
    using that ok sys_value_D UV__ERR_inj unfolding errno_ok_def by metis
  have hard: "n' = m'" if "hard_coded p n' c" "hard_coded p m' c" for n' m'
    using that by (auto simp: hard_coded_def)
  have src: "(k, c) \<in> set errno_defaults \<or> sys_errno_value p k = Some c \<or> hard_coded p k c" if "UV__code p k = Some c" for k
    using that by (rule UV__code_cases) blast+
  show ?thesis
  proof (cases "-4095 \<le> c \<and> c \<le> -3000")
    case True
    then have "(k, c) \<in> set errno_defaults" if "UV__code p k = Some c" for k
      using src [OF that] band [of k] hard_coded_range [of p k c] by linarith
    then show ?thesis using cn cm defaults_inj by blast
  next
    case False
    then have "sys_errno_value p k = Some c \<or> hard_coded p k c" if "UV__code p k = Some c" for k
      using src [OF that] default_range [of k c] by blast
    then show ?thesis using cn cm sys hard n m by metis
  qed
qed

lemma UV__code_total: "n \<in> set err_names \<Longrightarrow> \<exists>c. UV__code p n = Some c"
proof -
  assume "n \<in> set err_names"
  then have "n \<in> set (map fst errno_defaults)" using names_defaults unfolding list_all_iff by blast
  then show ?thesis using UV__code_defined [of n p] by blast
qed

lemma uv_errno_t_snd: "map snd (uv_errno_t p) = map (UV__code p) err_names"
  by (auto simp: uv_errno_t_def)

lemma uv_errno_t_allI:
  "(\<And>n. n \<in> set err_names \<Longrightarrow> P (UV__code p n)) \<Longrightarrow> list_all (\<lambda>e. P (snd e)) (uv_errno_t p)"
  by (force simp: uv_errno_t_def list_all_iff)

text \<open>The enum \<^verbatim>\<open>uv_errno_t\<close> is well defined on every platform: each name of \<^verbatim>\<open>UV_ERRNO_MAP\<close> has a code, whatever
  the system headers define, and no name is listed twice.\<close>

theorem uv_errno_complete:
  "list_all (\<lambda>e. snd e \<noteq> None) (uv_errno_t p) \<and> distinct (map fst (uv_errno_t p))"
proof
  show "list_all (\<lambda>e. snd e \<noteq> None) (uv_errno_t p)"
    by (rule uv_errno_t_allI [where P = "\<lambda>c. c \<noteq> None"]) (use UV__code_total [of _ p] in blast)
  have "map fst (uv_errno_t p) = map ((@) ''UV_'') err_names"
    by (auto simp: uv_errno_t_def)
  then show "distinct (map fst (uv_errno_t p))"
    using names_distinct by (simp add: distinct_map inj_on_def)
qed

text \<open>On a platform whose \<^verbatim>\<open><errno.h>\<close> keeps its promises all codes of \<^verbatim>\<open>uv_errno_t\<close> are negative and no two names
  share a code, so a negative result identifies its error.\<close>

theorem uv_errno_injective:
  assumes "errno_ok p"
  shows "distinct (map snd (uv_errno_t p)) \<and> list_all (\<lambda>e. \<exists>c. snd e = Some c \<and> c < 0) (uv_errno_t p)"
proof
  have "inj_on (UV__code p) (set err_names)"
    by (rule inj_onI) (metis UV__code_total UV__code_inj [OF assms])
  then show "distinct (map snd (uv_errno_t p))"
    unfolding uv_errno_t_snd distinct_map [of "UV__code p" err_names] using names_distinct by blast
  show "list_all (\<lambda>e. \<exists>c. snd e = Some c \<and> c < 0) (uv_errno_t p)"
    by (rule uv_errno_t_allI [where P = "\<lambda>x. \<exists>c. x = Some c \<and> c < 0"])
      (use UV__code_total [of _ p] UV__code_neg [OF assms] in blast)
qed

text \<open>Some of Linux's values.\<close>

definition linux_errno :: errno_platform where
  "linux_errno = \<lparr>ep_win32 = False, ep_bsd = False, ep_freebsd = False, ep_EDOM = 33,
     ep_errno = map_of [(''EPERM'', 1), (''ENOENT'', 2), (''EINTR'', 4), (''EAGAIN'', 11), (''EACCES'', 13),
       (''EADDRINUSE'', 98), (''ECONNRESET'', 104), (''EHOSTDOWN'', 112)]\<rparr>"

theorem uv_errno_injective_witness:
  "errno_ok linux_errno \<and> distinct (map snd (uv_errno_t linux_errno))"
proof -
  have "errno_ok linux_errno"
    by (auto simp: errno_ok_def linux_errno_def UV__ERR_def hard_coded_def split: if_splits)
  then show ?thesis using uv_errno_injective by blast
qed

text \<open>On Windows the system's own \<^verbatim>\<open>errno\<close> values are never used: every code is libuv's default, between
  \<^verbatim>\<open>UV_ERRNO_MAX\<close> and 0, and the codes do not depend on what the headers define.\<close>

theorem uv_errno_windows:
  assumes "ep_win32 p" and "\<not> ep_bsd p" and "\<not> ep_freebsd p"
  shows "map snd (uv_errno_t p) = map (map_of errno_defaults) err_names
    \<and> list_all (\<lambda>e. \<exists>c. snd e = Some c \<and> UV_ERRNO_MAX < c \<and> c < 0) (uv_errno_t p)"
proof -
  have sys: "sys_errno_value p n = None" for n using assms(1) by (simp add: sys_errno_value_def)
  have code: "UV__code p n = map_of errno_defaults n" if n: "n \<in> set err_names" for n
  proof -
    from UV__code_total [OF n] obtain c where c: "UV__code p n = Some c" ..
    then have "(n, c) \<in> set errno_defaults"
      by (rule UV__code_cases) (use sys assms in \<open>auto simp: hard_coded_def\<close>)
    with c defaults_distinct show ?thesis by simp
  qed
  have "\<exists>c. UV__code p n = Some c \<and> UV_ERRNO_MAX < c \<and> c < 0" if n: "n \<in> set err_names" for n
  proof -
    from UV__code_total [OF n] obtain c where c: "UV__code p n = Some c" ..
    then have "(n, c) \<in> set errno_defaults" using code [OF n] map_of_SomeD by metis
    then show ?thesis using c default_range by (fastforce simp: UV_ERRNO_MAX_def)
  qed
  moreover have "map snd (uv_errno_t p) = map (map_of errno_defaults) err_names"
    unfolding uv_errno_t_snd using code by (intro map_cong) auto
  ultimately show ?thesis
    using uv_errno_t_allI [where P = "\<lambda>x. \<exists>c. x = Some c \<and> UV_ERRNO_MAX < c \<and> c < 0"] by blast
qed

theorem uv_errno_windows_witness:
  "map snd (uv_errno_t (linux_errno\<lparr>ep_win32 := True\<rparr>)) = map (map_of errno_defaults) err_names"
  using uv_errno_windows [of "linux_errno\<lparr>ep_win32 := True\<rparr>"] by (simp add: linux_errno_def)

end
