(* ===== verification/Uv_Tree.thy ===== *)
theory Uv_Tree
  imports Prelude "HOL-Library.Monad_Syntax"
begin

text \<open>
  The red-black tree of \<^verbatim>\<open>usockets/include/uv/tree.h\<close>, the pointer structure the macros
  \<^verbatim>\<open>RB_GENERATE\<close> and its companions generate.  A node is a cell of a heap with the four fields of
  \<^verbatim>\<open>RB_ENTRY\<close>; \<^verbatim>\<open>NULL\<close> is \<open>None\<close>, and reading or writing a field through \<^verbatim>\<open>NULL\<close> or through an address that is
  not allocated is undefined, the value \<open>None\<close> of the operation.  A loop that does not end has the
  value \<open>None\<close> too, so that a theorem that gives \<open>Some\<close> shows that the loop ends.  The comparison
  function is a parameter; \<^verbatim>\<open>RB_AUGMENT\<close> is the empty statement, as the header defines it.

  The lemmas read the heap as a tree with the node addresses at its nodes and a position in it as a
  context and a subtree (\<open>focus\<close>); each pointer operation moves or rebuilds that focus.
\<close>

section \<open>Nodes and their fields\<close>

datatype rb_color = RB_BLACK | RB_RED

type_synonym rb_ptr = "nat option"

record rb_entry =
  rbe_left :: rb_ptr
  rbe_right :: rb_ptr
  rbe_parent :: rb_ptr
  rbe_color :: rb_color

record rb_state =
  rb_nodes :: "nat \<Rightarrow> rb_entry option"
  rbh_root :: rb_ptr

definition RB_INIT :: "rb_state \<Rightarrow> rb_state" where
  "RB_INIT s = s\<lparr>rbh_root := None\<rparr>"

definition rb_cell :: "rb_ptr \<Rightarrow> rb_state \<Rightarrow> rb_entry option" where
  "rb_cell p s = Option.bind p (rb_nodes s)"

definition rb_write :: "rb_ptr \<Rightarrow> (rb_entry \<Rightarrow> rb_entry) \<Rightarrow> rb_state \<Rightarrow> rb_state option" where
  "rb_write p f s = do {
     a \<leftarrow> p;
     n \<leftarrow> rb_nodes s a;
     Some (s\<lparr>rb_nodes := (rb_nodes s)(a \<mapsto> f n)\<rparr>) }"

definition RB_LEFT :: "rb_ptr \<Rightarrow> rb_state \<Rightarrow> rb_ptr option" where
  "RB_LEFT p s = map_option rbe_left (rb_cell p s)"

definition RB_RIGHT :: "rb_ptr \<Rightarrow> rb_state \<Rightarrow> rb_ptr option" where
  "RB_RIGHT p s = map_option rbe_right (rb_cell p s)"

definition RB_PARENT :: "rb_ptr \<Rightarrow> rb_state \<Rightarrow> rb_ptr option" where
  "RB_PARENT p s = map_option rbe_parent (rb_cell p s)"

definition RB_COLOR :: "rb_ptr \<Rightarrow> rb_state \<Rightarrow> rb_color option" where
  "RB_COLOR p s = map_option rbe_color (rb_cell p s)"

definition set_left :: "rb_ptr \<Rightarrow> rb_ptr \<Rightarrow> rb_state \<Rightarrow> rb_state option" where
  "set_left p v = rb_write p (\<lambda>n. n\<lparr>rbe_left := v\<rparr>)"

definition set_right :: "rb_ptr \<Rightarrow> rb_ptr \<Rightarrow> rb_state \<Rightarrow> rb_state option" where
  "set_right p v = rb_write p (\<lambda>n. n\<lparr>rbe_right := v\<rparr>)"

definition set_parent :: "rb_ptr \<Rightarrow> rb_ptr \<Rightarrow> rb_state \<Rightarrow> rb_state option" where
  "set_parent p v = rb_write p (\<lambda>n. n\<lparr>rbe_parent := v\<rparr>)"

definition set_color :: "rb_ptr \<Rightarrow> rb_color \<Rightarrow> rb_state \<Rightarrow> rb_state option" where
  "set_color p v = rb_write p (\<lambda>n. n\<lparr>rbe_color := v\<rparr>)"

definition RB_SET :: "rb_ptr \<Rightarrow> rb_ptr \<Rightarrow> rb_state \<Rightarrow> rb_state option" where
  "RB_SET elm parent s = do {
     s \<leftarrow> set_parent elm parent s;
     s \<leftarrow> set_right elm None s;
     s \<leftarrow> set_left elm None s;
     set_color elm RB_RED s }"

definition RB_SET_BLACKRED :: "rb_ptr \<Rightarrow> rb_ptr \<Rightarrow> rb_state \<Rightarrow> rb_state option" where
  "RB_SET_BLACKRED black red s = do { s \<leftarrow> set_color black RB_BLACK s; set_color red RB_RED s }"

section \<open>Rotations\<close>

text \<open>Replacing the child \<open>elm\<close> of its parent by \<open>tmp\<close>, or the root.\<close>

definition rb_relink :: "rb_ptr \<Rightarrow> rb_ptr \<Rightarrow> rb_ptr \<Rightarrow> rb_state \<Rightarrow> rb_state option" where
  "rb_relink parent elm tmp s =
     (if parent \<noteq> None then do {
        l \<leftarrow> RB_LEFT parent s;
        if elm = l then set_left parent tmp s else set_right parent tmp s }
      else Some (s\<lparr>rbh_root := tmp\<rparr>))"

definition RB_ROTATE_LEFT :: "rb_ptr \<Rightarrow> rb_state \<Rightarrow> rb_state option" where
  "RB_ROTATE_LEFT elm s = do {
     tmp \<leftarrow> RB_RIGHT elm s;
     l \<leftarrow> RB_LEFT tmp s;
     s \<leftarrow> set_right elm l s;
     s \<leftarrow> (if l \<noteq> None then do { l \<leftarrow> RB_LEFT tmp s; set_parent l elm s } else Some s);
     p \<leftarrow> RB_PARENT elm s;
     s \<leftarrow> set_parent tmp p s;
     p \<leftarrow> RB_PARENT elm s;
     s \<leftarrow> rb_relink p elm tmp s;
     s \<leftarrow> set_left tmp elm s;
     set_parent elm tmp s }"

definition RB_ROTATE_RIGHT :: "rb_ptr \<Rightarrow> rb_state \<Rightarrow> rb_state option" where
  "RB_ROTATE_RIGHT elm s = do {
     tmp \<leftarrow> RB_LEFT elm s;
     r \<leftarrow> RB_RIGHT tmp s;
     s \<leftarrow> set_left elm r s;
     s \<leftarrow> (if r \<noteq> None then do { r \<leftarrow> RB_RIGHT tmp s; set_parent r elm s } else Some s);
     p \<leftarrow> RB_PARENT elm s;
     s \<leftarrow> set_parent tmp p s;
     p \<leftarrow> RB_PARENT elm s;
     s \<leftarrow> rb_relink p elm tmp s;
     s \<leftarrow> set_right tmp elm s;
     set_parent elm tmp s }"

section \<open>Insertion\<close>

definition is_red :: "rb_ptr \<Rightarrow> rb_state \<Rightarrow> bool option" where
  "is_red p s = (if p = None then Some False else do { c \<leftarrow> RB_COLOR p s; Some (c = RB_RED) })"

text \<open>The body of the loop of \<^verbatim>\<open>RB_INSERT_COLOR\<close> for a red parent: the next \<open>elm\<close> and the state.\<close>

definition rb_insert_step :: "rb_ptr \<Rightarrow> rb_ptr \<Rightarrow> rb_state \<Rightarrow> (rb_ptr \<times> rb_state) option" where
  "rb_insert_step elm parent s = do {
     gparent \<leftarrow> RB_PARENT parent s;
     gl \<leftarrow> RB_LEFT gparent s;
     if parent = gl then do {
       tmp \<leftarrow> RB_RIGHT gparent s;
       red \<leftarrow> is_red tmp s;
       if red then do {
         s \<leftarrow> set_color tmp RB_BLACK s;
         s \<leftarrow> RB_SET_BLACKRED parent gparent s;
         Some (gparent, s) }
       else do {
         pr \<leftarrow> RB_RIGHT parent s;
         if pr = elm then do {
           s \<leftarrow> RB_ROTATE_LEFT parent s;
           s \<leftarrow> RB_SET_BLACKRED elm gparent s;
           s \<leftarrow> RB_ROTATE_RIGHT gparent s;
           Some (parent, s) }
         else do {
           s \<leftarrow> RB_SET_BLACKRED parent gparent s;
           s \<leftarrow> RB_ROTATE_RIGHT gparent s;
           Some (elm, s) } } }
     else do {
       tmp \<leftarrow> RB_LEFT gparent s;
       red \<leftarrow> is_red tmp s;
       if red then do {
         s \<leftarrow> set_color tmp RB_BLACK s;
         s \<leftarrow> RB_SET_BLACKRED parent gparent s;
         Some (gparent, s) }
       else do {
         pl \<leftarrow> RB_LEFT parent s;
         if pl = elm then do {
           s \<leftarrow> RB_ROTATE_RIGHT parent s;
           s \<leftarrow> RB_SET_BLACKRED elm gparent s;
           s \<leftarrow> RB_ROTATE_LEFT gparent s;
           Some (parent, s) }
         else do {
           s \<leftarrow> RB_SET_BLACKRED parent gparent s;
           s \<leftarrow> RB_ROTATE_LEFT gparent s;
           Some (elm, s) } } } }"

partial_function (option) rb_insert_loop :: "rb_ptr \<Rightarrow> rb_state \<Rightarrow> rb_state option" where
  "rb_insert_loop elm s = do {
     parent \<leftarrow> RB_PARENT elm s;
     red \<leftarrow> is_red parent s;
     if red then Option.bind (rb_insert_step elm parent s) (\<lambda>(elm, s). rb_insert_loop elm s)
     else Some s }"

definition RB_INSERT_COLOR :: "rb_ptr \<Rightarrow> rb_state \<Rightarrow> rb_state option" where
  "RB_INSERT_COLOR elm s = do {
     s \<leftarrow> rb_insert_loop elm s;
     set_color (rbh_root s) RB_BLACK s }"

text \<open>The descent of \<^verbatim>\<open>RB_INSERT\<close>: an equal node, or the last parent and comparison.\<close>

partial_function (option) rb_insert_descend ::
  "(nat \<Rightarrow> nat \<Rightarrow> int) \<Rightarrow> nat \<Rightarrow> rb_ptr \<Rightarrow> rb_ptr \<Rightarrow> int \<Rightarrow> rb_state \<Rightarrow> (nat + rb_ptr \<times> int) option" where
  "rb_insert_descend cmp elm tmp parent last_cmp s =
     (case tmp of
        None \<Rightarrow> Some (Inr (parent, last_cmp))
      | Some t \<Rightarrow>
          (if cmp elm t < 0
           then do { l \<leftarrow> RB_LEFT tmp s; rb_insert_descend cmp elm l tmp (cmp elm t) s }
           else if cmp elm t > 0
           then do { r \<leftarrow> RB_RIGHT tmp s; rb_insert_descend cmp elm r tmp (cmp elm t) s }
           else Some (Inl t)))"

definition RB_INSERT :: "(nat \<Rightarrow> nat \<Rightarrow> int) \<Rightarrow> nat \<Rightarrow> rb_state \<Rightarrow> (rb_ptr \<times> rb_state) option" where
  "RB_INSERT cmp elm s = do {
     d \<leftarrow> rb_insert_descend cmp elm (rbh_root s) None 0 s;
     case d of
       Inl t \<Rightarrow> Some (Some t, s)
     | Inr (parent, last_cmp) \<Rightarrow> do {
         s \<leftarrow> RB_SET (Some elm) parent s;
         s \<leftarrow> (if parent \<noteq> None
                then (if last_cmp < 0 then set_left parent (Some elm) s else set_right parent (Some elm) s)
                else Some (s\<lparr>rbh_root := Some elm\<rparr>));
         s \<leftarrow> RB_INSERT_COLOR (Some elm) s;
         Some (None, s) } }"

section \<open>Searching\<close>

partial_function (option) rb_find_loop :: "(nat \<Rightarrow> nat \<Rightarrow> int) \<Rightarrow> nat \<Rightarrow> rb_ptr \<Rightarrow> rb_state \<Rightarrow> rb_ptr option" where
  "rb_find_loop cmp elm tmp s =
     (case tmp of
        None \<Rightarrow> Some None
      | Some t \<Rightarrow>
          (if cmp elm t < 0 then do { l \<leftarrow> RB_LEFT tmp s; rb_find_loop cmp elm l s }
           else if cmp elm t > 0 then do { r \<leftarrow> RB_RIGHT tmp s; rb_find_loop cmp elm r s }
           else Some tmp))"

definition RB_FIND :: "(nat \<Rightarrow> nat \<Rightarrow> int) \<Rightarrow> nat \<Rightarrow> rb_state \<Rightarrow> rb_ptr option" where
  "RB_FIND cmp elm s = rb_find_loop cmp elm (rbh_root s) s"

partial_function (option) rb_nfind_loop ::
  "(nat \<Rightarrow> nat \<Rightarrow> int) \<Rightarrow> nat \<Rightarrow> rb_ptr \<Rightarrow> rb_ptr \<Rightarrow> rb_state \<Rightarrow> rb_ptr option" where
  "rb_nfind_loop cmp elm tmp res s =
     (case tmp of
        None \<Rightarrow> Some res
      | Some t \<Rightarrow>
          (if cmp elm t < 0 then do { l \<leftarrow> RB_LEFT tmp s; rb_nfind_loop cmp elm l tmp s }
           else if cmp elm t > 0 then do { r \<leftarrow> RB_RIGHT tmp s; rb_nfind_loop cmp elm r res s }
           else Some tmp))"

definition RB_NFIND :: "(nat \<Rightarrow> nat \<Rightarrow> int) \<Rightarrow> nat \<Rightarrow> rb_state \<Rightarrow> rb_ptr option" where
  "RB_NFIND cmp elm s = rb_nfind_loop cmp elm (rbh_root s) None s"

partial_function (option) rb_minmax_loop :: "int \<Rightarrow> rb_ptr \<Rightarrow> rb_ptr \<Rightarrow> rb_state \<Rightarrow> rb_ptr option" where
  "rb_minmax_loop val tmp parent s =
     (if tmp = None then Some parent
      else do {
        next \<leftarrow> (if val < 0 then RB_LEFT tmp s else RB_RIGHT tmp s);
        rb_minmax_loop val next tmp s })"

definition RB_MINMAX :: "int \<Rightarrow> rb_state \<Rightarrow> rb_ptr option" where
  "RB_MINMAX val s = rb_minmax_loop val (rbh_root s) None s"

definition RB_MIN :: "rb_state \<Rightarrow> rb_ptr option" where
  "RB_MIN s = RB_MINMAX (-1) s"

definition RB_MAX :: "rb_state \<Rightarrow> rb_ptr option" where
  "RB_MAX s = RB_MINMAX 1 s"

text \<open>\<^verbatim>\<open>while (RB_LEFT(elm)) elm = RB_LEFT(elm)\<close>, its mirror image, and the climbs of \<^verbatim>\<open>RB_NEXT\<close> and \<^verbatim>\<open>RB_PREV\<close>.\<close>

partial_function (option) rb_leftmost :: "rb_ptr \<Rightarrow> rb_state \<Rightarrow> rb_ptr option" where
  "rb_leftmost elm s = do { l \<leftarrow> RB_LEFT elm s; if l \<noteq> None then rb_leftmost l s else Some elm }"

partial_function (option) rb_rightmost :: "rb_ptr \<Rightarrow> rb_state \<Rightarrow> rb_ptr option" where
  "rb_rightmost elm s = do { r \<leftarrow> RB_RIGHT elm s; if r \<noteq> None then rb_rightmost r s else Some elm }"

partial_function (option) rb_climb_right :: "rb_ptr \<Rightarrow> rb_state \<Rightarrow> rb_ptr option" where
  "rb_climb_right elm s = do {
     p \<leftarrow> RB_PARENT elm s;
     if p = None then Some elm
     else do { r \<leftarrow> RB_RIGHT p s; if elm = r then rb_climb_right p s else Some elm } }"

partial_function (option) rb_climb_left :: "rb_ptr \<Rightarrow> rb_state \<Rightarrow> rb_ptr option" where
  "rb_climb_left elm s = do {
     p \<leftarrow> RB_PARENT elm s;
     if p = None then Some elm
     else do { l \<leftarrow> RB_LEFT p s; if elm = l then rb_climb_left p s else Some elm } }"

definition RB_NEXT :: "rb_ptr \<Rightarrow> rb_state \<Rightarrow> rb_ptr option" where
  "RB_NEXT elm s = do {
     r \<leftarrow> RB_RIGHT elm s;
     if r \<noteq> None then rb_leftmost r s
     else do {
       p \<leftarrow> RB_PARENT elm s;
       left \<leftarrow> (if p = None then Some False else do { l \<leftarrow> RB_LEFT p s; Some (elm = l) });
       if left then Some p
       else do { e \<leftarrow> rb_climb_right elm s; RB_PARENT e s } } }"

definition RB_PREV :: "rb_ptr \<Rightarrow> rb_state \<Rightarrow> rb_ptr option" where
  "RB_PREV elm s = do {
     l \<leftarrow> RB_LEFT elm s;
     if l \<noteq> None then rb_rightmost l s
     else do {
       p \<leftarrow> RB_PARENT elm s;
       right \<leftarrow> (if p = None then Some False else do { r \<leftarrow> RB_RIGHT p s; Some (elm = r) });
       if right then Some p
       else do { e \<leftarrow> rb_climb_left elm s; RB_PARENT e s } } }"

text \<open>The nodes \<^verbatim>\<open>RB_FOREACH\<close> and \<^verbatim>\<open>RB_FOREACH_REVERSE\<close> visit.\<close>

partial_function (option) rb_foreach_from :: "rb_ptr \<Rightarrow> rb_state \<Rightarrow> nat list option" where
  "rb_foreach_from x s =
     (case x of
        None \<Rightarrow> Some []
      | Some a \<Rightarrow> do { y \<leftarrow> RB_NEXT x s; as \<leftarrow> rb_foreach_from y s; Some (a # as) })"

definition RB_FOREACH :: "rb_state \<Rightarrow> nat list option" where
  "RB_FOREACH s = do { x \<leftarrow> RB_MIN s; rb_foreach_from x s }"

partial_function (option) rb_foreach_back :: "rb_ptr \<Rightarrow> rb_state \<Rightarrow> nat list option" where
  "rb_foreach_back x s =
     (case x of
        None \<Rightarrow> Some []
      | Some a \<Rightarrow> do { y \<leftarrow> RB_PREV x s; as \<leftarrow> rb_foreach_back y s; Some (a # as) })"

definition RB_FOREACH_REVERSE :: "rb_state \<Rightarrow> nat list option" where
  "RB_FOREACH_REVERSE s = do { x \<leftarrow> RB_MAX s; rb_foreach_back x s }"

section \<open>Removal\<close>

text \<open>The body of the loop of \<^verbatim>\<open>RB_REMOVE_COLOR\<close> when \<open>elm\<close> is the left child, and when it is the right one, in three
  parts: the last rotation, the part once the sibling is black, and the whole.  \<open>Inl (parent, elm)\<close> goes round
  again, \<open>Inr elm\<close> leaves the loop.\<close>

definition rb_remove_end_left :: "rb_ptr \<Rightarrow> rb_ptr \<Rightarrow> rb_state \<Rightarrow> ((rb_ptr \<times> rb_ptr + rb_ptr) \<times> rb_state) option" where
  "rb_remove_end_left parent tmp s = do {
     pc \<leftarrow> RB_COLOR parent s;
     s \<leftarrow> set_color tmp pc s;
     s \<leftarrow> set_color parent RB_BLACK s;
     r \<leftarrow> RB_RIGHT tmp s;
     s \<leftarrow> (if r \<noteq> None then set_color r RB_BLACK s else Some s);
     s \<leftarrow> RB_ROTATE_LEFT parent s;
     Some (Inr (rbh_root s), s) }"

definition rb_remove_black_left :: "rb_ptr \<Rightarrow> rb_ptr \<Rightarrow> rb_state \<Rightarrow> ((rb_ptr \<times> rb_ptr + rb_ptr) \<times> rb_state) option" where
  "rb_remove_black_left parent tmp s = do {
     l \<leftarrow> RB_LEFT tmp s;
     lred \<leftarrow> is_red l s;
     r \<leftarrow> RB_RIGHT tmp s;
     rred \<leftarrow> is_red r s;
     if \<not> lred \<and> \<not> rred then do {
       s \<leftarrow> set_color tmp RB_RED s;
       p \<leftarrow> RB_PARENT parent s;
       Some (Inl (p, parent), s) }
     else if \<not> rred then do {
       oleft \<leftarrow> RB_LEFT tmp s;
       s \<leftarrow> (if oleft \<noteq> None then set_color oleft RB_BLACK s else Some s);
       s \<leftarrow> set_color tmp RB_RED s;
       s \<leftarrow> RB_ROTATE_RIGHT tmp s;
       tmp \<leftarrow> RB_RIGHT parent s;
       rb_remove_end_left parent tmp s }
     else rb_remove_end_left parent tmp s }"

definition rb_remove_step_left :: "rb_ptr \<Rightarrow> rb_state \<Rightarrow> ((rb_ptr \<times> rb_ptr + rb_ptr) \<times> rb_state) option" where
  "rb_remove_step_left parent s = do {
     tmp \<leftarrow> RB_RIGHT parent s;
     c \<leftarrow> RB_COLOR tmp s;
     if c = RB_RED then do {
       s \<leftarrow> RB_SET_BLACKRED tmp parent s;
       s \<leftarrow> RB_ROTATE_LEFT parent s;
       tmp \<leftarrow> RB_RIGHT parent s;
       rb_remove_black_left parent tmp s }
     else rb_remove_black_left parent tmp s }"

definition rb_remove_end_right :: "rb_ptr \<Rightarrow> rb_ptr \<Rightarrow> rb_state \<Rightarrow> ((rb_ptr \<times> rb_ptr + rb_ptr) \<times> rb_state) option" where
  "rb_remove_end_right parent tmp s = do {
     pc \<leftarrow> RB_COLOR parent s;
     s \<leftarrow> set_color tmp pc s;
     s \<leftarrow> set_color parent RB_BLACK s;
     l \<leftarrow> RB_LEFT tmp s;
     s \<leftarrow> (if l \<noteq> None then set_color l RB_BLACK s else Some s);
     s \<leftarrow> RB_ROTATE_RIGHT parent s;
     Some (Inr (rbh_root s), s) }"

definition rb_remove_black_right :: "rb_ptr \<Rightarrow> rb_ptr \<Rightarrow> rb_state \<Rightarrow> ((rb_ptr \<times> rb_ptr + rb_ptr) \<times> rb_state) option" where
  "rb_remove_black_right parent tmp s = do {
     l \<leftarrow> RB_LEFT tmp s;
     lred \<leftarrow> is_red l s;
     r \<leftarrow> RB_RIGHT tmp s;
     rred \<leftarrow> is_red r s;
     if \<not> lred \<and> \<not> rred then do {
       s \<leftarrow> set_color tmp RB_RED s;
       p \<leftarrow> RB_PARENT parent s;
       Some (Inl (p, parent), s) }
     else if \<not> lred then do {
       oright \<leftarrow> RB_RIGHT tmp s;
       s \<leftarrow> (if oright \<noteq> None then set_color oright RB_BLACK s else Some s);
       s \<leftarrow> set_color tmp RB_RED s;
       s \<leftarrow> RB_ROTATE_LEFT tmp s;
       tmp \<leftarrow> RB_LEFT parent s;
       rb_remove_end_right parent tmp s }
     else rb_remove_end_right parent tmp s }"

definition rb_remove_step_right :: "rb_ptr \<Rightarrow> rb_state \<Rightarrow> ((rb_ptr \<times> rb_ptr + rb_ptr) \<times> rb_state) option" where
  "rb_remove_step_right parent s = do {
     tmp \<leftarrow> RB_LEFT parent s;
     c \<leftarrow> RB_COLOR tmp s;
     if c = RB_RED then do {
       s \<leftarrow> RB_SET_BLACKRED tmp parent s;
       s \<leftarrow> RB_ROTATE_RIGHT parent s;
       tmp \<leftarrow> RB_LEFT parent s;
       rb_remove_black_right parent tmp s }
     else rb_remove_black_right parent tmp s }"

partial_function (option) rb_remove_loop :: "rb_ptr \<Rightarrow> rb_ptr \<Rightarrow> rb_state \<Rightarrow> (rb_ptr \<times> rb_state) option" where
  "rb_remove_loop parent elm s = do {
     red \<leftarrow> is_red elm s;
     if \<not> red \<and> elm \<noteq> rbh_root s then do {
       l \<leftarrow> RB_LEFT parent s;
       (next, s) \<leftarrow> (if l = elm then rb_remove_step_left parent s else rb_remove_step_right parent s);
       case next of
         Inl (parent, elm) \<Rightarrow> rb_remove_loop parent elm s
       | Inr elm \<Rightarrow> Some (elm, s) }
     else Some (elm, s) }"

definition RB_REMOVE_COLOR :: "rb_ptr \<Rightarrow> rb_ptr \<Rightarrow> rb_state \<Rightarrow> rb_state option" where
  "RB_REMOVE_COLOR parent elm s = do {
     (elm, s) \<leftarrow> rb_remove_loop parent elm s;
     if elm \<noteq> None then set_color elm RB_BLACK s else Some s }"

text \<open>Unlinking \<open>elm\<close>: its only child takes its place below \<open>parent\<close>.\<close>

definition rb_unlink :: "rb_ptr \<Rightarrow> rb_ptr \<Rightarrow> rb_ptr \<Rightarrow> rb_state \<Rightarrow> rb_state option" where
  "rb_unlink elm child parent s = do {
     s \<leftarrow> (if child \<noteq> None then set_parent child parent s else Some s);
     rb_relink parent elm child s }"

text \<open>\<open>elm\<close> takes over the fields and the neighbours of \<open>old\<close>.\<close>

definition rb_replace :: "rb_ptr \<Rightarrow> rb_ptr \<Rightarrow> rb_state \<Rightarrow> rb_state option" where
  "rb_replace old elm s = do {
     n \<leftarrow> rb_cell old s;
     s \<leftarrow> rb_write elm (\<lambda>_. n) s;
     p \<leftarrow> RB_PARENT old s;
     s \<leftarrow> rb_relink p old elm s;
     l \<leftarrow> RB_LEFT old s;
     s \<leftarrow> set_parent l elm s;
     r \<leftarrow> RB_RIGHT old s;
     if r \<noteq> None then set_parent r elm s else Some s }"

text \<open>The loop that calls \<^verbatim>\<open>RB_AUGMENT\<close>, which is empty, for a node and all nodes above it.\<close>

partial_function (option) rb_walk_up :: "rb_ptr \<Rightarrow> rb_state \<Rightarrow> unit option" where
  "rb_walk_up left s = do {
     left \<leftarrow> RB_PARENT left s;
     if left \<noteq> None then rb_walk_up left s else Some () }"

text \<open>The branch of \<^verbatim>\<open>RB_REMOVE\<close> for a node with two children: its successor takes its place.  The result is the
  position and colour at which the colouring has to be repaired.\<close>

definition rb_remove_two :: "rb_ptr \<Rightarrow> rb_state \<Rightarrow> (rb_ptr \<times> rb_ptr \<times> rb_color \<times> rb_state) option" where
  "rb_remove_two old s = do {
     r \<leftarrow> RB_RIGHT old s;
     elm \<leftarrow> rb_leftmost r s;
     child \<leftarrow> RB_RIGHT elm s;
     parent \<leftarrow> RB_PARENT elm s;
     color \<leftarrow> RB_COLOR elm s;
     s \<leftarrow> rb_unlink elm child parent s;
     p \<leftarrow> RB_PARENT elm s;
     s \<leftarrow> rb_replace old elm s;
     parent \<leftarrow> Some (if p = old then elm else parent);
     _ \<leftarrow> (if parent \<noteq> None then rb_walk_up parent s else Some ());
     Some (parent, child, color, s) }"

definition rb_remove_one :: "rb_ptr \<Rightarrow> rb_ptr \<Rightarrow> rb_state \<Rightarrow> (rb_ptr \<times> rb_ptr \<times> rb_color \<times> rb_state) option" where
  "rb_remove_one elm child s = do {
     parent \<leftarrow> RB_PARENT elm s;
     color \<leftarrow> RB_COLOR elm s;
     s \<leftarrow> rb_unlink elm child parent s;
     Some (parent, child, color, s) }"

definition RB_REMOVE :: "rb_ptr \<Rightarrow> rb_state \<Rightarrow> (rb_ptr \<times> rb_state) option" where
  "RB_REMOVE elm s = do {
     l \<leftarrow> RB_LEFT elm s;
     r \<leftarrow> RB_RIGHT elm s;
     (parent, child, color, s) \<leftarrow>
       (if l = None then rb_remove_one elm r s
        else if r = None then rb_remove_one elm l s
        else rb_remove_two elm s);
     s \<leftarrow> (if color = RB_BLACK then RB_REMOVE_COLOR parent child s else Some s);
     Some (elm, s) }"

section \<open>Reading the heap as a tree\<close>

datatype atree = Tip | Nd atree nat rb_color atree

fun root_of :: "atree \<Rightarrow> rb_ptr" where
  "root_of Tip = None"
| "root_of (Nd l a c r) = Some a"

fun addrs :: "atree \<Rightarrow> nat list" where
  "addrs Tip = []"
| "addrs (Nd l a c r) = addrs l @ a # addrs r"

fun rep :: "(nat \<Rightarrow> rb_entry option) \<Rightarrow> rb_ptr \<Rightarrow> atree \<Rightarrow> bool" where
  "rep h p Tip = True"
| "rep h p (Nd l a c r) =
     (h a = Some \<lparr>rbe_left = root_of l, rbe_right = root_of r, rbe_parent = p, rbe_color = c\<rparr>
      \<and> rep h (Some a) l \<and> rep h (Some a) r)"

text \<open>A step of the path from a subtree to the root: the subtree is the left or the right child.\<close>

datatype frame = FL nat rb_color atree | FR atree nat rb_color

type_synonym rb_ctx = "frame list"

fun fill :: "frame \<Rightarrow> atree \<Rightarrow> atree" where
  "fill (FL a c r) t = Nd t a c r"
| "fill (FR l a c) t = Nd l a c t"

fun plug :: "rb_ctx \<Rightarrow> atree \<Rightarrow> atree" where
  "plug [] t = t"
| "plug (f # C) t = plug C (fill f t)"

fun frame_addr :: "frame \<Rightarrow> nat" where
  "frame_addr (FL a c r) = a"
| "frame_addr (FR l a c) = a"

fun frame_color :: "frame \<Rightarrow> rb_color" where
  "frame_color (FL a c r) = c"
| "frame_color (FR l a c) = c"

fun ctx_parent :: "rb_ctx \<Rightarrow> rb_ptr" where
  "ctx_parent [] = None"
| "ctx_parent (f # C) = Some (frame_addr f)"

fun ctx_left :: "rb_ctx \<Rightarrow> nat list" where
  "ctx_left [] = []"
| "ctx_left (FL a c r # C) = ctx_left C"
| "ctx_left (FR l a c # C) = ctx_left C @ addrs l @ [a]"

fun ctx_right :: "rb_ctx \<Rightarrow> nat list" where
  "ctx_right [] = []"
| "ctx_right (FL a c r # C) = a # addrs r @ ctx_right C"
| "ctx_right (FR l a c # C) = ctx_right C"

fun rep_ctx :: "(nat \<Rightarrow> rb_entry option) \<Rightarrow> rb_ctx \<Rightarrow> rb_ptr \<Rightarrow> bool" where
  "rep_ctx h [] q = True"
| "rep_ctx h (FL a c r # C) q =
     (h a = Some \<lparr>rbe_left = q, rbe_right = root_of r, rbe_parent = ctx_parent C, rbe_color = c\<rparr>
      \<and> rep h (Some a) r \<and> rep_ctx h C (Some a))"
| "rep_ctx h (FR l a c # C) q =
     (h a = Some \<lparr>rbe_left = root_of l, rbe_right = q, rbe_parent = ctx_parent C, rbe_color = c\<rparr>
      \<and> rep h (Some a) l \<and> rep_ctx h C (Some a))"

abbreviation ctx_addrs :: "rb_ctx \<Rightarrow> nat list" where
  "ctx_addrs C \<equiv> ctx_left C @ ctx_right C"

lemma addrs_plug: "addrs (plug C t) = ctx_left C @ addrs t @ ctx_right C"
  by (induction C t rule: plug.induct; simp) (case_tac f; simp)

definition rb_tree :: "rb_state \<Rightarrow> atree \<Rightarrow> bool" where
  "rb_tree s t \<longleftrightarrow> rbh_root s = root_of t \<and> rep (rb_nodes s) None t \<and> distinct (addrs t)"

text \<open>The state holds the tree that \<open>C\<close> and \<open>t\<close> make up; the attention is on \<open>t\<close>.\<close>

definition focus :: "rb_state \<Rightarrow> rb_ctx \<Rightarrow> atree \<Rightarrow> bool" where
  "focus s C t \<longleftrightarrow> rbh_root s = root_of (plug C t) \<and> rep (rb_nodes s) (ctx_parent C) t
     \<and> rep_ctx (rb_nodes s) C (root_of t) \<and> distinct (ctx_left C @ addrs t @ ctx_right C)"

lemma focus_top: "focus s [] t = rb_tree s t"
  by (simp add: focus_def rb_tree_def)

lemma focus_fill: "focus s C (fill f t) = focus s (f # C) t"
  by (cases f) (auto simp: focus_def)

lemma focus_FL: "focus s (FL a c r # C) t = focus s C (Nd t a c r)"
  using focus_fill [of s C "FL a c r" t] by simp

lemma focus_FR: "focus s (FR l a c # C) t = focus s C (Nd l a c t)"
  using focus_fill [of s C "FR l a c" t] by simp

lemma focus_plug: "focus s C t = rb_tree s (plug C t)"
  by (induction C arbitrary: t) (simp_all add: focus_top focus_fill [symmetric])

section \<open>Frames of the heap\<close>

lemma rep_upd [simp]: "a \<notin> set (addrs t) \<Longrightarrow> rep (h(a := v)) p t = rep h p t"
  by (induction t arbitrary: p) auto

lemma rep_ctx_upd [simp]: "a \<notin> set (ctx_addrs C) \<Longrightarrow> rep_ctx (h(a := v)) C q = rep_ctx h C q"
  by (induction h C q rule: rep_ctx.induct) auto

lemma root_of_in: "root_of t = Some a \<Longrightarrow> a \<in> set (addrs t)"
  by (cases t) auto

lemma root_of_None [simp]: "root_of t = None \<longleftrightarrow> t = Tip"
  by (cases t) auto

lemma root_of_plug: "root_of (plug C t) = (if C = [] then root_of t else Some (frame_addr (last C)))"
proof (induction C arbitrary: t)
  case (Cons f C)
  then show ?case by (cases f) auto
qed simp

lemma frame_in_ctx: "f \<in> set C \<Longrightarrow> frame_addr f \<in> set (ctx_addrs C)"
proof (induction C)
  case (Cons g C)
  then show ?case by (cases g) auto
qed simp

section \<open>Fields of the focused node and of its parent\<close>

lemma rb_write_at [heap_simps]:
  "rb_nodes s a = Some n \<Longrightarrow> rb_write (Some a) f s = Some (s\<lparr>rb_nodes := (rb_nodes s)(a \<mapsto> f n)\<rparr>)"
  by (simp add: rb_write_def)

lemma rb_cell_at [heap_simps]: "rb_cell (Some a) s = rb_nodes s a"
  by (simp add: rb_cell_def)

lemmas rb_fields = RB_LEFT_def RB_RIGHT_def RB_PARENT_def RB_COLOR_def
lemmas rb_setters = set_left_def set_right_def set_parent_def set_color_def

lemma focus_cell:
  "focus s C (Nd l a c r) \<Longrightarrow> rb_nodes s a
     = Some \<lparr>rbe_left = root_of l, rbe_right = root_of r, rbe_parent = ctx_parent C, rbe_color = c\<rparr>"
  by (simp add: focus_def)

lemma focus_fields [heap_simps]:
  assumes "focus s C (Nd l a c r)"
  shows "RB_LEFT (Some a) s = Some (root_of l)" "RB_RIGHT (Some a) s = Some (root_of r)"
    "RB_PARENT (Some a) s = Some (ctx_parent C)" "RB_COLOR (Some a) s = Some c"
    "is_red (Some a) s = Some (c = RB_RED)"
  using focus_cell [OF assms] by (simp_all add: rb_fields rb_cell_def is_red_def)

lemma is_red_None [simp]: "is_red None s = Some False"
  by (simp add: is_red_def)

lemma focus_set_color:
  assumes "focus s C (Nd l a c r)"
  obtains s' where "set_color (Some a) c' s = Some s'" and "focus s' C (Nd l a c' r)"
proof -
  let ?n = "\<lparr>rbe_left = root_of l, rbe_right = root_of r, rbe_parent = ctx_parent C, rbe_color = c'\<rparr>"
  have "set_color (Some a) c' s = Some (s\<lparr>rb_nodes := (rb_nodes s)(a \<mapsto> ?n)\<rparr>)"
    using focus_cell [OF assms] by (simp add: set_color_def rb_write_def)
  moreover have "focus (s\<lparr>rb_nodes := (rb_nodes s)(a \<mapsto> ?n)\<rparr>) C (Nd l a c' r)"
    using assms by (auto simp: focus_def root_of_plug)
  ultimately show thesis by (rule that)
qed

section \<open>Rotations rebuild the focus\<close>

lemma rep_cong: "(\<And>a. a \<in> set (addrs t) \<Longrightarrow> h' a = h a) \<Longrightarrow> rep h' p t = rep h p t"
  by (induction t arbitrary: p) auto

lemma rep_ctx_cong: "(\<And>a. a \<in> set (ctx_addrs C) \<Longrightarrow> h' a = h a) \<Longrightarrow> rep_ctx h' C q = rep_ctx h C q"
  by (induction h' C q rule: rep_ctx.induct) (auto cong: rep_cong)

text \<open>Replacing the subtree below a context by another one changes one cell of the context, or the root.\<close>

lemma rb_relink_ctx:
  assumes "rep_ctx (rb_nodes s) C (Some x)" and "distinct (ctx_addrs C)" and "x \<notin> set (ctx_addrs C)"
  obtains s' where "rb_relink (ctx_parent C) (Some x) q s = Some s'" and "rep_ctx (rb_nodes s') C q"
    and "rbh_root s' = (if C = [] then q else rbh_root s)"
    and "\<And>a. a \<notin> set (ctx_addrs C) \<Longrightarrow> rb_nodes s' a = rb_nodes s a"
proof (cases C)
  case Nil
  then show thesis by (intro that [of "s\<lparr>rbh_root := q\<rparr>"]) (auto simp: rb_relink_def)
next
  case (Cons f D)
  show thesis
  proof (cases f)
    case (FL p c r)
    let ?n = "\<lparr>rbe_left = q, rbe_right = root_of r, rbe_parent = ctx_parent D, rbe_color = c\<rparr>"
    show thesis
      by (rule that [of "s\<lparr>rb_nodes := (rb_nodes s)(p \<mapsto> ?n)\<rparr>"])
        (use assms Cons FL in \<open>auto simp: rb_relink_def rb_fields rb_setters rb_cell_def rb_write_def\<close>)
  next
    case (FR l p c)
    then have "root_of l \<noteq> Some x" using assms Cons root_of_in by fastforce
    let ?n = "\<lparr>rbe_left = root_of l, rbe_right = q, rbe_parent = ctx_parent D, rbe_color = c\<rparr>"
    show thesis
      by (rule that [of "s\<lparr>rb_nodes := (rb_nodes s)(p \<mapsto> ?n)\<rparr>"])
        (use assms Cons FR \<open>root_of l \<noteq> Some x\<close> in \<open>auto simp: rb_relink_def rb_fields rb_setters rb_cell_def rb_write_def\<close>)
  qed
qed

text \<open>Moving a subtree below another parent.\<close>

lemma rb_reparent:
  assumes "rep (rb_nodes s) p t" and "distinct (addrs t)"
  obtains s' where "(if root_of t \<noteq> None then set_parent (root_of t) q s else Some s) = Some s'"
    and "rep (rb_nodes s') q t" and "rbh_root s' = rbh_root s"
    and "\<And>a. a \<notin> set (addrs t) \<Longrightarrow> rb_nodes s' a = rb_nodes s a"
proof (cases t)
  case Tip
  then show thesis by (intro that [of s]) auto
next
  case (Nd l a c r)
  let ?n = "\<lparr>rbe_left = root_of l, rbe_right = root_of r, rbe_parent = q, rbe_color = c\<rparr>"
  show thesis
    by (rule that [of "s\<lparr>rb_nodes := (rb_nodes s)(a \<mapsto> ?n)\<rparr>"])
      (use assms Nd in \<open>auto simp: rb_setters rb_write_def\<close>)
qed

lemma focus_rotate_left:
  assumes foc: "focus s C (Nd a x cx (Nd b y cy c))"
  obtains s' where "RB_ROTATE_LEFT (Some x) s = Some s'" and "focus s' C (Nd (Nd a x cx b) y cy c)"
proof -
  have nodes: "rb_nodes s x = Some \<lparr>rbe_left = root_of a, rbe_right = Some y, rbe_parent = ctx_parent C, rbe_color = cx\<rparr>"
    "rb_nodes s y = Some \<lparr>rbe_left = root_of b, rbe_right = root_of c, rbe_parent = Some x, rbe_color = cy\<rparr>"
    and reps: "rep (rb_nodes s) (Some x) a" "rep (rb_nodes s) (Some y) b" "rep (rb_nodes s) (Some y) c"
    "rep_ctx (rb_nodes s) C (Some x)" "rbh_root s = root_of (plug C (Nd a x cx (Nd b y cy c)))"
    and dist: "distinct (ctx_left C @ (addrs a @ x # addrs b @ y # addrs c) @ ctx_right C)"
    using foc by (auto simp: focus_def)
  define s1 where "s1 = s\<lparr>rb_nodes := (rb_nodes s)(x \<mapsto> \<lparr>rbe_left = root_of a, rbe_right = root_of b,
     rbe_parent = ctx_parent C, rbe_color = cx\<rparr>)\<rparr>"
  have "rep (rb_nodes s1) (Some y) b" using reps dist by (simp add: s1_def)
  from rb_reparent [OF this, of "Some x"] dist obtain s2 where
    s2: "(if root_of b \<noteq> None then set_parent (root_of b) (Some x) s1 else Some s1) = Some s2"
      "rep (rb_nodes s2) (Some x) b" "rbh_root s2 = rbh_root s"
      "\<And>q. q \<notin> set (addrs b) \<Longrightarrow> rb_nodes s2 q = rb_nodes s1 q"
    by (auto simp: s1_def)
  define s3 where "s3 = s2\<lparr>rb_nodes := (rb_nodes s2)(y \<mapsto> \<lparr>rbe_left = root_of b, rbe_right = root_of c,
     rbe_parent = ctx_parent C, rbe_color = cy\<rparr>)\<rparr>"
  have out3: "rb_nodes s3 q = rb_nodes s q" if "q \<notin> set (addrs b)" "q \<noteq> x" "q \<noteq> y" for q
    using that s2(4) by (simp add: s3_def s1_def)
  have "rep_ctx (rb_nodes s3) C (Some x)"
    using reps(4) by (subst rep_ctx_cong [of C _ "rb_nodes s"]) (use dist in \<open>auto intro!: out3\<close>)
  moreover have "distinct (ctx_addrs C)" "x \<notin> set (ctx_addrs C)" using dist by auto
  ultimately obtain s4 where
    s4: "rb_relink (ctx_parent C) (Some x) (Some y) s3 = Some s4" "rep_ctx (rb_nodes s4) C (Some y)"
      "rbh_root s4 = (if C = [] then Some y else rbh_root s3)"
      "\<And>q. q \<notin> set (ctx_addrs C) \<Longrightarrow> rb_nodes s4 q = rb_nodes s3 q"
    by (rule rb_relink_ctx [where q = "Some y"]) blast
  define s5 where "s5 = s4\<lparr>rb_nodes := (rb_nodes s4)(
      y \<mapsto> \<lparr>rbe_left = Some x, rbe_right = root_of c, rbe_parent = ctx_parent C, rbe_color = cy\<rparr>,
      x \<mapsto> \<lparr>rbe_left = root_of a, rbe_right = root_of b, rbe_parent = Some y, rbe_color = cx\<rparr>)\<rparr>"
  have x: "x \<notin> set (ctx_addrs C)" "y \<notin> set (ctx_addrs C)" "x \<noteq> y" "x \<notin> set (addrs b)" "y \<notin> set (addrs b)"
    using dist by auto
  have at: "rb_nodes s1 y = rb_nodes s y" "rb_nodes s2 x = rb_nodes s1 x" "rb_nodes s2 y = rb_nodes s y"
    "rb_nodes s3 x = rb_nodes s1 x" "rb_nodes s4 x = rb_nodes s1 x" "rb_nodes s4 y = rb_nodes s3 y"
    using x s2(4) s4(4) by (auto simp: s1_def s3_def)
  have e1: "RB_RIGHT (Some x) s = Some (Some y)" "RB_LEFT (Some y) s = Some (root_of b)"
    "set_right (Some x) (root_of b) s = Some s1" "RB_LEFT (Some y) s1 = Some (root_of b)"
    using nodes x(3) by (simp_all add: rb_fields rb_setters rb_cell_def rb_write_def s1_def)
  have e2: "(if root_of b \<noteq> None then do { l \<leftarrow> RB_LEFT (Some y) s1; set_parent l (Some x) s1 } else Some s1) = Some s2"
    using s2(1) by (simp only: e1 bind.bind_lunit)
  have e3: "RB_PARENT (Some x) s2 = Some (ctx_parent C)" "set_parent (Some y) (ctx_parent C) s2 = Some s3"
    "RB_PARENT (Some x) s3 = Some (ctx_parent C)"
    using nodes at x(3) by (simp_all add: rb_fields rb_setters rb_cell_def rb_write_def s3_def s1_def)
  have e4: "do { s \<leftarrow> set_left (Some y) (Some x) s4; set_parent (Some x) (Some y) s } = Some s5"
    using at x(3) by (simp add: rb_setters rb_write_def s5_def s1_def s3_def)
  have run: "RB_ROTATE_LEFT (Some x) s = Some s5"
    by (simp only: RB_ROTATE_LEFT_def e1 e2 s2(1) e3 e4 s4(1) bind.bind_lunit)
  have out5: "rb_nodes s5 q = rb_nodes s q" if "q \<in> set (addrs a) \<union> set (addrs c)" for q
  proof -
    have "q \<notin> set (addrs b)" "q \<noteq> x" "q \<noteq> y" "q \<notin> set (ctx_addrs C)" using that dist by auto
    with out3 [of q] s4(4) [of q] show ?thesis by (simp add: s5_def)
  qed
  have outb: "rb_nodes s5 q = rb_nodes s2 q" if "q \<in> set (addrs b)" for q
  proof -
    have "q \<noteq> x" "q \<noteq> y" "q \<notin> set (ctx_addrs C)" using that dist by auto
    with s4(4) [of q] show ?thesis by (simp add: s5_def s3_def)
  qed
  have "rep (rb_nodes s5) (Some x) a" "rep (rb_nodes s5) (Some x) b" "rep (rb_nodes s5) (Some y) c"
    using reps s2(2) out5 outb rep_cong [of a "rb_nodes s5" "rb_nodes s"]
      rep_cong [of b "rb_nodes s5" "rb_nodes s2"] rep_cong [of c "rb_nodes s5" "rb_nodes s"] by auto
  moreover have "rep_ctx (rb_nodes s5) C (Some y)"
    using s4(2) x by (simp add: s5_def)
  moreover have "rbh_root s5 = root_of (plug C (Nd (Nd a x cx b) y cy c))"
    using reps(5) s4(3) s2(3) by (simp add: s5_def s3_def root_of_plug)
  ultimately have "focus s5 C (Nd (Nd a x cx b) y cy c)"
    using dist x(3) by (simp add: focus_def s5_def)
  with run show thesis by (rule that)
qed

lemma focus_rotate_right:
  assumes foc: "focus s C (Nd (Nd a y cy b) x cx c)"
  obtains s' where "RB_ROTATE_RIGHT (Some x) s = Some s'" and "focus s' C (Nd a y cy (Nd b x cx c))"
proof -
  have nodes: "rb_nodes s x = Some \<lparr>rbe_left = Some y, rbe_right = root_of c, rbe_parent = ctx_parent C, rbe_color = cx\<rparr>"
    "rb_nodes s y = Some \<lparr>rbe_left = root_of a, rbe_right = root_of b, rbe_parent = Some x, rbe_color = cy\<rparr>"
    and reps: "rep (rb_nodes s) (Some y) a" "rep (rb_nodes s) (Some y) b" "rep (rb_nodes s) (Some x) c"
    "rep_ctx (rb_nodes s) C (Some x)" "rbh_root s = root_of (plug C (Nd (Nd a y cy b) x cx c))"
    and dist: "distinct (ctx_left C @ ((addrs a @ y # addrs b) @ x # addrs c) @ ctx_right C)"
    using foc by (auto simp: focus_def)
  define s1 where "s1 = s\<lparr>rb_nodes := (rb_nodes s)(x \<mapsto> \<lparr>rbe_left = root_of b, rbe_right = root_of c,
     rbe_parent = ctx_parent C, rbe_color = cx\<rparr>)\<rparr>"
  have "rep (rb_nodes s1) (Some y) b" using reps dist by (simp add: s1_def)
  from rb_reparent [OF this, of "Some x"] dist obtain s2 where
    s2: "(if root_of b \<noteq> None then set_parent (root_of b) (Some x) s1 else Some s1) = Some s2"
      "rep (rb_nodes s2) (Some x) b" "rbh_root s2 = rbh_root s"
      "\<And>q. q \<notin> set (addrs b) \<Longrightarrow> rb_nodes s2 q = rb_nodes s1 q"
    by (auto simp: s1_def)
  define s3 where "s3 = s2\<lparr>rb_nodes := (rb_nodes s2)(y \<mapsto> \<lparr>rbe_left = root_of a, rbe_right = root_of b,
     rbe_parent = ctx_parent C, rbe_color = cy\<rparr>)\<rparr>"
  have out3: "rb_nodes s3 q = rb_nodes s q" if "q \<notin> set (addrs b)" "q \<noteq> x" "q \<noteq> y" for q
    using that s2(4) by (simp add: s3_def s1_def)
  have "rep_ctx (rb_nodes s3) C (Some x)"
    using reps(4) by (subst rep_ctx_cong [of C _ "rb_nodes s"]) (use dist in \<open>auto intro!: out3\<close>)
  moreover have "distinct (ctx_addrs C)" "x \<notin> set (ctx_addrs C)" using dist by auto
  ultimately obtain s4 where
    s4: "rb_relink (ctx_parent C) (Some x) (Some y) s3 = Some s4" "rep_ctx (rb_nodes s4) C (Some y)"
      "rbh_root s4 = (if C = [] then Some y else rbh_root s3)"
      "\<And>q. q \<notin> set (ctx_addrs C) \<Longrightarrow> rb_nodes s4 q = rb_nodes s3 q"
    by (rule rb_relink_ctx [where q = "Some y"]) blast
  define s5 where "s5 = s4\<lparr>rb_nodes := (rb_nodes s4)(
      y \<mapsto> \<lparr>rbe_left = root_of a, rbe_right = Some x, rbe_parent = ctx_parent C, rbe_color = cy\<rparr>,
      x \<mapsto> \<lparr>rbe_left = root_of b, rbe_right = root_of c, rbe_parent = Some y, rbe_color = cx\<rparr>)\<rparr>"
  have x: "x \<notin> set (ctx_addrs C)" "y \<notin> set (ctx_addrs C)" "x \<noteq> y" "x \<notin> set (addrs b)" "y \<notin> set (addrs b)"
    using dist by auto
  have at: "rb_nodes s1 y = rb_nodes s y" "rb_nodes s2 x = rb_nodes s1 x" "rb_nodes s2 y = rb_nodes s y"
    "rb_nodes s3 x = rb_nodes s1 x" "rb_nodes s4 x = rb_nodes s1 x" "rb_nodes s4 y = rb_nodes s3 y"
    using x s2(4) s4(4) by (auto simp: s1_def s3_def)
  have e1: "RB_LEFT (Some x) s = Some (Some y)" "RB_RIGHT (Some y) s = Some (root_of b)"
    "set_left (Some x) (root_of b) s = Some s1" "RB_RIGHT (Some y) s1 = Some (root_of b)"
    using nodes x(3) by (simp_all add: rb_fields rb_setters rb_cell_def rb_write_def s1_def)
  have e2: "(if root_of b \<noteq> None then do { l \<leftarrow> RB_RIGHT (Some y) s1; set_parent l (Some x) s1 } else Some s1) = Some s2"
    using s2(1) by (simp only: e1 bind.bind_lunit)
  have e3: "RB_PARENT (Some x) s2 = Some (ctx_parent C)" "set_parent (Some y) (ctx_parent C) s2 = Some s3"
    "RB_PARENT (Some x) s3 = Some (ctx_parent C)"
    using nodes at x(3) by (simp_all add: rb_fields rb_setters rb_cell_def rb_write_def s3_def s1_def)
  have e4: "do { s \<leftarrow> set_right (Some y) (Some x) s4; set_parent (Some x) (Some y) s } = Some s5"
    using at x(3) by (simp add: rb_setters rb_write_def s5_def s1_def s3_def)
  have run: "RB_ROTATE_RIGHT (Some x) s = Some s5"
    by (simp only: RB_ROTATE_RIGHT_def e1 e2 s2(1) e3 e4 s4(1) bind.bind_lunit)
  have out5: "rb_nodes s5 q = rb_nodes s q" if "q \<in> set (addrs a) \<union> set (addrs c)" for q
  proof -
    have "q \<notin> set (addrs b)" "q \<noteq> x" "q \<noteq> y" "q \<notin> set (ctx_addrs C)" using that dist by auto
    with out3 [of q] s4(4) [of q] show ?thesis by (simp add: s5_def)
  qed
  have outb: "rb_nodes s5 q = rb_nodes s2 q" if "q \<in> set (addrs b)" for q
  proof -
    have "q \<noteq> x" "q \<noteq> y" "q \<notin> set (ctx_addrs C)" using that dist by auto
    with s4(4) [of q] show ?thesis by (simp add: s5_def s3_def)
  qed
  have "rep (rb_nodes s5) (Some y) a" "rep (rb_nodes s5) (Some x) b" "rep (rb_nodes s5) (Some x) c"
    using reps s2(2) out5 outb rep_cong [of a "rb_nodes s5" "rb_nodes s"]
      rep_cong [of b "rb_nodes s5" "rb_nodes s2"] rep_cong [of c "rb_nodes s5" "rb_nodes s"] by auto
  moreover have "rep_ctx (rb_nodes s5) C (Some y)"
    using s4(2) x by (simp add: s5_def)
  moreover have "rbh_root s5 = root_of (plug C (Nd a y cy (Nd b x cx c)))"
    using reps(5) s4(3) s2(3) by (simp add: s5_def s3_def root_of_plug)
  ultimately have "focus s5 C (Nd a y cy (Nd b x cx c))"
    using dist x(3) by (simp add: focus_def s5_def)
  with run show thesis by (rule that)
qed


section \<open>Searching\<close>

text \<open>The comparison function compares keys.\<close>

definition cmp_by :: "(nat \<Rightarrow> nat \<Rightarrow> int) \<Rightarrow> (nat \<Rightarrow> 'k::linorder) \<Rightarrow> bool" where
  "cmp_by cmp key \<longleftrightarrow> (\<forall>a b. (cmp a b < 0 \<longleftrightarrow> key a < key b) \<and> (cmp a b > 0 \<longleftrightarrow> key b < key a))"

definition search_tree :: "(nat \<Rightarrow> 'k::linorder) \<Rightarrow> atree \<Rightarrow> bool" where
  "search_tree key t \<longleftrightarrow> sorted_wrt (<) (map key (addrs t))"

lemma search_tree_Nd:
  "search_tree key (Nd l a c r) \<longleftrightarrow> search_tree key l \<and> search_tree key r
     \<and> (\<forall>b \<in> set (addrs l). key b < key a) \<and> (\<forall>b \<in> set (addrs r). key a < key b)"
  by (auto simp: search_tree_def sorted_wrt_append) (metis less_trans)

lemma rep_children:
  assumes "rep (rb_nodes s) p (Nd l a c r)"
  shows "RB_LEFT (Some a) s = Some (root_of l)" "RB_RIGHT (Some a) s = Some (root_of r)"
    "RB_PARENT (Some a) s = Some p" "RB_COLOR (Some a) s = Some c"
  using assms by (simp_all add: rb_fields rb_cell_def)

lemma rb_find_loop:
  assumes "cmp_by cmp key"
  shows "rep (rb_nodes s) p t \<Longrightarrow> search_tree key t \<Longrightarrow>
    rb_find_loop cmp e (root_of t) s = Some (List.find (\<lambda>a. key a = key e) (addrs t))"
proof (induction t arbitrary: p)
  case Tip
  then show ?case by (simp add: rb_find_loop.simps)
next
  case (Nd l a c r)
  have cmp: "cmp e a < 0 \<longleftrightarrow> key e < key a" "cmp e a > 0 \<longleftrightarrow> key a < key e" for a
    using assms by (auto simp: cmp_by_def)
  from Nd.prems(2) have st: "search_tree key l" "search_tree key r"
    "\<And>b. b \<in> set (addrs l) \<Longrightarrow> key b < key a" "\<And>b. b \<in> set (addrs r) \<Longrightarrow> key a < key b"
    by (auto simp: search_tree_Nd)
  have notl: "List.find (\<lambda>x. key x = key e) (addrs l) = None" if "key a \<le> key e"
    using st(3) that by (intro find_none) fastforce
  have notr: "List.find (\<lambda>x. key x = key e) (addrs r) = None" if "key e \<le> key a"
    using st(4) that by (intro find_none) fastforce
  show ?case
    using Nd.prems rep_children [OF Nd.prems(1)] Nd.IH(1) [of "Some a"] Nd.IH(2) [of "Some a"] st(1,2) notl notr
    by (subst rb_find_loop.simps) (auto simp: cmp find_append split: option.splits)
qed

text \<open>A tree of two nodes and a third allocated node, compared by their addresses.\<close>

definition cmp_addr :: "nat \<Rightarrow> nat \<Rightarrow> int" where
  "cmp_addr a b = int a - int b"

definition demo_tree :: atree where
  "demo_tree = Nd Tip 2 RB_BLACK (Nd Tip 5 RB_RED Tip)"

definition demo_state :: rb_state where
  "demo_state = \<lparr>rb_nodes = [2 \<mapsto> \<lparr>rbe_left = None, rbe_right = Some 5, rbe_parent = None, rbe_color = RB_BLACK\<rparr>,
     5 \<mapsto> \<lparr>rbe_left = None, rbe_right = None, rbe_parent = Some 2, rbe_color = RB_RED\<rparr>,
     7 \<mapsto> \<lparr>rbe_left = None, rbe_right = None, rbe_parent = None, rbe_color = RB_BLACK\<rparr>], rbh_root = Some 2\<rparr>"

lemma demo_ok: "cmp_by cmp_addr id" "rb_tree demo_state demo_tree" "search_tree id demo_tree"
  by (auto simp: cmp_by_def cmp_addr_def rb_tree_def demo_state_def demo_tree_def search_tree_def)

text \<open>\<^verbatim>\<open>RB_FIND\<close> on a tree ordered by the comparison function ends and returns the node of the tree with
  the key of \<open>elm\<close>, and \<^verbatim>\<open>NULL\<close> when there is none.\<close>

theorem rb_find_correct:
  assumes "cmp_by cmp key" and "rb_tree s t" and "search_tree key t"
  shows "RB_FIND cmp e s = Some (List.find (\<lambda>a. key a = key e) (addrs t))"
  using assms rb_find_loop [of cmp key s None t e] by (simp add: RB_FIND_def rb_tree_def)

theorem rb_find_correct_witness: "RB_FIND cmp_addr 5 demo_state = Some (Some 5)"
  using rb_find_correct [OF demo_ok, of 5] by (simp add: demo_tree_def)

lemma rb_nfind_loop:
  assumes "cmp_by cmp key"
  shows "rep (rb_nodes s) p t \<Longrightarrow> search_tree key t \<Longrightarrow>
    rb_nfind_loop cmp e (root_of t) res s =
      Some (case List.find (\<lambda>a. key e \<le> key a) (addrs t) of None \<Rightarrow> res | Some a \<Rightarrow> Some a)"
proof (induction t arbitrary: p res)
  case Tip
  then show ?case by (simp add: rb_nfind_loop.simps)
next
  case (Nd l a c r)
  have cmp: "cmp e a < 0 \<longleftrightarrow> key e < key a" "cmp e a > 0 \<longleftrightarrow> key a < key e" for a
    using assms by (auto simp: cmp_by_def)
  from Nd.prems(2) have st: "search_tree key l" "search_tree key r"
    "\<And>b. b \<in> set (addrs l) \<Longrightarrow> key b < key a" by (auto simp: search_tree_Nd)
  have notl: "List.find (\<lambda>x. key e \<le> key x) (addrs l) = None" if "key a \<le> key e"
    using st(3) that by (intro find_none) fastforce
  show ?case
    using Nd.prems rep_children [OF Nd.prems(1)] Nd.IH(1) [of "Some a"] Nd.IH(2) [of "Some a"] st(1,2) notl
    by (subst rb_nfind_loop.simps) (auto simp: cmp find_append split: option.splits)
qed

text \<open>\<^verbatim>\<open>RB_NFIND\<close> returns the first node in key order whose key is not smaller than that of \<open>elm\<close>, and \<^verbatim>\<open>NULL\<close>
  when every key is smaller.\<close>

theorem rb_nfind_correct:
  assumes "cmp_by cmp key" and "rb_tree s t" and "search_tree key t"
  shows "RB_NFIND cmp e s = Some (List.find (\<lambda>a. key e \<le> key a) (addrs t))"
  using assms rb_nfind_loop [of cmp key s None t e None]
  by (simp add: RB_NFIND_def rb_tree_def split: option.splits)

theorem rb_nfind_correct_witness: "RB_NFIND cmp_addr 3 demo_state = Some (Some 5)"
  using rb_nfind_correct [OF demo_ok, of 3] by (simp add: demo_tree_def)

lemma rb_minmax_loop:
  "rep (rb_nodes s) p t \<Longrightarrow>
    rb_minmax_loop v (root_of t) q s = Some (if v < 0 then hd_opt (addrs t) q else last_opt (addrs t) q)"
proof (induction t arbitrary: p q)
  case Tip
  then show ?case by (simp add: rb_minmax_loop.simps)
next
  case (Nd l a c r)
  then show ?case
    using rep_children [OF Nd.prems] Nd.IH(1) [of "Some a" "Some a"] Nd.IH(2) [of "Some a" "Some a"]
    by (subst rb_minmax_loop.simps) auto
qed

lemma rb_leftmost_loop: "rep (rb_nodes s) p t \<Longrightarrow> t \<noteq> Tip \<Longrightarrow> rb_leftmost (root_of t) s = Some (hd_opt (addrs t) None)"
proof (induction t arbitrary: p)
  case (Nd l a c r)
  then show ?case
    using rep_children [OF Nd.prems(1)] Nd.IH(1) [of "Some a"]
    by (subst rb_leftmost.simps) (cases l; auto)
qed simp

lemma rb_rightmost_loop: "rep (rb_nodes s) p t \<Longrightarrow> t \<noteq> Tip \<Longrightarrow> rb_rightmost (root_of t) s = Some (last_opt (addrs t) None)"
proof (induction t arbitrary: p)
  case (Nd l a c r)
  then show ?case
    using rep_children [OF Nd.prems(1)] Nd.IH(2) [of "Some a"]
    by (subst rb_rightmost.simps) (cases r; auto)
qed simp

section \<open>Walking the tree\<close>

lemma plug_append: "plug (C @ D) t = plug D (plug C t)"
  by (induction C t rule: plug.induct) auto

lemma zipper_exists: "a \<in> set (addrs t) \<Longrightarrow> \<exists>C l c r. t = plug C (Nd l a c r)"
proof (induction t)
  case (Nd l b c r)
  then consider "a = b" | "a \<in> set (addrs l)" | "a \<in> set (addrs r)" by auto
  then show ?case
  proof cases
    case 1
    then show ?thesis by (metis plug.simps(1))
  next
    case 2
    with Nd.IH(1) obtain C l' c' r' where "l = plug C (Nd l' a c' r')" by blast
    then have "Nd l b c r = plug (C @ [FL b c r]) (Nd l' a c' r')" by (simp add: plug_append)
    then show ?thesis by blast
  next
    case 3
    with Nd.IH(2) obtain C l' c' r' where "r = plug C (Nd l' a c' r')" by blast
    then have "Nd l b c r = plug (C @ [FR l b c]) (Nd l' a c' r')" by (simp add: plug_append)
    then show ?thesis by blast
  qed
qed simp

lemma focus_exists:
  assumes "rb_tree s t" and "addrs t = xs @ a # ys"
  obtains C l c r where "focus s C (Nd l a c r)" and "addrs r @ ctx_right C = ys" and "ctx_left C @ addrs l = xs"
proof -
  from assms(2) obtain C l c r where t: "t = plug C (Nd l a c r)" using zipper_exists [of a t] by auto
  then have "xs @ a # ys = (ctx_left C @ addrs l) @ a # (addrs r @ ctx_right C)"
    using assms(2) by (simp add: addrs_plug)
  moreover have "distinct (xs @ a # ys)" using assms by (simp add: rb_tree_def)
  ultimately have "xs = ctx_left C @ addrs l \<and> ys = addrs r @ ctx_right C"
    by (metis append_Cons_eq_iff not_distinct_conv_prefix distinct_append distinct.simps(2))
  moreover have "focus s C (Nd l a c r)" using assms(1) t by (simp add: focus_plug)
  ultimately show thesis using that by metis
qed

lemma rb_climb_right_ctx:
  "focus s C t \<Longrightarrow> t \<noteq> Tip \<Longrightarrow>
    \<exists>e. rb_climb_right (root_of t) s = Some e \<and> RB_PARENT e s = Some (hd_opt (ctx_right C) None)"
proof (induction C arbitrary: t)
  case Nil
  then obtain l a c r where "t = Nd l a c r" by (cases t) auto
  with Nil show ?case by (subst rb_climb_right.simps) (simp add: focus_fields)
next
  case (Cons f C)
  then obtain l a c r where t: "t = Nd l a c r" by (cases t) auto
  show ?case
  proof (cases f)
    case (FL p d u)
    have foc: "focus s C (Nd t p d u)" using Cons.prems FL by (simp add: focus_FL)
    then have "root_of u \<noteq> Some a" using t root_of_in by (fastforce simp: focus_def)
    then show ?thesis
      using focus_fields [OF foc] focus_fields [of s "f # C" l a c r] Cons.prems t FL
      by (subst rb_climb_right.simps) auto
  next
    case (FR u p d)
    have foc: "focus s C (Nd u p d t)" using Cons.prems FR by (simp add: focus_FR)
    then show ?thesis
      using focus_fields [OF foc] focus_fields [of s "f # C" l a c r] Cons.IH [OF foc] Cons.prems t FR
      by (subst rb_climb_right.simps) auto
  qed
qed

lemma rb_climb_left_ctx:
  "focus s C t \<Longrightarrow> t \<noteq> Tip \<Longrightarrow>
    \<exists>e. rb_climb_left (root_of t) s = Some e \<and> RB_PARENT e s = Some (last_opt (ctx_left C) None)"
proof (induction C arbitrary: t)
  case Nil
  then obtain l a c r where "t = Nd l a c r" by (cases t) auto
  with Nil show ?case by (subst rb_climb_left.simps) (simp add: focus_fields)
next
  case (Cons f C)
  then obtain l a c r where t: "t = Nd l a c r" by (cases t) auto
  show ?case
  proof (cases f)
    case (FL p d u)
    have foc: "focus s C (Nd t p d u)" using Cons.prems FL by (simp add: focus_FL)
    then show ?thesis
      using focus_fields [OF foc] focus_fields [of s "f # C" l a c r] Cons.IH [OF foc] Cons.prems t FL
      by (subst rb_climb_left.simps) auto
  next
    case (FR u p d)
    have foc: "focus s C (Nd u p d t)" using Cons.prems FR by (simp add: focus_FR)
    then have "root_of u \<noteq> Some a" using t root_of_in by (fastforce simp: focus_def)
    then show ?thesis
      using focus_fields [OF foc] focus_fields [of s "f # C" l a c r] Cons.prems t FR
      by (subst rb_climb_left.simps) auto
  qed
qed

lemma rb_next_focus:
  assumes foc: "focus s C (Nd l a c r)"
  shows "RB_NEXT (Some a) s = Some (hd_opt (addrs r @ ctx_right C) None)"
proof (cases "r = Tip")
  case False
  have "rep (rb_nodes s) (Some a) r" using foc by (simp add: focus_def)
  from rb_leftmost_loop [OF this False] False show ?thesis
    using focus_fields [OF foc] by (cases r) (auto simp: RB_NEXT_def)
next
  case True
  note climb = rb_climb_right_ctx [OF foc]
  show ?thesis
  proof (cases C)
    case (Cons f D)
    show ?thesis
    proof (cases f)
      case (FL p d u)
      have "focus s D (Nd (Nd l a c r) p d u)" using foc Cons FL by (simp add: focus_FL)
      from focus_fields [OF this] focus_fields [OF foc] show ?thesis
        using True Cons FL by (simp add: RB_NEXT_def)
    next
      case (FR u p d)
      have up: "focus s D (Nd u p d (Nd l a c r))" using foc Cons FR by (simp add: focus_FR)
      then have "root_of u \<noteq> Some a" using root_of_in by (fastforce simp: focus_def)
      with focus_fields [OF up] focus_fields [OF foc] climb show ?thesis
        using True Cons FR by (auto simp: RB_NEXT_def)
    qed
  qed (use focus_fields [OF foc] climb True in \<open>auto simp: RB_NEXT_def\<close>)
qed

lemma rb_prev_focus:
  assumes foc: "focus s C (Nd l a c r)"
  shows "RB_PREV (Some a) s = Some (last_opt (ctx_left C @ addrs l) None)"
proof (cases "l = Tip")
  case False
  have "rep (rb_nodes s) (Some a) l" using foc by (simp add: focus_def)
  from rb_rightmost_loop [OF this False] False show ?thesis
    using focus_fields [OF foc] by (cases l) (auto simp: RB_PREV_def last_opt_def)
next
  case True
  note climb = rb_climb_left_ctx [OF foc]
  show ?thesis
  proof (cases C)
    case (Cons f D)
    show ?thesis
    proof (cases f)
      case (FR u p d)
      have "focus s D (Nd u p d (Nd l a c r))" using foc Cons FR by (simp add: focus_FR)
      from focus_fields [OF this] focus_fields [OF foc] show ?thesis
        using True Cons FR by (simp add: RB_PREV_def)
    next
      case (FL p d u)
      have up: "focus s D (Nd (Nd l a c r) p d u)" using foc Cons FL by (simp add: focus_FL)
      then have "root_of u \<noteq> Some a" using root_of_in by (fastforce simp: focus_def)
      with focus_fields [OF up] focus_fields [OF foc] climb show ?thesis
        using True Cons FL by (auto simp: RB_PREV_def)
    qed
  qed (use focus_fields [OF foc] climb True in \<open>auto simp: RB_PREV_def\<close>)
qed

lemma rb_foreach_from_list:
  "rb_tree s t \<Longrightarrow> addrs t = xs @ ys \<Longrightarrow> rb_foreach_from (hd_opt ys None) s = Some ys"
proof (induction ys arbitrary: xs)
  case Nil
  then show ?case by (simp add: rb_foreach_from.simps)
next
  case (Cons a ys)
  then obtain C l c r where "focus s C (Nd l a c r)" "addrs r @ ctx_right C = ys" by (metis focus_exists)
  then have "RB_NEXT (Some a) s = Some (hd_opt ys None)" using rb_next_focus by metis
  with Cons.IH [of "xs @ [a]"] Cons.prems show ?case by (subst rb_foreach_from.simps) simp
qed

lemma rb_foreach_back_list:
  "rb_tree s t \<Longrightarrow> addrs t = xs @ ys \<Longrightarrow> rb_foreach_back (last_opt xs None) s = Some (rev xs)"
proof (induction xs arbitrary: ys rule: rev_induct)
  case Nil
  then show ?case by (simp add: rb_foreach_back.simps)
next
  case (snoc a xs)
  then have "addrs t = xs @ a # ys" by simp
  then obtain C l c r where "focus s C (Nd l a c r)" "ctx_left C @ addrs l = xs"
    using snoc.prems(1) by (metis focus_exists)
  then have "RB_PREV (Some a) s = Some (last_opt xs None)" using rb_prev_focus by metis
  with snoc.IH [of "a # ys"] snoc.prems show ?case by (subst rb_foreach_back.simps) simp
qed

text \<open>\<^verbatim>\<open>RB_FOREACH\<close> (from \<^verbatim>\<open>RB_MIN\<close> by \<^verbatim>\<open>RB_NEXT\<close>) ends and visits every node of the tree exactly once in key order, and
  \<^verbatim>\<open>RB_FOREACH_REVERSE\<close> (from \<^verbatim>\<open>RB_MAX\<close> by \<^verbatim>\<open>RB_PREV\<close>) visits them in the reverse order.\<close>

theorem rb_foreach_inorder:
  assumes "rb_tree s t"
  shows "RB_FOREACH s = Some (addrs t) \<and> RB_FOREACH_REVERSE s = Some (rev (addrs t))"
proof -
  have "rep (rb_nodes s) None t" "rbh_root s = root_of t" using assms by (auto simp: rb_tree_def)
  then have "RB_MIN s = Some (hd_opt (addrs t) None)" "RB_MAX s = Some (last_opt (addrs t) None)"
    using rb_minmax_loop by (simp_all add: RB_MIN_def RB_MAX_def RB_MINMAX_def)
  then show ?thesis
    using rb_foreach_from_list [OF assms, of "[]"] rb_foreach_back_list [OF assms, of _ "[]"]
    by (simp add: RB_FOREACH_def RB_FOREACH_REVERSE_def)
qed

theorem rb_foreach_inorder_witness: "RB_FOREACH demo_state = Some [2, 5]"
  using rb_foreach_inorder [OF demo_ok(2)] by (simp add: demo_tree_def)

end
