(* ===== verification/Uv_Tree_Insert.thy ===== *)
theory Uv_Tree_Insert
  imports Uv_Tree
begin

text \<open>
  Insertion into the red-black tree of \<^verbatim>\<open>usockets/include/uv/tree.h\<close>: the pointer code of \<^verbatim>\<open>RB_INSERT\<close> and
  \<^verbatim>\<open>RB_INSERT_COLOR\<close> ends, dereferences no \<^verbatim>\<open>NULL\<close>, keeps the order of the nodes and restores the
  colouring the header describes.
\<close>

section \<open>The colouring\<close>

fun color_of :: "atree \<Rightarrow> rb_color" where
  "color_of Tip = RB_BLACK"
| "color_of (Nd l a c r) = c"

fun black_height :: "atree \<Rightarrow> nat" where
  "black_height Tip = 0"
| "black_height (Nd l a c r) = black_height l + (if c = RB_BLACK then 1 else 0)"

fun rbt :: "atree \<Rightarrow> bool" where
  "rbt Tip = True"
| "rbt (Nd l a c r) = (rbt l \<and> rbt r \<and> black_height l = black_height r
     \<and> (c = RB_RED \<longrightarrow> color_of l = RB_BLACK \<and> color_of r = RB_BLACK))"

text \<open>A context accepts a subtree of a black height and a root colour.\<close>

fun accepts :: "rb_ctx \<Rightarrow> nat \<Rightarrow> rb_color \<Rightarrow> bool" where
  "accepts [] n c = True"
| "accepts (FL a d r # C) n c = (rbt r \<and> black_height r = n \<and> (d = RB_RED \<longrightarrow> c = RB_BLACK \<and> color_of r = RB_BLACK)
     \<and> accepts C (n + (if d = RB_BLACK then 1 else 0)) d)"
| "accepts (FR l a d # C) n c = (rbt l \<and> black_height l = n \<and> (d = RB_RED \<longrightarrow> c = RB_BLACK \<and> color_of l = RB_BLACK)
     \<and> accepts C (n + (if d = RB_BLACK then 1 else 0)) d)"

lemma rbt_plug: "rbt (plug C t) \<longleftrightarrow> rbt t \<and> accepts C (black_height t) (color_of t)"
proof (induction C arbitrary: t)
  case (Cons f C)
  then show ?case by (cases f) auto
qed simp

lemma color_cases: "c = RB_BLACK \<or> c = RB_RED"
  by (cases c) auto

lemma accepts_black: "accepts C n c \<Longrightarrow> accepts C n RB_BLACK"
proof (cases C)
  case (Cons f D)
  then show "accepts C n c \<Longrightarrow> ?thesis" by (cases f) auto
qed simp

section \<open>Colouring nodes near the focus\<close>

fun recolor :: "rb_color \<Rightarrow> frame \<Rightarrow> frame" where
  "recolor d (FL a c r) = FL a d r"
| "recolor d (FR l a c) = FR l a d"

fun sibling :: "frame \<Rightarrow> atree" where
  "sibling (FL a c r) = r"
| "sibling (FR l a c) = l"

fun with_sibling :: "atree \<Rightarrow> frame \<Rightarrow> frame" where
  "with_sibling t (FL a c r) = FL a c t"
| "with_sibling t (FR l a c) = FR t a c"

lemma focus_color_frame:
  assumes "focus s (F # C) t"
  obtains s' where "set_color (Some (frame_addr F)) c s = Some s'" and "focus s' (recolor c F # C) t"
proof (cases F)
  case (FL a d r)
  then show thesis using assms focus_set_color [of s C t a d r c] that by (auto simp: focus_FL)
next
  case (FR l a d)
  then show thesis using assms focus_set_color [of s C l a d t c] that by (auto simp: focus_FR)
qed

lemma focus_color_sibling:
  assumes "focus s (G # D) t" and "sibling G = Nd wl w wc wr"
  obtains s' where "set_color (Some w) c s = Some s'" and "focus s' (with_sibling (Nd wl w c wr) G # D) t"
proof (cases G)
  case (FL a d r)
  then have "focus s (FR t a d # D) (Nd wl w wc wr)" using assms by (simp add: focus_FL focus_FR)
  then show thesis using FL that focus_set_color by (metis focus_FL focus_FR with_sibling.simps(1))
next
  case (FR l a d)
  then have "focus s (FL a d t # D) (Nd wl w wc wr)" using assms by (simp add: focus_FL focus_FR)
  then show thesis using FR that focus_set_color by (metis focus_FL focus_FR with_sibling.simps(2))
qed

lemma frame_fields:
  assumes "focus s (F # C) t"
  shows "RB_PARENT (Some (frame_addr F)) s = Some (ctx_parent C)"
    and "is_red (Some (frame_addr F)) s = Some (frame_color F = RB_RED)"
    and "RB_LEFT (Some (frame_addr F)) s = Some (case F of FL a c r \<Rightarrow> root_of t | FR l a c \<Rightarrow> root_of l)"
    and "RB_RIGHT (Some (frame_addr F)) s = Some (case F of FL a c r \<Rightarrow> root_of r | FR l a c \<Rightarrow> root_of t)"
  using assms by (cases F; auto simp: focus_FL focus_FR focus_fields)+

lemma sibling_red: "focus s (G # D) t \<Longrightarrow> is_red (root_of (sibling G)) s = Some (color_of (sibling G) = RB_RED)"
  by (cases G; cases "sibling G") (auto simp: focus_def is_red_def rb_fields rb_cell_def)

text \<open>The child of a frame is not its sibling.\<close>

lemma focus_distinct:
  "focus s (F # C) t \<Longrightarrow> t \<noteq> Tip \<Longrightarrow> root_of (sibling F) \<noteq> root_of t"
  by (cases F; cases t; cases "sibling F") (auto simp: focus_def)

section \<open>One round of \<^verbatim>\<open>RB_INSERT_COLOR\<close>\<close>

lemma insert_exit:
  assumes "focus s C (Nd l x c r)" and "C = [] \<or> frame_color (hd C) = RB_BLACK"
  shows "rb_insert_loop (Some x) s = Some s"
proof (cases C)
  case Nil
  then show ?thesis using focus_fields [OF assms(1)] by (subst rb_insert_loop.simps) simp
next
  case (Cons F D)
  then show ?thesis using focus_fields [OF assms(1)] frame_fields [of s F D] assms
    by (subst rb_insert_loop.simps) auto
qed

lemma insert_continue:
  assumes "focus s (F # C) (Nd l x c r)" and "frame_color F = RB_RED"
    and "rb_insert_step (Some x) (Some (frame_addr F)) s = Some (e, s')"
  shows "rb_insert_loop (Some x) s = rb_insert_loop e s'"
  using focus_fields [OF assms(1)] frame_fields [OF assms(1)] assms(2,3)
  by (subst rb_insert_loop.simps) simp

lemma fill_root: "root_of (fill F t) = Some (frame_addr F)"
  by (cases F) auto

lemma with_sibling_addr [simp]: "frame_addr (with_sibling t G) = frame_addr G"
  by (cases G) auto

lemma insert_step_red_uncle:
  assumes foc: "focus s (F # G # D) t" and w: "sibling G = Nd wl w RB_RED wr"
  obtains s' where "rb_insert_step (root_of t) (Some (frame_addr F)) s = Some (Some (frame_addr G), s')"
    and "focus s' (recolor RB_BLACK F # recolor RB_RED (with_sibling (Nd wl w RB_BLACK wr) G) # D) t"
proof -
  have focG: "focus s (G # D) (fill F t)" using foc by (simp add: focus_fill)
  from focus_color_sibling [OF focG w] obtain s1 where
    s1: "set_color (Some w) RB_BLACK s = Some s1" "focus s1 (with_sibling (Nd wl w RB_BLACK wr) G # D) (fill F t)"
    by metis
  from s1(2) have "focus s1 (F # with_sibling (Nd wl w RB_BLACK wr) G # D) t" by (simp add: focus_fill)
  from focus_color_frame [OF this] obtain s2 where
    s2: "set_color (Some (frame_addr F)) RB_BLACK s1 = Some s2"
      "focus s2 (recolor RB_BLACK F # with_sibling (Nd wl w RB_BLACK wr) G # D) t" by metis
  from s2(2) have "focus s2 (with_sibling (Nd wl w RB_BLACK wr) G # D) (fill (recolor RB_BLACK F) t)"
    by (simp add: focus_fill)
  from focus_color_frame [OF this] obtain s3 where
    s3: "set_color (Some (frame_addr G)) RB_RED s2 = Some s3"
      "focus s3 (recolor RB_RED (with_sibling (Nd wl w RB_BLACK wr) G) # D) (fill (recolor RB_BLACK F) t)"
    by (metis with_sibling_addr)
  have "rb_insert_step (root_of t) (Some (frame_addr F)) s = Some (Some (frame_addr G), s3)"
  proof (cases G)
    case (FL g d u)
    then show ?thesis
      using frame_fields [OF foc] frame_fields [OF focG] sibling_red [OF focG] w s1(1) s2(1) s3(1)
      by (simp add: rb_insert_step_def fill_root RB_SET_BLACKRED_def)
  next
    case (FR u g d)
    then have "root_of u \<noteq> Some (frame_addr F)"
      using focus_distinct [OF focG] by (cases F) auto
    then show ?thesis
      using FR frame_fields [OF foc] frame_fields [OF focG] sibling_red [OF focG] w s1(1) s2(1) s3(1)
      by (simp add: rb_insert_step_def fill_root RB_SET_BLACKRED_def)
  qed
  moreover have "focus s3 (recolor RB_BLACK F # recolor RB_RED (with_sibling (Nd wl w RB_BLACK wr) G) # D) t"
    using s3(2) by (simp add: focus_fill)
  ultimately show thesis by (rule that)
qed

lemma insert_step_LL:
  assumes foc: "focus s (FL p c u # FL g d w # D) t" and t: "t \<noteq> Tip" and w: "color_of w = RB_BLACK"
  obtains s' where "rb_insert_step (root_of t) (Some p) s = Some (root_of t, s')"
    and "focus s' (FL p RB_BLACK (Nd u g RB_RED w) # D) t"
proof -
  have focG: "focus s (FL g d w # D) (Nd t p c u)" using foc by (simp add: focus_FL)
  obtain s1 where
    s1: "set_color (Some p) RB_BLACK s = Some s1" "focus s1 (FL p RB_BLACK u # FL g d w # D) t"
    by (rule focus_color_frame [OF foc, of RB_BLACK]) simp
  then have "focus s1 D (Nd (Nd t p RB_BLACK u) g d w)" by (simp add: focus_FL)
  from focus_set_color [OF this] obtain s2 where
    s2: "set_color (Some g) RB_RED s1 = Some s2" "focus s2 D (Nd (Nd t p RB_BLACK u) g RB_RED w)" by metis
  from focus_rotate_right [OF s2(2)] obtain s3 where
    s3: "RB_ROTATE_RIGHT (Some g) s2 = Some s3" "focus s3 D (Nd t p RB_BLACK (Nd u g RB_RED w))" by metis
  have "root_of u \<noteq> root_of t" using focus_distinct [OF foc t] by simp
  then have "rb_insert_step (root_of t) (Some p) s = Some (root_of t, s3)"
    using frame_fields [OF foc] frame_fields [OF focG] sibling_red [OF focG] focus_distinct [OF focG] w s1(1) s2(1) s3(1)
    by (simp add: rb_insert_step_def RB_SET_BLACKRED_def)
  moreover have "focus s3 (FL p RB_BLACK (Nd u g RB_RED w) # D) t" using s3(2) by (simp add: focus_FL)
  ultimately show thesis by (rule that)
qed

lemma insert_step_LR:
  assumes foc: "focus s (FR u p c # FL g d w # D) (Nd l x e r)" and w: "color_of w = RB_BLACK"
  obtains s' where "rb_insert_step (Some x) (Some p) s = Some (Some p, s')"
    and "focus s' (FL x RB_BLACK (Nd r g RB_RED w) # D) (Nd u p c l)"
proof -
  have focG: "focus s (FL g d w # D) (Nd u p c (Nd l x e r))" using foc by (simp add: focus_FR)
  from focus_rotate_left [OF focG] obtain s1 where
    s1: "RB_ROTATE_LEFT (Some p) s = Some s1" "focus s1 (FL g d w # D) (Nd (Nd u p c l) x e r)" by metis
  from focus_set_color [OF s1(2)] obtain s2 where
    s2: "set_color (Some x) RB_BLACK s1 = Some s2" "focus s2 (FL g d w # D) (Nd (Nd u p c l) x RB_BLACK r)" by metis
  then have "focus s2 D (Nd (Nd (Nd u p c l) x RB_BLACK r) g d w)" by (simp add: focus_FL)
  from focus_set_color [OF this] obtain s3 where
    s3: "set_color (Some g) RB_RED s2 = Some s3" "focus s3 D (Nd (Nd (Nd u p c l) x RB_BLACK r) g RB_RED w)" by metis
  from focus_rotate_right [OF s3(2)] obtain s4 where
    s4: "RB_ROTATE_RIGHT (Some g) s3 = Some s4" "focus s4 D (Nd (Nd u p c l) x RB_BLACK (Nd r g RB_RED w))" by metis
  have "rb_insert_step (Some x) (Some p) s = Some (Some p, s4)"
    using frame_fields [OF foc] frame_fields [OF focG] sibling_red [OF focG] focus_distinct [OF focG] w s1(1) s2(1) s3(1) s4(1)
    by (simp add: rb_insert_step_def RB_SET_BLACKRED_def)
  moreover have "focus s4 (FL x RB_BLACK (Nd r g RB_RED w) # D) (Nd u p c l)" using s4(2) by (simp add: focus_FL)
  ultimately show thesis by (rule that)
qed

lemma insert_step_RR:
  assumes foc: "focus s (FR u p c # FR w g d # D) t" and t: "t \<noteq> Tip" and w: "color_of w = RB_BLACK"
  obtains s' where "rb_insert_step (root_of t) (Some p) s = Some (root_of t, s')"
    and "focus s' (FR (Nd w g RB_RED u) p RB_BLACK # D) t"
proof -
  have focG: "focus s (FR w g d # D) (Nd u p c t)" using foc by (simp add: focus_FR)
  obtain s1 where
    s1: "set_color (Some p) RB_BLACK s = Some s1" "focus s1 (FR u p RB_BLACK # FR w g d # D) t"
    by (rule focus_color_frame [OF foc, of RB_BLACK]) simp
  then have "focus s1 D (Nd w g d (Nd u p RB_BLACK t))" by (simp add: focus_FR)
  from focus_set_color [OF this] obtain s2 where
    s2: "set_color (Some g) RB_RED s1 = Some s2" "focus s2 D (Nd w g RB_RED (Nd u p RB_BLACK t))" by metis
  from focus_rotate_left [OF s2(2)] obtain s3 where
    s3: "RB_ROTATE_LEFT (Some g) s2 = Some s3" "focus s3 D (Nd (Nd w g RB_RED u) p RB_BLACK t)" by metis
  have "root_of u \<noteq> root_of t" using focus_distinct [OF foc t] by simp
  then have "rb_insert_step (root_of t) (Some p) s = Some (root_of t, s3)"
    using frame_fields [OF foc] frame_fields [OF focG] sibling_red [OF focG] focus_distinct [OF focG] w s1(1) s2(1) s3(1)
    by (simp add: rb_insert_step_def RB_SET_BLACKRED_def)
  moreover have "focus s3 (FR (Nd w g RB_RED u) p RB_BLACK # D) t" using s3(2) by (simp add: focus_FR)
  ultimately show thesis by (rule that)
qed

lemma insert_step_RL:
  assumes foc: "focus s (FL p c u # FR w g d # D) (Nd r x e l)" and w: "color_of w = RB_BLACK"
  obtains s' where "rb_insert_step (Some x) (Some p) s = Some (Some p, s')"
    and "focus s' (FR (Nd w g RB_RED r) x RB_BLACK # D) (Nd l p c u)"
proof -
  have focG: "focus s (FR w g d # D) (Nd (Nd r x e l) p c u)" using foc by (simp add: focus_FL)
  from focus_rotate_right [OF focG] obtain s1 where
    s1: "RB_ROTATE_RIGHT (Some p) s = Some s1" "focus s1 (FR w g d # D) (Nd r x e (Nd l p c u))" by metis
  from focus_set_color [OF s1(2)] obtain s2 where
    s2: "set_color (Some x) RB_BLACK s1 = Some s2" "focus s2 (FR w g d # D) (Nd r x RB_BLACK (Nd l p c u))" by metis
  then have "focus s2 D (Nd w g d (Nd r x RB_BLACK (Nd l p c u)))" by (simp add: focus_FR)
  from focus_set_color [OF this] obtain s3 where
    s3: "set_color (Some g) RB_RED s2 = Some s3" "focus s3 D (Nd w g RB_RED (Nd r x RB_BLACK (Nd l p c u)))" by metis
  from focus_rotate_left [OF s3(2)] obtain s4 where
    s4: "RB_ROTATE_LEFT (Some g) s3 = Some s4" "focus s4 D (Nd (Nd w g RB_RED r) x RB_BLACK (Nd l p c u))" by metis
  have "rb_insert_step (Some x) (Some p) s = Some (Some p, s4)"
    using frame_fields [OF foc] frame_fields [OF focG] sibling_red [OF focG] focus_distinct [OF focG] w s1(1) s2(1) s3(1) s4(1)
    by (simp add: rb_insert_step_def RB_SET_BLACKRED_def)
  moreover have "focus s4 (FR (Nd w g RB_RED r) x RB_BLACK # D) (Nd l p c u)" using s4(2) by (simp add: focus_FR)
  ultimately show thesis by (rule that)
qed

section \<open>The loop of \<^verbatim>\<open>RB_INSERT_COLOR\<close>\<close>

text \<open>The loop ends in a state that holds a well coloured tree with these nodes in order.\<close>

definition loop_colors :: "rb_ptr \<Rightarrow> rb_state \<Rightarrow> nat list \<Rightarrow> bool" where
  "loop_colors x s as \<longleftrightarrow> (\<exists>s' T. rb_insert_loop x s = Some s' \<and> rb_tree s' T \<and> addrs T = as \<and> rbt T \<and> T \<noteq> Tip)"

lemma insert_settled:
  assumes "focus s C (Nd l x c r)" and "C = [] \<or> frame_color (hd C) = RB_BLACK" and "rbt (plug C (Nd l x c r))"
    and "as = addrs (plug C (Nd l x c r))"
  shows "loop_colors (Some x) s as"
proof -
  have "plug C (Nd l x c r) \<noteq> Tip" using addrs_plug [of C "Nd l x c r"] by fastforce
  then show ?thesis
    using insert_exit [OF assms(1,2)] assms focus_plug unfolding loop_colors_def by blast
qed

lemma loop_colors_step:
  "focus s (F # C) (Nd l x c r) \<Longrightarrow> frame_color F = RB_RED \<Longrightarrow>
   rb_insert_step (Some x) (Some (frame_addr F)) s = Some (e, s') \<Longrightarrow> loop_colors e s' as \<Longrightarrow> loop_colors (Some x) s as"
  unfolding loop_colors_def by (simp add: insert_continue)

text \<open>The two sides of a red parent whose sibling is not red.\<close>

lemma insert_black_uncle_left:
  assumes foc: "focus s (F # FL g RB_BLACK w # D) (Nd l x RB_RED r)" and F: "frame_color F = RB_RED"
    and t: "rbt (Nd l x RB_RED r)" and acc: "accepts (F # FL g RB_BLACK w # D) (black_height l) RB_BLACK"
    and w: "color_of w = RB_BLACK"
  shows "loop_colors (Some x) s (addrs (plug (F # FL g RB_BLACK w # D) (Nd l x RB_RED r)))"
proof (cases F)
  case (FL p c u)
  with foc have foc': "focus s (FL p c u # FL g RB_BLACK w # D) (Nd l x RB_RED r)" by simp
  from insert_step_LL [OF foc' _ w] obtain s' where
    st: "rb_insert_step (Some x) (Some p) s = Some (Some x, s')"
      "focus s' (FL p RB_BLACK (Nd u g RB_RED w) # D) (Nd l x RB_RED r)" by auto
  show ?thesis
    by (rule loop_colors_step [OF foc F], use FL st(1) in simp, rule insert_settled [OF st(2)])
      (use FL F t acc w in \<open>auto simp: rbt_plug addrs_plug\<close>)
next
  case (FR u p c)
  with foc have foc': "focus s (FR u p c # FL g RB_BLACK w # D) (Nd l x RB_RED r)" by simp
  from insert_step_LR [OF foc' w] obtain s' where
    st: "rb_insert_step (Some x) (Some p) s = Some (Some p, s')"
      "focus s' (FL x RB_BLACK (Nd r g RB_RED w) # D) (Nd u p c l)" by auto
  show ?thesis
    by (rule loop_colors_step [OF foc F], use FR st(1) in simp, rule insert_settled [OF st(2)])
      (use FR F t acc w in \<open>auto simp: rbt_plug addrs_plug\<close>)
qed

lemma insert_black_uncle_right:
  assumes foc: "focus s (F # FR w g RB_BLACK # D) (Nd l x RB_RED r)" and F: "frame_color F = RB_RED"
    and t: "rbt (Nd l x RB_RED r)" and acc: "accepts (F # FR w g RB_BLACK # D) (black_height l) RB_BLACK"
    and w: "color_of w = RB_BLACK"
  shows "loop_colors (Some x) s (addrs (plug (F # FR w g RB_BLACK # D) (Nd l x RB_RED r)))"
proof (cases F)
  case (FR u p c)
  with foc have foc': "focus s (FR u p c # FR w g RB_BLACK # D) (Nd l x RB_RED r)" by simp
  from insert_step_RR [OF foc' _ w] obtain s' where
    st: "rb_insert_step (Some x) (Some p) s = Some (Some x, s')"
      "focus s' (FR (Nd w g RB_RED u) p RB_BLACK # D) (Nd l x RB_RED r)" by auto
  show ?thesis
    by (rule loop_colors_step [OF foc F], use FR st(1) in simp, rule insert_settled [OF st(2)])
      (use FR F t acc w in \<open>auto simp: rbt_plug addrs_plug\<close>)
next
  case (FL p c u)
  with foc have foc': "focus s (FL p c u # FR w g RB_BLACK # D) (Nd l x RB_RED r)" by simp
  from insert_step_RL [OF foc' w] obtain s' where
    st: "rb_insert_step (Some x) (Some p) s = Some (Some p, s')"
      "focus s' (FR (Nd w g RB_RED l) x RB_BLACK # D) (Nd r p c u)" by auto
  show ?thesis
    by (rule loop_colors_step [OF foc F], use FL st(1) in simp, rule insert_settled [OF st(2)])
      (use FL F t acc w in \<open>auto simp: rbt_plug addrs_plug\<close>)
qed

text \<open>A red parent with a red sibling: the grandparent becomes red and is the next node to look at.\<close>

lemma red_uncle_subtree:
  assumes "accepts (F # G # D) n RB_BLACK" and "frame_color F = RB_RED" and "rbt t" and "black_height t = n"
    and "sibling G = Nd wl w RB_RED wr"
  shows "rbt (fill (recolor RB_RED (with_sibling (Nd wl w RB_BLACK wr) G)) (fill (recolor RB_BLACK F) t))"
    and "accepts D (black_height (fill (recolor RB_RED (with_sibling (Nd wl w RB_BLACK wr) G)) (fill (recolor RB_BLACK F) t))) RB_BLACK"
  using assms by (cases F; cases G; auto split: if_splits intro: rb_color.exhaust)+

lemma insert_loop_colors:
  "focus s C (Nd l x RB_RED r) \<Longrightarrow> rbt (Nd l x RB_RED r) \<Longrightarrow> accepts C (black_height l) RB_BLACK \<Longrightarrow>
   (C \<noteq> [] \<Longrightarrow> frame_color (last C) = RB_BLACK) \<Longrightarrow>
   loop_colors (Some x) s (addrs (plug C (Nd l x RB_RED r)))"
proof (induction "length C" arbitrary: C s l x r rule: less_induct)
  case less
  note foc = less.prems(1) and t = less.prems(2) and acc = less.prems(3)
  show ?case
  proof (cases "C = [] \<or> frame_color (hd C) = RB_BLACK")
    case True
    have "accepts C (black_height l) RB_RED"
      using True acc by (cases C) (auto, case_tac a, auto)
    then show ?thesis using insert_settled [OF foc True] t by (simp add: rbt_plug)
  next
    case False
    then obtain F C' where C': "C = F # C'" and F: "frame_color F = RB_RED" by (cases C) (auto intro: rb_color.exhaust)
    with less.prems(4) obtain G D where C: "C = F # G # D" by (cases C') (auto split: if_splits)
    have G: "frame_color G = RB_BLACK" using acc F C by (cases F; cases G) (auto intro: rb_color.exhaust)
    show ?thesis
    proof (cases "color_of (sibling G) = RB_BLACK")
      case True
      then show ?thesis
        using insert_black_uncle_left [of s F _ _ D l x r] insert_black_uncle_right [of s F _ _ D l x r] foc F t acc C G
        by (cases G) auto
    next
      case False
      then obtain wl w wr where w: "sibling G = Nd wl w RB_RED wr"
        by (cases "sibling G") (auto intro: rb_color.exhaust)
      from insert_step_red_uncle [OF foc [unfolded C] w] obtain s' where
        st: "rb_insert_step (Some x) (Some (frame_addr F)) s = Some (Some (frame_addr G), s')"
          "focus s' (recolor RB_BLACK F # recolor RB_RED (with_sibling (Nd wl w RB_BLACK wr) G) # D) (Nd l x RB_RED r)"
        by auto
      define t' where "t' = fill (recolor RB_RED (with_sibling (Nd wl w RB_BLACK wr) G)) (fill (recolor RB_BLACK F) (Nd l x RB_RED r))"
      have ok: "rbt t'" "accepts D (black_height t') RB_BLACK" "focus s' D t'"
        using red_uncle_subtree [OF acc [unfolded C] F t _ w] st(2) by (simp_all add: t'_def focus_fill)
      obtain l' r' where t': "t' = Nd l' (frame_addr G) RB_RED r'" by (cases G) (simp_all add: t'_def)
      have "loop_colors (Some (frame_addr G)) s' (addrs (plug D t'))"
        unfolding t' by (rule less.hyps) (use C ok less.prems(4) in \<open>auto simp: t'\<close>)
      moreover have "addrs (plug D t') = addrs (plug C (Nd l x RB_RED r))"
        using w by (cases F; cases G) (auto simp: C t'_def addrs_plug)
      ultimately show ?thesis
        using loop_colors_step [OF foc [unfolded C] F st(1)] by simp
    qed
  qed
qed

lemma insert_color_done:
  assumes "loop_colors (Some x) s as"
  obtains s' T where "RB_INSERT_COLOR (Some x) s = Some s'" and "rb_tree s' T" and "addrs T = as" and "rbt T"
    and "color_of T = RB_BLACK"
proof -
  from assms obtain s1 l a c r where
    s1: "rb_insert_loop (Some x) s = Some s1" "rb_tree s1 (Nd l a c r)" "addrs (Nd l a c r) = as" "rbt (Nd l a c r)"
    unfolding loop_colors_def by (metis atree.exhaust)
  then have "focus s1 [] (Nd l a c r)" by (simp add: focus_top)
  from focus_set_color [OF this] obtain s2 where
    "set_color (Some a) RB_BLACK s1 = Some s2" "focus s2 [] (Nd l a RB_BLACK r)" by metis
  with s1 show thesis
    by (intro that [of s2 "Nd l a RB_BLACK r"]) (auto simp: RB_INSERT_COLOR_def focus_top rb_tree_def)
qed

section \<open>The descent and the new leaf\<close>

fun side_ok :: "rb_ctx \<Rightarrow> int \<Rightarrow> bool" where
  "side_ok [] k = True"
| "side_ok (FL a c r # C) k = (k < 0)"
| "side_ok (FR l a c # C) k = (k > 0)"

definition between :: "(nat \<Rightarrow> 'k::linorder) \<Rightarrow> nat \<Rightarrow> rb_ctx \<Rightarrow> bool" where
  "between key e C \<longleftrightarrow> (\<forall>a \<in> set (ctx_left C). key a < key e) \<and> (\<forall>a \<in> set (ctx_right C). key e < key a)"

lemma insert_descend:
  assumes cmp: "cmp_by cmp key"
  shows "focus s C t \<Longrightarrow> search_tree key t \<Longrightarrow> between key e C \<Longrightarrow> side_ok C k \<Longrightarrow>
    (\<exists>a. rb_insert_descend cmp e (root_of t) (ctx_parent C) k s = Some (Inl a) \<and> a \<in> set (addrs t) \<and> key a = key e)
    \<or> (\<exists>C' k'. rb_insert_descend cmp e (root_of t) (ctx_parent C) k s = Some (Inr (ctx_parent C', k'))
        \<and> focus s C' Tip \<and> plug C' Tip = plug C t \<and> between key e C' \<and> side_ok C' k'
        \<and> (\<forall>a \<in> set (addrs t). key a \<noteq> key e))"
proof (induction t arbitrary: C k)
  case Tip
  then show ?case by (subst (1 2) rb_insert_descend.simps) auto
next
  case (Nd l a c r)
  have cmps: "cmp e a < 0 \<longleftrightarrow> key e < key a" "cmp e a > 0 \<longleftrightarrow> key a < key e" using cmp by (auto simp: cmp_by_def)
  note flds = focus_fields [OF Nd.prems(1)]
  from Nd.prems(2) have st: "search_tree key l" "search_tree key r"
    "\<And>b. b \<in> set (addrs l) \<Longrightarrow> key b < key a" "\<And>b. b \<in> set (addrs r) \<Longrightarrow> key a < key b"
    by (auto simp: search_tree_Nd)
  consider (lt) "key e < key a" | (gt) "key a < key e" | (eq) "key a = key e" by (metis linorder_neqE)
  then show ?case
  proof cases
    case lt
    have b: "between key e (FL a c r # C)" using Nd.prems(3) lt st(4) less_trans by (fastforce simp: between_def)
    have f: "focus s (FL a c r # C) l" using Nd.prems(1) by (simp add: focus_FL)
    have "rb_insert_descend cmp e (root_of (Nd l a c r)) (ctx_parent C) k s
        = rb_insert_descend cmp e (root_of l) (ctx_parent (FL a c r # C)) (cmp e a) s"
      using lt cmps flds by (subst rb_insert_descend.simps) simp
    moreover have "(\<forall>b \<in> set (addrs (Nd l a c r)). key b \<noteq> key e) = (\<forall>b \<in> set (addrs l). key b \<noteq> key e)"
      using lt st(4) by fastforce
    moreover have "side_ok (FL a c r # C) (cmp e a)" "plug (FL a c r # C) l = plug C (Nd l a c r)" using lt cmps by auto
    moreover have "x \<in> set (addrs (Nd l a c r))" if "x \<in> set (addrs l)" for x using that by simp
    ultimately show ?thesis
      using Nd.IH(1) [OF f st(1) b, of "cmp e a"] by metis
  next
    case gt
    have b: "between key e (FR l a c # C)" using Nd.prems(3) gt st(3) less_trans by (fastforce simp: between_def)
    have f: "focus s (FR l a c # C) r" using Nd.prems(1) by (simp add: focus_FR)
    have "rb_insert_descend cmp e (root_of (Nd l a c r)) (ctx_parent C) k s
        = rb_insert_descend cmp e (root_of r) (ctx_parent (FR l a c # C)) (cmp e a) s"
      using gt cmps flds by (subst rb_insert_descend.simps) (simp add: not_less_iff_gr_or_eq)
    moreover have "(\<forall>b \<in> set (addrs (Nd l a c r)). key b \<noteq> key e) = (\<forall>b \<in> set (addrs r). key b \<noteq> key e)"
      using gt st(3) by fastforce
    moreover have "side_ok (FR l a c # C) (cmp e a)" "plug (FR l a c # C) r = plug C (Nd l a c r)" using gt cmps by auto
    moreover have "x \<in> set (addrs (Nd l a c r))" if "x \<in> set (addrs r)" for x using that by simp
    ultimately show ?thesis
      using Nd.IH(2) [OF f st(2) b, of "cmp e a"] by metis
  next
    case eq
    then have "rb_insert_descend cmp e (root_of (Nd l a c r)) (ctx_parent C) k s = Some (Inl a)"
      using cmps by (subst rb_insert_descend.simps) simp
    then show ?thesis using eq by auto
  qed
qed

lemma insert_leaf:
  assumes foc: "focus s C Tip" and side: "side_ok C k" and e: "rb_nodes s e \<noteq> None" "e \<notin> set (ctx_addrs C)"
  obtains s1 s2 where "RB_SET (Some e) (ctx_parent C) s = Some s1"
    and "(if ctx_parent C \<noteq> None
           then (if k < 0 then set_left (ctx_parent C) (Some e) s1 else set_right (ctx_parent C) (Some e) s1)
           else Some (s1\<lparr>rbh_root := Some e\<rparr>)) = Some s2"
    and "focus s2 C (Nd Tip e RB_RED Tip)"
proof -
  let ?n = "\<lparr>rbe_left = None, rbe_right = None, rbe_parent = ctx_parent C, rbe_color = RB_RED\<rparr>"
  define s1 where "s1 = s\<lparr>rb_nodes := (rb_nodes s)(e \<mapsto> ?n)\<rparr>"
  have s1: "RB_SET (Some e) (ctx_parent C) s = Some s1"
  proof -
    obtain y where y: "rb_nodes s e = Some y" using e(1) by blast
    then show ?thesis by (cases y) (simp add: RB_SET_def rb_setters rb_write_def s1_def)
  qed
  show thesis
  proof (cases C)
    case Nil
    show thesis
      by (rule that [of s1 "s1\<lparr>rbh_root := Some e\<rparr>"]) (use s1 Nil in \<open>auto simp: focus_def s1_def\<close>)
  next
    case (Cons F D)
    show thesis
    proof (cases F)
      case (FL p c w)
      let ?m = "\<lparr>rbe_left = Some e, rbe_right = root_of w, rbe_parent = ctx_parent D, rbe_color = c\<rparr>"
      show thesis
        by (rule that [of s1 "s1\<lparr>rb_nodes := (rb_nodes s1)(p \<mapsto> ?m)\<rparr>"])
          (use s1 Cons FL foc side e in \<open>auto simp: focus_def s1_def rb_setters rb_write_def root_of_plug\<close>)
    next
      case (FR w p c)
      let ?m = "\<lparr>rbe_left = root_of w, rbe_right = Some e, rbe_parent = ctx_parent D, rbe_color = c\<rparr>"
      show thesis
        by (rule that [of s1 "s1\<lparr>rb_nodes := (rb_nodes s1)(p \<mapsto> ?m)\<rparr>"])
          (use s1 Cons FR foc side e in \<open>auto simp: focus_def s1_def rb_setters rb_write_def root_of_plug\<close>)
    qed
  qed
qed

lemma last_frame_color: "C \<noteq> [] \<Longrightarrow> color_of (plug C t) = frame_color (last C)"
proof (induction C arbitrary: t)
  case (Cons F C)
  then show ?case by (cases F; cases C) auto
qed simp

lemma between_sorted:
  assumes "between key e C" and "search_tree key (plug C Tip)"
  shows "sorted_wrt (<) (map key (ctx_left C @ e # ctx_right C))"
  using assms by (auto simp: search_tree_def between_def addrs_plug sorted_wrt_append)

text \<open>C3: \<^verbatim>\<open>RB_INSERT\<close> of an allocated node into a red-black tree ordered by the comparison function ends
  without dereferencing \<^verbatim>\<open>NULL\<close>.  When the tree has a node with the same key it returns that node and
  changes nothing; otherwise it returns \<^verbatim>\<open>NULL\<close>, and the tree then holds the old nodes and the new one, is
  ordered, and is again a red-black tree with a black root, in all four link fields of every node.\<close>

theorem rb_insert_correct:
  assumes cmp: "cmp_by cmp key" and tree: "rb_tree s t" and ord: "search_tree key t"
    and rb: "rbt t" "color_of t = RB_BLACK" and e: "rb_nodes s e \<noteq> None" "e \<notin> set (addrs t)"
  shows "(\<exists>a \<in> set (addrs t). key a = key e \<and> RB_INSERT cmp e s = Some (Some a, s))
    \<or> (\<forall>a \<in> set (addrs t). key a \<noteq> key e) \<and> (\<exists>s' t'. RB_INSERT cmp e s = Some (None, s') \<and> rb_tree s' t'
        \<and> search_tree key t' \<and> rbt t' \<and> color_of t' = RB_BLACK \<and> set (addrs t') = insert e (set (addrs t)))"
proof -
  have top: "focus s [] t" "rbh_root s = root_of t" using tree by (auto simp: focus_top rb_tree_def)
  consider (found) a where "rb_insert_descend cmp e (rbh_root s) None 0 s = Some (Inl a)" "a \<in> set (addrs t)" "key a = key e"
    | (leaf) C k where "rb_insert_descend cmp e (rbh_root s) None 0 s = Some (Inr (ctx_parent C, k))"
      "focus s C Tip" "plug C Tip = t" "between key e C" "side_ok C k" "\<forall>a \<in> set (addrs t). key a \<noteq> key e"
    using insert_descend [OF cmp top(1) ord, of e 0] top(2) by (auto simp: between_def)
  then show ?thesis
  proof cases
    case found
    then show ?thesis by (auto simp: RB_INSERT_def)
  next
    case leaf
    have ctx: "addrs t = ctx_left C @ ctx_right C" using leaf(3) addrs_plug [of C Tip] by auto
    with e(2) have "e \<notin> set (ctx_addrs C)" by simp
    from insert_leaf [OF leaf(2,5) e(1) this] obtain s1 s2 where
      link: "RB_SET (Some e) (ctx_parent C) s = Some s1"
        "(if ctx_parent C \<noteq> None
           then (if k < 0 then set_left (ctx_parent C) (Some e) s1 else set_right (ctx_parent C) (Some e) s1)
           else Some (s1\<lparr>rbh_root := Some e\<rparr>)) = Some s2"
        "focus s2 C (Nd Tip e RB_RED Tip)" by metis
    have "accepts C 0 RB_BLACK" using rb(1) leaf(3) rbt_plug [of C Tip] by auto
    moreover have "C \<noteq> [] \<Longrightarrow> frame_color (last C) = RB_BLACK" using last_frame_color rb(2) leaf(3) by metis
    ultimately have "loop_colors (Some e) s2 (addrs (plug C (Nd Tip e RB_RED Tip)))"
      using insert_loop_colors [OF link(3)] by simp
    then obtain s' t' where fin: "RB_INSERT_COLOR (Some e) s2 = Some s'" "rb_tree s' t'"
      "addrs t' = ctx_left C @ e # ctx_right C" "rbt t'" "color_of t' = RB_BLACK"
      by (rule insert_color_done) (simp add: addrs_plug)
    have "RB_INSERT cmp e s = Some (None, s')"
      unfolding RB_INSERT_def using leaf(1) link(1,2) fin(1)
      by (simp only: bind.bind_lunit sum.case prod.case)
    moreover have "search_tree key t'"
      using between_sorted [OF leaf(4)] ord leaf(3) fin(3) by (simp add: search_tree_def)
    ultimately show ?thesis using fin leaf(6) ctx by auto
  qed
qed

theorem rb_insert_correct_witness:
  "\<exists>s' t'. RB_INSERT cmp_addr 7 demo_state = Some (None, s') \<and> rb_tree s' t' \<and> rbt t' \<and> set (addrs t') = {2, 5, 7}"
proof -
  have "rb_nodes demo_state 7 \<noteq> None" "7 \<notin> set (addrs demo_tree)" "rbt demo_tree" "color_of demo_tree = RB_BLACK"
    by (simp_all add: demo_state_def demo_tree_def)
  from rb_insert_correct [OF demo_ok this(3,4,1,2)] show ?thesis by (auto simp: demo_tree_def)
qed

end
