(* ===== verification/Uv_Tree_Remove.thy ===== *)
theory Uv_Tree_Remove
  imports Uv_Tree_Insert
begin

text \<open>
  Removal from the red-black tree of \<^verbatim>\<open>usockets/include/uv/tree.h\<close>: the pointer code of \<^verbatim>\<open>RB_REMOVE\<close> and
  \<^verbatim>\<open>RB_REMOVE_COLOR\<close> ends, dereferences no \<^verbatim>\<open>NULL\<close>, takes exactly the given node out of the tree and
  restores the colouring.
\<close>

section \<open>One round of \<^verbatim>\<open>RB_REMOVE_COLOR\<close>\<close>

fun blacken :: "atree \<Rightarrow> atree" where
  "blacken Tip = Tip"
| "blacken (Nd l a c r) = Nd l a RB_BLACK r"

lemma addrs_blacken [simp]: "addrs (blacken t) = addrs t"
  by (cases t) auto

lemma color_blacken [simp]: "color_of (blacken t) = RB_BLACK"
  by (cases t) auto

lemma rbt_blacken: "rbt t \<Longrightarrow> rbt (blacken t)"
  by (cases t) auto

lemma is_red_child:
  assumes "focus s C (Nd l a c r)"
  shows "is_red (root_of l) s = Some (color_of l = RB_RED)" and "is_red (root_of r) s = Some (color_of r = RB_RED)"
  using assms by (cases l; cases r; auto simp: focus_def is_red_def rb_fields rb_cell_def)+

lemma color_set_left:
  assumes "focus s C (Nd l a c r)"
  obtains s' where "(if root_of l \<noteq> None then set_color (root_of l) RB_BLACK s else Some s) = Some s'"
    and "focus s' C (Nd (blacken l) a c r)"
proof (cases l)
  case (Nd ll b d lr)
  then have "focus s (FL a c r # C) (Nd ll b d lr)" using assms by (simp add: focus_FL)
  from focus_set_color [OF this] Nd that show thesis by (auto simp: focus_FL)
qed (use assms that in auto)

lemma color_set_right:
  assumes "focus s C (Nd l a c r)"
  obtains s' where "(if root_of r \<noteq> None then set_color (root_of r) RB_BLACK s else Some s) = Some s'"
    and "focus s' C (Nd l a c (blacken r))"
proof (cases r)
  case (Nd rl b d rr)
  then have "focus s (FR l a c # C) (Nd rl b d rr)" using assms by (simp add: focus_FR)
  from focus_set_color [OF this] Nd that show thesis by (auto simp: focus_FR)
qed (use assms that in auto)

text \<open>The last rotation, with the right child of the sibling painted black.\<close>

lemma remove_end_left:
  assumes "focus s (FL p pc (Nd wl w wc wr) # D) t"
  obtains s' where "rb_remove_end_left (Some p) (Some w) s = Some (Inr (rbh_root s'), s')"
    and "focus s' D (Nd (Nd t p RB_BLACK wl) w pc (blacken wr))"
proof -
  have f0: "focus s D (Nd t p pc (Nd wl w wc wr))" using assms by (simp add: focus_FL)
  then have "focus s (FR t p pc # D) (Nd wl w wc wr)" by (simp add: focus_FR)
  from focus_set_color [OF this] obtain s1 where
    s1: "set_color (Some w) pc s = Some s1" "focus s1 (FR t p pc # D) (Nd wl w pc wr)" by metis
  then have "focus s1 D (Nd t p pc (Nd wl w pc wr))" by (simp add: focus_FR)
  from focus_set_color [OF this] obtain s2 where
    s2: "set_color (Some p) RB_BLACK s1 = Some s2" "focus s2 D (Nd t p RB_BLACK (Nd wl w pc wr))" by metis
  then have f2: "focus s2 (FR t p RB_BLACK # D) (Nd wl w pc wr)" by (simp add: focus_FR)
  from color_set_right [OF f2] obtain s3 where
    s3: "(if root_of wr \<noteq> None then set_color (root_of wr) RB_BLACK s2 else Some s2) = Some s3"
      "focus s3 (FR t p RB_BLACK # D) (Nd wl w pc (blacken wr))" by metis
  then have "focus s3 D (Nd t p RB_BLACK (Nd wl w pc (blacken wr)))" by (simp add: focus_FR)
  from focus_rotate_left [OF this] obtain s4 where
    s4: "RB_ROTATE_LEFT (Some p) s3 = Some s4" "focus s4 D (Nd (Nd t p RB_BLACK wl) w pc (blacken wr))" by metis
  show thesis
    by (rule that [OF _ s4(2)])
      (simp only: rb_remove_end_left_def focus_fields [OF f0] s1(1) s2(1) focus_fields [OF f2] s3(1) s4(1) bind.bind_lunit)
qed

lemma remove_black_left_recolor:
  assumes foc: "focus s (FL p pc (Nd wl w wc wr) # D) t"
    and col: "color_of wl = RB_BLACK" "color_of wr = RB_BLACK"
  obtains s' where "rb_remove_black_left (Some p) (Some w) s = Some (Inl (ctx_parent D, Some p), s')"
    and "focus s' D (Nd t p pc (Nd wl w RB_RED wr))"
proof -
  have f0: "focus s (FR t p pc # D) (Nd wl w wc wr)" using foc by (simp add: focus_FL focus_FR)
  from focus_set_color [OF f0] obtain s1 where
    s1: "set_color (Some w) RB_RED s = Some s1" "focus s1 (FR t p pc # D) (Nd wl w RB_RED wr)" by metis
  then have f1: "focus s1 D (Nd t p pc (Nd wl w RB_RED wr))" by (simp add: focus_FR)
  have "rb_remove_black_left (Some p) (Some w) s = Some (Inl (ctx_parent D, Some p), s1)"
    using focus_fields [OF f0] is_red_child [OF f0] col s1(1) focus_fields [OF f1]
    by (simp add: rb_remove_black_left_def)
  then show thesis using f1 by (rule that)
qed

lemma remove_black_left_rotate:
  assumes foc: "focus s (FL p pc (Nd wl w wc wr) # D) t" and col: "color_of wr = RB_RED"
  obtains s' where "rb_remove_black_left (Some p) (Some w) s = Some (Inr (rbh_root s'), s')"
    and "focus s' D (Nd (Nd t p RB_BLACK wl) w pc (blacken wr))"
proof -
  have f0: "focus s (FR t p pc # D) (Nd wl w wc wr)" using foc by (simp add: focus_FL focus_FR)
  from remove_end_left [OF foc] obtain s' where
    s': "rb_remove_end_left (Some p) (Some w) s = Some (Inr (rbh_root s'), s')"
      "focus s' D (Nd (Nd t p RB_BLACK wl) w pc (blacken wr))" by metis
  have "rb_remove_black_left (Some p) (Some w) s = Some (Inr (rbh_root s'), s')"
    using focus_fields [OF f0] is_red_child [OF f0] col s'(1) by (simp add: rb_remove_black_left_def)
  then show thesis using s'(2) by (rule that)
qed

lemma remove_black_left_double:
  assumes foc: "focus s (FL p pc (Nd (Nd a b RB_RED c) w wc wr) # D) t" and col: "color_of wr = RB_BLACK"
  obtains s' where "rb_remove_black_left (Some p) (Some w) s = Some (Inr (rbh_root s'), s')"
    and "focus s' D (Nd (Nd t p RB_BLACK a) b pc (Nd c w RB_BLACK wr))"
proof -
  have f0: "focus s (FR t p pc # D) (Nd (Nd a b RB_RED c) w wc wr)" using foc by (simp add: focus_FL focus_FR)
  from color_set_left [OF f0] obtain s1 where
    s1: "(if Some b \<noteq> None then set_color (Some b) RB_BLACK s else Some s) = Some s1"
      "focus s1 (FR t p pc # D) (Nd (Nd a b RB_BLACK c) w wc wr)" by auto
  from focus_set_color [OF s1(2)] obtain s2 where
    s2: "set_color (Some w) RB_RED s1 = Some s2" "focus s2 (FR t p pc # D) (Nd (Nd a b RB_BLACK c) w RB_RED wr)" by metis
  from focus_rotate_right [OF s2(2)] obtain s3 where
    s3: "RB_ROTATE_RIGHT (Some w) s2 = Some s3" "focus s3 (FR t p pc # D) (Nd a b RB_BLACK (Nd c w RB_RED wr))" by metis
  then have f3: "focus s3 (FL p pc (Nd a b RB_BLACK (Nd c w RB_RED wr)) # D) t" "focus s3 D (Nd t p pc (Nd a b RB_BLACK (Nd c w RB_RED wr)))"
    by (simp_all add: focus_FL focus_FR)
  from remove_end_left [OF f3(1)] obtain s' where
    s': "rb_remove_end_left (Some p) (Some b) s3 = Some (Inr (rbh_root s'), s')"
      "focus s' D (Nd (Nd t p RB_BLACK a) b pc (Nd c w RB_BLACK wr))" by auto
  have "rb_remove_black_left (Some p) (Some w) s = Some (Inr (rbh_root s'), s')"
    using focus_fields [OF f0] is_red_child [OF f0] col s1(1) s2(1) s3(1) focus_fields [OF f3(2)] s'(1)
    by (simp add: rb_remove_black_left_def)
  then show thesis using s'(2) by (rule that)
qed

lemma remove_red_left:
  assumes foc: "focus s (FL p pc (Nd wl w RB_RED wr) # D) t"
  obtains s' where "rb_remove_step_left (Some p) s = rb_remove_black_left (Some p) (root_of wl) s'"
    and "focus s' (FL p RB_RED wl # FL w RB_BLACK wr # D) t"
proof -
  have f0: "focus s D (Nd t p pc (Nd wl w RB_RED wr))" "focus s (FR t p pc # D) (Nd wl w RB_RED wr)"
    using foc by (simp_all add: focus_FL focus_FR)
  from focus_set_color [OF f0(2)] obtain s1 where
    s1: "set_color (Some w) RB_BLACK s = Some s1" "focus s1 (FR t p pc # D) (Nd wl w RB_BLACK wr)" by metis
  then have "focus s1 D (Nd t p pc (Nd wl w RB_BLACK wr))" by (simp add: focus_FR)
  from focus_set_color [OF this] obtain s2 where
    s2: "set_color (Some p) RB_RED s1 = Some s2" "focus s2 D (Nd t p RB_RED (Nd wl w RB_BLACK wr))" by metis
  from focus_rotate_left [OF s2(2)] obtain s3 where
    s3: "RB_ROTATE_LEFT (Some p) s2 = Some s3" "focus s3 D (Nd (Nd t p RB_RED wl) w RB_BLACK wr)" by metis
  then have f3: "focus s3 (FL w RB_BLACK wr # D) (Nd t p RB_RED wl)" by (simp add: focus_FL)
  have "rb_remove_step_left (Some p) s = rb_remove_black_left (Some p) (root_of wl) s3"
    using focus_fields [OF f0(1)] focus_fields [OF f0(2)] s1(1) s2(1) s3(1) focus_fields [OF f3]
    by (simp add: rb_remove_step_left_def RB_SET_BLACKRED_def)
  moreover have "focus s3 (FL p RB_RED wl # FL w RB_BLACK wr # D) t" using f3 by (simp add: focus_FL)
  ultimately show thesis by (rule that)
qed

lemma remove_step_black_left:
  assumes foc: "focus s (FL p pc (Nd wl w RB_BLACK wr) # D) t"
  shows "rb_remove_step_left (Some p) s = rb_remove_black_left (Some p) (Some w) s"
proof -
  have "focus s D (Nd t p pc (Nd wl w RB_BLACK wr))" "focus s (FR t p pc # D) (Nd wl w RB_BLACK wr)"
    using foc by (simp_all add: focus_FL focus_FR)
  from focus_fields [OF this(1)] focus_fields [OF this(2)] show ?thesis
    by (simp add: rb_remove_step_left_def)
qed

lemma remove_end_right:
  assumes "focus s (FR (Nd wr w wc wl) p pc # D) t"
  obtains s' where "rb_remove_end_right (Some p) (Some w) s = Some (Inr (rbh_root s'), s')"
    and "focus s' D (Nd (blacken wr) w pc (Nd wl p RB_BLACK t))"
proof -
  have f0: "focus s D (Nd (Nd wr w wc wl) p pc t)" using assms by (simp add: focus_FR)
  then have "focus s (FL p pc t # D) (Nd wr w wc wl)" by (simp add: focus_FL)
  from focus_set_color [OF this] obtain s1 where
    s1: "set_color (Some w) pc s = Some s1" "focus s1 (FL p pc t # D) (Nd wr w pc wl)" by metis
  then have "focus s1 D (Nd (Nd wr w pc wl) p pc t)" by (simp add: focus_FL)
  from focus_set_color [OF this] obtain s2 where
    s2: "set_color (Some p) RB_BLACK s1 = Some s2" "focus s2 D (Nd (Nd wr w pc wl) p RB_BLACK t)" by metis
  then have f2: "focus s2 (FL p RB_BLACK t # D) (Nd wr w pc wl)" by (simp add: focus_FL)
  from color_set_left [OF f2] obtain s3 where
    s3: "(if root_of wr \<noteq> None then set_color (root_of wr) RB_BLACK s2 else Some s2) = Some s3"
      "focus s3 (FL p RB_BLACK t # D) (Nd (blacken wr) w pc wl)" by metis
  then have "focus s3 D (Nd (Nd (blacken wr) w pc wl) p RB_BLACK t)" by (simp add: focus_FL)
  from focus_rotate_right [OF this] obtain s4 where
    s4: "RB_ROTATE_RIGHT (Some p) s3 = Some s4" "focus s4 D (Nd (blacken wr) w pc (Nd wl p RB_BLACK t))" by metis
  show thesis
    by (rule that [OF _ s4(2)])
      (simp only: rb_remove_end_right_def focus_fields [OF f0] s1(1) s2(1) focus_fields [OF f2] s3(1) s4(1) bind.bind_lunit)
qed

lemma remove_black_right_recolor:
  assumes foc: "focus s (FR (Nd wr w wc wl) p pc # D) t"
    and col: "color_of wl = RB_BLACK" "color_of wr = RB_BLACK"
  obtains s' where "rb_remove_black_right (Some p) (Some w) s = Some (Inl (ctx_parent D, Some p), s')"
    and "focus s' D (Nd (Nd wr w RB_RED wl) p pc t)"
proof -
  have f0: "focus s (FL p pc t # D) (Nd wr w wc wl)" using foc by (simp add: focus_FR focus_FL)
  from focus_set_color [OF f0] obtain s1 where
    s1: "set_color (Some w) RB_RED s = Some s1" "focus s1 (FL p pc t # D) (Nd wr w RB_RED wl)" by metis
  then have f1: "focus s1 D (Nd (Nd wr w RB_RED wl) p pc t)" by (simp add: focus_FL)
  have "rb_remove_black_right (Some p) (Some w) s = Some (Inl (ctx_parent D, Some p), s1)"
    using focus_fields [OF f0] is_red_child [OF f0] col s1(1) focus_fields [OF f1]
    by (simp add: rb_remove_black_right_def)
  then show thesis using f1 by (rule that)
qed

lemma remove_black_right_rotate:
  assumes foc: "focus s (FR (Nd wr w wc wl) p pc # D) t" and col: "color_of wr = RB_RED"
  obtains s' where "rb_remove_black_right (Some p) (Some w) s = Some (Inr (rbh_root s'), s')"
    and "focus s' D (Nd (blacken wr) w pc (Nd wl p RB_BLACK t))"
proof -
  have f0: "focus s (FL p pc t # D) (Nd wr w wc wl)" using foc by (simp add: focus_FR focus_FL)
  from remove_end_right [OF foc] obtain s' where
    s': "rb_remove_end_right (Some p) (Some w) s = Some (Inr (rbh_root s'), s')"
      "focus s' D (Nd (blacken wr) w pc (Nd wl p RB_BLACK t))" by metis
  have "rb_remove_black_right (Some p) (Some w) s = Some (Inr (rbh_root s'), s')"
    using focus_fields [OF f0] is_red_child [OF f0] col s'(1) by (simp add: rb_remove_black_right_def)
  then show thesis using s'(2) by (rule that)
qed

lemma remove_black_right_double:
  assumes foc: "focus s (FR (Nd wr w wc (Nd c b RB_RED a)) p pc # D) t" and col: "color_of wr = RB_BLACK"
  obtains s' where "rb_remove_black_right (Some p) (Some w) s = Some (Inr (rbh_root s'), s')"
    and "focus s' D (Nd (Nd wr w RB_BLACK c) b pc (Nd a p RB_BLACK t))"
proof -
  have f0: "focus s (FL p pc t # D) (Nd wr w wc (Nd c b RB_RED a))" using foc by (simp add: focus_FR focus_FL)
  from color_set_right [OF f0] obtain s1 where
    s1: "(if Some b \<noteq> None then set_color (Some b) RB_BLACK s else Some s) = Some s1"
      "focus s1 (FL p pc t # D) (Nd wr w wc (Nd c b RB_BLACK a))" by auto
  from focus_set_color [OF s1(2)] obtain s2 where
    s2: "set_color (Some w) RB_RED s1 = Some s2" "focus s2 (FL p pc t # D) (Nd wr w RB_RED (Nd c b RB_BLACK a))" by metis
  from focus_rotate_left [OF s2(2)] obtain s3 where
    s3: "RB_ROTATE_LEFT (Some w) s2 = Some s3" "focus s3 (FL p pc t # D) (Nd (Nd wr w RB_RED c) b RB_BLACK a)" by metis
  then have f3: "focus s3 (FR (Nd (Nd wr w RB_RED c) b RB_BLACK a) p pc # D) t" "focus s3 D (Nd (Nd (Nd wr w RB_RED c) b RB_BLACK a) p pc t)"
    by (simp_all add: focus_FR focus_FL)
  from remove_end_right [OF f3(1)] obtain s' where
    s': "rb_remove_end_right (Some p) (Some b) s3 = Some (Inr (rbh_root s'), s')"
      "focus s' D (Nd (Nd wr w RB_BLACK c) b pc (Nd a p RB_BLACK t))" by auto
  have "rb_remove_black_right (Some p) (Some w) s = Some (Inr (rbh_root s'), s')"
    using focus_fields [OF f0] is_red_child [OF f0] col s1(1) s2(1) s3(1) focus_fields [OF f3(2)] s'(1)
    by (simp add: rb_remove_black_right_def)
  then show thesis using s'(2) by (rule that)
qed

lemma remove_red_right:
  assumes foc: "focus s (FR (Nd wr w RB_RED wl) p pc # D) t"
  obtains s' where "rb_remove_step_right (Some p) s = rb_remove_black_right (Some p) (root_of wl) s'"
    and "focus s' (FR wl p RB_RED # FR wr w RB_BLACK # D) t"
proof -
  have f0: "focus s D (Nd (Nd wr w RB_RED wl) p pc t)" "focus s (FL p pc t # D) (Nd wr w RB_RED wl)"
    using foc by (simp_all add: focus_FR focus_FL)
  from focus_set_color [OF f0(2)] obtain s1 where
    s1: "set_color (Some w) RB_BLACK s = Some s1" "focus s1 (FL p pc t # D) (Nd wr w RB_BLACK wl)" by metis
  then have "focus s1 D (Nd (Nd wr w RB_BLACK wl) p pc t)" by (simp add: focus_FL)
  from focus_set_color [OF this] obtain s2 where
    s2: "set_color (Some p) RB_RED s1 = Some s2" "focus s2 D (Nd (Nd wr w RB_BLACK wl) p RB_RED t)" by metis
  from focus_rotate_right [OF s2(2)] obtain s3 where
    s3: "RB_ROTATE_RIGHT (Some p) s2 = Some s3" "focus s3 D (Nd wr w RB_BLACK (Nd wl p RB_RED t))" by metis
  then have f3: "focus s3 (FR wr w RB_BLACK # D) (Nd wl p RB_RED t)" by (simp add: focus_FR)
  have "rb_remove_step_right (Some p) s = rb_remove_black_right (Some p) (root_of wl) s3"
    using focus_fields [OF f0(1)] focus_fields [OF f0(2)] s1(1) s2(1) s3(1) focus_fields [OF f3]
    by (simp add: rb_remove_step_right_def RB_SET_BLACKRED_def)
  moreover have "focus s3 (FR wl p RB_RED # FR wr w RB_BLACK # D) t" using f3 by (simp add: focus_FR)
  ultimately show thesis by (rule that)
qed

lemma remove_step_black_right:
  assumes foc: "focus s (FR (Nd wr w RB_BLACK wl) p pc # D) t"
  shows "rb_remove_step_right (Some p) s = rb_remove_black_right (Some p) (Some w) s"
proof -
  have "focus s D (Nd (Nd wr w RB_BLACK wl) p pc t)" "focus s (FL p pc t # D) (Nd wr w RB_BLACK wl)"
    using foc by (simp_all add: focus_FR focus_FL)
  from focus_fields [OF this(1)] focus_fields [OF this(2)] show ?thesis
    by (simp add: rb_remove_step_right_def)
qed

section \<open>What a round achieves\<close>

definition root_black :: "rb_ctx \<Rightarrow> bool" where
  "root_black C \<longleftrightarrow> C \<noteq> [] \<longrightarrow> frame_color (last C) = RB_BLACK"

lemma root_black_tl: "root_black (F # C) \<Longrightarrow> root_black C"
  by (auto simp: root_black_def split: if_splits)

text \<open>After a round the missing black node has moved to a subtree with a smaller context or a red root, or it
  is gone.\<close>

fun repaired :: "nat \<Rightarrow> nat list \<Rightarrow> (rb_ptr \<times> rb_ptr + rb_ptr) \<times> rb_state \<Rightarrow> bool" where
  "repaired k as (Inl (q, e), s') = (\<exists>D l p c r. q = ctx_parent D \<and> e = Some p \<and> focus s' D (Nd l p c r)
     \<and> addrs (plug D (Nd l p c r)) = as \<and> rbt (Nd l p RB_BLACK r)
     \<and> accepts D (Suc (black_height (Nd l p c r))) RB_BLACK \<and> root_black D \<and> (c = RB_RED \<or> length D < k))"
| "repaired k as (Inr e, s') = (\<exists>T. e = rbh_root s' \<and> rb_tree s' T \<and> addrs T = as \<and> rbt T \<and> T \<noteq> Tip)"

lemma repaired_InrI:
  assumes "focus s' D t" and "t \<noteq> Tip" and "rbt (plug D t)" and "as = addrs (plug D t)"
  shows "repaired k as (Inr (rbh_root s'), s')"
proof -
  have "addrs (plug D t) \<noteq> []" using assms(2) by (cases t) (auto simp: addrs_plug)
  then have "plug D t \<noteq> Tip" by auto
  then show ?thesis using assms focus_plug by auto
qed

lemma repaired_InlI:
  "focus s' D (Nd l p c r) \<Longrightarrow> as = addrs (plug D (Nd l p c r)) \<Longrightarrow> rbt (Nd l p RB_BLACK r) \<Longrightarrow>
   accepts D (Suc (black_height (Nd l p c r))) RB_BLACK \<Longrightarrow> root_black D \<Longrightarrow> c = RB_RED \<or> length D < k \<Longrightarrow>
   repaired k as (Inl (ctx_parent D, Some p), s')"
  unfolding repaired.simps by blast

lemma remove_black_left_outcome:
  assumes foc: "focus s (FL p pc (Nd wl w RB_BLACK wr) # D) t" and t: "rbt t" "color_of t = RB_BLACK"
    and acc: "accepts (FL p pc (Nd wl w RB_BLACK wr) # D) (Suc (black_height t)) RB_BLACK"
    and root: "root_black (FL p pc (Nd wl w RB_BLACK wr) # D)" and k: "pc = RB_RED \<or> length D < k"
  shows "\<exists>res. rb_remove_black_left (Some p) (Some w) s = Some res
    \<and> repaired k (addrs (plug (FL p pc (Nd wl w RB_BLACK wr) # D) t)) res"
proof -
  consider (rot) "color_of wr = RB_RED" | (dbl) a b c where "color_of wr = RB_BLACK" "wl = Nd a b RB_RED c"
    | (rec) "color_of wl = RB_BLACK" "color_of wr = RB_BLACK"
    by (metis (full_types) color_of.elims rb_color.exhaust)
  then show ?thesis
  proof cases
    case rot
    from remove_black_left_rotate [OF foc rot] obtain s' where
      "rb_remove_black_left (Some p) (Some w) s = Some (Inr (rbh_root s'), s')"
      "focus s' D (Nd (Nd t p RB_BLACK wl) w pc (blacken wr))" by metis
    moreover have "rbt (plug D (Nd (Nd t p RB_BLACK wl) w pc (blacken wr)))"
      using acc t rot by (cases wr) (auto simp: rbt_plug)
    ultimately show ?thesis by (auto simp: addrs_plug simp del: repaired.simps intro!: repaired_InrI)
  next
    case dbl
    from remove_black_left_double [OF foc [unfolded dbl(2)] dbl(1)] obtain s' where
      "rb_remove_black_left (Some p) (Some w) s = Some (Inr (rbh_root s'), s')"
      "focus s' D (Nd (Nd t p RB_BLACK a) b pc (Nd c w RB_BLACK wr))" by metis
    moreover have "rbt (plug D (Nd (Nd t p RB_BLACK a) b pc (Nd c w RB_BLACK wr)))"
      using acc t dbl by (auto simp: rbt_plug)
    ultimately show ?thesis by (auto simp: addrs_plug dbl(2) simp del: repaired.simps intro!: repaired_InrI)
  next
    case rec
    from remove_black_left_recolor [OF foc rec] obtain s' where
      st: "rb_remove_black_left (Some p) (Some w) s = Some (Inl (ctx_parent D, Some p), s')"
        "focus s' D (Nd t p pc (Nd wl w RB_RED wr))" by metis
    have "rbt (Nd t p RB_BLACK (Nd wl w RB_RED wr))" using acc t rec by auto
    moreover have "accepts D (Suc (black_height (Nd t p pc (Nd wl w RB_RED wr)))) RB_BLACK"
      using acc accepts_black by (auto split: if_splits intro: rb_color.exhaust)
    moreover have "addrs (plug (FL p pc (Nd wl w RB_BLACK wr) # D) t) = addrs (plug D (Nd t p pc (Nd wl w RB_RED wr)))"
      by (simp add: addrs_plug)
    ultimately have "repaired k (addrs (plug (FL p pc (Nd wl w RB_BLACK wr) # D) t)) (Inl (ctx_parent D, Some p), s')"
      using repaired_InlI [OF st(2)] k root_black_tl [OF root] by blast
    then show ?thesis using st(1) by blast
  qed
qed

lemma remove_step_left_outcome:
  assumes foc: "focus s (FL p pc W # D) t" and t: "rbt t" "color_of t = RB_BLACK"
    and acc: "accepts (FL p pc W # D) (Suc (black_height t)) RB_BLACK" and root: "root_black (FL p pc W # D)"
  shows "\<exists>res. rb_remove_step_left (Some p) s = Some res \<and> repaired (Suc (length D)) (addrs (plug (FL p pc W # D) t)) res"
proof -
  from acc obtain wl w wc wr where W: "W = Nd wl w wc wr" by (cases W) auto
  show ?thesis
  proof (cases "wc = RB_BLACK")
    case True
    note foc' = foc [unfolded W True] and acc' = acc [unfolded W True] and root' = root [unfolded W True]
    show ?thesis
      unfolding W True remove_step_black_left [OF foc'] by (rule remove_black_left_outcome [OF foc' t acc' root']) simp
  next
    case False
    then have wc: "wc = RB_RED" by (cases wc) auto
    have pc: "pc = RB_BLACK" using acc W wc by (cases pc) auto
    from acc W wc obtain vl v vr where V: "wl = Nd vl v RB_BLACK vr" by (cases wl) auto
    from remove_red_left [OF foc [unfolded W wc]] obtain s' where
      st: "rb_remove_step_left (Some p) s = rb_remove_black_left (Some p) (Some v) s'"
        "focus s' (FL p RB_RED (Nd vl v RB_BLACK vr) # FL w RB_BLACK wr # D) t"
      unfolding V by (metis root_of.simps(2))
    have acc': "accepts (FL p RB_RED (Nd vl v RB_BLACK vr) # FL w RB_BLACK wr # D) (Suc (black_height t)) RB_BLACK"
      using acc W wc V pc by auto
    have root': "root_black (FL p RB_RED (Nd vl v RB_BLACK vr) # FL w RB_BLACK wr # D)"
      using root by (auto simp: root_black_def split: if_splits)
    have "addrs (plug (FL p RB_RED (Nd vl v RB_BLACK vr) # FL w RB_BLACK wr # D) t) = addrs (plug (FL p pc W # D) t)"
      by (simp add: addrs_plug W V)
    with remove_black_left_outcome [OF st(2) t acc' root'] st(1) show ?thesis by simp
  qed
qed

lemma remove_black_right_outcome:
  assumes foc: "focus s (FR (Nd wr w RB_BLACK wl) p pc # D) t" and t: "rbt t" "color_of t = RB_BLACK"
    and acc: "accepts (FR (Nd wr w RB_BLACK wl) p pc # D) (Suc (black_height t)) RB_BLACK"
    and root: "root_black (FR (Nd wr w RB_BLACK wl) p pc # D)" and k: "pc = RB_RED \<or> length D < k"
  shows "\<exists>res. rb_remove_black_right (Some p) (Some w) s = Some res
    \<and> repaired k (addrs (plug (FR (Nd wr w RB_BLACK wl) p pc # D) t)) res"
proof -
  consider (rot) "color_of wr = RB_RED" | (dbl) a b c where "color_of wr = RB_BLACK" "wl = Nd c b RB_RED a"
    | (rec) "color_of wl = RB_BLACK" "color_of wr = RB_BLACK"
    by (metis (full_types) color_of.elims rb_color.exhaust)
  then show ?thesis
  proof cases
    case rot
    from remove_black_right_rotate [OF foc rot] obtain s' where
      "rb_remove_black_right (Some p) (Some w) s = Some (Inr (rbh_root s'), s')"
      "focus s' D (Nd (blacken wr) w pc (Nd wl p RB_BLACK t))" by metis
    moreover have "rbt (plug D (Nd (blacken wr) w pc (Nd wl p RB_BLACK t)))"
      using acc t rot by (cases wr) (auto simp: rbt_plug)
    ultimately show ?thesis by (auto simp: addrs_plug simp del: repaired.simps intro!: repaired_InrI)
  next
    case dbl
    from remove_black_right_double [OF foc [unfolded dbl(2)] dbl(1)] obtain s' where
      "rb_remove_black_right (Some p) (Some w) s = Some (Inr (rbh_root s'), s')"
      "focus s' D (Nd (Nd wr w RB_BLACK c) b pc (Nd a p RB_BLACK t))" by metis
    moreover have "rbt (plug D (Nd (Nd wr w RB_BLACK c) b pc (Nd a p RB_BLACK t)))"
      using acc t dbl by (auto simp: rbt_plug)
    ultimately show ?thesis by (auto simp: addrs_plug dbl(2) simp del: repaired.simps intro!: repaired_InrI)
  next
    case rec
    from remove_black_right_recolor [OF foc rec] obtain s' where
      st: "rb_remove_black_right (Some p) (Some w) s = Some (Inl (ctx_parent D, Some p), s')"
        "focus s' D (Nd (Nd wr w RB_RED wl) p pc t)" by metis
    have "rbt (Nd (Nd wr w RB_RED wl) p RB_BLACK t)" using acc t rec by auto
    moreover have "accepts D (Suc (black_height (Nd (Nd wr w RB_RED wl) p pc t))) RB_BLACK"
      using acc accepts_black by (auto split: if_splits intro: rb_color.exhaust)
    moreover have "addrs (plug (FR (Nd wr w RB_BLACK wl) p pc # D) t) = addrs (plug D (Nd (Nd wr w RB_RED wl) p pc t))"
      by (simp add: addrs_plug)
    ultimately have "repaired k (addrs (plug (FR (Nd wr w RB_BLACK wl) p pc # D) t)) (Inl (ctx_parent D, Some p), s')"
      using repaired_InlI [OF st(2)] k root_black_tl [OF root] by blast
    then show ?thesis using st(1) by blast
  qed
qed

lemma remove_step_right_outcome:
  assumes foc: "focus s (FR W p pc # D) t" and t: "rbt t" "color_of t = RB_BLACK"
    and acc: "accepts (FR W p pc # D) (Suc (black_height t)) RB_BLACK" and root: "root_black (FR W p pc # D)"
  shows "\<exists>res. rb_remove_step_right (Some p) s = Some res \<and> repaired (Suc (length D)) (addrs (plug (FR W p pc # D) t)) res"
proof -
  from acc obtain wl w wc wr where W: "W = Nd wr w wc wl" by (cases W) auto
  show ?thesis
  proof (cases "wc = RB_BLACK")
    case True
    note foc' = foc [unfolded W True] and acc' = acc [unfolded W True] and root' = root [unfolded W True]
    show ?thesis
      unfolding W True remove_step_black_right [OF foc'] by (rule remove_black_right_outcome [OF foc' t acc' root']) simp
  next
    case False
    then have wc: "wc = RB_RED" by (cases wc) auto
    have pc: "pc = RB_BLACK" using acc W wc by (cases pc) auto
    from acc W wc obtain vl v vr where V: "wl = Nd vr v RB_BLACK vl" by (cases wl) auto
    from remove_red_right [OF foc [unfolded W wc]] obtain s' where
      st: "rb_remove_step_right (Some p) s = rb_remove_black_right (Some p) (Some v) s'"
        "focus s' (FR (Nd vr v RB_BLACK vl) p RB_RED # FR wr w RB_BLACK # D) t"
      unfolding V by (metis root_of.simps(2))
    have acc': "accepts (FR (Nd vr v RB_BLACK vl) p RB_RED # FR wr w RB_BLACK # D) (Suc (black_height t)) RB_BLACK"
      using acc W wc V pc by auto
    have root': "root_black (FR (Nd vr v RB_BLACK vl) p RB_RED # FR wr w RB_BLACK # D)"
      using root by (auto simp: root_black_def split: if_splits)
    have "addrs (plug (FR (Nd vr v RB_BLACK vl) p RB_RED # FR wr w RB_BLACK # D) t) = addrs (plug (FR W p pc # D) t)"
      by (simp add: addrs_plug W V)
    with remove_black_right_outcome [OF st(2) t acc' root'] st(1) show ?thesis by simp
  qed
qed

section \<open>The loop of \<^verbatim>\<open>RB_REMOVE_COLOR\<close>\<close>

definition remove_colors :: "rb_ptr \<Rightarrow> rb_ptr \<Rightarrow> rb_state \<Rightarrow> nat list \<Rightarrow> bool" where
  "remove_colors q e s as \<longleftrightarrow> (\<exists>s' T. RB_REMOVE_COLOR q e s = Some s' \<and> rb_tree s' T \<and> addrs T = as \<and> rbt T
     \<and> color_of T = RB_BLACK)"

text \<open>Painting the root of the focus black ends the repair.\<close>

lemma paint_focus:
  assumes "focus s C t" and "rbt (blacken t)" and "accepts C (black_height (blacken t)) RB_BLACK" and "root_black C"
  shows "\<exists>s' T. (if root_of t \<noteq> None then set_color (root_of t) RB_BLACK s else Some s) = Some s'
    \<and> rb_tree s' T \<and> addrs T = addrs (plug C t) \<and> rbt T \<and> color_of T = RB_BLACK"
proof -
  have top: "color_of (plug C (blacken t)) = RB_BLACK"
    using assms(4) last_frame_color by (cases "C = []") (auto simp: root_black_def)
  have "\<exists>s'. (if root_of t \<noteq> None then set_color (root_of t) RB_BLACK s else Some s) = Some s' \<and> focus s' C (blacken t)"
  proof (cases t)
    case (Nd l a c r)
    with assms(1) focus_set_color [of s C l a c r RB_BLACK] show ?thesis by auto
  qed (use assms(1) in simp)
  then obtain s' where s': "(if root_of t \<noteq> None then set_color (root_of t) RB_BLACK s else Some s) = Some s'"
    "focus s' C (blacken t)" by blast
  have "rbt (plug C (blacken t))" using assms(2,3) by (simp add: rbt_plug)
  moreover have "rb_tree s' (plug C (blacken t))" using s'(2) by (simp add: focus_plug)
  ultimately show ?thesis using s'(1) top by (auto simp: addrs_plug)
qed

lemma remove_exit:
  assumes foc: "focus s C t" and "C = [] \<or> color_of t = RB_RED"
    and "rbt (blacken t)" and "accepts C (Suc (black_height t)) RB_BLACK" and "root_black C"
  shows "remove_colors q (root_of t) s (addrs (plug C t))"
proof -
  have red: "is_red (root_of t) s = Some (color_of t = RB_RED)"
    using focus_fields foc by (cases t) auto
  have "C = [] \<Longrightarrow> root_of t = rbh_root s" using foc by (simp add: focus_top rb_tree_def)
  then have "rb_remove_loop q (root_of t) s = Some (root_of t, s)"
    using red assms(2) by (subst rb_remove_loop.simps) auto
  then have run: "RB_REMOVE_COLOR q (root_of t) s = (if root_of t \<noteq> None then set_color (root_of t) RB_BLACK s else Some s)"
    by (simp add: RB_REMOVE_COLOR_def)
  have "accepts C (black_height (blacken t)) RB_BLACK" using assms(2,4) by (cases t) auto
  then show ?thesis
    using paint_focus [OF foc assms(3) _ assms(5)] unfolding remove_colors_def run by blast
qed

lemma remove_Inr:
  assumes "repaired k as (Inr e, s')"
  shows "\<exists>s'' T. (if e \<noteq> None then set_color e RB_BLACK s' else Some s') = Some s'' \<and> rb_tree s'' T \<and> addrs T = as
    \<and> rbt T \<and> color_of T = RB_BLACK"
proof -
  from assms obtain T where T: "e = rbh_root s'" "rb_tree s' T" "addrs T = as" "rbt T" by auto
  then have foc: "focus s' [] T" and e: "e = root_of T" by (auto simp: focus_top rb_tree_def)
  have "accepts [] (black_height (blacken T)) RB_BLACK" "root_black []" by (simp_all add: root_black_def)
  from paint_focus [OF foc rbt_blacken [OF T(4)] this] T(3) show ?thesis unfolding e by simp
qed

text \<open>One round of the loop at a black subtree that is not the root.\<close>

lemma remove_loop_round:
  assumes foc: "focus s (F # D) t" and col: "color_of t = RB_BLACK" and sib: "sibling F \<noteq> Tip"
  shows "rb_remove_loop (Some (frame_addr F)) (root_of t) s =
    Option.bind (case F of FL a c r \<Rightarrow> rb_remove_step_left (Some a) s | FR l a c \<Rightarrow> rb_remove_step_right (Some a) s)
      (\<lambda>(next, s). case next of Inl (p, e) \<Rightarrow> rb_remove_loop p e s | Inr e \<Rightarrow> Some (e, s))"
proof -
  have red: "is_red (root_of t) s = Some False" using focus_fields foc col by (cases t) auto
  have "frame_addr (last (F # D)) \<in> set (ctx_addrs (F # D))" by (rule frame_in_ctx) simp
  moreover have "rbh_root s = Some (frame_addr (last (F # D)))" using foc by (simp add: focus_def root_of_plug del: plug.simps)
  moreover have "a \<notin> set (ctx_addrs (F # D))" if "root_of t = Some a" for a
    using foc root_of_in [OF that] unfolding focus_def by auto
  ultimately have root: "root_of t \<noteq> rbh_root s" by metis
  have side: "root_of (sibling F) \<noteq> root_of t"
    using focus_distinct [OF foc] sib by (cases "t = Tip") auto
  show ?thesis
    using red root side frame_fields [OF foc]
    by (subst rb_remove_loop.simps) (cases F; simp)
qed

lemma remove_loop_colors:
  "focus s C t \<Longrightarrow> rbt t \<Longrightarrow> color_of t = RB_BLACK \<Longrightarrow> accepts C (Suc (black_height t)) RB_BLACK \<Longrightarrow> root_black C \<Longrightarrow>
   remove_colors (ctx_parent C) (root_of t) s (addrs (plug C t))"
proof (induction "length C" arbitrary: C s t rule: less_induct)
  case less
  show ?case
  proof (cases C)
    case Nil
    with less.prems remove_exit [of s C t] rbt_blacken show ?thesis by auto
  next
    case (Cons F D)
    let ?as = "addrs (plug C t)"
    let ?step = "case F of FL a c r \<Rightarrow> rb_remove_step_left (Some a) s | FR l a c \<Rightarrow> rb_remove_step_right (Some a) s"
    have sib: "sibling F \<noteq> Tip" using less.prems(4) Cons by (cases F) auto
    have "\<exists>res. ?step = Some res \<and> repaired (Suc (length D)) ?as res"
      using less.prems Cons remove_step_left_outcome remove_step_right_outcome by (cases F) auto
    then obtain nxt s' where st: "?step = Some (nxt, s')" "repaired (length C) ?as (nxt, s')" using Cons by auto
    note round = remove_loop_round [OF less.prems(1) [unfolded Cons] less.prems(3) sib, unfolded st(1)]
    show ?thesis
    proof (cases nxt)
      case (Inr e)
      then have "RB_REMOVE_COLOR (ctx_parent C) (root_of t) s = (if e \<noteq> None then set_color e RB_BLACK s' else Some s')"
        using round Cons by (simp add: RB_REMOVE_COLOR_def)
      then show ?thesis using remove_Inr [of "length C" ?as e s'] st(2) Inr unfolding remove_colors_def by simp
    next
      case (Inl qe)
      with st(2) obtain E l p c r where E: "qe = (ctx_parent E, Some p)" "focus s' E (Nd l p c r)"
        "addrs (plug E (Nd l p c r)) = ?as" "rbt (Nd l p RB_BLACK r)"
        "accepts E (Suc (black_height (Nd l p c r))) RB_BLACK" "root_black E" "c = RB_RED \<or> length E < length C"
        by (cases qe) auto
      have eq: "RB_REMOVE_COLOR (ctx_parent C) (root_of t) s = RB_REMOVE_COLOR (ctx_parent E) (Some p) s'"
        using round Cons Inl E(1) by (simp add: RB_REMOVE_COLOR_def)
      have "remove_colors (ctx_parent E) (Some p) s' ?as"
      proof (cases "c = RB_RED")
        case True
        then show ?thesis using remove_exit [OF E(2) _ _ E(5,6)] E(3,4) by simp
      next
        case False
        then have "c = RB_BLACK" "length E < length C" using E(7) by (cases c; simp)+
        then show ?thesis using less.hyps [of E s' "Nd l p c r"] E by auto
      qed
      then show ?thesis unfolding remove_colors_def eq .
    qed
  qed
qed

section \<open>Taking the node out\<close>

lemma focus_parts:
  assumes "focus s C t"
  shows "rep (rb_nodes s) (ctx_parent C) t" "rep_ctx (rb_nodes s) C (root_of t)" "distinct (addrs t)"
    "distinct (ctx_addrs C)" "set (addrs t) \<inter> set (ctx_addrs C) = {}" "rbh_root s = root_of (plug C t)"
  using assms by (auto simp: focus_def)

lemma focusI:
  "rep (rb_nodes s) (ctx_parent C) t \<Longrightarrow> rep_ctx (rb_nodes s) C (root_of t) \<Longrightarrow> distinct (addrs t) \<Longrightarrow>
   distinct (ctx_addrs C) \<Longrightarrow> set (addrs t) \<inter> set (ctx_addrs C) = {} \<Longrightarrow> rbh_root s = root_of (plug C t) \<Longrightarrow> focus s C t"
  by (auto simp: focus_def)

lemma remove_unlink:
  assumes foc: "focus s C (Nd l x c r)" and u: "l = Tip \<and> u = r \<or> r = Tip \<and> u = l"
  obtains s' where "rb_unlink (Some x) (root_of u) (ctx_parent C) s = Some s'" and "focus s' C u"
    and "rb_nodes s' x = rb_nodes s x"
proof -
  note parts = focus_parts [OF foc]
  have ux: "x \<notin> set (addrs u)" "set (addrs u) \<subseteq> set (addrs (Nd l x c r))" "distinct (addrs u)" "x \<notin> set (ctx_addrs C)"
    using parts(3,5) u by auto
  have "rep (rb_nodes s) (Some x) u" using parts(1) u by auto
  from rb_reparent [OF this ux(3), of "ctx_parent C"] obtain s1 where
    s1: "(if root_of u \<noteq> None then set_parent (root_of u) (ctx_parent C) s else Some s) = Some s1"
      "rep (rb_nodes s1) (ctx_parent C) u" "rbh_root s1 = rbh_root s"
      "\<And>a. a \<notin> set (addrs u) \<Longrightarrow> rb_nodes s1 a = rb_nodes s a" by blast
  have disj: "a \<notin> set (addrs u)" if "a \<in> set (ctx_addrs C)" for a using that ux(2) parts(5) by auto
  have "rep_ctx (rb_nodes s1) C (Some x)"
    using parts(2) rep_ctx_cong [of C "rb_nodes s1" "rb_nodes s"] s1(4) disj by simp
  from rb_relink_ctx [OF this parts(4) ux(4), of "root_of u"] obtain s2 where
    s2: "rb_relink (ctx_parent C) (Some x) (root_of u) s1 = Some s2" "rep_ctx (rb_nodes s2) C (root_of u)"
      "rbh_root s2 = (if C = [] then root_of u else rbh_root s1)"
      "\<And>a. a \<notin> set (ctx_addrs C) \<Longrightarrow> rb_nodes s2 a = rb_nodes s1 a" by blast
  have "rep (rb_nodes s2) (ctx_parent C) u"
    using s1(2) rep_cong [of u "rb_nodes s2" "rb_nodes s1"] s2(4) disj by blast
  then have "focus s2 C u"
    using s2(2,3) s1(3) parts(4-6) ux(2,3) by (intro focusI) (auto simp: root_of_plug)
  moreover have "rb_nodes s2 x = rb_nodes s x" using s2(4) s1(4) ux(1,4) by metis
  moreover have "rb_unlink (Some x) (root_of u) (ctx_parent C) s = Some s2"
    unfolding rb_unlink_def s1(1) by (simp only: bind.bind_lunit s2(1))
  ultimately show thesis using that by blast
qed

lemma remove_replace:
  assumes foc: "focus s C (Nd l x c r)" and l: "l \<noteq> Tip" and m: "rb_nodes s m \<noteq> None"
    "m \<notin> set (addrs (Nd l x c r))" "m \<notin> set (ctx_addrs C)"
  obtains s' where "rb_replace (Some x) (Some m) s = Some s'" and "focus s' C (Nd l m c r)"
proof -
  note parts = focus_parts [OF foc]
  let ?n = "\<lparr>rbe_left = root_of l, rbe_right = root_of r, rbe_parent = ctx_parent C, rbe_color = c\<rparr>"
  have xs: "x \<notin> set (ctx_addrs C)" "x \<notin> set (addrs l)" "x \<notin> set (addrs r)" "x \<noteq> m"
    "m \<notin> set (addrs l)" "m \<notin> set (addrs r)" "set (addrs l) \<inter> set (addrs r) = {}"
    "set (addrs l) \<inter> set (ctx_addrs C) = {}" "set (addrs r) \<inter> set (ctx_addrs C) = {}" "distinct (addrs l)" "distinct (addrs r)"
    using parts(3,5) m by auto
  define s1 where "s1 = s\<lparr>rb_nodes := (rb_nodes s)(m \<mapsto> ?n)\<rparr>"
  have "rep_ctx (rb_nodes s1) C (Some x)" using parts(2) m(3) by (simp add: s1_def)
  from rb_relink_ctx [OF this parts(4) xs(1), of "Some m"] obtain s2 where
    s2: "rb_relink (ctx_parent C) (Some x) (Some m) s1 = Some s2" "rep_ctx (rb_nodes s2) C (Some m)"
      "rbh_root s2 = (if C = [] then Some m else rbh_root s1)"
      "\<And>a. a \<notin> set (ctx_addrs C) \<Longrightarrow> rb_nodes s2 a = rb_nodes s1 a" by blast
  have eq2: "rb_nodes s2 a = rb_nodes s a" if "a \<in> set (addrs l) \<union> set (addrs r) \<union> {x}" for a
  proof -
    have "a \<notin> set (ctx_addrs C)" "a \<noteq> m" using that xs by auto
    with s2(4) [of a] show ?thesis by (simp add: s1_def)
  qed
  have "rep (rb_nodes s2) (Some x) l" "rep (rb_nodes s2) (Some x) r"
    using parts(1) rep_cong [of _ "rb_nodes s2" "rb_nodes s"] eq2 by auto
  from rb_reparent [OF this(1) xs(10), of "Some m"] obtain s3 where
    s3: "(if root_of l \<noteq> None then set_parent (root_of l) (Some m) s2 else Some s2) = Some s3" "rep (rb_nodes s3) (Some m) l"
      "rbh_root s3 = rbh_root s2" "\<And>a. a \<notin> set (addrs l) \<Longrightarrow> rb_nodes s3 a = rb_nodes s2 a" by blast
  have "rep (rb_nodes s3) (Some x) r"
    using \<open>rep (rb_nodes s2) (Some x) r\<close> rep_cong [of r "rb_nodes s3" "rb_nodes s2"] s3(4) xs(7) by blast
  from rb_reparent [OF this xs(11), of "Some m"] obtain s4 where
    s4: "(if root_of r \<noteq> None then set_parent (root_of r) (Some m) s3 else Some s3) = Some s4" "rep (rb_nodes s4) (Some m) r"
      "rbh_root s4 = rbh_root s3" "\<And>a. a \<notin> set (addrs r) \<Longrightarrow> rb_nodes s4 a = rb_nodes s3 a" by blast
  have "rep (rb_nodes s4) (Some m) l"
    using s3(2) rep_cong [of l "rb_nodes s4" "rb_nodes s3"] s4(4) xs(7) by blast
  moreover have "rep_ctx (rb_nodes s4) C (Some m)"
  proof -
    have "rb_nodes s4 a = rb_nodes s2 a" if "a \<in> set (ctx_addrs C)" for a
      using that s3(4) [of a] s4(4) [of a] xs(8,9) by (metis disjoint_iff)
    then show ?thesis using s2(2) rep_ctx_cong [of C "rb_nodes s4" "rb_nodes s2"] by blast
  qed
  moreover have "rb_nodes s4 m = Some ?n"
    using s4(4) [OF xs(6)] s3(4) [OF xs(5)] s2(4) [OF m(3)] by (simp add: s1_def)
  ultimately have "focus s4 C (Nd l m c r)"
    using s4(2,3) s3(3) s2(3) parts(3-6) m by (intro focusI) (auto simp: root_of_plug s1_def)
  moreover have "rb_replace (Some x) (Some m) s = Some s4"
  proof -
    have x: "rb_nodes s x = Some ?n" "rb_nodes s1 x = Some ?n" "rb_nodes s2 x = Some ?n" "rb_nodes s3 x = Some ?n"
      using focus_cell [OF foc] eq2 [of x] s3(4) [OF xs(2)] xs(4) by (auto simp: s1_def)
    have e: "rb_cell (Some x) s = Some ?n" "RB_PARENT (Some x) s1 = Some (ctx_parent C)"
      "RB_LEFT (Some x) s2 = Some (root_of l)" "RB_RIGHT (Some x) s3 = Some (root_of r)"
      "rb_write (Some m) (\<lambda>_. ?n) s = Some s1"
      using x m(1) by (auto simp: rb_fields rb_cell_def rb_write_def s1_def)
    have "set_parent (root_of l) (Some m) s2 = Some s3" using s3(1) l by (cases l) auto
    then show ?thesis unfolding rb_replace_def by (simp only: e s2(1) s4(1) bind.bind_lunit)
  qed
  ultimately show thesis using that by blast
qed

lemma remove_finish:
  assumes foc: "focus s C u" and u: "rbt u" "col = RB_RED \<Longrightarrow> color_of u = RB_BLACK"
    and acc: "accepts C (black_height u + (if col = RB_BLACK then 1 else 0)) col"
    and root: "root_black C" "col = RB_RED \<Longrightarrow> C \<noteq> []"
  shows "\<exists>s' T. (if col = RB_BLACK then RB_REMOVE_COLOR (ctx_parent C) (root_of u) s else Some s) = Some s'
    \<and> rb_tree s' T \<and> addrs T = addrs (plug C u) \<and> rbt T \<and> color_of T = RB_BLACK"
proof (cases "col = RB_BLACK")
  case True
  then have acc': "accepts C (Suc (black_height u)) RB_BLACK" using acc by simp
  have "remove_colors (ctx_parent C) (root_of u) s (addrs (plug C u))"
  proof (cases "color_of u = RB_RED")
    case True
    then show ?thesis using remove_exit [OF foc _ rbt_blacken [OF u(1)] acc' root(1)] by blast
  next
    case False
    then have "color_of u = RB_BLACK" by (metis rb_color.exhaust)
    then show ?thesis using remove_loop_colors [OF foc u(1) _ acc' root(1)] by blast
  qed
  then show ?thesis using True unfolding remove_colors_def by simp
next
  case False
  then have col: "col = RB_RED" by (metis rb_color.exhaust)
  then have "rbt (plug C u)" using u acc accepts_black by (simp add: rbt_plug)
  moreover have "color_of (plug C u) = RB_BLACK"
    using last_frame_color root col by (simp add: root_black_def)
  ultimately show ?thesis using foc col by (auto simp: focus_plug)
qed

lemma accepts_rename: "accepts (E @ FR l x c # C) n d = accepts (E @ FR l m c # C) n d"
  by (induction E n d rule: accepts.induct) auto

lemma ctx_append: "ctx_left (C @ D) = ctx_left D @ ctx_left C" "ctx_right (C @ D) = ctx_right C @ ctx_right D"
proof -
  have "ctx_left (C @ D) = ctx_left D @ ctx_left C \<and> ctx_right (C @ D) = ctx_right C @ ctx_right D"
  proof (induction C)
    case (Cons f C)
    then show ?case by (cases f) auto
  qed simp
  then show "ctx_left (C @ D) = ctx_left D @ ctx_left C" "ctx_right (C @ D) = ctx_right C @ ctx_right D" by auto
qed

text \<open>The leftmost node of a subtree.\<close>

lemma leftmost_split:
  assumes "r \<noteq> Tip" and "distinct (addrs r)"
  obtains E m mc mr where "r = plug E (Nd Tip m mc mr)" and "ctx_left E = []"
proof -
  from assms(1) obtain m ms where ms: "addrs r = m # ms" by (cases r; cases "addrs r") auto
  then obtain E l mc mr where r: "r = plug E (Nd l m mc mr)" using zipper_exists [of m r] by auto
  then have "m # ms = (ctx_left E @ addrs l) @ m # addrs mr @ ctx_right E" using ms by (simp add: addrs_plug)
  moreover have "distinct ((ctx_left E @ addrs l) @ m # addrs mr @ ctx_right E)" using assms(2) r by (simp add: addrs_plug)
  ultimately have "ctx_left E @ addrs l = []" by (cases "ctx_left E @ addrs l") auto
  then have "ctx_left E = []" "l = Tip" by (auto, cases l, auto)
  with r that show thesis by blast
qed

text \<open>The walk from a node of the tree to its root ends.\<close>

lemma walk_up_ends: "rep_ctx (rb_nodes s) C q \<Longrightarrow> C \<noteq> [] \<Longrightarrow> rb_walk_up (ctx_parent C) s = Some ()"
proof (induction C arbitrary: q)
  case (Cons f C)
  have up: "RB_PARENT (Some (frame_addr f)) s = Some (ctx_parent C)" and rest: "rep_ctx (rb_nodes s) C (Some (frame_addr f))"
    using Cons.prems(1) by (cases f; simp add: rb_fields rb_cell_def)+
  show ?case
  proof (cases "C = []")
    case True
    then show ?thesis using up by (subst rb_walk_up.simps) simp
  next
    case False
    then have "ctx_parent C \<noteq> None" by (cases C) auto
    with up Cons.IH [OF rest False] show ?thesis by (subst rb_walk_up.simps) simp
  qed
qed simp

lemma remove_two_children:
  assumes foc: "focus s C (Nd l x c r)" and ne: "l \<noteq> Tip" "r \<noteq> Tip"
  obtains E m mc mr s' where "r = plug E (Nd Tip m mc mr)" and "ctx_left E = []"
    and "rb_remove_two (Some x) s = Some (ctx_parent (E @ FR l m c # C), root_of mr, mc, s')"
    and "focus s' (E @ FR l m c # C) mr"
proof -
  note parts = focus_parts [OF foc]
  have "distinct (addrs r)" using parts(3) by simp
  from leftmost_split [OF ne(2) this] obtain E m mc mr where
    E: "r = plug E (Nd Tip m mc mr)" "ctx_left E = []" by blast
  have focE: "focus s (E @ FR l x c # C) (Nd Tip m mc mr)"
    using foc by (simp add: focus_plug E(1) plug_append)
  from remove_unlink [OF focE, of mr] obtain s1 where
    s1: "rb_unlink (Some m) (root_of mr) (ctx_parent (E @ FR l x c # C)) s = Some s1" "focus s1 (E @ FR l x c # C) mr"
      "rb_nodes s1 m = rb_nodes s m" by blast
  have foc1: "focus s1 C (Nd l x c (plug E mr))" using s1(2) by (simp add: focus_plug plug_append)
  have m: "m \<notin> set (addrs (Nd l x c (plug E mr)))" "m \<notin> set (ctx_addrs C)" "m \<noteq> x"
    using parts(3,5) by (auto simp: E(1) addrs_plug)
  have "rb_nodes s1 m \<noteq> None" using s1(3) focus_cell [OF focE] by simp
  from remove_replace [OF foc1 ne(1) this m(1,2)] obtain s2 where
    s2: "rb_replace (Some x) (Some m) s1 = Some s2" "focus s2 C (Nd l m c (plug E mr))" by metis
  have low: "rb_leftmost (root_of r) s = Some (Some m)"
    using rb_leftmost_loop [of s "Some x" r] parts(1) ne(2) E by (simp add: addrs_plug)
  have pm: "RB_PARENT (Some m) s1 = Some (ctx_parent (E @ FR l x c # C))"
    using s1(3) focus_cell [OF focE] by (simp add: rb_fields rb_cell_def)
  have "frame_addr (hd E) \<noteq> x" if "E \<noteq> []"
    using frame_in_ctx [of "hd E" E] that parts(3) by (auto simp: E(1) addrs_plug)
  then have par: "(if ctx_parent (E @ FR l x c # C) = Some x then Some m else ctx_parent (E @ FR l x c # C))
      = ctx_parent (E @ FR l m c # C)" by (cases E) auto
  have foc2: "focus s2 (E @ FR l m c # C) mr" using s2(2) by (simp add: focus_plug plug_append)
  have up: "(if ctx_parent (E @ FR l m c # C) \<noteq> None then rb_walk_up (ctx_parent (E @ FR l m c # C)) s2 else Some ()) = Some ()"
    using walk_up_ends [of s2 "E @ FR l m c # C"] focus_parts(2) [OF foc2] by simp
  have "rb_remove_two (Some x) s = Some (ctx_parent (E @ FR l m c # C), root_of mr, mc, s2)"
    unfolding rb_remove_two_def
    by (simp only: focus_fields [OF foc] low focus_fields [OF focE] s1(1) pm s2(1) par up bind.bind_lunit)
  with foc2 show thesis using that E by blast
qed

lemma remove1_middle: "x \<notin> set xs \<Longrightarrow> remove1 x (xs @ x # ys) = xs @ ys"
  by (induction xs) auto

lemma rb_remove_tree:
  assumes tree: "rb_tree s t" and rb: "rbt t" "color_of t = RB_BLACK" and x: "x \<in> set (addrs t)"
  shows "\<exists>s' t'. RB_REMOVE (Some x) s = Some (Some x, s') \<and> rb_tree s' t' \<and> addrs t' = remove1 x (addrs t)
    \<and> rbt t' \<and> color_of t' = RB_BLACK"
proof -
  from zipper_exists [OF x] obtain C l c r where t: "t = plug C (Nd l x c r)" by blast
  have foc: "focus s C (Nd l x c r)" using tree t by (simp add: focus_plug)
  have sub: "rbt (Nd l x c r)" "accepts C (black_height (Nd l x c r)) c" using rb(1) t by (auto simp: rbt_plug)
  have root: "root_black C" "c = RB_RED \<Longrightarrow> C \<noteq> []"
    using rb(2) t last_frame_color [of C] by (auto simp: root_black_def)
  have rm: "remove1 x (addrs t) = ctx_left C @ addrs l @ addrs r @ ctx_right C"
    using tree remove1_middle [of x "ctx_left C @ addrs l"] by (auto simp: t addrs_plug rb_tree_def)
  have fin: ?thesis if two: "(if root_of l = None then rb_remove_one (Some x) (root_of r) s
        else if root_of r = None then rb_remove_one (Some x) (root_of l) s else rb_remove_two (Some x) s)
      = Some (ctx_parent D, root_of u, col, s1)"
    and foc1: "focus s1 D u" and u: "rbt u" "col = RB_RED \<Longrightarrow> color_of u = RB_BLACK"
      "accepts D (black_height u + (if col = RB_BLACK then 1 else 0)) col"
      "root_black D" "col = RB_RED \<Longrightarrow> D \<noteq> []" "addrs (plug D u) = remove1 x (addrs t)" for D u col s1
  proof -
    from remove_finish [OF foc1 u(1-5)] obtain s' T where
      s': "(if col = RB_BLACK then RB_REMOVE_COLOR (ctx_parent D) (root_of u) s1 else Some s1) = Some s'"
        "rb_tree s' T" "addrs T = addrs (plug D u)" "rbt T" "color_of T = RB_BLACK" by blast
    have "RB_REMOVE (Some x) s = Some (Some x, s')"
      unfolding RB_REMOVE_def by (simp only: focus_fields [OF foc] bind.bind_lunit two prod.case s'(1))
    with s' u(6) show ?thesis by auto
  qed
  show ?thesis
  proof (cases "l = Tip \<or> r = Tip")
    case True
    then obtain u where u: "l = Tip \<and> u = r \<or> r = Tip \<and> u = l \<and> l \<noteq> Tip" by blast
    from remove_unlink [OF foc, of u] u obtain s1 where
      s1: "rb_unlink (Some x) (root_of u) (ctx_parent C) s = Some s1" "focus s1 C u" by blast
    have "rb_remove_one (Some x) (root_of u) s = Some (ctx_parent C, root_of u, c, s1)"
      unfolding rb_remove_one_def by (simp only: focus_fields [OF foc] bind.bind_lunit s1(1))
    then show ?thesis
      by (intro fin [OF _ s1(2)]) (use u sub root rm in \<open>auto simp: addrs_plug\<close>)
  next
    case False
    with remove_two_children [OF foc] obtain E m mc mr s1 where
      two: "r = plug E (Nd Tip m mc mr)" "ctx_left E = []"
        "rb_remove_two (Some x) s = Some (ctx_parent (E @ FR l m c # C), root_of mr, mc, s1)"
        "focus s1 (E @ FR l m c # C) mr" by metis
    have "rbt (plug (E @ FR l x c # C) (Nd Tip m mc mr))" using rb(1) t two(1) by (simp add: plug_append)
    then have "rbt (Nd Tip m mc mr)" "accepts (E @ FR l m c # C) (black_height (Nd Tip m mc mr)) mc"
      unfolding rbt_plug accepts_rename [of E l x c C _ _ m] by simp_all
    moreover have "root_black (E @ FR l m c # C)"
      using root(1) rb(2) t by (cases "C = []") (auto simp: root_black_def)
    ultimately show ?thesis
      by (intro fin [OF _ two(4)]) (use False two rm in \<open>auto simp: addrs_plug ctx_append\<close>)
  qed
qed

text \<open>C8: \<^verbatim>\<open>RB_REMOVE\<close> of a node of a red-black tree ends without dereferencing \<^verbatim>\<open>NULL\<close> and returns that node; the
  tree then holds the other nodes in their order, with all links consistent, and is again a red-black
  tree with a black root (or empty).\<close>

theorem rb_remove_correct:
  assumes "rb_tree s t" and "rbt t" and "color_of t = RB_BLACK" and "x \<in> set (addrs t)"
  shows "\<exists>s' t'. RB_REMOVE (Some x) s = Some (Some x, s') \<and> rb_tree s' t' \<and> addrs t' = remove1 x (addrs t)
    \<and> rbt t' \<and> color_of t' = RB_BLACK"
  by (rule rb_remove_tree [OF assms])

theorem rb_remove_correct_witness:
  "\<exists>s' t'. RB_REMOVE (Some 2) demo_state = Some (Some 2, s') \<and> rb_tree s' t' \<and> addrs t' = [5]"
proof -
  have "rbt demo_tree" "color_of demo_tree = RB_BLACK" "2 \<in> set (addrs demo_tree)" by (simp_all add: demo_tree_def)
  from rb_remove_correct [OF demo_ok(2) this] show ?thesis by (auto simp: demo_tree_def)
qed

end
