(* ===== verification/Uv_Tree_Loops.thy ===== *)
theory Uv_Tree_Loops
  imports Uv_Tree_Remove
begin

text \<open>
  The loops of \<^verbatim>\<open>uv/tree.h\<close> whose body may change the tree: \<^verbatim>\<open>RB_FOREACH_SAFE\<close> reads the successor of a node before the body runs, so
  the body may take the node out.  A body is a function of the node and the state; \<open>None\<close> is a null pointer that was followed.

  Shown here: a loop that takes out every node of a chosen set visits each node exactly once, in key order or in reverse, and leaves exactly
  the others in a red-black tree.
\<close>

section \<open>Roots and loops\<close>

definition RB_ROOT :: "rb_state \<Rightarrow> rb_ptr" where
  "RB_ROOT s = rbh_root s"

definition RB_EMPTY :: "rb_state \<Rightarrow> bool" where
  "RB_EMPTY s \<longleftrightarrow> RB_ROOT s = None"

type_synonym rb_body = "nat \<Rightarrow> rb_state \<Rightarrow> rb_state option"

text \<open>The nodes that were visited, and the state at the end.\<close>

partial_function (option) RB_FOREACH_FROM :: "rb_body \<Rightarrow> rb_ptr \<Rightarrow> rb_state \<Rightarrow> (nat list \<times> rb_state) option" where
  "RB_FOREACH_FROM body x s =
     (case x of
        None \<Rightarrow> Some ([], s)
      | Some a \<Rightarrow> do {
          y \<leftarrow> RB_NEXT x s;
          s1 \<leftarrow> body a s;
          r \<leftarrow> RB_FOREACH_FROM body y s1;
          Some (a # fst r, snd r) })"

definition RB_FOREACH_SAFE :: "rb_body \<Rightarrow> rb_state \<Rightarrow> (nat list \<times> rb_state) option" where
  "RB_FOREACH_SAFE body s = do { x \<leftarrow> RB_MIN s; RB_FOREACH_FROM body x s }"

partial_function (option) RB_FOREACH_REVERSE_FROM :: "rb_body \<Rightarrow> rb_ptr \<Rightarrow> rb_state \<Rightarrow> (nat list \<times> rb_state) option" where
  "RB_FOREACH_REVERSE_FROM body x s =
     (case x of
        None \<Rightarrow> Some ([], s)
      | Some a \<Rightarrow> do {
          y \<leftarrow> RB_PREV x s;
          s1 \<leftarrow> body a s;
          r \<leftarrow> RB_FOREACH_REVERSE_FROM body y s1;
          Some (a # fst r, snd r) })"

definition RB_FOREACH_REVERSE_SAFE :: "rb_body \<Rightarrow> rb_state \<Rightarrow> (nat list \<times> rb_state) option" where
  "RB_FOREACH_REVERSE_SAFE body s = do { x \<leftarrow> RB_MAX s; RB_FOREACH_REVERSE_FROM body x s }"

section \<open>Taking nodes out while walking\<close>

text \<open>A body that takes out the nodes of a set.\<close>

definition sweep :: "(nat \<Rightarrow> bool) \<Rightarrow> rb_body" where
  "sweep out a s = (if out a then map_option snd (RB_REMOVE (Some a) s) else Some s)"

definition good_tree :: "rb_state \<Rightarrow> atree \<Rightarrow> bool" where
  "good_tree s t \<longleftrightarrow> rb_tree s t \<and> rbt t \<and> color_of t = RB_BLACK"

lemma remove1_split: "a \<notin> set xs \<Longrightarrow> remove1 a (xs @ a # ys) = xs @ ys"
  by (rule remove1_middle)

lemma sweep_step:
  assumes "good_tree s t" and "addrs t = xs @ a # ys"
  shows "\<exists>s' t'. sweep out a s = Some s' \<and> good_tree s' t' \<and> addrs t' = xs @ filter (\<lambda>b. \<not> out b) [a] @ ys"
proof (cases "out a")
  case True
  have "a \<notin> set xs" using assms by (auto simp: good_tree_def rb_tree_def)
  moreover have "a \<in> set (addrs t)" using assms(2) by simp
  ultimately obtain s' t' where "RB_REMOVE (Some a) s = Some (Some a, s')" "rb_tree s' t'" "addrs t' = xs @ ys" "rbt t'" "color_of t' = RB_BLACK"
    using rb_remove_tree [of s t a] assms remove1_split [of a xs ys] by (auto simp: good_tree_def)
  with True show ?thesis by (auto simp: sweep_def good_tree_def)
next
  case False
  with assms show ?thesis by (auto simp: sweep_def)
qed

lemma next_of:
  assumes "rb_tree s t" and "addrs t = xs @ a # ys"
  shows "RB_NEXT (Some a) s = Some (hd_opt ys None)" and "RB_PREV (Some a) s = Some (last_opt xs None)"
proof -
  obtain C l c r where f: "focus s C (Nd l a c r)" "ctx_left C @ addrs l = xs" "addrs r @ ctx_right C = ys"
    by (rule focus_exists [OF assms])
  show "RB_NEXT (Some a) s = Some (hd_opt ys None)" using rb_next_focus [OF f(1)] by (simp only: f(3))
  show "RB_PREV (Some a) s = Some (last_opt xs None)" using rb_prev_focus [OF f(1)] by (simp only: f(2))
qed

lemma sweep_forwards:
  "good_tree s t \<Longrightarrow> addrs t = xs @ ys \<Longrightarrow>
     \<exists>s' t'. RB_FOREACH_FROM (sweep out) (hd_opt ys None) s = Some (ys, s') \<and> good_tree s' t'
       \<and> addrs t' = xs @ filter (\<lambda>b. \<not> out b) ys"
proof (induction ys arbitrary: s t xs)
  case Nil
  then show ?case by (auto simp: RB_FOREACH_FROM.simps)
next
  case (Cons a ys)
  then have tree: "rb_tree s t" by (simp add: good_tree_def)
  from sweep_step [OF Cons.prems, of out] obtain s1 t1 where
    s1: "sweep out a s = Some s1" "good_tree s1 t1" "addrs t1 = (xs @ filter (\<lambda>b. \<not> out b) [a]) @ ys" by auto
  from Cons.IH [OF s1(2,3)] obtain s' t' where "RB_FOREACH_FROM (sweep out) (hd_opt ys None) s1 = Some (ys, s')" "good_tree s' t'"
    "addrs t' = (xs @ filter (\<lambda>b. \<not> out b) [a]) @ filter (\<lambda>b. \<not> out b) ys" by blast
  then show ?case
    using next_of(1) [OF tree Cons.prems(2)] s1(1) by (subst RB_FOREACH_FROM.simps) auto
qed

lemma sweep_backwards:
  "good_tree s t \<Longrightarrow> addrs t = xs @ ys \<Longrightarrow>
     \<exists>s' t'. RB_FOREACH_REVERSE_FROM (sweep out) (last_opt xs None) s = Some (rev xs, s') \<and> good_tree s' t'
       \<and> addrs t' = filter (\<lambda>b. \<not> out b) xs @ ys"
proof (induction xs arbitrary: s t ys rule: rev_induct)
  case Nil
  then show ?case by (auto simp: RB_FOREACH_REVERSE_FROM.simps)
next
  case (snoc a xs)
  then have tree: "rb_tree s t" and parts: "addrs t = xs @ a # ys" by (simp_all add: good_tree_def)
  from sweep_step [OF snoc.prems(1) parts, of out] obtain s1 t1 where
    s1: "sweep out a s = Some s1" "good_tree s1 t1" "addrs t1 = xs @ filter (\<lambda>b. \<not> out b) [a] @ ys" by blast
  from snoc.IH [OF s1(2,3)] obtain s' t' where "RB_FOREACH_REVERSE_FROM (sweep out) (last_opt xs None) s1 = Some (rev xs, s')" "good_tree s' t'"
    "addrs t' = filter (\<lambda>b. \<not> out b) xs @ filter (\<lambda>b. \<not> out b) [a] @ ys" by blast
  then show ?case
    using next_of(2) [OF tree parts] s1(1) by (subst RB_FOREACH_REVERSE_FROM.simps) auto
qed

lemma ends_of:
  assumes "rb_tree s t"
  shows "RB_MIN s = Some (hd_opt (addrs t) None)" and "RB_MAX s = Some (last_opt (addrs t) None)"
proof -
  have "rep (rb_nodes s) None t" "rbh_root s = root_of t" using assms by (auto simp: rb_tree_def)
  then show "RB_MIN s = Some (hd_opt (addrs t) None)" "RB_MAX s = Some (last_opt (addrs t) None)"
    using rb_minmax_loop by (simp_all add: RB_MIN_def RB_MAX_def RB_MINMAX_def)
qed

text \<open>C38: A loop with \<^verbatim>\<open>RB_FOREACH_SAFE\<close> or \<^verbatim>\<open>RB_FOREACH_REVERSE_SAFE\<close> whose body takes the nodes of any chosen set out of a red-black tree ends
  without following a null pointer, visits every node of the original tree exactly once, in key order or in reverse, and leaves a
  red-black tree of exactly the other nodes in their order; so a loop that takes out every node leaves the empty tree.\<close>

theorem rb_foreach_safe_sweeps:
  assumes "rb_tree s t" and "rbt t" and "color_of t = RB_BLACK"
  shows "(\<exists>s' t'. RB_FOREACH_SAFE (sweep out) s = Some (addrs t, s') \<and> rb_tree s' t' \<and> addrs t' = filter (\<lambda>b. \<not> out b) (addrs t)
      \<and> rbt t' \<and> color_of t' = RB_BLACK \<and> RB_EMPTY s' = list_all out (addrs t))
    \<and> (\<exists>s' t'. RB_FOREACH_REVERSE_SAFE (sweep out) s = Some (rev (addrs t), s') \<and> rb_tree s' t'
      \<and> addrs t' = filter (\<lambda>b. \<not> out b) (addrs t) \<and> rbt t' \<and> color_of t' = RB_BLACK \<and> RB_EMPTY s' = list_all out (addrs t))"
proof -
  have good: "good_tree s t" using assms by (simp add: good_tree_def)
  have empty: "RB_EMPTY s' = list_all out (addrs t)" if "good_tree s' t'" "addrs t' = filter (\<lambda>b. \<not> out b) (addrs t)" for s' t'
  proof -
    have "RB_EMPTY s' \<longleftrightarrow> addrs t' = []" using that(1) by (cases t') (auto simp: RB_EMPTY_def RB_ROOT_def good_tree_def rb_tree_def)
    with that(2) show ?thesis by (simp add: filter_empty_conv list_all_iff)
  qed
  from sweep_forwards [OF good, of "[]" "addrs t" out] obtain s1 t1 where
    "RB_FOREACH_SAFE (sweep out) s = Some (addrs t, s1)" "good_tree s1 t1" "addrs t1 = filter (\<lambda>b. \<not> out b) (addrs t)"
    by (auto simp: RB_FOREACH_SAFE_def ends_of [OF assms(1)])
  moreover from sweep_backwards [OF good, of "addrs t" "[]" out] obtain s2 t2 where
    "RB_FOREACH_REVERSE_SAFE (sweep out) s = Some (rev (addrs t), s2)" "good_tree s2 t2" "addrs t2 = filter (\<lambda>b. \<not> out b) (addrs t)"
    by (auto simp: RB_FOREACH_REVERSE_SAFE_def ends_of [OF assms(1)])
  ultimately show ?thesis using empty unfolding good_tree_def by blast
qed

theorem rb_foreach_safe_sweeps_witness:
  "\<exists>s'. RB_FOREACH_SAFE (sweep (\<lambda>a. True)) demo_state = Some ([2, 5], s') \<and> RB_EMPTY s'"
proof -
  have "rbt demo_tree" "color_of demo_tree = RB_BLACK" by (simp_all add: demo_tree_def)
  from rb_foreach_safe_sweeps [OF demo_ok(2) this, of "\<lambda>a. True"] show ?thesis by (auto simp: demo_tree_def)
qed

end
