(* ===== verification/Uv_Types.thy ===== *)
theory Uv_Types
  imports Prelude
begin

unbundle bit_operations_syntax

text \<open>
  The enumerations of \<^verbatim>\<open>usockets/include/uv.h\<close>: handle and request types, numbered from the X-macro
  lists, with the private request types that \<^verbatim>\<open>uv/win.h\<close> adds on Windows; and the flag sets that
  callers combine with bitwise or.  The lemmas show that the numberings are without gaps or
  repetitions and that every flag can be recovered from a combination.
\<close>

section \<open>Handle and request types\<close>

definition UV_HANDLE_TYPE_MAP :: "(string \<times> string) list" where
  "UV_HANDLE_TYPE_MAP = [(''ASYNC'', ''async''), (''CHECK'', ''check''), (''FS_EVENT'', ''fs_event''),
    (''FS_POLL'', ''fs_poll''), (''HANDLE'', ''handle''), (''IDLE'', ''idle''), (''NAMED_PIPE'', ''pipe''),
    (''POLL'', ''poll''), (''PREPARE'', ''prepare''), (''PROCESS'', ''process''), (''STREAM'', ''stream''),
    (''TCP'', ''tcp''), (''TIMER'', ''timer''), (''TTY'', ''tty''), (''UDP'', ''udp''), (''SIGNAL'', ''signal'')]"

definition UV_REQ_TYPE_MAP :: "(string \<times> string) list" where
  "UV_REQ_TYPE_MAP = [(''REQ'', ''req''), (''CONNECT'', ''connect''), (''WRITE'', ''write''),
    (''SHUTDOWN'', ''shutdown''), (''UDP_SEND'', ''udp_send''), (''FS'', ''fs''), (''WORK'', ''work''),
    (''GETADDRINFO'', ''getaddrinfo''), (''GETNAMEINFO'', ''getnameinfo''), (''RANDOM'', ''random'')]"

text \<open>\<^verbatim>\<open>UV_REQ_TYPE_PRIVATE\<close> of \<^verbatim>\<open>uv/win.h\<close>; it is empty in \<^verbatim>\<open>uv/unix.h\<close>.\<close>

definition UV_REQ_TYPE_PRIVATE :: "bool \<Rightarrow> string list" where
  "UV_REQ_TYPE_PRIVATE win32 = (if win32 then [''UV_ACCEPT'', ''UV_FS_EVENT_REQ'', ''UV_POLL_REQ'', ''UV_PROCESS_EXIT'',
    ''UV_READ'', ''UV_UDP_RECV'', ''UV_WAKEUP'', ''UV_SIGNAL_REQ''] else [])"

text \<open>An enumeration without explicit values: its names, the first of value 0.\<close>

definition uv_handle_type :: "string list" where
  "uv_handle_type = ''UV_UNKNOWN_HANDLE'' # map (\<lambda>(uc, lc). ''UV_'' @ uc) UV_HANDLE_TYPE_MAP
     @ [''UV_FILE'', ''UV_HANDLE_TYPE_MAX'']"

definition uv_req_type :: "bool \<Rightarrow> string list" where
  "uv_req_type win32 = ''UV_UNKNOWN_REQ'' # map (\<lambda>(uc, lc). ''UV_'' @ uc) UV_REQ_TYPE_MAP
     @ UV_REQ_TYPE_PRIVATE win32 @ [''UV_REQ_TYPE_MAX'']"

definition enum_value :: "string list \<Rightarrow> string \<Rightarrow> nat option" where
  "enum_value names n = (if n \<in> set names then Some (length (takeWhile (\<lambda>m. m \<noteq> n) names)) else None)"

section \<open>Flags\<close>

definition uv_tcp_flags :: "(string \<times> int) list" where
  "uv_tcp_flags = [(''UV_TCP_IPV6ONLY'', 1), (''UV_TCP_REUSEPORT'', 2)]"

definition uv_udp_flags :: "(string \<times> int) list" where
  "uv_udp_flags = [(''UV_UDP_IPV6ONLY'', 1), (''UV_UDP_PARTIAL'', 2), (''UV_UDP_REUSEADDR'', 4),
    (''UV_UDP_MMSG_CHUNK'', 8), (''UV_UDP_MMSG_FREE'', 16), (''UV_UDP_LINUX_RECVERR'', 32),
    (''UV_UDP_REUSEPORT'', 64), (''UV_UDP_RECVMMSG'', 256)]"

definition uv_pipe_flags :: "(string \<times> int) list" where
  "uv_pipe_flags = [(''UV_PIPE_NO_TRUNCATE'', push_bit 0 1)]"

definition uv_poll_event :: "(string \<times> int) list" where
  "uv_poll_event = [(''UV_READABLE'', 1), (''UV_WRITABLE'', 2), (''UV_DISCONNECT'', 4), (''UV_PRIORITIZED'', 8)]"

definition uv_stdio_flags :: "(string \<times> int) list" where
  "uv_stdio_flags = [(''UV_IGNORE'', 0x00), (''UV_CREATE_PIPE'', 0x01), (''UV_INHERIT_FD'', 0x02), (''UV_INHERIT_STREAM'', 0x04),
    (''UV_READABLE_PIPE'', 0x10), (''UV_WRITABLE_PIPE'', 0x20), (''UV_NONBLOCK_PIPE'', 0x40),
    (''UV_OVERLAPPED_PIPE'', 0x40)]"

definition uv_process_flags :: "(string \<times> int) list" where
  "uv_process_flags = [(''UV_PROCESS_SETUID'', push_bit 0 1), (''UV_PROCESS_SETGID'', push_bit 1 1),
    (''UV_PROCESS_WINDOWS_VERBATIM_ARGUMENTS'', push_bit 2 1), (''UV_PROCESS_DETACHED'', push_bit 3 1),
    (''UV_PROCESS_WINDOWS_HIDE'', push_bit 4 1), (''UV_PROCESS_WINDOWS_HIDE_CONSOLE'', push_bit 5 1),
    (''UV_PROCESS_WINDOWS_HIDE_GUI'', push_bit 6 1), (''UV_PROCESS_WINDOWS_FILE_PATH_EXACT_NAME'', push_bit 7 1)]"

definition uv_fs_event :: "(string \<times> int) list" where
  "uv_fs_event = [(''UV_RENAME'', 1), (''UV_CHANGE'', 2)]"

definition uv_fs_event_flags :: "(string \<times> int) list" where
  "uv_fs_event_flags = [(''UV_FS_EVENT_WATCH_ENTRY'', 1), (''UV_FS_EVENT_STAT'', 2), (''UV_FS_EVENT_RECURSIVE'', 4)]"

text \<open>The groups, without \<^verbatim>\<open>UV_IGNORE\<close>, which stands for no flag.\<close>

definition uv_flag_groups :: "(string \<times> int) list list" where
  "uv_flag_groups = [uv_tcp_flags, uv_udp_flags, uv_pipe_flags, uv_poll_event, filter (\<lambda>(n, v). v \<noteq> 0) uv_stdio_flags, uv_process_flags,
     uv_fs_event, uv_fs_event_flags]"

text \<open>The combination of some flags of a group.\<close>

definition flag_or :: "int list \<Rightarrow> int" where
  "flag_or fs = foldr (OR) fs 0"

definition UV_VERSION_HEX :: int where
  "UV_VERSION_HEX = push_bit 16 1 OR push_bit 8 51 OR 1"

section \<open>Lemmas\<close>

text \<open>Every flag is one bit: the number of that bit.\<close>

definition flag_bits :: "(string \<times> int) list \<Rightarrow> nat list" where
  "flag_bits g = map (\<lambda>(n, v). length (takeWhile (\<lambda>k. v \<noteq> 2 ^ k) [0..<32])) g"

lemma flags_are_bits: "list_all (\<lambda>g. map snd g = map ((^) 2) (flag_bits g)) uv_flag_groups"
  by code_simp

lemma bit_flag_or: "bit (flag_or (map ((^) 2) ks)) n \<longleftrightarrow> n \<in> set ks"
  by (induction ks) (auto simp: flag_or_def bit_or_iff bit_exp_iff)

lemma flag_test: "flag_or (map ((^) 2) ks) AND 2 ^ k \<noteq> 0 \<longleftrightarrow> k \<in> set ks"
  by (metis and_exp_eq_0_iff_not_bit bit_flag_or)

lemma takeWhile_nth: "distinct xs \<Longrightarrow> i < length xs \<Longrightarrow> length (takeWhile (\<lambda>m. m \<noteq> xs ! i) xs) = i"
proof (induction xs arbitrary: i)
  case (Cons x xs)
  then show ?case by (cases i) auto
qed simp

lemma enum_value_nth: "distinct names \<Longrightarrow> i < length names \<Longrightarrow> enum_value names (names ! i) = Some i"
  by (simp add: enum_value_def takeWhile_nth)

text \<open>The flags of every group are single bits, so that from a combination of flags of a
  group a caller recovers exactly the flags it was made of.\<close>

theorem uv_flags_recoverable:
  assumes "g \<in> set uv_flag_groups" and "set fs \<subseteq> set (map snd g)" and "f \<in> set (map snd g)"
  shows "flag_or fs AND f \<noteq> 0 \<longleftrightarrow> f \<in> set fs"
proof -
  have bits: "map snd g = map ((^) 2) (flag_bits g)"
    using flags_are_bits assms(1) by (simp add: list_all_iff)
  then obtain ks where ks: "fs = map ((^) 2) ks" using assms(2) by (metis ex_map_conv imageE list.set_map subsetD)
  obtain k where k: "f = 2 ^ k" using bits assms(3) by auto
  show ?thesis unfolding ks k flag_test by auto
qed

theorem uv_flags_recoverable_witness: "flag_or [1, 4] AND 4 \<noteq> (0::int) \<and> flag_or [1, 4] AND 2 = (0::int)"
  using uv_flags_recoverable [of uv_poll_event "[1, 4]" 4] uv_flags_recoverable [of uv_poll_event "[1, 4]" 2]
  by (simp add: uv_flag_groups_def uv_poll_event_def)

text \<open>The handle types and, on either platform, the request types are numbered without gaps and
  without two names for one number: name number \<open>i\<close> of the enumeration has the value \<open>i\<close>.  The counts \<^verbatim>\<open>UV_HANDLE_TYPE_MAX\<close>
  and \<^verbatim>\<open>UV_REQ_TYPE_MAX\<close> are the largest values; the latter differs between Windows (19) and the other systems (11).\<close>

theorem uv_types_numbered:
  "map (enum_value uv_handle_type) uv_handle_type = map Some [0..<19]
   \<and> enum_value uv_handle_type ''UV_HANDLE_TYPE_MAX'' = Some 18
   \<and> map (enum_value (uv_req_type win32)) (uv_req_type win32) = map Some [0..<if win32 then 20 else 12]
   \<and> enum_value (uv_req_type win32) ''UV_REQ_TYPE_MAX'' = Some (if win32 then 19 else 11)"
proof -
  have d: "distinct uv_handle_type" "distinct (uv_req_type True)" "distinct (uv_req_type False)"
    "length uv_handle_type = 19" "length (uv_req_type True) = 20" "length (uv_req_type False) = 12"
    "uv_handle_type ! 18 = ''UV_HANDLE_TYPE_MAX''" "uv_req_type True ! 19 = ''UV_REQ_TYPE_MAX''"
    "uv_req_type False ! 11 = ''UV_REQ_TYPE_MAX''"
    by code_simp+
  have num: "map (enum_value xs) xs = map Some [0..<length xs]" if "distinct xs" for xs
    using enum_value_nth [OF that] by (intro nth_equalityI) auto
  show ?thesis
    using num [OF d(1)] num [OF d(2)] num [OF d(3)] d
      enum_value_nth [OF d(1), of 18] enum_value_nth [OF d(2), of 19] enum_value_nth [OF d(3), of 11]
    by (cases win32) simp_all
qed

end
