(* ===== verification/C_Layout.thy ===== *)
theory C_Layout
  imports Prelude
begin

text \<open>
  Types of C as the headers declare them, and their layout: sizes, alignments and offsets of members
  as every compiler for the supported platforms computes them (members in order, each at the next
  multiple of its alignment, the size of a structure or union rounded up to its alignment).  Sizes and
  alignments of the basic types and of the types of the system headers are a parameter.
\<close>

section \<open>Types\<close>

datatype ctype =
    T_base string
  | T_ptr string
  | T_fn string
  | T_array ctype nat
  | T_struct "(string \<times> ctype) list"
  | T_union "(string \<times> ctype) list"

type_synonym cfields = "(string \<times> ctype) list"

text \<open>The pointers to objects are laid out as \<^verbatim>\<open>void*\<close>, those to functions as \<^verbatim>\<open>void(*)(void)\<close>.\<close>

record c_env =
  ce_size :: "string \<Rightarrow> nat"
  ce_align :: "string \<Rightarrow> nat"

definition ptr_name :: string where "ptr_name = ''void*''"
definition fn_name :: string where "fn_name = ''void(*)(void)''"

section \<open>Layout\<close>

definition round_up :: "nat \<Rightarrow> nat \<Rightarrow> nat" where
  "round_up x a = (x + a - 1) div a * a"

definition max_of :: "nat list \<Rightarrow> nat" where
  "max_of xs = foldr max xs 1"

definition struct_end :: "(nat \<times> nat) list \<Rightarrow> nat" where
  "struct_end ls = foldl (\<lambda>off l. round_up off (snd l) + fst l) 0 ls"

text \<open>Size and alignment of a type.\<close>

fun c_layout :: "'x c_env_scheme \<Rightarrow> ctype \<Rightarrow> nat \<times> nat" where
  "c_layout e (T_base n) = (ce_size e n, ce_align e n)"
| "c_layout e (T_ptr n) = (ce_size e ptr_name, ce_align e ptr_name)"
| "c_layout e (T_fn n) = (ce_size e fn_name, ce_align e fn_name)"
| "c_layout e (T_array t n) = (n * fst (c_layout e t), snd (c_layout e t))"
| "c_layout e (T_struct fs) =
     (let ls = map (\<lambda>(n, t). c_layout e t) fs; a = max_of (map snd ls) in (round_up (struct_end ls) a, a))"
| "c_layout e (T_union fs) =
     (let ls = map (\<lambda>(n, t). c_layout e t) fs; a = max_of (map snd ls) in (round_up (foldr max (map fst ls) 0) a, a))"

abbreviation c_sizeof :: "'x c_env_scheme \<Rightarrow> ctype \<Rightarrow> nat" where
  "c_sizeof e t \<equiv> fst (c_layout e t)"

abbreviation c_alignof :: "'x c_env_scheme \<Rightarrow> ctype \<Rightarrow> nat" where
  "c_alignof e t \<equiv> snd (c_layout e t)"

fun offset_from :: "'x c_env_scheme \<Rightarrow> nat \<Rightarrow> cfields \<Rightarrow> string \<Rightarrow> nat option" where
  "offset_from e off [] f = None"
| "offset_from e off ((n, t) # fs) f =
     (if n = f then Some (round_up off (c_alignof e t))
      else offset_from e (round_up off (c_alignof e t) + c_sizeof e t) fs f)"

text \<open>\<^verbatim>\<open>offsetof(struct { fs }, f)\<close>\<close>

definition field_offset :: "'x c_env_scheme \<Rightarrow> cfields \<Rightarrow> string \<Rightarrow> nat option" where
  "field_offset e fs f = offset_from e 0 fs f"

section \<open>Facts on layouts\<close>

definition pow2 :: "nat \<Rightarrow> bool" where
  "pow2 n \<longleftrightarrow> (\<exists>k. n = 2 ^ k)"

text \<open>What every platform guarantees: alignments are powers of two.\<close>

definition c_env_ok :: "'x c_env_scheme \<Rightarrow> bool" where
  "c_env_ok e \<longleftrightarrow> (\<forall>n. pow2 (ce_align e n))"

lemma pow2_pos [simp]: "pow2 n \<Longrightarrow> 0 < n"
  by (auto simp: pow2_def)

lemma pow2_1 [simp]: "pow2 1" "pow2 (Suc 0)"
  by (auto simp: pow2_def intro: exI [of _ 0])

lemma pow2_dvd: "pow2 a \<Longrightarrow> pow2 b \<Longrightarrow> a \<le> b \<Longrightarrow> a dvd b"
  by (auto simp: pow2_def le_imp_power_dvd)

lemma round_up_ge: "0 < a \<Longrightarrow> x \<le> round_up x a"
proof -
  assume a: "0 < a"
  have "x + a - 1 = (x + a - 1) div a * a + (x + a - 1) mod a" by simp
  moreover have "(x + a - 1) mod a \<le> a - 1" using mod_less_divisor [OF a, of "x + a - 1"] by linarith
  ultimately show ?thesis using a unfolding round_up_def by linarith
qed

lemma round_up_dvd: "a dvd round_up x a"
  by (simp add: round_up_def)

lemma max_of_Cons: "max_of (x # xs) = max x (max_of xs)"
  by (simp add: max_of_def)

lemma max_of_ge: "x \<in> set xs \<Longrightarrow> x \<le> max_of xs"
  by (induction xs) (auto simp: max_of_Cons max_def)

lemma max_of_pow2: "\<forall>x \<in> set xs. pow2 x \<Longrightarrow> pow2 (max_of xs)"
  by (induction xs) (auto simp: max_of_def max_def)

lemma foldr_max_ge: "x \<in> set xs \<Longrightarrow> x \<le> foldr max xs (0::nat)"
  by (induction xs) (auto simp: max_def)

lemma c_align_pow2: "c_env_ok e \<Longrightarrow> pow2 (c_alignof e t)"
proof (induction t)
  case (T_struct fs)
  then show ?case by (auto simp: Let_def intro!: max_of_pow2)
next
  case (T_union fs)
  then show ?case by (auto simp: Let_def intro!: max_of_pow2)
qed (simp_all add: c_env_ok_def)

lemma c_align_pos: "c_env_ok e \<Longrightarrow> 0 < c_alignof e t"
  using c_align_pow2 pow2_pos by blast

text \<open>Common initial sequences: the offset of a member depends only on the members before it.\<close>

lemma offset_from_append:
  "f \<in> fst ` set xs \<Longrightarrow> offset_from e off (xs @ ys) f = offset_from e off xs f"
  by (induction e off xs f rule: offset_from.induct) auto

lemma offset_from_Some: "offset_from e off xs f \<noteq> None \<longleftrightarrow> f \<in> fst ` set xs"
  by (induction e off xs f rule: offset_from.induct) auto

lemma field_offset_append: "f \<in> fst ` set xs \<Longrightarrow> field_offset e (xs @ ys) f = field_offset e xs f"
  by (simp add: field_offset_def offset_from_append)

lemma field_offset_None: "field_offset e xs f = None \<longleftrightarrow> f \<notin> fst ` set xs"
  using offset_from_Some [of e 0 xs f] by (auto simp: field_offset_def)

text \<open>A member lies inside its structure.\<close>

abbreviation end_from :: "'x c_env_scheme \<Rightarrow> nat \<Rightarrow> cfields \<Rightarrow> nat" where
  "end_from e off fs \<equiv> foldl (\<lambda>off l. round_up off (snd l) + fst l) off (map (\<lambda>f. c_layout e (snd f)) fs)"

lemma struct_end_from: "struct_end (map (\<lambda>(n, t). c_layout e t) fs) = end_from e 0 fs"
  by (simp add: struct_end_def case_prod_unfold)

lemma struct_end_mono:
  assumes "c_env_ok e"
  shows "off \<le> end_from e off fs"
proof (induction fs arbitrary: off)
  case (Cons f fs)
  obtain n t where f: "f = (n, t)" by (cases f)
  have "off \<le> round_up off (c_alignof e t) + c_sizeof e t"
    using round_up_ge [OF c_align_pos [OF assms], of off t] by linarith
  with Cons.IH [of "round_up off (c_alignof e t) + c_sizeof e t"] show ?case
    by (simp add: f)
qed simp

lemma offset_from_fits:
  assumes "c_env_ok e"
  shows "distinct (map fst fs) \<Longrightarrow> (f, t) \<in> set fs \<Longrightarrow> offset_from e off fs f = Some i \<Longrightarrow>
    c_alignof e t dvd i \<and> i + c_sizeof e t \<le> end_from e off fs"
proof (induction fs arbitrary: off)
  case (Cons g fs)
  obtain n u where g: "g = (n, u)" by (cases g)
  show ?case
  proof (cases "n = f")
    case True
    with Cons.prems g have "t = u" by (auto simp: image_iff)
    with True Cons.prems g show ?thesis
      using struct_end_mono [OF assms, of "round_up off (c_alignof e u) + c_sizeof e u" fs]
      by (auto simp: round_up_dvd)
  next
    case False
    with Cons.prems g Cons.IH [of "round_up off (c_alignof e u) + c_sizeof e u"] show ?thesis
      by auto
  qed
qed simp

lemma struct_end_le_sizeof:
  assumes "c_env_ok e"
  shows "end_from e 0 fs \<le> c_sizeof e (T_struct fs)"
  using round_up_ge [OF c_align_pos [OF assms, of "T_struct fs"], of "end_from e 0 fs"]
  by (simp add: Let_def struct_end_from)

lemma field_inside:
  assumes "c_env_ok e" and "distinct (map fst fs)" and "(f, t) \<in> set fs"
  obtains i where "field_offset e fs f = Some i" "c_alignof e t dvd i" "i + c_sizeof e t \<le> c_sizeof e (T_struct fs)"
proof -
  from assms(3) obtain i where i: "field_offset e fs f = Some i"
    using field_offset_None [of e fs f] by force
  from offset_from_fits [OF assms, of 0 i] i struct_end_le_sizeof [OF assms(1), of fs] that show ?thesis
    by (auto simp: field_offset_def)
qed

text \<open>A union is as large and as strictly aligned as each of its members.\<close>

lemma union_holds_member:
  assumes ok: "c_env_ok e" and m: "(n, t) \<in> set fs"
  shows "c_sizeof e t \<le> c_sizeof e (T_union fs) \<and> c_alignof e t dvd c_alignof e (T_union fs)"
proof
  let ?ls = "map (\<lambda>(n, t). c_layout e t) fs"
  have l: "c_layout e t \<in> set ?ls" using m by force
  have "c_sizeof e t \<le> foldr max (map fst ?ls) 0"
    by (rule foldr_max_ge) (use l in force)
  also have "\<dots> \<le> c_sizeof e (T_union fs)"
    using round_up_ge [OF c_align_pos [OF ok, of "T_union fs"]] by (simp add: Let_def)
  finally show "c_sizeof e t \<le> c_sizeof e (T_union fs)" .
  have "c_alignof e t \<le> c_alignof e (T_union fs)"
    using max_of_ge [of "c_alignof e t" "map snd ?ls"] l by (force simp: Let_def)
  then show "c_alignof e t dvd c_alignof e (T_union fs)"
    by (rule pow2_dvd [OF c_align_pow2 [OF ok] c_align_pow2 [OF ok]])
qed

end
