(* ===== verification/Uv_Structs.thy ===== *)
theory Uv_Structs
  imports C_Layout Uv_Types
begin

text \<open>
  The structures of libuv as \<^verbatim>\<open>uv.h\<close> declares them: requests and handles, which imitate classes by
  repeating the members of their base in front, with the private members that \<^verbatim>\<open>uv/unix.h\<close> (prefix
  \<open>UNIX_\<close>) or \<^verbatim>\<open>uv/win.h\<close> (prefix \<open>WIN_\<close>) adds and the members of the platform headers.  Which header is
  read is decided by the macros the compiler predefines.  The lemmas show what the casts between
  handles, streams, requests and their bases rely on.
\<close>

section \<open>Platforms\<close>

text \<open>The macros that are defined before \<^verbatim>\<open>uv.h\<close> is read, and the numeric constants that the system headers
  define.\<close>

record uv_env = c_env +
  ue_defined :: "string \<Rightarrow> bool"
  ue_const :: "string \<Rightarrow> nat option"

definition by_platform :: "uv_env \<Rightarrow> 'a \<Rightarrow> 'a \<Rightarrow> 'a" where
  "by_platform e win unix = (if ue_defined e ''_WIN32'' then win else unix)"

datatype platform_h = Linux_h | Os390_h | Posix_h | Aix_h | Sunos_h | Darwin_h | Bsd_h | No_h

definition platform_header :: "uv_env \<Rightarrow> platform_h" where
  "platform_header e =
     (if ue_defined e ''__linux__'' then Linux_h
      else if ue_defined e ''__MVS__'' then Os390_h
      else if ue_defined e ''__PASE__'' then Posix_h
      else if ue_defined e ''_AIX'' then Aix_h
      else if ue_defined e ''__sun'' then Sunos_h
      else if ue_defined e ''__APPLE__'' then Darwin_h
      else if ue_defined e ''__DragonFly__'' \<or> ue_defined e ''__FreeBSD__'' \<or> ue_defined e ''__OpenBSD__''
        \<or> ue_defined e ''__NetBSD__'' then Bsd_h
      else if ue_defined e ''__CYGWIN__'' \<or> ue_defined e ''__MSYS__'' \<or> ue_defined e ''__HAIKU__''
        \<or> ue_defined e ''__QNX__'' \<or> ue_defined e ''__GNU__'' then Posix_h
      else No_h)"

definition NI_MAXHOST :: "uv_env \<Rightarrow> nat" where
  "NI_MAXHOST e = (case ue_const e ''NI_MAXHOST'' of Some n \<Rightarrow> n | None \<Rightarrow> 1025)"

definition NI_MAXSERV :: "uv_env \<Rightarrow> nat" where
  "NI_MAXSERV e = (case ue_const e ''NI_MAXSERV'' of Some n \<Rightarrow> n | None \<Rightarrow> 32)"

definition UV_MSAFD_PROVIDER_COUNT :: nat where
  "UV_MSAFD_PROVIDER_COUNT = 4"

text \<open>The entry that \<^verbatim>\<open>uv/tree.h\<close> embeds in the elements of a tree.\<close>

definition RB_ENTRY :: "string \<Rightarrow> ctype" where
  "RB_ENTRY type = T_struct [(''rbe_left'', T_ptr (''struct '' @ type)), (''rbe_right'', T_ptr (''struct '' @ type)),
     (''rbe_parent'', T_ptr (''struct '' @ type)), (''rbe_color'', T_base ''int'')]"

section \<open>Shared building blocks\<close>

definition uv__queue :: "uv_env \<Rightarrow> cfields" where
  "uv__queue e =
    [(''next'', T_ptr ''struct uv__queue''), (''prev'', T_ptr ''struct uv__queue'')]"

definition uv__work :: "uv_env \<Rightarrow> cfields" where
  "uv__work e =
    [(''work'', T_fn ''work''), (''done'', T_fn ''done''), (''loop'', T_ptr ''struct uv_loop_s''),
     (''wq'', T_struct (uv__queue e))]"

definition uv_timespec_t :: "uv_env \<Rightarrow> cfields" where
  "uv_timespec_t e =
    [(''tv_sec'', T_base ''long''), (''tv_nsec'', T_base ''long'')]"

definition uv_stat_t :: "uv_env \<Rightarrow> cfields" where
  "uv_stat_t e =
    [(''st_dev'', T_base ''uint64_t''), (''st_mode'', T_base ''uint64_t''),
     (''st_nlink'', T_base ''uint64_t''), (''st_uid'', T_base ''uint64_t''),
     (''st_gid'', T_base ''uint64_t''), (''st_rdev'', T_base ''uint64_t''),
     (''st_ino'', T_base ''uint64_t''), (''st_size'', T_base ''uint64_t''),
     (''st_blksize'', T_base ''uint64_t''), (''st_blocks'', T_base ''uint64_t''),
     (''st_flags'', T_base ''uint64_t''), (''st_gen'', T_base ''uint64_t''),
     (''st_atim'', T_struct (uv_timespec_t e)), (''st_mtim'', T_struct (uv_timespec_t e)),
     (''st_ctim'', T_struct (uv_timespec_t e)), (''st_birthtim'', T_struct (uv_timespec_t e))]"

section \<open>Fields added by the platform headers\<close>

definition DARWIN_UV_IO_PRIVATE_PLATFORM_FIELDS :: "uv_env \<Rightarrow> cfields" where
  "DARWIN_UV_IO_PRIVATE_PLATFORM_FIELDS e =
    [(''rcount'', T_base ''int''), (''wcount'', T_base ''int'')]"

definition BSD_UV_IO_PRIVATE_PLATFORM_FIELDS :: "uv_env \<Rightarrow> cfields" where
  "BSD_UV_IO_PRIVATE_PLATFORM_FIELDS e =
    [(''rcount'', T_base ''int''), (''wcount'', T_base ''int'')]"

definition UV_IO_PRIVATE_PLATFORM_FIELDS :: "uv_env \<Rightarrow> cfields" where
  "UV_IO_PRIVATE_PLATFORM_FIELDS e =
    (case platform_header e of
       Darwin_h \<Rightarrow> DARWIN_UV_IO_PRIVATE_PLATFORM_FIELDS e
     | Bsd_h \<Rightarrow> BSD_UV_IO_PRIVATE_PLATFORM_FIELDS e
     | _ \<Rightarrow> [])"

definition uv__io_s :: "uv_env \<Rightarrow> cfields" where
  "uv__io_s e =
    [(''bits'', T_base ''uintptr_t''), (''pending_queue'', T_struct (uv__queue e)),
     (''watcher_queue'', T_struct (uv__queue e)), (''pevents'', T_base ''unsigned int''),
     (''events'', T_base ''unsigned int''), (''fd'', T_base ''int'')]
    @ UV_IO_PRIVATE_PLATFORM_FIELDS e"

definition LINUX_UV_PLATFORM_LOOP_FIELDS :: "uv_env \<Rightarrow> cfields" where
  "LINUX_UV_PLATFORM_LOOP_FIELDS e =
    [(''inotify_read_watcher'', T_struct (uv__io_s e)), (''inotify_watchers'', T_ptr ''void''),
     (''inotify_fd'', T_base ''int'')]"

definition OS390_UV_PLATFORM_LOOP_FIELDS :: "uv_env \<Rightarrow> cfields" where
  "OS390_UV_PLATFORM_LOOP_FIELDS e =
    [(''ep'', T_ptr ''void'')]"

definition POSIX_UV_PLATFORM_LOOP_FIELDS :: "uv_env \<Rightarrow> cfields" where
  "POSIX_UV_PLATFORM_LOOP_FIELDS e =
    [(''poll_fds'', T_ptr ''struct pollfd''), (''poll_fds_used'', T_base ''size_t''),
     (''poll_fds_size'', T_base ''size_t''), (''poll_fds_iterating'', T_base ''unsigned char'')]"

definition AIX_UV_PLATFORM_LOOP_FIELDS :: "uv_env \<Rightarrow> cfields" where
  "AIX_UV_PLATFORM_LOOP_FIELDS e =
    [(''fs_fd'', T_base ''int'')]"

definition SUNOS_UV_PLATFORM_LOOP_FIELDS :: "uv_env \<Rightarrow> cfields" where
  "SUNOS_UV_PLATFORM_LOOP_FIELDS e =
    [(''fs_event_watcher'', T_struct (uv__io_s e)), (''fs_fd'', T_base ''int'')]"

definition DARWIN_UV_PLATFORM_LOOP_FIELDS :: "uv_env \<Rightarrow> cfields" where
  "DARWIN_UV_PLATFORM_LOOP_FIELDS e =
    [(''cf_thread'', T_base ''uv_thread_t''), (''_cf_reserved'', T_ptr ''void''),
     (''cf_state'', T_ptr ''void''), (''cf_mutex'', T_base ''uv_mutex_t''),
     (''cf_sem'', T_base ''uv_sem_t''), (''cf_signals'', T_struct (uv__queue e))]"

definition UV_PLATFORM_LOOP_FIELDS :: "uv_env \<Rightarrow> cfields" where
  "UV_PLATFORM_LOOP_FIELDS e =
    (case platform_header e of
       Linux_h \<Rightarrow> LINUX_UV_PLATFORM_LOOP_FIELDS e
     | Os390_h \<Rightarrow> OS390_UV_PLATFORM_LOOP_FIELDS e
     | Posix_h \<Rightarrow> POSIX_UV_PLATFORM_LOOP_FIELDS e
     | Aix_h \<Rightarrow> AIX_UV_PLATFORM_LOOP_FIELDS e
     | Sunos_h \<Rightarrow> SUNOS_UV_PLATFORM_LOOP_FIELDS e
     | Darwin_h \<Rightarrow> DARWIN_UV_PLATFORM_LOOP_FIELDS e
     | _ \<Rightarrow> [])"

definition LINUX_UV_PLATFORM_FS_EVENT_FIELDS :: "uv_env \<Rightarrow> cfields" where
  "LINUX_UV_PLATFORM_FS_EVENT_FIELDS e =
    [(''watchers'', T_struct (uv__queue e)), (''wd'', T_base ''int'')]"

definition OS390_UV_PLATFORM_FS_EVENT_FIELDS :: "uv_env \<Rightarrow> cfields" where
  "OS390_UV_PLATFORM_FS_EVENT_FIELDS e =
    [(''rfis_rftok'', T_array (T_base ''char'') 8)]"

definition AIX_UV_PLATFORM_FS_EVENT_FIELDS :: "uv_env \<Rightarrow> cfields" where
  "AIX_UV_PLATFORM_FS_EVENT_FIELDS e =
    [(''event_watcher'', T_struct (uv__io_s e)), (''dir_filename'', T_ptr ''char'')]"

definition SUNOS_UV_PLATFORM_FS_EVENT_FIELDS :: "uv_env \<Rightarrow> cfields" where
  "SUNOS_UV_PLATFORM_FS_EVENT_FIELDS e =
    [(''fo'', T_base ''file_obj_t''), (''fd'', T_base ''int'')]"

definition DARWIN_UV_PLATFORM_FS_EVENT_FIELDS :: "uv_env \<Rightarrow> cfields" where
  "DARWIN_UV_PLATFORM_FS_EVENT_FIELDS e =
    [(''event_watcher'', T_struct (uv__io_s e)), (''realpath'', T_ptr ''char''),
     (''realpath_len'', T_base ''int''), (''cf_flags'', T_base ''int''), (''cf_cb'', T_ptr ''uv_async_t''),
     (''cf_events'', T_struct (uv__queue e)), (''cf_member'', T_struct (uv__queue e)),
     (''cf_error'', T_base ''int''), (''cf_mutex'', T_base ''uv_mutex_t'')]"

definition BSD_UV_PLATFORM_FS_EVENT_FIELDS :: "uv_env \<Rightarrow> cfields" where
  "BSD_UV_PLATFORM_FS_EVENT_FIELDS e =
    [(''event_watcher'', T_struct (uv__io_s e))]"

definition UV_PLATFORM_FS_EVENT_FIELDS :: "uv_env \<Rightarrow> cfields" where
  "UV_PLATFORM_FS_EVENT_FIELDS e =
    (case platform_header e of
       Linux_h \<Rightarrow> LINUX_UV_PLATFORM_FS_EVENT_FIELDS e
     | Os390_h \<Rightarrow> OS390_UV_PLATFORM_FS_EVENT_FIELDS e
     | Aix_h \<Rightarrow> AIX_UV_PLATFORM_FS_EVENT_FIELDS e
     | Sunos_h \<Rightarrow> if ue_defined e ''PORT_SOURCE_FILE'' then SUNOS_UV_PLATFORM_FS_EVENT_FIELDS e else []
     | Darwin_h \<Rightarrow> DARWIN_UV_PLATFORM_FS_EVENT_FIELDS e
     | Bsd_h \<Rightarrow> BSD_UV_PLATFORM_FS_EVENT_FIELDS e
     | _ \<Rightarrow> [])"

definition DARWIN_UV_STREAM_PRIVATE_PLATFORM_FIELDS :: "uv_env \<Rightarrow> cfields" where
  "DARWIN_UV_STREAM_PRIVATE_PLATFORM_FIELDS e =
    [(''select'', T_ptr ''void'')]"

definition UV_STREAM_PRIVATE_PLATFORM_FIELDS :: "uv_env \<Rightarrow> cfields" where
  "UV_STREAM_PRIVATE_PLATFORM_FIELDS e =
    (case platform_header e of
       Darwin_h \<Rightarrow> DARWIN_UV_STREAM_PRIVATE_PLATFORM_FIELDS e
     | _ \<Rightarrow> [])"

definition UNIX_uv_buf_t :: "uv_env \<Rightarrow> cfields" where
  "UNIX_uv_buf_t e =
    [(''base'', T_ptr ''char''), (''len'', T_base ''size_t'')]"

definition WIN_uv_buf_t :: "uv_env \<Rightarrow> cfields" where
  "WIN_uv_buf_t e =
    [(''len'', T_base ''ULONG''), (''base'', T_ptr ''char'')]"

definition AFD_POLL_HANDLE_INFO :: "uv_env \<Rightarrow> cfields" where
  "AFD_POLL_HANDLE_INFO e =
    [(''Handle'', T_base ''HANDLE''), (''Events'', T_base ''ULONG''), (''Status'', T_base ''NTSTATUS'')]"

definition AFD_POLL_INFO :: "uv_env \<Rightarrow> cfields" where
  "AFD_POLL_INFO e =
    [(''Timeout'', T_base ''LARGE_INTEGER''), (''NumberOfHandles'', T_base ''ULONG''),
     (''Exclusive'', T_base ''ULONG''), (''Handles'', T_array (T_struct (AFD_POLL_HANDLE_INFO e)) 1)]"

section \<open>Requests\<close>

definition UNIX_UV_REQ_PRIVATE_FIELDS :: "uv_env \<Rightarrow> cfields" where
  "UNIX_UV_REQ_PRIVATE_FIELDS e =
    []"

definition WIN_UV_REQ_PRIVATE_FIELDS :: "uv_env \<Rightarrow> cfields" where
  "WIN_UV_REQ_PRIVATE_FIELDS e =
    [(''u'', T_union [(''io'', T_struct [(''overlapped'', T_base ''OVERLAPPED''), (''queued_bytes'', T_base ''size_t'')]),
         (''connect'', T_struct [(''result'', T_base ''ULONG_PTR''), (''pipeHandle'', T_base ''HANDLE''),
             (''duplex_flags'', T_base ''DWORD''), (''name'', T_ptr ''WCHAR'')])]),
     (''next_req'', T_ptr ''struct uv_req_s'')]"

definition UV_REQ_FIELDS :: "uv_env \<Rightarrow> cfields" where
  "UV_REQ_FIELDS e =
    [(''data'', T_ptr ''void''), (''type'', T_base ''uv_req_type''),
     (''reserved'', T_array (T_ptr ''void'') 6)]
    @ by_platform e (WIN_UV_REQ_PRIVATE_FIELDS e) (UNIX_UV_REQ_PRIVATE_FIELDS e)"

definition uv_req_s :: "uv_env \<Rightarrow> cfields" where
  "uv_req_s e =
    UV_REQ_FIELDS e"

definition uv_pipe_accept_s :: "uv_env \<Rightarrow> cfields" where
  "uv_pipe_accept_s e =
    UV_REQ_FIELDS e
    @ [(''pipeHandle'', T_base ''HANDLE''), (''next_pending'', T_ptr ''struct uv_pipe_accept_s'')]"

definition uv_tcp_accept_s :: "uv_env \<Rightarrow> cfields" where
  "uv_tcp_accept_s e =
    UV_REQ_FIELDS e
    @ [(''accept_socket'', T_base ''SOCKET''),
     (''accept_buffer'', T_array (T_base ''char'') (ce_size e ''struct sockaddr_storage'' * 2 + 32)),
     (''event_handle'', T_base ''HANDLE''), (''wait_handle'', T_base ''HANDLE''),
     (''next_pending'', T_ptr ''struct uv_tcp_accept_s'')]"

definition uv_read_s :: "uv_env \<Rightarrow> cfields" where
  "uv_read_s e =
    UV_REQ_FIELDS e @ [(''event_handle'', T_base ''HANDLE''), (''wait_handle'', T_base ''HANDLE'')]"

definition UNIX_UV_SHUTDOWN_PRIVATE_FIELDS :: "uv_env \<Rightarrow> cfields" where
  "UNIX_UV_SHUTDOWN_PRIVATE_FIELDS e =
    []"

definition WIN_UV_SHUTDOWN_PRIVATE_FIELDS :: "uv_env \<Rightarrow> cfields" where
  "WIN_UV_SHUTDOWN_PRIVATE_FIELDS e =
    []"

definition uv_shutdown_s :: "uv_env \<Rightarrow> cfields" where
  "uv_shutdown_s e =
    UV_REQ_FIELDS e
    @ [(''handle'', T_ptr ''uv_stream_t''), (''cb'', T_fn ''uv_shutdown_cb'')]
    @ by_platform e (WIN_UV_SHUTDOWN_PRIVATE_FIELDS e) (UNIX_UV_SHUTDOWN_PRIVATE_FIELDS e)"

definition UNIX_UV_WRITE_PRIVATE_FIELDS :: "uv_env \<Rightarrow> cfields" where
  "UNIX_UV_WRITE_PRIVATE_FIELDS e =
    [(''queue'', T_struct (uv__queue e)), (''write_index'', T_base ''unsigned int''),
     (''bufs'', T_ptr ''uv_buf_t''), (''nbufs'', T_base ''unsigned int''), (''error'', T_base ''int''),
     (''bufsml'', T_array (T_struct (by_platform e (WIN_uv_buf_t e) (UNIX_uv_buf_t e))) 4)]"

definition WIN_UV_WRITE_PRIVATE_FIELDS :: "uv_env \<Rightarrow> cfields" where
  "WIN_UV_WRITE_PRIVATE_FIELDS e =
    [(''coalesced'', T_base ''int''),
     (''write_buffer'', T_struct (by_platform e (WIN_uv_buf_t e) (UNIX_uv_buf_t e))),
     (''event_handle'', T_base ''HANDLE''), (''wait_handle'', T_base ''HANDLE'')]"

definition uv_write_s :: "uv_env \<Rightarrow> cfields" where
  "uv_write_s e =
    UV_REQ_FIELDS e
    @ [(''cb'', T_fn ''uv_write_cb''), (''send_handle'', T_ptr ''uv_stream_t''),
     (''handle'', T_ptr ''uv_stream_t'')]
    @ by_platform e (WIN_UV_WRITE_PRIVATE_FIELDS e) (UNIX_UV_WRITE_PRIVATE_FIELDS e)"

definition UNIX_UV_CONNECT_PRIVATE_FIELDS :: "uv_env \<Rightarrow> cfields" where
  "UNIX_UV_CONNECT_PRIVATE_FIELDS e =
    [(''queue'', T_struct (uv__queue e))]"

definition WIN_UV_CONNECT_PRIVATE_FIELDS :: "uv_env \<Rightarrow> cfields" where
  "WIN_UV_CONNECT_PRIVATE_FIELDS e =
    []"

definition uv_connect_s :: "uv_env \<Rightarrow> cfields" where
  "uv_connect_s e =
    UV_REQ_FIELDS e
    @ [(''cb'', T_fn ''uv_connect_cb''), (''handle'', T_ptr ''uv_stream_t'')]
    @ by_platform e (WIN_UV_CONNECT_PRIVATE_FIELDS e) (UNIX_UV_CONNECT_PRIVATE_FIELDS e)"

definition UNIX_UV_UDP_SEND_PRIVATE_FIELDS :: "uv_env \<Rightarrow> cfields" where
  "UNIX_UV_UDP_SEND_PRIVATE_FIELDS e =
    [(''queue'', T_struct (uv__queue e)),
     (''u'', T_union [(''addr'', T_base ''struct sockaddr''), (''storage'', T_base ''struct sockaddr_storage'')]),
     (''nbufs'', T_base ''unsigned int''), (''bufs'', T_ptr ''uv_buf_t''), (''status'', T_base ''ssize_t''),
     (''send_cb'', T_fn ''uv_udp_send_cb''),
     (''bufsml'', T_array (T_struct (by_platform e (WIN_uv_buf_t e) (UNIX_uv_buf_t e))) 4)]"

definition WIN_UV_UDP_SEND_PRIVATE_FIELDS :: "uv_env \<Rightarrow> cfields" where
  "WIN_UV_UDP_SEND_PRIVATE_FIELDS e =
    []"

definition uv_udp_send_s :: "uv_env \<Rightarrow> cfields" where
  "uv_udp_send_s e =
    UV_REQ_FIELDS e
    @ [(''handle'', T_ptr ''uv_udp_t''), (''cb'', T_fn ''uv_udp_send_cb'')]
    @ by_platform e (WIN_UV_UDP_SEND_PRIVATE_FIELDS e) (UNIX_UV_UDP_SEND_PRIVATE_FIELDS e)"

definition UNIX_UV_GETADDRINFO_PRIVATE_FIELDS :: "uv_env \<Rightarrow> cfields" where
  "UNIX_UV_GETADDRINFO_PRIVATE_FIELDS e =
    [(''work_req'', T_struct (uv__work e)), (''cb'', T_fn ''uv_getaddrinfo_cb''),
     (''hints'', T_ptr ''struct addrinfo''), (''hostname'', T_ptr ''char''), (''service'', T_ptr ''char''),
     (''addrinfo'', T_ptr ''struct addrinfo''), (''retcode'', T_base ''int'')]"

definition WIN_UV_GETADDRINFO_PRIVATE_FIELDS :: "uv_env \<Rightarrow> cfields" where
  "WIN_UV_GETADDRINFO_PRIVATE_FIELDS e =
    [(''work_req'', T_struct (uv__work e)), (''getaddrinfo_cb'', T_fn ''uv_getaddrinfo_cb''),
     (''alloc'', T_ptr ''void''), (''node'', T_ptr ''WCHAR''), (''service'', T_ptr ''WCHAR''),
     (''addrinfow'', T_ptr ''struct addrinfoW''), (''addrinfo'', T_ptr ''struct addrinfo''),
     (''retcode'', T_base ''int'')]"

definition uv_getaddrinfo_s :: "uv_env \<Rightarrow> cfields" where
  "uv_getaddrinfo_s e =
    UV_REQ_FIELDS e
    @ [(''loop'', T_ptr ''uv_loop_t'')]
    @ by_platform e (WIN_UV_GETADDRINFO_PRIVATE_FIELDS e) (UNIX_UV_GETADDRINFO_PRIVATE_FIELDS e)"

definition UNIX_UV_GETNAMEINFO_PRIVATE_FIELDS :: "uv_env \<Rightarrow> cfields" where
  "UNIX_UV_GETNAMEINFO_PRIVATE_FIELDS e =
    [(''work_req'', T_struct (uv__work e)), (''getnameinfo_cb'', T_fn ''uv_getnameinfo_cb''),
     (''storage'', T_base ''struct sockaddr_storage''), (''flags'', T_base ''int''),
     (''host'', T_array (T_base ''char'') (NI_MAXHOST e)),
     (''service'', T_array (T_base ''char'') (NI_MAXSERV e)), (''retcode'', T_base ''int'')]"

definition WIN_UV_GETNAMEINFO_PRIVATE_FIELDS :: "uv_env \<Rightarrow> cfields" where
  "WIN_UV_GETNAMEINFO_PRIVATE_FIELDS e =
    [(''work_req'', T_struct (uv__work e)), (''getnameinfo_cb'', T_fn ''uv_getnameinfo_cb''),
     (''storage'', T_base ''struct sockaddr_storage''), (''flags'', T_base ''int''),
     (''host'', T_array (T_base ''char'') (NI_MAXHOST e)),
     (''service'', T_array (T_base ''char'') (NI_MAXSERV e)), (''retcode'', T_base ''int'')]"

definition uv_getnameinfo_s :: "uv_env \<Rightarrow> cfields" where
  "uv_getnameinfo_s e =
    UV_REQ_FIELDS e
    @ [(''loop'', T_ptr ''uv_loop_t'')]
    @ by_platform e (WIN_UV_GETNAMEINFO_PRIVATE_FIELDS e) (UNIX_UV_GETNAMEINFO_PRIVATE_FIELDS e)"

definition UNIX_UV_WORK_PRIVATE_FIELDS :: "uv_env \<Rightarrow> cfields" where
  "UNIX_UV_WORK_PRIVATE_FIELDS e =
    [(''work_req'', T_struct (uv__work e))]"

definition WIN_UV_WORK_PRIVATE_FIELDS :: "uv_env \<Rightarrow> cfields" where
  "WIN_UV_WORK_PRIVATE_FIELDS e =
    [(''work_req'', T_struct (uv__work e))]"

definition uv_work_s :: "uv_env \<Rightarrow> cfields" where
  "uv_work_s e =
    UV_REQ_FIELDS e
    @ [(''loop'', T_ptr ''uv_loop_t''), (''work_cb'', T_fn ''uv_work_cb''),
     (''after_work_cb'', T_fn ''uv_after_work_cb'')]
    @ by_platform e (WIN_UV_WORK_PRIVATE_FIELDS e) (UNIX_UV_WORK_PRIVATE_FIELDS e)"

definition UNIX_UV_FS_PRIVATE_FIELDS :: "uv_env \<Rightarrow> cfields" where
  "UNIX_UV_FS_PRIVATE_FIELDS e =
    [(''new_path'', T_ptr ''char''), (''file'', T_base ''uv_file''), (''flags'', T_base ''int''),
     (''mode'', T_base ''mode_t''), (''nbufs'', T_base ''unsigned int''), (''bufs'', T_ptr ''uv_buf_t''),
     (''off'', T_base ''off_t''), (''uid'', T_base ''uv_uid_t''), (''gid'', T_base ''uv_gid_t''),
     (''atime'', T_base ''double''), (''mtime'', T_base ''double''), (''work_req'', T_struct (uv__work e)),
     (''bufsml'', T_array (T_struct (by_platform e (WIN_uv_buf_t e) (UNIX_uv_buf_t e))) 4)]"

definition WIN_UV_FS_PRIVATE_FIELDS :: "uv_env \<Rightarrow> cfields" where
  "WIN_UV_FS_PRIVATE_FIELDS e =
    [(''work_req'', T_struct (uv__work e)), (''flags'', T_base ''int''), (''sys_errno_'', T_base ''DWORD''),
     (''file'', T_union [(''pathw'', T_ptr ''WCHAR''), (''fd'', T_base ''int'')]),
     (''fs'', T_union [(''info'', T_struct [(''mode'', T_base ''int''), (''new_pathw'', T_ptr ''WCHAR''), (''file_flags'', T_base ''int''),
             (''fd_out'', T_base ''int''), (''nbufs'', T_base ''unsigned int''), (''bufs'', T_ptr ''uv_buf_t''),
             (''offset'', T_base ''int64_t''),
             (''bufsml'', T_array (T_struct (by_platform e (WIN_uv_buf_t e) (UNIX_uv_buf_t e))) 4)]),
         (''time'', T_struct [(''atime'', T_base ''double''), (''mtime'', T_base ''double'')])])]"

definition uv_fs_s :: "uv_env \<Rightarrow> cfields" where
  "uv_fs_s e =
    UV_REQ_FIELDS e
    @ [(''fs_type'', T_base ''uv_fs_type''), (''loop'', T_ptr ''uv_loop_t''), (''cb'', T_fn ''uv_fs_cb''),
     (''result'', T_base ''ssize_t''), (''ptr'', T_ptr ''void''), (''path'', T_ptr ''char''),
     (''statbuf'', T_struct (uv_stat_t e))]
    @ by_platform e (WIN_UV_FS_PRIVATE_FIELDS e) (UNIX_UV_FS_PRIVATE_FIELDS e)"

definition uv_random_s :: "uv_env \<Rightarrow> cfields" where
  "uv_random_s e =
    UV_REQ_FIELDS e
    @ [(''loop'', T_ptr ''uv_loop_t''), (''status'', T_base ''int''), (''buf'', T_ptr ''void''),
     (''buflen'', T_base ''size_t''), (''cb'', T_fn ''uv_random_cb''), (''work_req'', T_struct (uv__work e))]"

section \<open>Handles\<close>

definition UNIX_UV_HANDLE_PRIVATE_FIELDS :: "uv_env \<Rightarrow> cfields" where
  "UNIX_UV_HANDLE_PRIVATE_FIELDS e =
    [(''next_closing'', T_ptr ''uv_handle_t''), (''flags'', T_base ''unsigned int'')]"

definition WIN_UV_HANDLE_PRIVATE_FIELDS :: "uv_env \<Rightarrow> cfields" where
  "WIN_UV_HANDLE_PRIVATE_FIELDS e =
    [(''endgame_next'', T_ptr ''uv_handle_t''), (''flags'', T_base ''unsigned int'')]"

definition UV_HANDLE_FIELDS :: "uv_env \<Rightarrow> cfields" where
  "UV_HANDLE_FIELDS e =
    [(''data'', T_ptr ''void''), (''loop'', T_ptr ''uv_loop_t''), (''type'', T_base ''uv_handle_type''),
     (''close_cb'', T_fn ''uv_close_cb''), (''handle_queue'', T_struct (uv__queue e)),
     (''u'', T_union [(''fd'', T_base ''int''), (''reserved'', T_array (T_ptr ''void'') 4)])]
    @ by_platform e (WIN_UV_HANDLE_PRIVATE_FIELDS e) (UNIX_UV_HANDLE_PRIVATE_FIELDS e)"

definition uv_handle_s :: "uv_env \<Rightarrow> cfields" where
  "uv_handle_s e =
    UV_HANDLE_FIELDS e"

definition uv_stream_connection_fields :: "uv_env \<Rightarrow> cfields" where
  "uv_stream_connection_fields e =
    [(''write_reqs_pending'', T_base ''unsigned int''), (''shutdown_req'', T_ptr ''uv_shutdown_t'')]"

definition uv_stream_server_fields :: "uv_env \<Rightarrow> cfields" where
  "uv_stream_server_fields e =
    [(''connection_cb'', T_fn ''uv_connection_cb'')]"

definition UNIX_UV_STREAM_PRIVATE_FIELDS :: "uv_env \<Rightarrow> cfields" where
  "UNIX_UV_STREAM_PRIVATE_FIELDS e =
    [(''connect_req'', T_ptr ''uv_connect_t''), (''shutdown_req'', T_ptr ''uv_shutdown_t''),
     (''io_watcher'', T_struct (uv__io_s e)), (''write_queue'', T_struct (uv__queue e)),
     (''write_completed_queue'', T_struct (uv__queue e)), (''connection_cb'', T_fn ''uv_connection_cb''),
     (''delayed_error'', T_base ''int''), (''accepted_fd'', T_base ''int''), (''queued_fds'', T_ptr ''void'')]
    @ UV_STREAM_PRIVATE_PLATFORM_FIELDS e"

definition WIN_UV_STREAM_PRIVATE_FIELDS :: "uv_env \<Rightarrow> cfields" where
  "WIN_UV_STREAM_PRIVATE_FIELDS e =
    [(''reqs_pending'', T_base ''unsigned int''), (''activecnt'', T_base ''int''),
     (''read_req'', T_struct (uv_read_s e)),
     (''stream'', T_union [(''conn'', T_struct (uv_stream_connection_fields e)), (''serv'', T_struct (uv_stream_server_fields e))])]"

definition UV_STREAM_FIELDS :: "uv_env \<Rightarrow> cfields" where
  "UV_STREAM_FIELDS e =
    [(''write_queue_size'', T_base ''size_t''), (''alloc_cb'', T_fn ''uv_alloc_cb''),
     (''read_cb'', T_fn ''uv_read_cb'')]
    @ by_platform e (WIN_UV_STREAM_PRIVATE_FIELDS e) (UNIX_UV_STREAM_PRIVATE_FIELDS e)"

definition uv_stream_s :: "uv_env \<Rightarrow> cfields" where
  "uv_stream_s e =
    UV_HANDLE_FIELDS e @ UV_STREAM_FIELDS e"

definition uv_tcp_server_fields :: "uv_env \<Rightarrow> cfields" where
  "uv_tcp_server_fields e =
    [(''accept_reqs'', T_ptr ''uv_tcp_accept_t''), (''processed_accepts'', T_base ''unsigned int''),
     (''pending_accepts'', T_ptr ''uv_tcp_accept_t''), (''func_acceptex'', T_fn ''LPFN_ACCEPTEX'')]"

definition uv_tcp_connection_fields :: "uv_env \<Rightarrow> cfields" where
  "uv_tcp_connection_fields e =
    [(''read_buffer'', T_struct (by_platform e (WIN_uv_buf_t e) (UNIX_uv_buf_t e))),
     (''func_connectex'', T_fn ''LPFN_CONNECTEX'')]"

definition uv_pipe_server_fields :: "uv_env \<Rightarrow> cfields" where
  "uv_pipe_server_fields e =
    [(''pending_instances'', T_base ''int''), (''accept_reqs'', T_ptr ''uv_pipe_accept_t''),
     (''pending_accepts'', T_ptr ''uv_pipe_accept_t'')]"

definition uv_pipe_connection_fields :: "uv_env \<Rightarrow> cfields" where
  "uv_pipe_connection_fields e =
    [(''eof_timer'', T_ptr ''uv_timer_t''), (''dummy'', T_struct (uv_write_s e)),
     (''ipc_remote_pid'', T_base ''DWORD''),
     (''ipc_data_frame'', T_union [(''payload_remaining'', T_base ''uint32_t''), (''dummy'', T_base ''uint64_t'')]),
     (''ipc_xfer_queue'', T_struct (uv__queue e)), (''ipc_xfer_queue_length'', T_base ''int''),
     (''non_overlapped_writes_tail'', T_ptr ''uv_write_t''),
     (''readfile_thread_lock'', T_base ''CRITICAL_SECTION''), (''readfile_thread_handle'', T_base ''HANDLE'')]"

definition UNIX_UV_TCP_PRIVATE_FIELDS :: "uv_env \<Rightarrow> cfields" where
  "UNIX_UV_TCP_PRIVATE_FIELDS e =
    []"

definition WIN_UV_TCP_PRIVATE_FIELDS :: "uv_env \<Rightarrow> cfields" where
  "WIN_UV_TCP_PRIVATE_FIELDS e =
    [(''socket'', T_base ''SOCKET''), (''delayed_error'', T_base ''int''),
     (''tcp'', T_union [(''serv'', T_struct (uv_tcp_server_fields e)), (''conn'', T_struct (uv_tcp_connection_fields e))])]"

definition uv_tcp_s :: "uv_env \<Rightarrow> cfields" where
  "uv_tcp_s e =
    UV_HANDLE_FIELDS e
    @ UV_STREAM_FIELDS e
    @ by_platform e (WIN_UV_TCP_PRIVATE_FIELDS e) (UNIX_UV_TCP_PRIVATE_FIELDS e)"

definition UNIX_UV_UDP_PRIVATE_FIELDS :: "uv_env \<Rightarrow> cfields" where
  "UNIX_UV_UDP_PRIVATE_FIELDS e =
    [(''alloc_cb'', T_fn ''uv_alloc_cb''), (''recv_cb'', T_fn ''uv_udp_recv_cb''),
     (''io_watcher'', T_struct (uv__io_s e)), (''write_queue'', T_struct (uv__queue e)),
     (''write_completed_queue'', T_struct (uv__queue e))]"

definition WIN_UV_UDP_PRIVATE_FIELDS :: "uv_env \<Rightarrow> cfields" where
  "WIN_UV_UDP_PRIVATE_FIELDS e =
    [(''socket'', T_base ''SOCKET''), (''reqs_pending'', T_base ''unsigned int''),
     (''activecnt'', T_base ''int''), (''recv_req'', T_struct (uv_req_s e)),
     (''recv_buffer'', T_struct (by_platform e (WIN_uv_buf_t e) (UNIX_uv_buf_t e))),
     (''recv_from'', T_base ''struct sockaddr_storage''), (''recv_from_len'', T_base ''int''),
     (''recv_cb'', T_fn ''uv_udp_recv_cb''), (''alloc_cb'', T_fn ''uv_alloc_cb''),
     (''func_wsarecv'', T_fn ''LPFN_WSARECV''), (''func_wsarecvfrom'', T_fn ''LPFN_WSARECVFROM'')]"

definition uv_udp_s :: "uv_env \<Rightarrow> cfields" where
  "uv_udp_s e =
    UV_HANDLE_FIELDS e
    @ [(''send_queue_size'', T_base ''size_t''), (''send_queue_count'', T_base ''size_t'')]
    @ by_platform e (WIN_UV_UDP_PRIVATE_FIELDS e) (UNIX_UV_UDP_PRIVATE_FIELDS e)"

definition UNIX_UV_TTY_PRIVATE_FIELDS :: "uv_env \<Rightarrow> cfields" where
  "UNIX_UV_TTY_PRIVATE_FIELDS e =
    [(''orig_termios'', T_base ''struct termios''), (''mode'', T_base ''int'')]"

definition WIN_UV_TTY_PRIVATE_FIELDS :: "uv_env \<Rightarrow> cfields" where
  "WIN_UV_TTY_PRIVATE_FIELDS e =
    [(''handle'', T_base ''HANDLE''),
     (''tty'', T_union [(''rd'', T_struct [(''mode'', T_union [(''unused_'', T_base ''HANDLE''), (''mode'', T_base ''int'')]),
             (''read_line_buffer'', T_struct (by_platform e (WIN_uv_buf_t e) (UNIX_uv_buf_t e))),
             (''read_raw_wait'', T_base ''HANDLE''), (''last_key'', T_array (T_base ''char'') 8),
             (''last_key_offset'', T_base ''unsigned char''), (''last_key_len'', T_base ''unsigned char''),
             (''last_utf16_high_surrogate'', T_base ''WCHAR''), (''last_input_record'', T_base ''INPUT_RECORD'')]),
         (''wr'', T_struct [(''utf8_codepoint'', T_base ''unsigned int''), (''utf8_bytes_left'', T_base ''unsigned char''),
             (''previous_eol'', T_base ''unsigned char''), (''ansi_parser_state'', T_base ''unsigned short''),
             (''ansi_csi_argc'', T_base ''unsigned char''),
             (''ansi_csi_argv'', T_array (T_base ''unsigned short'') 4), (''saved_position'', T_base ''COORD''),
             (''saved_attributes'', T_base ''WORD'')])])]"

definition uv_tty_s :: "uv_env \<Rightarrow> cfields" where
  "uv_tty_s e =
    UV_HANDLE_FIELDS e
    @ UV_STREAM_FIELDS e
    @ by_platform e (WIN_UV_TTY_PRIVATE_FIELDS e) (UNIX_UV_TTY_PRIVATE_FIELDS e)"

definition UNIX_UV_PIPE_PRIVATE_FIELDS :: "uv_env \<Rightarrow> cfields" where
  "UNIX_UV_PIPE_PRIVATE_FIELDS e =
    [(''pipe_fname'', T_ptr ''char'')]"

definition WIN_UV_PIPE_PRIVATE_FIELDS :: "uv_env \<Rightarrow> cfields" where
  "WIN_UV_PIPE_PRIVATE_FIELDS e =
    [(''handle'', T_base ''HANDLE''), (''name'', T_ptr ''WCHAR''),
     (''pipe'', T_union [(''serv'', T_struct (uv_pipe_server_fields e)), (''conn'', T_struct (uv_pipe_connection_fields e))])]"

definition uv_pipe_s :: "uv_env \<Rightarrow> cfields" where
  "uv_pipe_s e =
    UV_HANDLE_FIELDS e
    @ UV_STREAM_FIELDS e
    @ [(''ipc'', T_base ''int'')]
    @ by_platform e (WIN_UV_PIPE_PRIVATE_FIELDS e) (UNIX_UV_PIPE_PRIVATE_FIELDS e)"

definition UNIX_UV_POLL_PRIVATE_FIELDS :: "uv_env \<Rightarrow> cfields" where
  "UNIX_UV_POLL_PRIVATE_FIELDS e =
    [(''io_watcher'', T_struct (uv__io_s e))]"

definition WIN_UV_POLL_PRIVATE_FIELDS :: "uv_env \<Rightarrow> cfields" where
  "WIN_UV_POLL_PRIVATE_FIELDS e =
    [(''socket'', T_base ''SOCKET''), (''peer_socket'', T_base ''SOCKET''),
     (''afd_poll_info_1'', T_struct (AFD_POLL_INFO e)), (''afd_poll_info_2'', T_struct (AFD_POLL_INFO e)),
     (''poll_req_1'', T_struct (uv_req_s e)), (''poll_req_2'', T_struct (uv_req_s e)),
     (''submitted_events_1'', T_base ''unsigned char''), (''submitted_events_2'', T_base ''unsigned char''),
     (''mask_events_1'', T_base ''unsigned char''), (''mask_events_2'', T_base ''unsigned char''),
     (''events'', T_base ''unsigned char'')]"

definition uv_poll_s :: "uv_env \<Rightarrow> cfields" where
  "uv_poll_s e =
    UV_HANDLE_FIELDS e
    @ [(''poll_cb'', T_fn ''uv_poll_cb'')]
    @ by_platform e (WIN_UV_POLL_PRIVATE_FIELDS e) (UNIX_UV_POLL_PRIVATE_FIELDS e)"

definition UNIX_UV_PREPARE_PRIVATE_FIELDS :: "uv_env \<Rightarrow> cfields" where
  "UNIX_UV_PREPARE_PRIVATE_FIELDS e =
    [(''prepare_cb'', T_fn ''uv_prepare_cb''), (''queue'', T_struct (uv__queue e))]"

definition WIN_UV_PREPARE_PRIVATE_FIELDS :: "uv_env \<Rightarrow> cfields" where
  "WIN_UV_PREPARE_PRIVATE_FIELDS e =
    [(''prepare_prev'', T_ptr ''uv_prepare_t''), (''prepare_next'', T_ptr ''uv_prepare_t''),
     (''prepare_cb'', T_fn ''uv_prepare_cb'')]"

definition uv_prepare_s :: "uv_env \<Rightarrow> cfields" where
  "uv_prepare_s e =
    UV_HANDLE_FIELDS e
    @ by_platform e (WIN_UV_PREPARE_PRIVATE_FIELDS e) (UNIX_UV_PREPARE_PRIVATE_FIELDS e)"

definition UNIX_UV_CHECK_PRIVATE_FIELDS :: "uv_env \<Rightarrow> cfields" where
  "UNIX_UV_CHECK_PRIVATE_FIELDS e =
    [(''check_cb'', T_fn ''uv_check_cb''), (''queue'', T_struct (uv__queue e))]"

definition WIN_UV_CHECK_PRIVATE_FIELDS :: "uv_env \<Rightarrow> cfields" where
  "WIN_UV_CHECK_PRIVATE_FIELDS e =
    [(''check_prev'', T_ptr ''uv_check_t''), (''check_next'', T_ptr ''uv_check_t''),
     (''check_cb'', T_fn ''uv_check_cb'')]"

definition uv_check_s :: "uv_env \<Rightarrow> cfields" where
  "uv_check_s e =
    UV_HANDLE_FIELDS e @ by_platform e (WIN_UV_CHECK_PRIVATE_FIELDS e) (UNIX_UV_CHECK_PRIVATE_FIELDS e)"

definition UNIX_UV_IDLE_PRIVATE_FIELDS :: "uv_env \<Rightarrow> cfields" where
  "UNIX_UV_IDLE_PRIVATE_FIELDS e =
    [(''idle_cb'', T_fn ''uv_idle_cb''), (''queue'', T_struct (uv__queue e))]"

definition WIN_UV_IDLE_PRIVATE_FIELDS :: "uv_env \<Rightarrow> cfields" where
  "WIN_UV_IDLE_PRIVATE_FIELDS e =
    [(''idle_prev'', T_ptr ''uv_idle_t''), (''idle_next'', T_ptr ''uv_idle_t''),
     (''idle_cb'', T_fn ''uv_idle_cb'')]"

definition uv_idle_s :: "uv_env \<Rightarrow> cfields" where
  "uv_idle_s e =
    UV_HANDLE_FIELDS e @ by_platform e (WIN_UV_IDLE_PRIVATE_FIELDS e) (UNIX_UV_IDLE_PRIVATE_FIELDS e)"

definition UNIX_UV_ASYNC_PRIVATE_FIELDS :: "uv_env \<Rightarrow> cfields" where
  "UNIX_UV_ASYNC_PRIVATE_FIELDS e =
    [(''async_cb'', T_fn ''uv_async_cb''), (''queue'', T_struct (uv__queue e)), (''pending'', T_base ''int'')]"

definition WIN_UV_ASYNC_PRIVATE_FIELDS :: "uv_env \<Rightarrow> cfields" where
  "WIN_UV_ASYNC_PRIVATE_FIELDS e =
    [(''async_req'', T_struct (uv_req_s e)), (''async_cb'', T_fn ''uv_async_cb''),
     (''async_sent'', T_base ''char'')]"

definition uv_async_s :: "uv_env \<Rightarrow> cfields" where
  "uv_async_s e =
    UV_HANDLE_FIELDS e @ by_platform e (WIN_UV_ASYNC_PRIVATE_FIELDS e) (UNIX_UV_ASYNC_PRIVATE_FIELDS e)"

definition UNIX_UV_TIMER_PRIVATE_FIELDS :: "uv_env \<Rightarrow> cfields" where
  "UNIX_UV_TIMER_PRIVATE_FIELDS e =
    [(''timer_cb'', T_fn ''uv_timer_cb''),
     (''node'', T_union [(''heap'', T_array (T_ptr ''void'') 3), (''queue'', T_struct (uv__queue e))]),
     (''timeout'', T_base ''uint64_t''), (''repeat'', T_base ''uint64_t''),
     (''start_id'', T_base ''uint64_t'')]"

definition WIN_UV_TIMER_PRIVATE_FIELDS :: "uv_env \<Rightarrow> cfields" where
  "WIN_UV_TIMER_PRIVATE_FIELDS e =
    [(''node'', T_union [(''heap'', T_array (T_ptr ''void'') 3), (''queue'', T_struct (uv__queue e))]),
     (''unused'', T_base ''int''), (''timeout'', T_base ''uint64_t''), (''repeat'', T_base ''uint64_t''),
     (''start_id'', T_base ''uint64_t''), (''timer_cb'', T_fn ''uv_timer_cb'')]"

definition uv_timer_s :: "uv_env \<Rightarrow> cfields" where
  "uv_timer_s e =
    UV_HANDLE_FIELDS e @ by_platform e (WIN_UV_TIMER_PRIVATE_FIELDS e) (UNIX_UV_TIMER_PRIVATE_FIELDS e)"

definition UNIX_UV_PROCESS_PRIVATE_FIELDS :: "uv_env \<Rightarrow> cfields" where
  "UNIX_UV_PROCESS_PRIVATE_FIELDS e =
    [(''queue'', T_struct (uv__queue e)), (''status'', T_base ''int'')]"

definition WIN_UV_PROCESS_PRIVATE_FIELDS :: "uv_env \<Rightarrow> cfields" where
  "WIN_UV_PROCESS_PRIVATE_FIELDS e =
    [(''exit_req'', T_struct (UV_REQ_FIELDS e)), (''unused'', T_ptr ''void''),
     (''exit_signal'', T_base ''int''), (''wait_handle'', T_base ''HANDLE''),
     (''process_handle'', T_base ''HANDLE''), (''exit_cb_pending'', T_base ''char'')]"

definition uv_process_s :: "uv_env \<Rightarrow> cfields" where
  "uv_process_s e =
    UV_HANDLE_FIELDS e
    @ [(''exit_cb'', T_fn ''uv_exit_cb''), (''pid'', T_base ''int'')]
    @ by_platform e (WIN_UV_PROCESS_PRIVATE_FIELDS e) (UNIX_UV_PROCESS_PRIVATE_FIELDS e)"

definition UNIX_UV_FS_EVENT_PRIVATE_FIELDS :: "uv_env \<Rightarrow> cfields" where
  "UNIX_UV_FS_EVENT_PRIVATE_FIELDS e =
    [(''cb'', T_fn ''uv_fs_event_cb'')] @ UV_PLATFORM_FS_EVENT_FIELDS e"

definition WIN_UV_FS_EVENT_PRIVATE_FIELDS :: "uv_env \<Rightarrow> cfields" where
  "WIN_UV_FS_EVENT_PRIVATE_FIELDS e =
    [(''req'', T_struct (UV_REQ_FIELDS e)), (''dir_handle'', T_base ''HANDLE''),
     (''req_pending'', T_base ''int''), (''cb'', T_fn ''uv_fs_event_cb''), (''filew'', T_ptr ''WCHAR''),
     (''short_filew'', T_ptr ''WCHAR''), (''dirw'', T_ptr ''WCHAR''), (''buffer'', T_ptr ''char'')]"

definition uv_fs_event_s :: "uv_env \<Rightarrow> cfields" where
  "uv_fs_event_s e =
    UV_HANDLE_FIELDS e
    @ [(''path'', T_ptr ''char'')]
    @ by_platform e (WIN_UV_FS_EVENT_PRIVATE_FIELDS e) (UNIX_UV_FS_EVENT_PRIVATE_FIELDS e)"

definition uv_fs_poll_s :: "uv_env \<Rightarrow> cfields" where
  "uv_fs_poll_s e =
    UV_HANDLE_FIELDS e @ [(''poll_ctx'', T_ptr ''void'')]"

definition UNIX_UV_SIGNAL_PRIVATE_FIELDS :: "uv_env \<Rightarrow> cfields" where
  "UNIX_UV_SIGNAL_PRIVATE_FIELDS e =
    [(''tree_entry'', T_struct [(''rbe_left'', T_ptr ''struct uv_signal_s''), (''rbe_right'', T_ptr ''struct uv_signal_s''),
         (''rbe_parent'', T_ptr ''struct uv_signal_s''), (''rbe_color'', T_base ''int'')]),
     (''caught_signals'', T_base ''unsigned int''), (''dispatched_signals'', T_base ''unsigned int'')]"

definition WIN_UV_SIGNAL_PRIVATE_FIELDS :: "uv_env \<Rightarrow> cfields" where
  "WIN_UV_SIGNAL_PRIVATE_FIELDS e =
    [(''tree_entry'', RB_ENTRY ''uv_signal_s''), (''signal_req'', T_struct (uv_req_s e)),
     (''pending_signum'', T_base ''unsigned long'')]"

definition uv_signal_s :: "uv_env \<Rightarrow> cfields" where
  "uv_signal_s e =
    UV_HANDLE_FIELDS e
    @ [(''signal_cb'', T_fn ''uv_signal_cb''), (''signum'', T_base ''int'')]
    @ by_platform e (WIN_UV_SIGNAL_PRIVATE_FIELDS e) (UNIX_UV_SIGNAL_PRIVATE_FIELDS e)"

section \<open>The loop\<close>

definition UNIX_UV_LOOP_PRIVATE_FIELDS :: "uv_env \<Rightarrow> cfields" where
  "UNIX_UV_LOOP_PRIVATE_FIELDS e =
    [(''flags'', T_base ''unsigned long''), (''backend_fd'', T_base ''int''),
     (''pending_queue'', T_struct (uv__queue e)), (''watcher_queue'', T_struct (uv__queue e)),
     (''watchers'', T_ptr ''uv__io_t*''), (''nwatchers'', T_base ''unsigned int''),
     (''nfds'', T_base ''unsigned int''), (''wq'', T_struct (uv__queue e)),
     (''wq_mutex'', T_base ''uv_mutex_t''), (''wq_async'', T_struct (uv_async_s e)),
     (''cloexec_lock'', T_base ''uv_rwlock_t''), (''closing_handles'', T_ptr ''uv_handle_t''),
     (''process_handles'', T_struct (uv__queue e)), (''prepare_handles'', T_struct (uv__queue e)),
     (''check_handles'', T_struct (uv__queue e)), (''idle_handles'', T_struct (uv__queue e)),
     (''async_handles'', T_struct (uv__queue e)), (''async_unused'', T_fn ''async_unused''),
     (''async_io_watcher'', T_struct (uv__io_s e)), (''async_wfd'', T_base ''int''),
     (''timer_heap'', T_struct [(''min'', T_ptr ''void''), (''nelts'', T_base ''unsigned int'')]),
     (''timer_counter'', T_base ''uint64_t''), (''time'', T_base ''uint64_t''),
     (''signal_pipefd'', T_array (T_base ''int'') 2), (''signal_io_watcher'', T_struct (uv__io_s e)),
     (''child_watcher'', T_struct (uv_signal_s e)), (''emfile_fd'', T_base ''int'')]
    @ UV_PLATFORM_LOOP_FIELDS e"

definition WIN_UV_LOOP_PRIVATE_FIELDS :: "uv_env \<Rightarrow> cfields" where
  "WIN_UV_LOOP_PRIVATE_FIELDS e =
    [(''iocp'', T_base ''HANDLE''), (''time'', T_base ''uint64_t''),
     (''pending_reqs_tail'', T_ptr ''uv_req_t''), (''endgame_handles'', T_ptr ''uv_handle_t''),
     (''timer_heap'', T_ptr ''void''), (''prepare_handles'', T_ptr ''uv_prepare_t''),
     (''check_handles'', T_ptr ''uv_check_t''), (''idle_handles'', T_ptr ''uv_idle_t''),
     (''next_prepare_handle'', T_ptr ''uv_prepare_t''), (''next_check_handle'', T_ptr ''uv_check_t''),
     (''next_idle_handle'', T_ptr ''uv_idle_t''),
     (''poll_peer_sockets'', T_array (T_base ''SOCKET'') UV_MSAFD_PROVIDER_COUNT),
     (''active_tcp_streams'', T_base ''unsigned int''), (''active_udp_streams'', T_base ''unsigned int''),
     (''timer_counter'', T_base ''uint64_t''), (''wq'', T_struct (uv__queue e)),
     (''wq_mutex'', T_base ''uv_mutex_t''), (''wq_async'', T_struct (uv_async_s e))]"

definition uv_loop_s :: "uv_env \<Rightarrow> cfields" where
  "uv_loop_s e =
    [(''data'', T_ptr ''void''), (''active_handles'', T_base ''unsigned int''),
     (''handle_queue'', T_struct (uv__queue e)),
     (''active_reqs'', T_union [(''unused'', T_ptr ''void''), (''count'', T_base ''unsigned int'')]),
     (''internal_fields'', T_ptr ''void''), (''stop_flag'', T_base ''unsigned int'')]
    @ by_platform e (WIN_UV_LOOP_PRIVATE_FIELDS e) (UNIX_UV_LOOP_PRIVATE_FIELDS e)"

section \<open>Names and unions\<close>

text \<open>The \<^verbatim>\<open>typedef\<close>s that give the structures their names.\<close>

definition uv_typedefs :: "uv_env \<Rightarrow> (string \<times> cfields) list" where
  "uv_typedefs e =
    [(''loop'', uv_loop_s e), (''handle'', uv_handle_s e), (''stream'', uv_stream_s e), (''tcp'', uv_tcp_s e),
     (''udp'', uv_udp_s e), (''pipe'', uv_pipe_s e), (''tty'', uv_tty_s e), (''poll'', uv_poll_s e),
     (''timer'', uv_timer_s e), (''prepare'', uv_prepare_s e), (''check'', uv_check_s e), (''idle'', uv_idle_s e),
     (''async'', uv_async_s e), (''process'', uv_process_s e), (''fs_event'', uv_fs_event_s e),
     (''fs_poll'', uv_fs_poll_s e), (''signal'', uv_signal_s e), (''req'', uv_req_s e),
     (''getaddrinfo'', uv_getaddrinfo_s e), (''getnameinfo'', uv_getnameinfo_s e), (''shutdown'', uv_shutdown_s e),
     (''write'', uv_write_s e), (''connect'', uv_connect_s e), (''udp_send'', uv_udp_send_s e), (''fs'', uv_fs_s e),
     (''work'', uv_work_s e), (''random'', uv_random_s e)]"

definition uv_struct :: "uv_env \<Rightarrow> string \<Rightarrow> cfields" where
  "uv_struct e name = (case map_of (uv_typedefs e) name of Some fs \<Rightarrow> fs | None \<Rightarrow> [])"

definition uv_any_handle :: "uv_env \<Rightarrow> cfields" where
  "uv_any_handle e = map (\<lambda>(uc, name). (name, T_struct (uv_struct e name))) UV_HANDLE_TYPE_MAP"

definition uv_any_req :: "uv_env \<Rightarrow> cfields" where
  "uv_any_req e = map (\<lambda>(uc, name). (name, T_struct (uv_struct e name))) UV_REQ_TYPE_MAP"

section \<open>Classes by repetition\<close>

text \<open>The pairs of a base and a structure that may be used through a pointer to it: every handle is a
  \<^verbatim>\<open>uv_handle_t\<close>, the connection handles are \<^verbatim>\<open>uv_stream_t\<close>, every request is a \<^verbatim>\<open>uv_req_t\<close>, on Windows the
  private requests too.\<close>

definition uv_subclasses :: "uv_env \<Rightarrow> (cfields \<times> cfields) list" where
  "uv_subclasses e =
     map (\<lambda>(uc, name). (uv_handle_s e, uv_struct e name)) UV_HANDLE_TYPE_MAP
     @ map (\<lambda>name. (uv_stream_s e, uv_struct e name)) [''tcp'', ''pipe'', ''tty'']
     @ map (\<lambda>(uc, name). (uv_req_s e, uv_struct e name)) UV_REQ_TYPE_MAP
     @ by_platform e [(uv_req_s e, uv_pipe_accept_s e), (uv_req_s e, uv_tcp_accept_s e), (uv_req_s e, uv_read_s e)] []"

lemmas uv_struct_defs =
  uv_loop_s_def uv_handle_s_def uv_stream_s_def uv_tcp_s_def uv_udp_s_def uv_pipe_s_def uv_tty_s_def uv_poll_s_def
  uv_timer_s_def uv_prepare_s_def uv_check_s_def uv_idle_s_def uv_async_s_def uv_process_s_def uv_fs_event_s_def
  uv_fs_poll_s_def uv_signal_s_def uv_req_s_def uv_getaddrinfo_s_def uv_getnameinfo_s_def uv_shutdown_s_def
  uv_write_s_def uv_connect_s_def uv_udp_send_s_def uv_fs_s_def uv_work_s_def uv_random_s_def uv_pipe_accept_s_def
  uv_tcp_accept_s_def uv_read_s_def

lemmas uv_plain_field_defs =
  UV_REQ_FIELDS_def UV_HANDLE_FIELDS_def UV_STREAM_FIELDS_def UNIX_UV_REQ_PRIVATE_FIELDS_def
  UNIX_UV_SHUTDOWN_PRIVATE_FIELDS_def UNIX_UV_WRITE_PRIVATE_FIELDS_def UNIX_UV_CONNECT_PRIVATE_FIELDS_def
  UNIX_UV_UDP_SEND_PRIVATE_FIELDS_def UNIX_UV_GETADDRINFO_PRIVATE_FIELDS_def
  UNIX_UV_GETNAMEINFO_PRIVATE_FIELDS_def UNIX_UV_WORK_PRIVATE_FIELDS_def UNIX_UV_FS_PRIVATE_FIELDS_def
  UNIX_UV_HANDLE_PRIVATE_FIELDS_def UNIX_UV_STREAM_PRIVATE_FIELDS_def UNIX_UV_TCP_PRIVATE_FIELDS_def
  UNIX_UV_UDP_PRIVATE_FIELDS_def UNIX_UV_TTY_PRIVATE_FIELDS_def UNIX_UV_PIPE_PRIVATE_FIELDS_def
  UNIX_UV_POLL_PRIVATE_FIELDS_def UNIX_UV_PREPARE_PRIVATE_FIELDS_def UNIX_UV_CHECK_PRIVATE_FIELDS_def
  UNIX_UV_IDLE_PRIVATE_FIELDS_def UNIX_UV_ASYNC_PRIVATE_FIELDS_def UNIX_UV_TIMER_PRIVATE_FIELDS_def
  UNIX_UV_PROCESS_PRIVATE_FIELDS_def UNIX_UV_FS_EVENT_PRIVATE_FIELDS_def UNIX_UV_SIGNAL_PRIVATE_FIELDS_def
  UNIX_UV_LOOP_PRIVATE_FIELDS_def WIN_UV_REQ_PRIVATE_FIELDS_def WIN_UV_SHUTDOWN_PRIVATE_FIELDS_def
  WIN_UV_WRITE_PRIVATE_FIELDS_def WIN_UV_CONNECT_PRIVATE_FIELDS_def WIN_UV_UDP_SEND_PRIVATE_FIELDS_def
  WIN_UV_GETADDRINFO_PRIVATE_FIELDS_def WIN_UV_GETNAMEINFO_PRIVATE_FIELDS_def WIN_UV_WORK_PRIVATE_FIELDS_def
  WIN_UV_FS_PRIVATE_FIELDS_def WIN_UV_HANDLE_PRIVATE_FIELDS_def uv_stream_connection_fields_def
  uv_stream_server_fields_def WIN_UV_STREAM_PRIVATE_FIELDS_def uv_tcp_server_fields_def
  uv_tcp_connection_fields_def uv_pipe_server_fields_def uv_pipe_connection_fields_def
  WIN_UV_TCP_PRIVATE_FIELDS_def WIN_UV_UDP_PRIVATE_FIELDS_def WIN_UV_TTY_PRIVATE_FIELDS_def
  WIN_UV_PIPE_PRIVATE_FIELDS_def WIN_UV_POLL_PRIVATE_FIELDS_def WIN_UV_PREPARE_PRIVATE_FIELDS_def
  WIN_UV_CHECK_PRIVATE_FIELDS_def WIN_UV_IDLE_PRIVATE_FIELDS_def WIN_UV_ASYNC_PRIVATE_FIELDS_def
  WIN_UV_TIMER_PRIVATE_FIELDS_def WIN_UV_PROCESS_PRIVATE_FIELDS_def WIN_UV_FS_EVENT_PRIVATE_FIELDS_def
  WIN_UV_SIGNAL_PRIVATE_FIELDS_def WIN_UV_LOOP_PRIVATE_FIELDS_def

lemmas uv_loop_field_defs =
  DARWIN_UV_PLATFORM_LOOP_FIELDS_def LINUX_UV_PLATFORM_LOOP_FIELDS_def OS390_UV_PLATFORM_LOOP_FIELDS_def
  POSIX_UV_PLATFORM_LOOP_FIELDS_def AIX_UV_PLATFORM_LOOP_FIELDS_def SUNOS_UV_PLATFORM_LOOP_FIELDS_def

lemmas uv_fs_event_field_defs =
  DARWIN_UV_PLATFORM_FS_EVENT_FIELDS_def BSD_UV_PLATFORM_FS_EVENT_FIELDS_def LINUX_UV_PLATFORM_FS_EVENT_FIELDS_def
  OS390_UV_PLATFORM_FS_EVENT_FIELDS_def AIX_UV_PLATFORM_FS_EVENT_FIELDS_def SUNOS_UV_PLATFORM_FS_EVENT_FIELDS_def

text \<open>Every structure begins with the members of its base.\<close>

lemma uv_struct_simps:
  "uv_struct e ''loop'' = uv_loop_s e"
  "uv_struct e ''handle'' = uv_handle_s e"
  "uv_struct e ''stream'' = uv_stream_s e"
  "uv_struct e ''tcp'' = uv_tcp_s e"
  "uv_struct e ''udp'' = uv_udp_s e"
  "uv_struct e ''pipe'' = uv_pipe_s e"
  "uv_struct e ''tty'' = uv_tty_s e"
  "uv_struct e ''poll'' = uv_poll_s e"
  "uv_struct e ''timer'' = uv_timer_s e"
  "uv_struct e ''prepare'' = uv_prepare_s e"
  "uv_struct e ''check'' = uv_check_s e"
  "uv_struct e ''idle'' = uv_idle_s e"
  "uv_struct e ''async'' = uv_async_s e"
  "uv_struct e ''process'' = uv_process_s e"
  "uv_struct e ''fs_event'' = uv_fs_event_s e"
  "uv_struct e ''fs_poll'' = uv_fs_poll_s e"
  "uv_struct e ''signal'' = uv_signal_s e"
  "uv_struct e ''req'' = uv_req_s e"
  "uv_struct e ''getaddrinfo'' = uv_getaddrinfo_s e"
  "uv_struct e ''getnameinfo'' = uv_getnameinfo_s e"
  "uv_struct e ''shutdown'' = uv_shutdown_s e"
  "uv_struct e ''write'' = uv_write_s e"
  "uv_struct e ''connect'' = uv_connect_s e"
  "uv_struct e ''udp_send'' = uv_udp_send_s e"
  "uv_struct e ''fs'' = uv_fs_s e"
  "uv_struct e ''work'' = uv_work_s e"
  "uv_struct e ''random'' = uv_random_s e"
  by (simp_all add: uv_struct_def uv_typedefs_def)

definition extends :: "cfields \<Rightarrow> cfields \<Rightarrow> bool" where
  "extends base derived \<longleftrightarrow> (\<exists>ys. derived = base @ ys)"

lemma extendsI [simp]: "extends xs (xs @ ys)" "extends xs xs" "extends (xs @ ys) (xs @ ys @ zs)"
  by (auto simp: extends_def)

lemma uv_subclasses_extend: "list_all (\<lambda>(base, derived). extends base derived) (uv_subclasses e)"
proof -
  have "list_all (\<lambda>(uc, name). extends (uv_handle_s e) (uv_struct e name)) UV_HANDLE_TYPE_MAP"
    unfolding UV_HANDLE_TYPE_MAP_def by (simp add: uv_struct_simps) (simp add: uv_struct_defs)
  moreover have "list_all (\<lambda>name. extends (uv_stream_s e) (uv_struct e name)) [''tcp'', ''pipe'', ''tty'']"
    by (simp add: uv_struct_simps) (simp add: uv_struct_defs)
  moreover have "list_all (\<lambda>(uc, name). extends (uv_req_s e) (uv_struct e name)) UV_REQ_TYPE_MAP"
    unfolding UV_REQ_TYPE_MAP_def by (simp add: uv_struct_simps) (simp add: uv_struct_defs)
  moreover have "extends (uv_req_s e) (uv_pipe_accept_s e)" "extends (uv_req_s e) (uv_tcp_accept_s e)"
      "extends (uv_req_s e) (uv_read_s e)"
    by (simp_all add: uv_struct_defs)
  ultimately show ?thesis
    by (simp add: uv_subclasses_def by_platform_def list.pred_map o_def case_prod_unfold)
qed

lemma uv_subclass_prefix: "(base, derived) \<in> set (uv_subclasses e) \<Longrightarrow> \<exists>ys. derived = base @ ys"
  using uv_subclasses_extend [of e] by (auto simp: list_all_iff extends_def)

text \<open>No structure declares a member twice, on any platform.\<close>

definition uv_structs :: "uv_env \<Rightarrow> cfields list" where
  "uv_structs e = map snd (uv_typedefs e) @ [uv_pipe_accept_s e, uv_tcp_accept_s e, uv_read_s e]"

text \<open>Three structures have members of the platform headers.\<close>

lemma uv_loop_distinct: "distinct (map fst (uv_loop_s e))"
  by (cases "ue_defined e ''_WIN32''"; cases "platform_header e")
    (simp_all add: uv_loop_s_def by_platform_def UNIX_UV_LOOP_PRIVATE_FIELDS_def WIN_UV_LOOP_PRIVATE_FIELDS_def
      UV_PLATFORM_LOOP_FIELDS_def uv_loop_field_defs)

lemma uv_fs_event_distinct: "distinct (map fst (uv_fs_event_s e))"
  by (cases "ue_defined e ''_WIN32''"; cases "platform_header e"; cases "ue_defined e ''PORT_SOURCE_FILE''")
    (simp_all add: uv_fs_event_s_def by_platform_def UNIX_UV_FS_EVENT_PRIVATE_FIELDS_def WIN_UV_FS_EVENT_PRIVATE_FIELDS_def
      UV_PLATFORM_FS_EVENT_FIELDS_def UV_HANDLE_FIELDS_def UNIX_UV_HANDLE_PRIVATE_FIELDS_def
      WIN_UV_HANDLE_PRIVATE_FIELDS_def uv_fs_event_field_defs)

lemma stream_platform_fields:
  "UV_STREAM_PRIVATE_PLATFORM_FIELDS e = (if platform_header e = Darwin_h then [(''select'', T_ptr ''void'')] else [])"
  by (simp add: UV_STREAM_PRIVATE_PLATFORM_FIELDS_def DARWIN_UV_STREAM_PRIVATE_PLATFORM_FIELDS_def split: platform_h.split)

lemma uv_streams_distinct:
  "list_all (\<lambda>fs. distinct (map fst fs)) [uv_stream_s e, uv_tcp_s e, uv_pipe_s e, uv_tty_s e]"
  by (cases "ue_defined e ''_WIN32''"; cases "platform_header e = Darwin_h")
    (simp_all add: uv_stream_s_def uv_tcp_s_def uv_pipe_s_def uv_tty_s_def by_platform_def stream_platform_fields
      uv_plain_field_defs)

lemma uv_plain_distinct:
  "list_all (\<lambda>fs. distinct (map fst fs))
     [uv_handle_s e, uv_udp_s e, uv_poll_s e, uv_timer_s e, uv_prepare_s e, uv_check_s e, uv_idle_s e, uv_async_s e,
      uv_process_s e, uv_fs_poll_s e, uv_signal_s e, uv_req_s e, uv_getaddrinfo_s e, uv_getnameinfo_s e, uv_shutdown_s e,
      uv_write_s e, uv_connect_s e, uv_udp_send_s e, uv_fs_s e, uv_work_s e, uv_random_s e, uv_pipe_accept_s e,
      uv_tcp_accept_s e, uv_read_s e]"
  by (cases "ue_defined e ''_WIN32''") (simp_all add: uv_struct_defs uv_plain_field_defs by_platform_def)

lemma uv_names_distinct: "list_all (\<lambda>fs. distinct (map fst fs)) (uv_structs e)"
  using uv_plain_distinct [of e] uv_streams_distinct [of e] uv_fs_event_distinct [of e] uv_loop_distinct [of e]
  by (simp add: uv_structs_def uv_typedefs_def)

lemma uv_struct_in_typedefs:
  assumes "map_of (uv_typedefs e) n \<noteq> None"
  shows "uv_struct e n \<in> set (uv_structs e)"
proof -
  from assms obtain fs where fs: "map_of (uv_typedefs e) n = Some fs" by auto
  then have "fs \<in> snd ` set (uv_typedefs e)" by (force dest: map_of_SomeD)
  with fs show ?thesis by (simp add: uv_struct_def uv_structs_def)
qed

lemma uv_handle_names: "list_all (\<lambda>(uc, name). map_of (uv_typedefs e) name \<noteq> None) UV_HANDLE_TYPE_MAP"
  by (simp add: UV_HANDLE_TYPE_MAP_def uv_typedefs_def)

lemma uv_req_names: "list_all (\<lambda>(uc, name). map_of (uv_typedefs e) name \<noteq> None) UV_REQ_TYPE_MAP"
  by (simp add: UV_REQ_TYPE_MAP_def uv_typedefs_def)

lemma uv_subclass_struct:
  assumes "(base, derived) \<in> set (uv_subclasses e)"
  shows "derived \<in> set (uv_structs e)"
proof -
  have "\<forall>name \<in> {''tcp'', ''pipe'', ''tty''}. uv_struct e name \<in> set (uv_structs e)"
    by (simp add: uv_structs_def uv_typedefs_def uv_struct_simps)
  moreover have "{uv_pipe_accept_s e, uv_tcp_accept_s e, uv_read_s e} \<subseteq> set (uv_structs e)"
    by (simp add: uv_structs_def)
  ultimately show ?thesis
    using assms uv_handle_names [of e] uv_req_names [of e] uv_struct_in_typedefs [of e]
    by (auto simp: uv_subclasses_def by_platform_def list_all_iff split: if_splits)
qed

text \<open>The signal handle of \<^verbatim>\<open>uv/unix.h\<close> spells the tree entry out; it is the one of \<^verbatim>\<open>uv/tree.h\<close>.\<close>

lemma unix_signal_tree_entry:
  "map_of (UNIX_UV_SIGNAL_PRIVATE_FIELDS e) ''tree_entry'' = Some (RB_ENTRY ''uv_signal_s'')"
  by (simp add: UNIX_UV_SIGNAL_PRIVATE_FIELDS_def RB_ENTRY_def)

section \<open>Properties\<close>

text \<open>C30: casting a pointer to its base is sound on every platform and for every size and alignment of the
  system's types: each member of \<^verbatim>\<open>uv_handle_t\<close>, \<^verbatim>\<open>uv_stream_t\<close> or \<^verbatim>\<open>uv_req_t\<close> has the same offset in every
  handle, stream or request, is aligned there, and ends inside the object.\<close>

theorem uv_cast_layout:
  assumes "c_env_ok e" and "(base, derived) \<in> set (uv_subclasses e)" and "(f, t) \<in> set base"
  shows "\<exists>i. field_offset e base f = Some i \<and> field_offset e derived f = Some i \<and>
    c_alignof e t dvd i \<and> i + c_sizeof e t \<le> c_sizeof e (T_struct derived)"
proof -
  from uv_subclass_prefix [OF assms(2)] obtain ys where d: "derived = base @ ys" by blast
  have "distinct (map fst derived)"
    using uv_names_distinct [of e] uv_subclass_struct [OF assms(2)] by (simp add: list_all_iff)
  moreover have "(f, t) \<in> set derived" using assms(3) d by simp
  ultimately obtain i where "field_offset e derived f = Some i" "c_alignof e t dvd i"
      "i + c_sizeof e t \<le> c_sizeof e (T_struct derived)"
    using field_inside [OF assms(1)] by blast
  moreover have "f \<in> fst ` set base" using assms(3) by force
  ultimately show ?thesis
    using field_offset_append [of f base e ys] d by auto
qed

text \<open>A 64-bit Linux whose system types all have eight bytes.\<close>

definition e_linux :: uv_env where
  "e_linux = \<lparr>ce_size = (\<lambda>_. 8), ce_align = (\<lambda>_. 8), ue_defined = (\<lambda>s. s = ''__linux__''), ue_const = (\<lambda>_. None)\<rparr>"

lemma e_linux_ok: "c_env_ok e_linux"
  by (simp add: c_env_ok_def e_linux_def pow2_def exI [of _ 3])

theorem uv_cast_layout_witness:
  "field_offset e_linux (uv_tcp_s e_linux) ''type'' = Some 16 \<and>
   16 + c_sizeof e_linux (T_base ''uv_handle_type'') \<le> c_sizeof e_linux (T_struct (uv_tcp_s e_linux))"
proof -
  have "(uv_handle_s e_linux, uv_tcp_s e_linux) \<in> set (uv_subclasses e_linux)"
    by (simp add: uv_subclasses_def UV_HANDLE_TYPE_MAP_def uv_struct_simps)
  moreover have "(''type'', T_base ''uv_handle_type'') \<in> set (uv_handle_s e_linux)"
    by (simp add: uv_handle_s_def UV_HANDLE_FIELDS_def)
  ultimately have "\<exists>i. field_offset e_linux (uv_handle_s e_linux) ''type'' = Some i \<and>
      field_offset e_linux (uv_tcp_s e_linux) ''type'' = Some i \<and>
      c_alignof e_linux (T_base ''uv_handle_type'') dvd i \<and>
      i + c_sizeof e_linux (T_base ''uv_handle_type'') \<le> c_sizeof e_linux (T_struct (uv_tcp_s e_linux))"
    by (rule uv_cast_layout [OF e_linux_ok])
  moreover have "field_offset e_linux (uv_handle_s e_linux) ''type'' = Some 16"
    by (simp add: field_offset_def uv_handle_s_def UV_HANDLE_FIELDS_def round_up_def e_linux_def)
  ultimately show ?thesis by auto
qed

text \<open>The unions \<^verbatim>\<open>uv_any_handle\<close> and \<^verbatim>\<open>uv_any_req\<close> can hold every handle and every request: they are as
  large and as strictly aligned as each of their members, on every platform.\<close>

theorem uv_any_holds:
  assumes "c_env_ok e" and "(u, m) \<in> {(uv_any_handle e, UV_HANDLE_TYPE_MAP), (uv_any_req e, UV_REQ_TYPE_MAP)}"
    and "(uc, name) \<in> set m"
  shows "c_sizeof e (T_struct (uv_struct e name)) \<le> c_sizeof e (T_union u) \<and>
    c_alignof e (T_struct (uv_struct e name)) dvd c_alignof e (T_union u)"
proof -
  have "(name, T_struct (uv_struct e name)) \<in> set u"
    using assms(2,3) by (force simp: uv_any_handle_def uv_any_req_def)
  with assms(1) show ?thesis by (rule union_holds_member)
qed

theorem uv_any_holds_witness:
  "c_sizeof e_linux (T_struct (uv_tcp_s e_linux)) \<le> c_sizeof e_linux (T_union (uv_any_handle e_linux))"
proof -
  have "(''TCP'', ''tcp'') \<in> set UV_HANDLE_TYPE_MAP" by (simp add: UV_HANDLE_TYPE_MAP_def)
  from uv_any_holds [OF e_linux_ok _ this, of "uv_any_handle e_linux"] show ?thesis
    by (simp add: uv_struct_simps del: c_layout.simps)
qed

text \<open>On no platform does a structure declare two members of the same name: what the common macros, the
  operating system's macros and the structure itself contribute never collides.\<close>

theorem uv_members_distinct:
  assumes "fs \<in> set (uv_structs e)"
  shows "distinct (map fst fs)"
  using uv_names_distinct [of e] assms by (simp add: list_all_iff)

theorem uv_members_distinct_witness: "distinct (map fst (uv_loop_s e_linux))"
  by (rule uv_members_distinct [of _ e_linux]) (simp add: uv_structs_def uv_typedefs_def)

end
