(* ===== verification/Uv_Fs_Flags.thy ===== *)
theory Uv_Fs_Flags
  imports Uv_Structs
begin

unbundle bit_operations_syntax

text \<open>
  The flags of \<^verbatim>\<open>uv_fs_open\<close> and the directory entry types, which \<^verbatim>\<open>uv/unix.h\<close> takes from the system headers
  where they exist and replaces otherwise, and which \<^verbatim>\<open>uv/win.h\<close> partly defines itself.  The constants
  of the system headers are the component \<open>ue_const\<close> of the environment of \<open>Uv_Structs\<close>.
\<close>

section \<open>Flags of open\<close>

definition o_const :: "uv_env \<Rightarrow> string \<Rightarrow> nat" where
  "o_const e n = (case ue_const e n of Some v \<Rightarrow> v | None \<Rightarrow> 0)"

definition UNIX_UV_FS_O_DIRECT :: "uv_env \<Rightarrow> nat" where
  "UNIX_UV_FS_O_DIRECT e =
     (if ue_defined e ''__linux__'' \<and> ue_defined e ''__arm__'' then 0x10000
      else if ue_defined e ''__linux__'' \<and> ue_defined e ''__m68k__'' then 0x10000
      else if ue_defined e ''__linux__'' \<and> ue_defined e ''__mips__'' then 0x08000
      else if ue_defined e ''__linux__'' \<and> ue_defined e ''__powerpc__'' then 0x20000
      else if ue_defined e ''__linux__'' \<and> ue_defined e ''__s390x__'' then 0x04000
      else if ue_defined e ''__linux__'' \<and> ue_defined e ''__x86_64__'' then 0x04000
      else if ue_defined e ''__linux__'' \<and> ue_defined e ''__loongarch__'' then 0x04000
      else o_const e ''O_DIRECT'')"

definition UNIX_UV_FS_O :: "uv_env \<Rightarrow> (string \<times> nat) list" where
  "UNIX_UV_FS_O e =
    [(''UV_FS_O_APPEND'', o_const e ''O_APPEND''), (''UV_FS_O_CREAT'', o_const e ''O_CREAT''),
     (''UV_FS_O_DIRECT'', UNIX_UV_FS_O_DIRECT e), (''UV_FS_O_DIRECTORY'', o_const e ''O_DIRECTORY''),
     (''UV_FS_O_DSYNC'', o_const e ''O_DSYNC''), (''UV_FS_O_EXCL'', o_const e ''O_EXCL''),
     (''UV_FS_O_EXLOCK'', o_const e ''O_EXLOCK''), (''UV_FS_O_NOATIME'', o_const e ''O_NOATIME''),
     (''UV_FS_O_NOCTTY'', o_const e ''O_NOCTTY''), (''UV_FS_O_NOFOLLOW'', o_const e ''O_NOFOLLOW''),
     (''UV_FS_O_NONBLOCK'', o_const e ''O_NONBLOCK''), (''UV_FS_O_RDONLY'', o_const e ''O_RDONLY''),
     (''UV_FS_O_RDWR'', o_const e ''O_RDWR''), (''UV_FS_O_SYMLINK'', o_const e ''O_SYMLINK''),
     (''UV_FS_O_SYNC'', o_const e ''O_SYNC''), (''UV_FS_O_TRUNC'', o_const e ''O_TRUNC''),
     (''UV_FS_O_WRONLY'', o_const e ''O_WRONLY''), (''UV_FS_O_FILEMAP'', 0), (''UV_FS_O_RANDOM'', 0),
     (''UV_FS_O_SHORT_LIVED'', 0), (''UV_FS_O_SEQUENTIAL'', 0), (''UV_FS_O_TEMPORARY'', 0)]"

text \<open>The flags of the Windows C runtime and the ones \<^verbatim>\<open>uv/win.h\<close> adds.\<close>

definition WIN_UV_FS_O_crt :: "uv_env \<Rightarrow> (string \<times> nat) list" where
  "WIN_UV_FS_O_crt e =
    [(''UV_FS_O_APPEND'', o_const e ''_O_APPEND''), (''UV_FS_O_CREAT'', o_const e ''_O_CREAT''),
     (''UV_FS_O_EXCL'', o_const e ''_O_EXCL''), (''UV_FS_O_RANDOM'', o_const e ''_O_RANDOM''),
     (''UV_FS_O_RDONLY'', o_const e ''_O_RDONLY''), (''UV_FS_O_RDWR'', o_const e ''_O_RDWR''),
     (''UV_FS_O_SEQUENTIAL'', o_const e ''_O_SEQUENTIAL''), (''UV_FS_O_SHORT_LIVED'', o_const e ''_O_SHORT_LIVED''),
     (''UV_FS_O_TEMPORARY'', o_const e ''_O_TEMPORARY''), (''UV_FS_O_TRUNC'', o_const e ''_O_TRUNC''),
     (''UV_FS_O_WRONLY'', o_const e ''_O_WRONLY'')]"

definition WIN_UV_FS_O_own :: "(string \<times> nat) list" where
  "WIN_UV_FS_O_own =
    [(''UV_FS_O_FILEMAP'', 0x20000000), (''UV_FS_O_DIRECT'', 0x02000000), (''UV_FS_O_DSYNC'', 0x04000000),
     (''UV_FS_O_EXLOCK'', 0x10000000), (''UV_FS_O_SYNC'', 0x08000000)]"

definition WIN_UV_FS_O_none :: "(string \<times> nat) list" where
  "WIN_UV_FS_O_none =
    [(''UV_FS_O_DIRECTORY'', 0), (''UV_FS_O_NOATIME'', 0), (''UV_FS_O_NOCTTY'', 0), (''UV_FS_O_NOFOLLOW'', 0),
     (''UV_FS_O_NONBLOCK'', 0), (''UV_FS_O_SYMLINK'', 0)]"

definition UV_FS_O :: "uv_env \<Rightarrow> (string \<times> nat) list" where
  "UV_FS_O e = by_platform e (WIN_UV_FS_O_crt e @ WIN_UV_FS_O_own @ WIN_UV_FS_O_none) (UNIX_UV_FS_O e)"

text \<open>What a caller passes: the bitwise or of some flags, given by name.\<close>

definition open_flags :: "uv_env \<Rightarrow> string list \<Rightarrow> nat" where
  "open_flags e names = foldr (\<lambda>n acc. (case map_of (UV_FS_O e) n of Some v \<Rightarrow> v | None \<Rightarrow> 0) OR acc) names 0"

section \<open>Directory entry types\<close>

definition uv_dirent_type_t :: "string list" where
  "uv_dirent_type_t = [''UV_DIRENT_UNKNOWN'', ''UV_DIRENT_FILE'', ''UV_DIRENT_DIR'', ''UV_DIRENT_LINK'', ''UV_DIRENT_FIFO'',
     ''UV_DIRENT_SOCKET'', ''UV_DIRENT_CHAR'', ''UV_DIRENT_BLOCK'']"

definition dt_const :: "uv_env \<Rightarrow> string \<Rightarrow> int \<Rightarrow> int" where
  "dt_const e n d = (case ue_const e n of Some v \<Rightarrow> int v | None \<Rightarrow> d)"

definition UNIX_UV__DT :: "uv_env \<Rightarrow> (string \<times> int) list" where
  "UNIX_UV__DT e =
     (if ue_const e ''DT_UNKNOWN'' = None then []
      else [(''FILE'', dt_const e ''DT_REG'' (-1)), (''DIR'', dt_const e ''DT_DIR'' (-2)),
            (''LINK'', dt_const e ''DT_LNK'' (-3)), (''FIFO'', dt_const e ''DT_FIFO'' (-4)),
            (''SOCKET'', dt_const e ''DT_SOCK'' (-5)), (''CHAR'', dt_const e ''DT_CHR'' (-6)),
            (''BLOCK'', dt_const e ''DT_BLK'' (-7))])"

definition WIN_UV__DT :: "(string \<times> int) list" where
  "WIN_UV__DT = map (\<lambda>n. (n, case enum_value uv_dirent_type_t (''UV_DIRENT_'' @ n) of Some v \<Rightarrow> int v | None \<Rightarrow> 0))
     [''DIR'', ''FILE'', ''LINK'', ''FIFO'', ''SOCKET'', ''CHAR'', ''BLOCK'']"

definition UV__DT :: "uv_env \<Rightarrow> (string \<times> int) list" where
  "UV__DT e = by_platform e WIN_UV__DT (UNIX_UV__DT e)"

section \<open>Lemmas\<close>

text \<open>Every flag name exists on every platform, once.\<close>

lemma uv_fs_o_names: "mset (map fst (UV_FS_O e)) = mset (map fst (UNIX_UV_FS_O e))"
  by (simp add: UV_FS_O_def by_platform_def UNIX_UV_FS_O_def WIN_UV_FS_O_crt_def WIN_UV_FS_O_own_def WIN_UV_FS_O_none_def)

lemma bit_open_flags:
  "bit (open_flags e names) k \<longleftrightarrow> (\<exists>n \<in> set names. \<exists>v. map_of (UV_FS_O e) n = Some v \<and> bit v k)"
  by (induction names) (auto simp: open_flags_def bit_or_iff split: option.splits)

lemma small_no_high_bit: "v < 2 ^ j \<Longrightarrow> j \<le> k \<Longrightarrow> \<not> bit (v::nat) k"
proof -
  assume "v < 2 ^ j" and "j \<le> k"
  then have "v < 2 ^ k" by (meson less_le_trans one_le_numeral power_increasing)
  then show ?thesis by (simp add: bit_iff_odd)
qed

definition crt_ok :: "uv_env \<Rightarrow> bool" where
  "crt_ok e \<longleftrightarrow> (\<forall>(n, v) \<in> set (WIN_UV_FS_O_crt e). v < 2 ^ 25)"

definition own_bit :: "(string \<times> nat) list" where
  "own_bit = [(''UV_FS_O_FILEMAP'', 29), (''UV_FS_O_DIRECT'', 25), (''UV_FS_O_DSYNC'', 26),
     (''UV_FS_O_EXLOCK'', 28), (''UV_FS_O_SYNC'', 27)]"

lemma own_is_bit: "WIN_UV_FS_O_own = map (\<lambda>(n, k). (n, 2 ^ k)) own_bit"
  by (simp add: WIN_UV_FS_O_own_def own_bit_def)

lemma win_flag_bit:
  assumes "ue_defined e ''_WIN32''" and "crt_ok e" and "(f, k) \<in> set own_bit" and "map_of (UV_FS_O e) n = Some v"
  shows "bit v k \<longleftrightarrow> n = f"
proof -
  have k: "25 \<le> k" using assms(3) by (auto simp: own_bit_def)
  from assms(4) consider "(n, v) \<in> set (WIN_UV_FS_O_crt e)" | j where "(n, j) \<in> set own_bit" "v = 2 ^ j"
    | "(n, v) \<in> set WIN_UV_FS_O_none"
    by (auto simp: UV_FS_O_def by_platform_def assms(1) own_is_bit dest!: map_of_SomeD)
  then show ?thesis
  proof cases
    case 1
    then have "v < 2 ^ 25" using assms(2) by (auto simp: crt_ok_def)
    with small_no_high_bit k have "\<not> bit v k" by blast
    moreover have "n \<noteq> f" using 1 assms(3) by (auto simp: WIN_UV_FS_O_crt_def own_bit_def)
    ultimately show ?thesis by simp
  next
    case (2 j)
    then show ?thesis using assms(3) by (auto simp: own_bit_def bit_exp_iff)
  next
    case 3
    then show ?thesis using assms(3) by (auto simp: WIN_UV_FS_O_none_def own_bit_def)
  qed
qed

text \<open>What is promised of the \<^verbatim>\<open>DT_\<close> constants: two of them never have the same value.\<close>

definition dt_names :: "string list" where
  "dt_names = [''DT_REG'', ''DT_DIR'', ''DT_LNK'', ''DT_FIFO'', ''DT_SOCK'', ''DT_CHR'', ''DT_BLK'']"

definition dt_ok :: "uv_env \<Rightarrow> bool" where
  "dt_ok e \<longleftrightarrow> (\<forall>m \<in> set dt_names. \<forall>n \<in> set dt_names. ue_const e m \<noteq> None \<and> ue_const e m = ue_const e n \<longrightarrow> m = n)"

lemma dt_const_eq:
  assumes "dt_ok e" and "m \<in> set dt_names" and "n \<in> set dt_names" and "m \<noteq> n" and "c < 0" and "d < 0" and "c \<noteq> d"
  shows "dt_const e m c \<noteq> dt_const e n d"
  using assms by (auto simp: dt_const_def dt_ok_def split: option.splits)

lemma unix_dt_distinct:
  assumes "dt_ok e"
  shows "distinct (map snd (UNIX_UV__DT e))"
  using dt_const_eq [OF assms] by (simp add: UNIX_UV__DT_def dt_names_def)

section \<open>Properties\<close>

text \<open>On Windows the open flags that \<^verbatim>\<open>uv/win.h\<close> adds do not interfere with each other or with those of
  the C runtime, as long as the latter stay below bit 25: from any combination of open flags each of
  the added ones can be read back.\<close>

theorem uv_fs_o_recoverable:
  assumes "ue_defined e ''_WIN32''" and "crt_ok e" and "(f, v) \<in> set WIN_UV_FS_O_own"
    and "set names \<subseteq> set (map fst (UV_FS_O e))"
  shows "open_flags e names AND v \<noteq> 0 \<longleftrightarrow> f \<in> set names"
proof -
  from assms(3) obtain k where k: "(f, k) \<in> set own_bit" "v = 2 ^ k"
    by (auto simp: own_is_bit)
  have "bit (open_flags e names) k \<longleftrightarrow> f \<in> set names"
  proof
    show "f \<in> set names" if "bit (open_flags e names) k"
      using that win_flag_bit [OF assms(1,2) k(1)] by (auto simp: bit_open_flags)
    show "bit (open_flags e names) k" if f: "f \<in> set names"
    proof -
      from f assms(4) obtain w where "map_of (UV_FS_O e) f = Some w"
        by (metis list.set_map map_of_eq_None_iff not_None_eq subsetD)
      with f win_flag_bit [OF assms(1,2) k(1), of f w] show ?thesis by (auto simp: bit_open_flags)
    qed
  qed
  with k(2) show ?thesis by (metis and_exp_eq_0_iff_not_bit)
qed

definition e_win :: uv_env where
  "e_win = \<lparr>ce_size = (\<lambda>_. 8), ce_align = (\<lambda>_. 8), ue_defined = (\<lambda>s. s = ''_WIN32''),
     ue_const = map_of [(''_O_WRONLY'', 1), (''_O_RDWR'', 2), (''_O_APPEND'', 8), (''_O_RANDOM'', 16), (''_O_SEQUENTIAL'', 32),
       (''_O_TEMPORARY'', 64), (''_O_CREAT'', 256), (''_O_TRUNC'', 512), (''_O_EXCL'', 1024), (''_O_SHORT_LIVED'', 4096)]\<rparr>"

theorem uv_fs_o_recoverable_witness:
  "open_flags e_win [''UV_FS_O_CREAT'', ''UV_FS_O_DSYNC''] AND 0x04000000 \<noteq> 0 \<and>
   open_flags e_win [''UV_FS_O_CREAT'', ''UV_FS_O_DSYNC''] AND 0x08000000 = 0"
proof -
  have "ue_defined e_win ''_WIN32''" "crt_ok e_win"
    by (simp_all add: e_win_def crt_ok_def WIN_UV_FS_O_crt_def o_const_def)
  note w = uv_fs_o_recoverable [OF this]
  have s: "set [''UV_FS_O_CREAT'', ''UV_FS_O_DSYNC''] \<subseteq> set (map fst (UV_FS_O e_win))"
    by (simp add: UV_FS_O_def by_platform_def WIN_UV_FS_O_crt_def WIN_UV_FS_O_own_def) (simp add: e_win_def)
  show ?thesis
    using w [where f = "''UV_FS_O_DSYNC''" and v = "0x04000000", OF _ s] w [where f = "''UV_FS_O_SYNC''" and v = "0x08000000", OF _ s]
    by (simp add: WIN_UV_FS_O_own_def)
qed

text \<open>The seven directory entry types are told apart on every platform: where the system defines only
  some of the \<^verbatim>\<open>DT_\<close> constants the negative replacements collide neither with them nor with each other.\<close>

theorem uv_dirent_types_distinct:
  assumes "dt_ok e"
  shows "distinct (map snd (UV__DT e))"
  using unix_dt_distinct [OF assms]
  by (simp add: UV__DT_def by_platform_def WIN_UV__DT_def uv_dirent_type_t_def enum_value_def)

theorem uv_dirent_types_distinct_witness:
  "let e = e_linux\<lparr>ue_const := map_of [(''DT_UNKNOWN'', 0), (''DT_REG'', 8), (''DT_DIR'', 4)]\<rparr>
   in map snd (UV__DT e) = [8, 4, -3, -4, -5, -6, -7] \<and> distinct (map snd (UV__DT e))"
proof -
  let ?e = "e_linux\<lparr>ue_const := map_of [(''DT_UNKNOWN'', 0), (''DT_REG'', 8), (''DT_DIR'', 4)]\<rparr>"
  have "dt_ok ?e" by (simp add: dt_ok_def dt_names_def)
  from uv_dirent_types_distinct [OF this] have "distinct (map snd (UV__DT ?e))" .
  moreover have "map snd (UV__DT ?e) = [8, 4, -3, -4, -5, -6, -7]"
    by (simp add: UV__DT_def by_platform_def UNIX_UV__DT_def dt_const_def e_linux_def)
  ultimately show ?thesis by (simp add: Let_def)
qed

end
