(* ===== verification/Route_Match.thy ===== *)
theory Route_Match
  imports Prelude
begin

text \<open>
  What all routers share: the handlers they store, the result of a match
  (\<^verbatim>\<open>ContextRouteMatch\<close> of \<^verbatim>\<open>router.v\<close>), the cache key of a request, and the complexity score by which
  the dynamic routes are ordered (\<^verbatim>\<open>calculate_route_complexity\<close> of \<^verbatim>\<open>router.v\<close> and its copy in \<^verbatim>\<open>fast_router.v\<close>).
  A handler is its path and an opaque function.
\<close>

record 'h ihandler =
  ih_path :: string
  ih_handle :: 'h

record 'h route_match =
  rm_handler :: "'h ihandler"
  rm_params :: "(string, string) vmap"
  rm_path :: string
  rm_base_path :: string

text \<open>\<^verbatim>\<open>'${method}:${path}'\<close>\<close>

definition route_key :: "string \<Rightarrow> string \<Rightarrow> string" where
  "route_key m p = m @ CHR '':'' # p"

text \<open>A method name has no colon, so the key determines method and path.\<close>

definition key_method :: "string \<Rightarrow> string" where
  "key_method k = takeWhile (\<lambda>c. c \<noteq> CHR '':'') k"

definition key_path :: "string \<Rightarrow> string" where
  "key_path k = drop (Suc (length (key_method k))) k"

lemma route_key_ne [simp]: "route_key m p \<noteq> []"
  by (simp add: route_key_def)

lemma key_method_route_key [simp]: "CHR '':'' \<notin> set m \<Longrightarrow> key_method (route_key m p) = m"
  unfolding key_method_def route_key_def by (subst takeWhile_append2) auto

lemma key_path_route_key [simp]: "CHR '':'' \<notin> set m \<Longrightarrow> key_path (route_key m p) = p"
  by (simp add: key_path_def) (simp add: route_key_def)

lemma route_key_inject:
  "CHR '':'' \<notin> set m \<Longrightarrow> CHR '':'' \<notin> set m' \<Longrightarrow> route_key m p = route_key m' p' \<longleftrightarrow> m = m' \<and> p = p'"
  by (metis key_method_route_key key_path_route_key)

definition special_chars :: "char list" where
  "special_chars = [CHR ''?'', CHR ''+'', CHR ''.'', CHR ''('', CHR '')'', CHR ''['', CHR '']'', CHR ''{'', CHR ''}'',
     CHR ''^'', CHR ''$'', CHR ''|'']"

definition calculate_route_complexity :: "string \<Rightarrow> int" where
  "calculate_route_complexity path =
     int (v_count path (CHR '':'')) * 10 + int (v_count path (CHR ''*'')) * 20
     + int (length (v_split slash path)) + sum_list (map (\<lambda>ch. int (v_count path ch) * 5) special_chars)"

section \<open>Regular expressions\<close>

text \<open>The \<^verbatim>\<open>regex\<close> module is used through five functions; an engine is a parameter of the routers that
  use it.  Nothing is assumed of it unless a property says so.  \<^verbatim>\<open>get_group_by_name\<close> reads the groups
  of the match that precedes it on the same text.\<close>

record 're regex_lib =
  regex_opt :: "string \<Rightarrow> 're option"
  matches_string :: "'re \<Rightarrow> string \<Rightarrow> bool"
  get_group_by_name :: "'re \<Rightarrow> string \<Rightarrow> string \<Rightarrow> string"
  find_all_str :: "'re \<Rightarrow> string \<Rightarrow> string list"
  replace_by_fn :: "'re \<Rightarrow> string \<Rightarrow> (string \<Rightarrow> nat \<Rightarrow> nat \<Rightarrow> string) \<Rightarrow> string"

abbreviation backslash :: char where
  "backslash \<equiv> CHR 0x5C"

definition param_source :: string where
  "param_source = '':[a-zA-Z_][a-zA-Z0-9_]*''"

text \<open>The loop over \<^verbatim>\<open>special_chars\<close> that puts a backslash before each of them.\<close>

definition escape_specials :: "string \<Rightarrow> string" where
  "escape_specials path = fold (\<lambda>ch s. v_replace ch [backslash, ch] s) special_chars path"

text \<open>The callback of \<^verbatim>\<open>replace_by_fn\<close>: a parameter becomes a named group.\<close>

definition param_group :: "string \<Rightarrow> nat \<Rightarrow> nat \<Rightarrow> string" where
  "param_group in_txt start stop = ''(?P<'' @ take (stop - (start + 1)) (drop (start + 1) in_txt) @ ''>[^/]+)''"

definition anchored :: "string \<Rightarrow> string" where
  "anchored s = ''^'' @ s @ ''$''"

text \<open>A compiled expression with its parameter names (\<^verbatim>\<open>CompiledRegex\<close> and \<^verbatim>\<open>FastCompiledRegex\<close>).\<close>

record 're compiled_regex =
  cr_regex :: 're
  cr_param_names :: "string list"
  cr_compiled :: bool

text \<open>The counting loop over the expression cache.\<close>

definition compiled_count :: "(string, 're compiled_regex) vmap \<Rightarrow> int" where
  "compiled_count m = int (length (filter (\<lambda>(k, c). cr_compiled c) m))"

text \<open>The parameters of a matched path.\<close>

definition extract_params :: "'re regex_lib \<Rightarrow> 're \<Rightarrow> string list \<Rightarrow> string \<Rightarrow> (string, string) vmap" where
  "extract_params rl re names path = fold (\<lambda>n m. vset n (get_group_by_name rl re path n) m) names []"

lemma v_replace_append: "v_replace c t (s @ u) = v_replace c t s @ v_replace c t u"
  by (simp add: v_replace_def)

lemma v_replace_Cons: "v_replace c t (x # s) = (if x = c then t else [x]) @ v_replace c t s"
  by (simp add: v_replace_def)

lemma v_replace_Nil [simp]: "v_replace c t [] = []"
  by (simp add: v_replace_def)

text \<open>Escaping one character after the other is escaping all in one pass: the backslash is not
  escaped itself and no escaped character is visited twice.\<close>

definition escape_char :: "char set \<Rightarrow> char \<Rightarrow> string" where
  "escape_char S x = (if x \<in> S then [backslash, x] else [x])"

lemma v_replace_escaped:
  assumes "c \<notin> S" and "c \<noteq> backslash"
  shows "v_replace c [backslash, c] (concat (map (escape_char S) s)) = concat (map (escape_char (insert c S)) s)"
  using assms by (induction s) (auto simp: escape_char_def v_replace_append v_replace_Cons)

lemma fold_escape:
  assumes "distinct cs" and "set cs \<inter> S = {}" and "backslash \<notin> set cs"
  shows "fold (\<lambda>ch s. v_replace ch [backslash, ch] s) cs (concat (map (escape_char S) s))
    = concat (map (escape_char (set cs \<union> S)) s)"
  using assms
proof (induction cs arbitrary: S)
  case (Cons c cs)
  then have "v_replace c [backslash, c] (concat (map (escape_char S) s)) = concat (map (escape_char (insert c S)) s)"
    by (intro v_replace_escaped) auto
  with Cons show ?case
    using Cons.IH [of "insert c S"] by simp
qed simp

lemma escape_specials_one_pass: "escape_specials path = concat (map (escape_char (set special_chars)) path)"
proof -
  have "concat (map (escape_char {}) path) = path" by (induction path) (simp_all add: escape_char_def)
  with fold_escape [of special_chars "{}" path] show ?thesis
    by (simp add: escape_specials_def) (simp add: special_chars_def)
qed

section \<open>Segments\<close>

text \<open>\<^verbatim>\<open>path.split('/').filter(it != '')\<close>\<close>

definition segments :: "string \<Rightarrow> string list" where
  "segments path = filter (\<lambda>s. s \<noteq> []) (v_split slash path)"

end
