(* ===== verification/Trie_Router.thy ===== *)
theory Trie_Router
  imports Route_Match Lru_Cache
begin

text \<open>
  The trie router of \<^verbatim>\<open>trie_router.v\<close>: one tree of path segments per method, registration and greedy
  matching (a static child before the parameter child before the wildcard child, without going back),
  the LRU cache in front of it, and the list of routes.  The nodes of the source are mutable but
  never shared, so a tree is a value.
\<close>

section \<open>State\<close>

datatype trie_node_type = TN_static | TN_param | TN_wildcard

datatype 'h trie_node = Trie_Node
  (tn_segment: string)
  (tn_type: trie_node_type)
  (tn_param_name: string)
  (tn_handler: "'h ihandler option")
  (tn_children: "(string \<times> 'h trie_node) list")
  (tn_param_child: "'h trie_node option")
  (tn_wildcard_child: "'h trie_node option")

definition trie_node_new :: "string \<Rightarrow> trie_node_type \<Rightarrow> string \<Rightarrow> 'h trie_node" where
  "trie_node_new seg ty pn = Trie_Node seg ty pn None [] None None"

definition set_handler :: "'h ihandler \<Rightarrow> 'h trie_node \<Rightarrow> 'h trie_node" where
  "set_handler h t = Trie_Node (tn_segment t) (tn_type t) (tn_param_name t) (Some h) (tn_children t)
     (tn_param_child t) (tn_wildcard_child t)"

definition set_children :: "(string \<times> 'h trie_node) list \<Rightarrow> 'h trie_node \<Rightarrow> 'h trie_node" where
  "set_children cs t = Trie_Node (tn_segment t) (tn_type t) (tn_param_name t) (tn_handler t) cs
     (tn_param_child t) (tn_wildcard_child t)"

definition set_param_child :: "'h trie_node \<Rightarrow> 'h trie_node \<Rightarrow> 'h trie_node" where
  "set_param_child c t = Trie_Node (tn_segment t) (tn_type t) (tn_param_name t) (tn_handler t) (tn_children t)
     (Some c) (tn_wildcard_child t)"

definition set_wildcard_child :: "'h trie_node \<Rightarrow> 'h trie_node \<Rightarrow> 'h trie_node" where
  "set_wildcard_child c t = Trie_Node (tn_segment t) (tn_type t) (tn_param_name t) (tn_handler t) (tn_children t)
     (tn_param_child t) (Some c)"

record 'h trie_router =
  tr_trees :: "(string, 'h trie_node) vmap"
  tr_cache :: "'h route_match lru_cache"

definition trie_router_new :: "int \<Rightarrow> 'h trie_router" where
  "trie_router_new now = \<lparr>tr_trees = [], tr_cache = lru_new now 1000\<rparr>"

section \<open>Operations\<close>

text \<open>The loop of \<^verbatim>\<open>add_route\<close> over the segments; the handler is set at the node of the last one.\<close>

fun trie_add :: "string list \<Rightarrow> 'h ihandler \<Rightarrow> 'h trie_node \<Rightarrow> 'h trie_node" where
  "trie_add [] h t = t"
| "trie_add (seg # segs) h t =
     (let enter = (\<lambda>c. trie_add segs h (if segs = [] then set_handler h c else c)) in
      if v_starts_with seg '':'' then
        set_param_child (enter (case tn_param_child t of Some c \<Rightarrow> c | None \<Rightarrow> trie_node_new seg TN_param (tl seg))) t
      else if seg = ''*'' then
        set_wildcard_child (enter (case tn_wildcard_child t of Some c \<Rightarrow> c
           | None \<Rightarrow> trie_node_new seg TN_wildcard (tl seg))) t
      else
        set_children (vset seg (enter (case vget (tn_children t) seg of Some c \<Rightarrow> c
           | None \<Rightarrow> trie_node_new seg TN_static '''')) (tn_children t)) t)"

definition trie_add_route :: "string \<Rightarrow> string \<Rightarrow> 'h ihandler \<Rightarrow> 'h trie_router \<Rightarrow> 'h trie_router" where
  "trie_add_route method path h tr =
     (let root = (case vget (tr_trees tr) method of Some t \<Rightarrow> t | None \<Rightarrow> trie_node_new '''' TN_static '''')
      in tr\<lparr>tr_trees := vset method (trie_add (segments path) h root) (tr_trees tr)\<rparr>)"

text \<open>The matching loop: the node reached and the parameters, or no match.\<close>

fun trie_walk :: "string list \<Rightarrow> (string, string) vmap \<Rightarrow> 'h trie_node \<Rightarrow> ('h trie_node \<times> (string, string) vmap) option" where
  "trie_walk [] params t = Some (t, params)"
| "trie_walk (seg # segs) params t =
     (case vget (tn_children t) seg of
        Some c \<Rightarrow> trie_walk segs params c
      | None \<Rightarrow>
          (case tn_param_child t of
             Some c \<Rightarrow> trie_walk segs (vset (tn_param_name c) seg params) c
           | None \<Rightarrow> (case tn_wildcard_child t of Some c \<Rightarrow> Some (c, params) | None \<Rightarrow> None)))"

text \<open>The match without the cache.\<close>

definition trie_lookup :: "(string, 'h trie_node) vmap \<Rightarrow> string \<Rightarrow> string \<Rightarrow> 'h route_match option" where
  "trie_lookup trees method path =
     (case vget trees method of
        None \<Rightarrow> None
      | Some root \<Rightarrow>
          (case trie_walk (segments path) [] root of
             None \<Rightarrow> None
           | Some (t, params) \<Rightarrow>
               map_option (\<lambda>h. \<lparr>rm_handler = h, rm_params = params, rm_path = '''', rm_base_path = ''''\<rparr>) (tn_handler t)))"

definition trie_match_route ::
  "clock \<Rightarrow> clock \<Rightarrow> string \<Rightarrow> string \<Rightarrow> 'h trie_router \<Rightarrow> 'h route_match option \<times> 'h trie_router" where
  "trie_match_route ck ck' method path tr =
     (case lru_get ck path (tr_cache tr) of
        (Some cached, c) \<Rightarrow> (Some cached, tr\<lparr>tr_cache := c\<rparr>)
      | (None, c) \<Rightarrow>
          (case trie_lookup (tr_trees tr) method path of
             None \<Rightarrow> (None, tr\<lparr>tr_cache := c\<rparr>)
           | Some r \<Rightarrow> (Some r, tr\<lparr>tr_cache := lru_put ck' path r c\<rparr>)))"

fun collect_routes :: "'h trie_node \<Rightarrow> string \<Rightarrow> string list" where
  "collect_routes (Trie_Node seg ty pn h cs pc wc) current_path =
     (if h \<noteq> None then [current_path] else [])
     @ concat (map (\<lambda>(s, c). collect_routes c (current_path @ slash # s)) cs)
     @ (case pc of None \<Rightarrow> [] | Some c \<Rightarrow> collect_routes c (current_path @ ''/:'' @ tn_param_name c))
     @ (case wc of None \<Rightarrow> [] | Some c \<Rightarrow> collect_routes c (current_path @ ''/*''))"

definition trie_get_all_routes :: "'h trie_router \<Rightarrow> string list" where
  "trie_get_all_routes tr = concat (map (\<lambda>(m, root). collect_routes root '''') (tr_trees tr))"

section \<open>What a trie stores\<close>

text \<open>The declarative reading of a list of registered patterns: matching consumes one segment of the
  request and keeps the patterns that go on with it, static ones first, then the parameter
  patterns, then the wildcards.  Patterns of one kind are followed together and no kind is tried
  after an earlier one has been entered.\<close>

datatype seg_kind = K_static string | K_param | K_wild

definition kind_of :: "string \<Rightarrow> seg_kind" where
  "kind_of seg = (if v_starts_with seg '':'' then K_param else if seg = ''*'' then K_wild else K_static seg)"

type_synonym 'h pattern = "string list \<times> 'h ihandler"

definition residual :: "seg_kind \<Rightarrow> 'h pattern list \<Rightarrow> 'h pattern list" where
  "residual k rs = map (\<lambda>(p, h). (tl p, h)) (filter (\<lambda>(p, h). p \<noteq> [] \<and> kind_of (hd p) = k) rs)"

definition last_handler :: "'h pattern list \<Rightarrow> 'h ihandler option" where
  "last_handler rs = map_option snd (find (\<lambda>(p, h). p = []) (rev rs))"

definition first_param :: "'h pattern list \<Rightarrow> string" where
  "first_param rs = (case find (\<lambda>(p, h). p \<noteq> [] \<and> kind_of (hd p) = K_param) rs of
      None \<Rightarrow> '''' | Some (p, h) \<Rightarrow> tl (hd p))"

fun greedy :: "'h pattern list \<Rightarrow> string list \<Rightarrow> (string, string) vmap \<Rightarrow> ('h ihandler \<times> (string, string) vmap) option" where
  "greedy rs [] ps = map_option (\<lambda>h. (h, ps)) (last_handler rs)"
| "greedy rs (s # ss) ps =
     (if residual (K_static s) rs \<noteq> [] then greedy (residual (K_static s) rs) ss ps
      else if residual K_param rs \<noteq> [] then greedy (residual K_param rs) ss (vset (first_param rs) s ps)
      else map_option (\<lambda>h. (h, ps)) (last_handler (residual K_wild rs)))"

definition greedy_match :: "'h pattern list \<Rightarrow> string list \<Rightarrow> 'h route_match option" where
  "greedy_match rs segs =
     map_option (\<lambda>(h, ps). \<lparr>rm_handler = h, rm_params = ps, rm_path = '''', rm_base_path = ''''\<rparr>) (greedy rs segs [])"

section \<open>The tree of a list of patterns\<close>

text \<open>Entering a node with the rest of a pattern, as the loop body of \<^verbatim>\<open>add_route\<close> does.\<close>

definition trie_enter :: "'h pattern \<Rightarrow> 'h trie_node \<Rightarrow> 'h trie_node" where
  "trie_enter r t = trie_add (fst r) (snd r) (if fst r = [] then set_handler (snd r) t else t)"

definition static_child :: "'h trie_node \<Rightarrow> string \<Rightarrow> 'h trie_node" where
  "static_child t s = (case vget (tn_children t) s of Some c \<Rightarrow> c | None \<Rightarrow> trie_node_new s TN_static '''')"

definition or_new :: "'h trie_node option \<Rightarrow> trie_node_type \<Rightarrow> string \<Rightarrow> 'h trie_node" where
  "or_new p ty seg = (case p of Some c \<Rightarrow> c | None \<Rightarrow> trie_node_new seg ty (tl seg))"

lemmas trie_set_simps = set_handler_def set_children_def set_param_child_def set_wildcard_child_def

lemma trie_enter_Nil [route_simps]: "trie_enter ([], h) t = set_handler h t"
  by (simp add: trie_enter_def)

lemma trie_enter_Cons [route_simps]:
  "trie_enter (seg # segs, h) t =
     (case kind_of seg of
        K_param \<Rightarrow> set_param_child (trie_enter (segs, h) (or_new (tn_param_child t) TN_param seg)) t
      | K_wild \<Rightarrow> set_wildcard_child (trie_enter (segs, h) (or_new (tn_wildcard_child t) TN_wildcard seg)) t
      | K_static s \<Rightarrow> set_children (vset s (trie_enter (segs, h) (static_child t s)) (tn_children t)) t)"
  by (auto simp: trie_enter_def kind_of_def Let_def or_new_def static_child_def cong: option.case_cong)

lemma trie_add_enter: "segs \<noteq> [] \<Longrightarrow> trie_add segs h t = trie_enter (segs, h) t"
  by (simp add: trie_enter_def)

lemma kind_param_seg: "kind_of seg = K_param \<Longrightarrow> CHR '':'' # tl seg = seg"
  by (cases seg) (auto simp: kind_of_def split: if_splits)

lemma kind_wild_seg: "kind_of seg = K_wild \<Longrightarrow> seg = ''*''"
  by (auto simp: kind_of_def split: if_splits)

abbreviation trie_build :: "'h pattern list \<Rightarrow> 'h trie_node \<Rightarrow> 'h trie_node" where
  "trie_build rs t \<equiv> fold trie_enter rs t"

lemma residual_Nil [simp]: "residual k [] = []"
  by (simp add: residual_def)

lemma residual_Cons:
  "residual k (r # rs) =
     (if fst r \<noteq> [] \<and> kind_of (hd (fst r)) = k then (tl (fst r), snd r) # residual k rs else residual k rs)"
  by (auto simp: residual_def split: prod.splits)

lemma first_param_Cons:
  "first_param (r # rs) =
     (if fst r \<noteq> [] \<and> kind_of (hd (fst r)) = K_param then tl (hd (fst r)) else first_param rs)"
  by (auto simp: first_param_def split: prod.splits)

lemma build_static_child:
  "vget (tn_children (trie_build rs t)) s =
     (if residual (K_static s) rs = [] then vget (tn_children t) s
      else Some (trie_build (residual (K_static s) rs) (static_child t s)))"
proof (induction rs arbitrary: t)
  case (Cons r rs)
  obtain p h where "r = (p, h)" by (cases r)
  then show ?case
    by (cases p) (auto simp: Cons.IH residual_Cons static_child_def route_simps trie_set_simps split: seg_kind.splits)
qed simp

lemma build_param_child:
  "tn_param_child (trie_build rs t) =
     (if residual K_param rs = [] then tn_param_child t
      else Some (trie_build (residual K_param rs) (or_new (tn_param_child t) TN_param (CHR '':'' # first_param rs))))"
proof (induction rs arbitrary: t)
  case (Cons r rs)
  obtain p h where "r = (p, h)" by (cases r)
  then show ?case
    by (cases p) (auto simp: Cons.IH residual_Cons first_param_Cons or_new_def kind_param_seg route_simps trie_set_simps
        cong: option.case_cong split: seg_kind.splits)
qed simp

lemma build_wildcard_child:
  "tn_wildcard_child (trie_build rs t) =
     (if residual K_wild rs = [] then tn_wildcard_child t
      else Some (trie_build (residual K_wild rs) (or_new (tn_wildcard_child t) TN_wildcard ''*'')))"
proof (induction rs arbitrary: t)
  case (Cons r rs)
  obtain p h where "r = (p, h)" by (cases r)
  then show ?case
    by (cases p) (auto simp: Cons.IH residual_Cons or_new_def route_simps trie_set_simps
        dest: kind_wild_seg split: seg_kind.splits)
qed simp

lemma build_handler:
  "tn_handler (trie_build rs t) = (case last_handler rs of None \<Rightarrow> tn_handler t | Some h \<Rightarrow> Some h)"
proof (induction rs arbitrary: t)
  case (Cons r rs)
  obtain p h where "r = (p, h)" by (cases r)
  then show ?case
    by (cases p) (auto simp: Cons.IH last_handler_def find_append route_simps trie_set_simps split: seg_kind.splits option.splits)
qed (simp add: last_handler_def)

lemma build_param_name: "tn_param_name (trie_build rs t) = tn_param_name t"
proof (induction rs arbitrary: t)
  case (Cons r rs)
  obtain p h where "r = (p, h)" by (cases r)
  then show ?case
    by (cases p) (auto simp: Cons.IH route_simps trie_set_simps split: seg_kind.splits)
qed simp

section \<open>Matching\<close>

definition blank :: "'h trie_node \<Rightarrow> bool" where
  "blank t \<longleftrightarrow> tn_handler t = None \<and> tn_children t = [] \<and> tn_param_child t = None \<and> tn_wildcard_child t = None"

lemma blank_new [simp]: "blank (trie_node_new seg ty pn)"
  by (simp add: blank_def trie_node_new_def)

lemma blank_static_child [simp]: "blank t \<Longrightarrow> blank (static_child t s)"
  by (simp add: static_child_def) (simp add: blank_def trie_node_new_def)

lemma or_new_None: "or_new None ty seg = trie_node_new seg ty (tl seg)"
  by (simp add: or_new_def)

lemma param_name_new [simp]: "tn_param_name (trie_node_new seg ty pn) = pn"
  by (simp add: trie_node_new_def)

definition outcome :: "('h trie_node \<times> (string, string) vmap) option \<Rightarrow> ('h ihandler \<times> (string, string) vmap) option" where
  "outcome w = Option.bind w (\<lambda>(t, ps). map_option (\<lambda>h. (h, ps)) (tn_handler t))"

lemma walk_greedy: "blank t \<Longrightarrow> outcome (trie_walk segs ps (trie_build rs t)) = greedy rs segs ps"
proof (induction segs arbitrary: rs ps t)
  case Nil
  then show ?case by (simp add: outcome_def build_handler blank_def split: option.splits)
next
  case (Cons s ss)
  have b: "vget (tn_children t) s = None" "tn_param_child t = None" "tn_wildcard_child t = None"
    using Cons.prems by (auto simp: blank_def)
  let ?r = "residual (K_static s) rs" and ?p = "residual K_param rs" and ?w = "residual K_wild rs"
  consider "?r \<noteq> []" | "?r = []" "?p \<noteq> []" | "?r = []" "?p = []" "?w \<noteq> []" | "?r = []" "?p = []" "?w = []"
    by blast
  then show ?case
  proof cases
    case 1
    then show ?thesis
      using Cons by (simp add: build_static_child)
  next
    case 2
    then show ?thesis
      using Cons b by (simp add: build_static_child build_param_child build_param_name or_new_None)
  next
    case 3
    then show ?thesis
      using Cons b by (simp add: build_static_child build_param_child build_wildcard_child outcome_def
          or_new_None build_handler) (simp add: trie_node_new_def split: option.splits)
  next
    case 4
    then show ?thesis
      using b by (simp add: build_static_child build_param_child build_wildcard_child outcome_def last_handler_def)
  qed
qed

text \<open>A registration, and the patterns of one method that the tree keeps.  A path without segments
  such as \<^verbatim>\<open>/\<close> leaves no pattern: \<^verbatim>\<open>add_route\<close> sets a handler only inside its loop.\<close>

type_synonym 'h registration = "string \<times> string \<times> 'h ihandler"

definition register :: "'h registration \<Rightarrow> 'h trie_router \<Rightarrow> 'h trie_router" where
  "register r tr = (case r of (m, p, h) \<Rightarrow> trie_add_route m p h tr)"

definition patterns :: "string \<Rightarrow> 'h registration list \<Rightarrow> 'h pattern list" where
  "patterns m regs = map (\<lambda>(m, p, h). (segments p, h)) (filter (\<lambda>(m', p, h). m' = m \<and> segments p \<noteq> []) regs)"

abbreviation blank_root :: "'h trie_node" where
  "blank_root \<equiv> trie_node_new '''' TN_static ''''"

lemma patterns_none: "\<forall>r \<in> set regs. fst r \<noteq> m \<Longrightarrow> patterns m regs = []"
  by (auto simp: patterns_def filter_empty_conv)

lemma register_tree:
  "vget (tr_trees (register (m', p, h) tr)) m =
     (if m' = m then Some (trie_add (segments p) h (case vget (tr_trees tr) m of Some t \<Rightarrow> t | None \<Rightarrow> blank_root))
      else vget (tr_trees tr) m)"
  by (simp add: register_def trie_add_route_def Let_def)

lemma patterns_Cons:
  "patterns m ((m', p, h) # regs) =
     (if m' = m \<and> segments p \<noteq> [] then (segments p, h) # patterns m regs else patterns m regs)"
  by (simp add: patterns_def)

lemma registered_root:
  "vget (tr_trees (fold register regs tr)) m =
     (if \<forall>r \<in> set regs. fst r \<noteq> m then vget (tr_trees tr) m
      else Some (trie_build (patterns m regs) (case vget (tr_trees tr) m of Some t \<Rightarrow> t | None \<Rightarrow> blank_root)))"
proof (induction regs arbitrary: tr)
  case (Cons r regs)
  obtain m' p h where r: "r = (m', p, h)" by (cases r)
  show ?case
    by (cases "segments p = []") (auto simp: r Cons.IH register_tree patterns_Cons trie_add_enter patterns_none)
qed simp


lemma greedy_empty: "greedy [] segs ps = None"
  by (cases segs) (simp_all add: last_handler_def)

lemma trie_lookup_greedy:
  "trie_lookup (tr_trees (fold register regs (trie_router_new now))) m path = greedy_match (patterns m regs) (segments path)"
proof (cases "\<forall>r \<in> set regs. fst r \<noteq> m")
  case True
  then show ?thesis
    by (simp add: trie_lookup_def registered_root patterns_none greedy_match_def greedy_empty)
      (simp add: trie_router_new_def)
next
  case False
  have "outcome (trie_walk (segments path) [] (trie_build (patterns m regs) blank_root))
      = greedy (patterns m regs) (segments path) []"
    by (rule walk_greedy) simp
  from False this [symmetric] show ?thesis
    by (auto simp: trie_lookup_def registered_root greedy_match_def outcome_def trie_router_new_def option.map_comp o_def
        split: option.splits)
qed

lemma register_cache [simp]: "tr_cache (fold register regs tr) = tr_cache tr"
  by (induction regs arbitrary: tr) (auto simp: register_def trie_add_route_def Let_def)

text \<open>A static pattern is followed segment by segment, whatever else is registered.\<close>

definition is_static :: "string \<Rightarrow> bool" where
  "is_static seg \<longleftrightarrow> kind_of seg = K_static seg"

lemma kind_static_iff: "is_static s \<Longrightarrow> kind_of seg = K_static s \<longleftrightarrow> seg = s"
  by (auto simp: is_static_def kind_of_def split: if_splits)

lemma find_residual:
  assumes "is_static s"
  shows "find (\<lambda>(p, h). p = ss) (rev (residual (K_static s) rs)) =
    map_option (\<lambda>(p, h). (tl p, h)) (find (\<lambda>(p, h). p = s # ss) (rev rs))"
proof (induction rs)
  case (Cons r rs)
  obtain p h where "r = (p, h)" by (cases r)
  then show ?case
    using Cons by (cases p) (auto simp: residual_Cons find_append kind_static_iff [OF assms] split: option.splits)
qed simp

lemma greedy_static:
  "list_all is_static segs \<Longrightarrow> find (\<lambda>(p, h). p = segs) (rev rs) = Some (segs, h) \<Longrightarrow> greedy rs segs ps = Some (h, ps)"
proof (induction segs arbitrary: rs)
  case (Cons s ss)
  then have f: "find (\<lambda>(p, h). p = ss) (rev (residual (K_static s) rs)) = Some (ss, h)"
    by (simp add: find_residual)
  then have "residual (K_static s) rs \<noteq> []" by auto
  with f Cons show ?case by simp
qed (simp add: last_handler_def)

lemma find_patterns:
  assumes "segments p \<noteq> []" and "\<forall>p'. (m, p') \<in> (\<lambda>(m, p, h). (m, p)) ` set later \<longrightarrow> segments p' \<noteq> segments p"
  shows "find (\<lambda>(q, h). q = segments p) (rev (patterns m (earlier @ (m, p, h) # later))) = Some (segments p, h)"
proof -
  have "find (\<lambda>(q, h). q = segments p) (rev (patterns m later)) = None"
    using assms(2) by (intro find_none) (force simp: patterns_def)
  with assms(1) show ?thesis by (simp add: patterns_def find_append)
qed

section \<open>The cache in front of the trees\<close>

definition trie_agrees :: "string \<Rightarrow> 'h trie_router \<Rightarrow> bool" where
  "trie_agrees m tr \<longleftrightarrow> lru.agrees (trie_lookup (tr_trees tr) m) (tr_cache tr)"

lemma trie_match_agrees:
  assumes "trie_agrees m tr" and "path \<noteq> ''''"
  shows "fst (trie_match_route ck ck' m path tr) = trie_lookup (tr_trees tr) m path"
    and "trie_agrees m (snd (trie_match_route ck ck' m path tr))"
    and "tr_trees (snd (trie_match_route ck ck' m path tr)) = tr_trees tr"
proof -
  let ?r = "case lru_get ck path (tr_cache tr) of
      (Some v, c1) \<Rightarrow> (Some v, c1)
    | (None, c1) \<Rightarrow> (case trie_lookup (tr_trees tr) m path of None \<Rightarrow> (None, c1) | Some v \<Rightarrow> (Some v, lru_put ck' path v c1))"
  have "trie_match_route ck ck' m path tr = (fst ?r, tr\<lparr>tr_cache := snd ?r\<rparr>)"
    by (auto simp: trie_match_route_def split: prod.splits option.splits)
  with lru.agrees_memo [OF assms(1) [unfolded trie_agrees_def] assms(2) refl, of ck' ck]
  show "fst (trie_match_route ck ck' m path tr) = trie_lookup (tr_trees tr) m path"
    "trie_agrees m (snd (trie_match_route ck ck' m path tr))"
    "tr_trees (snd (trie_match_route ck ck' m path tr)) = tr_trees tr"
    by (simp_all add: trie_agrees_def)
qed

text \<open>The answers to a sequence of requests for one method.\<close>

fun trie_serve :: "string \<Rightarrow> (clock \<times> clock \<times> string) list \<Rightarrow> 'h trie_router \<Rightarrow> 'h route_match option list" where
  "trie_serve m [] tr = []"
| "trie_serve m ((ck, ck', path) # reqs) tr =
     (let (r, tr') = trie_match_route ck ck' m path tr in r # trie_serve m reqs tr')"

lemma trie_serve_agrees:
  "trie_agrees m tr \<Longrightarrow> list_all (\<lambda>(ck, ck', path). path \<noteq> '''') reqs \<Longrightarrow>
   trie_serve m reqs tr = map (\<lambda>(ck, ck', path). trie_lookup (tr_trees tr) m path) reqs"
proof (induction reqs arbitrary: tr)
  case (Cons req reqs)
  obtain ck ck' path where "req = (ck, ck', path)" by (cases req)
  with Cons show ?case
    using trie_match_agrees [of m tr path ck ck'] by (auto split: prod.splits)
qed simp

lemma trie_agrees_new: "trie_agrees m (fold register regs (trie_router_new now))"
  by (simp add: trie_agrees_def trie_router_new_def lru_agrees_new)

section \<open>Properties\<close>

text \<open>C15: a router that is filled by any sequence of registrations and then asked for any sequence of
  non-empty paths of one method answers every request as the declarative reading of the registered
  patterns says, whatever the clock shows: the cache with its expiry and eviction is invisible, the
  last handler of a pattern wins, the parameters carry the names of the first pattern registered
  at their place, and other methods have no influence.\<close>

theorem trie_serves_greedy:
  assumes "list_all (\<lambda>(ck, ck', path). path \<noteq> '''') reqs"
  shows "trie_serve m reqs (fold register regs (trie_router_new now)) =
    map (\<lambda>(ck, ck', path). greedy_match (patterns m regs) (segments path)) reqs"
  using trie_serve_agrees [OF trie_agrees_new assms] by (simp add: trie_lookup_greedy)

definition hd1 :: "int ihandler" where "hd1 = \<lparr>ih_path = ''/a/:x'', ih_handle = 1\<rparr>"
definition hd2 :: "int ihandler" where "hd2 = \<lparr>ih_path = ''/a/b'', ih_handle = 2\<rparr>"

theorem trie_serves_greedy_witness:
  "trie_serve ''GET'' [(ck0, ck0, ''/a/b''), (ck0, ck0, ''/a/c''), (ck0, ck0, ''/b'')]
     (fold register [(''GET'', ''/a/:x'', hd1), (''GET'', ''/a/b'', hd2)] (trie_router_new 0)) =
   [Some \<lparr>rm_handler = hd2, rm_params = [], rm_path = '''', rm_base_path = ''''\<rparr>,
    Some \<lparr>rm_handler = hd1, rm_params = [(''x'', ''c'')], rm_path = '''', rm_base_path = ''''\<rparr>, None]"
  using trie_serves_greedy [of "[(ck0, ck0, ''/a/b''), (ck0, ck0, ''/a/c''), (ck0, ck0, ''/b'')]" "''GET''"
    "[(''GET'', ''/a/:x'', hd1), (''GET'', ''/a/b'', hd2)]" 0]
  by (simp add: greedy_match_def patterns_def segments_def residual_def kind_of_def last_handler_def first_param_def)

text \<open>A path all of whose segments are static is matched to the handler registered last for these
  segments, with no parameters, whatever parameter and wildcard routes are registered around it and
  however they are ordered.\<close>

theorem trie_static_wins:
  assumes "segments p \<noteq> []" and "list_all is_static (segments p)"
    and "\<forall>p'. (m, p') \<in> (\<lambda>(m, p, h). (m, p)) ` set later \<longrightarrow> segments p' \<noteq> segments p"
  shows "trie_lookup (tr_trees (fold register (earlier @ (m, p, h) # later) (trie_router_new now))) m p =
    Some \<lparr>rm_handler = h, rm_params = [], rm_path = '''', rm_base_path = ''''\<rparr>"
  using greedy_static [OF assms(2) find_patterns [OF assms(1,3)]]
  by (simp only: trie_lookup_greedy greedy_match_def option.map prod.case)

theorem trie_static_wins_witness:
  "trie_lookup (tr_trees (fold register ([(''GET'', ''/a/:x'', hd1)] @ (''GET'', ''/a/b'', hd2) # [(''GET'', ''/*'', hd1)])
     (trie_router_new 0))) ''GET'' ''/a/b'' =
   Some \<lparr>rm_handler = hd2, rm_params = [], rm_path = '''', rm_base_path = ''''\<rparr>"
  by (rule trie_static_wins) (simp_all add: segments_def is_static_def kind_of_def)

text \<open>The cache of the trie router is asked with the path alone, so the handler of one method is
  returned for another: after a \<^verbatim>\<open>GET\<close> the same path answers a \<^verbatim>\<open>POST\<close> with the handler of \<^verbatim>\<open>GET\<close>, although
  the trees hold a different one.\<close>

theorem trie_cache_ignores_method:
  "let tr = fold register [(''GET'', ''/a'', hd1), (''POST'', ''/a'', hd2)] (trie_router_new 0);
       (_, tr1) = trie_match_route ck0 ck0 ''GET'' ''/a'' tr
   in map_option rm_handler (fst (trie_match_route ck0 ck0 ''POST'' ''/a'' tr1)) = Some hd1
      \<and> map_option rm_handler (trie_lookup (tr_trees tr1) ''POST'' ''/a'') = Some hd2"
  by code_simp

end
