(* ===== verification/Fast_Route_Cache.thy ===== *)
theory Fast_Route_Cache
  imports Cache_Interface
begin

text \<open>
  The second route cache of \<^verbatim>\<open>cache.v\<close> (struct \<^verbatim>\<open>FastRouteCache\<close>): a plain map without expiry that is
  emptied as a whole when it is full.  It keeps the contract of \<open>Cache_Interface\<close>; its clock argument
  there is the unit value.
\<close>

record 'v fast_route_cache =
  fc_cache :: "(string, 'v) vmap"
  fc_capacity :: int
  fc_enabled :: bool

definition frc_new :: "int \<Rightarrow> 'v fast_route_cache" where
  "frc_new capacity = \<lparr>fc_cache = [], fc_capacity = capacity, fc_enabled = True\<rparr>"

definition frc_get :: "string \<Rightarrow> 'v fast_route_cache \<Rightarrow> 'v option" where
  "frc_get key c = (if \<not> fc_enabled c then None else vget (fc_cache c) key)"

definition frc_put :: "string \<Rightarrow> 'v \<Rightarrow> 'v fast_route_cache \<Rightarrow> 'v fast_route_cache" where
  "frc_put key v c =
     (if \<not> fc_enabled c then c
      else let c1 = (if int (length (fc_cache c)) \<ge> fc_capacity c then c\<lparr>fc_cache := []\<rparr> else c)
           in c1\<lparr>fc_cache := vset key v (fc_cache c1)\<rparr>)"

definition frc_get_stats :: "'v fast_route_cache \<Rightarrow> int \<times> int" where
  "frc_get_stats c = (int (length (fc_cache c)), fc_capacity c)"

definition frc_clear :: "'v fast_route_cache \<Rightarrow> 'v fast_route_cache" where
  "frc_clear c = c\<lparr>fc_cache := []\<rparr>"

definition frc_set_enabled :: "bool \<Rightarrow> 'v fast_route_cache \<Rightarrow> 'v fast_route_cache" where
  "frc_set_enabled b c = (let c1 = c\<lparr>fc_enabled := b\<rparr> in if \<not> b then frc_clear c1 else c1)"

section \<open>The cache contract\<close>

definition frc_holds :: "'v fast_route_cache \<Rightarrow> string \<Rightarrow> 'v \<Rightarrow> bool" where
  "frc_holds c k v \<longleftrightarrow> vget (fc_cache c) k = Some v"

definition frc_inv :: "'v fast_route_cache \<Rightarrow> bool" where
  "frc_inv c \<longleftrightarrow> vmap_ok (fc_cache c) \<and> (\<not> fc_enabled c \<longrightarrow> fc_cache c = [])"

lemma frc_put_holds: "frc_holds (frc_put k v c) k' w \<Longrightarrow> frc_holds c k' w \<or> k' = k \<and> w = v"
  by (auto simp: frc_put_def frc_holds_def Let_def split: if_splits)

lemma frc_put_inv: "frc_inv c \<Longrightarrow> frc_inv (frc_put k v c)"
  by (auto simp: frc_put_def frc_inv_def Let_def)

interpretation frc: route_cache "\<lambda>(_::unit) k c. (frc_get k c, c)" "\<lambda>(_::unit). frc_put" frc_inv frc_holds
  by unfold_locales (auto simp: frc_get_def frc_holds_def [symmetric] frc_put_inv dest: frc_put_holds split: if_splits)

lemma frc_agrees_new: "frc.agrees spec (frc_new cap)"
  by (simp add: frc.agrees_def frc_inv_def frc_holds_def frc_new_def)

text \<open>What the plain map promises beyond the contract: a stored value is found again until the cache is
  emptied, and the number of entries stays within the capacity.\<close>

lemma frc_get_put [simp]: "fc_enabled c \<Longrightarrow> frc_get k (frc_put k v c) = Some v"
  by (simp add: frc_put_def frc_get_def Let_def)

lemma frc_put_size:
  assumes "1 \<le> fc_capacity c" and "int (length (fc_cache c)) \<le> fc_capacity c"
  shows "int (length (fc_cache (frc_put k v c))) \<le> fc_capacity c"
proof (cases "int (length (fc_cache c)) \<ge> fc_capacity c")
  case True
  with assms show ?thesis by (simp add: frc_put_def)
next
  case False
  then show ?thesis using length_vset_le [of k v "fc_cache c"] by (simp add: frc_put_def)
qed

end
