(* ===== verification/Fast_Router.thy ===== *)
theory Fast_Router
  imports Route_Match Lru_Cache Fast_Route_Cache
begin

text \<open>
  The fast router of \<^verbatim>\<open>fast_router.v\<close>, the router an application uses by default: static routes in a map
  with preallocated results, dynamic routes compiled to regular expressions at registration and
  kept sorted by complexity, and one of the two route caches in front of the scan.  The regular
  expression engine \<open>rl\<close> and \<^verbatim>\<open>sort_with_compare\<close> (\<open>qs\<close>, which calls the \<^verbatim>\<open>qsort\<close> of the C library) are
  parameters.
\<close>

section \<open>State\<close>

record ('re, 'h) precompiled_route =
  pr_method :: string
  pr_pattern :: string
  pr_regex :: 're
  pr_param_names :: "string list"
  pr_handler :: "'h ihandler"
  pr_complexity :: int

record ('re, 'h) fast_router =
  fr_static_routes :: "(string, 'h ihandler) vmap"
  fr_static_results :: "(string, 'h route_match) vmap"
  fr_precompiled :: "('re, 'h) precompiled_route list"
  fr_fast_cache :: "'h route_match fast_route_cache"
  fr_lru_cache :: "'h route_match lru_cache"
  fr_regex_cache :: "(string, 're compiled_regex) vmap"
  fr_cache_enabled :: bool
  fr_sort_enabled :: bool
  fr_use_fast_cache :: bool

type_synonym ('re, 'h) sort_fun =
  "(('re, 'h) precompiled_route \<Rightarrow> ('re, 'h) precompiled_route \<Rightarrow> int)
     \<Rightarrow> ('re, 'h) precompiled_route list \<Rightarrow> ('re, 'h) precompiled_route list"

definition fast_new :: "int \<Rightarrow> ('re, 'h) fast_router" where
  "fast_new now = \<lparr>fr_static_routes = [], fr_static_results = [], fr_precompiled = [],
     fr_fast_cache = frc_new 10000, fr_lru_cache = lru_new now 1000, fr_regex_cache = [],
     fr_cache_enabled = True, fr_sort_enabled = True, fr_use_fast_cache = True\<rparr>"

definition fast_new_with_cache_size :: "int \<Rightarrow> int \<Rightarrow> ('re, 'h) fast_router" where
  "fast_new_with_cache_size now cache_size = \<lparr>fr_static_routes = [], fr_static_results = [], fr_precompiled = [],
     fr_fast_cache = frc_new (wrap_i32 (cache_size * 10)), fr_lru_cache = lru_new now cache_size, fr_regex_cache = [],
     fr_cache_enabled = True, fr_sort_enabled = True, fr_use_fast_cache = True\<rparr>"

section \<open>Registration\<close>

definition complexity_compare :: "('re, 'h) precompiled_route \<Rightarrow> ('re, 'h) precompiled_route \<Rightarrow> int" where
  "complexity_compare a b =
     (if pr_complexity a < pr_complexity b then -1 else if pr_complexity a > pr_complexity b then 1 else 0)"

definition fast_sort_dynamic_routes :: "('re, 'h) sort_fun \<Rightarrow> ('re, 'h) fast_router \<Rightarrow> ('re, 'h) fast_router" where
  "fast_sort_dynamic_routes qs r = r\<lparr>fr_precompiled := qs complexity_compare (fr_precompiled r)\<rparr>"

definition calculate_fast_route_complexity :: "string \<Rightarrow> int" where
  "calculate_fast_route_complexity path =
     int (v_count path (CHR '':'')) * 10 + int (v_count path (CHR ''*'')) * 20
     + int (length (v_split slash path)) + sum_list (map (\<lambda>ch. int (v_count path ch) * 5) special_chars)"

definition precompile_route ::
  "'re regex_lib \<Rightarrow> string \<Rightarrow> 'h ihandler \<Rightarrow> string + ('re, 'h) precompiled_route" where
  "precompile_route rl method handler =
     (let route_path = ih_path handler;
          complexity = calculate_fast_route_complexity route_path
      in case regex_opt rl param_source of
           None \<Rightarrow> Inl ''Failed to create param regex''
         | Some param_reg \<Rightarrow>
             (let param_names = map tl (find_all_str rl param_reg route_path);
                  escaped = escape_specials route_path;
                  regex_pattern = anchored (replace_by_fn rl param_reg escaped param_group)
              in case regex_opt rl regex_pattern of
                   None \<Rightarrow> Inl (''Failed to compile regex: '' @ regex_pattern)
                 | Some compiled \<Rightarrow>
                     Inr \<lparr>pr_method = method, pr_pattern = route_path, pr_regex = compiled,
                          pr_param_names = param_names, pr_handler = handler, pr_complexity = complexity\<rparr>))"

definition is_fast_static :: "string \<Rightarrow> bool" where
  "is_fast_static path \<longleftrightarrow> \<not> v_contains path (CHR '':'') \<and> \<not> v_contains path (CHR ''*'')"

definition fast_add_route ::
  "'re regex_lib \<Rightarrow> ('re, 'h) sort_fun \<Rightarrow> string \<Rightarrow> 'h ihandler \<Rightarrow> string \<Rightarrow> ('re, 'h) fast_router
     \<Rightarrow> (string + unit) \<times> ('re, 'h) fast_router" where
  "fast_add_route rl qs method handler base_path r =
     (let full_path = ih_path handler in
      if is_fast_static full_path then
        (let key = route_key method full_path in
         (Inr (), r\<lparr>fr_static_routes := vset key handler (fr_static_routes r),
            fr_static_results := vset key
              \<lparr>rm_handler = handler, rm_params = [], rm_path = full_path, rm_base_path = ''''\<rparr> (fr_static_results r)\<rparr>))
      else
        (case precompile_route rl method handler of
           Inl err \<Rightarrow> (Inl (''Failed to precompile route '' @ full_path @ '': '' @ err), r)
         | Inr route \<Rightarrow>
             (let r1 = r\<lparr>fr_precompiled := fr_precompiled r @ [route]\<rparr>
              in (Inr (), if fr_sort_enabled r1 then fast_sort_dynamic_routes qs r1 else r1))))"

section \<open>Matching\<close>

text \<open>The scan of the compiled routes: the first one of the method whose expression matches.\<close>

fun fast_scan :: "'re regex_lib \<Rightarrow> string \<Rightarrow> string \<Rightarrow> ('re, 'h) precompiled_route list \<Rightarrow> 'h route_match option" where
  "fast_scan rl method path [] = None"
| "fast_scan rl method path (route # routes) =
     (if pr_method route \<noteq> method then fast_scan rl method path routes
      else if matches_string rl (pr_regex route) path then
        Some \<lparr>rm_handler = pr_handler route,
              rm_params = extract_params rl (pr_regex route) (pr_param_names route) path,
              rm_path = pr_pattern route, rm_base_path = ''''\<rparr>
      else fast_scan rl method path routes)"

definition fast_match_route ::
  "'re regex_lib \<Rightarrow> clock \<Rightarrow> clock \<Rightarrow> string \<Rightarrow> string \<Rightarrow> ('re, 'h) fast_router
     \<Rightarrow> 'h route_match option \<times> ('re, 'h) fast_router" where
  "fast_match_route rl ck ck' method path r =
     (let cache_key = route_key method path in
      case vget (fr_static_results r) cache_key of
        Some result \<Rightarrow> (Some result, r)
      | None \<Rightarrow>
          (let (cached, r1) =
             (if fr_cache_enabled r \<and> fr_use_fast_cache r then (frc_get cache_key (fr_fast_cache r), r)
              else if fr_cache_enabled r then
                (let (hit, c) = lru_get ck cache_key (fr_lru_cache r) in (hit, r\<lparr>fr_lru_cache := c\<rparr>))
              else (None, r))
           in case cached of
                Some result \<Rightarrow> (Some result, r1)
              | None \<Rightarrow>
                  (case fast_scan rl method path (fr_precompiled r1) of
                     None \<Rightarrow> (None, r1)
                   | Some result \<Rightarrow>
                       (Some result,
                        if fr_cache_enabled r1 then
                          if fr_use_fast_cache r1 then r1\<lparr>fr_fast_cache := frc_put cache_key result (fr_fast_cache r1)\<rparr>
                          else r1\<lparr>fr_lru_cache := lru_put ck' cache_key result (fr_lru_cache r1)\<rparr>
                        else r1))))"

section \<open>Settings and statistics\<close>

definition fast_get_stats :: "('re, 'h) fast_router \<Rightarrow> int \<times> int \<times> int" where
  "fast_get_stats r = (int (length (fr_static_routes r)), int (length (fr_precompiled r)), fst (lru_get_stats (fr_lru_cache r)))"

definition fast_get_detailed_stats ::
  "clock \<Rightarrow> clock \<Rightarrow> ('re, 'h) fast_router \<Rightarrow> (string, int) vmap \<times> ('re, 'h) fast_router" where
  "fast_get_detailed_stats ck ck' r =
     (let (cache_stats, c) = lru_get_detailed_stats ck ck' (fr_lru_cache r);
          stats = [(''static_routes'', int (length (fr_static_routes r))),
                   (''dynamic_routes'', int (length (fr_precompiled r))),
                   (''regex_cache_total'', int (length (fr_regex_cache r))),
                   (''regex_cache_compiled'', compiled_count (fr_regex_cache r)),
                   (''cache_enabled'', if fr_cache_enabled r then 1 else 0),
                   (''sort_enabled'', if fr_sort_enabled r then 1 else 0)]
      in (fold (\<lambda>(k, v) m. vset (''lru_'' @ k) v m) cache_stats stats, r\<lparr>fr_lru_cache := c\<rparr>))"

definition fast_get_cache_stats :: "('re, 'h) fast_router \<Rightarrow> int \<times> int" where
  "fast_get_cache_stats r = lru_get_stats (fr_lru_cache r)"

definition fast_get_regex_cache_stats :: "('re, 'h) fast_router \<Rightarrow> int \<times> int" where
  "fast_get_regex_cache_stats r = (int (length (fr_regex_cache r)), compiled_count (fr_regex_cache r))"

definition fast_clear_cache :: "int \<Rightarrow> ('re, 'h) fast_router \<Rightarrow> ('re, 'h) fast_router" where
  "fast_clear_cache now r = r\<lparr>fr_lru_cache := lru_clear now (fr_lru_cache r)\<rparr>"

definition fast_clear_regex_cache :: "('re, 'h) fast_router \<Rightarrow> ('re, 'h) fast_router" where
  "fast_clear_regex_cache r = r\<lparr>fr_regex_cache := []\<rparr>"

definition fast_force_cleanup_expired :: "clock \<Rightarrow> ('re, 'h) fast_router \<Rightarrow> ('re, 'h) fast_router" where
  "fast_force_cleanup_expired ck r = r\<lparr>fr_lru_cache := lru_force_cleanup_expired ck (fr_lru_cache r)\<rparr>"

definition fast_set_cache_enabled :: "int \<Rightarrow> bool \<Rightarrow> ('re, 'h) fast_router \<Rightarrow> ('re, 'h) fast_router" where
  "fast_set_cache_enabled now enabled r =
     (let r1 = r\<lparr>fr_cache_enabled := enabled\<rparr> in if \<not> enabled then fast_clear_cache now r1 else r1)"

definition fast_set_sort_enabled ::
  "('re, 'h) sort_fun \<Rightarrow> bool \<Rightarrow> ('re, 'h) fast_router \<Rightarrow> ('re, 'h) fast_router" where
  "fast_set_sort_enabled qs enabled r =
     (let r1 = r\<lparr>fr_sort_enabled := enabled\<rparr> in if enabled then fast_sort_dynamic_routes qs r1 else r1)"

definition fast_set_cache_ttl :: "int \<Rightarrow> ('re, 'h) fast_router \<Rightarrow> ('re, 'h) fast_router" where
  "fast_set_cache_ttl ttl r = r\<lparr>fr_lru_cache := lru_set_ttl ttl (fr_lru_cache r)\<rparr>"

definition fast_set_cache_cleanup_interval :: "int \<Rightarrow> ('re, 'h) fast_router \<Rightarrow> ('re, 'h) fast_router" where
  "fast_set_cache_cleanup_interval i r = r\<lparr>fr_lru_cache := lru_set_cleanup_interval i (fr_lru_cache r)\<rparr>"

definition fast_is_healthy :: "('re, 'h) fast_router \<Rightarrow> bool" where
  "fast_is_healthy r = lru_is_healthy (fr_lru_cache r)"

text \<open>The clock readings of the \<open>i\<close>-th request of a warm-up are \<open>cks i\<close>.\<close>

fun fast_match_all ::
  "'re regex_lib \<Rightarrow> (nat \<Rightarrow> clock \<times> clock) \<Rightarrow> string \<Rightarrow> string list \<Rightarrow> ('re, 'h) fast_router \<Rightarrow> ('re, 'h) fast_router" where
  "fast_match_all rl cks method [] r = r"
| "fast_match_all rl cks method (path # paths) r =
     fast_match_all rl (\<lambda>i. cks (Suc i)) method paths
       (snd (fast_match_route rl (fst (cks 0)) (snd (cks 0)) method path r))"

definition fast_warmup_cache ::
  "'re regex_lib \<Rightarrow> (nat \<Rightarrow> clock \<times> clock) \<Rightarrow> string list \<Rightarrow> string \<Rightarrow> ('re, 'h) fast_router \<Rightarrow> ('re, 'h) fast_router" where
  "fast_warmup_cache rl cks common_paths method r =
     (if \<not> fr_cache_enabled r then r else fast_match_all rl cks method common_paths r)"

definition fast_smart_warmup ::
  "'re regex_lib \<Rightarrow> (nat \<Rightarrow> clock \<times> clock) \<Rightarrow> string list \<Rightarrow> ('re, 'h) fast_router \<Rightarrow> ('re, 'h) fast_router" where
  "fast_smart_warmup rl cks sample_paths r =
     (if \<not> fr_cache_enabled r then r else fast_match_all rl cks ''GET'' sample_paths r)"

definition fast_get_all_routes :: "('re, 'h) fast_router \<Rightarrow> string list \<times> string list" where
  "fast_get_all_routes r =
     (vkeys (fr_static_routes r),
      map (\<lambda>route. pr_method route @ '':'' @ pr_pattern route @ '' (complexity: '' @ v_str (pr_complexity route) @ '')'')
        (fr_precompiled r))"

definition get_routes_by_complexity ::
  "('re, 'h) fast_router \<Rightarrow> ('re, 'h) precompiled_route list \<times> ('re, 'h) precompiled_route list" where
  "get_routes_by_complexity r =
     (filter (\<lambda>route. pr_complexity route \<le> 30) (fr_precompiled r),
      filter (\<lambda>route. \<not> pr_complexity route \<le> 30) (fr_precompiled r))"

section \<open>What a router answers\<close>

text \<open>The answer that the registered routes determine, without any cache.\<close>

definition fast_answer :: "'re regex_lib \<Rightarrow> ('re, 'h) fast_router \<Rightarrow> string \<Rightarrow> string \<Rightarrow> 'h route_match option" where
  "fast_answer rl r method path =
     (case vget (fr_static_results r) (route_key method path) of
        Some result \<Rightarrow> Some result
      | None \<Rightarrow> fast_scan rl method path (fr_precompiled r))"

definition same_routes :: "('re, 'h) fast_router \<Rightarrow> ('re, 'h) fast_router \<Rightarrow> bool" where
  "same_routes r r' \<longleftrightarrow> fr_static_results r' = fr_static_results r \<and> fr_precompiled r' = fr_precompiled r"

lemma fast_answer_same: "same_routes r r' \<Longrightarrow> fast_answer rl r' = fast_answer rl r"
  by (simp add: fast_answer_def same_routes_def fun_eq_iff cong: option.case_cong)

lemma same_routes_refl [simp]: "same_routes r r"
  by (simp add: same_routes_def)

lemma same_routes_trans: "same_routes r r' \<Longrightarrow> same_routes r' r'' \<Longrightarrow> same_routes r r''"
  by (simp add: same_routes_def)

text \<open>Both caches agree with the scan, as a function of the cache key.\<close>

definition scan_key :: "'re regex_lib \<Rightarrow> ('re, 'h) fast_router \<Rightarrow> string \<Rightarrow> 'h route_match option" where
  "scan_key rl r k = fast_scan rl (key_method k) (key_path k) (fr_precompiled r)"

definition fast_agrees :: "'re regex_lib \<Rightarrow> ('re, 'h) fast_router \<Rightarrow> bool" where
  "fast_agrees rl r \<longleftrightarrow> frc.agrees (scan_key rl r) (fr_fast_cache r) \<and> lru.agrees (scan_key rl r) (fr_lru_cache r)"

lemma scan_key_same: "same_routes r r' \<Longrightarrow> scan_key rl r' = scan_key rl r"
  by (simp add: scan_key_def same_routes_def fun_eq_iff)

lemma fast_agrees_updates:
  "frc.agrees (scan_key rl r) c \<Longrightarrow> fast_agrees rl r \<Longrightarrow> fast_agrees rl (r\<lparr>fr_fast_cache := c\<rparr>)"
  "lru.agrees (scan_key rl r) d \<Longrightarrow> fast_agrees rl r \<Longrightarrow> fast_agrees rl (r\<lparr>fr_lru_cache := d\<rparr>)"
  by (simp_all add: fast_agrees_def scan_key_def [abs_def])

lemma fast_match_static:
  "vget (fr_static_results r) (route_key m p) = Some res \<Longrightarrow> fast_match_route rl ck ck' m p r = (Some res, r)"
  by (simp add: fast_match_route_def)

lemma fast_match_agrees:
  assumes a: "fast_agrees rl r" and m: "CHR '':'' \<notin> set m"
  shows "fst (fast_match_route rl ck ck' m p r) = fast_answer rl r m p \<and>
    fast_agrees rl (snd (fast_match_route rl ck ck' m p r)) \<and>
    same_routes r (snd (fast_match_route rl ck ck' m p r))"
proof (cases "vget (fr_static_results r) (route_key m p)")
  case (Some res)
  with a show ?thesis by (simp add: fast_match_static fast_answer_def)
next
  case None
  let ?k = "route_key m p"
  have scan: "fast_scan rl m p (fr_precompiled r) = scan_key rl r ?k"
    by (simp add: scan_key_def m)
  have ans: "fast_answer rl r m p = scan_key rl r ?k"
    by (simp add: fast_answer_def None scan)
  consider "fr_cache_enabled r" "fr_use_fast_cache r" | "fr_cache_enabled r" "\<not> fr_use_fast_cache r"
    | "\<not> fr_cache_enabled r" by blast
  then show ?thesis
  proof cases
    case 1
    let ?r = "case (frc_get ?k (fr_fast_cache r), fr_fast_cache r) of
        (Some v, c1) \<Rightarrow> (Some v, c1)
      | (None, c1) \<Rightarrow> (case scan_key rl r ?k of None \<Rightarrow> (None, c1) | Some v \<Rightarrow> (Some v, frc_put ?k v c1))"
    have "fast_match_route rl ck ck' m p r = (fst ?r, r\<lparr>fr_fast_cache := snd ?r\<rparr>)"
      using None 1 by (auto simp: fast_match_route_def Let_def scan split: option.splits)
    moreover have "fst ?r = scan_key rl r ?k" "frc.agrees (scan_key rl r) (snd ?r)"
      using a by (intro frc.agrees_memo [OF _ _ refl]; simp add: fast_agrees_def)+
    ultimately show ?thesis
      using a by (simp add: ans fast_agrees_updates same_routes_def)
  next
    case 2
    let ?r = "case lru_get ck ?k (fr_lru_cache r) of
        (Some v, c1) \<Rightarrow> (Some v, c1)
      | (None, c1) \<Rightarrow> (case scan_key rl r ?k of None \<Rightarrow> (None, c1) | Some v \<Rightarrow> (Some v, lru_put ck' ?k v c1))"
    have "fast_match_route rl ck ck' m p r = (fst ?r, r\<lparr>fr_lru_cache := snd ?r\<rparr>)"
      using None 2 by (auto simp: fast_match_route_def Let_def scan split: option.splits prod.splits)
    moreover have "fst ?r = scan_key rl r ?k" "lru.agrees (scan_key rl r) (snd ?r)"
      using a by (intro lru.agrees_memo [OF _ _ refl]; simp add: fast_agrees_def)+
    ultimately show ?thesis
      using a by (simp add: ans fast_agrees_updates same_routes_def)
  next
    case 3
    then show ?thesis
      using None a by (auto simp: fast_match_route_def Let_def scan ans split: option.splits)
  qed
qed

section \<open>Sequences of operations\<close>

text \<open>Everything a running application does to the router after its routes are registered: all its public operations but
  \<open>fast_add_route\<close>.\<close>

datatype fast_op =
    F_match clock clock string string
  | F_clear_cache int
  | F_clear_regex_cache
  | F_force_cleanup clock
  | F_set_cache_enabled int bool
  | F_set_sort_enabled bool
  | F_set_cache_ttl int
  | F_set_cache_cleanup_interval int
  | F_detailed_stats clock clock
  | F_warmup "nat \<Rightarrow> clock \<times> clock" "string list" string
  | F_smart_warmup "nat \<Rightarrow> clock \<times> clock" "string list"

fun fast_step ::
  "'re regex_lib \<Rightarrow> ('re, 'h) sort_fun \<Rightarrow> fast_op \<Rightarrow> ('re, 'h) fast_router \<Rightarrow> ('re, 'h) fast_router" where
  "fast_step rl qs (F_match ck ck' m p) r = snd (fast_match_route rl ck ck' m p r)"
| "fast_step rl qs (F_clear_cache now) r = fast_clear_cache now r"
| "fast_step rl qs F_clear_regex_cache r = fast_clear_regex_cache r"
| "fast_step rl qs (F_force_cleanup ck) r = fast_force_cleanup_expired ck r"
| "fast_step rl qs (F_set_cache_enabled now b) r = fast_set_cache_enabled now b r"
| "fast_step rl qs (F_set_cache_ttl t) r = fast_set_cache_ttl t r"
| "fast_step rl qs (F_set_sort_enabled b) r = fast_set_sort_enabled qs b r"
| "fast_step rl qs (F_set_cache_cleanup_interval t) r = fast_set_cache_cleanup_interval t r"
| "fast_step rl qs (F_detailed_stats ck ck') r = snd (fast_get_detailed_stats ck ck' r)"
| "fast_step rl qs (F_warmup cks paths m) r = fast_warmup_cache rl cks paths m r"
| "fast_step rl qs (F_smart_warmup cks paths) r = fast_smart_warmup rl cks paths r"

text \<open>Switching the sorting on sorts the routes again and leaves the caches alone, so it may only happen when the routes are
  settled: sorting them again keeps their order.\<close>

definition sort_settled :: "('re, 'h) sort_fun \<Rightarrow> ('re, 'h) fast_router \<Rightarrow> bool" where
  "sort_settled qs r \<longleftrightarrow> fr_precompiled (fast_sort_dynamic_routes qs r) = fr_precompiled r"

fun fast_op_ok :: "('re, 'h) sort_fun \<Rightarrow> ('re, 'h) fast_router \<Rightarrow> fast_op \<Rightarrow> bool" where
  "fast_op_ok qs r (F_match ck ck' m p) = (CHR '':'' \<notin> set m)"
| "fast_op_ok qs r (F_warmup cks paths m) = (CHR '':'' \<notin> set m)"
| "fast_op_ok qs r (F_set_sort_enabled b) = (b \<longrightarrow> sort_settled qs r)"
| "fast_op_ok qs r _ = True"

text \<open>The answers to the matching requests in a sequence of operations.\<close>

fun fast_run ::
  "'re regex_lib \<Rightarrow> ('re, 'h) sort_fun \<Rightarrow> fast_op list \<Rightarrow> ('re, 'h) fast_router \<Rightarrow> 'h route_match option list" where
  "fast_run rl qs [] r = []"
| "fast_run rl qs (op # ops) r =
     (case op of F_match ck ck' m p \<Rightarrow> [fst (fast_match_route rl ck ck' m p r)] | _ \<Rightarrow> [])
     @ fast_run rl qs ops (fast_step rl qs op r)"

fun requests :: "fast_op list \<Rightarrow> (string \<times> string) list" where
  "requests [] = []"
| "requests (F_match ck ck' m p # ops) = (m, p) # requests ops"
| "requests (_ # ops) = requests ops"

lemma fast_match_all_agrees:
  "fast_agrees rl r \<Longrightarrow> CHR '':'' \<notin> set m \<Longrightarrow>
   fast_agrees rl (fast_match_all rl cks m paths r) \<and> same_routes r (fast_match_all rl cks m paths r)"
proof (induction paths arbitrary: r cks)
  case (Cons p paths)
  from fast_match_agrees [OF Cons.prems, of "fst (cks 0)" "snd (cks 0)" p] Cons show ?case
    by (auto intro: same_routes_trans)
qed simp

lemma fast_agrees_settings:
  assumes "fast_agrees rl r"
  shows "fast_agrees rl (fast_clear_cache now r)" and "fast_agrees rl (fast_clear_regex_cache r)"
    and "fast_agrees rl (fast_force_cleanup_expired ck r)" and "fast_agrees rl (fast_set_cache_enabled now b r)"
    and "fast_agrees rl (fast_set_cache_ttl t r)" and "fast_agrees rl (fast_set_cache_cleanup_interval t r)"
  using assms
  by (simp_all add: fast_agrees_def scan_key_def [abs_def] fast_clear_cache_def fast_clear_regex_cache_def
      fast_force_cleanup_expired_def fast_set_cache_enabled_def fast_set_cache_ttl_def
      fast_set_cache_cleanup_interval_def Let_def lru_agrees_clear lru_agrees_settings lru_agrees_force_cleanup)

lemma fast_agrees_detailed_stats:
  assumes "fast_agrees rl r"
  shows "fast_agrees rl (snd (fast_get_detailed_stats ck ck' r))"
proof -
  have "lru.agrees (scan_key rl r) (lru_cleanup_expired_if_needed ck (fr_lru_cache r))"
    using assms by (simp add: fast_agrees_def lru_agrees_cleanup_if_needed)
  with assms show ?thesis
    by (simp add: fast_get_detailed_stats_def lru_get_detailed_stats_def Let_def fast_agrees_updates)
qed

lemma fast_agrees_sort:
  "fast_agrees rl r \<Longrightarrow> b \<longrightarrow> sort_settled qs r \<Longrightarrow> fast_agrees rl (fast_set_sort_enabled qs b r)"
  by (simp add: fast_agrees_def scan_key_def [abs_def] fast_set_sort_enabled_def sort_settled_def fast_sort_dynamic_routes_def Let_def)

lemma fast_step_agrees:
  assumes "fast_agrees rl r" and "fast_op_ok qs r op"
  shows "fast_agrees rl (fast_step rl qs op r)"
proof (cases op)
  case (F_match ck ck' m p)
  with assms show ?thesis using fast_match_agrees [of rl r m ck ck' p] by simp
next
  case (F_warmup cks paths m)
  with assms show ?thesis using fast_match_all_agrees [of rl r m cks paths] by (simp add: fast_warmup_cache_def)
next
  case (F_smart_warmup cks paths)
  with assms show ?thesis using fast_match_all_agrees [of rl r "''GET''" cks paths] by (simp add: fast_smart_warmup_def)
qed (use assms in \<open>simp_all add: fast_agrees_settings fast_agrees_detailed_stats fast_agrees_sort\<close>)

lemma fast_step_same_routes:
  assumes "fast_agrees rl r" and "fast_op_ok qs r op"
  shows "same_routes r (fast_step rl qs op r)"
proof (cases op)
  case (F_match ck ck' m p)
  with assms show ?thesis using fast_match_agrees [of rl r m ck ck' p] by simp
next
  case (F_warmup cks paths m)
  with assms show ?thesis using fast_match_all_agrees [of rl r m cks paths] by (simp add: fast_warmup_cache_def)
next
  case (F_set_sort_enabled b)
  with assms show ?thesis
    by (simp add: fast_set_sort_enabled_def sort_settled_def same_routes_def fast_sort_dynamic_routes_def Let_def)
next
  case (F_smart_warmup cks paths)
  with assms show ?thesis using fast_match_all_agrees [of rl r "''GET''" cks paths] by (simp add: fast_smart_warmup_def)
qed (simp_all add: same_routes_def fast_clear_cache_def fast_clear_regex_cache_def fast_force_cleanup_expired_def
    fast_set_cache_enabled_def fast_set_cache_ttl_def fast_set_cache_cleanup_interval_def fast_get_detailed_stats_def
    Let_def split: prod.splits)

lemma fast_op_ok_same: "same_routes r r' \<Longrightarrow> fast_op_ok qs r' = fast_op_ok qs r"
proof
  fix op
  assume "same_routes r r'"
  then show "fast_op_ok qs r' op = fast_op_ok qs r op"
    by (cases op) (simp_all add: sort_settled_def same_routes_def fast_sort_dynamic_routes_def)
qed

lemma fast_run_agrees:
  "fast_agrees rl r \<Longrightarrow> list_all (fast_op_ok qs r) ops \<Longrightarrow>
   fast_run rl qs ops r = map (\<lambda>(m, p). fast_answer rl r m p) (requests ops)"
proof (induction ops arbitrary: r)
  case (Cons op ops)
  have same: "same_routes r (fast_step rl qs op r)" using Cons.prems by (simp add: fast_step_same_routes)
  have "fast_run rl qs ops (fast_step rl qs op r) = map (\<lambda>(m, p). fast_answer rl r m p) (requests ops)"
    using Cons fast_step_agrees [of rl r qs op] by (simp add: fast_answer_same [OF same] fast_op_ok_same [OF same])
  with Cons.prems show ?case
    by (cases op) (auto simp: fast_match_agrees)
qed simp

section \<open>Registration\<close>

type_synonym 'h fast_registration = "string \<times> 'h ihandler"

definition fast_register :: "'re regex_lib \<Rightarrow> ('re, 'h) sort_fun \<Rightarrow> 'h fast_registration \<Rightarrow> ('re, 'h) fast_router \<Rightarrow> ('re, 'h) fast_router" where
  "fast_register rl qs reg r = snd (fast_add_route rl qs (fst reg) (snd reg) '''' r)"

lemma fast_add_route_caches [simp]:
  "fr_fast_cache (snd (fast_add_route rl qs m h b r)) = fr_fast_cache r"
  "fr_lru_cache (snd (fast_add_route rl qs m h b r)) = fr_lru_cache r"
  "fr_sort_enabled (snd (fast_add_route rl qs m h b r)) = fr_sort_enabled r"
  "fr_cache_enabled (snd (fast_add_route rl qs m h b r)) = fr_cache_enabled r"
  "fr_use_fast_cache (snd (fast_add_route rl qs m h b r)) = fr_use_fast_cache r"
  by (auto simp: fast_add_route_def fast_sort_dynamic_routes_def Let_def split: sum.splits)

lemma fast_register_caches [simp]:
  "fr_fast_cache (fold (fast_register rl qs) regs r) = fr_fast_cache r"
  "fr_lru_cache (fold (fast_register rl qs) regs r) = fr_lru_cache r"
  "fr_sort_enabled (fold (fast_register rl qs) regs r) = fr_sort_enabled r"
  by (induction regs arbitrary: r) (simp_all add: fast_register_def)

definition fast_registered :: "'re regex_lib \<Rightarrow> ('re, 'h) sort_fun \<Rightarrow> int \<Rightarrow> 'h fast_registration list \<Rightarrow> ('re, 'h) fast_router" where
  "fast_registered rl qs now regs = fold (fast_register rl qs) regs (fast_new now)"

lemma fast_new_static: "fr_static_results (fast_new now) = []"
  by (simp add: fast_new_def)

lemma fast_agrees_registered: "fast_agrees rl (fast_registered rl qs now regs)"
  by (simp add: fast_agrees_def fast_registered_def) (simp add: fast_new_def lru_agrees_new frc_agrees_new)

text \<open>What is documented of \<^verbatim>\<open>sort_with_compare\<close>: it permutes the list so that no element is greater than a
  later one; the order of equal elements is left open.\<close>

definition sorting :: "('re, 'h) sort_fun \<Rightarrow> bool" where
  "sorting qs \<longleftrightarrow> (\<forall>xs. mset (qs complexity_compare xs) = mset xs \<and>
     sorted_wrt (\<lambda>a b. complexity_compare a b \<le> 0) (qs complexity_compare xs))"

lemma complexity_compare_le: "complexity_compare a b \<le> 0 \<longleftrightarrow> pr_complexity a \<le> pr_complexity b"
  by (simp add: complexity_compare_def)

text \<open>The routes that a sequence of registrations compiles.\<close>

definition compiled_route :: "'re regex_lib \<Rightarrow> 'h fast_registration \<Rightarrow> ('re, 'h) precompiled_route option" where
  "compiled_route rl reg =
     (if is_fast_static (ih_path (snd reg)) then None
      else (case precompile_route rl (fst reg) (snd reg) of Inl e \<Rightarrow> None | Inr route \<Rightarrow> Some route))"

definition by_complexity :: "('re, 'h) precompiled_route list \<Rightarrow> bool" where
  "by_complexity = sorted_wrt (\<lambda>a b. pr_complexity a \<le> pr_complexity b)"

lemma fast_register_dynamic:
  assumes "sorting qs" and "fr_sort_enabled r" and "by_complexity (fr_precompiled r)"
  shows "by_complexity (fr_precompiled (fast_register rl qs reg r)) \<and>
    set (fr_precompiled (fast_register rl qs reg r)) = set (fr_precompiled r) \<union> set_option (compiled_route rl reg)"
proof -
  have s: "by_complexity (qs complexity_compare xs)" "set (qs complexity_compare xs) = set xs" for xs
    using assms(1) by (simp_all add: sorting_def complexity_compare_le by_complexity_def flip: set_mset_mset)
  show ?thesis
    using assms s by (auto simp: fast_register_def fast_add_route_def fast_sort_dynamic_routes_def
        compiled_route_def Let_def split: sum.splits)
qed

lemma fast_register_all_dynamic:
  assumes "sorting qs" and "fr_sort_enabled r" and "by_complexity (fr_precompiled r)"
  shows "by_complexity (fr_precompiled (fold (fast_register rl qs) regs r)) \<and>
    set (fr_precompiled (fold (fast_register rl qs) regs r)) =
      set (fr_precompiled r) \<union> {route. \<exists>reg \<in> set regs. compiled_route rl reg = Some route}"
  using assms
proof (induction regs arbitrary: r)
  case (Cons reg regs)
  have s: "fr_sort_enabled (fast_register rl qs reg r)"
    using Cons.prems by (simp add: fast_register_def)
  from fast_register_dynamic [OF Cons.prems, of rl reg] Cons.IH [OF Cons.prems(1) s] show ?case
    by auto
qed simp

lemma fast_registered_dynamic:
  assumes "sorting qs"
  shows "by_complexity (fr_precompiled (fast_registered rl qs now regs))"
    and "set (fr_precompiled (fast_registered rl qs now regs)) = {route. \<exists>reg \<in> set regs. compiled_route rl reg = Some route}"
  using fast_register_all_dynamic [OF assms, of "fast_new now" rl regs]
  by (auto simp: fast_registered_def fast_new_def by_complexity_def)

definition applies :: "'re regex_lib \<Rightarrow> string \<Rightarrow> string \<Rightarrow> ('re, 'h) precompiled_route \<Rightarrow> bool" where
  "applies rl m p route \<longleftrightarrow> pr_method route = m \<and> matches_string rl (pr_regex route) p"

definition route_result :: "'re regex_lib \<Rightarrow> string \<Rightarrow> ('re, 'h) precompiled_route \<Rightarrow> 'h route_match" where
  "route_result rl p route =
     \<lparr>rm_handler = pr_handler route, rm_params = extract_params rl (pr_regex route) (pr_param_names route) p,
      rm_path = pr_pattern route, rm_base_path = ''''\<rparr>"

lemma fast_scan_find: "fast_scan rl m p routes = map_option (route_result rl p) (find (applies rl m p) routes)"
  by (induction routes) (auto simp: applies_def route_result_def)

lemma find_sorted_least:
  "by_complexity routes \<Longrightarrow> find P routes = Some x \<Longrightarrow>
   x \<in> set routes \<and> P x \<and> (\<forall>y \<in> set routes. P y \<longrightarrow> pr_complexity x \<le> pr_complexity y)"
  by (induction routes) (auto simp: by_complexity_def split: if_splits)

text \<open>The static table.\<close>

definition static_result :: "'h ihandler \<Rightarrow> 'h route_match" where
  "static_result h = \<lparr>rm_handler = h, rm_params = [], rm_path = ih_path h, rm_base_path = ''''\<rparr>"

definition fast_static_reg :: "string \<Rightarrow> string \<Rightarrow> 'h fast_registration \<Rightarrow> bool" where
  "fast_static_reg m p reg \<longleftrightarrow> fst reg = m \<and> ih_path (snd reg) = p \<and> is_fast_static p"

lemma fast_register_static:
  assumes "CHR '':'' \<notin> set m" and "CHR '':'' \<notin> set (fst reg)"
  shows "vget (fr_static_results (fast_register rl qs reg r)) (route_key m p) =
    (if fast_static_reg m p reg then Some (static_result (snd reg)) else vget (fr_static_results r) (route_key m p))"
  using assms
  by (auto simp: fast_register_def fast_add_route_def fast_sort_dynamic_routes_def fast_static_reg_def static_result_def
      route_key_inject Let_def split: sum.splits)

lemma fast_register_all_static:
  assumes "CHR '':'' \<notin> set m" and "list_all (\<lambda>reg. CHR '':'' \<notin> set (fst reg)) regs"
  shows "vget (fr_static_results (fold (fast_register rl qs) regs r)) (route_key m p) =
    (case find (fast_static_reg m p) (rev regs) of
       Some reg \<Rightarrow> Some (static_result (snd reg)) | None \<Rightarrow> vget (fr_static_results r) (route_key m p))"
  using assms(2)
  by (induction regs arbitrary: r) (auto simp: fast_register_static [OF assms(1)] find_append split: option.splits)

text \<open>A dynamic hit sits in the fast cache and is answered from there.\<close>

definition fast_cached :: "('re, 'h) fast_router \<Rightarrow> string \<Rightarrow> 'h route_match \<Rightarrow> bool" where
  "fast_cached r k res \<longleftrightarrow> fr_cache_enabled r \<and> fr_use_fast_cache r \<and> vget (fr_static_results r) k = None
     \<and> frc_get k (fr_fast_cache r) = Some res"

lemma fast_cached_answer: "fast_cached r (route_key m p) res \<Longrightarrow> fst (fast_match_route rl ck ck' m p r) = Some res"
  by (simp add: fast_cached_def fast_match_route_def)

lemma fast_match_caches:
  assumes "fr_cache_enabled r" and "fr_use_fast_cache r" and "fc_enabled (fr_fast_cache r)"
    and "vget (fr_static_results r) (route_key m p) = None"
    and "fst (fast_match_route rl ck ck' m p r) = Some res"
  shows "fast_cached (snd (fast_match_route rl ck ck' m p r)) (route_key m p) res"
  using assms by (auto simp: fast_match_route_def fast_cached_def Let_def split: option.splits)

lemma fast_cached_add_route:
  assumes "fast_cached r k res" and "\<not> is_fast_static (ih_path h)"
  shows "fast_cached (snd (fast_add_route rl qs m h b r)) k res"
proof -
  have "fr_static_results (snd (fast_add_route rl qs m h b r)) = fr_static_results r"
    using assms(2) by (auto simp: fast_add_route_def fast_sort_dynamic_routes_def Let_def split: sum.splits)
  with assms(1) show ?thesis by (simp add: fast_cached_def)
qed

lemma fast_cached_clear: "fast_cached (fast_clear_cache now r) k res = fast_cached r k res"
  by (simp add: fast_cached_def fast_clear_cache_def)

section \<open>Properties\<close>

text \<open>C7: once its routes are registered, a fast router answers every request of any sequence of its
  public operations other than further registrations (requests, warm-ups, clearing, forced sweeps, switching the cache or the
  sorting off and on, new expiry times) as if there were no cache, for every regular expression engine, every sort function
  and every clock.  A method name is assumed to have no colon, and sorting is switched on again only when that keeps the order of
  the routes; when it does not, the caches answer in the old order (\<open>fast_cache_unsorted\<close>).\<close>

theorem fast_serves:
  assumes "list_all (fast_op_ok qs (fast_registered rl qs now regs)) ops"
  shows "fast_run rl qs ops (fast_registered rl qs now regs) =
    map (\<lambda>(m, p). fast_answer rl (fast_registered rl qs now regs) m p) (requests ops)"
  using fast_agrees_registered assms by (rule fast_run_agrees)

text \<open>An engine for the examples: every text is an expression and matches everything, and no text has a
  parameter in it.\<close>

definition any_engine :: "string regex_lib" where
  "any_engine = \<lparr>regex_opt = Some, matches_string = (\<lambda>re t. True), get_group_by_name = (\<lambda>re t n. t),
     find_all_str = (\<lambda>re t. []), replace_by_fn = (\<lambda>re t f. t)\<rparr>"

definition key_sort :: "('re, 'h) sort_fun" where
  "key_sort cmp xs = sort_key pr_complexity xs"

definition h_star :: "int ihandler" where "h_star = \<lparr>ih_path = ''/*'', ih_handle = 1\<rparr>"
definition h_param :: "int ihandler" where "h_param = \<lparr>ih_path = ''/:id'', ih_handle = 2\<rparr>"
definition h_static :: "int ihandler" where "h_static = \<lparr>ih_path = ''/a'', ih_handle = 3\<rparr>"

theorem fast_serves_witness:
  "map (map_option (ih_handle \<circ> rm_handler))
     (fast_run any_engine key_sort [F_match ck0 ck0 ''GET'' ''/x'', F_clear_cache 0, F_match ck0 ck0 ''GET'' ''/a'',
        F_set_sort_enabled False, F_set_sort_enabled True,
        F_match ck0 ck0 ''GET'' ''/x'', F_match ck0 ck0 ''PUT'' ''/x'']
       (fast_registered any_engine key_sort 0 [(''GET'', h_star), (''GET'', h_static), (''GET'', h_param)])) =
   [Some 2, Some 3, Some 2, None]"
proof -
  have "map (\<lambda>(m, p). map_option (ih_handle \<circ> rm_handler) (fast_answer any_engine
      (fast_registered any_engine key_sort 0 [(''GET'', h_star), (''GET'', h_static), (''GET'', h_param)]) m p))
      [(''GET'', ''/x''), (''GET'', ''/a''), (''GET'', ''/x''), (''PUT'', ''/x'')] = [Some 2, Some 3, Some 2, None]"
    by code_simp
  moreover have "sort_settled key_sort (fast_registered any_engine key_sort 0 [(''GET'', h_star), (''GET'', h_static), (''GET'', h_param)])"
    by (simp add: sort_settled_def fast_sort_dynamic_routes_def) code_simp
  ultimately show ?thesis
    by (subst fast_serves) simp_all
qed

text \<open>Routes of pairwise different complexity are settled, however the sort treats equal ones.\<close>

lemma settled_distinct:
  assumes "sorting qs" and "by_complexity (fr_precompiled r)" and "distinct (map pr_complexity (fr_precompiled r))"
  shows "sort_settled qs r"
proof -
  let ?xs = "fr_precompiled r" and ?ys = "qs complexity_compare (fr_precompiled r)"
  have s: "mset ?ys = mset ?xs" "sorted (map pr_complexity ?ys)"
    using assms(1) by (simp_all add: sorting_def complexity_compare_le sorted_map)
  then have "map pr_complexity ?ys = map pr_complexity ?xs"
    using assms(2) by (metis by_complexity_def mset_map properties_for_sort sorted_map)
  moreover have "set ?ys = set ?xs" using s(1) by (metis set_mset_mset)
  ultimately have "?ys = ?xs"
    using assms(3) by (intro map_inj_on [of pr_complexity]) (simp_all add: distinct_map)
  then show ?thesis by (simp add: sort_settled_def fast_sort_dynamic_routes_def)
qed

text \<open>A sort that puts equal elements in the opposite order is a correct sort.  With it, switching the sorting on again turns two
  routes of equal complexity around; the fast cache still answers with the first.\<close>

definition turning_sort :: "('re, 'h) sort_fun" where
  "turning_sort cmp xs = sort_key pr_complexity (rev xs)"

lemma sorting_turning_sort: "sorting turning_sort"
  by (simp add: sorting_def turning_sort_def complexity_compare_le) (metis sorted_sort_key sorted_map)

definition h_other :: "int ihandler" where "h_other = \<lparr>ih_path = ''/:no'', ih_handle = 4\<rparr>"

lemma fast_cache_unsorted:
  "let r = fast_registered any_engine turning_sort 0 [(''GET'', h_param), (''GET'', h_other)];
       ask = F_match ck0 ck0 ''GET'' ''/x'';
       show_handles = map (map_option (ih_handle \<circ> rm_handler))
   in show_handles (fast_run any_engine turning_sort [ask, F_set_sort_enabled True, ask] r) = [Some 4, Some 4]
      \<and> show_handles (fast_run any_engine turning_sort [F_set_sort_enabled True, ask] r) = [Some 2]"
  by code_simp

text \<open>C12: what a fast router answers.  A path that was registered as a static route of the method is
  answered with the handler registered last for it.  Any other path is answered by a registered
  dynamic route of the method whose expression matches, with no matching route of the method being
  less complex, and it has no answer exactly when no such route matches.\<close>

theorem fast_answer_correct:
  assumes "sorting qs" and "CHR '':'' \<notin> set m" and "list_all (\<lambda>reg. CHR '':'' \<notin> set (fst reg)) regs"
  shows "case find (fast_static_reg m p) (rev regs) of
      Some reg \<Rightarrow> fast_answer rl (fast_registered rl qs now regs) m p = Some (static_result (snd reg))
    | None \<Rightarrow>
        (case fast_answer rl (fast_registered rl qs now regs) m p of
           None \<Rightarrow> \<forall>reg \<in> set regs. \<forall>route. compiled_route rl reg = Some route \<longrightarrow> \<not> applies rl m p route
         | Some res \<Rightarrow> \<exists>reg \<in> set regs. \<exists>route. compiled_route rl reg = Some route \<and> applies rl m p route
             \<and> res = route_result rl p route
             \<and> (\<forall>reg' \<in> set regs. \<forall>route'. compiled_route rl reg' = Some route' \<and> applies rl m p route'
                   \<longrightarrow> pr_complexity route \<le> pr_complexity route'))"
proof (cases "find (fast_static_reg m p) (rev regs)")
  case no_static: None
  let ?R = "fr_precompiled (fast_registered rl qs now regs)"
  have ans: "fast_answer rl (fast_registered rl qs now regs) m p = map_option (route_result rl p) (find (applies rl m p) ?R)"
    using fast_register_all_static [OF assms(2,3), of rl qs "fast_new now" p]
    by (simp add: fast_answer_def fast_registered_def no_static fast_new_static fast_scan_find)
  note R = fast_registered_dynamic [OF assms(1), of rl now regs]
  show ?thesis
  proof (cases "find (applies rl m p) ?R")
    case None
    then have "\<not> applies rl m p route" if "reg \<in> set regs" "compiled_route rl reg = Some route" for reg route
      using R(2) that by (auto simp: find_None_iff)
    with None show ?thesis by (simp add: no_static ans)
  next
    case (Some route)
    from find_sorted_least [OF R(1) Some] show ?thesis
      by (simp add: no_static ans Some R(2)) blast
  qed
next
  case (Some reg)
  then show ?thesis
    using fast_register_all_static [OF assms(2,3), of rl qs "fast_new now" p]
    by (simp add: fast_answer_def fast_registered_def)
qed

lemma sorting_key_sort: "sorting key_sort"
  by (simp add: sorting_def key_sort_def complexity_compare_le) (metis sorted_sort_key sorted_map)

theorem fast_answer_correct_witness:
  "fast_answer any_engine (fast_registered any_engine key_sort 0 [(''GET'', h_star), (''GET'', h_static)]) ''GET'' ''/a''
     = Some (static_result h_static)"
  using fast_answer_correct [OF sorting_key_sort, where m = "''GET''" and regs = "[(''GET'', h_star), (''GET'', h_static)]"
      and p = "''/a''" and rl = any_engine and now = 0]
  by (simp add: fast_static_reg_def is_fast_static_def v_contains_def h_static_def)

text \<open>A dynamic answer outlives what should replace it.  The routes may be extended by a dynamic
  route that is less complex, and \<^verbatim>\<open>clear_cache\<close> may be called, which clears only the other cache: the path
  keeps its first answer.\<close>

theorem fast_cache_stale:
  assumes "fr_cache_enabled r" and "fr_use_fast_cache r" and "fc_enabled (fr_fast_cache r)"
    and "vget (fr_static_results r) (route_key m p) = None"
    and "fst (fast_match_route rl ck ck' m p r) = Some res" and "\<not> is_fast_static (ih_path h)"
  shows "fst (fast_match_route rl ck2 ck3 m p
      (fast_clear_cache now (snd (fast_add_route rl qs m' h b (snd (fast_match_route rl ck ck' m p r)))))) = Some res"
  by (intro fast_cached_answer) (simp add: fast_cached_clear fast_cached_add_route fast_match_caches assms)

theorem fast_cache_stale_witness:
  "let r = fast_registered any_engine key_sort 0 [(''GET'', h_star)];
       r1 = snd (fast_match_route any_engine ck0 ck0 ''GET'' ''/x'' r);
       r2 = fast_clear_cache 0 (snd (fast_add_route any_engine key_sort ''GET'' h_param '''' r1))
   in fst (fast_match_route any_engine ck0 ck0 ''GET'' ''/x'' r2) = Some (route_result any_engine ''/x''
        \<lparr>pr_method = ''GET'', pr_pattern = ''/*'', pr_regex = ''^/*$'', pr_param_names = [], pr_handler = h_star, pr_complexity = 22\<rparr>)
      \<and> map_option rm_handler (fast_answer any_engine r2 ''GET'' ''/x'') = Some h_param"
proof -
  let ?r = "fast_registered any_engine key_sort 0 [(''GET'', h_star)]"
  let ?res = "route_result any_engine ''/x''
        \<lparr>pr_method = ''GET'', pr_pattern = ''/*'', pr_regex = ''^/*$'', pr_param_names = [], pr_handler = h_star, pr_complexity = 22\<rparr>"
  have "fr_cache_enabled ?r" "fr_use_fast_cache ?r" "fc_enabled (fr_fast_cache ?r)"
      "vget (fr_static_results ?r) (route_key ''GET'' ''/x'') = None"
      "fst (fast_match_route any_engine ck0 ck0 ''GET'' ''/x'' ?r) = Some ?res" "\<not> is_fast_static (ih_path h_param)"
    by code_simp+
  from fast_cache_stale [OF this, of ck0 ck0 0 key_sort "''GET''" "''''"]
  have 1: "fst (fast_match_route any_engine ck0 ck0 ''GET'' ''/x'' (fast_clear_cache 0 (snd (fast_add_route any_engine key_sort
     ''GET'' h_param '''' (snd (fast_match_route any_engine ck0 ck0 ''GET'' ''/x'' ?r)))))) = Some ?res" .
  have 2: "map_option rm_handler (fast_answer any_engine (fast_clear_cache 0 (snd (fast_add_route any_engine key_sort
     ''GET'' h_param '''' (snd (fast_match_route any_engine ck0 ck0 ''GET'' ''/x'' ?r))))) ''GET'' ''/x'') = Some h_param"
    by code_simp
  from 1 2 show ?thesis by (simp add: Let_def)
qed

end
