(* ===== verification/Hybrid_Router.thy ===== *)
theory Hybrid_Router
  imports Route_Match Lru_Cache
begin

text \<open>
  The hybrid router of \<^verbatim>\<open>router.v\<close>, to which an application falls back when the fast router refuses a
  route: static routes in a map, dynamic routes in a list sorted by complexity, expressions compiled
  at their first use and kept in an expression cache, and the LRU route cache in front of the scan.
  The engine \<open>rl\<close> and \<^verbatim>\<open>sort_with_compare\<close> are parameters as in \<open>Fast_Router\<close>.
\<close>

section \<open>State\<close>

record ('re, 'h) hybrid_router =
  hr_static_routes :: "(string, 'h ihandler) vmap"
  hr_dynamic_routes :: "'h ihandler list"
  hr_cache :: "'h route_match lru_cache"
  hr_regex_cache :: "(string, 're compiled_regex) vmap"

type_synonym 'h handler_sort = "('h ihandler \<Rightarrow> 'h ihandler \<Rightarrow> int) \<Rightarrow> 'h ihandler list \<Rightarrow> 'h ihandler list"

definition hybrid_new :: "int \<Rightarrow> ('re, 'h) hybrid_router" where
  "hybrid_new now = \<lparr>hr_static_routes = [], hr_dynamic_routes = [], hr_cache = lru_new now 1000, hr_regex_cache = []\<rparr>"

section \<open>Operations\<close>

definition is_static_path :: "string \<Rightarrow> bool" where
  "is_static_path path \<longleftrightarrow> \<not> v_contains path (CHR '':'') \<and> \<not> v_contains path (CHR ''*'')
     \<and> \<not> v_contains path (CHR ''?'') \<and> \<not> v_contains path (CHR ''+'')"

definition is_dynamic_path :: "string \<Rightarrow> bool" where
  "is_dynamic_path path \<longleftrightarrow> v_contains path (CHR '':'') \<or> v_contains path (CHR ''*'')
     \<or> v_contains path (CHR ''?'') \<or> v_contains path (CHR ''+'')"

text \<open>The three results of \<^verbatim>\<open>match_path_with_regex\<close>; the empty \<^verbatim>\<open>regex.RE{}\<close> of a failure is \<open>None\<close>.\<close>

type_synonym 're path_match = "bool \<times> 're option \<times> string list"

definition compile_star_star :: "'re regex_lib \<Rightarrow> string \<Rightarrow> 're option" where
  "compile_star_star rl reg_path = regex_opt rl (v_replace_str ''**'' ''.*'' reg_path)"

definition compile_star :: "'re regex_lib \<Rightarrow> string \<Rightarrow> 're option" where
  "compile_star rl reg_path = regex_opt rl (v_replace (CHR ''*'') ''[^/]*'' reg_path)"

definition compile_params :: "'re regex_lib \<Rightarrow> string \<Rightarrow> ('re \<times> string list) option" where
  "compile_params rl reg_path =
     (case regex_opt rl param_source of
        None \<Rightarrow> None
      | Some param_reg \<Rightarrow>
          (let param_names = map tl (find_all_str rl param_reg reg_path);
               replaced = anchored (replace_by_fn rl param_reg (escape_specials reg_path) param_group)
           in map_option (\<lambda>re. (re, param_names)) (regex_opt rl replaced)))"

text \<open>Caching and testing a freshly compiled expression, the common end of the three branches.\<close>

definition cache_and_test ::
  "'re regex_lib \<Rightarrow> string \<Rightarrow> string \<Rightarrow> ('re \<times> string list) option \<Rightarrow> (string, 're compiled_regex) vmap
     \<Rightarrow> 're path_match \<times> (string, 're compiled_regex) vmap" where
  "cache_and_test rl real_path reg_path compiled rc =
     (case compiled of
        None \<Rightarrow> ((False, None, []), rc)
      | Some (re, names) \<Rightarrow>
          ((matches_string rl re real_path, Some re, names),
           vset reg_path \<lparr>cr_regex = re, cr_param_names = names, cr_compiled = True\<rparr> rc))"

definition match_path_with_regex ::
  "'re regex_lib \<Rightarrow> string \<Rightarrow> string \<Rightarrow> (string, 're compiled_regex) vmap
     \<Rightarrow> 're path_match \<times> (string, 're compiled_regex) vmap" where
  "match_path_with_regex rl real_path reg_path rc =
     (let compile_it =
        (if v_contains_str reg_path ''**'' then
           cache_and_test rl real_path reg_path (map_option (\<lambda>re. (re, [])) (compile_star_star rl reg_path)) rc
         else if v_contains reg_path (CHR ''*'') then
           cache_and_test rl real_path reg_path (map_option (\<lambda>re. (re, [])) (compile_star rl reg_path)) rc
         else if v_contains reg_path (CHR '':'') then
           cache_and_test rl real_path reg_path (compile_params rl reg_path) rc
         else ((False, None, []), rc))
      in case vget rc reg_path of
           Some cached \<Rightarrow>
             if cr_compiled cached
             then ((matches_string rl (cr_regex cached) real_path, Some (cr_regex cached), cr_param_names cached), rc)
             else compile_it
         | None \<Rightarrow> compile_it)"

definition handler_compare :: "'h ihandler \<Rightarrow> 'h ihandler \<Rightarrow> int" where
  "handler_compare a b =
     (let score_a = calculate_route_complexity (ih_path a);
          score_b = calculate_route_complexity (ih_path b)
      in if score_a < score_b then -1 else if score_a > score_b then 1 else 0)"

definition hybrid_sort_dynamic_routes :: "'h handler_sort \<Rightarrow> ('re, 'h) hybrid_router \<Rightarrow> ('re, 'h) hybrid_router" where
  "hybrid_sort_dynamic_routes qs r = r\<lparr>hr_dynamic_routes := qs handler_compare (hr_dynamic_routes r)\<rparr>"

definition hybrid_add_route ::
  "'h handler_sort \<Rightarrow> string \<Rightarrow> 'h ihandler \<Rightarrow> string \<Rightarrow> ('re, 'h) hybrid_router \<Rightarrow> ('re, 'h) hybrid_router" where
  "hybrid_add_route qs method handler base_path r =
     (let full_path = ih_path handler in
      if is_static_path full_path
      then r\<lparr>hr_static_routes := vset (route_key method full_path) handler (hr_static_routes r)\<rparr>
      else hybrid_sort_dynamic_routes qs (r\<lparr>hr_dynamic_routes := hr_dynamic_routes r @ [handler]\<rparr>))"

definition match_static_route :: "string \<Rightarrow> string \<Rightarrow> ('re, 'h) hybrid_router \<Rightarrow> 'h ihandler option" where
  "match_static_route method path r = vget (hr_static_routes r) (route_key method path)"

text \<open>The scan of the dynamic routes, which fills the expression cache as it goes.\<close>

fun hybrid_scan ::
  "'re regex_lib \<Rightarrow> string \<Rightarrow> 'h ihandler list \<Rightarrow> (string, 're compiled_regex) vmap
     \<Rightarrow> 'h route_match option \<times> (string, 're compiled_regex) vmap" where
  "hybrid_scan rl path [] rc = (None, rc)"
| "hybrid_scan rl path (h # hs) rc =
     (case match_path_with_regex rl path (ih_path h) rc of
        ((True, Some re, names), rc1) \<Rightarrow>
          (Some \<lparr>rm_handler = h, rm_params = extract_params rl re names path, rm_path = ih_path h, rm_base_path = ''''\<rparr>, rc1)
      | (_, rc1) \<Rightarrow> hybrid_scan rl path hs rc1)"

definition match_dynamic_route_with_key ::
  "'re regex_lib \<Rightarrow> clock \<Rightarrow> clock \<Rightarrow> string \<Rightarrow> string \<Rightarrow> string \<Rightarrow> ('re, 'h) hybrid_router
     \<Rightarrow> 'h route_match option \<times> ('re, 'h) hybrid_router" where
  "match_dynamic_route_with_key rl ck ck' cache_key method path r =
     (case lru_get ck cache_key (hr_cache r) of
        (Some cached, c) \<Rightarrow> (Some cached, r\<lparr>hr_cache := c\<rparr>)
      | (None, c) \<Rightarrow>
          (case hybrid_scan rl path (hr_dynamic_routes r) (hr_regex_cache r) of
             (None, rc) \<Rightarrow> (None, r\<lparr>hr_cache := c, hr_regex_cache := rc\<rparr>)
           | (Some result, rc) \<Rightarrow>
               (Some result, r\<lparr>hr_cache := lru_put ck' cache_key result c, hr_regex_cache := rc\<rparr>)))"

definition match_dynamic_route ::
  "'re regex_lib \<Rightarrow> clock \<Rightarrow> clock \<Rightarrow> string \<Rightarrow> string \<Rightarrow> ('re, 'h) hybrid_router
     \<Rightarrow> 'h route_match option \<times> ('re, 'h) hybrid_router" where
  "match_dynamic_route rl ck ck' method path r = match_dynamic_route_with_key rl ck ck' (route_key method path) method path r"

definition hybrid_match_route ::
  "'re regex_lib \<Rightarrow> clock \<Rightarrow> clock \<Rightarrow> string \<Rightarrow> string \<Rightarrow> ('re, 'h) hybrid_router
     \<Rightarrow> 'h route_match option \<times> ('re, 'h) hybrid_router" where
  "hybrid_match_route rl ck ck' method path r =
     (let cache_key = route_key method path in
      case vget (hr_static_routes r) cache_key of
        Some h \<Rightarrow> (Some \<lparr>rm_handler = h, rm_params = [], rm_path = path, rm_base_path = ''''\<rparr>, r)
      | None \<Rightarrow> match_dynamic_route_with_key rl ck ck' cache_key method path r)"

definition hybrid_get_all_routes :: "('re, 'h) hybrid_router \<Rightarrow> string list \<times> string list" where
  "hybrid_get_all_routes r = (vkeys (hr_static_routes r), map ih_path (hr_dynamic_routes r))"

definition hybrid_get_cache_stats :: "('re, 'h) hybrid_router \<Rightarrow> int \<times> int" where
  "hybrid_get_cache_stats r = lru_get_stats (hr_cache r)"

definition hybrid_clear_cache :: "int \<Rightarrow> ('re, 'h) hybrid_router \<Rightarrow> ('re, 'h) hybrid_router" where
  "hybrid_clear_cache now r = r\<lparr>hr_cache := lru_clear now (hr_cache r)\<rparr>"

definition hybrid_get_regex_cache_stats :: "('re, 'h) hybrid_router \<Rightarrow> int \<times> int" where
  "hybrid_get_regex_cache_stats r = (int (length (hr_regex_cache r)), compiled_count (hr_regex_cache r))"

definition hybrid_clear_regex_cache :: "('re, 'h) hybrid_router \<Rightarrow> ('re, 'h) hybrid_router" where
  "hybrid_clear_regex_cache r = r\<lparr>hr_regex_cache := []\<rparr>"

fun hybrid_warm :: "'re regex_lib \<Rightarrow> 'h ihandler list \<Rightarrow> (string, 're compiled_regex) vmap \<Rightarrow> (string, 're compiled_regex) vmap" where
  "hybrid_warm rl [] rc = rc"
| "hybrid_warm rl (h # hs) rc =
     hybrid_warm rl hs
       (if v_contains (ih_path h) (CHR '':'') \<or> v_contains (ih_path h) (CHR ''*'')
        then snd (match_path_with_regex rl ''/dummy/path'' (ih_path h) rc) else rc)"

definition hybrid_warmup_regex_cache :: "'re regex_lib \<Rightarrow> ('re, 'h) hybrid_router \<Rightarrow> ('re, 'h) hybrid_router" where
  "hybrid_warmup_regex_cache rl r = r\<lparr>hr_regex_cache := hybrid_warm rl (hr_dynamic_routes r) (hr_regex_cache r)\<rparr>"

section \<open>The expression cache\<close>

text \<open>What compiling a route path gives, as a function of the path alone.\<close>

definition compile_path :: "'re regex_lib \<Rightarrow> string \<Rightarrow> ('re \<times> string list) option" where
  "compile_path rl reg_path =
     (if v_contains_str reg_path ''**'' then map_option (\<lambda>re. (re, [])) (compile_star_star rl reg_path)
      else if v_contains reg_path (CHR ''*'') then map_option (\<lambda>re. (re, [])) (compile_star rl reg_path)
      else if v_contains reg_path (CHR '':'') then compile_params rl reg_path
      else None)"

definition rc_ok :: "'re regex_lib \<Rightarrow> (string, 're compiled_regex) vmap \<Rightarrow> bool" where
  "rc_ok rl rc \<longleftrightarrow> (\<forall>k c. vget rc k = Some c \<longrightarrow> cr_compiled c \<and> compile_path rl k = Some (cr_regex c, cr_param_names c))"

lemma rc_ok_Nil [simp]: "rc_ok rl []"
  by (simp add: rc_ok_def)

lemma cache_and_test_None [simp]: "cache_and_test rl p k None rc = ((False, None, []), rc)"
  by (simp add: cache_and_test_def)

lemma match_path_compile:
  "match_path_with_regex rl p k rc =
     (case vget rc k of
        Some c \<Rightarrow> if cr_compiled c then ((matches_string rl (cr_regex c) p, Some (cr_regex c), cr_param_names c), rc)
                  else cache_and_test rl p k (compile_path rl k) rc
      | None \<Rightarrow> cache_and_test rl p k (compile_path rl k) rc)"
  unfolding match_path_with_regex_def Let_def compile_path_def
  by (auto split: option.split)

lemma match_path_ok:
  assumes "rc_ok rl rc"
  shows "fst (match_path_with_regex rl p k rc) =
      (case compile_path rl k of None \<Rightarrow> (False, None, []) | Some (re, names) \<Rightarrow> (matches_string rl re p, Some re, names))"
    and "rc_ok rl (snd (match_path_with_regex rl p k rc))"
  using assms
  by (auto simp: match_path_compile cache_and_test_def rc_ok_def split: option.splits)

section \<open>What a router answers\<close>

fun hybrid_dynamic :: "'re regex_lib \<Rightarrow> 'h ihandler list \<Rightarrow> string \<Rightarrow> 'h route_match option" where
  "hybrid_dynamic rl [] path = None"
| "hybrid_dynamic rl (h # hs) path =
     (case compile_path rl (ih_path h) of
        None \<Rightarrow> hybrid_dynamic rl hs path
      | Some (re, names) \<Rightarrow>
          if matches_string rl re path
          then Some \<lparr>rm_handler = h, rm_params = extract_params rl re names path, rm_path = ih_path h, rm_base_path = ''''\<rparr>
          else hybrid_dynamic rl hs path)"

definition hybrid_answer :: "'re regex_lib \<Rightarrow> ('re, 'h) hybrid_router \<Rightarrow> string \<Rightarrow> string \<Rightarrow> 'h route_match option" where
  "hybrid_answer rl r method path =
     (case vget (hr_static_routes r) (route_key method path) of
        Some h \<Rightarrow> Some \<lparr>rm_handler = h, rm_params = [], rm_path = path, rm_base_path = ''''\<rparr>
      | None \<Rightarrow> hybrid_dynamic rl (hr_dynamic_routes r) path)"

lemma hybrid_scan_ok:
  "rc_ok rl rc \<Longrightarrow> fst (hybrid_scan rl p hs rc) = hybrid_dynamic rl hs p \<and> rc_ok rl (snd (hybrid_scan rl p hs rc))"
proof (induction hs arbitrary: rc)
  case (Cons h hs)
  obtain b o' ns rc1 where m: "match_path_with_regex rl p (ih_path h) rc = ((b, o', ns), rc1)"
    by (metis prod_cases3 surj_pair)
  from match_path_ok [OF Cons.prems, of p "ih_path h"] m Cons.IH [of rc1]
  show ?case
    by (auto split: option.splits bool.splits)
qed simp

lemma hybrid_warm_ok: "rc_ok rl rc \<Longrightarrow> rc_ok rl (hybrid_warm rl hs rc)"
  by (induction hs arbitrary: rc) (simp_all add: match_path_ok)

definition hybrid_ok :: "'re regex_lib \<Rightarrow> ('re, 'h) hybrid_router \<Rightarrow> bool" where
  "hybrid_ok rl r \<longleftrightarrow> rc_ok rl (hr_regex_cache r) \<and>
     lru.agrees (\<lambda>k. hybrid_dynamic rl (hr_dynamic_routes r) (key_path k)) (hr_cache r)"

definition hybrid_same :: "('re, 'h) hybrid_router \<Rightarrow> ('re, 'h) hybrid_router \<Rightarrow> bool" where
  "hybrid_same r r' \<longleftrightarrow> hr_static_routes r' = hr_static_routes r \<and> hr_dynamic_routes r' = hr_dynamic_routes r"

lemma hybrid_answer_same: "hybrid_same r r' \<Longrightarrow> hybrid_answer rl r' = hybrid_answer rl r"
  by (simp add: hybrid_same_def hybrid_answer_def fun_eq_iff cong: option.case_cong)

lemma hybrid_dynamic_agrees:
  assumes a: "hybrid_ok rl r" and m: "CHR '':'' \<notin> set m"
    and s: "s = match_dynamic_route_with_key rl ck ck' (route_key m p) m p r"
  shows "fst s = hybrid_dynamic rl (hr_dynamic_routes r) p \<and> hybrid_ok rl (snd s) \<and> hybrid_same r (snd s)"
proof -
  let ?spec = "\<lambda>k. hybrid_dynamic rl (hr_dynamic_routes r) (key_path k)"
  let ?c = "case lru_get ck (route_key m p) (hr_cache r) of
      (Some v, c1) \<Rightarrow> (Some v, c1)
    | (None, c1) \<Rightarrow> (case ?spec (route_key m p) of None \<Rightarrow> (None, c1) | Some v \<Rightarrow> (Some v, lru_put ck' (route_key m p) v c1))"
  note sc = hybrid_scan_ok [of rl "hr_regex_cache r" p "hr_dynamic_routes r"]
  have "\<exists>rc. rc_ok rl rc \<and> s = (fst ?c, r\<lparr>hr_cache := snd ?c, hr_regex_cache := rc\<rparr>)"
    using a sc m by (cases "hybrid_scan rl p (hr_dynamic_routes r) (hr_regex_cache r)")
      (auto simp: s match_dynamic_route_with_key_def hybrid_ok_def split: prod.splits option.splits
        intro: exI [of _ "hr_regex_cache r"])
  moreover have "fst ?c = ?spec (route_key m p)" "lru.agrees ?spec (snd ?c)"
    using a by (intro lru.agrees_memo [OF _ _ refl]; simp add: hybrid_ok_def)+
  ultimately show ?thesis
    using m by (auto simp: hybrid_ok_def hybrid_same_def)
qed

lemma hybrid_match_agrees:
  assumes "hybrid_ok rl r" and "CHR '':'' \<notin> set m"
  shows "fst (hybrid_match_route rl ck ck' m p r) = hybrid_answer rl r m p \<and>
    hybrid_ok rl (snd (hybrid_match_route rl ck ck' m p r)) \<and> hybrid_same r (snd (hybrid_match_route rl ck ck' m p r))"
  using hybrid_dynamic_agrees [OF assms refl, of ck ck' p] assms
  by (auto simp: hybrid_match_route_def hybrid_answer_def hybrid_same_def split: option.splits)

section \<open>Sequences of operations\<close>

datatype hybrid_op =
    H_match clock clock string string
  | H_clear_cache int
  | H_clear_regex_cache
  | H_warmup_regex_cache

fun hybrid_step :: "'re regex_lib \<Rightarrow> hybrid_op \<Rightarrow> ('re, 'h) hybrid_router \<Rightarrow> ('re, 'h) hybrid_router" where
  "hybrid_step rl (H_match ck ck' m p) r = snd (hybrid_match_route rl ck ck' m p r)"
| "hybrid_step rl (H_clear_cache now) r = hybrid_clear_cache now r"
| "hybrid_step rl H_clear_regex_cache r = hybrid_clear_regex_cache r"
| "hybrid_step rl H_warmup_regex_cache r = hybrid_warmup_regex_cache rl r"

fun hybrid_op_ok :: "hybrid_op \<Rightarrow> bool" where
  "hybrid_op_ok (H_match ck ck' m p) = (CHR '':'' \<notin> set m)"
| "hybrid_op_ok _ = True"

fun hybrid_run :: "'re regex_lib \<Rightarrow> hybrid_op list \<Rightarrow> ('re, 'h) hybrid_router \<Rightarrow> 'h route_match option list" where
  "hybrid_run rl [] r = []"
| "hybrid_run rl (op # ops) r =
     (case op of H_match ck ck' m p \<Rightarrow> [fst (hybrid_match_route rl ck ck' m p r)] | _ \<Rightarrow> [])
     @ hybrid_run rl ops (hybrid_step rl op r)"

fun hybrid_requests :: "hybrid_op list \<Rightarrow> (string \<times> string) list" where
  "hybrid_requests [] = []"
| "hybrid_requests (H_match ck ck' m p # ops) = (m, p) # hybrid_requests ops"
| "hybrid_requests (_ # ops) = hybrid_requests ops"

lemma hybrid_step_ok:
  assumes "hybrid_ok rl r" and "hybrid_op_ok op"
  shows "hybrid_ok rl (hybrid_step rl op r) \<and> hybrid_same r (hybrid_step rl op r)"
proof (cases op)
  case (H_match ck ck' m p)
  with assms show ?thesis using hybrid_match_agrees [of rl r m ck ck' p] by simp
qed (use assms in \<open>simp_all add: hybrid_ok_def hybrid_same_def hybrid_clear_cache_def hybrid_clear_regex_cache_def
      hybrid_warmup_regex_cache_def lru_agrees_clear hybrid_warm_ok\<close>)

lemma hybrid_run_ok:
  "hybrid_ok rl r \<Longrightarrow> list_all hybrid_op_ok ops \<Longrightarrow>
   hybrid_run rl ops r = map (\<lambda>(m, p). hybrid_answer rl r m p) (hybrid_requests ops)"
proof (induction ops arbitrary: r)
  case (Cons op ops)
  then have "hybrid_run rl ops (hybrid_step rl op r) = map (\<lambda>(m, p). hybrid_answer rl r m p) (hybrid_requests ops)"
    using hybrid_step_ok [of rl r op] hybrid_answer_same [of r "hybrid_step rl op r" rl] by simp
  with Cons.prems show ?case
    by (cases op) (auto simp: hybrid_match_agrees)
qed simp

section \<open>Registration\<close>

definition hybrid_register :: "'h handler_sort \<Rightarrow> string \<times> 'h ihandler \<Rightarrow> ('re, 'h) hybrid_router \<Rightarrow> ('re, 'h) hybrid_router" where
  "hybrid_register qs reg r = hybrid_add_route qs (fst reg) (snd reg) '''' r"

definition hybrid_registered :: "'h handler_sort \<Rightarrow> int \<Rightarrow> (string \<times> 'h ihandler) list \<Rightarrow> ('re, 'h) hybrid_router" where
  "hybrid_registered qs now regs = fold (hybrid_register qs) regs (hybrid_new now)"

lemma hybrid_register_caches [simp]:
  "hr_cache (fold (hybrid_register qs) regs r) = hr_cache r"
  "hr_regex_cache (fold (hybrid_register qs) regs r) = hr_regex_cache r"
  by (induction regs arbitrary: r)
    (simp_all add: hybrid_register_def hybrid_add_route_def hybrid_sort_dynamic_routes_def Let_def)

lemma hybrid_ok_registered: "hybrid_ok rl (hybrid_registered qs now regs)"
  by (simp add: hybrid_ok_def hybrid_registered_def) (simp add: hybrid_new_def lru_agrees_new)

lemma hybrid_static_handlers:
  "vget (hr_static_routes (fold (hybrid_register qs) regs r)) k = Some h \<Longrightarrow>
   (\<And>k h. vget (hr_static_routes r) k = Some h \<Longrightarrow> is_static_path (ih_path h)) \<Longrightarrow> is_static_path (ih_path h)"
proof (induction regs arbitrary: r)
  case (Cons reg regs)
  show ?case
  proof (rule Cons.IH [of "hybrid_register qs reg r"])
    show "vget (hr_static_routes (fold (hybrid_register qs) regs (hybrid_register qs reg r))) k = Some h"
      using Cons.prems(1) by simp
    show "is_static_path (ih_path h')" if "vget (hr_static_routes (hybrid_register qs reg r)) k' = Some h'" for k' h'
      using that Cons.prems(2)
      by (auto simp: hybrid_register_def hybrid_add_route_def hybrid_sort_dynamic_routes_def Let_def split: if_splits)
  qed
qed simp

lemma hybrid_dynamic_compiles:
  "hybrid_dynamic rl hs p = Some res \<Longrightarrow> compile_path rl (ih_path (rm_handler res)) \<noteq> None"
  by (induction hs) (auto split: option.splits if_splits)

section \<open>Properties\<close>

text \<open>C16: once its routes are registered, a hybrid router answers every request of any sequence of
  requests, cache clearings and warm-ups as if there were neither a route cache nor an expression
  cache: the static route of method and path, or else the first dynamic route whose expression,
  compiled from its path, matches.  This holds for every engine, sort function and clock.\<close>

theorem hybrid_serves:
  assumes "list_all hybrid_op_ok ops"
  shows "hybrid_run rl ops (hybrid_registered qs now regs) =
    map (\<lambda>(m, p). hybrid_answer rl (hybrid_registered qs now regs) m p) (hybrid_requests ops)"
  using hybrid_ok_registered assms by (rule hybrid_run_ok)

text \<open>An engine for the examples, whose expressions match a path that begins with their text.\<close>

definition prefix_engine :: "string regex_lib" where
  "prefix_engine = \<lparr>regex_opt = Some, matches_string = (\<lambda>re t. v_starts_with t (takeWhile (\<lambda>c. c \<noteq> CHR ''['') re)),
     get_group_by_name = (\<lambda>re t n. t), find_all_str = (\<lambda>re t. []), replace_by_fn = (\<lambda>re t f. t)\<rparr>"

definition path_sort :: "'h handler_sort" where
  "path_sort cmp xs = sort_key (\<lambda>h. calculate_route_complexity (ih_path h)) xs"

definition h_files :: "int ihandler" where "h_files = \<lparr>ih_path = ''/files/*'', ih_handle = 1\<rparr>"
definition h_root :: "int ihandler" where "h_root = \<lparr>ih_path = ''/*'', ih_handle = 2\<rparr>"
definition h_plus :: "int ihandler" where "h_plus = \<lparr>ih_path = ''/a+b'', ih_handle = 3\<rparr>"

theorem hybrid_serves_witness:
  "map (map_option (ih_handle \<circ> rm_handler))
     (hybrid_run prefix_engine [H_warmup_regex_cache, H_match ck0 ck0 ''GET'' ''/files/x'', H_clear_regex_cache,
        H_match ck0 ck0 ''GET'' ''/files/x'', H_match ck0 ck0 ''GET'' ''x'']
       (hybrid_registered path_sort 0 [(''GET'', h_files), (''GET'', h_plus)])) = [Some 1, Some 1, None]"
proof -
  have "map (\<lambda>(m, p). map_option (ih_handle \<circ> rm_handler) (hybrid_answer prefix_engine
      (hybrid_registered path_sort 0 [(''GET'', h_files), (''GET'', h_plus)]) m p))
      [(''GET'', ''/files/x''), (''GET'', ''/files/x''), (''GET'', ''x'')] = [Some 1, Some 1, None]"
    by code_simp
  then show ?thesis
    by (subst hybrid_serves) simp_all
qed

text \<open>The hybrid router does not look at the method of a dynamic route: two requests for the same
  path, neither of which has a static route, get the same answer whatever their methods are and
  whatever the route was registered for.\<close>

theorem hybrid_ignores_method:
  assumes "r = hybrid_registered qs now regs"
    and "CHR '':'' \<notin> set m1" and "CHR '':'' \<notin> set m2"
    and "match_static_route m1 p r = None" and "match_static_route m2 p r = None"
  shows "fst (hybrid_match_route rl ck1 ck2 m1 p r) = fst (hybrid_match_route rl ck3 ck4 m2 p r)"
  using assms(2-5) hybrid_ok_registered [of rl qs now regs]
  by (simp add: assms(1) [symmetric] hybrid_match_agrees hybrid_answer_def match_static_route_def)

theorem hybrid_ignores_method_witness:
  "map_option rm_handler (fst (hybrid_match_route prefix_engine ck0 ck0 ''DELETE'' ''/files/x''
     (hybrid_registered path_sort 0 [(''GET'', h_files)]))) = Some h_files"
proof -
  let ?r = "hybrid_registered path_sort 0 [(''GET'', h_files)] :: (string, int) hybrid_router"
  have s: "match_static_route ''DELETE'' ''/files/x'' ?r = None" "match_static_route ''GET'' ''/files/x'' ?r = None"
    by code_simp+
  have "map_option rm_handler (fst (hybrid_match_route prefix_engine ck0 ck0 ''GET'' ''/files/x'' ?r)) = Some h_files"
    by code_simp
  with hybrid_ignores_method [OF refl _ _ s, of prefix_engine ck0 ck0 ck0 ck0] show ?thesis by simp
qed

text \<open>A route whose path has a question mark or a plus sign but neither a colon nor a star is filed
  as dynamic, has no expression and can never answer: every answer comes from a static path or from
  a path with a colon or a star.\<close>

theorem hybrid_plus_unreachable:
  assumes "r = hybrid_registered qs now regs" and "CHR '':'' \<notin> set m"
    and "fst (hybrid_match_route rl ck ck' m p r) = Some res"
  shows "is_static_path (ih_path (rm_handler res)) \<or> v_contains (ih_path (rm_handler res)) (CHR '':'')
    \<or> v_contains (ih_path (rm_handler res)) (CHR ''*'')"
proof -
  have "hybrid_answer rl r m p = Some res"
    using assms(2,3) hybrid_ok_registered [of rl qs now regs] by (simp add: assms(1) [symmetric] hybrid_match_agrees)
  then consider h where "vget (hr_static_routes r) (route_key m p) = Some h" "rm_handler res = h"
    | "hybrid_dynamic rl (hr_dynamic_routes r) p = Some res"
    by (auto simp: hybrid_answer_def split: option.splits)
  then show ?thesis
  proof cases
    case (1 h)
    have "is_static_path (ih_path h)"
      by (rule hybrid_static_handlers [OF 1(1) [unfolded assms(1) hybrid_registered_def]]) (simp add: hybrid_new_def)
    with 1 show ?thesis by simp
  next
    case 2
    then show ?thesis
      using hybrid_dynamic_compiles [OF 2] by (auto simp: compile_path_def dest: contains_two split: if_splits)
  qed
qed

theorem hybrid_plus_unreachable_witness:
  "fst (hybrid_match_route prefix_engine ck0 ck0 ''GET'' ''/a+b'' (hybrid_registered path_sort 0 [(''GET'', h_plus)])) = None
   \<and> v_contains (ih_path h_files) (CHR ''*'')"
proof -
  let ?r = "hybrid_registered path_sort 0 [(''GET'', h_files)] :: (string, int) hybrid_router"
  obtain res where "fst (hybrid_match_route prefix_engine ck0 ck0 ''GET'' ''/files/x'' ?r) = Some res"
    and "rm_handler res = h_files"
    by (rule that [of "\<lparr>rm_handler = h_files, rm_params = [], rm_path = ''/files/*'', rm_base_path = ''''\<rparr>"]) code_simp+
  with hybrid_plus_unreachable [OF refl _ this(1)] have "is_static_path (ih_path h_files) \<or>
      v_contains (ih_path h_files) (CHR '':'') \<or> v_contains (ih_path h_files) (CHR ''*'')" by simp
  moreover have "fst (hybrid_match_route prefix_engine ck0 ck0 ''GET'' ''/a+b''
      (hybrid_registered path_sort 0 [(''GET'', h_plus)])) = None"
    by code_simp
  ultimately show ?thesis
    by (simp add: is_static_path_def v_contains_def h_files_def)
qed

end
