(* ===== verification/Uv_Records.thy ===== *)
theory Uv_Records
  imports Uv_Fs_Flags
begin

text \<open>
  The remaining structures and enumerations of \<^verbatim>\<open>uv.h\<close>, \<^verbatim>\<open>uv/unix.h\<close>, \<^verbatim>\<open>uv/win.h\<close> and \<^verbatim>\<open>libusockets.h\<close>: what the query functions fill in
  (times, processors, addresses, users, system names, file systems, directories), the options of a process and of a
  thread, the synchronisation objects, enumerations and numeric constants, and the choice of the event system.

  Shown here: buffers have the layout of the system's vectors to which they are cast; the padding of a barrier gives it the size
  of the system's barrier; values of enumerations and constants are distinct and in order; exactly one event system is
  chosen when the build chooses none; the sizes on 64-bit Linux.
\<close>

section \<open>Times\<close>

definition uv_timespec64_t :: cfields where
  "uv_timespec64_t = [(''tv_sec'', T_base ''int64_t''), (''tv_nsec'', T_base ''int32_t'')]"

definition uv_timeval_t :: cfields where
  "uv_timeval_t = [(''tv_sec'', T_base ''long''), (''tv_usec'', T_base ''long'')]"

definition uv_timeval64_t :: cfields where
  "uv_timeval64_t = [(''tv_sec'', T_base ''int64_t''), (''tv_usec'', T_base ''int32_t'')]"

definition uv_rusage_t :: cfields where
  "uv_rusage_t =
    [(''ru_utime'', T_struct uv_timeval_t), (''ru_stime'', T_struct uv_timeval_t), (''ru_maxrss'', T_base ''uint64_t''),
     (''ru_ixrss'', T_base ''uint64_t''), (''ru_idrss'', T_base ''uint64_t''), (''ru_isrss'', T_base ''uint64_t''),
     (''ru_minflt'', T_base ''uint64_t''), (''ru_majflt'', T_base ''uint64_t''), (''ru_nswap'', T_base ''uint64_t''),
     (''ru_inblock'', T_base ''uint64_t''), (''ru_oublock'', T_base ''uint64_t''), (''ru_msgsnd'', T_base ''uint64_t''),
     (''ru_msgrcv'', T_base ''uint64_t''), (''ru_nsignals'', T_base ''uint64_t''), (''ru_nvcsw'', T_base ''uint64_t''),
     (''ru_nivcsw'', T_base ''uint64_t'')]"

section \<open>The system\<close>

definition uv_cpu_times_s :: cfields where
  "uv_cpu_times_s =
    [(''user'', T_base ''uint64_t''), (''nice'', T_base ''uint64_t''), (''sys'', T_base ''uint64_t''), (''idle'', T_base ''uint64_t''),
     (''irq'', T_base ''uint64_t'')]"

definition uv_cpu_info_s :: cfields where
  "uv_cpu_info_s = [(''model'', T_ptr ''char''), (''speed'', T_base ''int''), (''cpu_times'', T_struct uv_cpu_times_s)]"

definition uv_interface_address_s :: cfields where
  "uv_interface_address_s =
    [(''name'', T_ptr ''char''), (''phys_addr'', T_array (T_base ''char'') 6), (''is_internal'', T_base ''int''),
     (''address'', T_union [(''address4'', T_base ''struct sockaddr_in''), (''address6'', T_base ''struct sockaddr_in6'')]),
     (''netmask'', T_union [(''netmask4'', T_base ''struct sockaddr_in''), (''netmask6'', T_base ''struct sockaddr_in6'')])]"

definition uv_passwd_s :: cfields where
  "uv_passwd_s =
    [(''username'', T_ptr ''char''), (''uid'', T_base ''unsigned long''), (''gid'', T_base ''unsigned long''), (''shell'', T_ptr ''char''),
     (''homedir'', T_ptr ''char'')]"

definition uv_group_s :: cfields where
  "uv_group_s = [(''groupname'', T_ptr ''char''), (''gid'', T_base ''unsigned long''), (''members'', T_ptr ''char*'')]"

definition uv_utsname_s :: cfields where
  "uv_utsname_s =
    [(''sysname'', T_array (T_base ''char'') 256), (''release'', T_array (T_base ''char'') 256),
     (''version'', T_array (T_base ''char'') 256), (''machine'', T_array (T_base ''char'') 256)]"

definition uv_statfs_s :: cfields where
  "uv_statfs_s =
    [(''f_type'', T_base ''uint64_t''), (''f_bsize'', T_base ''uint64_t''), (''f_blocks'', T_base ''uint64_t''),
     (''f_bfree'', T_base ''uint64_t''), (''f_bavail'', T_base ''uint64_t''), (''f_files'', T_base ''uint64_t''),
     (''f_ffree'', T_base ''uint64_t''), (''f_spare'', T_array (T_base ''uint64_t'') 4)]"

definition uv_env_item_s :: cfields where
  "uv_env_item_s = [(''name'', T_ptr ''char''), (''value'', T_ptr ''char'')]"

definition uv_metrics_s :: cfields where
  "uv_metrics_s =
    [(''loop_count'', T_base ''uint64_t''), (''events'', T_base ''uint64_t''), (''events_waiting'', T_base ''uint64_t''),
     (''reserved'', T_array (T_ptr ''uint64_t'') 13)]"

section \<open>Directories\<close>

definition uv_dirent_s :: cfields where
  "uv_dirent_s = [(''name'', T_ptr ''char''), (''type'', T_base ''uv_dirent_type_t'')]"

definition UNIX_UV_DIR_PRIVATE_FIELDS :: cfields where
  "UNIX_UV_DIR_PRIVATE_FIELDS = [(''dir'', T_ptr ''DIR'')]"

definition WIN_UV_DIR_PRIVATE_FIELDS :: cfields where
  "WIN_UV_DIR_PRIVATE_FIELDS =
    [(''dir_handle'', T_base ''HANDLE''), (''find_data'', T_base ''WIN32_FIND_DATAW''), (''need_find_call'', T_base ''BOOL'')]"

definition uv_dir_s :: "uv_env \<Rightarrow> cfields" where
  "uv_dir_s e =
    [(''dirents'', T_ptr ''uv_dirent_t''), (''nentries'', T_base ''size_t''), (''reserved'', T_array (T_ptr ''void'') 4)]
    @ by_platform e WIN_UV_DIR_PRIVATE_FIELDS UNIX_UV_DIR_PRIVATE_FIELDS"

definition WIN_uv__dirent_s :: cfields where
  "WIN_uv__dirent_s = [(''d_type'', T_base ''int''), (''d_name'', T_array (T_base ''char'') 1)]"

section \<open>Processes, threads and libraries\<close>

definition uv_stdio_container_s :: cfields where
  "uv_stdio_container_s =
    [(''flags'', T_base ''uv_stdio_flags''), (''data'', T_union [(''stream'', T_ptr ''uv_stream_t''), (''fd'', T_base ''int'')])]"

definition uv_process_options_s :: cfields where
  "uv_process_options_s =
    [(''exit_cb'', T_fn ''uv_exit_cb''), (''file'', T_ptr ''const char''), (''args'', T_ptr ''char*''), (''env'', T_ptr ''char*''),
     (''cwd'', T_ptr ''const char''), (''flags'', T_base ''unsigned int''), (''stdio_count'', T_base ''int''),
     (''stdio'', T_ptr ''uv_stdio_container_t''), (''uid'', T_base ''uv_uid_t''), (''gid'', T_base ''uv_gid_t'')]"

definition uv_thread_options_s :: cfields where
  "uv_thread_options_s = [(''flags'', T_base ''unsigned int''), (''stack_size'', T_base ''size_t'')]"

definition UNIX_uv_lib_t :: cfields where
  "UNIX_uv_lib_t = [(''handle'', T_ptr ''void''), (''errmsg'', T_ptr ''char'')]"

definition WIN_uv_lib_t :: cfields where
  "WIN_uv_lib_t = [(''handle'', T_base ''HMODULE''), (''errmsg'', T_ptr ''char'')]"

definition us_socket_context_options_t :: cfields where
  "us_socket_context_options_t =
    [(''key_file_name'', T_ptr ''const char''), (''cert_file_name'', T_ptr ''const char''), (''passphrase'', T_ptr ''const char''),
     (''dh_params_file_name'', T_ptr ''const char''), (''ca_file_name'', T_ptr ''const char''), (''ssl_ciphers'', T_ptr ''const char''),
     (''ssl_prefer_low_memory_usage'', T_base ''int'')]"

section \<open>Synchronisation\<close>

text \<open>On Unix the names stand for the types of the system's threads.\<close>

definition UV_PLATFORM_SEM_T :: "uv_env \<Rightarrow> string" where
  "UV_PLATFORM_SEM_T e =
    (if platform_header e = Darwin_h \<and> ue_defined e ''__MACH__'' then ''semaphore_t''
     else if platform_header e = Os390_h then ''long'' else ''sem_t'')"

definition UNIX_thread_types :: "uv_env \<Rightarrow> (string \<times> ctype) list" where
  "UNIX_thread_types e =
    [(''uv_once_t'', T_base ''pthread_once_t''), (''uv_thread_t'', T_base ''pthread_t''), (''uv_mutex_t'', T_base ''pthread_mutex_t''),
     (''uv_rwlock_t'', T_base ''pthread_rwlock_t''), (''uv_sem_t'', T_base (UV_PLATFORM_SEM_T e)),
     (''uv_cond_t'', T_base ''pthread_cond_t''), (''uv_key_t'', T_base ''pthread_key_t'')]"

definition UNIX_basic_types :: "(string \<times> ctype) list" where
  "UNIX_basic_types =
    [(''uv_file'', T_base ''int''), (''uv_os_sock_t'', T_base ''int''), (''uv_os_fd_t'', T_base ''int''), (''uv_pid_t'', T_base ''pid_t''),
     (''uv_gid_t'', T_base ''gid_t''), (''uv_uid_t'', T_base ''uid_t''), (''uv__dirent_t'', T_base ''struct dirent'')]"

definition UNIX_uv_barrier :: cfields where
  "UNIX_uv_barrier =
    [(''mutex'', T_base ''uv_mutex_t''), (''cond'', T_base ''uv_cond_t''), (''threshold'', T_base ''unsigned''), (''in'', T_base ''unsigned''),
     (''out'', T_base ''unsigned'')]"

text \<open>A barrier of \<^verbatim>\<open>uv/unix.h\<close>: a pointer to libuv's own barrier, padded to the size of the system's where the system has one
  that is not used; else the system's.\<close>

definition barrier_by_pointer :: "uv_env \<Rightarrow> bool" where
  "barrier_by_pointer e \<longleftrightarrow>
     ue_defined e ''_AIX'' \<or> ue_defined e ''__OpenBSD__'' \<or> \<not> ue_defined e ''PTHREAD_BARRIER_SERIAL_THREAD''"

definition UNIX_uv_barrier_t :: "uv_env \<Rightarrow> ctype" where
  "UNIX_uv_barrier_t e =
     (if barrier_by_pointer e then
        T_struct ((''b'', T_ptr ''struct _uv_barrier'') #
          (if ue_defined e ''PTHREAD_BARRIER_SERIAL_THREAD''
           then [(''pad'', T_array (T_base ''char'')
             (c_sizeof e (T_base ''pthread_barrier_t'') - c_sizeof e (T_ptr ''struct _uv_barrier'')))] else []))
      else T_base ''pthread_barrier_t'')"

definition WIN_basic_types :: "(string \<times> ctype) list" where
  "WIN_basic_types =
    [(''uv_file'', T_base ''int''), (''uv_os_sock_t'', T_base ''SOCKET''), (''uv_os_fd_t'', T_base ''HANDLE''), (''uv_pid_t'', T_base ''int''),
     (''uv_thread_t'', T_base ''HANDLE''), (''uv_sem_t'', T_base ''HANDLE''), (''uv_mutex_t'', T_base ''CRITICAL_SECTION'')]"

definition WIN_uv_cond_t :: ctype where
  "WIN_uv_cond_t =
    T_union [(''cond_var'', T_base ''CONDITION_VARIABLE''),
      (''unused_'', T_struct [(''waiters_count'', T_base ''unsigned int''), (''waiters_count_lock'', T_base ''CRITICAL_SECTION''),
         (''signal_event'', T_base ''HANDLE''), (''broadcast_event'', T_base ''HANDLE'')])]"

definition WIN_uv_rwlock_t :: "uv_env \<Rightarrow> cfields" where
  "WIN_uv_rwlock_t e =
    [(''read_write_lock_'', T_base ''SRWLOCK''),
     (''padding_'', T_array (T_base ''unsigned char'') (if ue_defined e ''_WIN64'' then 72 else 44))]"

definition WIN_uv_barrier_t :: cfields where
  "WIN_uv_barrier_t =
    [(''threshold'', T_base ''unsigned''), (''in'', T_base ''unsigned''), (''mutex'', T_base ''uv_mutex_t''),
     (''cond'', T_base ''CONDITION_VARIABLE''), (''out'', T_base ''unsigned'')]"

definition WIN_uv_key_t :: cfields where
  "WIN_uv_key_t = [(''tls_index'', T_base ''DWORD'')]"

definition WIN_uv_once_s :: cfields where
  "WIN_uv_once_s = [(''unused'', T_base ''unsigned char''), (''init_once'', T_base ''INIT_ONCE'')]"

definition WIN_uid_types :: "(string \<times> ctype) list" where
  "WIN_uid_types = [(''uv_uid_t'', T_base ''unsigned char''), (''uv_gid_t'', T_base ''unsigned char'')]"

section \<open>Enumerations\<close>

definition uv_loop_option :: "string list" where
  "uv_loop_option = [''UV_LOOP_BLOCK_SIGNAL'', ''UV_METRICS_IDLE_TIME'', ''UV_LOOP_USE_IO_URING_SQPOLL'']"

definition uv_run_mode :: "string list" where
  "uv_run_mode = [''UV_RUN_DEFAULT'', ''UV_RUN_ONCE'', ''UV_RUN_NOWAIT'']"

definition uv_clock_id :: "string list" where
  "uv_clock_id = [''UV_CLOCK_MONOTONIC'', ''UV_CLOCK_REALTIME'']"

definition uv_membership :: "string list" where
  "uv_membership = [''UV_LEAVE_GROUP'', ''UV_JOIN_GROUP'']"

definition uv_tty_mode_t :: "string list" where
  "uv_tty_mode_t = [''UV_TTY_MODE_NORMAL'', ''UV_TTY_MODE_RAW'', ''UV_TTY_MODE_IO'', ''UV_TTY_MODE_RAW_VT'']"

definition uv_tty_vtermstate_t :: "string list" where
  "uv_tty_vtermstate_t = [''UV_TTY_SUPPORTED'', ''UV_TTY_UNSUPPORTED'']"

definition uv_thread_create_flags :: "(string \<times> int) list" where
  "uv_thread_create_flags = [(''UV_THREAD_NO_FLAGS'', 0x00), (''UV_THREAD_HAS_STACK_SIZE'', 0x01)]"

text \<open>The operations of a file system request; the first has the value -1.\<close>

definition uv_fs_type_names :: "string list" where
  "uv_fs_type_names =
    [''UV_FS_UNKNOWN'', ''UV_FS_CUSTOM'', ''UV_FS_OPEN'', ''UV_FS_CLOSE'', ''UV_FS_READ'', ''UV_FS_WRITE'', ''UV_FS_SENDFILE'', ''UV_FS_STAT'',
     ''UV_FS_LSTAT'', ''UV_FS_FSTAT'', ''UV_FS_FTRUNCATE'', ''UV_FS_UTIME'', ''UV_FS_FUTIME'', ''UV_FS_ACCESS'', ''UV_FS_CHMOD'',
     ''UV_FS_FCHMOD'', ''UV_FS_FSYNC'', ''UV_FS_FDATASYNC'', ''UV_FS_UNLINK'', ''UV_FS_RMDIR'', ''UV_FS_MKDIR'', ''UV_FS_MKDTEMP'',
     ''UV_FS_RENAME'', ''UV_FS_SCANDIR'', ''UV_FS_LINK'', ''UV_FS_SYMLINK'', ''UV_FS_READLINK'', ''UV_FS_CHOWN'', ''UV_FS_FCHOWN'',
     ''UV_FS_REALPATH'', ''UV_FS_COPYFILE'', ''UV_FS_LCHOWN'', ''UV_FS_OPENDIR'', ''UV_FS_READDIR'', ''UV_FS_CLOSEDIR'', ''UV_FS_STATFS'',
     ''UV_FS_MKSTEMP'', ''UV_FS_LUTIME'']"

definition uv_fs_type :: "string \<Rightarrow> int option" where
  "uv_fs_type n = map_option (\<lambda>i. int i - 1) (enum_value uv_fs_type_names n)"

section \<open>Constants\<close>

definition uv_fs_copyfile_flags :: "(string \<times> int) list" where
  "uv_fs_copyfile_flags = [(''UV_FS_COPYFILE_EXCL'', 0x0001), (''UV_FS_COPYFILE_FICLONE'', 0x0002), (''UV_FS_COPYFILE_FICLONE_FORCE'', 0x0004)]"

definition uv_fs_symlink_flags :: "(string \<times> int) list" where
  "uv_fs_symlink_flags = [(''UV_FS_SYMLINK_DIR'', 0x0001), (''UV_FS_SYMLINK_JUNCTION'', 0x0002)]"

definition uv_priority :: "uv_env \<Rightarrow> (string \<times> int) list" where
  "uv_priority e =
    (if ue_defined e ''__PASE__''
     then [(''UV_PRIORITY_LOW'', 39), (''UV_PRIORITY_BELOW_NORMAL'', 15), (''UV_PRIORITY_NORMAL'', 0), (''UV_PRIORITY_ABOVE_NORMAL'', -4),
       (''UV_PRIORITY_HIGH'', -7), (''UV_PRIORITY_HIGHEST'', -10)]
     else [(''UV_PRIORITY_LOW'', 19), (''UV_PRIORITY_BELOW_NORMAL'', 10), (''UV_PRIORITY_NORMAL'', 0), (''UV_PRIORITY_ABOVE_NORMAL'', -7),
       (''UV_PRIORITY_HIGH'', -14), (''UV_PRIORITY_HIGHEST'', -20)])"

definition uv_thread_priority :: "(string \<times> int) list" where
  "uv_thread_priority =
    [(''UV_THREAD_PRIORITY_HIGHEST'', 2), (''UV_THREAD_PRIORITY_ABOVE_NORMAL'', 1), (''UV_THREAD_PRIORITY_NORMAL'', 0),
     (''UV_THREAD_PRIORITY_BELOW_NORMAL'', -1), (''UV_THREAD_PRIORITY_LOWEST'', -2)]"

definition UV_MAXHOSTNAMESIZE :: "uv_env \<Rightarrow> nat" where
  "UV_MAXHOSTNAMESIZE e = (case ue_const e ''MAXHOSTNAMELEN'' of Some n \<Rightarrow> n + 1 | None \<Rightarrow> 256)"

definition UV_IF_NAMESIZE :: "uv_env \<Rightarrow> nat" where
  "UV_IF_NAMESIZE e =
    (case ue_const e ''IF_NAMESIZE'' of Some n \<Rightarrow> n + 1
     | None \<Rightarrow> (case ue_const e ''IFNAMSIZ'' of Some n \<Rightarrow> n + 1 | None \<Rightarrow> 16 + 1))"

text \<open>Windows: the modes of \<^verbatim>\<open>access\<close>, the signals that the C runtime defines (as the comment lists them) and the ones that
  libuv adds, the number of signals, and the identifiers of the extension functions of the socket library.\<close>

definition WIN_access_modes :: "uv_env \<Rightarrow> (string \<times> nat) list" where
  "WIN_access_modes e =
    map (\<lambda>(n, d). (n, case ue_const e n of Some v \<Rightarrow> v | None \<Rightarrow> d)) [(''F_OK'', 0), (''R_OK'', 4), (''W_OK'', 2), (''X_OK'', 1)]"

definition WIN_crt_signals :: "(string \<times> nat) list" where
  "WIN_crt_signals =
    [(''SIGINT'', 2), (''SIGABRT_COMPAT'', 6), (''SIGFPE'', 8), (''SIGSEGV'', 11), (''SIGTERM'', 15), (''SIGBREAK'', 21), (''SIGABRT'', 22)]"

definition WIN_signals :: "(string \<times> nat) list" where
  "WIN_signals = [(''SIGHUP'', 1), (''SIGQUIT'', 3), (''SIGKILL'', 9), (''SIGWINCH'', 28)]"

definition WIN_NSIG :: "uv_env \<Rightarrow> nat" where
  "WIN_NSIG e = (case ue_const e ''NSIG'' of Some n \<Rightarrow> if n \<le> 28 then 28 + 1 else n | None \<Rightarrow> 28 + 1)"

definition MAX_PIPENAME_LEN :: nat where
  "MAX_PIPENAME_LEN = 256"

definition S_IFLNK :: "uv_env \<Rightarrow> nat" where
  "S_IFLNK e = (case ue_const e ''S_IFLNK'' of Some n \<Rightarrow> n | None \<Rightarrow> 0xA000)"

type_synonym guid = "nat \<times> nat \<times> nat \<times> nat list"

definition WSAIDs :: "(string \<times> guid) list" where
  "WSAIDs =
    [(''WSAID_ACCEPTEX'', 0xb5367df1, 0xcbac, 0x11cf, [0x95, 0xca, 0x00, 0x80, 0x5f, 0x48, 0xa1, 0x92]),
     (''WSAID_CONNECTEX'', 0x25a207b9, 0xddf3, 0x4660, [0x8e, 0xe9, 0x76, 0xe5, 0x8c, 0x74, 0x06, 0x3e]),
     (''WSAID_GETACCEPTEXSOCKADDRS'', 0xb5367df2, 0xcbac, 0x11cf, [0x95, 0xca, 0x00, 0x80, 0x5f, 0x48, 0xa1, 0x92]),
     (''WSAID_DISCONNECTEX'', 0x7fda2e11, 0x8630, 0x436f, [0xa0, 0x31, 0xf5, 0x36, 0xa6, 0xee, 0xc1, 0x57]),
     (''WSAID_TRANSMITFILE'', 0xb5367df0, 0xcbac, 0x11cf, [0x95, 0xca, 0x00, 0x80, 0x5f, 0x48, 0xa1, 0x92])]"

text \<open>\<^verbatim>\<open>libusockets.h\<close>: sizes, the descriptor type and the event system.\<close>

definition LIBUS_RECV_BUFFER_LENGTH :: "uv_env \<Rightarrow> nat" where
  "LIBUS_RECV_BUFFER_LENGTH e = (case ue_const e ''LIBUS_RECV_BUFFER_LENGTH'' of Some n \<Rightarrow> n | None \<Rightarrow> 524288)"

definition LIBUS_TIMEOUT_GRANULARITY :: nat where
  "LIBUS_TIMEOUT_GRANULARITY = 4"

definition LIBUS_RECV_BUFFER_PADDING :: nat where
  "LIBUS_RECV_BUFFER_PADDING = 32"

definition LIBUS_EXT_ALIGNMENT :: nat where
  "LIBUS_EXT_ALIGNMENT = 16"

definition LIBUS_SOCKET_DESCRIPTOR :: "uv_env \<Rightarrow> ctype" where
  "LIBUS_SOCKET_DESCRIPTOR e = by_platform e (T_base ''SOCKET'') (T_base ''int'')"

definition event_systems :: "string list" where
  "event_systems = [''LIBUS_USE_IO_URING'', ''LIBUS_USE_EPOLL'', ''LIBUS_USE_LIBUV'', ''LIBUS_USE_GCD'', ''LIBUS_USE_KQUEUE'', ''LIBUS_USE_ASIO'']"

definition libus_event_systems :: "uv_env \<Rightarrow> string list" where
  "libus_event_systems e =
    (if \<not> list_ex (ue_defined e) event_systems then
       [if ue_defined e ''_WIN32'' then ''LIBUS_USE_LIBUV''
        else if ue_defined e ''__APPLE__'' \<or> ue_defined e ''__FreeBSD__'' then ''LIBUS_USE_KQUEUE'' else ''LIBUS_USE_EPOLL'']
     else filter (ue_defined e) event_systems)"

section \<open>Facts\<close>

text \<open>The comments of the headers promise that an array of \<^verbatim>\<open>uv_buf_t\<close> may be passed as an array of \<^verbatim>\<open>struct iovec\<close> on Unix and of
  \<^verbatim>\<open>WSABUF\<close> on Windows, whose members are written here as those systems document them.\<close>

definition iovec :: cfields where
  "iovec = [(''iov_base'', T_ptr ''void''), (''iov_len'', T_base ''size_t'')]"

definition WSABUF :: cfields where
  "WSABUF = [(''len'', T_base ''ULONG''), (''buf'', T_ptr ''CHAR'')]"

theorem uv_buf_cast:
  "c_layout e (T_struct (UNIX_uv_buf_t e)) = c_layout e (T_struct iovec)"
  "field_offset e (UNIX_uv_buf_t e) ''base'' = field_offset e iovec ''iov_base''"
  "field_offset e (UNIX_uv_buf_t e) ''len'' = field_offset e iovec ''iov_len''"
  "c_layout e (T_struct (WIN_uv_buf_t e)) = c_layout e (T_struct WSABUF)"
  "field_offset e (WIN_uv_buf_t e) ''len'' = field_offset e WSABUF ''len''"
  "field_offset e (WIN_uv_buf_t e) ''base'' = field_offset e WSABUF ''buf''"
  by (simp_all add: UNIX_uv_buf_t_def WIN_uv_buf_t_def iovec_def WSABUF_def field_offset_def)

lemma round_up_id: "0 < a \<Longrightarrow> a dvd n \<Longrightarrow> round_up n a = n"
proof -
  assume a: "0 < a" and "a dvd n"
  then obtain k where k: "n = k * a" by (metis dvd_def mult.commute)
  have "(k * a + (a - 1)) div a = k" using a by (simp only: div_mult_self3 [OF a [THEN less_imp_neq, symmetric]]) simp
  with a show ?thesis by (simp add: round_up_def k)
qed

text \<open>The padding makes a barrier exactly as large as the system's, when that one is a whole number of pointers and characters
  have size and alignment 1; where it is not used at all, the types are the same.\<close>

theorem uv_barrier_size:
  assumes "ce_size e ''char'' = 1" and "ce_align e ''char'' = 1"
    and "ue_defined e ''PTHREAD_BARRIER_SERIAL_THREAD''"
    and "0 < ce_align e ptr_name" and "ce_align e ptr_name dvd ce_size e ''pthread_barrier_t''"
    and "ce_size e ptr_name \<le> ce_size e ''pthread_barrier_t''"
  shows "c_sizeof e (UNIX_uv_barrier_t e) = c_sizeof e (T_base ''pthread_barrier_t'')"
proof (cases "barrier_by_pointer e")
  case True
  have one: "round_up x (Suc 0) = x" for x by (simp add: round_up_def)
  have "max (ce_align e ptr_name) (Suc 0) = ce_align e ptr_name" using assms(4) by simp
  then show ?thesis
    using assms True
    by (simp add: UNIX_uv_barrier_t_def max_of_def struct_end_def Let_def round_up_id one)
qed (simp add: UNIX_uv_barrier_t_def)

text \<open>Numberings and constants.\<close>

lemma uv_fs_type_distinct: "distinct uv_fs_type_names"
  by code_simp

theorem uv_fs_type_numbered: "i < 38 \<Longrightarrow> uv_fs_type (uv_fs_type_names ! i) = Some (int i - 1)"
  using enum_value_nth [OF uv_fs_type_distinct, of i] by (simp add: uv_fs_type_def uv_fs_type_names_def)

theorem uv_priorities_ordered: "sorted_wrt (>) (map snd (uv_priority e)) \<and> sorted_wrt (>) (map snd uv_thread_priority)"
  by (simp add: uv_priority_def uv_thread_priority_def)

theorem uv_small_flags_recoverable:
  "list_all (\<lambda>g. map snd g = map ((^) 2) (flag_bits g) \<and> distinct (map snd g)) [uv_fs_copyfile_flags, uv_fs_symlink_flags]"
  by code_simp

theorem win_signals_fit:
  "distinct (map snd (WIN_crt_signals @ WIN_signals)) \<and> list_all (\<lambda>(n, s). s < WIN_NSIG e) (WIN_crt_signals @ WIN_signals)"
  by (auto simp: WIN_crt_signals_def WIN_signals_def WIN_NSIG_def split: option.splits)

theorem wsaids_distinct: "distinct (map snd WSAIDs)"
  by (simp add: WSAIDs_def)

text \<open>A build that chooses no event system gets exactly one, libuv only on Windows.\<close>

theorem libus_one_event_system:
  "\<not> list_ex (ue_defined e) event_systems \<Longrightarrow>
   length (libus_event_systems e) = 1 \<and> (''LIBUS_USE_LIBUV'' \<in> set (libus_event_systems e) \<longleftrightarrow> ue_defined e ''_WIN32'')"
  by (simp add: libus_event_systems_def)

section \<open>Sizes on 64-bit Linux\<close>

definition lp64_layout :: "(string \<times> nat \<times> nat) list" where
  "lp64_layout =
    [(''char'', 1, 1), (''int'', 4, 4), (''unsigned int'', 4, 4), (''int32_t'', 4, 4), (''int64_t'', 8, 8), (''uint64_t'', 8, 8),
     (''long'', 8, 8), (''unsigned long'', 8, 8), (''size_t'', 8, 8), (ptr_name, 8, 8), (fn_name, 8, 8), (''uv_dirent_type_t'', 4, 4),
     (''uv_stdio_flags'', 4, 4), (''uv_uid_t'', 4, 4), (''uv_gid_t'', 4, 4), (''struct sockaddr_in'', 16, 4),
     (''struct sockaddr_in6'', 28, 4)]"

definition e_lp64 :: uv_env where
  "e_lp64 =
    \<lparr>ce_size = (\<lambda>n. case map_of lp64_layout n of Some (s, a) \<Rightarrow> s | None \<Rightarrow> 8),
     ce_align = (\<lambda>n. case map_of lp64_layout n of Some (s, a) \<Rightarrow> a | None \<Rightarrow> 8),
     ue_defined = (\<lambda>s. s \<in> {''__linux__'', ''PTHREAD_BARRIER_SERIAL_THREAD''}), ue_const = (\<lambda>_. None)\<rparr>"

lemma lp64_basic:
  "ce_size e_lp64 ''char'' = 1" "ce_align e_lp64 ''char'' = 1" "ce_size e_lp64 ''int'' = 4" "ce_align e_lp64 ''int'' = 4"
  "ce_size e_lp64 ''unsigned int'' = 4" "ce_align e_lp64 ''unsigned int'' = 4"
  "ce_size e_lp64 ''int32_t'' = 4" "ce_align e_lp64 ''int32_t'' = 4" "ce_size e_lp64 ''int64_t'' = 8" "ce_align e_lp64 ''int64_t'' = 8"
  "ce_size e_lp64 ''uint64_t'' = 8" "ce_align e_lp64 ''uint64_t'' = 8" "ce_size e_lp64 ''long'' = 8" "ce_align e_lp64 ''long'' = 8"
  "ce_size e_lp64 ''unsigned long'' = 8" "ce_align e_lp64 ''unsigned long'' = 8" "ce_size e_lp64 ''size_t'' = 8" "ce_align e_lp64 ''size_t'' = 8"
  "ce_size e_lp64 ptr_name = 8" "ce_align e_lp64 ptr_name = 8" "ce_size e_lp64 fn_name = 8" "ce_align e_lp64 fn_name = 8"
  "ce_size e_lp64 ''uv_dirent_type_t'' = 4" "ce_align e_lp64 ''uv_dirent_type_t'' = 4"
  "ce_size e_lp64 ''uv_stdio_flags'' = 4" "ce_align e_lp64 ''uv_stdio_flags'' = 4"
  "ce_size e_lp64 ''uv_uid_t'' = 4" "ce_align e_lp64 ''uv_uid_t'' = 4" "ce_size e_lp64 ''uv_gid_t'' = 4" "ce_align e_lp64 ''uv_gid_t'' = 4"
  "ce_size e_lp64 ''struct sockaddr_in'' = 16" "ce_align e_lp64 ''struct sockaddr_in'' = 4"
  "ce_size e_lp64 ''struct sockaddr_in6'' = 28" "ce_align e_lp64 ''struct sockaddr_in6'' = 4"
  by (simp_all add: e_lp64_def lp64_layout_def ptr_name_def fn_name_def)

theorem lp64_sizes:
  "map (\<lambda>fs. c_sizeof e_lp64 (T_struct fs))
     [uv_timespec64_t, uv_timeval_t, uv_timeval64_t, uv_rusage_t, uv_stat_t e_lp64, uv_cpu_times_s, uv_cpu_info_s,
      uv_interface_address_s, uv_passwd_s, uv_group_s, uv_utsname_s, uv_statfs_s, uv_env_item_s, uv_metrics_s, uv_dirent_s,
      uv_stdio_container_s, uv_process_options_s, uv_thread_options_s, us_socket_context_options_t]
   = [16, 16, 16, 144, 160, 40, 56, 80, 40, 24, 1024, 88, 16, 128, 16, 16, 64, 16, 56]"
  by (simp add: uv_timespec64_t_def uv_timeval_t_def uv_timeval64_t_def uv_rusage_t_def uv_stat_t_def uv_timespec_t_def uv_cpu_times_s_def
      uv_cpu_info_s_def uv_interface_address_s_def uv_passwd_s_def uv_group_s_def uv_utsname_s_def uv_statfs_s_def uv_env_item_s_def
      uv_metrics_s_def uv_dirent_s_def uv_stdio_container_s_def uv_process_options_s_def uv_thread_options_s_def
      us_socket_context_options_t_def lp64_basic struct_end_def max_of_def round_up_def Let_def)

text \<open>The reserved members of \<^verbatim>\<open>uv_metrics_t\<close> are pointers, so that unlike its counters they have half the size on a 32-bit
  system: there the structure has 76 bytes, not 128.\<close>

lemma metrics_32:
  assumes "ce_size e ''uint64_t'' = 8" and "ce_align e ''uint64_t'' = 4" and "ce_size e ptr_name = 4" and "ce_align e ptr_name = 4"
  shows "c_sizeof e (T_struct uv_metrics_s) = 76"
  using assms by (simp add: uv_metrics_s_def struct_end_def max_of_def round_up_def Let_def)

end
