(* ===== verification/Codec.thy ===== *)
theory Codec
  imports Prelude
begin

text \<open>
  Bytes of strings, the hash functions SHA-1 and SHA-256 and Base64: what the handshake and the signed cookies use
  of the modules \<^verbatim>\<open>crypto.sha1\<close>, \<^verbatim>\<open>crypto.sha256\<close> and \<^verbatim>\<open>encoding.base64\<close>, written out from their standards.
\<close>

unbundle bit_operations_syntax

section \<open>Bytes\<close>

type_synonym u8 = "8 word"

text \<open>\<^verbatim>\<open>s.bytes()\<close> and \<^verbatim>\<open>b.bytestr()\<close>\<close>

definition v_bytes :: "string \<Rightarrow> u8 list" where
  "v_bytes s = map (\<lambda>c. of_nat (of_char c)) s"

definition v_bytestr :: "u8 list \<Rightarrow> string" where
  "v_bytestr bs = map (\<lambda>b. char_of (unat b)) bs"

lemma v_bytestr_bytes [simp]: "v_bytestr (v_bytes s) = s"
  by (simp add: v_bytestr_def v_bytes_def comp_def unat_of_nat)

lemma v_bytes_bytestr [simp]: "v_bytes (v_bytestr bs) = bs"
proof -
  have "of_nat (of_char (char_of (unat b) :: char)) = b" for b :: u8
  proof -
    have "unat b < 2 ^ LENGTH(8)" by (rule unsigned_less)
    then show ?thesis by simp
  qed
  then show ?thesis by (simp add: v_bytestr_def v_bytes_def comp_def)
qed

lemma length_v_bytes [simp]: "length (v_bytes s) = length s"
  by (simp add: v_bytes_def)

section \<open>SHA-1\<close>

type_synonym u32 = "32 word"

definition rotl32 :: "nat \<Rightarrow> u32 \<Rightarrow> u32" where
  "rotl32 n w = push_bit n w OR drop_bit (32 - n) w"

definition sha1_pad :: "u8 list \<Rightarrow> u8 list" where
  "sha1_pad m = m @ [0x80] @ replicate ((119 - length m mod 64) mod 64) 0
     @ map (\<lambda>i. word_of_int (drop_bit (i * 8) (8 * int (length m)))) [7, 6, 5, 4, 3, 2, 1, 0]"

fun be_words :: "u8 list \<Rightarrow> u32 list" where
  "be_words (a # b # c # d # bs) =
     foldl (\<lambda>acc x. push_bit 8 acc OR ucast x) 0 [a, b, c, d] # be_words bs"
| "be_words bs = []"

definition sha1_f :: "nat \<Rightarrow> u32 \<Rightarrow> u32 \<Rightarrow> u32 \<Rightarrow> u32" where
  "sha1_f t b c d =
     (if t < 20 then (b AND c) OR (NOT b AND d) else if t < 40 then b XOR c XOR d
      else if t < 60 then (b AND c) OR (b AND d) OR (c AND d) else b XOR c XOR d)"

definition sha1_k :: "nat \<Rightarrow> u32" where
  "sha1_k t = (if t < 20 then 0x5A827999 else if t < 40 then 0x6ED9EBA1 else if t < 60 then 0x8F1BBCDC else 0xCA62C1D6)"

text \<open>The rounds \<open>80 - n\<close> to \<open>79\<close>; the second argument is the window of the last sixteen schedule words.\<close>

fun sha1_rounds :: "nat \<Rightarrow> u32 list \<Rightarrow> u32 \<times> u32 \<times> u32 \<times> u32 \<times> u32 \<Rightarrow> u32 \<times> u32 \<times> u32 \<times> u32 \<times> u32" where
  "sha1_rounds 0 w s = s"
| "sha1_rounds (Suc n) w (a, b, c, d, e) =
     (let t = 79 - n; w0 = hd w;
          next = rotl32 1 (w ! 13 XOR w ! 8 XOR w ! 2 XOR w0);
          temp = rotl32 5 a + sha1_f t b c d + e + w0 + sha1_k t
      in sha1_rounds n (tl w @ [next]) (temp, a, rotl32 30 b, c, d))"

definition sha1_block :: "u32 list \<Rightarrow> u32 \<times> u32 \<times> u32 \<times> u32 \<times> u32 \<Rightarrow> u32 \<times> u32 \<times> u32 \<times> u32 \<times> u32" where
  "sha1_block w s = (case s of (a, b, c, d, e) \<Rightarrow> case sha1_rounds 80 w s of (a', b', c', d', e') \<Rightarrow>
     (a + a', b + b', c + c', d + d', e + e'))"

function sha1_blocks :: "u32 list \<Rightarrow> u32 \<times> u32 \<times> u32 \<times> u32 \<times> u32 \<Rightarrow> u32 \<times> u32 \<times> u32 \<times> u32 \<times> u32" where
  "sha1_blocks w s = (if w = [] then s else sha1_blocks (drop 16 w) (sha1_block (take 16 w) s))"
  by pat_completeness auto
termination
  by (relation "measure (\<lambda>(w, s). length w)") auto

declare sha1_blocks.simps [simp del]

definition sha1_sum :: "u8 list \<Rightarrow> u8 list" where
  "sha1_sum m =
     (case sha1_blocks (be_words (sha1_pad m)) (0x67452301, 0xEFCDAB89, 0x98BADCFE, 0x10325476, 0xC3D2E1F0) of
        (a, b, c, d, e) \<Rightarrow> concat (map (\<lambda>x. map (\<lambda>i. ucast (drop_bit (i * 8) x)) [3, 2, 1, 0]) [a, b, c, d, e]))"

section \<open>SHA-256\<close>

text \<open>Padding and the words of a block are those of SHA-1.\<close>

definition rotr32 :: "nat \<Rightarrow> u32 \<Rightarrow> u32" where
  "rotr32 n w = drop_bit n w OR push_bit (32 - n) w"

definition sha256_k :: "u32 list" where
  "sha256_k =
     [0x428A2F98, 0x71374491, 0xB5C0FBCF, 0xE9B5DBA5, 0x3956C25B, 0x59F111F1, 0x923F82A4, 0xAB1C5ED5,
      0xD807AA98, 0x12835B01, 0x243185BE, 0x550C7DC3, 0x72BE5D74, 0x80DEB1FE, 0x9BDC06A7, 0xC19BF174,
      0xE49B69C1, 0xEFBE4786, 0x0FC19DC6, 0x240CA1CC, 0x2DE92C6F, 0x4A7484AA, 0x5CB0A9DC, 0x76F988DA,
      0x983E5152, 0xA831C66D, 0xB00327C8, 0xBF597FC7, 0xC6E00BF3, 0xD5A79147, 0x06CA6351, 0x14292967,
      0x27B70A85, 0x2E1B2138, 0x4D2C6DFC, 0x53380D13, 0x650A7354, 0x766A0ABB, 0x81C2C92E, 0x92722C85,
      0xA2BFE8A1, 0xA81A664B, 0xC24B8B70, 0xC76C51A3, 0xD192E819, 0xD6990624, 0xF40E3585, 0x106AA070,
      0x19A4C116, 0x1E376C08, 0x2748774C, 0x34B0BCB5, 0x391C0CB3, 0x4ED8AA4A, 0x5B9CCA4F, 0x682E6FF3,
      0x748F82EE, 0x78A5636F, 0x84C87814, 0x8CC70208, 0x90BEFFFA, 0xA4506CEB, 0xBEF9A3F7, 0xC67178F2]"

type_synonym sha256_state = "u32 \<times> u32 \<times> u32 \<times> u32 \<times> u32 \<times> u32 \<times> u32 \<times> u32"

definition sha256_init :: sha256_state where
  "sha256_init = (0x6A09E667, 0xBB67AE85, 0x3C6EF372, 0xA54FF53A, 0x510E527F, 0x9B05688C, 0x1F83D9AB, 0x5BE0CD19)"

text \<open>One round for each constant; \<open>w\<close> is the window of the last sixteen schedule words.\<close>

fun sha256_rounds :: "u32 list \<Rightarrow> u32 list \<Rightarrow> sha256_state \<Rightarrow> sha256_state" where
  "sha256_rounds [] w s = s"
| "sha256_rounds (k # ks) w (a, b, c, d, e, f, g, h) =
     (let s1 = rotr32 6 e XOR rotr32 11 e XOR rotr32 25 e;
          ch = (e AND f) XOR (NOT e AND g);
          temp1 = h + s1 + ch + k + w ! 0;
          s0 = rotr32 2 a XOR rotr32 13 a XOR rotr32 22 a;
          maj = (a AND b) XOR (a AND c) XOR (b AND c);
          next = w ! 0 + (rotr32 7 (w ! 1) XOR rotr32 18 (w ! 1) XOR drop_bit 3 (w ! 1))
               + w ! 9 + (rotr32 17 (w ! 14) XOR rotr32 19 (w ! 14) XOR drop_bit 10 (w ! 14))
      in sha256_rounds ks (tl w @ [next]) (temp1 + (s0 + maj), a, b, c, d + temp1, e, f, g))"

definition sha256_block :: "u32 list \<Rightarrow> sha256_state \<Rightarrow> sha256_state" where
  "sha256_block w s =
     (case s of (a, b, c, d, e, f, g, h) \<Rightarrow> case sha256_rounds sha256_k w s of (a', b', c', d', e', f', g', h') \<Rightarrow>
        (a + a', b + b', c + c', d + d', e + e', f + f', g + g', h + h'))"

function sha256_blocks :: "u32 list \<Rightarrow> sha256_state \<Rightarrow> sha256_state" where
  "sha256_blocks w s = (if w = [] then s else sha256_blocks (drop 16 w) (sha256_block (take 16 w) s))"
  by pat_completeness auto
termination
  by (relation "measure (\<lambda>(w, s). length w)") auto

declare sha256_blocks.simps [simp del]

definition sha256_sum :: "u8 list \<Rightarrow> u8 list" where
  "sha256_sum m =
     (case sha256_blocks (be_words (sha1_pad m)) sha256_init of
        (a, b, c, d, e, f, g, h) \<Rightarrow>
          concat (map (\<lambda>x. map (\<lambda>i. ucast (drop_bit (i * 8) x)) [3, 2, 1, 0]) [a, b, c, d, e, f, g, h]))"

section \<open>Base64\<close>

definition b64_alphabet :: string where
  "b64_alphabet = ''ABCDEFGHIJKLMNOPQRSTUVWXYZabcdefghijklmnopqrstuvwxyz0123456789+/''"

definition b64_char :: "nat \<Rightarrow> char" where
  "b64_char n = b64_alphabet ! (n mod 64)"

fun base64_encode :: "u8 list \<Rightarrow> string" where
  "base64_encode [] = ''''"
| "base64_encode [a] = [b64_char (unat a div 4), b64_char (unat a * 16), CHR ''='', CHR ''='']"
| "base64_encode [a, b] = [b64_char (unat a div 4), b64_char (unat a * 16 + unat b div 16), b64_char (unat b * 4), CHR ''='']"
| "base64_encode (a # b # c # bs) =
     [b64_char (unat a div 4), b64_char (unat a * 16 + unat b div 16), b64_char (unat b * 4 + unat c div 64), b64_char (unat c)]
     @ base64_encode bs"

section \<open>Lengths\<close>

lemma length_base64: "length (base64_encode bs) = 4 * ((length bs + 2) div 3)"
proof (induction bs rule: base64_encode.induct)
  case (4 a b c bs)
  have "(5 + length bs) div 3 = (length bs + 2) div 3 + 1" by presburger
  with 4 show ?case by simp
qed simp_all

lemma length_sha1_sum [simp]: "length (sha1_sum m) = 20"
  by (simp add: sha1_sum_def split: prod.split)

lemma length_sha256_sum [simp]: "length (sha256_sum m) = 32"
  by (simp add: sha256_sum_def split: prod.split)

end
