(* ===== verification/Ws_Frame.thy ===== *)
theory Ws_Frame
  imports Codec
begin

text \<open>
  Encoding and decoding of WebSocket frames (\<^verbatim>\<open>websocket.v\<close>, functions \<^verbatim>\<open>encode_ws_frame\<close> and
  \<^verbatim>\<open>decode_ws_frame\<close>), the close frames built on them and the table of close codes.  Bytes are 8-bit
  words, the payload length of a decoded frame is a 64-bit word, and V's 32-bit \<^verbatim>\<open>int\<close> is an \<open>int\<close> whose
  conversions wrap around (\<open>wrap_i32\<close>).

  Decoding returns a frame, the message of an error, or panics: a slice whose bounds are out of order
  ends a V program.  The encoder shifts a 32-bit length by up to 56 bits; what a shift of an \<^verbatim>\<open>int\<close> by 32
  or more gives is left open by the language that V compiles to, so it is the parameter \<open>wide\<close>.

  Shown here: frames survive the round trip, followed by any bytes; which inputs are refused, accepted
  and fatal; the length that the encoder announces for a long payload where shift counts are taken
  modulo 32; close frames carry code and reason.
\<close>

unbundle bit_operations_syntax

section \<open>Results and shifts\<close>

datatype 'a v_result = V_ok 'a | V_error string | V_panic

definition v_and_then :: "'a v_result \<Rightarrow> ('a \<Rightarrow> 'b v_result) \<Rightarrow> 'b v_result" where
  "v_and_then r f = (case r of V_ok x \<Rightarrow> f x | V_error e \<Rightarrow> V_error e | V_panic \<Rightarrow> V_panic)"

lemma v_and_then_simps [simp]:
  "v_and_then (V_ok x) f = f x" "v_and_then (V_error e) f = V_error e" "v_and_then V_panic f = V_panic"
  by (simp_all add: v_and_then_def)

type_synonym u64 = "64 word"

text \<open>\<^verbatim>\<open>x >> n\<close> on a 32-bit \<^verbatim>\<open>int\<close>\<close>

definition v_shr :: "(int \<Rightarrow> nat \<Rightarrow> int) \<Rightarrow> int \<Rightarrow> nat \<Rightarrow> int" where
  "v_shr wide x n = (if n < 32 then drop_bit n x else wide x n)"

text \<open>What the shift instructions of common processors do, and the mathematical shift.\<close>

definition wide_mod32 :: "int \<Rightarrow> nat \<Rightarrow> int" where
  "wide_mod32 x n = drop_bit (n mod 32) x"


section \<open>Frames\<close>

definition ws_opcode_continuation :: u8 where "ws_opcode_continuation = 0x0"
definition ws_opcode_text :: u8 where "ws_opcode_text = 0x1"
definition ws_opcode_binary :: u8 where "ws_opcode_binary = 0x2"
definition ws_opcode_close :: u8 where "ws_opcode_close = 0x8"
definition ws_opcode_ping :: u8 where "ws_opcode_ping = 0x9"
definition ws_opcode_pong :: u8 where "ws_opcode_pong = 0xA"

lemmas ws_opcodes = ws_opcode_continuation_def ws_opcode_text_def ws_opcode_binary_def ws_opcode_close_def
  ws_opcode_ping_def ws_opcode_pong_def

record ws_frame =
  fr_fin :: bool
  fr_opcode :: u8
  fr_masked :: bool
  fr_mask_key :: "u8 list"
  fr_payload_len :: u64
  fr_payload :: "u8 list"

text \<open>The loops \<^verbatim>\<open>b ^ mask_key[i % 4]\<close> of both directions.\<close>

definition mask_bytes :: "u8 list \<Rightarrow> u8 list \<Rightarrow> u8 list" where
  "mask_bytes key bs = map (\<lambda>(i, b). b XOR key ! (i mod 4)) (enumerate 0 bs)"

definition test_mask_key :: "u8 list" where
  "test_mask_key = [0x12, 0x34, 0x56, 0x78]"

definition ws_length_bytes :: "(int \<Rightarrow> nat \<Rightarrow> int) \<Rightarrow> u8 \<Rightarrow> int \<Rightarrow> u8 list" where
  "ws_length_bytes wide mask_bit payload_len =
     (if payload_len \<le> 125 then [mask_bit OR word_of_int payload_len]
      else if payload_len \<le> 65535 then
        [mask_bit OR 126, word_of_int (v_shr wide payload_len 8), word_of_int (payload_len AND 0xFF)]
      else (mask_bit OR 127)
        # map (\<lambda>i. word_of_int (v_shr wide payload_len (i * 8) AND 0xFF)) [7, 6, 5, 4, 3, 2, 1, 0])"

definition encode_ws_frame :: "(int \<Rightarrow> nat \<Rightarrow> int) \<Rightarrow> u8 \<Rightarrow> u8 list \<Rightarrow> bool \<Rightarrow> u8 list" where
  "encode_ws_frame wide opcode payload masked =
     (0x80 OR (opcode AND 0x0F))
     # ws_length_bytes wide (if masked then 0x80 else 0) (int (length payload))
     @ (if masked then test_mask_key @ mask_bytes test_mask_key payload else payload)"

text \<open>The length field: the payload length and the offset of what follows.\<close>

definition decode_length :: "u8 list \<Rightarrow> (u64 \<times> int) v_result" where
  "decode_length data =
     (let payload_len = (ucast (data ! 1 AND 0x7F) :: u64) in
      if payload_len = 126 then
        (if length data < 4 then V_error ''Frame too short for extended length''
         else V_ok (push_bit 8 (ucast (data ! 2)) OR ucast (data ! 3), 4))
      else if payload_len = 127 then
        (if length data < 10 then V_error ''Frame too short for 64-bit length''
         else V_ok (foldl (\<lambda>acc i. push_bit 8 acc OR ucast (data ! (2 + i))) 0 [0, 1, 2, 3, 4, 5, 6, 7], 10))
      else V_ok (payload_len, 2))"

definition decode_mask_key :: "u8 list \<Rightarrow> bool \<Rightarrow> int \<Rightarrow> (u8 list \<times> int) v_result" where
  "decode_mask_key data masked offset =
     (if masked then
        (if int (length data) < offset + 4 then V_error ''Frame too short for mask key''
         else V_ok (map (\<lambda>i. data ! (nat offset + i)) [0, 1, 2, 3], offset + 4))
      else V_ok ([0, 0, 0, 0], offset))"

text \<open>\<^verbatim>\<open>data[a..b]\<close>\<close>

definition v_slice :: "'a list \<Rightarrow> int \<Rightarrow> int \<Rightarrow> 'a list v_result" where
  "v_slice xs a b = (if 0 \<le> a \<and> a \<le> b \<and> b \<le> int (length xs) then V_ok (take (nat (b - a)) (drop (nat a) xs)) else V_panic)"

definition decode_ws_frame :: "u8 list \<Rightarrow> ws_frame v_result" where
  "decode_ws_frame data =
     (if length data < 2 then V_error ''Frame too short''
      else
        let fin = (data ! 0 AND 0x80 \<noteq> 0); opcode = data ! 0 AND 0x0F; masked = (data ! 1 AND 0x80 \<noteq> 0) in
        v_and_then (decode_length data) (\<lambda>(payload_len, offset).
        v_and_then (decode_mask_key data masked offset) (\<lambda>(mask_key, offset).
        let end = wrap_i32 (offset + wrap_i32 (uint payload_len)) in
        if int (length data) < end then V_error ''Frame too short for payload''
        else v_and_then (v_slice data offset end) (\<lambda>payload.
          V_ok \<lparr>fr_fin = fin, fr_opcode = opcode, fr_masked = masked, fr_mask_key = mask_key,
                fr_payload_len = payload_len,
                fr_payload = (if masked then mask_bytes mask_key payload else payload)\<rparr>))))"

section \<open>Masking\<close>

lemma length_mask_bytes [simp]: "length (mask_bytes key bs) = length bs"
  by (simp add: mask_bytes_def)

lemma nth_mask_bytes: "i < length bs \<Longrightarrow> mask_bytes key bs ! i = bs ! i XOR key ! (i mod 4)"
  by (simp add: mask_bytes_def nth_enumerate_eq)

lemma mask_bytes_twice [simp]: "mask_bytes key (mask_bytes key bs) = bs"
  by (rule nth_equalityI) (simp_all add: nth_mask_bytes xor.assoc)

section \<open>The length field\<close>

lemma and_0x7F: "w AND 0x7F = take_bit 7 (w :: u8)"
  by (simp add: take_bit_eq_mask mask_eq_exp_minus_1)

lemma mask_bit_or:
  fixes w :: u8
  assumes "unat w < 128" and "mb \<in> {0, 0x80}"
  shows "(mb OR w) AND 0x7F = w" and "(mb OR w) AND 0x80 = mb"
proof -
  have w: "take_bit 7 w = w"
    by (rule word_unat_eq_iff [THEN iffD2]) (use assms(1) in \<open>simp add: unsigned_take_bit_eq take_bit_nat_eq_self\<close>)
  have "take_bit 7 mb = 0"
    using assms(2) by auto
  with w show "(mb OR w) AND 0x7F = w"
    by (simp add: and_0x7F take_bit_or)
  have "w AND 0x80 = take_bit 7 w AND 0x80"
    by (simp add: w)
  also have "\<dots> = w AND (0x7F AND 0x80)"
    by (simp add: and_0x7F [symmetric] and.assoc)
  finally have "w AND 0x80 = 0" by simp
  then show "(mb OR w) AND 0x80 = mb"
    using assms(2) by (auto simp: bit.conj_disj_distrib2)
qed

lemma push_byte:
  "push_bit 8 a OR ucast (b :: u8) = (256 * a + ucast b :: u64)"
proof -
  have "push_bit 8 a OR ucast b = push_bit 8 a + (ucast b :: u64)"
    by (rule disjunctive_add [symmetric]) (auto simp: bit_push_bit_iff bit_ucast_iff dest: bit_imp_le_length)
  then show ?thesis by (simp add: push_bit_eq_mult mult.commute)
qed

lemma ucast_low_byte: "ucast (word_of_int (z AND 0xFF) :: u8) = (word_of_int (z mod 256) :: u64)"
proof -
  have "z AND 0xFF = z mod 256"
    using take_bit_eq_mask [of 8 z] by (simp add: take_bit_eq_mod mask_eq_exp_minus_1)
  then show ?thesis by (simp add: unsigned_of_int take_bit_eq_mod)
qed

lemma push_low_byte:
  "push_bit 8 (a + word_of_int (drop_bit 8 z)) OR ucast (word_of_int (z AND 0xFF) :: u8)
     = (256 * a + word_of_int z :: u64)"
proof -
  have "256 * word_of_int (z div 256) + word_of_int (z mod 256) = (word_of_int (256 * (z div 256) + z mod 256) :: u64)"
    by (simp only: of_int_add of_int_mult of_int_numeral)
  then show ?thesis
    unfolding push_byte unfolding ucast_low_byte by (simp add: drop_bit_eq_div algebra_simps)
qed

lemma push_four_bytes:
  "foldl (\<lambda>acc i. push_bit 8 acc OR ucast (word_of_int (drop_bit (i * 8) x AND 0xFF) :: u8))
     (a + word_of_int (drop_bit 32 x)) [3, 2, 1, 0] = (2 ^ 32 * a + word_of_int x :: u64)"
proof -
  note step = push_low_byte [of a "drop_bit 24 x"] push_low_byte [of "256 * a" "drop_bit 16 x"]
    push_low_byte [of "256 * (256 * a)" "drop_bit 8 x"] push_low_byte [of "256 * (256 * (256 * a))" x]
  have "drop_bit (3 * 8) x = drop_bit 24 x" "drop_bit (2 * 8) x = drop_bit 16 x" "drop_bit (1 * 8) x = drop_bit 8 x"
    "drop_bit (0 * 8) x = x" by simp_all
  then show ?thesis
    using step by (simp only: foldl.simps drop_bit_drop_bit) simp
qed


text \<open>The announced length: the encoder's shifts by 32 to 56 bits fill the upper half.\<close>

definition announced_length :: "(int \<Rightarrow> nat \<Rightarrow> int) \<Rightarrow> nat \<Rightarrow> u64" where
  "announced_length wide n =
     (if n \<le> 65535 then of_nat n
      else 2 ^ 32 * foldl (\<lambda>acc i. push_bit 8 acc OR ucast (word_of_int (wide (int n) (i * 8) AND 0xFF) :: u8)) 0 [7, 6, 5, 4]
        + of_nat n)"

lemma length_ws_length_bytes:
  "length (ws_length_bytes wide mb (int n)) = (if n \<le> 125 then 1 else if n \<le> 65535 then 3 else 9)"
  by (simp add: ws_length_bytes_def)

lemma mask_bit_seen:
  assumes "mb \<in> {0, 0x80}"
  shows "(b # ws_length_bytes wide mb (int n) @ rest) ! 1 AND 0x80 = mb"
  using assms mask_bit_or(2) [OF _ assms, of 126] mask_bit_or(2) [OF _ assms, of 127]
    mask_bit_or(2) [OF _ assms, of "of_nat n"]
  by (simp add: ws_length_bytes_def unat_of_nat)

lemma decode_length_encoded:
  assumes mb: "mb \<in> {0, 0x80}" and n: "n < 2 ^ 32"
  shows "decode_length (b # ws_length_bytes wide mb (int n) @ rest)
     = V_ok (announced_length wide n, 1 + int (length (ws_length_bytes wide mb (int n))))"
proof -
  consider "n \<le> 125" | "125 < n" "n \<le> 65535" | "65535 < n" by linarith
  then show ?thesis
  proof cases
    case 1
    have "of_nat n \<noteq> (126 :: u64)" "of_nat n \<noteq> (127 :: u64)"
      using 1 by (simp_all add: word_unat_eq_iff unat_of_nat)
    then show ?thesis
      using 1 mask_bit_or(1) [OF _ mb, of "of_nat n"]
      by (simp add: ws_length_bytes_def decode_length_def announced_length_def unat_of_nat unsigned_of_nat
          take_bit_nat_eq_self)
  next
    case 2
    have hi: "ucast (word_of_int (drop_bit 8 (int n)) :: u8) = (word_of_int (drop_bit 8 (int n)) :: u64)"
      using 2 by (simp add: unsigned_of_int drop_bit_eq_div take_bit_eq_mod)
    show ?thesis
      using 2 mask_bit_or(1) [OF _ mb, of 126] push_low_byte [of 0 "int n"] hi
      by (simp add: ws_length_bytes_def decode_length_def announced_length_def v_shr_def)
  next
    case 3
    have "drop_bit 32 (int n) = 0" using n by (simp add: drop_bit_eq_div)
    with push_four_bytes [of "int n"
        "foldl (\<lambda>acc i. push_bit 8 acc OR ucast (word_of_int (wide (int n) (i * 8) AND 0xFF) :: u8)) 0 [7, 6, 5, 4]"]
    show ?thesis
      using 3 mask_bit_or(1) [OF _ mb, of 127]
      by (simp add: ws_length_bytes_def decode_length_def announced_length_def v_shr_def)
  qed
qed


lemma announced_length_mod32: "65535 < n \<Longrightarrow> n < 2 ^ 32 \<Longrightarrow> announced_length wide_mod32 n = (2 ^ 32 + 1) * of_nat n"
proof -
  assume n: "65535 < n" "n < 2 ^ 32"
  have w: "wide_mod32 x 56 = drop_bit 24 x" "wide_mod32 x 48 = drop_bit 16 x" "wide_mod32 x 40 = drop_bit 8 x"
    "wide_mod32 x 32 = x" for x
    unfolding wide_mod32_def by (simp_all del: Suc_eq_numeral)
  have "drop_bit 32 (int n) = 0" using n by (simp add: drop_bit_eq_div)
  then show ?thesis
    using n push_four_bytes [of "int n" 0] by (simp add: announced_length_def w distrib_right)
qed


section \<open>The round trip\<close>

lemma decode_mask_key_encoded:
  assumes "data = pre @ (if masked then test_mask_key @ body else body)" and "offset = int (length pre)"
  shows "decode_mask_key data masked offset
     = (if masked then V_ok (test_mask_key, offset + 4) else V_ok ([0, 0, 0, 0], offset))"
  using assms by (simp add: decode_mask_key_def test_mask_key_def nth_append)

lemma wrap_i32_uint_announced:
  assumes "n < 2 ^ 31"
  shows "wrap_i32 (uint (announced_length wide n)) = int n"
proof -
  define hi :: u64 where "hi = (if n \<le> 65535 then 0
    else foldl (\<lambda>acc i. push_bit 8 acc OR ucast (word_of_int (wide (int n) (i * 8) AND 0xFF) :: u8)) 0 [7, 6, 5, 4])"
  have "announced_length wide n = word_of_int (2 ^ 32 * uint hi + int n)"
    by (simp add: announced_length_def hi_def)
  then have "uint (announced_length wide n) = (2 ^ 32 * uint hi + int n) mod 2 ^ 64"
    by (simp only: unsigned_of_int take_bit_eq_mod) simp
  then have "uint (announced_length wide n) mod 2 ^ 32 = (2 ^ 32 * uint hi + int n) mod 2 ^ 32"
    by (simp add: mod_mod_cancel)
  then have m: "uint (announced_length wide n) mod 2 ^ 32 = int n"
    using assms by simp
  have "wrap_i32 (uint (announced_length wide n)) = wrap_i32 (uint (announced_length wide n) mod 2 ^ 32)"
    by (simp add: wrap_i32_def mod_add_left_eq)
  with m assms show ?thesis by (simp add: wrap_i32_id)
qed

lemma decode_encode:
  assumes "length payload + 14 < 2 ^ 31"
  shows "decode_ws_frame (encode_ws_frame wide opcode payload masked @ rest) = V_ok
     \<lparr>fr_fin = True, fr_opcode = opcode AND 0x0F, fr_masked = masked,
      fr_mask_key = (if masked then test_mask_key else [0, 0, 0, 0]),
      fr_payload_len = announced_length wide (length payload), fr_payload = payload\<rparr>"
proof -
  let ?n = "length payload"
  define mb :: u8 where "mb = (if masked then 0x80 else 0)"
  define b :: u8 where "b = 0x80 OR (opcode AND 0x0F)"
  define hdr where "hdr = ws_length_bytes wide mb (int ?n)"
  define body where "body = (if masked then mask_bytes test_mask_key payload else payload) @ rest"
  define data where "data = b # hdr @ (if masked then test_mask_key @ body else body)"
  have mb: "mb \<in> {0, 0x80}" by (simp add: mb_def)
  have len: "length hdr \<in> {1, 3, 9}" by (simp add: hdr_def length_ws_length_bytes)
  have data: "encode_ws_frame wide opcode payload masked @ rest = data"
    by (simp add: encode_ws_frame_def data_def b_def hdr_def mb_def body_def)
  have l: "decode_length data = V_ok (announced_length wide ?n, 1 + int (length hdr))"
    using decode_length_encoded [OF mb] assms by (simp add: data_def hdr_def)
  have seen: "(data ! 1 AND 0x80 \<noteq> 0) = masked"
    using mask_bit_seen [OF mb] by (simp add: data_def hdr_def) (simp add: mb_def)
  have fin: "b AND 0x80 \<noteq> 0" "b AND 0x0F = opcode AND 0x0F"
  proof -
    have "b AND 0x80 = 0x80" "b AND 0x0F = opcode AND 0x0F"
      by (simp_all add: b_def bit.conj_disj_distrib2 and.assoc)
    then show "b AND 0x80 \<noteq> 0" "b AND 0x0F = opcode AND 0x0F" by simp_all
  qed
  define off where "off = 1 + int (length hdr) + (if masked then 4 else 0)"
  have k: "decode_mask_key data masked (1 + int (length hdr))
      = V_ok (if masked then test_mask_key else [0, 0, 0, 0], off)"
    using decode_mask_key_encoded [of data "b # hdr" masked body "1 + int (length hdr)"]
    by (simp add: data_def off_def)
  have drop: "drop (nat off) data = body"
    by (simp add: off_def data_def nat_add_distrib test_mask_key_def)
  have e: "wrap_i32 (off + wrap_i32 (uint (announced_length wide ?n))) = off + int ?n"
    using assms len by (subst wrap_i32_uint_announced) (auto simp: off_def intro!: wrap_i32_id)
  have "int (length data) = off + int (length body)"
    by (simp add: off_def data_def test_mask_key_def)
  then have "off + int ?n \<le> int (length data)" by (simp add: body_def)
  then have s: "v_slice data off (off + int ?n) = V_ok (if masked then mask_bytes test_mask_key payload else payload)"
    using drop by (simp add: v_slice_def off_def body_def)
  have 0: "data ! 0 = b" "\<not> length data < 2" using len by (auto simp: data_def)
  show ?thesis
    using fin s \<open>off + int ?n \<le> int (length data)\<close>
    by (simp only: data decode_ws_frame_def l k e 0 seen Let_def v_and_then_simps prod.case) simp
qed


section \<open>What decoding does with arbitrary bytes\<close>

text \<open>The header as a whole: announced length, masking key and the offset of the payload.\<close>

definition ws_header :: "u8 list \<Rightarrow> (u64 \<times> u8 list \<times> int) v_result" where
  "ws_header data =
     (if length data < 2 then V_error ''Frame too short''
      else v_and_then (decode_length data) (\<lambda>(len, offset).
        v_and_then (decode_mask_key data (data ! 1 AND 0x80 \<noteq> 0) offset) (\<lambda>(key, offset). V_ok (len, key, offset))))"

text \<open>The outcome in terms of the low half of the announced length.\<close>

definition ws_decode_spec :: "u8 list \<Rightarrow> ws_frame v_result" where
  "ws_decode_spec data = v_and_then (ws_header data) (\<lambda>(len, key, offset).
     let low = uint len mod 2 ^ 32; masked = (data ! 1 AND 0x80 \<noteq> 0);
         payload = take (nat low) (drop (nat offset) data)
     in if 2 ^ 31 \<le> offset + low then V_panic
        else if int (length data) < offset + low then V_error ''Frame too short for payload''
        else V_ok \<lparr>fr_fin = (data ! 0 AND 0x80 \<noteq> 0), fr_opcode = data ! 0 AND 0x0F, fr_masked = masked,
               fr_mask_key = key, fr_payload_len = len,
               fr_payload = (if masked then mask_bytes key payload else payload)\<rparr>)"

lemma decode_length_offset:
  "2 \<le> length data \<Longrightarrow> decode_length data = V_ok (len, off) \<Longrightarrow> off \<in> {2, 4, 10} \<and> off \<le> int (length data)"
  by (auto simp: decode_length_def Let_def split: if_splits)

lemma decode_mask_key_offset:
  "decode_mask_key data masked off = V_ok (key, off') \<Longrightarrow> off \<le> int (length data)
     \<Longrightarrow> off' \<in> {off, off + 4} \<and> off' \<le> int (length data)"
  by (auto simp: decode_mask_key_def split: if_splits)

lemma wrap_i32_cases:
  assumes "0 \<le> x"
  shows "wrap_i32 x = (if x mod 2 ^ 32 < 2 ^ 31 then x mod 2 ^ 32 else x mod 2 ^ 32 - 2 ^ 32)"
proof -
  have "wrap_i32 x = wrap_i32 (x mod 2 ^ 32)"
    by (simp add: wrap_i32_def mod_add_left_eq)
  also have "\<dots> = (if x mod 2 ^ 32 < 2 ^ 31 then x mod 2 ^ 32 else x mod 2 ^ 32 - 2 ^ 32)"
  proof (cases "x mod 2 ^ 32 < 2 ^ 31")
    case False
    have "x mod 2 ^ 32 < 2 ^ 32" by simp
    with False have "(x mod 2 ^ 32 + 2 ^ 31 - 2 ^ 32) mod 2 ^ 32 = x mod 2 ^ 32 + 2 ^ 31 - 2 ^ 32"
      by (intro mod_pos_pos_trivial) simp_all
    then have "(x mod 2 ^ 32 + 2 ^ 31) mod 2 ^ 32 = x mod 2 ^ 32 + 2 ^ 31 - 2 ^ 32"
      by (simp only: minus_mod_self2)
    with False show ?thesis by (simp only: wrap_i32_def if_False)
  qed (simp add: wrap_i32_id)
  finally show ?thesis .
qed

lemma wrapped_end:
  fixes len :: u64
  assumes "2 \<le> offset" "offset \<le> 14"
  defines "low \<equiv> uint len mod 2 ^ 32"
  shows "wrap_i32 (offset + wrap_i32 (uint len)) = (if offset + low < 2 ^ 31 then offset + low
     else if low < 2 ^ 31 then offset + low - 2 ^ 32 else offset + (low - 2 ^ 32))"
proof -
  have low: "0 \<le> low" "low < 2 ^ 32" by (simp_all add: low_def)
  have w: "wrap_i32 (uint len) = (if low < 2 ^ 31 then low else low - 2 ^ 32)"
    by (simp add: wrap_i32_cases low_def)
  show ?thesis
  proof (cases "low < 2 ^ 31")
    case True
    then have "(offset + low) mod 2 ^ 32 = offset + low"
      using assms(1,2) low by (intro mod_pos_pos_trivial) simp_all
    with True assms(1,2) low show ?thesis by (simp add: w wrap_i32_cases)
  next
    case False
    with assms(1,2) low show ?thesis by (simp add: w wrap_i32_id)
  qed
qed


section \<open>Close frames\<close>

definition ws_close_normal :: int where "ws_close_normal = 1000"
definition ws_close_going_away :: int where "ws_close_going_away = 1001"
definition ws_close_protocol_error :: int where "ws_close_protocol_error = 1002"
definition ws_close_unsupported_data :: int where "ws_close_unsupported_data = 1003"
definition ws_close_invalid_payload :: int where "ws_close_invalid_payload = 1007"
definition ws_close_policy_violation :: int where "ws_close_policy_violation = 1008"
definition ws_close_message_too_big :: int where "ws_close_message_too_big = 1009"
definition ws_close_internal_error :: int where "ws_close_internal_error = 1011"

definition close_payload :: "int \<Rightarrow> string \<Rightarrow> u8 list" where
  "close_payload code reason = [word_of_int (drop_bit 8 code), word_of_int (code AND 0xFF)] @ v_bytes reason"

definition build_close_frame :: "(int \<Rightarrow> nat \<Rightarrow> int) \<Rightarrow> int \<Rightarrow> string \<Rightarrow> u8 list" where
  "build_close_frame wide code reason = encode_ws_frame wide ws_opcode_close (close_payload code reason) False"

definition parse_close_frame :: "u8 list \<Rightarrow> int \<times> string" where
  "parse_close_frame payload =
     (if length payload \<ge> 2 then
        (sint (push_bit 8 (ucast (payload ! 0)) :: 32 word) OR uint (payload ! 1),
         if length payload > 2 then v_bytestr (drop 2 payload) else '''')
      else (ws_close_normal, ''''))"

definition is_valid_close_code :: "int \<Rightarrow> bool" where
  "is_valid_close_code code =
     (if code < 1000 then False
      else if code \<ge> 1004 \<and> code \<le> 1006 then False
      else if code \<ge> 1012 \<and> code \<le> 2999 then False
      else if code > 4999 then False
      else True)"

definition build_ping_frame :: "(int \<Rightarrow> nat \<Rightarrow> int) \<Rightarrow> u8 list \<Rightarrow> u8 list" where
  "build_ping_frame wide payload = encode_ws_frame wide ws_opcode_ping payload False"

definition build_pong_frame :: "(int \<Rightarrow> nat \<Rightarrow> int) \<Rightarrow> u8 list \<Rightarrow> u8 list" where
  "build_pong_frame wide payload = encode_ws_frame wide ws_opcode_pong payload False"

definition is_ping_frame :: "ws_frame \<Rightarrow> bool" where
  "is_ping_frame frame \<longleftrightarrow> fr_opcode frame = ws_opcode_ping"

definition is_pong_frame :: "ws_frame \<Rightarrow> bool" where
  "is_pong_frame frame \<longleftrightarrow> fr_opcode frame = ws_opcode_pong"

lemma parse_close_payload:
  assumes "0 \<le> code" "code < 65536"
  shows "parse_close_frame (close_payload code reason) = (code, reason)"
proof -
  have lo: "uint (word_of_int (code AND 0xFF) :: u8) = code mod 256"
    using take_bit_eq_mask [of 8 code] by (simp add: unsigned_of_int take_bit_eq_mod mask_eq_exp_minus_1)
  have "sint (push_bit 8 (ucast (word_of_int (drop_bit 8 code) :: u8)) :: 32 word) = push_bit 8 (code div 256)"
  proof -
    have "(ucast (word_of_int (drop_bit 8 code) :: u8) :: 32 word) = word_of_int (code div 256)"
      using assms by (simp add: unsigned_of_int drop_bit_eq_div take_bit_eq_mod)
    then have "push_bit 8 (ucast (word_of_int (drop_bit 8 code) :: u8)) = (word_of_int (256 * (code div 256)) :: 32 word)"
      by (simp add: push_bit_eq_mult mult.commute)
    moreover have "sint (word_of_int z :: 32 word) = z" if "0 \<le> z" "z < 2 ^ 31" for z
      using that by (simp add: signed_of_int signed_take_bit_int_eq_self)
    moreover have "0 \<le> 256 * (code div 256)" "256 * (code div 256) < 2 ^ 31" using assms by auto
    ultimately have "sint (push_bit 8 (ucast (word_of_int (drop_bit 8 code) :: u8)) :: 32 word) = 256 * (code div 256)"
      by (simp only:)
    then show ?thesis by (simp add: push_bit_eq_mult mult.commute)
  qed
  moreover have "push_bit 8 (code div 256) OR code mod 256 = code"
  proof -
    have "push_bit 8 (code div 256) OR code mod 256 = push_bit 8 (drop_bit 8 code) OR take_bit 8 code"
      by (simp add: drop_bit_eq_div take_bit_eq_mod)
    also have "\<dots> = code"
      by (rule bit_eqI) (auto simp: bit_simps)
    finally show ?thesis .
  qed
  moreover have "v_bytestr (v_bytes reason) = reason" by simp
  ultimately show ?thesis
    by (auto simp: parse_close_frame_def close_payload_def lo)
qed


section \<open>Properties\<close>


lemma decode_ws_frame_header:
  "decode_ws_frame data = v_and_then (ws_header data) (\<lambda>(len, key, off).
     let end = wrap_i32 (off + wrap_i32 (uint len)); masked = (data ! 1 AND 0x80 \<noteq> 0) in
     if int (length data) < end then V_error ''Frame too short for payload''
     else v_and_then (v_slice data off end) (\<lambda>payload.
       V_ok \<lparr>fr_fin = (data ! 0 AND 0x80 \<noteq> 0), fr_opcode = data ! 0 AND 0x0F, fr_masked = masked,
             fr_mask_key = key, fr_payload_len = len,
             fr_payload = (if masked then mask_bytes key payload else payload)\<rparr>))"
proof (cases "decode_length data")
  case (V_ok x)
  obtain len off where "x = (len, off)" by (cases x)
  with V_ok show ?thesis
    by (cases "decode_mask_key data (data ! 1 AND 0x80 \<noteq> 0) off")
      (auto simp: decode_ws_frame_def ws_header_def Let_def)
qed (auto simp: decode_ws_frame_def ws_header_def)

lemma ws_header_offset:
  assumes h: "ws_header data = V_ok (len, key, off)"
  shows "2 \<le> off" "off \<le> 14" "off \<le> int (length data)"
proof -
  from h obtain off0 where l: "2 \<le> length data" "decode_length data = V_ok (len, off0)"
    and k: "decode_mask_key data (data ! 1 AND 0x80 \<noteq> 0) off0 = V_ok (key, off)"
    by (auto simp: ws_header_def v_and_then_def split: if_splits v_result.splits prod.splits)
  show "2 \<le> off" "off \<le> 14" "off \<le> int (length data)"
    using decode_length_offset [OF l] decode_mask_key_offset [OF k] by auto
qed

lemma decode_outcome: "decode_ws_frame data = ws_decode_spec data"
proof (cases "\<exists>len key off. ws_header data = V_ok (len, key, off)")
  case False
  then show ?thesis
    by (cases "ws_header data") (auto simp: decode_ws_frame_header ws_decode_spec_def)
next
  case True
  then obtain len key off where h: "ws_header data = V_ok (len, key, off)" by blast
  let ?masked = "data ! 1 AND 0x80 \<noteq> 0"
  note off = ws_header_offset [OF h]
  define low where "low = uint len mod 2 ^ 32"
  have low: "0 \<le> low" "low < 2 ^ 32" by (simp_all add: low_def)
  have slice: "v_slice data off stop = (if off \<le> stop \<and> stop \<le> int (length data) then V_ok (take (nat (stop - off)) (drop (nat off) data)) else V_panic)" for stop
    using off by (simp add: v_slice_def)
  note e = wrapped_end [OF off(1,2), of len, folded low_def]
  have spec: "ws_decode_spec data = (let payload = take (nat low) (drop (nat off) data) in
      if 2 ^ 31 \<le> off + low then V_panic
      else if int (length data) < off + low then V_error ''Frame too short for payload''
      else V_ok \<lparr>fr_fin = (data ! 0 AND 0x80 \<noteq> 0), fr_opcode = data ! 0 AND 0x0F, fr_masked = ?masked,
             fr_mask_key = key, fr_payload_len = len,
             fr_payload = (if ?masked then mask_bytes key payload else payload)\<rparr>)"
    by (simp add: ws_decode_spec_def h low_def Let_def)
  show ?thesis
  proof (cases "off + low < 2 ^ 31")
    case True
    then show ?thesis
      using low by (simp add: decode_ws_frame_header h e slice spec Let_def)
  next
    case False
    then have "wrap_i32 (off + wrap_i32 (uint len)) < off"
      using e low off by (simp split: if_splits)
    moreover have "ws_decode_spec data = V_panic"
      using False by (simp add: spec)
    ultimately show ?thesis
      using off by (simp add: decode_ws_frame_header h slice Let_def)
  qed
qed




text \<open>On processors that take shift counts modulo 32 a payload of 65536 bytes or more is announced
  with its length in both halves of the 64-bit field.\<close>

theorem ws_long_frame_announces_wrong_length:
  assumes "65536 \<le> length payload" and "length payload + 14 < 2 ^ 31"
  shows "decode_length (encode_ws_frame wide_mod32 opcode payload masked)
     = V_ok ((2 ^ 32 + 1) * of_nat (length payload), 10)"
proof -
  let ?mb = "(if masked then 0x80 else 0) :: u8"
  have "decode_length (encode_ws_frame wide_mod32 opcode payload masked)
      = V_ok (announced_length wide_mod32 (length payload),
          1 + int (length (ws_length_bytes wide_mod32 ?mb (int (length payload)))))"
    unfolding encode_ws_frame_def by (rule decode_length_encoded) (use assms in simp_all)
  with assms show ?thesis by (simp add: announced_length_mod32 length_ws_length_bytes)
qed

text \<open>C28: the outcome of decoding for every sequence of bytes.  An incomplete header is an error, a complete
  one gives a frame whose payload is as long as the low 32 bits of the announced length say, an error when
  there are fewer bytes, and a panic when these 32 bits, with the offset, leave the range of \<^verbatim>\<open>int\<close>.\<close>

theorem ws_decode_outcome: "decode_ws_frame data = ws_decode_spec data"
  by (rule decode_outcome)

text \<open>Ten bytes are enough for a panic, and a length above \<open>2 ^ 32\<close> is taken modulo \<open>2 ^ 32\<close>.\<close>

theorem ws_decode_panics: "decode_ws_frame [0x82, 0x7F, 0, 0, 0, 0, 0xFF, 0xFF, 0xFF, 0xFF] = V_panic"
  by code_simp

theorem ws_decode_truncates_length:
  "decode_ws_frame [0x82, 0x7F, 0, 0, 0, 1, 0, 0, 0, 2, 65, 66] = V_ok
     \<lparr>fr_fin = True, fr_opcode = 2, fr_masked = False, fr_mask_key = [0, 0, 0, 0],
      fr_payload_len = 2 ^ 32 + 2, fr_payload = [65, 66]\<rparr>"
  by code_simp

text \<open>A close frame carries its status code and its reason to the other side.\<close>

theorem ws_close_roundtrip:
  assumes "0 \<le> code" and "code < 65536" and "length reason + 16 < 2 ^ 31"
  shows "\<exists>f. decode_ws_frame (build_close_frame wide code reason @ rest) = V_ok f \<and> fr_fin f
     \<and> fr_opcode f = ws_opcode_close \<and> parse_close_frame (fr_payload f) = (code, reason)"
proof -
  have "length (close_payload code reason) + 14 < 2 ^ 31"
    using assms(3) by (simp add: close_payload_def)
  from decode_encode [OF this] show ?thesis
    using parse_close_payload [OF assms(1,2)] by (simp add: build_close_frame_def ws_opcodes)
qed

theorem ws_close_roundtrip_witness:
  "\<exists>f. decode_ws_frame (build_close_frame wide_mod32 1001 ''bye'' @ []) = V_ok f \<and> fr_fin f
     \<and> fr_opcode f = ws_opcode_close \<and> parse_close_frame (fr_payload f) = (1001, ''bye'')"
  by (rule ws_close_roundtrip) simp_all

text \<open>The close codes that are accepted.\<close>

theorem valid_close_codes:
  "is_valid_close_code code \<longleftrightarrow> code \<in> {1000..1003} \<union> {1007..1011} \<union> {3000..4999}"
  by (auto simp: is_valid_close_code_def)


section \<open>Facts for the connection\<close>

lemma decoded_length:
  assumes "decode_ws_frame data = V_ok f"
  shows "wrap_i32 (uint (fr_payload_len f)) = int (length (fr_payload f))"
proof -
  from assms obtain len key off where h: "ws_header data = V_ok (len, key, off)"
    by (cases "ws_header data") (auto simp: decode_outcome ws_decode_spec_def)
  define low where "low = uint len mod 2 ^ 32"
  note off = ws_header_offset [OF h]
  have low: "0 \<le> low" by (simp add: low_def)
  from assms h have c: "\<not> 2 ^ 31 \<le> off + low" "\<not> int (length data) < off + low"
    and f: "fr_payload_len f = len" "length (fr_payload f) = length (take (nat low) (drop (nat off) data))"
    by (auto simp: decode_outcome ws_decode_spec_def Let_def low_def split: if_splits)
  then have "int (length (fr_payload f)) = low" using off low by simp
  moreover have "wrap_i32 (uint len) = low"
    using c off low by (simp add: wrap_i32_cases low_def)
  ultimately show ?thesis by (simp add: f)
qed

end
