(* ===== verification/Ws_Context.thy ===== *)
theory Ws_Context
  imports Ws_Frame
begin

text \<open>
  The WebSocket connection of \<^verbatim>\<open>websocket.v\<close>: the state machine of \<^verbatim>\<open>WSContext\<close>, sending, the close
  handshake, ping and pong, and the processing of incoming frames.

  A connection is a record with the fields of \<^verbatim>\<open>WSContext\<close> (the pointers \<^verbatim>\<open>http_ctx\<close> and \<^verbatim>\<open>socket\<close>, which no
  function here follows, are left out) and the list of its effects: frames handed to \<^verbatim>\<open>send_fn\<close>, calls of
  \<^verbatim>\<open>close_fn\<close>, readings of the clock and changes of the state, in the order they happen.  \<^verbatim>\<open>send_fn\<close> and
  \<^verbatim>\<open>close_fn\<close> answer from the effects so far with success or an error message, the clock likewise.  User
  callbacks are functions on connections; the callback for state changes is stored in the connection
  itself, so it is kept as a name of type \<open>'h\<close> that the environment knows how to call.

  Shown here: every operation is a sequence of atomic actions, and so is every callback that works through
  the operations; from this, for all runs of the operations, the recorded history is a gap-free chain; and for runs that
  force no state other than closed, its steps are allowed changes, a closed connection stays closed, and nothing but close
  frames is sent after the connection has begun to close.
\<close>

unbundle bit_operations_syntax

section \<open>Connections\<close>

datatype ws_ready_state = WS_connecting | WS_open | WS_closing | WS_closed

record ws_state_change_event =
  sc_previous_state :: ws_ready_state
  sc_new_state :: ws_ready_state
  sc_timestamp :: int

record ws_message_event =
  me_data :: string
  me_data_bytes :: "u8 list"
  me_is_binary :: bool

record ws_close_event =
  ce_code :: int
  ce_reason :: string
  ce_was_clean :: bool

datatype ws_effect =
    E_send "u8 list" "string option"
  | E_close int string "string option"
  | E_time int
  | E_state ws_ready_state

record 'h ws_context =
  ws_params :: "(string, string) vmap"
  ws_query :: "(string, string) vmap"
  ws_store :: "(string, string) vmap"
  ws_ready_state :: ws_ready_state
  ws_protocol :: string
  ws_send_fn :: "(ws_effect list \<Rightarrow> u8 list \<Rightarrow> string option) option"
  ws_close_fn :: "(ws_effect list \<Rightarrow> int \<Rightarrow> string \<Rightarrow> string option) option"
  ws_on_state_change :: "'h option"
  ws_state_history :: "ws_state_change_event list"
  ws_ping_interval :: int
  ws_last_ping_sent :: int
  ws_last_pong_received :: int
  ws_pong_timeout :: int
  ws_awaiting_pong :: bool
  ws_effects :: "ws_effect list"

record 'h ws_env =
  we_wide :: "int \<Rightarrow> nat \<Rightarrow> int"
  we_now :: "ws_effect list \<Rightarrow> int"
  we_call :: "'h \<Rightarrow> ws_state_change_event \<Rightarrow> 'h ws_context \<Rightarrow> 'h ws_context"

record 'h ws_events =
  on_open :: "('h ws_context \<Rightarrow> 'h ws_context) option"
  on_message :: "(ws_message_event \<Rightarrow> 'h ws_context \<Rightarrow> 'h ws_context) option"
  on_close :: "(ws_close_event \<Rightarrow> 'h ws_context \<Rightarrow> 'h ws_context) option"
  on_error :: "(string \<Rightarrow> 'h ws_context \<Rightarrow> 'h ws_context) option"

text \<open>\<^verbatim>\<open>time.now().unix()\<close>, \<^verbatim>\<open>if ws.send_fn != nil { ws.send_fn(frame) }\<close> and the same for \<^verbatim>\<open>close_fn\<close>; the result
  is the error message, if any.\<close>

definition ws_effect :: "ws_effect \<Rightarrow> 'h ws_context \<Rightarrow> 'h ws_context" where
  "ws_effect e ws = ws\<lparr>ws_effects := ws_effects ws @ [e]\<rparr>"

definition ws_now :: "'h ws_env \<Rightarrow> 'h ws_context \<Rightarrow> int \<times> 'h ws_context" where
  "ws_now env ws = (let t = we_now env (ws_effects ws) in (t, ws_effect (E_time t) ws))"

definition ws_transmit :: "u8 list \<Rightarrow> 'h ws_context \<Rightarrow> string option \<times> 'h ws_context" where
  "ws_transmit frame ws =
     (case ws_send_fn ws of None \<Rightarrow> (None, ws)
      | Some f \<Rightarrow> let r = f (ws_effects ws) frame in (r, ws_effect (E_send frame r) ws))"

definition ws_call_close_fn :: "int \<Rightarrow> string \<Rightarrow> 'h ws_context \<Rightarrow> 'h ws_context" where
  "ws_call_close_fn code reason ws =
     (case ws_close_fn ws of None \<Rightarrow> ws
      | Some f \<Rightarrow> ws_effect (E_close code reason (f (ws_effects ws) code reason)) ws)"

section \<open>The state machine\<close>

fun is_valid_state_transition :: "ws_ready_state \<Rightarrow> ws_ready_state \<Rightarrow> bool" where
  "is_valid_state_transition WS_connecting to = (to = WS_open \<or> to = WS_closed)"
| "is_valid_state_transition WS_open to = (to = WS_closing \<or> to = WS_closed)"
| "is_valid_state_transition WS_closing to = (to = WS_closed)"
| "is_valid_state_transition WS_closed to = False"

text \<open>The common part of both transition functions: set the state, record the event, notify the handler.\<close>

definition ws_record_change :: "'h ws_env \<Rightarrow> ws_ready_state \<Rightarrow> 'h ws_context \<Rightarrow> ws_state_change_event \<times> 'h ws_context" where
  "ws_record_change env new_state ws =
     (let old_state = ws_ready_state ws;
          ws1 = ws_effect (E_state new_state) (ws\<lparr>ws_ready_state := new_state\<rparr>);
          (t, ws2) = ws_now env ws1;
          event = \<lparr>sc_previous_state = old_state, sc_new_state = new_state, sc_timestamp = t\<rparr>
      in (event, ws2\<lparr>ws_state_history := ws_state_history ws2 @ [event]\<rparr>))"

definition ws_change :: "'h ws_env \<Rightarrow> ws_ready_state \<Rightarrow> 'h ws_context \<Rightarrow> 'h ws_context" where
  "ws_change env new_state ws =
     (let (event, ws1) = ws_record_change env new_state ws in
      case ws_on_state_change ws1 of None \<Rightarrow> ws1 | Some h \<Rightarrow> we_call env h event ws1)"

definition transition_state :: "'h ws_env \<Rightarrow> ws_ready_state \<Rightarrow> 'h ws_context \<Rightarrow> bool \<times> 'h ws_context" where
  "transition_state env new_state ws =
     (if \<not> is_valid_state_transition (ws_ready_state ws) new_state then (False, ws)
      else (True, ws_change env new_state ws))"

definition force_transition_state :: "'h ws_env \<Rightarrow> ws_ready_state \<Rightarrow> 'h ws_context \<Rightarrow> 'h ws_context" where
  "force_transition_state env new_state ws = ws_change env new_state ws"

definition get_state_history :: "'h ws_context \<Rightarrow> ws_state_change_event list" where
  "get_state_history ws = ws_state_history ws"

definition ws_is_open :: "'h ws_context \<Rightarrow> bool" where
  "ws_is_open ws \<longleftrightarrow> ws_ready_state ws = WS_open"

definition ws_is_closed :: "'h ws_context \<Rightarrow> bool" where
  "ws_is_closed ws \<longleftrightarrow> ws_ready_state ws = WS_closed \<or> ws_ready_state ws = WS_closing"

definition ws_can_send :: "'h ws_context \<Rightarrow> bool" where
  "ws_can_send ws \<longleftrightarrow> ws_ready_state ws = WS_open"

definition set_state_change_handler :: "'h \<Rightarrow> 'h ws_context \<Rightarrow> 'h ws_context" where
  "set_state_change_handler handler ws = ws\<lparr>ws_on_state_change := Some handler\<rparr>"

section \<open>Sending\<close>

definition not_open_error :: string where
  "not_open_error = ''WebSocket connection is not open''"

definition ws_send :: "'h ws_env \<Rightarrow> string \<Rightarrow> 'h ws_context \<Rightarrow> string option \<times> 'h ws_context" where
  "ws_send env data ws =
     (if ws_ready_state ws \<noteq> WS_open then (Some not_open_error, ws)
      else ws_transmit (encode_ws_frame (we_wide env) ws_opcode_text (v_bytes data) False) ws)"

definition ws_send_bytes :: "'h ws_env \<Rightarrow> u8 list \<Rightarrow> 'h ws_context \<Rightarrow> string option \<times> 'h ws_context" where
  "ws_send_bytes env data ws =
     (if ws_ready_state ws \<noteq> WS_open then (Some not_open_error, ws)
      else ws_transmit (encode_ws_frame (we_wide env) ws_opcode_binary data False) ws)"

definition ws_send_json :: "'h ws_env \<Rightarrow> string \<Rightarrow> 'h ws_context \<Rightarrow> string option \<times> 'h ws_context" where
  "ws_send_json env data ws =
     (if ws_ready_state ws \<noteq> WS_open then (Some not_open_error, ws)
      else ws_transmit (encode_ws_frame (we_wide env) ws_opcode_text (v_bytes data) False) ws)"

definition ws_close :: "'h ws_env \<Rightarrow> int \<Rightarrow> string \<Rightarrow> 'h ws_context \<Rightarrow> 'h ws_context" where
  "ws_close env code reason ws =
     (if ws_ready_state ws = WS_closed \<or> ws_ready_state ws = WS_closing then ws
      else
        let (_, ws1) = transition_state env WS_closing ws;
            (_, ws2) = ws_transmit (build_close_frame (we_wide env) code reason) ws1
        in ws_call_close_fn code reason ws2)"

section \<open>The close handshake\<close>

definition handle_close_frame :: "'h ws_env \<Rightarrow> ws_frame \<Rightarrow> 'h ws_context \<Rightarrow> ws_close_event \<times> 'h ws_context" where
  "handle_close_frame env frame ws =
     (let (code, reason) = parse_close_frame (fr_payload frame);
          was_clean = is_valid_close_code code;
          ws2 = (if ws_ready_state ws = WS_open then
                   let (_, ws1) = transition_state env WS_closing ws
                   in snd (ws_transmit (build_close_frame (we_wide env) code reason) ws1)
                 else ws);
          (_, ws3) = transition_state env WS_closed ws2
      in (\<lparr>ce_code = code, ce_reason = reason, ce_was_clean = was_clean\<rparr>, ws3))"

definition initiate_close :: "'h ws_env \<Rightarrow> int \<Rightarrow> string \<Rightarrow> 'h ws_context \<Rightarrow> string option \<times> 'h ws_context" where
  "initiate_close env code reason ws =
     (if ws_ready_state ws \<noteq> WS_open then (Some ''Cannot initiate close: connection not open'', ws)
      else if \<not> is_valid_close_code code then (Some (''Invalid close code: '' @ v_str code), ws)
      else
        let (_, ws1) = transition_state env WS_closing ws
        in ws_transmit (build_close_frame (we_wide env) code reason) ws1)"

definition complete_close :: "'h ws_env \<Rightarrow> 'h ws_context \<Rightarrow> 'h ws_context" where
  "complete_close env ws = (if ws_ready_state ws = WS_closing then snd (transition_state env WS_closed ws) else ws)"

definition force_close :: "'h ws_env \<Rightarrow> int \<Rightarrow> string \<Rightarrow> 'h ws_context \<Rightarrow> 'h ws_context" where
  "force_close env code reason ws =
     (let ws1 = force_transition_state env WS_closed ws;
          (_, ws2) = ws_transmit (build_close_frame (we_wide env) code reason) ws1
      in ws_call_close_fn code reason ws2)"

section \<open>Ping and pong\<close>

definition send_ping :: "'h ws_env \<Rightarrow> u8 list \<Rightarrow> 'h ws_context \<Rightarrow> string option \<times> 'h ws_context" where
  "send_ping env payload ws =
     (if ws_ready_state ws \<noteq> WS_open then (Some not_open_error, ws)
      else if length payload > 125 then (Some ''Ping payload too large (max 125 bytes)'', ws)
      else
        let (r, ws1) = ws_transmit (encode_ws_frame (we_wide env) ws_opcode_ping payload False) ws in
        case r of Some e \<Rightarrow> (Some e, ws1)
        | None \<Rightarrow> let (t, ws2) = ws_now env ws1 in (None, ws2\<lparr>ws_last_ping_sent := t, ws_awaiting_pong := True\<rparr>))"

definition send_pong :: "'h ws_env \<Rightarrow> u8 list \<Rightarrow> 'h ws_context \<Rightarrow> string option \<times> 'h ws_context" where
  "send_pong env payload ws =
     (if ws_ready_state ws \<noteq> WS_open then (Some not_open_error, ws)
      else if length payload > 125 then (Some ''Pong payload too large (max 125 bytes)'', ws)
      else ws_transmit (encode_ws_frame (we_wide env) ws_opcode_pong payload False) ws)"

definition handle_ping :: "'h ws_env \<Rightarrow> u8 list \<Rightarrow> 'h ws_context \<Rightarrow> u8 list v_result \<times> 'h ws_context" where
  "handle_ping env payload ws =
     (if ws_ready_state ws \<noteq> WS_open then (V_error not_open_error, ws)
      else
        let pong_frame = encode_ws_frame (we_wide env) ws_opcode_pong payload False;
            (r, ws1) = ws_transmit pong_frame ws
        in (case r of Some e \<Rightarrow> V_error e | None \<Rightarrow> V_ok pong_frame, ws1))"

definition handle_pong :: "'h ws_env \<Rightarrow> u8 list \<Rightarrow> 'h ws_context \<Rightarrow> 'h ws_context" where
  "handle_pong env payload ws =
     (let (t, ws1) = ws_now env ws in ws1\<lparr>ws_last_pong_received := t, ws_awaiting_pong := False\<rparr>)"

definition is_pong_timeout :: "'h ws_env \<Rightarrow> 'h ws_context \<Rightarrow> bool" where
  "is_pong_timeout env ws =
     (if \<not> ws_awaiting_pong ws then False
      else if ws_pong_timeout ws \<le> 0 then False
      else fst (ws_now env ws) - ws_last_ping_sent ws > ws_pong_timeout ws div 1000)"

definition should_send_ping :: "'h ws_env \<Rightarrow> 'h ws_context \<Rightarrow> bool" where
  "should_send_ping env ws =
     (if ws_ping_interval ws \<le> 0 then False
      else if ws_ready_state ws \<noteq> WS_open then False
      else if ws_awaiting_pong ws then False
      else fst (ws_now env ws) - ws_last_ping_sent ws \<ge> ws_ping_interval ws div 1000)"

definition configure_ping :: "int \<Rightarrow> int \<Rightarrow> 'h ws_context \<Rightarrow> 'h ws_context" where
  "configure_ping interval timeout ws = ws\<lparr>ws_ping_interval := interval, ws_pong_timeout := timeout\<rparr>"

section \<open>Incoming frames\<close>

definition handle_ws_error :: "string \<Rightarrow> 'h ws_events \<Rightarrow> 'h ws_context \<Rightarrow> 'h ws_context" where
  "handle_ws_error error_msg events ws = (case on_error events of None \<Rightarrow> ws | Some f \<Rightarrow> f error_msg ws)"

definition validate_message_size :: "'h ws_env \<Rightarrow> ws_frame \<Rightarrow> int \<Rightarrow> 'h ws_events \<Rightarrow> 'h ws_context \<Rightarrow> bool \<times> 'h ws_context" where
  "validate_message_size env frame max_message_size events ws =
     (if fr_opcode frame \<noteq> ws_opcode_text \<and> fr_opcode frame \<noteq> ws_opcode_binary then (True, ws)
      else if max_message_size > 0 \<and> wrap_i32 (uint (fr_payload_len frame)) > max_message_size then
        let error_msg = ''Message size '' @ v_str (uint (fr_payload_len frame)) @ '' exceeds maximum allowed size ''
              @ v_str max_message_size;
            ws1 = (case on_error events of None \<Rightarrow> ws | Some f \<Rightarrow> f error_msg ws)
        in (False, force_close env ws_close_message_too_big ''Message too big'' ws1)
      else (True, ws))"

definition process_ws_message :: "'h ws_env \<Rightarrow> ws_frame \<Rightarrow> 'h ws_events \<Rightarrow> 'h ws_context \<Rightarrow> 'h ws_context" where
  "process_ws_message env frame events ws =
     (if fr_opcode frame = ws_opcode_text then
        (case on_message events of None \<Rightarrow> ws
         | Some f \<Rightarrow> f \<lparr>me_data = v_bytestr (fr_payload frame), me_data_bytes = fr_payload frame, me_is_binary = False\<rparr> ws)
      else if fr_opcode frame = ws_opcode_binary then
        (case on_message events of None \<Rightarrow> ws
         | Some f \<Rightarrow> f \<lparr>me_data = '''', me_data_bytes = fr_payload frame, me_is_binary = True\<rparr> ws)
      else if fr_opcode frame = ws_opcode_close then
        (let (close_event, ws1) = handle_close_frame env frame ws in
         case on_close events of None \<Rightarrow> ws1 | Some f \<Rightarrow> f close_event ws1)
      else if fr_opcode frame = ws_opcode_ping then
        (let (r, ws1) = handle_ping env (fr_payload frame) ws in
         case r of V_error e \<Rightarrow> (case on_error events of None \<Rightarrow> ws1 | Some f \<Rightarrow> f (''Failed to send pong: '' @ e) ws1)
         | _ \<Rightarrow> ws1)
      else if fr_opcode frame = ws_opcode_pong then handle_pong env (fr_payload frame) ws
      else (case on_error events of None \<Rightarrow> ws | Some f \<Rightarrow> f (''Unknown opcode: '' @ v_str (uint (fr_opcode frame))) ws))"

definition process_ws_message_with_validation ::
  "'h ws_env \<Rightarrow> ws_frame \<Rightarrow> int \<Rightarrow> 'h ws_events \<Rightarrow> 'h ws_context \<Rightarrow> bool \<times> 'h ws_context" where
  "process_ws_message_with_validation env frame max_message_size events ws =
     (let (ok, ws1) = validate_message_size env frame max_message_size events ws in
      if \<not> ok then (False, ws1) else (True, process_ws_message env frame events ws1))"

definition create_ws_context ::
  "(string, string) vmap \<Rightarrow> (string, string) vmap \<Rightarrow> (string, string) vmap \<Rightarrow> string \<Rightarrow> 'h ws_context" where
  "create_ws_context params query store protocol =
     \<lparr>ws_params = params, ws_query = query, ws_store = store, ws_ready_state = WS_connecting, ws_protocol = protocol,
      ws_send_fn = None, ws_close_fn = None, ws_on_state_change = None, ws_state_history = [],
      ws_ping_interval = 0, ws_last_ping_sent = 0, ws_last_pong_received = 0, ws_pong_timeout = 0,
      ws_awaiting_pong = False, ws_effects = []\<rparr>"

section \<open>Runs of operations\<close>

text \<open>All public operations on a connection, and the assignment of its public field \<^verbatim>\<open>ready_state\<close>, which
  \<^verbatim>\<open>upgrade_websocket\<close> makes.\<close>

datatype 'h ws_op =
    Op_send string | Op_send_bytes "u8 list" | Op_send_json string
  | Op_close int string | Op_initiate_close int string | Op_complete_close | Op_force_close int string
  | Op_send_ping "u8 list" | Op_send_pong "u8 list" | Op_handle_ping "u8 list" | Op_handle_pong "u8 list"
  | Op_configure_ping int int | Op_set_handler 'h | Op_transition ws_ready_state
  | Op_force_transition ws_ready_state | Op_assign_state ws_ready_state
  | Op_receive ws_frame int

fun ws_exec :: "'h ws_env \<Rightarrow> 'h ws_events \<Rightarrow> 'h ws_op \<Rightarrow> 'h ws_context \<Rightarrow> 'h ws_context" where
  "ws_exec env ev (Op_send s) ws = snd (ws_send env s ws)"
| "ws_exec env ev (Op_send_bytes b) ws = snd (ws_send_bytes env b ws)"
| "ws_exec env ev (Op_send_json s) ws = snd (ws_send_json env s ws)"
| "ws_exec env ev (Op_close c r) ws = ws_close env c r ws"
| "ws_exec env ev (Op_initiate_close c r) ws = snd (initiate_close env c r ws)"
| "ws_exec env ev Op_complete_close ws = complete_close env ws"
| "ws_exec env ev (Op_force_close c r) ws = force_close env c r ws"
| "ws_exec env ev (Op_send_ping p) ws = snd (send_ping env p ws)"
| "ws_exec env ev (Op_send_pong p) ws = snd (send_pong env p ws)"
| "ws_exec env ev (Op_handle_ping p) ws = snd (handle_ping env p ws)"
| "ws_exec env ev (Op_handle_pong p) ws = handle_pong env p ws"
| "ws_exec env ev (Op_configure_ping i t) ws = configure_ping i t ws"
| "ws_exec env ev (Op_set_handler h) ws = set_state_change_handler h ws"
| "ws_exec env ev (Op_transition s) ws = snd (transition_state env s ws)"
| "ws_exec env ev (Op_force_transition s) ws = force_transition_state env s ws"
| "ws_exec env ev (Op_assign_state s) ws = ws\<lparr>ws_ready_state := s\<rparr>"
| "ws_exec env ev (Op_receive f m) ws = snd (process_ws_message_with_validation env f m ev ws)"

definition ws_run :: "'h ws_env \<Rightarrow> 'h ws_events \<Rightarrow> 'h ws_op list \<Rightarrow> 'h ws_context \<Rightarrow> 'h ws_context" where
  "ws_run env ev ops ws = fold (ws_exec env ev) ops ws"

section \<open>Atomic actions\<close>

text \<open>What the operations do to a connection, one effect at a time.  The flag \<open>fc\<close> says whether \<^verbatim>\<open>force_transition_state\<close> may be
  called for any state; without it, it is an action only for the closed state, as \<^verbatim>\<open>force_close\<close> uses it.\<close>

inductive ws_act :: "'h ws_env \<Rightarrow> bool \<Rightarrow> 'h ws_context \<Rightarrow> 'h ws_context \<Rightarrow> bool" for env fc where
  act_time: "ws_act env fc ws (ws_effect (E_time t) ws)"
| act_fields: "ws_act env fc ws (ws\<lparr>ws_last_ping_sent := a, ws_last_pong_received := b, ws_awaiting_pong := c,
     ws_ping_interval := d, ws_pong_timeout := e, ws_on_state_change := f\<rparr>)"
| act_data: "ws_ready_state ws = WS_open \<Longrightarrow> opcode \<in> {ws_opcode_text, ws_opcode_binary, ws_opcode_ping, ws_opcode_pong}
     \<Longrightarrow> ws_act env fc ws (snd (ws_transmit (encode_ws_frame (we_wide env) opcode payload False) ws))"
| act_close: "fc \<or> ws_ready_state ws \<noteq> WS_open
     \<Longrightarrow> ws_act env fc ws (snd (ws_transmit (build_close_frame (we_wide env) code reason) ws))"
| act_close_fn: "ws_act env fc ws (ws_call_close_fn code reason ws)"
| act_change: "fc \<or> is_valid_state_transition (ws_ready_state ws) s \<or> s = WS_closed
     \<Longrightarrow> ws_act env fc ws (snd (ws_record_change env s ws))"

abbreviation ws_acts :: "'h ws_env \<Rightarrow> bool \<Rightarrow> 'h ws_context \<Rightarrow> 'h ws_context \<Rightarrow> bool" where
  "ws_acts env fc \<equiv> (ws_act env fc)\<^sup>*\<^sup>*"

text \<open>A callback that reaches the connection only through such actions, that is, through the public operations; it does not assign
  the public fields of the connection itself.\<close>

definition through_api :: "'h ws_env \<Rightarrow> bool \<Rightarrow> ('h ws_context \<Rightarrow> 'h ws_context) \<Rightarrow> bool" where
  "through_api env fc f \<longleftrightarrow> (\<forall>ws. ws_acts env fc ws (f ws))"

definition ws_env_ok :: "'h ws_env \<Rightarrow> bool \<Rightarrow> bool" where
  "ws_env_ok env fc \<longleftrightarrow> (\<forall>h e. through_api env fc (we_call env h e))"

definition ws_events_ok :: "'h ws_env \<Rightarrow> bool \<Rightarrow> 'h ws_events \<Rightarrow> bool" where
  "ws_events_ok env fc ev \<longleftrightarrow>
     (\<forall>f. on_open ev = Some f \<longrightarrow> through_api env fc f)
     \<and> (\<forall>f e. on_message ev = Some f \<longrightarrow> through_api env fc (f e))
     \<and> (\<forall>f e. on_close ev = Some f \<longrightarrow> through_api env fc (f e))
     \<and> (\<forall>f e. on_error ev = Some f \<longrightarrow> through_api env fc (f e))"

fun state_rank :: "ws_ready_state \<Rightarrow> nat" where
  "state_rank WS_connecting = 0"
| "state_rank WS_open = 1"
| "state_rank WS_closing = 2"
| "state_rank WS_closed = 3"

abbreviation ws_rank :: "'h ws_context \<Rightarrow> nat" where
  "ws_rank ws \<equiv> state_rank (ws_ready_state ws)"

lemma state_rank_le3: "state_rank s \<le> 3" by (cases s) auto

lemma state_rank_3 [simp]: "state_rank s = 3 \<longleftrightarrow> s = WS_closed" "3 \<le> state_rank s \<longleftrightarrow> s = WS_closed"
  by (cases s; simp)+

lemma valid_transition_rank: "is_valid_state_transition s t \<Longrightarrow> state_rank s < state_rank t"
  by (cases s) auto

lemma effect_sel [simp]:
  "ws_ready_state (ws_effect e ws) = ws_ready_state ws"
  "ws_state_history (ws_effect e ws) = ws_state_history ws"
  "ws_effects (ws_effect e ws) = ws_effects ws @ [e]"
  "ws_on_state_change (ws_effect e ws) = ws_on_state_change ws"
  by (simp_all add: ws_effect_def)

lemma transmit_sel [simp]:
  "ws_ready_state (snd (ws_transmit f ws)) = ws_ready_state ws"
  "ws_state_history (snd (ws_transmit f ws)) = ws_state_history ws"
  by (simp_all add: ws_transmit_def Let_def split: option.splits)

lemma close_fn_sel [simp]:
  "ws_ready_state (ws_call_close_fn c r ws) = ws_ready_state ws"
  "ws_state_history (ws_call_close_fn c r ws) = ws_state_history ws"
  by (simp_all add: ws_call_close_fn_def split: option.splits)

lemma record_change_sel [simp]:
  "ws_ready_state (snd (ws_record_change env s ws)) = s"
  "sc_new_state (fst (ws_record_change env s ws)) = s"
  "sc_previous_state (fst (ws_record_change env s ws)) = ws_ready_state ws"
  "ws_state_history (snd (ws_record_change env s ws)) = ws_state_history ws @ [fst (ws_record_change env s ws)]"
  by (simp_all add: ws_record_change_def ws_now_def Let_def)

lemma act_rank: "ws_act env False ws ws' \<Longrightarrow> ws_rank ws \<le> ws_rank ws'"
  by (induction rule: ws_act.induct) (auto dest: valid_transition_rank simp: state_rank_le3)

lemma acts_rank: "ws_acts env False ws ws' \<Longrightarrow> ws_rank ws \<le> ws_rank ws'"
  by (induction rule: rtranclp_induct) (auto dest: act_rank)

section \<open>Every operation is a sequence of actions\<close>

named_theorems ws_api "operations as sequences of actions"

lemma acts_trans: "ws_acts env fc a b \<Longrightarrow> ws_acts env fc b c \<Longrightarrow> ws_acts env fc a c"
  by (rule rtranclp_trans)

lemma change_acts:
  assumes "ws_env_ok env fc" and "fc \<or> is_valid_state_transition (ws_ready_state ws) s \<or> s = WS_closed"
  shows "ws_acts env fc ws (ws_change env s ws)" and "\<not> fc \<Longrightarrow> state_rank s \<le> ws_rank (ws_change env s ws)"
proof -
  let ?ws1 = "snd (ws_record_change env s ws)"
  have 1: "ws_act env fc ws ?ws1" using assms(2) by (rule act_change)
  have 2: "ws_acts env fc ?ws1 (ws_change env s ws)"
    using assms(1) by (auto simp: ws_change_def ws_env_ok_def through_api_def case_prod_beta split: option.splits)
  show "ws_acts env fc ws (ws_change env s ws)" using 1 2 by (rule converse_rtranclp_into_rtranclp)
  show "state_rank s \<le> ws_rank (ws_change env s ws)" if "\<not> fc" using acts_rank [of env ?ws1 "ws_change env s ws"] 2 that by simp
qed

lemma transition_acts [ws_api]: "ws_env_ok env fc \<Longrightarrow> ws_acts env fc ws (snd (transition_state env s ws))"
  by (auto simp: transition_state_def intro: change_acts)

lemma force_acts: "ws_env_ok env fc \<Longrightarrow> fc \<or> s = WS_closed \<Longrightarrow> ws_acts env fc ws (force_transition_state env s ws)"
  by (auto simp: force_transition_state_def intro: change_acts)

lemma transition_rank:
  "ws_env_ok env False \<Longrightarrow> is_valid_state_transition (ws_ready_state ws) s \<Longrightarrow> state_rank s \<le> ws_rank (snd (transition_state env s ws))"
  using change_acts(2) [of env False ws s] by (simp add: transition_state_def)

lemma now_acts [ws_api]: "ws_acts env fc ws (snd (ws_now env ws))"
  by (auto simp: ws_now_def Let_def intro: act_time)

lemma data_acts [ws_api]:
  "ws_acts env fc ws (snd (ws_send env s ws))" "ws_acts env fc ws (snd (ws_send_bytes env b ws))"
  "ws_acts env fc ws (snd (ws_send_json env s ws))" "ws_acts env fc ws (snd (send_pong env b ws))"
  "ws_acts env fc ws (snd (handle_ping env b ws))"
  by (auto simp: ws_send_def ws_send_bytes_def ws_send_json_def send_pong_def handle_ping_def Let_def case_prod_beta
      intro: act_data)


lemma field_acts:
  "ws_act env fc ws (ws\<lparr>ws_last_ping_sent := t, ws_awaiting_pong := True\<rparr>)"
  "ws_act env fc ws (ws\<lparr>ws_last_pong_received := t, ws_awaiting_pong := False\<rparr>)"
  "ws_act env fc ws (ws\<lparr>ws_ping_interval := i, ws_pong_timeout := n\<rparr>)"
  "ws_act env fc ws (ws\<lparr>ws_on_state_change := h\<rparr>)"
proof -
  note f = act_fields [where ws = ws and env = env]
  show "ws_act env fc ws (ws\<lparr>ws_last_ping_sent := t, ws_awaiting_pong := True\<rparr>)"
    using f [where a = t and b = "ws_last_pong_received ws" and c = True and d = "ws_ping_interval ws"
        and e = "ws_pong_timeout ws" and f = "ws_on_state_change ws"] by simp
  show "ws_act env fc ws (ws\<lparr>ws_last_pong_received := t, ws_awaiting_pong := False\<rparr>)"
    using f [where a = "ws_last_ping_sent ws" and b = t and c = False and d = "ws_ping_interval ws"
        and e = "ws_pong_timeout ws" and f = "ws_on_state_change ws"] by simp
  show "ws_act env fc ws (ws\<lparr>ws_ping_interval := i, ws_pong_timeout := n\<rparr>)"
    using f [where a = "ws_last_ping_sent ws" and b = "ws_last_pong_received ws" and c = "ws_awaiting_pong ws"
        and d = i and e = n and f = "ws_on_state_change ws"] by simp
  show "ws_act env fc ws (ws\<lparr>ws_on_state_change := h\<rparr>)"
    using f [where a = "ws_last_ping_sent ws" and b = "ws_last_pong_received ws" and c = "ws_awaiting_pong ws"
        and d = "ws_ping_interval ws" and e = "ws_pong_timeout ws" and f = h] by simp
qed

lemma pong_acts [ws_api]:
  "ws_acts env fc ws (handle_pong env p ws)" "ws_acts env fc ws (configure_ping i n ws)"
  "ws_acts env fc ws (set_state_change_handler h ws)"
  by (auto simp: handle_pong_def configure_ping_def set_state_change_handler_def case_prod_beta
      intro: field_acts now_acts rtranclp.rtrancl_into_rtrancl)

lemma send_ping_acts [ws_api]: "ws_acts env fc ws (snd (send_ping env p ws))"
proof (cases "ws_ready_state ws = WS_open \<and> length p \<le> 125")
  case True
  let ?t = "ws_transmit (encode_ws_frame (we_wide env) ws_opcode_ping p False) ws"
  have "ws_act env fc ws (snd ?t)" using True by (auto intro: act_data)
  moreover have "ws_acts env fc (snd ?t) (snd (send_ping env p ws))"
    using True by (auto simp: send_ping_def case_prod_beta split: option.splits
        intro: field_acts now_acts rtranclp.rtrancl_into_rtrancl)
  ultimately show ?thesis by (rule converse_rtranclp_into_rtranclp)
qed (auto simp: send_ping_def)

text \<open>A close frame followed by the call of \<^verbatim>\<open>close_fn\<close>, once the connection is not open.\<close>

lemma close_frame_acts:
  assumes "ws_acts env fc ws ws1" and "fc \<or> ws_ready_state ws1 \<noteq> WS_open"
  shows "ws_acts env fc ws (snd (ws_transmit (build_close_frame (we_wide env) c r) ws1))"
    and "ws_acts env fc ws (ws_call_close_fn c r (snd (ws_transmit (build_close_frame (we_wide env) c r) ws1)))"
  using assms by (auto intro: act_close act_close_fn rtranclp.rtrancl_into_rtrancl)

text \<open>Leaving the open state is for good, whatever the callback for state changes does, as long as it forces nothing.\<close>

lemma closing_not_open:
  "ws_env_ok env fc \<Longrightarrow> ws_ready_state ws = WS_connecting \<or> ws_ready_state ws = WS_open
     \<Longrightarrow> fc \<or> ws_ready_state (snd (transition_state env WS_closing ws)) \<noteq> WS_open"
  using transition_rank [of env ws WS_closing] by (cases fc) (auto simp: transition_state_def)

lemma close_acts [ws_api]:
  assumes "ws_env_ok env fc"
  shows "ws_acts env fc ws (ws_close env c r ws)" and "ws_acts env fc ws (snd (initiate_close env c r ws))"
    and "ws_acts env fc ws (complete_close env ws)" and "ws_acts env fc ws (force_close env c r ws)"
proof -
  have st: "ws_ready_state ws = WS_connecting \<or> ws_ready_state ws = WS_open"
    if "ws_ready_state ws \<noteq> WS_closed" "ws_ready_state ws \<noteq> WS_closing"
    using that by (cases "ws_ready_state ws") auto
  note t = close_frame_acts [OF transition_acts [OF assms] closing_not_open [OF assms]]
  show "ws_acts env fc ws (ws_close env c r ws)"
    using st t(2) by (auto simp: ws_close_def case_prod_beta)
  show "ws_acts env fc ws (snd (initiate_close env c r ws))"
    using t(1) by (auto simp: initiate_close_def case_prod_beta)
  show "ws_acts env fc ws (complete_close env ws)"
    using assms by (auto simp: complete_close_def intro: transition_acts)
  have "ws_acts env fc ws (ws_change env WS_closed ws)" "fc \<or> ws_ready_state (ws_change env WS_closed ws) \<noteq> WS_open"
    using change_acts [OF assms, of ws WS_closed] by auto
  then show "ws_acts env fc ws (force_close env c r ws)"
    by (simp add: force_close_def force_transition_state_def case_prod_beta close_frame_acts(2))
qed

lemma handle_close_acts:
  assumes "ws_env_ok env fc"
  shows "ws_acts env fc ws (snd (handle_close_frame env f ws))"
    and "\<not> fc \<Longrightarrow> ws_ready_state (snd (handle_close_frame env f ws)) = WS_closed"
proof -
  define c r where "c = fst (parse_close_frame (fr_payload f))" and "r = snd (parse_close_frame (fr_payload f))"
  define ws2 where "ws2 = (if ws_ready_state ws = WS_open then
      snd (ws_transmit (build_close_frame (we_wide env) c r) (snd (transition_state env WS_closing ws))) else ws)"
  have eq: "snd (handle_close_frame env f ws) = snd (transition_state env WS_closed ws2)"
    by (simp add: handle_close_frame_def case_prod_beta Let_def ws2_def c_def r_def)
  have "ws_acts env fc ws ws2"
    using close_frame_acts(1) [OF transition_acts [OF assms] closing_not_open [OF assms]] by (simp add: ws2_def)
  then show "ws_acts env fc ws (snd (handle_close_frame env f ws))"
    unfolding eq using transition_acts [OF assms] by (rule acts_trans)
  show "ws_ready_state (snd (handle_close_frame env f ws)) = WS_closed" if "\<not> fc"
  proof (cases "ws_ready_state ws2 = WS_closed")
    case True
    then show ?thesis unfolding eq by (simp add: transition_state_def)
  next
    case False
    then have "is_valid_state_transition (ws_ready_state ws2) WS_closed" by (cases "ws_ready_state ws2") auto
    from transition_rank [OF _ this, of env] assms that show ?thesis unfolding eq by simp
  qed
qed

lemma event_acts:
  assumes "ws_events_ok env fc ev"
  shows "ws_acts env fc a b \<Longrightarrow> ws_acts env fc a (case on_message ev of None \<Rightarrow> b | Some f \<Rightarrow> f e b)"
    and "ws_acts env fc a b \<Longrightarrow> ws_acts env fc a (case on_close ev of None \<Rightarrow> b | Some g \<Rightarrow> g e' b)"
    and "ws_acts env fc a b \<Longrightarrow> ws_acts env fc a (case on_error ev of None \<Rightarrow> b | Some h \<Rightarrow> h e'' b)"
  using assms by (auto simp: ws_events_ok_def through_api_def intro: acts_trans split: option.split)

lemma process_acts:
  assumes "ws_env_ok env fc" "ws_events_ok env fc ev"
  shows "ws_acts env fc ws (process_ws_message env f ev ws)"
proof -
  note ev = event_acts [OF assms(2)]
  have "ws_acts env fc ws (case fst (handle_ping env p ws) of V_error e \<Rightarrow> (case on_error ev of None \<Rightarrow> snd (handle_ping env p ws)
      | Some g \<Rightarrow> g (''Failed to send pong: '' @ e) (snd (handle_ping env p ws))) | _ \<Rightarrow> snd (handle_ping env p ws))" for p
    by (cases "fst (handle_ping env p ws)") (simp_all add: ev(3) data_acts(5))
  then show ?thesis
    unfolding process_ws_message_def case_prod_beta Let_def
    using handle_close_acts(1) [OF assms(1)] pong_acts(1) [of env fc ws]
    by (simp only: ev rtranclp.rtrancl_refl split: if_split) simp
qed

lemma validate_acts:
  assumes "ws_env_ok env fc" "ws_events_ok env fc ev"
  shows "ws_acts env fc ws (snd (validate_message_size env f m ev ws))"
  unfolding validate_message_size_def Let_def
  by (auto intro: acts_trans [OF event_acts(3) [OF assms(2)] close_acts(4) [OF assms(1)]])

lemma receive_acts [ws_api]:
  assumes "ws_env_ok env fc" "ws_events_ok env fc ev"
  shows "ws_acts env fc ws (snd (process_ws_message_with_validation env f m ev ws))"
  using acts_trans [OF validate_acts [OF assms] process_acts [OF assms]] validate_acts [OF assms]
  by (simp add: process_ws_message_with_validation_def case_prod_beta)

text \<open>The operations that keep to the state machine; assigning the field \<^verbatim>\<open>ready_state\<close> is no operation of it at all.\<close>

fun ws_op_ok :: "bool \<Rightarrow> 'h ws_op \<Rightarrow> bool" where
  "ws_op_ok fc (Op_force_transition s) \<longleftrightarrow> fc \<or> s = WS_closed"
| "ws_op_ok fc (Op_assign_state s) \<longleftrightarrow> False"
| "ws_op_ok fc _ \<longleftrightarrow> True"

lemma exec_acts: "ws_env_ok env fc \<Longrightarrow> ws_events_ok env fc ev \<Longrightarrow> ws_op_ok fc op \<Longrightarrow> ws_acts env fc ws (ws_exec env ev op ws)"
  by (cases op) (auto intro: ws_api force_acts)

lemma run_acts:
  assumes "ws_env_ok env fc" "ws_events_ok env fc ev" "list_all (ws_op_ok fc) ops"
  shows "ws_acts env fc ws (ws_run env ev ops ws)"
  using assms(3)
proof (induction ops arbitrary: ws)
  case (Cons op ops)
  have "ws_acts env fc ws (ws_exec env ev op ws)" using Cons.prems by (intro exec_acts assms(1,2)) simp
  from acts_trans [OF this Cons.IH] Cons.prems show ?case by (simp add: ws_run_def)
qed (simp add: ws_run_def)


section \<open>Invariants of all runs\<close>

text \<open>A chain of recorded changes from one state to another.\<close>

fun state_chain :: "ws_ready_state \<Rightarrow> ws_state_change_event list \<Rightarrow> ws_ready_state \<Rightarrow> bool" where
  "state_chain s [] t \<longleftrightarrow> s = t"
| "state_chain s (e # es) t \<longleftrightarrow> sc_previous_state e = s \<and> state_chain (sc_new_state e) es t"

definition change_allowed :: "ws_state_change_event \<Rightarrow> bool" where
  "change_allowed e \<longleftrightarrow> is_valid_state_transition (sc_previous_state e) (sc_new_state e) \<or> sc_new_state e = WS_closed"

lemma state_chain_append: "state_chain s (es @ [e]) t \<longleftrightarrow> state_chain s es (sc_previous_state e) \<and> sc_new_state e = t"
  by (induction es arbitrary: s) auto

lemma act_history:
  assumes "ws_act env fc ws ws'" "state_chain s (ws_state_history ws) (ws_ready_state ws)"
    "\<not> fc \<longrightarrow> list_all change_allowed (ws_state_history ws)"
  shows "state_chain s (ws_state_history ws') (ws_ready_state ws') \<and> (\<not> fc \<longrightarrow> list_all change_allowed (ws_state_history ws'))"
  using assms by (induction rule: ws_act.induct) (auto simp: state_chain_append change_allowed_def)

lemma acts_history:
  assumes "ws_acts env fc ws ws'" "ws_state_history ws = []"
  shows "state_chain (ws_ready_state ws) (ws_state_history ws') (ws_ready_state ws')
     \<and> (\<not> fc \<longrightarrow> list_all change_allowed (ws_state_history ws'))"
  using assms(1)
proof (induction rule: rtranclp_induct)
  case base
  then show ?case using assms(2) by simp
next
  case (step y z)
  then show ?case using act_history by blast
qed

text \<open>The opcode of a frame on the wire.\<close>

definition wire_opcode :: "u8 list \<Rightarrow> u8" where
  "wire_opcode bs = hd bs AND 0x0F"

fun is_close_sent :: "ws_effect \<Rightarrow> bool" where
  "is_close_sent (E_send bs r) = (wire_opcode bs = ws_opcode_close)"
| "is_close_sent _ = False"

fun is_other_sent :: "ws_effect \<Rightarrow> bool" where
  "is_other_sent (E_send bs r) = (wire_opcode bs \<noteq> ws_opcode_close)"
| "is_other_sent _ = False"

lemma wire_opcode_encode: "wire_opcode (encode_ws_frame wide opcode payload masked) = opcode AND 0x0F"
  by (simp add: wire_opcode_def encode_ws_frame_def bit.conj_disj_distrib2 and.assoc)

text \<open>While the connection is open no close frame has been sent, and no other frame was ever sent after one.\<close>

definition close_last :: "'h ws_context \<Rightarrow> bool" where
  "close_last ws \<longleftrightarrow> 1 \<le> ws_rank ws
     \<and> (ws_ready_state ws = WS_open \<longrightarrow> (\<forall>e \<in> set (ws_effects ws). \<not> is_close_sent e))
     \<and> (\<forall>a e b. ws_effects ws = a @ e # b \<longrightarrow> is_close_sent e \<longrightarrow> (\<forall>e' \<in> set b. \<not> is_other_sent e'))"

lemma snoc_split:
  assumes "xs @ [x] = a @ e # b"
  obtains "b = []" "a = xs" "e = x" | b' where "b = b' @ [x]" "xs = a @ e # b'"
  using assms by (cases b rule: rev_cases) auto

lemma close_last_snoc:
  assumes "close_last ws" "ws_effects ws' = ws_effects ws @ [x]" "1 \<le> ws_rank ws'"
    "ws_ready_state ws' = WS_open \<Longrightarrow> ws_ready_state ws = WS_open \<and> \<not> is_close_sent x"
    "is_other_sent x \<Longrightarrow> ws_ready_state ws = WS_open"
  shows "close_last ws'"
proof -
  have "\<not> is_other_sent e'" if "ws_effects ws' = a @ e # b" "is_close_sent e" "e' \<in> set b" for a e b e'
  proof -
    from that(1) assms(2) have "ws_effects ws @ [x] = a @ e # b" by simp
    then show ?thesis
    proof (cases rule: snoc_split)
      case (2 b')
      then have "e \<in> set (ws_effects ws)" by simp
      then have "\<not> is_other_sent x" using assms(1,5) that(2) by (auto simp: close_last_def)
      moreover have "\<forall>e' \<in> set b'. \<not> is_other_sent e'" using assms(1) 2 that(2) unfolding close_last_def by blast
      ultimately show ?thesis using 2 that(3) by auto
    qed (use that in simp)
  qed
  moreover have "\<forall>e \<in> set (ws_effects ws'). \<not> is_close_sent e" if "ws_ready_state ws' = WS_open"
    using assms(1,2,4) that by (auto simp: close_last_def)
  ultimately show ?thesis using assms(3) unfolding close_last_def by blast
qed


lemma close_last_transmit:
  assumes "close_last ws" "wire_opcode f \<noteq> ws_opcode_close \<longleftrightarrow> ws_ready_state ws = WS_open"
  shows "close_last (snd (ws_transmit f ws))"
proof (cases "ws_send_fn ws")
  case (Some g)
  then have "ws_effects (snd (ws_transmit f ws)) = ws_effects ws @ [E_send f (g (ws_effects ws) f)]"
    by (simp add: ws_transmit_def Let_def)
  then show ?thesis
    using assms by (rule_tac close_last_snoc [OF assms(1)]) (auto simp: close_last_def)
qed (use assms in \<open>simp add: ws_transmit_def\<close>)

lemma act_close_last: "ws_act env False ws ws' \<Longrightarrow> close_last ws \<Longrightarrow> close_last ws'"
proof (induction rule: ws_act.induct)
  case (act_time ws t)
  then show ?case by (rule_tac close_last_snoc [OF act_time, of _ "E_time t"]) (auto simp: close_last_def)
next
  case (act_data ws opcode payload)
  then show ?case by (intro close_last_transmit) (auto simp: wire_opcode_encode ws_opcodes)
next
  case (act_close ws code reason)
  then show ?case
    by (intro close_last_transmit) (auto simp: build_close_frame_def wire_opcode_encode ws_opcodes)
next
  case (act_close_fn ws code reason)
  show ?case
  proof (cases "ws_close_fn ws")
    case (Some f)
    with act_close_fn show ?thesis
      by (rule_tac close_last_snoc [OF act_close_fn, of _ "E_close code reason (f (ws_effects ws) code reason)"])
        (auto simp: close_last_def ws_call_close_fn_def)
  qed (use act_close_fn in \<open>simp add: ws_call_close_fn_def\<close>)
next
  case (act_change ws s)
  let ?m = "ws_effect (E_state s) (ws\<lparr>ws_ready_state := s\<rparr>)"
  have "2 \<le> state_rank s"
    using act_change by (cases "ws_ready_state ws") (auto simp: close_last_def)
  then have "close_last ?m"
    by (rule_tac close_last_snoc [OF act_change(2), of _ "E_state s"]) (auto simp: close_last_def)
  then show ?case
    using \<open>2 \<le> state_rank s\<close>
    by (rule_tac close_last_snoc [of ?m _ "E_time (we_now env (ws_effects ?m))"])
      (auto simp: ws_record_change_def ws_now_def Let_def)
qed (simp add: close_last_def)

lemma acts_close_last: "ws_acts env False ws ws' \<Longrightarrow> close_last ws \<Longrightarrow> close_last ws'"
  by (induction rule: rtranclp_induct) (auto dest: act_close_last)

lemma act_grows:
  "ws_act env fc ws ws' \<Longrightarrow> ws_send_fn ws' = ws_send_fn ws \<and> (\<exists>x. ws_effects ws' = ws_effects ws @ x)"
  by (induction rule: ws_act.induct)
    (auto simp: ws_effect_def ws_transmit_def ws_call_close_fn_def ws_record_change_def ws_now_def Let_def
      split: option.splits)

lemma acts_grow: "ws_acts env fc ws ws' \<Longrightarrow> ws_send_fn ws' = ws_send_fn ws \<and> (\<exists>x. ws_effects ws' = ws_effects ws @ x)"
proof (induction rule: rtranclp_induct)
  case (step y z)
  then show ?case using act_grows [OF step(2)] by auto
qed simp

lemma transmit_logged:
  "ws_send_fn ws = Some g \<Longrightarrow> \<exists>r. E_send f r \<in> set (ws_effects (snd (ws_transmit f ws)))"
  by (auto simp: ws_transmit_def Let_def)

lemma handle_close_echo:
  assumes "ws_env_ok env fc" "ws_ready_state ws = WS_open" "ws_send_fn ws = Some g"
    "parse_close_frame (fr_payload f) = (code, reason)"
  shows "\<exists>r. E_send (build_close_frame (we_wide env) code reason) r
     \<in> set (ws_effects (snd (handle_close_frame env f ws)))"
proof -
  let ?c = "build_close_frame (we_wide env) code reason"
  let ?ws1 = "snd (transition_state env WS_closing ws)"
  let ?ws2 = "snd (ws_transmit ?c ?ws1)"
  have "ws_send_fn ?ws1 = Some g" using acts_grow [OF transition_acts [OF assms(1)]] assms(3) by simp
  then obtain r where "E_send ?c r \<in> set (ws_effects ?ws2)" using transmit_logged by blast
  moreover have "snd (handle_close_frame env f ws) = snd (transition_state env WS_closed ?ws2)"
    using assms(2,4) by (simp add: handle_close_frame_def case_prod_beta Let_def)
  ultimately show ?thesis
    using acts_grow [OF transition_acts [OF assms(1), of ?ws2 WS_closed]] by auto
qed

lemma force_close_closes: "ws_env_ok env False \<Longrightarrow> ws_ready_state (force_close env c r ws) = WS_closed"
  using change_acts(2) [of env False ws WS_closed] by (simp add: force_close_def force_transition_state_def case_prod_beta)

section \<open>An example connection\<close>

text \<open>A connection whose sender always succeeds, with a callback that echoes every message.\<close>

definition demo_env :: "unit ws_env" where
  "demo_env = \<lparr>we_wide = wide_mod32, we_now = (\<lambda>es. int (length es)), we_call = (\<lambda>h e ws. ws)\<rparr>"

definition demo_events :: "unit ws_events" where
  "demo_events = \<lparr>on_open = None, on_message = Some (\<lambda>e ws. snd (ws_send demo_env (me_data e) ws)),
     on_close = None, on_error = None\<rparr>"

definition demo_ws :: "unit ws_context" where
  "demo_ws = (create_ws_context [] [] [] '''')\<lparr>ws_ready_state := WS_open, ws_send_fn := Some (\<lambda>es bs. None)\<rparr>"

definition demo_ops :: "unit ws_op list" where
  "demo_ops = [Op_send ''hi'', Op_close 1000 '''', Op_send ''late'', Op_send_ping [], Op_force_close 1001 '''']"

definition demo_close_frame :: ws_frame where
  "demo_close_frame = \<lparr>fr_fin = True, fr_opcode = ws_opcode_close, fr_masked = False, fr_mask_key = [0, 0, 0, 0],
     fr_payload_len = 5, fr_payload = [3, 233, 98, 121, 101]\<rparr>"

lemma demo_ws_ok: "ws_env_ok demo_env fc" "ws_events_ok demo_env fc demo_events"
  by (auto simp: ws_env_ok_def ws_events_ok_def through_api_def demo_events_def intro: data_acts) (simp add: demo_env_def)

section \<open>Properties\<close>

text \<open>C26: in every run of the public operations, forced transitions included (\<open>fc\<close>), with callbacks that work through the operations,
  the recorded state history is a gap-free chain from the first state of the connection to the current one.  When neither
  the run nor a callback forces a state other than closed (\<open>\<not> fc\<close>), each step of the chain is allowed by the transition table or is a forced
  close, and the connection never goes back in the order connecting, open, closing, closed.  Assigning the public field
  \<^verbatim>\<open>ready_state\<close> is no operation and leaves a gap.\<close>

theorem ws_history_chain:
  assumes "ws_env_ok env fc" and "ws_events_ok env fc ev" and "list_all (ws_op_ok fc) ops" and "ws_state_history ws = []"
  shows "state_chain (ws_ready_state ws) (ws_state_history (ws_run env ev ops ws)) (ws_ready_state (ws_run env ev ops ws))
     \<and> (\<not> fc \<longrightarrow> list_all change_allowed (ws_state_history (ws_run env ev ops ws)) \<and> ws_rank ws \<le> ws_rank (ws_run env ev ops ws))"
proof -
  have acts: "ws_acts env fc ws (ws_run env ev ops ws)" by (rule run_acts [OF assms(1-3)])
  have "ws_rank ws \<le> ws_rank (ws_run env ev ops ws)" if "\<not> fc"
    using acts that acts_rank [of env ws "ws_run env ev ops ws"] by simp
  with acts_history [OF acts assms(4)] show ?thesis by simp
qed

theorem ws_history_chain_witness:
  "state_chain WS_open (ws_state_history (ws_run demo_env demo_events [Op_send ''hi'', Op_close 1000 []] demo_ws))
       (ws_ready_state (ws_run demo_env demo_events [Op_send ''hi'', Op_close 1000 []] demo_ws))
     \<and> list_all change_allowed (ws_state_history (ws_run demo_env demo_events [Op_send ''hi'', Op_close 1000 []] demo_ws))
     \<and> ws_rank demo_ws \<le> ws_rank (ws_run demo_env demo_events [Op_send ''hi'', Op_close 1000 []] demo_ws)
     \<and> state_chain WS_open (ws_state_history (ws_run demo_env demo_events [Op_close 1000 [], Op_force_transition WS_open] demo_ws)) WS_open"
proof -
  have 1: "state_chain WS_open (ws_state_history (ws_run demo_env demo_events [Op_send ''hi'', Op_close 1000 []] demo_ws))
       (ws_ready_state (ws_run demo_env demo_events [Op_send ''hi'', Op_close 1000 []] demo_ws))
     \<and> list_all change_allowed (ws_state_history (ws_run demo_env demo_events [Op_send ''hi'', Op_close 1000 []] demo_ws))
     \<and> ws_rank demo_ws \<le> ws_rank (ws_run demo_env demo_events [Op_send ''hi'', Op_close 1000 []] demo_ws)"
    using ws_history_chain [OF demo_ws_ok [of False], of "[Op_send ''hi'', Op_close 1000 []]" demo_ws]
    by (simp add: demo_ws_def create_ws_context_def)
  have now: "ws_ready_state (ws_run demo_env demo_events [Op_close 1000 [], Op_force_transition WS_open] demo_ws) = WS_open"
    by code_simp
  have 2: "state_chain WS_open (ws_state_history (ws_run demo_env demo_events [Op_close 1000 [], Op_force_transition WS_open] demo_ws)) WS_open"
    using ws_history_chain [OF demo_ws_ok [of True], of "[Op_close 1000 [], Op_force_transition WS_open]" demo_ws] now
    by (simp add: demo_ws_def create_ws_context_def)
  from 1 2 show ?thesis by simp
qed

text \<open>C22: on a connection that starts open, once a close frame has been handed to the sender no frame but
  further close frames follows, whatever operations are called and whatever callbacks that work through the operations do, as long as
  neither forces a state other than closed or assigns \<^verbatim>\<open>ready_state\<close>; with either, data can follow
  (\<open>ws_data_after_forced_open\<close>).\<close>

theorem ws_silent_after_close:
  assumes "ws_env_ok env False" and "ws_events_ok env False ev" and "list_all (ws_op_ok False) ops"
    and "ws_ready_state ws = WS_open" and "ws_effects ws = []"
    and "ws_effects (ws_run env ev ops ws) = a @ e # b" and "is_close_sent e"
  shows "\<forall>e' \<in> set b. \<not> is_other_sent e'"
proof -
  have "close_last ws" using assms(4,5) by (simp add: close_last_def)
  with run_acts [OF assms(1-3)] have "close_last (ws_run env ev ops ws)" by (rule acts_close_last)
  with assms(6,7) show ?thesis unfolding close_last_def by blast
qed

lemma demo_run: "3 < length (ws_effects (ws_run demo_env demo_events demo_ops demo_ws))"
  "is_close_sent (ws_effects (ws_run demo_env demo_events demo_ops demo_ws) ! 3)"
  by code_simp+

theorem ws_silent_after_close_witness:
  "list_all (\<lambda>e'. \<not> is_other_sent e') (drop 4 (ws_effects (ws_run demo_env demo_events demo_ops demo_ws)))"
proof -
  have "list_all (ws_op_ok False) demo_ops" by (simp add: demo_ops_def)
  from ws_silent_after_close [OF demo_ws_ok this _ _ id_take_nth_drop [OF demo_run(1)] demo_run(2)] show ?thesis
    by (simp add: demo_ws_def create_ws_context_def list_all_iff)
qed

text \<open>A received close frame always leads to the closed state, and an open connection echoes code and
  reason before.\<close>

theorem ws_close_received_closes:
  assumes "ws_env_ok env False"
    and "ws_ready_state ws = WS_open" and "ws_send_fn ws = Some g"
    and "parse_close_frame (fr_payload f) = (code, reason)"
  shows "ws_ready_state (snd (handle_close_frame env f ws)) = WS_closed
     \<and> (\<exists>r. E_send (build_close_frame (we_wide env) code reason) r
          \<in> set (ws_effects (snd (handle_close_frame env f ws))))
     \<and> fst (handle_close_frame env f ws) = \<lparr>ce_code = code, ce_reason = reason, ce_was_clean = is_valid_close_code code\<rparr>"
proof (intro conjI)
  show "fst (handle_close_frame env f ws) = \<lparr>ce_code = code, ce_reason = reason, ce_was_clean = is_valid_close_code code\<rparr>"
    using assms(4) by (simp add: handle_close_frame_def case_prod_beta Let_def)
qed (rule handle_close_acts(2) [OF assms(1)], simp, rule handle_close_echo [OF assms])


theorem ws_close_received_closes_witness:
  "ws_ready_state (snd (handle_close_frame demo_env demo_close_frame demo_ws)) = WS_closed
     \<and> (\<exists>r. E_send (build_close_frame (we_wide demo_env) 1001 ''bye'') r
          \<in> set (ws_effects (snd (handle_close_frame demo_env demo_close_frame demo_ws))))
     \<and> fst (handle_close_frame demo_env demo_close_frame demo_ws)
        = \<lparr>ce_code = 1001, ce_reason = ''bye'', ce_was_clean = is_valid_close_code 1001\<rparr>"
proof (rule ws_close_received_closes)
  show "parse_close_frame (fr_payload demo_close_frame) = (1001, ''bye'')" by code_simp
qed (simp_all add: demo_ws_ok demo_ws_def)

text \<open>For a frame as decoding delivers it the size check is exact: a text or binary message is refused when
  its payload is longer than a positive limit and only then, and a refused message leaves the connection closed.\<close>

theorem ws_size_limit:
  assumes "ws_env_ok env False" and "decode_ws_frame data = V_ok f"
  shows "(fst (process_ws_message_with_validation env f m ev ws) \<longleftrightarrow>
       \<not> (fr_opcode f \<in> {ws_opcode_text, ws_opcode_binary} \<and> 0 < m \<and> m < int (length (fr_payload f))))
     \<and> (fst (process_ws_message_with_validation env f m ev ws)
        \<or> ws_ready_state (snd (process_ws_message_with_validation env f m ev ws)) = WS_closed)"
  using force_close_closes [OF assms(1)] decoded_length [OF assms(2)]
  by (auto simp: process_ws_message_with_validation_def validate_message_size_def case_prod_beta Let_def)

theorem ws_size_limit_witness:
  "ws_ready_state (snd (process_ws_message_with_validation demo_env
     \<lparr>fr_fin = True, fr_opcode = ws_opcode_text, fr_masked = False, fr_mask_key = [0, 0, 0, 0],
      fr_payload_len = 3, fr_payload = [65, 66, 67]\<rparr> 2 demo_events demo_ws)) = WS_closed"
proof -
  let ?f = "\<lparr>fr_fin = True, fr_opcode = ws_opcode_text, fr_masked = False, fr_mask_key = [0, 0, 0, 0],
      fr_payload_len = 3, fr_payload = [65, 66, 67]\<rparr>"
  have "decode_ws_frame [0x81, 3, 65, 66, 67] = V_ok ?f" by code_simp
  from ws_size_limit [OF demo_ws_ok(1) this, of 2 demo_events demo_ws] show ?thesis by auto
qed

text \<open>Closing a connection that is still connecting sends a close frame but leaves the state as it is, so the
  connection can be opened and used afterwards: a frame follows the close frame.\<close>

theorem ws_close_while_connecting:
  assumes "ws_ready_state ws = WS_connecting"
  shows "ws_ready_state (ws_close env c r ws) = WS_connecting"
    and "ws_send_fn ws = Some g \<Longrightarrow> \<exists>x. ws_effects (ws_close env c r ws)
      = ws_effects ws @ E_send (build_close_frame (we_wide env) c r) (g (ws_effects ws) (build_close_frame (we_wide env) c r)) # x"
  using assms by (auto simp: ws_close_def transition_state_def ws_transmit_def ws_call_close_fn_def ws_effect_def Let_def
      split: option.splits)

theorem ws_data_after_early_close:
  "\<exists>a r x r' b. ws_effects (ws_run demo_env demo_events [Op_close 1000 '''', Op_transition WS_open, Op_send ''hi'']
       (demo_ws\<lparr>ws_ready_state := WS_connecting\<rparr>))
     = a @ E_send (build_close_frame wide_mod32 1000 '''') r # x @ E_send (encode_ws_frame wide_mod32 ws_opcode_text (v_bytes ''hi'') False) r' # b"
proof -
  have "ws_effects (ws_run demo_env demo_events [Op_close 1000 '''', Op_transition WS_open, Op_send ''hi'']
       (demo_ws\<lparr>ws_ready_state := WS_connecting\<rparr>))
     = [] @ E_send (build_close_frame wide_mod32 1000 '''') None # [E_state WS_open, E_time 2]
        @ E_send (encode_ws_frame wide_mod32 ws_opcode_text (v_bytes ''hi'') False) None # []"
    by code_simp
  then show ?thesis by blast
qed

text \<open>Forcing a closing connection open again, or assigning the field, puts data after the close frame.\<close>

lemma ws_data_after_forced_open:
  "map is_close_sent (ws_effects (ws_run demo_env demo_events [Op_close 1000 [], Op_force_transition WS_open, Op_send ''hi''] demo_ws))
     = [False, False, True, False, False, False]
   \<and> map is_other_sent (ws_effects (ws_run demo_env demo_events [Op_close 1000 [], Op_force_transition WS_open, Op_send ''hi''] demo_ws))
     = [False, False, False, False, False, True]
   \<and> map is_other_sent (ws_effects (ws_run demo_env demo_events [Op_close 1000 [], Op_assign_state WS_open, Op_send ''hi''] demo_ws))
     = [False, False, False, True]"
  by code_simp

text \<open>An assigned state leaves a gap in the history.\<close>

lemma ws_assigned_gap:
  "\<not> state_chain WS_open (ws_state_history (ws_run demo_env demo_events [Op_assign_state WS_closed] demo_ws)) WS_closed"
  by code_simp

text \<open>A ping is due only when no pong is awaited, and a pong can be overdue only when one is.\<close>

theorem ping_pong_exclusive: "\<not> (should_send_ping env ws \<and> is_pong_timeout env ws)"
  by (simp add: should_send_ping_def is_pong_timeout_def)

end
