(* ===== verification/Http_Context.thy ===== *)
theory Http_Context
  imports Prelude
begin

text \<open>
  The request context of \<^verbatim>\<open>request.v\<close> (struct \<^verbatim>\<open>Context\<close>) that every handler works on, and what it uses of the
  \<^verbatim>\<open>http\<close> module: header fields in order, compared without regard to case, and responses.  \<^verbatim>\<open>urllib.parse\<close> is a
  parameter: it gives path, query text and printed form of a URL, or fails.

  Shown here: the header of a response is the content type of its kind followed by the fields that were set on the
  context and have a valid name, so a field set by a handler does not replace the default one.
\<close>

section \<open>Strings and headers\<close>

definition char_to_lower :: "char \<Rightarrow> char" where
  "char_to_lower c = (let n = of_char c :: nat in if 65 \<le> n \<and> n \<le> 90 then char_of (n + 32) else c)"

definition v_to_lower :: "string \<Rightarrow> string" where
  "v_to_lower s = map char_to_lower s"

definition is_space :: "char \<Rightarrow> bool" where
  "is_space c \<longleftrightarrow> (of_char c :: nat) \<in> {32, 9, 10, 11, 12, 13}"

definition trim_space :: "string \<Rightarrow> string" where
  "trim_space s = rev (dropWhile is_space (rev (dropWhile is_space s)))"

text \<open>\<^verbatim>\<open>parts.join(d)\<close>\<close>

fun join_str :: "string \<Rightarrow> string list \<Rightarrow> string" where
  "join_str d [] = ''''"
| "join_str d [p] = p"
| "join_str d (p # q # ps) = p @ d @ join_str d (q # ps)"

type_synonym http_header = "(string \<times> string) list"

definition get_custom :: "http_header \<Rightarrow> string \<Rightarrow> string option" where
  "get_custom h name = map_option snd (List.find (\<lambda>(k, v). v_to_lower k = v_to_lower name) h)"

text \<open>\<^verbatim>\<open>add_custom\<close> refuses a name that is empty or has a character that is not one of a token.\<close>

definition is_token_char :: "char \<Rightarrow> bool" where
  "is_token_char c = (let n = of_char c :: nat in
     n = 33 \<or> 35 \<le> n \<and> n \<le> 39 \<or> n = 42 \<or> n = 43 \<or> n = 45 \<or> n = 46 \<or> 48 \<le> n \<and> n \<le> 57 \<or> 65 \<le> n \<and> n \<le> 90
     \<or> 94 \<le> n \<and> n \<le> 122 \<or> n = 124 \<or> n = 126)"

definition valid_header_name :: "string \<Rightarrow> bool" where
  "valid_header_name s \<longleftrightarrow> s \<noteq> [] \<and> list_all is_token_char s"

definition add_custom :: "string \<Rightarrow> string \<Rightarrow> http_header \<Rightarrow> http_header" where
  "add_custom k v h = (if valid_header_name k then h @ [(k, v)] else h)"

record http_request =
  hq_method :: string
  hq_url :: string
  hq_header :: http_header
  hq_data :: string

record http_response =
  rs_status_code :: int
  rs_header :: http_header
  rs_body :: string

record parsed_url =
  pu_path :: string
  pu_raw_query :: string
  pu_str :: string

section \<open>The context\<close>

record http_context =
  cx_req :: http_request
  cx_params :: "(string, string) vmap"
  cx_query :: "(string, string) vmap"
  cx_url :: string
  cx_path :: string
  cx_status_code :: int
  cx_headers :: "(string, string) vmap"
  cx_body :: string
  cx_store :: "(string, string) vmap"

type_synonym url_parser = "string \<Rightarrow> parsed_url option"

text \<open>\<^verbatim>\<open>urllib.parse(u) or { urllib.URL{ path: '/' } }\<close>\<close>

definition parse_url_or_root :: "url_parser \<Rightarrow> string \<Rightarrow> parsed_url" where
  "parse_url_or_root up u =
     (case up u of Some p \<Rightarrow> p | None \<Rightarrow> \<lparr>pu_path = ''/'', pu_raw_query = '''', pu_str = ''/''\<rparr>)"

definition context_new ::
  "url_parser \<Rightarrow> http_request \<Rightarrow> (string, string) vmap \<Rightarrow> (string, string) vmap \<Rightarrow> string \<Rightarrow> http_context" where
  "context_new up req params query body =
     (let url = parse_url_or_root up (hq_url req) in
      \<lparr>cx_req = req, cx_params = params, cx_query = query, cx_url = pu_str url, cx_path = pu_path url,
       cx_status_code = 200, cx_headers = [], cx_body = body, cx_store = []\<rparr>)"

text \<open>The loop \<^verbatim>\<open>for key, value in c.headers { headers.add_custom(key, value) or { continue } }\<close>\<close>

definition add_context_headers :: "http_context \<Rightarrow> http_header \<Rightarrow> http_header" where
  "add_context_headers c h = fold (\<lambda>(k, v) h. add_custom k v h) (cx_headers c) h"

definition context_respond :: "string \<Rightarrow> string \<Rightarrow> http_context \<Rightarrow> http_response" where
  "context_respond content_type data c =
     \<lparr>rs_status_code = cx_status_code c,
      rs_header = add_context_headers c (add_custom ''Connection'' ''keep-alive'' (add_custom ''Content-Type'' content_type [])),
      rs_body = data\<rparr>"

definition context_json :: "string \<Rightarrow> http_context \<Rightarrow> http_response" where
  "context_json data c = context_respond ''application/json; charset=utf-8'' data c"

definition context_text :: "string \<Rightarrow> http_context \<Rightarrow> http_response" where
  "context_text data c = context_respond ''text/plain; charset=utf-8'' data c"

definition context_html :: "string \<Rightarrow> http_context \<Rightarrow> http_response" where
  "context_html data c = context_respond ''text/html; charset=utf-8'' data c"

definition build_headers_response :: "string \<Rightarrow> http_context \<Rightarrow> http_response" where
  "build_headers_response body c =
     \<lparr>rs_status_code = cx_status_code c, rs_header = add_context_headers c (add_custom ''Connection'' ''keep-alive'' []),
      rs_body = body\<rparr>"

definition context_status :: "int \<Rightarrow> http_context \<Rightarrow> http_context" where
  "context_status code c = c\<lparr>cx_status_code := code\<rparr>"

definition context_get :: "string \<Rightarrow> http_context \<Rightarrow> string option" where
  "context_get key c = vget (cx_store c) key"

definition context_set :: "string \<Rightarrow> string \<Rightarrow> http_context \<Rightarrow> http_context" where
  "context_set key value c = c\<lparr>cx_store := vset key value (cx_store c)\<rparr>"

definition get_client_ip :: "http_context \<Rightarrow> string" where
  "get_client_ip c =
     (let forwarded = (case get_custom (hq_header (cx_req c)) ''X-Forwarded-For'' of None \<Rightarrow> ''''
        | Some f \<Rightarrow> trim_space (hd (v_split (CHR '','') f)));
          real = (case get_custom (hq_header (cx_req c)) ''X-Real-IP'' of None \<Rightarrow> '''' | Some r \<Rightarrow> trim_space r)
      in if forwarded \<noteq> '''' then forwarded else if real \<noteq> '''' then real else ''127.0.0.1'')"

definition context_redirect :: "string \<Rightarrow> int list \<Rightarrow> http_context \<Rightarrow> http_response \<times> http_context" where
  "context_redirect url status_code c =
     (let c1 = context_status (case status_code of [] \<Rightarrow> 302 | code # _ \<Rightarrow> code) c;
          c2 = c1\<lparr>cx_headers := vset ''Location'' url (cx_headers c1)\<rparr>
      in (build_headers_response '''' c2, c2))"

text \<open>Handlers and middleware: a handler may change the context; a middleware also takes the rest of the chain.\<close>

type_synonym handler_fn = "http_context \<Rightarrow> http_response \<times> http_context"
type_synonym context_middleware = "http_context \<Rightarrow> handler_fn \<Rightarrow> http_response \<times> http_context"

definition set_header :: "string \<Rightarrow> string \<Rightarrow> http_context \<Rightarrow> http_context" where
  "set_header key value c = c\<lparr>cx_headers := vset key value (cx_headers c)\<rparr>"

section \<open>Facts\<close>

lemma add_context_headers_eq: "add_context_headers c h = h @ filter (\<lambda>(k, v). valid_header_name k) (cx_headers c)"
proof -
  have "fold (\<lambda>(k, v) h. add_custom k v h) kvs h = h @ filter (\<lambda>(k, v). valid_header_name k) kvs" for kvs h
    by (induction kvs arbitrary: h) (auto simp: add_custom_def)
  then show ?thesis by (simp add: add_context_headers_def)
qed

lemma trim_space_empty [simp]: "trim_space '''' = ''''"
  by (simp add: trim_space_def)

lemma default_names_valid [simp]: "valid_header_name ''Content-Type''" "valid_header_name ''Connection''"
  "valid_header_name ''Location''"
  by code_simp+

text \<open>A response keeps the default content type: a handler that sets its own gets a second field, behind the default.\<close>

theorem context_content_type:
  "get_custom (rs_header (context_respond t data c)) ''Content-Type'' = Some t"
  by (simp add: context_respond_def add_context_headers_eq add_custom_def get_custom_def)

text \<open>The store returns what was set last.\<close>

theorem context_get_set: "context_get k (context_set k' v c) = (if k = k' then Some v else context_get k c)"
  by (simp add: context_get_def context_set_def)

theorem redirect_location:
  assumes "list_all (\<lambda>(k, v). v_to_lower k \<noteq> ''location'' \<or> k = ''Location'') (cx_headers c)"
  shows "get_custom (rs_header (fst (context_redirect url codes c))) ''Location'' = Some url"
proof -
  let ?P = "\<lambda>(k, v). v_to_lower k = ''location''"
  have lower: "v_to_lower ''Location'' = ''location''" "v_to_lower ''Connection'' = ''connection''" by code_simp+
  have "List.find ?P (filter (\<lambda>(k, v). valid_header_name k) (vset ''Location'' url kvs)) = Some (''Location'', url)"
    if "list_all (\<lambda>(k, v). v_to_lower k \<noteq> ''location'' \<or> k = ''Location'') kvs" for kvs
    using that by (induction kvs) (auto simp: lower)
  from this [OF assms(1)] show ?thesis
    by (simp add: context_redirect_def build_headers_response_def add_context_headers_eq add_custom_def
        get_custom_def context_status_def lower Let_def)
qed

end
