(* ===== verification/Ws_Handshake.thy ===== *)
theory Ws_Handshake
  imports Ws_Context Http_Context
begin

text \<open>
  The opening handshake of \<^verbatim>\<open>websocket.v\<close>: checking the upgrade request, choosing the subprotocol, the accept key
  and the handler that \<^verbatim>\<open>upgrade_websocket\<close> returns, which works on the context of \<open>Http_Context\<close>.

  Shown here: which requests are upgraded and with what answer, that a refused request changes nothing, that the
  chosen subprotocol is the first of the client's that the server supports, and the relation to the
  quick test \<^verbatim>\<open>is_websocket_upgrade\<close>.
\<close>

unbundle bit_operations_syntax

section \<open>The accept key\<close>

definition ws_magic_guid :: string where
  "ws_magic_guid = ''258EAFA5-E914-47DA-95CA-C5AB0DC85B11''"

definition compute_accept_key :: "string \<Rightarrow> string" where
  "compute_accept_key key = base64_encode (sha1_sum (v_bytes (key @ ws_magic_guid)))"

section \<open>The request\<close>

text \<open>\<^verbatim>\<open>c.req.header.get_custom(name)\<close>\<close>

abbreviation ws_header_field :: "http_context \<Rightarrow> string \<Rightarrow> string option" where
  "ws_header_field c name \<equiv> get_custom (hq_header (cx_req c)) name"

definition validate_upgrade_request :: "http_context \<Rightarrow> string + string" where
  "validate_upgrade_request c =
     (case ws_header_field c ''Upgrade'' of None \<Rightarrow> Inl ''Missing Upgrade header''
      | Some upgrade \<Rightarrow>
        if v_to_lower upgrade \<noteq> ''websocket'' then Inl ''Invalid Upgrade header''
        else case ws_header_field c ''Connection'' of None \<Rightarrow> Inl ''Missing Connection header''
        | Some connection \<Rightarrow>
          if \<not> v_contains_str (v_to_lower connection) ''upgrade'' then Inl ''Invalid Connection header''
          else case ws_header_field c ''Sec-WebSocket-Key'' of None \<Rightarrow> Inl ''Missing Sec-WebSocket-Key header''
          | Some ws_key \<Rightarrow>
            if length ws_key = 0 then Inl ''Empty Sec-WebSocket-Key header''
            else if (case ws_header_field c ''Sec-WebSocket-Version'' of None \<Rightarrow> ''13'' | Some v \<Rightarrow> v) \<noteq> ''13''
            then Inl ''Unsupported WebSocket version''
            else Inr ws_key)"

definition is_websocket_upgrade :: "http_context \<Rightarrow> bool" where
  "is_websocket_upgrade c =
     (case ws_header_field c ''Upgrade'' of None \<Rightarrow> False
      | Some upgrade \<Rightarrow>
        if v_to_lower upgrade \<noteq> ''websocket'' then False
        else case ws_header_field c ''Connection'' of None \<Rightarrow> False
        | Some connection \<Rightarrow>
          if \<not> v_contains_str (v_to_lower connection) ''upgrade'' then False
          else ws_header_field c ''Sec-WebSocket-Key'' \<noteq> None)"

definition negotiate_subprotocol :: "http_context \<Rightarrow> string list \<Rightarrow> string" where
  "negotiate_subprotocol c supported_protocols =
     (if length supported_protocols = 0 then ''''
      else
        let client_protocols = (case ws_header_field c ''Sec-WebSocket-Protocol'' of None \<Rightarrow> '''' | Some p \<Rightarrow> p) in
        if length client_protocols = 0 then ''''
        else
          let requested = map trim_space (v_split (CHR '','') client_protocols) in
          case List.find (\<lambda>proto. proto \<in> set supported_protocols) requested of None \<Rightarrow> '''' | Some proto \<Rightarrow> proto)"

text \<open>The subprotocols the client asks for.\<close>

definition requested_protocols :: "http_context \<Rightarrow> string list" where
  "requested_protocols c = map trim_space (v_split (CHR '','')
     (case ws_header_field c ''Sec-WebSocket-Protocol'' of None \<Rightarrow> '''' | Some p \<Rightarrow> p))"

text \<open>The requests that RFC 6455 asks a server to accept, as far as the code looks.\<close>

definition upgrade_request_ok :: "http_context \<Rightarrow> string \<Rightarrow> bool" where
  "upgrade_request_ok c key \<longleftrightarrow>
     (\<exists>u n. ws_header_field c ''Upgrade'' = Some u \<and> v_to_lower u = ''websocket''
       \<and> ws_header_field c ''Connection'' = Some n \<and> v_contains_str (v_to_lower n) ''upgrade'')
     \<and> ws_header_field c ''Sec-WebSocket-Key'' = Some key \<and> key \<noteq> ''''
     \<and> ws_header_field c ''Sec-WebSocket-Version'' \<in> {None, Some ''13''}"

section \<open>The answer\<close>

definition create_handshake_response :: "string \<Rightarrow> string \<Rightarrow> http_response" where
  "create_handshake_response key protocol =
     \<lparr>rs_status_code = 101,
      rs_header = [(''Upgrade'', ''websocket''), (''Connection'', ''Upgrade''), (''Sec-WebSocket-Accept'', compute_accept_key key)]
        @ (if length protocol > 0 then [(''Sec-WebSocket-Protocol'', protocol)] else []),
      rs_body = ''''\<rparr>"

record ws_options =
  wo_ping_interval :: int
  wo_max_message_size :: int
  wo_timeout :: int
  wo_protocols :: "string list"

definition default_ws_options :: ws_options where
  "default_ws_options = \<lparr>wo_ping_interval = 30000, wo_max_message_size = 1048576, wo_timeout = 60000, wo_protocols = []\<rparr>"

text \<open>The handler that \<^verbatim>\<open>upgrade_websocket\<close> returns: the response, the request context with its new store, and the
  connection as the \<^verbatim>\<open>on_open\<close> callback leaves it (none when the request is refused).\<close>

definition upgrade_websocket ::
  "(http_context \<Rightarrow> 'h ws_events) \<Rightarrow> ws_options list \<Rightarrow> http_context \<Rightarrow> http_response \<times> http_context \<times> 'h ws_context option" where
  "upgrade_websocket factory options c =
     (let opts = (case options of [] \<Rightarrow> default_ws_options | o1 # _ \<Rightarrow> o1) in
      case validate_upgrade_request c of
        Inl err \<Rightarrow> (\<lparr>rs_status_code = 400, rs_header = [(''Content-Type'', ''text/plain'')], rs_body = ''Bad Request: '' @ err\<rparr>, c, None)
      | Inr ws_key \<Rightarrow>
        let protocol = negotiate_subprotocol c (wo_protocols opts);
            ws_ctx = create_ws_context (cx_params c) (cx_query c) (cx_store c) protocol;
            events = factory c;
            response = create_handshake_response ws_key protocol;
            store = fold (\<lambda>(k, v). vset k v)
              [(''_ws_upgrade'', ''true''), (''_ws_key'', ws_key), (''_ws_protocol'', protocol),
               (''_ws_ping_interval'', v_str (wo_ping_interval opts)),
               (''_ws_max_message_size'', v_str (wo_max_message_size opts)),
               (''_ws_timeout'', v_str (wo_timeout opts))] (cx_store c);
            ws_ctx = ws_ctx\<lparr>ws_ready_state := WS_open\<rparr>;
            ws_ctx = (case on_open events of None \<Rightarrow> ws_ctx | Some f \<Rightarrow> f ws_ctx)
        in (response, c\<lparr>cx_store := store\<rparr>, Some ws_ctx))"

section \<open>Facts\<close>

lemma validate_ok_iff: "validate_upgrade_request c = Inr key \<longleftrightarrow> upgrade_request_ok c key"
  by (auto simp: validate_upgrade_request_def upgrade_request_ok_def split: option.splits if_splits)

lemma accept_header:
  "get_custom (rs_header (create_handshake_response key protocol)) ''Sec-WebSocket-Accept'' = Some (compute_accept_key key)"
proof -
  have "v_to_lower ''Sec-WebSocket-Accept'' = ''sec-websocket-accept''" "v_to_lower ''Upgrade'' = ''upgrade''"
    "v_to_lower ''Connection'' = ''connection''" by code_simp+
  then show ?thesis by (simp add: create_handshake_response_def get_custom_def)
qed

lemma find_filter: "List.find P xs = (case filter P xs of [] \<Rightarrow> None | x # _ \<Rightarrow> Some x)"
  by (induction xs) auto

section \<open>Properties\<close>

text \<open>C37: the upgrade handler answers 101 to the acceptable requests and to no others.  Its answer then carries the
  accept key of the client's key, 28 characters long, the key is left in the store for the server, and the connection is
  created; a refused request gets 400, leaves the context as it was and creates no connection.\<close>

theorem ws_upgrade_decides:
  "case upgrade_websocket factory options c of (r, c', w) \<Rightarrow>
     if \<exists>key. upgrade_request_ok c key then
       (\<exists>key. upgrade_request_ok c key \<and> rs_status_code r = 101
          \<and> get_custom (rs_header r) ''Sec-WebSocket-Accept'' = Some (compute_accept_key key)
          \<and> length (compute_accept_key key) = 28
          \<and> vget (cx_store c') ''_ws_key'' = Some key \<and> vget (cx_store c') ''_ws_upgrade'' = Some ''true'' \<and> w \<noteq> None)
     else rs_status_code r = 400 \<and> c' = c \<and> w = None"
proof (cases "validate_upgrade_request c")
  case (Inl err)
  then have "\<nexists>key. upgrade_request_ok c key" using validate_ok_iff [of c] by auto
  with Inl show ?thesis by (simp add: upgrade_websocket_def Let_def)
next
  case (Inr key)
  then have ok: "upgrade_request_ok c key" by (simp add: validate_ok_iff)
  have "length (compute_accept_key key) = 28" by (simp add: compute_accept_key_def length_base64)
  moreover have "rs_status_code (create_handshake_response key p) = 101" for p
    by (simp add: create_handshake_response_def)
  ultimately show ?thesis
    using Inr ok accept_header [of key]
    by (auto simp: upgrade_websocket_def Let_def intro!: exI [of _ key])
qed

text \<open>The negotiated subprotocol is the first one of the client's list that the server supports, and empty when
  there is none.\<close>

theorem ws_negotiates_first:
  "negotiate_subprotocol c supported =
     (case filter (\<lambda>p. p \<in> set supported) (requested_protocols c) of [] \<Rightarrow> '''' | p # _ \<Rightarrow> p)"
  by (auto simp: negotiate_subprotocol_def requested_protocols_def find_filter Let_def split: option.splits list.splits)

text \<open>The quick test of the servers holds for every acceptable request; it also holds for some that are refused, those
  with an empty key or another version.\<close>

theorem quick_test_weaker: "upgrade_request_ok c key \<Longrightarrow> is_websocket_upgrade c"
  by (auto simp: upgrade_request_ok_def is_websocket_upgrade_def)


text \<open>The connection that the handler passes to \<^verbatim>\<open>on_open\<close> has no sender yet: sending on it reports success and sends
  nothing.\<close>

theorem ws_on_open_send_lost:
  "ws_send env data ((create_ws_context p q s protocol)\<lparr>ws_ready_state := WS_open\<rparr>)
     = (None, (create_ws_context p q s protocol)\<lparr>ws_ready_state := WS_open\<rparr>)"
  by (simp add: ws_send_def ws_transmit_def create_ws_context_def)

end
