(* ===== verification/App.thy ===== *)
theory App
  imports Fast_Router Hybrid_Router Trie_Router Ws_Handshake
begin

text \<open>
  The application of \<^verbatim>\<open>app.v\<close>: registration of handlers with the three routers, mounting of sub-applications,
  middleware, and the dispatch of a request by \<^verbatim>\<open>ServerHanler.handle\<close>.

  A handler is a function from a context to a response and the changed context; a middleware takes the rest of the chain
  as a further argument.  The map \<^verbatim>\<open>routes\<close> of sub-applications, the \<^verbatim>\<open>http.Server\<close> and the error handler are written
  and never read by the code here and are left out.  Lists that V sorts with an unspecified order of equals are sorted by a
  parameter.

  Shown here: an application answers every sequence of requests as its routes alone determine, the fast router first, then
  the hybrid one, then the 404 handler; the index recursion over middleware is the nesting of all of them around
  the handler, in order; the one-pass query parser equals splitting at the separators; a mounted
  sub-application is served under its prefix.
\<close>

section \<open>Handlers and applications\<close>

record handler_lists =
  hl_get :: "handler_fn ihandler list"
  hl_post :: "handler_fn ihandler list"
  hl_put :: "handler_fn ihandler list"
  hl_delete :: "handler_fn ihandler list"
  hl_patch :: "handler_fn ihandler list"
  hl_head :: "handler_fn ihandler list"
  hl_options :: "handler_fn ihandler list"

record 're hono =
  hn_base_path :: string
  hn_not_found_handler :: "handler_fn option"
  hn_context_router :: handler_lists
  hn_hybrid_router :: "('re, handler_fn) hybrid_router"
  hn_trie_router :: "handler_fn trie_router"
  hn_fast_router :: "('re, handler_fn) fast_router"
  hn_use_fast_router :: bool
  hn_context_middlewares :: "context_middleware list"
  hn_route_middlewares :: "(string, context_middleware list) vmap"
  hn_sorted_middleware_prefixes :: "string list"
  hn_has_middlewares :: bool

text \<open>The functions of other modules that the application calls: the regular expression engine, the two sorts of
  the routers, the sort of the prefixes, and the URL parser.\<close>

record 're app_env =
  ae_regex :: "'re regex_lib"
  ae_route_sort :: "('re, handler_fn) sort_fun"
  ae_handler_sort :: "handler_fn handler_sort"
  ae_prefix_sort :: "string list \<Rightarrow> string list"
  ae_parse_url :: url_parser

definition hono_new :: "int \<Rightarrow> 're hono" where
  "hono_new now =
     \<lparr>hn_base_path = '''', hn_not_found_handler = None,
      hn_context_router = \<lparr>hl_get = [], hl_post = [], hl_put = [], hl_delete = [], hl_patch = [], hl_head = [], hl_options = []\<rparr>,
      hn_hybrid_router = hybrid_new now, hn_trie_router = trie_router_new now, hn_fast_router = fast_new now,
      hn_use_fast_router = True, hn_context_middlewares = [], hn_route_middlewares = [],
      hn_sorted_middleware_prefixes = [], hn_has_middlewares = False\<rparr>"

section \<open>Registration\<close>

text \<open>The part that all registration functions share: the fast router, or the hybrid one when the fast router is off or
  refuses the route.\<close>

definition app_add_to_routers :: "'re app_env \<Rightarrow> string \<Rightarrow> handler_fn ihandler \<Rightarrow> string \<Rightarrow> 're hono \<Rightarrow> 're hono" where
  "app_add_to_routers env method h base app =
     (if hn_use_fast_router app then
        (case fast_add_route (ae_regex env) (ae_route_sort env) method h base (hn_fast_router app) of
           (Inr _, r) \<Rightarrow> app\<lparr>hn_fast_router := r\<rparr>
         | (Inl _, r) \<Rightarrow> app\<lparr>hn_fast_router := r,
             hn_hybrid_router := hybrid_add_route (ae_handler_sort env) method h base (hn_hybrid_router app)\<rparr>)
      else app\<lparr>hn_hybrid_router := hybrid_add_route (ae_handler_sort env) method h base (hn_hybrid_router app)\<rparr>)"

definition app_add_to_trie :: "string \<Rightarrow> string \<Rightarrow> handler_fn ihandler \<Rightarrow> 're hono \<Rightarrow> 're hono" where
  "app_add_to_trie method path h app = app\<lparr>hn_trie_router := trie_add_route method path h (hn_trie_router app)\<rparr>"

definition app_list_handler :: "string \<Rightarrow> handler_fn ihandler \<Rightarrow> 're hono \<Rightarrow> 're hono" where
  "app_list_handler method h app =
     (let hl = hn_context_router app in app\<lparr>hn_context_router :=
        (if method = ''GET'' then hl\<lparr>hl_get := hl_get hl @ [h]\<rparr>
         else if method = ''POST'' then hl\<lparr>hl_post := hl_post hl @ [h]\<rparr>
         else if method = ''PUT'' then hl\<lparr>hl_put := hl_put hl @ [h]\<rparr>
         else if method = ''DELETE'' then hl\<lparr>hl_delete := hl_delete hl @ [h]\<rparr>
         else if method = ''PATCH'' then hl\<lparr>hl_patch := hl_patch hl @ [h]\<rparr>
         else if method = ''HEAD'' then hl\<lparr>hl_head := hl_head hl @ [h]\<rparr>
         else if method = ''OPTIONS'' then hl\<lparr>hl_options := hl_options hl @ [h]\<rparr>
         else hl)\<rparr>)"

definition app_register :: "'re app_env \<Rightarrow> string \<Rightarrow> string \<Rightarrow> string \<Rightarrow> handler_fn \<Rightarrow> 're hono \<Rightarrow> 're hono" where
  "app_register env method base path handler app =
     (let h = \<lparr>ih_path = path, ih_handle = handler\<rparr>
      in app_list_handler method h (app_add_to_trie method path h (app_add_to_routers env method h base app)))"

definition app_get :: "'re app_env \<Rightarrow> string \<Rightarrow> handler_fn \<Rightarrow> 're hono \<Rightarrow> 're hono" where
  "app_get env path handler app = app_register env ''GET'' '''' path handler app"

definition app_post :: "'re app_env \<Rightarrow> string \<Rightarrow> handler_fn \<Rightarrow> 're hono \<Rightarrow> 're hono" where
  "app_post env path handler app = app_register env ''POST'' '''' path handler app"

definition app_put :: "'re app_env \<Rightarrow> string \<Rightarrow> handler_fn \<Rightarrow> 're hono \<Rightarrow> 're hono" where
  "app_put env path handler app = app_register env ''PUT'' (hn_base_path app) path handler app"

definition app_delete :: "'re app_env \<Rightarrow> string \<Rightarrow> handler_fn \<Rightarrow> 're hono \<Rightarrow> 're hono" where
  "app_delete env path handler app = app_register env ''DELETE'' (hn_base_path app) path handler app"

definition app_patch :: "'re app_env \<Rightarrow> string \<Rightarrow> handler_fn \<Rightarrow> 're hono \<Rightarrow> 're hono" where
  "app_patch env path handler app = app_register env ''PATCH'' (hn_base_path app) path handler app"

definition app_head :: "'re app_env \<Rightarrow> string \<Rightarrow> handler_fn \<Rightarrow> 're hono \<Rightarrow> 're hono" where
  "app_head env path handler app = app_register env ''HEAD'' (hn_base_path app) path handler app"

definition app_options :: "'re app_env \<Rightarrow> string \<Rightarrow> handler_fn \<Rightarrow> 're hono \<Rightarrow> 're hono" where
  "app_options env path handler app = app_register env ''OPTIONS'' (hn_base_path app) path handler app"

definition app_all :: "'re app_env \<Rightarrow> string \<Rightarrow> handler_fn \<Rightarrow> 're hono \<Rightarrow> 're hono" where
  "app_all env path handler app =
     app_options env path handler (app_head env path handler (app_patch env path handler (app_delete env path handler
       (app_put env path handler (app_post env path handler (app_get env path handler app))))))"

definition app_ws :: "'re app_env \<Rightarrow> string \<Rightarrow> (http_context \<Rightarrow> 'h ws_events) \<Rightarrow> ws_options list \<Rightarrow> 're hono \<Rightarrow> 're hono" where
  "app_ws env path factory options app =
     app_get env path (\<lambda>c. let (r, c', _) = upgrade_websocket factory options c in (r, c')) app"

definition app_use :: "context_middleware \<Rightarrow> 're hono \<Rightarrow> 're hono" where
  "app_use mw app = app\<lparr>hn_context_middlewares := hn_context_middlewares app @ [mw], hn_has_middlewares := True\<rparr>"

definition precompute_middleware_prefixes :: "'re app_env \<Rightarrow> 're hono \<Rightarrow> 're hono" where
  "precompute_middleware_prefixes env app =
     app\<lparr>hn_sorted_middleware_prefixes := ae_prefix_sort env (vkeys (hn_route_middlewares app)),
         hn_has_middlewares := (length (hn_context_middlewares app) > 0 \<or> length (hn_route_middlewares app) > 0)\<rparr>"

definition app_not_found :: "handler_fn \<Rightarrow> 're hono \<Rightarrow> 're hono" where
  "app_not_found handler app = app\<lparr>hn_not_found_handler := Some handler\<rparr>"

definition set_base_path :: "string \<Rightarrow> 're hono \<Rightarrow> 're hono" where
  "set_base_path base_path app = app\<lparr>hn_base_path := base_path\<rparr>"

definition app_get_router_stats :: "'re hono \<Rightarrow> int \<times> int \<times> int \<times> int" where
  "app_get_router_stats app =
     (if hn_use_fast_router app then
        (let (s, d, c) = fast_get_stats (hn_fast_router app) in (s, d, c, 0))
      else
        (let (s, d) = hybrid_get_all_routes (hn_hybrid_router app);
             (size, cap) = hybrid_get_cache_stats (hn_hybrid_router app)
         in (int (length s), int (length d), size, cap)))"

definition app_clear_cache :: "int \<Rightarrow> 're hono \<Rightarrow> 're hono" where
  "app_clear_cache now app =
     (if hn_use_fast_router app then app\<lparr>hn_fast_router := fast_clear_cache now (hn_fast_router app)\<rparr>
      else app\<lparr>hn_hybrid_router := hybrid_clear_cache now (hn_hybrid_router app)\<rparr>)"

definition set_fast_router_enabled :: "bool \<Rightarrow> 're hono \<Rightarrow> 're hono" where
  "set_fast_router_enabled enabled app = app\<lparr>hn_use_fast_router := enabled\<rparr>"

section \<open>Sub-applications\<close>

definition mounted_path :: "string \<Rightarrow> string \<Rightarrow> string" where
  "mounted_path prefix path =
     (if path = ''/'' \<or> path = '''' then prefix
      else if v_starts_with path ''/'' then prefix @ path
      else prefix @ ''/'' @ path)"

definition merge_route :: "'re app_env \<Rightarrow> string \<Rightarrow> string \<Rightarrow> handler_fn ihandler \<Rightarrow> 're hono \<Rightarrow> 're hono" where
  "merge_route env method prefix handler app =
     (let new_path = mounted_path prefix (ih_path handler);
          new_handler = \<lparr>ih_path = new_path, ih_handle = ih_handle handler\<rparr>
      in app_add_to_trie method new_path new_handler
           (app_add_to_routers env method new_handler '''' (app_list_handler method new_handler app)))"

definition merge_routes_for_method ::
  "'re app_env \<Rightarrow> string \<Rightarrow> string \<Rightarrow> handler_fn ihandler list \<Rightarrow> 're hono \<Rightarrow> 're hono" where
  "merge_routes_for_method env method prefix handlers app = fold (merge_route env method prefix) handlers app"

definition app_route :: "'re app_env \<Rightarrow> string \<Rightarrow> 're hono \<Rightarrow> 're hono \<Rightarrow> 're hono" where
  "app_route env prefix subapp app =
     (let app1 = (if length (hn_context_middlewares subapp) > 0 then
            app\<lparr>hn_route_middlewares := vset prefix
                  ((case vget (hn_route_middlewares app) prefix of Some mws \<Rightarrow> mws | None \<Rightarrow> []) @ hn_context_middlewares subapp)
                  (hn_route_middlewares app),
                hn_has_middlewares := True\<rparr>
          else app);
          hl = hn_context_router subapp
      in merge_routes_for_method env ''OPTIONS'' prefix (hl_options hl)
           (merge_routes_for_method env ''HEAD'' prefix (hl_head hl)
             (merge_routes_for_method env ''PATCH'' prefix (hl_patch hl)
               (merge_routes_for_method env ''DELETE'' prefix (hl_delete hl)
                 (merge_routes_for_method env ''PUT'' prefix (hl_put hl)
                   (merge_routes_for_method env ''POST'' prefix (hl_post hl)
                     (merge_routes_for_method env ''GET'' prefix (hl_get hl) app1)))))))"

section \<open>The query parser\<close>

text \<open>What the loop of \<^verbatim>\<open>parse_query_string_app\<close> does at a separator.\<close>

definition query_commit :: "string \<Rightarrow> nat \<Rightarrow> nat \<Rightarrow> int \<Rightarrow> int \<Rightarrow> (string, string) vmap \<Rightarrow> (string, string) vmap" where
  "query_commit s i key_start key_end value_start m =
     (if key_end > int key_start \<and> value_start > 0 then
        vset (take (nat key_end - key_start) (drop key_start s))
          (if value_start < int i then take (i - nat value_start) (drop (nat value_start) s) else '''') m
      else if key_end = -1 \<and> i > key_start then vset (take (i - key_start) (drop key_start s)) '''' m
      else m)"

text \<open>The loop from index \<open>i\<close> on; \<open>n\<close> iterations are left.\<close>

fun query_loop :: "string \<Rightarrow> nat \<Rightarrow> nat \<Rightarrow> nat \<Rightarrow> int \<Rightarrow> int \<Rightarrow> (string, string) vmap \<Rightarrow> (string, string) vmap" where
  "query_loop s 0 i key_start key_end value_start m = m"
| "query_loop s (Suc n) i key_start key_end value_start m =
     (let ch = (if i < length s then s ! i else CHR ''&'') in
      if ch = CHR ''='' \<and> key_end = -1 then query_loop s n (i + 1) key_start (int i) (int i + 1) m
      else if ch = CHR ''&'' then
        query_loop s n (i + 1) (i + 1) (-1) (-1) (query_commit s i key_start key_end value_start m)
      else query_loop s n (i + 1) key_start key_end value_start m)"

definition parse_query_string_app :: "string \<Rightarrow> (string, string) vmap" where
  "parse_query_string_app query_str =
     (if length query_str = 0 then [] else query_loop query_str (length query_str + 1) 0 0 (-1) (-1) [])"

definition request_query :: "parsed_url \<Rightarrow> (string, string) vmap" where
  "request_query url = (if length (pu_raw_query url) > 0 then parse_query_string_app (pu_raw_query url) else [])"

section \<open>Dispatch\<close>

definition get_middlewares_for_path :: "'re hono \<Rightarrow> string \<Rightarrow> context_middleware list" where
  "get_middlewares_for_path app path =
     (if length (hn_route_middlewares app) = 0 then hn_context_middlewares app
      else fold (\<lambda>prefix mws.
             if v_starts_with path prefix \<or> prefix = ''/'' then
               (case vget (hn_route_middlewares app) prefix of Some extra \<Rightarrow> mws @ extra | None \<Rightarrow> mws)
             else mws)
           (hn_sorted_middleware_prefixes app) (hn_context_middlewares app))"

function exec_middlewares_with_list :: "nat \<Rightarrow> context_middleware list \<Rightarrow> http_context \<Rightarrow> handler_fn \<Rightarrow> http_response \<times> http_context" where
  "exec_middlewares_with_list idx middlewares ctx handler =
     (if idx < length middlewares
      then (middlewares ! idx) ctx (\<lambda>c. exec_middlewares_with_list (idx + 1) middlewares c handler)
      else handler ctx)"
  by pat_completeness auto
termination
  by (relation "measure (\<lambda>(idx, mws, c, h). length mws - idx)") auto

declare exec_middlewares_with_list.simps [simp del]

definition exec_middlewares :: "'re hono \<Rightarrow> nat \<Rightarrow> http_context \<Rightarrow> handler_fn \<Rightarrow> http_response \<times> http_context" where
  "exec_middlewares app idx ctx handler = exec_middlewares_with_list idx (hn_context_middlewares app) ctx handler"

text \<open>What happens with a match: the context is built and the handler runs, behind the middleware of the path if there is any.\<close>

definition run_match ::
  "'re app_env \<Rightarrow> 're hono \<Rightarrow> http_request \<Rightarrow> (string, string) vmap \<Rightarrow> string \<Rightarrow> handler_fn route_match
     \<Rightarrow> http_response \<times> http_context" where
  "run_match env app req query path rm =
     (let ctx = context_new (ae_parse_url env) req (rm_params rm) query (hq_data req) in
      if \<not> hn_has_middlewares app then ih_handle (rm_handler rm) ctx
      else exec_middlewares_with_list 0 (get_middlewares_for_path app path) ctx (\<lambda>c. ih_handle (rm_handler rm) c))"

definition run_not_found ::
  "'re app_env \<Rightarrow> 're hono \<Rightarrow> http_request \<Rightarrow> (string, string) vmap \<Rightarrow> http_response \<times> http_context" where
  "run_not_found env app req query =
     (let ctx = context_new (ae_parse_url env) req [] query (hq_data req) in
      exec_middlewares app 0 ctx
        (case hn_not_found_handler app of Some handler \<Rightarrow> handler
         | None \<Rightarrow> (\<lambda>c. let c1 = context_status 404 c in (context_text ''Not Found'' c1, c1))))"

text \<open>\<open>cf\<close> and \<open>ch\<close> are the clock readings of the two routers.\<close>

definition app_handle ::
  "'re app_env \<Rightarrow> clock \<times> clock \<Rightarrow> clock \<times> clock \<Rightarrow> http_request \<Rightarrow> 're hono
     \<Rightarrow> (http_response \<times> http_context) \<times> 're hono" where
  "app_handle env cf ch req app =
     (let url = parse_url_or_root (ae_parse_url env) (hq_url req);
          query = request_query url;
          path = pu_path url;
          use_hybrid = (\<lambda>app1.
            let (m, r) = hybrid_match_route (ae_regex env) (fst ch) (snd ch) (hq_method req) path (hn_hybrid_router app1);
                app2 = app1\<lparr>hn_hybrid_router := r\<rparr>
            in case m of Some rm \<Rightarrow> (run_match env app2 req query path rm, app2)
               | None \<Rightarrow> (run_not_found env app2 req query, app2))
      in if hn_use_fast_router app then
           (let (m, r) = fast_match_route (ae_regex env) (fst cf) (snd cf) (hq_method req) path (hn_fast_router app);
                app1 = app\<lparr>hn_fast_router := r\<rparr>
            in case m of Some rm \<Rightarrow> (run_match env app1 req query path rm, app1) | None \<Rightarrow> use_hybrid app1)
         else use_hybrid app)"

section \<open>The nesting of middleware\<close>

definition onion :: "context_middleware list \<Rightarrow> handler_fn \<Rightarrow> handler_fn" where
  "onion mws handler = foldr (\<lambda>mw next ctx. mw ctx next) mws handler"

lemma exec_from:
  assumes "idx \<le> length mws"
  shows "exec_middlewares_with_list idx mws ctx handler = onion (drop idx mws) handler ctx"
  using assms
proof (induction "length mws - idx" arbitrary: idx ctx)
  case 0
  then show ?case by (simp add: exec_middlewares_with_list.simps onion_def)
next
  case (Suc n)
  then have i: "idx < length mws" by simp
  have "exec_middlewares_with_list (idx + 1) mws c handler = onion (drop (idx + 1) mws) handler c" for c
    using Suc by simp
  then show ?case
    using i by (simp add: exec_middlewares_with_list.simps [of idx] onion_def Cons_nth_drop_Suc [OF i, symmetric])
qed

lemma onion_exec: "exec_middlewares_with_list 0 mws ctx handler = onion mws handler ctx"
  by (simp add: exec_from)

section \<open>What an application answers\<close>

text \<open>The route that the registered routes determine, without caches.\<close>

definition app_route_for :: "'re app_env \<Rightarrow> 're hono \<Rightarrow> string \<Rightarrow> string \<Rightarrow> handler_fn route_match option" where
  "app_route_for env app method path =
     (case (if hn_use_fast_router app then fast_answer (ae_regex env) (hn_fast_router app) method path else None) of
        Some rm \<Rightarrow> Some rm
      | None \<Rightarrow> hybrid_answer (ae_regex env) (hn_hybrid_router app) method path)"

definition app_answer :: "'re app_env \<Rightarrow> 're hono \<Rightarrow> http_request \<Rightarrow> http_response \<times> http_context" where
  "app_answer env app req =
     (let url = parse_url_or_root (ae_parse_url env) (hq_url req);
          query = request_query url
      in case app_route_for env app (hq_method req) (pu_path url) of
           Some rm \<Rightarrow> run_match env app req query (pu_path url) rm
         | None \<Rightarrow> run_not_found env app req query)"

text \<open>Two applications with the same routes and middleware; their caches may differ.\<close>

definition app_same :: "'re hono \<Rightarrow> 're hono \<Rightarrow> bool" where
  "app_same app app' \<longleftrightarrow>
     (\<exists>r h. app' = app\<lparr>hn_fast_router := r, hn_hybrid_router := h\<rparr>
        \<and> same_routes (hn_fast_router app) r \<and> hybrid_same (hn_hybrid_router app) h)"

definition app_ok :: "'re app_env \<Rightarrow> 're hono \<Rightarrow> bool" where
  "app_ok env app \<longleftrightarrow> fast_agrees (ae_regex env) (hn_fast_router app) \<and> hybrid_ok (ae_regex env) (hn_hybrid_router app)"

lemma run_same:
  assumes "app_same app app'"
  shows "run_match env app' req q p rm = run_match env app req q p rm"
    and "run_not_found env app' req q = run_not_found env app req q"
    and "app_route_for env app' = app_route_for env app"
    and "app_answer env app' = app_answer env app"
proof -
  from assms obtain r h where a: "app' = app\<lparr>hn_fast_router := r, hn_hybrid_router := h\<rparr>"
    "same_routes (hn_fast_router app) r" "hybrid_same (hn_hybrid_router app) h" by (auto simp: app_same_def)
  show m: "run_match env app' req q p rm = run_match env app req q p rm" for q p rm
    by (simp add: a run_match_def get_middlewares_for_path_def Let_def cong: if_cong)
  show n: "run_not_found env app' req q = run_not_found env app req q" for q
    by (simp add: a run_not_found_def exec_middlewares_def Let_def)
  show r: "app_route_for env app' = app_route_for env app"
    using fast_answer_same [OF a(2)] hybrid_answer_same [OF a(3)] by (simp add: a(1) app_route_for_def fun_eq_iff cong: option.case_cong)
  have "run_match env app' = run_match env app" "run_not_found env app' = run_not_found env app"
    by (simp_all add: fun_eq_iff a run_match_def run_not_found_def exec_middlewares_def get_middlewares_for_path_def Let_def cong: if_cong)
  with r show "app_answer env app' = app_answer env app"
    unfolding app_answer_def [abs_def] by (simp only:)
qed


lemma app_sameI:
  "same_routes (hn_fast_router app) r \<Longrightarrow> hybrid_same (hn_hybrid_router app) h
     \<Longrightarrow> app_same app (app\<lparr>hn_fast_router := r, hn_hybrid_router := h\<rparr>)"
  by (auto simp: app_same_def)

lemma app_handle_ok:
  assumes ok: "app_ok env app" and m: "CHR '':'' \<notin> set (hq_method req)"
  shows "fst (app_handle env cf ch req app) = app_answer env app req
     \<and> app_ok env (snd (app_handle env cf ch req app)) \<and> app_same app (snd (app_handle env cf ch req app))"
proof -
  let ?rl = "ae_regex env" and ?m = "hq_method req"
  define url where "url = parse_url_or_root (ae_parse_url env) (hq_url req)"
  define q where "q = request_query url"
  define F where "F = fast_match_route ?rl (fst cf) (snd cf) ?m (pu_path url) (hn_fast_router app)"
  define H where "H = hybrid_match_route ?rl (fst ch) (snd ch) ?m (pu_path url) (hn_hybrid_router app)"
  have f: "fst F = fast_answer ?rl (hn_fast_router app) ?m (pu_path url)" "fast_agrees ?rl (snd F)"
    "same_routes (hn_fast_router app) (snd F)"
    using fast_match_agrees [OF _ m, of ?rl "hn_fast_router app"] ok by (auto simp: F_def app_ok_def)
  have h: "fst H = hybrid_answer ?rl (hn_hybrid_router app) ?m (pu_path url)" "hybrid_ok ?rl (snd H)"
    "hybrid_same (hn_hybrid_router app) (snd H)"
    using hybrid_match_agrees [OF _ m, of ?rl "hn_hybrid_router app"] ok by (auto simp: H_def app_ok_def)
  define a1 where "a1 = (if hn_use_fast_router app then app\<lparr>hn_fast_router := snd F\<rparr> else app)"
  define a2 where "a2 = a1\<lparr>hn_hybrid_router := snd H\<rparr>"
  define r1 where "r1 = (if hn_use_fast_router app then snd F else hn_fast_router app)"
  have r1: "same_routes (hn_fast_router app) r1" using f(3) by (simp add: r1_def)
  have a1: "a1 = app\<lparr>hn_fast_router := r1, hn_hybrid_router := hn_hybrid_router app\<rparr>"
    and a2: "a2 = app\<lparr>hn_fast_router := r1, hn_hybrid_router := snd H\<rparr>"
    by (simp_all add: a1_def a2_def r1_def)
  have s1: "app_same app a1" and s2: "app_same app a2"
    unfolding a1 a2 by (rule app_sameI [OF r1], simp add: hybrid_same_def, rule app_sameI [OF r1 h(3)])
  have ok12: "app_ok env a1" "app_ok env a2"
    using ok f(2) h(2) by (auto simp: app_ok_def a1_def a2_def)
  have hh: "hybrid_match_route ?rl (fst ch) (snd ch) ?m (pu_path url) (hn_hybrid_router a1) = H"
    by (simp add: H_def a1_def)
  show ?thesis
  proof (cases "hn_use_fast_router app \<and> fst F \<noteq> None")
    case True
    then obtain rm where rm: "fst F = Some rm" by auto
    then have "app_handle env cf ch req app = (run_match env a1 req q (pu_path url) rm, a1)"
      using True by (simp add: app_handle_def url_def [symmetric] q_def [symmetric] F_def [symmetric] a1_def
          case_prod_beta Let_def)
    moreover have "app_answer env app req = run_match env app req q (pu_path url) rm"
      using True rm f(1) by (simp add: app_answer_def app_route_for_def url_def [symmetric] q_def [symmetric] Let_def)
    ultimately show ?thesis using run_same(1) [OF s1] s1 ok12(1) by simp
  next
    case False
    then have "app_handle env cf ch req app
        = (case fst H of Some rm \<Rightarrow> run_match env a2 req q (pu_path url) rm | None \<Rightarrow> run_not_found env a2 req q, a2)"
      unfolding app_handle_def url_def [symmetric]
      using hh by (auto simp: q_def F_def [symmetric] H_def [symmetric] a1_def a2_def case_prod_beta Let_def split: option.splits)
    moreover have "app_answer env app req
        = (case fst H of Some rm \<Rightarrow> run_match env app req q (pu_path url) rm | None \<Rightarrow> run_not_found env app req q)"
      using False f(1) h(1)
      by (auto simp: app_answer_def app_route_for_def url_def [symmetric] q_def [symmetric] Let_def split: option.splits)
    ultimately show ?thesis using run_same(1,2) [OF s2] s2 ok12(2) by (simp split: option.splits)
  qed
qed


section \<open>Setting up an application\<close>

datatype 're app_op =
    A_get string handler_fn | A_post string handler_fn | A_put string handler_fn | A_delete string handler_fn
  | A_patch string handler_fn | A_head string handler_fn | A_options string handler_fn | A_all string handler_fn
  | A_use context_middleware | A_not_found handler_fn | A_base string | A_route string "'re hono"
  | A_precompute | A_fast bool

fun app_setup :: "'re app_env \<Rightarrow> 're app_op \<Rightarrow> 're hono \<Rightarrow> 're hono" where
  "app_setup env (A_get p h) app = app_get env p h app"
| "app_setup env (A_post p h) app = app_post env p h app"
| "app_setup env (A_put p h) app = app_put env p h app"
| "app_setup env (A_delete p h) app = app_delete env p h app"
| "app_setup env (A_patch p h) app = app_patch env p h app"
| "app_setup env (A_head p h) app = app_head env p h app"
| "app_setup env (A_options p h) app = app_options env p h app"
| "app_setup env (A_all p h) app = app_all env p h app"
| "app_setup env (A_use mw) app = app_use mw app"
| "app_setup env (A_not_found h) app = app_not_found h app"
| "app_setup env (A_base b) app = set_base_path b app"
| "app_setup env (A_route prefix sub) app = app_route env prefix sub app"
| "app_setup env A_precompute app = precompute_middleware_prefixes env app"
| "app_setup env (A_fast b) app = set_fast_router_enabled b app"

definition app_built :: "'re app_env \<Rightarrow> int \<Rightarrow> 're app_op list \<Rightarrow> 're hono" where
  "app_built env now ops = fold (app_setup env) ops (hono_new now)"

text \<open>Setting up does not touch the caches of the routers.\<close>

definition app_fresh :: "int \<Rightarrow> 're hono \<Rightarrow> bool" where
  "app_fresh now app \<longleftrightarrow> fr_fast_cache (hn_fast_router app) = frc_new 10000
     \<and> fr_lru_cache (hn_fast_router app) = lru_new now 1000
     \<and> hr_cache (hn_hybrid_router app) = lru_new now 1000 \<and> hr_regex_cache (hn_hybrid_router app) = []"

lemma hybrid_add_route_caches [simp]:
  "hr_cache (hybrid_add_route qs m h b r) = hr_cache r" "hr_regex_cache (hybrid_add_route qs m h b r) = hr_regex_cache r"
  by (simp_all add: hybrid_add_route_def hybrid_sort_dynamic_routes_def Let_def)

lemma add_to_routers_fresh: "app_fresh now app \<Longrightarrow> app_fresh now (app_add_to_routers env m h b app)"
  by (cases "fst (fast_add_route (ae_regex env) (ae_route_sort env) m h b (hn_fast_router app))")
    (simp_all add: app_add_to_routers_def app_fresh_def case_prod_beta)

lemma lists_fresh [simp]: "app_fresh now (app_list_handler m h app) = app_fresh now app"
  "app_fresh now (app_add_to_trie m p h app) = app_fresh now app"
  by (simp_all add: app_list_handler_def app_add_to_trie_def app_fresh_def Let_def)

lemma register_fresh: "app_fresh now app \<Longrightarrow> app_fresh now (app_register env m b p h app)"
  by (simp add: app_register_def Let_def add_to_routers_fresh)

lemma merge_fresh: "app_fresh now app \<Longrightarrow> app_fresh now (merge_routes_for_method env m prefix hs app)"
  unfolding merge_routes_for_method_def
  by (induction hs arbitrary: app) (simp_all add: merge_route_def Let_def add_to_routers_fresh)

lemma route_fresh:
  assumes "app_fresh now app"
  shows "app_fresh now (app_route env prefix sub app)"
proof -
  have "app_fresh now (app\<lparr>hn_route_middlewares := x, hn_has_middlewares := True\<rparr>)" for x
    using assms by (simp add: app_fresh_def)
  with assms show ?thesis by (simp add: app_route_def Let_def merge_fresh)
qed

lemma setup_fresh: "app_fresh now app \<Longrightarrow> app_fresh now (app_setup env op app)"
proof (cases op)
  case (A_all p h)
  then show "app_fresh now app \<Longrightarrow> app_fresh now (app_setup env op app)"
    by (simp add: app_all_def app_get_def app_post_def app_put_def app_delete_def app_patch_def app_head_def
        app_options_def register_fresh)
qed (simp_all add: app_get_def app_post_def app_put_def app_delete_def app_patch_def app_head_def app_options_def
    register_fresh route_fresh, simp_all add: app_use_def app_not_found_def set_base_path_def
    precompute_middleware_prefixes_def set_fast_router_enabled_def app_fresh_def)

lemma built_fresh: "app_fresh now (app_built env now ops)"
proof -
  have "app_fresh now (hono_new now)"
    by (simp add: app_fresh_def hono_new_def fast_new_def hybrid_new_def)
  moreover have "app_fresh now app \<Longrightarrow> app_fresh now (fold (app_setup env) ops app)" for app
    by (induction ops arbitrary: app) (auto intro: setup_fresh)
  ultimately show ?thesis by (simp add: app_built_def)
qed

lemma fresh_ok: "app_fresh now app \<Longrightarrow> app_ok env app"
  by (simp add: app_fresh_def app_ok_def fast_agrees_def hybrid_ok_def lru_agrees_new frc_agrees_new)

section \<open>Serving\<close>

fun app_serve :: "'re app_env \<Rightarrow> ((clock \<times> clock) \<times> (clock \<times> clock) \<times> http_request) list \<Rightarrow> 're hono
    \<Rightarrow> (http_response \<times> http_context) list" where
  "app_serve env [] app = []"
| "app_serve env ((cf, ch, req) # rs) app =
     fst (app_handle env cf ch req app) # app_serve env rs (snd (app_handle env cf ch req app))"

lemma serve_ok:
  "app_ok env app \<Longrightarrow> list_all (\<lambda>(cf, ch, req). CHR '':'' \<notin> set (hq_method req)) rs
     \<Longrightarrow> app_serve env rs app = map (\<lambda>(cf, ch, req). app_answer env app req) rs"
proof (induction rs arbitrary: app)
  case (Cons r rs)
  obtain cf ch req where r: "r = (cf, ch, req)" by (cases r)
  note h = app_handle_ok [OF Cons.prems(1), of req cf ch]
  with Cons r show ?case using run_same(4) by fastforce
qed simp


section \<open>Query strings\<close>

text \<open>The reference: split at the ampersands; a piece is a key with a value behind its first equals sign, or a key
  alone; pieces without a key are skipped, later ones win.\<close>

definition query_piece :: "string \<Rightarrow> (string, string) vmap \<Rightarrow> (string, string) vmap" where
  "query_piece p m =
     (let key = takeWhile (\<lambda>c. c \<noteq> CHR ''='') p in
      if key = '''' then m
      else vset key (if CHR ''='' \<in> set p then tl (dropWhile (\<lambda>c. c \<noteq> CHR ''='') p) else '''') m)"

definition query_spec :: "string \<Rightarrow> (string, string) vmap" where
  "query_spec s = fold query_piece (v_split (CHR ''&'') s) []"

text \<open>What the loop remembers of the piece it is in.\<close>

definition piece_key_end :: "nat \<Rightarrow> string \<Rightarrow> int" where
  "piece_key_end ks cur = (if CHR ''='' \<in> set cur then int ks + int (length (takeWhile (\<lambda>c. c \<noteq> CHR ''='') cur)) else -1)"

definition piece_value_start :: "nat \<Rightarrow> string \<Rightarrow> int" where
  "piece_value_start ks cur = (if CHR ''='' \<in> set cur then piece_key_end ks cur + 1 else -1)"

lemma commit_pair:
  "query_commit s i ks (int a) (int (a + 1)) m =
     (if ks < a then vset (take (a - ks) (drop ks s)) (take (i - (a + 1)) (drop (a + 1) s)) m else m)"
proof -
  have "nat (int (a + 1)) = a + 1" "nat (int a) = a" by (simp_all only: nat_int)
  then show ?thesis unfolding query_commit_def by (cases "a + 1 < i") simp_all
qed

declare query_loop.simps [simp del]

lemma loop_done: "query_loop s 0 i ks ke vs m = m"
  by (simp add: query_loop.simps)

lemma loop_sep:
  "(i < length s \<longrightarrow> s ! i = CHR ''&'') \<Longrightarrow>
     query_loop s (Suc n) i ks ke vs m = query_loop s n (i + 1) (i + 1) (-1) (-1) (query_commit s i ks ke vs m)"
  by (simp add: query_loop.simps)

lemma loop_equals:
  "i < length s \<Longrightarrow> s ! i = CHR ''='' \<Longrightarrow> query_loop s (Suc n) i ks (-1) vs m = query_loop s n (i + 1) ks (int i) (int i + 1) m"
  by (simp add: query_loop.simps)

lemma loop_other:
  "i < length s \<Longrightarrow> s ! i \<noteq> CHR ''&'' \<Longrightarrow> s ! i \<noteq> CHR ''='' \<or> ke \<noteq> -1 \<Longrightarrow>
     query_loop s (Suc n) i ks ke vs m = query_loop s n (i + 1) ks ke vs m"
  by (auto simp: query_loop.simps)

lemma piece_done:
  assumes s: "s = pre @ cur @ rest" and ks: "ks = length pre" and i: "i = ks + length cur"
  shows "query_commit s i ks (piece_key_end ks cur) (piece_value_start ks cur) m = query_piece cur m"
proof (cases "CHR ''='' \<in> set cur")
  case True
  then obtain k v where cur: "cur = k @ CHR ''='' # v" "CHR ''='' \<notin> set k" by (metis split_list_first)
  then have tw: "takeWhile (\<lambda>c. c \<noteq> CHR ''='') cur = k" "dropWhile (\<lambda>c. c \<noteq> CHR ''='') cur = CHR ''='' # v"
    by (auto simp: takeWhile_append dropWhile_append)
  have e: "piece_key_end ks cur = int (ks + length k)" "piece_value_start ks cur = int (ks + length k + 1)"
    using True tw(1) by (simp_all add: piece_key_end_def piece_value_start_def)
  have d: "drop (ks + length k + 1) s = v @ rest" "take (length k) (drop ks s) = k" "i = ks + length k + 1 + length v"
    by (simp_all add: s ks cur(1) i)
  have "query_commit s i ks (piece_key_end ks cur) (piece_value_start ks cur) m = (if k = [] then m else vset k v m)"
    unfolding e commit_pair d(1) by (simp add: d(2,3))
  moreover have "query_piece cur m = (if k = [] then m else vset k v m)"
    unfolding query_piece_def tw using True by simp
  ultimately show ?thesis by simp
next
  case False
  have tw: "takeWhile (\<lambda>c. c \<noteq> CHR ''='') cur = cur"
    using False by (intro takeWhile_eq_all_conv [THEN iffD2]) metis
  have e: "piece_key_end ks cur = -1" using False by (simp add: piece_key_end_def)
  have t: "take (i - ks) (drop ks s) = cur" "ks < i \<longleftrightarrow> cur \<noteq> []" by (simp_all add: i s ks)
  have "query_commit s i ks (-1) vs m = (if cur = [] then m else vset cur '''' m)" for vs
    by (simp add: query_commit_def t)
  moreover have "query_piece cur m = (if cur = [] then m else vset cur '''' m)"
    unfolding query_piece_def tw using False by simp
  ultimately show ?thesis by (simp only: e)
qed

lemma query_loop_spec:
  assumes "s = pre @ cur @ rest" and "ks = length pre" and "i = ks + length cur" and "CHR ''&'' \<notin> set cur"
  shows "query_loop s (length rest + 1) i ks (piece_key_end ks cur) (piece_value_start ks cur) m
     = fold query_piece (v_split (CHR ''&'') (cur @ rest)) m"
  using assms
proof (induction rest arbitrary: pre cur ks i m)
  case Nil
  then have "\<not> i < length s" by simp
  then show ?case
    using Nil(4) piece_done [OF Nil(1-3), of m] by (simp add: loop_sep loop_done v_split_no_delim)
next
  case (Cons c rest)
  have c: "i < length s" "s ! i = c" using Cons.prems by (simp_all add: nth_append)
  have s': "s = pre @ (cur @ [c]) @ rest" using Cons.prems(1) by simp
  consider "c = CHR ''&''" | "c = CHR ''=''" "CHR ''='' \<notin> set cur" | "c = CHR ''=''" "CHR ''='' \<in> set cur"
    | "c \<noteq> CHR ''&''" "c \<noteq> CHR ''=''" by blast
  then show ?case
  proof cases
    case 1
    have "query_loop s (length rest + 1) (i + 1) (i + 1) (-1) (-1) (query_piece cur m)
        = fold query_piece (v_split (CHR ''&'') rest) (query_piece cur m)"
      using Cons.IH [of "pre @ cur @ [c]" "[]" "i + 1" "i + 1" "query_piece cur m"] Cons.prems
      by (simp add: piece_key_end_def piece_value_start_def)
    then show ?thesis
      using c 1 Cons.prems(4) piece_done [OF Cons.prems(1-3), of m] by (simp add: loop_sep v_split_append_delim)
  next
    case 2
    then have k: "piece_key_end ks cur = -1" "piece_key_end ks (cur @ [c]) = int i" "piece_value_start ks (cur @ [c]) = int i + 1"
      using Cons.prems(3) by (simp_all add: piece_key_end_def piece_value_start_def takeWhile_append takeWhile_eq_all_conv)
    have "query_loop s (length rest + 1) (i + 1) ks (int i) (int i + 1) m = fold query_piece (v_split (CHR ''&'') (cur @ c # rest)) m"
      using Cons.IH [OF s' Cons.prems(2), of "i + 1" m] Cons.prems(3,4) 2 k by simp
    then show ?thesis using c 2 k by (simp add: loop_equals)
  next
    case 3
    then have "piece_key_end ks (cur @ [c]) = piece_key_end ks cur" "piece_value_start ks (cur @ [c]) = piece_value_start ks cur"
      "piece_key_end ks cur \<noteq> -1"
      by (auto simp: piece_key_end_def piece_value_start_def takeWhile_append)
    then show ?thesis
      using Cons.IH [OF s' Cons.prems(2), of "i + 1" m] Cons.prems(3,4) 3 c by (simp add: loop_other)
  next
    case 4
    then have "piece_key_end ks (cur @ [c]) = piece_key_end ks cur" "piece_value_start ks (cur @ [c]) = piece_value_start ks cur"
      by (auto simp: piece_key_end_def piece_value_start_def takeWhile_append)
    then show ?thesis
      using Cons.IH [OF s' Cons.prems(2), of "i + 1" m] Cons.prems(3,4) 4 c by (simp add: loop_other)
  qed
qed


lemma query_parser: "parse_query_string_app s = query_spec s"
proof (cases "s = []")
  case True
  then show ?thesis by (simp add: parse_query_string_app_def query_spec_def query_piece_def)
next
  case False
  have "query_loop s (length s + 1) 0 0 (-1) (-1) [] = fold query_piece (v_split (CHR ''&'') s) []"
    using query_loop_spec [of s "[]" "[]" s 0 0 "[]"] by (simp add: piece_key_end_def piece_value_start_def)
  with False show ?thesis by (simp add: parse_query_string_app_def query_spec_def)
qed

section \<open>Mounting\<close>

fun handlers_of :: "string \<Rightarrow> handler_lists \<Rightarrow> handler_fn ihandler list" where
  "handlers_of m hl =
     (if m = ''GET'' then hl_get hl else if m = ''POST'' then hl_post hl else if m = ''PUT'' then hl_put hl
      else if m = ''DELETE'' then hl_delete hl else if m = ''PATCH'' then hl_patch hl
      else if m = ''HEAD'' then hl_head hl else if m = ''OPTIONS'' then hl_options hl else [])"

abbreviation static_result_of :: "'re hono \<Rightarrow> string \<Rightarrow> string \<Rightarrow> handler_fn route_match option" where
  "static_result_of app m p \<equiv> vget (fr_static_results (hn_fast_router app)) (route_key m p)"

definition mounted_match :: "string \<Rightarrow> handler_fn ihandler \<Rightarrow> handler_fn route_match" where
  "mounted_match p h = \<lparr>rm_handler = \<lparr>ih_path = p, ih_handle = ih_handle h\<rparr>, rm_params = [], rm_path = p, rm_base_path = ''''\<rparr>"

lemma add_route_static:
  assumes "CHR '':'' \<notin> set m" "CHR '':'' \<notin> set m'"
  shows "vget (fr_static_results (snd (fast_add_route rl qs m' h b r))) (route_key m p) =
     (if m = m' \<and> p = ih_path h \<and> is_fast_static p
      then Some \<lparr>rm_handler = h, rm_params = [], rm_path = p, rm_base_path = ''''\<rparr>
      else vget (fr_static_results r) (route_key m p))"
  using assms by (auto simp: fast_add_route_def fast_sort_dynamic_routes_def route_key_inject Let_def split: sum.splits)

lemma registration_sel [simp]:
  "hn_fast_router (app_list_handler m h app) = hn_fast_router app"
  "hn_use_fast_router (app_list_handler m h app) = hn_use_fast_router app"
  "hn_fast_router (app_add_to_trie m p h app) = hn_fast_router app"
  "hn_use_fast_router (app_add_to_trie m p h app) = hn_use_fast_router app"
  by (simp_all add: app_list_handler_def app_add_to_trie_def Let_def)

lemma add_to_routers_sel [simp]:
  "hn_use_fast_router app \<Longrightarrow> hn_fast_router (app_add_to_routers env m h b app)
     = snd (fast_add_route (ae_regex env) (ae_route_sort env) m h b (hn_fast_router app))"
  "hn_use_fast_router (app_add_to_routers env m h b app) = hn_use_fast_router app"
  by (simp_all add: app_add_to_routers_def case_prod_beta split: sum.split)

lemma merge_route_static:
  assumes "CHR '':'' \<notin> set m" "CHR '':'' \<notin> set m'" "hn_use_fast_router app"
  shows "static_result_of (merge_route env m' prefix h app) m p =
      (if m = m' \<and> p = mounted_path prefix (ih_path h) \<and> is_fast_static p then Some (mounted_match p h) else static_result_of app m p)"
    and "hn_use_fast_router (merge_route env m' prefix h app)"
proof -
  let ?h = "\<lparr>ih_path = mounted_path prefix (ih_path h), ih_handle = ih_handle h\<rparr>"
  let ?r = "fast_add_route (ae_regex env) (ae_route_sort env) m' ?h '''' (hn_fast_router app)"
  have "hn_fast_router (merge_route env m' prefix h app) = snd ?r"
    "hn_use_fast_router (merge_route env m' prefix h app) = hn_use_fast_router app"
    using assms(3) by (simp_all add: merge_route_def Let_def)
  then show "static_result_of (merge_route env m' prefix h app) m p =
      (if m = m' \<and> p = mounted_path prefix (ih_path h) \<and> is_fast_static p then Some (mounted_match p h) else static_result_of app m p)"
    and "hn_use_fast_router (merge_route env m' prefix h app)"
    using assms(3) by (auto simp: add_route_static [OF assms(1,2)] mounted_match_def)
qed

lemma merge_routes_static:
  assumes "CHR '':'' \<notin> set m" "CHR '':'' \<notin> set m'" "hn_use_fast_router app"
  shows "static_result_of (merge_routes_for_method env m' prefix hs app) m p =
      (if m = m' \<and> is_fast_static p then
         (case List.find (\<lambda>h. mounted_path prefix (ih_path h) = p) (rev hs) of
            Some h \<Rightarrow> Some (mounted_match p h) | None \<Rightarrow> static_result_of app m p)
       else static_result_of app m p) \<and> hn_use_fast_router (merge_routes_for_method env m' prefix hs app)"
  using assms(3)
proof (induction hs rule: rev_induct)
  case (snoc h hs)
  let ?a = "merge_routes_for_method env m' prefix hs app"
  have eq: "merge_routes_for_method env m' prefix (hs @ [h]) app = merge_route env m' prefix h ?a"
    by (simp add: merge_routes_for_method_def)
  have u: "hn_use_fast_router ?a" and st: "static_result_of ?a m p =
      (if m = m' \<and> is_fast_static p then
         (case List.find (\<lambda>h. mounted_path prefix (ih_path h) = p) (rev hs) of
            Some h \<Rightarrow> Some (mounted_match p h) | None \<Rightarrow> static_result_of app m p)
       else static_result_of app m p)" using snoc by blast+
  note mr = merge_route_static [OF assms(1,2) u]
  show ?case
    by (cases "mounted_path prefix (ih_path h) = p") (simp_all add: eq mr st eq_commute [of p])
qed (simp add: merge_routes_for_method_def)

lemma route_static:
  assumes "CHR '':'' \<notin> set m" "hn_use_fast_router app" "is_fast_static p"
  shows "static_result_of (app_route env prefix sub app) m p =
      (case List.find (\<lambda>h. mounted_path prefix (ih_path h) = p) (rev (handlers_of m (hn_context_router sub))) of
         Some h \<Rightarrow> Some (mounted_match p h) | None \<Rightarrow> static_result_of app m p)"
    and "hn_use_fast_router (app_route env prefix sub app)"
proof -
  have a: "static_result_of (app\<lparr>hn_route_middlewares := x, hn_has_middlewares := True\<rparr>) m p = static_result_of app m p" for x
    by simp
  have u: "hn_use_fast_router (app\<lparr>hn_route_middlewares := x, hn_has_middlewares := True\<rparr>)" for x
    using assms(2) by simp
  show "static_result_of (app_route env prefix sub app) m p =
      (case List.find (\<lambda>h. mounted_path prefix (ih_path h) = p) (rev (handlers_of m (hn_context_router sub))) of
         Some h \<Rightarrow> Some (mounted_match p h) | None \<Rightarrow> static_result_of app m p)"
    and "hn_use_fast_router (app_route env prefix sub app)"
    using assms u by (simp_all add: app_route_def Let_def merge_routes_static a cong: option.case_cong)
qed


section \<open>An example application\<close>

definition demo_app_env :: "string app_env" where
  "demo_app_env = \<lparr>ae_regex = any_engine, ae_route_sort = key_sort, ae_handler_sort = path_sort, ae_prefix_sort = id,
     ae_parse_url = (\<lambda>u. Some \<lparr>pu_path = u, pu_raw_query = '''', pu_str = u\<rparr>)\<rparr>"

definition demo_handler :: handler_fn where
  "demo_handler c = (context_text ''ok'' c, c)"

definition demo_app_ops :: "string app_op list" where
  "demo_app_ops = [A_get ''/a'' demo_handler, A_post ''/b'' demo_handler]"

definition demo_request :: "string \<Rightarrow> string \<Rightarrow> http_request" where
  "demo_request m u = \<lparr>hq_method = m, hq_url = u, hq_header = [], hq_data = ''''\<rparr>"

definition demo_requests :: "((clock \<times> clock) \<times> (clock \<times> clock) \<times> http_request) list" where
  "demo_requests = map (\<lambda>(m, u). ((ck0, ck0), (ck0, ck0), demo_request m u))
     [(''GET'', ''/a''), (''POST'', ''/a''), (''GET'', ''/a'')]"

section \<open>Properties\<close>

text \<open>C4: an application answers every sequence of requests as its registered routes determine, whatever is in the caches
  of its routers: the fast router's route, else the hybrid router's, else the 404 handler, each behind its
  middleware.\<close>

theorem app_serves:
  assumes "list_all (\<lambda>(cf, ch, req). CHR '':'' \<notin> set (hq_method req)) rs" and "app = app_built env now ops"
  shows "app_serve env rs app = map (\<lambda>(cf, ch, req). app_answer env app req) rs"
  using serve_ok [OF fresh_ok [OF built_fresh] assms(1)] assms(2) by simp

theorem app_serves_witness:
  "map (rs_status_code \<circ> fst) (app_serve demo_app_env demo_requests (app_built demo_app_env 0 demo_app_ops)) = [200, 404, 200]"
proof -
  have "list_all (\<lambda>(cf, ch, req). CHR '':'' \<notin> set (hq_method req)) demo_requests" by code_simp
  from app_serves [OF this refl, of demo_app_env 0 demo_app_ops] show ?thesis
    by (simp only:) code_simp
qed

text \<open>Running middleware by index is nesting all of them around the handler in their order.\<close>

theorem app_onion: "exec_middlewares_with_list 0 mws ctx handler = onion mws handler ctx"
  by (rule onion_exec)

text \<open>C36: the one-pass parser of query strings gives the pairs between the ampersands, split at the first equals
  sign, the last one of a key winning.\<close>

theorem app_query: "parse_query_string_app s = query_spec s"
  by (rule query_parser)

text \<open>After mounting a sub-application each of its static routes is answered under the prefix by the handler
  registered last for it, for the method it was registered with.\<close>

theorem app_mount_serves:
  assumes "CHR '':'' \<notin> set m" and "hn_use_fast_router app" and "is_fast_static p"
    and "List.find (\<lambda>h. mounted_path prefix (ih_path h) = p) (rev (handlers_of m (hn_context_router sub))) = Some h"
  shows "app_route_for env (app_route env prefix sub app) m p = Some (mounted_match p h)"
  using route_static [OF assms(1-3), of env prefix sub] assms(4) by (simp add: app_route_for_def fast_answer_def)

theorem app_mount_serves_witness:
  "app_route_for demo_app_env (app_route demo_app_env ''/api'' (app_built demo_app_env 0 demo_app_ops) (hono_new 0)) ''POST'' ''/api/b''
     = Some (mounted_match ''/api/b'' \<lparr>ih_path = ''/b'', ih_handle = demo_handler\<rparr>)"
proof (rule app_mount_serves)
  show "is_fast_static ''/api/b''" by code_simp
  have h: "handlers_of ''POST'' (hn_context_router (app_built demo_app_env 0 demo_app_ops)) = [\<lparr>ih_path = ''/b'', ih_handle = demo_handler\<rparr>]"
    by (simp add: app_built_def demo_app_ops_def hono_new_def app_get_def app_post_def app_register_def app_list_handler_def
        app_add_to_trie_def app_add_to_routers_def fast_add_route_def is_fast_static_def v_contains_def Let_def)
  have "mounted_path ''/api'' ''/b'' = ''/api/b''" by code_simp
  with h show "List.find (\<lambda>h. mounted_path ''/api'' (ih_path h) = ''/api/b'')
      (rev (handlers_of ''POST'' (hn_context_router (app_built demo_app_env 0 demo_app_ops)))) = Some \<lparr>ih_path = ''/b'', ih_handle = demo_handler\<rparr>"
    by (simp del: handlers_of.simps)
qed (simp_all add: hono_new_def)

text \<open>The middleware of a mounted application runs only when the sorted prefixes have been computed, which \<^verbatim>\<open>listen\<close> does
  and \<^verbatim>\<open>listen_http\<close> does not.\<close>

theorem middleware_needs_precompute:
  "hn_sorted_middleware_prefixes app = [] \<Longrightarrow> get_middlewares_for_path app path = hn_context_middlewares app"
  by (simp add: get_middlewares_for_path_def)

text \<open>A prefix is compared by characters, so the middleware mounted at a path also runs for longer names.\<close>

theorem middleware_prefix_boundary:
  assumes "hn_route_middlewares app = [(''/api'', mws)]" and "hn_sorted_middleware_prefixes app = [''/api'']"
  shows "get_middlewares_for_path app ''/apix'' = hn_context_middlewares app @ mws"
  using assms by (simp add: get_middlewares_for_path_def)

end
