(* ===== verification/Security.thy ===== *)
theory Security
  imports Http_Context "HOL-Library.Sublist"
begin

text \<open>
  The input validation of \<^verbatim>\<open>security.v\<close>: path validation with its normalisation and its eight checks, the
  validators of hashes, chunk indices, sizes and file names, and the content type table.

  Every \<^verbatim>\<open>error(...)\<close> of the source is a constructor of \<open>check_error\<close>, printed by \<open>check_error_message\<close>; a result is
  \<open>check_error + 'a\<close>.  The order of the checks is that of the source.  \<^verbatim>\<open>os.file_ext\<close> and \<^verbatim>\<open>string.int()\<close> of the standard
  library are written out (on a Unix system; \<^verbatim>\<open>int()\<close> of a numeral beyond the range gives the largest \<^verbatim>\<open>int\<close>).

  The contract is that an accepted path, resolved against a directory, stays below that directory.
\<close>

section \<open>Substrings\<close>

lemma v_starts_with_prefix: "v_starts_with s p \<longleftrightarrow> prefix p s"
  by (auto simp: str_simps prefix_def)

lemma v_contains_str_sublist: "v_contains_str s p \<longleftrightarrow> sublist p s"
proof (induction s)
  case (Cons c s)
  then show ?case by (simp add: v_starts_with_prefix sublist_Cons_right)
qed simp

lemma v_contains_str_single: "v_contains_str s [c] \<longleftrightarrow> c \<in> set s"
  by (simp add: v_contains_str_sublist sublist_def in_set_conv_decomp)

definition backslash :: char where
  "backslash = CHR 0x5C"

section \<open>Extensions\<close>

text \<open>\<^verbatim>\<open>os.file_name\<close> and \<^verbatim>\<open>os.file_ext\<close>: the text behind the last separator, and its part from the last dot on
  unless that dot is the first or the last byte; \<^verbatim>\<open>file_ext\<close> gives nothing for fewer than three bytes.\<close>

definition file_name :: "string \<Rightarrow> string" where
  "file_name p = last (v_split slash (v_replace backslash ''/'' p))"

definition last_dot :: "string \<Rightarrow> nat option" where
  "last_dot s = (let after = takeWhile (\<lambda>c. c \<noteq> CHR ''.'') (rev s) in
     if length after < length s then Some (length s - length after - 1) else None)"

definition file_ext :: "string \<Rightarrow> string" where
  "file_ext p =
     (if length p < 3 then ''''
      else let f = file_name p in
        case last_dot f of
          None \<Rightarrow> ''''
        | Some pos \<Rightarrow> if pos = 0 \<or> pos + 1 \<ge> length f then '''' else drop pos f)"

definition char_to_upper :: "char \<Rightarrow> char" where
  "char_to_upper c = (let n = of_char c :: nat in if 97 \<le> n \<and> n \<le> 122 then char_of (n - 32) else c)"

definition v_to_upper :: "string \<Rightarrow> string" where
  "v_to_upper s = map char_to_upper s"

definition is_digit :: "char \<Rightarrow> bool" where
  "is_digit c = (let n = of_char c :: nat in 48 \<le> n \<and> n \<le> 57)"

definition is_hex_digit :: "char \<Rightarrow> bool" where
  "is_hex_digit c = (let n = of_char c :: nat in is_digit c \<or> 97 \<le> n \<and> n \<le> 102 \<or> 65 \<le> n \<and> n \<le> 70)"

section \<open>Constants and options\<close>

definition allowed_file_extensions :: "string list" where
  "allowed_file_extensions =
     [''.txt'', ''.md'', ''.pdf'', ''.doc'', ''.docx'',
      ''.jpg'', ''.jpeg'', ''.png'', ''.gif'', ''.svg'', ''.ico'', ''.webp'',
      ''.mp3'', ''.mp4'', ''.wav'', ''.avi'', ''.mov'', ''.webm'',
      ''.zip'', ''.rar'', ''.7z'', ''.tar'', ''.gz'',
      ''.html'', ''.htm'', ''.css'', ''.js'', ''.json'', ''.xml'',
      ''.ttf'', ''.otf'', ''.woff'', ''.woff2'', ''.eot'']"

definition dangerous_chars :: "string list" where
  "dangerous_chars = [''<'', ''>'', [CHR 0x22], ''|'', ''?'', ''*'', [CHR 0x00], [CHR 0x0D], [CHR 0x0A]]"

definition dangerous_patterns :: "string list" where
  "dangerous_patterns =
     [''..'', ''~'', ''$'', ''%'', [backslash, backslash], ''/..'', backslash # ''..'', ''../'', ''..'' @ [backslash]]"

record path_options =
  po_allow_absolute_paths :: bool
  po_allow_hidden_files :: bool
  po_check_file_extension :: bool
  po_max_path_length :: int
  po_allowed_base_paths :: "string list"
  po_custom_allowed_extensions :: "string list"

definition default_path_validation_options :: path_options where
  "default_path_validation_options =
     \<lparr>po_allow_absolute_paths = False, po_allow_hidden_files = False, po_check_file_extension = True,
      po_max_path_length = 260, po_allowed_base_paths = [], po_custom_allowed_extensions = []\<rparr>"

datatype check_error =
  Empty_path | Path_too_long int int | Dangerous_character string | Dangerous_pattern string
| Absolute_path | Hidden_file | File_type_not_allowed | Outside_allowed
| Empty_hash | Hash_length int | Hash_character char
| Empty_index | Index_not_number | Index_negative | Index_exceeds int int
| Empty_size | Size_not_number | Size_not_positive | Size_exceeds int int
| Empty_filename | Filename_too_long int | Filename_character string | Filename_reserved string

primrec check_error_message :: "check_error \<Rightarrow> string" where
  "check_error_message Empty_path = ''Empty path not allowed''"
| "check_error_message (Path_too_long n m) = ''Path too long: '' @ v_str n @ '' > '' @ v_str m"
| "check_error_message (Dangerous_character c) = ''Dangerous character detected: '' @ c"
| "check_error_message (Dangerous_pattern p) = ''Dangerous path pattern detected: '' @ p"
| "check_error_message Absolute_path = ''Absolute paths not allowed''"
| "check_error_message Hidden_file = ''Hidden files not allowed''"
| "check_error_message File_type_not_allowed = ''File type not allowed''"
| "check_error_message Outside_allowed = ''Path outside allowed directories''"
| "check_error_message Empty_hash = ''File hash cannot be empty''"
| "check_error_message (Hash_length n) = ''Invalid hash length: expected 32, got '' @ v_str n"
| "check_error_message (Hash_character c) = ''Invalid hash character: '' @ v_str (of_char c)"
| "check_error_message Empty_index = ''Chunk index cannot be empty''"
| "check_error_message Index_not_number = ''Chunk index must be a number''"
| "check_error_message Index_negative = ''Chunk index cannot be negative''"
| "check_error_message (Index_exceeds i m) = ''Chunk index '' @ v_str i @ '' exceeds maximum '' @ v_str m"
| "check_error_message Empty_size = ''File size cannot be empty''"
| "check_error_message Size_not_number = ''File size must be a number''"
| "check_error_message Size_not_positive = ''File size must be positive''"
| "check_error_message (Size_exceeds n m) = ''File size '' @ v_str n @ '' exceeds maximum '' @ v_str m"
| "check_error_message Empty_filename = ''Filename cannot be empty''"
| "check_error_message (Filename_too_long n) = ''Filename too long: '' @ v_str n @ '' > 255''"
| "check_error_message (Filename_character c) = ''Dangerous character in filename: '' @ c"
| "check_error_message (Filename_reserved f) = ''Reserved filename not allowed: '' @ f"

section \<open>Normalisation\<close>

text \<open>The loop \<^verbatim>\<open>for clean_path.contains('//') { clean_path = clean_path.replace('//', '/') }\<close>: each round makes the
  text shorter.\<close>

lemma replace_double_le: "length (v_replace_str ''//'' ''/'' s) \<le> length s"
  by (induction "''//''" "''/''" s rule: v_replace_str.induct) (auto simp: v_starts_with_prefix prefix_def)

lemma replace_double_less: "v_contains_str s ''//'' \<Longrightarrow> length (v_replace_str ''//'' ''/'' s) < length s"
proof (induction "''//''" "''/''" s rule: v_replace_str.induct)
  case (2 c cs)
  show ?case
  proof (cases "v_starts_with (c # cs) ''//''")
    case True
    then obtain t where "c # cs = slash # slash # t" by (auto simp: str_simps)
    with replace_double_le [of t] show ?thesis by simp
  next
    case False
    with 2 show ?thesis by (simp del: v_starts_with.simps)
  qed
qed simp

function collapse_slashes :: "string \<Rightarrow> string" where
  "collapse_slashes s =
     (if v_contains_str s ''//'' then collapse_slashes (v_replace_str ''//'' ''/'' s) else s)"
  by pat_completeness auto
termination
  by (relation "measure length") (auto simp: replace_double_less)

declare collapse_slashes.simps [simp del]

definition normalize_path :: "string \<Rightarrow> string" where
  "normalize_path path =
     (let p = collapse_slashes (v_replace backslash ''/'' (trim_space path)) in
      if p \<noteq> [] \<and> last p = slash \<and> length p > 1 then take (length p - 1) p else p)"

section \<open>The checks\<close>

definition is_absolute_path :: "string \<Rightarrow> bool" where
  "is_absolute_path path =
     (if v_starts_with path ''/'' then True
      else if length path \<ge> 2 \<and> path ! 1 = CHR '':'' then True
      else if v_starts_with path ''//'' then True
      else False)"

definition is_hidden_file :: "string \<Rightarrow> bool" where
  "is_hidden_file path =
     (let parts = v_split slash path in
      if length parts = 0 then False
      else let filename = last parts in v_starts_with filename ''.'' \<and> filename \<noteq> ''.'' \<and> filename \<noteq> ''..'')"

definition is_allowed_file_type :: "string \<Rightarrow> string list \<Rightarrow> bool" where
  "is_allowed_file_type path custom_extensions =
     (let ext = v_to_lower (file_ext path) in
      if ext = '''' then False
      else if length custom_extensions > 0 then ext \<in> set custom_extensions
      else ext \<in> set allowed_file_extensions)"

definition is_within_allowed_paths :: "string \<Rightarrow> string list \<Rightarrow> bool" where
  "is_within_allowed_paths path allowed_paths =
     list_ex (\<lambda>a. v_starts_with path (normalize_path a)) allowed_paths"

definition validate_file_path :: "string \<Rightarrow> path_options \<Rightarrow> check_error + string" where
  "validate_file_path path options =
     (if path = '''' then Inl Empty_path
      else if int (length path) > po_max_path_length options
        then Inl (Path_too_long (int (length path)) (po_max_path_length options))
      else let clean_path = normalize_path path in
        case List.find (v_contains_str clean_path) dangerous_chars of
          Some c \<Rightarrow> Inl (Dangerous_character c)
        | None \<Rightarrow>
        case List.find (v_contains_str clean_path) dangerous_patterns of
          Some p \<Rightarrow> Inl (Dangerous_pattern p)
        | None \<Rightarrow>
        if \<not> po_allow_absolute_paths options \<and> is_absolute_path clean_path then Inl Absolute_path
        else if \<not> po_allow_hidden_files options \<and> is_hidden_file clean_path then Inl Hidden_file
        else if po_check_file_extension options
             \<and> \<not> is_allowed_file_type clean_path (po_custom_allowed_extensions options)
          then Inl File_type_not_allowed
        else if length (po_allowed_base_paths options) > 0
             \<and> \<not> is_within_allowed_paths clean_path (po_allowed_base_paths options)
          then Inl Outside_allowed
        else Inr clean_path)"

definition is_safe_path :: "string \<Rightarrow> bool" where
  "is_safe_path path =
     (case validate_file_path path default_path_validation_options of Inl _ \<Rightarrow> False | Inr result \<Rightarrow> length result > 0)"

definition is_safe_file_path :: "string \<Rightarrow> bool" where
  "is_safe_file_path path = is_safe_path path"

section \<open>The other validators\<close>

definition validate_file_hash :: "string \<Rightarrow> check_error + string" where
  "validate_file_hash hash =
     (if hash = '''' then Inl Empty_hash
      else if length hash \<noteq> 32 then Inl (Hash_length (int (length hash)))
      else case List.find (\<lambda>ch. \<not> is_hex_digit ch) hash of
        Some ch \<Rightarrow> Inl (Hash_character ch)
      | None \<Rightarrow> Inr (v_to_lower hash))"

text \<open>\<^verbatim>\<open>string.int()\<close> of a text of decimal digits.\<close>

definition dec_value :: "string \<Rightarrow> nat" where
  "dec_value s = foldl (\<lambda>n c. 10 * n + (of_char c - 48)) 0 s"

definition v_int :: "string \<Rightarrow> int" where
  "v_int s = min (int (dec_value s)) (2 ^ 31 - 1)"

definition validate_chunk_index :: "string \<Rightarrow> int \<Rightarrow> check_error + int" where
  "validate_chunk_index index_str max_chunks =
     (if index_str = '''' then Inl Empty_index
      else if \<not> list_all is_digit index_str then Inl Index_not_number
      else let index = v_int index_str in
        if index < 0 then Inl Index_negative
        else if max_chunks > 0 \<and> index \<ge> max_chunks then Inl (Index_exceeds index max_chunks)
        else Inr index)"

definition validate_file_size :: "string \<Rightarrow> int \<Rightarrow> check_error + int" where
  "validate_file_size size_str max_size =
     (if size_str = '''' then Inl Empty_size
      else if \<not> list_all is_digit size_str then Inl Size_not_number
      else let size = v_int size_str in
        if size \<le> 0 then Inl Size_not_positive
        else if size > max_size then Inl (Size_exceeds size max_size)
        else Inr size)"

definition reserved_names :: "string list" where
  "reserved_names =
     [''CON'', ''PRN'', ''AUX'', ''NUL'', ''COM1'', ''COM2'', ''COM3'', ''COM4'', ''COM5'', ''COM6'', ''COM7'', ''COM8'', ''COM9'',
      ''LPT1'', ''LPT2'', ''LPT3'', ''LPT4'', ''LPT5'', ''LPT6'', ''LPT7'', ''LPT8'', ''LPT9'']"

definition validate_filename :: "string \<Rightarrow> check_error + string" where
  "validate_filename filename =
     (if filename = '''' then Inl Empty_filename
      else if length filename > 255 then Inl (Filename_too_long (int (length filename)))
      else case List.find (v_contains_str filename) dangerous_chars of
        Some c \<Rightarrow> Inl (Filename_character c)
      | None \<Rightarrow>
        let name_without_ext = v_to_upper (hd (v_split (CHR ''.'') filename)) in
        if name_without_ext \<in> set reserved_names then Inl (Filename_reserved filename) else Inr filename)"

definition safe_content_types :: "(string \<times> string) list" where
  "safe_content_types =
     [(''.html'', ''text/html; charset=utf-8''), (''.htm'', ''text/html; charset=utf-8''),
      (''.css'', ''text/css; charset=utf-8''), (''.js'', ''application/javascript; charset=utf-8''),
      (''.json'', ''application/json; charset=utf-8''), (''.xml'', ''application/xml; charset=utf-8''),
      (''.txt'', ''text/plain; charset=utf-8''), (''.md'', ''text/markdown; charset=utf-8''),
      (''.pdf'', ''application/pdf''), (''.png'', ''image/png''), (''.jpg'', ''image/jpeg''), (''.jpeg'', ''image/jpeg''),
      (''.gif'', ''image/gif''), (''.svg'', ''image/svg+xml''), (''.ico'', ''image/x-icon''),
      (''.woff'', ''font/woff''), (''.woff2'', ''font/woff2''), (''.ttf'', ''font/ttf''),
      (''.eot'', ''application/vnd.ms-fontobject''), (''.otf'', ''font/otf''), (''.mp4'', ''video/mp4''),
      (''.webm'', ''video/webm''), (''.mp3'', ''audio/mpeg''), (''.wav'', ''audio/wav''), (''.zip'', ''application/zip''),
      (''.tar'', ''application/x-tar''), (''.gz'', ''application/gzip'')]"

definition get_safe_content_type :: "string \<Rightarrow> string" where
  "get_safe_content_type file_path =
     (case map_of safe_content_types (v_to_lower (file_ext file_path)) of
        Some t \<Rightarrow> t | None \<Rightarrow> ''application/octet-stream'')"

section \<open>Pieces of a path\<close>

text \<open>What a path names: \<open>resolve_path base p\<close> is the list of directory names from the root to the target when \<open>p\<close> is
  opened in the directory \<open>base\<close>; an absolute path starts at the root, a dot stays and two dots go up.\<close>

definition resolve_step :: "string list \<Rightarrow> string \<Rightarrow> string list" where
  "resolve_step ds c = (if c = '''' \<or> c = ''.'' then ds else if c = ''..'' then butlast ds else ds @ [c])"

definition resolve_path :: "string list \<Rightarrow> string \<Rightarrow> string list" where
  "resolve_path base p = foldl resolve_step (if v_starts_with p ''/'' then [] else base) (v_split slash p)"

definition path_names :: "string \<Rightarrow> string list" where
  "path_names p = filter (\<lambda>c. c \<noteq> '''') (v_split slash p)"

lemma v_split_snoc_delim: "v_split d (a @ d # b) = v_split d a @ v_split d b"
proof (induction a)
  case (Cons c a)
  then show ?case by (cases "v_split d a") auto
qed simp

lemma path_names_slash: "path_names (a @ slash # b) = path_names a @ path_names b"
  by (simp add: path_names_def v_split_snoc_delim)

lemma path_names_Nil [simp]: "path_names '''' = []"
  by (simp add: path_names_def)

lemma path_names_replace_double:
  "path_names (u @ v_replace_str ''//'' ''/'' s) = path_names (u @ s)"
proof (induction "''//''" "''/''" s arbitrary: u rule: v_replace_str.induct)
  case (2 c cs)
  show ?case
  proof (cases "v_starts_with (c # cs) ''//''")
    case True
    then obtain t where t: "c # cs = slash # slash # t" by (auto simp: str_simps)
    with 2(1) [of "[]"] have "path_names (v_replace_str ''//'' ''/'' t) = path_names t" by simp
    moreover have "path_names (slash # t) = path_names t" using path_names_slash [of "[]" t] by simp
    ultimately show ?thesis using t path_names_slash [of u] by simp
  next
    case False
    with 2(2) [of "u @ [c]"] show ?thesis by (simp del: v_starts_with.simps)
  qed
qed simp

lemma path_names_collapse: "path_names (collapse_slashes s) = path_names s"
proof (induction s rule: collapse_slashes.induct)
  case (1 s)
  then show ?case
    using path_names_replace_double [of "[]" s] by (simp add: collapse_slashes.simps [of s])
qed

lemma hd_replace_double: "s \<noteq> [] \<Longrightarrow> v_replace_str ''//'' ''/'' s \<noteq> [] \<and> hd (v_replace_str ''//'' ''/'' s) = hd s"
  by (cases s) auto

lemma hd_collapse: "s \<noteq> [] \<Longrightarrow> collapse_slashes s \<noteq> [] \<and> hd (collapse_slashes s) = hd s"
proof (induction s rule: collapse_slashes.induct)
  case (1 s)
  then show ?case
    using hd_replace_double [of s] by (simp add: collapse_slashes.simps [of s])
qed

lemma collapse_Nil [simp]: "collapse_slashes [] = []"
  by (simp add: collapse_slashes.simps)

lemma set_replace_double: "set (v_replace_str ''//'' ''/'' s) \<subseteq> set s"
proof (induction "''//''" "''/''" s rule: v_replace_str.induct)
  case (2 c cs)
  then show ?case by (cases cs) (auto dest: in_set_dropD)
qed simp

lemma set_collapse: "set (collapse_slashes s) \<subseteq> set s"
proof (induction s rule: collapse_slashes.induct)
  case (1 s)
  then show ?case
    using set_replace_double [of s] by (auto simp: collapse_slashes.simps [of s])
qed

lemma collapse_no_double: "\<not> v_contains_str (collapse_slashes s) ''//''"
proof (induction s rule: collapse_slashes.induct)
  case (1 s)
  then show ?case by (simp add: collapse_slashes.simps [of s])
qed

lemma length_collapse: "length (collapse_slashes s) \<le> length s"
proof (induction s rule: collapse_slashes.induct)
  case (1 s)
  then show ?case
    using replace_double_le [of s] by (auto simp: collapse_slashes.simps [of s])
qed

lemma length_v_replace_char: "length (v_replace c [d] s) = length s"
  by (induction s) (auto simp: v_replace_def)

lemma v_replace_char: "v_replace c [d] s = map (\<lambda>x. if x = c then d else x) s"
  by (induction s) (auto simp: v_replace_def)

lemma v_replace_char_id: "c \<notin> set s \<Longrightarrow> v_replace c [d] s = s"
  by (induction s) (auto simp: v_replace_def)

lemma length_trim_space: "length (trim_space s) \<le> length s"
  using length_dropWhile_le [of is_space "rev (dropWhile is_space s)"] length_dropWhile_le [of is_space s]
  by (simp add: trim_space_def)

lemma resolve_path_names:
  "resolve_path base p = foldl resolve_step (if v_starts_with p ''/'' then [] else base) (path_names p)"
proof -
  have "foldl resolve_step ds cs = foldl resolve_step ds (filter (\<lambda>c. c \<noteq> '''') cs)" for ds cs
    by (induction cs arbitrary: ds) (auto simp: resolve_step_def)
  then show ?thesis by (simp add: resolve_path_def path_names_def)
qed

lemma starts_slash_hd: "v_starts_with s ''/'' \<longleftrightarrow> s \<noteq> [] \<and> hd s = slash"
  by (cases s) auto

section \<open>Normal form\<close>

definition unix_path :: "string \<Rightarrow> string" where
  "unix_path path = v_replace backslash ''/'' (trim_space path)"

lemma normalize_path_cases:
  obtains "normalize_path path = collapse_slashes (unix_path path)"
    "collapse_slashes (unix_path path) = [] \<or> last (collapse_slashes (unix_path path)) \<noteq> slash
     \<or> length (collapse_slashes (unix_path path)) = 1"
  | "collapse_slashes (unix_path path) = normalize_path path @ ''/''" "normalize_path path \<noteq> ''''"
proof (cases "collapse_slashes (unix_path path) \<noteq> [] \<and> last (collapse_slashes (unix_path path)) = slash
    \<and> length (collapse_slashes (unix_path path)) > 1")
  case True
  let ?p = "collapse_slashes (unix_path path)"
  from True have n: "normalize_path path = butlast ?p"
    by (simp add: normalize_path_def unix_path_def butlast_conv_take Let_def)
  from True have "?p = butlast ?p @ ''/''" by (metis append_butlast_last_id)
  moreover from True have "butlast ?p \<noteq> ''''" by (cases ?p rule: rev_cases) auto
  ultimately show ?thesis using n that(2) by simp
next
  case False
  then have "normalize_path path = collapse_slashes (unix_path path)"
    unfolding normalize_path_def unix_path_def Let_def by (rule if_not_P)
  moreover have "q = [] \<or> last q \<noteq> slash \<or> length q = 1" if "\<not> (q \<noteq> [] \<and> last q = slash \<and> length q > 1)" for q
    using that length_greater_0_conv [of q] by linarith
  note this [OF False]
  ultimately show ?thesis by (rule that(1))
qed

lemma normalize_prefix: "prefix (normalize_path path) (collapse_slashes (unix_path path))"
  by (cases path rule: normalize_path_cases) simp_all

lemma normalize_no_double: "\<not> v_contains_str (normalize_path path) ''//''"
  using collapse_no_double [of "unix_path path"] normalize_prefix [of path]
  by (metis prefix_imp_sublist sublist_order.order_trans v_contains_str_sublist)

lemma normalize_no_backslash: "backslash \<notin> set (normalize_path path)"
proof -
  have "backslash \<notin> set (unix_path path)"
    by (auto simp: unix_path_def v_replace_char backslash_def split: if_splits)
  then show ?thesis
    using set_collapse [of "unix_path path"] set_mono_prefix [OF normalize_prefix [of path]] by blast
qed

lemma path_names_normalize: "path_names (normalize_path path) = path_names (unix_path path)"
proof (cases path rule: normalize_path_cases)
  case 1
  then show ?thesis by (simp add: path_names_collapse)
next
  case 2
  then show ?thesis
    using path_names_collapse [of "unix_path path"] path_names_slash [of "normalize_path path" "[]"] by simp
qed

lemma starts_slash_normalize: "v_starts_with (normalize_path path) ''/'' \<longleftrightarrow> v_starts_with (unix_path path) ''/''"
proof (cases "unix_path path = []")
  case True
  then show ?thesis by (simp add: normalize_path_def unix_path_def)
next
  case False
  from hd_collapse [OF this] show ?thesis
    by (cases path rule: normalize_path_cases) (use False in \<open>auto simp: starts_slash_hd hd_append\<close>)
qed

theorem normalize_same_target: "resolve_path base (normalize_path path) = resolve_path base (unix_path path)"
  by (simp add: resolve_path_names path_names_normalize starts_slash_normalize)

section \<open>Accepted paths\<close>

definition path_clean :: "string \<Rightarrow> path_options \<Rightarrow> bool" where
  "path_clean p options \<longleftrightarrow>
     list_all (\<lambda>c. \<not> v_contains_str p c) dangerous_chars \<and> list_all (\<lambda>q. \<not> v_contains_str p q) dangerous_patterns
     \<and> (po_allow_absolute_paths options \<or> \<not> is_absolute_path p)
     \<and> (po_allow_hidden_files options \<or> \<not> is_hidden_file p)
     \<and> (po_check_file_extension options \<longrightarrow> is_allowed_file_type p (po_custom_allowed_extensions options))
     \<and> (po_allowed_base_paths options = [] \<or> is_within_allowed_paths p (po_allowed_base_paths options))"

text \<open>A chain of checks succeeds when each of them passes.\<close>

lemma check_if: "(if b then Inl e else r) = Inr y \<longleftrightarrow> \<not> b \<and> r = Inr y"
  by simp

lemma check_find: "(case List.find P xs of None \<Rightarrow> r | Some x \<Rightarrow> Inl (f x)) = Inr y \<longleftrightarrow> list_all (\<lambda>x. \<not> P x) xs \<and> r = Inr y"
  by (induction xs) auto

lemmas check_chain = check_if check_find

lemma validate_file_path_iff:
  "validate_file_path path options = Inr p \<longleftrightarrow>
     path \<noteq> '''' \<and> int (length path) \<le> po_max_path_length options \<and> p = normalize_path path \<and> path_clean p options"
  unfolding validate_file_path_def path_clean_def Let_def check_chain by auto

lemma validate_path_clean: "validate_file_path path options = Inr p \<Longrightarrow> path_clean p options"
  by (auto simp: validate_file_path_iff)

lemma split_piece_sublist: "c \<in> set (v_split d s) \<Longrightarrow> sublist c s"
proof -
  have "sublist c (join_with d ps)" if "c \<in> set ps" for ps
    using that
  proof (induction d ps rule: join_with.induct)
    case (3 d p q ps)
    have "sublist p (p @ d # join_with d (q # ps))" by (rule prefix_imp_sublist) simp
    moreover have "sublist c (p @ d # join_with d (q # ps))" if "c \<in> set (q # ps)"
      using 3 that by (metis sublist_appendI sublist_append_leftI sublist_order.order_trans append_Cons append_Nil)
    ultimately show ?case using 3(2) by auto
  qed auto
  then show "c \<in> set (v_split d s) \<Longrightarrow> sublist c s" by (metis join_v_split)
qed

lemma path_clean_no_up: "path_clean p options \<Longrightarrow> ''..'' \<notin> set (v_split slash p)"
  by (auto simp: path_clean_def dangerous_patterns_def v_contains_str_sublist dest: split_piece_sublist)

lemma resolve_no_up:
  "''..'' \<notin> set cs \<Longrightarrow> foldl resolve_step ds cs = ds @ filter (\<lambda>c. c \<noteq> '''' \<and> c \<noteq> ''.'') cs"
  by (induction cs arbitrary: ds) (auto simp: resolve_step_def)

lemma resolve_clean:
  assumes "path_clean p options" and "\<not> po_allow_absolute_paths options"
  shows "resolve_path base p = base @ filter (\<lambda>c. c \<noteq> '''' \<and> c \<noteq> ''.'') (v_split slash p)"
proof -
  from assms have "\<not> v_starts_with p ''/''" by (auto simp: path_clean_def is_absolute_path_def)
  then show ?thesis
    using resolve_no_up [OF path_clean_no_up [OF assms(1)]] by (simp add: resolve_path_def)
qed

text \<open>C25: a path that \<^verbatim>\<open>validate_file_path\<close> accepts with absolute paths forbidden names, in every directory, something
  below that directory: exactly the directory followed by the non-trivial components of the accepted text, and the same
  thing as the untouched path with its separators unified.  The accepted text has no backslash, no NUL byte, no drive
  letter and no double separator.\<close>

theorem validated_path_stays_below:
  assumes "validate_file_path path options = Inr p" and "\<not> po_allow_absolute_paths options"
  shows "prefix base (resolve_path base p) \<and> resolve_path base p = resolve_path base (unix_path path)
     \<and> drop (length base) (resolve_path base p) = filter (\<lambda>c. c \<noteq> '''' \<and> c \<noteq> ''.'') (v_split slash p)
     \<and> backslash \<notin> set p \<and> CHR 0x00 \<notin> set p \<and> \<not> v_contains_str p ''//'' \<and> \<not> (length p \<ge> 2 \<and> p ! 1 = CHR '':'')"
proof -
  from assms(1) have p: "p = normalize_path path" and clean: "path_clean p options"
    by (auto simp: validate_file_path_iff)
  have "\<not> v_contains_str p [CHR 0x00]" using clean by (simp add: path_clean_def dangerous_chars_def)
  then have "CHR 0x00 \<notin> set p" by (simp only: v_contains_str_single not_False_eq_True)
  moreover have "\<not> (length p \<ge> 2 \<and> p ! 1 = CHR '':'')"
    using clean assms(2) by (auto simp: path_clean_def is_absolute_path_def split: if_splits)
  ultimately show ?thesis
    using resolve_clean [OF clean assms(2)] p normalize_same_target normalize_no_backslash normalize_no_double by simp
qed

lemma validated_path_stays_below_witness:
  "prefix [''srv'', ''up''] (resolve_path [''srv'', ''up''] ''docs/a.PNG'')
   \<and> validate_file_path '' docs//a.PNG/ '' default_path_validation_options = Inr ''docs/a.PNG''"
proof -
  have ok: "validate_file_path '' docs//a.PNG/ '' default_path_validation_options = Inr ''docs/a.PNG''" by code_simp
  have na: "\<not> po_allow_absolute_paths default_path_validation_options"
    by (simp add: default_path_validation_options_def)
  then show ?thesis
    using validated_path_stays_below [OF ok na, of "[''srv'', ''up'']"] ok by blast
qed

section \<open>Validating twice\<close>

lemma trim_space_ends: "trim_space s \<noteq> [] \<Longrightarrow> \<not> is_space (hd (trim_space s)) \<and> \<not> is_space (last (trim_space s))"
proof -
  let ?t = "dropWhile is_space s"
  assume ne: "trim_space s \<noteq> []"
  then have t: "dropWhile is_space (rev ?t) \<noteq> []" by (simp add: trim_space_def)
  then have "\<not> is_space (last (trim_space s))" by (simp add: trim_space_def last_rev hd_dropWhile)
  moreover have "hd (trim_space s) = hd ?t"
    using ne t by (metis (no_types, lifting) hd_append2 rev_append rev_rev_ident takeWhile_dropWhile_id trim_space_def)
  moreover have "?t \<noteq> []" using t by (cases ?t) simp_all
  ultimately show ?thesis by (simp add: hd_dropWhile)
qed

lemma trim_space_id: "s = [] \<or> \<not> is_space (hd s) \<and> \<not> is_space (last s) \<Longrightarrow> trim_space s = s"
proof -
  assume "s = [] \<or> \<not> is_space (hd s) \<and> \<not> is_space (last s)"
  then have "dropWhile is_space s = s" and "dropWhile is_space (rev s) = rev s"
    by (auto simp: dropWhile_eq_self_iff hd_rev)
  then show ?thesis by (simp add: trim_space_def)
qed

lemma last_piece_suffix: "suffix (last (v_split d s)) s"
proof (induction s)
  case (Cons c s)
  then show ?case
    using join_v_split [of d s] by (cases "v_split d s") (auto intro: suffix_ConsI)
qed simp

lemma file_ext_last: "file_ext p \<noteq> '''' \<Longrightarrow> backslash \<notin> set p \<Longrightarrow> last (file_ext p) = last p"
proof -
  assume e: "file_ext p \<noteq> ''''" and b: "backslash \<notin> set p"
  let ?f = "last (v_split slash p)"
  obtain u where u: "p = u @ ?f" using last_piece_suffix by (metis suffix_def)
  from e b have "?f \<noteq> [] \<and> last (file_ext p) = last ?f"
    by (auto simp: file_ext_def file_name_def v_replace_char_id Let_def split: option.splits if_splits)
  then show ?thesis by (metis u last_appendR)
qed

lemma allowed_extension_last:
  "v_to_lower e \<in> set allowed_file_extensions \<Longrightarrow> e \<noteq> '''' \<Longrightarrow> \<not> is_space (last e) \<and> last e \<noteq> slash"
proof -
  have "list_all (\<lambda>x. \<not> is_space (last x) \<and> last x \<noteq> slash) allowed_file_extensions" by code_simp
  then have "v_to_lower e \<in> set allowed_file_extensions \<Longrightarrow>
      \<not> is_space (last (v_to_lower e)) \<and> last (v_to_lower e) \<noteq> slash" by (simp add: list_all_iff)
  moreover have "is_space c \<Longrightarrow> char_to_lower c = c" for c
    by (auto simp: is_space_def char_to_lower_def)
  moreover have "char_to_lower slash = slash" by code_simp
  ultimately show "v_to_lower e \<in> set allowed_file_extensions \<Longrightarrow> e \<noteq> '''' \<Longrightarrow> ?thesis"
    by (metis last_map v_to_lower_def)
qed

lemma normalize_hd: "normalize_path path \<noteq> '''' \<Longrightarrow> \<not> is_space (hd (normalize_path path))"
proof -
  assume ne: "normalize_path path \<noteq> ''''"
  let ?t = "trim_space path"
  from ne normalize_prefix [of path] have c: "collapse_slashes (unix_path path) \<noteq> []"
    and hd: "hd (normalize_path path) = hd (collapse_slashes (unix_path path))"
    by (auto simp: prefix_def)
  from c have u: "unix_path path \<noteq> []" by auto
  then have t: "?t \<noteq> []" by (auto simp: unix_path_def v_replace_def)
  have "hd (unix_path path) = (if hd ?t = backslash then slash else hd ?t)"
    using t by (simp add: unix_path_def v_replace_char hd_map)
  moreover have "\<not> is_space slash" by code_simp
  ultimately show ?thesis using trim_space_ends [OF t] hd hd_collapse [OF u] by simp
qed

lemma normalize_fixpoint:
  assumes "p = normalize_path path" and "p \<noteq> ''''" and "\<not> is_space (last p)" and "last p \<noteq> slash"
  shows "normalize_path p = p"
proof -
  have "trim_space p = p" using assms normalize_hd [of path] by (auto intro: trim_space_id)
  moreover have "v_replace backslash ''/'' p = p"
    using assms(1) normalize_no_backslash by (simp add: v_replace_char_id)
  moreover have "collapse_slashes p = p"
    using assms(1) normalize_no_double by (simp add: collapse_slashes.simps)
  ultimately show ?thesis using assms by (simp add: normalize_path_def)
qed

lemma length_normalize: "length (normalize_path path) \<le> length path"
  using prefix_length_le [OF normalize_prefix [of path]] length_collapse [of "unix_path path"] length_trim_space [of path]
  by (simp add: unix_path_def length_v_replace_char)

text \<open>With the extension check on and no custom list, validation gives a fixed point: the accepted text is accepted
  again, unchanged, so a caller may validate a path that was validated before.\<close>

theorem validate_file_path_idempotent:
  assumes "validate_file_path path options = Inr p"
    and "po_check_file_extension options" and "po_custom_allowed_extensions options = []"
  shows "validate_file_path p options = Inr p"
proof -
  from assms(1) have p: "p = normalize_path path" and clean: "path_clean p options"
    and len: "int (length path) \<le> po_max_path_length options"
    by (auto simp: validate_file_path_iff)
  from clean assms(2,3) have ext: "file_ext p \<noteq> ''''" "v_to_lower (file_ext p) \<in> set allowed_file_extensions"
    by (auto simp: path_clean_def is_allowed_file_type_def Let_def v_to_lower_def split: if_splits)
  from ext(1) have "p \<noteq> ''''" by (auto simp: file_ext_def)
  moreover have "normalize_path p = p"
    using allowed_extension_last [OF ext(2,1)] file_ext_last [OF ext(1)] normalize_no_backslash p \<open>p \<noteq> ''''\<close>
    by (auto intro: normalize_fixpoint)
  ultimately show ?thesis
    using clean len length_normalize [of path] p by (simp add: validate_file_path_iff)
qed

lemma validate_file_path_idempotent_witness:
  "validate_file_path ''docs/a.PNG'' default_path_validation_options = Inr ''docs/a.PNG''"
  by (rule validate_file_path_idempotent [of "'' docs//a.PNG/ ''"]) code_simp+

section \<open>Numbers\<close>

lemma validate_chunk_index_iff:
  "validate_chunk_index s m = Inr i \<longleftrightarrow>
     s \<noteq> '''' \<and> list_all is_digit s \<and> i = v_int s \<and> (m > 0 \<longrightarrow> i < m)"
  unfolding validate_chunk_index_def Let_def check_chain by (auto simp: v_int_def)

lemma validate_file_size_iff:
  "validate_file_size s m = Inr n \<longleftrightarrow>
     s \<noteq> '''' \<and> list_all is_digit s \<and> n = v_int s \<and> 0 < n \<and> n \<le> m"
  unfolding validate_file_size_def Let_def check_chain by auto

lemma digit_facts: "d < 10 \<Longrightarrow> is_digit (char_of (48 + d :: nat)) \<and> of_char (char_of (48 + d :: nat)) = 48 + d"
  by (simp add: is_digit_def Let_def)

lemma dec_value_snoc: "dec_value (s @ [c]) = 10 * dec_value s + (of_char c - 48)"
  by (simp add: dec_value_def)

lemma dec_digits_facts:
  "dec_digits n \<noteq> [] \<and> list_all is_digit (dec_digits n) \<and> dec_value (dec_digits n) = n"
proof (induction n rule: dec_digits.induct)
  case (1 n)
  show ?case
  proof (cases "n < 10")
    case True
    with digit_facts [of n] show ?thesis by (simp add: dec_digits.simps [of n] dec_value_def)
  next
    case False
    with 1 digit_facts [of "n mod 10"] show ?thesis
      by (simp add: dec_digits.simps [of n] dec_value_snoc)
  qed
qed

text \<open>With an upper bound, a chunk index is accepted exactly when it is a non-empty numeral of decimal digits whose value,
  however long the numeral is, lies below the bound, and the result is that value; the printed form of every index below
  the bound is accepted and gives the index back.  (Without a bound a numeral beyond the range of \<^verbatim>\<open>int\<close> is accepted as
  the largest \<^verbatim>\<open>int\<close>.)\<close>

theorem chunk_index_exact:
  assumes "0 < m" and "m < 2 ^ 31"
  shows "(validate_chunk_index s m = Inr i \<longleftrightarrow>
      s \<noteq> '''' \<and> list_all is_digit s \<and> i = int (dec_value s) \<and> int (dec_value s) < m)
    \<and> (0 \<le> j \<and> j < m \<longrightarrow> validate_chunk_index (v_str j) m = Inr j)"
proof -
  have bound: "v_int t < m \<longleftrightarrow> int (dec_value t) < m" "v_int t < m \<Longrightarrow> v_int t = int (dec_value t)" for t
    using assms by (auto simp: v_int_def min_def split: if_splits)
  have iff: "validate_chunk_index t m = Inr k \<longleftrightarrow>
      t \<noteq> '''' \<and> list_all is_digit t \<and> k = int (dec_value t) \<and> int (dec_value t) < m" for t k
    using bound [of t] assms(1) by (auto simp: validate_chunk_index_iff simp del: of_nat_less_iff)
  have "v_str j = dec_digits (nat j)" if "0 \<le> j" using that by (simp add: v_str_def)
  then show ?thesis using iff dec_digits_facts [of "nat j"] by simp
qed

lemma chunk_index_exact_witness:
  "validate_chunk_index ''007'' 10 = Inr 7 \<and> \<not> validate_chunk_index ''4294967296'' 10 = Inr 0"
  using chunk_index_exact [of 10 "''007''" 7 0] chunk_index_exact [of 10 "''4294967296''" 0 0]
  by (simp add: dec_value_def is_digit_def)

lemma chunk_index_saturates: "validate_chunk_index ''4294967296'' 0 = Inr 2147483647"
  by (simp add: validate_chunk_index_iff v_int_def dec_value_def is_digit_def)

text \<open>Acceptance of hashes and file names.\<close>

theorem validate_file_hash_iff:
  "validate_file_hash h = Inr r \<longleftrightarrow> length h = 32 \<and> list_all is_hex_digit h \<and> r = v_to_lower h"
  unfolding validate_file_hash_def check_chain by (auto simp: list_all_iff)

theorem validate_filename_iff:
  "validate_filename f = Inr r \<longleftrightarrow>
     r = f \<and> f \<noteq> '''' \<and> length f \<le> 255 \<and> list_all (\<lambda>c. \<not> v_contains_str f c) dangerous_chars
     \<and> v_to_upper (hd (v_split (CHR ''.'') f)) \<notin> set reserved_names"
  unfolding validate_filename_def Let_def check_chain by auto

lemma is_safe_path_iff:
  "is_safe_path path \<longleftrightarrow> path \<noteq> '''' \<and> length path \<le> 260 \<and> path_clean (normalize_path path) default_path_validation_options"
proof -
  let ?o = default_path_validation_options
  have "p \<noteq> ''''" if "path_clean p ?o" for p
    using that by (auto simp: path_clean_def default_path_validation_options_def is_allowed_file_type_def file_ext_def
        v_to_lower_def)
  moreover have "is_safe_path path \<longleftrightarrow> (\<exists>p. validate_file_path path ?o = Inr p \<and> p \<noteq> '''')"
    by (auto simp: is_safe_path_def split: sum.splits)
  moreover have "po_max_path_length ?o = 260" by (simp add: default_path_validation_options_def)
  ultimately show ?thesis by (auto simp: validate_file_path_iff)
qed

text \<open>Behaviours worth knowing: a hidden directory passes, an allowed base path admits siblings whose name it begins,
  a network share passes when absolute paths are allowed, and a file name may climb out of its directory.\<close>

lemma hidden_directory_passes:
  "validate_file_path ''.git/config.txt'' default_path_validation_options = Inr ''.git/config.txt''"
  by code_simp

lemma base_path_sibling:
  "validate_file_path ''database/a.txt'' (default_path_validation_options\<lparr>po_allowed_base_paths := [''data'']\<rparr>)
   = Inr ''database/a.txt''"
  by code_simp

lemma unc_share_passes:
  "validate_file_path (backslash # backslash # ''srv'' @ backslash # ''a.txt'')
     (default_path_validation_options\<lparr>po_allow_absolute_paths := True\<rparr>) = Inr ''/srv/a.txt''"
  by code_simp

lemma filename_climbs: "validate_filename ''../../etc/passwd'' = Inr ''../../etc/passwd''"
  by code_simp

section \<open>Reading decimal texts\<close>

text \<open>\<^verbatim>\<open>string.int()\<close> and \<^verbatim>\<open>string.i64()\<close> on a decimal text with a sign: the digits up to the first other byte, clipped
  to the range.\<close>

definition parse_int :: "int \<Rightarrow> string \<Rightarrow> int" where
  "parse_int m s =
     (let value = (\<lambda>t. int (dec_value (takeWhile is_digit t))) in
      if v_starts_with s ''-'' then max (- m) (- value (drop 1 s))
      else if v_starts_with s ''+'' then min (m - 1) (value (drop 1 s))
      else min (m - 1) (value s))"

lemma takeWhile_digits: "takeWhile is_digit (dec_digits n) = dec_digits n"
  using dec_digits_facts [of n] by (auto simp: takeWhile_eq_all_conv list_all_iff)

lemma dec_digits_sign: "\<not> v_starts_with (dec_digits n) ''-'' \<and> \<not> v_starts_with (dec_digits n) ''+''"
proof -
  obtain c cs where "dec_digits n = c # cs" "is_digit c"
    using dec_digits_facts [of n] by (cases "dec_digits n") auto
  then show ?thesis by (auto simp: is_digit_def)
qed

lemma parse_print: "0 \<le> i \<Longrightarrow> i < m \<Longrightarrow> parse_int m (v_str i) = i"
  using dec_digits_sign [of "nat i"] dec_digits_facts [of "nat i"]
  by (simp add: parse_int_def v_str_def takeWhile_digits Let_def)

end
