(* ===== verification/Static_Files.thy ===== *)
theory Static_Files
  imports Security
begin

text \<open>
  Static files: the middleware \<^verbatim>\<open>serve_static\<close> of \<^verbatim>\<open>static.v\<close> and \<^verbatim>\<open>Context.file_with_options\<close> of \<^verbatim>\<open>request.v\<close>, on top of the
  path validation of \<open>Security\<close>.

  The operating system is a parameter, the record \<open>file_system\<close>: joining two paths, existence, kind, content and
  modification time of a path.  Of joining the theorems assume only that the joined path names what the second path
  names when it is opened in the directory the first one names.

  Shown here: the answer of the middleware does not depend on anything outside its root directory (two file systems that
  agree below the root give the same answer to every request), and what a hit answers, conditional requests included.
\<close>

section \<open>The operating system\<close>

record file_system =
  fs_join :: "string \<Rightarrow> string \<Rightarrow> string"
  fs_exists :: "string \<Rightarrow> bool"
  fs_is_dir :: "string \<Rightarrow> bool"
  fs_read :: "string \<Rightarrow> string option"
  fs_mtime :: "string \<Rightarrow> int option"

section \<open>Options\<close>

record static_options =
  so_root :: string
  so_path :: string
  so_index :: string
  so_dotfiles :: bool
  so_etag :: bool
  so_last_modified :: bool
  so_max_age :: int
  so_headers :: "(string, string) vmap"

definition default_static_options :: static_options where
  "default_static_options =
     \<lparr>so_root = ''./public'', so_path = ''/'', so_index = ''index.html'', so_dotfiles = False, so_etag = True,
      so_last_modified = True, so_max_age = 0, so_headers = []\<rparr>"

record file_options =
  fo_status_code :: int
  fo_content_type :: string
  fo_last_modified :: bool
  fo_etag :: bool
  fo_max_age :: int
  fo_no_cache :: bool
  fo_headers :: "(string, string) vmap"
  fo_stream_threshold :: "64 word"
  fo_buffer_size :: int
  fo_enable_range :: bool
  fo_compress :: bool

section \<open>Pieces of a response\<close>

definition format_http_date :: "int \<Rightarrow> string" where
  "format_http_date t = v_str t"

definition quote :: char where
  "quote = CHR 0x22"

definition generate_etag :: "string \<Rightarrow> int \<Rightarrow> string" where
  "generate_etag content mod_time = quote # v_str (int (length content)) @ ''-'' @ v_str mod_time @ [quote]"

definition generate_file_etag :: "string \<Rightarrow> int \<Rightarrow> string" where
  "generate_file_etag content mod_time = quote # v_str (int (length content)) @ ''-'' @ v_str mod_time @ [quote]"

text \<open>The response made of the context's own fields alone.\<close>

definition own_headers_response :: "string \<Rightarrow> http_context \<Rightarrow> http_response" where
  "own_headers_response body c =
     \<lparr>rs_status_code = cx_status_code c, rs_header = add_context_headers c [], rs_body = body\<rparr>"

definition set_headers :: "(string, string) vmap \<Rightarrow> http_context \<Rightarrow> http_context" where
  "set_headers hs c = fold (\<lambda>(k, v). set_header k v) hs c"

definition if_none_match :: "http_context \<Rightarrow> string" where
  "if_none_match c = (case get_custom (hq_header (cx_req c)) ''If-None-Match'' of Some v \<Rightarrow> v | None \<Rightarrow> '''')"

definition fail_text :: "int \<Rightarrow> string \<Rightarrow> http_context \<Rightarrow> http_response \<times> http_context" where
  "fail_text code msg c = (let c' = context_status code c in (context_text msg c', c'))"

section \<open>Serving\<close>

definition serve_file :: "file_system \<Rightarrow> static_options \<Rightarrow> string \<Rightarrow> http_context \<Rightarrow> http_response \<times> http_context" where
  "serve_file fs options file_path c =
     (case fs_read fs file_path of
        None \<Rightarrow> fail_text 500 ''Internal Server Error'' c
      | Some content \<Rightarrow>
      (case fs_mtime fs file_path of
        None \<Rightarrow> fail_text 500 ''Internal Server Error'' c
      | Some mtime \<Rightarrow>
        let c1 = context_status 200 c;
            c2 = set_header ''Content-Type'' (get_safe_content_type file_path) c1;
            c3 = set_header ''Content-Length'' (v_str (int (length content))) c2;
            c4 = (if so_last_modified options then set_header ''Last-Modified'' (format_http_date mtime) c3 else c3);
            etag = generate_etag content mtime;
            c5 = (if so_etag options then set_header ''ETag'' etag c4 else c4)
        in if so_etag options \<and> if_none_match c5 = etag
           then let c6 = context_status 304 c5 in (build_headers_response '''' c6, c6)
           else let c6 = (if so_max_age options > 0
                          then set_header ''Cache-Control'' (''public, max-age='' @ v_str (so_max_age options)) c5
                          else set_header ''Cache-Control'' ''no-cache'' c5);
                    c7 = set_headers (so_headers options) c6;
                    c8 = set_header ''Connection'' ''keep-alive'' c7
                in (own_headers_response content c8, c8)))"

definition static_validation :: "static_options \<Rightarrow> path_options" where
  "static_validation options =
     \<lparr>po_allow_absolute_paths = False, po_allow_hidden_files = so_dotfiles options, po_check_file_extension = False,
      po_max_path_length = 260, po_allowed_base_paths = [], po_custom_allowed_extensions = []\<rparr>"

text \<open>The path that the middleware looks for.\<close>

definition static_file_path :: "static_options \<Rightarrow> string \<Rightarrow> string" where
  "static_file_path options path =
     (let p = drop (length (so_path options)) path;
          q = (if v_starts_with p ''/'' then drop 1 p else p)
      in if q = '''' then so_index options else q)"

definition serve_static :: "file_system \<Rightarrow> static_options \<Rightarrow> context_middleware" where
  "serve_static fs options c nxt =
     (if \<not> v_starts_with (cx_path c) (so_path options) then nxt c
      else let file_path = static_file_path options (cx_path c) in
        case validate_file_path file_path (static_validation options) of
          Inl err \<Rightarrow>
            if v_contains_str (check_error_message err) ''Dangerous'' then fail_text 403 ''Forbidden'' c else nxt c
        | Inr safe_file_path \<Rightarrow>
          if \<not> so_dotfiles options \<and> v_starts_with file_path ''.'' then fail_text 403 ''Forbidden'' c
          else let full_path = fs_join fs (so_root options) safe_file_path in
            if \<not> fs_exists fs full_path then nxt c
            else if fs_is_dir fs full_path then
              (let index_path = fs_join fs full_path (so_index options) in
               if fs_exists fs index_path then serve_file fs options index_path c
               else fail_text 404 ''Not Found'' c)
            else serve_file fs options full_path c)"

definition serve_static_default :: "file_system \<Rightarrow> context_middleware" where
  "serve_static_default fs = serve_static fs default_static_options"

definition serve_static_root :: "file_system \<Rightarrow> string \<Rightarrow> context_middleware" where
  "serve_static_root fs root =
     serve_static fs \<lparr>so_root = root, so_path = ''/'', so_index = ''index.html'', so_dotfiles = False, so_etag = True,
       so_last_modified = True, so_max_age = 0, so_headers = []\<rparr>"

definition serve_static_path :: "file_system \<Rightarrow> string \<Rightarrow> string \<Rightarrow> context_middleware" where
  "serve_static_path fs path root =
     serve_static fs \<lparr>so_root = root, so_path = path, so_index = ''index.html'', so_dotfiles = False, so_etag = True,
       so_last_modified = True, so_max_age = 0, so_headers = []\<rparr>"

section \<open>Files of the context\<close>

definition file_with_options :: "file_system \<Rightarrow> string \<Rightarrow> file_options \<Rightarrow> handler_fn" where
  "file_with_options fs file_path options c =
     (case validate_file_path file_path
        \<lparr>po_allow_absolute_paths = False, po_allow_hidden_files = False, po_check_file_extension = True,
         po_max_path_length = 260, po_allowed_base_paths = [], po_custom_allowed_extensions = []\<rparr> of
        Inl err \<Rightarrow> fail_text 403 (''Forbidden: '' @ check_error_message err) c
      | Inr safe \<Rightarrow>
        if \<not> fs_exists fs safe then fail_text 404 ''File Not Found'' c
        else if fs_is_dir fs safe then fail_text 400 ''Cannot serve directory'' c
        else
      (case fs_read fs safe of
        None \<Rightarrow> fail_text 500 ''Internal Server Error'' c
      | Some content \<Rightarrow>
      (case fs_mtime fs safe of
        None \<Rightarrow> fail_text 500 ''Internal Server Error'' c
      | Some mtime \<Rightarrow>
        let c1 = context_status (if fo_status_code options > 0 then fo_status_code options else 200) c;
            c2 = set_header ''Content-Type''
                   (if fo_content_type options \<noteq> '''' then fo_content_type options else get_safe_content_type safe) c1;
            c3 = set_header ''Content-Length'' (v_str (int (length content))) c2;
            c4 = (if fo_last_modified options then set_header ''Last-Modified'' (format_http_date mtime) c3 else c3);
            etag = generate_file_etag content mtime;
            c5 = (if fo_etag options then set_header ''ETag'' etag c4 else c4)
        in if fo_etag options \<and> if_none_match c5 = etag
           then let c6 = context_status 304 c5 in (own_headers_response '''' c6, c6)
           else let c6 = (if fo_max_age options > 0
                          then set_header ''Cache-Control'' (''public, max-age='' @ v_str (fo_max_age options)) c5
                          else if fo_no_cache options then set_header ''Cache-Control'' ''no-cache'' c5 else c5);
                    c7 = set_headers (fo_headers options) c6
                in (own_headers_response content c7, c7))))"

definition default_file_options :: file_options where
  "default_file_options =
     \<lparr>fo_status_code = 0, fo_content_type = '''', fo_last_modified = True, fo_etag = True, fo_max_age = 0,
      fo_no_cache = False, fo_headers = [], fo_stream_threshold = 50 * 1024 * 1024, fo_buffer_size = 8192, fo_enable_range = True,
      fo_compress = False\<rparr>"

definition context_file :: "file_system \<Rightarrow> string \<Rightarrow> handler_fn" where
  "context_file fs file_path = file_with_options fs file_path default_file_options"

section \<open>Nothing outside the root is visible\<close>

text \<open>The two hypotheses of the confinement theorem, for a working directory \<open>cwd\<close>: what joining does, and that two file
  systems look the same at every path that names something below a root.\<close>

definition join_resolves :: "string list \<Rightarrow> file_system \<Rightarrow> bool" where
  "join_resolves cwd fs \<longleftrightarrow>
     (\<forall>a b. \<not> v_starts_with b ''/'' \<longrightarrow> resolve_path cwd (fs_join fs a b) = resolve_path (resolve_path cwd a) b)"

definition agree_below :: "string list \<Rightarrow> string \<Rightarrow> file_system \<Rightarrow> file_system \<Rightarrow> bool" where
  "agree_below cwd root fs1 fs2 \<longleftrightarrow> fs_join fs1 = fs_join fs2 \<and>
     (\<forall>p. prefix (resolve_path cwd root) (resolve_path cwd p) \<longrightarrow>
        fs_exists fs1 p = fs_exists fs2 p \<and> fs_is_dir fs1 p = fs_is_dir fs2 p
        \<and> fs_read fs1 p = fs_read fs2 p \<and> fs_mtime fs1 p = fs_mtime fs2 p)"

definition index_plain :: "static_options \<Rightarrow> bool" where
  "index_plain options \<longleftrightarrow> ''..'' \<notin> set (v_split slash (so_index options)) \<and> \<not> v_starts_with (so_index options) ''/''"

lemma agree_read:
  "agree_below cwd root fs1 fs2 \<Longrightarrow> prefix (resolve_path cwd root) (resolve_path cwd p) \<Longrightarrow>
   fs_exists fs1 p = fs_exists fs2 p \<and> fs_is_dir fs1 p = fs_is_dir fs2 p
   \<and> fs_read fs1 p = fs_read fs2 p \<and> fs_mtime fs1 p = fs_mtime fs2 p"
  by (simp add: agree_below_def)

lemma serve_file_agree:
  assumes "agree_below cwd root fs1 fs2" and "prefix (resolve_path cwd root) (resolve_path cwd p)"
  shows "serve_file fs1 options p c = serve_file fs2 options p c"
  using agree_read [OF assms] by (simp only: serve_file_def)

lemma join_below:
  assumes "join_resolves cwd fs" and "validate_file_path f (static_validation options) = Inr p"
  shows "prefix (resolve_path cwd root) (resolve_path cwd (fs_join fs root p))"
proof -
  have na: "\<not> po_allow_absolute_paths (static_validation options)" by (simp add: static_validation_def)
  from assms(2) have clean: "path_clean p (static_validation options)" by (rule validate_path_clean)
  with na have "\<not> v_starts_with p ''/''" by (auto simp: path_clean_def is_absolute_path_def)
  then have "resolve_path cwd (fs_join fs root p) = resolve_path (resolve_path cwd root) p"
    using assms(1) by (simp add: join_resolves_def)
  with resolve_clean [OF clean na] show ?thesis by simp
qed

lemma join_index_below:
  assumes "join_resolves cwd fs" and "index_plain options" and "prefix d (resolve_path cwd a)"
  shows "prefix d (resolve_path cwd (fs_join fs a (so_index options)))"
proof -
  have "resolve_path cwd (fs_join fs a (so_index options)) = resolve_path (resolve_path cwd a) (so_index options)"
    using assms(1,2) by (simp add: join_resolves_def index_plain_def)
  with assms(2,3) show ?thesis by (simp add: resolve_path_def index_plain_def resolve_no_up)
qed

text \<open>C6: the answer of the static file middleware to any request is the same on two file systems that agree below
  the root directory, however much they differ elsewhere: no request path makes it read, or reveal the existence of, anything
  outside its root (symbolic links apart: names are resolved textually).\<close>

theorem static_confined:
  assumes "join_resolves cwd fs1" and "agree_below cwd (so_root options) fs1 fs2" and "index_plain options"
  shows "serve_static fs1 options c nxt = serve_static fs2 options c nxt"
proof (cases "validate_file_path (static_file_path options (cx_path c)) (static_validation options)")
  case (Inl err)
  then show ?thesis by (simp add: serve_static_def Let_def)
next
  case (Inr p)
  let ?full = "fs_join fs1 (so_root options) p"
  have join: "fs_join fs2 = fs_join fs1" using assms(2) by (simp add: agree_below_def)
  have full: "prefix (resolve_path cwd (so_root options)) (resolve_path cwd ?full)"
    by (rule join_below [OF assms(1) Inr])
  note index = join_index_below [OF assms(1,3) full]
  show ?thesis
    using agree_read [OF assms(2) full] agree_read [OF assms(2) index]
      serve_file_agree [OF assms(2) full] serve_file_agree [OF assms(2) index] Inr join
    by (simp add: serve_static_def Let_def)
qed

text \<open>An example: a file system with a public page and a secret, and the same without the secret.\<close>

definition demo_join :: "string \<Rightarrow> string \<Rightarrow> string" where
  "demo_join a b = (if a = '''' then b else a @ slash # b)"

definition demo_fs :: "(string \<times> string) list \<Rightarrow> file_system" where
  "demo_fs files =
     \<lparr>fs_join = demo_join, fs_exists = (\<lambda>p. map_of files p \<noteq> None), fs_is_dir = (\<lambda>p. False),
      fs_read = map_of files, fs_mtime = (\<lambda>p. map_option (\<lambda>_. 7) (map_of files p))\<rparr>"

definition demo_get :: "string \<Rightarrow> string \<Rightarrow> http_context" where
  "demo_get path tag =
     \<lparr>cx_req = \<lparr>hq_method = ''GET'', hq_url = path, hq_header = [(''if-none-match'', tag)], hq_data = ''''\<rparr>, cx_params = [], cx_query = [],
      cx_url = path, cx_path = path, cx_status_code = 200, cx_headers = [], cx_body = '''', cx_store = []\<rparr>"

definition demo_next :: handler_fn where
  "demo_next c = (context_text ''next'' c, c)"

lemma demo_join_resolves: "join_resolves cwd (demo_fs files)"
proof -
  have "resolve_path cwd (demo_join a b) = resolve_path (resolve_path cwd a) b" if "\<not> v_starts_with b ''/''" for a b
  proof (cases a)
    case Nil
    with that show ?thesis by (simp add: demo_join_def resolve_path_def resolve_step_def)
  next
    case (Cons x xs)
    with that have "demo_join a b = a @ slash # b" by (simp add: demo_join_def)
    moreover have "v_starts_with (a @ slash # b) ''/'' = v_starts_with a ''/''" using Cons by simp
    moreover have "v_split slash (a @ slash # b) = v_split slash a @ v_split slash b" by (rule v_split_snoc_delim)
    ultimately show ?thesis
      using that by (simp only: resolve_path_def if_False foldl_append)
  qed
  then show ?thesis by (simp add: join_resolves_def demo_fs_def)
qed

lemma demo_agree:
  assumes "\<And>p. prefix (resolve_path cwd root) (resolve_path cwd p) \<Longrightarrow> map_of files1 p = map_of files2 p"
  shows "agree_below cwd root (demo_fs files1) (demo_fs files2)"
  using assms by (simp add: agree_below_def demo_fs_def)

theorem static_confined_witness:
  "serve_static (demo_fs [(''etc/key'', ''secret''), (''pub/a.txt'', ''hello'')]) (default_static_options\<lparr>so_root := ''pub''\<rparr>)
     (demo_get ''/../etc/key'' '''') demo_next
   = serve_static (demo_fs [(''pub/a.txt'', ''hello'')]) (default_static_options\<lparr>so_root := ''pub''\<rparr>)
     (demo_get ''/../etc/key'' '''') demo_next"
proof (rule static_confined [where cwd = "[]"])
  let ?o = "default_static_options\<lparr>so_root := ''pub''\<rparr>"
  show "join_resolves [] (demo_fs [(''etc/key'', ''secret''), (''pub/a.txt'', ''hello'')])" by (rule demo_join_resolves)
  have "resolve_path [] ''pub'' = [''pub'']" "resolve_path [] ''etc/key'' = [''etc'', ''key'']" by code_simp+
  then show "agree_below [] (so_root ?o)
      (demo_fs [(''etc/key'', ''secret''), (''pub/a.txt'', ''hello'')]) (demo_fs [(''pub/a.txt'', ''hello'')])"
    by (intro demo_agree) auto
  show "index_plain ?o" by code_simp
qed

section \<open>What a hit answers\<close>

lemma set_header_sel [simp]:
  "cx_req (set_header k v c) = cx_req c" "cx_status_code (set_header k v c) = cx_status_code c"
  "cx_path (set_header k v c) = cx_path c" "cx_headers (set_header k v c) = vset k v (cx_headers c)"
  by (simp_all add: set_header_def)

lemma context_status_sel [simp]:
  "cx_req (context_status s c) = cx_req c" "cx_status_code (context_status s c) = s"
  "cx_path (context_status s c) = cx_path c" "cx_headers (context_status s c) = cx_headers c"
  by (simp_all add: context_status_def)

lemma set_headers_sel [simp]:
  "cx_req (set_headers hs c) = cx_req c" "cx_status_code (set_headers hs c) = cx_status_code c"
  by (induction hs arbitrary: c) (auto simp: set_headers_def)

lemma if_none_match_req: "cx_req c = cx_req c' \<Longrightarrow> if_none_match c = if_none_match c'"
  by (simp add: if_none_match_def)

theorem serve_file_answer:
  assumes "fs_read fs p = Some content" and "fs_mtime fs p = Some t"
  shows "let r = fst (serve_file fs options p c) in
    if so_etag options \<and> if_none_match c = generate_etag content t
    then rs_status_code r = 304 \<and> rs_body r = '''' else rs_status_code r = 200 \<and> rs_body r = content"
proof -
  have inm: "if_none_match (set_header k v c') = if_none_match c'" "if_none_match (context_status s c') = if_none_match c'"
    for k v s c' by (simp_all add: if_none_match_def)
  show ?thesis
    by (simp add: serve_file_def assms Let_def inm build_headers_response_def own_headers_response_def)
qed

text \<open>A request whose path leads to a file under the root is answered with the file: status 200 and its content, or, when
  validators are on and \<^verbatim>\<open>If-None-Match\<close> is the current tag, status 304 with an empty body; the tag is made of the length and
  the modification time alone.\<close>

theorem static_hit:
  assumes "v_starts_with (cx_path c) (so_path options)"
    and "validate_file_path (static_file_path options (cx_path c)) (static_validation options) = Inr p"
    and "so_dotfiles options \<or> \<not> v_starts_with (static_file_path options (cx_path c)) ''.''"
    and "fs_exists fs (fs_join fs (so_root options) p)" and "\<not> fs_is_dir fs (fs_join fs (so_root options) p)"
    and "fs_read fs (fs_join fs (so_root options) p) = Some content"
    and "fs_mtime fs (fs_join fs (so_root options) p) = Some t"
  shows "let r = fst (serve_static fs options c nxt) in
    if so_etag options \<and> if_none_match c = generate_etag content t
    then rs_status_code r = 304 \<and> rs_body r = '''' else rs_status_code r = 200 \<and> rs_body r = content"
proof -
  have "serve_static fs options c nxt = serve_file fs options (fs_join fs (so_root options) p) c"
    using assms(1-5) by (auto simp: serve_static_def Let_def)
  then show ?thesis using serve_file_answer [OF assms(6,7)] by simp
qed

lemma static_hit_witness:
  "rs_body (fst (serve_static (demo_fs [(''pub/a.txt'', ''hello'')]) (default_static_options\<lparr>so_root := ''pub''\<rparr>)
      (demo_get ''/a.txt'' '''') demo_next)) = ''hello''
   \<and> rs_status_code (fst (serve_static (demo_fs [(''pub/a.txt'', ''hello'')]) (default_static_options\<lparr>so_root := ''pub''\<rparr>)
      (demo_get ''/a.txt'' (quote # ''5-7'' @ [quote])) demo_next)) = 304"
proof -
  let ?fs = "demo_fs [(''pub/a.txt'', ''hello'')]" and ?o = "default_static_options\<lparr>so_root := ''pub''\<rparr>"
  have ok: "let r = fst (serve_static ?fs ?o (demo_get ''/a.txt'' tag) demo_next) in
    if so_etag ?o \<and> if_none_match (demo_get ''/a.txt'' tag) = generate_etag ''hello'' 7
    then rs_status_code r = 304 \<and> rs_body r = '''' else rs_status_code r = 200 \<and> rs_body r = ''hello''" for tag
    by (rule static_hit [where p = "''a.txt''"])
      (simp_all add: demo_get_def demo_fs_def demo_join_def default_static_options_def static_file_path_def,
       simp add: static_validation_def, code_simp)
  have "v_to_lower ''if-none-match'' = v_to_lower ''If-None-Match''" by code_simp
  then have inm: "if_none_match (demo_get p tag) = tag" for p tag
    by (simp add: if_none_match_def demo_get_def get_custom_def)
  have tag: "generate_etag ''hello'' 7 = quote # ''5-7'' @ [quote]"
    by code_simp
  show ?thesis
    using ok [of "''''"] ok [of "quote # ''5-7'' @ [quote]"]
    by (simp add: inm tag Let_def default_static_options_def)
qed

end
