(* ===== verification/File_Streams.thy ===== *)
theory File_Streams
  imports Static_Files
begin

text \<open>
  The streaming file functions of the context in \<^verbatim>\<open>request.v\<close>: ranges, large files in pieces, and the choice between them
  and \<open>file_with_options\<close>.

  To the file system of \<open>Static_Files\<close> come the size and time that \<^verbatim>\<open>os.stat\<close> gives, opening, seeking and reading at a
  position; the position of an open file is an argument.  Sizes are \<^verbatim>\<open>u64\<close>, a 64-bit word; the conversions to \<^verbatim>\<open>int\<close> cut
  to 32 bits.  A buffer of negative length or capacity is a panic: the result is \<open>None\<close>.

  Shown here: a range is accepted only inside the file, a request for a range gets that piece of the file (\<open>range_served\<close>), and reading
  in pieces gives the file (\<open>pieces_whole\<close>); what short reads, ranges counted from the end and errors in the middle lead to.
\<close>

section \<open>The system\<close>

record stream_system = file_system +
  ss_stat :: "string \<Rightarrow> (64 word \<times> int) option"
  ss_open :: "string \<Rightarrow> bool"
  ss_seek :: "string \<Rightarrow> int \<Rightarrow> nat option"
  ss_read :: "string \<Rightarrow> nat \<Rightarrow> nat \<Rightarrow> string option"

text \<open>\<^verbatim>\<open>string.u64()\<close> of a decimal text, clipped to the range; the prefixes of other bases and underscores are left aside.\<close>

definition v_u64 :: "string \<Rightarrow> 64 word" where
  "v_u64 s = word_of_nat (min (2 ^ 64 - 1) (dec_value (takeWhile is_digit s)))"

definition v_str_u64 :: "64 word \<Rightarrow> string" where
  "v_str_u64 n = v_str (uint n)"

section \<open>Ranges\<close>

record range_request =
  rr_start :: "64 word"
  rr_end :: "64 word"
  rr_total :: "64 word"

definition parse_range_header :: "string \<Rightarrow> 64 word \<Rightarrow> range_request option" where
  "parse_range_header range_header file_size =
     (if \<not> v_starts_with range_header ''bytes='' then None
      else case v_split (CHR ''-'') (drop 6 range_header) of
        [a, b] \<Rightarrow>
          let start_str = trim_space a;
              end_str = trim_space b;
              start = (if start_str \<noteq> '''' then v_u64 start_str else 0);
              stop = (if end_str \<noteq> '''' then
                        if v_u64 end_str \<ge> file_size then file_size - 1 else v_u64 end_str
                      else file_size - 1)
          in if start > stop \<or> start \<ge> file_size then None
             else Some \<lparr>rr_start = start, rr_end = stop, rr_total = file_size\<rparr>
      | _ \<Rightarrow> None)"

definition file_content_types :: "(string \<times> string) list" where
  "file_content_types =
     [(''.html'', ''text/html; charset=utf-8''), (''.htm'', ''text/html; charset=utf-8''), (''.css'', ''text/css; charset=utf-8''),
      (''.js'', ''application/javascript; charset=utf-8''), (''.json'', ''application/json; charset=utf-8''),
      (''.xml'', ''application/xml; charset=utf-8''), (''.txt'', ''text/plain; charset=utf-8''),
      (''.md'', ''text/markdown; charset=utf-8''), (''.pdf'', ''application/pdf''), (''.png'', ''image/png''),
      (''.jpg'', ''image/jpeg''), (''.jpeg'', ''image/jpeg''), (''.gif'', ''image/gif''), (''.svg'', ''image/svg+xml''),
      (''.ico'', ''image/x-icon''), (''.woff'', ''font/woff''), (''.woff2'', ''font/woff2''), (''.ttf'', ''font/ttf''),
      (''.eot'', ''application/vnd.ms-fontobject''), (''.otf'', ''font/otf''), (''.mp4'', ''video/mp4''),
      (''.webm'', ''video/webm''), (''.mp3'', ''audio/mpeg''), (''.wav'', ''audio/wav''), (''.zip'', ''application/zip''),
      (''.tar'', ''application/x-tar''), (''.gz'', ''application/gzip'')]"

definition get_file_content_type :: "string \<Rightarrow> string" where
  "get_file_content_type file_path =
     (case map_of file_content_types (v_to_lower (file_ext file_path)) of Some t \<Rightarrow> t | None \<Rightarrow> ''application/octet-stream'')"

section \<open>Answers\<close>

definition range_headers :: "range_request \<Rightarrow> http_context \<Rightarrow> http_context" where
  "range_headers r c =
     set_header ''Accept-Ranges'' ''bytes''
       (set_header ''Content-Range''
          (''bytes '' @ v_str_u64 (rr_start r) @ ''-'' @ v_str_u64 (rr_end r) @ ''/'' @ v_str_u64 (rr_total r))
          (set_header ''Content-Length'' (v_str_u64 (rr_end r - rr_start r + 1)) (context_status 206 c)))"

definition handle_range_request ::
  "stream_system \<Rightarrow> string \<Rightarrow> range_request \<Rightarrow> http_context \<Rightarrow> (http_response \<times> http_context) option" where
  "handle_range_request ss file_path r c =
     (let n = wrap_i32 (uint (rr_end r - rr_start r + 1));
          c1 = range_headers r c;
          fail = fail_text 500 ''Internal Server Error'' c1
      in if \<not> ss_open ss file_path then Some fail
         else case ss_seek ss file_path (wrap_i32 (uint (rr_start r))) of
           None \<Rightarrow> Some fail
         | Some pos \<Rightarrow>
           if n < 0 then None
           else case ss_read ss file_path pos (nat n) of
             None \<Rightarrow> Some fail
           | Some buffer \<Rightarrow>
             if int (length buffer) \<noteq> n then Some fail else Some (build_headers_response buffer c1, c1))"

text \<open>The loop of \<^verbatim>\<open>stream_large_file\<close>; it may go on for ever when the file grows.\<close>

partial_function (option) read_pieces :: "(nat \<Rightarrow> nat \<Rightarrow> string option) \<Rightarrow> nat \<Rightarrow> nat \<Rightarrow> string \<Rightarrow> string option" where
  "read_pieces rd n pos content =
     (case rd pos n of
        None \<Rightarrow> Some content
      | Some piece \<Rightarrow>
        if piece = [] then Some content
        else if length piece < n then Some (content @ piece)
        else read_pieces rd n (pos + length piece) (content @ piece))"

definition stream_large_file ::
  "stream_system \<Rightarrow> string \<Rightarrow> 64 word \<Rightarrow> file_options \<Rightarrow> http_context \<Rightarrow> (http_response \<times> http_context) option" where
  "stream_large_file ss file_path file_size options c =
     (if \<not> ss_open ss file_path then Some (fail_text 500 ''Internal Server Error'' c)
      else if wrap_i32 (uint file_size) < 0 then None
      else if fo_buffer_size options < 0 then None
      else case read_pieces (ss_read ss file_path) (nat (fo_buffer_size options)) 0 '''' of
        None \<Rightarrow> None
      | Some content \<Rightarrow> Some (build_headers_response content c, c))"

definition cache_headers :: "file_options \<Rightarrow> int \<Rightarrow> http_context \<Rightarrow> http_context" where
  "cache_headers options mtime c =
     (let c1 = (if fo_last_modified options then set_header ''Last-Modified'' (format_http_date mtime) c else c)
      in if fo_max_age options > 0 then set_header ''Cache-Control'' (''public, max-age='' @ v_str (fo_max_age options)) c1
         else if fo_no_cache options then set_header ''Cache-Control'' ''no-cache'' c1 else c1)"

definition file_stream_with_options ::
  "stream_system \<Rightarrow> string \<Rightarrow> file_options \<Rightarrow> http_context \<Rightarrow> (http_response \<times> http_context) option" where
  "file_stream_with_options ss file_path options c =
     (if \<not> is_safe_file_path file_path then Some (fail_text 403 ''Forbidden'' c)
      else if \<not> fs_exists ss file_path then Some (fail_text 404 ''File Not Found'' c)
      else if fs_is_dir ss file_path then Some (fail_text 400 ''Cannot serve directory'' c)
      else case ss_stat ss file_path of
        None \<Rightarrow> Some (fail_text 500 ''Internal Server Error'' c)
      | Some (file_size, mtime) \<Rightarrow>
        let range_req = (if fo_enable_range options then
                           (case get_custom (hq_header (cx_req c)) ''Range'' of
                              None \<Rightarrow> None | Some h \<Rightarrow> parse_range_header h file_size)
                         else None);
            c1 = set_header ''Content-Type''
                   (if fo_content_type options \<noteq> '''' then fo_content_type options else get_file_content_type file_path) c;
            c2 = set_headers (fo_headers options) (cache_headers options mtime c1)
        in case range_req of
             Some r \<Rightarrow> handle_range_request ss file_path r c2
           | None \<Rightarrow>
             let c3 = set_header ''Accept-Ranges'' ''bytes'' (set_header ''Content-Length'' (v_str_u64 file_size) c2)
             in if file_size \<le> fo_stream_threshold options then
                  (case fs_read ss file_path of
                     None \<Rightarrow> Some (fail_text 500 ''Internal Server Error'' c3)
                   | Some content \<Rightarrow>
                     let etag = generate_file_etag content mtime;
                         c4 = (if fo_etag options then set_header ''ETag'' etag c3 else c3)
                     in if fo_etag options \<and> if_none_match c4 = etag
                        then let c5 = context_status 304 c4 in Some (build_headers_response '''' c5, c5)
                        else let c5 = context_status 200 c4 in Some (build_headers_response content c5, c5))
                else stream_large_file ss file_path file_size options (context_status 200 c3))"

definition file_stream :: "stream_system \<Rightarrow> string \<Rightarrow> http_context \<Rightarrow> (http_response \<times> http_context) option" where
  "file_stream ss file_path = file_stream_with_options ss file_path default_file_options"

definition file_smart_with_options ::
  "stream_system \<Rightarrow> string \<Rightarrow> file_options \<Rightarrow> http_context \<Rightarrow> (http_response \<times> http_context) option" where
  "file_smart_with_options ss file_path options c =
     (if \<not> fs_exists ss file_path then Some (fail_text 404 ''File Not Found'' c)
      else case ss_stat ss file_path of
        None \<Rightarrow> Some (fail_text 500 ''Internal Server Error'' c)
      | Some (file_size, mtime) \<Rightarrow>
        if file_size > fo_stream_threshold options then file_stream_with_options ss file_path options c
        else Some (file_with_options (file_system.truncate ss) file_path options c))"

definition file_smart :: "stream_system \<Rightarrow> string \<Rightarrow> http_context \<Rightarrow> (http_response \<times> http_context) option" where
  "file_smart ss file_path = file_smart_with_options ss file_path default_file_options"

section \<open>What is accepted\<close>

lemma range_inside:
  assumes "parse_range_header h n = Some r"
  shows "rr_start r \<le> rr_end r \<and> rr_end r < n \<and> rr_total r = n"
proof -
  have below: "n - 1 < n" if "s < n" for s :: "64 word"
  proof -
    have "n \<noteq> 0" using that by auto
    then have "unat (n - 1) = unat n - 1" "0 < unat n" by (simp_all add: unat_minus_one unat_gt_0)
    then show ?thesis by (simp add: word_less_nat_alt)
  qed
  from assms obtain x y where xy: "v_split (CHR ''-'') (drop 6 h) = [x, y]"
    by (auto simp: parse_range_header_def split: if_splits list.splits)
  define s e where "s = (if trim_space x \<noteq> [] then v_u64 (trim_space x) else 0)"
    and "e = (if trim_space y \<noteq> [] then if v_u64 (trim_space y) \<ge> n then n - 1 else v_u64 (trim_space y) else n - 1)"
  have r: "\<not> (s > e \<or> s \<ge> n)" "r = \<lparr>rr_start = s, rr_end = e, rr_total = n\<rparr>"
    using assms by (simp_all add: parse_range_header_def xy s_def e_def Let_def split: if_split_asm)
  then have "e < n" using below [of s] by (simp add: e_def not_le split: if_split_asm)
  with r show ?thesis by (simp add: not_less)
qed

text \<open>A range with two bounds, printed in decimal.\<close>

lemma v_u64_print: "n < 2 ^ 64 \<Longrightarrow> v_u64 (v_str (int n)) = word_of_nat n"
proof -
  assume "n < 2 ^ 64"
  then have "min (2 ^ 64 - 1) n = n" by simp
  then show ?thesis
    using dec_digits_facts [of n] by (simp add: v_u64_def v_str_def takeWhile_digits del: min.absorb2)
qed

lemma digit_char: "is_digit c \<Longrightarrow> \<not> is_space c \<and> c \<noteq> CHR ''-''"
  by (auto simp: is_digit_def is_space_def Let_def)

lemma trim_digits: "list_all is_digit s \<Longrightarrow> trim_space s = s"
proof -
  assume d: "list_all is_digit s"
  have keep: "dropWhile is_space t = t" if "list_all is_digit t" for t
    using that by (cases t) (auto simp: digit_char)
  have "list_all is_digit (rev s)" using d by (simp add: list_all_iff)
  with d keep show ?thesis by (simp add: trim_space_def)
qed

lemma range_split:
  assumes "list_all is_digit a" and "list_all is_digit b"
  shows "v_split (CHR ''-'') (a @ CHR ''-'' # b) = [a, b]"
proof -
  have "CHR ''-'' \<notin> set t" if "list_all is_digit t" for t
    using that by (metis digit_char list_all_iff)
  then have "CHR ''-'' \<notin> set a" "CHR ''-'' \<notin> set b" using assms by blast+
  then show ?thesis by (simp only: v_split_append_delim v_split_no_delim not_False_eq_True)
qed

lemma printed_range:
  assumes "a \<le> b" and "a < n" and "n < 2 ^ 63" and "b < 2 ^ 63"
  shows "parse_range_header (''bytes='' @ v_str (int a) @ ''-'' @ v_str (int b)) (word_of_nat n)
    = Some \<lparr>rr_start = word_of_nat a, rr_end = word_of_nat (min b (n - 1)), rr_total = word_of_nat n\<rparr>"
proof -
  have digits: "list_all is_digit (v_str (int k))" "v_str (int k) \<noteq> ''''" for k
    using dec_digits_facts [of k] by (simp_all add: v_str_def)
  have split: "v_split (CHR ''-'') (drop 6 (''bytes='' @ v_str (int a) @ ''-'' @ v_str (int b))) = [v_str (int a), v_str (int b)]"
    using range_split [OF digits(1) digits(1)] by simp
  have u: "v_u64 (v_str (int a)) = word_of_nat a" "v_u64 (v_str (int b)) = word_of_nat b"
    using assms by (auto intro!: v_u64_print)
  have le: "(word_of_nat x :: 64 word) \<le> word_of_nat y \<longleftrightarrow> x \<le> y" "(word_of_nat x :: 64 word) < word_of_nat y \<longleftrightarrow> x < y"
    if "x < 2 ^ 63" "y < 2 ^ 63" for x y
    using that by (simp_all add: word_le_nat_alt word_less_nat_alt unsigned_of_nat take_bit_nat_eq_self)
  have m: "word_of_nat n - 1 = (word_of_nat (n - 1) :: 64 word)" using assms(2) by (simp add: of_nat_diff)
  have stop: "(if (word_of_nat b :: 64 word) \<ge> word_of_nat n then word_of_nat n - 1 else word_of_nat b) = (word_of_nat (min b (n - 1)) :: 64 word)"
  proof (cases "n \<le> b")
    case True
    then have "(word_of_nat n :: 64 word) \<le> word_of_nat b" using le(1) [OF assms(3,4)] by blast
    moreover have "min b (n - 1) = n - 1" using True by simp
    ultimately show ?thesis by (simp only: if_True m)
  next
    case False
    then have "\<not> (word_of_nat n :: 64 word) \<le> word_of_nat b" using le(1) [OF assms(3,4)] by blast
    moreover have "min b (n - 1) = b" using False by simp
    ultimately show ?thesis by (simp only: if_False)
  qed
  have "min b (n - 1) < 2 ^ 63" "a \<le> min b (n - 1)" using assms by simp_all
  then have ok: "\<not> ((word_of_nat a :: 64 word) > word_of_nat (min b (n - 1)) \<or> (word_of_nat a :: 64 word) \<ge> word_of_nat n)"
    using assms le(1) [of a "min b (n - 1)"] le(2) [of a n] by (simp add: not_less not_le)
  have pre: "v_starts_with (''bytes='' @ v_str (int a) @ ''-'' @ v_str (int b)) ''bytes=''" by simp
  show ?thesis
    unfolding parse_range_header_def split
    using ok pre by (simp only: list.case digits trim_digits u stop Let_def if_True if_False not_False_eq_True simp_thms)
qed

text \<open>What is assumed of the system for one file: its attributes, and that opening, seeking and reading give its content.\<close>

definition holds_file :: "stream_system \<Rightarrow> string \<Rightarrow> string \<Rightarrow> bool" where
  "holds_file ss p content \<longleftrightarrow>
     fs_exists ss p \<and> \<not> fs_is_dir ss p \<and> (\<exists>t. ss_stat ss p = Some (word_of_nat (length content), t)) \<and> ss_open ss p
     \<and> (\<forall>i. 0 \<le> i \<longrightarrow> ss_seek ss p i = Some (nat i))
     \<and> (\<forall>pos n. ss_read ss p pos n = (if pos < length content then Some (take n (drop pos content)) else None))"

text \<open>C40: a request for the bytes from \<open>a\<close> to \<open>b\<close> of a file gets exactly these bytes, as far as the file has them, with status 206 and the
  headers that say so.\<close>

theorem range_served:
  assumes "holds_file ss p content" and "is_safe_file_path p" and "fo_enable_range options"
    and "get_custom (hq_header (cx_req c)) ''Range'' = Some (''bytes='' @ v_str (int a) @ ''-'' @ v_str (int b))"
    and "a \<le> b" and "a < length content" and "length content < 2 ^ 31" and "b < 2 ^ 63"
  shows "\<exists>resp c'. file_stream_with_options ss p options c = Some (resp, c') \<and> rs_status_code resp = 206
    \<and> rs_body resp = take (b + 1 - a) (drop a content)
    \<and> vget (cx_headers c') ''Content-Range''
      = Some (''bytes '' @ v_str (int a) @ ''-'' @ v_str (int (min b (length content - 1))) @ ''/'' @ v_str (int (length content)))
    \<and> vget (cx_headers c') ''Content-Length'' = Some (v_str (int (length (rs_body resp))))"
proof -
  let ?n = "length content" and ?e = "min b (length content - 1)"
  let ?r = "\<lparr>rr_start = word_of_nat a, rr_end = word_of_nat ?e, rr_total = word_of_nat ?n\<rparr>"
  obtain t where t: "ss_stat ss p = Some (word_of_nat ?n, t)" using assms(1) by (auto simp: holds_file_def)
  define c2 where "c2 = set_headers (fo_headers options) (cache_headers options t (set_header ''Content-Type''
      (if fo_content_type options \<noteq> [] then fo_content_type options else get_file_content_type p) c))"
  have call: "file_stream_with_options ss p options c = handle_range_request ss p ?r c2"
    using assms(1-4) printed_range [OF assms(5,6) _ assms(8)] assms(7)
    by (simp add: file_stream_with_options_def holds_file_def t c2_def)
  have e: "a \<le> ?e" "?e < ?n" using assms(5,6) by auto
  have u: "uint (word_of_nat k :: 64 word) = int k" if "k < 2 ^ 31" for k
    using that by (simp add: unsigned_of_nat take_bit_nat_eq_self)
  have len: "word_of_nat ?e - word_of_nat a + (1 :: 64 word) = word_of_nat (?e + 1 - a)"
    using e(1) by (simp add: of_nat_diff Suc_diff_le)
  have w: "wrap_i32 (int k) = int k" if "k < 2 ^ 31" for k using that by (simp add: wrap_i32_id)
  have small: "?e + 1 - a < 2 ^ 31" "a < 2 ^ 31" "?e < 2 ^ 31" using e assms(7) by linarith+
  have bytes: "take (?e + 1 - a) (drop a content) = take (b + 1 - a) (drop a content)" "length (take (?e + 1 - a) (drop a content)) = ?e + 1 - a"
    using assms(5,6) by (auto simp: min_def)
  have "handle_range_request ss p ?r c2 = Some (build_headers_response (take (b + 1 - a) (drop a content)) (range_headers ?r c2), range_headers ?r c2)"
    using assms(1,6) bytes
    unfolding handle_range_request_def range_request.select_convs len u [OF small(1)] u [OF small(2)] w [OF small(1)] w [OF small(2)]
    by (simp add: holds_file_def Let_def)
  moreover have "vget (cx_headers (range_headers ?r c2)) ''Content-Range''
      = Some (''bytes '' @ v_str (int a) @ ''-'' @ v_str (int ?e) @ ''/'' @ v_str (int ?n))"
    using u [OF small(2)] u [OF small(3)] u [OF assms(7)]
    by (simp add: range_headers_def set_header_def context_status_def v_str_u64_def)
  moreover have "vget (cx_headers (range_headers ?r c2)) ''Content-Length'' = Some (v_str (int (?e + 1 - a)))"
    unfolding range_headers_def range_request.select_convs len v_str_u64_def u [OF small(1)]
    by (simp add: set_header_def context_status_def)
  moreover have "cx_status_code (range_headers ?r c2) = 206"
    by (simp add: range_headers_def set_header_def context_status_def)
  ultimately show ?thesis
    using bytes by (simp add: call build_headers_response_def)
qed

section \<open>Reading in pieces\<close>

lemma pieces_from:
  assumes "0 < n" and "\<And>pos. rd pos n = (if pos < length content then Some (take n (drop pos content)) else None)"
    and "pos \<le> length content"
  shows "read_pieces rd n pos (take pos content) = Some content"
  using assms(3)
proof (induction "length content - pos" arbitrary: pos rule: less_induct)
  case less
  show ?case
  proof (cases "pos < length content")
    case True
    let ?piece = "take n (drop pos content)"
    have ne: "?piece \<noteq> []" "rd pos n = Some ?piece" using True assms(1,2) by auto
    have glue: "take pos content @ ?piece = take (pos + length ?piece) content"
      using True by (simp add: take_add min_def)
    show ?thesis
    proof (cases "length ?piece < n")
      case True
      then have "length content - pos < n" by (simp add: min_def split: if_splits)
      then show ?thesis using ne by (subst read_pieces.simps) simp
    next
      case False
      then have "length content - (pos + length ?piece) < length content - pos" "pos + length ?piece \<le> length content"
        using \<open>pos < length content\<close> assms(1) by auto
      from less.hyps [OF this] False ne show ?thesis
        by (subst read_pieces.simps) (simp add: glue)
    qed
  next
    case False
    with less.prems have "pos = length content" by simp
    then show ?thesis using assms(2) [of pos] by (subst read_pieces.simps) simp
  qed
qed

text \<open>A file above the threshold and below 2 GiB is read whole, whatever the size of the buffer.\<close>

lemma pieces_whole:
  assumes "holds_file ss p content" and "0 < fo_buffer_size options" and "length content < 2 ^ 31"
  shows "stream_large_file ss p (word_of_nat (length content)) options c = Some (build_headers_response content c, c)"
proof -
  have "read_pieces (ss_read ss p) (nat (fo_buffer_size options)) 0 (take 0 content) = Some content"
    by (rule pieces_from) (use assms in \<open>auto simp: holds_file_def\<close>)
  moreover have "uint (word_of_nat (length content) :: 64 word) = int (length content)"
    using assms(3) by (simp add: unsigned_of_nat take_bit_nat_eq_self)
  then have "\<not> wrap_i32 (uint (word_of_nat (length content) :: 64 word)) < 0" using assms(3) by (simp add: wrap_i32_id)
  ultimately show ?thesis using assms(1,2) by (simp add: stream_large_file_def holds_file_def)
qed

section \<open>Behaviours worth knowing\<close>

text \<open>The size is converted to \<^verbatim>\<open>int\<close> for the capacity of the content; from 2 to 4 GiB it is negative, and the program ends.\<close>

lemma large_file_panics:
  assumes "ss_open ss p"
  shows "stream_large_file ss p (2 ^ 31) options c = None"
proof -
  have "wrap_i32 (uint (2 ^ 31 :: 64 word)) < 0" by code_simp
  then show ?thesis using assms by (simp add: stream_large_file_def)
qed

text \<open>A read may give fewer bytes than the buffer holds before the end of the file; the loop takes it for the end.\<close>

lemma short_read_cuts: "read_pieces (\<lambda>pos n. Some ''ab'') 4 0 '''' = Some ''ab''"
  by (subst read_pieces.simps) simp

text \<open>A range without a first number asks for the end of the file; it is taken for a range from the start.\<close>

lemma suffix_range_from_start:
  "parse_range_header ''bytes=-3'' 10 = Some \<lparr>rr_start = 0, rr_end = 3, rr_total = 10\<rparr>"
proof -
  have t: "trim_space ''3'' = ''3''" "trim_space '''' = ''''" by code_simp+
  have "v_u64 ''3'' = 3" by (simp add: v_u64_def dec_value_def is_digit_def)
  then show ?thesis by (simp add: parse_range_header_def t)
qed

text \<open>An error after the headers of a range are set is sent with the length of the range.\<close>

lemma failed_range_length:
  assumes "\<not> ss_open ss p"
  shows "\<exists>resp c'. handle_range_request ss p r c = Some (resp, c') \<and> rs_status_code resp = 500
    \<and> vget (cx_headers c') ''Content-Length'' = Some (v_str_u64 (rr_end r - rr_start r + 1))"
  using assms
  by (simp add: handle_range_request_def fail_text_def range_headers_def set_header_def context_status_def context_text_def
      context_respond_def Let_def)

section \<open>An example\<close>

definition demo_stream :: stream_system where
  "demo_stream =
     \<lparr>fs_join = (\<lambda>a b. a @ ''/'' @ b), fs_exists = (\<lambda>p. p = ''a.txt''), fs_is_dir = (\<lambda>p. False),
      fs_read = (\<lambda>p. Some ''hello''), fs_mtime = (\<lambda>p. Some 7), ss_stat = (\<lambda>p. Some (5, 7)), ss_open = (\<lambda>p. True),
      ss_seek = (\<lambda>p i. if i < 0 then None else Some (nat i)),
      ss_read = (\<lambda>p pos n. if pos < 5 then Some (take n (drop pos ''hello'')) else None)\<rparr>"

definition demo_range_context :: http_context where
  "demo_range_context =
     \<lparr>cx_req = \<lparr>hq_method = ''GET'', hq_url = ''/'', hq_header = [(''Range'', ''bytes=1-3'')], hq_data = ''''\<rparr>, cx_params = [],
      cx_query = [], cx_url = ''/'', cx_path = ''/'', cx_status_code = 200, cx_headers = [], cx_body = '''', cx_store = []\<rparr>"

lemma range_served_witness:
  "\<exists>resp c'. file_stream_with_options demo_stream ''a.txt'' default_file_options demo_range_context = Some (resp, c')
    \<and> rs_status_code resp = 206 \<and> rs_body resp = ''ell''"
proof -
  have f: "holds_file demo_stream ''a.txt'' ''hello''" by (simp add: holds_file_def demo_stream_def)
  have s: "is_safe_file_path ''a.txt''" "fo_enable_range default_file_options"
    "get_custom (hq_header (cx_req demo_range_context)) ''Range'' = Some (''bytes='' @ v_str (int 1) @ ''-'' @ v_str (int 3))"
    by code_simp+
  have n: "(1::nat) \<le> 3" "1 < length ''hello''" "length ''hello'' < 2 ^ 31" "(3::nat) < 2 ^ 63" by simp_all
  have b: "take (3 + 1 - 1) (drop 1 ''hello'') = ''ell''" by simp
  show ?thesis using range_served [OF f s n] unfolding b by blast
qed

end
