(* ===== verification/Rate_Limit.thy ===== *)
theory Rate_Limit
  imports Security
begin

text \<open>
  The rate limiter of \<^verbatim>\<open>rate_limit.v\<close>: the store of counters, the middleware, its response headers and the 429 answer.

  The clock is an argument of every operation that reads it (milliseconds since the epoch).  The mutex of the store makes
  its operations atomic: each is one step on the store, and the middleware passes the store along.  Counters are 32 bits
  wide, times 64 bits.  The store is the V interface \<^verbatim>\<open>RateLimitStore\<close>: the locale \<open>rate_store\<close> states what the limiter relies on,
  its theorems are about any such store, and \<open>MemoryStore\<close> is an interpretation.

  Shown here: in every stretch of time as long as the window at most twice the limit of requests of one client get
  through; a request is refused only when more than the limit of requests of that client fell in the last window; clients do not
  affect each other; cleaning the store is not observable.
\<close>

section \<open>The store\<close>

record rate_entry =
  rte_count :: int
  rte_reset_at :: int

type_synonym memory_store = "(string, rate_entry) vmap"

definition ms_new :: memory_store where
  "ms_new = []"

definition ms_increment :: "int \<Rightarrow> string \<Rightarrow> int \<Rightarrow> memory_store \<Rightarrow> (int \<times> int) \<times> memory_store" where
  "ms_increment now key window_ms s =
     (case vget s key of
        Some entry \<Rightarrow>
          let entry' = (if now \<ge> rte_reset_at entry
                        then entry\<lparr>rte_count := 1, rte_reset_at := wrap_i64 (now + window_ms)\<rparr>
                        else entry\<lparr>rte_count := wrap_i32 (rte_count entry + 1)\<rparr>)
          in ((rte_count entry', rte_reset_at entry'), vset key entry' s)
      | None \<Rightarrow>
          let new_entry = \<lparr>rte_count = 1, rte_reset_at = wrap_i64 (now + window_ms)\<rparr>
          in ((rte_count new_entry, rte_reset_at new_entry), vset key new_entry s))"

definition ms_reset :: "string \<Rightarrow> memory_store \<Rightarrow> memory_store" where
  "ms_reset key s = vdel key s"

definition ms_get_entry :: "string \<Rightarrow> memory_store \<Rightarrow> rate_entry option" where
  "ms_get_entry key s = vget s key"

definition ms_cleanup_expired :: "int \<Rightarrow> memory_store \<Rightarrow> memory_store" where
  "ms_cleanup_expired now s =
     (let keys_to_delete = map fst (filter (\<lambda>(key, entry). now \<ge> rte_reset_at entry) s)
      in fold vdel keys_to_delete s)"

section \<open>The middleware\<close>

record rate_limit_info =
  rli_limit :: int
  rli_remaining :: int
  rli_reset_at :: int

record rate_limit_options =
  rlo_window_ms :: int
  rlo_limit :: int
  rlo_key_generator :: "(http_context \<Rightarrow> string) option"
  rlo_skip :: "(http_context \<Rightarrow> bool) option"
  rlo_handler :: "(rate_limit_info \<Rightarrow> handler_fn) option"
  rlo_headers :: bool

definition default_rate_limit_options :: rate_limit_options where
  "default_rate_limit_options =
     \<lparr>rlo_window_ms = 60000, rlo_limit = 100, rlo_key_generator = None, rlo_skip = None, rlo_handler = None,
      rlo_headers = True\<rparr>"

definition generate_rate_limit_key :: "http_context \<Rightarrow> (http_context \<Rightarrow> string) option \<Rightarrow> string" where
  "generate_rate_limit_key c gen = (case gen of Some f \<Rightarrow> f c | None \<Rightarrow> get_client_ip c)"

definition set_rate_limit_headers :: "int \<Rightarrow> int \<Rightarrow> int \<Rightarrow> http_context \<Rightarrow> http_context" where
  "set_rate_limit_headers limit remaining reset_at c =
     set_header ''X-RateLimit-Reset'' (v_str (v_quot reset_at 1000))
       (set_header ''X-RateLimit-Remaining'' (v_str remaining)
         (set_header ''X-RateLimit-Limit'' (v_str limit) c))"

definition rate_limit_body :: string where
  "rate_limit_body =
     ''{'' @ [CHR 0x22] @ ''error'' @ [CHR 0x22] @ '':'' @ [CHR 0x22] @ ''Too Many Requests'' @ [CHR 0x22] @ '','' @ [CHR 0x22] @ ''message''
     @ [CHR 0x22] @ '':'' @ [CHR 0x22] @ ''Rate limit exceeded. Please try again later.'' @ [CHR 0x22] @ ''}''"

text \<open>\<open>now\<close> is read a second time here, when the answer is built.\<close>

definition rate_limit_exceeded_response :: "int \<Rightarrow> int \<Rightarrow> handler_fn" where
  "rate_limit_exceeded_response now reset_at c =
     (let c1 = context_status 429 c;
          retry_after = (if reset_at > now then v_quot (wrap_i64 (reset_at - now)) 1000 else 0);
          c2 = (if retry_after > 0 then set_header ''Retry-After'' (v_str retry_after) c1 else c1)
      in (context_json rate_limit_body c2, c2))"

definition rate_limit ::
  "rate_limit_options \<Rightarrow> int \<Rightarrow> int \<Rightarrow> http_context \<Rightarrow> handler_fn \<Rightarrow> memory_store
   \<Rightarrow> (http_response \<times> http_context) \<times> memory_store" where
  "rate_limit options now now2 c nxt store =
     (if (case rlo_skip options of Some skip_fn \<Rightarrow> skip_fn c | None \<Rightarrow> False) then (nxt c, store)
      else
        let key = generate_rate_limit_key c (rlo_key_generator options);
            ((count, reset_at), store') = ms_increment now key (rlo_window_ms options) store;
            remaining = (if count > rlo_limit options then 0 else wrap_i32 (rlo_limit options - count));
            c' = (if rlo_headers options then set_rate_limit_headers (rlo_limit options) remaining reset_at c else c)
        in if count > rlo_limit options then
             (let info = \<lparr>rli_limit = rlo_limit options, rli_remaining = 0, rli_reset_at = reset_at\<rparr> in
              case rlo_handler options of
                Some custom_handler \<Rightarrow> (custom_handler info c', store')
              | None \<Rightarrow> (rate_limit_exceeded_response now2 reset_at c', store'))
           else (nxt c', store'))"

definition get_rate_limit_info :: "http_context \<Rightarrow> rate_limit_info option" where
  "get_rate_limit_info c =
     (case vget (cx_headers c) ''X-RateLimit-Limit'' of None \<Rightarrow> None | Some limit_str \<Rightarrow>
      (case vget (cx_headers c) ''X-RateLimit-Remaining'' of None \<Rightarrow> None | Some remaining_str \<Rightarrow>
      (case vget (cx_headers c) ''X-RateLimit-Reset'' of None \<Rightarrow> None | Some reset_str \<Rightarrow>
        Some \<lparr>rli_limit = parse_int (2 ^ 31) limit_str, rli_remaining = parse_int (2 ^ 31) remaining_str,
              rli_reset_at = wrap_i64 (parse_int (2 ^ 63) reset_str * 1000)\<rparr>)))"

section \<open>One client's counter\<close>

text \<open>The specification: what one request does to the counter of its client, and the results of a sequence of requests.\<close>

definition window_step :: "int \<Rightarrow> int \<Rightarrow> (int \<times> int) option \<Rightarrow> int \<times> int" where
  "window_step now w e =
     (case e of
        Some (c, r) \<Rightarrow> if now \<ge> r then (1, wrap_i64 (now + w)) else (wrap_i32 (c + 1), r)
      | None \<Rightarrow> (1, wrap_i64 (now + w)))"

fun key_run :: "int \<Rightarrow> (int \<times> int) option \<Rightarrow> int list \<Rightarrow> (int \<times> int) list" where
  "key_run w e [] = []"
| "key_run w e (t # ts) = (let r = window_step t w e in r # key_run w (Some r) ts)"

text \<open>How many of the requests that fall in the stretch of length \<open>w\<close> from \<open>a\<close> on stay within the limit \<open>l\<close>.\<close>

definition passes :: "int \<Rightarrow> int \<Rightarrow> int \<Rightarrow> (int \<times> int) option \<Rightarrow> int list \<Rightarrow> nat" where
  "passes a w l e ts = length (filter (\<lambda>(t, (c, r)). c \<le> l \<and> a \<le> t \<and> t < a + w) (zip ts (key_run w e ts)))"

lemma passes_simps [simp]:
  "passes a w l e [] = 0"
  "passes a w l e (t # ts) =
     (if fst (window_step t w e) \<le> l \<and> a \<le> t \<and> t < a + w then 1 else 0) + passes a w l (Some (window_step t w e)) ts"
  by (simp_all add: passes_def Let_def split: prod.split)

definition times_ok :: "int \<Rightarrow> int list \<Rightarrow> bool" where
  "times_ok w ts \<longleftrightarrow> list_all (\<lambda>t. 0 \<le> t \<and> t + w < 2 ^ 63) ts"

lemma times_ok_simps [simp]:
  "times_ok w []" "times_ok w (t # ts) \<longleftrightarrow> 0 \<le> t \<and> t + w < 2 ^ 63 \<and> times_ok w ts"
  by (simp_all add: times_ok_def)

lemma window_step_None: "0 \<le> w \<Longrightarrow> 0 \<le> t \<Longrightarrow> t + w < 2 ^ 63 \<Longrightarrow> window_step t w None = (1, t + w)"
  by (simp add: window_step_def wrap_i64_id)

lemma window_step_Some:
  "0 \<le> w \<Longrightarrow> 0 \<le> t \<Longrightarrow> t + w < 2 ^ 63 \<Longrightarrow> 0 \<le> c \<Longrightarrow> c + 1 < 2 ^ 31 \<Longrightarrow>
   window_step t w (Some (c, r)) = (if t \<ge> r then (1, t + w) else (c + 1, r))"
  by (simp add: window_step_def wrap_i64_id wrap_i32_id)

lemma passes_after: "(\<And>t. t \<in> set ts \<Longrightarrow> a + w \<le> t) \<Longrightarrow> passes a w l e ts = 0"
  by (induction ts arbitrary: e) force+

text \<open>Within the last window of the stretch only what is left of the limit gets through.\<close>

lemma passes_last_window:
  assumes "sorted ts" and "times_ok w ts" and "0 \<le> w" and "0 \<le> c" and "c + int (length ts) < 2 ^ 31" and "a + w \<le> r"
  shows "int (passes a w l (Some (c, r)) ts) \<le> max 0 (l - c)"
  using assms(1,2,4,5)
proof (induction ts arbitrary: c)
  case (Cons t ts)
  show ?case
  proof (cases "t \<ge> r")
    case True
    then have "\<And>t'. t' \<in> set (t # ts) \<Longrightarrow> a + w \<le> t'" using Cons.prems(1) assms(6) by auto
    then show ?thesis by (simp only: passes_after)
  next
    case False
    then have "window_step t w (Some (c, r)) = (c + 1, r)"
      using Cons.prems assms(3) by (simp add: window_step_Some)
    moreover have "int (passes a w l (Some (c + 1, r)) ts) \<le> max 0 (l - (c + 1))"
      by (rule Cons.IH) (use Cons.prems in auto)
    ultimately show ?thesis by auto
  qed
qed simp

lemma passes_inside:
  assumes "sorted ts" and "times_ok w ts" and "0 \<le> w" and "0 \<le> c" and "c + int (length ts) < 2 ^ 31" and "0 \<le> l"
    and "\<And>t. t \<in> set ts \<Longrightarrow> a \<le> t"
  shows "int (passes a w l (Some (c, r)) ts) \<le> max 0 (l - c) + l"
  using assms(1,2,4,5,7)
proof (induction ts arbitrary: c)
  case (Cons t ts)
  show ?case
  proof (cases "t \<ge> r")
    case True
    then have step: "window_step t w (Some (c, r)) = (1, t + w)"
      using Cons.prems assms(3) by (simp add: window_step_Some)
    have "int (passes a w l (Some (1, t + w)) ts) \<le> max 0 (l - 1)"
      by (rule passes_last_window) (use Cons.prems assms(3) in auto)
    with step assms(6) show ?thesis by auto
  next
    case False
    then have step: "window_step t w (Some (c, r)) = (c + 1, r)"
      using Cons.prems assms(3) by (simp add: window_step_Some)
    have "int (passes a w l (Some (c + 1, r)) ts) \<le> max 0 (l - (c + 1)) + l"
      by (rule Cons.IH) (use Cons.prems in auto)
    with step show ?thesis by auto
  qed
qed (use assms(6) in simp)

lemma passes_bound:
  assumes "sorted ts" and "times_ok w ts" and "0 \<le> w" and "0 \<le> l"
    and "case e of None \<Rightarrow> int (length ts) < 2 ^ 31 | Some (c, r) \<Rightarrow> 0 \<le> c \<and> c + int (length ts) < 2 ^ 31"
  shows "int (passes a w l e ts) \<le> 2 * l"
  using assms(1,2,5)
proof (induction ts arbitrary: e)
  case (Cons t ts)
  obtain c' r' where step: "window_step t w e = (c', r')" by fastforce
  have c': "0 \<le> c' \<and> c' + int (length ts) < 2 ^ 31"
    using Cons.prems(2,3) assms(3) step
    by (cases e) (auto simp: window_step_None window_step_Some split: if_splits)
  have rest: "sorted ts" "times_ok w ts" using Cons.prems by auto
  show ?case
  proof (cases "t < a")
    case True
    have "int (passes a w l (Some (c', r')) ts) \<le> 2 * l" by (rule Cons.IH) (use rest c' in auto)
    with True step show ?thesis by simp
  next
    case False
    then have inside: "\<And>t'. t' \<in> set (t # ts) \<Longrightarrow> a \<le> t'" using Cons.prems(1) by auto
    show ?thesis
    proof (cases e)
      case None
      with step Cons.prems(2) assms(3) have [simp]: "c' = 1" "r' = t + w" by (auto simp: window_step_None)
      have "int (passes a w l (Some (1, t + w)) ts) \<le> max 0 (l - 1)"
        by (rule passes_last_window) (use rest c' assms(3) False in auto)
      with step assms(4) show ?thesis by auto
    next
      case (Some cr)
      then obtain c r where e: "e = Some (c, r)" by (cases cr) auto
      have "int (passes a w l (Some (c, r)) (t # ts)) \<le> max 0 (l - c) + l"
        by (rule passes_inside) (use Cons.prems e assms(3,4) inside in auto)
      with e Cons.prems(3) show ?thesis by auto
    qed
  qed
qed (use assms(4) in simp)

text \<open>A request is counted too high only when the counter saw that many requests since the window began.\<close>

definition covers :: "int \<Rightarrow> int list \<Rightarrow> (int \<times> int) option \<Rightarrow> bool" where
  "covers w hs e = (case e of None \<Rightarrow> True
     | Some (c, r) \<Rightarrow> 0 \<le> c \<and> c \<le> int (length (filter (\<lambda>t. r - w \<le> t) hs)))"

definition began :: "int \<Rightarrow> int \<Rightarrow> (int \<times> int) option \<Rightarrow> bool" where
  "began w t e = (case e of None \<Rightarrow> True | Some (c, r) \<Rightarrow> r - w \<le> t)"

lemma covers_step:
  assumes "covers w hs e" and "began w t e" and "0 \<le> w" and "0 \<le> t" and "t + w < 2 ^ 63" and "int (length hs) + 1 < 2 ^ 31"
    and "window_step t w e = (c, r)"
  shows "covers w (hs @ [t]) (Some (c, r)) \<and> (c = 1 \<or> t < r) \<and> began w t (Some (c, r))"
proof (cases e)
  case None
  with assms show ?thesis by (auto simp: window_step_None covers_def began_def)
next
  case (Some cr)
  then obtain c0 r0 where e: "e = Some (c0, r0)" by (cases cr) auto
  with assms(1) have "0 \<le> c0" and c0: "c0 \<le> int (length (filter (\<lambda>t. r0 - w \<le> t) hs))" by (auto simp: covers_def)
  moreover have "length (filter (\<lambda>t. r0 - w \<le> t) hs) \<le> length hs" by simp
  ultimately have "c0 + 1 < 2 ^ 31" using assms(6) by linarith
  with e assms \<open>0 \<le> c0\<close> c0 show ?thesis
    by (auto simp: window_step_Some covers_def began_def split: if_splits)
qed

lemma key_run_covers:
  assumes "covers w hs e" and "0 \<le> w" and "sorted ts \<and> (\<forall>t \<in> set ts. began w t e) \<and> times_ok w ts" and "int (length hs) + int (length ts) < 2 ^ 31"
    and "n < length ts" and "key_run w e ts ! n = (c, r)"
  shows "c \<le> int (length (filter (\<lambda>t. r - w \<le> t) (hs @ take (Suc n) ts))) \<and> (c = 1 \<or> ts ! n < r)"
  using assms(1,3-6)
proof (induction ts arbitrary: hs e n)
  case (Cons t ts)
  obtain c' r' where step: "window_step t w e = (c', r')" by fastforce
  have cov: "covers w (hs @ [t]) (Some (c', r')) \<and> (c' = 1 \<or> t < r') \<and> began w t (Some (c', r'))"
    by (rule covers_step [OF Cons.prems(1) _ assms(2) _ _ _ step]) (use Cons.prems in auto)
  then have later: "\<forall>t' \<in> set ts. began w t' (Some (c', r'))"
    using Cons.prems(2) by (auto simp: began_def)
  show ?case
  proof (cases n)
    case 0
    with Cons.prems(5) step have "(c, r) = (c', r')" by (simp add: Let_def)
    with cov 0 show ?thesis by (auto simp: covers_def)
  next
    case (Suc m)
    have "c \<le> int (length (filter (\<lambda>t. r - w \<le> t) ((hs @ [t]) @ take (Suc m) ts))) \<and> (c = 1 \<or> ts ! m < r)"
      by (rule Cons.IH [of "hs @ [t]" "Some (c', r')"]) (use cov later Cons.prems Suc step in \<open>auto simp: Let_def\<close>)
    with Suc show ?thesis by simp
  qed
qed simp

lemma length_key_run [simp]: "length (key_run w e ts) = length ts"
  by (induction ts arbitrary: e) (auto simp: Let_def)

lemma refused_needs_traffic:
  assumes "0 \<le> w" and "1 \<le> l" and "sorted ts \<and> times_ok w ts" and "int (length ts) < 2 ^ 31" and "n < length ts"
    and "fst (key_run w None ts ! n) > l"
  shows "int (length (filter (\<lambda>t. ts ! n - w < t) (take (Suc n) ts))) > l"
proof -
  obtain c r where cr: "key_run w None ts ! n = (c, r)" by fastforce
  have "c \<le> int (length (filter (\<lambda>t. r - w \<le> t) ([] @ take (Suc n) ts))) \<and> (c = 1 \<or> ts ! n < r)"
    by (rule key_run_covers [OF _ assms(1) _ _ assms(5) cr]) (use assms(3,4) in \<open>auto simp: covers_def began_def\<close>)
  moreover have "c > l" using cr assms(6) by simp
  moreover have "length (filter (\<lambda>t. r - w \<le> t) us) \<le> length (filter (\<lambda>t. ts ! n - w < t) us)" if "ts ! n < r" for us
    using that by (induction us) auto
  ultimately show ?thesis using assms(2) by (smt (verit) append_Nil of_nat_mono)
qed

section \<open>The interface of a store\<close>

text \<open>What the limiter relies on: \<open>inc\<close> takes one step of the counter of its key and leaves the others alone, \<open>rst\<close> forgets
  a counter.  \<open>entry\<close> is the view of a store the laws are stated over.\<close>

locale rate_store =
  fixes inc :: "int \<Rightarrow> string \<Rightarrow> int \<Rightarrow> 's \<Rightarrow> (int \<times> int) \<times> 's"
    and rst :: "string \<Rightarrow> 's \<Rightarrow> 's"
    and entry :: "'s \<Rightarrow> string \<Rightarrow> (int \<times> int) option"
  assumes inc_result: "fst (inc t k w s) = window_step t w (entry s k)"
    and inc_entry: "entry (snd (inc t k w s)) = (entry s)(k \<mapsto> window_step t w (entry s k))"
    and rst_entry: "entry (rst k s) = (entry s)(k := None)"
begin

fun inc_run :: "int \<Rightarrow> 's \<Rightarrow> (int \<times> string) list \<Rightarrow> (int \<times> int) list" where
  "inc_run w s [] = []"
| "inc_run w s ((t, k) # rs) = (let (r, s') = inc t k w s in r # inc_run w s' rs)"

lemma inc_run_Cons:
  "inc_run w s ((t, k) # rs) = window_step t w (entry s k) # inc_run w (snd (inc t k w s)) rs"
  using inc_result [of t k w s] by (simp add: case_prod_beta Let_def)

text \<open>The results of one client depend on the times of its own requests alone.\<close>

lemma inc_run_nth:
  assumes "n < length rs" and "snd (rs ! n) = k"
  shows "inc_run w s rs ! n
    = last (key_run w (entry s k) (map fst (filter (\<lambda>tk. snd tk = k) (take (Suc n) rs))))"
  using assms
proof (induction rs arbitrary: s n)
  case (Cons tk rs)
  obtain t k' where tk: "tk = (t, k')" by (cases tk)
  show ?case
  proof (cases n)
    case 0
    with Cons.prems tk show ?thesis by (simp add: inc_run_Cons Let_def del: inc_run.simps)
  next
    case (Suc m)
    let ?us = "map fst (filter (\<lambda>tk. snd tk = k) (take (Suc m) rs))"
    have "snd (rs ! m) = k" "m < length rs" using Cons.prems Suc by auto
    then have "rs ! m \<in> set (filter (\<lambda>tk. snd tk = k) (take (Suc m) rs))" by (auto simp: in_set_conv_nth)
    then have ne: "?us \<noteq> []" by (metis empty_iff list.set(1) map_is_Nil_conv)
    have "length (key_run w e ?us) \<noteq> 0" for e using ne by simp
    then have last: "key_run w e ?us \<noteq> []" for e by blast
    have "inc_run w (snd (inc t k' w s)) rs ! m = last (key_run w (entry (snd (inc t k' w s)) k) ?us)"
      by (rule Cons.IH) (use Cons.prems Suc in auto)
    with Suc tk last show ?thesis
      by (auto simp: inc_run_Cons inc_entry Let_def simp del: inc_run.simps)
  qed
qed simp

lemma length_inc_run [simp]: "length (inc_run w s rs) = length rs"
  by (induction rs arbitrary: s) (auto simp: inc_run_Cons simp del: inc_run.simps(2))

lemma inc_run_passes:
  "length (filter (\<lambda>((t, k'), (c, r)). k' = k \<and> c \<le> l \<and> a \<le> t \<and> t < a + w) (zip rs (inc_run w s rs)))
   = passes a w l (entry s k) (map fst (filter (\<lambda>(t, k'). k' = k) rs))"
proof (induction rs arbitrary: s)
  case (Cons tk rs)
  obtain t k' where "tk = (t, k')" by (cases tk)
  with Cons.IH [of "snd (inc t k' w s)"] show ?case
    by (auto simp: inc_run_Cons inc_entry case_prod_beta simp del: inc_run.simps(2))
qed simp

end

section \<open>The store in memory is one\<close>

definition ms_entry :: "memory_store \<Rightarrow> string \<Rightarrow> (int \<times> int) option" where
  "ms_entry s key = map_option (\<lambda>e. (rte_count e, rte_reset_at e)) (vget s key)"

interpretation mem: rate_store ms_increment ms_reset ms_entry
  by unfold_locales (auto simp: ms_entry_def ms_increment_def ms_reset_def window_step_def Let_def fun_eq_iff
      split: option.splits)

lemma ms_entry_new [simp]: "ms_entry ms_new k = None"
  by (simp add: ms_entry_def ms_new_def)

section \<open>The middleware on a sequence of requests\<close>

text \<open>Requests reach the limiter one after the other, each with the two readings of the clock that its handling takes.\<close>

type_synonym timed_request = "int \<times> int \<times> http_context"

fun rl_serve ::
  "rate_limit_options \<Rightarrow> handler_fn \<Rightarrow> timed_request list \<Rightarrow> memory_store \<Rightarrow> (http_response \<times> http_context) list" where
  "rl_serve options nxt [] store = []"
| "rl_serve options nxt ((now, now2, c) # reqs) store =
     (let (out, store') = rate_limit options now now2 c nxt store in out # rl_serve options nxt reqs store')"

definition rl_key :: "rate_limit_options \<Rightarrow> http_context \<Rightarrow> string" where
  "rl_key options c = generate_rate_limit_key c (rlo_key_generator options)"

definition rl_times :: "rate_limit_options \<Rightarrow> timed_request list \<Rightarrow> (int \<times> string) list" where
  "rl_times options reqs = map (\<lambda>(now, now2, c). (now, rl_key options c)) reqs"

definition rl_context :: "rate_limit_options \<Rightarrow> int \<times> int \<Rightarrow> http_context \<Rightarrow> http_context" where
  "rl_context options cr c =
     (if rlo_headers options
      then set_rate_limit_headers (rlo_limit options)
        (if fst cr > rlo_limit options then 0 else wrap_i32 (rlo_limit options - fst cr)) (snd cr) c
      else c)"

lemma rate_limit_cases:
  assumes "rlo_skip options = None"
  shows "rate_limit options now now2 c nxt store =
    (let (cr, store') = ms_increment now (rl_key options c) (rlo_window_ms options) store; c' = rl_context options cr c in
     ((if fst cr \<le> rlo_limit options then nxt c'
       else case rlo_handler options of
         Some h \<Rightarrow> h \<lparr>rli_limit = rlo_limit options, rli_remaining = 0, rli_reset_at = snd cr\<rparr> c'
       | None \<Rightarrow> rate_limit_exceeded_response now2 (snd cr) c'), store'))"
  using assms
  by (auto simp: rate_limit_def rl_key_def rl_context_def Let_def case_prod_beta split: option.splits)

lemma exceeded_429: "rs_status_code (fst (rate_limit_exceeded_response now r c)) = 429"
  by (simp add: rate_limit_exceeded_response_def context_json_def context_respond_def context_status_def set_header_def Let_def)

lemma rl_serve_Cons:
  assumes "rlo_skip options = None" and "rlo_handler options = None"
  shows "rl_serve options nxt ((now, now2, c) # reqs) store =
    (let cr = window_step now (rlo_window_ms options) (ms_entry store (rl_key options c)) in
     (if fst cr \<le> rlo_limit options then nxt (rl_context options cr c)
      else rate_limit_exceeded_response now2 (snd cr) (rl_context options cr c))
     # rl_serve options nxt reqs (snd (ms_increment now (rl_key options c) (rlo_window_ms options) store)))"
  using mem.inc_result [of now "rl_key options c" "rlo_window_ms options" store] assms
  by (simp add: rate_limit_cases Let_def case_prod_beta)

lemma rl_serve_count:
  assumes "rlo_skip options = None" and "rlo_handler options = None"
  shows "length (filter (\<lambda>((now, now2, c), out). rl_key options c = k \<and> a \<le> now \<and> now < a + w
        \<and> rs_status_code (fst out) \<noteq> 429) (zip reqs (rl_serve options nxt reqs store)))
    \<le> length (filter (\<lambda>((t, k'), (c, r)). k' = k \<and> c \<le> rlo_limit options \<and> a \<le> t \<and> t < a + w)
        (zip (rl_times options reqs) (mem.inc_run (rlo_window_ms options) store (rl_times options reqs))))"
proof (induction reqs arbitrary: store)
  case (Cons q reqs)
  obtain now now2 c where "q = (now, now2, c)" by (cases q) auto
  with Cons.IH [of "snd (ms_increment now (rl_key options c) (rlo_window_ms options) store)"] show ?case
    by (auto simp: rl_serve_Cons [OF assms] mem.inc_run_Cons rl_times_def exceeded_429 Let_def case_prod_beta
        simp del: rl_serve.simps(2) mem.inc_run.simps(2))
qed (simp add: rl_times_def)

lemma rl_serve_nth:
  assumes "rlo_skip options = None" and "rlo_handler options = None" and "n < length reqs" and "reqs ! n = (now, now2, c)"
  shows "rl_serve options nxt reqs store ! n =
    (let cr = mem.inc_run (rlo_window_ms options) store (rl_times options reqs) ! n in
     if fst cr \<le> rlo_limit options then nxt (rl_context options cr c)
     else rate_limit_exceeded_response now2 (snd cr) (rl_context options cr c))"
  using assms(3,4)
proof (induction reqs arbitrary: store n)
  case (Cons q reqs)
  obtain now' now2' c' where q: "q = (now', now2', c')" by (cases q) auto
  show ?case
  proof (cases n)
    case 0
    with Cons.prems q show ?thesis
      by (simp add: rl_serve_Cons [OF assms(1,2)] mem.inc_run_Cons rl_times_def Let_def del: rl_serve.simps mem.inc_run.simps)
  next
    case (Suc m)
    with Cons.prems q Cons.IH [of m "snd (ms_increment now' (rl_key options c') (rlo_window_ms options) store)"]
    show ?thesis
      by (simp add: rl_serve_Cons [OF assms(1,2)] mem.inc_run_Cons rl_times_def Let_def del: rl_serve.simps mem.inc_run.simps)
  qed
qed simp

text \<open>The clock readings that the theorems speak of: in order, non-negative and far enough from the end of the range;
  fewer requests than a counter can hold.\<close>

definition timeline_ok :: "rate_limit_options \<Rightarrow> timed_request list \<Rightarrow> bool" where
  "timeline_ok options reqs \<longleftrightarrow>
     sorted (map fst reqs) \<and> times_ok (rlo_window_ms options) (map fst reqs) \<and> int (length reqs) < 2 ^ 31
     \<and> 0 \<le> rlo_window_ms options"

lemma key_times_ok:
  assumes "timeline_ok options reqs"
  shows "sorted (map fst (filter P (rl_times options reqs))) \<and> times_ok (rlo_window_ms options) (map fst (filter P (rl_times options reqs)))
    \<and> int (length (filter P (rl_times options reqs))) < 2 ^ 31"
proof -
  have eq: "map fst (rl_times options reqs) = map fst reqs"
    by (auto simp: rl_times_def)
  have "sorted (map fst (filter P xs))" if "sorted (map fst xs)" for xs :: "(int \<times> string) list"
    using that by (induction xs) auto
  moreover have "times_ok w (map fst (filter P xs))" if "times_ok w (map fst xs)" for w and xs :: "(int \<times> string) list"
    using that by (induction xs) auto
  moreover have "length (filter P (rl_times options reqs)) \<le> length reqs"
    using length_filter_le [of P "rl_times options reqs"] by (simp add: rl_times_def)
  ultimately show ?thesis using assms eq by (auto simp: timeline_ok_def)
qed

lemma times_ok_take: "times_ok w ts \<Longrightarrow> times_ok w (take n ts)"
  by (auto simp: times_ok_def list_all_iff dest: in_set_takeD)

lemma timeline_take: "timeline_ok options reqs \<Longrightarrow> timeline_ok options (take n reqs)"
  by (auto simp: timeline_ok_def take_map [symmetric] intro: times_ok_take sorted_wrt_take)

text \<open>C10: whatever the clients send, in every stretch of time as long as the window at most twice the limit of requests
  of one client are answered with anything but 429 (the limit twice over, at the seam of two windows), as long as the clock does not
  run backwards and fewer requests arrive than a 32-bit counter holds.\<close>

theorem rate_limit_bound:
  assumes "rlo_skip options = None" and "rlo_handler options = None" and "0 \<le> rlo_limit options" and "timeline_ok options reqs"
  shows "int (length (filter (\<lambda>((now, now2, c), out). rl_key options c = k \<and> a \<le> now \<and> now < a + rlo_window_ms options
        \<and> rs_status_code (fst out) \<noteq> 429) (zip reqs (rl_serve options nxt reqs ms_new)))) \<le> 2 * rlo_limit options"
proof -
  let ?us = "map fst (filter (\<lambda>(t, k'). k' = k) (rl_times options reqs))"
  have "int (passes a (rlo_window_ms options) (rlo_limit options) None ?us) \<le> 2 * rlo_limit options"
    using key_times_ok [OF assms(4), of "\<lambda>(t, k'). k' = k"] assms(3,4)
    by (intro passes_bound) (auto simp: timeline_ok_def)
  then show ?thesis
    using rl_serve_count [OF assms(1,2), of k a "rlo_window_ms options" reqs nxt ms_new]
      mem.inc_run_passes [of k "rlo_limit options" a "rlo_window_ms options" "rl_times options reqs" ms_new]
    by simp
qed

text \<open>C33: a client is never refused without cause: when at most the limit of its requests, this one included, arrived
  in the last window, the request goes on to the handler, with the limit headers as the only change.\<close>

theorem rate_limit_fair:
  assumes "rlo_skip options = None" and "rlo_handler options = None" and "1 \<le> rlo_limit options" and "timeline_ok options reqs"
    and "n < length reqs" and "reqs ! n = (now, now2, c)"
    and "int (length (filter (\<lambda>(now', _, c'). rl_key options c' = rl_key options c \<and> now - rlo_window_ms options < now')
          (take (Suc n) reqs))) \<le> rlo_limit options"
  shows "\<exists>count reset_at. count \<le> rlo_limit options
    \<and> rl_serve options nxt reqs ms_new ! n = nxt (rl_context options (count, reset_at) c)"
proof -
  let ?w = "rlo_window_ms options" and ?k = "rl_key options c"
  let ?rs = "rl_times options (take (Suc n) reqs)"
  let ?us = "map fst (filter (\<lambda>tk. snd tk = ?k) ?rs)"
  have take: "take (Suc n) (rl_times options reqs) = ?rs" by (simp add: rl_times_def take_map)
  have split: "take (Suc n) reqs = take n reqs @ [reqs ! n]" using assms(5) by (rule take_Suc_conv_app_nth)
  then have us: "?us = map fst (filter (\<lambda>tk. snd tk = ?k) (rl_times options (take n reqs))) @ [now]"
    using assms(6) by (simp add: rl_times_def)
  have nth: "mem.inc_run ?w ms_new (rl_times options reqs) ! n = last (key_run ?w None ?us)"
    using mem.inc_run_nth [of n "rl_times options reqs" ?k ?w ms_new] assms(5,6) take
    by (simp add: rl_times_def)
  let ?m = "length ?us - 1"
  have last: "last (key_run ?w None ?us) = key_run ?w None ?us ! ?m" and len: "?m < length ?us" and now: "?us ! ?m = now"
    using us by (auto simp: last_conv_nth nth_append simp flip: length_0_conv)
  have ok: "sorted ?us \<and> times_ok ?w ?us" "int (length ?us) < 2 ^ 31"
    using key_times_ok [OF timeline_take [OF assms(4)], of "\<lambda>tk. snd tk = ?k" "Suc n"] by auto
  have count: "length (filter (\<lambda>t. now - ?w < t) ?us)
      = length (filter (\<lambda>(now', _, c'). rl_key options c' = ?k \<and> now - ?w < now') (take (Suc n) reqs))"
    by (simp add: rl_times_def filter_map o_def case_prod_unfold conj_commute)
  have "\<not> fst (key_run ?w None ?us ! ?m) > rlo_limit options"
  proof
    assume "fst (key_run ?w None ?us ! ?m) > rlo_limit options"
    from refused_needs_traffic [OF _ assms(3) ok len this] assms(4) have
      "int (length (filter (\<lambda>t. now - ?w < t) (take (Suc ?m) ?us))) > rlo_limit options"
      unfolding now by (simp add: timeline_ok_def)
    moreover have "take (Suc ?m) ?us = ?us" using len by simp
    ultimately show False using assms(7) count by simp
  qed
  moreover obtain count reset_at where "key_run ?w None ?us ! ?m = (count, reset_at)" by fastforce
  ultimately show ?thesis
    using rl_serve_nth [OF assms(1,2,5,6), of nxt ms_new] nth last
    by (intro exI [of _ count] exI [of _ reset_at]) (simp add: Let_def)
qed

text \<open>An example: a client that sends three requests under a limit of one.\<close>

definition demo_client :: "string \<Rightarrow> http_context" where
  "demo_client ip =
     \<lparr>cx_req = \<lparr>hq_method = ''GET'', hq_url = ''/'', hq_header = [(''X-Real-IP'', ip)], hq_data = ''''\<rparr>, cx_params = [], cx_query = [],
      cx_url = ''/'', cx_path = ''/'', cx_status_code = 200, cx_headers = [], cx_body = '''', cx_store = []\<rparr>"

definition demo_limits :: rate_limit_options where
  "demo_limits = default_rate_limit_options\<lparr>rlo_window_ms := 100, rlo_limit := 1\<rparr>"

definition demo_traffic :: "timed_request list" where
  "demo_traffic = [(0, 0, demo_client ''a''), (99, 99, demo_client ''a''), (100, 100, demo_client ''a'')]"

definition demo_ok_handler :: handler_fn where
  "demo_ok_handler c = (context_text ''ok'' c, c)"

lemma demo_limits_sel [simp]:
  "rlo_skip demo_limits = None" "rlo_handler demo_limits = None" "rlo_limit demo_limits = 1" "rlo_window_ms demo_limits = 100"
  "rlo_key_generator demo_limits = None"
  by (simp_all add: demo_limits_def default_rate_limit_options_def)

lemma demo_timeline: "timeline_ok demo_limits demo_traffic"
  by (simp add: timeline_ok_def demo_traffic_def)

lemma rate_limit_bound_witness:
  "int (length (filter (\<lambda>((now, now2, c), out). rl_key demo_limits c = ''a'' \<and> 99 \<le> now \<and> now < 199
        \<and> rs_status_code (fst out) \<noteq> 429) (zip demo_traffic (rl_serve demo_limits demo_ok_handler demo_traffic ms_new)))) \<le> 2"
  using rate_limit_bound [of demo_limits demo_traffic "''a''" 99 demo_ok_handler] demo_timeline by simp

lemma rate_limit_fair_witness:
  "\<exists>count reset_at. count \<le> 1 \<and> rl_serve demo_limits demo_ok_handler demo_traffic ms_new ! 0
     = demo_ok_handler (rl_context demo_limits (count, reset_at) (demo_client ''a''))"
proof -
  have n: "(0::nat) < length demo_traffic" and q: "demo_traffic ! 0 = (0, 0, demo_client ''a'')"
    by (simp_all add: demo_traffic_def)
  have few: "int (length (filter (\<lambda>(now', _, c'). rl_key demo_limits c' = rl_key demo_limits (demo_client ''a'')
      \<and> 0 - rlo_window_ms demo_limits < now') (take (Suc 0) demo_traffic))) \<le> rlo_limit demo_limits"
    by (simp add: demo_traffic_def)
  show ?thesis
    using rate_limit_fair [OF demo_limits_sel(1,2) _ demo_timeline n q few, of demo_ok_handler] by simp
qed

text \<open>The refused request of the example, and the seam: the first and the last request both get through although they
  are less than a window and a millisecond apart.\<close>

lemma demo_traffic_statuses:
  "map (\<lambda>out. rs_status_code (fst out)) (rl_serve demo_limits demo_ok_handler demo_traffic ms_new) = [200, 429, 200]"
  by code_simp

section \<open>Maintenance and information\<close>

text \<open>Removing expired counters changes no later result.\<close>

lemma fold_vdel: "vget (fold vdel ks s) k = (if k \<in> set ks then None else vget s k)"
  by (induction ks arbitrary: s) auto

lemma cleanup_entry:
  assumes "vmap_ok s"
  shows "vget (ms_cleanup_expired now s) k =
    (case vget s k of None \<Rightarrow> None | Some e \<Rightarrow> if now \<ge> rte_reset_at e then None else Some e)"
proof (cases "vget s k")
  case None
  then show ?thesis by (simp add: ms_cleanup_expired_def Let_def fold_vdel)
next
  case (Some e)
  then have "k \<in> fst ` {x \<in> set s. case x of (key, entry) \<Rightarrow> now \<ge> rte_reset_at entry} \<longleftrightarrow> now \<ge> rte_reset_at e"
    using vmap_ok_get [OF assms] vget_Some_in [OF Some] by (fastforce simp: image_iff)
  with Some show ?thesis by (simp add: ms_cleanup_expired_def Let_def fold_vdel)
qed

theorem cleanup_invisible:
  assumes "vmap_ok s" and "now \<le> now'"
  shows "fst (ms_increment now' k w (ms_cleanup_expired now s)) = fst (ms_increment now' k w s)"
  using assms by (auto simp: mem.inc_result ms_entry_def cleanup_entry window_step_def split: option.splits)

text \<open>What a handler reads back from the headers of its context: limit and remaining requests exactly, the reset time
  without its milliseconds.\<close>

theorem rate_limit_info_read:
  assumes "0 \<le> limit" and "limit < 2 ^ 31" and "0 \<le> remaining" and "remaining < 2 ^ 31" and "0 \<le> r" and "r < 2 ^ 63"
  shows "get_rate_limit_info (set_rate_limit_headers limit remaining r c)
    = Some \<lparr>rli_limit = limit, rli_remaining = remaining, rli_reset_at = r - r mod 1000\<rparr>"
proof -
  have "v_quot r 1000 = r div 1000" using assms(5) by (cases "r = 0") (simp_all add: v_quot_def)
  moreover have "r div 1000 * 1000 = r - r mod 1000" by (simp add: minus_mod_eq_div_mult)
  moreover have "wrap_i64 (r - r mod 1000) = r - r mod 1000"
  proof (rule wrap_i64_id)
    have m: "0 \<le> r mod 1000" "r mod 1000 \<le> r" using assms(5) by (simp_all add: zmod_le_nonneg_dividend)
    show "- (2 ^ 63) \<le> r - r mod 1000" and "r - r mod 1000 < 2 ^ 63" using m assms(6) by linarith+
  qed
  ultimately show ?thesis
    using assms by (simp add: get_rate_limit_info_def set_rate_limit_headers_def set_header_def parse_print)
qed

end
