(* ===== verification/Upload_Db.thy ===== *)
theory Upload_Db
  imports Prelude
begin

text \<open>
  The upload tables of \<^verbatim>\<open>database.v\<close>: the records, the SQL statements of \<^verbatim>\<open>DatabaseManager\<close> as operations on tables, and the
  escaping of literals.

  A table is the list of its rows in the order they were inserted.  Every statement may fail: \<open>udb_faults\<close> is the sequence
  of outcomes that the database gives to the statements to come (\<open>Some e\<close> is a failure with message \<open>e\<close>; when the list
  is used up, statements succeed), so theorems that do not mention it hold under any failures.  A failed statement
  changes nothing; an insertion that breaks a \<^verbatim>\<open>UNIQUE\<close> constraint fails.

  The source builds the text of each statement from the values and escapes the quotes of some of them only
  (\<open>escaped_literal\<close>).  A statement whose unescaped values hold no quote, and none of whose values holds a zero byte, which ends the text,
  means what it was written for: its effect is the operation on the tables given here.  Any other statement is another
  statement than the one that was written, and what the library makes of it is the parameter \<open>udb_engine\<close>, a function of the
  text as the code builds it and of the tables (\<open>sql_exec\<close>).
  \<open>udb_now\<close> is the time (seconds) at which an operation runs; random bytes are arguments.

  Shown here: identifiers of uploads are unique, a part belongs to an upload and has a number of that upload, one row for each
  number; every operation keeps this, whatever fails, as long as the values are plain.
\<close>

section \<open>Rows and tables\<close>

record file_info =
  fi_id :: int
  fi_file_uuid :: string
  fi_file_hash :: string
  fi_file_name :: string
  fi_file_size :: int
  fi_file_type :: string
  fi_storage_type :: string
  fi_bucket :: string
  fi_object_key :: string
  fi_created_at :: int
  fi_updated_at :: int
  fi_metadata :: string

record multipart_upload =
  mu_id :: int
  mu_upload_id :: string
  mu_file_uuid :: string
  mu_file_name :: string
  mu_file_size :: int
  mu_chunk_size :: int
  mu_total_chunks :: int
  mu_bucket :: string
  mu_object_key :: string
  mu_content_type :: string
  mu_status :: string
  mu_created_at :: int
  mu_updated_at :: int

record uploaded_part =
  up_id :: int
  up_upload_id :: string
  up_part_number :: int
  up_etag :: string
  up_size :: int
  up_uploaded_at :: int

record db_tables =
  t_files :: "file_info list"
  t_uploads :: "multipart_upload list"
  t_parts :: "uploaded_part list"
  t_seq :: int

text \<open>What the library answers to a statement: the tables afterwards, and the rows, as the code reads them into uploads, parts
  or files, or the number in the first column of each.\<close>

record sql_answer =
  sa_tables :: db_tables
  sa_uploads :: "multipart_upload list"
  sa_parts :: "uploaded_part list"
  sa_files :: "file_info list"
  sa_first :: "int list"

type_synonym sql_engine = "string \<Rightarrow> db_tables \<Rightarrow> string + sql_answer"

record upload_db =
  udb_tables :: db_tables
  udb_faults :: "string option list"
  udb_now :: int
  udb_engine :: sql_engine

definition new_database_manager :: "sql_engine \<Rightarrow> string option list \<Rightarrow> int \<Rightarrow> upload_db" where
  "new_database_manager engine faults now =
     \<lparr>udb_tables = \<lparr>t_files = [], t_uploads = [], t_parts = [], t_seq = 0\<rparr>, udb_faults = faults, udb_now = now,
      udb_engine = engine\<rparr>"

section \<open>Random identifiers\<close>

definition hex_digit :: "nat \<Rightarrow> char" where
  "hex_digit n = (if n < 10 then char_of (48 + n) else char_of (87 + n))"

definition hex_byte :: "8 word \<Rightarrow> string" where
  "hex_byte b = [hex_digit (unat b div 16), hex_digit (unat b mod 16)]"

definition generate_file_uuid :: "bytes option \<Rightarrow> string" where
  "generate_file_uuid random_bytes =
     (case random_bytes of
        None \<Rightarrow> ''''
      | Some bs \<Rightarrow> concat (map (\<lambda>(i, b). (if i = 4 \<or> i = 6 \<or> i = 8 \<or> i = 10 then ''-'' else '''') @ hex_byte b)
          (enumerate 0 bs)))"

definition generate_db_upload_id :: "bytes option \<Rightarrow> string" where
  "generate_db_upload_id random_bytes =
     (case random_bytes of None \<Rightarrow> '''' | Some bs \<Rightarrow> concat (map hex_byte bs))"

section \<open>Statements\<close>

type_synonym 'a sql_result = "string + 'a"

definition db_exec :: "(db_tables \<Rightarrow> 'a sql_result \<times> db_tables) \<Rightarrow> upload_db \<Rightarrow> 'a sql_result \<times> upload_db" where
  "db_exec stmt db =
     (case udb_faults db of
        Some e # fs \<Rightarrow> (Inl e, db\<lparr>udb_faults := fs\<rparr>)
      | _ \<Rightarrow> let (r, t) = stmt (udb_tables db)
             in (r, db\<lparr>udb_tables := (case r of Inl _ \<Rightarrow> udb_tables db | Inr _ \<Rightarrow> t), udb_faults := tl (udb_faults db)\<rparr>))"

definition sql_quote :: char where
  "sql_quote = CHR 0x27"

definition escape_sql :: "string \<Rightarrow> string" where
  "escape_sql s = v_replace sql_quote [sql_quote, sql_quote] s"

text \<open>A value as the code puts it between quotes; values that leave a statement what it was written to be: unescaped ones without
  a quote, and all without a zero byte.\<close>

definition sql_val :: "string \<Rightarrow> string" where
  "sql_val s = sql_quote # s @ [sql_quote]"

definition nul_free :: "string \<Rightarrow> bool" where
  "nul_free s \<longleftrightarrow> CHR 0x00 \<notin> set s"

definition plain :: "string \<Rightarrow> bool" where
  "plain s \<longleftrightarrow> sql_quote \<notin> set s \<and> nul_free s"

definition by_engine :: "sql_engine \<Rightarrow> string \<Rightarrow> (sql_answer \<Rightarrow> 'a) \<Rightarrow> db_tables \<Rightarrow> 'a sql_result \<times> db_tables" where
  "by_engine engine query reading t =
     (case engine query t of Inl e \<Rightarrow> (Inl e, t) | Inr answer \<Rightarrow> (Inr (reading answer), sa_tables answer))"

text \<open>The execution of a statement with the text \<open>query\<close>, built from the unescaped values \<open>raw\<close> and the escaped values \<open>escaped\<close>, and
  written to have the effect \<open>stmt\<close>.\<close>

definition sql_exec ::
  "string \<Rightarrow> string list \<Rightarrow> string list \<Rightarrow> (sql_answer \<Rightarrow> 'a) \<Rightarrow> (db_tables \<Rightarrow> 'a sql_result \<times> db_tables) \<Rightarrow> upload_db
   \<Rightarrow> 'a sql_result \<times> upload_db" where
  "sql_exec query raw escaped reading stmt db =
     db_exec (if list_all plain raw \<and> list_all nul_free escaped then stmt else by_engine (udb_engine db) query reading) db"

text \<open>Sequencing with early return (\<^verbatim>\<open>!\<close>), and \<^verbatim>\<open>or { return error(...) }\<close>.\<close>

definition bind_res :: "(string + 'a) \<times> 's \<Rightarrow> ('a \<Rightarrow> 's \<Rightarrow> (string + 'b) \<times> 's) \<Rightarrow> (string + 'b) \<times> 's" where
  "bind_res m f = (case m of (Inl e, s) \<Rightarrow> (Inl e, s) | (Inr x, s) \<Rightarrow> f x s)"

definition or_error :: "string \<Rightarrow> (string + 'a) \<times> 's \<Rightarrow> (string + 'a) \<times> 's" where
  "or_error msg m = (case m of (Inl e, s) \<Rightarrow> (Inl (msg @ e), s) | (Inr x, s) \<Rightarrow> (Inr x, s))"

text \<open>\<open>same_upload\<close> and \<open>same_part\<close> are the \<^verbatim>\<open>UNIQUE\<close> keys of the tables.\<close>

definition insert_upload :: "multipart_upload \<Rightarrow> db_tables \<Rightarrow> unit sql_result \<times> db_tables" where
  "insert_upload u t =
     (if mu_upload_id u \<in> mu_upload_id ` set (t_uploads t)
      then (Inl ''UNIQUE constraint failed: multipart_uploads.upload_id'', t)
      else (Inr (), t\<lparr>t_uploads := t_uploads t @ [u\<lparr>mu_id := t_seq t + 1\<rparr>], t_seq := t_seq t + 1\<rparr>))"

definition insert_or_replace_part :: "uploaded_part \<Rightarrow> db_tables \<Rightarrow> unit sql_result \<times> db_tables" where
  "insert_or_replace_part p t =
     (Inr (), t\<lparr>t_parts := filter (\<lambda>q. \<not> (up_upload_id q = up_upload_id p \<and> up_part_number q = up_part_number p)) (t_parts t)
                 @ [p\<lparr>up_id := t_seq t + 1\<rparr>], t_seq := t_seq t + 1\<rparr>)"

definition insert_file_row :: "file_info \<Rightarrow> db_tables \<Rightarrow> unit sql_result \<times> db_tables" where
  "insert_file_row f t =
     (if fi_file_uuid f \<in> fi_file_uuid ` set (t_files t)
      then (Inl ''UNIQUE constraint failed: file_info.file_uuid'', t)
      else (Inr (), t\<lparr>t_files := t_files t @ [f\<lparr>fi_id := t_seq t + 1\<rparr>], t_seq := t_seq t + 1\<rparr>))"

section \<open>Uploads\<close>

definition upload_columns :: string where
  "upload_columns = ''upload_id, file_uuid, file_name, file_size, chunk_size, total_chunks, bucket, object_key, content_type, status, created_at, updated_at''"

definition insert_upload_sql :: "multipart_upload \<Rightarrow> string" where
  "insert_upload_sql row =
     ''INSERT INTO multipart_uploads ('' @ upload_columns @ '') VALUES ('' @ sql_val (mu_upload_id row) @ '', ''
     @ sql_val (mu_file_uuid row) @ '', '' @ sql_val (escape_sql (mu_file_name row)) @ '', '' @ v_str (mu_file_size row) @ '', ''
     @ v_str (mu_chunk_size row) @ '', '' @ v_str (mu_total_chunks row) @ '', '' @ sql_val (mu_bucket row) @ '', ''
     @ sql_val (escape_sql (mu_object_key row)) @ '', '' @ sql_val (mu_content_type row) @ '', '' @ sql_val ''uploading'' @ '', ''
     @ v_str (mu_created_at row) @ '', '' @ v_str (mu_updated_at row) @ '')''"

definition select_upload_sql :: "string \<Rightarrow> string" where
  "select_upload_sql upload_id =
     ''SELECT id, '' @ upload_columns @ '' FROM multipart_uploads WHERE upload_id = '' @ sql_val upload_id"

definition create_multipart_upload ::
  "bytes option \<Rightarrow> bytes option \<Rightarrow> multipart_upload \<Rightarrow> upload_db \<Rightarrow> multipart_upload sql_result \<times> upload_db" where
  "create_multipart_upload rnd_id rnd_uuid upload db =
     (let now = udb_now db;
          upload_id = (if mu_upload_id upload \<noteq> '''' then mu_upload_id upload else generate_db_upload_id rnd_id);
          file_uuid = (if mu_file_uuid upload \<noteq> '''' then mu_file_uuid upload else generate_file_uuid rnd_uuid);
          row = upload\<lparr>mu_id := 0, mu_upload_id := upload_id, mu_file_uuid := file_uuid, mu_status := ''uploading'',
            mu_created_at := now, mu_updated_at := now\<rparr>
      in bind_res (or_error ''Failed to create multipart upload: '' (sql_exec (insert_upload_sql row)
                [upload_id, file_uuid, mu_bucket row, mu_content_type row] [mu_file_name row, mu_object_key row]
                (\<lambda>_. ()) (insert_upload row) db))
           (\<lambda>_ db. (Inr row, db)))"

definition get_multipart_upload :: "string \<Rightarrow> upload_db \<Rightarrow> multipart_upload sql_result \<times> upload_db" where
  "get_multipart_upload upload_id db =
     bind_res (or_error ''Failed to query multipart upload: ''
         (sql_exec (select_upload_sql upload_id) [upload_id] [] sa_uploads
           (\<lambda>t. (Inr (filter (\<lambda>u. mu_upload_id u = upload_id) (t_uploads t)), t)) db))
       (\<lambda>rows db. (case rows of row # _ \<Rightarrow> Inr row | [] \<Rightarrow> Inl ''Multipart upload not found'', db))"

definition update_uploads :: "string \<Rightarrow> (multipart_upload \<Rightarrow> multipart_upload) \<Rightarrow> db_tables \<Rightarrow> unit sql_result \<times> db_tables" where
  "update_uploads upload_id f t =
     (Inr (), t\<lparr>t_uploads := map (\<lambda>u. if mu_upload_id u = upload_id then f u else u) (t_uploads t)\<rparr>)"

definition update_multipart_status :: "string \<Rightarrow> string \<Rightarrow> upload_db \<Rightarrow> unit sql_result \<times> upload_db" where
  "update_multipart_status upload_id status db =
     or_error ''Failed to update multipart status: ''
       (sql_exec (''UPDATE multipart_uploads SET status = '' @ sql_val status @ '', updated_at = '' @ v_str (udb_now db)
            @ '' WHERE upload_id = '' @ sql_val upload_id) [status, upload_id] [] (\<lambda>_. ())
          (update_uploads upload_id (\<lambda>u. u\<lparr>mu_status := status, mu_updated_at := udb_now db\<rparr>)) db)"

definition delete_multipart_upload :: "string \<Rightarrow> upload_db \<Rightarrow> unit sql_result \<times> upload_db" where
  "delete_multipart_upload upload_id db =
     bind_res (or_error ''Failed to delete uploaded parts: ''
         (sql_exec (''DELETE FROM uploaded_parts WHERE upload_id = '' @ sql_val upload_id) [upload_id] [] (\<lambda>_. ())
           (\<lambda>t. (Inr (), t\<lparr>t_parts := filter (\<lambda>p. up_upload_id p \<noteq> upload_id) (t_parts t)\<rparr>)) db))
       (\<lambda>_ db. or_error ''Failed to delete multipart upload: ''
         (sql_exec (''DELETE FROM multipart_uploads WHERE upload_id = '' @ sql_val upload_id) [upload_id] [] (\<lambda>_. ())
           (\<lambda>t. (Inr (), t\<lparr>t_uploads := filter (\<lambda>u. mu_upload_id u \<noteq> upload_id) (t_uploads t)\<rparr>)) db))"

text \<open>\<^verbatim>\<open>ORDER BY created_at DESC\<close>\<close>

definition list_pending_multipart_uploads :: "upload_db \<Rightarrow> multipart_upload list sql_result \<times> upload_db" where
  "list_pending_multipart_uploads db =
     or_error ''Failed to list pending uploads: ''
       (db_exec (\<lambda>t. (Inr (sort_key (\<lambda>u. - mu_created_at u) (filter (\<lambda>u. mu_status u = ''uploading'') (t_uploads t))), t)) db)"

section \<open>Parts\<close>

definition insert_part_sql :: "uploaded_part \<Rightarrow> string" where
  "insert_part_sql row =
     ''INSERT OR REPLACE INTO uploaded_parts (upload_id, part_number, etag, size, uploaded_at) VALUES ('' @ sql_val (up_upload_id row)
     @ '', '' @ v_str (up_part_number row) @ '', '' @ sql_val (up_etag row) @ '', '' @ v_str (up_size row) @ '', ''
     @ v_str (up_uploaded_at row) @ '')''"

definition select_parts_sql :: "string \<Rightarrow> string" where
  "select_parts_sql upload_id =
     ''SELECT id, upload_id, part_number, etag, size, uploaded_at FROM uploaded_parts WHERE upload_id = '' @ sql_val upload_id
     @ '' ORDER BY part_number ASC''"

definition record_uploaded_part ::
  "string \<Rightarrow> int \<Rightarrow> string \<Rightarrow> int \<Rightarrow> upload_db \<Rightarrow> uploaded_part sql_result \<times> upload_db" where
  "record_uploaded_part upload_id part_number etag sz db =
     (let now = udb_now db;
          row = \<lparr>up_id = 0, up_upload_id = upload_id, up_part_number = part_number, up_etag = etag, up_size = sz,
                 up_uploaded_at = now\<rparr>
      in bind_res (or_error ''Failed to record uploaded part: '' (sql_exec (insert_part_sql row) [upload_id, etag] []
             (\<lambda>_. ()) (insert_or_replace_part row) db))
           (\<lambda>_ db. let (_, db) = sql_exec (''UPDATE multipart_uploads SET updated_at = '' @ v_str now @ '' WHERE upload_id = ''
                       @ sql_val upload_id) [upload_id] [] (\<lambda>_. ()) (update_uploads upload_id (\<lambda>u. u\<lparr>mu_updated_at := now\<rparr>)) db
                   in (Inr row, db)))"

definition get_uploaded_parts :: "string \<Rightarrow> upload_db \<Rightarrow> uploaded_part list sql_result \<times> upload_db" where
  "get_uploaded_parts upload_id db =
     or_error ''Failed to get uploaded parts: ''
       (sql_exec (select_parts_sql upload_id) [upload_id] [] sa_parts
         (\<lambda>t. (Inr (sort_key up_part_number (filter (\<lambda>p. up_upload_id p = upload_id) (t_parts t))), t)) db)"

definition get_uploaded_parts_count :: "string \<Rightarrow> upload_db \<Rightarrow> int \<times> upload_db" where
  "get_uploaded_parts_count upload_id db =
     (case sql_exec (''SELECT COUNT(*) FROM uploaded_parts WHERE upload_id = '' @ sql_val upload_id) [upload_id] [] sa_first
            (\<lambda>t. (Inr [int (length (filter (\<lambda>p. up_upload_id p = upload_id) (t_parts t)))], t)) db of
        (Inl _, db) \<Rightarrow> (0, db) | (Inr rows, db) \<Rightarrow> (if length rows > 0 then hd rows else 0, db))"

definition is_part_uploaded :: "string \<Rightarrow> int \<Rightarrow> upload_db \<Rightarrow> bool \<times> upload_db" where
  "is_part_uploaded upload_id part_number db =
     (case sql_exec (''SELECT 1 FROM uploaded_parts WHERE upload_id = '' @ sql_val upload_id @ '' AND part_number = ''
              @ v_str part_number @ '' LIMIT 1'') [upload_id] [] sa_first
            (\<lambda>t. (Inr (map (\<lambda>p. 1) (take 1 (filter (\<lambda>p. up_upload_id p = upload_id \<and> up_part_number p = part_number)
              (t_parts t)))), t)) db of
        (Inl _, db) \<Rightarrow> (False, db) | (Inr rows, db) \<Rightarrow> (length rows > 0, db))"

definition db_get_upload_progress :: "string \<Rightarrow> upload_db \<Rightarrow> (int \<times> int) sql_result \<times> upload_db" where
  "db_get_upload_progress upload_id db =
     bind_res (get_multipart_upload upload_id db)
       (\<lambda>upload db. let (uploaded_count, db) = get_uploaded_parts_count upload_id db
          in (Inr (uploaded_count, mu_total_chunks upload), db))"

definition delete_uploaded_part :: "string \<Rightarrow> int \<Rightarrow> upload_db \<Rightarrow> unit sql_result \<times> upload_db" where
  "delete_uploaded_part upload_id part_number db =
     or_error ''Failed to delete uploaded part: ''
       (sql_exec (''DELETE FROM uploaded_parts WHERE upload_id = '' @ sql_val upload_id @ '' AND part_number = '' @ v_str part_number)
          [upload_id] [] (\<lambda>_. ()) (\<lambda>t. (Inr (), t\<lparr>t_parts :=
          filter (\<lambda>p. \<not> (up_upload_id p = upload_id \<and> up_part_number p = part_number)) (t_parts t)\<rparr>)) db)"

section \<open>Files\<close>

definition file_columns :: string where
  "file_columns = ''file_uuid, file_hash, file_name, file_size, file_type, storage_type, bucket, object_key, created_at, updated_at, metadata''"

definition insert_file_sql :: "file_info \<Rightarrow> string" where
  "insert_file_sql row =
     ''INSERT INTO file_info ('' @ file_columns @ '') VALUES ('' @ sql_val (fi_file_uuid row) @ '', '' @ sql_val (fi_file_hash row) @ '', ''
     @ sql_val (escape_sql (fi_file_name row)) @ '', '' @ v_str (fi_file_size row) @ '', '' @ sql_val (fi_file_type row) @ '', ''
     @ sql_val (fi_storage_type row) @ '', '' @ sql_val (fi_bucket row) @ '', '' @ sql_val (escape_sql (fi_object_key row)) @ '', ''
     @ v_str (fi_created_at row) @ '', '' @ v_str (fi_updated_at row) @ '', '' @ sql_val (escape_sql (fi_metadata row)) @ '')''"

definition insert_file :: "bytes option \<Rightarrow> file_info \<Rightarrow> upload_db \<Rightarrow> file_info sql_result \<times> upload_db" where
  "insert_file rnd file db =
     (let now = udb_now db;
          file_uuid = (if fi_file_uuid file \<noteq> '''' then fi_file_uuid file else generate_file_uuid rnd);
          row = file\<lparr>fi_id := 0, fi_file_uuid := file_uuid, fi_created_at := now, fi_updated_at := now\<rparr>
      in bind_res (or_error ''Failed to insert file info: '' (sql_exec (insert_file_sql row)
           [file_uuid, fi_file_hash row, fi_file_type row, fi_storage_type row, fi_bucket row]
           [fi_file_name row, fi_object_key row, fi_metadata row] (\<lambda>_. ()) (insert_file_row row) db)) (\<lambda>_ db. (Inr row, db)))"

definition select_file ::
  "string \<Rightarrow> string list \<Rightarrow> string list \<Rightarrow> (file_info \<Rightarrow> bool) \<Rightarrow> upload_db \<Rightarrow> file_info sql_result \<times> upload_db" where
  "select_file where_sql raw escaped cond db =
     bind_res (or_error ''Failed to query file info: '' (sql_exec (''SELECT id, '' @ file_columns @ '' FROM file_info WHERE '' @ where_sql)
         raw escaped sa_files (\<lambda>t. (Inr (filter cond (t_files t)), t)) db))
       (\<lambda>rows db. (case rows of row # _ \<Rightarrow> Inr row | [] \<Rightarrow> Inl ''File not found'', db))"

definition get_file_by_uuid :: "string \<Rightarrow> upload_db \<Rightarrow> file_info sql_result \<times> upload_db" where
  "get_file_by_uuid file_uuid = select_file (''file_uuid = '' @ sql_val file_uuid) [file_uuid] [] (\<lambda>f. fi_file_uuid f = file_uuid)"

definition get_file_by_hash :: "string \<Rightarrow> upload_db \<Rightarrow> file_info sql_result \<times> upload_db" where
  "get_file_by_hash file_hash = select_file (''file_hash = '' @ sql_val file_hash) [file_hash] [] (\<lambda>f. fi_file_hash f = file_hash)"

definition get_file_by_key :: "string \<Rightarrow> string \<Rightarrow> upload_db \<Rightarrow> file_info sql_result \<times> upload_db" where
  "get_file_by_key bucket object_key =
     select_file (''bucket = '' @ sql_val bucket @ '' AND object_key = '' @ sql_val (escape_sql object_key)) [bucket] [object_key]
       (\<lambda>f. fi_bucket f = bucket \<and> fi_object_key f = object_key)"

definition get_files_by_hash :: "string \<Rightarrow> upload_db \<Rightarrow> file_info list sql_result \<times> upload_db" where
  "get_files_by_hash file_hash db =
     or_error ''Failed to query files: '' (sql_exec (''SELECT id, '' @ file_columns @ '' FROM file_info WHERE file_hash = ''
       @ sql_val file_hash) [file_hash] [] sa_files (\<lambda>t. (Inr (filter (\<lambda>f. fi_file_hash f = file_hash) (t_files t)), t)) db)"

definition update_file :: "string \<Rightarrow> string \<Rightarrow> string \<Rightarrow> string \<Rightarrow> upload_db \<Rightarrow> file_info sql_result \<times> upload_db" where
  "update_file file_uuid file_name file_type metadata db =
     bind_res (or_error ''Failed to update file info: ''
         (sql_exec (''UPDATE file_info SET file_name = '' @ sql_val (escape_sql file_name) @ '', file_type = '' @ sql_val file_type
             @ '', metadata = '' @ sql_val (escape_sql metadata) @ '', updated_at = '' @ v_str (udb_now db) @ '' WHERE file_uuid = ''
             @ sql_val file_uuid) [file_type, file_uuid] [file_name, metadata] (\<lambda>_. ())
           (\<lambda>t. (Inr (), t\<lparr>t_files := map (\<lambda>f. if fi_file_uuid f = file_uuid
            then f\<lparr>fi_file_name := file_name, fi_file_type := file_type, fi_metadata := metadata, fi_updated_at := udb_now db\<rparr>
            else f) (t_files t)\<rparr>)) db))
       (\<lambda>_ db. get_file_by_uuid file_uuid db)"

definition delete_file :: "string \<Rightarrow> upload_db \<Rightarrow> unit sql_result \<times> upload_db" where
  "delete_file file_uuid db =
     or_error ''Failed to delete file info: ''
       (sql_exec (''DELETE FROM file_info WHERE file_uuid = '' @ sql_val file_uuid) [file_uuid] [] (\<lambda>_. ())
         (\<lambda>t. (Inr (), t\<lparr>t_files := filter (\<lambda>f. fi_file_uuid f \<noteq> file_uuid) (t_files t)\<rparr>)) db)"

definition file_exists :: "string \<Rightarrow> upload_db \<Rightarrow> bool \<times> upload_db" where
  "file_exists file_uuid db =
     (case sql_exec (''SELECT 1 FROM file_info WHERE file_uuid = '' @ sql_val file_uuid @ '' LIMIT 1'') [file_uuid] [] sa_first
            (\<lambda>t. (Inr (map (\<lambda>f. 1) (take 1 (filter (\<lambda>f. fi_file_uuid f = file_uuid) (t_files t)))), t)) db of
        (Inl _, db) \<Rightarrow> (False, db) | (Inr rows, db) \<Rightarrow> (length rows > 0, db))"

definition no_file_info :: file_info where
  "no_file_info =
     \<lparr>fi_id = 0, fi_file_uuid = '''', fi_file_hash = '''', fi_file_name = '''', fi_file_size = 0, fi_file_type = '''',
      fi_storage_type = '''', fi_bucket = '''', fi_object_key = '''', fi_created_at = 0, fi_updated_at = 0, fi_metadata = ''''\<rparr>"

definition insert_or_update_file ::
  "bytes option \<Rightarrow> string \<Rightarrow> string \<Rightarrow> int \<Rightarrow> string \<Rightarrow> string \<Rightarrow> string \<Rightarrow> string \<Rightarrow> upload_db
   \<Rightarrow> file_info sql_result \<times> upload_db" where
  "insert_or_update_file rnd file_hash file_name file_size file_type storage_type bucket object_key db =
     (let (r, db) = get_file_by_hash file_hash db;
          existing = (case r of Inl _ \<Rightarrow> no_file_info | Inr f \<Rightarrow> f)
      in if fi_file_uuid existing \<noteq> '''' \<and> fi_bucket existing = bucket \<and> fi_object_key existing = object_key
         then update_file (fi_file_uuid existing) file_name file_type (fi_metadata existing) db
         else insert_file rnd (no_file_info\<lparr>fi_file_hash := file_hash, fi_file_name := file_name, fi_file_size := file_size,
           fi_file_type := file_type, fi_storage_type := storage_type, fi_bucket := bucket, fi_object_key := object_key\<rparr>) db)"

definition insert_or_update_file_simple ::
  "bytes option \<Rightarrow> string \<Rightarrow> string \<Rightarrow> int \<Rightarrow> string \<Rightarrow> upload_db \<Rightarrow> file_info sql_result \<times> upload_db" where
  "insert_or_update_file_simple rnd file_hash file_name file_size file_type db =
     insert_or_update_file rnd file_hash file_name file_size file_type ''local'' ''default'' file_name db"

section \<open>Literals\<close>

text \<open>How SQL reads a literal, from behind its opening quote: a doubled quote is a quote, a single one ends the literal.\<close>

fun read_literal :: "string \<Rightarrow> (string \<times> string) option" where
  "read_literal [] = None"
| "read_literal (c # cs) =
     (if c = sql_quote then
        (case cs of d # ds \<Rightarrow> if d = sql_quote then map_option (\<lambda>(s, r). (sql_quote # s, r)) (read_literal ds) else Some ([], cs)
         | [] \<Rightarrow> Some ([], []))
      else map_option (\<lambda>(s, r). (c # s, r)) (read_literal cs))"

lemma escape_Cons: "escape_sql (c # s) = (if c = sql_quote then [sql_quote, sql_quote] else [c]) @ escape_sql s"
  by (simp add: escape_sql_def v_replace_def)

text \<open>An escaped literal is read back as the text it was made from, whatever characters the text has; nothing of the text
  is taken for SQL.\<close>

theorem escaped_literal:
  assumes "\<not> v_starts_with rest [sql_quote]"
  shows "read_literal (escape_sql s @ sql_quote # rest) = Some (s, rest)"
proof (induction s)
  case Nil
  with assms show ?case by (cases rest) (simp_all add: escape_sql_def v_replace_def)
next
  case (Cons c s)
  then show ?case by (simp add: escape_Cons)
qed

lemma escaped_literal_witness:
  "read_literal (escape_sql (''O'' @ sql_quote # ''Hara'') @ sql_quote # '', 1)'') = Some (''O'' @ sql_quote # ''Hara'', '', 1)'')"
  by (rule escaped_literal) (simp add: sql_quote_def)

text \<open>A value that is put in without escaping ends the literal early.\<close>

lemma unescaped_literal:
  "read_literal ((''x'' @ sql_quote # '' OR 1=1'') @ sql_quote # rest) = Some (''x'', '' OR 1=1'' @ sql_quote # rest)"
  by (simp add: sql_quote_def)

section \<open>The invariant of the tables\<close>

definition part_of :: "uploaded_part \<Rightarrow> multipart_upload \<Rightarrow> bool" where
  "part_of p u \<longleftrightarrow> mu_upload_id u = up_upload_id p \<and> 1 \<le> up_part_number p \<and> up_part_number p \<le> mu_total_chunks u"

definition part_key :: "uploaded_part \<Rightarrow> string \<times> int" where
  "part_key p = (up_upload_id p, up_part_number p)"

definition tables_ok :: "db_tables \<Rightarrow> bool" where
  "tables_ok t \<longleftrightarrow>
     distinct (map mu_upload_id (t_uploads t)) \<and> distinct (map part_key (t_parts t))
     \<and> list_all (\<lambda>p. list_ex (part_of p) (t_uploads t)) (t_parts t)"

text \<open>The values of an upload that are put into later statements.\<close>

definition upload_plain :: "multipart_upload \<Rightarrow> bool" where
  "upload_plain u \<longleftrightarrow>
     plain (mu_upload_id u) \<and> plain (mu_file_uuid u) \<and> plain (mu_bucket u) \<and> plain (mu_content_type u)
     \<and> nul_free (mu_file_name u) \<and> nul_free (mu_object_key u)"

definition tables_sound :: "db_tables \<Rightarrow> bool" where
  "tables_sound t \<longleftrightarrow> tables_ok t \<and> list_all upload_plain (t_uploads t)"

abbreviation db_ok :: "upload_db \<Rightarrow> bool" where
  "db_ok db \<equiv> tables_sound (udb_tables db)"

lemma db_ok_new: "db_ok (new_database_manager engine faults now)"
  by (simp add: new_database_manager_def tables_ok_def tables_sound_def)

lemma sound_upload: "tables_sound t \<Longrightarrow> u \<in> set (t_uploads t) \<Longrightarrow> upload_plain u"
  by (simp add: tables_sound_def list_all_iff)

text \<open>Generated identifiers are plain.\<close>

lemma plain_Nil [simp]: "plain []" and nul_free_Nil [simp]: "nul_free []"
  by (simp_all add: plain_def nul_free_def)

lemma plain_append [simp]: "plain (a @ b) \<longleftrightarrow> plain a \<and> plain b"
  by (auto simp: plain_def nul_free_def)

lemma plain_nul_free: "plain s \<Longrightarrow> nul_free s"
  by (simp add: plain_def)

lemma plain_concat: "list_all plain ss \<Longrightarrow> plain (concat ss)"
  by (induction ss) simp_all

lemma plain_hex: "plain (hex_byte b)"
proof -
  have digit: "hex_digit n \<noteq> sql_quote \<and> hex_digit n \<noteq> CHR 0x00" if "n < 16" for n
  proof -
    have "\<forall>n\<in>set [0..<16]. hex_digit n \<noteq> sql_quote \<and> hex_digit n \<noteq> CHR 0x00" by code_simp
    then show ?thesis using that by auto
  qed
  have "unat b < 256" using unsigned_less [of b, where 'a = nat] by simp
  then have "unat b div 16 < 16" "unat b mod 16 < 16" by linarith+
  with digit [of "unat b div 16"] digit [of "unat b mod 16"] show ?thesis
    by (auto simp: plain_def nul_free_def hex_byte_def)
qed

lemma plain_ids: "plain (generate_db_upload_id rnd)" "plain (generate_file_uuid rnd)"
proof -
  have "plain ((if n = 4 \<or> n = 6 \<or> n = 8 \<or> n = 10 then ''-'' else []) @ hex_byte b)" for n :: nat and b
    using plain_hex [of b] by (auto simp: plain_def nul_free_def sql_quote_def)
  then show "plain (generate_file_uuid rnd)"
    by (auto simp: generate_file_uuid_def list_all_iff intro!: plain_concat split: option.split)
  show "plain (generate_db_upload_id rnd)"
    by (auto simp: generate_db_upload_id_def list_all_iff plain_hex intro!: plain_concat split: option.split)
qed

text \<open>A statement with plain values has the effect it was written for.\<close>

lemma sql_exec_plain [simp]:
  "list_all plain raw \<Longrightarrow> list_all nul_free escaped \<Longrightarrow> sql_exec query raw escaped reading stmt db = db_exec stmt db"
  by (simp add: sql_exec_def)

text \<open>A statement leaves the tables alone or has its effect.\<close>

lemma db_exec_cases:
  obtains "udb_tables (snd (db_exec stmt db)) = udb_tables db"
  | r t' where "stmt (udb_tables db) = (Inr r, t')" and "udb_tables (snd (db_exec stmt db)) = t'"
proof (cases "\<exists>e fs. udb_faults db = Some e # fs")
  case True
  then show ?thesis using that(1) by (auto simp: db_exec_def)
next
  case False
  then have eq: "db_exec stmt db = (let (r, t) = stmt (udb_tables db)
      in (r, db\<lparr>udb_tables := (case r of Inl _ \<Rightarrow> udb_tables db | Inr _ \<Rightarrow> t), udb_faults := tl (udb_faults db)\<rparr>))"
    by (auto simp: db_exec_def split: list.splits option.splits)
  obtain r t' where "stmt (udb_tables db) = (r, t')" by fastforce
  with eq that show ?thesis by (cases r) auto
qed

lemma db_exec_inv:
  assumes "P (udb_tables db)" and "\<And>r t'. stmt (udb_tables db) = (Inr r, t') \<Longrightarrow> P t'"
  shows "P (udb_tables (snd (db_exec stmt db)))"
  using assms by (cases stmt db rule: db_exec_cases) auto

lemmas db_exec_ok = db_exec_inv [where P = tables_sound]

lemma snd_or_error [simp]: "snd (or_error msg m) = snd m"
  by (cases m; cases "fst m") (auto simp: or_error_def split: sum.splits)

lemma fst_or_error_Inr [simp]: "fst (or_error msg m) = Inr x \<longleftrightarrow> fst m = Inr x"
  by (cases m; cases "fst m") (auto simp: or_error_def split: sum.splits)

lemma snd_bind_res: "snd (bind_res m f) = (case fst m of Inl e \<Rightarrow> snd m | Inr x \<Rightarrow> snd (f x (snd m)))"
  by (cases m; cases "fst m") (auto simp: bind_res_def)

lemma bind_res_Inr: "bind_res m f = (Inr y, s) \<longleftrightarrow> (\<exists>x s'. m = (Inr x, s') \<and> f x s' = (Inr y, s))"
  by (auto simp: bind_res_def split: prod.splits sum.splits)

lemma bind_res_inv:
  "P (snd m) \<Longrightarrow> (\<And>x s. m = (Inr x, s) \<Longrightarrow> P s \<Longrightarrow> P (snd (f x s))) \<Longrightarrow> P (snd (bind_res m f))"
  by (cases m; cases "fst m") (auto simp: bind_res_def)

lemma insert_upload_ok:
  "tables_sound t \<Longrightarrow> upload_plain u \<Longrightarrow> insert_upload u t = (Inr r, t') \<Longrightarrow> tables_sound t'"
  by (auto simp: insert_upload_def tables_sound_def upload_plain_def tables_ok_def list_all_iff list_ex_iff split: if_splits)

lemma insert_part_ok:
  assumes "tables_sound t" and "list_ex (part_of p) (t_uploads t)" and "insert_or_replace_part p t = (Inr r, t')"
  shows "tables_sound t'"
proof -
  have id: "part_of (p\<lparr>up_id := n\<rparr>) = part_of p" "part_key (p\<lparr>up_id := n\<rparr>) = part_key p" for n
    by (simp_all add: part_of_def part_key_def fun_eq_iff)
  have "part_key p \<notin> part_key ` set (filter (\<lambda>q. \<not> (up_upload_id q = up_upload_id p \<and> up_part_number q = up_part_number p)) ps)"
    for ps by (auto simp: part_key_def)
  moreover have "t' = t\<lparr>t_parts := filter (\<lambda>q. \<not> (up_upload_id q = up_upload_id p \<and> up_part_number q = up_part_number p)) (t_parts t)
      @ [p\<lparr>up_id := t_seq t + 1\<rparr>], t_seq := t_seq t + 1\<rparr>"
    using assms(3) by (simp add: insert_or_replace_part_def)
  ultimately show ?thesis
    using assms(1,2) by (simp add: tables_sound_def tables_ok_def id distinct_map_filter list_all_iff)
qed

lemma update_uploads_ok:
  assumes "\<And>u. mu_upload_id (f u) = mu_upload_id u \<and> mu_total_chunks (f u) = mu_total_chunks u \<and> upload_plain (f u) = upload_plain u"
    and "tables_sound t" and "update_uploads i f t = (Inr r, t')"
  shows "tables_sound t'"
proof -
  have ids: "map mu_upload_id (map (\<lambda>u. if mu_upload_id u = i then f u else u) us) = map mu_upload_id us" for us
    using assms(1) by (induction us) auto
  moreover have "list_ex (part_of p) (map (\<lambda>u. if mu_upload_id u = i then f u else u) us) = list_ex (part_of p) us" for us p
    using assms(1) by (induction us) (auto simp: part_of_def)
  moreover have "t' = t\<lparr>t_uploads := map (\<lambda>u. if mu_upload_id u = i then f u else u) (t_uploads t)\<rparr>"
    using assms(3) by (simp add: update_uploads_def)
  moreover have "list_all upload_plain (map (\<lambda>u. if mu_upload_id u = i then f u else u) us) = list_all upload_plain us" for us
    using assms(1) by (induction us) auto
  ultimately show ?thesis using assms(2) by (simp add: tables_ok_def tables_sound_def ids del: map_map)
qed

text \<open>Reading statements keep every property of the tables.\<close>

lemma db_exec_read: "udb_tables (snd (db_exec (\<lambda>t. (Inr (f t), t)) db)) = udb_tables db"
  by (auto simp: db_exec_def split: list.splits option.splits)

lemma get_upload_tables [simp]: "plain i \<Longrightarrow> udb_tables (snd (get_multipart_upload i db)) = udb_tables db"
  by (auto simp: get_multipart_upload_def snd_bind_res db_exec_read split: sum.splits)

lemma get_parts_tables [simp]: "plain i \<Longrightarrow> udb_tables (snd (get_uploaded_parts i db)) = udb_tables db"
  by (simp add: get_uploaded_parts_def db_exec_read)

lemma list_pending_tables [simp]: "udb_tables (snd (list_pending_multipart_uploads db)) = udb_tables db"
  by (simp add: list_pending_multipart_uploads_def db_exec_read)

lemma db_exec_read_Inr: "db_exec (\<lambda>t. (Inr (f t), t)) db = (Inr x, db') \<Longrightarrow> x = f (udb_tables db)"
  by (auto simp: db_exec_def split: list.splits option.splits)

lemma or_error_Inr: "or_error msg m = (Inr x, s) \<longleftrightarrow> m = (Inr x, s)"
  by (auto simp: or_error_def split: prod.splits sum.splits)

lemma get_upload_Inr:
  assumes "get_multipart_upload i db = (Inr u, db')" and "plain i"
  shows "u \<in> set (t_uploads (udb_tables db)) \<and> mu_upload_id u = i \<and> udb_tables db' = udb_tables db"
proof -
  from assms obtain rows s where "db_exec (\<lambda>t. (Inr (filter (\<lambda>u. mu_upload_id u = i) (t_uploads t)), t)) db = (Inr rows, s)"
    and hit: "(case rows of row # _ \<Rightarrow> Inr row | [] \<Rightarrow> Inl ''Multipart upload not found'') = (Inr u :: string + multipart_upload)"
    by (auto simp: get_multipart_upload_def assms(2) bind_res_Inr or_error_Inr)
  from this(1) have rows: "rows = filter (\<lambda>u. mu_upload_id u = i) (t_uploads (udb_tables db))"
    by (rule db_exec_read_Inr)
  from hit obtain rest where "rows = u # rest" by (cases rows) auto
  with rows have "u \<in> set (filter (\<lambda>u. mu_upload_id u = i) (t_uploads (udb_tables db)))" by (metis list.set_intros(1))
  then show ?thesis using get_upload_tables [of i db] assms by (auto simp del: get_upload_tables)
qed

lemma get_parts_Inr:
  assumes "get_uploaded_parts i db = (Inr ps, db')" and "plain i"
  shows "ps = sort_key up_part_number (filter (\<lambda>p. up_upload_id p = i) (t_parts (udb_tables db))) \<and> udb_tables db' = udb_tables db"
  using assms get_parts_tables [of i db]
  by (auto simp: get_uploaded_parts_def or_error_Inr dest: db_exec_read_Inr)

lemma create_upload_ok:
  assumes ok: "db_ok db" and "upload_plain u"
  shows "db_ok (snd (create_multipart_upload r1 r2 u db))"
proof -
  have "db_ok (snd (db_exec (insert_upload v) db))" if "upload_plain v" for v
    by (rule db_exec_ok [OF ok]) (rule insert_upload_ok [OF ok that])
  then show ?thesis
    using assms(2) unfolding create_multipart_upload_def Let_def
    by (intro bind_res_inv [where P = db_ok]) (simp_all add: upload_plain_def plain_ids)
qed

lemma update_uploads_exec_ok:
  assumes "db_ok db"
    and "\<And>u. mu_upload_id (f u) = mu_upload_id u \<and> mu_total_chunks (f u) = mu_total_chunks u \<and> upload_plain (f u) = upload_plain u"
  shows "db_ok (snd (db_exec (update_uploads i f) db))"
  by (rule db_exec_ok [OF assms(1)]) (rule update_uploads_ok [OF assms(2,1)])

lemma update_status_ok: "db_ok db \<Longrightarrow> plain i \<Longrightarrow> plain s \<Longrightarrow> db_ok (snd (update_multipart_status i s db))"
  unfolding update_multipart_status_def snd_or_error
  by (simp, rule update_uploads_exec_ok) (simp_all add: upload_plain_def)

lemma record_part_ok:
  assumes "db_ok db" and "u \<in> set (t_uploads (udb_tables db))" and "mu_upload_id u = i" and "1 \<le> n" and "n \<le> mu_total_chunks u"
    and "plain e"
  shows "db_ok (snd (record_uploaded_part i n e s db))"
proof -
  let ?row = "\<lparr>up_id = 0, up_upload_id = i, up_part_number = n, up_etag = e, up_size = s, up_uploaded_at = udb_now db\<rparr>"
  have "list_ex (part_of ?row) (t_uploads (udb_tables db))"
    using assms(2-5) by (auto simp: list_ex_iff part_of_def)
  then have ins: "db_ok (snd (db_exec (insert_or_replace_part ?row) db))"
    by (intro db_exec_ok [OF assms(1)]) (rule insert_part_ok [OF assms(1)])
  have upd: "db_ok (snd (db_exec (update_uploads i (\<lambda>u. u\<lparr>mu_updated_at := m\<rparr>)) db'))" if "db_ok db'" for db' m
    using that by (rule update_uploads_exec_ok) (simp add: upload_plain_def)
  have i: "plain i" using sound_upload [OF assms(1,2)] assms(3) by (simp add: upload_plain_def)
  show ?thesis
    unfolding record_uploaded_part_def Let_def
    by (rule bind_res_inv [where P = db_ok]) (simp_all add: ins upd i assms(6) case_prod_beta)
qed

lemma delete_parts_ok: "tables_sound t \<Longrightarrow> tables_sound (t\<lparr>t_parts := filter P (t_parts t)\<rparr>)"
  by (auto simp: tables_sound_def tables_ok_def list_all_iff distinct_map_filter)

lemma delete_upload_ok:
  assumes "db_ok db" and "plain i"
  shows "db_ok (snd (delete_multipart_upload i db))"
proof -
  let ?P = "\<lambda>t. tables_sound t \<and> list_all (\<lambda>p. up_upload_id p \<noteq> i) (t_parts t)"
  let ?del = "\<lambda>t. (Inr (), t\<lparr>t_parts := filter (\<lambda>p. up_upload_id p \<noteq> i) (t_parts t)\<rparr>) :: unit sql_result \<times> db_tables"
  let ?drop = "\<lambda>t. (Inr (), t\<lparr>t_uploads := filter (\<lambda>u. mu_upload_id u \<noteq> i) (t_uploads t)\<rparr>) :: unit sql_result \<times> db_tables"
  have drop: "list_ex (part_of p) (filter (\<lambda>u. mu_upload_id u \<noteq> i) us) = list_ex (part_of p) us" if "up_upload_id p \<noteq> i" for p us
    using that by (induction us) (auto simp: part_of_def)
  have keep: "tables_sound t'" if "?P t" "?drop t = (r, t')" for t r t'
    using that by (auto simp: tables_sound_def tables_ok_def list_all_iff drop distinct_map_filter)
  have first: "db_ok (snd (db_exec ?del db)) \<and> (fst (db_exec ?del db) = Inr () \<longrightarrow> ?P (udb_tables (snd (db_exec ?del db))))"
    using assms delete_parts_ok [OF assms(1), of "\<lambda>p. up_upload_id p \<noteq> i"]
    by (auto simp: db_exec_def list_all_iff split: list.splits option.splits)
  have second: "db_ok (snd (db_exec ?drop db'))" if "?P (udb_tables db')" for db'
    by (rule db_exec_inv) (use that keep [OF that] in auto)
  show ?thesis
    unfolding delete_multipart_upload_def snd_bind_res
    using first second assms(2) by (simp split: sum.split)
qed

lemma insert_file_keeps:
  assumes "db_ok db" and "plain (fi_file_uuid f)" and "plain (fi_file_hash f)" and "plain (fi_file_type f)"
    and "plain (fi_storage_type f)" and "plain (fi_bucket f)" and "nul_free (fi_file_name f)" and "nul_free (fi_object_key f)"
    and "nul_free (fi_metadata f)"
  shows "db_ok (snd (insert_file rnd f db))"
    and "t_uploads (udb_tables (snd (insert_file rnd f db))) = t_uploads (udb_tables db)"
proof -
  have ins: "db_ok (snd (db_exec (insert_file_row v) db))
      \<and> t_uploads (udb_tables (snd (db_exec (insert_file_row v) db))) = t_uploads (udb_tables db)" for v
    by (intro conjI; rule db_exec_inv) (use assms(1) in \<open>auto simp: insert_file_row_def tables_sound_def tables_ok_def split: if_splits\<close>)
  show "db_ok (snd (insert_file rnd f db))"
    unfolding insert_file_def Let_def
    by (rule bind_res_inv [where P = db_ok]) (use assms ins in \<open>simp_all add: plain_ids\<close>)
  show "t_uploads (udb_tables (snd (insert_file rnd f db))) = t_uploads (udb_tables db)"
    unfolding insert_file_def Let_def
    by (rule bind_res_inv [where P = "\<lambda>d. t_uploads (udb_tables d) = t_uploads (udb_tables db)"])
      (use assms ins in \<open>simp_all add: plain_ids\<close>)
qed

end
