(* ===== verification/Chunk_Manager.thy ===== *)
theory Chunk_Manager
  imports Upload_Db Http_Context "HOL-Library.Multiset"
begin

text \<open>
  The multipart upload manager of \<^verbatim>\<open>chunk_manager.v\<close>: starting an upload, its parts with retries, completion, cancellation,
  progress, resumption and cleaning, on the tables of \<open>Upload_Db\<close>.

  The storage provider is an interface of the program with several implementations: here the record
  \<open>storage_provider\<close> of functions over a state of its own, each of which may fail.  MD5 is a function argument.
  Errors are messages, as in the source, because the retry rule reads them.  \<open>cs_slept\<close> records the pauses of the retry loop in
  milliseconds.  The percentage field of the progress (a floating point number for display) is left out.  The division by a
  configured chunk size of zero panics: \<open>init_multipart\<close> is then \<open>None\<close>.

  Identifiers come from clients and are put into the statements without escaping.  The theorems about reachable states therefore
  take operations whose unescaped values hold no quote; \<open>injected_completion\<close> and \<open>injected_part\<close> show what a quote can do.

  Shown here: the ranges of the parts cut the file into consecutive pieces without gap or overlap; a completion hands the
  provider every part number of the upload exactly once in ascending order, whatever uploads, failures and retries
  came before; the retry loop makes a bounded number of attempts; the invariant of the tables is kept by every operation.
\<close>

section \<open>Data\<close>

record chunk_config =
  cc_default_chunk_size :: int
  cc_max_chunk_size :: int
  cc_min_chunk_size :: int
  cc_max_parts :: int
  cc_retry_count :: int
  cc_retry_delay_ms :: int

definition default_chunk_config :: chunk_config where
  "default_chunk_config =
     \<lparr>cc_default_chunk_size = 5 * 1024 * 1024, cc_max_chunk_size = 100 * 1024 * 1024, cc_min_chunk_size = 1024 * 1024,
      cc_max_parts = 10000, cc_retry_count = 3, cc_retry_delay_ms = 1000\<rparr>"

record storage_result =
  sr_success :: bool
  sr_object_key :: string
  sr_etag :: string
  sr_size :: int
  sr_error_msg :: string

definition new_storage_result :: "string \<Rightarrow> string \<Rightarrow> int \<Rightarrow> storage_result" where
  "new_storage_result object_key etag sz =
     \<lparr>sr_success = True, sr_object_key = object_key, sr_etag = etag, sr_size = sz, sr_error_msg = ''''\<rparr>"

record part_info =
  pi_part_number :: int
  pi_etag :: string
  pi_size :: int

definition new_part_info :: "int \<Rightarrow> string \<Rightarrow> int \<Rightarrow> part_info" where
  "new_part_info part_number etag sz = \<lparr>pi_part_number = part_number, pi_etag = etag, pi_size = sz\<rparr>"

record 'p storage_provider =
  sp_init_multipart :: "string \<Rightarrow> string \<Rightarrow> string \<Rightarrow> 'p \<Rightarrow> (string + string) \<times> 'p"
  sp_upload_part :: "string \<Rightarrow> string \<Rightarrow> string \<Rightarrow> int \<Rightarrow> bytes \<Rightarrow> 'p \<Rightarrow> (string + string) \<times> 'p"
  sp_complete_multipart :: "string \<Rightarrow> string \<Rightarrow> string \<Rightarrow> part_info list \<Rightarrow> 'p \<Rightarrow> (string + storage_result) \<times> 'p"
  sp_abort_multipart :: "string \<Rightarrow> string \<Rightarrow> string \<Rightarrow> 'p \<Rightarrow> (string + unit) \<times> 'p"
  sp_provider_name :: string

record upload_progress =
  pr_upload_id :: string
  pr_file_uuid :: string
  pr_file_name :: string
  pr_file_size :: int
  pr_chunk_size :: int
  pr_total_chunks :: int
  pr_uploaded_chunks :: int
  pr_uploaded_bytes :: int
  pr_status :: string
  pr_pending_parts :: "int list"
  pr_created_at :: int
  pr_updated_at :: int

record init_params =
  ip_bucket :: string
  ip_object_key :: string
  ip_file_name :: string
  ip_file_size :: int
  ip_content_type :: string
  ip_chunk_size :: int

record chunk_result =
  cr_upload_id :: string
  cr_part_number :: int
  cr_etag :: string
  cr_size :: int
  cr_success :: bool
  cr_error_msg :: string

definition failed_chunk :: "string \<Rightarrow> int \<Rightarrow> string \<Rightarrow> chunk_result" where
  "failed_chunk upload_id part_number msg =
     \<lparr>cr_upload_id = upload_id, cr_part_number = part_number, cr_etag = '''', cr_size = 0, cr_success = False, cr_error_msg = msg\<rparr>"

record 'p chunk_manager =
  cs_db :: upload_db
  cs_store :: 'p
  cs_slept :: "int list"

text \<open>An operation of the database or of the provider, as a step of the manager.\<close>

definition on_db :: "(upload_db \<Rightarrow> 'a \<times> upload_db) \<Rightarrow> 'p chunk_manager \<Rightarrow> 'a \<times> 'p chunk_manager" where
  "on_db f s = (let (r, db) = f (cs_db s) in (r, s\<lparr>cs_db := db\<rparr>))"

definition on_store :: "('p \<Rightarrow> 'a \<times> 'p) \<Rightarrow> 'p chunk_manager \<Rightarrow> 'a \<times> 'p chunk_manager" where
  "on_store f s = (let (r, p) = f (cs_store s) in (r, s\<lparr>cs_store := p\<rparr>))"

section \<open>Helpers\<close>

definition validate_chunk_size :: "chunk_config \<Rightarrow> int \<Rightarrow> int" where
  "validate_chunk_size cfg sz =
     (if sz < cc_min_chunk_size cfg then cc_min_chunk_size cfg
      else if sz > cc_max_chunk_size cfg then cc_max_chunk_size cfg
      else sz)"

definition v_rem :: "int \<Rightarrow> int \<Rightarrow> int" where
  "v_rem a b = a - b * v_quot a b"

text \<open>The division panics for a chunk size of zero: \<open>None\<close>.\<close>

definition calculate_total_chunks :: "int \<Rightarrow> int \<Rightarrow> int option" where
  "calculate_total_chunks file_size chunk_size =
     (if chunk_size = 0 then None
      else let chunks = v_quot file_size chunk_size in
        Some (if v_rem file_size chunk_size > 0 then wrap_i32 (wrap_i32 chunks + 1) else wrap_i32 chunks))"

definition retryable_keywords :: "string list" where
  "retryable_keywords = [''timeout'', ''connection'', ''network'', ''unavailable'', ''rate limit'', ''temporary'']"

definition is_retryable_error :: "string \<Rightarrow> bool" where
  "is_retryable_error error_msg = list_ex (v_contains_str (v_to_lower error_msg)) retryable_keywords"

definition calculate_chunk_file_hash :: "(string \<Rightarrow> bytes) \<Rightarrow> string \<Rightarrow> int \<Rightarrow> string" where
  "calculate_chunk_file_hash md5 upload_id file_size = concat (map hex_byte (md5 (upload_id @ ''-'' @ v_str file_size)))"

section \<open>Core operations\<close>

text \<open>\<open>None\<close> is the panic of a configured chunk size of zero.\<close>

definition init_multipart ::
  "'p storage_provider \<Rightarrow> chunk_config \<Rightarrow> bytes option \<Rightarrow> bytes option \<Rightarrow> init_params \<Rightarrow> 'p chunk_manager
   \<Rightarrow> ((string + multipart_upload) \<times> 'p chunk_manager) option" where
  "init_multipart sp cfg rnd_id rnd_uuid params s =
     (if ip_bucket params = '''' then Some (Inl ''Bucket name is required'', s)
      else if ip_object_key params = '''' then Some (Inl ''Object key is required'', s)
      else if ip_file_size params \<le> 0 then Some (Inl ''File size must be positive'', s)
      else
        let chunk_size = (if ip_chunk_size params > 0 then validate_chunk_size cfg (ip_chunk_size params)
                          else cc_default_chunk_size cfg)
        in case calculate_total_chunks (ip_file_size params) chunk_size of
             None \<Rightarrow> None
           | Some total_chunks \<Rightarrow> Some
               (if total_chunks > cc_max_parts cfg
                then (Inl (''File too large: would require '' @ v_str total_chunks @ '' parts, max is '' @ v_str (cc_max_parts cfg)), s)
                else bind_res (on_store (sp_init_multipart sp (ip_bucket params) (ip_object_key params) (ip_content_type params)) s)
                  (\<lambda>provider_upload_id. on_db (create_multipart_upload rnd_id rnd_uuid
                     \<lparr>mu_id = 0, mu_upload_id = provider_upload_id, mu_file_uuid = '''', mu_file_name = ip_file_name params,
                      mu_file_size = ip_file_size params, mu_chunk_size = chunk_size, mu_total_chunks = total_chunks,
                      mu_bucket = ip_bucket params, mu_object_key = ip_object_key params, mu_content_type = ip_content_type params,
                      mu_status = '''', mu_created_at = 0, mu_updated_at = 0\<rparr>))))"

definition upload_part ::
  "'p storage_provider \<Rightarrow> string \<Rightarrow> int \<Rightarrow> bytes \<Rightarrow> 'p chunk_manager \<Rightarrow> chunk_result \<times> 'p chunk_manager" where
  "upload_part sp upload_id part_number data s =
     (case on_db (get_multipart_upload upload_id) s of
        (Inl _, s) \<Rightarrow> (failed_chunk upload_id part_number (''Upload not found: '' @ upload_id), s)
      | (Inr upload, s) \<Rightarrow>
        if mu_status upload \<noteq> ''uploading''
        then (failed_chunk upload_id part_number (''Upload is not in uploading state: '' @ mu_status upload), s)
        else if part_number < 1 \<or> part_number > mu_total_chunks upload
        then (failed_chunk upload_id part_number
                (''Invalid part number: '' @ v_str part_number @ '', expected 1-'' @ v_str (mu_total_chunks upload)), s)
        else
      (case on_store (sp_upload_part sp (mu_bucket upload) (mu_object_key upload) upload_id part_number data) s of
        (Inl err, s) \<Rightarrow> (failed_chunk upload_id part_number (''Failed to upload part: '' @ err), s)
      | (Inr etag, s) \<Rightarrow>
      (case on_db (record_uploaded_part upload_id part_number etag (int (length data))) s of
        (Inl err, s) \<Rightarrow> (failed_chunk upload_id part_number (''Failed to record uploaded part: '' @ err), s)
      | (Inr _, s) \<Rightarrow>
        (\<lparr>cr_upload_id = upload_id, cr_part_number = part_number, cr_etag = etag, cr_size = int (length data), cr_success = True,
          cr_error_msg = ''''\<rparr>, s))))"

definition parts_of_rows :: "uploaded_part list \<Rightarrow> part_info list" where
  "parts_of_rows rows =
     sort_key pi_part_number (map (\<lambda>p. new_part_info (up_part_number p) (up_etag p) (up_size p)) rows)"

text \<open>The row of the file that a completion adds.\<close>

definition completed_file :: "'p storage_provider \<Rightarrow> (string \<Rightarrow> bytes) \<Rightarrow> string \<Rightarrow> multipart_upload \<Rightarrow> file_info" where
  "completed_file sp md5 upload_id upload =
     no_file_info\<lparr>fi_file_uuid := mu_file_uuid upload,
       fi_file_hash := calculate_chunk_file_hash md5 upload_id (mu_file_size upload),
       fi_file_name := mu_file_name upload, fi_file_size := mu_file_size upload, fi_file_type := mu_content_type upload,
       fi_storage_type := sp_provider_name sp, fi_bucket := mu_bucket upload, fi_object_key := mu_object_key upload\<rparr>"

definition complete_multipart ::
  "'p storage_provider \<Rightarrow> (string \<Rightarrow> bytes) \<Rightarrow> bytes option \<Rightarrow> string \<Rightarrow> 'p chunk_manager
   \<Rightarrow> (string + storage_result) \<times> 'p chunk_manager" where
  "complete_multipart sp md5 rnd upload_id s =
     bind_res (on_db (get_multipart_upload upload_id) s) (\<lambda>upload s.
       if mu_status upload \<noteq> ''uploading'' then (Inl (''Upload is not in uploading state: '' @ mu_status upload), s)
       else bind_res (on_db (get_uploaded_parts upload_id) s) (\<lambda>uploaded_parts s.
         if int (length uploaded_parts) \<noteq> mu_total_chunks upload
         then (Inl (''Not all parts uploaded: '' @ v_str (int (length uploaded_parts)) @ ''/'' @ v_str (mu_total_chunks upload)), s)
         else bind_res (on_store (sp_complete_multipart sp (mu_bucket upload) (mu_object_key upload) upload_id
                (parts_of_rows uploaded_parts)) s) (\<lambda>result s.
           bind_res (on_db (update_multipart_status upload_id ''completed'') s) (\<lambda>_ s.
             let (_, s) = on_db (insert_file rnd (completed_file sp md5 upload_id upload)) s
             in (Inr result, s)))))"

definition abort_multipart ::
  "'p storage_provider \<Rightarrow> string \<Rightarrow> 'p chunk_manager \<Rightarrow> (string + unit) \<times> 'p chunk_manager" where
  "abort_multipart sp upload_id s =
     (case on_db (get_multipart_upload upload_id) s of
        (Inl _, s) \<Rightarrow> (Inl (''Upload not found: '' @ upload_id), s)
      | (Inr upload, s) \<Rightarrow>
        let (_, s) = on_store (sp_abort_multipart sp (mu_bucket upload) (mu_object_key upload) upload_id) s
        in bind_res (on_db (update_multipart_status upload_id ''aborted'') s)
             (\<lambda>_. on_db (delete_multipart_upload upload_id)))"

section \<open>Progress\<close>

definition get_upload_progress :: "string \<Rightarrow> 'p chunk_manager \<Rightarrow> (string + upload_progress) \<times> 'p chunk_manager" where
  "get_upload_progress upload_id s =
     bind_res (on_db (get_multipart_upload upload_id) s) (\<lambda>upload s.
       bind_res (on_db (get_uploaded_parts upload_id) s) (\<lambda>uploaded_parts s.
         (Inr \<lparr>pr_upload_id = upload_id, pr_file_uuid = mu_file_uuid upload, pr_file_name = mu_file_name upload,
           pr_file_size = mu_file_size upload, pr_chunk_size = mu_chunk_size upload, pr_total_chunks = mu_total_chunks upload,
           pr_uploaded_chunks = int (length uploaded_parts),
           pr_uploaded_bytes = foldl (\<lambda>b part. wrap_i64 (b + up_size part)) 0 uploaded_parts, pr_status = mu_status upload,
           pr_pending_parts = filter (\<lambda>i. i \<notin> up_part_number ` set uploaded_parts) [1..mu_total_chunks upload],
           pr_created_at = mu_created_at upload, pr_updated_at = mu_updated_at upload\<rparr>, s)))"

definition get_pending_parts :: "string \<Rightarrow> 'p chunk_manager \<Rightarrow> (string + int list) \<times> 'p chunk_manager" where
  "get_pending_parts upload_id s = bind_res (get_upload_progress upload_id s) (\<lambda>progress s. (Inr (pr_pending_parts progress), s))"

definition can_complete :: "string \<Rightarrow> 'p chunk_manager \<Rightarrow> bool \<times> 'p chunk_manager" where
  "can_complete upload_id s =
     (case get_upload_progress upload_id s of
        (Inl _, s) \<Rightarrow> (False, s)
      | (Inr progress, s) \<Rightarrow> (length (pr_pending_parts progress) = 0 \<and> pr_status progress = ''uploading'', s))"

section \<open>Retries\<close>

text \<open>The loop over the attempts; \<open>left\<close> is the number of attempts that remain.\<close>

fun retry_loop ::
  "'p storage_provider \<Rightarrow> nat \<Rightarrow> string \<Rightarrow> int \<Rightarrow> bytes \<Rightarrow> int \<Rightarrow> string \<Rightarrow> 'p chunk_manager \<Rightarrow> chunk_result \<times> 'p chunk_manager" where
  "retry_loop sp 0 upload_id part_number data delay last_error s =
     (failed_chunk upload_id part_number (''All retry attempts failed: '' @ last_error), s)"
| "retry_loop sp (Suc left) upload_id part_number data delay last_error s =
     (let (result, s) = upload_part sp upload_id part_number data s in
      if cr_success result then (result, s)
      else if \<not> is_retryable_error (cr_error_msg result) then (result, s)
      else if left > 0 then
        let s = s\<lparr>cs_slept := cs_slept s @ [delay]\<rparr>;
            delay = wrap_i32 (delay * 2);
            delay = (if delay > 30000 then 30000 else delay)
        in retry_loop sp left upload_id part_number data delay (cr_error_msg result) s
      else retry_loop sp left upload_id part_number data delay (cr_error_msg result) s)"

definition retry_upload_part ::
  "'p storage_provider \<Rightarrow> chunk_config \<Rightarrow> string \<Rightarrow> int \<Rightarrow> bytes \<Rightarrow> 'p chunk_manager \<Rightarrow> chunk_result \<times> 'p chunk_manager" where
  "retry_upload_part sp cfg upload_id part_number data s =
     retry_loop sp (nat (cc_retry_count cfg + 1)) upload_id part_number data (cc_retry_delay_ms cfg) '''' s"

fun upload_each ::
  "'p storage_provider \<Rightarrow> chunk_config \<Rightarrow> string \<Rightarrow> (int \<Rightarrow> string + bytes) \<Rightarrow> int list \<Rightarrow> 'p chunk_manager
   \<Rightarrow> chunk_result list \<times> 'p chunk_manager" where
  "upload_each sp cfg upload_id data_provider [] s = ([], s)"
| "upload_each sp cfg upload_id data_provider (part_number # rest) s =
     (case data_provider part_number of
        Inl err \<Rightarrow>
          let (rs, s) = upload_each sp cfg upload_id data_provider rest s
          in (failed_chunk upload_id part_number (''Failed to get data for part '' @ v_str part_number @ '': '' @ err) # rs, s)
      | Inr data \<Rightarrow>
          let (result, s) = retry_upload_part sp cfg upload_id part_number data s;
              (rs, s) = upload_each sp cfg upload_id data_provider rest s
          in (result # rs, s))"

definition upload_pending_parts ::
  "'p storage_provider \<Rightarrow> chunk_config \<Rightarrow> string \<Rightarrow> (int \<Rightarrow> string + bytes) \<Rightarrow> 'p chunk_manager
   \<Rightarrow> (string + chunk_result list) \<times> 'p chunk_manager" where
  "upload_pending_parts sp cfg upload_id data_provider s =
     bind_res (get_pending_parts upload_id s) (\<lambda>pending_parts s.
       let (rs, s) = upload_each sp cfg upload_id data_provider pending_parts s in (Inr rs, s))"

section \<open>Ranges\<close>

definition part_range :: "multipart_upload \<Rightarrow> int \<Rightarrow> string + (int \<times> int)" where
  "part_range upload part_number =
     (if part_number < 1 \<or> part_number > mu_total_chunks upload then Inl (''Invalid part number: '' @ v_str part_number)
      else
        let start = wrap_i64 ((part_number - 1) * mu_chunk_size upload);
            stop = wrap_i64 (start + mu_chunk_size upload - 1)
        in Inr (start, if stop \<ge> mu_file_size upload then mu_file_size upload - 1 else stop))"

definition get_part_range :: "string \<Rightarrow> int \<Rightarrow> 'p chunk_manager \<Rightarrow> (string + (int \<times> int)) \<times> 'p chunk_manager" where
  "get_part_range upload_id part_number s =
     bind_res (on_db (get_multipart_upload upload_id) s) (\<lambda>upload s. (part_range upload part_number, s))"

definition get_expected_part_size :: "string \<Rightarrow> int \<Rightarrow> 'p chunk_manager \<Rightarrow> (string + int) \<times> 'p chunk_manager" where
  "get_expected_part_size upload_id part_number s =
     bind_res (get_part_range upload_id part_number s) (\<lambda>(start, stop) s. (Inr (wrap_i64 (wrap_i64 (stop - start) + 1)), s))"

section \<open>Resuming and cleaning\<close>

record resume_info =
  ri_upload_id :: string
  ri_file_uuid :: string
  ri_file_name :: string
  ri_file_size :: int
  ri_chunk_size :: int
  ri_total_chunks :: int
  ri_uploaded_chunks :: int
  ri_pending_parts :: "int list"
  ri_can_resume :: bool
  ri_error_msg :: string

definition resume_of :: "multipart_upload \<Rightarrow> string \<Rightarrow> int \<Rightarrow> int list \<Rightarrow> bool \<Rightarrow> string \<Rightarrow> resume_info" where
  "resume_of upload upload_id uploaded pending ok msg =
     \<lparr>ri_upload_id = upload_id, ri_file_uuid = mu_file_uuid upload, ri_file_name = mu_file_name upload,
      ri_file_size = mu_file_size upload, ri_chunk_size = mu_chunk_size upload, ri_total_chunks = mu_total_chunks upload,
      ri_uploaded_chunks = uploaded, ri_pending_parts = pending, ri_can_resume = ok, ri_error_msg = msg\<rparr>"

definition get_resume_info :: "string \<Rightarrow> 'p chunk_manager \<Rightarrow> resume_info \<times> 'p chunk_manager" where
  "get_resume_info upload_id s =
     (case on_db (get_multipart_upload upload_id) s of
        (Inl _, s) \<Rightarrow>
          (\<lparr>ri_upload_id = upload_id, ri_file_uuid = '''', ri_file_name = '''', ri_file_size = 0, ri_chunk_size = 0, ri_total_chunks = 0,
            ri_uploaded_chunks = 0, ri_pending_parts = [], ri_can_resume = False, ri_error_msg = ''Upload not found: '' @ upload_id\<rparr>, s)
      | (Inr upload, s) \<Rightarrow>
        if mu_status upload \<noteq> ''uploading''
        then (resume_of upload upload_id 0 [] False (''Upload is in '' @ mu_status upload @ '' state, cannot resume''), s)
        else
      (case get_upload_progress upload_id s of
        (Inl err, s) \<Rightarrow> (resume_of upload upload_id 0 [] False (''Failed to get upload progress: '' @ err), s)
      | (Inr progress, s) \<Rightarrow>
          (resume_of upload upload_id (pr_uploaded_chunks progress) (pr_pending_parts progress) True '''', s)))"

definition find_resumable_upload ::
  "string \<Rightarrow> int \<Rightarrow> 'p chunk_manager \<Rightarrow> multipart_upload option \<times> 'p chunk_manager" where
  "find_resumable_upload file_name file_size s =
     (case on_db list_pending_multipart_uploads s of
        (Inl _, s) \<Rightarrow> (None, s)
      | (Inr pending, s) \<Rightarrow> (List.find (\<lambda>u. mu_file_name u = file_name \<and> mu_file_size u = file_size) pending, s))"

fun cleanup_each ::
  "'p storage_provider \<Rightarrow> int \<Rightarrow> int \<Rightarrow> multipart_upload list \<Rightarrow> 'p chunk_manager \<Rightarrow> int \<times> 'p chunk_manager" where
  "cleanup_each sp now max_age [] s = (0, s)"
| "cleanup_each sp now max_age (upload # rest) s =
     (if wrap_i64 (now - mu_updated_at upload) > max_age then
        (case abort_multipart sp (mu_upload_id upload) s of
           (Inl _, s) \<Rightarrow> cleanup_each sp now max_age rest s
         | (Inr _, s) \<Rightarrow> let (n, s) = cleanup_each sp now max_age rest s in (n + 1, s))
      else cleanup_each sp now max_age rest s)"

definition cleanup_stale_uploads ::
  "'p storage_provider \<Rightarrow> int \<Rightarrow> 'p chunk_manager \<Rightarrow> (string + int) \<times> 'p chunk_manager" where
  "cleanup_stale_uploads sp max_age_seconds s =
     bind_res (on_db list_pending_multipart_uploads s) (\<lambda>pending s.
       let (n, s) = cleanup_each sp (udb_now (cs_db s)) max_age_seconds pending s in (Inr n, s))"

record upload_status_report =
  usr_upload_id :: string
  usr_status :: string
  usr_file_name :: string
  usr_file_size :: int
  usr_total_chunks :: int
  usr_uploaded_chunks :: int
  usr_pending_chunks :: int
  usr_uploaded_bytes :: int
  usr_remaining_bytes :: int
  usr_estimated_time_ms :: int
  usr_can_complete :: bool
  usr_can_resume :: bool

definition get_status_report :: "string \<Rightarrow> 'p chunk_manager \<Rightarrow> (string + upload_status_report) \<times> 'p chunk_manager" where
  "get_status_report upload_id s =
     bind_res (get_upload_progress upload_id s) (\<lambda>progress s.
       (Inr \<lparr>usr_upload_id = upload_id, usr_status = pr_status progress, usr_file_name = pr_file_name progress,
         usr_file_size = pr_file_size progress, usr_total_chunks = pr_total_chunks progress,
         usr_uploaded_chunks = pr_uploaded_chunks progress, usr_pending_chunks = int (length (pr_pending_parts progress)),
         usr_uploaded_bytes = pr_uploaded_bytes progress, usr_remaining_bytes = wrap_i64 (pr_file_size progress - pr_uploaded_bytes progress),
         usr_estimated_time_ms = 0,
         usr_can_complete = (length (pr_pending_parts progress) = 0 \<and> pr_status progress = ''uploading''),
         usr_can_resume = (pr_status progress = ''uploading'' \<and> length (pr_pending_parts progress) > 0)\<rparr>, s))"

section \<open>The parts cut the file\<close>

lemma total_chunks_ceiling:
  assumes "0 < fs" and "0 < cs" and "(fs + cs - 1) div cs < 2 ^ 31"
  shows "calculate_total_chunks fs cs = Some ((fs + cs - 1) div cs)"
proof -
  have q: "v_quot fs cs = fs div cs" and r: "v_rem fs cs = fs mod cs"
    using assms(1,2) by (simp_all add: v_quot_def v_rem_def minus_mult_div_eq_mod)
  have nonneg: "0 \<le> fs div cs" using assms(1,2) by (simp add: pos_imp_zdiv_nonneg_iff)
  show ?thesis
  proof (cases "fs mod cs > 0")
    case True
    have "fs = fs div cs * cs + fs mod cs" "(fs div cs + 1) * cs = fs div cs * cs + cs" by (simp_all add: distrib_right)
    then have split: "fs + cs - 1 = (fs mod cs - 1) + (fs div cs + 1) * cs" by linarith
    have "0 \<le> fs mod cs - 1 \<and> fs mod cs - 1 < cs" using True pos_mod_bound [OF assms(2), of fs] by linarith
    then have up: "(fs + cs - 1) div cs = fs div cs + 1"
      using assms(2) unfolding split by (subst div_mult_self1) (auto simp: div_pos_pos_trivial)
    with assms(3) nonneg True show ?thesis
      using assms(2) by (simp add: calculate_total_chunks_def q r wrap_i32_id Let_def)
  next
    case False
    then have m: "fs mod cs = 0" using pos_mod_sign [OF assms(2), of fs] by linarith
    have "fs = fs div cs * cs + fs mod cs" by simp
    with m have split: "fs + cs - 1 = (cs - 1) + fs div cs * cs" by linarith
    have up: "(fs + cs - 1) div cs = fs div cs"
      using assms(2) unfolding split by (subst div_mult_self1) auto
    with assms(3) nonneg m show ?thesis
      using assms(2) by (simp add: calculate_total_chunks_def q r wrap_i32_id Let_def)
  qed
qed

lemma ceiling_bounds:
  fixes fs cs :: int
  assumes "0 < fs" and "0 < cs"
  shows "fs \<le> (fs + cs - 1) div cs * cs" and "((fs + cs - 1) div cs - 1) * cs < fs" and "0 < (fs + cs - 1) div cs"
proof -
  let ?n = "(fs + cs - 1) div cs"
  have eq: "fs + cs - 1 = ?n * cs + (fs + cs - 1) mod cs" by simp
  have m: "0 \<le> (fs + cs - 1) mod cs" "(fs + cs - 1) mod cs < cs" using assms(2) by simp_all
  show "fs \<le> ?n * cs" using eq m by linarith
  then show "0 < ?n" using assms by (smt (verit) zero_less_mult_pos2)
  show "(?n - 1) * cs < fs" unfolding left_diff_distrib using eq m by linarith
qed

text \<open>Uploads with positive sizes in range, whose number of parts is computed without being cut to 32 bits.  The lemma
  \<open>init_upload_sized\<close> below shows that \<^verbatim>\<open>init_multipart\<close> records such uploads when the count fits in 32 bits; it also records
  others (\<open>total_chunks_wraps\<close>).\<close>

definition upload_sized :: "multipart_upload \<Rightarrow> bool" where
  "upload_sized u \<longleftrightarrow>
     0 < mu_file_size u \<and> 0 < mu_chunk_size u \<and> mu_file_size u + mu_chunk_size u < 2 ^ 63
     \<and> (mu_file_size u + mu_chunk_size u - 1) div mu_chunk_size u < 2 ^ 31
     \<and> calculate_total_chunks (mu_file_size u) (mu_chunk_size u) = Some (mu_total_chunks u)"

lemma part_range_eq:
  assumes "upload_sized u" and "1 \<le> i" and "i \<le> mu_total_chunks u"
  shows "part_range u i = Inr ((i - 1) * mu_chunk_size u, min (i * mu_chunk_size u) (mu_file_size u) - 1)"
    and "(i - 1) * mu_chunk_size u < mu_file_size u"
proof -
  let ?fs = "mu_file_size u" and ?cs = "mu_chunk_size u"
  have pos: "0 < ?fs" "0 < ?cs" and lim: "?fs + ?cs < 2 ^ 63"
    and n: "mu_total_chunks u = (?fs + ?cs - 1) div ?cs"
    using assms(1) by (auto simp: upload_sized_def total_chunks_ceiling)
  have "(i - 1) * ?cs \<le> (mu_total_chunks u - 1) * ?cs" using assms(3) pos by (simp add: mult_right_mono)
  with ceiling_bounds(2) [OF pos] show lt: "(i - 1) * ?cs < ?fs" unfolding n by linarith
  have "0 \<le> (i - 1) * ?cs" using assms(2) pos by simp
  then have w: "wrap_i64 ((i - 1) * ?cs) = (i - 1) * ?cs" "wrap_i64 ((i - 1) * ?cs + ?cs - 1) = (i - 1) * ?cs + ?cs - 1"
    using lt lim pos by (simp_all add: wrap_i64_id)
  have "i * ?cs = (i - 1) * ?cs + ?cs" by (simp add: left_diff_distrib)
  with w assms(2,3) show "part_range u i = Inr ((i - 1) * ?cs, min (i * ?cs) ?fs - 1)"
    by (simp add: part_range_def Let_def min_def)
qed

definition range_bytes :: "string + (int \<times> int) \<Rightarrow> int list" where
  "range_bytes r = (case r of Inl _ \<Rightarrow> [] | Inr (a, b) \<Rightarrow> [a..b])"

lemma ranges_prefix:
  assumes "upload_sized u" and "int k \<le> mu_total_chunks u"
  shows "concat (map (\<lambda>i. range_bytes (part_range u i)) [1..int k]) = [0..min (int k * mu_chunk_size u) (mu_file_size u) - 1]"
  using assms(2)
proof (induction k)
  case 0
  have "0 \<le> mu_file_size u" using assms(1) by (simp add: upload_sized_def)
  then show ?case by simp
next
  case (Suc k)
  let ?fs = "mu_file_size u" and ?cs = "mu_chunk_size u"
  have pos: "0 < ?cs" using assms(1) by (simp add: upload_sized_def)
  have r: "part_range u (int (Suc k)) = Inr (int k * ?cs, min (int (Suc k) * ?cs) ?fs - 1)" and lt: "int k * ?cs < ?fs"
    using part_range_eq [OF assms(1), of "int (Suc k)"] Suc.prems by auto
  have up: "[1..int (Suc k)] = [1..int k] @ [int (Suc k)]" by (simp add: upto_rec2)
  have ih: "concat (map (\<lambda>i. range_bytes (part_range u i)) [1..int k]) = [0..int k * ?cs - 1]"
    using Suc.IH Suc.prems lt by (simp add: min_def)
  have "int k * ?cs \<le> min (int (Suc k) * ?cs) ?fs - 1" using lt pos by (auto simp: min_def algebra_simps)
  moreover have "0 \<le> int k * ?cs" using pos by simp
  ultimately have "[0..int k * ?cs - 1] @ [int k * ?cs..min (int (Suc k) * ?cs) ?fs - 1]
      = [0..min (int (Suc k) * ?cs) ?fs - 1]"
    using upto_split1 [of 0 "int k * ?cs" "min (int (Suc k) * ?cs) ?fs - 1"] by simp
  with up ih r show ?case by (simp add: range_bytes_def del: of_nat_Suc)
qed

text \<open>C29: the byte ranges that the manager gives to the parts of an upload, one after the other, are the bytes of the file
  in order: no gap, no overlap, nothing beyond the end; and every part is non-empty and at most as long as the chunk size.\<close>

theorem part_ranges_partition:
  assumes "upload_sized u"
  shows "concat (map (\<lambda>i. range_bytes (part_range u i)) [1..mu_total_chunks u]) = [0..mu_file_size u - 1]
    \<and> list_all (\<lambda>i. 1 \<le> length (range_bytes (part_range u i)) \<and> int (length (range_bytes (part_range u i))) \<le> mu_chunk_size u)
        [1..mu_total_chunks u]"
proof -
  let ?fs = "mu_file_size u" and ?cs = "mu_chunk_size u"
  have pos: "0 < ?fs" "0 < ?cs" and n: "mu_total_chunks u = (?fs + ?cs - 1) div ?cs"
    using assms by (auto simp: upload_sized_def total_chunks_ceiling)
  have "0 < mu_total_chunks u" "?fs \<le> mu_total_chunks u * ?cs" using ceiling_bounds [OF pos] n by simp_all
  then have "concat (map (\<lambda>i. range_bytes (part_range u i)) [1..mu_total_chunks u]) = [0..?fs - 1]"
    using ranges_prefix [OF assms, of "nat (mu_total_chunks u)"] by (simp add: min_def)
  moreover have "1 \<le> length (range_bytes (part_range u i)) \<and> int (length (range_bytes (part_range u i))) \<le> ?cs"
    if "1 \<le> i" "i \<le> mu_total_chunks u" for i
  proof -
    have "i * ?cs = (i - 1) * ?cs + ?cs" by (simp add: left_diff_distrib)
    then show ?thesis
      using part_range_eq [OF assms that] pos by (auto simp: range_bytes_def min_def)
  qed
  ultimately show ?thesis by (auto simp: list_all_iff)
qed

definition demo_upload :: "string \<Rightarrow> multipart_upload" where
  "demo_upload i =
     \<lparr>mu_id = 1, mu_upload_id = i, mu_file_uuid = ''f'', mu_file_name = ''a.bin'', mu_file_size = 10, mu_chunk_size = 4, mu_total_chunks = 3,
      mu_bucket = ''b'', mu_object_key = ''k'', mu_content_type = '''', mu_status = ''uploading'', mu_created_at = 0, mu_updated_at = 0\<rparr>"

theorem part_ranges_partition_witness:
  "range_bytes (part_range (demo_upload ''u'') 1) @ range_bytes (part_range (demo_upload ''u'') 2)
   @ range_bytes (part_range (demo_upload ''u'') 3) = [0, 1, 2, 3, 4, 5, 6, 7, 8, 9]"
proof -
  have "upload_sized (demo_upload ''u'')" by code_simp
  from part_ranges_partition [OF this] show ?thesis
    by (simp add: demo_upload_def upto.simps [of _ "3::int"] upto.simps [of _ "9::int"])
qed

text \<open>The number of parts is cut to 32 bits before it is compared with the limit: a size beyond the range is taken for few
  parts, or none.\<close>

lemma total_chunks_wraps: "calculate_total_chunks (2 ^ 52) (2 ^ 20) = Some 0"
  by code_simp

text \<open>A manager configured with a chunk size of zero panics when an upload is started.\<close>

lemma total_chunks_panics: "calculate_total_chunks fs 0 = None"
  by (simp add: calculate_total_chunks_def)

section \<open>Reachable states\<close>

text \<open>The values of a request that become unescaped parts of statements hold no quote, and none holds a zero byte; the same for
  the identifiers and entity tags that the provider hands out and for its name.\<close>

definition params_plain :: "init_params \<Rightarrow> bool" where
  "params_plain params \<longleftrightarrow>
     plain (ip_bucket params) \<and> plain (ip_content_type params) \<and> nul_free (ip_object_key params) \<and> nul_free (ip_file_name params)"

definition provider_plain :: "'p storage_provider \<Rightarrow> bool" where
  "provider_plain sp \<longleftrightarrow>
     plain (sp_provider_name sp)
     \<and> (\<forall>b k t p i p'. sp_init_multipart sp b k t p = (Inr i, p') \<longrightarrow> plain i)
     \<and> (\<forall>b k i n data p e p'. sp_upload_part sp b k i n data p = (Inr e, p') \<longrightarrow> plain e)"

lemma provider_plainD:
  assumes "provider_plain sp"
  shows "plain (sp_provider_name sp)"
    and "sp_init_multipart sp b k t p = (Inr i, p') \<Longrightarrow> plain i"
    and "sp_upload_part sp b k j n data p = (Inr e, p') \<Longrightarrow> plain e"
  using assms unfolding provider_plain_def by blast+

text \<open>Everything that can happen to a manager: its operations with any plain identifiers and any arguments else, and, in between,
  time passing and the database getting any sequence of failures to come.\<close>

inductive cm_reachable :: "'p storage_provider \<Rightarrow> chunk_config \<Rightarrow> (string \<Rightarrow> bytes) \<Rightarrow> 'p chunk_manager \<Rightarrow> bool"
  for sp :: "'p storage_provider" and cfg :: chunk_config and md5 :: "string \<Rightarrow> bytes" where
  cm_start: "cm_reachable sp cfg md5 \<lparr>cs_db = new_database_manager engine faults now, cs_store = p, cs_slept = []\<rparr>"
| cm_environment: "cm_reachable sp cfg md5 s \<Longrightarrow>
    cm_reachable sp cfg md5 (s\<lparr>cs_db := (cs_db s)\<lparr>udb_now := now, udb_faults := faults\<rparr>, cs_store := p\<rparr>)"
| cm_init: "cm_reachable sp cfg md5 s \<Longrightarrow> params_plain params \<Longrightarrow> init_multipart sp cfg r1 r2 params s = Some (r, s') \<Longrightarrow>
    cm_reachable sp cfg md5 s'"
| cm_upload: "cm_reachable sp cfg md5 s \<Longrightarrow> plain i \<Longrightarrow> cm_reachable sp cfg md5 (snd (upload_part sp i n data s))"
| cm_retry: "cm_reachable sp cfg md5 s \<Longrightarrow> plain i \<Longrightarrow> cm_reachable sp cfg md5 (snd (retry_upload_part sp cfg i n data s))"
| cm_pending: "cm_reachable sp cfg md5 s \<Longrightarrow> plain i \<Longrightarrow> cm_reachable sp cfg md5 (snd (upload_pending_parts sp cfg i f s))"
| cm_complete: "cm_reachable sp cfg md5 s \<Longrightarrow> plain i \<Longrightarrow> cm_reachable sp cfg md5 (snd (complete_multipart sp md5 rnd i s))"
| cm_abort: "cm_reachable sp cfg md5 s \<Longrightarrow> plain i \<Longrightarrow> cm_reachable sp cfg md5 (snd (abort_multipart sp i s))"
| cm_cleanup: "cm_reachable sp cfg md5 s \<Longrightarrow> cm_reachable sp cfg md5 (snd (cleanup_stale_uploads sp age s))"

abbreviation cm_ok :: "'p chunk_manager \<Rightarrow> bool" where
  "cm_ok s \<equiv> db_ok (cs_db s)"

lemma on_db_sel [simp]: "cs_db (snd (on_db f s)) = snd (f (cs_db s))" "fst (on_db f s) = fst (f (cs_db s))"
  "cs_store (snd (on_db f s)) = cs_store s" "cs_slept (snd (on_db f s)) = cs_slept s"
  by (simp_all add: on_db_def case_prod_beta Let_def)

lemma on_store_sel [simp]: "cs_db (snd (on_store f s)) = cs_db s" "fst (on_store f s) = fst (f (cs_store s))"
  "cs_store (snd (on_store f s)) = snd (f (cs_store s))" "cs_slept (snd (on_store f s)) = cs_slept s"
  by (simp_all add: on_store_def case_prod_beta Let_def)

lemma on_db_eq:
  "on_db f s = (r, s') \<Longrightarrow> f (cs_db s) = (r, cs_db s') \<and> cs_store s' = cs_store s \<and> cs_slept s' = cs_slept s"
  by (auto simp: on_db_def split: prod.splits)

lemma on_store_eq:
  "on_store f s = (r, s') \<Longrightarrow> f (cs_store s) = (r, cs_store s') \<and> cs_db s' = cs_db s \<and> cs_slept s' = cs_slept s"
  by (auto simp: on_store_def split: prod.splits)

text \<open>What \<^verbatim>\<open>init_multipart\<close> records.\<close>

lemma create_upload_row:
  assumes "create_multipart_upload r1 r2 u db = (Inr v, db')"
  shows "mu_file_size v = mu_file_size u \<and> mu_chunk_size v = mu_chunk_size u \<and> mu_total_chunks v = mu_total_chunks u"
  using assms by (auto simp: create_multipart_upload_def bind_res_Inr Let_def)

lemma init_upload_sized:
  assumes "init_multipart sp cfg r1 r2 params s = Some (Inr u, s')"
    and "0 < cc_default_chunk_size cfg" and "0 < cc_min_chunk_size cfg" and "0 < cc_max_chunk_size cfg"
    and "mu_file_size u + mu_chunk_size u < 2 ^ 63"
    and "(mu_file_size u + mu_chunk_size u - 1) div mu_chunk_size u < 2 ^ 31"
  shows "upload_sized u"
proof -
  define cs where "cs = (if ip_chunk_size params > 0 then validate_chunk_size cfg (ip_chunk_size params) else cc_default_chunk_size cfg)"
  have pos: "0 < cs" using assms(2-4) by (auto simp: cs_def validate_chunk_size_def)
  have "0 < mu_file_size u \<and> mu_chunk_size u = cs \<and> calculate_total_chunks (mu_file_size u) cs = Some (mu_total_chunks u)"
    using assms(1) unfolding init_multipart_def cs_def [symmetric]
    by (auto simp: bind_res_Inr Let_def split: if_splits option.splits dest!: on_db_eq create_upload_row)
  then show ?thesis using assms(5,6) pos by (simp add: upload_sized_def)
qed

lemma on_db_get:
  assumes "on_db (get_multipart_upload i) s = (Inr u, s')" and "plain i"
  shows "u \<in> set (t_uploads (udb_tables (cs_db s))) \<and> mu_upload_id u = i \<and> udb_tables (cs_db s') = udb_tables (cs_db s)
    \<and> cs_store s' = cs_store s \<and> cs_slept s' = cs_slept s"
  using on_db_eq [OF assms(1)] get_upload_Inr [of i "cs_db s" u "cs_db s'"] assms(2) by simp

lemma on_db_get_ok: "cm_ok s \<Longrightarrow> plain i \<Longrightarrow> on_db (get_multipart_upload i) s = (r, s') \<Longrightarrow> cm_ok s'"
  using get_upload_tables [of i "cs_db s"] by (auto dest!: on_db_eq simp del: get_upload_tables)

lemma upload_part_ok:
  assumes "cm_ok s" and "plain i" and "provider_plain sp"
  shows "cm_ok (snd (upload_part sp i n data s))"
proof -
  obtain r s1 where get: "on_db (get_multipart_upload i) s = (r, s1)" by fastforce
  have ok1: "cm_ok s1" by (rule on_db_get_ok [OF assms(1,2) get])
  show ?thesis
  proof (cases r)
    case (Inl e)
    with get ok1 show ?thesis by (simp add: upload_part_def)
  next
    case (Inr u)
    note u = on_db_get [OF get [unfolded Inr] assms(2)]
    obtain r2 s2 where up: "on_store (sp_upload_part sp (mu_bucket u) (mu_object_key u) i n data) s1 = (r2, s2)" by fastforce
    have s2: "cs_db s2 = cs_db s1" using on_store_eq [OF up] by simp
    have "cm_ok (snd (on_db (record_uploaded_part i n e (int (length data))) s2))" if "1 \<le> n" "n \<le> mu_total_chunks u" "plain e" for e
      using record_part_ok [of "cs_db s2" u i n e] ok1 u that s2 by simp
    moreover have "plain e" if "r2 = Inr e" for e
      using on_store_eq [OF up] that by (auto dest: provider_plainD(3) [OF assms(3)])
    ultimately show ?thesis
      using get Inr up ok1 s2 by (auto simp: upload_part_def case_prod_beta split: sum.split)
  qed
qed

lemma retry_loop_ok: "cm_ok s \<Longrightarrow> plain i \<Longrightarrow> provider_plain sp \<Longrightarrow> cm_ok (snd (retry_loop sp left i n data d e s))"
proof (induction left arbitrary: d e s)
  case (Suc left)
  then show ?case
    using upload_part_ok [OF Suc.prems] by (simp add: case_prod_beta Let_def)
qed simp

lemma upload_each_ok: "cm_ok s \<Longrightarrow> plain i \<Longrightarrow> provider_plain sp \<Longrightarrow> cm_ok (snd (upload_each sp cfg i f ns s))"
proof (induction ns arbitrary: s)
  case (Cons n ns)
  then show ?case
    by (auto simp: case_prod_beta Let_def retry_upload_part_def retry_loop_ok split: sum.split)
qed simp

lemma progress_ok: "cm_ok s \<Longrightarrow> plain i \<Longrightarrow> cm_ok (snd (get_upload_progress i s))"
  unfolding get_upload_progress_def
  by (intro bind_res_inv [where P = cm_ok]) simp_all

lemma plain_hash: "plain (calculate_chunk_file_hash md5 i n)"
  by (auto simp: calculate_chunk_file_hash_def list_all_iff plain_hex intro!: plain_concat)

lemma plain_words [simp]: "plain ''completed''" "plain ''aborted''"
  by code_simp+

lemma completed_file_keeps:
  assumes "db_ok db" and "upload_plain u" and "provider_plain sp"
  shows "db_ok (snd (insert_file rnd (completed_file sp md5 i u) db))"
    and "t_uploads (udb_tables (snd (insert_file rnd (completed_file sp md5 i u) db))) = t_uploads (udb_tables db)"
  using assms by (intro insert_file_keeps;
    simp add: completed_file_def no_file_info_def plain_hash upload_plain_def provider_plain_def)+

lemma complete_ok:
  assumes "cm_ok s" and "plain i" and "provider_plain sp"
  shows "cm_ok (snd (complete_multipart sp md5 rnd i s))"
proof -
  obtain r s1 where get: "on_db (get_multipart_upload i) s = (r, s1)" by fastforce
  have ok1: "cm_ok s1" by (rule on_db_get_ok [OF assms(1,2) get])
  show ?thesis
  proof (cases r)
    case (Inl e)
    with get ok1 show ?thesis by (simp add: complete_multipart_def bind_res_def)
  next
    case (Inr u)
    have u: "upload_plain u"
      using on_db_get [OF get [unfolded Inr] assms(2)] sound_upload [OF assms(1)] by simp
    show ?thesis
      using ok1 assms(2,3) u unfolding complete_multipart_def get Inr
      by (auto simp: bind_res_def [of "(Inr u, s1)"] update_status_ok completed_file_keeps case_prod_beta Let_def
          intro!: bind_res_inv [where P = cm_ok])
  qed
qed

lemma abort_ok:
  assumes "cm_ok s" and "plain i"
  shows "cm_ok (snd (abort_multipart sp i s))"
proof -
  obtain r s1 where get: "on_db (get_multipart_upload i) s = (r, s1)" by fastforce
  have ok1: "cm_ok s1" by (rule on_db_get_ok [OF assms(1,2) get])
  have "cm_ok (snd (bind_res (on_db (update_multipart_status i ''aborted'') s') (\<lambda>_. on_db (delete_multipart_upload i))))"
    if "cm_ok s'" for s' :: "'a chunk_manager"
    using that assms(2) by (intro bind_res_inv [where P = cm_ok]) (simp_all add: update_status_ok delete_upload_ok)
  with get ok1 show ?thesis
    by (auto simp: abort_multipart_def case_prod_beta split: sum.split)
qed

lemma cleanup_each_ok: "cm_ok s \<Longrightarrow> list_all (\<lambda>u. plain (mu_upload_id u)) us \<Longrightarrow> cm_ok (snd (cleanup_each sp now age us s))"
proof (induction us arbitrary: s)
  case (Cons u us)
  then show ?case
    using abort_ok [OF Cons.prems(1)] by (auto simp: case_prod_beta split: sum.split)
qed simp

lemma pending_plain:
  assumes "cm_ok s" and "on_db list_pending_multipart_uploads s = (Inr us, s')"
  shows "list_all (\<lambda>u. plain (mu_upload_id u)) us"
proof -
  have "list_pending_multipart_uploads (cs_db s) = (Inr us, cs_db s')" using on_db_eq [OF assms(2)] by simp
  then have "set us \<subseteq> set (t_uploads (udb_tables (cs_db s)))"
    by (auto simp: list_pending_multipart_uploads_def or_error_Inr dest!: db_exec_read_Inr)
  then show ?thesis using sound_upload [OF assms(1)] by (auto simp: list_all_iff upload_plain_def)
qed

lemma cleanup_ok: "cm_ok s \<Longrightarrow> cm_ok (snd (cleanup_stale_uploads sp age s))"
  unfolding cleanup_stale_uploads_def
  by (rule bind_res_inv [where P = cm_ok]) (auto simp: case_prod_beta Let_def intro!: cleanup_each_ok dest: pending_plain)

lemma init_ok:
  assumes "cm_ok s" and "params_plain params" and "provider_plain sp" and "init_multipart sp cfg r1 r2 params s = Some (r, s')"
  shows "cm_ok s'"
proof -
  have "cm_ok (snd (bind_res (on_store (sp_init_multipart sp (ip_bucket params) (ip_object_key params) (ip_content_type params)) s)
      (\<lambda>i. on_db (create_multipart_upload r1 r2 (row i)))))"
    if "\<And>i. plain i \<Longrightarrow> upload_plain (row i)" for row
    by (rule bind_res_inv [where P = cm_ok])
      (use assms(1) that in \<open>auto intro!: create_upload_ok dest!: on_store_eq dest: provider_plainD(2) [OF assms(3)]\<close>)
  then have step: "cm_ok s2" if "bind_res (on_store (sp_init_multipart sp (ip_bucket params) (ip_object_key params) (ip_content_type params)) s)
      (\<lambda>i. on_db (create_multipart_upload r1 r2 (row i))) = (r', s2)" and "\<And>i. plain i \<Longrightarrow> upload_plain (row i)" for row r' s2
    using that by (metis snd_conv)
  show ?thesis
    using assms(1,2,4)
    by (auto simp: init_multipart_def Let_def params_plain_def upload_plain_def split: if_splits option.splits elim!: step)
qed

lemma pending_parts_ok:
  assumes "cm_ok s" and "plain i" and "provider_plain sp"
  shows "cm_ok (snd (upload_pending_parts sp cfg i f s))"
proof -
  have "cm_ok (snd (get_pending_parts i s))"
    unfolding get_pending_parts_def
    by (rule bind_res_inv [where P = cm_ok], rule progress_ok [OF assms(1,2)]) simp
  then show ?thesis
    unfolding upload_pending_parts_def
    by (rule bind_res_inv [where P = cm_ok]) (simp add: case_prod_beta Let_def upload_each_ok assms(2,3))
qed

lemma reachable_db_ok:
  assumes "cm_reachable sp cfg md5 s" and "provider_plain sp"
  shows "cm_ok s"
  using assms(1)
proof (induction rule: cm_reachable.induct)
  case (cm_start engine faults now p)
  then show ?case by (simp add: db_ok_new)
next
  case (cm_pending s i f)
  then show ?case by (intro pending_parts_ok assms(2))
next
  case (cm_init s params r1 r2 r s')
  show ?case by (rule init_ok [OF cm_init.IH cm_init.hyps(2) assms(2) cm_init.hyps(3)])
next
  case (cm_complete s i rnd)
  then show ?case by (intro complete_ok assms(2))
next
  case (cm_retry s i n data)
  then show ?case unfolding retry_upload_part_def by (intro retry_loop_ok assms(2))
qed (simp_all add: assms(2) upload_part_ok abort_ok cleanup_ok)

text \<open>C18: in every reachable state, after any operations whose identifiers, bucket and content type hold no quote, with any arguments
  else, any failures of the database between or in the middle of them and any behaviour of a provider whose identifiers and
  tags hold no quote, upload identifiers are unique and every recorded part belongs to a recorded upload, has a number between one and
  its number of parts, and is recorded once.  With a quote in the identifier this fails (\<open>injected_part\<close>).\<close>

theorem cm_reachable_ok:
  assumes "cm_reachable sp cfg md5 s" and "provider_plain sp"
  shows "tables_ok (udb_tables (cs_db s))"
  using reachable_db_ok [OF assms] by (simp add: tables_sound_def)

section \<open>Completion\<close>

lemma sort_key_map_insort: "sort_key g (map f xs) = map f (sort_key (g \<circ> f) xs)"
proof -
  have ins: "insort_key g (f x) (map f ys) = map f (insort_key (g \<circ> f) x ys)" for x ys
    by (induction ys) auto
  then show ?thesis by (induction xs) auto
qed

lemma parts_of_rows_numbers: "map pi_part_number (parts_of_rows rows) = sort (map up_part_number rows)"
  by (simp add: parts_of_rows_def sort_key_map_insort [of "\<lambda>x. x" pi_part_number, symmetric, unfolded comp_def id_def] new_part_info_def comp_def
      sort_key_map_insort)

lemma parts_numbers:
  assumes "tables_ok t" and "u \<in> set (t_uploads t)"
  shows "distinct (map up_part_number (filter (\<lambda>p. up_upload_id p = mu_upload_id u) (t_parts t)))"
    and "up_part_number ` set (filter (\<lambda>p. up_upload_id p = mu_upload_id u) (t_parts t)) \<subseteq> {1..mu_total_chunks u}"
proof -
  let ?ps = "filter (\<lambda>p. up_upload_id p = mu_upload_id u) (t_parts t)"
  have "distinct (map part_key ?ps)" using assms(1) by (simp add: tables_ok_def distinct_map_filter)
  moreover have "map part_key ?ps = map (Pair (mu_upload_id u)) (map up_part_number ?ps)"
    by (auto simp: part_key_def)
  ultimately show "distinct (map up_part_number ?ps)" by (metis distinct_map)
  show "up_part_number ` set ?ps \<subseteq> {1..mu_total_chunks u}"
  proof
    fix n assume "n \<in> up_part_number ` set ?ps"
    then obtain p where p: "p \<in> set (t_parts t)" "up_upload_id p = mu_upload_id u" "n = up_part_number p" by auto
    with assms(1) obtain v where "v \<in> set (t_uploads t)" "part_of p v" by (auto simp: tables_ok_def list_all_iff list_ex_iff)
    moreover have "v = u" if "v \<in> set (t_uploads t)" "mu_upload_id v = mu_upload_id u"
      using assms that by (auto simp: tables_ok_def distinct_map inj_on_def)
    ultimately show "n \<in> {1..mu_total_chunks u}" using p by (auto simp: part_of_def)
  qed
qed

text \<open>As many distinct numbers from one to \<open>n\<close> as there are: all of them.\<close>

lemma all_numbers:
  fixes ns :: "int list"
  assumes "distinct ns" and "set ns \<subseteq> {1..n}" and "int (length ns) = n"
  shows "sort ns = [1..n]"
proof -
  have "card (set ns) = length ns" using assms(1) by (rule distinct_card)
  with assms(3) have "set ns = {1..n}" by (intro card_subset_eq) (use assms(2) in auto)
  then show ?thesis
    using assms(1) by (intro sorted_distinct_set_unique) (auto simp: sorted_upto)
qed

text \<open>C5: in a reachable state, when a completion under an identifier without a quote succeeds, the provider was handed each part number of the upload
  exactly once, from one up to the number of parts, and answered with the result that is returned; the entity tags are those
  recorded for the parts.\<close>

theorem complete_all_parts:
  assumes "cm_reachable sp cfg md5 s" and "provider_plain sp" and "plain i"
    and "complete_multipart sp md5 rnd i s = (Inr r, s')"
  shows "\<exists>u ps p'. u \<in> set (t_uploads (udb_tables (cs_db s))) \<and> mu_upload_id u = i \<and> mu_status u = ''uploading''
    \<and> map pi_part_number ps = [1..mu_total_chunks u]
    \<and> list_all (\<lambda>p. list_ex (\<lambda>q. up_upload_id q = i \<and> up_part_number q = pi_part_number p \<and> up_etag q = pi_etag p)
        (t_parts (udb_tables (cs_db s)))) ps
    \<and> sp_complete_multipart sp (mu_bucket u) (mu_object_key u) i ps (cs_store s) = (Inr r, p')"
proof -
  have ok: "tables_ok (udb_tables (cs_db s))" using reachable_db_ok [OF assms(1,2)] by (simp add: tables_sound_def)
  from assms(4) obtain u s1 rows s2 s3 where get: "on_db (get_multipart_upload i) s = (Inr u, s1)"
    and up: "mu_status u = ''uploading''" and parts: "on_db (get_uploaded_parts i) s1 = (Inr rows, s2)"
    and len: "int (length rows) = mu_total_chunks u"
    and fin: "on_store (sp_complete_multipart sp (mu_bucket u) (mu_object_key u) i (parts_of_rows rows)) s2 = (Inr r, s3)"
    by (auto simp: complete_multipart_def bind_res_Inr Let_def case_prod_beta split: if_splits)
  note u = on_db_get [OF get assms(3)]
  have rows: "rows = sort_key up_part_number (filter (\<lambda>p. up_upload_id p = i) (t_parts (udb_tables (cs_db s))))"
    and s2: "cs_store s2 = cs_store s"
    using on_db_eq [OF parts] get_parts_Inr [of i "cs_db s1" rows "cs_db s2"] u assms(3) by auto
  let ?ps = "filter (\<lambda>p. up_upload_id p = i) (t_parts (udb_tables (cs_db s)))"
  have "distinct (map up_part_number ?ps)" "up_part_number ` set ?ps \<subseteq> {1..mu_total_chunks u}"
    using parts_numbers [OF ok, of u] u by auto
  then have "distinct (map up_part_number rows)" "set (map up_part_number rows) \<subseteq> {1..mu_total_chunks u}"
    unfolding rows by (auto simp: distinct_map)
  then have "map pi_part_number (parts_of_rows rows) = [1..mu_total_chunks u]"
    using len all_numbers [of "map up_part_number rows"] by (simp add: parts_of_rows_numbers)
  moreover have "list_all (\<lambda>p. list_ex (\<lambda>q. up_upload_id q = i \<and> up_part_number q = pi_part_number p \<and> up_etag q = pi_etag p)
        (t_parts (udb_tables (cs_db s)))) (parts_of_rows rows)"
    unfolding rows by (auto simp: parts_of_rows_def list_all_iff list_ex_iff new_part_info_def)
  moreover have "sp_complete_multipart sp (mu_bucket u) (mu_object_key u) i (parts_of_rows rows) (cs_store s) = (Inr r, cs_store s3)"
    using on_store_eq [OF fin] s2 by simp
  ultimately show ?thesis using u up by blast
qed

section \<open>Retries\<close>

lemma upload_part_slept: "cs_slept (snd (upload_part sp i n data s)) = cs_slept s"
  by (simp add: upload_part_def on_db_def on_store_def case_prod_beta Let_def split: sum.split)

lemma retry_loop_pauses:
  assumes "0 < d" and "d \<le> 30000"
  shows "\<exists>k \<le> left - 1. cs_slept (snd (retry_loop sp left i n data d e s)) = cs_slept s @ map (\<lambda>j. min 30000 (d * 2 ^ j)) [0..<k]"
  using assms
proof (induction left arbitrary: d e s)
  case (Suc left)
  obtain res s1 where up: "upload_part sp i n data s = (res, s1)" by fastforce
  have s1: "cs_slept s1 = cs_slept s" using upload_part_slept [of sp i n data s] up by simp
  show ?case
  proof (cases "cr_success res \<or> \<not> is_retryable_error (cr_error_msg res) \<or> left = 0")
    case True
    then show ?thesis by (intro exI [of _ 0]) (auto simp: up s1)
  next
    case False
    let ?d = "min 30000 (2 * d)"
    have "(if wrap_i32 (d * 2) > 30000 then 30000 else wrap_i32 (d * 2)) = ?d"
      using Suc.prems by (simp add: wrap_i32_id min_def)
    then have loop: "retry_loop sp (Suc left) i n data d e s
        = retry_loop sp left i n data ?d (cr_error_msg res) (s1\<lparr>cs_slept := cs_slept s1 @ [d]\<rparr>)"
      using False by (simp add: up Let_def)
    obtain k where k: "k \<le> left - 1" and eq: "cs_slept (snd (retry_loop sp (Suc left) i n data d e s))
        = (cs_slept s @ [d]) @ map (\<lambda>j. min 30000 (?d * 2 ^ j)) [0..<k]"
      using Suc.IH [of ?d "cr_error_msg res" "s1\<lparr>cs_slept := cs_slept s1 @ [d]\<rparr>"] Suc.prems loop s1 by auto
    have "min 30000 (?d * 2 ^ j) = min 30000 (d * 2 ^ Suc j)" for j
    proof (cases "2 * d \<le> 30000")
      case False
      have "(30000::int) \<le> 30000 * 2 ^ j" by simp
      moreover have "30000 * 2 ^ j \<le> 2 * d * 2 ^ j" using False by (intro mult_right_mono) auto
      moreover have "2 * d * 2 ^ j = d * 2 ^ Suc j" by simp
      ultimately have "30000 \<le> d * 2 ^ Suc j" by linarith
      with False show ?thesis by (simp add: min_def)
    qed (simp add: mult.assoc mult.commute)
    moreover have "[0..<Suc k] = 0 # map Suc [0..<k]" by (simp add: map_Suc_upt upt_conv_Cons del: upt_Suc)
    ultimately have "cs_slept (snd (retry_loop sp (Suc left) i n data d e s))
        = cs_slept s @ map (\<lambda>j. min 30000 (d * 2 ^ j)) [0..<Suc k]"
      using eq Suc.prems by (simp add: o_def del: upt_Suc)
    then show ?thesis using k False by (intro exI [of _ "Suc k"]) auto
  qed
qed (auto intro: exI [of _ 0])

text \<open>For a configured pause of at most thirty seconds the retry loop pauses at most as often as it may retry, and the
  pauses double from the configured one up to thirty seconds: it comes to an end after a known time, whatever the provider and
  the database do.\<close>

theorem retry_pauses:
  assumes "0 < cc_retry_delay_ms cfg" and "cc_retry_delay_ms cfg \<le> 30000"
  shows "\<exists>k \<le> nat (cc_retry_count cfg). cs_slept (snd (retry_upload_part sp cfg i n data s))
    = cs_slept s @ map (\<lambda>j. min 30000 (cc_retry_delay_ms cfg * 2 ^ j)) [0..<k]"
proof -
  have "nat (cc_retry_count cfg + 1) - 1 = nat (cc_retry_count cfg)" by linarith
  then show ?thesis
    using retry_loop_pauses [OF assms, of "nat (cc_retry_count cfg + 1)" sp i n data "''''" s]
    by (simp add: retry_upload_part_def)
qed

section \<open>An upload comes to an end\<close>

text \<open>What the following theorem assumes of the provider: storing a part and completing work.\<close>

definition provider_works :: "'p storage_provider \<Rightarrow> bool" where
  "provider_works sp \<longleftrightarrow>
     (\<forall>b k i n data p. \<exists>e p'. sp_upload_part sp b k i n data p = (Inr e, p'))
     \<and> (\<forall>b k i ps p. \<exists>r p'. sp_complete_multipart sp b k i ps p = (Inr r, p'))"

text \<open>An upload in progress, seen through the tables: its number of parts and the numbers recorded.\<close>

definition in_progress :: "'p chunk_manager \<Rightarrow> string \<Rightarrow> int \<Rightarrow> int set \<Rightarrow> bool" where
  "in_progress s i m ns \<longleftrightarrow>
     udb_faults (cs_db s) = [] \<and> cm_ok s \<and> plain i
     \<and> (\<exists>u \<in> set (t_uploads (udb_tables (cs_db s))). mu_upload_id u = i \<and> mu_status u = ''uploading'' \<and> mu_total_chunks u = m)
     \<and> up_part_number ` set (filter (\<lambda>p. up_upload_id p = i) (t_parts (udb_tables (cs_db s)))) = ns"


lemma exec_no_faults_ok:
  "udb_faults db = [] \<Longrightarrow> stmt (udb_tables db) = (Inr r, t) \<Longrightarrow> db_exec stmt db = (Inr r, db\<lparr>udb_tables := t\<rparr>)"
  by (cases db) (simp add: db_exec_def)

lemma bind_Inr [simp]: "bind_res (Inr x, s) f = f x s" "or_error msg (Inr x, s) = (Inr x, s)"
  by (simp_all add: bind_res_def or_error_def)

lemma get_in_progress:
  assumes "in_progress s i m ns"
  obtains u where "on_db (get_multipart_upload i) s = (Inr u, s)" "mu_upload_id u = i" "mu_status u = ''uploading''"
    "mu_total_chunks u = m" "u \<in> set (t_uploads (udb_tables (cs_db s)))"
proof -
  from assms obtain u where f: "udb_faults (cs_db s) = []" and d: "distinct (map mu_upload_id (t_uploads (udb_tables (cs_db s))))"
    and u: "u \<in> set (t_uploads (udb_tables (cs_db s)))" "mu_upload_id u = i" "mu_status u = ''uploading''" "mu_total_chunks u = m"
    by (auto simp: in_progress_def tables_ok_def tables_sound_def)
  have i: "plain i" using assms by (simp add: in_progress_def)
  obtain v rest where rows: "filter (\<lambda>u. mu_upload_id u = i) (t_uploads (udb_tables (cs_db s))) = v # rest"
    using u(1,2) by (cases "filter (\<lambda>u. mu_upload_id u = i) (t_uploads (udb_tables (cs_db s)))") (auto simp: filter_empty_conv)
  then have "v \<in> set (filter (\<lambda>u. mu_upload_id u = i) (t_uploads (udb_tables (cs_db s))))" by simp
  then have "v = u" using d u(1,2) by (auto simp: distinct_map inj_on_def)
  then have "get_multipart_upload i (cs_db s) = (Inr u, cs_db s)"
    using f rows i by (simp add: get_multipart_upload_def exec_no_faults_ok)
  then show ?thesis using that u by (simp add: on_db_def)
qed

lemma record_no_faults:
  assumes "udb_faults db = []" and "plain i" and "plain e"
  shows "\<exists>row db'. record_uploaded_part i n e sz db = (Inr row, db') \<and> udb_faults db' = []
    \<and> t_uploads (udb_tables db') = map (\<lambda>u. if mu_upload_id u = i then u\<lparr>mu_updated_at := udb_now db\<rparr> else u) (t_uploads (udb_tables db))
    \<and> up_part_number ` set (filter (\<lambda>p. up_upload_id p = i) (t_parts (udb_tables db')))
      = insert n (up_part_number ` set (filter (\<lambda>p. up_upload_id p = i) (t_parts (udb_tables db))))"
proof -
  let ?row = "\<lparr>up_id = 0, up_upload_id = i, up_part_number = n, up_etag = e, up_size = sz, up_uploaded_at = udb_now db\<rparr>"
  let ?t = "snd (insert_or_replace_part ?row (udb_tables db))"
  have ins: "db_exec (insert_or_replace_part ?row) db = (Inr (), db\<lparr>udb_tables := ?t\<rparr>)"
    by (rule exec_no_faults_ok [OF assms(1)]) (simp add: insert_or_replace_part_def)
  have "db_exec (update_uploads i (\<lambda>u. u\<lparr>mu_updated_at := udb_now db\<rparr>)) (db\<lparr>udb_tables := ?t\<rparr>)
      = (Inr (), db\<lparr>udb_tables := snd (update_uploads i (\<lambda>u. u\<lparr>mu_updated_at := udb_now db\<rparr>) ?t)\<rparr>)"
    by (subst exec_no_faults_ok) (use assms in \<open>auto simp: update_uploads_def\<close>)
  with ins have "record_uploaded_part i n e sz db
      = (Inr ?row, db\<lparr>udb_tables := snd (update_uploads i (\<lambda>u. u\<lparr>mu_updated_at := udb_now db\<rparr>) ?t)\<rparr>)"
    by (simp add: record_uploaded_part_def assms(2,3) Let_def)
  moreover have "up_part_number ` set (filter (\<lambda>p. up_upload_id p = i) (t_parts ?t))
      = insert n (up_part_number ` set (filter (\<lambda>p. up_upload_id p = i) (t_parts (udb_tables db))))"
    by (auto simp: insert_or_replace_part_def)
  moreover have "t_parts (snd (update_uploads i g t)) = t_parts t"
    "t_uploads (snd (update_uploads i g t)) = map (\<lambda>u. if mu_upload_id u = i then g u else u) (t_uploads t)" for g t
    by (simp_all add: update_uploads_def)
  moreover have "t_uploads ?t = t_uploads (udb_tables db)" by (simp add: insert_or_replace_part_def)
  ultimately show ?thesis using assms by simp
qed

lemma upload_part_progress:
  assumes "in_progress s i m ns" and "provider_works sp" and "provider_plain sp" and "1 \<le> n" and "n \<le> m"
  shows "cr_success (fst (upload_part sp i n data s)) \<and> in_progress (snd (upload_part sp i n data s)) i m (insert n ns)"
proof -
  obtain u where get: "on_db (get_multipart_upload i) s = (Inr u, s)" and u: "mu_upload_id u = i" "mu_status u = ''uploading''"
    "mu_total_chunks u = m" "u \<in> set (t_uploads (udb_tables (cs_db s)))"
    using get_in_progress [OF assms(1)] by blast
  obtain e p' where up: "sp_upload_part sp (mu_bucket u) (mu_object_key u) i n data (cs_store s) = (Inr e, p')"
    using assms(2) by (meson provider_works_def)
  have i: "plain i" and e: "plain e"
    using assms(1) provider_plainD(3) [OF assms(3) up] by (simp_all add: in_progress_def)
  have f: "udb_faults (cs_db s) = []" using assms(1) by (simp add: in_progress_def)
  obtain row db' where rec: "record_uploaded_part i n e (int (length data)) (cs_db s) = (Inr row, db')" and f': "udb_faults db' = []"
    and us: "t_uploads (udb_tables db')
      = map (\<lambda>u. if mu_upload_id u = i then u\<lparr>mu_updated_at := udb_now (cs_db s)\<rparr> else u) (t_uploads (udb_tables (cs_db s)))"
    and ps: "up_part_number ` set (filter (\<lambda>p. up_upload_id p = i) (t_parts (udb_tables db'))) = insert n ns"
    using record_no_faults [OF f i e, of n "int (length data)"] assms(1) by (auto simp: in_progress_def)
  have res: "cr_success (fst (upload_part sp i n data s)) \<and> cs_db (snd (upload_part sp i n data s)) = db'"
    using get u assms(4,5) up rec by (simp add: upload_part_def on_store_def on_db_def)
  moreover have "cm_ok (snd (upload_part sp i n data s))"
    using assms(1,3) by (intro upload_part_ok) (simp_all add: in_progress_def)
  moreover have "u\<lparr>mu_updated_at := udb_now (cs_db s)\<rparr> \<in> set (t_uploads (udb_tables db'))"
    using us u(1,4) by (auto intro!: image_eqI [of _ _ u])
  ultimately show ?thesis
    using f' ps u i by (auto simp: in_progress_def intro!: bexI [of _ "u\<lparr>mu_updated_at := udb_now (cs_db s)\<rparr>"])
qed

lemma upload_each_progress:
  assumes "provider_works sp" and "provider_plain sp" and "0 \<le> cc_retry_count cfg"
    and "in_progress s i m ns" and "list_all (\<lambda>n. 1 \<le> n \<and> n \<le> m) todo"
  shows "list_all cr_success (fst (upload_each sp cfg i (\<lambda>n. Inr (data n)) todo s)) \<and> in_progress (snd (upload_each sp cfg i (\<lambda>n. Inr (data n)) todo s)) i m (ns \<union> set todo)"
  using assms(4,5)
proof (induction todo arbitrary: s ns)
  case (Cons n todo)
  define d where "d = data n"
  have step: "cr_success (fst (upload_part sp i n d s))" "in_progress (snd (upload_part sp i n d s)) i m (insert n ns)"
    using upload_part_progress [OF Cons.prems(1) assms(1,2), of n d] Cons.prems(2) by auto
  obtain k where "nat (cc_retry_count cfg + 1) = Suc k" using assms(3) by (cases "nat (cc_retry_count cfg + 1)") auto
  then have "retry_upload_part sp cfg i n d s = upload_part sp i n d s"
    using step(1) by (auto simp: retry_upload_part_def case_prod_beta Let_def)
  with Cons.IH [OF step(2)] Cons.prems(2) step(1) show ?case
    by (simp add: case_prod_beta Let_def d_def)
qed simp

lemma parts_in_progress:
  assumes "in_progress s i m ns"
  obtains rows where "on_db (get_uploaded_parts i) s = (Inr rows, s)" "up_part_number ` set rows = ns"
    "distinct (map up_part_number rows)"
proof -
  let ?rows = "sort_key up_part_number (filter (\<lambda>p. up_upload_id p = i) (t_parts (udb_tables (cs_db s))))"
  obtain u where u: "mu_upload_id u = i" "u \<in> set (t_uploads (udb_tables (cs_db s)))"
    using get_in_progress [OF assms] by blast
  have f: "udb_faults (cs_db s) = []" and ok: "tables_ok (udb_tables (cs_db s))" and i: "plain i"
    using assms by (simp_all add: in_progress_def tables_sound_def)
  have "get_uploaded_parts i (cs_db s) = (Inr ?rows, cs_db s)"
    by (simp add: get_uploaded_parts_def i exec_no_faults_ok [OF f])
  moreover have "distinct (map up_part_number ?rows)"
    using parts_numbers(1) [OF ok u(2)] u(1) by (simp add: distinct_map)
  moreover have "up_part_number ` set ?rows = ns" using assms by (simp add: in_progress_def)
  ultimately show ?thesis using that by (simp add: on_db_def)
qed

lemma complete_in_progress:
  assumes "in_progress s i m {1..m}" and "0 \<le> m" and "provider_works sp" and "provider_plain sp"
  shows "\<exists>r s'. complete_multipart sp md5 rnd i s = (Inr r, s')
    \<and> list_ex (\<lambda>u. mu_upload_id u = i \<and> mu_status u = ''completed'') (t_uploads (udb_tables (cs_db s')))"
proof -
  obtain u where get: "on_db (get_multipart_upload i) s = (Inr u, s)" and u: "mu_upload_id u = i" "mu_status u = ''uploading''"
    "mu_total_chunks u = m" "u \<in> set (t_uploads (udb_tables (cs_db s)))"
    using get_in_progress [OF assms(1)] by blast
  obtain rows where parts: "on_db (get_uploaded_parts i) s = (Inr rows, s)" and ns: "up_part_number ` set rows = {1..m}"
    and d: "distinct (map up_part_number rows)"
    using parts_in_progress [OF assms(1)] by blast
  have "length rows = card {1..m}" using distinct_card [OF d] ns by simp
  then have len: "int (length rows) = m" using assms(2) by simp
  obtain r p' where comp: "sp_complete_multipart sp (mu_bucket u) (mu_object_key u) i (parts_of_rows rows) (cs_store s) = (Inr r, p')"
    using assms(3) by (meson provider_works_def)
  let ?done = "\<lambda>u. u\<lparr>mu_status := ''completed'', mu_updated_at := udb_now (cs_db s)\<rparr>"
  let ?db = "(cs_db s)\<lparr>udb_tables := snd (update_uploads i ?done (udb_tables (cs_db s)))\<rparr>"
  have f: "udb_faults (cs_db s) = []" and i: "plain i" and ok: "db_ok (cs_db s)" using assms(1) by (simp_all add: in_progress_def)
  have upd: "update_multipart_status i ''completed'' (cs_db s) = (Inr (), ?db)"
    unfolding update_multipart_status_def
    by (simp add: i, subst exec_no_faults_ok [OF f]) (auto simp: update_uploads_def)
  have "db_ok ?db" using update_status_ok [OF ok i, of "''completed''"] upd by simp
  from completed_file_keeps(2) [OF this sound_upload [OF ok u(4)] assms(4)]
  have files: "t_uploads (udb_tables (snd (insert_file rnd (completed_file sp md5 i u) ?db))) = t_uploads (udb_tables ?db)" for rnd .
  have "fst (complete_multipart sp md5 rnd i s) = Inr r
      \<and> t_uploads (udb_tables (cs_db (snd (complete_multipart sp md5 rnd i s)))) = t_uploads (udb_tables ?db)"
    using get u parts len comp upd
    by (simp add: complete_multipart_def on_store_def on_db_def files case_prod_beta Let_def)
  moreover have "?done u \<in> set (t_uploads (udb_tables ?db))"
    using u(1,4) by (auto simp: update_uploads_def intro!: image_eqI [of _ _ u])
  ultimately show ?thesis
    using u(1) by (intro exI [of _ r] exI [of _ "snd (complete_multipart sp md5 rnd i s)"])
      (auto simp: list_ex_iff prod_eq_iff intro!: bexI [of _ "?done u"])
qed

text \<open>C17: from every reachable state with a healthy database and provider (whose identifiers and tags hold no quote), an upload that is in progress, however far it
  got and whatever failed before, is brought to its end by uploading the pending parts and completing: every pending part
  succeeds, the completion succeeds, and the upload is recorded as completed.\<close>

theorem resume_finishes:
  assumes "cm_reachable sp cfg md5 s" and "provider_works sp" and "provider_plain sp" and "0 \<le> cc_retry_count cfg"
    and "udb_faults (cs_db s) = []" and "u \<in> set (t_uploads (udb_tables (cs_db s)))" and "mu_status u = ''uploading''"
    and "0 \<le> mu_total_chunks u"
  shows "\<exists>rs s1 r s2. upload_pending_parts sp cfg (mu_upload_id u) (\<lambda>n. Inr (data n)) s = (Inr rs, s1) \<and> list_all cr_success rs
    \<and> complete_multipart sp md5 rnd (mu_upload_id u) s1 = (Inr r, s2)
    \<and> list_ex (\<lambda>v. mu_upload_id v = mu_upload_id u \<and> mu_status v = ''completed'') (t_uploads (udb_tables (cs_db s2)))"
proof -
  let ?i = "mu_upload_id u" and ?m = "mu_total_chunks u"
  have sound: "cm_ok s" by (rule reachable_db_ok [OF assms(1,3)])
  then have ok: "tables_ok (udb_tables (cs_db s))" by (simp add: tables_sound_def)
  have i: "plain ?i" using sound_upload [OF sound assms(6)] by (simp add: upload_plain_def)
  define ns where "ns = up_part_number ` set (filter (\<lambda>p. up_upload_id p = ?i) (t_parts (udb_tables (cs_db s))))"
  have sub: "ns \<subseteq> {1..?m}" unfolding ns_def by (rule parts_numbers(2) [OF ok assms(6)])
  have start: "in_progress s ?i ?m ns"
    unfolding in_progress_def ns_def using sound i assms(5-7) by (intro conjI bexI [of _ u]) simp_all
  obtain v where get: "on_db (get_multipart_upload ?i) s = (Inr v, s)" "mu_total_chunks v = ?m"
    using get_in_progress [OF start] by blast
  obtain rows where parts: "on_db (get_uploaded_parts ?i) s = (Inr rows, s)" "up_part_number ` set rows = ns"
    "distinct (map up_part_number rows)"
    by (rule parts_in_progress [OF start])
  let ?todo = "filter (\<lambda>i. i \<notin> ns) [1..?m]"
  have pend: "get_pending_parts ?i s = (Inr ?todo, s)"
    using get parts by (simp add: get_pending_parts_def get_upload_progress_def)
  obtain rs s1 where each: "upload_each sp cfg ?i (\<lambda>n. Inr (data n)) ?todo s = (rs, s1)" by fastforce
  have "list_all cr_success rs \<and> in_progress s1 ?i ?m (ns \<union> set ?todo)"
    using upload_each_progress [OF assms(2,3,4) start, of ?todo data] each by (simp add: list_all_iff)
  moreover have "ns \<union> set ?todo = {1..?m}" using sub by auto
  ultimately have fin: "list_all cr_success rs" "in_progress s1 ?i ?m {1..?m}" by simp_all
  have up: "upload_pending_parts sp cfg ?i (\<lambda>n. Inr (data n)) s = (Inr rs, s1)"
    using pend each by (simp add: upload_pending_parts_def)
  obtain r s2 where "complete_multipart sp md5 rnd ?i s1 = (Inr r, s2)"
    "list_ex (\<lambda>v. mu_upload_id v = ?i \<and> mu_status v = ''completed'') (t_uploads (udb_tables (cs_db s2)))"
    using complete_in_progress [OF fin(2) assms(8,2,3), of md5 rnd] by (elim exE conjE)
  with up fin(1) show ?thesis by (intro exI conjI)
qed

section \<open>An example\<close>

definition demo_provider :: "string list storage_provider" where
  "demo_provider =
     \<lparr>sp_init_multipart = (\<lambda>b k t p. (Inr ''up1'', ''init'' # p)),
      sp_upload_part = (\<lambda>b k i n data p. (Inr (''e'' @ v_str n), ''part'' # p)),
      sp_complete_multipart = (\<lambda>b k i ps p. (Inr (new_storage_result k ''done'' 10), ''complete'' # p)),
      sp_abort_multipart = (\<lambda>b k i p. (Inr (), ''abort'' # p)), sp_provider_name = ''demo''\<rparr>"

definition demo_chunk_config :: chunk_config where
  "demo_chunk_config =
     \<lparr>cc_default_chunk_size = 4, cc_max_chunk_size = 10, cc_min_chunk_size = 1, cc_max_parts = 100, cc_retry_count = 1, cc_retry_delay_ms = 1000\<rparr>"

definition demo_md5 :: "string \<Rightarrow> bytes" where
  "demo_md5 s = []"

definition demo_cm0 :: "string list chunk_manager" where
  "demo_cm0 = \<lparr>cs_db = new_database_manager (\<lambda>_ _. Inl ''syntax error'') [] 5, cs_store = [], cs_slept = []\<rparr>"

definition demo_params :: init_params where
  "demo_params = \<lparr>ip_bucket = ''b'', ip_object_key = ''k'', ip_file_name = ''a.bin'', ip_file_size = 10, ip_content_type = '''', ip_chunk_size = 0\<rparr>"

definition demo_cm1 :: "string list chunk_manager" where
  "demo_cm1 = snd (the (init_multipart demo_provider demo_chunk_config None None demo_params demo_cm0))"

definition demo_cm2 :: "string list chunk_manager" where
  "demo_cm2 = snd (upload_pending_parts demo_provider demo_chunk_config ''up1'' (\<lambda>n. Inr [1, 2]) demo_cm1)"

lemma demo_cm_reachable:
  "cm_reachable demo_provider demo_chunk_config demo_md5 demo_cm0"
  "cm_reachable demo_provider demo_chunk_config demo_md5 demo_cm1"
  "cm_reachable demo_provider demo_chunk_config demo_md5 demo_cm2"
proof -
  show start: "cm_reachable demo_provider demo_chunk_config demo_md5 demo_cm0"
    unfolding demo_cm0_def by (rule cm_reachable.cm_start)
  have "init_multipart demo_provider demo_chunk_config None None demo_params demo_cm0 \<noteq> None" by code_simp
  then obtain r s where init: "init_multipart demo_provider demo_chunk_config None None demo_params demo_cm0 = Some (r, s)" by auto
  have params: "params_plain demo_params" by code_simp
  show one: "cm_reachable demo_provider demo_chunk_config demo_md5 demo_cm1"
    using cm_reachable.cm_init [OF start params init] by (simp add: demo_cm1_def init)
  have "plain ''up1''" by code_simp
  with one show "cm_reachable demo_provider demo_chunk_config demo_md5 demo_cm2"
    unfolding demo_cm2_def by (rule cm_reachable.cm_pending)
qed

lemma demo_provider_works: "provider_works demo_provider"
  by (simp add: provider_works_def demo_provider_def)

lemma plain_digits: "plain (dec_digits n)"
proof (induction n rule: dec_digits.induct)
  case (1 n)
  have "\<forall>d\<in>set [0..<10]. plain [char_of (48 + d :: nat)]" by code_simp
  then have "plain [char_of (48 + d :: nat)]" if "d < 10" for d using that by auto
  then show ?case using 1 by (subst dec_digits.simps) simp
qed

lemma demo_provider_plain: "provider_plain demo_provider"
proof -
  have "plain ''up1''" "plain ''demo''" "plain ''e''" "plain ''-''" by code_simp+
  moreover have "plain (v_str n)" for n
    using \<open>plain ''-''\<close> plain_append [of "''-''" "dec_digits (nat (- n))"] by (simp add: v_str_def plain_digits)
  moreover from this have "plain (''e'' @ v_str n)" for n using \<open>plain ''e''\<close> by (simp only: plain_append)
  ultimately show ?thesis by (simp add: provider_plain_def demo_provider_def)
qed

lemma demo_cm1_upload: "t_uploads (udb_tables (cs_db demo_cm1)) = [(demo_upload ''up1'')\<lparr>mu_file_uuid := '''', mu_created_at := 5, mu_updated_at := 5\<rparr>]"
  by code_simp

lemma cm_reachable_ok_witness:
  "tables_ok (udb_tables (cs_db demo_cm2)) \<and> length (t_parts (udb_tables (cs_db demo_cm2))) = 3"
proof -
  have "length (t_parts (udb_tables (cs_db demo_cm2))) = 3" by code_simp
  with cm_reachable_ok [OF demo_cm_reachable(3) demo_provider_plain] show ?thesis by simp
qed

lemma retry_pauses_witness:
  "\<exists>k \<le> nat (1::int). cs_slept (snd (retry_upload_part demo_provider demo_chunk_config ''up1'' 1 [] demo_cm1))
    = [] @ map (\<lambda>j. min 30000 (1000 * 2 ^ j)) [0..<k]"
proof -
  have s: "cs_slept demo_cm1 = []" by code_simp
  show ?thesis
    using retry_pauses [of demo_chunk_config demo_provider "''up1''" 1 "[]" demo_cm1]
    by (simp add: demo_chunk_config_def s)
qed

lemma resume_finishes_witness:
  "\<exists>rs s1 r s2. upload_pending_parts demo_provider demo_chunk_config ''up1'' (\<lambda>n. Inr []) demo_cm1 = (Inr rs, s1) \<and> list_all cr_success rs
    \<and> complete_multipart demo_provider demo_md5 None ''up1'' s1 = (Inr r, s2)
    \<and> list_ex (\<lambda>v. mu_upload_id v = ''up1'' \<and> mu_status v = ''completed'') (t_uploads (udb_tables (cs_db s2)))"
proof -
  let ?u = "(demo_upload ''up1'')\<lparr>mu_file_uuid := '''', mu_created_at := 5, mu_updated_at := 5\<rparr>"
  have f: "udb_faults (cs_db demo_cm1) = []" by code_simp
  have u: "?u \<in> set (t_uploads (udb_tables (cs_db demo_cm1)))" by (simp add: demo_cm1_upload)
  have i: "mu_upload_id ?u = ''up1''" and st: "mu_status ?u = ''uploading''" and m: "0 \<le> mu_total_chunks ?u"
    by (simp_all add: demo_upload_def)
  have c: "0 \<le> cc_retry_count demo_chunk_config" by (simp add: demo_chunk_config_def)
  show ?thesis
    using resume_finishes [OF demo_cm_reachable(2) demo_provider_works demo_provider_plain c f u st m, of "\<lambda>n. []" None] unfolding i .
qed

lemma complete_all_parts_witness:
  "\<exists>u ps p'. u \<in> set (t_uploads (udb_tables (cs_db demo_cm2))) \<and> mu_upload_id u = ''up1'' \<and> mu_status u = ''uploading''
    \<and> map pi_part_number ps = [1..mu_total_chunks u]
    \<and> list_all (\<lambda>p. list_ex (\<lambda>q. up_upload_id q = ''up1'' \<and> up_part_number q = pi_part_number p \<and> up_etag q = pi_etag p)
        (t_parts (udb_tables (cs_db demo_cm2)))) ps
    \<and> sp_complete_multipart demo_provider (mu_bucket u) (mu_object_key u) ''up1'' ps (cs_store demo_cm2)
      = (Inr (new_storage_result ''k'' ''done'' 10), p')"
proof -
  have "fst (complete_multipart demo_provider demo_md5 None ''up1'' demo_cm2) = Inr (new_storage_result ''k'' ''done'' 10)"
    by code_simp
  then have "complete_multipart demo_provider demo_md5 None ''up1'' demo_cm2
      = (Inr (new_storage_result ''k'' ''done'' 10), snd (complete_multipart demo_provider demo_md5 None ''up1'' demo_cm2))"
    by (simp add: prod_eq_iff)
  moreover have "plain ''up1''" by code_simp
  ultimately show ?thesis
    by (intro complete_all_parts [OF demo_cm_reachable(3) demo_provider_plain])
qed

section \<open>Identifiers with a quote\<close>

text \<open>The identifier \<open>x' OR '1'='1\<close>, and what SQLite answers to three statements built from it: the conditions hold for every row, and
  the inserted value is the value of the expression, which is 1.\<close>

definition quoting_id :: string where
  "quoting_id = ''x'' @ sql_quote # '' OR '' @ sql_val ''1'' @ ''='' @ sql_quote # ''1''"

definition new_row :: uploaded_part where
  "new_row = \<lparr>up_id = 0, up_upload_id = quoting_id, up_part_number = 1, up_etag = ''e1'', up_size = 0, up_uploaded_at = 5\<rparr>"

definition quoting_engine :: sql_engine where
  "quoting_engine query t =
     (let answer = \<lparr>sa_tables = t, sa_uploads = [], sa_parts = [], sa_files = [], sa_first = []\<rparr> in
      if query = select_upload_sql quoting_id then Inr (answer\<lparr>sa_uploads := t_uploads t\<rparr>)
      else if query = select_parts_sql quoting_id then Inr (answer\<lparr>sa_parts := sort_key up_part_number (t_parts t)\<rparr>)
      else if query = insert_part_sql new_row
      then Inr (answer\<lparr>sa_tables := snd (insert_or_replace_part (new_row\<lparr>up_upload_id := ''1''\<rparr>) t)\<rparr>)
      else Inl ''not considered'')"

definition two_part_upload :: "string \<Rightarrow> multipart_upload" where
  "two_part_upload i = (demo_upload i)\<lparr>mu_file_size := 8, mu_total_chunks := 2\<rparr>"

text \<open>Two uploads of two parts each, the first part of each stored.\<close>

definition two_uploads :: "string list chunk_manager" where
  "two_uploads =
     \<lparr>cs_db = \<lparr>udb_tables = \<lparr>t_files = [], t_uploads = [two_part_upload ''up1'', two_part_upload ''up2''],
         t_parts = [new_row\<lparr>up_upload_id := ''up1''\<rparr>, new_row\<lparr>up_upload_id := ''up2''\<rparr>], t_seq = 4\<rparr>,
         udb_faults = [], udb_now = 5, udb_engine = quoting_engine\<rparr>, cs_store = [], cs_slept = []\<rparr>"

definition listing_provider :: "string list storage_provider" where
  "listing_provider = demo_provider\<lparr>sp_complete_multipart :=
     (\<lambda>b k i ps p. (Inl ''stopped'', map (\<lambda>q. v_str (pi_part_number q)) ps @ p))\<rparr>"

text \<open>A completion under this identifier counts the parts of all uploads and hands the provider the first part twice; a part
  uploaded under it is recorded for an upload that does not exist.\<close>

lemma injected_completion:
  "tables_ok (udb_tables (cs_db two_uploads))
   \<and> cs_store (snd (complete_multipart listing_provider demo_md5 None quoting_id two_uploads)) = [''1'', ''1'']"
  by code_simp

lemma injected_part:
  "cr_success (fst (upload_part demo_provider quoting_id 1 [] two_uploads))
   \<and> \<not> tables_ok (udb_tables (cs_db (snd (upload_part demo_provider quoting_id 1 [] two_uploads))))"
  by code_simp

end
