(* ===== verification/Cookie.thy ===== *)
theory Cookie
  imports Codec Security
begin

text \<open>
  Cookies (\<^verbatim>\<open>cookie.v\<close>): reading the \<^verbatim>\<open>Cookie\<close> header, building \<^verbatim>\<open>Set-Cookie\<close>, and signed cookies with
  HMAC-SHA256.  A date is a record of its fields; \<^verbatim>\<open>day_of_week\<close> of the \<^verbatim>\<open>time\<close> module (1 is Monday, 7 is Sunday) is written
  out.  Formatting a date may index an array out of range, which ends the program: the value \<open>None\<close>.

  Shown here: the header that a client builds from name and value pairs is read back as those pairs; a signed cookie is
  accepted exactly when it is the value followed by a dot and the signature of the value, so what was set is read back and
  nothing else is; comparing in constant time is equality; dates on a Sunday end the program.
\<close>

unbundle bit_operations_syntax

section \<open>Options and dates\<close>

datatype same_site = SS_strict | SS_lax | SS_none

record v_time =
  tm_year :: int
  tm_month :: int
  tm_day :: int
  tm_hour :: int
  tm_minute :: int
  tm_second :: int

record cookie_options =
  co_path :: string
  co_domain :: string
  co_max_age :: int
  co_expires :: "v_time option"
  co_http_only :: bool
  co_secure :: bool
  co_same_site :: same_site

definition default_cookie_options :: cookie_options where
  "default_cookie_options =
     \<lparr>co_path = ''/'', co_domain = '''', co_max_age = 0, co_expires = None, co_http_only = False, co_secure = False,
      co_same_site = SS_lax\<rparr>"

definition options_or_default :: "cookie_options list \<Rightarrow> cookie_options" where
  "options_or_default options = (case options of opts # _ \<Rightarrow> opts | [] \<Rightarrow> default_cookie_options)"

definition day_of_week :: "v_time \<Rightarrow> int" where
  "day_of_week t =
     (let y = (if tm_month t < 3 then tm_year t - 1 else tm_year t)
      in (y + y div 4 - y div 100 + y div 400 + [0, 3, 2, 5, 0, 3, 5, 1, 4, 6, 2, 4] ! nat (tm_month t - 1) + tm_day t - 1) mod 7 + 1)"

definition time_unix_zero :: v_time where
  "time_unix_zero = \<lparr>tm_year = 1970, tm_month = 1, tm_day = 1, tm_hour = 0, tm_minute = 0, tm_second = 0\<rparr>"

text \<open>\<^verbatim>\<open>a[i]\<close> on a V array.\<close>

definition v_at :: "'a list \<Rightarrow> int \<Rightarrow> 'a option" where
  "v_at xs i = (if 0 \<le> i \<and> i < int (length xs) then Some (xs ! nat i) else None)"

text \<open>\<^verbatim>\<open>${n:02}\<close>\<close>

definition two_digits :: "int \<Rightarrow> string" where
  "two_digits n = (let s = v_str n in if length s < 2 then CHR ''0'' # s else s)"

definition format_cookie_date :: "v_time \<Rightarrow> string option" where
  "format_cookie_date t =
     (case v_at [''Sun'', ''Mon'', ''Tue'', ''Wed'', ''Thu'', ''Fri'', ''Sat''] (day_of_week t) of None \<Rightarrow> None | Some day_name \<Rightarrow>
      (case v_at [''Jan'', ''Feb'', ''Mar'', ''Apr'', ''May'', ''Jun'', ''Jul'', ''Aug'', ''Sep'', ''Oct'', ''Nov'', ''Dec''] (tm_month t - 1) of
         None \<Rightarrow> None | Some month_name \<Rightarrow>
       Some (day_name @ '', '' @ two_digits (tm_day t) @ '' '' @ month_name @ '' '' @ v_str (tm_year t) @ '' ''
         @ two_digits (tm_hour t) @ '':'' @ two_digits (tm_minute t) @ '':'' @ two_digits (tm_second t) @ '' GMT'')))"

section \<open>Reading\<close>

fun index_of :: "char \<Rightarrow> string \<Rightarrow> nat option" where
  "index_of c [] = None"
| "index_of c (d # s) = (if d = c then Some 0 else map_option Suc (index_of c s))"

definition unquote :: "string \<Rightarrow> string" where
  "unquote value =
     (if length value \<ge> 2 \<and> value ! 0 = CHR 0x22 \<and> value ! (length value - 1) = CHR 0x22
      then take (length value - 2) (drop 1 value) else value)"

definition parse_pair :: "string \<Rightarrow> (string, string) vmap \<Rightarrow> (string, string) vmap" where
  "parse_pair pair cookies =
     (let trimmed = trim_space pair in
      if length trimmed = 0 then cookies
      else case index_of (CHR ''='') trimmed of
        None \<Rightarrow> cookies
      | Some eq_pos \<Rightarrow>
        if eq_pos = 0 then cookies
        else
          let name = trim_space (take eq_pos trimmed);
              value = (if eq_pos + 1 < length trimmed then trim_space (drop (eq_pos + 1) trimmed) else '''')
          in vset name (unquote value) cookies)"

definition parse_cookie_header :: "string \<Rightarrow> (string, string) vmap" where
  "parse_cookie_header header = fold parse_pair (v_split (CHR '';'') header) []"

definition get_all_cookies :: "http_context \<Rightarrow> (string, string) vmap" where
  "get_all_cookies c =
     (case get_custom (hq_header (cx_req c)) ''Cookie'' of
        None \<Rightarrow> []
      | Some cookie_header \<Rightarrow> if length cookie_header = 0 then [] else parse_cookie_header cookie_header)"

definition get_cookie :: "http_context \<Rightarrow> string \<Rightarrow> string option" where
  "get_cookie c name =
     (case get_custom (hq_header (cx_req c)) ''Cookie'' of
        None \<Rightarrow> None
      | Some cookie_header \<Rightarrow>
        if length cookie_header = 0 then None else vget (parse_cookie_header cookie_header) name)"

section \<open>Setting\<close>

definition build_cookie_string :: "string \<Rightarrow> string \<Rightarrow> cookie_options \<Rightarrow> string option" where
  "build_cookie_string name value opts =
     (let expires = (case co_expires opts of None \<Rightarrow> Some []
            | Some t \<Rightarrow> map_option (\<lambda>s. [''Expires='' @ s]) (format_cookie_date t))
      in case expires of None \<Rightarrow> None | Some expires_part \<Rightarrow>
        Some (join_str ''; ''
          ([name @ ''='' @ value]
           @ (if length (co_path opts) > 0 then [''Path='' @ co_path opts] else [])
           @ (if length (co_domain opts) > 0 then [''Domain='' @ co_domain opts] else [])
           @ (if co_max_age opts \<noteq> 0 then [''Max-Age='' @ v_str (co_max_age opts)] else [])
           @ expires_part
           @ (if co_http_only opts then [''HttpOnly''] else [])
           @ (if co_secure opts then [''Secure''] else [])
           @ (case co_same_site opts of SS_strict \<Rightarrow> [''SameSite=Strict''] | SS_lax \<Rightarrow> [''SameSite=Lax'']
              | SS_none \<Rightarrow> [''SameSite=None'']))))"

definition append_set_cookie :: "string \<Rightarrow> http_context \<Rightarrow> http_context" where
  "append_set_cookie cookie_str c =
     (case vget (cx_headers c) ''Set-Cookie'' of
        Some existing \<Rightarrow> set_header ''Set-Cookie'' (existing @ '', '' @ cookie_str) c
      | None \<Rightarrow> set_header ''Set-Cookie'' cookie_str c)"

definition set_cookie :: "string \<Rightarrow> string \<Rightarrow> cookie_options list \<Rightarrow> http_context \<Rightarrow> http_context option" where
  "set_cookie name value options c =
     (case build_cookie_string name value (options_or_default options) of
        None \<Rightarrow> None | Some cookie_str \<Rightarrow> Some (append_set_cookie cookie_str c))"

definition delete_cookie :: "string \<Rightarrow> cookie_options list \<Rightarrow> http_context \<Rightarrow> http_context option" where
  "delete_cookie name options c =
     (let opts = options_or_default options;
          delete_opts = opts\<lparr>co_max_age := 0, co_expires := Some time_unix_zero\<rparr>
      in case build_cookie_string name '''' delete_opts of
        None \<Rightarrow> None | Some cookie_str \<Rightarrow> Some (append_set_cookie cookie_str c))"

section \<open>Signatures\<close>

definition hmac_key :: "u8 list \<Rightarrow> u8 list" where
  "hmac_key secret =
     (let key = (if length secret > 64 then sha256_sum secret else secret) in key @ replicate (64 - length key) 0)"

definition generate_hmac_signature :: "string \<Rightarrow> string \<Rightarrow> string" where
  "generate_hmac_signature value secret =
     (let key = hmac_key (v_bytes secret);
          i_key_pad = map (\<lambda>b. b XOR 0x36) key;
          o_key_pad = map (\<lambda>b. b XOR 0x5C) key;
          inner_hash = sha256_sum (i_key_pad @ v_bytes value);
          outer_hash = sha256_sum (o_key_pad @ inner_hash)
      in filter (\<lambda>c. c \<noteq> CHR ''='') (map (\<lambda>c. if c = CHR ''+'' then CHR ''-'' else if c = CHR ''/'' then CHR ''_'' else c)
           (base64_encode outer_hash)))"

definition constant_time_compare :: "string \<Rightarrow> string \<Rightarrow> bool" where
  "constant_time_compare a b =
     (if length a \<noteq> length b then False
      else fold (\<lambda>(x, y) result. result OR (x XOR y)) (zip (v_bytes a) (v_bytes b)) (0 :: u8) = 0)"

datatype cookie_error = Secret_required | Cookie_not_found string | Invalid_format | Invalid_signature

definition set_signed_cookie ::
  "string \<Rightarrow> string \<Rightarrow> string \<Rightarrow> cookie_options list \<Rightarrow> http_context \<Rightarrow> (cookie_error + http_context) option" where
  "set_signed_cookie name value secret options c =
     (if length secret = 0 then Some (Inl Secret_required)
      else
        let signature = generate_hmac_signature value secret;
            signed_value = value @ ''.'' @ signature
        in map_option Inr (set_cookie name signed_value [options_or_default options] c))"

definition get_signed_cookie :: "http_context \<Rightarrow> string \<Rightarrow> string \<Rightarrow> cookie_error + string" where
  "get_signed_cookie c name secret =
     (if length secret = 0 then Inl Secret_required
      else case get_cookie c name of
        None \<Rightarrow> Inl (Cookie_not_found name)
      | Some signed_value \<Rightarrow>
        (case last_dot signed_value of
          None \<Rightarrow> Inl Invalid_format
        | Some dot_pos \<Rightarrow>
          if dot_pos = 0 \<or> dot_pos \<ge> length signed_value - 1 then Inl Invalid_format
          else
            let value = take dot_pos signed_value;
                signature = drop (dot_pos + 1) signed_value;
                expected_signature = generate_hmac_signature value secret
            in if \<not> constant_time_compare signature expected_signature then Inl Invalid_signature
               else Inr value))"

section \<open>Comparing in constant time\<close>

lemma or_xor_zero: "(r :: u8) OR (x XOR y) = 0 \<longleftrightarrow> r = 0 \<and> x = y"
proof -
  have "x XOR y = 0 \<longleftrightarrow> x = y" by (metis xor.assoc xor.left_neutral xor.right_neutral xor_self_eq)
  then show ?thesis by (simp add: or_eq_0_iff)
qed

lemma fold_or_xor:
  "length xs = length ys \<Longrightarrow> fold (\<lambda>(x, y) r. r OR (x XOR y)) (zip xs ys) (r :: u8) = 0 \<longleftrightarrow> r = 0 \<and> xs = ys"
proof (induction xs ys arbitrary: r rule: list_induct2)
  case (Cons x xs y ys)
  then show ?case by (auto simp: or_xor_zero)
qed simp

lemma v_bytes_inj: "v_bytes a = v_bytes b \<longleftrightarrow> a = b"
  by (metis v_bytestr_bytes)

theorem constant_time_compare_eq: "constant_time_compare a b \<longleftrightarrow> a = b"
  by (auto simp: constant_time_compare_def fold_or_xor v_bytes_inj)

section \<open>The alphabet of signatures\<close>

definition signature_chars :: string where
  "signature_chars = ''ABCDEFGHIJKLMNOPQRSTUVWXYZabcdefghijklmnopqrstuvwxyz0123456789-_''"

lemma b64_char_in: "b64_char n \<in> set b64_alphabet"
proof -
  have "n mod 64 < length b64_alphabet" by (simp add: b64_alphabet_def)
  then show ?thesis unfolding b64_char_def by (rule nth_mem)
qed

lemma base64_chars: "set (base64_encode bs) \<subseteq> insert (CHR ''='') (set b64_alphabet)"
  by (induction bs rule: base64_encode.induct) (use b64_char_in in auto)

definition url_char :: "char \<Rightarrow> char" where
  "url_char c = (if c = CHR ''+'' then CHR ''-'' else if c = CHR ''/'' then CHR ''_'' else c)"

lemma url_char_alphabet: "c \<in> set b64_alphabet \<Longrightarrow> url_char c \<in> set signature_chars \<and> url_char c \<noteq> CHR ''=''"
proof -
  have "list_all (\<lambda>c. url_char c \<in> set signature_chars \<and> url_char c \<noteq> CHR ''='') b64_alphabet" by code_simp
  then show "c \<in> set b64_alphabet \<Longrightarrow> ?thesis" by (simp add: list_all_iff)
qed

lemma signature_eq:
  "\<exists>bs. length bs = 32 \<and> generate_hmac_signature value secret = filter (\<lambda>c. c \<noteq> CHR ''='') (map url_char (base64_encode bs))"
  unfolding generate_hmac_signature_def Let_def url_char_def by (rule exI, rule conjI [OF _ refl]) simp

lemma signature_alphabet: "set (generate_hmac_signature value secret) \<subseteq> set signature_chars"
proof
  fix c assume c: "c \<in> set (generate_hmac_signature value secret)"
  obtain bs where "generate_hmac_signature value secret = filter (\<lambda>c. c \<noteq> CHR ''='') (map url_char (base64_encode bs))"
    using signature_eq by blast
  with c obtain d where d: "d \<in> set (base64_encode bs)" "c = url_char d" "c \<noteq> CHR ''=''" by auto
  then have "d \<noteq> CHR ''=''" by (auto simp: url_char_def)
  with d(1) base64_chars [of bs] have "d \<in> set b64_alphabet" by auto
  with d(2) url_char_alphabet show "c \<in> set signature_chars" by blast
qed

lemma signature_nonempty: "generate_hmac_signature value secret \<noteq> ''''"
proof -
  obtain bs where bs: "length bs = 32"
    and sig: "generate_hmac_signature value secret = filter (\<lambda>c. c \<noteq> CHR ''='') (map url_char (base64_encode bs))"
    using signature_eq by blast
  obtain a b c rest where "bs = a # b # c # rest"
    using bs by (auto simp: numeral_eq_Suc length_Suc_conv)
  then obtain d ds where "base64_encode bs = d # ds" "d \<in> set b64_alphabet" using b64_char_in by (auto simp del: b64_char_def)
  with sig url_char_alphabet show ?thesis by simp
qed

lemma signature_no:
  assumes "c \<notin> set signature_chars"
  shows "c \<notin> set (generate_hmac_signature value secret)"
  using assms signature_alphabet by blast

lemma not_signature_chars: "CHR ''.'' \<notin> set signature_chars" "CHR '';'' \<notin> set signature_chars" "CHR 0x22 \<notin> set signature_chars"
  "list_all (\<lambda>c. \<not> is_space c) signature_chars"
  by code_simp+

section \<open>Signed cookies\<close>

lemma last_dot_append: "CHR ''.'' \<notin> set t \<Longrightarrow> last_dot (s @ CHR ''.'' # t) = Some (length s)"
proof -
  assume "CHR ''.'' \<notin> set t"
  then have "takeWhile (\<lambda>c. c \<noteq> CHR ''.'') (rev (s @ CHR ''.'' # t)) = rev t"
    by (simp add: takeWhile_append)
  then show ?thesis by (simp add: last_dot_def)
qed

lemma last_dot_Some:
  assumes "last_dot s = Some p"
  shows "s = take p s @ CHR ''.'' # drop (p + 1) s"
proof -
  let ?after = "takeWhile (\<lambda>c. c \<noteq> CHR ''.'') (rev s)"
  from assms have lt: "length ?after < length s" and p: "p = length s - length ?after - 1"
    by (auto simp: last_dot_def Let_def split: if_splits)
  have "rev s ! length ?after = CHR ''.''" using lt nth_length_takeWhile [of "\<lambda>c. c \<noteq> CHR ''.''" "rev s"] by simp
  moreover have "rev s ! length ?after = s ! p" using lt p by (simp add: rev_nth)
  ultimately show ?thesis using lt p id_take_nth_drop [of p s] by simp
qed

lemma signed_iff:
  "get_signed_cookie c name secret = Inr v \<longleftrightarrow>
     secret \<noteq> '''' \<and> v \<noteq> '''' \<and> get_cookie c name = Some (v @ ''.'' @ generate_hmac_signature v secret)"
  (is "?l \<longleftrightarrow> ?r")
proof
  assume ?l
  then obtain s p where s: "secret \<noteq> ''''" "get_cookie c name = Some s" "last_dot s = Some p" "p \<noteq> 0" "v = take p s"
      "drop (p + 1) s = generate_hmac_signature v secret"
    by (auto simp: get_signed_cookie_def Let_def constant_time_compare_eq split: option.splits if_splits)
  have "s = v @ ''.'' @ generate_hmac_signature v secret" using last_dot_Some [OF s(3)] s(5,6) by simp
  moreover have "v \<noteq> ''''" using s(3-5) last_dot_Some [OF s(3)] by (cases s) auto
  ultimately show ?r using s(1,2) by simp
next
  assume r: ?r
  let ?sig = "generate_hmac_signature v secret"
  have "last_dot (v @ ''.'' @ ?sig) = Some (length v)"
    using last_dot_append [OF signature_no [OF not_signature_chars(1)], of v v secret] by simp
  moreover have "0 < length ?sig" using signature_nonempty by blast
  ultimately show ?l using r by (simp add: get_signed_cookie_def constant_time_compare_eq Let_def)
qed

text \<open>C11: a signed cookie is accepted exactly when the secret and the value are not empty and the cookie is the value, a dot and
  the signature of that value under that secret; the value is returned unchanged.  So a value that was signed is read back,
  and a cookie whose value or signature was changed in any byte is refused unless the signatures collide.\<close>

theorem signed_cookie_accepted_iff:
  "get_signed_cookie c name secret = Inr v \<longleftrightarrow>
     secret \<noteq> '''' \<and> v \<noteq> '''' \<and> get_cookie c name = Some (v @ ''.'' @ generate_hmac_signature v secret)"
  by (rule signed_iff)

section \<open>What a client sends back\<close>

text \<open>A client stores name and value of a cookie and sends the pairs in one header.\<close>

definition cookie_text :: "(string \<times> string) list \<Rightarrow> string" where
  "cookie_text pairs = join_str ''; '' (map (\<lambda>(n, v). n @ ''='' @ v) pairs)"

definition clean_name :: "string \<Rightarrow> bool" where
  "clean_name n \<longleftrightarrow> n \<noteq> '''' \<and> list_all (\<lambda>c. c \<noteq> CHR '';'' \<and> c \<noteq> CHR ''='' \<and> \<not> is_space c) n"

definition clean_value :: "string \<Rightarrow> bool" where
  "clean_value v \<longleftrightarrow> list_all (\<lambda>c. c \<noteq> CHR '';'' \<and> c \<noteq> CHR 0x22 \<and> \<not> is_space c) v"

lemma index_of_append: "c \<notin> set a \<Longrightarrow> index_of c (a @ c # b) = Some (length a)"
  by (induction a) auto

lemma list_all_ends: "list_all (\<lambda>c. \<not> P c) s \<Longrightarrow> s \<noteq> [] \<Longrightarrow> \<not> P (hd s) \<and> \<not> P (last s)"
  by (auto simp: list_all_iff)

lemma trim_clean: "list_all (\<lambda>c. \<not> is_space c) s \<Longrightarrow> trim_space s = s"
  using list_all_ends [of is_space s] by (intro trim_space_id) auto

lemma trim_blank: "list_all (\<lambda>c. \<not> is_space c) s \<Longrightarrow> trim_space (CHR '' '' # s) = s"
proof -
  assume "list_all (\<lambda>c. \<not> is_space c) s"
  then have "trim_space s = s" by (rule trim_clean)
  then show ?thesis by (simp add: trim_space_def is_space_def)
qed

lemma unquote_clean: "CHR 0x22 \<notin> set v \<Longrightarrow> unquote v = v"
  by (cases v) (auto simp: unquote_def)

lemma pair_text_clean:
  assumes "clean_name n" and "clean_value v"
  shows "list_all (\<lambda>c. \<not> is_space c) (n @ ''='' @ v)" and "CHR '';'' \<notin> set (n @ ''='' @ v)"
  using assms by (auto simp: clean_name_def clean_value_def list_all_iff is_space_def)

lemma parse_pair_clean:
  assumes "clean_name n" and "clean_value v" and "trim_space pair = n @ ''='' @ v"
  shows "parse_pair pair cookies = vset n v cookies"
proof -
  have n: "n \<noteq> ''''" "CHR ''='' \<notin> set n" "list_all (\<lambda>c. \<not> is_space c) n"
    and v: "CHR 0x22 \<notin> set v" "list_all (\<lambda>c. \<not> is_space c) v"
    using assms(1,2) by (auto simp: clean_name_def clean_value_def list_all_iff)
  have "index_of (CHR ''='') (n @ ''='' @ v) = Some (length n)" using index_of_append [OF n(2), of v] by simp
  with assms(3) n v show ?thesis
    by (simp add: parse_pair_def Let_def trim_clean unquote_clean)
qed

lemma split_blank:
  "CHR '';'' \<notin> set p \<Longrightarrow> v_split (CHR '';'') (p @ CHR '';'' # CHR '' '' # s) = p # v_split (CHR '';'') (CHR '' '' # s)"
  by (rule v_split_append_delim)

lemma parse_blank_list:
  assumes "ps \<noteq> []" and "list_all (\<lambda>(n, v). clean_name n \<and> clean_value v) ps"
  shows "fold parse_pair (v_split (CHR '';'') (CHR '' '' # cookie_text ps)) m = fold (\<lambda>(n, v). vset n v) ps m"
  using assms
proof (induction ps arbitrary: m)
  case (Cons q ps)
  obtain n v where q: "q = (n, v)" by (cases q)
  with Cons.prems have c: "clean_name n" "clean_value v" by auto
  let ?p = "n @ ''='' @ v"
  note pc = pair_text_clean [OF c]
  have first: "parse_pair (CHR '' '' # ?p) m = vset n v m"
    by (rule parse_pair_clean [OF c trim_blank [OF pc(1)]])
  show ?case
  proof (cases ps)
    case Nil
    have "v_split (CHR '';'') (CHR '' '' # ?p) = [CHR '' '' # ?p]" using pc(2) by (intro v_split_no_delim) simp
    with Nil q first show ?thesis by (simp add: cookie_text_def)
  next
    case (Cons r rs)
    have "cookie_text (q # ps) = ?p @ CHR '';'' # CHR '' '' # cookie_text ps"
      using q Cons by (simp add: cookie_text_def)
    then have "v_split (CHR '';'') (CHR '' '' # cookie_text (q # ps))
        = (CHR '' '' # ?p) # v_split (CHR '';'') (CHR '' '' # cookie_text ps)"
      using split_blank [of "CHR '' '' # ?p" "cookie_text ps"] pc(2) by simp
    with first q Cons.IH [of "vset n v m"] Cons Cons.prems show ?thesis by simp
  qed
qed simp

lemma parse_cookie_text:
  assumes "list_all (\<lambda>(n, v). clean_name n \<and> clean_value v) ps"
  shows "parse_cookie_header (cookie_text ps) = fold (\<lambda>(n, v). vset n v) ps []"
proof (cases ps)
  case Nil
  then show ?thesis by (simp add: parse_cookie_header_def cookie_text_def parse_pair_def)
next
  case (Cons q rs)
  obtain n v where q: "q = (n, v)" by (cases q)
  with assms Cons have c: "clean_name n" "clean_value v" by auto
  let ?p = "n @ ''='' @ v"
  note pc = pair_text_clean [OF c]
  have first: "parse_pair ?p [] = vset n v []" by (rule parse_pair_clean [OF c trim_clean [OF pc(1)]])
  show ?thesis
  proof (cases rs)
    case Nil
    with Cons q first v_split_no_delim [OF pc(2)] show ?thesis
      by (simp add: parse_cookie_header_def cookie_text_def)
  next
    case (Cons r rest)
    have "cookie_text ps = ?p @ CHR '';'' # CHR '' '' # cookie_text rs"
      using q Cons \<open>ps = q # rs\<close> by (simp add: cookie_text_def)
    then show ?thesis
      using split_blank [OF pc(2), of "cookie_text rs"] first q parse_blank_list [of rs "vset n v []"] assms Cons \<open>ps = q # rs\<close>
      by (simp add: parse_cookie_header_def)
  qed
qed

lemma fold_vset_distinct: "distinct (map fst (m @ ps)) \<Longrightarrow> fold (\<lambda>(n, v). vset n v) ps m = m @ ps"
proof (induction ps arbitrary: m)
  case (Cons q ps)
  obtain n v where q: "q = (n, v)" by (cases q)
  with Cons.prems have "vget m n = None" by (auto simp: vget_None_iff)
  with Cons.IH [of "m @ [(n, v)]"] Cons.prems q show ?case by (simp add: vset_new)
qed simp

text \<open>C35: the header that a client builds from any list of distinct name and value pairs is read back as exactly those
  pairs, in order.\<close>

theorem cookie_header_roundtrip:
  assumes "list_all (\<lambda>(n, v). clean_name n \<and> clean_value v) ps" and "distinct (map fst ps)"
  shows "parse_cookie_header (cookie_text ps) = ps"
  using parse_cookie_text [OF assms(1)] fold_vset_distinct [of "[]" ps] assms(2) by simp

lemma cookie_header_roundtrip_witness:
  "parse_cookie_header ''sid=a1; theme=dark=1; x='' = [(''sid'', ''a1''), (''theme'', ''dark=1''), (''x'', '''')]"
proof -
  have "list_all (\<lambda>(n, v). clean_name n \<and> clean_value v) [(''sid'', ''a1''), (''theme'', ''dark=1''), (''x'', '''')]" by code_simp
  from cookie_header_roundtrip [OF this] show ?thesis by (simp add: cookie_text_def)
qed

definition with_cookies :: "(string \<times> string) list \<Rightarrow> http_context \<Rightarrow> http_context" where
  "with_cookies ps c = c\<lparr>cx_req := (cx_req c)\<lparr>hq_header := [(''Cookie'', cookie_text ps)]\<rparr>\<rparr>"

lemma get_cookie_sent:
  assumes "list_all (\<lambda>(n, v). clean_name n \<and> clean_value v) ps" and "distinct (map fst ps)"
  shows "get_cookie (with_cookies ps c) name = vget ps name"
proof -
  have "parse_cookie_header (cookie_text ps) = ps"
    using parse_cookie_text [OF assms(1)] fold_vset_distinct [of "[]" ps] assms(2) by simp
  moreover have "ps = []" if "cookie_text ps = ''''"
    using that calculation by (simp add: parse_cookie_header_def parse_pair_def)
  ultimately show ?thesis
    by (auto simp: get_cookie_def with_cookies_def get_custom_def)
qed

lemma signature_clean: "clean_value v \<Longrightarrow> clean_value (v @ ''.'' @ generate_hmac_signature v secret)"
proof -
  assume "clean_value v"
  moreover have "c \<noteq> CHR '';'' \<and> c \<noteq> CHR 0x22 \<and> \<not> is_space c" if "c \<in> set signature_chars" for c
    using that not_signature_chars by (auto simp: list_all_iff)
  moreover have "\<not> is_space (CHR ''.'')" by code_simp
  ultimately show ?thesis
    using signature_alphabet [of v secret] by (auto simp: clean_value_def list_all_iff)
qed

text \<open>The text of a cookie starts with name and value.\<close>

lemma build_cookie_prefix: "build_cookie_string name value opts = Some s \<Longrightarrow> \<exists>rest. s = name @ ''='' @ value @ ''; '' @ rest"
proof -
  assume b: "build_cookie_string name value opts = Some s"
  have "\<exists>rest. join_str ''; '' ([p] @ qs @ [q]) = p @ ''; '' @ rest" for p q qs
    by (cases qs) auto
  with b show ?thesis
    by (auto simp: build_cookie_string_def Let_def split: option.splits same_site.splits)
qed

text \<open>A value signed by \<^verbatim>\<open>set_signed_cookie\<close> and sent back by the client, among any other cookies, is what
  \<^verbatim>\<open>get_signed_cookie\<close> returns under the same secret.\<close>

theorem signed_cookie_roundtrip:
  assumes "set_signed_cookie name value secret options c = Some (Inr c')" and "value \<noteq> ''''"
    and "list_all (\<lambda>(n, v). clean_name n \<and> clean_value v) ((name, value) # others)" and "distinct (name # map fst others)"
  shows "get_signed_cookie (with_cookies ((name, value @ ''.'' @ generate_hmac_signature value secret) # others) d) name secret = Inr value"
proof -
  have "secret \<noteq> ''''" using assms(1) by (auto simp: set_signed_cookie_def split: if_splits)
  moreover have "get_cookie (with_cookies ((name, value @ ''.'' @ generate_hmac_signature value secret) # others) d) name
      = Some (value @ ''.'' @ generate_hmac_signature value secret)"
    using get_cookie_sent [of "(name, value @ ''.'' @ generate_hmac_signature value secret) # others" d name] assms(3,4)
      signature_clean [of "value" secret] by simp
  ultimately show ?thesis using assms(2) by (simp add: signed_iff)
qed

definition demo_cookie_context :: http_context where
  "demo_cookie_context =
     \<lparr>cx_req = \<lparr>hq_method = ''GET'', hq_url = ''/'', hq_header = [], hq_data = ''''\<rparr>, cx_params = [], cx_query = [],
      cx_url = ''/'', cx_path = ''/'', cx_status_code = 200, cx_headers = [], cx_body = '''', cx_store = []\<rparr>"

lemma signed_cookie_roundtrip_witness:
  "get_signed_cookie (with_cookies [(''sid'', ''u7'' @ ''.'' @ generate_hmac_signature ''u7'' ''k''), (''t'', ''1'')] demo_cookie_context)
     ''sid'' ''k'' = Inr ''u7''"
proof -
  have set: "set_signed_cookie ''sid'' ''u7'' ''k'' [] demo_cookie_context
    = Some (Inr (append_set_cookie (join_str ''; '' [''sid='' @ ''u7'' @ ''.'' @ generate_hmac_signature ''u7'' ''k'', ''Path=/'', ''SameSite=Lax''])
        demo_cookie_context))"
    by (simp add: set_signed_cookie_def set_cookie_def build_cookie_string_def options_or_default_def default_cookie_options_def)
  have clean: "list_all (\<lambda>(n, v). clean_name n \<and> clean_value v) [(''sid'', ''u7''), (''t'', ''1'')]" by code_simp
  show ?thesis
    using signed_cookie_roundtrip [OF set _ clean, of demo_cookie_context] by simp
qed

text \<open>Behaviours worth knowing: an empty value cannot be signed and read back; a date that falls on a Sunday ends the program;
  several cookies share one header field, joined by commas.\<close>

lemma signed_empty_value_refused: "get_signed_cookie c name secret \<noteq> Inr ''''"
  by (simp add: signed_iff)

theorem cookie_date_panics:
  assumes "1 \<le> tm_month t" and "tm_month t \<le> 12"
  shows "format_cookie_date t = None \<longleftrightarrow> day_of_week t = 7"
proof -
  have "1 \<le> z mod 7 + 1 \<and> z mod 7 + 1 \<le> 7" for z :: int using pos_mod_bound [of 7 z] by auto
  then have "1 \<le> day_of_week t \<and> day_of_week t \<le> 7" unfolding day_of_week_def Let_def by blast
  with assms show ?thesis by (auto simp: format_cookie_date_def v_at_def)
qed

lemma cookie_date_examples:
  "format_cookie_date \<lparr>tm_year = 2021, tm_month = 6, tm_day = 9, tm_hour = 10, tm_minute = 18, tm_second = 14\<rparr>
     = Some ''Wed, 09 Jun 2021 10:18:14 GMT''"
  "format_cookie_date \<lparr>tm_year = 2021, tm_month = 6, tm_day = 6, tm_hour = 0, tm_minute = 0, tm_second = 0\<rparr> = None"
  "format_cookie_date time_unix_zero = Some ''Thu, 01 Jan 1970 00:00:00 GMT''"
  by code_simp+

lemma set_cookie_twice:
  "map_option (\<lambda>c. vget (cx_headers c) ''Set-Cookie'')
     (Option.bind (set_cookie ''a'' ''1'' [] demo_cookie_context) (set_cookie ''b'' ''2'' []))
   = Some (Some ''a=1; Path=/; SameSite=Lax, b=2; Path=/; SameSite=Lax'')"
  by code_simp

end
