(* ===== verification/Cors.thy ===== *)
theory Cors
  imports Http_Context
begin

text \<open>
  The CORS middleware of \<^verbatim>\<open>cors.v\<close>: options, the choice of the allowed origin, the fields set on the context, and the answer to
  a preflight request.

  Shown here: for a fixed list of origins a response carries \<^verbatim>\<open>Access-Control-Allow-Origin\<close> exactly when the origin of the request
  is listed, with the value that the list gives it; a request without an allowed origin passes through unchanged; a
  preflight request of an allowed origin does not reach the handlers.
\<close>

section \<open>The middleware\<close>

datatype cors_origin =
  Origin_string string
| Origin_list "string list"
| Origin_fn "string \<Rightarrow> http_context \<Rightarrow> string"

record cors_options =
  cors_origin_config :: cors_origin
  cors_allow_methods :: "string list"
  cors_allow_headers :: "string list"
  cors_expose_headers :: "string list"
  cors_max_age :: int
  cors_credentials :: bool

definition default_cors_options :: cors_options where
  "default_cors_options =
     \<lparr>cors_origin_config = Origin_string ''*'', cors_allow_methods = [''GET'', ''HEAD'', ''PUT'', ''POST'', ''DELETE'', ''PATCH''],
      cors_allow_headers = [], cors_expose_headers = [], cors_max_age = 0, cors_credentials = False\<rparr>"

fun first_allowed :: "string \<Rightarrow> string list \<Rightarrow> string" where
  "first_allowed request_origin [] = ''''"
| "first_allowed request_origin (allowed # rest) =
     (if allowed = ''*'' then ''*'' else if allowed = request_origin then request_origin else first_allowed request_origin rest)"

definition get_allowed_origin :: "string \<Rightarrow> cors_origin \<Rightarrow> http_context \<Rightarrow> string" where
  "get_allowed_origin request_origin origin_config c =
     (case origin_config of
        Origin_string s \<Rightarrow> if s = ''*'' then ''*'' else if s = request_origin then request_origin else ''''
      | Origin_list allowed \<Rightarrow> first_allowed request_origin allowed
      | Origin_fn f \<Rightarrow> f request_origin c)"

definition handle_preflight :: "cors_options \<Rightarrow> http_context \<Rightarrow> http_response \<times> http_context" where
  "handle_preflight opts c =
     (let c1 = (if cors_allow_methods opts \<noteq> []
                then set_header ''Access-Control-Allow-Methods'' (join_str '', '' (cors_allow_methods opts)) c else c);
          c2 = (if cors_allow_headers opts \<noteq> []
                then set_header ''Access-Control-Allow-Headers'' (join_str '', '' (cors_allow_headers opts)) c1
                else case get_custom (hq_header (cx_req c1)) ''Access-Control-Request-Headers'' of
                  Some request_headers \<Rightarrow> set_header ''Access-Control-Allow-Headers'' request_headers c1
                | None \<Rightarrow> c1);
          c3 = (if cors_max_age opts > 0 then set_header ''Access-Control-Max-Age'' (v_str (cors_max_age opts)) c2 else c2);
          c4 = context_status 204 c3
      in (build_headers_response '''' c4, c4))"

definition cors_headers :: "cors_options \<Rightarrow> string \<Rightarrow> http_context \<Rightarrow> http_context" where
  "cors_headers opts allowed_origin c =
     (let c1 = set_header ''Access-Control-Allow-Origin'' allowed_origin c;
          c2 = (if cors_credentials opts then set_header ''Access-Control-Allow-Credentials'' ''true'' c1 else c1)
      in if cors_expose_headers opts \<noteq> []
         then set_header ''Access-Control-Expose-Headers'' (join_str '', '' (cors_expose_headers opts)) c2 else c2)"

definition cors :: "cors_options list \<Rightarrow> context_middleware" where
  "cors options c next_fn =
     (let opts = (case options of [] \<Rightarrow> default_cors_options | o1 # _ \<Rightarrow> o1);
          origin = (case get_custom (hq_header (cx_req c)) ''Origin'' of Some o1 \<Rightarrow> o1 | None \<Rightarrow> '''')
      in if origin = '''' then next_fn c
         else let allowed_origin = get_allowed_origin origin (cors_origin_config opts) c
           in if allowed_origin = '''' then next_fn c
              else let c1 = cors_headers opts allowed_origin c
                in if hq_method (cx_req c1) = ''OPTIONS'' then handle_preflight opts c1 else next_fn c1)"

section \<open>Which origin is allowed\<close>

text \<open>The origin that a fixed configuration grants to the origin of a request.\<close>

definition granted :: "cors_origin \<Rightarrow> string \<Rightarrow> string option" where
  "granted config request_origin =
     (case config of
        Origin_string s \<Rightarrow> if s \<in> {''*'', request_origin} then Some s else None
      | Origin_list allowed \<Rightarrow> List.find (\<lambda>s. s \<in> {''*'', request_origin}) allowed
      | Origin_fn _ \<Rightarrow> None)"

definition fixed_origins :: "cors_origin \<Rightarrow> bool" where
  "fixed_origins config = (case config of Origin_fn _ \<Rightarrow> False | _ \<Rightarrow> True)"

definition request_origin :: "http_context \<Rightarrow> string" where
  "request_origin c = (case get_custom (hq_header (cx_req c)) ''Origin'' of Some o1 \<Rightarrow> o1 | None \<Rightarrow> '''')"

lemma allowed_origin_granted:
  assumes "fixed_origins config" and "ro \<noteq> ''''"
  shows "get_allowed_origin ro config c = (case granted config ro of Some s \<Rightarrow> s | None \<Rightarrow> '''')"
    and "granted config ro = Some s \<Longrightarrow> s \<noteq> ''''"
proof -
  have "first_allowed ro xs = (case List.find (\<lambda>s. s = ''*'' \<or> s = ro) xs of Some s \<Rightarrow> s | None \<Rightarrow> '''')" for xs
    by (induction xs) auto
  then show "get_allowed_origin ro config c = (case granted config ro of Some s \<Rightarrow> s | None \<Rightarrow> '''')"
    using assms(1) by (auto simp: get_allowed_origin_def granted_def fixed_origins_def split: cors_origin.splits)
  show "granted config ro = Some s \<Longrightarrow> s \<noteq> ''''"
    using assms by (auto simp: granted_def find_Some_iff fixed_origins_def split: cors_origin.splits if_splits)
qed

lemma cors_granted:
  assumes "fixed_origins (cors_origin_config opts)" and "request_origin c \<noteq> ''''"
  shows "cors (opts # others) c next_fn =
    (case granted (cors_origin_config opts) (request_origin c) of
       None \<Rightarrow> next_fn c
     | Some s \<Rightarrow> if hq_method (cx_req c) = ''OPTIONS'' then handle_preflight opts (cors_headers opts s c)
         else next_fn (cors_headers opts s c))"
proof -
  have "cx_req (cors_headers opts s c) = cx_req c" for s
    by (simp add: cors_headers_def set_header_def Let_def)
  then show ?thesis
    using allowed_origin_granted [OF assms] assms(2)
    by (auto simp: cors_def request_origin_def Let_def split: option.splits)
qed

text \<open>A request without an origin, or without an allowed one, passes through.\<close>

theorem cors_transparent:
  assumes "fixed_origins (cors_origin_config opts)"
    and "request_origin c = '''' \<or> granted (cors_origin_config opts) (request_origin c) = None"
  shows "cors (opts # others) c next_fn = next_fn c"
proof (cases "request_origin c = ''''")
  case True
  then show ?thesis by (auto simp: cors_def request_origin_def Let_def split: option.splits)
qed (use assms cors_granted in auto)

text \<open>The preflight request of an allowed origin is answered with status 204 and never reaches the handler.\<close>

theorem cors_preflight:
  assumes "fixed_origins (cors_origin_config opts)" and "request_origin c \<noteq> ''''"
    and "granted (cors_origin_config opts) (request_origin c) = Some s" and "hq_method (cx_req c) = ''OPTIONS''"
  shows "cors (opts # others) c next_fn = cors (opts # others) c next_fn'"
    and "rs_status_code (fst (cors (opts # others) c next_fn)) = 204" and "rs_body (fst (cors (opts # others) c next_fn)) = ''''"
  using assms by (simp_all add: cors_granted handle_preflight_def build_headers_response_def context_status_def Let_def)

section \<open>What the response says\<close>

text \<open>No field of the context has the given name in another case.\<close>

definition clear_name :: "string \<Rightarrow> http_context \<Rightarrow> bool" where
  "clear_name name c \<longleftrightarrow> list_all (\<lambda>(k, v). v_to_lower k = v_to_lower name \<longrightarrow> k = name) (cx_headers c)"

lemma list_all_vset: "list_all P m \<Longrightarrow> P (k, v) \<Longrightarrow> list_all P (vset k v m)"
  by (induction m) auto

lemma clear_name_set_header:
  "clear_name name c \<Longrightarrow> (v_to_lower k = v_to_lower name \<longrightarrow> k = name) \<Longrightarrow> clear_name name (set_header k v c)"
  by (simp add: clear_name_def set_header_def list_all_vset)

lemma find_field:
  assumes "list_all (\<lambda>(k, v). v_to_lower k = v_to_lower name \<longrightarrow> k = name) kvs" and "valid_header_name name"
  shows "map_option snd (List.find (\<lambda>(k, v). v_to_lower k = v_to_lower name) (filter (\<lambda>(k, v). valid_header_name k) kvs))
    = vget kvs name"
  using assms
proof (induction kvs)
  case (Cons kv kvs)
  obtain k v where kv: "kv = (k, v)" by (cases kv)
  show ?case
  proof (cases "k = name")
    case True
    then show ?thesis using Cons.prems(2) by (simp add: kv)
  next
    case False
    then have "v_to_lower k \<noteq> v_to_lower name" using Cons.prems(1) by (simp add: kv)
    then show ?thesis using False Cons.IH [OF _ Cons.prems(2)] Cons.prems(1) by (simp add: kv)
  qed
qed simp

lemma field_of_context:
  assumes "clear_name name c" and "valid_header_name name"
    and "list_all (\<lambda>(k, v). v_to_lower k \<noteq> v_to_lower name) h"
  shows "get_custom (add_context_headers c h) name = vget (cx_headers c) name"
proof -
  have "List.find P (h @ xs) = List.find P xs" if "list_all (\<lambda>x. \<not> P x) h" for P :: "string \<times> string \<Rightarrow> bool" and xs
    using that by (induction h) auto
  from this [of "\<lambda>(k, v). v_to_lower k = v_to_lower name"] show ?thesis
    using assms find_field [of name "cx_headers c"]
    by (simp add: get_custom_def add_context_headers_eq clear_name_def case_prod_unfold)
qed

lemma origin_names:
  "valid_header_name ''Access-Control-Allow-Origin''"
  "v_to_lower ''Access-Control-Allow-Origin'' = ''access-control-allow-origin''"
  "v_to_lower ''Access-Control-Allow-Credentials'' = ''access-control-allow-credentials''"
  "v_to_lower ''Access-Control-Expose-Headers'' = ''access-control-expose-headers''"
  "v_to_lower ''Access-Control-Allow-Methods'' = ''access-control-allow-methods''"
  "v_to_lower ''Access-Control-Allow-Headers'' = ''access-control-allow-headers''"
  "v_to_lower ''Access-Control-Max-Age'' = ''access-control-max-age''"
  "v_to_lower ''Connection'' = ''connection''" "v_to_lower ''Content-Type'' = ''content-type''"
  by code_simp+

definition acao :: string where
  "acao = ''Access-Control-Allow-Origin''"

lemma acao_facts: "valid_header_name acao" "v_to_lower acao = ''access-control-allow-origin''"
  by (simp_all add: acao_def origin_names)

lemma set_header_other:
  "clear_name acao c \<Longrightarrow> v_to_lower k \<noteq> ''access-control-allow-origin''
    \<Longrightarrow> clear_name acao (set_header k v c) \<and> vget (cx_headers (set_header k v c)) acao = vget (cx_headers c) acao"
  using clear_name_set_header [of acao c k v] acao_facts(2) by (auto simp: set_header_def)

lemma cors_headers_origin:
  assumes "clear_name acao c"
  shows "clear_name acao (cors_headers opts s c) \<and> vget (cx_headers (cors_headers opts s c)) acao = Some s"
proof -
  have 1: "clear_name acao (set_header acao s c) \<and> vget (cx_headers (set_header acao s c)) acao = Some s"
    using assms clear_name_set_header [of acao c acao s] by (simp add: set_header_def)
  show ?thesis
    using 1 by (auto simp: cors_headers_def Let_def acao_def [symmetric] set_header_other origin_names)
qed

lemma preflight_origin:
  assumes "clear_name acao c"
  shows "get_custom (rs_header (fst (handle_preflight opts c))) acao = vget (cx_headers c) acao"
proof -
  have status: "clear_name acao (context_status s d) \<longleftrightarrow> clear_name acao d" "cx_headers (context_status s d) = cx_headers d" for s d
    by (simp_all add: context_status_def clear_name_def)
  have conn: "list_all (\<lambda>(k, v). v_to_lower k \<noteq> v_to_lower acao) (add_custom ''Connection'' ''keep-alive'' [])"
    by (simp add: add_custom_def acao_facts origin_names)
  have resp: "get_custom (rs_header (build_headers_response body d)) acao = vget (cx_headers d) acao" if "clear_name acao d" for body d
    using field_of_context [OF that acao_facts(1) conn] by (simp add: build_headers_response_def)
  show ?thesis
    using assms by (auto simp: handle_preflight_def Let_def resp status set_header_other origin_names split: option.splits)
qed

lemma respond_origin:
  assumes "clear_name acao c"
  shows "get_custom (rs_header (context_respond t data c)) acao = vget (cx_headers c) acao"
  using field_of_context [OF assms acao_facts(1), of "add_custom ''Connection'' ''keep-alive'' (add_custom ''Content-Type'' t [])"]
  by (simp add: context_respond_def add_custom_def acao_facts origin_names)

text \<open>With a fixed configuration and a handler that answers with the fields of its context, the response names an allowed
  origin exactly when the request has an origin and the configuration grants one: the first entry of the list that is a star or
  the origin itself, for a preflight request as for any other.\<close>

theorem cors_header_exact:
  assumes "fixed_origins (cors_origin_config opts)" and "clear_name acao c" and "vget (cx_headers c) acao = None"
  shows "get_custom (rs_header (fst (cors (opts # others) c (\<lambda>c. (context_respond (t c) (data c) c, c))))) acao
    = (if request_origin c = '''' then None else granted (cors_origin_config opts) (request_origin c))"
proof (cases "request_origin c = '''' \<or> granted (cors_origin_config opts) (request_origin c) = None")
  case True
  then show ?thesis using assms by (auto simp: cors_transparent respond_origin)
next
  case False
  then obtain s where "granted (cors_origin_config opts) (request_origin c) = Some s" "request_origin c \<noteq> ''''" by auto
  then show ?thesis
    using assms(1,2) cors_headers_origin [OF assms(2), of opts s]
    by (simp add: cors_granted preflight_origin respond_origin)
qed

definition demo_cors_context :: "string \<Rightarrow> http_context" where
  "demo_cors_context m =
     \<lparr>cx_req = \<lparr>hq_method = m, hq_url = ''/'', hq_header = [(''Origin'', ''https://a.test'')], hq_data = ''''\<rparr>, cx_params = [], cx_query = [],
      cx_url = ''/'', cx_path = ''/'', cx_status_code = 200, cx_headers = [], cx_body = '''', cx_store = []\<rparr>"

definition demo_cors_options :: cors_options where
  "demo_cors_options = default_cors_options\<lparr>cors_origin_config := Origin_list [''https://b.test'', ''https://a.test'']\<rparr>"

lemma demo_cors_facts:
  "fixed_origins (cors_origin_config demo_cors_options)" "clear_name acao (demo_cors_context m)"
  "vget (cx_headers (demo_cors_context m)) acao = None" "request_origin (demo_cors_context m) = ''https://a.test''"
  "granted (cors_origin_config demo_cors_options) ''https://a.test'' = Some ''https://a.test''"
  by (simp_all add: demo_cors_options_def demo_cors_context_def fixed_origins_def clear_name_def request_origin_def get_custom_def
      granted_def)

theorem cors_header_exact_witness:
  "get_custom (rs_header (fst (cors [demo_cors_options] (demo_cors_context ''OPTIONS'')
      (\<lambda>c. (context_respond ''text/plain'' ''hello'' c, c))))) acao = Some ''https://a.test''"
  using cors_header_exact [OF demo_cors_facts(1-3), of "[]" "''OPTIONS''" "\<lambda>_. ''text/plain''" "\<lambda>_. ''hello''"]
  by (simp add: demo_cors_facts)

text \<open>The default origin with credentials gives a combination that browsers refuse: any origin, with credentials.\<close>

theorem wildcard_with_credentials:
  "map (vget (cx_headers (cors_headers (default_cors_options\<lparr>cors_credentials := True\<rparr>) ''*'' (demo_cors_context ''GET''))))
     [acao, ''Access-Control-Allow-Credentials''] = [Some ''*'', Some ''true'']"
  by (simp add: cors_headers_def Let_def set_header_def acao_def demo_cors_context_def default_cors_options_def)

end
