(* ===== verification/Storage_Errors.thy ===== *)
theory Storage_Errors
  imports Http_Context
begin

text \<open>
  The errors of the storage back ends (\<^verbatim>\<open>storage_errors.v\<close>): kinds, the error record with its constructors, the tables from HTTP
  status and provider codes to kinds, and reading code and message out of an XML answer.  Reading slices the text between two
  tags; a slice whose bounds are out of order ends the program, the value \<open>None\<close>.  Times are arguments.

  Shown here: which kinds are worth a retry, and when reading an answer ends the program.
\<close>

section \<open>Kinds\<close>

datatype storage_error_kind =
  SE_network_timeout | SE_service_unavailable | SE_rate_limited | SE_connection_reset | SE_temporary_failure
| SE_invalid_credentials | SE_access_denied | SE_bucket_not_found | SE_object_not_found | SE_invalid_object_key
| SE_quota_exceeded | SE_invalid_config | SE_bucket_not_empty | SE_bucket_already_exists | SE_object_already_exists
| SE_invalid_range | SE_checksum_mismatch | SE_unknown

text \<open>The name that string interpolation prints.\<close>

primrec kind_name :: "storage_error_kind \<Rightarrow> string" where
  "kind_name SE_network_timeout = ''network_timeout''"
| "kind_name SE_service_unavailable = ''service_unavailable''"
| "kind_name SE_rate_limited = ''rate_limited''"
| "kind_name SE_connection_reset = ''connection_reset''"
| "kind_name SE_temporary_failure = ''temporary_failure''"
| "kind_name SE_invalid_credentials = ''invalid_credentials''"
| "kind_name SE_access_denied = ''access_denied''"
| "kind_name SE_bucket_not_found = ''bucket_not_found''"
| "kind_name SE_object_not_found = ''object_not_found''"
| "kind_name SE_invalid_object_key = ''invalid_object_key''"
| "kind_name SE_quota_exceeded = ''quota_exceeded''"
| "kind_name SE_invalid_config = ''invalid_config''"
| "kind_name SE_bucket_not_empty = ''bucket_not_empty''"
| "kind_name SE_bucket_already_exists = ''bucket_already_exists''"
| "kind_name SE_object_already_exists = ''object_already_exists''"
| "kind_name SE_invalid_range = ''invalid_range''"
| "kind_name SE_checksum_mismatch = ''checksum_mismatch''"
| "kind_name SE_unknown = ''unknown''"

record retry_attempt =
  ra_attempt_number :: int
  ra_timestamp :: int
  ra_error_message :: string
  ra_delay_ms :: int

record storage_error =
  se_kind :: storage_error_kind
  se_message :: string
  se_provider :: string
  se_operation :: string
  se_http_status :: int
  se_retry_count :: int
  se_details :: "(string, string) vmap"
  se_retry_history :: "retry_attempt list"

definition is_retryable :: "storage_error \<Rightarrow> bool" where
  "is_retryable e \<longleftrightarrow> se_kind e \<in>
     {SE_network_timeout, SE_service_unavailable, SE_rate_limited, SE_connection_reset, SE_temporary_failure}"

definition suggested_retry_delay :: "storage_error \<Rightarrow> int" where
  "suggested_retry_delay e =
     (case se_kind e of SE_rate_limited \<Rightarrow> 5000 | SE_service_unavailable \<Rightarrow> 2000 | SE_network_timeout \<Rightarrow> 1000
      | SE_connection_reset \<Rightarrow> 500 | SE_temporary_failure \<Rightarrow> 1000 | _ \<Rightarrow> 0)"

definition error_category :: "storage_error \<Rightarrow> string" where
  "error_category e = (if is_retryable e then ''retryable'' else ''non_retryable'')"

definition error_msg :: "storage_error \<Rightarrow> string" where
  "error_msg e =
     se_provider e @ ''/'' @ se_operation e @ '': '' @ se_message e @ '' (kind: '' @ kind_name (se_kind e) @ '', http_status: ''
     @ v_str (se_http_status e) @ '')''"

definition error_code :: "storage_error \<Rightarrow> int" where
  "error_code e = se_http_status e"

definition add_retry_attempt :: "int \<Rightarrow> int \<Rightarrow> string \<Rightarrow> int \<Rightarrow> storage_error \<Rightarrow> storage_error" where
  "add_retry_attempt now attempt_number error_message delay_ms e =
     e\<lparr>se_retry_history := se_retry_history e @
        [\<lparr>ra_attempt_number = attempt_number, ra_timestamp = now, ra_error_message = error_message, ra_delay_ms = delay_ms\<rparr>]\<rparr>"

definition retry_summary :: "storage_error \<Rightarrow> string" where
  "retry_summary e =
     (if se_retry_history e = [] then ''No retry attempts''
      else ''Retry attempts: '' @ v_str (int (length (se_retry_history e))) @ [CHR 0x0A]
        @ concat (map (\<lambda>a. ''  Attempt '' @ v_str (ra_attempt_number a) @ '': '' @ ra_error_message a @ '' (delay: ''
            @ v_str (ra_delay_ms a) @ ''ms)'' @ [CHR 0x0A]) (se_retry_history e)))"

section \<open>Constructors\<close>

definition new_storage_error_with_details ::
  "storage_error_kind \<Rightarrow> string \<Rightarrow> string \<Rightarrow> string \<Rightarrow> int \<Rightarrow> (string, string) vmap \<Rightarrow> storage_error" where
  "new_storage_error_with_details kind message provider operation http_status details =
     \<lparr>se_kind = kind, se_message = message, se_provider = provider, se_operation = operation, se_http_status = http_status,
      se_retry_count = 0, se_details = details, se_retry_history = []\<rparr>"

definition new_storage_error_with_status :: "storage_error_kind \<Rightarrow> string \<Rightarrow> string \<Rightarrow> string \<Rightarrow> int \<Rightarrow> storage_error" where
  "new_storage_error_with_status kind message provider operation http_status =
     \<lparr>se_kind = kind, se_message = message, se_provider = provider, se_operation = operation, se_http_status = http_status,
      se_retry_count = 0, se_details = [], se_retry_history = []\<rparr>"

definition new_storage_error :: "storage_error_kind \<Rightarrow> string \<Rightarrow> string \<Rightarrow> string \<Rightarrow> storage_error" where
  "new_storage_error kind message provider operation =
     \<lparr>se_kind = kind, se_message = message, se_provider = provider, se_operation = operation, se_http_status = 0,
      se_retry_count = 0, se_details = [], se_retry_history = []\<rparr>"

text \<open>\<^verbatim>\<open>StorageError{}\<close>: the first kind and empty fields.\<close>

definition no_storage_error :: storage_error where
  "no_storage_error = new_storage_error SE_network_timeout '''' '''' ''''"

definition new_config_error :: "string \<Rightarrow> string \<Rightarrow> storage_error" where
  "new_config_error message field =
     new_storage_error_with_details SE_invalid_config message ''config'' ''validate'' 0 [(''field'', field)]"

definition new_not_found_error :: "string \<Rightarrow> string \<Rightarrow> string \<Rightarrow> storage_error" where
  "new_not_found_error provider bucket key =
     new_storage_error_with_details SE_object_not_found (''Object not found: '' @ bucket @ ''/'' @ key) provider ''get'' 404
       [(''bucket'', bucket), (''key'', key)]"

definition new_bucket_not_found_error :: "string \<Rightarrow> string \<Rightarrow> storage_error" where
  "new_bucket_not_found_error provider bucket =
     new_storage_error_with_details SE_bucket_not_found (''Bucket not found: '' @ bucket) provider ''bucket'' 404 [(''bucket'', bucket)]"

definition new_access_denied_error :: "string \<Rightarrow> string \<Rightarrow> string \<Rightarrow> storage_error" where
  "new_access_denied_error provider operation resource =
     new_storage_error_with_details SE_access_denied (''Access denied to resource: '' @ resource) provider operation 403
       [(''resource'', resource)]"

definition new_timeout_error :: "string \<Rightarrow> string \<Rightarrow> storage_error" where
  "new_timeout_error provider operation =
     new_storage_error SE_network_timeout (''Network timeout during '' @ operation) provider operation"

definition new_service_unavailable_error :: "string \<Rightarrow> string \<Rightarrow> string \<Rightarrow> storage_error" where
  "new_service_unavailable_error provider operation message =
     new_storage_error_with_status SE_service_unavailable message provider operation 503"

definition new_rate_limited_error :: "string \<Rightarrow> string \<Rightarrow> storage_error" where
  "new_rate_limited_error provider operation =
     new_storage_error_with_status SE_rate_limited (''Rate limited during '' @ operation) provider operation 429"

definition new_connection_reset_error :: "string \<Rightarrow> string \<Rightarrow> storage_error" where
  "new_connection_reset_error provider operation =
     new_storage_error SE_connection_reset (''Connection reset during '' @ operation) provider operation"

definition new_invalid_credentials_error :: "string \<Rightarrow> string \<Rightarrow> storage_error" where
  "new_invalid_credentials_error provider operation =
     new_storage_error_with_status SE_invalid_credentials (''Invalid credentials for '' @ provider) provider operation 401"

definition new_quota_exceeded_error :: "string \<Rightarrow> string \<Rightarrow> string \<Rightarrow> storage_error" where
  "new_quota_exceeded_error provider operation resource =
     new_storage_error_with_details SE_quota_exceeded (''Quota exceeded for '' @ resource) provider operation 413
       [(''resource'', resource)]"

section \<open>Tables\<close>

definition http_status_kinds :: "(int \<times> storage_error_kind) list" where
  "http_status_kinds =
     [(400, SE_invalid_object_key), (401, SE_invalid_credentials), (403, SE_access_denied), (404, SE_object_not_found),
      (409, SE_bucket_already_exists), (413, SE_quota_exceeded), (416, SE_invalid_range), (429, SE_rate_limited),
      (500, SE_service_unavailable), (502, SE_service_unavailable), (503, SE_service_unavailable), (504, SE_network_timeout)]"

definition error_kind_from_http_status :: "int \<Rightarrow> storage_error_kind" where
  "error_kind_from_http_status status = (case map_of http_status_kinds status of Some k \<Rightarrow> k | None \<Rightarrow> SE_unknown)"

definition s3_error_codes :: "(string \<times> storage_error_kind) list" where
  "s3_error_codes =
     [(''AccessDenied'', SE_access_denied), (''AccountProblem'', SE_access_denied),
      (''AllAccessDisabled'', SE_access_denied), (''BucketAlreadyExists'', SE_bucket_already_exists),
      (''BucketAlreadyOwnedByYou'', SE_bucket_already_exists), (''BucketNotEmpty'', SE_bucket_not_empty),
      (''CredentialsNotSupported'', SE_invalid_credentials), (''ExpiredToken'', SE_invalid_credentials),
      (''InvalidAccessKeyId'', SE_invalid_credentials), (''InvalidBucketName'', SE_invalid_object_key),
      (''InvalidObjectName'', SE_invalid_object_key), (''InvalidRange'', SE_invalid_range),
      (''InvalidSecurity'', SE_invalid_credentials), (''InvalidToken'', SE_invalid_credentials),
      (''NoSuchBucket'', SE_bucket_not_found), (''NoSuchKey'', SE_object_not_found),
      (''NoSuchUpload'', SE_object_not_found), (''RequestTimeout'', SE_network_timeout),
      (''RequestTimeTooSkewed'', SE_invalid_credentials), (''ServiceUnavailable'', SE_service_unavailable),
      (''SignatureDoesNotMatch'', SE_invalid_credentials), (''SlowDown'', SE_rate_limited),
      (''TemporaryRedirect'', SE_temporary_failure), (''TokenRefreshRequired'', SE_invalid_credentials)]"

definition aliyun_oss_error_codes :: "(string \<times> storage_error_kind) list" where
  "aliyun_oss_error_codes =
     [(''AccessDenied'', SE_access_denied), (''BucketAlreadyExists'', SE_bucket_already_exists),
      (''BucketNotEmpty'', SE_bucket_not_empty), (''EntityTooLarge'', SE_quota_exceeded),
      (''EntityTooSmall'', SE_invalid_object_key), (''FileGroupTooLarge'', SE_quota_exceeded),
      (''InvalidAccessKeyId'', SE_invalid_credentials), (''InvalidArgument'', SE_invalid_object_key),
      (''InvalidBucketName'', SE_invalid_object_key), (''InvalidDigest'', SE_checksum_mismatch),
      (''InvalidObjectName'', SE_invalid_object_key), (''InvalidRange'', SE_invalid_range),
      (''NoSuchBucket'', SE_bucket_not_found), (''NoSuchKey'', SE_object_not_found),
      (''NoSuchUpload'', SE_object_not_found), (''RequestTimeout'', SE_network_timeout),
      (''RequestTimeTooSkewed'', SE_invalid_credentials), (''ServiceUnavailable'', SE_service_unavailable),
      (''SignatureDoesNotMatch'', SE_invalid_credentials), (''TooManyBuckets'', SE_quota_exceeded)]"

definition tencent_cos_error_codes :: "(string \<times> storage_error_kind) list" where
  "tencent_cos_error_codes =
     [(''AccessDenied'', SE_access_denied), (''BucketAlreadyExists'', SE_bucket_already_exists),
      (''BucketAlreadyOwnedByYou'', SE_bucket_already_exists), (''BucketNotEmpty'', SE_bucket_not_empty),
      (''EntityTooLarge'', SE_quota_exceeded), (''EntityTooSmall'', SE_invalid_object_key),
      (''InvalidAccessKeyId'', SE_invalid_credentials), (''InvalidArgument'', SE_invalid_object_key),
      (''InvalidBucketName'', SE_invalid_object_key), (''InvalidDigest'', SE_checksum_mismatch),
      (''InvalidObjectName'', SE_invalid_object_key), (''InvalidRange'', SE_invalid_range),
      (''NoSuchBucket'', SE_bucket_not_found), (''NoSuchKey'', SE_object_not_found),
      (''NoSuchUpload'', SE_object_not_found), (''RequestTimeout'', SE_network_timeout),
      (''RequestTimeTooSkewed'', SE_invalid_credentials), (''ServiceUnavailable'', SE_service_unavailable),
      (''SignatureDoesNotMatch'', SE_invalid_credentials), (''SlowDown'', SE_rate_limited),
      (''TooManyBuckets'', SE_quota_exceeded)]"

definition map_s3_error_code :: "string \<Rightarrow> int \<Rightarrow> storage_error_kind" where
  "map_s3_error_code code http_status =
     (case map_of s3_error_codes code of Some k \<Rightarrow> k | None \<Rightarrow> error_kind_from_http_status http_status)"

definition map_aliyun_oss_error_code :: "string \<Rightarrow> int \<Rightarrow> storage_error_kind" where
  "map_aliyun_oss_error_code code http_status =
     (case map_of aliyun_oss_error_codes code of Some k \<Rightarrow> k | None \<Rightarrow> error_kind_from_http_status http_status)"

definition map_tencent_cos_error_code :: "string \<Rightarrow> int \<Rightarrow> storage_error_kind" where
  "map_tencent_cos_error_code code http_status =
     (case map_of tencent_cos_error_codes code of Some k \<Rightarrow> k | None \<Rightarrow> error_kind_from_http_status http_status)"

section \<open>Answers in XML\<close>

text \<open>\<^verbatim>\<open>s.index(p)\<close> for a text \<open>p\<close>, and \<^verbatim>\<open>s[a..b]\<close>.\<close>

fun v_index_str :: "string \<Rightarrow> string \<Rightarrow> nat option" where
  "v_index_str p [] = (if p = [] then Some 0 else None)"
| "v_index_str p (c # s) = (if v_starts_with (c # s) p then Some 0 else map_option Suc (v_index_str p s))"

definition v_slice :: "nat \<Rightarrow> nat \<Rightarrow> string \<Rightarrow> string option" where
  "v_slice a b s = (if a \<le> b \<and> b \<le> length s then Some (take (b - a) (drop a s)) else None)"

definition between_tags :: "string \<Rightarrow> string \<Rightarrow> string \<Rightarrow> string option" where
  "between_tags opening closing body =
     (case v_index_str opening body of
        None \<Rightarrow> Some ''''
      | Some start \<Rightarrow>
        (case v_index_str closing body of
          None \<Rightarrow> Some ''''
        | Some stop \<Rightarrow> v_slice (start + length opening) stop body))"

definition extract_error_code_from_xml :: "string \<Rightarrow> string option" where
  "extract_error_code_from_xml body = between_tags ''<Code>'' ''</Code>'' body"

definition extract_error_message_from_xml :: "string \<Rightarrow> string option" where
  "extract_error_message_from_xml body = between_tags ''<Message>'' ''</Message>'' body"

definition error_from_response ::
  "(string \<Rightarrow> int \<Rightarrow> storage_error_kind) \<Rightarrow> string \<Rightarrow> string \<Rightarrow> int \<Rightarrow> string \<Rightarrow> storage_error option" where
  "error_from_response mapping provider body http_status operation =
     (case extract_error_code_from_xml body of None \<Rightarrow> None | Some code \<Rightarrow>
      (case extract_error_message_from_xml body of None \<Rightarrow> None | Some error_message \<Rightarrow>
        let message = (if error_message \<noteq> '''' then error_message else ''HTTP '' @ v_str http_status);
            details = (if code \<noteq> '''' then [(''error_code'', code)] else [])
        in Some (new_storage_error_with_details (mapping code http_status) message provider operation http_status details)))"

definition new_s3_error_from_response :: "string \<Rightarrow> int \<Rightarrow> string \<Rightarrow> storage_error option" where
  "new_s3_error_from_response body http_status operation = error_from_response map_s3_error_code ''s3'' body http_status operation"

definition new_aliyun_oss_error_from_response :: "string \<Rightarrow> int \<Rightarrow> string \<Rightarrow> storage_error option" where
  "new_aliyun_oss_error_from_response body http_status operation =
     error_from_response map_aliyun_oss_error_code ''aliyun_oss'' body http_status operation"

definition new_tencent_cos_error_from_response :: "string \<Rightarrow> int \<Rightarrow> string \<Rightarrow> storage_error option" where
  "new_tencent_cos_error_from_response body http_status operation =
     error_from_response map_tencent_cos_error_code ''tencent_cos'' body http_status operation"

section \<open>Facts\<close>

text \<open>A retry pause is suggested exactly for the kinds that are worth a retry.\<close>

theorem suggested_delay_iff: "0 < suggested_retry_delay e \<longleftrightarrow> is_retryable e"
  by (cases "se_kind e") (auto simp: suggested_retry_delay_def is_retryable_def)

text \<open>An answer whose closing tag comes before its opening tag ends the program.\<close>

lemma xml_tags_panic: "extract_error_code_from_xml ''</Code><Code>'' = None"
  by code_simp

lemma xml_example:
  "extract_error_code_from_xml ''<Error><Code>NoSuchKey</Code></Error>'' = Some ''NoSuchKey''"
  by code_simp

text \<open>A code that two providers know means the same kind to both.\<close>

theorem provider_codes_agree:
  "list_all (\<lambda>(code, k). map_of s3_error_codes code = None \<or> map_of s3_error_codes code = Some k) tencent_cos_error_codes"
  "list_all (\<lambda>(code, k). map_of s3_error_codes code = None \<or> map_of s3_error_codes code = Some k) aliyun_oss_error_codes"
  "list_all (\<lambda>(code, k). map_of tencent_cos_error_codes code = None \<or> map_of tencent_cos_error_codes code = Some k) aliyun_oss_error_codes"
  by code_simp+

end
