(* ===== verification/Retry.thy ===== *)
theory Retry
  imports Storage_Errors Chunk_Manager Security Complex_Main
begin

text \<open>
  The retry executor of \<^verbatim>\<open>retry.v\<close>: configurations, the pause before the next attempt (exponential with a random jitter),
  the loop around an operation, and the guess of an error kind from the text of a message.  The loop is written out once
  for every type of result in the source; here it is one definition with five instances.

  Floating point numbers are a parameter, the record \<open>f64_ops\<close> of the operations the code uses; what is asked of them is
  \<open>f64_laws\<close>.  The operation, the random numbers and the clock answer by the number of the attempt.  The events are the calls of the
  operation and the pauses in nanoseconds.

  Shown here: the loop equals a search for the first attempt that succeeds or fails for good; calls and pauses are bounded;
  which errors lose their kind on the way through their message.
\<close>

section \<open>Floating point numbers\<close>

record 'f f64_ops =
  f64_of_rat :: "rat \<Rightarrow> 'f"
  f64_mul :: "'f \<Rightarrow> 'f \<Rightarrow> 'f"
  f64_pow :: "'f \<Rightarrow> 'f \<Rightarrow> 'f"
  f64_min :: "'f \<Rightarrow> 'f \<Rightarrow> 'f"
  f64_trunc :: "'f \<Rightarrow> int"

definition f64_int :: "'f f64_ops \<Rightarrow> int \<Rightarrow> 'f" where
  "f64_int fo i = f64_of_rat fo (of_int i)"

section \<open>Configurations\<close>

record 'f retry_config =
  rc_max_retries :: int
  rc_initial_delay :: int
  rc_max_delay :: int
  rc_multiplier :: 'f
  rc_jitter :: bool
  rc_jitter_factor :: 'f

definition default_retry_config :: "'f f64_ops \<Rightarrow> 'f retry_config" where
  "default_retry_config fo =
     \<lparr>rc_max_retries = 3, rc_initial_delay = 1000, rc_max_delay = 30000, rc_multiplier = f64_of_rat fo 2, rc_jitter = True,
      rc_jitter_factor = f64_of_rat fo (25 / 100)\<rparr>"

definition aggressive_retry_config :: "'f f64_ops \<Rightarrow> 'f retry_config" where
  "aggressive_retry_config fo =
     \<lparr>rc_max_retries = 5, rc_initial_delay = 500, rc_max_delay = 10000, rc_multiplier = f64_of_rat fo (15 / 10), rc_jitter = True,
      rc_jitter_factor = f64_of_rat fo (2 / 10)\<rparr>"

definition conservative_retry_config :: "'f f64_ops \<Rightarrow> 'f retry_config" where
  "conservative_retry_config fo =
     \<lparr>rc_max_retries = 2, rc_initial_delay = 2000, rc_max_delay = 60000, rc_multiplier = f64_of_rat fo 3, rc_jitter = True,
      rc_jitter_factor = f64_of_rat fo (3 / 10)\<rparr>"

section \<open>Results\<close>

record 'a retry_result =
  rr_success :: bool
  rr_value :: 'a
  rr_total_retries :: int
  rr_total_delay :: int
  rr_final_error :: storage_error
  rr_history :: "retry_attempt list"

definition new_retry_success :: "'a \<Rightarrow> int \<Rightarrow> int \<Rightarrow> retry_attempt list \<Rightarrow> 'a retry_result" where
  "new_retry_success v total_retries total_delay history =
     \<lparr>rr_success = True, rr_value = v, rr_total_retries = total_retries, rr_total_delay = total_delay,
      rr_final_error = no_storage_error, rr_history = history\<rparr>"

text \<open>\<open>zero\<close> is \<^verbatim>\<open>T{}\<close>, the empty value of the result type.\<close>

definition new_retry_failure :: "'a \<Rightarrow> storage_error \<Rightarrow> int \<Rightarrow> int \<Rightarrow> retry_attempt list \<Rightarrow> 'a retry_result" where
  "new_retry_failure zero final_error total_retries total_delay history =
     \<lparr>rr_success = False, rr_value = zero, rr_total_retries = total_retries, rr_total_delay = total_delay,
      rr_final_error = final_error, rr_history = history\<rparr>"

section \<open>Reading an error message\<close>

definition says :: "string \<Rightarrow> string list \<Rightarrow> bool" where
  "says msg words \<longleftrightarrow> list_ex (v_contains_str msg) words"

definition detect_error_kind_from_message :: "string \<Rightarrow> storage_error_kind" where
  "detect_error_kind_from_message msg =
     (let lower_msg = v_to_lower msg in
      if says lower_msg [''timeout'', ''timed out''] then SE_network_timeout
      else if says lower_msg [''service unavailable'', ''503''] then SE_service_unavailable
      else if says lower_msg [''rate limit'', ''too many requests'', ''429''] then SE_rate_limited
      else if says lower_msg [''connection reset'', ''connection refused''] then SE_connection_reset
      else if says lower_msg [''temporary'', ''retry''] then SE_temporary_failure
      else if says lower_msg [''invalid credentials'', ''401'', ''unauthorized''] then SE_invalid_credentials
      else if says lower_msg [''access denied'', ''403'', ''forbidden''] then SE_access_denied
      else if says lower_msg [''bucket not found'', ''nosuchbucket''] then SE_bucket_not_found
      else if says lower_msg [''not found'', ''404'', ''nosuchkey''] then SE_object_not_found
      else if says lower_msg [''invalid''] \<and> says lower_msg [''key'', ''name''] then SE_invalid_object_key
      else if says lower_msg [''quota'', ''limit exceeded''] then SE_quota_exceeded
      else if says lower_msg [''config''] then SE_invalid_config
      else SE_unknown)"

definition status_codes :: "int list" where
  "status_codes = [400, 401, 403, 404, 409, 413, 429, 500, 502, 503, 504]"

definition extract_http_status_from_message :: "string \<Rightarrow> int" where
  "extract_http_status_from_message msg =
     (case v_index_str ''http_status:'' msg of
        Some i \<Rightarrow>
          let status_str = trim_space (takeWhile (\<lambda>c. is_digit c \<or> c = CHR '' '') (drop (i + 12) msg))
          in parse_int (2 ^ 31) status_str
      | None \<Rightarrow> (case List.find (\<lambda>code. v_contains_str msg (v_str code)) status_codes of Some code \<Rightarrow> code | None \<Rightarrow> 0))"

definition parse_error_message :: "string \<Rightarrow> string \<Rightarrow> string \<Rightarrow> storage_error" where
  "parse_error_message msg provider operation =
     \<lparr>se_kind = detect_error_kind_from_message msg, se_message = msg, se_provider = provider, se_operation = operation,
      se_http_status = extract_http_status_from_message msg, se_retry_count = 0, se_details = [], se_retry_history = []\<rparr>"

section \<open>The executor\<close>

text \<open>\<open>random m\<close> is the answer of \<^verbatim>\<open>rand.int_in_range(0, m)\<close>.\<close>

definition calculate_delay :: "'f f64_ops \<Rightarrow> 'f retry_config \<Rightarrow> (int \<Rightarrow> int option) \<Rightarrow> int \<Rightarrow> int" where
  "calculate_delay fo config random attempt =
     (let base_delay = f64_mul fo (f64_int fo (rc_initial_delay config)) (f64_pow fo (rc_multiplier config) (f64_int fo attempt));
          delay = f64_trunc fo (f64_min fo base_delay (f64_int fo (rc_max_delay config)));
          jitter_range = f64_trunc fo (f64_mul fo (f64_int fo delay) (rc_jitter_factor config));
          delay = (if rc_jitter config \<and> delay > 0 \<and> jitter_range > 0
            then let jitter = (case random (wrap_i32 (jitter_range * 2)) of Some j \<Rightarrow> j | None \<Rightarrow> 0)
                 in wrap_i32 (wrap_i32 (delay - jitter_range) + jitter)
            else delay)
      in if delay < 0 then 0 else delay)"

record 'a retry_env =
  env_call :: "nat \<Rightarrow> string + 'a"
  env_random :: "nat \<Rightarrow> int \<Rightarrow> int option"
  env_now :: "nat \<Rightarrow> int"

datatype retry_event = RE_call | RE_sleep int

definition pause :: "int \<Rightarrow> retry_event list" where
  "pause delay = (if delay > 0 then [RE_sleep (delay * 1000000)] else [])"

function exec_loop ::
  "'f f64_ops \<Rightarrow> 'f retry_config \<Rightarrow> 'a retry_env \<Rightarrow> 'a \<Rightarrow> string \<Rightarrow> string \<Rightarrow> int \<Rightarrow> int \<Rightarrow> retry_attempt list \<Rightarrow> storage_error
    \<Rightarrow> retry_event list \<Rightarrow> 'a retry_result \<times> retry_event list" where
  "exec_loop fo config env zero provider op_name attempt total_delay history last_error events =
     (if attempt < wrap_i32 (rc_max_retries config + 1) then
        (case env_call env (nat attempt) of
           Inr v \<Rightarrow> (new_retry_success v attempt total_delay history, events @ [RE_call])
         | Inl msg \<Rightarrow>
             let storage_err = parse_error_message msg provider op_name in
             if \<not> is_retryable storage_err
             then (new_retry_failure zero storage_err attempt total_delay history, events @ [RE_call])
             else if attempt < rc_max_retries config then
               let delay = calculate_delay fo config (env_random env (nat attempt)) attempt
               in exec_loop fo config env zero provider op_name (attempt + 1) (wrap_i32 (total_delay + delay))
                    (history @ [\<lparr>ra_attempt_number = attempt + 1, ra_timestamp = env_now env (nat attempt),
                       ra_error_message = msg, ra_delay_ms = delay\<rparr>])
                    storage_err (events @ RE_call # pause delay)
             else exec_loop fo config env zero provider op_name (attempt + 1) total_delay history storage_err (events @ [RE_call]))
      else (new_retry_failure zero (last_error\<lparr>se_retry_history := history\<rparr>) (rc_max_retries config) total_delay history, events))"
  by pat_completeness auto
termination
  by (relation "measure (\<lambda>(_, config, _, _, _, _, attempt, _). nat (wrap_i32 (rc_max_retries config + 1) - attempt))") auto

declare exec_loop.simps [simp del]

definition execute ::
  "'a \<Rightarrow> 'f f64_ops \<Rightarrow> 'f retry_config \<Rightarrow> 'a retry_env \<Rightarrow> string \<Rightarrow> string \<Rightarrow> 'a retry_result \<times> retry_event list" where
  "execute zero fo config env provider op_name = exec_loop fo config env zero provider op_name 0 0 [] no_storage_error []"

type_synonym ('a, 'f) executor =
  "'f f64_ops \<Rightarrow> 'f retry_config \<Rightarrow> 'a retry_env \<Rightarrow> string \<Rightarrow> string \<Rightarrow> 'a retry_result \<times> retry_event list"

definition execute_bytes :: "(string, 'f) executor" where
  "execute_bytes = execute ''''"

definition execute_storage_result :: "(storage_result, 'f) executor" where
  "execute_storage_result =
     execute \<lparr>sr_success = False, sr_object_key = '''', sr_etag = '''', sr_size = 0, sr_error_msg = ''''\<rparr>"

definition execute_bool :: "(bool, 'f) executor" where
  "execute_bool = execute False"

definition execute_string :: "(string, 'f) executor" where
  "execute_string = execute ''''"

text \<open>An operation without a result: its success counts as \<^verbatim>\<open>true\<close>.\<close>

definition execute_void ::
  "'f f64_ops \<Rightarrow> 'f retry_config \<Rightarrow> unit retry_env \<Rightarrow> string \<Rightarrow> string \<Rightarrow> bool retry_result \<times> retry_event list" where
  "execute_void fo config env =
     execute False fo config \<lparr>env_call = map_sum id (\<lambda>_. True) \<circ> env_call env, env_random = env_random env, env_now = env_now env\<rparr>"

section \<open>Shorthands\<close>

definition retry_bytes :: "'f f64_ops \<Rightarrow> string retry_env \<Rightarrow> string \<Rightarrow> string \<Rightarrow> string retry_result \<times> retry_event list" where
  "retry_bytes fo = execute_bytes fo (default_retry_config fo)"

definition retry_storage_result ::
  "'f f64_ops \<Rightarrow> storage_result retry_env \<Rightarrow> string \<Rightarrow> string \<Rightarrow> storage_result retry_result \<times> retry_event list" where
  "retry_storage_result fo = execute_storage_result fo (default_retry_config fo)"

definition retry_bool :: "'f f64_ops \<Rightarrow> bool retry_env \<Rightarrow> string \<Rightarrow> string \<Rightarrow> bool retry_result \<times> retry_event list" where
  "retry_bool fo = execute_bool fo (default_retry_config fo)"

definition retry_void :: "'f f64_ops \<Rightarrow> unit retry_env \<Rightarrow> string \<Rightarrow> string \<Rightarrow> bool retry_result \<times> retry_event list" where
  "retry_void fo = execute_void fo (default_retry_config fo)"

definition retry_string :: "'f f64_ops \<Rightarrow> string retry_env \<Rightarrow> string \<Rightarrow> string \<Rightarrow> string retry_result \<times> retry_event list" where
  "retry_string fo = execute_string fo (default_retry_config fo)"

definition retry_bytes_with_config ::
  "'f f64_ops \<Rightarrow> string retry_env \<Rightarrow> string \<Rightarrow> string \<Rightarrow> 'f retry_config \<Rightarrow> string retry_result \<times> retry_event list" where
  "retry_bytes_with_config fo env provider op_name config = execute_bytes fo config env provider op_name"

definition retry_storage_result_with_config ::
  "'f f64_ops \<Rightarrow> storage_result retry_env \<Rightarrow> string \<Rightarrow> string \<Rightarrow> 'f retry_config
    \<Rightarrow> storage_result retry_result \<times> retry_event list" where
  "retry_storage_result_with_config fo env provider op_name config = execute_storage_result fo config env provider op_name"

section \<open>The executor as a search\<close>

text \<open>Attempt \<open>i\<close> is followed by another one when it fails with a message that is taken for a passing failure.\<close>

definition passing :: "'a retry_env \<Rightarrow> nat \<Rightarrow> bool" where
  "passing env i = (case env_call env i of Inl msg \<Rightarrow> is_retryable (parse_error_message msg '''' '''') | Inr _ \<Rightarrow> False)"

definition failure_text :: "'a retry_env \<Rightarrow> nat \<Rightarrow> string" where
  "failure_text env i = (case env_call env i of Inl msg \<Rightarrow> msg | Inr _ \<Rightarrow> '''')"

definition delay_after :: "'f f64_ops \<Rightarrow> 'f retry_config \<Rightarrow> 'a retry_env \<Rightarrow> nat \<Rightarrow> int" where
  "delay_after fo config env i = calculate_delay fo config (env_random env i) (int i)"

definition log_of :: "'f f64_ops \<Rightarrow> 'f retry_config \<Rightarrow> 'a retry_env \<Rightarrow> nat \<Rightarrow> retry_attempt list" where
  "log_of fo config env k =
     map (\<lambda>i. \<lparr>ra_attempt_number = int i + 1, ra_timestamp = env_now env i, ra_error_message = failure_text env i,
       ra_delay_ms = delay_after fo config env i\<rparr>) [0..<k]"

definition paused :: "'f f64_ops \<Rightarrow> 'f retry_config \<Rightarrow> 'a retry_env \<Rightarrow> nat \<Rightarrow> int" where
  "paused fo config env k = sum_list (map (delay_after fo config env) [0..<k])"

definition events_of :: "'f f64_ops \<Rightarrow> 'f retry_config \<Rightarrow> 'a retry_env \<Rightarrow> nat \<Rightarrow> retry_event list" where
  "events_of fo config env k = concat (map (\<lambda>i. RE_call # pause (delay_after fo config env i)) [0..<k])"

definition first_final :: "'a retry_env \<Rightarrow> nat \<Rightarrow> nat option" where
  "first_final env n = List.find (\<lambda>i. \<not> passing env i) [0..<n]"

definition executor_spec ::
  "'a \<Rightarrow> 'f f64_ops \<Rightarrow> 'f retry_config \<Rightarrow> 'a retry_env \<Rightarrow> string \<Rightarrow> string \<Rightarrow> 'a retry_result \<times> retry_event list" where
  "executor_spec zero fo config env provider op_name =
     (let n = nat (rc_max_retries config); delay = (\<lambda>k. wrap_i32 (paused fo config env k)) in
      case first_final env (Suc n) of
        Some k \<Rightarrow>
          ((case env_call env k of
              Inr v \<Rightarrow> new_retry_success v (int k) (delay k) (log_of fo config env k)
            | Inl msg \<Rightarrow> new_retry_failure zero (parse_error_message msg provider op_name) (int k) (delay k) (log_of fo config env k)),
           events_of fo config env k @ [RE_call])
      | None \<Rightarrow>
          (new_retry_failure zero
             ((parse_error_message (failure_text env n) provider op_name)\<lparr>se_retry_history := log_of fo config env n\<rparr>)
             (int n) (delay n) (log_of fo config env n),
           events_of fo config env n @ [RE_call]))"

lemma parse_retryable: "is_retryable (parse_error_message msg p op) \<longleftrightarrow> is_retryable (parse_error_message msg '''' '''')"
  by (simp add: is_retryable_def parse_error_message_def)

lemma wrap_i32_add_left: "wrap_i32 (wrap_i32 a + b) = wrap_i32 (a + b)"
  by (simp add: wrap_i32_def mod_simps algebra_simps)

lemma search_Suc:
  "log_of fo config env (Suc k) = log_of fo config env k @
     [\<lparr>ra_attempt_number = int k + 1, ra_timestamp = env_now env k, ra_error_message = failure_text env k,
       ra_delay_ms = delay_after fo config env k\<rparr>]"
  "paused fo config env (Suc k) = paused fo config env k + delay_after fo config env k"
  "events_of fo config env (Suc k) = events_of fo config env k @ RE_call # pause (delay_after fo config env k)"
  by (simp_all add: log_of_def paused_def events_of_def)

lemma first_final_Some:
  assumes "k < n" and "\<forall>i<k. passing env i" and "\<not> passing env k"
  shows "first_final env n = Some k"
proof -
  have "[0..<n] = [0..<k] @ k # [Suc k..<n]"
    using upt_add_eq_append [of 0 k "n - k"] assms(1) by (simp add: upt_conv_Cons)
  moreover have "List.find (\<lambda>i. \<not> passing env i) [0..<k] = None"
    using assms(2) by (simp add: find_None_iff)
  moreover have "List.find P xs = None \<Longrightarrow> P k \<Longrightarrow> List.find P (xs @ k # ys) = Some k" for P xs and ys :: "nat list"
    by (induction xs) (auto split: if_splits)
  ultimately show ?thesis using assms(3) by (simp add: first_final_def)
qed

lemma first_final_None: "first_final env n = None \<longleftrightarrow> (\<forall>i<n. passing env i)"
  by (auto simp: first_final_def find_None_iff)

lemma exec_loop_search:
  assumes "0 \<le> rc_max_retries config" and "rc_max_retries config < 2 ^ 31 - 1"
    and "k \<le> nat (rc_max_retries config)" and "\<forall>i<k. passing env i"
  shows "exec_loop fo config env zero provider op_name (int k) (wrap_i32 (paused fo config env k)) (log_of fo config env k) le
      (events_of fo config env k) = executor_spec zero fo config env provider op_name"
  using assms(3,4)
proof (induction "nat (rc_max_retries config) - k" arbitrary: k le)
  case 0
  then have k: "k = nat (rc_max_retries config)" "int k = rc_max_retries config" using assms(1) by auto
  have bound: "wrap_i32 (rc_max_retries config + 1) = rc_max_retries config + 1"
    using assms(1,2) by (simp add: wrap_i32_id)
  show ?case
  proof (cases "passing env k")
    case True
    then obtain msg where "env_call env k = Inl msg" "is_retryable (parse_error_message msg provider op_name)"
      by (auto simp: passing_def parse_retryable [of _ provider op_name] split: sum.splits)
    moreover have "first_final env (Suc k) = None" using 0(3) True by (simp add: first_final_None less_Suc_eq)
    ultimately show ?thesis using k bound
      by (subst exec_loop.simps, simp add: exec_loop.simps [of _ _ _ _ _ _ "rc_max_retries config + 1"] executor_spec_def
          failure_text_def Let_def)
  next
    case False
    then have "first_final env (Suc k) = Some k" using 0(3) by (simp add: first_final_Some)
    then show ?thesis using k bound False
      by (subst exec_loop.simps) (auto simp: executor_spec_def passing_def parse_retryable [of _ provider op_name] Let_def split: sum.splits)
  qed
next
  case (Suc d)
  then have k: "int k < rc_max_retries config" "Suc k \<le> nat (rc_max_retries config)" by auto
  have bound: "int k < wrap_i32 (rc_max_retries config + 1)"
    using assms(1,2) k(1) by (simp add: wrap_i32_id)
  show ?case
  proof (cases "passing env k")
    case True
    then obtain msg where m: "env_call env k = Inl msg" "is_retryable (parse_error_message msg provider op_name)"
      by (auto simp: passing_def parse_retryable [of _ provider op_name] split: sum.splits)
    have "exec_loop fo config env zero provider op_name (int (Suc k)) (wrap_i32 (paused fo config env (Suc k)))
        (log_of fo config env (Suc k)) (parse_error_message msg provider op_name) (events_of fo config env (Suc k))
        = executor_spec zero fo config env provider op_name"
      using Suc(1) [of "Suc k"] Suc(2,4) k(2) True by (simp add: less_Suc_eq)
    then show ?thesis using k(1) bound m
      by (subst exec_loop.simps) (simp add: search_Suc wrap_i32_add_left failure_text_def delay_after_def Let_def add.commute)
  next
    case False
    then have "first_final env (Suc (nat (rc_max_retries config))) = Some k" using Suc(4) k(2) by (simp add: first_final_Some)
    then show ?thesis using bound False
      by (subst exec_loop.simps) (auto simp: executor_spec_def passing_def parse_retryable [of _ provider op_name] Let_def split: sum.splits)
  qed
qed

lemma execute_spec:
  assumes "0 \<le> rc_max_retries config" and "rc_max_retries config < 2 ^ 31 - 1"
  shows "execute zero fo config env provider op_name = executor_spec zero fo config env provider op_name"
  using exec_loop_search [OF assms, of 0 env fo zero provider op_name no_storage_error]
  by (simp add: execute_def log_of_def paused_def events_of_def wrap_i32_def)

text \<open>C24: with a number of retries that is not negative (and below the largest integer), the executor makes attempts until
  one succeeds or fails with an error that is not worth a retry, and gives that outcome with the number of retries, the
  pauses and the log of the failures before it; when all attempts fail with passing errors it has made one
  more than the number of retries, and reports the last error with the log.\<close>

theorem retry_executes:
  assumes "0 \<le> rc_max_retries config" and "rc_max_retries config < 2 ^ 31 - 1"
  shows "execute zero fo config env provider op_name = executor_spec zero fo config env provider op_name"
  by (rule execute_spec [OF assms])

section \<open>Bounds\<close>

text \<open>What the bounds need of the floating point operations: the smaller of a number and an integer is not above the integer,
  and the jitter range of a pause grows with the pause and lies between 0 and the pause.\<close>

definition jitter_of :: "'f f64_ops \<Rightarrow> 'f retry_config \<Rightarrow> int \<Rightarrow> int" where
  "jitter_of fo config d = f64_trunc fo (f64_mul fo (f64_int fo d) (rc_jitter_factor config))"

definition f64_laws :: "'f f64_ops \<Rightarrow> 'f retry_config \<Rightarrow> bool" where
  "f64_laws fo config \<longleftrightarrow>
     (\<forall>x m. 0 \<le> m \<longrightarrow> f64_trunc fo (f64_min fo x (f64_int fo m)) \<le> m)
     \<and> (\<forall>d d'. 0 \<le> d \<longrightarrow> d \<le> d' \<longrightarrow> 0 \<le> jitter_of fo config d \<and> jitter_of fo config d \<le> d
          \<and> jitter_of fo config d \<le> jitter_of fo config d')"

text \<open>\<^verbatim>\<open>int_in_range(0, m)\<close> gives a number below \<open>m\<close>.\<close>

definition random_laws :: "'a retry_env \<Rightarrow> bool" where
  "random_laws env \<longleftrightarrow> (\<forall>i m j. env_random env i m = Some j \<longrightarrow> 0 \<le> j \<and> j < m)"

definition longest_pause :: "'f f64_ops \<Rightarrow> 'f retry_config \<Rightarrow> int" where
  "longest_pause fo config = rc_max_delay config + jitter_of fo config (rc_max_delay config)"

lemma jittered_range:
  assumes "0 < d" and "0 < j" and "j \<le> d" and "d + j < 2 ^ 31" and "0 \<le> r" and "r < 2 * j \<or> r = 0"
  shows "0 \<le> wrap_i32 (wrap_i32 (d - j) + r) \<and> wrap_i32 (wrap_i32 (d - j) + r) \<le> d + j"
  using assms by (auto simp: wrap_i32_id)

lemma pause_bounds:
  assumes f: "f64_laws fo config" and r: "random_laws env" and m: "0 \<le> rc_max_delay config"
    and small: "longest_pause fo config < 2 ^ 31"
  shows "0 \<le> delay_after fo config env i \<and> delay_after fo config env i \<le> longest_pause fo config"
proof -
  define d where "d = f64_trunc fo (f64_min fo (f64_mul fo (f64_int fo (rc_initial_delay config))
    (f64_pow fo (rc_multiplier config) (f64_int fo (int i)))) (f64_int fo (rc_max_delay config)))"
  define j where "j = jitter_of fo config d"
  have d: "d \<le> rc_max_delay config" using f m by (simp add: f64_laws_def d_def)
  have full: "0 \<le> jitter_of fo config (rc_max_delay config)"
    using f m by (auto simp: f64_laws_def)
  have j: "j \<le> d" "j \<le> jitter_of fo config (rc_max_delay config)" if "0 < d"
    using f d that by (auto simp: f64_laws_def j_def)
  define q where "q = (case env_random env i (wrap_i32 (j * 2)) of Some x \<Rightarrow> x | None \<Rightarrow> 0)"
  have q: "0 \<le> q \<and> (q < 2 * j \<or> q = 0)" if "0 < d" "0 < j"
  proof -
    have "wrap_i32 (j * 2) = j * 2" using j that d small by (simp add: wrap_i32_id longest_pause_def)
    then show ?thesis using r by (auto simp: q_def random_laws_def mult.commute split: option.splits)
  qed
  have eq: "delay_after fo config env i =
    (let x = if rc_jitter config \<and> d > 0 \<and> j > 0 then wrap_i32 (wrap_i32 (d - j) + q) else d in if x < 0 then 0 else x)"
    by (simp add: delay_after_def calculate_delay_def Let_def d_def j_def q_def jitter_of_def)
  show ?thesis
  proof (cases "rc_jitter config \<and> d > 0 \<and> j > 0")
    case True
    then have "0 \<le> wrap_i32 (wrap_i32 (d - j) + q) \<and> wrap_i32 (wrap_i32 (d - j) + q) \<le> d + j"
      using jittered_range [of d j q] j q d small by (auto simp: longest_pause_def)
    then show ?thesis using True j d by (auto simp: eq Let_def longest_pause_def)
  next
    case False
    then show ?thesis using d m full by (auto simp: eq Let_def longest_pause_def)
  qed
qed

definition calls :: "retry_event list \<Rightarrow> nat" where
  "calls ev = length (filter (\<lambda>e. e = RE_call) ev)"

definition slept :: "retry_event list \<Rightarrow> int" where
  "slept ev = sum_list (map (\<lambda>e. case e of RE_sleep ns \<Rightarrow> ns | RE_call \<Rightarrow> 0) ev)"

lemma calls_slept_simps [simp]:
  "calls (a @ b) = calls a + calls b" "slept (a @ b) = slept a + slept b"
  "calls (RE_call # a) = Suc (calls a)" "slept (RE_call # a) = slept a"
  "calls [] = 0" "slept [] = 0"
  "calls (pause d) = 0" "0 \<le> d \<Longrightarrow> slept (pause d) = d * 1000000"
  by (auto simp: calls_def slept_def pause_def)

lemma log_delays: "map ra_delay_ms (log_of fo config env k) = map (delay_after fo config env) [0..<k]"
  by (simp add: log_of_def)

lemma paused_bounds:
  assumes "\<And>i. 0 \<le> delay_after fo config env i \<and> delay_after fo config env i \<le> b"
  shows "0 \<le> paused fo config env k" "paused fo config env k \<le> int k * b"
    "calls (events_of fo config env k) = k" "slept (events_of fo config env k) = paused fo config env k * 1000000"
proof (induction k)
  case (Suc k)
  {
    case 1
    then show ?case using Suc(1) assms [of k] by (simp add: search_Suc)
  next
    case 2
    then show ?case using Suc(2) assms [of k] by (simp add: search_Suc algebra_simps)
  next
    case 3
    then show ?case using Suc(3) by (simp add: search_Suc)
  next
    case 4
    then show ?case using Suc(4) assms [of k] by (simp add: search_Suc algebra_simps)
  }
qed (simp_all add: paused_def events_of_def)

lemma spec_shape:
  obtains k where "k \<le> nat (rc_max_retries config)"
    and "rr_total_retries (fst (executor_spec zero fo config env p op)) = int k"
    and "rr_total_delay (fst (executor_spec zero fo config env p op)) = wrap_i32 (paused fo config env k)"
    and "rr_history (fst (executor_spec zero fo config env p op)) = log_of fo config env k"
    and "snd (executor_spec zero fo config env p op) = events_of fo config env k @ [RE_call]"
proof (cases "first_final env (Suc (nat (rc_max_retries config)))")
  case None
  then show ?thesis by (intro that [of "nat (rc_max_retries config)"]) (simp_all add: executor_spec_def new_retry_failure_def Let_def)
next
  case (Some k)
  then have "k \<le> nat (rc_max_retries config)"
    by (auto simp: first_final_def find_Some_iff simp del: upt_Suc)
  then show ?thesis using Some
    by (intro that [of k]) (auto simp: executor_spec_def new_retry_failure_def new_retry_success_def Let_def split: sum.splits)
qed

text \<open>C32: the executor calls the operation once more than it counts retries and never more than the configured number plus
  one; no pause is negative or longer than the largest delay plus its jitter; the reported total is the sum of the
  logged pauses, does not wrap around, and is the time slept.\<close>

theorem retry_bounded:
  assumes "f64_laws fo config" and "random_laws env" and "0 \<le> rc_max_delay config" and "longest_pause fo config < 2 ^ 31"
    and "0 \<le> rc_max_retries config" and "rc_max_retries config < 2 ^ 31 - 1"
    and "rc_max_retries config * longest_pause fo config < 2 ^ 31"
    and "execute zero fo config env provider op_name = (r, ev)"
  shows "int (calls ev) = rr_total_retries r + 1 \<and> rr_total_retries r \<le> rc_max_retries config
    \<and> list_all (\<lambda>a. 0 \<le> ra_delay_ms a \<and> ra_delay_ms a \<le> longest_pause fo config) (rr_history r)
    \<and> rr_total_delay r = sum_list (map ra_delay_ms (rr_history r))
    \<and> rr_total_delay r \<le> rr_total_retries r * longest_pause fo config
    \<and> slept ev = rr_total_delay r * 1000000"
proof -
  note b = pause_bounds [OF assms(1-4)]
  obtain k where k: "k \<le> nat (rc_max_retries config)" "rr_total_retries r = int k"
    "rr_total_delay r = wrap_i32 (paused fo config env k)" "rr_history r = log_of fo config env k"
    "ev = events_of fo config env k @ [RE_call]"
    using spec_shape [of config zero fo env provider op_name] assms(8) by (metis execute_spec [OF assms(5,6)] fst_conv snd_conv)
  have "int k * longest_pause fo config \<le> rc_max_retries config * longest_pause fo config"
    using k(1) assms(5) b [of 0] by (intro mult_right_mono) auto
  then have w: "wrap_i32 (paused fo config env k) = paused fo config env k"
    using paused_bounds(1,2) [OF b, of k] assms(7) by (simp add: wrap_i32_id)
  have "list_all (\<lambda>a. 0 \<le> ra_delay_ms a \<and> ra_delay_ms a \<le> longest_pause fo config) (rr_history r)"
    using b by (simp add: k(4) log_of_def list_all_iff)
  moreover have "rr_total_delay r = sum_list (map ra_delay_ms (rr_history r))"
    using k w by (simp add: log_delays paused_def)
  ultimately show ?thesis
    using k w assms(5) paused_bounds(2-4) [OF b, of k] by simp
qed

section \<open>Examples\<close>

text \<open>Exact rational arithmetic in place of floating point numbers.\<close>

definition exact_f64 :: "rat f64_ops" where
  "exact_f64 =
     \<lparr>f64_of_rat = id, f64_mul = (*), f64_pow = (\<lambda>x y. x ^ nat \<lfloor>y\<rfloor>), f64_min = min,
      f64_trunc = (\<lambda>x. if 0 \<le> x then \<lfloor>x\<rfloor> else \<lceil>x\<rceil>)\<rparr>"

definition demo_env :: "string retry_env" where
  "demo_env =
     \<lparr>env_call = (\<lambda>i. if i < 2 then Inl ''Connection timed out'' else Inr ''stored''), env_random = (\<lambda>i m. if 0 < m then Some (m - 1) else None),
      env_now = (\<lambda>i. 1700000000 + int i)\<rparr>"

lemma exact_trunc_min: "0 \<le> m \<Longrightarrow> f64_trunc exact_f64 (f64_min exact_f64 x (f64_int exact_f64 m)) \<le> m"
  by (auto simp: exact_f64_def f64_int_def floor_le_iff ceiling_le_iff min_def)

lemma exact_laws: "f64_laws exact_f64 (default_retry_config exact_f64)"
proof -
  have j: "jitter_of exact_f64 (default_retry_config exact_f64) d = d div 4" if "0 \<le> d" for d
    using that floor_divide_of_int_eq [of d 4, where 'a = rat]
    by (simp add: jitter_of_def exact_f64_def f64_int_def default_retry_config_def)
  have "d \<le> d' \<Longrightarrow> d div 4 \<le> d' div (4::int)" for d d' by (rule zdiv_mono1) auto
  then show ?thesis by (auto simp: f64_laws_def exact_trunc_min j)
qed

lemma demo_random: "random_laws demo_env"
  by (auto simp: random_laws_def demo_env_def split: if_splits)

lemma demo_passing: "passing demo_env i \<longleftrightarrow> i < 2"
proof -
  have "is_retryable (parse_error_message ''Connection timed out'' '''' '''')" by code_simp
  then show ?thesis by (simp add: passing_def demo_env_def)
qed

lemma demo_first: "first_final demo_env 4 = Some 2"
  by (rule first_final_Some) (auto simp: demo_passing)

lemma demo_delay:
  "delay_after exact_f64 (default_retry_config exact_f64) demo_env 0 = 1249"
  "delay_after exact_f64 (default_retry_config exact_f64) demo_env (Suc 0) = 2499"
  by (simp_all add: delay_after_def calculate_delay_def Let_def exact_f64_def default_retry_config_def f64_int_def demo_env_def
      wrap_i32_def)

lemma demo_spec:
  "rr_value (fst (executor_spec '''' exact_f64 (default_retry_config exact_f64) demo_env ''s3'' ''put'')) = ''stored''"
  "rr_total_delay (fst (executor_spec '''' exact_f64 (default_retry_config exact_f64) demo_env ''s3'' ''put'')) = 3748"
proof -
  have n: "nat (rc_max_retries (default_retry_config exact_f64)) = 3" by (simp add: default_retry_config_def)
  have c: "env_call demo_env 2 = Inr ''stored''" by (simp add: demo_env_def)
  have "[0..<2] = [0, 1::nat]" by (simp add: upt_rec)
  then have "paused exact_f64 (default_retry_config exact_f64) demo_env 2 = 3748"
    by (simp add: paused_def demo_delay)
  then show
    "rr_value (fst (executor_spec '''' exact_f64 (default_retry_config exact_f64) demo_env ''s3'' ''put'')) = ''stored''"
    "rr_total_delay (fst (executor_spec '''' exact_f64 (default_retry_config exact_f64) demo_env ''s3'' ''put'')) = 3748"
    by (simp_all add: executor_spec_def n demo_first c new_retry_success_def Let_def wrap_i32_def)
qed

lemma demo_longest: "longest_pause exact_f64 (default_retry_config exact_f64) = 37500"
  by (simp add: longest_pause_def jitter_of_def exact_f64_def f64_int_def default_retry_config_def)

theorem retry_executes_witness:
  "execute '''' exact_f64 (default_retry_config exact_f64) demo_env ''s3'' ''put''
     = executor_spec '''' exact_f64 (default_retry_config exact_f64) demo_env ''s3'' ''put''
   \<and> rr_value (fst (execute '''' exact_f64 (default_retry_config exact_f64) demo_env ''s3'' ''put'')) = ''stored''"
  using retry_executes [of "default_retry_config exact_f64" "''''" exact_f64 demo_env "''s3''" "''put''"]
  by (simp add: demo_spec default_retry_config_def [of exact_f64, THEN arg_cong, of rc_max_retries])

theorem retry_bounded_witness:
  "int (calls (snd (execute '''' exact_f64 (default_retry_config exact_f64) demo_env ''s3'' ''put'')))
    = rr_total_retries (fst (execute '''' exact_f64 (default_retry_config exact_f64) demo_env ''s3'' ''put'')) + 1"
  by (rule retry_bounded [OF exact_laws demo_random _ _ _ _ _ prod.collapse [symmetric], THEN conjunct1])
    (simp_all add: demo_longest, simp_all add: default_retry_config_def)

text \<open>The jitter is added after the cap, so a pause can exceed \<^verbatim>\<open>max_delay\<close>.\<close>

theorem jitter_exceeds_max_delay:
  "calculate_delay exact_f64 (default_retry_config exact_f64) (\<lambda>m. Some (m - 1)) 5 = 37499"
  by (simp add: calculate_delay_def Let_def exact_f64_def default_retry_config_def f64_int_def wrap_i32_def)

text \<open>The executor knows an error only by its message.  An answer with status 500 or 502 is a service that is unavailable and
  worth a retry, but its message does not say so in the words that are searched, and it is not retried.\<close>

lemma v_str_codes: "v_str 404 = ''404''" "v_str 500 = ''500''" "v_str 502 = ''502''" "v_str 503 = ''503''"
  by (simp_all add: v_str_def dec_digits.simps char_of_def bit_0)

lemma retryable_by_text:
  "is_retryable (parse_error_message msg p op) \<longleftrightarrow> detect_error_kind_from_message msg \<in>
     {SE_network_timeout, SE_service_unavailable, SE_rate_limited, SE_connection_reset, SE_temporary_failure}"
  by (simp add: is_retryable_def parse_error_message_def)

lemma detected_kinds:
  "detect_error_kind_from_message ''s3/put: HTTP 500 (kind: service_unavailable, http_status: 500)'' = SE_unknown"
  "detect_error_kind_from_message ''s3/put: HTTP 502 (kind: service_unavailable, http_status: 502)'' = SE_unknown"
  "detect_error_kind_from_message ''s3/put: HTTP 503 (kind: service_unavailable, http_status: 503)'' = SE_service_unavailable"
  "detect_error_kind_from_message ''s3/get: Object not found: reports/q3-503.pdf (kind: object_not_found, http_status: 404)''
     = SE_service_unavailable"
  by code_simp+

definition unavailable :: "int \<Rightarrow> storage_error" where
  "unavailable status = new_storage_error_with_details SE_service_unavailable (''HTTP '' @ v_str status) ''s3'' ''put'' status []"

lemma s3_unavailable:
  "status \<in> {500, 502, 503} \<Longrightarrow> new_s3_error_from_response '''' status ''put'' = Some (unavailable status)"
  by (auto simp: new_s3_error_from_response_def error_from_response_def extract_error_code_from_xml_def
      extract_error_message_from_xml_def between_tags_def map_s3_error_code_def s3_error_codes_def error_kind_from_http_status_def
      http_status_kinds_def unavailable_def)

lemma unavailable_retryable: "is_retryable (unavailable status)"
  by (simp add: unavailable_def is_retryable_def new_storage_error_with_details_def)

lemmas reread_simps = retryable_by_text error_msg_def unavailable_def new_storage_error_with_details_def v_str_codes
  detected_kinds [simplified]

theorem status_500_not_retried:
  "\<not> is_retryable (parse_error_message (error_msg (unavailable 500)) ''s3'' ''put'')"
  "\<not> is_retryable (parse_error_message (error_msg (unavailable 502)) ''s3'' ''put'')"
  "is_retryable (parse_error_message (error_msg (unavailable 503)) ''s3'' ''put'')"
  by (simp_all add: reread_simps)

text \<open>Conversely digits in the name of an object turn an error that is final into one that is retried.\<close>

theorem key_503_retried:
  "\<not> is_retryable (new_not_found_error ''s3'' ''reports'' ''q3-503.pdf'')"
  "is_retryable (parse_error_message (error_msg (new_not_found_error ''s3'' ''reports'' ''q3-503.pdf'')) ''s3'' ''get'')"
  by (simp add: is_retryable_def new_not_found_error_def new_storage_error_with_details_def,
      simp add: reread_simps new_not_found_error_def)

text \<open>With a negative number of retries the operation is not called at all, and the result is reported as a time-out.\<close>

theorem negative_retries:
  assumes "rc_max_retries config < 0" and "- (2 ^ 31) \<le> rc_max_retries config"
  shows "execute zero fo config env provider op_name
    = (new_retry_failure zero no_storage_error (rc_max_retries config) 0 [], [])"
  using assms by (simp add: execute_def exec_loop.simps wrap_i32_id no_storage_error_def new_storage_error_def)

end
