(* ===== verification/Multipart.thy ===== *)
theory Multipart
  imports Storage_Errors Security
begin

text \<open>
  Multipart forms (\<^verbatim>\<open>multipart.v\<close>): finding the boundary, cutting the body into parts, reading the header of a part, and the
  form as a map from names.  A slice whose bounds are out of order ends the program, the value \<open>None\<close>.

  Shown here: what the parser makes of every form a client can write in the usual way: all parts in order with their names and
  file names, but each content followed by a line break that the client did not send as content, and the type of the content always
  the default.
\<close>

section \<open>Splitting at a text\<close>

text \<open>\<^verbatim>\<open>s.split(d)\<close> for a delimiter of several bytes: from left to right; an empty delimiter gives the single bytes.\<close>

function split_from :: "string \<Rightarrow> string \<Rightarrow> string \<Rightarrow> string list" where
  "split_from d p [] = [p]"
| "split_from d p (c # s) =
     (if d \<noteq> [] \<and> v_starts_with (c # s) d then p # split_from d [] (drop (length d) (c # s)) else split_from d (p @ [c]) s)"
  by pat_completeness auto
termination
  by (relation "measure (\<lambda>(d, p, s). length s)") (auto simp: neq_Nil_conv)

declare split_from.simps [simp del]

definition v_split_str :: "string \<Rightarrow> string \<Rightarrow> string list" where
  "v_split_str d s = (if d = '''' then map (\<lambda>c. [c]) s else split_from d [] s)"

definition quote :: char where
  "quote = CHR 0x22"

definition v_ends_with :: "string \<Rightarrow> string \<Rightarrow> bool" where
  "v_ends_with s p = v_starts_with (rev s) (rev p)"

section \<open>The parser\<close>

record multipart_item =
  mi_name :: string
  mi_filename :: string
  mi_content :: string
  mi_content_type :: string

record multipart_parser =
  mp_boundary :: string
  mp_data :: string

text \<open>An error is its message.  \<open>None\<close> is a panic.\<close>

definition extract_boundary :: "string \<Rightarrow> (string + string) option" where
  "extract_boundary content_type =
     (if \<not> v_starts_with content_type ''multipart/form-data'' then Some (Inl ''Not multipart/form-data'')
      else case v_index_str ''boundary='' content_type of
        None \<Rightarrow> Some (Inl ''No boundary found'')
      | Some boundary_start \<Rightarrow>
          let boundary = drop (boundary_start + 9) content_type in
          if v_starts_with boundary [quote] \<and> v_ends_with boundary [quote]
          then map_option Inr (v_slice 1 (length boundary - 1) boundary)
          else Some (Inr boundary))"

definition new_multipart_parser :: "string \<Rightarrow> string \<Rightarrow> (string + multipart_parser) option" where
  "new_multipart_parser content_type data =
     (case extract_boundary content_type of
        None \<Rightarrow> None
      | Some (Inl _) \<Rightarrow> Some (Inl ''Failed to extract boundary'')
      | Some (Inr boundary) \<Rightarrow> Some (Inr \<lparr>mp_boundary = boundary, mp_data = data\<rparr>))"

fun header_value_in :: "string \<Rightarrow> string list \<Rightarrow> string option" where
  "header_value_in key [] = None"
| "header_value_in key (line # rest) =
     (if v_starts_with line ''Content-Disposition:'' then
        (let key_eq = key @ ''='' @ [quote] in
         case v_index_str key_eq line of
           None \<Rightarrow> header_value_in key rest
         | Some idx \<Rightarrow>
             let start = idx + length key_eq;
                 stop = (case v_index_str [quote] (drop start line) of Some j \<Rightarrow> start + j | None \<Rightarrow> length line)
             in Some (take (stop - start) (drop start line)))
      else header_value_in key rest)"

definition extract_header_value :: "string \<Rightarrow> string \<Rightarrow> string option" where
  "extract_header_value header key = header_value_in key (v_split_str crlf header)"

definition or_default :: "'a option \<Rightarrow> 'a \<Rightarrow> 'a" where
  "or_default x d = (case x of Some v \<Rightarrow> v | None \<Rightarrow> d)"

definition parse_part :: "string \<Rightarrow> string + multipart_item" where
  "parse_part part =
     (let header_content = v_split_str crlf2 part in
      if length header_content < 2 then Inl ''Invalid part format''
      else
        let header = hd header_content; content = join_str crlf2 (tl header_content) in
        case extract_header_value header ''name'' of
          None \<Rightarrow> Inl ''Missing name''
        | Some name \<Rightarrow>
            Inr \<lparr>mi_name = name, mi_filename = or_default (extract_header_value header ''filename'') '''', mi_content = content,
                 mi_content_type = or_default (extract_header_value header ''Content-Type'') ''text/plain''\<rparr>)"

definition skipped_part :: "string \<Rightarrow> bool" where
  "skipped_part part \<longleftrightarrow> trim_space part = '''' \<or> trim_space part = ''--'' \<or> v_starts_with (trim_space part) ''--''"

definition multipart_parse :: "multipart_parser \<Rightarrow> multipart_item list" where
  "multipart_parse parser =
     concat (map (\<lambda>part. if skipped_part part then [] else case parse_part part of Inl _ \<Rightarrow> [] | Inr item \<Rightarrow> [item])
       (v_split_str (''--'' @ mp_boundary parser) (mp_data parser)))"

section \<open>The form\<close>

type_synonym multipart_form = "(string, multipart_item) vmap"

definition form_of_items :: "multipart_item list \<Rightarrow> multipart_form" where
  "form_of_items items = fold (\<lambda>item. vset (mi_name item) item) items []"

definition parse_multipart_form :: "http_request \<Rightarrow> (string + multipart_form) option" where
  "parse_multipart_form req =
     (case get_custom (hq_header req) ''Content-Type'' of
        None \<Rightarrow> Some (Inl ''No Content-Type header'')
      | Some content_type \<Rightarrow>
        (case new_multipart_parser content_type (hq_data req) of
           None \<Rightarrow> None
         | Some (Inl err) \<Rightarrow> Some (Inl (''Failed to create parser: '' @ err))
         | Some (Inr parser) \<Rightarrow> Some (Inr (form_of_items (multipart_parse parser)))))"

definition form_field :: "(multipart_item \<Rightarrow> 'a) \<Rightarrow> string \<Rightarrow> multipart_form \<Rightarrow> string \<Rightarrow> string + 'a" where
  "form_field sel what items key = (case vget items key of Some item \<Rightarrow> Inr (sel item) | None \<Rightarrow> Inl (what @ '' not found: '' @ key))"

definition form_get_file :: "multipart_form \<Rightarrow> string \<Rightarrow> string + string" where
  "form_get_file = form_field mi_content ''File''"

definition form_get :: "multipart_form \<Rightarrow> string \<Rightarrow> string + string" where
  "form_get = form_field mi_content ''Field''"

definition form_is_file :: "multipart_form \<Rightarrow> string \<Rightarrow> bool" where
  "form_is_file items key = (case vget items key of Some item \<Rightarrow> mi_filename item \<noteq> '''' | None \<Rightarrow> False)"

definition form_get_filename :: "multipart_form \<Rightarrow> string \<Rightarrow> string + string" where
  "form_get_filename = form_field mi_filename ''Item''"

definition form_get_content_type :: "multipart_form \<Rightarrow> string \<Rightarrow> string + string" where
  "form_get_content_type = form_field mi_content_type ''Item''"

section \<open>Facts on splitting and searching\<close>

text \<open>No occurrence of \<open>d\<close> begins inside \<open>p\<close> when \<open>d\<close> follows.\<close>

fun free_of :: "string \<Rightarrow> string \<Rightarrow> bool" where
  "free_of d [] = True"
| "free_of d (c # p) = (\<not> v_starts_with ((c # p) @ d) d \<and> free_of d p)"

lemma starts_with_append: "length d \<le> length s \<Longrightarrow> v_starts_with (s @ r) d = v_starts_with s d"
  by (induction s d rule: v_starts_with.induct) auto

lemma starts_with_self: "v_starts_with (d @ r) d"
  by (simp add: v_starts_with_iff)

lemma split_from_free:
  "d \<noteq> [] \<Longrightarrow> free_of d p \<Longrightarrow> split_from d acc (p @ d @ r) = (acc @ p) # split_from d [] r"
proof (induction p arbitrary: acc)
  case Nil
  then obtain c d' where "d = c # d'" by (cases d) auto
  then show ?case using starts_with_self [of d r] by (simp add: split_from.simps)
next
  case (Cons c p)
  have "\<not> v_starts_with (c # p @ d @ r) d"
    using Cons.prems(2) starts_with_append [of d "c # p @ d" r] by simp
  then show ?case using Cons by (simp add: split_from.simps)
qed

lemma split_from_none: "\<not> v_contains_str s d \<Longrightarrow> split_from d acc s = [acc @ s]"
  by (induction s arbitrary: acc) (simp_all add: split_from.simps)

lemma split_from_nonempty: "split_from d acc s \<noteq> []"
proof (induction d acc s rule: split_from.induct)
  case (2 d p c s)
  then show ?case by (subst split_from.simps) auto
qed (simp add: split_from.simps)

lemma join_split: "d \<noteq> [] \<Longrightarrow> join_str d (split_from d acc s) = acc @ s"
proof (induction d acc s rule: split_from.induct)
  case (2 d p c s)
  show ?case
  proof (cases "v_starts_with (c # s) d")
    case True
    obtain t where t: "c # s = d @ t" using True by (auto simp: v_starts_with_iff)
    obtain q qs where "split_from d [] (drop (length d) (c # s)) = q # qs"
      using split_from_nonempty [of d "[]" "drop (length d) (c # s)"] by (cases "split_from d [] (drop (length d) (c # s))") auto
    then have "split_from d p (c # s) = p # q # qs" using 2(3) True by (simp add: split_from.simps)
    moreover have "join_str d (q # qs) = t"
      using 2(1) [OF conjI [OF 2(3) True] 2(3)] t \<open>split_from d [] (drop (length d) (c # s)) = q # qs\<close> by simp
    ultimately show ?thesis using t by simp
  next
    case False
    then show ?thesis using 2 by (simp add: split_from.simps)
  qed
qed (simp add: split_from.simps)

lemma free_of_last: "\<not> v_contains_str p d \<Longrightarrow> p = [] \<or> last p \<notin> set d \<Longrightarrow> d \<noteq> [] \<Longrightarrow> free_of d p"
proof (induction p)
  case (Cons c p)
  have "\<not> v_starts_with ((c # p) @ d) d"
  proof
    assume s: "v_starts_with ((c # p) @ d) d"
    show False
    proof (cases "length d \<le> length (c # p)")
      case True
      then show ?thesis using s starts_with_append [of d "c # p" d] Cons.prems(1) by simp
    next
      case False
      obtain t where t: "(c # p) @ d = d @ t" using s by (auto simp: v_starts_with_iff)
      have "take (length (c # p)) ((c # p) @ d) = c # p" by simp
      then have "take (length (c # p)) d = c # p" using t False by (metis nat_le_linear take_append take_all_iff append_Nil2 diff_is_0_eq take0)
      then have "last (c # p) \<in> set d" by (metis in_set_takeD last_in_set list.discI)
      then show ?thesis using Cons.prems(2) by simp
    qed
  qed
  moreover have "free_of d p"
    by (rule Cons.IH) (use Cons.prems in \<open>auto split: if_splits\<close>)
  ultimately show ?case by simp
qed simp

lemma split_parts:
  assumes "d \<noteq> []" and "list_all (\<lambda>x. free_of d (f x)) xs" and "\<not> v_contains_str tail d"
  shows "free_of d p \<Longrightarrow> split_from d [] (p @ concat (map (\<lambda>x. d @ f x) xs) @ d @ tail) = p # map f xs @ [tail]"
  using assms(2)
proof (induction xs arbitrary: p)
  case Nil
  then show ?case using assms(1,3) split_from_free [of d p "[]" tail] by (simp add: split_from_none)
next
  case (Cons x xs)
  then show ?case using split_from_free [OF assms(1) Cons.prems(1)] by simp
qed

text \<open>Searching a key that ends with a quotation mark.\<close>

lemma starts_with_quoted:
  "quote \<notin> set m \<Longrightarrow> quote \<notin> set k \<Longrightarrow> v_starts_with (m @ quote # z) (k @ [quote]) \<longleftrightarrow> m = k"
proof (induction m arbitrary: k)
  case Nil
  then show ?case by (cases k) auto
next
  case (Cons c m)
  then show ?case by (cases k) auto
qed

lemma index_quoted:
  assumes "quote \<notin> set k" and "k \<noteq> []"
  shows "quote \<notin> set m \<Longrightarrow> v_index_str (k @ [quote]) (m @ quote # z) =
    (if suffix k m then Some (length m - length k) else map_option (\<lambda>i. Suc (length m) + i) (v_index_str (k @ [quote]) z))"
proof (induction m)
  case Nil
  have "\<not> v_starts_with (quote # z) (k @ [quote])" using starts_with_quoted [of "[]" k z] assms by simp
  moreover have "\<not> suffix k []" using assms(2) by simp
  moreover have "(+) (Suc 0) = Suc" by (rule ext) simp
  ultimately show ?case by simp
next
  case (Cons c m)
  have eq: "v_starts_with (c # m @ quote # z) (k @ [quote]) \<longleftrightarrow> c # m = k"
    using starts_with_quoted [of "c # m" k z] Cons.prems assms(1) by simp
  have le: "suffix k m \<Longrightarrow> length k \<le> length m" by (rule suffix_length_le)
  show ?case
  proof (cases "c # m = k")
    case True
    have "v_starts_with (c # m @ quote # z) (k @ [quote])" using eq True by blast
    then have "v_index_str (k @ [quote]) ((c # m) @ quote # z) = Some 0" by simp
    moreover have "suffix k (c # m)" "length (c # m) - length k = 0" using True by auto
    ultimately show ?thesis by presburger
  next
    case False
    then have "suffix k (c # m) \<longleftrightarrow> suffix k m" by (auto simp: suffix_Cons)
    moreover have "\<not> v_starts_with (c # m @ quote # z) (k @ [quote])" using eq False by simp
    moreover have "suffix k m \<Longrightarrow> Suc (length m - length k) = length (c # m) - length k" using le by simp
    moreover have "v_index_str (k @ [quote]) (m @ quote # z) =
      (if suffix k m then Some (length m - length k) else map_option (\<lambda>i. Suc (length m) + i) (v_index_str (k @ [quote]) z))"
      using Cons by simp
    ultimately show ?thesis by (simp add: option.map_comp o_def)
  qed
qed

lemma index_hit:
  "quote \<notin> set k \<Longrightarrow> k \<noteq> [] \<Longrightarrow> quote \<notin> set m \<Longrightarrow> suffix k m
    \<Longrightarrow> v_index_str (k @ [quote]) (m @ quote # z) = Some (length m - length k)"
  using index_quoted [of k m z] by simp

lemma index_miss:
  "quote \<notin> set k \<Longrightarrow> k \<noteq> [] \<Longrightarrow> quote \<notin> set m \<Longrightarrow> \<not> suffix k m
    \<Longrightarrow> v_index_str (k @ [quote]) (m @ quote # z) = map_option (\<lambda>i. Suc (length m) + i) (v_index_str (k @ [quote]) z)"
  by (subst index_quoted) simp_all

lemma index_quote: "quote \<notin> set n \<Longrightarrow> v_index_str [quote] (n @ quote # z) = Some (length n)"
  by (induction n) auto

section \<open>The form of a client\<close>

text \<open>A part as a client writes it: a name, for a file its name, perhaps the type of the content, and the content.\<close>

record form_part =
  fp_name :: string
  fp_filename :: "string option"
  fp_type :: "string option"
  fp_content :: string

definition quoted :: "string \<Rightarrow> string \<Rightarrow> string" where
  "quoted key v = key @ ''='' @ quote # v @ [quote]"

definition disposition :: "form_part \<Rightarrow> string" where
  "disposition p = ''Content-Disposition: form-data; '' @ quoted ''name'' (fp_name p)
     @ (case fp_filename p of Some f \<Rightarrow> ''; '' @ quoted ''filename'' f | None \<Rightarrow> '''')"

definition header_text :: "form_part \<Rightarrow> string" where
  "header_text p = crlf @ disposition p @ (case fp_type p of Some t \<Rightarrow> crlf @ ''Content-Type: '' @ t | None \<Rightarrow> '''')"

definition part_text :: "form_part \<Rightarrow> string" where
  "part_text p = header_text p @ crlf2 @ fp_content p @ crlf"

definition form_body :: "string \<Rightarrow> form_part list \<Rightarrow> string" where
  "form_body b ps = concat (map (\<lambda>p. (''--'' @ b) @ part_text p) ps) @ (''--'' @ b) @ ''--'' @ crlf"

text \<open>Names without quotation marks and line breaks; a name that ends with the start of another parameter would be read as that
  parameter.\<close>

definition plain_text :: "string \<Rightarrow> bool" where
  "plain_text s \<longleftrightarrow> list_all (\<lambda>c. c \<noteq> quote \<and> c \<noteq> CHR 0x0D \<and> c \<noteq> CHR 0x0A) s
     \<and> \<not> suffix ''filename='' s \<and> \<not> suffix ''Content-Type='' s"

definition plain_type :: "string \<Rightarrow> bool" where
  "plain_type s \<longleftrightarrow> list_all (\<lambda>c. c \<noteq> CHR 0x0D \<and> c \<noteq> CHR 0x0A) s"

definition plain_part :: "form_part \<Rightarrow> bool" where
  "plain_part p \<longleftrightarrow> plain_text (fp_name p) \<and> (case fp_filename p of Some f \<Rightarrow> plain_text f | None \<Rightarrow> True)
     \<and> (case fp_type p of Some t \<Rightarrow> plain_type t | None \<Rightarrow> True)"

definition plain_boundary :: "string \<Rightarrow> bool" where
  "plain_boundary b \<longleftrightarrow> b \<noteq> '''' \<and> plain_type b"

text \<open>What the parser makes of a part.\<close>

definition item_of :: "form_part \<Rightarrow> multipart_item" where
  "item_of p = \<lparr>mi_name = fp_name p, mi_filename = or_default (fp_filename p) '''', mi_content = fp_content p @ crlf,
     mi_content_type = ''text/plain''\<rparr>"

text \<open>The lines of a header.\<close>

lemma free_of_line: "hd d \<notin> set l \<Longrightarrow> d \<noteq> [] \<Longrightarrow> free_of d p \<Longrightarrow> free_of d (l @ p)"
  by (induction l) (auto simp: v_starts_with_iff neq_Nil_conv)

lemma no_cr_contains: "CHR 0x0D \<notin> set l \<Longrightarrow> \<not> v_contains_str l (CHR 0x0D # r)"
  by (induction l) auto

lemma disposition_clean:
  assumes "plain_part p"
  shows "CHR 0x0D \<notin> set (disposition p)" "CHR 0x0A \<notin> set (disposition p)" "disposition p \<noteq> []"
  using assms by (auto simp: disposition_def quoted_def quote_def plain_part_def plain_text_def list_all_iff split: option.splits)

lemma header_lines:
  assumes "plain_part p"
  shows "\<exists>rest. v_split_str crlf (header_text p) = [] # disposition p # rest
    \<and> list_all (\<lambda>l. \<not> v_starts_with l ''Content-Disposition:'') rest"
proof -
  note d = disposition_clean [OF assms]
  have nz: "crlf \<noteq> []" by (simp add: crlf_def)
  have first: "split_from crlf [] (crlf @ r) = [] # split_from crlf [] r" for r
    using split_from_free [OF nz, of "[]" "[]" r] by simp
  have line: "free_of crlf (disposition p)"
    using free_of_line [of crlf "disposition p" "[]"] d by (simp add: crlf_def)
  show ?thesis
  proof (cases "fp_type p")
    case None
    then show ?thesis
      using first [of "disposition p"] split_from_none [of "disposition p" crlf "[]"] no_cr_contains [OF d(1)]
      by (simp add: header_text_def v_split_str_def crlf_def)
  next
    case (Some t)
    then have "CHR 0x0D \<notin> set (''Content-Type: '' @ t)"
      using assms by (auto simp: plain_part_def plain_type_def list_all_iff)
    then have "split_from crlf [] (''Content-Type: '' @ t) = [''Content-Type: '' @ t]"
      using split_from_none [of "''Content-Type: '' @ t" crlf "[]"] no_cr_contains [of "''Content-Type: '' @ t"]
      by (simp add: crlf_def)
    moreover have "split_from crlf [] (disposition p @ crlf @ ''Content-Type: '' @ t)
        = disposition p # split_from crlf [] (''Content-Type: '' @ t)"
      using split_from_free [OF nz line, of "[]" "''Content-Type: '' @ t"] by simp
    ultimately show ?thesis
      using first [of "disposition p @ crlf @ ''Content-Type: '' @ t"] Some nz
      by (simp add: header_text_def v_split_str_def)
  qed
qed

text \<open>Reading the parameters of the first line.\<close>

lemma value_of_line:
  assumes "v_starts_with l ''Content-Disposition:''" and "v_index_str (k @ ''='' @ [quote]) l = Some i"
    and "drop (i + length (k @ ''='' @ [quote])) l = v @ quote # r" and "quote \<notin> set v"
  shows "header_value_in k (l # rest) = Some v"
proof -
  have "v_index_str [quote] (v @ quote # r) = Some (length v)" by (rule index_quote [OF assms(4)])
  then show ?thesis
    using assms(1-3) by (simp add: Let_def)
qed

lemma no_value_of_lines:
  assumes "v_index_str (k @ ''='' @ [quote]) l = None" and "list_all (\<lambda>l. \<not> v_starts_with l ''Content-Disposition:'') rest"
  shows "header_value_in k (l # rest) = None"
proof -
  have "header_value_in k rest = None" using assms(2) by (induction rest) auto
  then show ?thesis using assms(1) by (simp add: Let_def)
qed

lemma disposition_shape:
  "disposition p = ''Content-Disposition: form-data; name='' @ quote # fp_name p @ quote #
     (case fp_filename p of Some f \<Rightarrow> ''; filename='' @ quote # f @ quote # [] | None \<Rightarrow> [])"
  by (simp add: disposition_def quoted_def split: option.split)

lemma disposition_start: "v_starts_with (disposition p) ''Content-Disposition:''"
  by (simp add: disposition_shape)

lemma key_shape: "k @ ''='' @ [quote] = (k @ ''='') @ [quote]"
  by simp

lemma plain_part_facts:
  assumes "plain_part p"
  shows "quote \<notin> set (fp_name p)" "\<not> suffix ''filename='' (fp_name p)" "\<not> suffix ''Content-Type='' (fp_name p)"
    "fp_filename p = Some f \<Longrightarrow> quote \<notin> set f" "fp_filename p = Some f \<Longrightarrow> \<not> suffix ''Content-Type='' f"
  using assms by (auto simp: plain_part_def plain_text_def list_all_iff)

lemma literal_suffixes:
  "quote \<notin> set ''Content-Disposition: form-data; name=''" "quote \<notin> set ''; filename=''" "quote \<notin> set ''name=''"
  "quote \<notin> set ''filename=''" "quote \<notin> set ''Content-Type=''"
  "suffix ''name='' ''Content-Disposition: form-data; name=''"
  "\<not> suffix ''filename='' ''Content-Disposition: form-data; name=''" "\<not> suffix ''Content-Type='' ''Content-Disposition: form-data; name=''"
  "suffix ''filename='' ''; filename=''" "\<not> suffix ''Content-Type='' ''; filename=''"
  by (simp_all add: quote_def suffix_to_prefix)

definition file_tail :: "form_part \<Rightarrow> string" where
  "file_tail p = (case fp_filename p of Some f \<Rightarrow> ''; filename='' @ quote # f @ quote # [] | None \<Rightarrow> [])"

lemma index_name: "v_index_str (''name='' @ [quote]) (disposition p) = Some 32"
proof -
  have "v_index_str (''name='' @ [quote]) (disposition p)
    = Some (length ''Content-Disposition: form-data; name='' - length ''name='')"
    unfolding disposition_shape by (rule index_hit [OF literal_suffixes(3) _ literal_suffixes(1,6)]) simp
  then show ?thesis by simp
qed

lemma index_filename:
  assumes "plain_part p"
  shows "v_index_str (''filename='' @ [quote]) (disposition p) =
    (case fp_filename p of Some f \<Rightarrow> Some (41 + length (fp_name p)) | None \<Rightarrow> None)"
proof -
  note n = plain_part_facts [OF assms]
  have "v_index_str (''filename='' @ [quote]) (disposition p)
      = map_option (\<lambda>i. Suc (length ''Content-Disposition: form-data; name='') + i)
          (v_index_str (''filename='' @ [quote]) (fp_name p @ quote # file_tail p))"
    unfolding disposition_shape file_tail_def [symmetric]
    by (rule index_miss [OF literal_suffixes(4) _ literal_suffixes(1,7)]) simp
  also have "v_index_str (''filename='' @ [quote]) (fp_name p @ quote # file_tail p)
      = map_option (\<lambda>i. Suc (length (fp_name p)) + i) (v_index_str (''filename='' @ [quote]) (file_tail p))"
    by (rule index_miss [OF literal_suffixes(4) _ n(1,2)]) simp
  also have "v_index_str (''filename='' @ [quote]) (file_tail p) = (case fp_filename p of Some f \<Rightarrow> Some 2 | None \<Rightarrow> None)"
  proof (cases "fp_filename p")
    case (Some f)
    have "v_index_str (''filename='' @ [quote]) (''; filename='' @ quote # f @ quote # []) = Some (length ''; filename='' - length ''filename='')"
      by (rule index_hit [OF literal_suffixes(4) _ literal_suffixes(2,9)]) simp
    then show ?thesis by (simp add: file_tail_def Some)
  qed (simp add: file_tail_def)
  finally show ?thesis by (simp split: option.split)
qed

lemma index_content_type:
  assumes "plain_part p"
  shows "v_index_str (''Content-Type='' @ [quote]) (disposition p) = None"
proof -
  note n = plain_part_facts [OF assms]
  have "v_index_str (''Content-Type='' @ [quote]) (disposition p)
      = map_option (\<lambda>i. Suc (length ''Content-Disposition: form-data; name='') + i)
          (v_index_str (''Content-Type='' @ [quote]) (fp_name p @ quote # file_tail p))"
    unfolding disposition_shape file_tail_def [symmetric]
    by (rule index_miss [OF literal_suffixes(5) _ literal_suffixes(1,8)]) simp
  also have "v_index_str (''Content-Type='' @ [quote]) (fp_name p @ quote # file_tail p)
      = map_option (\<lambda>i. Suc (length (fp_name p)) + i) (v_index_str (''Content-Type='' @ [quote]) (file_tail p))"
    by (rule index_miss [OF literal_suffixes(5) _ n(1,3)]) simp
  also have "v_index_str (''Content-Type='' @ [quote]) (file_tail p) = None"
  proof (cases "fp_filename p")
    case (Some f)
    have "v_index_str (''Content-Type='' @ [quote]) (''; filename='' @ quote # f @ quote # [])
        = map_option (\<lambda>i. Suc (length ''; filename='') + i) (v_index_str (''Content-Type='' @ [quote]) (f @ quote # []))"
      by (rule index_miss [OF literal_suffixes(5) _ literal_suffixes(2,10)]) simp
    also have "v_index_str (''Content-Type='' @ [quote]) (f @ quote # [])
        = map_option (\<lambda>i. Suc (length f) + i) (v_index_str (''Content-Type='' @ [quote]) [])"
      by (rule index_miss [OF literal_suffixes(5) _ n(4,5) [OF Some]]) simp
    finally show ?thesis by (simp add: file_tail_def Some)
  qed (simp add: file_tail_def)
  finally show ?thesis by simp
qed

lemma read_values:
  assumes "plain_part p" and "list_all (\<lambda>l. \<not> v_starts_with l ''Content-Disposition:'') rest"
  shows "header_value_in ''name'' ([] # disposition p # rest) = Some (fp_name p)"
    and "header_value_in ''filename'' ([] # disposition p # rest) = fp_filename p"
    and "header_value_in ''Content-Type'' ([] # disposition p # rest) = None"
proof -
  note n = plain_part_facts [OF assms(1)]
  have "header_value_in ''name'' (disposition p # rest) = Some (fp_name p)"
    using value_of_line [OF disposition_start, of "''name''" p 32 "fp_name p"] index_name n(1)
    by (simp add: disposition_shape)
  then show "header_value_in ''name'' ([] # disposition p # rest) = Some (fp_name p)" by simp
  have "header_value_in ''filename'' (disposition p # rest) = fp_filename p"
  proof (cases "fp_filename p")
    case None
    then show ?thesis
      using no_value_of_lines [of "''filename''" "disposition p" rest] assms(2) index_filename [OF assms(1)] by simp
  next
    case (Some f)
    let ?P = "''Content-Disposition: form-data; name='' @ quote # fp_name p @ quote # ''; filename='' @ [quote]"
    have "disposition p = ?P @ f @ [quote]" "length ?P = 51 + length (fp_name p)" using Some by (simp_all add: disposition_shape)
    then obtain Q where shape: "disposition p = Q @ f @ [quote]" and len: "length Q = 51 + length (fp_name p)" by (rule that)
    have "drop (41 + length (fp_name p) + length (''filename'' @ ''='' @ [quote])) (disposition p) = f @ quote # []"
      unfolding shape using len by simp
    with index_filename [OF assms(1)] Some n(4) [OF Some] show ?thesis
      using value_of_line [OF disposition_start, of "''filename''" p "41 + length (fp_name p)" f "[]"] by simp
  qed
  then show "header_value_in ''filename'' ([] # disposition p # rest) = fp_filename p" by simp
  have "header_value_in ''Content-Type'' (disposition p # rest) = None"
    using no_value_of_lines [of "''Content-Type''" "disposition p" rest] assms(2) index_content_type [OF assms(1)] by simp
  then show "header_value_in ''Content-Type'' ([] # disposition p # rest) = None" by simp
qed

text \<open>One part, then the body.\<close>

lemma free_of_crlf2_line: "c \<noteq> CHR 0x0D \<Longrightarrow> CHR 0x0D \<notin> set l \<Longrightarrow> free_of crlf2 p \<Longrightarrow> free_of crlf2 (crlf @ (c # l) @ p)"
  using free_of_line [of crlf2 "c # l" p] by (simp add: crlf_def crlf2_def)

lemma header_free:
  assumes "plain_part p"
  shows "free_of crlf2 (header_text p)"
proof -
  obtain c l where d: "disposition p = c # l" using disposition_clean(3) [OF assms] by (cases "disposition p") auto
  then have cl: "c \<noteq> CHR 0x0D" "CHR 0x0D \<notin> set l" using disposition_clean(1) [OF assms] by auto
  have "free_of crlf2 (case fp_type p of Some t \<Rightarrow> crlf @ ''Content-Type: '' @ t | None \<Rightarrow> '''')"
  proof (cases "fp_type p")
    case (Some t)
    then have "CHR 0x0D \<notin> set (''ontent-Type: '' @ t)"
      using assms by (auto simp: plain_part_def plain_type_def list_all_iff)
    from free_of_crlf2_line [of "CHR ''C''", OF _ this, of "[]"] show ?thesis using Some by simp
  qed simp
  from free_of_crlf2_line [OF cl this] show ?thesis by (simp add: header_text_def d)
qed

lemma parse_part_text:
  assumes "plain_part p"
  shows "parse_part (part_text p) = Inr (item_of p)"
proof -
  have nz: "crlf2 \<noteq> []" by (simp add: crlf2_def)
  obtain q qs where rest: "split_from crlf2 [] (fp_content p @ crlf) = q # qs"
    using split_from_nonempty by (metis neq_Nil_conv)
  have split: "v_split_str crlf2 (part_text p) = header_text p # q # qs"
    using split_from_free [OF nz header_free [OF assms], of "[]" "fp_content p @ crlf"] rest
    by (simp add: v_split_str_def part_text_def nz)
  have content: "join_str crlf2 (q # qs) = fp_content p @ crlf"
    using join_split [OF nz, of "[]" "fp_content p @ crlf"] rest by simp
  obtain ls where lines: "v_split_str crlf (header_text p) = [] # disposition p # ls"
    "list_all (\<lambda>l. \<not> v_starts_with l ''Content-Disposition:'') ls"
    using header_lines [OF assms] by blast
  show ?thesis
    using read_values [OF assms lines(2)] content
    by (simp add: parse_part_def split extract_header_value_def lines(1) item_of_def or_default_def del: join_str.simps header_value_in.simps
        split: option.split)
qed

lemma trim_visible:
  assumes "\<not> is_space c"
  shows "\<exists>t. trim_space (crlf @ c # s) = c # t"
proof -
  have sp: "is_space (CHR 0x0D)" "is_space (CHR 0x0A)" by code_simp+
  have "\<exists>u. dropWhile is_space (xs @ [c]) = u @ [c]" for xs
    using assms by (induction xs) auto
  from this [of "rev s"] obtain u where "dropWhile is_space (rev s @ [c]) = u @ [c]" ..
  then show ?thesis using sp assms by (simp add: trim_space_def crlf_def)
qed

lemma part_not_skipped: "\<not> skipped_part (part_text p)"
proof -
  have vis: "\<not> is_space (CHR ''C'')" by code_simp
  have "\<exists>s. part_text p = crlf @ CHR ''C'' # s"
    by (simp add: part_text_def header_text_def disposition_shape)
  then obtain t where "trim_space (part_text p) = CHR ''C'' # t" using trim_visible [OF vis] by metis
  then show ?thesis by (simp add: skipped_part_def)
qed

lemma skipped_ends: "skipped_part ''''" "skipped_part (''--'' @ crlf)"
  by code_simp+

lemma body_parts:
  assumes "plain_boundary b" and "list_all (\<lambda>p. \<not> v_contains_str (part_text p) (''--'' @ b)) ps"
  shows "v_split_str (''--'' @ b) (form_body b ps) = [] # map part_text ps @ [''--'' @ crlf]"
proof -
  have last: "last (part_text p) \<notin> set (''--'' @ b)" for p
    using assms(1) by (auto simp: part_text_def crlf_def plain_boundary_def plain_type_def list_all_iff)
  have "list_all (\<lambda>p. free_of (''--'' @ b) (part_text p)) ps"
    using assms(2) free_of_last [OF _ disjI2 [OF last]] by (auto simp: list_all_iff)
  moreover have "\<not> v_contains_str (''--'' @ crlf) (''--'' @ b)"
    using assms(1) by (cases b) (auto simp: crlf_def plain_boundary_def plain_type_def)
  ultimately show ?thesis
    using split_parts [of "''--'' @ b" part_text ps "''--'' @ crlf" "[]"] by (simp add: v_split_str_def form_body_def)
qed

lemma parse_body:
  assumes "plain_boundary b" and "list_all plain_part ps"
    and "list_all (\<lambda>p. \<not> v_contains_str (part_text p) (''--'' @ b)) ps"
  shows "multipart_parse \<lparr>mp_boundary = b, mp_data = form_body b ps\<rparr> = map item_of ps"
proof -
  have "concat (map (\<lambda>part. if skipped_part part then [] else case parse_part part of Inl _ \<Rightarrow> [] | Inr item \<Rightarrow> [item]) (map part_text ps))
    = map item_of ps"
    using assms(2) by (induction ps) (simp_all add: part_not_skipped parse_part_text)
  then show ?thesis
    using body_parts [OF assms(1,3)] by (simp only: multipart_parse_def multipart_parser.simps) (simp add: skipped_ends skipped_ends(2) [simplified])
qed

lemma form_boundary: "plain_boundary b \<Longrightarrow> \<not> v_starts_with b [quote] \<Longrightarrow>
  extract_boundary (''multipart/form-data; boundary='' @ b) = Some (Inr b)"
  by (simp add: extract_boundary_def v_starts_with_iff Let_def)

text \<open>C21: from any list of parts with plain names whose text does not hold the boundary, written by a client in the usual way, the
  parser makes one item for each part, in order, with its name and file name; but the content of each item is that of the part
  followed by a line break, and its type is always the default one, whatever type the client declared.\<close>

theorem multipart_read_back:
  assumes "plain_boundary b" and "\<not> v_starts_with b [quote]" and "list_all plain_part ps"
    and "list_all (\<lambda>p. \<not> v_contains_str (part_text p) (''--'' @ b)) ps"
    and "get_custom (hq_header req) ''Content-Type'' = Some (''multipart/form-data; boundary='' @ b)"
    and "hq_data req = form_body b ps"
  shows "parse_multipart_form req = Some (Inr (form_of_items (map item_of ps)))"
  using assms form_boundary [OF assms(1,2)] parse_body [OF assms(1,3,4)]
  by (simp only: parse_multipart_form_def new_multipart_parser_def option.case sum.case)

definition demo_parts :: "form_part list" where
  "demo_parts = [\<lparr>fp_name = ''note'', fp_filename = None, fp_type = None, fp_content = ''hi''\<rparr>,
     \<lparr>fp_name = ''doc'', fp_filename = Some ''a.png'', fp_type = Some ''image/png'', fp_content = ''PNG'' @ crlf2 @ ''x''\<rparr>]"

definition demo_form :: http_request where
  "demo_form = \<lparr>hq_method = ''POST'', hq_url = ''/'', hq_header = [(''content-type'', ''multipart/form-data; boundary=XyZ'')],
     hq_data = form_body ''XyZ'' demo_parts\<rparr>"

lemma demo_form_facts:
  "plain_boundary ''XyZ''" "\<not> v_starts_with ''XyZ'' [quote]" "list_all plain_part demo_parts"
  "list_all (\<lambda>p. \<not> v_contains_str (part_text p) (''--'' @ ''XyZ'')) demo_parts"
  "get_custom (hq_header demo_form) ''Content-Type'' = Some (''multipart/form-data; boundary='' @ ''XyZ'')"
  "hq_data demo_form = form_body ''XyZ'' demo_parts"
proof -
  show "list_all plain_part demo_parts"
    by (simp add: demo_parts_def plain_part_def plain_text_def plain_type_def quote_def suffix_to_prefix)
  show "list_all (\<lambda>p. \<not> v_contains_str (part_text p) (''--'' @ ''XyZ'')) demo_parts"
    by (simp add: demo_parts_def part_text_def header_text_def disposition_shape crlf_def crlf2_def quote_def)
  show "get_custom (hq_header demo_form) ''Content-Type'' = Some (''multipart/form-data; boundary='' @ ''XyZ'')"
    by (simp add: demo_form_def get_custom_def) code_simp
qed (simp_all add: plain_boundary_def plain_type_def quote_def demo_form_def)

theorem multipart_read_back_witness:
  "(case parse_multipart_form demo_form of Some (Inr form) \<Rightarrow> form_get form ''note'' = Inr (''hi'' @ crlf) \<and> form_is_file form ''doc''
      \<and> form_get_content_type form ''doc'' = Inr ''text/plain'' | _ \<Rightarrow> False)"
proof -
  have "parse_multipart_form demo_form = Some (Inr (form_of_items (map item_of demo_parts)))"
    by (rule multipart_read_back [OF demo_form_facts])
  then show ?thesis
    by (simp add: demo_parts_def form_of_items_def item_of_def form_get_def form_field_def form_is_file_def form_get_content_type_def
        or_default_def)
qed

text \<open>Input that goes wrong: a lone quotation mark as boundary ends the program; a file name in front of the name is taken for the
  name.\<close>

theorem lone_quote_panics: "extract_boundary (''multipart/form-data; boundary='' @ [quote]) = None"
  by (simp add: extract_boundary_def quote_def v_ends_with_def v_slice_def Let_def)

theorem filename_first_is_name:
  "extract_header_value (''Content-Disposition: form-data; '' @ quoted ''filename'' ''a.txt'' @ ''; '' @ quoted ''name'' ''doc'') ''name''
   = Some ''a.txt''"
  by code_simp

end
