(* ===== verification/Bearer_Auth.thy ===== *)
theory Bearer_Auth
  imports Cookie
begin

text \<open>
  Bearer tokens (\<^verbatim>\<open>bearer_auth.v\<close>): the middleware that asks for a token in a header, its comparison with the configured
  tokens or a callback, and the refusal.

  Shown here: the handler runs exactly when the header is the prefix, a blank and a token that is configured (or that the callback
  accepts), and then it finds the token in its context; every other request is answered with 401 without reaching it.
\<close>

datatype bearer_token = One_token string | Some_tokens "string list"

record bearer_auth_options =
  ba_token :: bearer_token
  ba_realm :: string
  ba_prefix :: string
  ba_header_name :: string
  ba_hash_function :: "(string \<Rightarrow> string) option"
  ba_verify_token :: "(string \<Rightarrow> http_context \<Rightarrow> bool) option"

text \<open>The options with the defaults of the source.\<close>

definition bearer_options :: "bearer_token \<Rightarrow> bearer_auth_options" where
  "bearer_options token =
     \<lparr>ba_token = token, ba_realm = '''', ba_prefix = ''Bearer'', ba_header_name = ''Authorization'', ba_hash_function = None,
      ba_verify_token = None\<rparr>"

definition extract_bearer_token :: "string \<Rightarrow> string \<Rightarrow> string option" where
  "extract_bearer_token auth_header prfx =
     (let expected_prefix = prfx @ '' '' in
      if \<not> v_starts_with auth_header expected_prefix then None
      else let token = trim_space (drop (length expected_prefix) auth_header) in if token = '''' then None else Some token)"

definition constant_time_compare_bearer :: "string \<Rightarrow> string \<Rightarrow> bool" where
  "constant_time_compare_bearer a b = constant_time_compare a b"

definition secure_token_compare :: "string \<Rightarrow> string \<Rightarrow> (string \<Rightarrow> string) option \<Rightarrow> bool" where
  "secure_token_compare provided expected hash_fn =
     (case hash_fn of
        Some h \<Rightarrow> constant_time_compare_bearer (h provided) (h expected)
      | None \<Rightarrow> constant_time_compare_bearer provided expected)"

definition validate_bearer_token :: "string \<Rightarrow> bearer_auth_options \<Rightarrow> http_context \<Rightarrow> bool" where
  "validate_bearer_token token options c =
     (case ba_verify_token options of
        Some verify_fn \<Rightarrow> verify_fn token c
      | None \<Rightarrow>
        (case ba_token options of
           One_token expected \<Rightarrow> secure_token_compare token expected (ba_hash_function options)
         | Some_tokens tokens \<Rightarrow> list_ex (\<lambda>valid_token. secure_token_compare token valid_token (ba_hash_function options)) tokens))"

definition unauthorized_response :: "string \<Rightarrow> string \<Rightarrow> http_context \<Rightarrow> http_response \<times> http_context" where
  "unauthorized_response realm message c =
     (let www_auth = (if realm \<noteq> '''' then ''Bearer realm='' @ [CHR 0x22] @ realm @ [CHR 0x22] else ''Bearer'');
          c1 = set_header ''WWW-Authenticate'' www_auth (context_status 401 c);
          q = [CHR 0x22]
      in (context_json (''{'' @ q @ ''error'' @ q @ '':'' @ q @ ''Unauthorized'' @ q @ '','' @ q @ ''message'' @ q @ '':'' @ q @ message @ q @ ''}'') c1,
          c1))"

definition bearer_auth :: "bearer_auth_options \<Rightarrow> context_middleware" where
  "bearer_auth options c next_fn =
     (case get_custom (hq_header (cx_req c)) (ba_header_name options) of
        None \<Rightarrow> unauthorized_response (ba_realm options) ''Missing authorization header'' c
      | Some auth_header \<Rightarrow>
        if auth_header = '''' then unauthorized_response (ba_realm options) ''Missing authorization header'' c
        else case extract_bearer_token auth_header (ba_prefix options) of
          None \<Rightarrow> unauthorized_response (ba_realm options) ''Invalid token format'' c
        | Some token \<Rightarrow>
          if \<not> validate_bearer_token token options c then unauthorized_response (ba_realm options) ''Invalid token'' c
          else next_fn (context_set ''bearer_token'' token c))"

definition get_bearer_token :: "http_context \<Rightarrow> string option" where
  "get_bearer_token c = context_get ''bearer_token'' c"

section \<open>Who gets through\<close>

text \<open>The tokens that a configuration without callback and hash accepts.\<close>

definition accepted_tokens :: "bearer_auth_options \<Rightarrow> string set" where
  "accepted_tokens options = (case ba_token options of One_token t \<Rightarrow> {t} | Some_tokens ts \<Rightarrow> set ts)"

text \<open>The token that a request presents.\<close>

definition presented_token :: "bearer_auth_options \<Rightarrow> http_context \<Rightarrow> string option" where
  "presented_token options c =
     (case get_custom (hq_header (cx_req c)) (ba_header_name options) of
        None \<Rightarrow> None | Some h \<Rightarrow> extract_bearer_token h (ba_prefix options))"

lemma validate_plain:
  assumes "ba_verify_token options = None" and "ba_hash_function options = None"
  shows "validate_bearer_token token options c \<longleftrightarrow> token \<in> accepted_tokens options"
  using assms
  by (auto simp: validate_bearer_token_def secure_token_compare_def constant_time_compare_bearer_def constant_time_compare_eq
      accepted_tokens_def list_ex_iff split: bearer_token.splits)

lemma unauthorized_facts:
  "rs_status_code (fst (unauthorized_response realm m c)) = 401"
  "cx_store (snd (unauthorized_response realm m c)) = cx_store c"
  by (simp_all add: unauthorized_response_def Let_def context_json_def context_respond_def set_header_def context_status_def)

lemma bearer_cases:
  assumes "ba_verify_token options = None" and "ba_hash_function options = None"
  shows "case presented_token options c of
      Some t \<Rightarrow> if t \<in> accepted_tokens options then bearer_auth options c nxt = nxt (context_set ''bearer_token'' t c)
        else rs_status_code (fst (bearer_auth options c nxt)) = 401
    | None \<Rightarrow> rs_status_code (fst (bearer_auth options c nxt)) = 401"
proof -
  have "extract_bearer_token '''' p = None" for p by (simp add: extract_bearer_token_def Let_def v_starts_with_iff)
  then show ?thesis
    by (auto simp: bearer_auth_def presented_token_def validate_plain [OF assms] unauthorized_facts split: option.splits)
qed

text \<open>Whatever is configured, a refused request changes nothing that the handlers keep, and the answer does not depend on the handler.\<close>

theorem bearer_refusal:
  assumes "\<not> (\<exists>t. presented_token options c = Some t \<and> validate_bearer_token t options c)"
  shows "bearer_auth options c nxt = bearer_auth options c nxt' \<and> rs_status_code (fst (bearer_auth options c nxt)) = 401
    \<and> cx_store (snd (bearer_auth options c nxt)) = cx_store c"
  using assms by (auto simp: bearer_auth_def presented_token_def unauthorized_facts split: option.splits)

text \<open>C34: with fixed tokens the handler runs exactly when the request presents one of them, and then it finds that token in its
  context; any other request gets status 401.\<close>

theorem bearer_guard:
  assumes "ba_verify_token options = None" and "ba_hash_function options = None"
  shows "(case presented_token options c of
      Some t \<Rightarrow> if t \<in> accepted_tokens options
        then bearer_auth options c nxt = nxt (context_set ''bearer_token'' t c) \<and> get_bearer_token (context_set ''bearer_token'' t c) = Some t
        else rs_status_code (fst (bearer_auth options c nxt)) = 401
    | None \<Rightarrow> rs_status_code (fst (bearer_auth options c nxt)) = 401)"
  using bearer_cases [OF assms, of c nxt] by (auto simp: get_bearer_token_def context_get_set split: option.splits if_splits)

definition demo_bearer_context :: http_context where
  "demo_bearer_context =
     \<lparr>cx_req = \<lparr>hq_method = ''GET'', hq_url = ''/'', hq_header = [(''authorization'', ''Bearer  s3cret '')], hq_data = ''''\<rparr>, cx_params = [],
      cx_query = [], cx_url = ''/'', cx_path = ''/'', cx_status_code = 200, cx_headers = [], cx_body = '''', cx_store = []\<rparr>"

lemma demo_presented: "presented_token (bearer_options t) demo_bearer_context = Some ''s3cret''"
proof -
  have "get_custom [(''authorization'', ''Bearer  s3cret '')] ''Authorization'' = Some ''Bearer  s3cret ''" by code_simp
  moreover have "extract_bearer_token ''Bearer  s3cret '' ''Bearer'' = Some ''s3cret''" by code_simp
  ultimately show ?thesis by (simp add: presented_token_def demo_bearer_context_def bearer_options_def)
qed

theorem bearer_guard_witness:
  "rs_body (fst (bearer_auth (bearer_options (Some_tokens [''other'', ''s3cret''])) demo_bearer_context (\<lambda>c. (context_text ''in'' c, c)))) = ''in''
   \<and> rs_status_code (fst (bearer_auth (bearer_options (One_token ''other'')) demo_bearer_context (\<lambda>c. (context_text ''in'' c, c)))) = 401"
  using bearer_guard [of "bearer_options (Some_tokens [''other'', ''s3cret''])" demo_bearer_context "\<lambda>c. (context_text ''in'' c, c)"]
    bearer_guard [of "bearer_options (One_token ''other'')" demo_bearer_context "\<lambda>c. (context_text ''in'' c, c)"]
  by (simp add: demo_presented accepted_tokens_def) (simp add: bearer_options_def context_text_def context_respond_def)

text \<open>The refusal prints the realm into its header as it is.\<close>

lemma realm_is_not_quoted:
  "vget (cx_headers (snd (unauthorized_response [CHR 0x22] ''m'' demo_bearer_context))) ''WWW-Authenticate''
   = Some (''Bearer realm='' @ replicate 3 (CHR 0x22))"
  by (simp add: unauthorized_response_def Let_def set_header_def context_status_def demo_bearer_context_def numeral_eq_Suc)

end
