(* ===== verification/Jwt.thy ===== *)
theory Jwt
  imports Cookie Bearer_Auth
begin

unbundle bit_operations_syntax

text \<open>
  JSON web tokens (\<^verbatim>\<open>jwt.v\<close>): Base64URL, HMAC, printing and reading of the payload, signing, verification with its options,
  and the middleware.

  SHA-256 is written out in \<open>Codec\<close>.  SHA-384, SHA-512, the Base64 decoder and the JSON parser of the standard library are
  parameters, the record \<open>jwt_lib\<close>; of a parsed JSON object the code uses only the text and the integer that each value gives,
  so \<open>json_any\<close> is that pair.  What the round trip asks of them is \<open>jwt_laws\<close>: the decoder undoes the encoder, and the parser reads
  an object of texts and integers that is printed with the escapes of the source.  Errors are messages, as the middleware prints them; the
  time (seconds) is an argument.

  Shown here: which tokens are accepted; that a handler behind the middleware runs only for those; that what was signed is read back.
\<close>

section \<open>Options and payload\<close>

datatype jwt_algorithm = HS256 | HS384 | HS512

record jwt_verify_options =
  jv_iss :: string
  jv_exp :: bool
  jv_nbf :: bool
  jv_iat :: bool

record jwt_options =
  jo_secret :: string
  jo_alg :: jwt_algorithm
  jo_cookie :: string
  jo_header_name :: string
  jo_verify_options :: jwt_verify_options

definition default_jwt_options :: "string \<Rightarrow> jwt_options" where
  "default_jwt_options secret =
     \<lparr>jo_secret = secret, jo_alg = HS256, jo_cookie = '''', jo_header_name = ''Authorization'',
      jo_verify_options = \<lparr>jv_iss = '''', jv_exp = True, jv_nbf = True, jv_iat = True\<rparr>\<rparr>"

record jwt_payload =
  pl_sub :: string
  pl_iss :: string
  pl_aud :: string
  pl_exp :: int
  pl_nbf :: int
  pl_iat :: int
  pl_jti :: string
  pl_claims :: "(string, string) vmap"

record json_any =
  any_str :: string
  any_i64 :: int

record jwt_lib =
  jl_sum384 :: "u8 list \<Rightarrow> u8 list"
  jl_sum512 :: "u8 list \<Rightarrow> u8 list"
  jl_b64_decode :: "string \<Rightarrow> u8 list"
  jl_json :: "string \<Rightarrow> string + (string, json_any) vmap"

section \<open>Encodings and signatures\<close>

definition trim_right_eq :: "string \<Rightarrow> string" where
  "trim_right_eq s = rev (dropWhile (\<lambda>c. c = CHR ''='') (rev s))"

definition base64url_encode :: "u8 list \<Rightarrow> string" where
  "base64url_encode data = trim_right_eq (v_replace (CHR ''/'') ''_'' (v_replace (CHR ''+'') ''-'' (base64_encode data)))"

definition base64url_decode :: "jwt_lib \<Rightarrow> string \<Rightarrow> u8 list" where
  "base64url_decode lib data =
     (let standard = v_replace (CHR ''_'') ''/'' (v_replace (CHR ''-'') ''+'' data);
          padding = (4 - length standard mod 4) mod 4
      in jl_b64_decode lib (standard @ replicate padding (CHR ''='')))"

text \<open>The same steps for each hash: its block size is 64 bytes for SHA-256 and 128 for the others.\<close>

definition hmac_with :: "(u8 list \<Rightarrow> u8 list) \<Rightarrow> nat \<Rightarrow> u8 list \<Rightarrow> u8 list \<Rightarrow> u8 list" where
  "hmac_with hash_fn block_size message secret =
     (let key0 = (if length secret > block_size then hash_fn secret else secret);
          key = key0 @ replicate (block_size - length key0) 0;
          inner_hash = hash_fn (map (\<lambda>b. b XOR 0x36) key @ message)
      in hash_fn (map (\<lambda>b. b XOR 0x5C) key @ inner_hash))"

definition hmac_sha256 :: "u8 list \<Rightarrow> u8 list \<Rightarrow> u8 list" where
  "hmac_sha256 = hmac_with sha256_sum 64"

definition hmac_sha384 :: "jwt_lib \<Rightarrow> u8 list \<Rightarrow> u8 list \<Rightarrow> u8 list" where
  "hmac_sha384 lib = hmac_with (jl_sum384 lib) 128"

definition hmac_sha512 :: "jwt_lib \<Rightarrow> u8 list \<Rightarrow> u8 list \<Rightarrow> u8 list" where
  "hmac_sha512 lib = hmac_with (jl_sum512 lib) 128"

definition sign_message :: "jwt_lib \<Rightarrow> u8 list \<Rightarrow> u8 list \<Rightarrow> jwt_algorithm \<Rightarrow> u8 list" where
  "sign_message lib message secret alg =
     (case alg of HS256 \<Rightarrow> hmac_sha256 message secret | HS384 \<Rightarrow> hmac_sha384 lib message secret | HS512 \<Rightarrow> hmac_sha512 lib message secret)"

definition alg_to_string :: "jwt_algorithm \<Rightarrow> string" where
  "alg_to_string alg = (case alg of HS256 \<Rightarrow> ''HS256'' | HS384 \<Rightarrow> ''HS384'' | HS512 \<Rightarrow> ''HS512'')"

definition string_to_alg :: "string \<Rightarrow> string + jwt_algorithm" where
  "string_to_alg s =
     (if s = ''HS256'' then Inr HS256 else if s = ''HS384'' then Inr HS384 else if s = ''HS512'' then Inr HS512
      else Inl (''Unsupported algorithm: '' @ s))"

section \<open>Printing\<close>

definition escape_json_char :: "char \<Rightarrow> string" where
  "escape_json_char c =
     (if c = CHR 0x22 then [backslash, CHR 0x22] else if c = backslash then [backslash, backslash]
      else if c = CHR 0x0A then [backslash, CHR ''n''] else if c = CHR 0x0D then [backslash, CHR ''r'']
      else if c = CHR 0x09 then [backslash, CHR ''t''] else [c])"

definition escape_json_string :: "string \<Rightarrow> string" where
  "escape_json_string s = concat (map escape_json_char s)"

definition json_quote :: "string \<Rightarrow> string" where
  "json_quote s = CHR 0x22 # s @ [CHR 0x22]"

definition text_claim :: "string \<Rightarrow> string \<Rightarrow> string list" where
  "text_claim key v = (if length v > 0 then [json_quote key @ '':'' @ json_quote (escape_json_string v)] else [])"

definition time_claim :: "string \<Rightarrow> int \<Rightarrow> string list" where
  "time_claim key t = (if t \<noteq> 0 then [json_quote key @ '':'' @ v_str t] else [])"

definition encode_payload :: "jwt_payload \<Rightarrow> string" where
  "encode_payload p =
     (let parts = text_claim ''sub'' (pl_sub p) @ text_claim ''iss'' (pl_iss p) @ text_claim ''aud'' (pl_aud p)
        @ time_claim ''exp'' (pl_exp p) @ time_claim ''nbf'' (pl_nbf p) @ time_claim ''iat'' (pl_iat p) @ text_claim ''jti'' (pl_jti p)
        @ map (\<lambda>(key, v). json_quote (escape_json_string key) @ '':'' @ json_quote (escape_json_string v)) (pl_claims p)
      in ''{'' @ join_str '','' parts @ ''}'')"

definition header_json :: "jwt_algorithm \<Rightarrow> string" where
  "header_json alg = ''{'' @ json_quote ''alg'' @ '':'' @ json_quote (alg_to_string alg) @ '','' @ json_quote ''typ'' @ '':''
     @ json_quote ''JWT'' @ ''}''"

definition sign_jwt :: "jwt_lib \<Rightarrow> jwt_payload \<Rightarrow> string \<Rightarrow> jwt_algorithm \<Rightarrow> string + string" where
  "sign_jwt lib payload secret alg =
     (if length secret = 0 then Inl ''Secret is required''
      else
        let header_encoded = base64url_encode (v_bytes (header_json alg));
            payload_encoded = base64url_encode (v_bytes (encode_payload payload));
            signing_input = header_encoded @ ''.'' @ payload_encoded;
            signature = sign_message lib (v_bytes signing_input) (v_bytes secret) alg
        in Inr (signing_input @ ''.'' @ base64url_encode signature))"

section \<open>Reading\<close>

definition claim_str :: "(string, json_any) vmap \<Rightarrow> string \<Rightarrow> string" where
  "claim_str obj key = (case vget obj key of Some a \<Rightarrow> any_str a | None \<Rightarrow> '''')"

definition claim_i64 :: "(string, json_any) vmap \<Rightarrow> string \<Rightarrow> int" where
  "claim_i64 obj key = (case vget obj key of Some a \<Rightarrow> any_i64 a | None \<Rightarrow> 0)"

definition standard_claims :: "string list" where
  "standard_claims = [''sub'', ''iss'', ''aud'', ''exp'', ''nbf'', ''iat'', ''jti'']"

definition parse_payload :: "jwt_lib \<Rightarrow> string \<Rightarrow> string + jwt_payload" where
  "parse_payload lib json_str =
     (case jl_json lib json_str of
        Inl err \<Rightarrow> Inl (''Invalid JSON payload: '' @ err)
      | Inr obj \<Rightarrow> Inr
         \<lparr>pl_sub = claim_str obj ''sub'', pl_iss = claim_str obj ''iss'', pl_aud = claim_str obj ''aud'', pl_exp = claim_i64 obj ''exp'',
          pl_nbf = claim_i64 obj ''nbf'', pl_iat = claim_i64 obj ''iat'', pl_jti = claim_str obj ''jti'',
          pl_claims = fold (\<lambda>(key, a) m. if key \<in> set standard_claims then m else vset key (any_str a) m) obj []\<rparr>)"

definition decode_jwt :: "jwt_lib \<Rightarrow> string \<Rightarrow> string + jwt_payload" where
  "decode_jwt lib token =
     (let parts = v_split (CHR ''.'') token in
      if length parts \<noteq> 3 then Inl ''Invalid token format''
      else parse_payload lib (v_bytestr (base64url_decode lib (parts ! 1))))"

definition constant_time_compare_jwt :: "string \<Rightarrow> string \<Rightarrow> bool" where
  "constant_time_compare_jwt a b = constant_time_compare a b"

definition verify_jwt :: "jwt_lib \<Rightarrow> string \<Rightarrow> string \<Rightarrow> jwt_algorithm \<Rightarrow> string + jwt_payload" where
  "verify_jwt lib token secret alg =
     (if length secret = 0 then Inl ''Secret is required''
      else
        let parts = v_split (CHR ''.'') token in
        if length parts \<noteq> 3 then Inl ''Invalid token format''
        else case jl_json lib (v_bytestr (base64url_decode lib (parts ! 0))) of
          Inl err \<Rightarrow> Inl (''Invalid header JSON: '' @ err)
        | Inr header_obj \<Rightarrow>
          let token_alg_str = claim_str header_obj ''alg'' in
          case string_to_alg token_alg_str of
            Inl err \<Rightarrow> Inl err
          | Inr token_alg \<Rightarrow>
            if token_alg \<noteq> alg
            then Inl (''Algorithm mismatch: expected '' @ alg_to_string alg @ '', got '' @ token_alg_str)
            else
              let signing_input = parts ! 0 @ ''.'' @ parts ! 1;
                  expected_signature = sign_message lib (v_bytes signing_input) (v_bytes secret) alg
              in if \<not> constant_time_compare_jwt (parts ! 2) (base64url_encode expected_signature) then Inl ''Invalid signature''
                 else decode_jwt lib token)"

definition verify_jwt_with_options ::
  "jwt_lib \<Rightarrow> int \<Rightarrow> string \<Rightarrow> string \<Rightarrow> jwt_algorithm \<Rightarrow> jwt_verify_options \<Rightarrow> string + jwt_payload" where
  "verify_jwt_with_options lib now token secret alg options =
     (case verify_jwt lib token secret alg of
        Inl err \<Rightarrow> Inl err
      | Inr payload \<Rightarrow>
        if jv_exp options \<and> pl_exp payload \<noteq> 0 \<and> now > pl_exp payload then Inl ''Token expired''
        else if jv_nbf options \<and> pl_nbf payload \<noteq> 0 \<and> now < pl_nbf payload then Inl ''Token not yet valid''
        else if length (jv_iss options) > 0 \<and> pl_iss payload \<noteq> jv_iss options
        then Inl (''Invalid issuer: expected '' @ jv_iss options @ '', got '' @ pl_iss payload)
        else Inr payload)"

section \<open>The middleware\<close>

definition get_jwt_token :: "http_context \<Rightarrow> jwt_options \<Rightarrow> string + string" where
  "get_jwt_token c options =
     (case (if length (jo_cookie options) > 0 then get_cookie c (jo_cookie options) else None) of
        Some cookie_token \<Rightarrow> Inr cookie_token
      | None \<Rightarrow>
        (case get_custom (hq_header (cx_req c)) (jo_header_name options) of
           None \<Rightarrow> Inl ''Missing authorization header''
         | Some header_value \<Rightarrow>
           if length header_value = 0 then Inl ''Missing authorization header''
           else if v_starts_with header_value ''Bearer '' then
             (let token = trim_space (drop 7 header_value) in
              if length token = 0 then Inl ''Invalid token format'' else Inr token)
           else Inr header_value))"

definition set_text :: "string \<Rightarrow> string \<Rightarrow> http_context \<Rightarrow> http_context" where
  "set_text key v c = (if length v > 0 then context_set key v c else c)"

definition set_time :: "string \<Rightarrow> int \<Rightarrow> http_context \<Rightarrow> http_context" where
  "set_time key t c = (if t \<noteq> 0 then context_set key (v_str t) c else c)"

definition store_jwt_payload :: "jwt_payload \<Rightarrow> http_context \<Rightarrow> http_context" where
  "store_jwt_payload p c =
     (let c1 = set_text ''jwt_jti'' (pl_jti p) (set_time ''jwt_iat'' (pl_iat p) (set_time ''jwt_nbf'' (pl_nbf p)
            (set_time ''jwt_exp'' (pl_exp p) (set_text ''jwt_aud'' (pl_aud p) (set_text ''jwt_iss'' (pl_iss p) (set_text ''jwt_sub'' (pl_sub p) c))))));
          c2 = fold (\<lambda>(key, v) c. context_set (''jwt_'' @ key) v c) (pl_claims p) c1
      in context_set ''jwt_payload'' (encode_payload p) c2)"

definition jwt_refusal :: "string \<Rightarrow> http_context \<Rightarrow> http_response \<times> http_context" where
  "jwt_refusal err c =
     (let c1 = context_status 401 c
      in (context_json (''{'' @ json_quote ''error'' @ '':'' @ json_quote ''Unauthorized'' @ '','' @ json_quote ''message'' @ '':'' @ json_quote err @ ''}'') c1,
          c1))"

definition jwt_middleware :: "jwt_lib \<Rightarrow> int \<Rightarrow> jwt_options \<Rightarrow> context_middleware" where
  "jwt_middleware lib now options c next_fn =
     (case get_jwt_token c options of
        Inl err \<Rightarrow> jwt_refusal err c
      | Inr token \<Rightarrow>
        (case verify_jwt_with_options lib now token (jo_secret options) (jo_alg options) (jo_verify_options options) of
           Inl err \<Rightarrow> jwt_refusal err c
         | Inr payload \<Rightarrow> next_fn (store_jwt_payload payload c)))"

definition get_jwt_payload :: "jwt_lib \<Rightarrow> http_context \<Rightarrow> jwt_payload option" where
  "get_jwt_payload lib c =
     (case context_get ''jwt_payload'' c of
        None \<Rightarrow> None
      | Some payload_json \<Rightarrow> (case parse_payload lib payload_json of Inl _ \<Rightarrow> None | Inr payload \<Rightarrow> Some payload))"

definition get_jwt_claim :: "http_context \<Rightarrow> string \<Rightarrow> string option" where
  "get_jwt_claim c key = context_get (''jwt_'' @ key) c"

section \<open>Which tokens are accepted\<close>

text \<open>The token that \<open>sign_jwt\<close> makes of an encoded header and an encoded payload.\<close>

definition jwt_token :: "jwt_lib \<Rightarrow> string \<Rightarrow> jwt_algorithm \<Rightarrow> string \<Rightarrow> string \<Rightarrow> string" where
  "jwt_token lib secret alg h p =
     h @ ''.'' @ p @ ''.'' @ base64url_encode (sign_message lib (v_bytes (h @ ''.'' @ p)) (v_bytes secret) alg)"

definition header_names :: "jwt_lib \<Rightarrow> jwt_algorithm \<Rightarrow> string \<Rightarrow> bool" where
  "header_names lib alg h =
     (case jl_json lib (v_bytestr (base64url_decode lib h)) of Inl _ \<Rightarrow> False | Inr obj \<Rightarrow> claim_str obj ''alg'' = alg_to_string alg)"

definition signed_token :: "jwt_lib \<Rightarrow> string \<Rightarrow> jwt_algorithm \<Rightarrow> string \<Rightarrow> jwt_payload \<Rightarrow> bool" where
  "signed_token lib secret alg token payload \<longleftrightarrow>
     secret \<noteq> '''' \<and> (\<exists>h p. token = jwt_token lib secret alg h p \<and> CHR ''.'' \<notin> set h \<and> CHR ''.'' \<notin> set p
       \<and> header_names lib alg h \<and> parse_payload lib (v_bytestr (base64url_decode lib p)) = Inr payload)"

lemma replace_map: "v_replace c [d] s = map (\<lambda>x. if x = c then d else x) s"
  by (induction s) (auto simp: v_replace_def)

lemma url_replace: "v_replace (CHR ''/'') ''_'' (v_replace (CHR ''+'') ''-'' s) = map url_char s"
  by (simp add: replace_map url_char_def)

lemma trim_right_id: "CHR ''='' \<notin> set s \<Longrightarrow> trim_right_eq (s @ replicate k (CHR ''='')) = s"
proof -
  assume s: "CHR ''='' \<notin> set s"
  have "dropWhile (\<lambda>c. c = CHR ''='') (rev s) = rev s"
  proof (cases s rule: rev_cases)
    case (snoc t x)
    with s have "x \<noteq> CHR ''=''" by auto
    with snoc show ?thesis by simp
  qed simp
  moreover have "dropWhile (\<lambda>c. c = CHR ''='') (replicate k (CHR ''='') @ rev s) = dropWhile (\<lambda>c. c = CHR ''='') (rev s)"
    by (induction k) auto
  ultimately show ?thesis by (simp add: trim_right_eq_def)
qed

lemma padding_counts:
  "replicate ((4 - length [x, y] mod 4) mod 4) c = [c, c]" "replicate ((4 - length [x, y, z] mod 4) mod 4) c = [c]"
  "(4 - (4 + n) mod 4) mod 4 = (4 - n mod 4) mod (4 :: nat)"
  by (simp_all add: numeral_2_eq_2)

text \<open>Base64 is characters of the alphabet and then the padding that makes the length a multiple of four.\<close>

lemma base64_split:
  obtains cs where "base64_encode bs = cs @ replicate ((4 - length cs mod 4) mod 4) (CHR ''='')" and "set cs \<subseteq> set b64_alphabet"
proof -
  have "\<exists>cs. base64_encode bs = cs @ replicate ((4 - length cs mod 4) mod 4) (CHR ''='') \<and> set cs \<subseteq> set b64_alphabet"
  proof (induction bs rule: base64_encode.induct)
    case 1
    show ?case by (rule exI [of _ "[]"]) simp
  next
    case (2 a)
    show ?case
      by (rule exI [of _ "[b64_char (unat a div 4), b64_char (unat a * 16)]"])
        (simp only: padding_counts base64_encode.simps append.simps list.simps b64_char_in insert_subset empty_subsetI simp_thms)
  next
    case (3 a b)
    show ?case
      by (rule exI [of _ "[b64_char (unat a div 4), b64_char (unat a * 16 + unat b div 16), b64_char (unat b * 4)]"])
        (simp only: padding_counts base64_encode.simps append.simps list.simps b64_char_in insert_subset empty_subsetI simp_thms)
  next
    case (4 a b c bs)
    then obtain cs where "base64_encode bs = cs @ replicate ((4 - length cs mod 4) mod 4) (CHR ''='')" "set cs \<subseteq> set b64_alphabet"
      by blast
    moreover define q where "q = [b64_char (unat a div 4), b64_char (unat a * 16 + unat b div 16), b64_char (unat b * 4 + unat c div 64), b64_char (unat c)]"
    moreover have "length q = 4" "set q \<subseteq> set b64_alphabet" by (simp_all add: q_def b64_char_in)
    ultimately show ?case
      by (intro exI [of _ "q @ cs"]) (simp add: padding_counts(3))
  qed
  with that show thesis by blast
qed

lemma url_set: "set cs \<subseteq> set b64_alphabet \<Longrightarrow> set (map url_char cs) \<subseteq> set signature_chars"
  using url_char_alphabet by auto

lemma not_eq_sign: "CHR ''='' \<notin> set signature_chars"
  by code_simp

lemma base64url_eq:
  assumes "base64_encode bs = cs @ replicate k (CHR ''='')" and "set cs \<subseteq> set b64_alphabet"
  shows "base64url_encode bs = map url_char cs"
proof -
  have "url_char (CHR ''='') = CHR ''=''" by (simp add: url_char_def)
  moreover have "trim_right_eq (map url_char cs @ replicate k (CHR ''='')) = map url_char cs"
    by (rule trim_right_id) (use url_set [OF assms(2)] not_eq_sign in blast)
  ultimately show ?thesis using assms(1) by (simp add: base64url_encode_def url_replace)
qed

lemma base64url_no_dot: "CHR ''.'' \<notin> set (base64url_encode bs)"
proof -
  obtain cs where "base64_encode bs = cs @ replicate ((4 - length cs mod 4) mod 4) (CHR ''='')" "set cs \<subseteq> set b64_alphabet"
    by (rule base64_split)
  then show ?thesis using url_set not_signature_chars(1) by (auto simp: base64url_eq simp del: set_map)
qed

lemma string_to_alg_iff: "string_to_alg s = Inr alg \<longleftrightarrow> s = alg_to_string alg"
  by (cases alg) (auto simp: string_to_alg_def alg_to_string_def)

lemma three_pieces:
  "length (v_split (CHR ''.'') token) = 3 \<longleftrightarrow>
     (\<exists>h p s. token = h @ ''.'' @ p @ ''.'' @ s \<and> CHR ''.'' \<notin> set h \<and> CHR ''.'' \<notin> set p \<and> CHR ''.'' \<notin> set s)"
proof
  assume "length (v_split (CHR ''.'') token) = 3"
  then obtain h p s where v: "v_split (CHR ''.'') token = [h, p, s]"
    by (auto simp: numeral_3_eq_3 length_Suc_conv)
  with v_split_no_delim_in [where d = "CHR ''.''" and s = token] have "CHR ''.'' \<notin> set h" "CHR ''.'' \<notin> set p" "CHR ''.'' \<notin> set s"
    by simp_all
  moreover from v join_v_split [of "CHR ''.''" token] have "token = h @ ''.'' @ p @ ''.'' @ s" by simp
  ultimately show "\<exists>h p s. token = h @ ''.'' @ p @ ''.'' @ s \<and> CHR ''.'' \<notin> set h \<and> CHR ''.'' \<notin> set p \<and> CHR ''.'' \<notin> set s"
    by blast
qed (auto simp: v_split_append_delim v_split_no_delim)

lemma split_three:
  assumes "CHR ''.'' \<notin> set h" and "CHR ''.'' \<notin> set p" and "CHR ''.'' \<notin> set s"
  shows "v_split (CHR ''.'') (h @ ''.'' @ p @ ''.'' @ s) = [h, p, s]"
  using assms by (simp add: v_split_append_delim v_split_no_delim)

lemma alg_to_string_inj: "alg_to_string a = alg_to_string b \<longleftrightarrow> a = b"
  by (cases a; cases b) (simp_all add: alg_to_string_def)

lemma string_to_alg_print: "string_to_alg (alg_to_string a) = Inr a"
  by (simp add: string_to_alg_iff)

lemma verify_three:
  assumes "v_split (CHR ''.'') token = [h, p, s]"
  shows "verify_jwt lib token secret alg = Inr payload \<longleftrightarrow>
    secret \<noteq> '''' \<and> header_names lib alg h \<and> parse_payload lib (v_bytestr (base64url_decode lib p)) = Inr payload
    \<and> s = base64url_encode (sign_message lib (v_bytes (h @ ''.'' @ p)) (v_bytes secret) alg)"
  by (auto simp: verify_jwt_def decode_jwt_def header_names_def assms Let_def constant_time_compare_jwt_def
      constant_time_compare_eq string_to_alg_iff string_to_alg_print alg_to_string_inj split: sum.splits)

lemma verify_iff: "verify_jwt lib token secret alg = Inr payload \<longleftrightarrow> signed_token lib secret alg token payload"
proof
  assume v: "verify_jwt lib token secret alg = Inr payload"
  then have "length (v_split (CHR ''.'') token) = 3" by (auto simp: verify_jwt_def Let_def split: if_splits)
  then obtain h p s where t: "token = h @ ''.'' @ p @ ''.'' @ s"
    and parts: "CHR ''.'' \<notin> set h" "CHR ''.'' \<notin> set p" "CHR ''.'' \<notin> set s"
    unfolding three_pieces by blast
  then have "v_split (CHR ''.'') token = [h, p, s]" using split_three by simp
  with v t parts show "signed_token lib secret alg token payload"
    unfolding signed_token_def jwt_token_def by (subst (asm) verify_three) auto
next
  assume "signed_token lib secret alg token payload"
  then obtain h p where hp: "secret \<noteq> ''''" "token = jwt_token lib secret alg h p" "CHR ''.'' \<notin> set h" "CHR ''.'' \<notin> set p"
    "header_names lib alg h" "parse_payload lib (v_bytestr (base64url_decode lib p)) = Inr payload"
    unfolding signed_token_def by blast
  have "v_split (CHR ''.'') token = [h, p, base64url_encode (sign_message lib (v_bytes (h @ ''.'' @ p)) (v_bytes secret) alg)]"
    unfolding hp(2) jwt_token_def by (rule split_three [OF hp(3,4) base64url_no_dot])
  then show "verify_jwt lib token secret alg = Inr payload" using hp by (simp add: verify_three)
qed

text \<open>C20: a token is accepted exactly when the secret is not empty, the token is header, payload and the signature of both under that
  secret with the demanded algorithm, the header names that algorithm, and the payload can be read; what is returned is the payload as read.
  So a changed header, payload or signature is refused unless the signatures collide, and the header cannot choose another algorithm.\<close>

theorem jwt_accepted_iff:
  "verify_jwt lib token secret alg = Inr payload \<longleftrightarrow>
     secret \<noteq> '''' \<and> (\<exists>h p. token = jwt_token lib secret alg h p \<and> CHR ''.'' \<notin> set h \<and> CHR ''.'' \<notin> set p
       \<and> header_names lib alg h \<and> parse_payload lib (v_bytestr (base64url_decode lib p)) = Inr payload)"
  unfolding verify_iff signed_token_def ..

section \<open>The guard\<close>

definition in_time :: "jwt_verify_options \<Rightarrow> int \<Rightarrow> jwt_payload \<Rightarrow> bool" where
  "in_time options now p \<longleftrightarrow>
     (jv_exp options \<and> pl_exp p \<noteq> 0 \<longrightarrow> now \<le> pl_exp p) \<and> (jv_nbf options \<and> pl_nbf p \<noteq> 0 \<longrightarrow> pl_nbf p \<le> now)
     \<and> (jv_iss options \<noteq> '''' \<longrightarrow> pl_iss p = jv_iss options)"

definition jwt_granted :: "jwt_lib \<Rightarrow> int \<Rightarrow> jwt_options \<Rightarrow> http_context \<Rightarrow> jwt_payload \<Rightarrow> bool" where
  "jwt_granted lib now options c payload \<longleftrightarrow>
     (\<exists>token. get_jwt_token c options = Inr token \<and> signed_token lib (jo_secret options) (jo_alg options) token payload)
     \<and> in_time (jo_verify_options options) now payload"

lemma verify_options_iff:
  "verify_jwt_with_options lib now token secret alg options = Inr payload \<longleftrightarrow>
     signed_token lib secret alg token payload \<and> in_time options now payload"
  unfolding verify_iff [symmetric] by (auto simp: verify_jwt_with_options_def in_time_def split: sum.splits)

lemma granted_once: "jwt_granted lib now options c p \<Longrightarrow> jwt_granted lib now options c p' \<Longrightarrow> p = p'"
  by (auto simp: jwt_granted_def verify_iff [symmetric])

lemma refusal_facts:
  "rs_status_code (fst (jwt_refusal err c)) = 401" "cx_store (snd (jwt_refusal err c)) = cx_store c"
  by (simp_all add: jwt_refusal_def Let_def context_json_def context_respond_def set_header_def context_status_def)

lemma middleware_granted:
  assumes "jwt_granted lib now options c payload"
  shows "jwt_middleware lib now options c nxt = nxt (store_jwt_payload payload c)"
  using assms by (auto simp: jwt_granted_def jwt_middleware_def verify_options_iff [THEN iffD2])

lemma middleware_refused:
  assumes "\<nexists>payload. jwt_granted lib now options c payload"
  shows "\<exists>err. \<forall>nxt. jwt_middleware lib now options c nxt = jwt_refusal err c"
proof (cases "get_jwt_token c options")
  case (Inr token)
  with assms have "\<nexists>p. verify_jwt_with_options lib now token (jo_secret options) (jo_alg options) (jo_verify_options options) = Inr p"
    unfolding verify_options_iff by (auto simp: jwt_granted_def)
  then obtain err where "verify_jwt_with_options lib now token (jo_secret options) (jo_alg options) (jo_verify_options options) = Inl err"
    by (metis sum.exhaust)
  with Inr show ?thesis by (intro exI [of _ err]) (simp add: jwt_middleware_def)
next
  case (Inl err)
  then show ?thesis by (intro exI [of _ err]) (simp add: jwt_middleware_def)
qed

text \<open>What the handler finds in its context.\<close>

lemma claim_keys_inj: "''jwt_'' @ k = ''jwt_'' @ k' \<longleftrightarrow> k = k'"
  by simp

lemma claims_stored:
  "vmap_ok m \<Longrightarrow> get_jwt_claim (fold (\<lambda>(key, v) c. context_set (''jwt_'' @ key) v c) m c) k
     = (case vget m k of Some v \<Rightarrow> Some v | None \<Rightarrow> get_jwt_claim c k)"
proof (induction m arbitrary: c)
  case (Cons e m)
  obtain key v where e: "e = (key, v)" by (cases e)
  from Cons.prems e have "vmap_ok m" "vget m key = None" by (simp_all add: vget_None_iff)
  with Cons.IH [of "context_set (''jwt_'' @ key) v c"] e show ?case
    by (auto simp: get_jwt_claim_def context_get_set split: option.splits)
qed (simp add: get_jwt_claim_def)

lemma read_claims_keys:
  assumes "parse_payload lib s = Inr p"
  shows "vmap_ok (pl_claims p) \<and> vget (pl_claims p) ''sub'' = None"
proof -
  let ?step = "\<lambda>(key, a :: json_any) m. if key \<in> set standard_claims then m else vset key (any_str a) m"
  have "vmap_ok m \<and> vget m ''sub'' = None \<Longrightarrow> vmap_ok (fold ?step obj m) \<and> vget (fold ?step obj m) ''sub'' = None" for obj m
  proof (induction obj arbitrary: m)
    case (Cons e obj)
    obtain key a where e: "e = (key, a)" by (cases e)
    have "''sub'' = key \<longrightarrow> key \<in> set standard_claims" by (simp add: standard_claims_def)
    with Cons.prems have "vmap_ok (?step e m) \<and> vget (?step e m) ''sub'' = None" by (simp add: e)
    then show ?case unfolding fold.simps comp_apply by (rule Cons.IH)
  qed simp
  then have all: "vmap_ok (fold ?step obj []) \<and> vget (fold ?step obj []) ''sub'' = None" for obj by simp
  from assms obtain obj where "pl_claims p = fold ?step obj []" by (auto simp: parse_payload_def split: sum.splits)
  then show ?thesis using all [of obj] by (simp only:)
qed

lemma granted_claims:
  assumes "jwt_granted lib now options c p"
  shows "vmap_ok (pl_claims p) \<and> vget (pl_claims p) ''sub'' = None"
  using assms read_claims_keys unfolding jwt_granted_def signed_token_def by blast

lemma set_other:
  "context_get k (set_text key v c) = (if k = key \<and> v \<noteq> '''' then Some v else context_get k c)"
  "context_get k (set_time key t c) = (if k = key \<and> t \<noteq> 0 then Some (v_str t) else context_get k c)"
  by (simp_all add: set_text_def set_time_def context_get_set)

lemma handler_sees:
  assumes "vmap_ok (pl_claims p)" and "vget (pl_claims p) ''sub'' = None"
  shows "get_jwt_claim (store_jwt_payload p c) ''payload'' = Some (encode_payload p)"
    and "get_jwt_claim (store_jwt_payload p c) ''sub'' = (if pl_sub p = '''' then get_jwt_claim c ''sub'' else Some (pl_sub p))"
    and "vget (pl_claims p) k = Some v \<Longrightarrow> k \<noteq> ''payload'' \<Longrightarrow> get_jwt_claim (store_jwt_payload p c) k = Some v"
proof -
  let ?fold = "\<lambda>c. fold (\<lambda>(key, v) c. context_set (''jwt_'' @ key) v c) (pl_claims p) c"
  have st: "store_jwt_payload p c = context_set (''jwt_'' @ ''payload'') (encode_payload p)
      (?fold (set_text (''jwt_'' @ ''jti'') (pl_jti p) (set_time (''jwt_'' @ ''iat'') (pl_iat p) (set_time (''jwt_'' @ ''nbf'') (pl_nbf p)
        (set_time (''jwt_'' @ ''exp'') (pl_exp p) (set_text (''jwt_'' @ ''aud'') (pl_aud p) (set_text (''jwt_'' @ ''iss'') (pl_iss p)
          (set_text (''jwt_'' @ ''sub'') (pl_sub p) c))))))))"
    by (simp add: store_jwt_payload_def)
  have get: "get_jwt_claim (context_set (''jwt_'' @ key) v c) k = (if k = key then Some v else get_jwt_claim c k)" for key v c k
    by (simp add: get_jwt_claim_def context_get_set)
  have set_s: "get_jwt_claim (set_text (''jwt_'' @ key) v c) k = (if k = key \<and> v \<noteq> '''' then Some v else get_jwt_claim c k)" for key v c k
    by (simp add: get_jwt_claim_def set_other)
  have set_i: "get_jwt_claim (set_time (''jwt_'' @ key) t c) k = (if k = key \<and> t \<noteq> 0 then Some (v_str t) else get_jwt_claim c k)"
    for key t c k
    by (simp add: get_jwt_claim_def set_other)
  note facts = get set_s set_i claims_stored [OF assms(1)] assms(2)
  show "get_jwt_claim (store_jwt_payload p c) ''payload'' = Some (encode_payload p)"
    unfolding st by (simp only: facts simp_thms if_True)
  show "get_jwt_claim (store_jwt_payload p c) ''sub'' = (if pl_sub p = '''' then get_jwt_claim c ''sub'' else Some (pl_sub p))"
    unfolding st by (simp add: facts del: append.simps)
  show "vget (pl_claims p) k = Some v \<Longrightarrow> k \<noteq> ''payload'' \<Longrightarrow> get_jwt_claim (store_jwt_payload p c) k = Some v"
    unfolding st by (simp only: facts simp_thms if_False option.case)
qed

text \<open>C14: if the request carries a token that was signed with the configured secret and algorithm, is in time and of the demanded issuer,
  the handler runs, and finds the subject and the whole payload in its context; otherwise, whatever the handler is, the answer is the same
  refusal with status 401, and nothing is stored.\<close>

theorem jwt_guard:
  "if \<exists>p. jwt_granted lib now options c p
   then \<exists>p. jwt_granted lib now options c p
     \<and> (\<forall>nxt. jwt_middleware lib now options c nxt = nxt (store_jwt_payload p c))
     \<and> get_jwt_claim (store_jwt_payload p c) ''sub'' = (if pl_sub p = '''' then get_jwt_claim c ''sub'' else Some (pl_sub p))
     \<and> get_jwt_claim (store_jwt_payload p c) ''payload'' = Some (encode_payload p)
   else \<exists>answer. (\<forall>nxt. jwt_middleware lib now options c nxt = answer)
     \<and> rs_status_code (fst answer) = 401 \<and> cx_store (snd answer) = cx_store c"
proof (cases "\<exists>p. jwt_granted lib now options c p")
  case True
  then obtain p where p: "jwt_granted lib now options c p" by blast
  note sees = granted_claims [OF p, THEN conjunct1] granted_claims [OF p, THEN conjunct2]
  show ?thesis unfolding if_P [OF True]
    by (intro exI [of _ p] conjI allI p middleware_granted [OF p] handler_sees(1) [OF sees] handler_sees(2) [OF sees])
next
  case False
  then obtain err where "\<forall>nxt. jwt_middleware lib now options c nxt = jwt_refusal err c" using middleware_refused by blast
  with refusal_facts [of err c] show ?thesis unfolding if_not_P [OF False] by (intro exI [of _ "jwt_refusal err c"]) simp
qed

section \<open>What was signed is read back\<close>

text \<open>The JSON that is written here is an object of texts and integers.  What the round trip asks of the two library functions: the decoder
  undoes the encoder, and the parser reads such an object, in order, when the keys differ and the texts are plain ASCII.\<close>

datatype json_field = JText string | JInt int

definition print_field :: "string \<times> json_field \<Rightarrow> string" where
  "print_field = (\<lambda>(key, f). json_quote (escape_json_string key) @ '':''
     @ (case f of JText s \<Rightarrow> json_quote (escape_json_string s) | JInt i \<Rightarrow> v_str i))"

definition print_object :: "(string \<times> json_field) list \<Rightarrow> string" where
  "print_object fs = ''{'' @ join_str '','' (map print_field fs) @ ''}''"

definition plain_char :: "char \<Rightarrow> bool" where
  "plain_char c \<longleftrightarrow> c \<in> {CHR 0x09, CHR 0x0A, CHR 0x0D} \<or> 32 \<le> (of_char c :: nat) \<and> (of_char c :: nat) < 127"

definition plain_field :: "string \<times> json_field \<Rightarrow> bool" where
  "plain_field = (\<lambda>(key, f). list_all plain_char key
     \<and> (case f of JText s \<Rightarrow> list_all plain_char s | JInt i \<Rightarrow> - (2 ^ 63) \<le> i \<and> i < 2 ^ 63))"

definition reads_field :: "string \<times> json_field \<Rightarrow> string \<times> json_any \<Rightarrow> bool" where
  "reads_field = (\<lambda>(key, f) (key', a). key = key' \<and> (case f of JText s \<Rightarrow> any_str a = s | JInt i \<Rightarrow> any_i64 a = i))"

definition jwt_laws :: "jwt_lib \<Rightarrow> bool" where
  "jwt_laws lib \<longleftrightarrow>
     (\<forall>bs. jl_b64_decode lib (base64_encode bs) = bs)
     \<and> (\<forall>fs. distinct (map fst fs) \<and> list_all plain_field fs
          \<longrightarrow> (\<exists>obj. jl_json lib (print_object fs) = Inr obj \<and> list_all2 reads_field fs obj))"

text \<open>The fields of a payload, in the order in which they are written.\<close>

definition text_field :: "string \<Rightarrow> string \<Rightarrow> (string \<times> json_field) list" where
  "text_field key v = (if v = '''' then [] else [(key, JText v)])"

definition time_field :: "string \<Rightarrow> int \<Rightarrow> (string \<times> json_field) list" where
  "time_field key t = (if t = 0 then [] else [(key, JInt t)])"

definition claim_fields :: "jwt_payload \<Rightarrow> (string \<times> json_field) list" where
  "claim_fields p = map (\<lambda>(key, v). (key, JText v)) (pl_claims p)"

definition standard_fields :: "jwt_payload \<Rightarrow> (string \<times> json_field) list" where
  "standard_fields p = text_field ''sub'' (pl_sub p) @ text_field ''iss'' (pl_iss p) @ text_field ''aud'' (pl_aud p)
     @ time_field ''exp'' (pl_exp p) @ time_field ''nbf'' (pl_nbf p) @ time_field ''iat'' (pl_iat p) @ text_field ''jti'' (pl_jti p)"

definition plain_payload :: "jwt_payload \<Rightarrow> bool" where
  "plain_payload p \<longleftrightarrow> list_all plain_field (standard_fields p @ claim_fields p)
     \<and> vmap_ok (pl_claims p) \<and> list_all (\<lambda>key. key \<notin> set standard_claims) (vkeys (pl_claims p))"

lemma escape_id: "list_all (\<lambda>c. c \<noteq> CHR 0x22 \<and> c \<noteq> backslash \<and> c \<notin> {CHR 0x09, CHR 0x0A, CHR 0x0D}) s \<Longrightarrow> escape_json_string s = s"
  by (induction s) (auto simp: escape_json_string_def escape_json_char_def)

lemma escape_standard:
  "list_all (\<lambda>key. escape_json_string key = key) (standard_claims @ [''alg'', ''typ'', ''JWT'', ''HS256'', ''HS384'', ''HS512''])"
  by code_simp

lemma print_text_field: "map print_field (text_field key v) = text_claim key v" if "escape_json_string key = key"
  using that by (simp add: text_field_def text_claim_def print_field_def)

lemma print_time_field: "map print_field (time_field key v) = time_claim key v" if "escape_json_string key = key"
  using that by (simp add: time_field_def time_claim_def print_field_def)

lemma print_claim_fields:
  "map print_field (claim_fields p) = map (\<lambda>(key, v). json_quote (escape_json_string key) @ '':'' @ json_quote (escape_json_string v)) (pl_claims p)"
  by (auto simp: claim_fields_def print_field_def)

lemma encode_payload_object: "encode_payload p = print_object (standard_fields p @ claim_fields p)"
proof -
  have "list_all (\<lambda>key. escape_json_string key = key) standard_claims" using escape_standard by simp
  then show ?thesis
    by (simp add: encode_payload_def print_object_def standard_fields_def print_text_field print_time_field print_claim_fields
        standard_claims_def Let_def)
qed

lemma header_json_object: "header_json alg = print_object [(''alg'', JText (alg_to_string alg)), (''typ'', JText ''JWT'')]"
  using escape_standard by (cases alg) (simp_all add: header_json_def print_object_def print_field_def alg_to_string_def)

text \<open>Looking a key up in what the parser returned.\<close>

lemma read_lookup:
  "list_all2 reads_field fs obj \<Longrightarrow>
     (case vget fs key of None \<Rightarrow> vget obj key = None
      | Some (JText s) \<Rightarrow> claim_str obj key = s | Some (JInt i) \<Rightarrow> claim_i64 obj key = i)"
proof (induction rule: list_all2_induct)
  case (Cons f fs e obj)
  obtain k d k' a where fe: "f = (k, d)" "e = (k', a)" by (cases f, cases e)
  with Cons show ?case
    by (cases "k = key") (auto simp: reads_field_def claim_str_def claim_i64_def split: option.splits json_field.splits)
qed simp

lemma read_text: "list_all2 reads_field fs obj \<Longrightarrow> vget fs key = (if s = '''' then None else Some (JText s)) \<Longrightarrow> claim_str obj key = s"
  using read_lookup [of fs obj key] by (auto simp: claim_str_def split: if_splits)

lemma read_time: "list_all2 reads_field fs obj \<Longrightarrow> vget fs key = (if t = 0 then None else Some (JInt t)) \<Longrightarrow> claim_i64 obj key = t"
  using read_lookup [of fs obj key] by (auto simp: claim_i64_def split: if_splits)

lemma field_lookup:
  "vget (text_field key v) k = (if v = '''' \<or> k \<noteq> key then None else Some (JText v))"
  "vget (time_field key t) k = (if t = 0 \<or> k \<noteq> key then None else Some (JInt t))"
  "vget (claim_fields p) k = map_option JText (vget (pl_claims p) k)"
  by (simp_all add: text_field_def time_field_def claim_fields_def map_of_map)

lemma claim_fields_standard:
  "plain_payload p \<Longrightarrow> key \<in> set standard_claims \<Longrightarrow> vget (pl_claims p) key = None"
  by (auto simp: plain_payload_def list_all_iff vget_None_iff)

lemma payload_lookup:
  assumes "plain_payload p" and "key \<in> set standard_claims"
  shows "vget (standard_fields p @ claim_fields p) key = vget (standard_fields p) key"
  using claim_fields_standard [OF assms] by (auto simp: field_lookup map_add_def split: option.splits)

lemma standard_lookup:
  "vget (standard_fields p) ''sub'' = (if pl_sub p = '''' then None else Some (JText (pl_sub p)))"
  "vget (standard_fields p) ''iss'' = (if pl_iss p = '''' then None else Some (JText (pl_iss p)))"
  "vget (standard_fields p) ''aud'' = (if pl_aud p = '''' then None else Some (JText (pl_aud p)))"
  "vget (standard_fields p) ''exp'' = (if pl_exp p = 0 then None else Some (JInt (pl_exp p)))"
  "vget (standard_fields p) ''nbf'' = (if pl_nbf p = 0 then None else Some (JInt (pl_nbf p)))"
  "vget (standard_fields p) ''iat'' = (if pl_iat p = 0 then None else Some (JInt (pl_iat p)))"
  "vget (standard_fields p) ''jti'' = (if pl_jti p = '''' then None else Some (JText (pl_jti p)))"
  by (simp_all add: standard_fields_def map_add_def field_lookup)

lemma standard_keys: "set (map fst (standard_fields p)) \<subseteq> set standard_claims"
  by (auto simp: standard_fields_def standard_claims_def text_field_def time_field_def split: if_splits)

lemma standard_distinct: "distinct (map fst (standard_fields p))"
  by (auto simp: standard_fields_def text_field_def time_field_def)

text \<open>The other members of the object become the custom claims.\<close>

definition claim_step :: "string \<times> json_any \<Rightarrow> (string, string) vmap \<Rightarrow> (string, string) vmap" where
  "claim_step = (\<lambda>(key, a) m. if key \<in> set standard_claims then m else vset key (any_str a) m)"

lemma fold_standard: "set (map fst obj) \<subseteq> set standard_claims \<Longrightarrow> fold claim_step obj m = m"
  by (induction obj) (auto simp: claim_step_def)

lemma fold_custom:
  "distinct (map fst m @ map fst obj) \<Longrightarrow> list_all (\<lambda>key. key \<notin> set standard_claims) (map fst obj)
   \<Longrightarrow> fold claim_step obj m = m @ map (\<lambda>(key, a). (key, any_str a)) obj"
proof (induction obj arbitrary: m)
  case (Cons e obj)
  obtain key a where e: "e = (key, a)" by (cases e)
  from Cons.prems e have "claim_step e m = m @ [(key, any_str a)]" by (simp add: claim_step_def vset_new vget_None_iff)
  with Cons e show ?case by simp
qed simp

lemma reads_keys: "list_all2 reads_field fs obj \<Longrightarrow> map fst obj = map fst fs"
  by (induction rule: list_all2_induct) (auto simp: reads_field_def)

lemma reads_claims:
  assumes "list_all2 reads_field (claim_fields p) obj"
  shows "map (\<lambda>(key, a). (key, any_str a)) obj = pl_claims p"
proof -
  have "list_all2 reads_field (map (\<lambda>(key, v). (key, JText v)) m) obj \<Longrightarrow> map (\<lambda>(key, a). (key, any_str a)) obj = m" for m
    by (induction m arbitrary: obj) (auto simp: reads_field_def list_all2_Cons1)
  with assms show ?thesis by (simp add: claim_fields_def)
qed

lemma read_claims:
  assumes "plain_payload p" and "list_all2 reads_field (standard_fields p @ claim_fields p) obj"
  shows "fold claim_step obj [] = pl_claims p"
proof -
  from assms(2) obtain o1 o2 where obj: "obj = o1 @ o2"
    and o1: "list_all2 reads_field (standard_fields p) o1" and o2: "list_all2 reads_field (claim_fields p) o2"
    by (auto simp: list_all2_append1)
  have "map fst (claim_fields p) = vkeys (pl_claims p)" by (simp add: claim_fields_def comp_def split_def)
  with reads_keys [OF o2] assms(1) have "distinct (map fst o2)" "list_all (\<lambda>key. key \<notin> set standard_claims) (map fst o2)"
    by (simp_all add: plain_payload_def)
  with fold_custom [of "[]" o2] reads_claims [OF o2] have "fold claim_step o2 [] = pl_claims p" by simp
  moreover have "fold claim_step o1 [] = []" using standard_keys reads_keys [OF o1] by (intro fold_standard) simp
  ultimately show ?thesis by (simp add: obj)
qed

lemma parse_payload_printed:
  assumes "jwt_laws lib" and "plain_payload p"
  shows "parse_payload lib (encode_payload p) = Inr p"
proof -
  let ?fs = "standard_fields p @ claim_fields p"
  have keys: "map fst (claim_fields p) = vkeys (pl_claims p)" by (simp add: claim_fields_def comp_def split_def)
  have "distinct (map fst ?fs)" "list_all plain_field ?fs"
    using assms(2) standard_distinct [of p] standard_keys [of p] unfolding map_append keys distinct_append
    by (force simp: plain_payload_def list_all_iff)+
  with assms(1) obtain obj where obj: "jl_json lib (print_object ?fs) = Inr obj" "list_all2 reads_field ?fs obj"
    unfolding jwt_laws_def by blast
  have text_lookup: "claim_str obj key = s" if "key \<in> set standard_claims" "vget (standard_fields p) key = (if s = '''' then None else Some (JText s))"
    for key s by (rule read_text [OF obj(2)]) (simp only: payload_lookup [OF assms(2) that(1)] that(2))
  have time_lookup: "claim_i64 obj key = t" if "key \<in> set standard_claims" "vget (standard_fields p) key = (if t = 0 then None else Some (JInt t))"
    for key t by (rule read_time [OF obj(2)]) (simp only: payload_lookup [OF assms(2) that(1)] that(2))
  have mem: "list_all (\<lambda>key. key \<in> set standard_claims) [''sub'', ''iss'', ''aud'', ''exp'', ''nbf'', ''iat'', ''jti'']"
    by (simp add: standard_claims_def)
  have "claim_str obj ''sub'' = pl_sub p" "claim_str obj ''iss'' = pl_iss p" "claim_str obj ''aud'' = pl_aud p"
    "claim_i64 obj ''exp'' = pl_exp p" "claim_i64 obj ''nbf'' = pl_nbf p" "claim_i64 obj ''iat'' = pl_iat p" "claim_str obj ''jti'' = pl_jti p"
    by (rule text_lookup time_lookup; use mem standard_lookup [of p] in simp)+
  then show ?thesis
    using read_claims [OF assms(2) obj(2)] obj(1) by (simp add: parse_payload_def encode_payload_object claim_step_def)
qed

lemma base64url_decode_encode:
  assumes "jwt_laws lib"
  shows "base64url_decode lib (base64url_encode bs) = bs"
proof -
  obtain cs where cs: "base64_encode bs = cs @ replicate ((4 - length cs mod 4) mod 4) (CHR ''='')" "set cs \<subseteq> set b64_alphabet"
    by (rule base64_split)
  have "list_all (\<lambda>c. c \<noteq> CHR ''-'' \<and> c \<noteq> CHR ''_'') b64_alphabet" by code_simp
  with cs(2) have no: "c \<in> set cs \<Longrightarrow> c \<noteq> CHR ''-'' \<and> c \<noteq> CHR ''_''" for c by (auto simp: list_all_iff)
  have "v_replace (CHR ''_'') ''/'' (v_replace (CHR ''-'') ''+'' (map url_char cs)) = map id cs"
    unfolding replace_map map_map by (rule map_cong) (use no in \<open>auto simp: url_char_def\<close>)
  then have "base64url_decode lib (map url_char cs) = jl_b64_decode lib (base64_encode bs)"
    by (simp add: base64url_decode_def cs(1))
  then show ?thesis using assms by (simp add: base64url_eq [OF cs] jwt_laws_def)
qed

lemma header_names_printed:
  assumes "jwt_laws lib"
  shows "header_names lib alg (base64url_encode (v_bytes (header_json alg)))"
proof -
  let ?fs = "[(''alg'', JText (alg_to_string alg)), (''typ'', JText ''JWT'')]"
  have "list_all (\<lambda>key. list_all plain_char key) [''alg'', ''typ'', ''JWT'', ''HS256'', ''HS384'', ''HS512'']" by code_simp
  then have "list_all plain_field ?fs" by (cases alg) (simp_all add: plain_field_def alg_to_string_def)
  moreover have "distinct (map fst ?fs)" by simp
  ultimately obtain obj where obj: "jl_json lib (header_json alg) = Inr obj" "list_all2 reads_field ?fs obj"
    using assms unfolding jwt_laws_def header_json_object by blast
  from obj(2) have "claim_str obj ''alg'' = alg_to_string alg"
    by (rule read_text) (cases alg, simp_all add: alg_to_string_def)
  with obj(1) show ?thesis by (simp add: header_names_def base64url_decode_encode [OF assms])
qed

text \<open>C13: with a library that keeps the laws, a secret that is not empty and a payload of plain texts, distinct custom claims and no custom
  claim with the name of a standard one, signing gives a token, and verifying that token with the same secret and algorithm gives the payload
  back, field by field and claim by claim in order; with another algorithm it is refused.\<close>

theorem jwt_roundtrip:
  assumes "jwt_laws lib" and "secret \<noteq> ''''" and "plain_payload p"
  shows "\<exists>token. sign_jwt lib p secret alg = Inr token \<and> verify_jwt lib token secret alg = Inr p \<and> decode_jwt lib token = Inr p
    \<and> (alg' = alg \<or> verify_jwt lib token secret alg'
        = Inl (''Algorithm mismatch: expected '' @ alg_to_string alg' @ '', got '' @ alg_to_string alg))"
proof -
  let ?h = "base64url_encode (v_bytes (header_json alg))" and ?p = "base64url_encode (v_bytes (encode_payload p))"
  let ?s = "base64url_encode (sign_message lib (v_bytes (?h @ ''.'' @ ?p)) (v_bytes secret) alg)"
  let ?token = "?h @ ''.'' @ ?p @ ''.'' @ ?s"
  have sign: "sign_jwt lib p secret alg = Inr ?token" using assms(2) by (simp add: sign_jwt_def Let_def)
  have pieces: "v_split (CHR ''.'') ?token = [?h, ?p, ?s]" by (rule split_three) (rule base64url_no_dot)+
  have payload: "parse_payload lib (v_bytestr (base64url_decode lib ?p)) = Inr p"
    by (simp only: base64url_decode_encode [OF assms(1)] v_bytestr_bytes parse_payload_printed [OF assms(1,3)])
  note header = header_names_printed [OF assms(1), of alg]
  have verify: "verify_jwt lib ?token secret alg = Inr p"
    unfolding verify_three [OF pieces] using assms(2) header payload by blast
  have decode: "decode_jwt lib ?token = Inr p" unfolding decode_jwt_def Let_def pieces using payload by simp
  have "verify_jwt lib ?token secret alg'
      = Inl (''Algorithm mismatch: expected '' @ alg_to_string alg' @ '', got '' @ alg_to_string alg)" if "alg' \<noteq> alg"
  proof -
    obtain obj where "jl_json lib (v_bytestr (base64url_decode lib ?h)) = Inr obj" "claim_str obj ''alg'' = alg_to_string alg"
      using header by (auto simp: header_names_def split: sum.splits)
    with that assms(2) show ?thesis
      unfolding verify_jwt_def Let_def pieces by (simp add: string_to_alg_print)
  qed
  then show ?thesis using sign verify decode by blast
qed

section \<open>A library that keeps the laws\<close>

text \<open>A Base64 decoder, and a parser for objects of texts and integers, in place of the standard library.\<close>

fun b64_index :: "char \<Rightarrow> nat" where
  "b64_index c = length (takeWhile (\<lambda>d. d \<noteq> c) b64_alphabet)"

fun b64_decode :: "string \<Rightarrow> u8 list" where
  "b64_decode (a # b # c # d # s) =
     (let w = b64_index a; x = b64_index b; y = b64_index c; z = b64_index d in
      if c = CHR ''='' then [of_nat (w * 4 + x div 16)]
      else if d = CHR ''='' then [of_nat (w * 4 + x div 16), of_nat (x mod 16 * 16 + y div 4)]
      else of_nat (w * 4 + x div 16) # of_nat (x mod 16 * 16 + y div 4) # of_nat (y mod 4 * 64 + z) # b64_decode s)"
| "b64_decode _ = []"

fun unescape :: "string \<Rightarrow> (string \<times> string) option" where
  "unescape (c # cs) =
     (if c = CHR 0x22 then Some ('''', cs)
      else if c = backslash then
        (case cs of [] \<Rightarrow> None
         | d # ds \<Rightarrow> map_option (\<lambda>(s, r). ((if d = CHR ''n'' then CHR 0x0A else if d = CHR ''r'' then CHR 0x0D
                    else if d = CHR ''t'' then CHR 0x09 else d) # s, r)) (unescape ds))
      else map_option (\<lambda>(s, r). (c # s, r)) (unescape cs))"
| "unescape [] = None"

definition number_any :: "string \<Rightarrow> json_any" where
  "number_any t = \<lparr>any_str = t, any_i64 = (if v_starts_with t ''-'' then - int (dec_value (drop 1 t)) else int (dec_value t))\<rparr>"

definition number_char :: "char \<Rightarrow> bool" where
  "number_char c \<longleftrightarrow> is_digit c \<or> c = CHR ''-''"

definition flat_value :: "string \<Rightarrow> (json_any \<times> string) option" where
  "flat_value s =
     (case s of [] \<Rightarrow> None
      | c # cs \<Rightarrow> if c = CHR 0x22 then map_option (\<lambda>(t, r). (\<lparr>any_str = t, any_i64 = 0\<rparr>, r)) (unescape cs)
        else if number_char c then Some (number_any (takeWhile number_char s), dropWhile number_char s) else None)"

definition flat_member :: "string \<Rightarrow> ((string \<times> json_any) \<times> string) option" where
  "flat_member s =
     (case s of [] \<Rightarrow> None
      | q # r0 \<Rightarrow> if q \<noteq> CHR 0x22 then None
        else (case unescape r0 of
                Some (key, colon # r1) \<Rightarrow> if colon = CHR '':'' then map_option (\<lambda>(a, r). ((key, a), r)) (flat_value r1) else None
              | _ \<Rightarrow> None))"

fun flat_members :: "nat \<Rightarrow> string \<Rightarrow> (string, json_any) vmap option" where
  "flat_members 0 s = None"
| "flat_members (Suc n) s =
     (case flat_member s of
        Some (e, r) \<Rightarrow> if r = ''}'' then Some [e]
          else if v_starts_with r '','' then map_option (\<lambda>es. e # es) (flat_members n (drop 1 r)) else None
      | None \<Rightarrow> None)"

definition flat_json :: "string \<Rightarrow> string + (string, json_any) vmap" where
  "flat_json s =
     (if s = ''{}'' then Inr []
      else case (if v_starts_with s ''{'' then flat_members (length s) (drop 1 s) else None) of
        Some obj \<Rightarrow> Inr obj | None \<Rightarrow> Inl ''malformed'')"

definition demo_lib :: jwt_lib where
  "demo_lib = \<lparr>jl_sum384 = (\<lambda>m. sha256_sum m @ replicate 16 0), jl_sum512 = (\<lambda>m. sha256_sum m @ sha256_sum m),
     jl_b64_decode = b64_decode, jl_json = flat_json\<rparr>"

lemma b64_index_char: "b64_index (b64_char n) = n mod 64"
proof -
  have "list_all (\<lambda>i. b64_index (b64_alphabet ! i) = i) [0..<64]" by code_simp
  moreover have "n mod 64 < 64" by simp
  ultimately show ?thesis unfolding b64_char_def list_all_iff atLeastLessThan_upt [symmetric] by simp
qed

lemma b64_char_not_eq: "b64_char n \<noteq> CHR ''=''"
proof -
  have "list_all (\<lambda>c. c \<noteq> CHR ''='') b64_alphabet" by code_simp
  with b64_char_in [of n] show ?thesis by (auto simp: list_all_iff)
qed

lemma mixed_radix: "r < m \<Longrightarrow> (m * q + r) mod m = r \<and> (m * q + r) div m = (q :: nat)"
  by simp

lemma low_part:
  assumes "x < k" and "0 < k" and "0 < n"
  shows "(a * k + x) mod (k * n) = k * (a mod n) + x" and "(a * k + x) mod (k * n) div k = a mod (n :: nat)"
proof -
  have eq: "a * k + x = (k * n) * (a div n) + (k * (a mod n) + x)"
    using mult_div_mod_eq [of n a] by (metis (no_types) add.assoc add_mult_distrib2 mult.assoc mult.commute)
  have "a mod n + 1 \<le> n" using assms(3) mod_less_divisor [of n a] by linarith
  then have "k * (a mod n + 1) \<le> k * n" by (rule mult_le_mono2)
  then have "k * (a mod n) + x < k * n" using assms(1) by simp
  then show low: "(a * k + x) mod (k * n) = k * (a mod n) + x" unfolding eq using mixed_radix by blast
  show "(a * k + x) mod (k * n) div k = a mod n" unfolding low using mixed_radix [OF assms(1)] by blast
qed

lemma byte_parts:
  "a < 256 \<Longrightarrow> x < 16 \<Longrightarrow> a div 4 mod 64 * 4 + (a * 16 + x) mod 64 div 16 = (a :: nat)"
  "b < 256 \<Longrightarrow> y < 4 \<Longrightarrow> (a * 16 + b div 16) mod 64 mod 16 * 16 + (b * 4 + y) mod 64 div 4 = b"
  "c < 256 \<Longrightarrow> (b * 4 + c div 64) mod 64 mod 4 * 64 + c mod 64 = c"
proof -
  show "a div 4 mod 64 * 4 + (a * 16 + x) mod 64 div 16 = a" if "a < 256" "x < 16"
  proof -
    have "(a * 16 + x) mod 64 div 16 = a mod 4" using low_part(2) [of x 16 4 a] that(2) by simp
    moreover have "a div 4 mod 64 = a div 4" using that(1) by simp
    ultimately show ?thesis using div_mult_mod_eq [of a 4] by simp
  qed
  show "(a * 16 + b div 16) mod 64 mod 16 * 16 + (b * 4 + y) mod 64 div 4 = b" if "b < 256" "y < 4"
  proof -
    have "b div 16 < 16" using that(1) by simp
    then have "(a * 16 + b div 16) mod 64 = 16 * (a mod 4) + b div 16" "(16 * (a mod 4) + b div 16) mod 16 = b div 16"
      using low_part(1) [of "b div 16" 16 4 a] by simp_all
    moreover have "(b * 4 + y) mod 64 div 4 = b mod 16" using low_part(2) [of y 4 16 b] that(2) by simp
    ultimately show ?thesis using div_mult_mod_eq [of b 16] by simp
  qed
  show "(b * 4 + c div 64) mod 64 mod 4 * 64 + c mod 64 = c" if "c < 256"
  proof -
    have "c div 64 < 4" using that by simp
    then have "(b * 4 + c div 64) mod 64 = 4 * (b mod 16) + c div 64" "(4 * (b mod 16) + c div 64) mod 4 = c div 64"
      using low_part(1) [of "c div 64" 4 16 b] by simp_all
    then show ?thesis using div_mult_mod_eq [of c 64] by simp
  qed
qed

lemma byte_bounds: "unat (b :: u8) < 256" "unat b div 16 < 16" "unat b div 64 < 4"
proof -
  have "unat b < 2 ^ LENGTH(8)" by (rule unsigned_less)
  then show "unat b < 256" by simp
  then show "unat b div 16 < 16" "unat b div 64 < 4" by simp_all
qed

lemma of_unat: "of_nat (unat b) = (b :: u8)"
  by simp

lemma b64_decode_encode: "b64_decode (base64_encode bs) = bs"
proof (induction bs rule: base64_encode.induct)
  case (2 a)
  show ?case using arg_cong [OF byte_parts(1) [of "unat a" 0, OF byte_bounds(1)], of "of_nat :: nat \<Rightarrow> u8"]
    by (simp only: base64_encode.simps b64_decode.simps Let_def b64_index_char if_True add_0_right of_unat) simp
next
  case (3 a b)
  show ?case using byte_parts(1) [of "unat a" "unat b div 16", OF byte_bounds(1,2)] byte_parts(2) [of "unat b" 0 "unat a", OF byte_bounds(1)]
    by (simp only: base64_encode.simps b64_decode.simps Let_def b64_index_char if_True b64_char_not_eq if_False add_0_right
        of_unat zero_less_numeral simp_thms)
next
  case (4 a b c bs)
  then show ?case
    using byte_parts(1) [of "unat a" "unat b div 16", OF byte_bounds(1,2)] byte_parts(2) [of "unat b" "unat c div 64" "unat a", OF byte_bounds(1,3)]
      byte_parts(3) [of "unat c" "unat b", OF byte_bounds(1)]
    by (simp only: base64_encode.simps append.simps b64_decode.simps Let_def b64_index_char b64_char_not_eq if_False of_unat)
qed simp

lemma unescape_char: "unescape (escape_json_char c @ s) = map_option (\<lambda>(t, r). (c # t, r)) (unescape s)"
  by (simp add: escape_json_char_def backslash_def)

lemma unescape_escape: "unescape (escape_json_string s @ CHR 0x22 # r) = Some (s, r)"
proof (induction s)
  case Nil
  then show ?case by (simp add: escape_json_string_def)
next
  case (Cons c s)
  have "escape_json_string (c # s) = escape_json_char c @ escape_json_string s" by (simp add: escape_json_string_def)
  with Cons show ?case by (simp only: append_assoc unescape_char) simp
qed

lemma v_str_chars: "v_str i \<noteq> '''' \<and> list_all number_char (v_str i)"
  using dec_digits_facts [of "nat i"] dec_digits_facts [of "nat (- i)"] by (auto simp: v_str_def number_char_def list_all_iff)

lemma number_any_print: "any_i64 (number_any (v_str i)) = i"
  using dec_digits_sign [of "nat i"] dec_digits_facts [of "nat i"] dec_digits_facts [of "nat (- i)"]
  by (auto simp: number_any_def v_str_def)

definition stops :: "string \<Rightarrow> bool" where
  "stops r \<longleftrightarrow> r = ''}'' \<or> v_starts_with r '',''"

lemma stops_number: "stops r \<Longrightarrow> takeWhile number_char (v_str i @ r) = v_str i \<and> dropWhile number_char (v_str i @ r) = r"
proof -
  assume "stops r"
  then obtain c t where "r = c # t" "c = CHR ''}'' \<or> c = CHR '',''"
    unfolding stops_def v_starts_with_iff by auto
  moreover have "\<not> number_char (CHR ''}'')" "\<not> number_char (CHR '','')" by (simp_all add: number_char_def is_digit_def)
  ultimately have "r = c # t" "\<not> number_char c" by auto
  moreover have "takeWhile number_char (v_str i @ c # t) = v_str i @ takeWhile number_char (c # t)"
    "dropWhile number_char (v_str i @ c # t) = dropWhile number_char (c # t)"
    using v_str_chars [of i] by (simp_all add: takeWhile_append2 dropWhile_append2 list_all_iff)
  ultimately show ?thesis by simp
qed

lemma flat_value_number: "stops r \<Longrightarrow> flat_value (v_str i @ r) = Some (number_any (v_str i), r)"
proof -
  assume r: "stops r"
  obtain c cs where v: "v_str i = c # cs" "number_char c" using v_str_chars [of i] by (cases "v_str i") auto
  then have "c \<noteq> CHR 0x22" by (auto simp: number_char_def is_digit_def)
  with v stops_number [OF r, of i] show ?thesis by (simp add: flat_value_def)
qed

lemma flat_value_text: "flat_value (json_quote (escape_json_string s) @ r) = Some (\<lparr>any_str = s, any_i64 = 0\<rparr>, r)"
  by (simp add: flat_value_def json_quote_def unescape_escape)

lemma flat_member_print:
  assumes "stops r"
  shows "\<exists>e. flat_member (print_field f @ r) = Some (e, r) \<and> reads_field f e"
proof -
  obtain key d where f: "f = (key, d)" by (cases f)
  define body where "body = (case d of JText s \<Rightarrow> json_quote (escape_json_string s) | JInt i \<Rightarrow> v_str i) @ r"
  obtain a where a: "flat_value body = Some (a, r)" "case d of JText s \<Rightarrow> any_str a = s | JInt i \<Rightarrow> any_i64 a = i"
  proof (cases d)
    case (JText s)
    with that [of "\<lparr>any_str = s, any_i64 = 0\<rparr>"] show ?thesis by (simp add: body_def flat_value_text)
  next
    case (JInt i)
    with that [of "number_any (v_str i)"] assms show ?thesis by (simp add: body_def flat_value_number number_any_print)
  qed
  have "print_field f @ r = CHR 0x22 # escape_json_string key @ CHR 0x22 # CHR '':'' # body"
    by (simp add: f print_field_def json_quote_def body_def)
  with a show ?thesis by (intro exI [of _ "(key, a)"]) (simp add: flat_member_def unescape_escape reads_field_def f)
qed

lemma flat_members_print:
  "fs \<noteq> [] \<Longrightarrow> length fs \<le> n \<Longrightarrow> \<exists>obj. flat_members n (join_str '','' (map print_field fs) @ ''}'') = Some obj \<and> list_all2 reads_field fs obj"
proof (induction fs arbitrary: n)
  case (Cons f fs)
  from Cons.prems obtain m where m: "n = Suc m" "length fs \<le> m" by (cases n) auto
  show ?case
  proof (cases fs)
    case Nil
    obtain e where "flat_member (print_field f @ ''}'') = Some (e, ''}'')" "reads_field f e"
      using flat_member_print [of "''}''" f] by (auto simp: stops_def)
    with Nil m show ?thesis by simp
  next
    case (Cons g gs)
    define rest where "rest = join_str '','' (map print_field fs) @ ''}''"
    have r: "stops (CHR '','' # rest)" by (simp add: stops_def)
    from Cons.IH [of m] m obtain obj where obj: "flat_members m rest = Some obj" "list_all2 reads_field fs obj"
      unfolding rest_def using Cons by auto
    obtain e where "flat_member (print_field f @ CHR '','' # rest) = Some (e, CHR '','' # rest)" "reads_field f e"
      using flat_member_print [OF r] by blast
    moreover have "join_str '','' (map print_field (f # fs)) @ ''}'' = print_field f @ CHR '','' # rest"
      using Cons by (simp add: rest_def)
    ultimately show ?thesis using obj m by simp
  qed
qed simp

lemma print_field_long: "print_field f \<noteq> ''''"
  by (simp add: print_field_def json_quote_def split: prod.split)

lemma join_long: "length fs \<le> Suc (length (join_str '','' (map print_field fs)))"
proof (induction fs)
  case (Cons f fs)
  then show ?case by (cases fs) simp_all
qed simp

lemma demo_laws: "jwt_laws demo_lib"
proof -
  have "\<exists>obj. flat_json (print_object fs) = Inr obj \<and> list_all2 reads_field fs obj" for fs
  proof (cases fs)
    case Nil
    then show ?thesis by (simp add: print_object_def flat_json_def)
  next
    case (Cons f gs)
    then have ne: "fs \<noteq> []" by simp
    have long: "length fs \<le> length (print_object fs)" using join_long [of fs] by (simp add: print_object_def)
    obtain obj where "flat_members (length (print_object fs)) (join_str '','' (map print_field fs) @ ''}'') = Some obj"
      "list_all2 reads_field fs obj"
      using flat_members_print [OF ne long] by blast
    moreover have "print_object fs \<noteq> ''{}''"
      using print_field_long Cons by (cases gs) (simp_all add: print_object_def)
    moreover have "v_starts_with (print_object fs) ''{''" "drop 1 (print_object fs) = join_str '','' (map print_field fs) @ ''}''"
      by (simp_all add: print_object_def)
    ultimately show ?thesis by (simp add: flat_json_def del: drop_Suc_Cons)
  qed
  then show ?thesis by (simp add: jwt_laws_def demo_lib_def b64_decode_encode)
qed

definition demo_payload :: jwt_payload where
  "demo_payload = \<lparr>pl_sub = ''alice'', pl_iss = ''v'', pl_aud = '''', pl_exp = 200, pl_nbf = 0, pl_iat = -5, pl_jti = '''',
     pl_claims = [(''role'', ''say '' @ [CHR 0x22, CHR 0x0A]), (''empty'', '''')]\<rparr>"

theorem jwt_roundtrip_witness:
  "\<exists>token. sign_jwt demo_lib demo_payload ''k'' HS384 = Inr token \<and> verify_jwt demo_lib token ''k'' HS384 = Inr demo_payload
     \<and> decode_jwt demo_lib token = Inr demo_payload
     \<and> verify_jwt demo_lib token ''k'' HS256 = Inl ''Algorithm mismatch: expected HS256, got HS384''"
proof -
  have "plain_payload demo_payload" by code_simp
  from jwt_roundtrip [OF demo_laws _ this, of "''k''" HS384 HS256] show ?thesis by (simp add: alg_to_string_def)
qed

section \<open>What the handlers read back, and some limits\<close>

theorem stored_payload_read_back:
  assumes "jwt_laws lib" and "plain_payload p"
  shows "get_jwt_payload lib (store_jwt_payload p c) = Some p"
proof -
  have "context_get ''jwt_payload'' (store_jwt_payload p c) = Some (encode_payload p)"
    by (simp add: store_jwt_payload_def Let_def context_get_set)
  then show ?thesis by (simp add: get_jwt_payload_def parse_payload_printed [OF assms])
qed

text \<open>The option \<^verbatim>\<open>iat\<close> is never looked at.\<close>

lemma iat_is_ignored:
  "verify_jwt_with_options lib now token secret alg (options\<lparr>jv_iat := b\<rparr>) = verify_jwt_with_options lib now token secret alg options"
  by (auto simp: verify_jwt_with_options_def split: sum.split)

text \<open>In the second of its expiry a token is still accepted.\<close>

lemma accepted_at_expiry: "jv_exp options \<Longrightarrow> jv_nbf options = False \<Longrightarrow> jv_iss options = '''' \<Longrightarrow> in_time options (pl_exp p) p"
  by (simp add: in_time_def)

text \<open>The other control characters are printed as they are, which JSON does not allow.\<close>

lemma control_not_escaped: "escape_json_string [CHR 0x01] = [CHR 0x01]"
  by code_simp

text \<open>The message of a refusal is printed into the body as it is; the algorithm that a token names is part of such a message.\<close>

lemma refusal_not_escaped:
  "string_to_alg [CHR 0x22] = Inl (''Unsupported algorithm: '' @ [CHR 0x22])
   \<and> rs_body (fst (jwt_refusal (''Unsupported algorithm: '' @ [CHR 0x22]) c))
     = ''{'' @ json_quote ''error'' @ '':'' @ json_quote ''Unauthorized'' @ '','' @ json_quote ''message'' @ '':''
       @ [CHR 0x22] @ ''Unsupported algorithm: '' @ [CHR 0x22, CHR 0x22] @ ''}''"
  by (simp add: string_to_alg_def jwt_refusal_def Let_def context_json_def context_respond_def json_quote_def)

end
