(* ===== verification/Uv_Api.thy ===== *)
theory Uv_Api
  imports C_Layout
begin

text \<open>
  The functions and callback types that \<^verbatim>\<open>usockets/include/uv.h\<close> declares: name, type of the result and types of the parameters, in the
  order of the header.  The bodies are in the prebuilt libraries.  Types are those of \<open>C_Layout\<close>: a parameter of array type is a pointer,
  \<^verbatim>\<open>const\<close> belongs to the name of what is pointed to, and a function type is given by its name.  A function type that is written inside a list of
  parameters is named after the function and the parameter.

  \<open>Uv_Callbacks\<close> states what holds of these tables together with the structures.
\<close>

section \<open>Declarations\<close>

record c_fn_type =
  ft_result :: ctype
  ft_params :: "ctype list"

record c_function =
  cf_name :: string
  cf_type :: c_fn_type
  cf_variadic :: bool

definition fn_type :: "ctype \<Rightarrow> ctype list \<Rightarrow> c_fn_type" where
  "fn_type result params = \<lparr>ft_result = result, ft_params = params\<rparr>"

definition proto :: "string \<Rightarrow> ctype \<Rightarrow> ctype list \<Rightarrow> c_function" where
  "proto name result params = \<lparr>cf_name = name, cf_type = fn_type result params, cf_variadic = False\<rparr>"

definition variadic :: "string \<Rightarrow> ctype \<Rightarrow> ctype list \<Rightarrow> c_function" where
  "variadic name result params = \<lparr>cf_name = name, cf_type = fn_type result params, cf_variadic = True\<rparr>"

section \<open>The tables\<close>

definition uv_version_functions :: "c_function list" where
  "uv_version_functions =
    [proto ''uv_version'' (T_base ''unsigned int'') [],
     proto ''uv_version_string'' (T_ptr ''const char'') []]"

definition uv_allocator_callback_types :: "(string \<times> c_fn_type) list" where
  "uv_allocator_callback_types =
    [(''uv_malloc_func'', fn_type (T_ptr ''void'') [T_base ''size_t'']),
     (''uv_realloc_func'', fn_type (T_ptr ''void'') [T_ptr ''void'', T_base ''size_t'']),
     (''uv_calloc_func'', fn_type (T_ptr ''void'') [T_base ''size_t'', T_base ''size_t'']),
     (''uv_free_func'', fn_type (T_base ''void'') [T_ptr ''void''])]"

definition uv_loop_functions :: "c_function list" where
  "uv_loop_functions =
    [proto ''uv_library_shutdown'' (T_base ''void'') [],
     proto ''uv_replace_allocator'' (T_base ''int'') [T_fn ''uv_malloc_func'', T_fn ''uv_realloc_func'', T_fn ''uv_calloc_func'',
        T_fn ''uv_free_func''],
     proto ''uv_default_loop'' (T_ptr ''uv_loop_t'') [],
     proto ''uv_loop_init'' (T_base ''int'') [T_ptr ''uv_loop_t''],
     proto ''uv_loop_close'' (T_base ''int'') [T_ptr ''uv_loop_t''],
     proto ''uv_loop_new'' (T_ptr ''uv_loop_t'') [],
     proto ''uv_loop_delete'' (T_base ''void'') [T_ptr ''uv_loop_t''],
     proto ''uv_loop_size'' (T_base ''size_t'') [],
     proto ''uv_loop_alive'' (T_base ''int'') [T_ptr ''const uv_loop_t''],
     variadic ''uv_loop_configure'' (T_base ''int'') [T_ptr ''uv_loop_t'', T_base ''uv_loop_option''],
     proto ''uv_loop_fork'' (T_base ''int'') [T_ptr ''uv_loop_t''],
     proto ''uv_run'' (T_base ''int'') [T_ptr ''uv_loop_t'', T_base ''uv_run_mode''],
     proto ''uv_stop'' (T_base ''void'') [T_ptr ''uv_loop_t''],
     proto ''uv_ref'' (T_base ''void'') [T_ptr ''uv_handle_t''],
     proto ''uv_unref'' (T_base ''void'') [T_ptr ''uv_handle_t''],
     proto ''uv_has_ref'' (T_base ''int'') [T_ptr ''const uv_handle_t''],
     proto ''uv_update_time'' (T_base ''void'') [T_ptr ''uv_loop_t''],
     proto ''uv_now'' (T_base ''uint64_t'') [T_ptr ''const uv_loop_t''],
     proto ''uv_backend_fd'' (T_base ''int'') [T_ptr ''const uv_loop_t''],
     proto ''uv_backend_timeout'' (T_base ''int'') [T_ptr ''const uv_loop_t'']]"

definition uv_object_callback_types :: "(string \<times> c_fn_type) list" where
  "uv_object_callback_types =
    [(''uv_alloc_cb'', fn_type (T_base ''void'') [T_ptr ''uv_handle_t'', T_base ''size_t'', T_ptr ''uv_buf_t'']),
     (''uv_read_cb'', fn_type (T_base ''void'') [T_ptr ''uv_stream_t'', T_base ''ssize_t'', T_ptr ''const uv_buf_t'']),
     (''uv_write_cb'', fn_type (T_base ''void'') [T_ptr ''uv_write_t'', T_base ''int'']),
     (''uv_connect_cb'', fn_type (T_base ''void'') [T_ptr ''uv_connect_t'', T_base ''int'']),
     (''uv_shutdown_cb'', fn_type (T_base ''void'') [T_ptr ''uv_shutdown_t'', T_base ''int'']),
     (''uv_connection_cb'', fn_type (T_base ''void'') [T_ptr ''uv_stream_t'', T_base ''int'']),
     (''uv_close_cb'', fn_type (T_base ''void'') [T_ptr ''uv_handle_t'']),
     (''uv_poll_cb'', fn_type (T_base ''void'') [T_ptr ''uv_poll_t'', T_base ''int'', T_base ''int'']),
     (''uv_timer_cb'', fn_type (T_base ''void'') [T_ptr ''uv_timer_t'']),
     (''uv_async_cb'', fn_type (T_base ''void'') [T_ptr ''uv_async_t'']),
     (''uv_prepare_cb'', fn_type (T_base ''void'') [T_ptr ''uv_prepare_t'']),
     (''uv_check_cb'', fn_type (T_base ''void'') [T_ptr ''uv_check_t'']),
     (''uv_idle_cb'', fn_type (T_base ''void'') [T_ptr ''uv_idle_t'']),
     (''uv_exit_cb'', fn_type (T_base ''void'') [T_ptr ''uv_process_t'', T_base ''int64_t'', T_base ''int'']),
     (''uv_walk_cb'', fn_type (T_base ''void'') [T_ptr ''uv_handle_t'', T_ptr ''void'']),
     (''uv_fs_cb'', fn_type (T_base ''void'') [T_ptr ''uv_fs_t'']),
     (''uv_work_cb'', fn_type (T_base ''void'') [T_ptr ''uv_work_t'']),
     (''uv_after_work_cb'', fn_type (T_base ''void'') [T_ptr ''uv_work_t'', T_base ''int'']),
     (''uv_getaddrinfo_cb'', fn_type (T_base ''void'') [T_ptr ''uv_getaddrinfo_t'', T_base ''int'', T_ptr ''struct addrinfo'']),
     (''uv_getnameinfo_cb'', fn_type (T_base ''void'') [T_ptr ''uv_getnameinfo_t'', T_base ''int'', T_ptr ''const char'',
        T_ptr ''const char'']),
     (''uv_random_cb'', fn_type (T_base ''void'') [T_ptr ''uv_random_t'', T_base ''int'', T_ptr ''void'', T_base ''size_t''])]"

definition uv_watcher_callback_types :: "(string \<times> c_fn_type) list" where
  "uv_watcher_callback_types =
    [(''uv_fs_event_cb'', fn_type (T_base ''void'') [T_ptr ''uv_fs_event_t'', T_ptr ''const char'', T_base ''int'', T_base ''int'']),
     (''uv_fs_poll_cb'', fn_type (T_base ''void'') [T_ptr ''uv_fs_poll_t'', T_base ''int'', T_ptr ''const uv_stat_t'',
        T_ptr ''const uv_stat_t'']),
     (''uv_signal_cb'', fn_type (T_base ''void'') [T_ptr ''uv_signal_t'', T_base ''int''])]"

definition uv_error_functions :: "c_function list" where
  "uv_error_functions =
    [proto ''uv_translate_sys_error'' (T_base ''int'') [T_base ''int''],
     proto ''uv_strerror'' (T_ptr ''const char'') [T_base ''int''],
     proto ''uv_strerror_r'' (T_ptr ''char'') [T_base ''int'', T_ptr ''char'', T_base ''size_t''],
     proto ''uv_err_name'' (T_ptr ''const char'') [T_base ''int''],
     proto ''uv_err_name_r'' (T_ptr ''char'') [T_base ''int'', T_ptr ''char'', T_base ''size_t'']]"

definition uv_shutdown_functions :: "c_function list" where
  "uv_shutdown_functions =
    [proto ''uv_shutdown'' (T_base ''int'') [T_ptr ''uv_shutdown_t'', T_ptr ''uv_stream_t'', T_fn ''uv_shutdown_cb'']]"

definition uv_handle_functions :: "c_function list" where
  "uv_handle_functions =
    [proto ''uv_handle_size'' (T_base ''size_t'') [T_base ''uv_handle_type''],
     proto ''uv_handle_get_type'' (T_base ''uv_handle_type'') [T_ptr ''const uv_handle_t''],
     proto ''uv_handle_type_name'' (T_ptr ''const char'') [T_base ''uv_handle_type''],
     proto ''uv_handle_get_data'' (T_ptr ''void'') [T_ptr ''const uv_handle_t''],
     proto ''uv_handle_get_loop'' (T_ptr ''uv_loop_t'') [T_ptr ''const uv_handle_t''],
     proto ''uv_handle_set_data'' (T_base ''void'') [T_ptr ''uv_handle_t'', T_ptr ''void''],
     proto ''uv_req_size'' (T_base ''size_t'') [T_base ''uv_req_type''],
     proto ''uv_req_get_data'' (T_ptr ''void'') [T_ptr ''const uv_req_t''],
     proto ''uv_req_set_data'' (T_base ''void'') [T_ptr ''uv_req_t'', T_ptr ''void''],
     proto ''uv_req_get_type'' (T_base ''uv_req_type'') [T_ptr ''const uv_req_t''],
     proto ''uv_req_type_name'' (T_ptr ''const char'') [T_base ''uv_req_type''],
     proto ''uv_is_active'' (T_base ''int'') [T_ptr ''const uv_handle_t''],
     proto ''uv_walk'' (T_base ''void'') [T_ptr ''uv_loop_t'', T_fn ''uv_walk_cb'', T_ptr ''void''],
     proto ''uv_print_all_handles'' (T_base ''void'') [T_ptr ''uv_loop_t'', T_ptr ''FILE''],
     proto ''uv_print_active_handles'' (T_base ''void'') [T_ptr ''uv_loop_t'', T_ptr ''FILE''],
     proto ''uv_close'' (T_base ''void'') [T_ptr ''uv_handle_t'', T_fn ''uv_close_cb''],
     proto ''uv_send_buffer_size'' (T_base ''int'') [T_ptr ''uv_handle_t'', T_ptr ''int''],
     proto ''uv_recv_buffer_size'' (T_base ''int'') [T_ptr ''uv_handle_t'', T_ptr ''int''],
     proto ''uv_fileno'' (T_base ''int'') [T_ptr ''const uv_handle_t'', T_ptr ''uv_os_fd_t''],
     proto ''uv_buf_init'' (T_base ''uv_buf_t'') [T_ptr ''char'', T_base ''unsigned int''],
     proto ''uv_pipe'' (T_base ''int'') [T_ptr ''uv_file'', T_base ''int'', T_base ''int''],
     proto ''uv_socketpair'' (T_base ''int'') [T_base ''int'', T_base ''int'', T_ptr ''uv_os_sock_t'', T_base ''int'', T_base ''int'']]"

definition uv_stream_functions :: "c_function list" where
  "uv_stream_functions =
    [proto ''uv_stream_get_write_queue_size'' (T_base ''size_t'') [T_ptr ''const uv_stream_t''],
     proto ''uv_listen'' (T_base ''int'') [T_ptr ''uv_stream_t'', T_base ''int'', T_fn ''uv_connection_cb''],
     proto ''uv_accept'' (T_base ''int'') [T_ptr ''uv_stream_t'', T_ptr ''uv_stream_t''],
     proto ''uv_read_start'' (T_base ''int'') [T_ptr ''uv_stream_t'', T_fn ''uv_alloc_cb'', T_fn ''uv_read_cb''],
     proto ''uv_read_stop'' (T_base ''int'') [T_ptr ''uv_stream_t''],
     proto ''uv_write'' (T_base ''int'') [T_ptr ''uv_write_t'', T_ptr ''uv_stream_t'', T_ptr ''const uv_buf_t'',
        T_base ''unsigned int'', T_fn ''uv_write_cb''],
     proto ''uv_write2'' (T_base ''int'') [T_ptr ''uv_write_t'', T_ptr ''uv_stream_t'', T_ptr ''const uv_buf_t'',
        T_base ''unsigned int'', T_ptr ''uv_stream_t'', T_fn ''uv_write_cb''],
     proto ''uv_try_write'' (T_base ''int'') [T_ptr ''uv_stream_t'', T_ptr ''const uv_buf_t'', T_base ''unsigned int''],
     proto ''uv_try_write2'' (T_base ''int'') [T_ptr ''uv_stream_t'', T_ptr ''const uv_buf_t'', T_base ''unsigned int'',
        T_ptr ''uv_stream_t'']]"

definition uv_stream_state_functions :: "c_function list" where
  "uv_stream_state_functions =
    [proto ''uv_is_readable'' (T_base ''int'') [T_ptr ''const uv_stream_t''],
     proto ''uv_is_writable'' (T_base ''int'') [T_ptr ''const uv_stream_t''],
     proto ''uv_stream_set_blocking'' (T_base ''int'') [T_ptr ''uv_stream_t'', T_base ''int''],
     proto ''uv_is_closing'' (T_base ''int'') [T_ptr ''const uv_handle_t'']]"

definition uv_tcp_open_functions :: "c_function list" where
  "uv_tcp_open_functions =
    [proto ''uv_tcp_init'' (T_base ''int'') [T_ptr ''uv_loop_t'', T_ptr ''uv_tcp_t''],
     proto ''uv_tcp_init_ex'' (T_base ''int'') [T_ptr ''uv_loop_t'', T_ptr ''uv_tcp_t'', T_base ''unsigned int''],
     proto ''uv_tcp_open'' (T_base ''int'') [T_ptr ''uv_tcp_t'', T_base ''uv_os_sock_t''],
     proto ''uv_tcp_nodelay'' (T_base ''int'') [T_ptr ''uv_tcp_t'', T_base ''int''],
     proto ''uv_tcp_keepalive'' (T_base ''int'') [T_ptr ''uv_tcp_t'', T_base ''int'', T_base ''unsigned int''],
     proto ''uv_tcp_keepalive_ex'' (T_base ''int'') [T_ptr ''uv_tcp_t'', T_base ''int'', T_base ''unsigned int'',
        T_base ''unsigned int'', T_base ''unsigned int''],
     proto ''uv_tcp_simultaneous_accepts'' (T_base ''int'') [T_ptr ''uv_tcp_t'', T_base ''int'']]"

definition uv_tcp_connect_functions :: "c_function list" where
  "uv_tcp_connect_functions =
    [proto ''uv_tcp_bind'' (T_base ''int'') [T_ptr ''uv_tcp_t'', T_ptr ''const struct sockaddr'', T_base ''unsigned int''],
     proto ''uv_tcp_getsockname'' (T_base ''int'') [T_ptr ''const uv_tcp_t'', T_ptr ''struct sockaddr'', T_ptr ''int''],
     proto ''uv_tcp_getpeername'' (T_base ''int'') [T_ptr ''const uv_tcp_t'', T_ptr ''struct sockaddr'', T_ptr ''int''],
     proto ''uv_tcp_close_reset'' (T_base ''int'') [T_ptr ''uv_tcp_t'', T_fn ''uv_close_cb''],
     proto ''uv_tcp_connect'' (T_base ''int'') [T_ptr ''uv_connect_t'', T_ptr ''uv_tcp_t'', T_ptr ''const struct sockaddr'',
        T_fn ''uv_connect_cb'']]"

definition uv_udp_callback_types :: "(string \<times> c_fn_type) list" where
  "uv_udp_callback_types =
    [(''uv_udp_send_cb'', fn_type (T_base ''void'') [T_ptr ''uv_udp_send_t'', T_base ''int'']),
     (''uv_udp_recv_cb'', fn_type (T_base ''void'') [T_ptr ''uv_udp_t'', T_base ''ssize_t'', T_ptr ''const uv_buf_t'',
        T_ptr ''const struct sockaddr'', T_base ''unsigned''])]"

definition uv_udp_functions :: "c_function list" where
  "uv_udp_functions =
    [proto ''uv_udp_init'' (T_base ''int'') [T_ptr ''uv_loop_t'', T_ptr ''uv_udp_t''],
     proto ''uv_udp_init_ex'' (T_base ''int'') [T_ptr ''uv_loop_t'', T_ptr ''uv_udp_t'', T_base ''unsigned int''],
     proto ''uv_udp_open'' (T_base ''int'') [T_ptr ''uv_udp_t'', T_base ''uv_os_sock_t''],
     proto ''uv_udp_open_ex'' (T_base ''int'') [T_ptr ''uv_udp_t'', T_base ''uv_os_sock_t'', T_base ''unsigned int''],
     proto ''uv_udp_bind'' (T_base ''int'') [T_ptr ''uv_udp_t'', T_ptr ''const struct sockaddr'', T_base ''unsigned int''],
     proto ''uv_udp_connect'' (T_base ''int'') [T_ptr ''uv_udp_t'', T_ptr ''const struct sockaddr''],
     proto ''uv_udp_getpeername'' (T_base ''int'') [T_ptr ''const uv_udp_t'', T_ptr ''struct sockaddr'', T_ptr ''int''],
     proto ''uv_udp_getsockname'' (T_base ''int'') [T_ptr ''const uv_udp_t'', T_ptr ''struct sockaddr'', T_ptr ''int''],
     proto ''uv_udp_set_membership'' (T_base ''int'') [T_ptr ''uv_udp_t'', T_ptr ''const char'', T_ptr ''const char'',
        T_base ''uv_membership''],
     proto ''uv_udp_set_source_membership'' (T_base ''int'') [T_ptr ''uv_udp_t'', T_ptr ''const char'', T_ptr ''const char'',
        T_ptr ''const char'', T_base ''uv_membership''],
     proto ''uv_udp_set_multicast_loop'' (T_base ''int'') [T_ptr ''uv_udp_t'', T_base ''int''],
     proto ''uv_udp_set_multicast_ttl'' (T_base ''int'') [T_ptr ''uv_udp_t'', T_base ''int''],
     proto ''uv_udp_set_multicast_interface'' (T_base ''int'') [T_ptr ''uv_udp_t'', T_ptr ''const char''],
     proto ''uv_udp_set_broadcast'' (T_base ''int'') [T_ptr ''uv_udp_t'', T_base ''int''],
     proto ''uv_udp_set_ttl'' (T_base ''int'') [T_ptr ''uv_udp_t'', T_base ''int''],
     proto ''uv_udp_send'' (T_base ''int'') [T_ptr ''uv_udp_send_t'', T_ptr ''uv_udp_t'', T_ptr ''const uv_buf_t'',
        T_base ''unsigned int'', T_ptr ''const struct sockaddr'', T_fn ''uv_udp_send_cb''],
     proto ''uv_udp_try_send'' (T_base ''int'') [T_ptr ''uv_udp_t'', T_ptr ''const uv_buf_t'', T_base ''unsigned int'',
        T_ptr ''const struct sockaddr''],
     proto ''uv_udp_try_send2'' (T_base ''int'') [T_ptr ''uv_udp_t'', T_base ''unsigned int'', T_ptr ''uv_buf_t*'',
        T_ptr ''unsigned int'', T_ptr ''struct sockaddr*'', T_base ''unsigned int''],
     proto ''uv_udp_recv_start'' (T_base ''int'') [T_ptr ''uv_udp_t'', T_fn ''uv_alloc_cb'', T_fn ''uv_udp_recv_cb''],
     proto ''uv_udp_using_recvmmsg'' (T_base ''int'') [T_ptr ''const uv_udp_t''],
     proto ''uv_udp_recv_stop'' (T_base ''int'') [T_ptr ''uv_udp_t''],
     proto ''uv_udp_get_send_queue_size'' (T_base ''size_t'') [T_ptr ''const uv_udp_t''],
     proto ''uv_udp_get_send_queue_count'' (T_base ''size_t'') [T_ptr ''const uv_udp_t'']]"

definition uv_tty_functions :: "c_function list" where
  "uv_tty_functions =
    [proto ''uv_tty_init'' (T_base ''int'') [T_ptr ''uv_loop_t'', T_ptr ''uv_tty_t'', T_base ''uv_file'', T_base ''int''],
     proto ''uv_tty_set_mode'' (T_base ''int'') [T_ptr ''uv_tty_t'', T_base ''uv_tty_mode_t''],
     proto ''uv_tty_reset_mode'' (T_base ''int'') [],
     proto ''uv_tty_get_winsize'' (T_base ''int'') [T_ptr ''uv_tty_t'', T_ptr ''int'', T_ptr ''int''],
     proto ''uv_tty_set_vterm_state'' (T_base ''void'') [T_base ''uv_tty_vtermstate_t''],
     proto ''uv_tty_get_vterm_state'' (T_base ''int'') [T_ptr ''uv_tty_vtermstate_t'']]"

definition uv_guess_functions :: "c_function list" where
  "uv_guess_functions =
    [proto ''uv_guess_handle'' (T_base ''uv_handle_type'') [T_base ''uv_file'']]"

definition uv_pipe_functions :: "c_function list" where
  "uv_pipe_functions =
    [proto ''uv_pipe_init'' (T_base ''int'') [T_ptr ''uv_loop_t'', T_ptr ''uv_pipe_t'', T_base ''int''],
     proto ''uv_pipe_open'' (T_base ''int'') [T_ptr ''uv_pipe_t'', T_base ''uv_file''],
     proto ''uv_pipe_bind'' (T_base ''int'') [T_ptr ''uv_pipe_t'', T_ptr ''const char''],
     proto ''uv_pipe_bind2'' (T_base ''int'') [T_ptr ''uv_pipe_t'', T_ptr ''const char'', T_base ''size_t'', T_base ''unsigned int''],
     proto ''uv_pipe_connect'' (T_base ''void'') [T_ptr ''uv_connect_t'', T_ptr ''uv_pipe_t'', T_ptr ''const char'', T_fn ''uv_connect_cb''],
     proto ''uv_pipe_connect2'' (T_base ''int'') [T_ptr ''uv_connect_t'', T_ptr ''uv_pipe_t'', T_ptr ''const char'', T_base ''size_t'',
        T_base ''unsigned int'', T_fn ''uv_connect_cb''],
     proto ''uv_pipe_getsockname'' (T_base ''int'') [T_ptr ''const uv_pipe_t'', T_ptr ''char'', T_ptr ''size_t''],
     proto ''uv_pipe_getpeername'' (T_base ''int'') [T_ptr ''const uv_pipe_t'', T_ptr ''char'', T_ptr ''size_t''],
     proto ''uv_pipe_pending_instances'' (T_base ''void'') [T_ptr ''uv_pipe_t'', T_base ''int''],
     proto ''uv_pipe_pending_count'' (T_base ''int'') [T_ptr ''uv_pipe_t''],
     proto ''uv_pipe_pending_type'' (T_base ''uv_handle_type'') [T_ptr ''uv_pipe_t''],
     proto ''uv_pipe_chmod'' (T_base ''int'') [T_ptr ''uv_pipe_t'', T_base ''int'']]"

definition uv_poll_functions :: "c_function list" where
  "uv_poll_functions =
    [proto ''uv_poll_init'' (T_base ''int'') [T_ptr ''uv_loop_t'', T_ptr ''uv_poll_t'', T_base ''int''],
     proto ''uv_poll_init_socket'' (T_base ''int'') [T_ptr ''uv_loop_t'', T_ptr ''uv_poll_t'', T_base ''uv_os_sock_t''],
     proto ''uv_poll_start'' (T_base ''int'') [T_ptr ''uv_poll_t'', T_base ''int'', T_fn ''uv_poll_cb''],
     proto ''uv_poll_stop'' (T_base ''int'') [T_ptr ''uv_poll_t'']]"

definition uv_prepare_functions :: "c_function list" where
  "uv_prepare_functions =
    [proto ''uv_prepare_init'' (T_base ''int'') [T_ptr ''uv_loop_t'', T_ptr ''uv_prepare_t''],
     proto ''uv_prepare_start'' (T_base ''int'') [T_ptr ''uv_prepare_t'', T_fn ''uv_prepare_cb''],
     proto ''uv_prepare_stop'' (T_base ''int'') [T_ptr ''uv_prepare_t'']]"

definition uv_check_functions :: "c_function list" where
  "uv_check_functions =
    [proto ''uv_check_init'' (T_base ''int'') [T_ptr ''uv_loop_t'', T_ptr ''uv_check_t''],
     proto ''uv_check_start'' (T_base ''int'') [T_ptr ''uv_check_t'', T_fn ''uv_check_cb''],
     proto ''uv_check_stop'' (T_base ''int'') [T_ptr ''uv_check_t'']]"

definition uv_idle_functions :: "c_function list" where
  "uv_idle_functions =
    [proto ''uv_idle_init'' (T_base ''int'') [T_ptr ''uv_loop_t'', T_ptr ''uv_idle_t''],
     proto ''uv_idle_start'' (T_base ''int'') [T_ptr ''uv_idle_t'', T_fn ''uv_idle_cb''],
     proto ''uv_idle_stop'' (T_base ''int'') [T_ptr ''uv_idle_t'']]"

definition uv_async_functions :: "c_function list" where
  "uv_async_functions =
    [proto ''uv_async_init'' (T_base ''int'') [T_ptr ''uv_loop_t'', T_ptr ''uv_async_t'', T_fn ''uv_async_cb''],
     proto ''uv_async_send'' (T_base ''int'') [T_ptr ''uv_async_t'']]"

definition uv_timer_functions :: "c_function list" where
  "uv_timer_functions =
    [proto ''uv_timer_init'' (T_base ''int'') [T_ptr ''uv_loop_t'', T_ptr ''uv_timer_t''],
     proto ''uv_timer_start'' (T_base ''int'') [T_ptr ''uv_timer_t'', T_fn ''uv_timer_cb'', T_base ''uint64_t'', T_base ''uint64_t''],
     proto ''uv_timer_stop'' (T_base ''int'') [T_ptr ''uv_timer_t''],
     proto ''uv_timer_again'' (T_base ''int'') [T_ptr ''uv_timer_t''],
     proto ''uv_timer_set_repeat'' (T_base ''void'') [T_ptr ''uv_timer_t'', T_base ''uint64_t''],
     proto ''uv_timer_get_repeat'' (T_base ''uint64_t'') [T_ptr ''const uv_timer_t''],
     proto ''uv_timer_get_due_in'' (T_base ''uint64_t'') [T_ptr ''const uv_timer_t'']]"

definition uv_getaddrinfo_functions :: "c_function list" where
  "uv_getaddrinfo_functions =
    [proto ''uv_getaddrinfo'' (T_base ''int'') [T_ptr ''uv_loop_t'', T_ptr ''uv_getaddrinfo_t'', T_fn ''uv_getaddrinfo_cb'',
        T_ptr ''const char'', T_ptr ''const char'', T_ptr ''const struct addrinfo''],
     proto ''uv_freeaddrinfo'' (T_base ''void'') [T_ptr ''struct addrinfo'']]"

definition uv_getnameinfo_functions :: "c_function list" where
  "uv_getnameinfo_functions =
    [proto ''uv_getnameinfo'' (T_base ''int'') [T_ptr ''uv_loop_t'', T_ptr ''uv_getnameinfo_t'', T_fn ''uv_getnameinfo_cb'',
        T_ptr ''const struct sockaddr'', T_base ''int'']]"

definition uv_process_functions :: "c_function list" where
  "uv_process_functions =
    [proto ''uv_spawn'' (T_base ''int'') [T_ptr ''uv_loop_t'', T_ptr ''uv_process_t'', T_ptr ''const uv_process_options_t''],
     proto ''uv_process_kill'' (T_base ''int'') [T_ptr ''uv_process_t'', T_base ''int''],
     proto ''uv_kill'' (T_base ''int'') [T_base ''int'', T_base ''int''],
     proto ''uv_process_get_pid'' (T_base ''uv_pid_t'') [T_ptr ''const uv_process_t'']]"

definition uv_work_functions :: "c_function list" where
  "uv_work_functions =
    [proto ''uv_queue_work'' (T_base ''int'') [T_ptr ''uv_loop_t'', T_ptr ''uv_work_t'', T_fn ''uv_work_cb'', T_fn ''uv_after_work_cb''],
     proto ''uv_cancel'' (T_base ''int'') [T_ptr ''uv_req_t'']]"

definition uv_title_functions :: "c_function list" where
  "uv_title_functions =
    [proto ''uv_setup_args'' (T_ptr ''char*'') [T_base ''int'', T_ptr ''char*''],
     proto ''uv_get_process_title'' (T_base ''int'') [T_ptr ''char'', T_base ''size_t''],
     proto ''uv_set_process_title'' (T_base ''int'') [T_ptr ''const char''],
     proto ''uv_resident_set_memory'' (T_base ''int'') [T_ptr ''size_t''],
     proto ''uv_uptime'' (T_base ''int'') [T_ptr ''double''],
     proto ''uv_get_osfhandle'' (T_base ''uv_os_fd_t'') [T_base ''int''],
     proto ''uv_open_osfhandle'' (T_base ''int'') [T_base ''uv_os_fd_t'']]"

definition uv_os_functions :: "c_function list" where
  "uv_os_functions =
    [proto ''uv_getrusage'' (T_base ''int'') [T_ptr ''uv_rusage_t''],
     proto ''uv_getrusage_thread'' (T_base ''int'') [T_ptr ''uv_rusage_t''],
     proto ''uv_os_homedir'' (T_base ''int'') [T_ptr ''char'', T_ptr ''size_t''],
     proto ''uv_os_tmpdir'' (T_base ''int'') [T_ptr ''char'', T_ptr ''size_t''],
     proto ''uv_os_get_passwd'' (T_base ''int'') [T_ptr ''uv_passwd_t''],
     proto ''uv_os_free_passwd'' (T_base ''void'') [T_ptr ''uv_passwd_t''],
     proto ''uv_os_get_passwd2'' (T_base ''int'') [T_ptr ''uv_passwd_t'', T_base ''uv_uid_t''],
     proto ''uv_os_get_group'' (T_base ''int'') [T_ptr ''uv_group_t'', T_base ''uv_uid_t''],
     proto ''uv_os_free_group'' (T_base ''void'') [T_ptr ''uv_group_t''],
     proto ''uv_os_getpid'' (T_base ''uv_pid_t'') [],
     proto ''uv_os_getppid'' (T_base ''uv_pid_t'') []]"

definition uv_priority_functions :: "c_function list" where
  "uv_priority_functions =
    [proto ''uv_os_getpriority'' (T_base ''int'') [T_base ''uv_pid_t'', T_ptr ''int''],
     proto ''uv_os_setpriority'' (T_base ''int'') [T_base ''uv_pid_t'', T_base ''int'']]"

definition uv_system_functions :: "c_function list" where
  "uv_system_functions =
    [proto ''uv_thread_getpriority'' (T_base ''int'') [T_base ''uv_thread_t'', T_ptr ''int''],
     proto ''uv_thread_setpriority'' (T_base ''int'') [T_base ''uv_thread_t'', T_base ''int''],
     proto ''uv_available_parallelism'' (T_base ''unsigned int'') [],
     proto ''uv_cpu_info'' (T_base ''int'') [T_ptr ''uv_cpu_info_t*'', T_ptr ''int''],
     proto ''uv_free_cpu_info'' (T_base ''void'') [T_ptr ''uv_cpu_info_t'', T_base ''int''],
     proto ''uv_cpumask_size'' (T_base ''int'') [],
     proto ''uv_interface_addresses'' (T_base ''int'') [T_ptr ''uv_interface_address_t*'', T_ptr ''int''],
     proto ''uv_free_interface_addresses'' (T_base ''void'') [T_ptr ''uv_interface_address_t'', T_base ''int'']]"

definition uv_environ_functions :: "c_function list" where
  "uv_environ_functions =
    [proto ''uv_os_environ'' (T_base ''int'') [T_ptr ''uv_env_item_t*'', T_ptr ''int''],
     proto ''uv_os_free_environ'' (T_base ''void'') [T_ptr ''uv_env_item_t'', T_base ''int''],
     proto ''uv_os_getenv'' (T_base ''int'') [T_ptr ''const char'', T_ptr ''char'', T_ptr ''size_t''],
     proto ''uv_os_setenv'' (T_base ''int'') [T_ptr ''const char'', T_ptr ''const char''],
     proto ''uv_os_unsetenv'' (T_base ''int'') [T_ptr ''const char'']]"

definition uv_uname_functions :: "c_function list" where
  "uv_uname_functions =
    [proto ''uv_os_gethostname'' (T_base ''int'') [T_ptr ''char'', T_ptr ''size_t''],
     proto ''uv_os_uname'' (T_base ''int'') [T_ptr ''uv_utsname_t'']]"

definition uv_metrics_functions :: "c_function list" where
  "uv_metrics_functions =
    [proto ''uv_metrics_info'' (T_base ''int'') [T_ptr ''uv_loop_t'', T_ptr ''uv_metrics_t''],
     proto ''uv_metrics_idle_time'' (T_base ''uint64_t'') [T_ptr ''uv_loop_t'']]"

definition uv_fs_file_functions :: "c_function list" where
  "uv_fs_file_functions =
    [proto ''uv_fs_get_type'' (T_base ''uv_fs_type'') [T_ptr ''const uv_fs_t''],
     proto ''uv_fs_get_result'' (T_base ''ssize_t'') [T_ptr ''const uv_fs_t''],
     proto ''uv_fs_get_system_error'' (T_base ''int'') [T_ptr ''const uv_fs_t''],
     proto ''uv_fs_get_ptr'' (T_ptr ''void'') [T_ptr ''const uv_fs_t''],
     proto ''uv_fs_get_path'' (T_ptr ''const char'') [T_ptr ''const uv_fs_t''],
     proto ''uv_fs_get_statbuf'' (T_ptr ''uv_stat_t'') [T_ptr ''uv_fs_t''],
     proto ''uv_fs_req_cleanup'' (T_base ''void'') [T_ptr ''uv_fs_t''],
     proto ''uv_fs_close'' (T_base ''int'') [T_ptr ''uv_loop_t'', T_ptr ''uv_fs_t'', T_base ''uv_file'', T_fn ''uv_fs_cb''],
     proto ''uv_fs_open'' (T_base ''int'') [T_ptr ''uv_loop_t'', T_ptr ''uv_fs_t'', T_ptr ''const char'', T_base ''int'',
        T_base ''int'', T_fn ''uv_fs_cb''],
     proto ''uv_fs_read'' (T_base ''int'') [T_ptr ''uv_loop_t'', T_ptr ''uv_fs_t'', T_base ''uv_file'', T_ptr ''const uv_buf_t'',
        T_base ''unsigned int'', T_base ''int64_t'', T_fn ''uv_fs_cb''],
     proto ''uv_fs_unlink'' (T_base ''int'') [T_ptr ''uv_loop_t'', T_ptr ''uv_fs_t'', T_ptr ''const char'', T_fn ''uv_fs_cb''],
     proto ''uv_fs_write'' (T_base ''int'') [T_ptr ''uv_loop_t'', T_ptr ''uv_fs_t'', T_base ''uv_file'', T_ptr ''const uv_buf_t'',
        T_base ''unsigned int'', T_base ''int64_t'', T_fn ''uv_fs_cb'']]"

definition uv_fs_path_functions :: "c_function list" where
  "uv_fs_path_functions =
    [proto ''uv_fs_copyfile'' (T_base ''int'') [T_ptr ''uv_loop_t'', T_ptr ''uv_fs_t'', T_ptr ''const char'', T_ptr ''const char'',
        T_base ''int'', T_fn ''uv_fs_cb''],
     proto ''uv_fs_mkdir'' (T_base ''int'') [T_ptr ''uv_loop_t'', T_ptr ''uv_fs_t'', T_ptr ''const char'', T_base ''int'',
        T_fn ''uv_fs_cb''],
     proto ''uv_fs_mkdtemp'' (T_base ''int'') [T_ptr ''uv_loop_t'', T_ptr ''uv_fs_t'', T_ptr ''const char'', T_fn ''uv_fs_cb''],
     proto ''uv_fs_mkstemp'' (T_base ''int'') [T_ptr ''uv_loop_t'', T_ptr ''uv_fs_t'', T_ptr ''const char'', T_fn ''uv_fs_cb''],
     proto ''uv_fs_rmdir'' (T_base ''int'') [T_ptr ''uv_loop_t'', T_ptr ''uv_fs_t'', T_ptr ''const char'', T_fn ''uv_fs_cb''],
     proto ''uv_fs_scandir'' (T_base ''int'') [T_ptr ''uv_loop_t'', T_ptr ''uv_fs_t'', T_ptr ''const char'', T_base ''int'',
        T_fn ''uv_fs_cb''],
     proto ''uv_fs_scandir_next'' (T_base ''int'') [T_ptr ''uv_fs_t'', T_ptr ''uv_dirent_t''],
     proto ''uv_fs_opendir'' (T_base ''int'') [T_ptr ''uv_loop_t'', T_ptr ''uv_fs_t'', T_ptr ''const char'', T_fn ''uv_fs_cb''],
     proto ''uv_fs_readdir'' (T_base ''int'') [T_ptr ''uv_loop_t'', T_ptr ''uv_fs_t'', T_ptr ''uv_dir_t'', T_fn ''uv_fs_cb''],
     proto ''uv_fs_closedir'' (T_base ''int'') [T_ptr ''uv_loop_t'', T_ptr ''uv_fs_t'', T_ptr ''uv_dir_t'', T_fn ''uv_fs_cb''],
     proto ''uv_fs_stat'' (T_base ''int'') [T_ptr ''uv_loop_t'', T_ptr ''uv_fs_t'', T_ptr ''const char'', T_fn ''uv_fs_cb''],
     proto ''uv_fs_fstat'' (T_base ''int'') [T_ptr ''uv_loop_t'', T_ptr ''uv_fs_t'', T_base ''uv_file'', T_fn ''uv_fs_cb''],
     proto ''uv_fs_rename'' (T_base ''int'') [T_ptr ''uv_loop_t'', T_ptr ''uv_fs_t'', T_ptr ''const char'', T_ptr ''const char'',
        T_fn ''uv_fs_cb''],
     proto ''uv_fs_fsync'' (T_base ''int'') [T_ptr ''uv_loop_t'', T_ptr ''uv_fs_t'', T_base ''uv_file'', T_fn ''uv_fs_cb''],
     proto ''uv_fs_fdatasync'' (T_base ''int'') [T_ptr ''uv_loop_t'', T_ptr ''uv_fs_t'', T_base ''uv_file'', T_fn ''uv_fs_cb''],
     proto ''uv_fs_ftruncate'' (T_base ''int'') [T_ptr ''uv_loop_t'', T_ptr ''uv_fs_t'', T_base ''uv_file'', T_base ''int64_t'',
        T_fn ''uv_fs_cb''],
     proto ''uv_fs_sendfile'' (T_base ''int'') [T_ptr ''uv_loop_t'', T_ptr ''uv_fs_t'', T_base ''uv_file'', T_base ''uv_file'',
        T_base ''int64_t'', T_base ''size_t'', T_fn ''uv_fs_cb''],
     proto ''uv_fs_access'' (T_base ''int'') [T_ptr ''uv_loop_t'', T_ptr ''uv_fs_t'', T_ptr ''const char'', T_base ''int'',
        T_fn ''uv_fs_cb''],
     proto ''uv_fs_chmod'' (T_base ''int'') [T_ptr ''uv_loop_t'', T_ptr ''uv_fs_t'', T_ptr ''const char'', T_base ''int'',
        T_fn ''uv_fs_cb'']]"

definition uv_fs_time_functions :: "c_function list" where
  "uv_fs_time_functions =
    [proto ''uv_fs_utime'' (T_base ''int'') [T_ptr ''uv_loop_t'', T_ptr ''uv_fs_t'', T_ptr ''const char'', T_base ''double'',
        T_base ''double'', T_fn ''uv_fs_cb''],
     proto ''uv_fs_futime'' (T_base ''int'') [T_ptr ''uv_loop_t'', T_ptr ''uv_fs_t'', T_base ''uv_file'', T_base ''double'',
        T_base ''double'', T_fn ''uv_fs_cb''],
     proto ''uv_fs_lutime'' (T_base ''int'') [T_ptr ''uv_loop_t'', T_ptr ''uv_fs_t'', T_ptr ''const char'', T_base ''double'',
        T_base ''double'', T_fn ''uv_fs_cb''],
     proto ''uv_fs_lstat'' (T_base ''int'') [T_ptr ''uv_loop_t'', T_ptr ''uv_fs_t'', T_ptr ''const char'', T_fn ''uv_fs_cb''],
     proto ''uv_fs_link'' (T_base ''int'') [T_ptr ''uv_loop_t'', T_ptr ''uv_fs_t'', T_ptr ''const char'', T_ptr ''const char'',
        T_fn ''uv_fs_cb'']]"

definition uv_fs_link_functions :: "c_function list" where
  "uv_fs_link_functions =
    [proto ''uv_fs_symlink'' (T_base ''int'') [T_ptr ''uv_loop_t'', T_ptr ''uv_fs_t'', T_ptr ''const char'', T_ptr ''const char'',
        T_base ''int'', T_fn ''uv_fs_cb''],
     proto ''uv_fs_readlink'' (T_base ''int'') [T_ptr ''uv_loop_t'', T_ptr ''uv_fs_t'', T_ptr ''const char'', T_fn ''uv_fs_cb''],
     proto ''uv_fs_realpath'' (T_base ''int'') [T_ptr ''uv_loop_t'', T_ptr ''uv_fs_t'', T_ptr ''const char'', T_fn ''uv_fs_cb''],
     proto ''uv_fs_fchmod'' (T_base ''int'') [T_ptr ''uv_loop_t'', T_ptr ''uv_fs_t'', T_base ''uv_file'', T_base ''int'', T_fn ''uv_fs_cb''],
     proto ''uv_fs_chown'' (T_base ''int'') [T_ptr ''uv_loop_t'', T_ptr ''uv_fs_t'', T_ptr ''const char'', T_base ''uv_uid_t'',
        T_base ''uv_gid_t'', T_fn ''uv_fs_cb''],
     proto ''uv_fs_fchown'' (T_base ''int'') [T_ptr ''uv_loop_t'', T_ptr ''uv_fs_t'', T_base ''uv_file'', T_base ''uv_uid_t'',
        T_base ''uv_gid_t'', T_fn ''uv_fs_cb''],
     proto ''uv_fs_lchown'' (T_base ''int'') [T_ptr ''uv_loop_t'', T_ptr ''uv_fs_t'', T_ptr ''const char'', T_base ''uv_uid_t'',
        T_base ''uv_gid_t'', T_fn ''uv_fs_cb''],
     proto ''uv_fs_statfs'' (T_base ''int'') [T_ptr ''uv_loop_t'', T_ptr ''uv_fs_t'', T_ptr ''const char'', T_fn ''uv_fs_cb'']]"

definition uv_fs_poll_functions :: "c_function list" where
  "uv_fs_poll_functions =
    [proto ''uv_fs_poll_init'' (T_base ''int'') [T_ptr ''uv_loop_t'', T_ptr ''uv_fs_poll_t''],
     proto ''uv_fs_poll_start'' (T_base ''int'') [T_ptr ''uv_fs_poll_t'', T_fn ''uv_fs_poll_cb'', T_ptr ''const char'',
        T_base ''unsigned int''],
     proto ''uv_fs_poll_stop'' (T_base ''int'') [T_ptr ''uv_fs_poll_t''],
     proto ''uv_fs_poll_getpath'' (T_base ''int'') [T_ptr ''uv_fs_poll_t'', T_ptr ''char'', T_ptr ''size_t'']]"

definition uv_signal_functions :: "c_function list" where
  "uv_signal_functions =
    [proto ''uv_signal_init'' (T_base ''int'') [T_ptr ''uv_loop_t'', T_ptr ''uv_signal_t''],
     proto ''uv_signal_start'' (T_base ''int'') [T_ptr ''uv_signal_t'', T_fn ''uv_signal_cb'', T_base ''int''],
     proto ''uv_signal_start_oneshot'' (T_base ''int'') [T_ptr ''uv_signal_t'', T_fn ''uv_signal_cb'', T_base ''int''],
     proto ''uv_signal_stop'' (T_base ''int'') [T_ptr ''uv_signal_t''],
     proto ''uv_loadavg'' (T_base ''void'') [T_ptr ''double'']]"

definition uv_fs_event_functions :: "c_function list" where
  "uv_fs_event_functions =
    [proto ''uv_fs_event_init'' (T_base ''int'') [T_ptr ''uv_loop_t'', T_ptr ''uv_fs_event_t''],
     proto ''uv_fs_event_start'' (T_base ''int'') [T_ptr ''uv_fs_event_t'', T_fn ''uv_fs_event_cb'', T_ptr ''const char'',
        T_base ''unsigned int''],
     proto ''uv_fs_event_stop'' (T_base ''int'') [T_ptr ''uv_fs_event_t''],
     proto ''uv_fs_event_getpath'' (T_base ''int'') [T_ptr ''uv_fs_event_t'', T_ptr ''char'', T_ptr ''size_t''],
     proto ''uv_ip4_addr'' (T_base ''int'') [T_ptr ''const char'', T_base ''int'', T_ptr ''struct sockaddr_in''],
     proto ''uv_ip6_addr'' (T_base ''int'') [T_ptr ''const char'', T_base ''int'', T_ptr ''struct sockaddr_in6''],
     proto ''uv_ip4_name'' (T_base ''int'') [T_ptr ''const struct sockaddr_in'', T_ptr ''char'', T_base ''size_t''],
     proto ''uv_ip6_name'' (T_base ''int'') [T_ptr ''const struct sockaddr_in6'', T_ptr ''char'', T_base ''size_t''],
     proto ''uv_ip_name'' (T_base ''int'') [T_ptr ''const struct sockaddr'', T_ptr ''char'', T_base ''size_t''],
     proto ''uv_inet_ntop'' (T_base ''int'') [T_base ''int'', T_ptr ''const void'', T_ptr ''char'', T_base ''size_t''],
     proto ''uv_inet_pton'' (T_base ''int'') [T_base ''int'', T_ptr ''const char'', T_ptr ''void'']]"

definition uv_random_functions :: "c_function list" where
  "uv_random_functions =
    [proto ''uv_random'' (T_base ''int'') [T_ptr ''uv_loop_t'', T_ptr ''uv_random_t'', T_ptr ''void'', T_base ''size_t'',
        T_base ''unsigned'', T_fn ''uv_random_cb'']]"

definition uv_sync_functions :: "c_function list" where
  "uv_sync_functions =
    [proto ''uv_if_indextoname'' (T_base ''int'') [T_base ''unsigned int'', T_ptr ''char'', T_ptr ''size_t''],
     proto ''uv_if_indextoiid'' (T_base ''int'') [T_base ''unsigned int'', T_ptr ''char'', T_ptr ''size_t''],
     proto ''uv_exepath'' (T_base ''int'') [T_ptr ''char'', T_ptr ''size_t''],
     proto ''uv_cwd'' (T_base ''int'') [T_ptr ''char'', T_ptr ''size_t''],
     proto ''uv_chdir'' (T_base ''int'') [T_ptr ''const char''],
     proto ''uv_get_free_memory'' (T_base ''uint64_t'') [],
     proto ''uv_get_total_memory'' (T_base ''uint64_t'') [],
     proto ''uv_get_constrained_memory'' (T_base ''uint64_t'') [],
     proto ''uv_get_available_memory'' (T_base ''uint64_t'') [],
     proto ''uv_clock_gettime'' (T_base ''int'') [T_base ''uv_clock_id'', T_ptr ''uv_timespec64_t''],
     proto ''uv_hrtime'' (T_base ''uint64_t'') [],
     proto ''uv_sleep'' (T_base ''void'') [T_base ''unsigned int''],
     proto ''uv_disable_stdio_inheritance'' (T_base ''void'') [],
     proto ''uv_dlopen'' (T_base ''int'') [T_ptr ''const char'', T_ptr ''uv_lib_t''],
     proto ''uv_dlclose'' (T_base ''void'') [T_ptr ''uv_lib_t''],
     proto ''uv_dlsym'' (T_base ''int'') [T_ptr ''uv_lib_t'', T_ptr ''const char'', T_ptr ''void*''],
     proto ''uv_dlerror'' (T_ptr ''const char'') [T_ptr ''const uv_lib_t''],
     proto ''uv_mutex_init'' (T_base ''int'') [T_ptr ''uv_mutex_t''],
     proto ''uv_mutex_init_recursive'' (T_base ''int'') [T_ptr ''uv_mutex_t''],
     proto ''uv_mutex_destroy'' (T_base ''void'') [T_ptr ''uv_mutex_t''],
     proto ''uv_mutex_lock'' (T_base ''void'') [T_ptr ''uv_mutex_t''],
     proto ''uv_mutex_trylock'' (T_base ''int'') [T_ptr ''uv_mutex_t''],
     proto ''uv_mutex_unlock'' (T_base ''void'') [T_ptr ''uv_mutex_t''],
     proto ''uv_rwlock_init'' (T_base ''int'') [T_ptr ''uv_rwlock_t''],
     proto ''uv_rwlock_destroy'' (T_base ''void'') [T_ptr ''uv_rwlock_t''],
     proto ''uv_rwlock_rdlock'' (T_base ''void'') [T_ptr ''uv_rwlock_t''],
     proto ''uv_rwlock_tryrdlock'' (T_base ''int'') [T_ptr ''uv_rwlock_t''],
     proto ''uv_rwlock_rdunlock'' (T_base ''void'') [T_ptr ''uv_rwlock_t''],
     proto ''uv_rwlock_wrlock'' (T_base ''void'') [T_ptr ''uv_rwlock_t''],
     proto ''uv_rwlock_trywrlock'' (T_base ''int'') [T_ptr ''uv_rwlock_t''],
     proto ''uv_rwlock_wrunlock'' (T_base ''void'') [T_ptr ''uv_rwlock_t''],
     proto ''uv_sem_init'' (T_base ''int'') [T_ptr ''uv_sem_t'', T_base ''unsigned int''],
     proto ''uv_sem_destroy'' (T_base ''void'') [T_ptr ''uv_sem_t''],
     proto ''uv_sem_post'' (T_base ''void'') [T_ptr ''uv_sem_t''],
     proto ''uv_sem_wait'' (T_base ''void'') [T_ptr ''uv_sem_t''],
     proto ''uv_sem_trywait'' (T_base ''int'') [T_ptr ''uv_sem_t''],
     proto ''uv_cond_init'' (T_base ''int'') [T_ptr ''uv_cond_t''],
     proto ''uv_cond_destroy'' (T_base ''void'') [T_ptr ''uv_cond_t''],
     proto ''uv_cond_signal'' (T_base ''void'') [T_ptr ''uv_cond_t''],
     proto ''uv_cond_broadcast'' (T_base ''void'') [T_ptr ''uv_cond_t''],
     proto ''uv_barrier_init'' (T_base ''int'') [T_ptr ''uv_barrier_t'', T_base ''unsigned int''],
     proto ''uv_barrier_destroy'' (T_base ''void'') [T_ptr ''uv_barrier_t''],
     proto ''uv_barrier_wait'' (T_base ''int'') [T_ptr ''uv_barrier_t''],
     proto ''uv_cond_wait'' (T_base ''void'') [T_ptr ''uv_cond_t'', T_ptr ''uv_mutex_t''],
     proto ''uv_cond_timedwait'' (T_base ''int'') [T_ptr ''uv_cond_t'', T_ptr ''uv_mutex_t'', T_base ''uint64_t''],
     proto ''uv_once'' (T_base ''void'') [T_ptr ''uv_once_t'', T_fn ''uv_once.callback''],
     proto ''uv_key_create'' (T_base ''int'') [T_ptr ''uv_key_t''],
     proto ''uv_key_delete'' (T_base ''void'') [T_ptr ''uv_key_t''],
     proto ''uv_key_get'' (T_ptr ''void'') [T_ptr ''uv_key_t''],
     proto ''uv_key_set'' (T_base ''void'') [T_ptr ''uv_key_t'', T_ptr ''void''],
     proto ''uv_gettimeofday'' (T_base ''int'') [T_ptr ''uv_timeval64_t'']]"

definition uv_thread_callback_types :: "(string \<times> c_fn_type) list" where
  "uv_thread_callback_types =
    [(''uv_thread_cb'', fn_type (T_base ''void'') [T_ptr ''void''])]"

definition uv_thread_create_functions :: "c_function list" where
  "uv_thread_create_functions =
    [proto ''uv_thread_create'' (T_base ''int'') [T_ptr ''uv_thread_t'', T_fn ''uv_thread_cb'', T_ptr ''void''],
     proto ''uv_thread_detach'' (T_base ''int'') [T_ptr ''uv_thread_t'']]"

definition uv_thread_functions :: "c_function list" where
  "uv_thread_functions =
    [proto ''uv_thread_create_ex'' (T_base ''int'') [T_ptr ''uv_thread_t'', T_ptr ''const uv_thread_options_t'', T_fn ''uv_thread_cb'',
        T_ptr ''void''],
     proto ''uv_thread_setaffinity'' (T_base ''int'') [T_ptr ''uv_thread_t'', T_ptr ''char'', T_ptr ''char'', T_base ''size_t''],
     proto ''uv_thread_getaffinity'' (T_base ''int'') [T_ptr ''uv_thread_t'', T_ptr ''char'', T_base ''size_t''],
     proto ''uv_thread_getcpu'' (T_base ''int'') [],
     proto ''uv_thread_self'' (T_base ''uv_thread_t'') [],
     proto ''uv_thread_join'' (T_base ''int'') [T_ptr ''uv_thread_t''],
     proto ''uv_thread_equal'' (T_base ''int'') [T_ptr ''const uv_thread_t'', T_ptr ''const uv_thread_t''],
     proto ''uv_thread_setname'' (T_base ''int'') [T_ptr ''const char''],
     proto ''uv_thread_getname'' (T_base ''int'') [T_ptr ''uv_thread_t'', T_ptr ''char'', T_base ''size_t'']]"

definition uv_field_functions :: "c_function list" where
  "uv_field_functions =
    [proto ''uv_loop_get_data'' (T_ptr ''void'') [T_ptr ''const uv_loop_t''],
     proto ''uv_loop_set_data'' (T_base ''void'') [T_ptr ''uv_loop_t'', T_ptr ''void''],
     proto ''uv_utf16_length_as_wtf8'' (T_base ''size_t'') [T_ptr ''const uint16_t'', T_base ''ssize_t''],
     proto ''uv_utf16_to_wtf8'' (T_base ''int'') [T_ptr ''const uint16_t'', T_base ''ssize_t'', T_ptr ''char*'', T_ptr ''size_t''],
     proto ''uv_wtf8_length_as_utf16'' (T_base ''ssize_t'') [T_ptr ''const char''],
     proto ''uv_wtf8_to_utf16'' (T_base ''void'') [T_ptr ''const char'', T_ptr ''uint16_t'', T_base ''size_t'']]"

definition uv_once_callback_types :: "(string \<times> c_fn_type) list" where
  "uv_once_callback_types =
    [(''uv_once.callback'', fn_type (T_base ''void'') [])]"

text \<open>The extension functions of Winsock that \<^verbatim>\<open>uv/win.h\<close> declares by their pointer types, and the functions that \<^verbatim>\<open>RB_PROTOTYPE\<close> of
  \<^verbatim>\<open>uv/tree.h\<close> declares for a tree type and a node type.\<close>

definition WIN_extension_function_types :: "(string \<times> c_fn_type) list" where
  "WIN_extension_function_types =
    [(''LPFN_ACCEPTEX'', fn_type (T_base ''BOOL'') [T_base ''SOCKET'', T_base ''SOCKET'', T_base ''PVOID'', T_base ''DWORD'',
        T_base ''DWORD'', T_base ''DWORD'', T_base ''LPDWORD'', T_base ''LPOVERLAPPED'']),
     (''LPFN_CONNECTEX'', fn_type (T_base ''BOOL'') [T_base ''SOCKET'', T_ptr ''const struct sockaddr'', T_base ''int'',
        T_base ''PVOID'', T_base ''DWORD'', T_base ''LPDWORD'', T_base ''LPOVERLAPPED'']),
     (''LPFN_GETACCEPTEXSOCKADDRS'', fn_type (T_base ''void'') [T_base ''PVOID'', T_base ''DWORD'', T_base ''DWORD'', T_base ''DWORD'',
        T_ptr ''LPSOCKADDR'', T_base ''LPINT'', T_ptr ''LPSOCKADDR'', T_base ''LPINT'']),
     (''LPFN_DISCONNECTEX'', fn_type (T_base ''BOOL'') [T_base ''SOCKET'', T_base ''LPOVERLAPPED'', T_base ''DWORD'', T_base ''DWORD'']),
     (''LPFN_TRANSMITFILE'', fn_type (T_base ''BOOL'') [T_base ''SOCKET'', T_base ''HANDLE'', T_base ''DWORD'', T_base ''DWORD'',
        T_base ''LPOVERLAPPED'', T_base ''LPTRANSMIT_FILE_BUFFERS'', T_base ''DWORD''])]"

definition WIN_receive_function_types :: "(string \<times> c_fn_type) list" where
  "WIN_receive_function_types =
    [(''LPFN_WSARECV'', fn_type (T_base ''int'') [T_base ''SOCKET'', T_base ''LPWSABUF'', T_base ''DWORD'', T_base ''LPDWORD'',
        T_base ''LPDWORD'', T_base ''LPWSAOVERLAPPED'', T_base ''LPWSAOVERLAPPED_COMPLETION_ROUTINE'']),
     (''LPFN_WSARECVFROM'', fn_type (T_base ''int'') [T_base ''SOCKET'', T_base ''LPWSABUF'', T_base ''DWORD'', T_base ''LPDWORD'',
        T_base ''LPDWORD'', T_ptr ''struct sockaddr'', T_base ''LPINT'', T_base ''LPWSAOVERLAPPED'',
         T_base ''LPWSAOVERLAPPED_COMPLETION_ROUTINE''])]"

definition RB_PROTOTYPE :: "string \<Rightarrow> string \<Rightarrow> c_function list" where
  "RB_PROTOTYPE name type =
     (let head = T_ptr (''struct '' @ name); node = T_ptr (''struct '' @ type) in
      [proto (name @ ''_RB_INSERT_COLOR'') (T_base ''void'') [head, node],
       proto (name @ ''_RB_REMOVE_COLOR'') (T_base ''void'') [head, node, node],
       proto (name @ ''_RB_REMOVE'') node [head, node],
       proto (name @ ''_RB_INSERT'') node [head, node],
       proto (name @ ''_RB_FIND'') node [head, node],
       proto (name @ ''_RB_NFIND'') node [head, node],
       proto (name @ ''_RB_NEXT'') node [node],
       proto (name @ ''_RB_PREV'') node [node],
       proto (name @ ''_RB_MINMAX'') node [head, T_base ''int'']])"

text \<open>Everything that the header declares.\<close>

definition uv_functions :: "c_function list" where
  "uv_functions =
    uv_version_functions @ uv_loop_functions @ uv_error_functions @ uv_shutdown_functions @ uv_handle_functions @
     uv_stream_functions @ uv_stream_state_functions @ uv_tcp_open_functions @ uv_tcp_connect_functions @ uv_udp_functions @
     uv_tty_functions @ uv_guess_functions @ uv_pipe_functions @ uv_poll_functions @ uv_prepare_functions @ uv_check_functions @
     uv_idle_functions @ uv_async_functions @ uv_timer_functions @ uv_getaddrinfo_functions @ uv_getnameinfo_functions @
     uv_process_functions @ uv_work_functions @ uv_title_functions @ uv_os_functions @ uv_priority_functions @ uv_system_functions @
     uv_environ_functions @ uv_uname_functions @ uv_metrics_functions @ uv_fs_file_functions @ uv_fs_path_functions @
     uv_fs_time_functions @ uv_fs_link_functions @ uv_fs_poll_functions @ uv_signal_functions @ uv_fs_event_functions @
     uv_random_functions @ uv_sync_functions @ uv_thread_create_functions @ uv_thread_functions @ uv_field_functions"

definition uv_callback_types :: "(string \<times> c_fn_type) list" where
  "uv_callback_types =
    uv_allocator_callback_types @ uv_object_callback_types @ uv_watcher_callback_types @ uv_udp_callback_types @
     uv_thread_callback_types @ uv_once_callback_types"

end
