(* ===== verification/Uv_Callbacks.thy ===== *)
theory Uv_Callbacks
  imports Uv_Api Uv_Structs
begin

text \<open>
  What the functions of libuv, the callback types and the structures have to do with each other.  A callback whose first parameter is a handle or a
  request gets the object that was passed to the function which registered it, or that object through a pointer to its base; and the object
  has a member that keeps the callback.  Both are checked for every function of the header but two, on every platform.
\<close>

section \<open>Objects and callbacks\<close>

text \<open>The names \<^verbatim>\<open>uv_x_t\<close> of handles and requests.\<close>

definition uv_class_names :: "string list" where
  "uv_class_names = map snd UV_HANDLE_TYPE_MAP @ map snd UV_REQ_TYPE_MAP"

definition uv_class_of :: "string \<Rightarrow> string option" where
  "uv_class_of t = map_of (map (\<lambda>n. (''uv_'' @ n @ ''_t'', n)) uv_class_names) t"

definition param_class :: "ctype \<Rightarrow> string list" where
  "param_class p = (case p of T_ptr t \<Rightarrow> (case uv_class_of t of Some n \<Rightarrow> [n] | None \<Rightarrow> []) | _ \<Rightarrow> [])"

text \<open>The objects that a function gets, and the object that a callback gets.\<close>

definition passed_classes :: "c_function \<Rightarrow> string list" where
  "passed_classes f = concat (map param_class (ft_params (cf_type f)))"

definition callback_object :: "string \<Rightarrow> string list" where
  "callback_object c =
     (case map_of uv_callback_types c of None \<Rightarrow> []
      | Some ft \<Rightarrow> (case ft_params ft of [] \<Rightarrow> [] | p # _ \<Rightarrow> param_class p))"

text \<open>The callbacks that a function registers: name, class of the object it gets, classes of the objects that were passed.\<close>

definition callback_param :: "string list \<Rightarrow> ctype \<Rightarrow> (string \<times> string \<times> string list) list" where
  "callback_param ns p = (case p of T_fn c \<Rightarrow> map (\<lambda>base. (c, base, ns)) (callback_object c) | _ \<Rightarrow> [])"

definition callback_rows :: "c_function \<Rightarrow> (string \<times> string \<times> string list) list" where
  "callback_rows f =
     concat (map (callback_param (passed_classes f)) (ft_params (cf_type f)))"

fun stores :: "string \<Rightarrow> ctype \<Rightarrow> bool" where
  "stores c (T_fn n) = (n = c)"
| "stores c (T_array t n) = stores c t"
| "stores c (T_struct fs) = list_ex (\<lambda>(n, t). stores c t) fs"
| "stores c (T_union fs) = list_ex (\<lambda>(n, t). stores c t) fs"
| "stores c _ = False"

definition same_offsets :: "uv_env \<Rightarrow> string \<Rightarrow> string \<Rightarrow> bool" where
  "same_offsets e base n \<longleftrightarrow>
     list_all (\<lambda>m. field_offset e (uv_struct e n) m = field_offset e (uv_struct e base) m) (map fst (uv_struct e base))"

definition row_fits :: "uv_env \<Rightarrow> string \<times> string \<times> string list \<Rightarrow> bool" where
  "row_fits e = (\<lambda>(c, base, ns). list_ex (\<lambda>n. same_offsets e base n \<and> stores c (T_struct (uv_struct e n))) ns)"

definition declared_param :: "ctype \<Rightarrow> bool" where
  "declared_param p = (case p of T_fn c \<Rightarrow> map_of uv_callback_types c \<noteq> None | _ \<Rightarrow> True)"

definition callbacks_fit :: "uv_env \<Rightarrow> c_function \<Rightarrow> bool" where
  "callbacks_fit e f \<longleftrightarrow> list_all declared_param (ft_params (cf_type f))
     \<and> list_all (row_fits e) (callback_rows f)"

section \<open>The tables\<close>

lemma class_facts:
  "param_class (T_ptr ''const char'') = []"
  "param_class (T_ptr ''const struct addrinfo'') = []"
  "param_class (T_ptr ''const struct sockaddr'') = []"
  "param_class (T_ptr ''const uv_buf_t'') = []"
  "param_class (T_ptr ''const uv_thread_options_t'') = []"
  "param_class (T_ptr ''uv_async_t'') = [''async'']"
  "param_class (T_ptr ''uv_check_t'') = [''check'']"
  "param_class (T_ptr ''uv_connect_t'') = [''connect'']"
  "param_class (T_ptr ''uv_dir_t'') = []"
  "param_class (T_ptr ''uv_fs_event_t'') = [''fs_event'']"
  "param_class (T_ptr ''uv_fs_poll_t'') = [''fs_poll'']"
  "param_class (T_ptr ''uv_fs_t'') = [''fs'']"
  "param_class (T_ptr ''uv_getaddrinfo_t'') = [''getaddrinfo'']"
  "param_class (T_ptr ''uv_getnameinfo_t'') = [''getnameinfo'']"
  "param_class (T_ptr ''uv_handle_t'') = [''handle'']"
  "param_class (T_ptr ''uv_idle_t'') = [''idle'']"
  "param_class (T_ptr ''uv_loop_t'') = []"
  "param_class (T_ptr ''uv_pipe_t'') = [''pipe'']"
  "param_class (T_ptr ''uv_poll_t'') = [''poll'']"
  "param_class (T_ptr ''uv_prepare_t'') = [''prepare'']"
  "param_class (T_ptr ''uv_process_t'') = [''process'']"
  "param_class (T_ptr ''uv_random_t'') = [''random'']"
  "param_class (T_ptr ''uv_shutdown_t'') = [''shutdown'']"
  "param_class (T_ptr ''uv_signal_t'') = [''signal'']"
  "param_class (T_ptr ''uv_stream_t'') = [''stream'']"
  "param_class (T_ptr ''uv_tcp_t'') = [''tcp'']"
  "param_class (T_ptr ''uv_thread_t'') = []"
  "param_class (T_ptr ''uv_timer_t'') = [''timer'']"
  "param_class (T_ptr ''uv_udp_send_t'') = [''udp_send'']"
  "param_class (T_ptr ''uv_udp_t'') = [''udp'']"
  "param_class (T_ptr ''uv_work_t'') = [''work'']"
  "param_class (T_ptr ''uv_write_t'') = [''write'']"
  "param_class (T_ptr ''void'') = []"
  "param_class (T_base b) = []" "param_class (T_fn b) = []"
  by (simp_all add: param_class_def uv_class_of_def uv_class_names_def UV_HANDLE_TYPE_MAP_def UV_REQ_TYPE_MAP_def)

lemmas callback_tables =
  uv_callback_types_def uv_allocator_callback_types_def uv_object_callback_types_def uv_watcher_callback_types_def
  uv_udp_callback_types_def uv_thread_callback_types_def uv_once_callback_types_def

lemma object_facts:
  "callback_object ''uv_malloc_func'' = []"
  "callback_object ''uv_realloc_func'' = []"
  "callback_object ''uv_calloc_func'' = []"
  "callback_object ''uv_free_func'' = []"
  "callback_object ''uv_alloc_cb'' = [''handle'']"
  "callback_object ''uv_read_cb'' = [''stream'']"
  "callback_object ''uv_write_cb'' = [''write'']"
  "callback_object ''uv_connect_cb'' = [''connect'']"
  "callback_object ''uv_shutdown_cb'' = [''shutdown'']"
  "callback_object ''uv_connection_cb'' = [''stream'']"
  "callback_object ''uv_close_cb'' = [''handle'']"
  "callback_object ''uv_poll_cb'' = [''poll'']"
  "callback_object ''uv_timer_cb'' = [''timer'']"
  "callback_object ''uv_async_cb'' = [''async'']"
  "callback_object ''uv_prepare_cb'' = [''prepare'']"
  "callback_object ''uv_check_cb'' = [''check'']"
  "callback_object ''uv_idle_cb'' = [''idle'']"
  "callback_object ''uv_exit_cb'' = [''process'']"
  "callback_object ''uv_walk_cb'' = [''handle'']"
  "callback_object ''uv_fs_cb'' = [''fs'']"
  "callback_object ''uv_work_cb'' = [''work'']"
  "callback_object ''uv_after_work_cb'' = [''work'']"
  "callback_object ''uv_getaddrinfo_cb'' = [''getaddrinfo'']"
  "callback_object ''uv_getnameinfo_cb'' = [''getnameinfo'']"
  "callback_object ''uv_random_cb'' = [''random'']"
  "callback_object ''uv_fs_event_cb'' = [''fs_event'']"
  "callback_object ''uv_fs_poll_cb'' = [''fs_poll'']"
  "callback_object ''uv_signal_cb'' = [''signal'']"
  "callback_object ''uv_udp_send_cb'' = [''udp_send'']"
  "callback_object ''uv_udp_recv_cb'' = [''udp'']"
  "callback_object ''uv_thread_cb'' = []"
  "callback_object ''uv_once.callback'' = []"
  by (simp_all add: callback_object_def callback_tables fn_type_def class_facts)

lemma declared_facts:
  "declared_param (T_fn ''uv_malloc_func'')"
  "declared_param (T_fn ''uv_realloc_func'')"
  "declared_param (T_fn ''uv_calloc_func'')"
  "declared_param (T_fn ''uv_free_func'')"
  "declared_param (T_fn ''uv_alloc_cb'')"
  "declared_param (T_fn ''uv_read_cb'')"
  "declared_param (T_fn ''uv_write_cb'')"
  "declared_param (T_fn ''uv_connect_cb'')"
  "declared_param (T_fn ''uv_shutdown_cb'')"
  "declared_param (T_fn ''uv_connection_cb'')"
  "declared_param (T_fn ''uv_close_cb'')"
  "declared_param (T_fn ''uv_poll_cb'')"
  "declared_param (T_fn ''uv_timer_cb'')"
  "declared_param (T_fn ''uv_async_cb'')"
  "declared_param (T_fn ''uv_prepare_cb'')"
  "declared_param (T_fn ''uv_check_cb'')"
  "declared_param (T_fn ''uv_idle_cb'')"
  "declared_param (T_fn ''uv_exit_cb'')"
  "declared_param (T_fn ''uv_walk_cb'')"
  "declared_param (T_fn ''uv_fs_cb'')"
  "declared_param (T_fn ''uv_work_cb'')"
  "declared_param (T_fn ''uv_after_work_cb'')"
  "declared_param (T_fn ''uv_getaddrinfo_cb'')"
  "declared_param (T_fn ''uv_getnameinfo_cb'')"
  "declared_param (T_fn ''uv_random_cb'')"
  "declared_param (T_fn ''uv_fs_event_cb'')"
  "declared_param (T_fn ''uv_fs_poll_cb'')"
  "declared_param (T_fn ''uv_signal_cb'')"
  "declared_param (T_fn ''uv_udp_send_cb'')"
  "declared_param (T_fn ''uv_udp_recv_cb'')"
  "declared_param (T_fn ''uv_thread_cb'')"
  "declared_param (T_fn ''uv_once.callback'')" "declared_param (T_base b)" "declared_param (T_ptr b)"
  by (simp_all add: declared_param_def callback_tables)

lemma callback_param_facts:
  "callback_param ns (T_base b) = []" "callback_param ns (T_ptr b) = []"
  "callback_param ns (T_fn c) = map (\<lambda>base. (c, base, ns)) (callback_object c)"
  by (simp_all add: callback_param_def)

section \<open>Each callback fits\<close>

lemma same_offsets_refl: "same_offsets e n n"
  by (simp add: same_offsets_def list_all_iff)

lemma same_offsets_extends: "extends (uv_struct e base) (uv_struct e n) \<Longrightarrow> same_offsets e base n"
  by (auto simp: same_offsets_def list_all_iff extends_def intro!: field_offset_append rev_image_eqI)

lemma handle_extends:
  "extends (uv_struct e ''handle'') (uv_struct e ''stream'')" "extends (uv_struct e ''handle'') (uv_struct e ''udp'')"
  "extends (uv_struct e ''handle'') (uv_struct e ''tcp'')"
  using uv_subclasses_extend [of e]
  by (simp_all add: uv_subclasses_def UV_HANDLE_TYPE_MAP_def uv_struct_simps list_all_iff)

lemma stores_facts:
  "stores ''uv_shutdown_cb'' (T_struct (uv_struct e ''shutdown''))"
  "stores ''uv_close_cb'' (T_struct (uv_struct e ''handle''))"
  "stores ''uv_connection_cb'' (T_struct (uv_struct e ''stream''))"
  "stores ''uv_alloc_cb'' (T_struct (uv_struct e ''stream''))"
  "stores ''uv_read_cb'' (T_struct (uv_struct e ''stream''))"
  "stores ''uv_write_cb'' (T_struct (uv_struct e ''write''))"
  "stores ''uv_close_cb'' (T_struct (uv_struct e ''tcp''))"
  "stores ''uv_connect_cb'' (T_struct (uv_struct e ''connect''))"
  "stores ''uv_udp_send_cb'' (T_struct (uv_struct e ''udp_send''))"
  "stores ''uv_alloc_cb'' (T_struct (uv_struct e ''udp''))"
  "stores ''uv_udp_recv_cb'' (T_struct (uv_struct e ''udp''))"
  "stores ''uv_poll_cb'' (T_struct (uv_struct e ''poll''))"
  "stores ''uv_prepare_cb'' (T_struct (uv_struct e ''prepare''))"
  "stores ''uv_check_cb'' (T_struct (uv_struct e ''check''))"
  "stores ''uv_idle_cb'' (T_struct (uv_struct e ''idle''))"
  "stores ''uv_async_cb'' (T_struct (uv_struct e ''async''))"
  "stores ''uv_timer_cb'' (T_struct (uv_struct e ''timer''))"
  "stores ''uv_getaddrinfo_cb'' (T_struct (uv_struct e ''getaddrinfo''))"
  "stores ''uv_getnameinfo_cb'' (T_struct (uv_struct e ''getnameinfo''))"
  "stores ''uv_work_cb'' (T_struct (uv_struct e ''work''))"
  "stores ''uv_after_work_cb'' (T_struct (uv_struct e ''work''))"
  "stores ''uv_fs_cb'' (T_struct (uv_struct e ''fs''))"
  "stores ''uv_signal_cb'' (T_struct (uv_struct e ''signal''))"
  "stores ''uv_fs_event_cb'' (T_struct (uv_struct e ''fs_event''))"
  "stores ''uv_random_cb'' (T_struct (uv_struct e ''random''))"
  by (simp_all only: uv_struct_simps)
    (simp_all add: uv_struct_defs uv_plain_field_defs by_platform_def)

lemma row_fitsI: "n \<in> set ns \<Longrightarrow> same_offsets e base n \<Longrightarrow> stores c (T_struct (uv_struct e n)) \<Longrightarrow> row_fits e (c, base, ns)"
  by (auto simp: row_fits_def list_ex_iff)

lemma row_facts:
  "row_fits e (''uv_shutdown_cb'', ''shutdown'', [''shutdown'', ''stream''])"
  "row_fits e (''uv_close_cb'', ''handle'', [''handle''])"
  "row_fits e (''uv_connection_cb'', ''stream'', [''stream''])"
  "row_fits e (''uv_alloc_cb'', ''handle'', [''stream''])"
  "row_fits e (''uv_read_cb'', ''stream'', [''stream''])"
  "row_fits e (''uv_write_cb'', ''write'', [''write'', ''stream''])"
  "row_fits e (''uv_write_cb'', ''write'', [''write'', ''stream'', ''stream''])"
  "row_fits e (''uv_close_cb'', ''handle'', [''tcp''])"
  "row_fits e (''uv_connect_cb'', ''connect'', [''connect'', ''tcp''])"
  "row_fits e (''uv_udp_send_cb'', ''udp_send'', [''udp_send'', ''udp''])"
  "row_fits e (''uv_alloc_cb'', ''handle'', [''udp''])"
  "row_fits e (''uv_udp_recv_cb'', ''udp'', [''udp''])"
  "row_fits e (''uv_connect_cb'', ''connect'', [''connect'', ''pipe''])"
  "row_fits e (''uv_poll_cb'', ''poll'', [''poll''])"
  "row_fits e (''uv_prepare_cb'', ''prepare'', [''prepare''])"
  "row_fits e (''uv_check_cb'', ''check'', [''check''])"
  "row_fits e (''uv_idle_cb'', ''idle'', [''idle''])"
  "row_fits e (''uv_async_cb'', ''async'', [''async''])"
  "row_fits e (''uv_timer_cb'', ''timer'', [''timer''])"
  "row_fits e (''uv_getaddrinfo_cb'', ''getaddrinfo'', [''getaddrinfo''])"
  "row_fits e (''uv_getnameinfo_cb'', ''getnameinfo'', [''getnameinfo''])"
  "row_fits e (''uv_work_cb'', ''work'', [''work''])"
  "row_fits e (''uv_after_work_cb'', ''work'', [''work''])"
  "row_fits e (''uv_fs_cb'', ''fs'', [''fs''])"
  "row_fits e (''uv_signal_cb'', ''signal'', [''signal''])"
  "row_fits e (''uv_fs_event_cb'', ''fs_event'', [''fs_event''])"
  "row_fits e (''uv_random_cb'', ''random'', [''random''])"
  by (rule row_fitsI [OF _ same_offsets_refl] row_fitsI [OF _ same_offsets_extends [OF handle_extends(1)]]
      row_fitsI [OF _ same_offsets_extends [OF handle_extends(2)]] row_fitsI [OF _ same_offsets_extends [OF handle_extends(3)]],
      simp, rule stores_facts)+

lemmas callback_simps =
  callbacks_fit_def declared_facts callback_rows_def passed_classes_def callback_param_facts class_facts object_facts row_facts proto_def variadic_def
  fn_type_def


lemma callbacks_fit_1:
  "list_all (\<lambda>f. cf_name f = ''uv_walk'' \<or> cf_name f = ''uv_fs_poll_start'' \<or> callbacks_fit e f) (uv_version_functions @ uv_loop_functions @ uv_error_functions @ uv_shutdown_functions @ uv_handle_functions @ uv_stream_functions @ uv_stream_state_functions @ uv_tcp_open_functions)"
  unfolding uv_version_functions_def uv_loop_functions_def uv_error_functions_def uv_shutdown_functions_def uv_handle_functions_def uv_stream_functions_def uv_stream_state_functions_def uv_tcp_open_functions_def
  by (simp add: callback_simps)

lemma callbacks_fit_2:
  "list_all (\<lambda>f. cf_name f = ''uv_walk'' \<or> cf_name f = ''uv_fs_poll_start'' \<or> callbacks_fit e f) (uv_tcp_connect_functions @ uv_udp_functions @ uv_tty_functions @ uv_guess_functions @ uv_pipe_functions @ uv_poll_functions @ uv_prepare_functions @ uv_check_functions)"
  unfolding uv_tcp_connect_functions_def uv_udp_functions_def uv_tty_functions_def uv_guess_functions_def uv_pipe_functions_def uv_poll_functions_def uv_prepare_functions_def uv_check_functions_def
  by (simp add: callback_simps)

lemma callbacks_fit_3:
  "list_all (\<lambda>f. cf_name f = ''uv_walk'' \<or> cf_name f = ''uv_fs_poll_start'' \<or> callbacks_fit e f) (uv_idle_functions @ uv_async_functions @ uv_timer_functions @ uv_getaddrinfo_functions @ uv_getnameinfo_functions @ uv_process_functions @ uv_work_functions @ uv_title_functions @ uv_os_functions @ uv_priority_functions @ uv_system_functions @ uv_environ_functions @ uv_uname_functions @ uv_metrics_functions)"
  unfolding uv_idle_functions_def uv_async_functions_def uv_timer_functions_def uv_getaddrinfo_functions_def uv_getnameinfo_functions_def uv_process_functions_def uv_work_functions_def uv_title_functions_def uv_os_functions_def uv_priority_functions_def uv_system_functions_def uv_environ_functions_def uv_uname_functions_def uv_metrics_functions_def
  by (simp add: callback_simps)

lemma callbacks_fit_4:
  "list_all (\<lambda>f. cf_name f = ''uv_walk'' \<or> cf_name f = ''uv_fs_poll_start'' \<or> callbacks_fit e f) (uv_fs_file_functions @ uv_fs_path_functions @ uv_fs_time_functions @ uv_fs_link_functions)"
  unfolding uv_fs_file_functions_def uv_fs_path_functions_def uv_fs_time_functions_def uv_fs_link_functions_def
  by (simp add: callback_simps)

lemma callbacks_fit_5:
  "list_all (\<lambda>f. cf_name f = ''uv_walk'' \<or> cf_name f = ''uv_fs_poll_start'' \<or> callbacks_fit e f) (uv_fs_poll_functions @ uv_signal_functions @ uv_fs_event_functions @ uv_random_functions @ uv_sync_functions @ uv_thread_create_functions @ uv_thread_functions @ uv_field_functions)"
  unfolding uv_fs_poll_functions_def uv_signal_functions_def uv_fs_event_functions_def uv_random_functions_def uv_sync_functions_def uv_thread_create_functions_def uv_thread_functions_def uv_field_functions_def
  by (simp add: callback_simps)

text \<open>Two functions do not fit: \<^verbatim>\<open>uv_walk\<close> calls its callback with each handle of the loop, not with an object that was passed, and
  \<^verbatim>\<open>uv_fs_poll_start\<close> keeps its callback in a private structure behind a \<^verbatim>\<open>void*\<close>.  For every other function of the header: every
  function type that a parameter names is declared, and when it registers a callback whose first parameter is a handle or a request, it gets
  an object of that class or of one derived from it, in which each member of the class has the same offset, and which has a member that keeps the
  callback.  Nothing is said of callbacks whose first parameter is neither, nor of those in option structures, as the \<^verbatim>\<open>exit_cb\<close> of
  \<^verbatim>\<open>uv_spawn\<close>.\<close>

lemma uv_callbacks_fit:
  "list_all (\<lambda>f. cf_name f = ''uv_walk'' \<or> cf_name f = ''uv_fs_poll_start'' \<or> callbacks_fit e f) uv_functions"
  unfolding uv_functions_def using callbacks_fit_1 [of e] callbacks_fit_2 [of e] callbacks_fit_3 [of e] callbacks_fit_4 [of e] callbacks_fit_5 [of e]
  by (simp only: list_all_append append_assoc simp_thms)

end
