(* ===== verification/Us_Api.thy ===== *)
theory Us_Api
  imports Uv_Api Uv_Records
begin

text \<open>
  The interface of uSockets and the program's binding to it.  \<^verbatim>\<open>usockets/include/libusockets.h\<close> declares the functions (their bodies are in the
  prebuilt library); \<^verbatim>\<open>usockets/usockets.v\<close> declares those that the program calls once more for V, with \<^verbatim>\<open>voidptr\<close> for callbacks, and
  \<^verbatim>\<open>usockets_server.v\<close> passes its handlers through these.  No compiler compares the two sides.

  Shown here: every V declaration agrees with the header in the number and the types of its parameters and in its result, the
  options structure included, and every handler has the type that the header demands of the callback it is passed as.
\<close>

section \<open>The header\<close>

definition us_udp_functions :: "c_function list" where
  "us_udp_functions =
    [proto ''us_socket_send_buffer'' (T_ptr ''char'') [T_base ''int'', T_ptr ''struct us_socket_t''],
     proto ''us_udp_packet_buffer_payload'' (T_ptr ''char'') [T_ptr ''struct us_udp_packet_buffer_t'', T_base ''int''],
     proto ''us_udp_packet_buffer_payload_length'' (T_base ''int'') [T_ptr ''struct us_udp_packet_buffer_t'', T_base ''int''],
     proto ''us_udp_packet_buffer_local_ip'' (T_base ''int'') [T_ptr ''struct us_udp_packet_buffer_t'', T_base ''int'', T_ptr ''char''],
     proto ''us_udp_socket_bound_port'' (T_base ''int'') [T_ptr ''struct us_udp_socket_t''],
     proto ''us_udp_packet_buffer_peer'' (T_ptr ''char'') [T_ptr ''struct us_udp_packet_buffer_t'', T_base ''int''],
     proto ''us_udp_packet_buffer_ecn'' (T_base ''int'') [T_ptr ''struct us_udp_packet_buffer_t'', T_base ''int''],
     proto ''us_udp_socket_receive'' (T_base ''int'') [T_ptr ''struct us_udp_socket_t'', T_ptr ''struct us_udp_packet_buffer_t''],
     proto ''us_udp_buffer_set_packet_payload'' (T_base ''void'') [T_ptr ''struct us_udp_packet_buffer_t'', T_base ''int'',
        T_base ''int'', T_ptr ''void'', T_base ''int'', T_ptr ''void''],
     proto ''us_udp_socket_send'' (T_base ''int'') [T_ptr ''struct us_udp_socket_t'', T_ptr ''struct us_udp_packet_buffer_t'',
        T_base ''int''],
     proto ''us_create_udp_packet_buffer'' (T_ptr ''struct us_udp_packet_buffer_t'') [],
     proto ''us_create_udp_socket'' (T_ptr ''struct us_udp_socket_t'') [T_ptr ''struct us_loop_t'',
        T_ptr ''struct us_udp_packet_buffer_t'', T_fn ''us_create_udp_socket.data_cb'', T_fn ''us_create_udp_socket.drain_cb'',
        T_ptr ''const char'', T_base ''unsigned short'', T_ptr ''void''],
     proto ''us_udp_socket_user'' (T_ptr ''void'') [T_ptr ''struct us_udp_socket_t''],
     proto ''us_udp_socket_bind'' (T_base ''int'') [T_ptr ''struct us_udp_socket_t'', T_ptr ''const char'', T_base ''unsigned int'']]"

definition us_udp_callback_types :: "(string \<times> c_fn_type) list" where
  "us_udp_callback_types =
    [(''us_create_udp_socket.data_cb'', fn_type (T_base ''void'') [T_ptr ''struct us_udp_socket_t'',
        T_ptr ''struct us_udp_packet_buffer_t'', T_base ''int'']),
     (''us_create_udp_socket.drain_cb'', fn_type (T_base ''void'') [T_ptr ''struct us_udp_socket_t''])]"

definition us_timer_functions :: "c_function list" where
  "us_timer_functions =
    [proto ''us_create_timer'' (T_ptr ''struct us_timer_t'') [T_ptr ''struct us_loop_t'', T_base ''int'', T_base ''unsigned int''],
     proto ''us_timer_ext'' (T_ptr ''void'') [T_ptr ''struct us_timer_t''],
     proto ''us_timer_close'' (T_base ''void'') [T_ptr ''struct us_timer_t''],
     proto ''us_timer_set'' (T_base ''void'') [T_ptr ''struct us_timer_t'', T_fn ''us_timer_set.cb'', T_base ''int'', T_base ''int''],
     proto ''us_timer_loop'' (T_ptr ''struct us_loop_t'') [T_ptr ''struct us_timer_t'']]"

definition us_timer_callback_types :: "(string \<times> c_fn_type) list" where
  "us_timer_callback_types =
    [(''us_timer_set.cb'', fn_type (T_base ''void'') [T_ptr ''struct us_timer_t''])]"

definition us_context_callback_functions :: "c_function list" where
  "us_context_callback_functions =
    [proto ''us_socket_context_timestamp'' (T_base ''unsigned short'') [T_base ''int'', T_ptr ''struct us_socket_context_t''],
     proto ''us_socket_context_add_server_name'' (T_base ''void'') [T_base ''int'', T_ptr ''struct us_socket_context_t'',
        T_ptr ''const char'', T_base ''struct us_socket_context_options_t'', T_ptr ''void''],
     proto ''us_socket_context_remove_server_name'' (T_base ''void'') [T_base ''int'', T_ptr ''struct us_socket_context_t'',
        T_ptr ''const char''],
     proto ''us_socket_context_on_server_name'' (T_base ''void'') [T_base ''int'', T_ptr ''struct us_socket_context_t'',
        T_fn ''us_socket_context_on_server_name.cb''],
     proto ''us_socket_server_name_userdata'' (T_ptr ''void'') [T_base ''int'', T_ptr ''struct us_socket_t''],
     proto ''us_socket_context_find_server_name_userdata'' (T_ptr ''void'') [T_base ''int'', T_ptr ''struct us_socket_context_t'',
        T_ptr ''const char''],
     proto ''us_socket_context_get_native_handle'' (T_ptr ''void'') [T_base ''int'', T_ptr ''struct us_socket_context_t''],
     proto ''us_create_socket_context'' (T_ptr ''struct us_socket_context_t'') [T_base ''int'', T_ptr ''struct us_loop_t'',
        T_base ''int'', T_base ''struct us_socket_context_options_t''],
     proto ''us_socket_context_free'' (T_base ''void'') [T_base ''int'', T_ptr ''struct us_socket_context_t''],
     proto ''us_socket_context_on_pre_open'' (T_base ''void'') [T_base ''int'', T_ptr ''struct us_socket_context_t'',
        T_fn ''us_socket_context_on_pre_open.on_pre_open''],
     proto ''us_socket_context_on_open'' (T_base ''void'') [T_base ''int'', T_ptr ''struct us_socket_context_t'',
        T_fn ''us_socket_context_on_open.on_open''],
     proto ''us_socket_context_on_close'' (T_base ''void'') [T_base ''int'', T_ptr ''struct us_socket_context_t'',
        T_fn ''us_socket_context_on_close.on_close''],
     proto ''us_socket_context_on_data'' (T_base ''void'') [T_base ''int'', T_ptr ''struct us_socket_context_t'',
        T_fn ''us_socket_context_on_data.on_data''],
     proto ''us_socket_context_on_writable'' (T_base ''void'') [T_base ''int'', T_ptr ''struct us_socket_context_t'',
        T_fn ''us_socket_context_on_writable.on_writable''],
     proto ''us_socket_context_on_timeout'' (T_base ''void'') [T_base ''int'', T_ptr ''struct us_socket_context_t'',
        T_fn ''us_socket_context_on_timeout.on_timeout''],
     proto ''us_socket_context_on_long_timeout'' (T_base ''void'') [T_base ''int'', T_ptr ''struct us_socket_context_t'',
        T_fn ''us_socket_context_on_long_timeout.on_timeout''],
     proto ''us_socket_context_on_connect_error'' (T_base ''void'') [T_base ''int'', T_ptr ''struct us_socket_context_t'',
        T_fn ''us_socket_context_on_connect_error.on_connect_error''],
     proto ''us_socket_context_on_end'' (T_base ''void'') [T_base ''int'', T_ptr ''struct us_socket_context_t'',
        T_fn ''us_socket_context_on_end.on_end'']]"

definition us_context_callback_types :: "(string \<times> c_fn_type) list" where
  "us_context_callback_types =
    [(''us_socket_context_on_server_name.cb'', fn_type (T_base ''void'') [T_ptr ''struct us_socket_context_t'', T_ptr ''const char'']),
     (''us_socket_context_on_pre_open.on_pre_open'',
        fn_type (T_base ''LIBUS_SOCKET_DESCRIPTOR'') [T_ptr ''struct us_socket_context_t'', T_base ''LIBUS_SOCKET_DESCRIPTOR'']),
     (''us_socket_context_on_open.on_open'', fn_type (T_ptr ''struct us_socket_t'') [T_ptr ''struct us_socket_t'', T_base ''int'',
        T_ptr ''char'', T_base ''int'']),
     (''us_socket_context_on_close.on_close'', fn_type (T_ptr ''struct us_socket_t'') [T_ptr ''struct us_socket_t'', T_base ''int'',
        T_ptr ''void'']),
     (''us_socket_context_on_data.on_data'', fn_type (T_ptr ''struct us_socket_t'') [T_ptr ''struct us_socket_t'', T_ptr ''char'',
        T_base ''int'']),
     (''us_socket_context_on_writable.on_writable'', fn_type (T_ptr ''struct us_socket_t'') [T_ptr ''struct us_socket_t'']),
     (''us_socket_context_on_timeout.on_timeout'', fn_type (T_ptr ''struct us_socket_t'') [T_ptr ''struct us_socket_t'']),
     (''us_socket_context_on_long_timeout.on_timeout'', fn_type (T_ptr ''struct us_socket_t'') [T_ptr ''struct us_socket_t'']),
     (''us_socket_context_on_connect_error.on_connect_error'', fn_type (T_ptr ''struct us_socket_t'') [T_ptr ''struct us_socket_t'',
        T_base ''int'']),
     (''us_socket_context_on_end.on_end'', fn_type (T_ptr ''struct us_socket_t'') [T_ptr ''struct us_socket_t''])]"

definition us_context_functions :: "c_function list" where
  "us_context_functions =
    [proto ''us_socket_context_ext'' (T_ptr ''void'') [T_base ''int'', T_ptr ''struct us_socket_context_t''],
     proto ''us_socket_context_close'' (T_base ''void'') [T_base ''int'', T_ptr ''struct us_socket_context_t''],
     proto ''us_socket_context_listen'' (T_ptr ''struct us_listen_socket_t'') [T_base ''int'', T_ptr ''struct us_socket_context_t'',
        T_ptr ''const char'', T_base ''int'', T_base ''int'', T_base ''int''],
     proto ''us_socket_context_listen_unix'' (T_ptr ''struct us_listen_socket_t'') [T_base ''int'',
        T_ptr ''struct us_socket_context_t'', T_ptr ''const char'', T_base ''int'', T_base ''int''],
     proto ''us_listen_socket_close'' (T_base ''void'') [T_base ''int'', T_ptr ''struct us_listen_socket_t''],
     proto ''us_adopt_accepted_socket'' (T_ptr ''struct us_socket_t'') [T_base ''int'', T_ptr ''struct us_socket_context_t'',
        T_base ''LIBUS_SOCKET_DESCRIPTOR'', T_base ''unsigned int'', T_ptr ''char'', T_base ''int''],
     proto ''us_socket_context_connect'' (T_ptr ''struct us_socket_t'') [T_base ''int'', T_ptr ''struct us_socket_context_t'',
        T_ptr ''const char'', T_base ''int'', T_ptr ''const char'', T_base ''int'', T_base ''int''],
     proto ''us_socket_context_connect_unix'' (T_ptr ''struct us_socket_t'') [T_base ''int'', T_ptr ''struct us_socket_context_t'',
        T_ptr ''const char'', T_base ''int'', T_base ''int''],
     proto ''us_socket_is_established'' (T_base ''int'') [T_base ''int'', T_ptr ''struct us_socket_t''],
     proto ''us_socket_close_connecting'' (T_ptr ''struct us_socket_t'') [T_base ''int'', T_ptr ''struct us_socket_t''],
     proto ''us_socket_context_loop'' (T_ptr ''struct us_loop_t'') [T_base ''int'', T_ptr ''struct us_socket_context_t''],
     proto ''us_socket_context_adopt_socket'' (T_ptr ''struct us_socket_t'') [T_base ''int'', T_ptr ''struct us_socket_context_t'',
        T_ptr ''struct us_socket_t'', T_base ''int''],
     proto ''us_create_child_socket_context'' (T_ptr ''struct us_socket_context_t'') [T_base ''int'',
        T_ptr ''struct us_socket_context_t'', T_base ''int'']]"

definition us_loop_functions :: "c_function list" where
  "us_loop_functions =
    [proto ''us_create_loop'' (T_ptr ''struct us_loop_t'') [T_ptr ''void'', T_fn ''us_create_loop.wakeup_cb'',
        T_fn ''us_create_loop.pre_cb'', T_fn ''us_create_loop.post_cb'', T_base ''unsigned int''],
     proto ''us_loop_free'' (T_base ''void'') [T_ptr ''struct us_loop_t''],
     proto ''us_loop_ext'' (T_ptr ''void'') [T_ptr ''struct us_loop_t''],
     proto ''us_loop_run'' (T_base ''void'') [T_ptr ''struct us_loop_t''],
     proto ''us_wakeup_loop'' (T_base ''void'') [T_ptr ''struct us_loop_t''],
     proto ''us_loop_integrate'' (T_base ''void'') [T_ptr ''struct us_loop_t''],
     proto ''us_loop_iteration_number'' (T_base ''long long'') [T_ptr ''struct us_loop_t'']]"

definition us_loop_callback_types :: "(string \<times> c_fn_type) list" where
  "us_loop_callback_types =
    [(''us_create_loop.wakeup_cb'', fn_type (T_base ''void'') [T_ptr ''struct us_loop_t'']),
     (''us_create_loop.pre_cb'', fn_type (T_base ''void'') [T_ptr ''struct us_loop_t'']),
     (''us_create_loop.post_cb'', fn_type (T_base ''void'') [T_ptr ''struct us_loop_t''])]"

definition us_poll_functions :: "c_function list" where
  "us_poll_functions =
    [proto ''us_create_poll'' (T_ptr ''struct us_poll_t'') [T_ptr ''struct us_loop_t'', T_base ''int'', T_base ''unsigned int''],
     proto ''us_poll_free'' (T_base ''void'') [T_ptr ''struct us_poll_t'', T_ptr ''struct us_loop_t''],
     proto ''us_poll_init'' (T_base ''void'') [T_ptr ''struct us_poll_t'', T_base ''LIBUS_SOCKET_DESCRIPTOR'', T_base ''int''],
     proto ''us_poll_start'' (T_base ''void'') [T_ptr ''struct us_poll_t'', T_ptr ''struct us_loop_t'', T_base ''int''],
     proto ''us_poll_change'' (T_base ''void'') [T_ptr ''struct us_poll_t'', T_ptr ''struct us_loop_t'', T_base ''int''],
     proto ''us_poll_stop'' (T_base ''void'') [T_ptr ''struct us_poll_t'', T_ptr ''struct us_loop_t''],
     proto ''us_poll_events'' (T_base ''int'') [T_ptr ''struct us_poll_t''],
     proto ''us_poll_ext'' (T_ptr ''void'') [T_ptr ''struct us_poll_t''],
     proto ''us_poll_fd'' (T_base ''LIBUS_SOCKET_DESCRIPTOR'') [T_ptr ''struct us_poll_t''],
     proto ''us_poll_resize'' (T_ptr ''struct us_poll_t'') [T_ptr ''struct us_poll_t'', T_ptr ''struct us_loop_t'',
        T_base ''unsigned int'']]"

definition us_socket_functions :: "c_function list" where
  "us_socket_functions =
    [proto ''us_socket_get_native_handle'' (T_ptr ''void'') [T_base ''int'', T_ptr ''struct us_socket_t''],
     proto ''us_socket_write'' (T_base ''int'') [T_base ''int'', T_ptr ''struct us_socket_t'', T_ptr ''const char'', T_base ''int'',
        T_base ''int''],
     proto ''us_socket_write2'' (T_base ''int'') [T_base ''int'', T_ptr ''struct us_socket_t'', T_ptr ''const char'', T_base ''int'',
        T_ptr ''const char'', T_base ''int''],
     proto ''us_socket_timeout'' (T_base ''void'') [T_base ''int'', T_ptr ''struct us_socket_t'', T_base ''unsigned int''],
     proto ''us_socket_long_timeout'' (T_base ''void'') [T_base ''int'', T_ptr ''struct us_socket_t'', T_base ''unsigned int''],
     proto ''us_socket_ext'' (T_ptr ''void'') [T_base ''int'', T_ptr ''struct us_socket_t''],
     proto ''us_socket_context'' (T_ptr ''struct us_socket_context_t'') [T_base ''int'', T_ptr ''struct us_socket_t''],
     proto ''us_socket_flush'' (T_base ''void'') [T_base ''int'', T_ptr ''struct us_socket_t''],
     proto ''us_socket_shutdown'' (T_base ''void'') [T_base ''int'', T_ptr ''struct us_socket_t''],
     proto ''us_socket_shutdown_read'' (T_base ''void'') [T_base ''int'', T_ptr ''struct us_socket_t''],
     proto ''us_socket_is_shut_down'' (T_base ''int'') [T_base ''int'', T_ptr ''struct us_socket_t''],
     proto ''us_socket_is_closed'' (T_base ''int'') [T_base ''int'', T_ptr ''struct us_socket_t''],
     proto ''us_socket_close'' (T_ptr ''struct us_socket_t'') [T_base ''int'', T_ptr ''struct us_socket_t'', T_base ''int'',
        T_ptr ''void''],
     proto ''us_socket_local_port'' (T_base ''int'') [T_base ''int'', T_ptr ''struct us_socket_t''],
     proto ''us_socket_remote_port'' (T_base ''int'') [T_base ''int'', T_ptr ''struct us_socket_t''],
     proto ''us_socket_remote_address'' (T_base ''void'') [T_base ''int'', T_ptr ''struct us_socket_t'', T_ptr ''char'', T_ptr ''int'']]"

definition us_functions :: "c_function list" where
  "us_functions =
     us_udp_functions @ us_timer_functions @ us_context_callback_functions @ us_context_functions @ us_loop_functions @ us_poll_functions
     @ us_socket_functions"

definition us_callback_types :: "(string \<times> c_fn_type) list" where
  "us_callback_types = us_udp_callback_types @ us_timer_callback_types @ us_context_callback_types @ us_loop_callback_types"

section \<open>The binding\<close>

datatype v_type = V_name string | V_ref string

record v_function =
  vf_name :: string
  vf_params :: "v_type list"
  vf_result :: v_type

definition v_fn :: "string \<Rightarrow> v_type list \<Rightarrow> v_type \<Rightarrow> v_function" where
  "v_fn name params result = \<lparr>vf_name = name, vf_params = params, vf_result = result\<rparr>"

text \<open>A function without a result has the result of the empty name.\<close>

definition v_bindings :: "v_function list" where
  "v_bindings =
    [v_fn ''us_create_loop'' [V_name ''voidptr'', V_name ''voidptr'', V_name ''voidptr'', V_name ''voidptr'',
        V_name ''u32''] (V_name ''Loop''),
     v_fn ''us_loop_free'' [V_name ''Loop''] (V_name ''''),
     v_fn ''us_loop_run'' [V_name ''Loop''] (V_name ''''),
     v_fn ''us_create_socket_context'' [V_name ''int'', V_name ''Loop'', V_name ''int'',
        V_name ''C.us_socket_context_options_t''] (V_name ''SocketContext''),
     v_fn ''us_socket_context_free'' [V_name ''int'', V_name ''SocketContext''] (V_name ''''),
     v_fn ''us_socket_context_on_open'' [V_name ''int'', V_name ''SocketContext'', V_name ''voidptr''] (V_name ''''),
     v_fn ''us_socket_context_on_close'' [V_name ''int'', V_name ''SocketContext'', V_name ''voidptr''] (V_name ''''),
     v_fn ''us_socket_context_on_data'' [V_name ''int'', V_name ''SocketContext'', V_name ''voidptr''] (V_name ''''),
     v_fn ''us_socket_context_on_writable'' [V_name ''int'', V_name ''SocketContext'', V_name ''voidptr''] (V_name ''''),
     v_fn ''us_socket_context_on_timeout'' [V_name ''int'', V_name ''SocketContext'', V_name ''voidptr''] (V_name ''''),
     v_fn ''us_socket_context_on_end'' [V_name ''int'', V_name ''SocketContext'', V_name ''voidptr''] (V_name ''''),
     v_fn ''us_socket_context_listen'' [V_name ''int'', V_name ''SocketContext'', V_name ''voidptr'', V_name ''int'',
        V_name ''int'', V_name ''int''] (V_name ''ListenSocket''),
     v_fn ''us_socket_context_ext'' [V_name ''int'', V_name ''SocketContext''] (V_name ''voidptr''),
     v_fn ''us_socket_write'' [V_name ''int'', V_name ''Socket'', V_ref ''char'', V_name ''int'', V_name ''int''] (V_name ''int''),
     v_fn ''us_socket_shutdown'' [V_name ''int'', V_name ''Socket''] (V_name ''''),
     v_fn ''us_socket_close'' [V_name ''int'', V_name ''Socket'', V_name ''int'', V_name ''voidptr''] (V_name ''Socket''),
     v_fn ''us_socket_context'' [V_name ''int'', V_name ''Socket''] (V_name ''SocketContext''),
     v_fn ''us_socket_ext'' [V_name ''int'', V_name ''Socket''] (V_name ''voidptr''),
     v_fn ''us_listen_socket_close'' [V_name ''int'', V_name ''ListenSocket''] (V_name '''')]"

definition v_aliases :: "(string \<times> v_type) list" where
  "v_aliases = [(''Loop'', V_ref ''C.us_loop_t''), (''SocketContext'', V_ref ''C.us_socket_context_t''), (''Socket'', V_ref ''C.us_socket_t''),
     (''ListenSocket'', V_ref ''C.us_listen_socket_t'')]"

definition v_context_options :: "(string \<times> v_type) list" where
  "v_context_options =
    [(''key_file_name'', V_name ''voidptr''), (''cert_file_name'', V_name ''voidptr''), (''passphrase'', V_name ''voidptr''),
     (''dh_params_file_name'', V_name ''voidptr''), (''ca_file_name'', V_name ''voidptr''), (''ssl_ciphers'', V_name ''voidptr''),
     (''ssl_prefer_low_memory_usage'', V_name ''int'')]"

text \<open>What \<^verbatim>\<open>create_loop\<close> and \<^verbatim>\<open>listen_usockets_with_config\<close> pass for a callback, and the type of the function that is passed.\<close>

definition loop_handlers :: "(string \<times> v_function) list" where
  "loop_handlers =
    [(''us_create_loop.wakeup_cb'', v_fn ''empty_wakeup'' [V_name ''Loop''] (V_name '''')),
     (''us_create_loop.pre_cb'', v_fn ''empty_pre'' [V_name ''Loop''] (V_name '''')),
     (''us_create_loop.post_cb'', v_fn ''empty_post'' [V_name ''Loop''] (V_name ''''))]"

definition context_handlers :: "(string \<times> v_function) list" where
  "context_handlers =
    [(''us_socket_context_on_open.on_open'', v_fn ''usockets_on_open'' [V_name ''Socket'', V_name ''int'', V_ref ''char'',
        V_name ''int''] (V_name ''Socket'')),
     (''us_socket_context_on_data.on_data'', v_fn ''usockets_on_data'' [V_name ''Socket'', V_ref ''char'',
        V_name ''int''] (V_name ''Socket'')),
     (''us_socket_context_on_close.on_close'', v_fn ''usockets_on_close'' [V_name ''Socket'', V_name ''int'',
        V_name ''voidptr''] (V_name ''Socket'')),
     (''us_socket_context_on_writable.on_writable'', v_fn ''usockets_on_writable'' [V_name ''Socket''] (V_name ''Socket'')),
     (''us_socket_context_on_timeout.on_timeout'', v_fn ''usockets_on_timeout'' [V_name ''Socket''] (V_name ''Socket'')),
     (''us_socket_context_on_end.on_end'', v_fn ''usockets_on_end'' [V_name ''Socket''] (V_name ''Socket''))]"

section \<open>Agreement\<close>

definition v_resolve :: "v_type \<Rightarrow> v_type" where
  "v_resolve t = (case t of V_ref n \<Rightarrow> t | V_name n \<Rightarrow> (case map_of v_aliases n of Some u \<Rightarrow> u | None \<Rightarrow> t))"

text \<open>The C name of a V type: \<^verbatim>\<open>C.x\<close> is \<^verbatim>\<open>struct x\<close>.\<close>

definition c_name :: "string \<Rightarrow> string" where
  "c_name n = (if v_starts_with n ''C.'' then ''struct '' @ drop 2 n else n)"

definition is_pointer :: "ctype \<Rightarrow> bool" where
  "is_pointer c = (case c of T_ptr n \<Rightarrow> True | T_fn n \<Rightarrow> True | _ \<Rightarrow> False)"

text \<open>Types that are passed in the same way.  V's \<^verbatim>\<open>int\<close> and \<^verbatim>\<open>u32\<close> have 32 bits.\<close>

definition scalar_fits :: "v_type \<Rightarrow> ctype \<Rightarrow> bool" where
  "scalar_fits t c =
     (case v_resolve t of
        V_ref n \<Rightarrow> c = T_ptr (c_name n) \<or> c = T_ptr (''const '' @ c_name n)
      | V_name n \<Rightarrow>
          if n = ''voidptr'' then is_pointer c
          else if n = ''int'' then c = T_base ''int''
          else if n = ''u32'' then c = T_base ''unsigned int''
          else if n = '''' then c = T_base ''void''
          else False)"

definition options_fit :: bool where
  "options_fit \<longleftrightarrow> list_all2 (\<lambda>(n, t) (m, c). n = m \<and> scalar_fits t c) v_context_options us_socket_context_options_t"

definition type_fits :: "v_type \<Rightarrow> ctype \<Rightarrow> bool" where
  "type_fits t c \<longleftrightarrow>
     (if t = V_name ''C.us_socket_context_options_t'' then c = T_base ''struct us_socket_context_options_t'' \<and> options_fit else scalar_fits t c)"

definition signature_fits :: "v_function \<Rightarrow> c_fn_type \<Rightarrow> bool" where
  "signature_fits b ft \<longleftrightarrow> list_all2 type_fits (vf_params b) (ft_params ft) \<and> type_fits (vf_result b) (ft_result ft)"

definition binding_fits :: "v_function \<Rightarrow> bool" where
  "binding_fits b \<longleftrightarrow>
     (case List.find (\<lambda>f. cf_name f = vf_name b) us_functions of None \<Rightarrow> False
      | Some f \<Rightarrow> \<not> cf_variadic f \<and> signature_fits b (cf_type f))"

definition handler_fits :: "string \<times> v_function \<Rightarrow> bool" where
  "handler_fits = (\<lambda>(callback, h). case map_of us_callback_types callback of None \<Rightarrow> False | Some ft \<Rightarrow> signature_fits h ft)"

lemma bindings_fit: "list_all binding_fits v_bindings"
  by code_simp

lemma handlers_fit: "list_all handler_fits (loop_handlers @ context_handlers)"
  by code_simp

text \<open>Every function that the program calls in uSockets is declared in the header, with the same number of parameters, each of a type that
  is passed in the same way, the options structure member by member, and the same result; and every handler that is passed through a
  \<^verbatim>\<open>voidptr\<close> has the parameters and the result of the callback that the header declares there.\<close>

lemma usockets_binding_fits:
  "list_all binding_fits v_bindings \<and> list_all handler_fits (loop_handlers @ context_handlers)"
  by (rule conjI [OF bindings_fit handlers_fit])

end
