(* ===== verification/Streaming.thy ===== *)
theory Streaming
  imports Http_Context Us_Socket
begin

text \<open>
  Streaming responses of \<^verbatim>\<open>streaming.v\<close>: chunks, the writers of the picoev and the uSockets server behind the interface \<^verbatim>\<open>StreamWriter\<close>, the
  context that a callback writes to, events, and the storage that carries a callback from the handler to the server.

  The system call \<^verbatim>\<open>send\<close> and the uSockets library answer from what happened before; the clock readings are arguments.  A callback is any function
  on the stream whose effect is that of a sequence of the operations of the stream; its fields are private to the module.

  Shown here: whatever a callback does, the bytes on the wire are the chunks of the texts that it wrote, up to the point where the connection
  failed, and with a connection that does not fail a reader of the chunked coding gets back exactly these texts; nothing follows the last
  chunk.  Events that are written are read back by a reader of the event stream format.
\<close>

section \<open>Chunks\<close>

definition hex_char :: "nat \<Rightarrow> char" where
  "hex_char n = (if n < 10 then char_of (48 + n) else char_of (87 + n))"

text \<open>\<^verbatim>\<open>${n:x}\<close>\<close>

fun hex_digits :: "nat \<Rightarrow> string" where
  "hex_digits n = (if n < 16 then [hex_char n] else hex_digits (n div 16) @ [hex_char (n mod 16)])"

declare hex_digits.simps [simp del]

definition format_chunk_size :: "nat \<Rightarrow> string" where
  "format_chunk_size n = hex_digits n @ crlf"

definition format_chunk :: "string \<Rightarrow> string" where
  "format_chunk data = (if length data = 0 then '''' else hex_digits (length data) @ crlf @ data @ crlf)"

definition format_chunk_string :: "string \<Rightarrow> string" where
  "format_chunk_string data = (if length data = 0 then '''' else hex_digits (length data) @ crlf @ data @ crlf)"

definition format_final_chunk :: string where
  "format_final_chunk = ''0'' @ crlf2"

section \<open>Writers\<close>

text \<open>An operation that may fail with a message; \<open>andthen\<close> is the propagation of an error to the caller.\<close>

type_synonym 'w io = "'w \<Rightarrow> (string + unit) \<times> 'w"

definition andthen :: "'w io \<Rightarrow> 'w io \<Rightarrow> 'w io" where
  "andthen f g w = (case f w of (Inl e, w1) \<Rightarrow> (Inl e, w1) | (Inr u, w1) \<Rightarrow> g w1)"

text \<open>The interface \<^verbatim>\<open>StreamWriter\<close>.\<close>

record 'w stream_writer =
  wr_is_connected :: "'w \<Rightarrow> bool"
  wr_write :: "string \<Rightarrow> 'w io"
  wr_write_string :: "string \<Rightarrow> 'w io"
  wr_flush :: "'w io"
  wr_close :: "'w io"

subsection \<open>The writer of picoev\<close>

text \<open>The descriptor and what the kernel took so far.  \<^verbatim>\<open>send\<close> answers -1 or a number of bytes that is at most the number offered.\<close>

record picoev_writer =
  pw_fd :: int
  pw_connected :: bool
  pw_wire :: string

type_synonym kernel_send = "int \<Rightarrow> string \<Rightarrow> string \<Rightarrow> int"

definition sys_send :: "kernel_send \<Rightarrow> int \<Rightarrow> string \<Rightarrow> string \<Rightarrow> int" where
  "sys_send k fd taken data = (let r = k fd taken data in if r < 0 then -1 else min r (int (length data)))"

definition picoev_writer_new :: "int \<Rightarrow> string \<Rightarrow> picoev_writer" where
  "picoev_writer_new fd taken = \<lparr>pw_fd = fd, pw_connected = True, pw_wire = taken\<rparr>"

function write_from :: "kernel_send \<Rightarrow> string \<Rightarrow> nat \<Rightarrow> picoev_writer io" where
  "write_from k data total_written w =
     (if total_written < length data then
        let written = sys_send k (pw_fd w) (pw_wire w) (drop total_written data) in
        if written < 0 then (Inl ''Failed to write to socket'', w\<lparr>pw_connected := False\<rparr>)
        else if written = 0 then (Inl ''Connection closed by peer'', w\<lparr>pw_connected := False\<rparr>)
        else write_from k data (total_written + nat written) (w\<lparr>pw_wire := pw_wire w @ take (nat written) (drop total_written data)\<rparr>)
      else (Inr (), w))"
  by pat_completeness auto
termination
  by (relation "measure (\<lambda>(k, data, total_written, w). length data - total_written)") auto

declare write_from.simps [simp del]

definition write_to_fd :: "kernel_send \<Rightarrow> string \<Rightarrow> picoev_writer io" where
  "write_to_fd k data w = (if length data = 0 then (Inr (), w) else write_from k data 0 w)"

definition picoev_write :: "kernel_send \<Rightarrow> string \<Rightarrow> picoev_writer io" where
  "picoev_write k data w =
     (if \<not> pw_connected w then (Inl ''Connection closed'', w)
      else if length data = 0 then (Inr (), w)
      else andthen (write_to_fd k (format_chunk_size (length data))) (andthen (write_to_fd k data) (write_to_fd k crlf)) w)"

definition picoev_write_string :: "kernel_send \<Rightarrow> string \<Rightarrow> picoev_writer io" where
  "picoev_write_string k data w =
     (if \<not> pw_connected w then (Inl ''Connection closed'', w)
      else if length data = 0 then (Inr (), w)
      else andthen (write_to_fd k (format_chunk_size (length data))) (andthen (write_to_fd k data) (write_to_fd k crlf)) w)"

definition picoev_flush :: "picoev_writer io" where
  "picoev_flush w = (Inr (), w)"

definition picoev_close :: "kernel_send \<Rightarrow> picoev_writer io" where
  "picoev_close k w =
     (if pw_connected w then (Inr (), (snd (write_to_fd k (''0'' @ crlf2) w))\<lparr>pw_connected := False\<rparr>) else (Inr (), w))"

definition picoev_stream_writer :: "kernel_send \<Rightarrow> picoev_writer stream_writer" where
  "picoev_stream_writer k =
     \<lparr>wr_is_connected = pw_connected, wr_write = picoev_write k, wr_write_string = picoev_write_string k,
      wr_flush = picoev_flush, wr_close = picoev_close k\<rparr>"

subsection \<open>The writer of uSockets\<close>

record usockets_writer =
  uw_socket :: us_socket
  uw_connected :: bool

definition usockets_writer_new :: "us_socket \<Rightarrow> usockets_writer" where
  "usockets_writer_new s = \<lparr>uw_socket = s, uw_connected = True\<rparr>"

definition uw_put :: "us_library \<Rightarrow> string \<Rightarrow> usockets_writer \<Rightarrow> usockets_writer" where
  "uw_put lib data w = w\<lparr>uw_socket := write_bytes lib data (uw_socket w)\<rparr>"

definition usockets_write :: "us_library \<Rightarrow> string \<Rightarrow> usockets_writer io" where
  "usockets_write lib data w =
     (if \<not> uw_connected w then (Inl ''Connection closed'', w)
      else if length data = 0 then (Inr (), w)
      else (Inr (), uw_put lib crlf (uw_put lib data (uw_put lib (format_chunk_size (length data)) w))))"

definition usockets_write_string :: "us_library \<Rightarrow> string \<Rightarrow> usockets_writer io" where
  "usockets_write_string lib data w =
     (if \<not> uw_connected w then (Inl ''Connection closed'', w)
      else if length data = 0 then (Inr (), w)
      else (Inr (), uw_put lib crlf (uw_put lib data (uw_put lib (format_chunk_size (length data)) w))))"

definition usockets_flush :: "usockets_writer io" where
  "usockets_flush w = (Inr (), w)"

definition usockets_writer_close :: "us_library \<Rightarrow> usockets_writer io" where
  "usockets_writer_close lib w =
     (if uw_connected w then (Inr (), (uw_put lib (''0'' @ crlf2) w)\<lparr>uw_connected := False\<rparr>) else (Inr (), w))"

definition mark_disconnected :: "usockets_writer \<Rightarrow> usockets_writer" where
  "mark_disconnected w = w\<lparr>uw_connected := False\<rparr>"

definition usockets_stream_writer :: "us_library \<Rightarrow> usockets_writer stream_writer" where
  "usockets_stream_writer lib =
     \<lparr>wr_is_connected = uw_connected, wr_write = usockets_write lib, wr_write_string = usockets_write_string lib,
      wr_flush = usockets_flush, wr_close = usockets_writer_close lib\<rparr>"

section \<open>The stream of a callback\<close>

text \<open>\<open>'f\<close> are the functions that a callback may register for an abort.\<close>

record ('w, 'f) stream_context =
  sc_writer :: 'w
  sc_is_closed :: bool
  sc_abort_fn :: "'f option"

definition stream_context_new :: "'w \<Rightarrow> ('w, 'f) stream_context" where
  "stream_context_new w = \<lparr>sc_writer = w, sc_is_closed = False, sc_abort_fn = None\<rparr>"

type_synonym ('w, 'f) stream_io = "('w, 'f) stream_context io"

text \<open>What the writing operations have in common: nothing on a closed stream, and a lost connection closes it.\<close>

definition on_writer :: "'w stream_writer \<Rightarrow> 'w io \<Rightarrow> ('w, 'f) stream_io" where
  "on_writer api f ctx =
     (if sc_is_closed ctx then (Inl ''Stream is closed'', ctx)
      else if \<not> wr_is_connected api (sc_writer ctx) then (Inl ''Connection lost'', ctx\<lparr>sc_is_closed := True\<rparr>)
      else let (r, w) = f (sc_writer ctx) in (r, ctx\<lparr>sc_writer := w\<rparr>))"

definition stream_write :: "'w stream_writer \<Rightarrow> string \<Rightarrow> ('w, 'f) stream_io" where
  "stream_write api data = on_writer api (wr_write api data)"

definition stream_write_string :: "'w stream_writer \<Rightarrow> string \<Rightarrow> ('w, 'f) stream_io" where
  "stream_write_string api data = on_writer api (wr_write_string api data)"

definition newline :: string where
  "newline = [CHR 0x0A]"

definition stream_writeln :: "'w stream_writer \<Rightarrow> string \<Rightarrow> ('w, 'f) stream_io" where
  "stream_writeln api data = andthen (stream_write_string api data) (stream_write_string api newline)"

record sse_event =
  se_data :: string
  se_event :: string
  se_id :: string
  se_retry :: int

text \<open>The strings that \<^verbatim>\<open>write_sse\<close> writes one after the other.\<close>

definition sse_pieces :: "sse_event \<Rightarrow> string list" where
  "sse_pieces e =
     (if length (se_event e) > 0 then [''event: '' @ se_event e @ newline] else [])
     @ map (\<lambda>l. ''data: '' @ l @ newline) (v_split (CHR 0x0A) (se_data e))
     @ (if length (se_id e) > 0 then [''id: '' @ se_id e @ newline] else [])
     @ (if se_retry e > 0 then [''retry: '' @ v_str (se_retry e) @ newline] else [])
     @ [newline]"

fun write_all :: "'w stream_writer \<Rightarrow> string list \<Rightarrow> 'w io" where
  "write_all api [] w = (Inr (), w)"
| "write_all api (p # ps) w = andthen (wr_write_string api p) (write_all api ps) w"

definition write_sse :: "'w stream_writer \<Rightarrow> sse_event \<Rightarrow> ('w, 'f) stream_io" where
  "write_sse api e = on_writer api (andthen (write_all api (sse_pieces e)) (wr_flush api))"

definition stream_pipe :: "'w stream_writer \<Rightarrow> string \<Rightarrow> ('w, 'f) stream_io" where
  "stream_pipe api data = stream_write api data"

definition on_abort :: "'f \<Rightarrow> ('w, 'f) stream_context \<Rightarrow> ('w, 'f) stream_context" where
  "on_abort f ctx = ctx\<lparr>sc_abort_fn := Some f\<rparr>"

definition stream_close :: "'w stream_writer \<Rightarrow> ('w, 'f) stream_context \<Rightarrow> ('w, 'f) stream_context" where
  "stream_close api ctx =
     (if \<not> sc_is_closed ctx then ctx\<lparr>sc_is_closed := True, sc_writer := snd (wr_close api (sc_writer ctx))\<rparr> else ctx)"

definition stream_is_open :: "'w stream_writer \<Rightarrow> ('w, 'f) stream_context \<Rightarrow> bool" where
  "stream_is_open api ctx \<longleftrightarrow> \<not> sc_is_closed ctx \<and> wr_is_connected api (sc_writer ctx)"

text \<open>The function that is called, if any, and the stream after it.\<close>

definition trigger_abort :: "('w, 'f) stream_context \<Rightarrow> 'f option \<times> ('w, 'f) stream_context" where
  "trigger_abort ctx = (sc_abort_fn ctx, ctx\<lparr>sc_is_closed := True\<rparr>)"

section \<open>Streaming functions\<close>

type_synonym ('w, 'f) stream_callback = "('w, 'f) stream_io"
type_synonym ('w, 'f) stream_error_handler = "string \<Rightarrow> ('w, 'f) stream_context \<Rightarrow> ('w, 'f) stream_context"

text \<open>The callback, then the handler of its error if there is one, then the end of the stream.\<close>

definition run_stream ::
  "'w stream_writer \<Rightarrow> ('w, 'f) stream_callback \<Rightarrow> ('w, 'f) stream_error_handler option \<Rightarrow> 'w \<Rightarrow> ('w, 'f) stream_context" where
  "run_stream api callback error_handler w =
     stream_close api
       (case callback (stream_context_new w) of
          (Inl err, ctx) \<Rightarrow> (case error_handler of Some h \<Rightarrow> h err ctx | None \<Rightarrow> ctx)
        | (Inr _, ctx) \<Rightarrow> ctx)"

record stream_response =
  sr_status_code :: int
  sr_headers :: "(string, string) vmap"
  sr_is_stream :: bool

definition first_handler :: "'h list \<Rightarrow> 'h option" where
  "first_handler hs = (case hs of [] \<Rightarrow> None | h # _ \<Rightarrow> Some h)"

definition get_stream_headers :: "(string, string) vmap" where
  "get_stream_headers = [(''Transfer-Encoding'', ''chunked''), (''Connection'', ''keep-alive'')]"

definition get_stream_text_headers :: "(string, string) vmap" where
  "get_stream_text_headers =
     [(''Content-Type'', ''text/plain; charset=utf-8''), (''Transfer-Encoding'', ''chunked''), (''X-Content-Type-Options'', ''nosniff''),
      (''Connection'', ''keep-alive'')]"

definition get_stream_sse_headers :: "(string, string) vmap" where
  "get_stream_sse_headers =
     [(''Content-Type'', ''text/event-stream''), (''Cache-Control'', ''no-cache''), (''Connection'', ''keep-alive''),
      (''Transfer-Encoding'', ''chunked'')]"

definition stream ::
  "'w stream_writer \<Rightarrow> 'w \<Rightarrow> ('w, 'f) stream_callback \<Rightarrow> ('w, 'f) stream_error_handler list
     \<Rightarrow> stream_response \<times> ('w, 'f) stream_context" where
  "stream api w callback error_handler =
     (\<lparr>sr_status_code = 200, sr_headers = [(''Transfer-Encoding'', ''chunked''), (''Connection'', ''keep-alive'')], sr_is_stream = True\<rparr>,
      run_stream api callback (first_handler error_handler) w)"

definition stream_with_headers ::
  "'w stream_writer \<Rightarrow> 'w \<Rightarrow> (string, string) vmap \<Rightarrow> ('w, 'f) stream_callback \<Rightarrow> ('w, 'f) stream_error_handler list
     \<Rightarrow> stream_response \<times> ('w, 'f) stream_context" where
  "stream_with_headers api w headers callback error_handler =
     (let h1 = vset ''Transfer-Encoding'' ''chunked'' headers;
          h2 = (if vget h1 ''Connection'' = None then vset ''Connection'' ''keep-alive'' h1 else h1)
      in (\<lparr>sr_status_code = 200, sr_headers = h2, sr_is_stream = True\<rparr>,
          run_stream api callback (first_handler error_handler) w))"

definition stream_text ::
  "'w stream_writer \<Rightarrow> 'w \<Rightarrow> ('w, 'f) stream_callback \<Rightarrow> ('w, 'f) stream_error_handler list
     \<Rightarrow> stream_response \<times> ('w, 'f) stream_context" where
  "stream_text api w callback error_handler =
     (\<lparr>sr_status_code = 200,
       sr_headers = [(''Content-Type'', ''text/plain; charset=utf-8''), (''Transfer-Encoding'', ''chunked''),
         (''X-Content-Type-Options'', ''nosniff''), (''Connection'', ''keep-alive'')],
       sr_is_stream = True\<rparr>,
      run_stream api callback (first_handler error_handler) w)"

definition stream_sse ::
  "'w stream_writer \<Rightarrow> 'w \<Rightarrow> ('w, 'f) stream_callback \<Rightarrow> ('w, 'f) stream_error_handler list
     \<Rightarrow> stream_response \<times> ('w, 'f) stream_context" where
  "stream_sse api w callback error_handler =
     (\<lparr>sr_status_code = 200,
       sr_headers = [(''Content-Type'', ''text/event-stream''), (''Cache-Control'', ''no-cache''), (''Connection'', ''keep-alive''),
         (''Transfer-Encoding'', ''chunked'')],
       sr_is_stream = True\<rparr>,
      run_stream api callback (first_handler error_handler) w)"

text \<open>\<open>status_text\<close> is \<^verbatim>\<open>get_status_text\<close> of the picoev server.\<close>

definition write_stream_headers :: "'w stream_writer \<Rightarrow> (int \<Rightarrow> string) \<Rightarrow> int \<Rightarrow> (string, string) vmap \<Rightarrow> 'w io" where
  "write_stream_headers api status_text status_code headers =
     wr_write_string api
       (''HTTP/1.1 '' @ v_str status_code @ '' '' @ status_text status_code @ crlf
        @ concat (map (\<lambda>(key, val). key @ '': '' @ val @ crlf) headers)
        @ (if vget headers ''Transfer-Encoding'' = None then ''Transfer-Encoding: chunked'' @ crlf else '''')
        @ (if vget headers ''Connection'' = None then ''Connection: keep-alive'' @ crlf else '''')
        @ crlf)"

section \<open>Callbacks between handler and server\<close>

datatype stream_type = ST_basic | ST_text | ST_sse

record ('w, 'f) stream_config =
  cfg_stream_type :: stream_type
  cfg_callback :: "('w, 'f) stream_callback"
  cfg_error_handler :: "('w, 'f) stream_error_handler option"

type_synonym ('w, 'f) stream_storage = "(string, ('w, 'f) stream_config) vmap"

definition store_stream_config ::
  "string \<Rightarrow> ('w, 'f) stream_config \<Rightarrow> ('w, 'f) stream_storage \<Rightarrow> ('w, 'f) stream_storage" where
  "store_stream_config i config st = vset i config st"

definition retrieve_stream_config :: "string \<Rightarrow> ('w, 'f) stream_storage \<Rightarrow> ('w, 'f) stream_config option" where
  "retrieve_stream_config i st = vget st i"

definition remove_stream_config :: "string \<Rightarrow> ('w, 'f) stream_storage \<Rightarrow> ('w, 'f) stream_storage" where
  "remove_stream_config i st = vdel i st"

text \<open>The two readings of the clock, in milliseconds and in nanoseconds.\<close>

definition rand_int :: "int \<Rightarrow> int" where
  "rand_int unix_nano = unix_nano - v_quot unix_nano 1000000 * 1000000"

definition generate_stream_id :: "int \<Rightarrow> int \<Rightarrow> string" where
  "generate_stream_id unix_milli unix_nano = v_str unix_milli @ ''_'' @ v_str (rand_int unix_nano)"

text \<open>\<^verbatim>\<open>c_stream\<close>, \<^verbatim>\<open>c_stream_text\<close> and \<^verbatim>\<open>c_stream_sse\<close>: the response, the context and the storage.\<close>

definition mark_streaming :: "string \<Rightarrow> string \<Rightarrow> (string, string) vmap \<Rightarrow> http_context \<Rightarrow> http_context" where
  "mark_streaming i kind headers c =
     c\<lparr>cx_store := vset ''_stream_type'' kind (vset ''_stream_id'' i (vset ''_stream'' ''true'' (cx_store c))),
       cx_headers := fold (\<lambda>(k, v). vset k v) headers (cx_headers c)\<rparr>"

definition marker_response :: "(string, string) vmap \<Rightarrow> http_response" where
  "marker_response headers =
     \<lparr>rs_status_code = 200, rs_header = fold (\<lambda>(k, v). add_custom k v) headers [], rs_body = ''''\<rparr>"

definition c_stream ::
  "int \<Rightarrow> int \<Rightarrow> ('w, 'f) stream_callback \<Rightarrow> ('w, 'f) stream_error_handler list \<Rightarrow> http_context \<Rightarrow> ('w, 'f) stream_storage
     \<Rightarrow> http_response \<times> http_context \<times> ('w, 'f) stream_storage" where
  "c_stream ms ns callback error_handler c st =
     (let i = generate_stream_id ms ns;
          config = \<lparr>cfg_stream_type = ST_basic, cfg_callback = callback, cfg_error_handler = first_handler error_handler\<rparr>
      in (marker_response get_stream_headers, mark_streaming i ''basic'' get_stream_headers c, store_stream_config i config st))"

definition c_stream_text ::
  "int \<Rightarrow> int \<Rightarrow> ('w, 'f) stream_callback \<Rightarrow> ('w, 'f) stream_error_handler list \<Rightarrow> http_context \<Rightarrow> ('w, 'f) stream_storage
     \<Rightarrow> http_response \<times> http_context \<times> ('w, 'f) stream_storage" where
  "c_stream_text ms ns callback error_handler c st =
     (let i = generate_stream_id ms ns;
          config = \<lparr>cfg_stream_type = ST_text, cfg_callback = callback, cfg_error_handler = first_handler error_handler\<rparr>
      in (marker_response get_stream_text_headers, mark_streaming i ''text'' get_stream_text_headers c, store_stream_config i config st))"

definition c_stream_sse ::
  "int \<Rightarrow> int \<Rightarrow> ('w, 'f) stream_callback \<Rightarrow> ('w, 'f) stream_error_handler list \<Rightarrow> http_context \<Rightarrow> ('w, 'f) stream_storage
     \<Rightarrow> http_response \<times> http_context \<times> ('w, 'f) stream_storage" where
  "c_stream_sse ms ns callback error_handler c st =
     (let i = generate_stream_id ms ns;
          config = \<lparr>cfg_stream_type = ST_sse, cfg_callback = callback, cfg_error_handler = first_handler error_handler\<rparr>
      in (marker_response get_stream_sse_headers, mark_streaming i ''sse'' get_stream_sse_headers c, store_stream_config i config st))"

definition is_streaming_response :: "http_context \<Rightarrow> bool" where
  "is_streaming_response c \<longleftrightarrow> vget (cx_store c) ''_stream'' = Some ''true''"

definition get_stream_config :: "http_context \<Rightarrow> ('w, 'f) stream_storage \<Rightarrow> ('w, 'f) stream_config option" where
  "get_stream_config c st =
     (if \<not> is_streaming_response c then None
      else case vget (cx_store c) ''_stream_id'' of None \<Rightarrow> None | Some i \<Rightarrow> retrieve_stream_config i st)"

definition cleanup_stream_config :: "http_context \<Rightarrow> ('w, 'f) stream_storage \<Rightarrow> ('w, 'f) stream_storage" where
  "cleanup_stream_config c st = (case vget (cx_store c) ''_stream_id'' of Some i \<Rightarrow> remove_stream_config i st | None \<Rightarrow> st)"

text \<open>Whether the response was a stream, the writer and the storage.\<close>

definition execute_stream ::
  "'w stream_writer \<Rightarrow> http_context \<Rightarrow> 'w \<Rightarrow> ('w, 'f) stream_storage \<Rightarrow> bool \<times> 'w \<times> ('w, 'f) stream_storage" where
  "execute_stream api c w st =
     (case get_stream_config c st of
        None \<Rightarrow> (False, w, st)
      | Some config \<Rightarrow>
        (True, sc_writer (run_stream api (cfg_callback config) (cfg_error_handler config) w), cleanup_stream_config c st))"

section \<open>A reader of the chunked coding\<close>

definition hex_value :: "char \<Rightarrow> nat option" where
  "hex_value c = (let n = of_char c :: nat in
     if 48 \<le> n \<and> n \<le> 57 then Some (n - 48) else if 97 \<le> n \<and> n \<le> 102 then Some (n - 87)
     else if 65 \<le> n \<and> n \<le> 70 then Some (n - 55) else None)"

definition is_hex :: "char \<Rightarrow> bool" where
  "is_hex c \<longleftrightarrow> hex_value c \<noteq> None"

definition hex_number :: "string \<Rightarrow> nat" where
  "hex_number s = foldl (\<lambda>n c. 16 * n + the (hex_value c)) 0 s"

text \<open>The size of a chunk and what follows its line.\<close>

definition read_size :: "string \<Rightarrow> (nat \<times> string) option" where
  "read_size s =
     (let h = takeWhile is_hex s; r = dropWhile is_hex s in
      if h \<noteq> [] \<and> v_starts_with r crlf then Some (hex_number h, drop 2 r) else None)"

lemma read_size_shorter: "read_size s = Some (n, r) \<Longrightarrow> length r < length s"
proof -
  assume a: "read_size s = Some (n, r)"
  have "s = takeWhile is_hex s @ dropWhile is_hex s" by simp
  then have "length s = length (takeWhile is_hex s) + length (dropWhile is_hex s)" by (metis length_append)
  moreover from a have "takeWhile is_hex s \<noteq> []" "r = drop 2 (dropWhile is_hex s)" by (auto simp: read_size_def Let_def split: if_splits)
  ultimately show ?thesis by (cases "takeWhile is_hex s") auto
qed

text \<open>The text of all chunks and what follows the last one.\<close>

function decode_chunks :: "string \<Rightarrow> (string \<times> string) option" where
  "decode_chunks s =
     (case read_size s of
        None \<Rightarrow> None
      | Some (n, r) \<Rightarrow>
        if n = 0 then (if v_starts_with r crlf then Some ('''', drop 2 r) else None)
        else if v_starts_with (drop n r) crlf then
          map_option (\<lambda>(t, rest). (take n r @ t, rest)) (decode_chunks (drop (n + 2) r))
        else None)"
  by pat_completeness auto
termination
  by (relation "measure length") (auto dest!: read_size_shorter)

declare decode_chunks.simps [simp del]

lemma hex_char_facts: "n < 16 \<Longrightarrow> hex_value (hex_char n) = Some n"
  by (auto simp: hex_value_def hex_char_def Let_def)

lemma hex_digits_facts: "list_all is_hex (hex_digits n) \<and> hex_digits n \<noteq> [] \<and> hex_number (hex_digits n) = n"
proof (induction n rule: hex_digits.induct)
  case (1 n)
  show ?case
  proof (cases "n < 16")
    case True
    then show ?thesis by (subst (1 2 3) hex_digits.simps) (simp add: is_hex_def hex_char_facts hex_number_def)
  next
    case False
    have m: "n mod 16 < 16" by simp
    from 1 [OF False] False show ?thesis
      by (subst (1 2 3) hex_digits.simps) (auto simp: list_all_iff is_hex_def hex_char_facts [OF m] hex_number_def)
  qed
qed

lemma not_hex_cr: "\<not> is_hex (CHR 0x0D)"
  by (simp add: is_hex_def hex_value_def)

lemma read_size_chunk: "read_size (hex_digits n @ crlf @ s) = Some (n, s)"
proof -
  have "\<forall>c \<in> set (hex_digits n). is_hex c" using hex_digits_facts [of n] by (simp add: list_all_iff)
  then have "takeWhile is_hex (hex_digits n @ crlf @ s) = hex_digits n" "dropWhile is_hex (hex_digits n @ crlf @ s) = crlf @ s"
    by (simp_all add: takeWhile_append2 dropWhile_append2 crlf_def not_hex_cr)
  with hex_digits_facts [of n] show ?thesis by (simp add: read_size_def crlf_def)
qed

lemma starts_crlf [simp]: "v_starts_with (crlf @ s) crlf"
  by (simp add: crlf_def)

lemma length_crlf [simp]: "length crlf = 2"
  by (simp add: crlf_def)

lemma decode_final: "decode_chunks (format_final_chunk @ s) = Some ('''', s)"
proof -
  have "hex_digits 0 = ''0''" by code_simp
  then have "format_final_chunk @ s = hex_digits 0 @ crlf @ crlf @ s" by (simp add: format_final_chunk_def crlf_def crlf2_def)
  then have "read_size (format_final_chunk @ s) = Some (0, crlf @ s)" by (simp only: read_size_chunk)
  then show ?thesis by (subst decode_chunks.simps) simp
qed

lemma decode_chunk: "decode_chunks (format_chunk d @ s) = map_option (\<lambda>(t, rest). (d @ t, rest)) (decode_chunks s)"
proof (cases "d = []")
  case False
  then have "read_size (format_chunk d @ s) = Some (length d, d @ crlf @ s)"
    using read_size_chunk [of "length d" "d @ crlf @ s"] by (simp add: format_chunk_def)
  with False show ?thesis by (subst decode_chunks.simps) simp
qed (simp add: format_chunk_def option.map_ident case_prod_unfold)

definition chunks :: "string list \<Rightarrow> string" where
  "chunks ps = concat (map format_chunk ps)"

lemma chunks_simps [simp]: "chunks [] = ''''" "chunks (ps @ qs) = chunks ps @ chunks qs" "chunks (p # ps) = format_chunk p @ chunks ps"
  by (simp_all add: chunks_def)

lemma decode_all: "decode_chunks (chunks ps @ format_final_chunk @ s) = Some (concat ps, s)"
  by (induction ps) (simp_all add: decode_final decode_chunk)

section \<open>The contract of a writer\<close>

text \<open>What a stream needs of its writer; \<open>wire\<close> is what the writer has passed on.\<close>

locale writer_contract =
  fixes api :: "'w stream_writer" and wire :: "'w \<Rightarrow> string"
  assumes write_string_ok:
      "wr_is_connected api w \<Longrightarrow> wr_write_string api d w = (Inr u, w') \<Longrightarrow>
         wr_is_connected api w' \<and> wire w' = wire w @ format_chunk d"
    and write_string_failed:
      "wr_is_connected api w \<Longrightarrow> wr_write_string api d w = (Inl e, w') \<Longrightarrow>
         \<not> wr_is_connected api w' \<and> (\<exists>k. wire w' = wire w @ take k (format_chunk d))"
    and write_same: "wr_write api d w = wr_write_string api d w"
    and flush_nothing: "wr_flush api w = (Inr (), w)"
    and close_connected:
      "wr_is_connected api w \<Longrightarrow> \<exists>k. wire (snd (wr_close api w)) = wire w @ take k format_final_chunk"
    and close_lost: "\<not> wr_is_connected api w \<Longrightarrow> wire (snd (wr_close api w)) = wire w"
    and close_disconnects: "\<not> wr_is_connected api (snd (wr_close api w))"

datatype 'f stream_op =
  Op_write string | Op_write_string string | Op_writeln string | Op_sse sse_event | Op_pipe string | Op_on_abort 'f | Op_close | Op_trigger_abort

fun exec_op :: "'w stream_writer \<Rightarrow> 'f stream_op \<Rightarrow> ('w, 'f) stream_io" where
  "exec_op api (Op_write d) ctx = stream_write api d ctx"
| "exec_op api (Op_write_string d) ctx = stream_write_string api d ctx"
| "exec_op api (Op_writeln d) ctx = stream_writeln api d ctx"
| "exec_op api (Op_sse e) ctx = write_sse api e ctx"
| "exec_op api (Op_pipe d) ctx = stream_pipe api d ctx"
| "exec_op api (Op_on_abort f) ctx = (Inr (), on_abort f ctx)"
| "exec_op api Op_close ctx = (Inr (), stream_close api ctx)"
| "exec_op api Op_trigger_abort ctx = (Inr (), snd (trigger_abort ctx))"

text \<open>The texts that an operation writes one after the other.\<close>

fun op_pieces :: "'f stream_op \<Rightarrow> string list" where
  "op_pieces (Op_write d) = [d]"
| "op_pieces (Op_write_string d) = [d]"
| "op_pieces (Op_writeln d) = [d, newline]"
| "op_pieces (Op_sse e) = sse_pieces e"
| "op_pieces (Op_pipe d) = [d]"
| "op_pieces _ = []"

definition exec_ops :: "'w stream_writer \<Rightarrow> 'f stream_op list \<Rightarrow> ('w, 'f) stream_context \<Rightarrow> ('w, 'f) stream_context" where
  "exec_ops api ops ctx = fold (\<lambda>op c. snd (exec_op api op c)) ops ctx"

lemma exec_ops_simps [simp]: "exec_ops api [] ctx = ctx" "exec_ops api (op # ops) ctx = exec_ops api ops (snd (exec_op api op ctx))"
  "exec_ops api (ops @ ops') ctx = exec_ops api ops' (exec_ops api ops ctx)"
  by (simp_all add: exec_ops_def)

text \<open>The texts of a sequence of operations, up to the operation that ends the stream, and whether that operation is the abort.\<close>

definition goes_on :: "'f stream_op \<Rightarrow> bool" where
  "goes_on op \<longleftrightarrow> op \<noteq> Op_close \<and> op \<noteq> Op_trigger_abort"

definition pieces_of :: "'f stream_op list \<Rightarrow> string list" where
  "pieces_of ops = concat (map op_pieces (takeWhile goes_on ops))"

definition aborted :: "'f stream_op list \<Rightarrow> bool" where
  "aborted ops \<longleftrightarrow> (case dropWhile goes_on ops of op # _ \<Rightarrow> op = Op_trigger_abort | [] \<Rightarrow> False)"

definition stream_end :: "'f stream_op list \<Rightarrow> string" where
  "stream_end ops = (if aborted ops then '''' else format_final_chunk)"

lemma stream_texts [simp]:
  "pieces_of [] = []" "stream_end [] = format_final_chunk"
  "goes_on op \<Longrightarrow> pieces_of (op # ops) = op_pieces op @ pieces_of ops" "goes_on op \<Longrightarrow> stream_end (op # ops) = stream_end ops"
  "pieces_of (Op_close # ops) = []" "stream_end (Op_close # ops) = format_final_chunk"
  "pieces_of (Op_trigger_abort # ops) = []" "stream_end (Op_trigger_abort # ops) = ''''"
  by (simp_all add: pieces_of_def stream_end_def aborted_def goes_on_def)

text \<open>A callback with the effect of a sequence of operations on a new stream, and a handler of its error that continues with others.\<close>

definition performs ::
  "'w stream_writer \<Rightarrow> ('w, 'f) stream_callback \<Rightarrow> ('w, 'f) stream_error_handler option \<Rightarrow> 'w \<Rightarrow> 'f stream_op list \<Rightarrow> bool" where
  "performs api callback eh w ops \<longleftrightarrow>
     (\<exists>ops1 r. callback (stream_context_new w) = (r, exec_ops api ops1 (stream_context_new w))
        \<and> (case r of
             Inr u \<Rightarrow> ops = ops1
           | Inl err \<Rightarrow>
             (case eh of None \<Rightarrow> ops = ops1
              | Some h \<Rightarrow> \<exists>ops2. ops = ops1 @ ops2
                  \<and> h err (exec_ops api ops1 (stream_context_new w)) = exec_ops api ops2 (exec_ops api ops1 (stream_context_new w)))))"

lemma run_performs: "performs api callback eh w ops \<Longrightarrow> run_stream api callback eh w = stream_close api (exec_ops api ops (stream_context_new w))"
  unfolding performs_def run_stream_def by (elim exE conjE) (auto split: sum.splits option.splits)

lemma cut_prefix: "\<exists>k'. b @ take k xs = b @ take k' (xs @ ys)"
  by (rule exI [of _ "min k (length xs)"]) (simp add: min_def)

lemma cut_later: "\<exists>k'. (b @ xs) @ take k ys = b @ take k' (xs @ ys)"
  by (rule exI [of _ "length xs + k"]) simp

text \<open>A writer whose connection does not fail.\<close>

definition never_fails :: "'w stream_writer \<Rightarrow> ('w \<Rightarrow> string) \<Rightarrow> bool" where
  "never_fails api wire \<longleftrightarrow>
     (\<forall>w d. wr_is_connected api w \<longrightarrow> fst (wr_write_string api d w) = Inr ())
     \<and> (\<forall>w. wr_is_connected api w \<longrightarrow> wire (snd (wr_close api w)) = wire w @ format_final_chunk)"

context writer_contract begin

text \<open>Writing pieces one after the other.\<close>

lemma write_all_spec:
  assumes "wr_is_connected api w" and "write_all api ps w = (r, w')"
  shows "(case r of Inr u \<Rightarrow> wr_is_connected api w' \<and> wire w' = wire w @ chunks ps
           | Inl e \<Rightarrow> \<not> wr_is_connected api w' \<and> (\<exists>k. wire w' = wire w @ take k (chunks ps)))
    \<and> (never_fails api wire \<longrightarrow> r = Inr ())"
  using assms
proof (induction ps arbitrary: w)
  case (Cons p ps)
  show ?case
  proof (cases "wr_write_string api p w")
    case (Pair r1 w1)
    show ?thesis
    proof (cases r1)
      case (Inl e)
      with Cons.prems(2) Pair have r: "r = Inl e" "w' = w1" by (simp_all add: andthen_def)
      from write_string_failed [OF Cons.prems(1)] Pair Inl obtain k where
        k: "\<not> wr_is_connected api w1" "wire w1 = wire w @ take k (format_chunk p)" by blast
      moreover have "\<not> never_fails api wire" using Cons.prems(1) Pair Inl unfolding never_fails_def by (metis Inl_Inr_False fst_conv)
      ultimately show ?thesis using r cut_prefix [of "wire w" k "format_chunk p" "chunks ps"] by simp
    next
      case (Inr u)
      from write_string_ok [OF Cons.prems(1)] Pair Inr have w1: "wr_is_connected api w1" "wire w1 = wire w @ format_chunk p" by auto
      from Cons.prems(2) Pair Inr have "write_all api ps w1 = (r, w')" by (simp add: andthen_def)
      from Cons.IH [OF w1(1) this] w1(2) cut_later [of "wire w" "format_chunk p" _ "chunks ps"] show ?thesis
        by (cases r) fastforce+
    qed
  qed
qed auto

text \<open>A writing operation on an open stream.\<close>

lemma write_string_spec:
  assumes "\<not> sc_is_closed ctx" "wr_is_connected api (sc_writer ctx)" and "stream_write_string api d ctx = (r, ctx')"
  shows "if r = Inr () then \<not> sc_is_closed ctx' \<and> wr_is_connected api (sc_writer ctx') \<and> wire (sc_writer ctx') = wire (sc_writer ctx) @ format_chunk d
         else \<not> wr_is_connected api (sc_writer ctx') \<and> (\<exists>k. wire (sc_writer ctx') = wire (sc_writer ctx) @ take k (format_chunk d))
           \<and> \<not> never_fails api wire"
proof (cases "wr_write_string api d (sc_writer ctx)")
  case (Pair r1 w1)
  with assms have r: "r = r1" "ctx' = ctx\<lparr>sc_writer := w1\<rparr>" by (simp_all add: stream_write_string_def on_writer_def)
  show ?thesis
  proof (cases r1)
    case (Inl e)
    have "\<not> never_fails api wire" using assms(2) Pair Inl unfolding never_fails_def by (metis Inl_Inr_False fst_conv)
    with write_string_failed [OF assms(2)] Pair Inl r show ?thesis by auto
  next
    case (Inr u)
    with write_string_ok [OF assms(2)] Pair r assms(1) show ?thesis by auto
  qed
qed

definition op_effect :: "string list \<Rightarrow> ('w, 'f) stream_context \<Rightarrow> ('w, 'f) stream_context \<Rightarrow> bool" where
  "op_effect ps ctx ctx' \<longleftrightarrow>
     (if wr_is_connected api (sc_writer ctx') then \<not> sc_is_closed ctx' \<and> wire (sc_writer ctx') = wire (sc_writer ctx) @ chunks ps
      else (\<exists>k. wire (sc_writer ctx') = wire (sc_writer ctx) @ take k (chunks ps)) \<and> \<not> never_fails api wire)"

lemma write_string_effect:
  assumes "\<not> sc_is_closed ctx" "wr_is_connected api (sc_writer ctx)"
  shows "op_effect [d] ctx (snd (stream_write_string api d ctx))"
proof (cases "stream_write_string api d ctx")
  case (Pair r ctx')
  from write_string_spec [OF assms Pair] Pair show ?thesis by (auto simp: op_effect_def split: if_splits)
qed

lemma write_effect: "stream_write api d = stream_write_string api d"
  by (simp add: stream_write_def stream_write_string_def on_writer_def fun_eq_iff write_same)

lemma writeln_effect:
  assumes "\<not> sc_is_closed ctx" "wr_is_connected api (sc_writer ctx)"
  shows "op_effect [d, newline] ctx (snd (stream_writeln api d ctx))"
proof (cases "stream_write_string api d ctx")
  case (Pair r ctx1)
  note s = write_string_spec [OF assms Pair]
  show ?thesis
  proof (cases r)
    case (Inl e)
    with s obtain k where "\<not> wr_is_connected api (sc_writer ctx1)" "wire (sc_writer ctx1) = wire (sc_writer ctx) @ take k (format_chunk d)"
      "\<not> never_fails api wire" by auto
    then show ?thesis using Pair Inl cut_prefix [of "wire (sc_writer ctx)" k "format_chunk d" "chunks [newline]"]
      by (simp add: op_effect_def stream_writeln_def andthen_def)
  next
    case (Inr u)
    with s have o1: "\<not> sc_is_closed ctx1" "wr_is_connected api (sc_writer ctx1)" "wire (sc_writer ctx1) = wire (sc_writer ctx) @ format_chunk d"
      by auto
    from write_string_effect [OF o1(1,2), of newline] o1(3) Pair Inr show ?thesis
      by (auto simp: op_effect_def stream_writeln_def andthen_def split: if_splits intro: exI [of _ "length (format_chunk d) + k" for k])
  qed
qed

lemma sse_effect:
  assumes "\<not> sc_is_closed ctx" "wr_is_connected api (sc_writer ctx)"
  shows "op_effect (sse_pieces e) ctx (snd (write_sse api e ctx))"
proof (cases "write_all api (sse_pieces e) (sc_writer ctx)")
  case (Pair r w)
  from write_all_spec [OF assms(2) Pair] Pair assms show ?thesis
    by (auto simp: op_effect_def write_sse_def on_writer_def andthen_def flush_nothing split: sum.splits)
qed

lemma open_effect:
  assumes "\<not> sc_is_closed ctx" "wr_is_connected api (sc_writer ctx)" "goes_on op"
  shows "op_effect (op_pieces op) ctx (snd (exec_op api op ctx))"
  using assms
  by (cases op) (auto simp: goes_on_def stream_pipe_def write_effect write_string_effect writeln_effect sse_effect on_abort_def, auto simp: op_effect_def)

lemma lost_effect:
  assumes "\<not> wr_is_connected api (sc_writer ctx)"
  shows "\<not> wr_is_connected api (sc_writer (snd (exec_op api op ctx))) \<and> wire (sc_writer (snd (exec_op api op ctx))) = wire (sc_writer ctx)"
  using assms
  by (cases op) (auto simp: stream_pipe_def stream_write_def stream_write_string_def stream_writeln_def write_sse_def on_writer_def andthen_def
      on_abort_def trigger_abort_def stream_close_def close_lost close_disconnects)

lemma lost_ops:
  "\<not> wr_is_connected api (sc_writer ctx) \<Longrightarrow> wire (sc_writer (stream_close api (exec_ops api ops ctx))) = wire (sc_writer ctx)
     \<and> \<not> wr_is_connected api (sc_writer (stream_close api (exec_ops api ops ctx)))"
proof (induction ops arbitrary: ctx)
  case (Cons op ops)
  from lost_effect [OF Cons.prems, of op] Cons.IH show ?case by simp
qed (simp add: stream_close_def close_lost close_disconnects)

text \<open>Nothing is written on a closed stream, whatever its writer could do.\<close>

lemma closed_ops:
  "sc_is_closed ctx \<Longrightarrow> wire (sc_writer (stream_close api (exec_ops api ops ctx))) = wire (sc_writer ctx)"
proof (induction ops arbitrary: ctx)
  case (Cons op ops)
  have "sc_is_closed (snd (exec_op api op ctx)) \<and> sc_writer (snd (exec_op api op ctx)) = sc_writer ctx"
    using Cons.prems
    by (cases op) (auto simp: stream_pipe_def stream_write_def stream_write_string_def stream_writeln_def write_sse_def on_writer_def andthen_def
        on_abort_def trigger_abort_def stream_close_def)
  with Cons.IH show ?case by simp
qed (simp add: stream_close_def)

theorem stream_ops:
  assumes "\<not> sc_is_closed ctx" "wr_is_connected api (sc_writer ctx)"
  shows "(\<exists>k. wire (sc_writer (stream_close api (exec_ops api ops ctx))) = wire (sc_writer ctx) @ take k (chunks (pieces_of ops) @ stream_end ops))
    \<and> (never_fails api wire \<longrightarrow>
         wire (sc_writer (stream_close api (exec_ops api ops ctx))) = wire (sc_writer ctx) @ chunks (pieces_of ops) @ stream_end ops)"
  using assms
proof (induction ops arbitrary: ctx)
  case Nil
  from close_connected [OF Nil(2)] Nil show ?case by (auto simp: stream_close_def never_fails_def)
next
  case (Cons op ops)
  let ?c = "snd (exec_op api op ctx)"
  show ?case
  proof (cases "goes_on op")
    case False
    then consider "op = Op_close" | "op = Op_trigger_abort" by (auto simp: goes_on_def)
    then show ?thesis
    proof cases
      case 1
      then have lost: "\<not> wr_is_connected api (sc_writer ?c)" using Cons.prems by (simp add: stream_close_def close_disconnects)
      from close_connected [OF Cons.prems(2)] lost_ops [OF lost, of ops] Cons.prems 1 show ?thesis
        by (auto simp: stream_close_def never_fails_def)
    next
      case 2
      then show ?thesis using closed_ops [of ?c ops] by (simp add: trigger_abort_def)
    qed
  next
    case True
    note e = open_effect [OF Cons.prems True]
    show ?thesis
    proof (cases "wr_is_connected api (sc_writer ?c)")
      case conn: True
      with e have c: "\<not> sc_is_closed ?c" "wire (sc_writer ?c) = wire (sc_writer ctx) @ chunks (op_pieces op)" by (auto simp: op_effect_def)
      from Cons.IH [OF c(1) conn] c(2) True show ?thesis
        by (auto intro: exI [of _ "length (chunks (op_pieces op)) + k" for k])
    next
      case lost: False
      with e obtain k where k: "wire (sc_writer ?c) = wire (sc_writer ctx) @ take k (chunks (op_pieces op))" "\<not> never_fails api wire"
        by (auto simp: op_effect_def)
      have "take k (chunks (op_pieces op)) = take (min k (length (chunks (op_pieces op)))) (chunks (pieces_of (op # ops)) @ stream_end (op # ops))"
        using True by (simp add: min_def)
      with k lost_ops [OF lost, of ops] show ?thesis by auto
    qed
  qed
qed

text \<open>The same for a callback that performs the operations.\<close>

theorem stream_delivers:
  assumes "wr_is_connected api w" and "performs api callback eh w ops"
  shows "(\<exists>k. wire (sc_writer (run_stream api callback eh w)) = wire w @ take k (chunks (pieces_of ops) @ stream_end ops))
    \<and> (never_fails api wire \<longrightarrow> wire (sc_writer (run_stream api callback eh w)) = wire w @ chunks (pieces_of ops) @ stream_end ops)"
  using stream_ops [of "stream_context_new w" ops] assms run_performs [OF assms(2)] by (simp add: stream_context_new_def)

end

section \<open>The two writers keep the contract\<close>

definition fd_effect :: "string \<Rightarrow> picoev_writer \<Rightarrow> (string + unit) \<times> picoev_writer \<Rightarrow> bool" where
  "fd_effect data w = (\<lambda>(r, w').
     if r = Inr () then pw_connected w' \<and> pw_wire w' = pw_wire w @ data
     else \<not> pw_connected w' \<and> (\<exists>j. pw_wire w' = pw_wire w @ take j data))"

lemma write_from_effect:
  "pw_connected w \<Longrightarrow> n \<le> length data \<Longrightarrow> fd_effect (drop n data) w (write_from k data n w)"
proof (induction k data n w rule: write_from.induct)
  case (1 k data n w)
  define m where "m = sys_send k (pw_fd w) (pw_wire w) (drop n data)"
  show ?case
  proof (cases "n < length data \<and> 0 < m")
    case False
    have "fd_effect (drop n data) w (Inl e, w\<lparr>pw_connected := False\<rparr>)" for e
      by (auto simp: fd_effect_def intro: exI [of _ 0])
    moreover from False have "n < length data \<Longrightarrow> m \<le> 0" by simp
    ultimately show ?thesis using "1.prems" by (subst write_from.simps) (auto simp: m_def [symmetric] Let_def fd_effect_def)
  next
    case True
    have le: "nat m \<le> length (drop n data)" by (auto simp: m_def sys_send_def Let_def)
    let ?w = "w\<lparr>pw_wire := pw_wire w @ take (nat m) (drop n data)\<rparr>"
    have step: "write_from k data n w = write_from k data (n + nat m) ?w"
      using True by (subst write_from.simps) (simp add: m_def [symmetric] Let_def)
    have "fd_effect (drop (n + nat m) data) ?w (write_from k data (n + nat m) ?w)"
      using "1.IH" [OF _ m_def] "1.prems" True le by (simp add: m_def [symmetric] add.commute [of n] Nat.le_diff_conv2)
    moreover have "drop n data = take (nat m) (drop n data) @ drop (n + nat m) data" by (metis append_take_drop_id add.commute drop_drop)
    ultimately show ?thesis unfolding step fd_effect_def
      using cut_later [of "pw_wire w" "take (nat m) (drop n data)" _ "drop (n + nat m) data"] by (auto split: if_splits prod.splits)
  qed
qed

lemma write_to_fd_effect: "pw_connected w \<Longrightarrow> fd_effect data w (write_to_fd k data w)"
  using write_from_effect [of w 0 data k] by (auto simp: write_to_fd_def fd_effect_def)

lemma fd_then:
  assumes "fd_effect d1 w (f w)" and "\<And>w1. pw_connected w1 \<Longrightarrow> fd_effect d2 w1 (g w1)"
  shows "fd_effect (d1 @ d2) w (andthen f g w)"
proof (cases "f w")
  case (Pair r w1)
  show ?thesis
  proof (cases r)
    case (Inl e)
    with assms(1) Pair cut_prefix [of "pw_wire w" _ d1 d2] show ?thesis by (auto simp: fd_effect_def andthen_def)
  next
    case (Inr u)
    with assms(1) Pair have "pw_connected w1" "pw_wire w1 = pw_wire w @ d1" by (auto simp: fd_effect_def)
    with assms(2) [of w1] Pair Inr cut_later [of "pw_wire w" d1 _ d2] show ?thesis
      by (auto simp: fd_effect_def andthen_def split: if_splits)
  qed
qed

lemma picoev_write_effect: "pw_connected w \<Longrightarrow> fd_effect (format_chunk d) w (picoev_write_string k d w)"
proof (cases "d = []")
  case False
  assume c: "pw_connected w"
  have "fd_effect ((hex_digits (length d) @ crlf) @ d @ crlf) w
      (andthen (write_to_fd k (format_chunk_size (length d))) (andthen (write_to_fd k d) (write_to_fd k crlf)) w)"
    by (rule fd_then) (use c in \<open>simp_all add: fd_then write_to_fd_effect format_chunk_size_def\<close>)
  with False c show ?thesis by (simp add: picoev_write_string_def format_chunk_def)
qed (simp add: picoev_write_string_def fd_effect_def format_chunk_def)

interpretation picoev: writer_contract "picoev_stream_writer k" pw_wire for k
proof
  fix w :: picoev_writer and w' d u e
  assume c: "wr_is_connected (picoev_stream_writer k) w"
  then have e: "fd_effect (format_chunk d) w (wr_write_string (picoev_stream_writer k) d w)"
    by (simp add: picoev_stream_writer_def picoev_write_effect)
  show "wr_write_string (picoev_stream_writer k) d w = (Inr u, w') \<Longrightarrow>
      wr_is_connected (picoev_stream_writer k) w' \<and> pw_wire w' = pw_wire w @ format_chunk d"
    using e by (simp add: fd_effect_def picoev_stream_writer_def)
  show "wr_write_string (picoev_stream_writer k) d w = (Inl e, w') \<Longrightarrow>
      \<not> wr_is_connected (picoev_stream_writer k) w' \<and> (\<exists>j. pw_wire w' = pw_wire w @ take j (format_chunk d))"
    using e by (simp add: fd_effect_def picoev_stream_writer_def)
  have "fd_effect format_final_chunk w (write_to_fd k format_final_chunk w)"
    using c by (simp add: write_to_fd_effect picoev_stream_writer_def)
  then have "\<exists>j. pw_wire (snd (write_to_fd k format_final_chunk w)) = pw_wire w @ take j format_final_chunk"
    by (auto simp: fd_effect_def split: if_splits prod.splits intro: exI [of _ "length format_final_chunk"])
  then show "\<exists>j. pw_wire (snd (wr_close (picoev_stream_writer k) w)) = pw_wire w @ take j format_final_chunk"
    using c by (simp add: picoev_stream_writer_def picoev_close_def format_final_chunk_def)
qed (simp_all add: picoev_stream_writer_def picoev_write_def picoev_write_string_def picoev_flush_def picoev_close_def)

interpretation usockets: writer_contract "usockets_stream_writer lib" "\<lambda>w. us_handed (uw_socket w)" for lib
  by unfold_locales
    (auto simp: usockets_stream_writer_def usockets_write_def usockets_write_string_def usockets_flush_def usockets_writer_close_def uw_put_def
      format_chunk_def format_chunk_size_def format_final_chunk_def split: if_splits intro: exI [of _ "length (''0'' @ crlf2)"])

text \<open>A kernel that takes at least one byte of every non-empty write.\<close>

definition keeps_sending :: "kernel_send \<Rightarrow> bool" where
  "keeps_sending k \<longleftrightarrow> (\<forall>fd taken data. data \<noteq> [] \<longrightarrow> 0 < k fd taken data)"

lemma write_from_sends: "keeps_sending k \<Longrightarrow> fst (write_from k data n w) = Inr ()"
proof (induction k data n w rule: write_from.induct)
  case (1 k data n w)
  have "n < length data \<Longrightarrow> 0 < sys_send k (pw_fd w) (pw_wire w) (drop n data)"
  proof -
    assume "n < length data"
    then have d: "drop n data \<noteq> []" by simp
    with "1.prems" have "0 < k (pw_fd w) (pw_wire w) (drop n data)" unfolding keeps_sending_def by blast
    with d show ?thesis by (simp add: sys_send_def Let_def)
  qed
  with 1 show ?case by (subst write_from.simps) (auto simp: Let_def)
qed

lemma fst_andthen: "fst (f w) = Inr () \<Longrightarrow> (\<And>w1. fst (g w1) = Inr ()) \<Longrightarrow> fst (andthen f g w) = Inr ()"
  by (auto simp: andthen_def split: prod.splits sum.splits)

lemma write_to_fd_sends: "keeps_sending k \<Longrightarrow> fst (write_to_fd k data w) = Inr ()"
  by (simp add: write_to_fd_def write_from_sends)

lemma picoev_never_fails: "keeps_sending k \<Longrightarrow> never_fails (picoev_stream_writer k) pw_wire"
proof -
  assume k: "keeps_sending k"
  have "pw_wire (snd (write_to_fd k d w)) = pw_wire w @ d" if "pw_connected w" for w d
    using write_to_fd_effect [OF that, of d k] write_to_fd_sends [OF k, of d w] by (auto simp: fd_effect_def split: prod.splits)
  with k show ?thesis
    by (auto simp: never_fails_def picoev_stream_writer_def picoev_write_string_def picoev_close_def write_to_fd_sends fst_andthen
        format_final_chunk_def)
qed

lemma usockets_never_fails: "never_fails (usockets_stream_writer lib) (\<lambda>w. us_handed (uw_socket w))"
  by (auto simp: never_fails_def usockets_stream_writer_def usockets_write_string_def usockets_writer_close_def uw_put_def format_final_chunk_def)

end
