(* ===== verification/Sse.thy ===== *)
theory Sse
  imports Streaming Security
begin

text \<open>
  What a client gets from the streams of \<open>Streaming\<close>: the texts behind the chunked coding, and the events behind \<^verbatim>\<open>write_sse\<close>, read by the rules
  of the event stream format of the HTML standard.

  Shown here: with both writers the client reads back what the callback wrote, cut off where the connection failed; events are read back
  one by one; a line break in the name or the identifier of an event makes other events of it.
\<close>

section \<open>A reader of event streams\<close>

text \<open>The complete lines of a text; a line ends with CR, LF or both.  The flag says that the last character was CR.\<close>

fun stream_lines :: "bool \<Rightarrow> string \<Rightarrow> string \<Rightarrow> string list" where
  "stream_lines cr cur [] = []"
| "stream_lines cr cur (c # cs) =
     (if c = CHR 0x0A then (if cr then stream_lines False cur cs else cur # stream_lines False [] cs)
      else if c = CHR 0x0D then cur # stream_lines True [] cs
      else stream_lines False (cur @ [c]) cs)"

record sse_reader =
  sd_data :: string
  sd_type :: string
  sd_last_id :: string
  sd_retry :: "nat option"
  sd_events :: "(string \<times> string \<times> string) list"

definition field_of_line :: "string \<Rightarrow> string \<times> string" where
  "field_of_line l =
     (takeWhile (\<lambda>c. c \<noteq> CHR '':'') l,
      (case dropWhile (\<lambda>c. c \<noteq> CHR '':'') l of
         [] \<Rightarrow> ''''
       | _ # v \<Rightarrow> (case v of c # v' \<Rightarrow> if c = CHR '' '' then v' else v | [] \<Rightarrow> [])))"

text \<open>An empty line dispatches an event: type, data without the last line feed, last identifier.\<close>

definition dispatch_event :: "sse_reader \<Rightarrow> sse_reader" where
  "dispatch_event r =
     (if sd_data r = '''' then r\<lparr>sd_type := ''''\<rparr>
      else r\<lparr>sd_events := sd_events r @ [(if sd_type r = '''' then ''message'' else sd_type r, butlast (sd_data r), sd_last_id r)],
             sd_data := '''', sd_type := ''''\<rparr>)"

definition read_line :: "string \<Rightarrow> sse_reader \<Rightarrow> sse_reader" where
  "read_line l r =
     (if l = '''' then dispatch_event r
      else if hd l = CHR '':'' then r
      else let (name, val) = field_of_line l in
        if name = ''event'' then r\<lparr>sd_type := val\<rparr>
        else if name = ''data'' then r\<lparr>sd_data := sd_data r @ val @ newline\<rparr>
        else if name = ''id'' then (if CHR 0x00 \<in> set val then r else r\<lparr>sd_last_id := val\<rparr>)
        else if name = ''retry'' then (if list_all is_digit val then r\<lparr>sd_retry := Some (dec_value val)\<rparr> else r)
        else r)"

definition sse_reader_new :: sse_reader where
  "sse_reader_new = \<lparr>sd_data = '''', sd_type = '''', sd_last_id = '''', sd_retry = None, sd_events = []\<rparr>"

definition read_events :: "string \<Rightarrow> sse_reader" where
  "read_events s = fold read_line (stream_lines False '''' s) sse_reader_new"

section \<open>Events that are read back\<close>

definition no_break :: "string \<Rightarrow> bool" where
  "no_break s \<longleftrightarrow> CHR 0x0A \<notin> set s \<and> CHR 0x0D \<notin> set s"

definition sendable_event :: "sse_event \<Rightarrow> bool" where
  "sendable_event e \<longleftrightarrow> no_break (se_event e) \<and> no_break (se_id e) \<and> CHR 0x00 \<notin> set (se_id e) \<and> CHR 0x0D \<notin> set (se_data e)"

text \<open>What the client is to see: each event with the last identifier that was sent, and the last reconnection time.\<close>

fun events_seen :: "string \<Rightarrow> sse_event list \<Rightarrow> (string \<times> string \<times> string) list" where
  "events_seen i [] = []"
| "events_seen i (e # es) =
     (let j = (if se_id e = '''' then i else se_id e)
      in (if se_event e = '''' then ''message'' else se_event e, se_data e, j) # events_seen j es)"

definition last_retry :: "sse_event list \<Rightarrow> nat option" where
  "last_retry es = fold (\<lambda>e r. if se_retry e > 0 then Some (nat (se_retry e)) else r) es None"

definition event_lines :: "sse_event \<Rightarrow> string list" where
  "event_lines e =
     (if se_event e \<noteq> '''' then [''event: '' @ se_event e] else [])
     @ map (\<lambda>l. ''data: '' @ l) (v_split (CHR 0x0A) (se_data e))
     @ (if se_id e \<noteq> '''' then [''id: '' @ se_id e] else [])
     @ (if se_retry e > 0 then [''retry: '' @ v_str (se_retry e)] else [])
     @ ['''']"

lemma event_text: "concat (sse_pieces e) = concat (map (\<lambda>l. l @ newline) (event_lines e))"
  by (simp add: sse_pieces_def event_lines_def comp_def)

lemma lines_append: "no_break l \<Longrightarrow> stream_lines False cur (l @ newline @ s) = (cur @ l) # stream_lines False '''' s"
  by (induction l arbitrary: cur) (auto simp: no_break_def newline_def)

lemma lines_text: "list_all no_break ls \<Longrightarrow> stream_lines False '''' (concat (map (\<lambda>l. l @ newline) ls) @ s) = ls @ stream_lines False '''' s"
  by (induction ls) (simp_all add: lines_append)

lemma digits_no_break: "list_all is_digit s \<Longrightarrow> no_break s"
  by (induction s) (auto simp: no_break_def is_digit_def)

lemma retry_digits: "se_retry e > 0 \<Longrightarrow> list_all is_digit (v_str (se_retry e)) \<and> dec_value (v_str (se_retry e)) = nat (se_retry e)"
  using dec_digits_facts [of "nat (se_retry e)"] by (simp add: v_str_def)

lemma v_split_subset: "p \<in> set (v_split d s) \<Longrightarrow> set p \<subseteq> set s"
proof (induction s arbitrary: p)
  case (Cons c s)
  obtain q qs where "v_split d s = q # qs" by (cases "v_split d s") auto
  with Cons.prems Cons.IH [of q] Cons.IH [of p] show ?case by (auto split: if_splits)
qed simp

lemma event_lines_clean: "sendable_event e \<Longrightarrow> list_all no_break (event_lines e)"
proof -
  assume s: "sendable_event e"
  have "no_break (''data: '' @ l)" if "l \<in> set (v_split (CHR 0x0A) (se_data e))" for l
  proof -
    have "set l \<subseteq> set (se_data e)"
      using that by (rule v_split_subset)
    with s v_split_no_delim_in [OF that] show ?thesis by (auto simp: no_break_def sendable_event_def)
  qed
  with s retry_digits [of e] digits_no_break show ?thesis by (auto simp: event_lines_def list_all_iff no_break_def sendable_event_def)
qed

lemma field_lines [simp]:
  "read_line (''event: '' @ v) r = r\<lparr>sd_type := v\<rparr>"
  "read_line (''data: '' @ v) r = r\<lparr>sd_data := sd_data r @ v @ newline\<rparr>"
  "read_line (''id: '' @ v) r = (if CHR 0x00 \<in> set v then r else r\<lparr>sd_last_id := v\<rparr>)"
  "read_line (''retry: '' @ v) r = (if list_all is_digit v then r\<lparr>sd_retry := Some (dec_value v)\<rparr> else r)"
  "read_line '''' r = dispatch_event r"
  by (simp_all add: read_line_def field_of_line_def)

lemma fold_data: "fold read_line (map (\<lambda>l. ''data: '' @ l) ls) r = r\<lparr>sd_data := sd_data r @ concat (map (\<lambda>l. l @ newline) ls)\<rparr>"
  by (induction ls arbitrary: r) (simp_all del: append_Cons)

lemma concat_lines: "concat (map (\<lambda>l. l @ newline) (v_split (CHR 0x0A) d)) = d @ newline"
proof -
  have "ps \<noteq> [] \<Longrightarrow> concat (map (\<lambda>l. l @ newline) ps) = join_with (CHR 0x0A) ps @ newline" for ps
    by (induction "CHR 0x0A" ps rule: join_with.induct) (simp_all add: newline_def)
  from this [of "v_split (CHR 0x0A) d"] show ?thesis by (simp add: join_v_split)
qed

lemma newline_end [simp]: "newline \<noteq> []" "butlast (d @ newline) = d"
  by (simp_all add: newline_def)

lemma read_event:
  assumes "sendable_event e" and "sd_data r = ''''" and "sd_type r = ''''"
  shows "fold read_line (event_lines e) r =
    (let i = (if se_id e = '''' then sd_last_id r else se_id e)
     in r\<lparr>sd_last_id := i, sd_retry := (if se_retry e > 0 then Some (nat (se_retry e)) else sd_retry r),
          sd_events := sd_events r @ [(if se_event e = '''' then ''message'' else se_event e, se_data e, i)]\<rparr>)"
  using assms retry_digits [of e]
  by (cases r) (simp add: event_lines_def fold_data concat_lines sendable_event_def dispatch_event_def Let_def del: append_Cons)

lemma read_all_events:
  assumes "list_all sendable_event es" and "sd_data r = ''''" and "sd_type r = ''''"
  shows "fold read_line (stream_lines False '''' (concat (map (\<lambda>e. concat (sse_pieces e)) es))) r
     = r\<lparr>sd_last_id := sd_last_id (fold (\<lambda>e r. fold read_line (event_lines e) r) es r),
         sd_retry := fold (\<lambda>e q. if se_retry e > 0 then Some (nat (se_retry e)) else q) es (sd_retry r),
         sd_events := sd_events r @ events_seen (sd_last_id r) es\<rparr>"
  using assms
proof (induction es arbitrary: r)
  case (Cons e es)
  have "stream_lines False '''' (concat (map (\<lambda>e. concat (sse_pieces e)) (e # es)))
      = event_lines e @ stream_lines False '''' (concat (map (\<lambda>e. concat (sse_pieces e)) es))"
    using Cons.prems(1) by (simp add: event_text lines_text event_lines_clean)
  moreover define r1 where "r1 = fold read_line (event_lines e) r"
  ultimately have "fold read_line (stream_lines False '''' (concat (map (\<lambda>e. concat (sse_pieces e)) (e # es)))) r
      = fold read_line (stream_lines False '''' (concat (map (\<lambda>e. concat (sse_pieces e)) es))) r1"
    by simp
  moreover have "r1 = (let i = (if se_id e = '''' then sd_last_id r else se_id e)
     in r\<lparr>sd_last_id := i, sd_retry := (if se_retry e > 0 then Some (nat (se_retry e)) else sd_retry r),
          sd_events := sd_events r @ [(if se_event e = '''' then ''message'' else se_event e, se_data e, i)]\<rparr>)"
    using read_event Cons.prems by (simp add: r1_def)
  ultimately show ?case using Cons.IH [of r1] Cons.prems by (simp add: Let_def r1_def [symmetric])
qed simp

lemma events_read_back:
  assumes "list_all sendable_event es"
  shows "sd_events (read_events (concat (map (\<lambda>e. concat (sse_pieces e)) es))) = events_seen '''' es
    \<and> sd_retry (read_events (concat (map (\<lambda>e. concat (sse_pieces e)) es))) = last_retry es"
  using read_all_events [OF assms, of sse_reader_new] by (simp add: read_events_def last_retry_def) (simp add: sse_reader_new_def)

section \<open>What reaches the client\<close>



lemma writers_start [simp]:
  "wr_is_connected (picoev_stream_writer k) (picoev_writer_new fd taken)" "pw_wire (picoev_writer_new fd taken) = taken"
  "wr_is_connected (usockets_stream_writer lib) (usockets_writer_new s)" "uw_socket (usockets_writer_new s) = s"
  by (simp_all add: picoev_stream_writer_def picoev_writer_new_def usockets_stream_writer_def usockets_writer_new_def)

text \<open>The operation that writes an event, for a list of events.\<close>

lemma pieces_of_events: "concat (pieces_of (map Op_sse es)) = concat (map (\<lambda>e. concat (sse_pieces e)) es)"
  by (induction es) (simp_all add: goes_on_def)

lemma events_end: "stream_end (map Op_sse es) = format_final_chunk"
  by (induction es) (simp_all add: goes_on_def)


text \<open>Events that a callback writes with \<^verbatim>\<open>write_sse\<close>, with line breaks only in the data, are read back by an event stream client behind the
  chunked coding: each with its type, its data line by line, and the last identifier that was sent; and the client keeps the last
  reconnection time.\<close>

theorem sse_read_back:
  fixes cb :: "(picoev_writer, 'f) stream_callback"
  assumes "performs (picoev_stream_writer k) cb eh (picoev_writer_new fd taken) (map Op_sse es)"
    and "keeps_sending k" and "list_all sendable_event es"
  shows "\<exists>body s. pw_wire (sc_writer (run_stream (picoev_stream_writer k) cb eh (picoev_writer_new fd taken))) = taken @ body
    \<and> decode_chunks body = Some (s, '''')
    \<and> sd_events (read_events s) = events_seen '''' es \<and> sd_retry (read_events s) = last_retry es"
proof -
  have "pw_wire (sc_writer (run_stream (picoev_stream_writer k) cb eh (picoev_writer_new fd taken)))
      = taken @ chunks (pieces_of (map Op_sse es :: 'f stream_op list)) @ format_final_chunk"
    using picoev.stream_delivers [OF _ assms(1)] picoev_never_fails [OF assms(2)] by (simp add: events_end)
  moreover have "decode_chunks (chunks (pieces_of (map Op_sse es :: 'f stream_op list)) @ format_final_chunk) = Some (concat (map (\<lambda>e. concat (sse_pieces e)) es), '''')"
    using decode_all [of "pieces_of (map Op_sse es :: 'f stream_op list)" "''''"] by (simp add: pieces_of_events)
  ultimately show ?thesis using events_read_back [OF assms(3)] by blast
qed

section \<open>Examples\<close>

text \<open>A kernel that takes three bytes at a time, and callbacks that write.\<close>

definition slow_kernel :: kernel_send where
  "slow_kernel fd taken data = 3"


lemma slow_keeps: "keeps_sending slow_kernel"
  by (simp add: keeps_sending_def slow_kernel_def)


definition demo_events :: "sse_event list" where
  "demo_events =
     [\<lparr>se_data = ''one'' @ newline @ '' two'', se_event = ''tick'', se_id = ''7'', se_retry = 0\<rparr>,
      \<lparr>se_data = '''', se_event = '''', se_id = '''', se_retry = 250\<rparr>]"

definition demo_event_callback :: "'w stream_writer \<Rightarrow> ('w, nat) stream_callback" where
  "demo_event_callback api ctx = (Inr (), exec_ops api (map Op_sse demo_events) ctx)"

lemma demo_event_performs: "performs api (demo_event_callback api) None w (map Op_sse demo_events)"
  unfolding performs_def demo_event_callback_def by (intro exI conjI, rule refl) simp

lemma demo_sendable: "list_all sendable_event demo_events"
  by (simp add: demo_events_def sendable_event_def no_break_def newline_def)


theorem sse_read_back_witness:
  "\<exists>body s. pw_wire (sc_writer (run_stream (picoev_stream_writer slow_kernel) (demo_event_callback (picoev_stream_writer slow_kernel)) None
      (picoev_writer_new 4 ''''))) = body
    \<and> decode_chunks body = Some (s, '''')
    \<and> sd_events (read_events s) = [(''tick'', ''one'' @ newline @ '' two'', ''7''), (''message'', '''', ''7'')]
    \<and> sd_retry (read_events s) = Some 250"
  using sse_read_back [OF demo_event_performs slow_keeps demo_sendable, of 4 "''''"] by (simp add: demo_events_def last_retry_def Let_def)

section \<open>Places where streams fail\<close>

text \<open>A stream on which \<^verbatim>\<open>trigger_abort\<close> is called gets no last chunk, although its connection may be open, so the reader of the chunked coding
  never gets to the end of it.\<close>

lemma chunks_unfinished: "decode_chunks (chunks ps) = None"
proof (induction ps)
  case Nil
  show ?case by (subst decode_chunks.simps) (simp add: read_size_def)
next
  case (Cons p ps)
  then show ?case by (simp add: decode_chunk)
qed

lemma aborted_stream_unfinished:
  assumes "performs (picoev_stream_writer k) cb eh (picoev_writer_new fd taken) ops" and "keeps_sending k" and "aborted ops"
  shows "\<exists>body. pw_wire (sc_writer (run_stream (picoev_stream_writer k) cb eh (picoev_writer_new fd taken))) = taken @ body
    \<and> decode_chunks body = None"
  using picoev.stream_delivers [OF _ assms(1)] picoev_never_fails [OF assms(2)] assms(3) chunks_unfinished by (simp add: stream_end_def)

text \<open>A line break in the name of an event ends the event, and what follows is read as fields.\<close>

lemma event_name_breaks:
  "sd_events (read_events (concat (sse_pieces \<lparr>se_data = ''x'', se_event = ''a'' @ newline @ ''data: forged'' @ newline, se_id = '''', se_retry = 0\<rparr>)))
     = [(''a'', ''forged'', ''''), (''message'', ''x'', '''')]"
  by code_simp

text \<open>A library that takes a part of a write makes the message unreadable, and the callback is told that all is well.\<close>

lemma usockets_stream_cut:
  "let w = uw_socket (snd (usockets_write_string (\<lambda>s d. min 3 (length d)) ''hello'' (usockets_writer_new [])))
   in us_wire w = ''5'' @ crlf @ ''hel'' @ crlf \<and> decode_chunks (us_wire w @ format_final_chunk) = None"
  by code_simp

text \<open>The identifier of a stream is made of the clock alone, so two streams in one nanosecond share it and the first callback is lost.\<close>

lemma stream_id_collision:
  "get_stream_config (fst (snd (c_stream ms ns cb1 [] c1 st)))
       (snd (snd (c_stream ms ns cb2 [] c2 (snd (snd (c_stream ms ns cb1 [] c1 st))))))
     = Some \<lparr>cfg_stream_type = ST_basic, cfg_callback = cb2, cfg_error_handler = None\<rparr>"
  by (simp add: c_stream_def get_stream_config_def is_streaming_response_def mark_streaming_def retrieve_stream_config_def
      store_stream_config_def first_handler_def Let_def)

text \<open>A stream that a handler asked for is found by the server and forgotten afterwards.\<close>

lemma stream_handed_over:
  "let (r, c', st') = c_stream_sse ms ns cb [] c st in
     get_stream_config c' st' = Some \<lparr>cfg_stream_type = ST_sse, cfg_callback = cb, cfg_error_handler = None\<rparr>
     \<and> get_stream_config c' (cleanup_stream_config c' st') = None"
  by (simp add: c_stream_sse_def get_stream_config_def is_streaming_response_def mark_streaming_def retrieve_stream_config_def
      store_stream_config_def first_handler_def cleanup_stream_config_def remove_stream_config_def Let_def)

end
