(* ===== verification/Usockets_Request.thy ===== *)
theory Usockets_Request
  imports App Multipart Cookie
begin

text \<open>
  How the uSockets server reads a request (\<^verbatim>\<open>usockets_server.v\<close>): the scan of the request line, the one-pass query parser on the
  raw text, the test for a persistent connection, and the fields of an upgrade request.  Indices are those of the source; a loop is a
  recursion or a search over the range of its index.

  Shown here: a request that is written in the usual way is read back with its method, path, query and body; the query parser on the raw text
  equals the one of \<^verbatim>\<open>app.v\<close> on the piece between the indices.
\<close>

section \<open>Scanning\<close>

definition raw_slice :: "string \<Rightarrow> nat \<Rightarrow> nat \<Rightarrow> string" where
  "raw_slice s a b = take (b - a) (drop a s)"

definition is_crlf_at :: "string \<Rightarrow> nat \<Rightarrow> bool" where
  "is_crlf_at raw i \<longleftrightarrow> raw ! i = CHR 0x0D \<and> raw ! (i + 1) = CHR 0x0A"

text \<open>\<^verbatim>\<open>for i < stop && p(raw[i]) { i++ }\<close>\<close>

function skip_while :: "(char \<Rightarrow> bool) \<Rightarrow> string \<Rightarrow> nat \<Rightarrow> nat \<Rightarrow> nat" where
  "skip_while p raw i stop = (if i < stop \<and> p (raw ! i) then skip_while p raw (i + 1) stop else i)"
  by pat_completeness auto
termination
  by (relation "measure (\<lambda>(p, raw, i, stop). stop - i)") auto

declare skip_while.simps [simp del]

text \<open>The end of the path and the index behind its first question mark, or -1.\<close>

function scan_path :: "string \<Rightarrow> nat \<Rightarrow> nat \<Rightarrow> int \<Rightarrow> nat \<times> int" where
  "scan_path raw path_end line_end query_start =
     (if path_end < line_end \<and> raw ! path_end \<noteq> CHR '' '' then
        scan_path raw (path_end + 1) line_end
          (if raw ! path_end = CHR ''?'' \<and> query_start = -1 then int path_end + 1 else query_start)
      else (path_end, query_start))"
  by pat_completeness auto
termination
  by (relation "measure (\<lambda>(raw, i, stop, q). stop - i)") auto

declare scan_path.simps [simp del]

section \<open>The query\<close>

definition query_commit_raw :: "string \<Rightarrow> nat \<Rightarrow> nat \<Rightarrow> int \<Rightarrow> int \<Rightarrow> (string, string) vmap \<Rightarrow> (string, string) vmap" where
  "query_commit_raw raw i key_start key_end value_start m =
     (if key_end > int key_start \<and> value_start > 0 then
        vset (raw_slice raw key_start (nat key_end)) (if value_start < int i then raw_slice raw (nat value_start) i else '''') m
      else if key_end = -1 \<and> i > key_start then vset (raw_slice raw key_start i) '''' m
      else m)"

text \<open>The loop from index \<open>i\<close> on; \<open>n\<close> iterations are left.\<close>

fun query_loop_raw :: "string \<Rightarrow> nat \<Rightarrow> nat \<Rightarrow> nat \<Rightarrow> nat \<Rightarrow> int \<Rightarrow> int \<Rightarrow> (string, string) vmap \<Rightarrow> (string, string) vmap" where
  "query_loop_raw raw stop 0 i key_start key_end value_start m = m"
| "query_loop_raw raw stop (Suc n) i key_start key_end value_start m =
     (let ch = (if i < stop then raw ! i else CHR ''&'') in
      if ch = CHR ''='' \<and> key_end = -1 then query_loop_raw raw stop n (i + 1) key_start (int i) (int i + 1) m
      else if ch = CHR ''&'' then
        query_loop_raw raw stop n (i + 1) (i + 1) (-1) (-1) (query_commit_raw raw i key_start key_end value_start m)
      else query_loop_raw raw stop n (i + 1) key_start key_end value_start m)"

definition parse_query_string_fast :: "string \<Rightarrow> nat \<Rightarrow> nat \<Rightarrow> (string, string) vmap" where
  "parse_query_string_fast raw start stop = query_loop_raw raw stop (stop + 1 - start) start start (-1) (-1) []"

section \<open>Persistent connections\<close>

text \<open>The comparison of letters in both cases, as the source spells it out.\<close>

definition matches_at :: "string \<Rightarrow> nat \<Rightarrow> string \<Rightarrow> bool" where
  "matches_at raw i w \<longleftrightarrow> list_all (\<lambda>j. raw ! (i + j) = w ! j \<or> raw ! (i + j) = char_to_upper (w ! j)) [0..<length w]"

definition contains_keep_alive_token :: "string \<Rightarrow> nat \<Rightarrow> nat \<Rightarrow> bool" where
  "contains_keep_alive_token raw start stop = list_ex (\<lambda>i. matches_at raw i ''keep-alive'') [start..<stop + 1 - 10]"

function keep_alive_from :: "string \<Rightarrow> nat \<Rightarrow> nat \<Rightarrow> bool" where
  "keep_alive_from raw i n =
     (if i + 12 < n then
        let crlf_here = (raw ! i = CHR 0x0D \<and> i + 1 < n \<and> raw ! (i + 1) = CHR 0x0A);
            j = (if crlf_here then i + 2 else i)
        in if crlf_here \<and> j + 1 < n \<and> is_crlf_at raw j then False
           else if j + 11 < n \<and> matches_at raw j ''connection:'' then
             (let value_start = skip_while (\<lambda>c. c = CHR '' '') raw (j + 11) n;
                  value_end = skip_while (\<lambda>c. c \<noteq> CHR 0x0D \<and> c \<noteq> CHR 0x0A) raw value_start n
              in contains_keep_alive_token raw value_start value_end)
           else keep_alive_from raw (j + 1) n
      else False)"
  by pat_completeness auto
termination
  by (relation "measure (\<lambda>(raw, i, n). n - i)") auto

declare keep_alive_from.simps [simp del]

definition has_connection_keep_alive :: "string \<Rightarrow> nat \<Rightarrow> nat \<Rightarrow> bool" where
  "has_connection_keep_alive raw headers_start n = keep_alive_from raw headers_start n"

section \<open>The request\<close>

record us_request =
  ur_method :: string
  ur_path :: string
  ur_query :: "(string, string) vmap"
  ur_body :: string
  ur_http11 :: bool

definition no_request :: us_request where
  "no_request = \<lparr>ur_method = '''', ur_path = '''', ur_query = [], ur_body = '''', ur_http11 = True\<rparr>"

definition request_body :: "string \<Rightarrow> nat \<Rightarrow> string" where
  "request_body raw line_end =
     (case List.find (\<lambda>i. is_crlf_at raw i \<and> is_crlf_at raw (i + 2)) [line_end..<length raw - 3] of
        None \<Rightarrow> ''''
      | Some i \<Rightarrow> if i + 4 < length raw then drop (i + 4) raw else '''')"

definition parse_http_request_usockets :: "string \<Rightarrow> us_request" where
  "parse_http_request_usockets raw =
     (if length raw = 0 then no_request
      else case List.find (is_crlf_at raw) [0..<length raw - 1] of
        None \<Rightarrow> no_request
      | Some line_end \<Rightarrow>
        let method_end = skip_while (\<lambda>c. c \<noteq> CHR '' '') raw 0 line_end in
        if method_end = 0 \<or> method_end \<ge> line_end then no_request
        else
          let path_start = skip_while (\<lambda>c. c = CHR '' '') raw (method_end + 1) line_end;
              (path_end, query_start) = scan_path raw path_start line_end (-1);
              (path, query) =
                (if query_start > 0 then (raw_slice raw path_start (nat query_start - 1), parse_query_string_fast raw (nat query_start) path_end)
                 else (raw_slice raw path_start path_end, []));
              version_start = skip_while (\<lambda>c. c = CHR '' '') raw (path_end + 1) line_end;
              is_http11 = (if version_start + 7 < line_end then raw ! (version_start + 7) \<noteq> CHR ''0'' else True);
              keep = (if \<not> is_http11 then has_connection_keep_alive raw line_end (length raw) else is_http11)
          in \<lparr>ur_method = raw_slice raw 0 method_end, ur_path = path, ur_query = query, ur_body = request_body raw line_end, ur_http11 = keep\<rparr>)"

section \<open>Upgrade requests\<close>

definition is_usockets_ws_upgrade :: "string \<Rightarrow> bool" where
  "is_usockets_ws_upgrade raw_data =
     (let (has_upgrade, has_connection, has_ws_key) =
        fold (\<lambda>line (u, c, k).
            let lower_line = v_to_lower line in
            if v_starts_with lower_line ''upgrade:'' then (u \<or> v_contains_str lower_line ''websocket'', c, k)
            else if v_starts_with lower_line ''connection:'' then (u, c \<or> v_contains_str lower_line ''upgrade'', k)
            else if v_starts_with lower_line ''sec-websocket-key:'' then (u, c, True)
            else (u, c, k))
          (v_split_str crlf raw_data) (False, False, False)
      in has_upgrade \<and> has_connection \<and> has_ws_key)"

text \<open>The value behind the first colon of the first line that starts with a name.\<close>

fun raw_field :: "string \<Rightarrow> string list \<Rightarrow> string option" where
  "raw_field name [] = None"
| "raw_field name (line # lines) =
     (if v_starts_with (v_to_lower line) name \<and> length (v_split (CHR '':'') line) \<ge> 2
      then Some (trim_space (join_str '':'' (tl (v_split (CHR '':'') line))))
      else raw_field name lines)"

definition get_usockets_ws_key :: "string \<Rightarrow> string" where
  "get_usockets_ws_key raw_data = (case raw_field ''sec-websocket-key:'' (v_split_str crlf raw_data) of Some v \<Rightarrow> v | None \<Rightarrow> '''')"

definition get_usockets_ws_protocol :: "string \<Rightarrow> string" where
  "get_usockets_ws_protocol raw_data = (case raw_field ''sec-websocket-protocol:'' (v_split_str crlf raw_data) of Some v \<Rightarrow> v | None \<Rightarrow> '''')"

definition get_usockets_ws_version :: "string \<Rightarrow> string" where
  "get_usockets_ws_version raw_data = (case raw_field ''sec-websocket-version:'' (v_split_str crlf raw_data) of Some v \<Rightarrow> v | None \<Rightarrow> ''13'')"

section \<open>Contexts\<close>

definition parse_http_method_usockets :: "string \<Rightarrow> string" where
  "parse_http_method_usockets method =
     (let n = length method in
      if n = 0 then ''GET''
      else if method ! 0 = CHR ''G'' \<and> n = 3 then ''GET''
      else if method ! 0 = CHR ''P'' \<and> n = 4 \<and> method ! 1 = CHR ''O'' then ''POST''
      else if method ! 0 = CHR ''P'' \<and> n = 3 \<and> method ! 1 = CHR ''U'' then ''PUT''
      else if method ! 0 = CHR ''P'' \<and> n = 5 then ''PATCH''
      else if method ! 0 = CHR ''D'' \<and> n = 6 then ''DELETE''
      else if method ! 0 = CHR ''H'' \<and> n = 4 then ''HEAD''
      else if method ! 0 = CHR ''O'' \<and> n = 7 then ''OPTIONS''
      else ''GET'')"

definition create_usockets_context ::
  "string \<Rightarrow> string \<Rightarrow> (string, string) vmap \<Rightarrow> (string, string) vmap \<Rightarrow> string \<Rightarrow> http_context" where
  "create_usockets_context method path params query body =
     \<lparr>cx_req = \<lparr>hq_method = parse_http_method_usockets method, hq_url = path, hq_header = [], hq_data = body\<rparr>,
      cx_params = params, cx_query = query, cx_url = path, cx_path = path, cx_status_code = 200, cx_headers = [], cx_body = body,
      cx_store = []\<rparr>"

text \<open>The fields from the line behind the request line to the first empty line.\<close>

fun header_fields :: "bool \<Rightarrow> string list \<Rightarrow> http_header \<Rightarrow> http_header" where
  "header_fields in_headers [] h = h"
| "header_fields in_headers (line # lines) h =
     (if \<not> in_headers then header_fields (v_contains_str line '' HTTP/'') lines h
      else if length line = 0 then h
      else case index_of (CHR '':'') line of
        None \<Rightarrow> header_fields in_headers lines h
      | Some colon_idx \<Rightarrow>
        if colon_idx > 0
        then header_fields in_headers lines (add_custom (trim_space (take colon_idx line)) (trim_space (drop (colon_idx + 1) line)) h)
        else header_fields in_headers lines h)"

definition create_usockets_context_with_headers ::
  "string \<Rightarrow> string \<Rightarrow> string \<Rightarrow> (string, string) vmap \<Rightarrow> (string, string) vmap \<Rightarrow> string \<Rightarrow> http_context" where
  "create_usockets_context_with_headers raw_data method path params query body =
     \<lparr>cx_req = \<lparr>hq_method = parse_http_method_usockets method, hq_url = path,
         hq_header = header_fields False (v_split_str crlf raw_data) [], hq_data = body\<rparr>,
      cx_params = params, cx_query = query, cx_url = path, cx_path = path, cx_status_code = 200, cx_headers = [], cx_body = body,
      cx_store = []\<rparr>"

section \<open>Facts on scanning\<close>

lemma skip_while_spec:
  assumes "i \<le> j" and "j \<le> stop" and "\<And>k. i \<le> k \<Longrightarrow> k < j \<Longrightarrow> p (raw ! k)" and "j = stop \<or> \<not> p (raw ! j)"
  shows "skip_while p raw i stop = j"
  using assms
proof (induction "j - i" arbitrary: i)
  case 0
  then show ?case by (subst skip_while.simps) auto
next
  case (Suc n)
  then have "skip_while p raw (i + 1) stop = j" by simp
  then show ?case using Suc by (subst skip_while.simps) auto
qed

lemma scan_path_spec:
  assumes "i \<le> j" and "j \<le> stop" and "\<And>k. i \<le> k \<Longrightarrow> k < j \<Longrightarrow> raw ! k \<noteq> CHR '' ''" and "j = stop \<or> raw ! j = CHR '' ''"
  shows "fst (scan_path raw i stop q) = j
    \<and> (q \<noteq> -1 \<longrightarrow> snd (scan_path raw i stop q) = q)
    \<and> (\<forall>m. i \<le> m \<and> m < j \<and> raw ! m = CHR ''?'' \<and> (\<forall>k. i \<le> k \<and> k < m \<longrightarrow> raw ! k \<noteq> CHR ''?'') \<longrightarrow>
          q = -1 \<longrightarrow> snd (scan_path raw i stop q) = int m + 1)
    \<and> ((\<forall>k. i \<le> k \<and> k < j \<longrightarrow> raw ! k \<noteq> CHR ''?'') \<longrightarrow> snd (scan_path raw i stop q) = q)"
  using assms
proof (induction "j - i" arbitrary: i q)
  case 0
  then show ?case by (subst (1 2 3 4) scan_path.simps) auto
next
  case (Suc n)
  define q1 where "q1 = (if raw ! i = CHR ''?'' \<and> q = -1 then int i + 1 else q)"
  have step: "scan_path raw i stop q = scan_path raw (i + 1) stop q1"
    using Suc by (subst scan_path.simps) (auto simp: q1_def)
  from Suc.hyps(1) [of "i + 1" q1] Suc.prems Suc.hyps(2) have ih:
    "fst (scan_path raw (i + 1) stop q1) = j"
    "q1 \<noteq> -1 \<Longrightarrow> snd (scan_path raw (i + 1) stop q1) = q1"
    "\<And>m. i + 1 \<le> m \<Longrightarrow> m < j \<Longrightarrow> raw ! m = CHR ''?'' \<Longrightarrow> (\<And>k. i + 1 \<le> k \<Longrightarrow> k < m \<Longrightarrow> raw ! k \<noteq> CHR ''?'') \<Longrightarrow>
       q1 = -1 \<Longrightarrow> snd (scan_path raw (i + 1) stop q1) = int m + 1"
    "(\<And>k. i + 1 \<le> k \<Longrightarrow> k < j \<Longrightarrow> raw ! k \<noteq> CHR ''?'') \<Longrightarrow> snd (scan_path raw (i + 1) stop q1) = q1"
    by auto
  show ?case unfolding step
  proof (intro conjI impI allI)
    show "fst (scan_path raw (i + 1) stop q1) = j" by (rule ih(1))
    show "snd (scan_path raw (i + 1) stop q1) = q" if "q \<noteq> -1" using ih(2) that by (simp add: q1_def)
    show "snd (scan_path raw (i + 1) stop q1) = int m + 1"
      if m: "i \<le> m \<and> m < j \<and> raw ! m = CHR ''?'' \<and> (\<forall>k. i \<le> k \<and> k < m \<longrightarrow> raw ! k \<noteq> CHR ''?'')" and q: "q = -1" for m
    proof (cases "m = i")
      case True
      then show ?thesis using ih(2) m q by (simp add: q1_def)
    next
      case False
      then show ?thesis using ih(3) [of m] m q by (auto simp: q1_def)
    qed
    show "snd (scan_path raw (i + 1) stop q1) = q" if "\<forall>k. i \<le> k \<and> k < j \<longrightarrow> raw ! k \<noteq> CHR ''?''"
      using ih(4) that Suc.hyps(2) by (auto simp: q1_def)
  qed
qed

lemma find_upt: "a \<le> j \<Longrightarrow> j < n \<Longrightarrow> P j \<Longrightarrow> (\<And>i. a \<le> i \<Longrightarrow> i < j \<Longrightarrow> \<not> P i) \<Longrightarrow> List.find P [a..<n] = Some j"
proof (induction "j - a" arbitrary: a)
  case 0
  then show ?case by (simp add: upt_conv_Cons)
next
  case (Suc k)
  then have "\<not> P a" "a < n" by auto
  with Suc show ?case by (simp add: upt_conv_Cons)
qed

section \<open>The query parser on the raw text\<close>

definition shifted :: "nat \<Rightarrow> int \<Rightarrow> int" where
  "shifted start k = (if k = -1 then -1 else k + int start)"

lemma slice_of_slice: "b \<le> stop - start \<Longrightarrow> take (b - a) (drop a (raw_slice raw start stop)) = raw_slice raw (start + a) (start + b)"
  by (simp add: raw_slice_def drop_take min_def ac_simps)

lemma commit_raw:
  assumes s: "s = raw_slice raw start stop" and b: "i \<le> stop - start" "-1 \<le> ke" "ke \<le> int i" "vs \<le> int i" "vs = -1 \<or> vs > 0"
  shows "query_commit_raw raw (start + i) (start + ks) (shifted start ke) (shifted start vs) m = query_commit s i ks ke vs m"
proof -
  have k: "raw_slice raw (start + ks) (nat (shifted start ke)) = take (nat ke - ks) (drop ks s)" if "ke > int ks"
    using slice_of_slice [of "nat ke" stop start ks raw] that b by (simp add: s shifted_def nat_add_distrib ac_simps)
  have v: "raw_slice raw (nat (shifted start vs)) (start + i) = take (i - nat vs) (drop (nat vs) s)" if "vs > 0"
    using slice_of_slice [of i stop start "nat vs" raw] that b by (simp add: s shifted_def nat_add_distrib ac_simps)
  have a: "raw_slice raw (start + ks) (start + i) = take (i - ks) (drop ks s)"
    using slice_of_slice [of i stop start ks raw] b by (simp add: s)
  have g: "shifted start ke > int (start + ks) \<longleftrightarrow> ke > int ks" "shifted start vs > 0 \<longleftrightarrow> vs > 0"
    "shifted start vs < int (start + i) \<longleftrightarrow> vs < int i" "shifted start ke = -1 \<longleftrightarrow> ke = -1"
    using b by (auto simp: shifted_def)
  show ?thesis unfolding query_commit_raw_def query_commit_def g using k v a by (simp cong: if_cong)
qed

lemma loop_raw:
  assumes s: "s = raw_slice raw start stop" and l: "start \<le> stop" "stop \<le> length raw"
  shows "n + i = length s + 1 \<Longrightarrow> -1 \<le> ke \<Longrightarrow> ke \<le> int i \<Longrightarrow> vs \<le> int i \<Longrightarrow> vs = -1 \<or> vs > 0 \<Longrightarrow>
    query_loop_raw raw stop n (start + i) (start + ks) (shifted start ke) (shifted start vs) m = query_loop s n i ks ke vs m"
proof (induction n arbitrary: i ks ke vs m)
  case (Suc n)
  have len: "length s = stop - start" using l by (simp add: s raw_slice_def)
  have i: "i \<le> stop - start" using Suc.prems(1) len by simp
  have ch: "(if start + i < stop then raw ! (start + i) else CHR ''&'') = (if i < length s then s ! i else CHR ''&'')"
    using l len by (auto simp: s raw_slice_def)
  have ke: "shifted start ke = -1 \<longleftrightarrow> ke = -1" using Suc.prems(2) by (auto simp: shifted_def)
  note ih = Suc.IH [of "i + 1"]
  have e1: "query_loop_raw raw stop n (start + i + 1) (start + ks) (int (start + i)) (int (start + i) + 1) m
      = query_loop s n (i + 1) ks (int i) (int i + 1) m"
    using ih [of "int i" "int i + 1" ks m] Suc.prems by (simp add: shifted_def ac_simps)
  have e2: "query_loop_raw raw stop n (start + i + 1) (start + i + 1) (-1) (-1) m' = query_loop s n (i + 1) (i + 1) (-1) (-1) m'" for m'
    using ih [of "-1" "-1" "i + 1" m'] Suc.prems by (simp add: shifted_def ac_simps)
  have e3: "query_loop_raw raw stop n (start + i + 1) (start + ks) (shifted start ke) (shifted start vs) m = query_loop s n (i + 1) ks ke vs m"
    using ih [of ke vs ks m] Suc.prems by (simp add: ac_simps)
  note c = commit_raw [OF s i Suc.prems(2-5), of ks m]
  show ?case unfolding query_loop_raw.simps query_loop.simps Let_def ch ke c e1 e2 e3 ..
qed (simp add: query_loop.simps)

lemma query_raw:
  assumes "start \<le> stop" and "stop \<le> length raw"
  shows "parse_query_string_fast raw start stop = query_spec (raw_slice raw start stop)"
proof -
  let ?s = "raw_slice raw start stop"
  have len: "length ?s = stop - start" using assms by (simp add: raw_slice_def)
  have "parse_query_string_fast raw start stop = query_loop ?s (length ?s + 1) 0 0 (-1) (-1) []"
    using loop_raw [OF refl assms, of "length ?s + 1" 0 "-1" "-1" 0 "[]"] assms(1)
    by (simp add: parse_query_string_fast_def len shifted_def Suc_diff_le del: query_loop_raw.simps)
  also have "\<dots> = parse_query_string_app ?s" by (simp add: parse_query_string_app_def query_commit_def query_loop.simps)
  finally show ?thesis by (simp only: query_parser)
qed

section \<open>Requests that are read back\<close>

definition written_request :: "string \<Rightarrow> string \<Rightarrow> string option \<Rightarrow> string \<Rightarrow> string list \<Rightarrow> string \<Rightarrow> string" where
  "written_request method path query minor lines body =
     method @ '' '' @ path @ (case query of None \<Rightarrow> '''' | Some q \<Rightarrow> ''?'' @ q) @ '' HTTP/1.'' @ minor
     @ concat (map (\<lambda>l. crlf @ l) lines) @ crlf2 @ body"

definition plain_word :: "string \<Rightarrow> bool" where
  "plain_word s \<longleftrightarrow> CHR '' '' \<notin> set s \<and> CHR 0x0D \<notin> set s"

definition request_parts :: "string \<Rightarrow> string \<Rightarrow> string option \<Rightarrow> string \<Rightarrow> string list \<Rightarrow> bool" where
  "request_parts method path query minor lines \<longleftrightarrow>
     method \<noteq> '''' \<and> plain_word method \<and> path \<noteq> '''' \<and> plain_word path \<and> CHR ''?'' \<notin> set path
     \<and> (case query of None \<Rightarrow> True | Some q \<Rightarrow> plain_word q) \<and> (minor = ''0'' \<or> minor = ''1'')
     \<and> list_all (\<lambda>l. l \<noteq> '''' \<and> CHR 0x0D \<notin> set l) lines"

definition request_line :: "string \<Rightarrow> string \<Rightarrow> string option \<Rightarrow> string \<Rightarrow> string" where
  "request_line method path query minor =
     method @ '' '' @ path @ (case query of None \<Rightarrow> '''' | Some q \<Rightarrow> ''?'' @ q) @ '' HTTP/1.'' @ minor"

lemma crlf_at: "is_crlf_at (p @ crlf @ s) (length p)" "is_crlf_at (p @ crlf2 @ s) (length p)" "is_crlf_at (p @ crlf2 @ s) (length p + 2)"
  by (simp_all add: is_crlf_at_def crlf_def crlf2_def nth_append)

lemma no_crlf_before: "CHR 0x0D \<notin> set p \<Longrightarrow> i < length p \<Longrightarrow> \<not> is_crlf_at (p @ s) i"
proof -
  assume a: "CHR 0x0D \<notin> set p" "i < length p"
  then have "p ! i \<noteq> CHR 0x0D" by (metis nth_mem)
  then show ?thesis using a(2) by (simp add: is_crlf_at_def nth_append)
qed

lemma starts_crlf2_at: "i + 3 < length s \<Longrightarrow> v_starts_with (drop i s) crlf2 \<longleftrightarrow> is_crlf_at s i \<and> is_crlf_at s (i + 2)"
proof -
  assume i: "i + 3 < length s"
  then have "drop i s = s ! i # s ! (i + 1) # s ! (i + 2) # s ! (i + 3) # drop (i + 4) s"
    by (simp add: Cons_nth_drop_Suc [symmetric] eval_nat_numeral)
  then show ?thesis by (auto simp: crlf2_def is_crlf_at_def eval_nat_numeral)
qed

lemma free_of_drop: "free_of d p \<Longrightarrow> i < length p \<Longrightarrow> \<not> v_starts_with (drop i p @ d) d"
proof (induction p arbitrary: i)
  case (Cons c p)
  then show ?case by (cases i) auto
qed simp

lemma free_of_prefix: "CHR 0x0D \<notin> set l \<Longrightarrow> free_of crlf2 p \<Longrightarrow> free_of crlf2 (l @ p)"
  by (induction l) (auto simp: crlf2_def)

lemma free_of_lines: "list_all (\<lambda>l. l \<noteq> '''' \<and> CHR 0x0D \<notin> set l) lines \<Longrightarrow> free_of crlf2 (concat (map (\<lambda>l. crlf @ l) lines))"
proof (induction lines)
  case (Cons l lines)
  then obtain c k where l: "l = c # k" by (cases l) auto
  with Cons free_of_crlf2_line [of c k "concat (map (\<lambda>l. crlf @ l) lines)"] show ?case by auto
qed simp

lemma body_of_request:
  assumes "CHR 0x0D \<notin> set line1" and "list_all (\<lambda>l. l \<noteq> '''' \<and> CHR 0x0D \<notin> set l) lines"
  shows "request_body (line1 @ concat (map (\<lambda>l. crlf @ l) lines) @ crlf2 @ body) (length line1) = body"
proof -
  define h where "h = line1 @ concat (map (\<lambda>l. crlf @ l) lines)"
  define raw where "raw = h @ crlf2 @ body"
  have free: "free_of crlf2 h" unfolding h_def by (rule free_of_prefix [OF assms(1) free_of_lines [OF assms(2)]])
  have len: "length raw = length h + 4 + length body" by (simp add: raw_def crlf2_def)
  have no: "\<not> (is_crlf_at raw i \<and> is_crlf_at raw (i + 2))" if "i < length h" for i
  proof -
    have "drop i raw = (drop i h @ crlf2) @ body" using that by (simp add: raw_def)
    moreover have "v_starts_with ((drop i h @ crlf2) @ body) crlf2 = v_starts_with (drop i h @ crlf2) crlf2"
      by (rule starts_with_append) (simp add: crlf2_def)
    ultimately have "\<not> v_starts_with (drop i raw) crlf2" using free_of_drop [OF free that] by simp
    then show ?thesis using starts_crlf2_at [of i raw] that len by simp
  qed
  have here: "is_crlf_at raw (length h)" "is_crlf_at raw (length h + 2)" "length line1 \<le> length h"
    by (simp_all add: raw_def crlf_at(2,3) del: add_2_eq_Suc') (simp add: h_def)
  have "List.find (\<lambda>i. is_crlf_at raw i \<and> is_crlf_at raw (i + 2)) [length line1..<length raw - 3] = Some (length h)"
    by (rule find_upt) (use no len here in simp_all)
  then have "request_body raw (length line1) = body"
    by (simp add: request_body_def len) (simp add: raw_def crlf2_def)
  then show ?thesis by (simp add: raw_def h_def)
qed

lemma nth_middle: "length p \<le> i \<Longrightarrow> i < length p + length q \<Longrightarrow> (p @ q @ s) ! i = q ! (i - length p)"
  using le_Suc_ex [of "length p" i] by (auto simp: nth_append)

text \<open>The scan of the request line.\<close>

lemma skip_word:
  assumes "raw = p @ w @ CHR '' '' # s" and "CHR '' '' \<notin> set w" and "length p + length w < stop"
  shows "skip_while (\<lambda>c. c \<noteq> CHR '' '') raw (length p) stop = length p + length w"
proof (rule skip_while_spec)
  show "raw ! k \<noteq> CHR '' ''" if "length p \<le> k" "k < length p + length w" for k
    using assms(1,2) nth_middle [of p k w] that by (metis add_less_imp_less_left le_add_diff_inverse nth_mem)
qed (use assms in \<open>auto simp: nth_append\<close>)

lemma skip_no_space:
  assumes "i < stop" and "raw ! i \<noteq> CHR '' ''"
  shows "skip_while (\<lambda>c. c = CHR '' '') raw i stop = i"
  using assms by (subst skip_while.simps) simp

lemma scan_target:
  assumes raw: "raw = p @ path @ (case query of None \<Rightarrow> '''' | Some q \<Rightarrow> ''?'' @ q) @ CHR '' '' # s"
    and w: "CHR '' '' \<notin> set path" "CHR ''?'' \<notin> set path" "case query of None \<Rightarrow> True | Some q \<Rightarrow> CHR '' '' \<notin> set q"
    and stop: "length p + length path + length (case query of None \<Rightarrow> '''' | Some q \<Rightarrow> ''?'' @ q) < stop"
  shows "scan_path raw (length p) stop (-1) =
     (case query of None \<Rightarrow> (length p + length path, -1)
      | Some q \<Rightarrow> (length p + length path + 1 + length q, int (length p + length path) + 1))"
proof -
  let ?t = "path @ (case query of None \<Rightarrow> '''' | Some q \<Rightarrow> ''?'' @ q)"
  have t: "raw = p @ ?t @ CHR '' '' # s" "CHR '' '' \<notin> set ?t" using raw w by (auto split: option.splits)
  have ns: "raw ! k \<noteq> CHR '' ''" if "length p \<le> k" "k < length p + length ?t" for k
    using nth_middle [of p k ?t "CHR '' '' # s"] that t by (metis add_less_imp_less_left le_add_diff_inverse nth_mem)
  have np: "raw ! k \<noteq> CHR ''?''" if "length p \<le> k" "k < length p + length path" for k
  proof -
    have "raw ! k = path ! (k - length p)" using nth_middle [of p k path] that by (simp add: raw)
    moreover have "path ! (k - length p) \<in> set path" using that by simp
    ultimately show ?thesis using w(2) by metis
  qed
  have e: "raw ! (length p + length ?t) = CHR '' ''" by (subst t(1)) (simp add: nth_append)
  note spec = scan_path_spec [of "length p" "length p + length ?t" stop raw "-1"]
  show ?thesis
  proof (cases query)
    case None
    then show ?thesis using spec ns e stop np by (auto simp: prod_eq_iff)
  next
    case (Some q)
    then have q: "raw ! (length p + length path) = CHR ''?''" by (simp add: raw nth_append)
    have "snd (scan_path raw (length p) stop (-1)) = int (length p + length path) + 1"
      using spec ns e stop np q Some by (auto simp del: of_nat_add)
    moreover have "fst (scan_path raw (length p) stop (-1)) = length p + length ?t" using spec ns e stop by auto
    ultimately show ?thesis using Some by (simp add: prod_eq_iff)
  qed
qed

lemma line_of_request:
  assumes "request_parts method path query minor lines"
  shows "CHR 0x0D \<notin> set (request_line method path query minor)"
  using assms by (auto simp: request_parts_def plain_word_def request_line_def split: option.splits)

lemma written_split:
  "written_request method path query minor lines body
     = request_line method path query minor @ concat (map (\<lambda>l. crlf @ l) lines) @ crlf2 @ body"
  by (simp add: written_request_def request_line_def)

lemma line_end_of_request:
  assumes "request_parts method path query minor lines"
  shows "List.find (is_crlf_at (written_request method path query minor lines body))
      [0..<length (written_request method path query minor lines body) - 1] = Some (length (request_line method path query minor))"
proof (rule find_upt)
  let ?l = "request_line method path query minor" and ?raw = "written_request method path query minor lines body"
  have "is_crlf_at (?l @ concat (map (\<lambda>l. crlf @ l) lines) @ crlf2 @ body) (length ?l)"
    using crlf_at(1) [of ?l "hd lines @ concat (map (\<lambda>l. crlf @ l) (tl lines)) @ crlf2 @ body"] crlf_at(2) [of ?l body]
    by (cases lines) simp_all
  then show "is_crlf_at ?raw (length ?l)" by (simp only: written_split)
  show "length ?l < length ?raw - 1" by (simp add: written_split crlf2_def)
  show "\<not> is_crlf_at ?raw i" if "i < length ?l" for i
    unfolding written_split by (rule no_crlf_before [OF line_of_request [OF assms] that])
qed simp

text \<open>The request that the server sees.\<close>

definition request_seen :: "string \<Rightarrow> string \<Rightarrow> string option \<Rightarrow> string \<Rightarrow> string list \<Rightarrow> string \<Rightarrow> us_request" where
  "request_seen method path query minor lines body =
     \<lparr>ur_method = method, ur_path = path, ur_query = (case query of None \<Rightarrow> [] | Some q \<Rightarrow> query_spec q), ur_body = body,
      ur_http11 = (minor = ''1''
        \<or> has_connection_keep_alive (written_request method path query minor lines body) (length (request_line method path query minor))
            (length (written_request method path query minor lines body)))\<rparr>"

lemma request_read:
  assumes parts: "request_parts method path query minor lines"
  shows "parse_http_request_usockets (written_request method path query minor lines body) = request_seen method path query minor lines body"
proof -
  define q where "q = (case query of None \<Rightarrow> '''' | Some q \<Rightarrow> ''?'' @ q)"
  define rest where "rest = concat (map (\<lambda>l. crlf @ l) lines) @ crlf2 @ body"
  define raw where "raw = written_request method path query minor lines body"
  define n where "n = length (request_line method path query minor)"
  define p where "p = method @ '' ''"
  have raw: "raw = p @ path @ q @ CHR '' '' # ''HTTP/1.'' @ minor @ rest" "raw = method @ CHR '' '' # path @ q @ '' HTTP/1.'' @ minor @ rest"
    by (simp_all add: raw_def written_request_def rest_def q_def p_def)
  have minor: "length minor = 1" "minor = ''0'' \<or> minor = ''1''" using parts by (auto simp: request_parts_def)
  have n: "n = length p + length path + length q + 9" using minor by (simp add: n_def request_line_def q_def p_def)
  note w = parts [unfolded request_parts_def plain_word_def]
  have find: "List.find (is_crlf_at raw) [0..<length raw - 1] = Some n"
    unfolding raw_def n_def by (rule line_end_of_request [OF parts])
  have m: "skip_while (\<lambda>c. c \<noteq> CHR '' '') raw 0 n = length method"
    using skip_word [of raw "[]" "method" "path @ q @ '' HTTP/1.'' @ minor @ rest" n] raw(2) w n by (simp add: p_def)
  have target: "scan_path raw (length p) n (-1)
      = (case query of None \<Rightarrow> (length p + length path, -1) | Some q \<Rightarrow> (length p + length path + 1 + length q, int (length p + length path) + 1))"
    by (rule scan_target [of _ _ _ _ "''HTTP/1.'' @ minor @ rest"]) (use raw(1) w n in \<open>auto simp: q_def split: option.splits\<close>)
  have start: "skip_while (\<lambda>c. c = CHR '' '') raw (length method + 1) n = length p"
  proof -
    have "raw ! (length method + 1) = hd path" using w by (cases path) (simp_all add: raw(2) nth_append)
    moreover have "hd path \<noteq> CHR '' ''" using w by (metis hd_in_set)
    ultimately show ?thesis using skip_no_space [of "length method + 1" n raw] n by (simp add: p_def)
  qed
  have stop: "fst (scan_path raw (length p) n (-1)) = length p + length path + length q"
    unfolding target by (simp add: q_def split: option.split)
  have version: "skip_while (\<lambda>c. c = CHR '' '') raw (length p + length path + length q + 1) n = length p + length path + length q + 1"
    by (rule skip_no_space) (simp_all add: n raw(1) nth_append)
  have digit: "raw ! (length p + length path + length q + 1 + 7) = hd minor"
    using minor(2) by (auto simp: raw(1) nth_append)
  have body: "request_body raw n = body"
    unfolding raw_def n_def written_split
    by (rule body_of_request [OF line_of_request [OF parts]]) (use w in simp)
  have slices: "raw_slice raw 0 (length method) = method" "raw_slice raw (length p) (length p + length path) = path"
    by (simp add: raw_slice_def raw(2), simp add: raw_slice_def raw(1))
  have qs: "raw_slice raw (length p + length path + 1) (length p + length path + 1 + length t) = t" if "query = Some t" for t
    using that by (simp add: raw_slice_def raw(1) q_def)
  have query: "parse_query_string_fast raw (length p + length path + 1) (length p + length path + 1 + length t) = query_spec t" if "query = Some t" for t
    using query_raw [of "length p + length path + 1" "length p + length path + 1 + length t" raw] qs [OF that] that
    by (simp add: raw(1) q_def)
  have ne: "raw \<noteq> []" "length method \<noteq> 0" "length method < n" using w n by (simp_all add: raw(2) p_def)
  have pq: "(let (path_end, query_start) = scan_path raw (length p) n (-1) in
        if query_start > 0 then (raw_slice raw (length p) (nat query_start - 1), parse_query_string_fast raw (nat query_start) path_end)
        else (raw_slice raw (length p) path_end, [])) = (path, case query of None \<Rightarrow> [] | Some t \<Rightarrow> query_spec t)"
    using slices(2) query by (auto simp: target nat_add_distrib split: option.split)
  have v: "(if length p + length path + length q + 1 + 7 < n then raw ! (length p + length path + length q + 1 + 7) \<noteq> CHR ''0'' else True)
      = (minor = ''1'')"
    unfolding digit using minor(2) by (auto simp: n)
  obtain pe qs where sp: "scan_path raw (length p) n (-1) = (pe, qs)" by force
  have pe: "pe = length p + length path + length q" using stop sp by simp
  have res: "parse_http_request_usockets raw
      = \<lparr>ur_method = method, ur_path = path, ur_query = (case query of None \<Rightarrow> [] | Some t \<Rightarrow> query_spec t), ur_body = body,
         ur_http11 = (if \<not> (minor = ''1'') then has_connection_keep_alive raw n (length raw) else (minor = ''1''))\<rparr>"
  proof -
    have f: "(length raw = 0) = False" "(length method = 0 \<or> length method \<ge> n) = False" using ne by auto
    have g: "(if qs > 0 then (raw_slice raw (length p) (nat qs - 1), parse_query_string_fast raw (nat qs) (length p + length path + length q))
        else (raw_slice raw (length p) (length p + length path + length q), [])) = (path, case query of None \<Rightarrow> [] | Some t \<Rightarrow> query_spec t)"
      using pq by (simp add: sp pe)
    show ?thesis
      unfolding parse_http_request_usockets_def
      by (simp only: f find option.case Let_def m if_False start sp prod.case pe g version v body slices(1))
  qed
  then show ?thesis by (simp add: request_seen_def raw_def [symmetric] n_def [symmetric])
qed

text \<open>A request in the usual form, with a method, a path, an optional query, the version 1.0 or 1.1, any header lines and any body, is read back
  with exactly these parts: the query as the pieces between its ampersands, split at the first equals sign, the body as all bytes behind the empty line; and
  the connection is kept for version 1.1, and for version 1.0 when the search for a persistent connection in the text succeeds.\<close>

theorem usockets_request_read:
  assumes "request_parts method path query minor lines"
  shows "parse_http_request_usockets (written_request method path query minor lines body) = request_seen method path query minor lines body"
  by (rule request_read [OF assms])

lemma demo_request_parts: "request_parts ''POST'' ''/a'' (Some ''x=1&y'') ''1'' [''Host: h'']"
  by (simp add: request_parts_def plain_word_def)

theorem usockets_request_read_witness:
  "ur_method (parse_http_request_usockets (written_request ''POST'' ''/a'' (Some ''x=1&y'') ''1'' [''Host: h''] ''hello'')) = ''POST''
    \<and> ur_path (parse_http_request_usockets (written_request ''POST'' ''/a'' (Some ''x=1&y'') ''1'' [''Host: h''] ''hello'')) = ''/a''
    \<and> ur_query (parse_http_request_usockets (written_request ''POST'' ''/a'' (Some ''x=1&y'') ''1'' [''Host: h''] ''hello'')) = [(''x'', ''1''), (''y'', '''')]
    \<and> ur_body (parse_http_request_usockets (written_request ''POST'' ''/a'' (Some ''x=1&y'') ''1'' [''Host: h''] ''hello'')) = ''hello''
    \<and> ur_http11 (parse_http_request_usockets (written_request ''POST'' ''/a'' (Some ''x=1&y'') ''1'' [''Host: h''] ''hello''))"
  using usockets_request_read [OF demo_request_parts, of "''hello''"] by (simp add: request_seen_def query_spec_def query_piece_def)

section \<open>Places where requests are misread\<close>

text \<open>The name is searched at every byte of the text, so a \<^verbatim>\<open>Proxy-Connection\<close> field keeps a connection of version 1.0.\<close>

lemma proxy_connection_counts:
  "ur_http11 (parse_http_request_usockets (written_request ''GET'' ''/'' None ''0'' [''Proxy-Connection: keep-alive''] ''''))
   \<and> \<not> ur_http11 (parse_http_request_usockets (written_request ''GET'' ''/'' None ''0'' [''Host: h''] ''''))"
  by code_simp

text \<open>The length of the body is not read: a body that comes in a second packet is taken for a request of its own, and refused.\<close>

lemma split_body_lost:
  "ur_body (parse_http_request_usockets (written_request ''POST'' ''/a'' None ''1'' [''Content-Length: 5''] '''')) = ''''
   \<and> parse_http_request_usockets ''hello'' = no_request"
  by code_simp

text \<open>The method of the context is guessed from the first letter and the length.\<close>

lemma purge_is_patch: "parse_http_method_usockets ''PURGE'' = ''PATCH'' \<and> parse_http_method_usockets ''OBSERVE'' = ''OPTIONS''"
  by (simp add: parse_http_method_usockets_def)

end
