(* ===== verification/Usockets_Server.thy ===== *)
theory Usockets_Server
  imports Usockets_Request Streaming Bearer_Auth
begin

text \<open>
  The uSockets server (\<^verbatim>\<open>usockets_server.v\<close>): what happens with a packet.  The request is read, a router finds the handler, the handler
  runs behind the middleware, and the response is written to the socket; a request that asks for an upgrade goes another way, and a
  streaming response runs its callback on the socket.

  Clock readings and the storage of stream callbacks, as the handler leaves it, come with each packet.

  Shown here: for every sequence of packets what happens on the socket is what the routes alone determine, independent of the caches; the
  status of a handler's response is not sent; middleware never sees a request field, and requests with the fields of an upgrade and
  unmatched ones go past it; two fixed answers announce a wrong length.
\<close>

section \<open>Responses\<close>

definition get_status_text_usockets :: "int \<Rightarrow> string" where
  "get_status_text_usockets code =
     (if code = 101 then ''Switching Protocols'' else if code = 200 then ''OK'' else if code = 201 then ''Created''
      else if code = 204 then ''No Content'' else if code = 301 then ''Moved Permanently'' else if code = 302 then ''Found''
      else if code = 304 then ''Not Modified'' else if code = 400 then ''Bad Request'' else if code = 401 then ''Unauthorized''
      else if code = 403 then ''Forbidden'' else if code = 404 then ''Not Found'' else if code = 405 then ''Method Not Allowed''
      else if code = 426 then ''Upgrade Required'' else if code = 500 then ''Internal Server Error'' else if code = 502 then ''Bad Gateway''
      else if code = 503 then ''Service Unavailable'' else ''Unknown'')"

definition eq_ignore_case_usockets :: "string \<Rightarrow> string \<Rightarrow> bool" where
  "eq_ignore_case_usockets a b \<longleftrightarrow> length a = length b \<and> list_all2 (\<lambda>ca cb. char_to_lower ca = char_to_lower cb) a b"

definition is_length_key :: "string \<Rightarrow> bool" where
  "is_length_key key \<longleftrightarrow> length key = 14 \<and> eq_ignore_case_usockets key ''content-length''"

definition is_type_key :: "string \<Rightarrow> bool" where
  "is_type_key key \<longleftrightarrow> length key = 12 \<and> eq_ignore_case_usockets key ''content-type''"

definition field_line :: "string \<times> string \<Rightarrow> string" where
  "field_line = (\<lambda>(key, val). key @ '': '' @ val @ crlf)"

definition status_line :: "int \<Rightarrow> string" where
  "status_line status_code = ''HTTP/1.1 '' @ v_str status_code @ '' '' @ get_status_text_usockets status_code @ crlf"

text \<open>The text that \<^verbatim>\<open>send_usockets_response\<close> builds.\<close>

definition response_text :: "http_context \<Rightarrow> http_response \<Rightarrow> bool \<Rightarrow> string" where
  "response_text ctx response is_http11 =
     (let status_code = (if cx_status_code ctx \<noteq> 0 then cx_status_code ctx else rs_status_code response);
          fields = concat (map field_line (filter (\<lambda>(key, val). \<not> is_length_key key) (cx_headers ctx)));
          has_type = list_ex (\<lambda>(key, val). is_type_key key) (cx_headers ctx);
          content_type =
            (if has_type then ''''
             else case get_custom (rs_header response) ''Content-Type'' of
               Some content_type \<Rightarrow> ''Content-Type: '' @ content_type @ crlf
             | None \<Rightarrow> ''Content-Type: text/plain; charset=utf-8'' @ crlf)
      in status_line status_code @ fields @ content_type @ ''Content-Length: '' @ v_str (int (length (rs_body response))) @ crlf
         @ (if is_http11 then ''Connection: keep-alive'' @ crlf else ''Connection: close'' @ crlf) @ crlf @ rs_body response)"

text \<open>The head of a streaming response.\<close>

definition stream_head_text :: "http_context \<Rightarrow> string" where
  "stream_head_text ctx =
     (let status_code = (if cx_status_code ctx \<noteq> 0 then cx_status_code ctx else 200);
          sent = filter (\<lambda>(key, val). \<not> is_length_key key) (cx_headers ctx);
          has_transfer_encoding = list_ex (\<lambda>(key, val). length key = 17 \<and> eq_ignore_case_usockets key ''transfer-encoding'') sent;
          has_connection = list_ex (\<lambda>(key, val). length key = 10 \<and> eq_ignore_case_usockets key ''connection'') sent
      in status_line status_code @ concat (map field_line sent)
         @ (if has_transfer_encoding then '''' else ''Transfer-Encoding: chunked'' @ crlf)
         @ (if has_connection then '''' else ''Connection: keep-alive'' @ crlf) @ crlf)"

type_synonym 'f us_storage = "(usockets_writer, 'f) stream_storage"

definition handle_usockets_streaming_response ::
  "us_library \<Rightarrow> http_context \<Rightarrow> us_socket \<Rightarrow> 'f us_storage \<Rightarrow> us_socket \<times> 'f us_storage" where
  "handle_usockets_streaming_response lib ctx s st =
     (case get_stream_config ctx st of
        None \<Rightarrow>
          (write_bytes lib (''HTTP/1.1 500 Internal Server Error'' @ crlf @ ''Content-Type: text/plain'' @ crlf @ ''Content-Length: 32'' @ crlf2
             @ ''Stream configuration not found'') s, st)
      | Some config \<Rightarrow>
          let s1 = write_bytes lib (stream_head_text ctx) s;
              sc = run_stream (usockets_stream_writer lib) (cfg_callback config) (cfg_error_handler config) (usockets_writer_new s1)
          in (uw_socket (sc_writer sc), cleanup_stream_config ctx st))"

definition send_usockets_response ::
  "us_library \<Rightarrow> http_context \<Rightarrow> http_response \<Rightarrow> bool \<Rightarrow> us_socket \<Rightarrow> 'f us_storage \<Rightarrow> us_socket \<times> 'f us_storage" where
  "send_usockets_response lib ctx response is_http11 s st =
     (if is_streaming_response ctx then handle_usockets_streaming_response lib ctx s st
      else let s1 = write_bytes lib (response_text ctx response is_http11) s
           in (if is_http11 then s1 else us_shutdown s1, st))"

section \<open>Upgrades\<close>

text \<open>Whether the connection was upgraded, the socket and the storage.\<close>

definition handle_usockets_ws_upgrade ::
  "us_library \<Rightarrow> string \<Rightarrow> handler_fn route_match \<Rightarrow> http_context \<Rightarrow> us_socket \<Rightarrow> 'f us_storage \<Rightarrow> bool \<times> us_socket \<times> 'f us_storage" where
  "handle_usockets_ws_upgrade lib raw_data rm hono_ctx s st =
     (if get_usockets_ws_version raw_data \<noteq> ''13'' then
        (False, write_bytes lib (''HTTP/1.1 426 Upgrade Required'' @ crlf @ ''Sec-WebSocket-Version: 13'' @ crlf @ ''Content-Type: text/plain'' @ crlf
           @ ''Content-Length: 28'' @ crlf2 @ ''Unsupported WebSocket version'') s, st)
      else let ws_key = get_usockets_ws_key raw_data in
      if length ws_key = 0 then
        (False, write_bytes lib (''HTTP/1.1 400 Bad Request'' @ crlf @ ''Content-Type: text/plain'' @ crlf @ ''Content-Length: 30'' @ crlf2
           @ ''Missing Sec-WebSocket-Key header'') s, st)
      else
        let accept_key = compute_accept_key ws_key;
            (response, mutable_ctx) = ih_handle (rm_handler rm) hono_ctx
        in if rs_status_code response \<noteq> 101 then
             (let (s1, st1) = send_usockets_response lib mutable_ctx response True s st in (False, s1, st1))
           else
             let selected_protocol = (case vget (cx_store mutable_ctx) ''_ws_protocol'' of Some p \<Rightarrow> p | None \<Rightarrow> '''')
             in (True, write_bytes lib
                  (''HTTP/1.1 101 Switching Protocols'' @ crlf @ ''Upgrade: websocket'' @ crlf @ ''Connection: Upgrade'' @ crlf
                   @ ''Sec-WebSocket-Accept: '' @ accept_key @ crlf
                   @ (if length selected_protocol > 0 then ''Sec-WebSocket-Protocol: '' @ selected_protocol @ crlf else '''') @ crlf) s, st))"

section \<open>Packets\<close>

definition get_middlewares_for_path_usockets_optimized :: "'re hono \<Rightarrow> string \<Rightarrow> context_middleware list" where
  "get_middlewares_for_path_usockets_optimized app path =
     (if length (hn_route_middlewares app) = 0 then hn_context_middlewares app
      else fold (\<lambda>prefix mws.
             if v_starts_with path prefix \<or> prefix = ''/'' then
               (case vget (hn_route_middlewares app) prefix of Some extra \<Rightarrow> mws @ extra | None \<Rightarrow> mws)
             else mws)
           (hn_sorted_middleware_prefixes app) (hn_context_middlewares app))"

function exec_middlewares_usockets :: "nat \<Rightarrow> context_middleware list \<Rightarrow> http_context \<Rightarrow> handler_fn \<Rightarrow> http_response \<times> http_context" where
  "exec_middlewares_usockets idx middlewares ctx handler =
     (if idx < length middlewares
      then (middlewares ! idx) ctx (\<lambda>c. exec_middlewares_usockets (idx + 1) middlewares c handler)
      else handler ctx)"
  by pat_completeness auto
termination
  by (relation "measure (\<lambda>(idx, mws, c, h). length mws - idx)") auto

declare exec_middlewares_usockets.simps [simp del]

text \<open>What the server does with a match of either router.\<close>

definition us_run_match ::
  "us_library \<Rightarrow> 're hono \<Rightarrow> string \<Rightarrow> us_request \<Rightarrow> handler_fn route_match \<Rightarrow> us_socket \<Rightarrow> 'f us_storage \<Rightarrow> us_socket \<times> 'f us_storage" where
  "us_run_match lib app raw_data req rm s st =
     (if is_usockets_ws_upgrade raw_data then
        snd (handle_usockets_ws_upgrade lib raw_data rm
          (create_usockets_context_with_headers raw_data (ur_method req) (ur_path req) (rm_params rm) (ur_query req) (ur_body req)) s st)
      else
        let hono_ctx = create_usockets_context (ur_method req) (ur_path req) (rm_params rm) (ur_query req) (ur_body req);
            (response, ctx) =
              (if \<not> hn_has_middlewares app then ih_handle (rm_handler rm) hono_ctx
               else exec_middlewares_usockets 0 (get_middlewares_for_path_usockets_optimized app (ur_path req)) hono_ctx
                 (\<lambda>c. ih_handle (rm_handler rm) c))
        in send_usockets_response lib ctx response (ur_http11 req) s st)"

definition us_run_not_found ::
  "us_library \<Rightarrow> 're hono \<Rightarrow> us_request \<Rightarrow> us_socket \<Rightarrow> 'f us_storage \<Rightarrow> us_socket \<times> 'f us_storage" where
  "us_run_not_found lib app req s st =
     (case hn_not_found_handler app of
        Some handler \<Rightarrow>
          let (response, ctx) = handler (create_usockets_context (ur_method req) (ur_path req) [] (ur_query req) (ur_body req))
          in send_usockets_response lib ctx response (ur_http11 req) s st
      | None \<Rightarrow>
          let s1 = write_bytes lib (''HTTP/1.1 404 Not Found'' @ crlf @ ''Content-Type: text/plain'' @ crlf @ ''Content-Length: 9'' @ crlf
                @ ''Connection: '' @ (if ur_http11 req then ''keep-alive'' else ''close'') @ crlf2 @ ''Not Found'') s
          in (if \<not> ur_http11 req then us_shutdown s1 else s1, st))"

text \<open>The fast router, then the hybrid one.  \<open>cf\<close> and \<open>ch\<close> are the clock readings of the routers.\<close>

definition us_lookup ::
  "'re app_env \<Rightarrow> clock \<times> clock \<Rightarrow> clock \<times> clock \<Rightarrow> string \<Rightarrow> string \<Rightarrow> 're hono \<Rightarrow> handler_fn route_match option \<times> 're hono" where
  "us_lookup env cf ch method path app =
     (let use_hybrid = (\<lambda>app1.
            let (m, r) = hybrid_match_route (ae_regex env) (fst ch) (snd ch) method path (hn_hybrid_router app1)
            in (m, app1\<lparr>hn_hybrid_router := r\<rparr>))
      in if hn_use_fast_router app then
           (let (m, r) = fast_match_route (ae_regex env) (fst cf) (snd cf) method path (hn_fast_router app);
                app1 = app\<lparr>hn_fast_router := r\<rparr>
            in case m of Some rm \<Rightarrow> (Some rm, app1) | None \<Rightarrow> use_hybrid app1)
         else use_hybrid app)"

text \<open>The application of the socket context is none when the pointer is nil.\<close>

definition usockets_on_data ::
  "'re app_env \<Rightarrow> us_library \<Rightarrow> clock \<times> clock \<Rightarrow> clock \<times> clock \<Rightarrow> string \<Rightarrow> us_socket \<Rightarrow> 're hono option \<Rightarrow> 'f us_storage
     \<Rightarrow> us_socket \<times> 're hono option \<times> 'f us_storage" where
  "usockets_on_data env lib cf ch raw_data s ext st =
     (case ext of
        None \<Rightarrow> (write_bytes lib (''HTTP/1.1 500 Internal Server Error'' @ crlf @ ''Content-Length: 21'' @ crlf2 @ ''Internal Server Error'') s, None, st)
      | Some app \<Rightarrow>
        let req = parse_http_request_usockets raw_data in
        if length (ur_method req) = 0 then
          (write_bytes lib (''HTTP/1.1 400 Bad Request'' @ crlf @ ''Content-Length: 11'' @ crlf2 @ ''Bad Request'') s, Some app, st)
        else
          let (m, app1) = us_lookup env cf ch (ur_method req) (ur_path req) app;
              (s1, st1) = (case m of Some rm \<Rightarrow> us_run_match lib app1 raw_data req rm s st | None \<Rightarrow> us_run_not_found lib app1 req s st)
          in (s1, Some app1, st1))"

text \<open>The other callbacks of the socket context.\<close>

definition usockets_on_open :: "us_socket \<Rightarrow> us_socket" where
  "usockets_on_open s = s"

definition usockets_on_close :: "us_socket \<Rightarrow> us_socket" where
  "usockets_on_close s = s"

definition usockets_on_writable :: "us_socket \<Rightarrow> us_socket" where
  "usockets_on_writable s = s"

definition usockets_on_timeout :: "us_socket \<Rightarrow> us_socket" where
  "usockets_on_timeout s = us_close s"

definition usockets_on_end :: "us_socket \<Rightarrow> us_socket" where
  "usockets_on_end s = us_close (us_shutdown s)"

section \<open>What reaches the socket\<close>

text \<open>The routes alone decide: the caches of the routers do not show.\<close>

definition us_effect_of ::
  "'re app_env \<Rightarrow> us_library \<Rightarrow> 're hono \<Rightarrow> string \<Rightarrow> 'f us_storage \<Rightarrow> us_socket \<Rightarrow> us_socket \<times> 'f us_storage" where
  "us_effect_of env lib app raw_data st s =
     (let req = parse_http_request_usockets raw_data in
      if ur_method req = '''' then
        (write_bytes lib (''HTTP/1.1 400 Bad Request'' @ crlf @ ''Content-Length: 11'' @ crlf2 @ ''Bad Request'') s, st)
      else case app_route_for env app (ur_method req) (ur_path req) of
        Some rm \<Rightarrow> us_run_match lib app raw_data req rm s st
      | None \<Rightarrow> us_run_not_found lib app req s st)"

lemma app_same_refl: "app_same app app"
proof -
  have "app = app\<lparr>hn_fast_router := hn_fast_router app, hn_hybrid_router := hn_hybrid_router app\<rparr>" by simp
  then show ?thesis unfolding app_same_def hybrid_same_def using same_routes_refl by blast
qed

lemma app_same_trans:
  assumes "app_same a b" and "app_same b c"
  shows "app_same a c"
proof -
  from assms(1) obtain r h where b: "b = a\<lparr>hn_fast_router := r, hn_hybrid_router := h\<rparr>" "same_routes (hn_fast_router a) r"
    "hybrid_same (hn_hybrid_router a) h" by (auto simp: app_same_def)
  from assms(2) obtain r' h' where c: "c = b\<lparr>hn_fast_router := r', hn_hybrid_router := h'\<rparr>" "same_routes (hn_fast_router b) r'"
    "hybrid_same (hn_hybrid_router b) h'" by (auto simp: app_same_def)
  have "c = a\<lparr>hn_fast_router := r', hn_hybrid_router := h'\<rparr>" by (simp add: b(1) c(1))
  moreover have "same_routes (hn_fast_router a) r'" using same_routes_trans [OF b(2)] c(2) b(1) by simp
  moreover have "hybrid_same (hn_hybrid_router a) h'" using b c by (simp add: hybrid_same_def)
  ultimately show ?thesis using app_sameI by blast
qed

text \<open>The packets of a connection, each with its clock readings and the stored callbacks.\<close>

fun us_serve ::
  "'re app_env \<Rightarrow> us_library \<Rightarrow> ((clock \<times> clock) \<times> (clock \<times> clock) \<times> string \<times> 'f us_storage) list \<Rightarrow> us_socket \<Rightarrow> 're hono option
     \<Rightarrow> us_socket" where
  "us_serve env lib [] s ext = s"
| "us_serve env lib ((cf, ch, raw_data, st) # ps) s ext =
     (let (s1, ext1, st1) = usockets_on_data env lib cf ch raw_data s ext st in us_serve env lib ps s1 ext1)"

lemma us_lookup_ok:
  assumes ok: "app_ok env app" and m: "CHR '':'' \<notin> set method"
  shows "fst (us_lookup env cf ch method path app) = app_route_for env app method path
    \<and> app_ok env (snd (us_lookup env cf ch method path app)) \<and> app_same app (snd (us_lookup env cf ch method path app))"
proof -
  let ?rl = "ae_regex env"
  define F where "F = fast_match_route ?rl (fst cf) (snd cf) method path (hn_fast_router app)"
  define H where "H = hybrid_match_route ?rl (fst ch) (snd ch) method path (hn_hybrid_router app)"
  have f: "fst F = fast_answer ?rl (hn_fast_router app) method path" "fast_agrees ?rl (snd F)" "same_routes (hn_fast_router app) (snd F)"
    using fast_match_agrees [OF _ m, of ?rl "hn_fast_router app"] ok by (auto simp: F_def app_ok_def)
  have h: "fst H = hybrid_answer ?rl (hn_hybrid_router app) method path" "hybrid_ok ?rl (snd H)" "hybrid_same (hn_hybrid_router app) (snd H)"
    using hybrid_match_agrees [OF _ m, of ?rl "hn_hybrid_router app"] ok by (auto simp: H_def app_ok_def)
  define r1 where "r1 = (if hn_use_fast_router app then snd F else hn_fast_router app)"
  have r1: "same_routes (hn_fast_router app) r1" using f(3) by (simp add: r1_def)
  define a1 where "a1 = app\<lparr>hn_fast_router := r1, hn_hybrid_router := hn_hybrid_router app\<rparr>"
  define a2 where "a2 = app\<lparr>hn_fast_router := r1, hn_hybrid_router := snd H\<rparr>"
  have same: "app_same app a1" "app_same app a2"
    unfolding a1_def a2_def by (rule app_sameI [OF r1], simp add: hybrid_same_def, rule app_sameI [OF r1 h(3)])
  have oks: "app_ok env a1" "app_ok env a2"
    using ok f(2) h(2) by (auto simp: app_ok_def a1_def a2_def r1_def)
  show ?thesis
  proof (cases "hn_use_fast_router app \<and> fst F \<noteq> None")
    case True
    then obtain rm where rm: "fst F = Some rm" by auto
    then have "us_lookup env cf ch method path app = (Some rm, a1)"
      using True by (simp add: us_lookup_def F_def [symmetric] a1_def r1_def case_prod_beta Let_def)
    with rm True f(1) same(1) oks(1) show ?thesis by (simp add: app_route_for_def)
  next
    case False
    then have "us_lookup env cf ch method path app = (fst H, a2)"
      by (auto simp: us_lookup_def F_def [symmetric] H_def [symmetric] a2_def r1_def case_prod_beta Let_def split: option.splits)
    with False f(1) h(1) same(2) oks(2) show ?thesis by (auto simp: app_route_for_def split: option.splits)
  qed
qed

lemma us_run_same:
  assumes "app_same app app'"
  shows "us_run_match lib app' raw_data req rm s st = us_run_match lib app raw_data req rm s st"
    and "us_run_not_found lib app' req s st = us_run_not_found lib app req s st"
    and "us_effect_of env lib app' raw_data st s = us_effect_of env lib app raw_data st s"
proof -
  from assms obtain r h where a: "app' = app\<lparr>hn_fast_router := r, hn_hybrid_router := h\<rparr>" by (auto simp: app_same_def)
  show m: "us_run_match lib app' raw_data req rm s st = us_run_match lib app raw_data req rm s st" for req rm
    by (simp add: a us_run_match_def get_middlewares_for_path_usockets_optimized_def Let_def cong: if_cong)
  show n: "us_run_not_found lib app' req s st = us_run_not_found lib app req s st" for req
    by (simp add: a us_run_not_found_def Let_def)
  show "us_effect_of env lib app' raw_data st s = us_effect_of env lib app raw_data st s"
    unfolding us_effect_of_def m n run_same(3) [OF assms] by (rule refl)
qed

lemma on_data_ok:
  assumes ok: "app_ok env app" and m: "CHR '':'' \<notin> set (ur_method (parse_http_request_usockets raw_data))"
  obtains app' where
    "usockets_on_data env lib cf ch raw_data s (Some app) st
       = (fst (us_effect_of env lib app raw_data st s), Some app', snd (us_effect_of env lib app raw_data st s))"
    "app_ok env app'" "app_same app app'"
proof (cases "ur_method (parse_http_request_usockets raw_data) = ''''")
  case True
  then show ?thesis by (intro that [OF _ ok app_same_refl]) (simp add: usockets_on_data_def us_effect_of_def)
next
  case False
  let ?req = "parse_http_request_usockets raw_data"
  define L where "L = us_lookup env cf ch (ur_method ?req) (ur_path ?req) app"
  have l: "fst L = app_route_for env app (ur_method ?req) (ur_path ?req)" "app_ok env (snd L)" "app_same app (snd L)"
    using us_lookup_ok [OF ok m] by (simp_all add: L_def)
  have "usockets_on_data env lib cf ch raw_data s (Some app) st
      = (fst (us_effect_of env lib app raw_data st s), Some (snd L), snd (us_effect_of env lib app raw_data st s))"
    using False l(1)
    by (simp add: us_run_same(1,2) [OF l(3)] usockets_on_data_def us_effect_of_def L_def [symmetric] case_prod_beta Let_def split: option.split)
  with l that show ?thesis by blast
qed

text \<open>For every sequence of packets the effects on the socket are those that the registered routes determine.\<close>

theorem usockets_serves:
  assumes "list_all (\<lambda>(cf, ch, raw_data, st). CHR '':'' \<notin> set (ur_method (parse_http_request_usockets raw_data))) ps"
    and "app = app_built env now ops"
  shows "us_serve env lib ps s (Some app) = fold (\<lambda>(cf, ch, raw_data, st) s. fst (us_effect_of env lib app raw_data st s)) ps s"
proof -
  have "us_serve env lib ps s (Some app1) = fold (\<lambda>(cf, ch, raw_data, st) s. fst (us_effect_of env lib app raw_data st s)) ps s"
    if "app_ok env app1" "app_same app app1" for app1
    using assms(1) that
  proof (induction ps arbitrary: s app1)
    case (Cons p ps)
    obtain cf ch raw_data st where p: "p = (cf, ch, raw_data, st)" by (cases p)
    have m: "CHR '':'' \<notin> set (ur_method (parse_http_request_usockets raw_data))" using Cons.prems(1) p by simp
    obtain app2 where two: "usockets_on_data env lib cf ch raw_data s (Some app1) st
        = (fst (us_effect_of env lib app1 raw_data st s), Some app2, snd (us_effect_of env lib app1 raw_data st s))"
      "app_ok env app2" "app_same app1 app2"
      using on_data_ok [OF Cons.prems(2) m] by blast
    from Cons.prems(3) two(3) have "app_same app app2" by (rule app_same_trans)
    then have "us_serve env lib ps s' (Some app2) = fold (\<lambda>(cf, ch, raw_data, st) s. fst (us_effect_of env lib app raw_data st s)) ps s'" for s'
      using Cons.IH Cons.prems(1) two(2) p by simp
    moreover have "us_effect_of env lib app1 raw_data st s = us_effect_of env lib app raw_data st s"
      by (rule us_run_same(3) [OF Cons.prems(3)])
    ultimately show ?case using two(1) by (simp add: p)
  qed simp
  moreover have "app_same app app" by (rule app_same_refl)
  ultimately show ?thesis using fresh_ok [OF built_fresh] assms(2) by blast
qed

lemma demo_method: "ur_method (parse_http_request_usockets (''GET /a HTTP/1.1'' @ crlf2)) = ''GET''"
  by (simp only: crlf2_def) code_simp

theorem usockets_serves_witness:
  "us_wire (us_serve demo_app_env takes_all
       [((ck0, ck0), (ck0, ck0), ''GET /a HTTP/1.1'' @ crlf2, [] :: unit us_storage), ((ck0, ck0), (ck0, ck0), ''GET /b HTTP/1.0'' @ crlf2, [])] []
       (Some (app_built demo_app_env 0 demo_app_ops)))
   = ''HTTP/1.1 200 OK'' @ crlf @ ''Content-Type: text/plain; charset=utf-8'' @ crlf @ ''Content-Length: 2'' @ crlf
     @ ''Connection: keep-alive'' @ crlf2 @ ''ok''
     @ ''HTTP/1.1 404 Not Found'' @ crlf @ ''Content-Type: text/plain'' @ crlf @ ''Content-Length: 9'' @ crlf @ ''Connection: close'' @ crlf2
     @ ''Not Found''"
  (is "us_wire (us_serve _ _ ?ps _ _) = _")
proof -
  have "list_all (\<lambda>(cf, ch, raw_data, st). CHR '':'' \<notin> set (ur_method (parse_http_request_usockets raw_data))) ?ps"
    by code_simp
  from usockets_serves [OF this refl, of demo_app_env takes_all "[]" 0 demo_app_ops] show ?thesis
    by (simp only:) code_simp
qed

section \<open>Behaviours worth knowing\<close>

text \<open>The status of a handler's response is not sent: that of the context is, which the server starts with 200.  So the refusal of an upgrade, which
  leaves the context as it is, goes out as a success.\<close>

lemma response_status_ignored:
  assumes "cx_status_code ctx \<noteq> 0"
  shows "response_text ctx (response\<lparr>rs_status_code := n\<rparr>) is_http11 = response_text ctx response is_http11"
  using assms by (simp add: response_text_def)

text \<open>A request with the fields of an upgrade runs its handler without middleware, whatever the route is; so does the 404 handler.\<close>

lemma upgrade_skips_middleware:
  assumes "is_usockets_ws_upgrade raw_data"
  shows "us_run_match lib (app_use mw app) raw_data req rm s st = us_run_match lib app raw_data req rm s st"
  using assms by (simp add: us_run_match_def)

lemma not_found_skips_middleware: "us_run_not_found lib (app_use mw app) req s st = us_run_not_found lib app req s st"
  by (simp add: us_run_not_found_def app_use_def)

text \<open>Other requests reach middleware without their header fields, so a check of a token refuses them all.\<close>

lemma bearer_never_passes:
  "rs_status_code (fst (bearer_auth options (create_usockets_context method path params query body) next_fn)) = 401"
  by (simp add: bearer_auth_def create_usockets_context_def get_custom_def unauthorized_response_def context_status_def Let_def
      context_json_def context_text_def context_respond_def set_header_def)

text \<open>The lengths that the fixed answers announce are wrong.\<close>

lemma version_refusal_length:
  assumes "get_usockets_ws_version raw_data \<noteq> ''13''"
  shows "us_handed (fst (snd (handle_usockets_ws_upgrade lib raw_data rm ctx s st)))
    = us_handed s @ ''HTTP/1.1 426 Upgrade Required'' @ crlf @ ''Sec-WebSocket-Version: 13'' @ crlf @ ''Content-Type: text/plain'' @ crlf
      @ ''Content-Length: 28'' @ crlf2 @ ''Unsupported WebSocket version''"
    and "length ''Unsupported WebSocket version'' = 29"
  using assms by (simp_all add: handle_usockets_ws_upgrade_def)

lemma key_refusal_length:
  assumes "get_usockets_ws_version raw_data = ''13''" and "get_usockets_ws_key raw_data = ''''"
  shows "us_handed (fst (snd (handle_usockets_ws_upgrade lib raw_data rm ctx s st)))
    = us_handed s @ ''HTTP/1.1 400 Bad Request'' @ crlf @ ''Content-Type: text/plain'' @ crlf @ ''Content-Length: 30'' @ crlf2
      @ ''Missing Sec-WebSocket-Key header''"
    and "length ''Missing Sec-WebSocket-Key header'' = 32"
  using assms by (simp_all add: handle_usockets_ws_upgrade_def)

end
