(* ===== verification/Spec2Isabelle.thy ===== *)
theory Spec2Isabelle
  imports Lru_Cache Bsd_Udp Uv_Errno Uv_Tree_Loops Uv_Types Uv_Fs_Flags Trie_Router Fast_Router Hybrid_Router
    Uv_Records App File_Streams Rate_Limit Chunk_Manager Cookie Cors Retry Multipart Jwt
    Uv_Callbacks Us_Api Sse Usockets_Server
begin

text \<open>
  Verification of v-hono, a web framework in V on top of the C socket layer of uSockets and the headers of
  libuv.

  \<^bold>\<open>The program.\<close>  An application (\<^verbatim>\<open>app.v\<close>) registers handlers with routers; a server (\<^verbatim>\<open>picoev_server.v\<close> or
  \<^verbatim>\<open>usockets_server.v\<close>) reads requests, asks a router for the handler of method and path, and runs it.  The routers
  keep their results in route caches.  A handler may upgrade a connection to a WebSocket, whose frames
  are then exchanged under the state machine of \<^verbatim>\<open>websocket.v\<close>.  The uSockets server rests on
  \<^verbatim>\<open>usockets/src/bsd.c\<close>, which creates sockets and moves bytes and datagrams through system calls, and is compiled
  against the headers of libuv under \<^verbatim>\<open>usockets/include\<close>, whose bodies come as prebuilt libraries.

  \<^bold>\<open>Theories.\<close>

  \<^item> \<open>Prelude\<close>: V's maps in insertion order, strings, 32-bit conversions, byte memory, and lemmas on lists.

  \<^item> \<open>Cache_Interface\<close>: the locale \<open>route_cache\<close>, the contract between routers and caches: a cache returns only what
    was stored, and no operation makes it hold more.  \<open>Lru_Cache\<close> and \<open>Fast_Route_Cache\<close> interpret it.

  \<^item> \<open>Lru_Cache\<close> (\<^verbatim>\<open>cache.v\<close>, \<^verbatim>\<open>ContextLRUCache\<close>): a heap of nodes with previous and next pointers, a map, size,
    statistics and time-outs.  The specification is the list of entries in order of recency; \<^verbatim>\<open>get\<close> and \<^verbatim>\<open>put\<close>
    refine it on every branch, every run stays healthy by the code's own check and within its capacity, and
    an entry with an empty key is never evicted.

  \<^item> \<open>Fast_Route_Cache\<close> (\<^verbatim>\<open>cache.v\<close>, \<^verbatim>\<open>FastRouteCache\<close>): a bounded map that is emptied when it is full.

  \<^item> \<open>Route_Match\<close> (\<^verbatim>\<open>request.v\<close>, \<^verbatim>\<open>router.v\<close>): handlers, match results, cache keys and the score of a path.

  \<^item> \<open>Trie_Router\<close> (\<^verbatim>\<open>trie_router.v\<close>), \<open>Fast_Router\<close> (\<^verbatim>\<open>fast_router.v\<close>), \<open>Hybrid_Router\<close> (\<^verbatim>\<open>router.v\<close>): registration and
    matching of each router.  The trie implements greedy matching of the registered patterns; the fast and the hybrid
    router answer under every sequence of requests as they would without caches; the fast router's answer is the
    last handler of a static path or else a matching route of least complexity.  The places where caches and routers fail
    (keys without the method, stale entries, a sorting that is switched on behind the caches, unreachable routes) are theorems too.

  \<^item> \<open>Bsd_Socket\<close> (\<^verbatim>\<open>usockets/src/bsd.c\<close>): every function that creates, configures, reads, writes or closes a socket,
    for Windows, Linux, macOS and other builds, as a computation over the history of system calls.  For every
    behaviour of the system the creation functions free each address list once and leave open exactly
    the descriptor they return; the options are set in the right order; \<^verbatim>\<open>bsd_write2\<close> reports what is on the wire.

  \<^item> \<open>Bsd_Udp\<close> (\<^verbatim>\<open>usockets/src/bsd.c\<close>): the packet buffer as a block of bytes with slots, filling and reading it, control
    messages, and the loops that replace \<^verbatim>\<open>sendmmsg\<close> and \<^verbatim>\<open>recvmmsg\<close>: what is stored is what is sent and read, and
    nothing outside the slot changes.

  \<^item> \<open>Uv_Tree\<close>, \<open>Uv_Tree_Insert\<close>, \<open>Uv_Tree_Remove\<close> (\<^verbatim>\<open>uv/tree.h\<close>): the pointer code of the red-black tree on a heap of
    nodes, in which following a null pointer is \<open>None\<close>.  Searches, walks, insertion and removal end, follow no null
    pointer, find the right node, and keep order, links and colours.  \<open>Uv_Tree_Loops\<close> adds the loops whose body may remove the node
    it visits: a loop that takes out any set of nodes visits all and leaves a red-black tree of the others.

  \<^item> \<open>Uv_Errno\<close> (\<^verbatim>\<open>uv/errno.h\<close>, \<^verbatim>\<open>uv.h\<close>), \<open>Uv_Types\<close> (\<^verbatim>\<open>uv.h\<close>, \<^verbatim>\<open>uv/version.h\<close>), \<open>Uv_Fs_Flags\<close> (\<^verbatim>\<open>uv/unix.h\<close>, \<^verbatim>\<open>uv/win.h\<close>): the tables of
    error codes, handle and request types and flags; codes are complete, negative and distinct, flags
    can be read back from combinations.

  \<^item> \<open>C_Layout\<close>, \<open>Uv_Structs\<close> (\<^verbatim>\<open>uv.h\<close> and the platform headers): C structures with sizes, alignments and offsets, and the
    requests and handles of libuv on every platform.  A pointer to a derived structure may be used as one to its
    base: every member of the base has the same offset; the unions hold each of their members.

  \<^item> \<open>Uv_Records\<close> (the same headers, \<^verbatim>\<open>libusockets.h\<close>): the result and option structures, synchronisation objects, enumerations and
    constants, and the choice of the event system.

  \<^item> \<open>Uv_Api\<close>, \<open>Uv_Callbacks\<close> (\<^verbatim>\<open>uv.h\<close>): the declared functions and callback types as tables of C types, with the checks that
    a callback gets the object that was passed to the function that registers it, or a pointer to its base, and that the object has a member
    to keep it; two functions are exceptions.  \<open>Us_Api\<close> (\<^verbatim>\<open>libusockets.h\<close>, \<^verbatim>\<open>usockets/usockets.v\<close>): the functions of uSockets, the binding of V and the
    handlers of the server; binding and handlers agree with the header in every parameter and result.

  \<^item> \<open>Ws_Frame\<close>, \<open>Ws_Context\<close>, \<open>Ws_Handshake\<close> (\<^verbatim>\<open>websocket.v\<close>): frames with V's integer conversions, the connection with its
    callbacks, and the opening handshake.  Frames and close frames survive the round trip; the outcome of decoding is
    known for every input; every operation is a sequence of atomic actions, from which the state history is a chain of
    changes without a gap, and, unless a state is forced, of allowed ones, and nothing but close frames follows a close frame; forcing or
    assigning a state breaks both.  The upgrade handler accepts exactly the acceptable requests.

  \<^item> \<open>Http_Context\<close> (\<^verbatim>\<open>request.v\<close>): the context a handler works on, with its responses, store and redirect.

  \<^item> \<open>App\<close> (\<^verbatim>\<open>app.v\<close>): registration with the routers, mounting of sub-applications, middleware, dispatch and the query
    parser.  It composes the routers: from the facts on the fast and the hybrid router follows that an application answers
    every sequence of requests as its routes alone determine; middleware run by index is the nesting of all around
    the handler; the query parser equals splitting; mounted routes are served under their prefix.

  \<^item> \<open>Codec\<close>: bytes, SHA-1, SHA-256 and Base64 of V's standard library, written out for the handshake and the cookies.

  \<^item> \<open>Security\<close> (\<^verbatim>\<open>security.v\<close>): path validation and the validators of names, hashes and numbers.  An accepted path, opened in
    any directory, stays below it.  \<open>Static_Files\<close> (\<^verbatim>\<open>static.v\<close>, the file functions of \<^verbatim>\<open>request.v\<close>) builds on it: two file systems
    that agree below the root give the same answer to every request; a hit answers with the file or with 304.  \<open>File_Streams\<close>
    (\<^verbatim>\<open>request.v\<close>) adds ranges and large files in pieces: a requested range is answered with exactly its bytes.

  \<^item> \<open>Rate_Limit\<close> (\<^verbatim>\<open>rate_limit.v\<close>): the store of counters behind the locale \<open>rate_store\<close>, and the middleware: at most twice the
    limit in every window, no refusal without cause.

  \<^item> \<open>Upload_Db\<close> (\<^verbatim>\<open>database.v\<close>) and \<open>Chunk_Manager\<close> (\<^verbatim>\<open>chunk_manager.v\<close>): the upload tables with failing statements, and multipart
    uploads over them and over a storage provider that may fail.  A statement is its text; when its values hold no quote it
    does to the tables what it was written to do, otherwise what the SQL engine, a parameter, makes of the text.  With such values the reachable
    states keep the invariant of the tables by rule induction over the operations, a completion hands over all parts once in order, and an
    interrupted upload can be finished; with a quote in an identifier the first two fail.

  \<^item> \<open>Cookie\<close> (\<^verbatim>\<open>cookie.v\<close>): cookies are read back as they were set; a signed cookie is accepted exactly when its signature is that of
    its value.

  \<^item> \<open>Storage_Errors\<close> (\<^verbatim>\<open>storage_errors.v\<close>) and \<open>Retry\<close> (\<^verbatim>\<open>retry.v\<close>): the errors of the storage back ends and the executor that repeats
    an operation.  The loop equals a search for the first final outcome; its calls and pauses are bounded; the kind of an error can be lost
    on the way through its message.

  \<^item> \<open>Cors\<close> (\<^verbatim>\<open>cors.v\<close>): the middleware names an allowed origin exactly when its configuration grants one.

  \<^item> \<open>Multipart\<close> (\<^verbatim>\<open>multipart.v\<close>): what the form parser makes of every form written in the usual way: the parts in order, each with a
    line break too many and the default type.

  \<^item> \<open>Bearer_Auth\<close> (\<^verbatim>\<open>bearer_auth.v\<close>) and \<open>Jwt\<close> (\<^verbatim>\<open>jwt.v\<close>): authentication by a fixed token and by a signed one.  The handler behind either
    middleware runs exactly for the requests that present an accepted token; which tokens those are is known; a payload that was
    signed is read back.

  \<^item> \<open>Us_Socket\<close> (\<^verbatim>\<open>usockets/usockets.v\<close>), \<open>Streaming\<close>, \<open>Sse\<close> (\<^verbatim>\<open>streaming.v\<close>): sockets as the list of what was done with them, the writers of both servers
    behind the locale \<open>writer_contract\<close>, streams and events.  Whatever a callback does, the wire holds the beginning of one chunked message;
    readers of the chunked coding and of the event stream format get back what was written.

  \<^item> \<open>Usockets_Request\<close>, \<open>Usockets_Server\<close> (\<^verbatim>\<open>usockets_server.v\<close>): a request in the usual form is read back with its parts, and what the server does
    with a sequence of packets is what the routes alone determine.

  \<^bold>\<open>State and errors.\<close>  Structures of the sources are records, pointers are optional addresses into a heap, and each
  function takes the state and returns it.  Error returns are sums or options; undefined behaviour of C is \<open>None\<close>, a
  panic of V is a value of its own.  C integers are words or integers with the wrap-around written out where
  a value can leave its range.

  \<^bold>\<open>Parameters.\<close>  The operating system answers a system call from the history of calls; the clock, the sender and the closing function of
  a WebSocket answer from the history of effects.  The kernel and the library answer a write with how much of it they took.  The regular expression engine,
  the SQL engine (for statements with a quote in a value), the comparison function of the tree, the sort functions of the routers (a sorted permutation), the URL parser, the file system, the storage provider, MD5, SHA-384,
  SHA-512, the Base64 decoder, the JSON parser, floating point operations, random numbers, the constants and sizes of the system headers, the
  callbacks of a WebSocket and the result of a 32-bit shift by 32 bits or more are arguments.  What a property needs of them is
  among its hypotheses; a callback of a WebSocket or a stream is asked to reach the connection only through its operations.

  \<^bold>\<open>Loops.\<close>  The pointer loops of the tree are partial functions, which are proved to return on well-formed trees.  The loop of
  \<^verbatim>\<open>clear\<close> in \<open>Lru_Cache\<close> runs with the number of allocated nodes as fuel, which is enough because a wiped node has no successor.
  The loop that reads a large file is a partial function and is proved to return for a file that keeps its content.
  All other loops are total recursions.

  \<^bold>\<open>Not modelled.\<close>  The picoev server, the event loops and the ready-made middleware (\<^verbatim>\<open>picoev_server.v\<close>, \<^verbatim>\<open>middleware.v\<close>):
  callbacks and closures around the modelled parts.  User accounts, validation, compression, the upload handlers, the
  storage back ends, logging and configuration: mostly string formatting and input and output through modules of V.  SQLite and
  \<^verbatim>\<open>list_files\<close>, which builds its query from options.  The bodies of the functions that \<^verbatim>\<open>uv.h\<close> and
  \<^verbatim>\<open>libusockets.h\<close> declare are in the prebuilt libraries.  Functions that only print (\<^verbatim>\<open>analyze_performance\<close> and the like) are left out of the routers.
\<close>

end
